(* ===== verification/Prelude.thy ===== *)
theory Prelude
  imports Complex_Main "HOL-Library.AList" "HOL-Library.Char_ord" "HOL-Library.List_Lexorder"
    "HOL-Library.Product_Lexorder"
begin

text \<open>
  What the components share: the values Python code of the repository passes around (identifiers,
  times, JSON values, insertion-ordered dictionaries, exceptions), the few string methods it uses,
  tables as lists of rows that are found and updated by identifier, and the lemmas about them.

  A \<open>char\<close> stands for a code point below 256 (Python's \<open>str\<close> restricted to Latin-1), so
  \<open>length\<close> counts code points as Python's \<open>len\<close> does. Python floats are exact rationals
  here: no property below depends on rounding.
\<close>

named_theorems row_simps "facts about finding and updating rows of a table by identifier"

section \<open>Identifiers, times\<close>

text \<open>
  A \<open>uuid.UUID\<close> is a natural number. A \<open>datetime\<close> is a number of microseconds;
  \<open>timedelta(seconds=n)\<close> is \<open>seconds n\<close>.
\<close>

type_synonym uuid = nat
type_synonym time = int
type_synonym path = string

definition seconds :: "int \<Rightarrow> time" where
  "seconds n = 1000000 * n"

lemma seconds_mono: "seconds a \<le> seconds b \<longleftrightarrow> a \<le> b"
  by (simp add: seconds_def)

lemma seconds_pos: "0 < seconds a \<longleftrightarrow> 0 < a"
  by (simp add: seconds_def)

section \<open>JSON values and dictionaries\<close>

datatype json =
    JNull
  | JBool bool
  | JInt int
  | JReal rat
  | JStr string
  | JArr "json list"
  | JObj "(string \<times> json) list"

text \<open>A Python dictionary with string keys: insertion order is kept, keys are distinct.\<close>

type_synonym dict = "(string \<times> json) list"

abbreviation dict_get :: "('k \<times> 'v) list \<Rightarrow> 'k \<Rightarrow> 'v option" where
  "dict_get d k \<equiv> map_of d k"

text \<open>\<open>d[k] = v\<close>: in place when the key exists, at the end when it is new.\<close>

abbreviation dict_set :: "'k \<Rightarrow> 'v \<Rightarrow> ('k \<times> 'v) list \<Rightarrow> ('k \<times> 'v) list" where
  "dict_set k v d \<equiv> AList.update k v d"

text \<open>\<open>{**a, **b}\<close> and \<open>a.update(b)\<close>.\<close>

definition dict_merge :: "('k \<times> 'v) list \<Rightarrow> ('k \<times> 'v) list \<Rightarrow> ('k \<times> 'v) list" where
  "dict_merge a b = fold (\<lambda>(k, v). dict_set k v) b a"

definition dict_pop :: "'k \<Rightarrow> ('k \<times> 'v) list \<Rightarrow> ('k \<times> 'v) list" where
  "dict_pop k d = filter (\<lambda>(k', _). k' \<noteq> k) d"

abbreviation distinct_keys :: "('k \<times> 'v) list \<Rightarrow> bool" where
  "distinct_keys d \<equiv> distinct (map fst d)"

lemma map_of_dict_merge:
  assumes "distinct_keys b"
  shows "map_of (dict_merge a b) = map_of a ++ map_of b"
  using assms
proof (induction b arbitrary: a)
  case Nil
  then show ?case by (simp add: dict_merge_def)
next
  case (Cons kv b)
  obtain k v where kv: "kv = (k, v)" by (cases kv)
  from Cons.prems have k: "k \<notin> fst ` set b" by (simp add: kv)
  have "map_of (dict_merge a (kv # b)) = map_of (dict_set k v a) ++ map_of b"
    using Cons.IH [of "dict_set k v a"] Cons.prems by (simp add: kv dict_merge_def)
  also have "\<dots> = map_of a ++ map_of (kv # b)"
    using k map_of_eq_None_iff [of b k] by (auto simp: kv update_conv' fun_eq_iff map_add_def
      split: option.split)
  finally show ?case .
qed

lemma dict_get_merge_right:
  "distinct_keys b \<Longrightarrow> dict_get b k = Some v \<Longrightarrow> dict_get (dict_merge a b) k = Some v"
  by (simp add: map_of_dict_merge)

lemma dict_get_merge_left:
  "distinct_keys b \<Longrightarrow> dict_get b k = None \<Longrightarrow> dict_get (dict_merge a b) k = dict_get a k"
  by (simp add: map_of_dict_merge map_add_def)

lemma distinct_keys_set [simp]: "distinct_keys (dict_set k v d) \<longleftrightarrow> distinct_keys d"
  by (induction d) (auto simp: dom_update image_iff)

lemma distinct_keys_merge: "distinct_keys a \<Longrightarrow> distinct_keys (dict_merge a b)"
  by (induction b arbitrary: a) (auto simp: dict_merge_def)

lemma dict_get_pop: "dict_get (dict_pop k d) k' = (if k' = k then None else dict_get d k')"
  by (induction d) (auto simp: dict_pop_def)

lemma dict_get_set: "dict_get (dict_set k v d) k' = (if k' = k then Some v else dict_get d k')"
  by (simp add: update_conv')

lemma distinct_keys_pop: "distinct_keys d \<Longrightarrow> distinct_keys (dict_pop k d)"
  by (induction d) (auto simp: dict_pop_def)

lemma dict_pop_absent: "k \<notin> fst ` set d \<Longrightarrow> dict_pop k d = d"
  by (induction d) (auto simp: dict_pop_def)

lemma dict_pop_append: "dict_pop k (d @ [(k, v)]) = dict_pop k d"
  by (simp add: dict_pop_def)

subsection \<open>Truth values\<close>

text \<open>Python's \<open>bool(x)\<close> on JSON values.\<close>

fun py_truthy :: "json \<Rightarrow> bool" where
  "py_truthy JNull = False"
| "py_truthy (JBool b) = b"
| "py_truthy (JInt i) = (i \<noteq> 0)"
| "py_truthy (JReal r) = (r \<noteq> 0)"
| "py_truthy (JStr s) = (s \<noteq> [])"
| "py_truthy (JArr xs) = (xs \<noteq> [])"
| "py_truthy (JObj d) = (d \<noteq> [])"

text \<open>\<open>bool(d.get(k))\<close>: a missing key is falsy.\<close>

definition dict_truthy :: "dict \<Rightarrow> string \<Rightarrow> bool" where
  "dict_truthy d k = (case dict_get d k of None \<Rightarrow> False | Some v \<Rightarrow> py_truthy v)"

text \<open>\<open>x or y\<close> where \<open>x\<close> is an optional object, which is truthy whenever it is not \<open>None\<close>.\<close>

fun or_else :: "'a option \<Rightarrow> 'a option \<Rightarrow> 'a option" where
  "or_else None y = y"
| "or_else (Some x) y = Some x"

lemma or_else_None [simp]: "or_else x None = x"
  by (cases x) simp_all

text \<open>\<open>x or y\<close> where \<open>x\<close> is an optional string: the empty string is falsy too.\<close>

fun str_or :: "string option \<Rightarrow> string option \<Rightarrow> string option" where
  "str_or None y = y"
| "str_or (Some s) y = (if s = [] then y else Some s)"

definition str_truthy :: "string option \<Rightarrow> bool" where
  "str_truthy s = (case s of None \<Rightarrow> False | Some t \<Rightarrow> t \<noteq> [])"

lemma str_truthy_simps [simp]:
  "str_truthy None = False" "str_truthy (Some s) = (s \<noteq> [])"
  by (simp_all add: str_truthy_def)

subsection \<open>Equality\<close>

text \<open>
  Python's \<open>==\<close> on JSON values: numbers and booleans compare by value, lists element by
  element, dictionaries as maps, whatever the order of their keys (PostgreSQL's JSONB does not
  keep it).
\<close>

fun json_number :: "json \<Rightarrow> rat option" where
  "json_number (JBool b) = Some (if b then 1 else 0)"
| "json_number (JInt i) = Some (of_int i)"
| "json_number (JReal r) = Some r"
| "json_number _ = None"

fun json_eq :: "json \<Rightarrow> json \<Rightarrow> bool"
  and json_list_eq :: "json list \<Rightarrow> json list \<Rightarrow> bool"
  and json_sub :: "(string \<times> json) list \<Rightarrow> (string \<times> json) list \<Rightarrow> bool" where
  "json_eq JNull JNull = True"
| "json_eq (JStr s) (JStr t) = (s = t)"
| "json_eq (JArr xs) (JArr ys) = json_list_eq xs ys"
| "json_eq (JObj d) (JObj e) = (length d = length e \<and> json_sub d e)"
| "json_eq a b = (case (json_number a, json_number b) of
     (Some x, Some y) \<Rightarrow> x = y | _ \<Rightarrow> False)"
| "json_list_eq [] [] = True"
| "json_list_eq (x # xs) (y # ys) = (json_eq x y \<and> json_list_eq xs ys)"
| "json_list_eq _ _ = False"
| "json_sub [] e = True"
| "json_sub ((k, v) # d) e =
     ((case dict_get e k of None \<Rightarrow> False | Some w \<Rightarrow> json_eq v w) \<and> json_sub d e)"

text \<open>A value whose dictionaries have distinct keys, as every Python dictionary has.\<close>

fun wf_json :: "json \<Rightarrow> bool" where
  "wf_json (JArr xs) = (\<forall>x \<in> set xs. wf_json x)"
| "wf_json (JObj d) = (distinct_keys d \<and> (\<forall>kv \<in> set d. wf_json (snd kv)))"
| "wf_json _ = True"

definition wf_dict :: "dict \<Rightarrow> bool" where
  "wf_dict d = wf_json (JObj d)"

lemma json_sub_iff:
  "json_sub d e \<longleftrightarrow> (\<forall>kv \<in> set d. \<exists>w. dict_get e (fst kv) = Some w \<and> json_eq (snd kv) w)"
  by (induction d) (auto split: option.splits)

lemma json_eq_refl: "wf_json j \<Longrightarrow> json_eq j j"
proof (induction j)
  case (JArr xs)
  then show ?case
  proof (induction xs)
    case (Cons x xs)
    then show ?case by simp
  qed simp
next
  case (JObj d)
  have "\<exists>w. dict_get d k = Some w \<and> json_eq v w" if "(k, v) \<in> set d" for k v
  proof -
    from JObj.prems have "distinct_keys d" by simp
    then have "dict_get d k = Some v" using that by (rule map_of_is_SomeI)
    moreover have "json_eq v v"
      using JObj.IH [OF that, of v] JObj.prems that by force
    ultimately show ?thesis by simp
  qed
  then show ?case by (auto simp: json_sub_iff)
qed simp_all

definition dict_eq :: "dict \<Rightarrow> dict \<Rightarrow> bool" where
  "dict_eq d e = json_eq (JObj d) (JObj e)"

lemma dict_eq_refl: "wf_dict d \<Longrightarrow> dict_eq d d"
  unfolding dict_eq_def wf_dict_def by (rule json_eq_refl)

section \<open>Exceptions\<close>

text \<open>
  \<open>Http_Error\<close> is the \<open>HTTPException\<close> that \<open>api_error\<close> builds (\<open>app/api/errors.py\<close>):
  status, code, message. \<open>Py_Error\<close> is any other exception: its class name, whether the class
  is a subclass of \<open>ValueError\<close>, and \<open>str(exc)\<close>.
\<close>

datatype exn =
    Http_Error nat string string
  | Py_Error string bool string

fun exn_class :: "exn \<Rightarrow> string" where
  "exn_class (Http_Error _ _ _) = ''HTTPException''"
| "exn_class (Py_Error c _ _) = c"

fun exn_is_value_error :: "exn \<Rightarrow> bool" where
  "exn_is_value_error (Http_Error _ _ _) = False"
| "exn_is_value_error (Py_Error _ v _) = v"

fun exn_message :: "exn \<Rightarrow> string" where
  "exn_message (Http_Error _ _ m) = m"
| "exn_message (Py_Error _ _ m) = m"

definition value_error :: "string \<Rightarrow> exn" where
  "value_error m = Py_Error ''ValueError'' True m"

section \<open>Strings\<close>

definition is_space :: "char \<Rightarrow> bool" where
  "is_space c = (let n = (of_char c :: nat) in
     (9 \<le> n \<and> n \<le> 13) \<or> (28 \<le> n \<and> n \<le> 32) \<or> n = 133 \<or> n = 160)"

definition is_upper_ascii :: "char \<Rightarrow> bool" where
  "is_upper_ascii c = (let n = (of_char c :: nat) in 65 \<le> n \<and> n \<le> 90)"

definition is_lower_ascii :: "char \<Rightarrow> bool" where
  "is_lower_ascii c = (let n = (of_char c :: nat) in 97 \<le> n \<and> n \<le> 122)"

definition is_digit_ascii :: "char \<Rightarrow> bool" where
  "is_digit_ascii c = (let n = (of_char c :: nat) in 48 \<le> n \<and> n \<le> 57)"

definition is_letter_ascii :: "char \<Rightarrow> bool" where
  "is_letter_ascii c = (is_upper_ascii c \<or> is_lower_ascii c)"

text \<open>\<open>str.lower\<close> on code points below 256.\<close>

definition char_lower :: "char \<Rightarrow> char" where
  "char_lower c = (let n = (of_char c :: nat) in
     if (65 \<le> n \<and> n \<le> 90) \<or> (192 \<le> n \<and> n \<le> 222 \<and> n \<noteq> 215) then char_of (n + 32) else c)"

definition str_lower :: "string \<Rightarrow> string" where
  "str_lower = map char_lower"

definition str_strip :: "string \<Rightarrow> string" where
  "str_strip s = rev (dropWhile is_space (rev (dropWhile is_space s)))"

text \<open>\<open>s.split()\<close>: the maximal runs of non-space characters.\<close>

fun split_from :: "string \<Rightarrow> string \<Rightarrow> string list" where
  "split_from acc [] = (if acc = [] then [] else [rev acc])"
| "split_from acc (c # cs) =
     (if is_space c
      then (if acc = [] then split_from [] cs else rev acc # split_from [] cs)
      else split_from (c # acc) cs)"

definition str_split :: "string \<Rightarrow> string list" where
  "str_split s = split_from [] s"

fun str_join :: "string \<Rightarrow> string list \<Rightarrow> string" where
  "str_join sep [] = []"
| "str_join sep [x] = x"
| "str_join sep (x # y # zs) = x @ sep @ str_join sep (y # zs)"

definition is_word :: "string \<Rightarrow> bool" where
  "is_word w \<longleftrightarrow> w \<noteq> [] \<and> (\<forall>c \<in> set w. \<not> is_space c)"

lemma split_from_words:
  "(\<forall>c \<in> set acc. \<not> is_space c) \<Longrightarrow> w \<in> set (split_from acc s) \<Longrightarrow> is_word w"
proof (induction acc s rule: split_from.induct)
  case (1 acc)
  then show ?case by (auto simp: is_word_def split: if_splits)
next
  case (2 acc c cs)
  show ?case
  proof (cases "is_space c")
    case True
    then show ?thesis using 2 by (cases "acc = []") (auto simp: is_word_def)
  next
    case False
    then show ?thesis using 2 by auto
  qed
qed

lemma str_split_words: "w \<in> set (str_split s) \<Longrightarrow> is_word w"
  unfolding str_split_def by (rule split_from_words [of "[]"]) simp_all

lemma split_from_nonspace:
  "(\<forall>c \<in> set w. \<not> is_space c) \<Longrightarrow> split_from acc (w @ s) = split_from (rev w @ acc) s"
  by (induction w arbitrary: acc) auto

lemma is_space_blank [simp]: "is_space CHR '' ''"
  by (simp add: is_space_def)

text \<open>Joining words with single spaces and splitting again gives the words back.\<close>

lemma str_split_join:
  "(\<And>w. w \<in> set ws \<Longrightarrow> is_word w) \<Longrightarrow> str_split (str_join '' '' ws) = ws"
proof (induction ws rule: induct_list012)
  case 1
  then show ?case by (simp add: str_split_def)
next
  case (2 x)
  then have "is_word x" by simp
  then show ?case
    using split_from_nonspace [of x "[]" "[]"] by (simp add: str_split_def is_word_def)
next
  case (3 x y zs)
  then have "is_word x" by simp
  moreover have "str_split (str_join '' '' (y # zs)) = y # zs" using 3 by simp
  ultimately show ?case
    using split_from_nonspace [of x "[]" "'' '' @ str_join '' '' (y # zs)"]
    by (simp add: str_split_def is_word_def)
qed

text \<open>\<open>s.split(c)\<close> and \<open>s.partition(c)\<close> for a separator of one character.\<close>

fun split_on :: "char \<Rightarrow> string \<Rightarrow> string list" where
  "split_on c [] = [[]]"
| "split_on c (x # xs) =
     (if x = c then [] # split_on c xs
      else (case split_on c xs of [] \<Rightarrow> [[x]] | y # ys \<Rightarrow> (x # y) # ys))"

definition str_partition :: "char \<Rightarrow> string \<Rightarrow> string \<times> string" where
  "str_partition c s = (takeWhile (\<lambda>x. x \<noteq> c) s, tl (dropWhile (\<lambda>x. x \<noteq> c) s))"

text \<open>\<open>Path(s).name\<close>, \<open>Path(s).suffix\<close> and \<open>Path(s).stem\<close>.\<close>

definition path_name :: "string \<Rightarrow> string" where
  "path_name s =
     (case rev (filter (\<lambda>x. x \<noteq> [] \<and> x \<noteq> ''.'') (split_on (CHR ''/'') s)) of
        [] \<Rightarrow> [] | x # _ \<Rightarrow> x)"

definition path_suffix :: "string \<Rightarrow> string" where
  "path_suffix s =
     (let name = path_name s;
          ext = rev (takeWhile (\<lambda>c. c \<noteq> CHR ''.'') (rev name)) in
      if ext \<noteq> [] \<and> length ext + 1 < length name then CHR ''.'' # ext else [])"

definition path_stem :: "string \<Rightarrow> string" where
  "path_stem s = take (length (path_name s) - length (path_suffix s)) (path_name s)"

text \<open>Decimal notation, as \<open>str\<close> of a non-negative integer.\<close>

definition digit_char :: "nat \<Rightarrow> char" where
  "digit_char d = char_of (48 + d)"

fun show_nat :: "nat \<Rightarrow> string" where
  "show_nat n = (if n < 10 then [digit_char n] else show_nat (n div 10) @ [digit_char (n mod 10)])"

declare show_nat.simps [simp del]

definition show_int :: "int \<Rightarrow> string" where
  "show_int i = (if i < 0 then ''-'' @ show_nat (nat (- i)) else show_nat (nat i))"

definition read_digit :: "char \<Rightarrow> nat" where
  "read_digit c = of_char c - 48"

lemma read_digit_char: "d < 10 \<Longrightarrow> read_digit (digit_char d) = d"
  by (simp add: read_digit_def digit_char_def)

lemma read_show_nat: "foldl (\<lambda>n c. 10 * n + read_digit c) 0 (show_nat n) = n"
proof (induction n rule: show_nat.induct)
  case (1 n)
  show ?case
  proof (cases "n < 10")
    case True
    then show ?thesis by (simp add: show_nat.simps [of n] read_digit_char)
  next
    case False
    with 1 show ?thesis by (simp add: show_nat.simps [of n] read_digit_char)
  qed
qed

lemma show_nat_inject [simp]: "show_nat m = show_nat n \<longleftrightarrow> m = n"
  by (metis read_show_nat)

section \<open>Lists\<close>

text \<open>The slice \<open>xs[a:b]\<close> for \<open>0 <= a\<close> and \<open>0 <= b\<close>.\<close>

definition slice :: "nat \<Rightarrow> nat \<Rightarrow> 'a list \<Rightarrow> 'a list" where
  "slice a b xs = take (b - a) (drop a xs)"

lemma slice_words: "set (slice a b ws) \<subseteq> set ws"
  unfolding slice_def by (meson in_set_dropD in_set_takeD subsetI)

lemma length_slice: "b \<le> length ws \<Longrightarrow> length (slice a b ws) = b - a"
  by (simp add: slice_def)

text \<open>\<open>dict.fromkeys(xs)\<close>: the elements in the order of their first occurrence.\<close>

definition dict_fromkeys :: "'a list \<Rightarrow> 'a list" where
  "dict_fromkeys xs = rev (remdups (rev xs))"

lemma dict_fromkeys [simp]:
  "set (dict_fromkeys xs) = set xs" "distinct (dict_fromkeys xs)"
  by (simp_all add: dict_fromkeys_def)

text \<open>\<open>x or y\<close> where \<open>x\<close> is an optional integer: zero is falsy too.\<close>

fun int_or :: "int option \<Rightarrow> int option \<Rightarrow> int option" where
  "int_or None y = y"
| "int_or (Some i) y = (if i = 0 then y else Some i)"

text \<open>\<open>max(xs, default=d)\<close>; \<open>min\<close> and \<open>max\<close> of the values that are not \<open>None\<close>.\<close>

fun list_max :: "'a::linorder \<Rightarrow> 'a list \<Rightarrow> 'a" where
  "list_max d [] = d"
| "list_max d (x # xs) = fold max xs x"

lemma list_max_upper: "x \<in> set xs \<Longrightarrow> x \<le> list_max z xs"
  by (cases xs) (simp_all add: Max.set_eq_fold [symmetric] del: list.set, auto)

fun some_values :: "'a option list \<Rightarrow> 'a list" where
  "some_values [] = []"
| "some_values (None # xs) = some_values xs"
| "some_values (Some x # xs) = x # some_values xs"

definition min_present :: "'a::linorder option \<Rightarrow> 'a option list \<Rightarrow> 'a option" where
  "min_present d xs = (case some_values xs of [] \<Rightarrow> d | y # ys \<Rightarrow> Some (fold min ys y))"

definition max_present :: "'a::linorder option \<Rightarrow> 'a option list \<Rightarrow> 'a option" where
  "max_present d xs = (case some_values xs of [] \<Rightarrow> d | y # ys \<Rightarrow> Some (fold max ys y))"

text \<open>\<open>next((x for x in xs if x), None)\<close> over optional strings.\<close>

fun first_truthy :: "string option list \<Rightarrow> string option" where
  "first_truthy [] = None"
| "first_truthy (x # xs) = (if str_truthy x then x else first_truthy xs)"

text \<open>\<open>needle in hay\<close> for strings.\<close>

definition str_contains :: "string \<Rightarrow> string \<Rightarrow> bool" where
  "str_contains needle hay =
     list_ex (\<lambda>i. take (length needle) (drop i hay) = needle) [0..<Suc (length hay)]"

lemma set_some_values: "x \<in> set (some_values xs) \<longleftrightarrow> Some x \<in> set xs"
  by (induction xs rule: some_values.induct) auto

section \<open>Tables: rows found and updated by identifier\<close>

text \<open>
  A database table is the list of its rows in insertion order; \<open>session.get(T, id)\<close> is
  \<open>find_row\<close>, the assignments to an object's attributes are \<open>update_row\<close>.
\<close>

definition find_row :: "('r \<Rightarrow> uuid) \<Rightarrow> uuid \<Rightarrow> 'r list \<Rightarrow> 'r option" where
  "find_row key i rows = find (\<lambda>r. key r = i) rows"

definition update_row :: "('r \<Rightarrow> uuid) \<Rightarrow> uuid \<Rightarrow> ('r \<Rightarrow> 'r) \<Rightarrow> 'r list \<Rightarrow> 'r list" where
  "update_row key i f rows = map (\<lambda>r. if key r = i then f r else r) rows"

lemma find_row_Nil [simp]: "find_row key i [] = None"
  by (simp add: find_row_def)

lemma find_row_Cons [simp]:
  "find_row key i (r # rs) = (if key r = i then Some r else find_row key i rs)"
  by (simp add: find_row_def)

lemma find_row_append [simp]:
  "find_row key i (xs @ ys) = or_else (find_row key i xs) (find_row key i ys)"
  by (induction xs) auto

lemma find_row_Some [row_simps]: "find_row key i rows = Some r \<Longrightarrow> r \<in> set rows \<and> key r = i"
  by (induction rows) (auto split: if_splits)

lemma find_row_None [row_simps]: "find_row key i rows = None \<longleftrightarrow> i \<notin> key ` set rows"
  by (induction rows) auto

lemma find_row_unique [row_simps]:
  "distinct (map key rows) \<Longrightarrow> r \<in> set rows \<Longrightarrow> find_row key (key r) rows = Some r"
  by (induction rows) (auto simp: rev_image_eqI)

lemma update_row_Nil [simp]: "update_row key i f [] = []"
  by (simp add: update_row_def)

lemma update_row_Cons [simp]:
  "update_row key i f (r # rs) = (if key r = i then f r else r) # update_row key i f rs"
  by (simp add: update_row_def)

lemma length_update_row [simp]: "length (update_row key i f rows) = length rows"
  by (simp add: update_row_def)

lemma map_key_update_row:
  "(\<And>r. key (f r) = key r) \<Longrightarrow> map key (update_row key i f rows) = map key rows"
  by (induction rows) auto

lemma find_row_update:
  assumes "\<And>r. key (f r) = key r"
  shows "find_row key j (update_row key i f rows) =
    (if j = i then map_option f (find_row key i rows) else find_row key j rows)"
  by (induction rows) (auto simp: assms)

lemma update_row_append: "update_row key i f (xs @ ys) = update_row key i f xs @ update_row key i f ys"
  by (simp add: update_row_def)

lemma update_row_absent: "i \<notin> key ` set rows \<Longrightarrow> update_row key i f rows = rows"
  by (induction rows) auto

lemma set_update_row:
  "set (update_row key i f rows) = (\<lambda>r. if key r = i then f r else r) ` set rows"
  by (simp add: update_row_def)

lemma update_row_ball:
  "(\<And>r. r \<in> set rows \<Longrightarrow> key r = i \<Longrightarrow> P (f r)) \<Longrightarrow>
   (\<And>r. r \<in> set rows \<Longrightarrow> key r \<noteq> i \<Longrightarrow> P r) \<Longrightarrow>
   r \<in> set (update_row key i f rows) \<Longrightarrow> P r"
  by (auto simp: set_update_row)

text \<open>Updating the rows of a selection one by one maps the update over the selection.\<close>

lemma foldl_update_rows:
  assumes "distinct (map key rows)" and "\<And>r. key (f r) = key r" and "set xs \<subseteq> set rows"
  shows "foldl (\<lambda>rs r. update_row key (key r) (\<lambda>_. f r) rs) rows xs =
    map (\<lambda>r. if r \<in> set xs then f r else r) rows"
  using assms(3)
proof (induction xs rule: rev_induct)
  case Nil
  then show ?case by simp
next
  case (snoc x xs)
  have "key r = key x \<longleftrightarrow> r = x" if "r \<in> set rows" for r
    using that snoc.prems assms(1) by (auto simp: distinct_map inj_on_def)
  then show ?case
    using snoc by (auto simp: update_row_def assms(2))
qed

lemma find_row_map:
  "(\<And>r. key (f r) = key r) \<Longrightarrow> find_row key i (map f rows) = map_option f (find_row key i rows)"
  by (induction rows) auto

lemma find_row_map_if:
  "(\<And>r. key (f r) = key r) \<Longrightarrow>
   find_row key i (map (\<lambda>r. if P r then f r else r) rows) =
   map_option (\<lambda>r. if P r then f r else r) (find_row key i rows)"
  by (rule find_row_map) simp

text \<open>\<open>ORDER BY k LIMIT 1\<close>: a row with the least key (the first such row of the table).\<close>

definition first_by :: "('r \<Rightarrow> 'k::linorder) \<Rightarrow> 'r list \<Rightarrow> 'r option" where
  "first_by k rows = (case sort_key k rows of [] \<Rightarrow> None | r # _ \<Rightarrow> Some r)"

lemma first_by_None [simp]: "first_by k rows = None \<longleftrightarrow> rows = []"
proof -
  have "sort_key k rows = [] \<longleftrightarrow> rows = []"
    by (metis length_0_conv length_sort)
  then show ?thesis by (cases "sort_key k rows") (auto simp: first_by_def)
qed

lemma first_by_Some:
  assumes "first_by k rows = Some r"
  shows "r \<in> set rows" and "\<And>r'. r' \<in> set rows \<Longrightarrow> k r \<le> k r'"
proof -
  from assms obtain rs where rs: "sort_key k rows = r # rs"
    by (auto simp: first_by_def split: list.splits)
  then have s: "set (r # rs) = set rows" by (metis set_sort)
  then show "r \<in> set rows" by auto
  have "sorted (map k (r # rs))" using rs by (metis sorted_sort_key)
  then show "k r \<le> k r'" if "r' \<in> set rows" for r'
    using that s by (cases "r' = r") auto
qed

lemma first_by_exists: "rows \<noteq> [] \<Longrightarrow> \<exists>r. first_by k rows = Some r"
  by (cases "first_by k rows") auto

lemma first_by_Nil [simp]: "first_by k [] = None"
  by (simp add: first_by_def)

lemma first_by_Cons:
  "first_by k (x # xs) = (case first_by k xs of None \<Rightarrow> Some x
     | Some r \<Rightarrow> if k x \<le> k r then Some x else Some r)"
  by (cases "sort_key k xs") (auto simp: first_by_def)

lemma first_by_single [simp]: "first_by k [x] = Some x"
  by (simp add: first_by_def)

text \<open>The first of the rows with the least key is what a loop with a strict comparison keeps.\<close>

lemma first_by_snoc:
  "first_by k (xs @ [x]) = (case first_by k xs of None \<Rightarrow> Some x
     | Some r \<Rightarrow> if k x < k r then Some x else Some r)"
proof (induction xs)
  case Nil
  then show ?case by (simp add: first_by_def)
next
  case (Cons y ys)
  have "first_by k ((y # ys) @ [x]) = (case first_by k (ys @ [x]) of None \<Rightarrow> Some y
     | Some r \<Rightarrow> if k y \<le> k r then Some y else Some r)"
    by (simp add: first_by_Cons)
  then show ?case
    using Cons.IH by (cases "first_by k ys") (auto simp: first_by_Cons [of k y ys])
qed

text \<open>Lists of options and the sums over rows that \<open>COUNT(*)\<close> gives.\<close>

definition count_rows :: "('r \<Rightarrow> bool) \<Rightarrow> 'r list \<Rightarrow> nat" where
  "count_rows P rows = length (filter P rows)"

lemma count_rows_append [simp]: "count_rows P (xs @ ys) = count_rows P xs + count_rows P ys"
  by (simp add: count_rows_def)

lemma count_rows_zero: "count_rows P rows = 0 \<longleftrightarrow> (\<forall>r \<in> set rows. \<not> P r)"
  by (simp add: count_rows_def filter_empty_conv)

end
