(* ===== verification/Data_Model.thy ===== *)
theory Data_Model
  imports Prelude
begin

text \<open>
  The data the services share: the enumerations of \<open>app/db/_model_enums.py\<close>, the rows of the
  ingest, document-artifact, platform and agent-task tables (\<open>app/db/model_domains\<close>), the
  parsed document of \<open>app/services/docling_parser_types.py\<close>, the settings the modelled code
  reads (\<open>app/core/config.py\<close>), and the state of a service process: the database as its session
  sees it, the database as last committed, the files under the storage root, and the clock.
\<close>

section \<open>Enumerations\<close>

datatype run_status = Queued | Processing | Validating | Retry_Wait | Completed | Failed

fun run_status_value :: "run_status \<Rightarrow> string" where
  "run_status_value Queued = ''queued''"
| "run_status_value Processing = ''processing''"
| "run_status_value Validating = ''validating''"
| "run_status_value Retry_Wait = ''retry_wait''"
| "run_status_value Completed = ''completed''"
| "run_status_value Failed = ''failed''"

datatype task_status =
    T_Blocked | T_Awaiting_Approval | T_Rejected | T_Queued | T_Processing | T_Retry_Wait
  | T_Completed | T_Failed

fun task_status_value :: "task_status \<Rightarrow> string" where
  "task_status_value T_Blocked = ''blocked''"
| "task_status_value T_Awaiting_Approval = ''awaiting_approval''"
| "task_status_value T_Rejected = ''rejected''"
| "task_status_value T_Queued = ''queued''"
| "task_status_value T_Processing = ''processing''"
| "task_status_value T_Retry_Wait = ''retry_wait''"
| "task_status_value T_Completed = ''completed''"
| "task_status_value T_Failed = ''failed''"

datatype side_effect_level = Read_Only | Draft_Change | Promotable

fun side_effect_level_value :: "side_effect_level \<Rightarrow> string" where
  "side_effect_level_value Read_Only = ''read_only''"
| "side_effect_level_value Draft_Change = ''draft_change''"
| "side_effect_level_value Promotable = ''promotable''"

datatype dependency_kind =
  Explicit | Target_Task | Source_Task | Draft_Task | Verification_Task

datatype attempt_status = A_Processing | A_Completed | A_Failed | A_Abandoned

datatype outcome_label = Useful | Not_Useful | Correct | Incorrect

section \<open>Rows\<close>

record document =
  doc_id :: uuid
  doc_source_filename :: string
  doc_source_path :: path
  doc_sha256 :: string
  doc_mime_type :: string
  doc_title :: "string option"
  doc_page_count :: "int option"
  doc_active_run_id :: "uuid option"
  doc_latest_run_id :: "uuid option"
  doc_created_at :: time
  doc_updated_at :: time

record document_run =
  run_id :: uuid
  run_document_id :: uuid
  run_number :: int
  run_status :: run_status
  run_attempts :: int
  run_locked_at :: "time option"
  run_locked_by :: "string option"
  run_last_heartbeat_at :: "time option"
  run_next_attempt_at :: "time option"
  run_error_message :: "string option"
  run_failure_stage :: "string option"
  run_failure_artifact_path :: "path option"
  run_docling_json_path :: "path option"
  run_yaml_path :: "path option"
  run_chunk_count :: "int option"
  run_table_count :: "int option"
  run_figure_count :: "int option"
  run_embedding_model :: "string option"
  run_embedding_dim :: "int option"
  run_validation_status :: "string option"
  run_validation_results :: dict
  run_created_at :: time
  run_started_at :: "time option"
  run_completed_at :: "time option"

type_synonym embedding = "rat list"

record document_chunk =
  chunk_id :: uuid
  chunk_document_id :: uuid
  chunk_run_id :: uuid
  chunk_chunk_index :: int
  chunk_text :: string
  chunk_heading :: "string option"
  chunk_page_from :: "int option"
  chunk_page_to :: "int option"
  chunk_metadata :: dict
  chunk_embedding :: "embedding option"
  chunk_created_at :: time

record document_table =
  table_id :: uuid
  table_document_id :: uuid
  table_run_id :: uuid
  table_table_index :: int
  table_title :: "string option"
  table_logical_table_key :: "string option"
  table_version :: "int option"
  table_supersedes_table_id :: "uuid option"
  table_lineage_group :: "string option"
  table_heading :: "string option"
  table_page_from :: "int option"
  table_page_to :: "int option"
  table_row_count :: int
  table_col_count :: int
  table_status :: string
  table_search_text :: string
  table_preview_text :: string
  table_metadata :: dict
  table_embedding :: "embedding option"
  table_json_path :: "path option"
  table_yaml_path :: "path option"
  table_created_at :: time

record document_table_segment =
  segment_id :: uuid
  segment_table_id :: uuid
  segment_run_id :: uuid
  segment_segment_index :: int
  segment_source_table_ref :: "string option"
  segment_page_from :: "int option"
  segment_page_to :: "int option"
  segment_segment_order :: int
  segment_metadata :: dict
  segment_created_at :: time

record document_figure =
  figure_id :: uuid
  figure_document_id :: uuid
  figure_run_id :: uuid
  figure_figure_index :: int
  figure_source_figure_ref :: "string option"
  figure_caption :: "string option"
  figure_heading :: "string option"
  figure_page_from :: "int option"
  figure_page_to :: "int option"
  figure_confidence :: "rat option"
  figure_status :: string
  figure_metadata :: dict
  figure_json_path :: "path option"
  figure_yaml_path :: "path option"
  figure_created_at :: time

record idempotency_row =
  idem_id :: uuid
  idem_scope :: string
  idem_key :: string
  idem_request_fingerprint :: string
  idem_status_code :: nat
  idem_response :: dict
  idem_created_at :: time

record ingest_batch =
  batch_id :: uuid
  batch_source_type :: string
  batch_status :: string
  batch_root_path :: "path option"
  batch_recursive :: bool
  batch_file_count :: int
  batch_queued_count :: int
  batch_recovery_queued_count :: int
  batch_duplicate_count :: int
  batch_failed_count :: int
  batch_error_message :: "string option"
  batch_created_at :: time
  batch_completed_at :: "time option"

record ingest_batch_item =
  item_id :: uuid
  item_batch_id :: uuid
  item_relative_path :: path
  item_source_filename :: string
  item_source_path :: path
  item_file_size_bytes :: "int option"
  item_sha256 :: "string option"
  item_status :: string
  item_status_code :: "nat option"
  item_document_id :: "uuid option"
  item_run_id :: "uuid option"
  item_duplicate :: bool
  item_recovery_run :: bool
  item_error_message :: "string option"
  item_created_at :: time

record agent_task =
  task_id :: uuid
  task_type :: string
  task_status :: task_status
  task_priority :: int
  task_side_effect_level :: side_effect_level
  task_requires_approval :: bool
  task_parent_task_id :: "uuid option"
  task_input :: dict
  task_result :: dict
  task_error_message :: "string option"
  task_failure_artifact_path :: "path option"
  task_attempts :: int
  task_locked_at :: "time option"
  task_locked_by :: "string option"
  task_last_heartbeat_at :: "time option"
  task_next_attempt_at :: "time option"
  task_workflow_version :: string
  task_tool_version :: "string option"
  task_prompt_version :: "string option"
  task_model :: "string option"
  task_model_settings :: dict
  task_approved_at :: "time option"
  task_approved_by :: "string option"
  task_approval_note :: "string option"
  task_rejected_at :: "time option"
  task_rejected_by :: "string option"
  task_rejection_note :: "string option"
  task_created_at :: time
  task_updated_at :: time
  task_started_at :: "time option"
  task_completed_at :: "time option"

record agent_task_dependency =
  dep_id :: uuid
  dep_task_id :: uuid
  dep_depends_on_task_id :: uuid
  dep_kind :: dependency_kind
  dep_created_at :: time

record agent_task_attempt =
  attempt_id :: uuid
  attempt_task_id :: uuid
  attempt_number :: int
  attempt_status :: attempt_status
  attempt_worker_id :: "string option"
  attempt_input :: dict
  attempt_result :: dict
  attempt_cost :: dict
  attempt_performance :: dict
  attempt_error_message :: "string option"
  attempt_created_at :: time
  attempt_started_at :: "time option"
  attempt_completed_at :: "time option"

record agent_task_outcome =
  outcome_id :: uuid
  outcome_task_id :: uuid
  outcome_label :: outcome_label
  outcome_created_by :: string
  outcome_note :: "string option"
  outcome_created_at :: time

section \<open>Parsed documents\<close>

record parsed_chunk =
  pc_chunk_index :: int
  pc_text :: string
  pc_heading :: "string option"
  pc_page_from :: "int option"
  pc_page_to :: "int option"
  pc_metadata :: dict
  pc_embedding :: "embedding option"

record parsed_table_segment =
  ps_segment_index :: int
  ps_segment_order :: int
  ps_source_table_ref :: "string option"
  ps_title :: "string option"
  ps_heading :: "string option"
  ps_page_from :: "int option"
  ps_page_to :: "int option"
  ps_row_count :: int
  ps_col_count :: int
  ps_rows :: "string list list"
  ps_metadata :: dict

record parsed_table =
  pt_table_index :: int
  pt_title :: "string option"
  pt_heading :: "string option"
  pt_page_from :: "int option"
  pt_page_to :: "int option"
  pt_row_count :: int
  pt_col_count :: int
  pt_rows :: "string list list"
  pt_search_text :: string
  pt_preview_text :: string
  pt_metadata :: dict
  pt_segments :: "parsed_table_segment list"
  pt_embedding :: "embedding option"

record parsed_figure =
  pf_figure_index :: int
  pf_source_figure_ref :: "string option"
  pf_caption :: "string option"
  pf_heading :: "string option"
  pf_page_from :: "int option"
  pf_page_to :: "int option"
  pf_confidence :: "rat option"
  pf_metadata :: dict

record parsed_document =
  pd_title :: "string option"
  pd_page_count :: int
  pd_yaml_text :: string
  pd_docling_json :: string
  pd_chunks :: "parsed_chunk list"
  pd_tables :: "parsed_table list"
  pd_raw_table_segments :: "parsed_table_segment list"
  pd_figures :: "parsed_figure list"

section \<open>Settings\<close>

datatype api_mode = Local_Mode | Remote_Mode

record settings =
  set_storage_root :: path
  set_api_mode :: "api_mode option"
  set_api_host :: string
  set_api_key :: "string option"
  set_api_credentials_json :: "string option"
  set_remote_api_capabilities :: "string option"
  set_remote_ingest_max_inflight_runs :: "int option"
  set_openai_embedding_model :: string
  set_embedding_dim :: int
  set_worker_lease_timeout_seconds :: int
  set_worker_max_attempts :: int
  set_local_ingest_max_file_bytes :: int
  set_local_ingest_max_pages :: int
  set_semantics_enabled :: bool

text \<open>The defaults of the class.\<close>

definition default_settings :: settings where
  "default_settings = \<lparr>
     set_storage_root = ''./storage'',
     set_api_mode = None,
     set_api_host = ''127.0.0.1'',
     set_api_key = None,
     set_api_credentials_json = None,
     set_remote_api_capabilities = None,
     set_remote_ingest_max_inflight_runs = Some 8,
     set_openai_embedding_model = ''text-embedding-3-small'',
     set_embedding_dim = 1536,
     set_worker_lease_timeout_seconds = 300,
     set_worker_max_attempts = 3,
     set_local_ingest_max_file_bytes = 268435456,
     set_local_ingest_max_pages = 1000,
     set_semantics_enabled = False\<rparr>"

section \<open>Codecs\<close>

text \<open>
  Library code the services call: \<open>json.dumps\<close>, the same with \<open>sort_keys\<close>, \<open>yaml.safe_dump\<close>, \<open>json.loads\<close> and \<open>yaml.safe_load\<close> (\<open>None\<close>
  is a decoding error), SHA-256 in hexadecimal, \<open>datetime.isoformat\<close>, and \<open>str\<close> of a decoded value
  that is not a string. They are arguments of the
  model; a property that relies on one says so.
\<close>

record codecs =
  cx_json_dumps :: "json \<Rightarrow> string"
  cx_json_sorted :: "json \<Rightarrow> string"
  cx_yaml_dumps :: "json \<Rightarrow> string"
  cx_json_loads :: "string \<Rightarrow> json option"
  cx_yaml_loads :: "string \<Rightarrow> json option"
  cx_sha256 :: "string \<Rightarrow> string"
  cx_isoformat :: "time \<Rightarrow> string"
  cx_str :: "json \<Rightarrow> string"

fun py_str :: "codecs \<Rightarrow> json \<Rightarrow> string" where
  "py_str cx (JStr s) = s"
| "py_str cx j = cx_str cx j"

section \<open>The state of a service process\<close>

record db =
  db_documents :: "document list"
  db_runs :: "document_run list"
  db_chunks :: "document_chunk list"
  db_tables :: "document_table list"
  db_segments :: "document_table_segment list"
  db_figures :: "document_figure list"
  db_idempotency :: "idempotency_row list"
  db_batches :: "ingest_batch list"
  db_batch_items :: "ingest_batch_item list"
  db_tasks :: "agent_task list"
  db_dependencies :: "agent_task_dependency list"
  db_attempts :: "agent_task_attempt list"
  db_outcomes :: "agent_task_outcome list"

definition empty_db :: db where
  "empty_db = \<lparr>db_documents = [], db_runs = [], db_chunks = [], db_tables = [],
     db_segments = [], db_figures = [], db_idempotency = [], db_batches = [],
     db_batch_items = [], db_tasks = [], db_dependencies = [], db_attempts = [],
     db_outcomes = []\<rparr>"

text \<open>
  \<open>w_db\<close> is what the session sees (with what it has flushed), \<open>w_saved\<close> what the last
  \<open>commit\<close> made durable. \<open>utcnow()\<close> reads \<open>w_clock\<close>; time passes between operations,
  not inside one. \<open>uuid.uuid4()\<close> takes \<open>w_fresh\<close>, which then moves on, so identifiers
  never repeat.
\<close>

record world =
  w_db :: db
  w_saved :: db
  w_files :: "path \<Rightarrow> string option"
  w_clock :: time
  w_fresh :: uuid

definition commit :: "world \<Rightarrow> world" where
  "commit w = w\<lparr>w_saved := w_db w\<rparr>"

definition rollback :: "world \<Rightarrow> world" where
  "rollback w = w\<lparr>w_db := w_saved w\<rparr>"

definition on_db :: "(db \<Rightarrow> db) \<Rightarrow> world \<Rightarrow> world" where
  "on_db f w = w\<lparr>w_db := f (w_db w)\<rparr>"

definition take_id :: "world \<Rightarrow> uuid \<times> world" where
  "take_id w = (w_fresh w, w\<lparr>w_fresh := w_fresh w + 1\<rparr>)"

lemma take_id_frame [simp]:
  "w_db (snd (take_id w)) = w_db w" "w_saved (snd (take_id w)) = w_saved w"
  "w_clock (snd (take_id w)) = w_clock w" "w_files (snd (take_id w)) = w_files w"
  "w_fresh (snd (take_id w)) = w_fresh w + 1" "fst (take_id w) = w_fresh w"
  by (simp_all add: take_id_def)

text \<open>\<open>StorageService.delete_file_if_exists\<close> and \<open>Path.write_text\<close>.\<close>

definition delete_file_if_exists :: "path \<Rightarrow> world \<Rightarrow> world" where
  "delete_file_if_exists p w = w\<lparr>w_files := (w_files w)(p := None)\<rparr>"

definition write_file :: "path \<Rightarrow> string \<Rightarrow> world \<Rightarrow> world" where
  "write_file p s w = w\<lparr>w_files := (w_files w)(p := Some s)\<rparr>"

lemma world_simps [simp]:
  "w_db (commit w) = w_db w" "w_saved (commit w) = w_db w" "w_files (commit w) = w_files w"
  "w_clock (commit w) = w_clock w" "w_fresh (commit w) = w_fresh w"
  "w_db (rollback w) = w_saved w" "w_saved (rollback w) = w_saved w"
  "w_files (rollback w) = w_files w" "w_clock (rollback w) = w_clock w"
  "w_fresh (rollback w) = w_fresh w"
  "w_db (on_db f w) = f (w_db w)" "w_saved (on_db f w) = w_saved w"
  "w_files (on_db f w) = w_files w" "w_clock (on_db f w) = w_clock w"
  "w_fresh (on_db f w) = w_fresh w"
  "w_db (delete_file_if_exists p w) = w_db w" "w_saved (delete_file_if_exists p w) = w_saved w"
  "w_clock (delete_file_if_exists p w) = w_clock w"
  "w_fresh (delete_file_if_exists p w) = w_fresh w"
  "w_files (delete_file_if_exists p w) = (w_files w)(p := None)"
  "w_db (write_file p s w) = w_db w" "w_saved (write_file p s w) = w_saved w"
  "w_clock (write_file p s w) = w_clock w" "w_fresh (write_file p s w) = w_fresh w"
  "w_files (write_file p s w) = (w_files w)(p := Some s)"
  by (simp_all add: commit_def rollback_def on_db_def delete_file_if_exists_def write_file_def)

text \<open>Rows by identifier, for the tables the services load objects from.\<close>

abbreviation get_run :: "uuid \<Rightarrow> db \<Rightarrow> document_run option" where
  "get_run i d \<equiv> find_row run_id i (db_runs d)"

abbreviation get_document :: "uuid \<Rightarrow> db \<Rightarrow> document option" where
  "get_document i d \<equiv> find_row doc_id i (db_documents d)"

abbreviation get_task :: "uuid \<Rightarrow> db \<Rightarrow> agent_task option" where
  "get_task i d \<equiv> find_row task_id i (db_tasks d)"

definition upd_run :: "uuid \<Rightarrow> (document_run \<Rightarrow> document_run) \<Rightarrow> db \<Rightarrow> db" where
  "upd_run i f d = d\<lparr>db_runs := update_row run_id i f (db_runs d)\<rparr>"

definition upd_document :: "uuid \<Rightarrow> (document \<Rightarrow> document) \<Rightarrow> db \<Rightarrow> db" where
  "upd_document i f d = d\<lparr>db_documents := update_row doc_id i f (db_documents d)\<rparr>"

definition upd_task :: "uuid \<Rightarrow> (agent_task \<Rightarrow> agent_task) \<Rightarrow> db \<Rightarrow> db" where
  "upd_task i f d = d\<lparr>db_tasks := update_row task_id i f (db_tasks d)\<rparr>"

lemma upd_run_simps [simp]:
  "db_runs (upd_run i f d) = update_row run_id i f (db_runs d)"
  "db_documents (upd_run i f d) = db_documents d"
  "db_tables (upd_run i f d) = db_tables d"
  "db_figures (upd_run i f d) = db_figures d"
  "db_chunks (upd_run i f d) = db_chunks d"
  "db_segments (upd_run i f d) = db_segments d"
  "db_idempotency (upd_run i f d) = db_idempotency d"
  "db_tasks (upd_run i f d) = db_tasks d"
  by (simp_all add: upd_run_def)

lemma upd_document_simps [simp]:
  "db_documents (upd_document i f d) = update_row doc_id i f (db_documents d)"
  "db_runs (upd_document i f d) = db_runs d"
  "db_tables (upd_document i f d) = db_tables d"
  "db_figures (upd_document i f d) = db_figures d"
  "db_chunks (upd_document i f d) = db_chunks d"
  "db_segments (upd_document i f d) = db_segments d"
  "db_idempotency (upd_document i f d) = db_idempotency d"
  by (simp_all add: upd_document_def)

lemma upd_task_simps [simp]:
  "db_tasks (upd_task i f d) = update_row task_id i f (db_tasks d)"
  "db_dependencies (upd_task i f d) = db_dependencies d"
  "db_attempts (upd_task i f d) = db_attempts d"
  "db_outcomes (upd_task i f d) = db_outcomes d"
  "db_runs (upd_task i f d) = db_runs d"
  by (simp_all add: upd_task_def)

text \<open>The state before anything has happened, and codecs for the examples.\<close>

definition initial_world :: world where
  "initial_world = \<lparr>w_db = empty_db, w_saved = empty_db, w_files = Map.empty, w_clock = 0,
     w_fresh = 0\<rparr>"

definition example_codecs :: codecs where
  "example_codecs = \<lparr>cx_json_dumps = (\<lambda>_. ''{}''), cx_json_sorted = (\<lambda>_. ''{}''), cx_yaml_dumps = (\<lambda>_. ''{}''),
     cx_json_loads = (\<lambda>_. None), cx_yaml_loads = (\<lambda>_. None), cx_sha256 = (\<lambda>_. ''sha''),
     cx_isoformat = (\<lambda>_. ''1970-01-01T00:00:00+00:00''), cx_str = (\<lambda>_. ''?'')\<rparr>"

end
