(* ===== verification/Text_Norm.thy ===== *)
theory Text_Norm
  imports Data_Model
begin

text \<open>
  Text clean-up the parser and the index builders share: \<open>collapse_whitespace\<close> of
  \<open>app/core/text.py\<close>, \<open>_normalize_text\<close> of \<open>docling_parser_normalization.py\<close>,
  \<open>_normalize_span_text\<close> of \<open>retrieval_span_specs.py\<close>, and how rows are written as JSON.
  The lemmas show that the three normalisations agree with splitting into words and joining with
  single blanks.
\<close>

section \<open>JSON of optional columns\<close>

fun json_opt_str :: "string option \<Rightarrow> json" where
  "json_opt_str None = JNull"
| "json_opt_str (Some s) = JStr s"

fun json_opt_int :: "int option \<Rightarrow> json" where
  "json_opt_int None = JNull"
| "json_opt_int (Some i) = JInt i"

definition json_uuid :: "uuid \<Rightarrow> json" where
  "json_uuid i = JStr (show_nat i)"

section \<open>Text normalisation\<close>

text \<open>\<open>re.sub(r"\s+", " ", s)\<close>.\<close>

function collapse_ws :: "string \<Rightarrow> string" where
  "collapse_ws [] = []"
| "collapse_ws (c # cs) =
     (if is_space c then CHR '' '' # collapse_ws (dropWhile is_space cs) else c # collapse_ws cs)"
  by pat_completeness auto
termination
  by (relation "measure length") (auto simp: le_imp_less_Suc length_dropWhile_le)

definition normalize_span_text :: "string option \<Rightarrow> string" where
  "normalize_span_text value =
     str_strip (collapse_ws (case value of None \<Rightarrow> [] | Some s \<Rightarrow> s))"

text \<open>The same text as \<open>" ".join(s.split())\<close>, the way the parser normalises.\<close>

lemma collapse_nonspace_append:
  "(\<forall>c \<in> set w. \<not> is_space c) \<Longrightarrow> collapse_ws (w @ s) = w @ collapse_ws s"
  by (induction w) auto

lemma split_from_spaces: "split_from [] (dropWhile is_space s) = split_from [] s"
  by (induction s) auto

lemma split_word_rest:
  "w \<noteq> [] \<Longrightarrow> (\<forall>c \<in> set w. \<not> is_space c) \<Longrightarrow> is_space b \<Longrightarrow>
   split_from [] (w @ b # s) = w # split_from [] s"
  by (simp add: split_from_nonspace)

lemma strip_word_end:
  assumes "w \<noteq> []" "\<forall>c \<in> set w. \<not> is_space c"
  shows "str_strip (w @ s) = w @ rev (dropWhile is_space (rev s))"
proof -
  have d: "dropWhile is_space (w @ s) = w @ s"
    using assms by (cases w) auto
  have r: "dropWhile is_space (rev w) = rev w"
    using assms by (metis dropWhile_eq_self_iff hd_in_set rev_is_Nil_conv set_rev)
  have "dropWhile is_space (rev (w @ s)) = dropWhile is_space (rev s) @ rev w"
    using r by (auto simp: dropWhile_append dropWhile_eq_Nil_conv)
  then show ?thesis unfolding str_strip_def d by simp
qed

lemma strip_dropWhile: "str_strip (dropWhile is_space s) = str_strip s"
proof -
  have "dropWhile is_space (dropWhile is_space s) = dropWhile is_space s"
    by (induction s) auto
  then show ?thesis by (simp add: str_strip_def)
qed

lemma strip_blank: "str_strip (CHR '' '' # s) = str_strip s"
  by (simp add: str_strip_def)

lemma rstrip_eq_strip:
  assumes "s = [] \<or> \<not> is_space (hd s)"
  shows "rev (dropWhile is_space (rev s)) = str_strip s"
  using assms by (cases s) (auto simp: str_strip_def)

lemma normalize_dropped:
  assumes "s = [] \<or> \<not> is_space (hd s)"
  shows "str_strip (collapse_ws s) = str_join '' '' (split_from [] s)"
  using assms
proof (induction "length s" arbitrary: s rule: less_induct)
  case less
  show ?case
  proof (cases "s = []")
    case True
    then show ?thesis by (simp add: str_strip_def)
  next
    case False
    define w where "w = takeWhile (\<lambda>c. \<not> is_space c) s"
    define r where "r = dropWhile (\<lambda>c. \<not> is_space c) s"
    have s: "s = w @ r" by (simp add: w_def r_def)
    have w: "w \<noteq> []" "\<forall>c \<in> set w. \<not> is_space c"
      using False less.prems by (cases s; auto simp: w_def dest: set_takeWhileD)+
    show ?thesis
    proof (cases r)
      case Nil
      have "split_from [] w = [w]" using split_from_nonspace [OF w(2), of "[]" "[]"] w(1) by simp
      moreover have "collapse_ws w = w" using collapse_nonspace_append [OF w(2), of "[]"] by simp
      moreover have "str_strip w = w" using strip_word_end [OF w, of "[]"] by simp
      ultimately show ?thesis using s Nil by simp
    next
      case (Cons b r')
      have b: "is_space b"
        using Cons by (metis (mono_tags) hd_dropWhile list.distinct(1) list.sel(1) r_def)
      define t where "t = dropWhile is_space r'"
      have t: "t = [] \<or> \<not> is_space (hd t)"
        unfolding t_def by (metis hd_dropWhile)
      have len: "length t < length s"
        using s Cons length_dropWhile_le [of is_space r'] by (simp add: t_def)
      have IH: "str_strip (collapse_ws t) = str_join '' '' (split_from [] t)"
        using less.hyps [OF len t] .
      have ct: "collapse_ws t = [] \<or> \<not> is_space (hd (collapse_ws t))"
        using t by (cases t) auto
      have split: "split_from [] s = w # split_from [] t"
        using s Cons split_word_rest [OF w b] split_from_spaces by (simp add: t_def)
      have "str_strip (collapse_ws s) = w @ rev (dropWhile is_space (rev (CHR '' '' # collapse_ws t)))"
        using s Cons b collapse_nonspace_append [OF w(2)] strip_word_end [OF w] by (simp add: t_def)
      also have "\<dots> = str_join '' '' (w # split_from [] t)"
      proof (cases "t = []")
        case True
        then show ?thesis by simp
      next
        case tne: False
        then obtain c cs where tc: "t = c # cs" by (cases t) auto
        then have c: "\<not> is_space c" using t by simp
        have ne: "\<exists>x xs. split_from [] t = x # xs"
        proof -
          have "split_from acc u \<noteq> []" if "acc \<noteq> []" for acc u
            using that by (induction acc u rule: split_from.induct) auto
          then have "split_from [c] cs \<noteq> []" by simp
          then show ?thesis using tc c by (simp add: neq_Nil_conv)
        qed
        have nb: "\<exists>z \<in> set (rev (collapse_ws t)). \<not> is_space z"
          using tc c by auto
        have "rev (dropWhile is_space (rev (CHR '' '' # collapse_ws t))) =
            CHR '' '' # rev (dropWhile is_space (rev (collapse_ws t)))"
          using nb by (auto simp: dropWhile_append1)
        also have "rev (dropWhile is_space (rev (collapse_ws t))) = str_join '' '' (split_from [] t)"
          using rstrip_eq_strip [OF ct] IH by simp
        finally show ?thesis using ne by auto
      qed
      finally show ?thesis using split by simp
    qed
  qed
qed

lemma normalize_span_text_split:
  "normalize_span_text (Some s) = str_join '' '' (str_split s)"
proof -
  have "str_strip (collapse_ws s) = str_strip (collapse_ws (dropWhile is_space s))"
  proof (cases s)
    case (Cons c cs)
    then show ?thesis
      by (cases "is_space c") (auto simp: strip_blank)
  qed simp
  also have "\<dots> = str_join '' '' (split_from [] (dropWhile is_space s))"
    by (rule normalize_dropped) (metis hd_dropWhile)
  finally show ?thesis
    by (simp add: normalize_span_text_def str_split_def split_from_spaces)
qed

lemma split_normalize_span_text:
  "str_split (normalize_span_text (Some s)) = str_split s"
  by (simp add: normalize_span_text_split str_split_join str_split_words)

text \<open>\<open>collapse_whitespace\<close> and \<open>_normalize_text\<close>: the latter also drops NUL characters.\<close>

definition collapse_whitespace :: "string option \<Rightarrow> string" where
  "collapse_whitespace value =
     str_strip (str_join '' '' (str_split (case value of None \<Rightarrow> [] | Some s \<Rightarrow> s)))"

definition normalize_text :: "string option \<Rightarrow> string" where
  "normalize_text value =
     str_strip (str_join '' '' (str_split
       (map (\<lambda>c. if c = CHR 0x00 then CHR '' '' else c)
         (case value of None \<Rightarrow> [] | Some s \<Rightarrow> s))))"

end
