(* ===== verification/Span_Windows.thy ===== *)
theory Span_Windows
  imports Text_Norm
begin

text \<open>
  \<open>app/services/retrieval_span_specs.py\<close>: the text of a chunk or table is cut into overlapping
  windows of words, and each window becomes one retrieval evidence span; a span is cut again into
  smaller windows for the multivector index. The hash \<open>payload_sha256\<close> (SHA-256 of the
  canonical JSON text) is an argument of the builders.

  The lemmas show that the windowing loop equals a plain sliding window, that its windows cover
  every word, overlap as configured and stay within the window size.
\<close>

section \<open>Windows\<close>

type_synonym window = "nat \<times> nat \<times> string"

text \<open>The \<open>while\<close> loop of \<open>_window_word_ranges\<close>: \<open>windows\<close> is the list built so far.\<close>

function window_loop :: "nat \<Rightarrow> nat \<Rightarrow> nat \<Rightarrow> string list \<Rightarrow> nat \<Rightarrow> window list \<Rightarrow> window list" where
  "window_loop word_window word_overlap min_trailing words start windows =
     (let step = max (word_window - word_overlap) 1 in
      if start < length words then
        (let e = min (start + word_window) (length words) in
         if e = length words \<and> windows \<noteq> [] \<and> e - start < min_trailing then
           (let previous_start = fst (last windows) in
            butlast windows @ [(previous_start, e, str_join '' '' (slice previous_start e words))])
         else
           (let windows' = windows @ [(start, e, str_join '' '' (slice start e words))] in
            if e = length words then windows'
            else window_loop word_window word_overlap min_trailing words (start + step) windows'))
      else windows)"
  by pat_completeness auto
termination
  by (relation "measure (\<lambda>(_, _, _, words, start, _). length words - start)") auto

declare window_loop.simps [simp del]

definition window_word_ranges :: "nat \<Rightarrow> nat \<Rightarrow> nat \<Rightarrow> string \<Rightarrow> window list" where
  "window_word_ranges word_window word_overlap min_trailing value =
     (let normalized = normalize_span_text (Some value) in
      if normalized = [] then []
      else
        (let words = str_split normalized in
         if length words \<le> word_window then [(0, length words, normalized)]
         else window_loop word_window word_overlap min_trailing words 0 []))"

definition SPAN_WORD_WINDOW :: nat where "SPAN_WORD_WINDOW = 80"
definition SPAN_WORD_OVERLAP :: nat where "SPAN_WORD_OVERLAP = 20"
definition SPAN_MIN_TRAILING_WORDS :: nat where "SPAN_MIN_TRAILING_WORDS = 20"
definition MULTIVECTOR_WORD_WINDOW :: nat where "MULTIVECTOR_WORD_WINDOW = 16"
definition MULTIVECTOR_WORD_OVERLAP :: nat where "MULTIVECTOR_WORD_OVERLAP = 8"
definition MULTIVECTOR_MIN_TRAILING_WORDS :: nat where "MULTIVECTOR_MIN_TRAILING_WORDS = 6"

lemmas window_constants =
  SPAN_WORD_WINDOW_def SPAN_WORD_OVERLAP_def SPAN_MIN_TRAILING_WORDS_def
  MULTIVECTOR_WORD_WINDOW_def MULTIVECTOR_WORD_OVERLAP_def MULTIVECTOR_MIN_TRAILING_WORDS_def

definition window_text :: "string \<Rightarrow> (nat \<times> string) list" where
  "window_text value =
     map (\<lambda>(start, _, text). (start, text))
       (window_word_ranges SPAN_WORD_WINDOW SPAN_WORD_OVERLAP SPAN_MIN_TRAILING_WORDS value)"

subsection \<open>The reference: a plain sliding window\<close>

text \<open>Windows of \<open>w\<close> words at multiples of \<open>step\<close>, the last one cut at the end.\<close>

function sliding :: "nat \<Rightarrow> nat \<Rightarrow> string list \<Rightarrow> nat \<Rightarrow> window list" where
  "sliding w step words start =
     (if length words \<le> start + w
      then [(start, length words, str_join '' '' (slice start (length words) words))]
      else (start, start + w, str_join '' '' (slice start (start + w) words)) #
        sliding w step words (start + max step 1))"
  by pat_completeness auto
termination
  by (relation "measure (\<lambda>(_, _, words, start). length words - start)") auto

declare sliding.simps [simp del]

text \<open>
  The loop is the sliding window, provided the windows overlap by at least
  \<open>min_trailing - 1\<close> words: then the words left for a last window always outnumber the
  overlap, and the branch that merges a short last window into the previous one is never taken.
\<close>

lemma window_loop_sliding:
  assumes "word_overlap < word_window" "min_trailing \<le> Suc word_overlap"
    and "start < length words" "windows = [] \<or> min_trailing \<le> length words - start"
  shows "window_loop word_window word_overlap min_trailing words start windows =
    windows @ sliding word_window (word_window - word_overlap) words start"
  using assms(3,4)
proof (induction "length words - start" arbitrary: start windows rule: less_induct)
  case less
  let ?step = "word_window - word_overlap"
  have step: "max ?step 1 = ?step" using assms(1) by simp
  show ?case
  proof (cases "length words \<le> start + word_window")
    case True
    then have "min (start + word_window) (length words) = length words" by simp
    then show ?thesis
      using less.prems True
      by (auto simp: window_loop.simps [of _ _ _ _ start] sliding.simps [of _ _ _ start] Let_def)
  next
    case False
    let ?ws = "windows @ [(start, start + word_window,
      str_join '' '' (slice start (start + word_window) words))]"
    have next_start: "start + ?step < length words"
      "min_trailing \<le> length words - (start + ?step)"
      using False assms(1,2) by linarith+
    have less': "length words - (start + ?step) < length words - start"
      using next_start(1) assms(1) by linarith
    have "window_loop word_window word_overlap min_trailing words start windows =
        window_loop word_window word_overlap min_trailing words (start + ?step) ?ws"
      using False less.prems(1) step
      by (subst window_loop.simps) (simp add: Let_def min_def)
    also have "\<dots> = ?ws @ sliding word_window ?step words (start + ?step)"
      using less.hyps [OF less' next_start(1)] next_start(2) by blast
    also have "\<dots> = windows @ sliding word_window ?step words start"
      using False step by (simp add: sliding.simps [of _ _ _ start])
    finally show ?thesis .
  qed
qed

lemma str_join_empty_iff:
  "(\<And>w. w \<in> set ws \<Longrightarrow> is_word w) \<Longrightarrow> str_join '' '' ws = [] \<longleftrightarrow> ws = []"
  by (induction ws rule: induct_list012) (auto simp: is_word_def)

lemma normalize_empty_iff: "normalize_span_text (Some s) = [] \<longleftrightarrow> str_split s = []"
  by (simp add: normalize_span_text_split str_join_empty_iff str_split_words)

lemma window_word_ranges_sliding:
  assumes "word_overlap < word_window" "min_trailing \<le> Suc word_overlap"
  shows "window_word_ranges word_window word_overlap min_trailing value =
    (if str_split value = [] then []
     else sliding word_window (word_window - word_overlap) (str_split value) 0)"
proof (cases "length (str_split value) \<le> word_window")
  case True
  then have "sliding word_window (word_window - word_overlap) (str_split value) 0 =
      [(0, length (str_split value), normalize_span_text (Some value))]"
    by (subst sliding.simps) (simp add: slice_def normalize_span_text_split)
  with True show ?thesis
    by (simp add: window_word_ranges_def Let_def normalize_empty_iff split_normalize_span_text)
next
  case False
  then have "0 < length (str_split value)" by (cases "str_split value") auto
  with False show ?thesis
    using window_loop_sliding [OF assms, of 0 "str_split value" "[]"]
    by (auto simp add: window_word_ranges_def Let_def normalize_empty_iff split_normalize_span_text)
qed

subsection \<open>What the sliding window promises\<close>

text \<open>
  A window is the text of the words it spans, starts before it ends and has at most \<open>w\<close> words.
\<close>

lemma sliding_window_ok:
  assumes "0 < w" "step \<le> w"
  shows "start < length words \<Longrightarrow> (s, e, t) \<in> set (sliding w step words start) \<Longrightarrow>
    start \<le> s \<and> s < e \<and> e \<le> length words \<and> e - s \<le> w
      \<and> t = str_join '' '' (slice s e words)"
proof (induction "length words - start" arbitrary: start rule: less_induct)
  case less
  show ?case
  proof (cases "length words \<le> start + w")
    case True
    then show ?thesis using less.prems by (auto simp: sliding.simps [of _ _ _ start])
  next
    case False
    let ?next = "start + max step 1"
    have "?next < length words" "length words - ?next < length words - start"
      using False assms by auto
    then show ?thesis
      using less.hyps [of ?next] less.prems False assms(1)
      by (auto simp: sliding.simps [of _ _ _ start])
  qed
qed

text \<open>Every word from \<open>start\<close> on lies in a window.\<close>

lemma sliding_covers:
  assumes "0 < w" "step \<le> w"
  shows "start \<le> i \<Longrightarrow> i < length words \<Longrightarrow>
    \<exists>(s, e, t) \<in> set (sliding w step words start). s \<le> i \<and> i < e"
proof (induction "length words - start" arbitrary: start rule: less_induct)
  case less
  show ?case
  proof (cases "length words \<le> start + w")
    case True
    then show ?thesis using less.prems by (auto simp: sliding.simps [of _ _ _ start])
  next
    case False
    let ?next = "start + max step 1"
    show ?thesis
    proof (cases "i < start + w")
      case True
      then show ?thesis using less.prems False by (auto simp: sliding.simps [of _ _ _ start])
    next
      case beyond: False
      then have "?next \<le> i" "length words - ?next < length words - start"
        using assms False by auto
      then show ?thesis
        using less.hyps [of ?next] less.prems False
        by (auto simp: sliding.simps [of _ _ _ start])
    qed
  qed
qed

text \<open>Window \<open>k\<close> starts at word \<open>k * step\<close>.\<close>

lemma sliding_starts:
  assumes "0 < step"
  shows "k < length (sliding w step words start) \<Longrightarrow>
    fst (sliding w step words start ! k) = start + k * step"
proof (induction k arbitrary: start)
  case 0
  then show ?case by (subst sliding.simps) simp
next
  case (Suc k)
  show ?case
  proof (cases "length words \<le> start + w")
    case True
    then have "length (sliding w step words start) = 1" by (subst sliding.simps) simp
    with Suc.prems show ?thesis by simp
  next
    case False
    then have eq: "sliding w step words start =
        (start, start + w, str_join '' '' (slice start (start + w) words)) #
        sliding w step words (start + step)"
      using assms by (subst sliding.simps) simp
    with Suc.prems have "k < length (sliding w step words (start + step))" by simp
    from Suc.IH [OF this] eq show ?thesis by simp
  qed
qed

text \<open>The window of a normalised text splits into exactly the words it spans.\<close>

lemma split_window:
  "(\<And>w. w \<in> set ws \<Longrightarrow> is_word w) \<Longrightarrow> str_split (str_join '' '' (slice a b ws)) = slice a b ws"
  using slice_words [of a b ws] by (intro str_split_join) auto

section \<open>Span specifications\<close>

record source_span_spec =
  ss_source_type :: string
  ss_source_id :: uuid
  ss_chunk_id :: "uuid option"
  ss_table_id :: "uuid option"
  ss_span_index :: nat
  ss_span_text :: string
  ss_heading :: "string option"
  ss_page_from :: "int option"
  ss_page_to :: "int option"
  ss_content_sha256 :: string
  ss_source_snapshot_sha256 :: string
  ss_metadata :: dict

record retrieval_evidence_span =
  rs_id :: uuid
  rs_document_id :: uuid
  rs_run_id :: uuid
  rs_source_type :: string
  rs_source_id :: uuid
  rs_span_text :: string
  rs_content_sha256 :: string
  rs_source_snapshot_sha256 :: string
  rs_chunk_id :: "uuid option"
  rs_table_id :: "uuid option"
  rs_span_index :: int
  rs_page_from :: "int option"
  rs_page_to :: "int option"
  rs_embedding :: "embedding option"

record span_multivector_spec =
  sv_retrieval_evidence_span_id :: uuid
  sv_document_id :: uuid
  sv_run_id :: uuid
  sv_source_type :: string
  sv_source_id :: uuid
  sv_vector_index :: nat
  sv_token_start :: nat
  sv_token_end :: nat
  sv_vector_text :: string
  sv_content_sha256 :: string
  sv_metadata :: dict

text \<open>Values in a JSON payload; identifiers are written with \<open>str\<close>.\<close>

definition chunk_source_snapshot :: "document_chunk \<Rightarrow> json" where
  "chunk_source_snapshot c = JObj [
     (''schema_name'', JStr ''retrieval_source_snapshot''),
     (''schema_version'', JStr ''1.0''),
     (''source_type'', JStr ''chunk''),
     (''source_id'', json_uuid (chunk_id c)),
     (''document_id'', json_uuid (chunk_document_id c)),
     (''run_id'', json_uuid (chunk_run_id c)),
     (''chunk_index'', JInt (chunk_chunk_index c)),
     (''heading'', json_opt_str (chunk_heading c)),
     (''page_from'', json_opt_int (chunk_page_from c)),
     (''page_to'', json_opt_int (chunk_page_to c)),
     (''text'', JStr (chunk_text c)),
     (''metadata'', JObj (chunk_metadata c))]"

definition table_source_snapshot :: "document_table \<Rightarrow> json" where
  "table_source_snapshot t = JObj [
     (''schema_name'', JStr ''retrieval_source_snapshot''),
     (''schema_version'', JStr ''1.0''),
     (''source_type'', JStr ''table''),
     (''source_id'', json_uuid (table_id t)),
     (''document_id'', json_uuid (table_document_id t)),
     (''run_id'', json_uuid (table_run_id t)),
     (''table_index'', JInt (table_table_index t)),
     (''title'', json_opt_str (table_title t)),
     (''heading'', json_opt_str (table_heading t)),
     (''logical_table_key'', json_opt_str (table_logical_table_key t)),
     (''table_version'', json_opt_int (table_version t)),
     (''lineage_group'', json_opt_str (table_lineage_group t)),
     (''page_from'', json_opt_int (table_page_from t)),
     (''page_to'', json_opt_int (table_page_to t)),
     (''row_count'', JInt (table_row_count t)),
     (''col_count'', JInt (table_col_count t)),
     (''search_text'', JStr (table_search_text t)),
     (''preview_text'', JStr (table_preview_text t)),
     (''metadata'', JObj (table_metadata t))]"

definition span_content_sha256 ::
  "(json \<Rightarrow> string) \<Rightarrow> string \<Rightarrow> uuid \<Rightarrow> nat \<Rightarrow> string \<Rightarrow> string \<Rightarrow> string" where
  "span_content_sha256 sha source_type source_id span_index span_text source_snapshot_sha256 =
     sha (JObj [
       (''schema_name'', JStr ''retrieval_evidence_span_content''),
       (''schema_version'', JStr ''1.0''),
       (''source_type'', JStr source_type),
       (''source_id'', json_uuid source_id),
       (''span_index'', JInt (int span_index)),
       (''span_text'', JStr span_text),
       (''source_snapshot_sha256'', JStr source_snapshot_sha256)])"

definition span_multivector_content_sha256 ::
  "(json \<Rightarrow> string) \<Rightarrow> uuid \<Rightarrow> nat \<Rightarrow> nat \<Rightarrow> nat \<Rightarrow> string \<Rightarrow> string \<Rightarrow> string \<Rightarrow> string" where
  "span_multivector_content_sha256 sha span_id vector_index token_start token_end vector_text
     span_sha256 source_snapshot_sha256 =
     sha (JObj [
       (''schema_name'', JStr ''retrieval_evidence_span_multivector_content''),
       (''schema_version'', JStr ''1.0''),
       (''retrieval_evidence_span_id'', json_uuid span_id),
       (''vector_index'', JInt (int vector_index)),
       (''token_start'', JInt (int token_start)),
       (''token_end'', JInt (int token_end)),
       (''vector_text'', JStr vector_text),
       (''span_content_sha256'', JStr span_sha256),
       (''source_snapshot_sha256'', JStr source_snapshot_sha256)])"

definition chunk_span_spec ::
  "(json \<Rightarrow> string) \<Rightarrow> document_chunk \<Rightarrow> nat \<Rightarrow> nat \<Rightarrow> string \<Rightarrow> source_span_spec" where
  "chunk_span_spec sha c span_index word_start span_text =
     (let snapshot = sha (chunk_source_snapshot c) in
        \<lparr>ss_source_type = ''chunk'', ss_source_id = chunk_id c, ss_chunk_id = Some (chunk_id c),
         ss_table_id = None, ss_span_index = span_index, ss_span_text = span_text,
         ss_heading = chunk_heading c, ss_page_from = chunk_page_from c,
         ss_page_to = chunk_page_to c,
         ss_content_sha256 =
           span_content_sha256 sha ''chunk'' (chunk_id c) span_index span_text snapshot,
         ss_source_snapshot_sha256 = snapshot,
         ss_metadata = [
           (''schema_name'', JStr ''retrieval_evidence_span_v1''),
           (''source_chunk_index'', JInt (chunk_chunk_index c)),
           (''word_start'', JInt (int word_start)),
           (''word_count'', JInt (int (length (str_split span_text))))]\<rparr>)"

definition build_chunk_span_specs ::
  "(json \<Rightarrow> string) \<Rightarrow> document_chunk \<Rightarrow> source_span_spec list" where
  "build_chunk_span_specs sha c =
     map (\<lambda>(span_index, (word_start, span_text)).
        chunk_span_spec sha c span_index word_start span_text)
       (List.enumerate 0 (window_text (chunk_text c)))"

definition join_present :: "string option list \<Rightarrow> string option" where
  "join_present parts =
     (let s = str_join '' '' (map the (filter str_truthy parts)) in if s = [] then None else Some s)"

definition build_table_span_specs ::
  "(json \<Rightarrow> string) \<Rightarrow> document_table \<Rightarrow> source_span_spec list" where
  "build_table_span_specs sha t =
     (let snapshot = sha (table_source_snapshot t);
          heading = join_present [table_title t, table_heading t] in
      map (\<lambda>(span_index, (word_start, span_text)).
        \<lparr>ss_source_type = ''table'', ss_source_id = table_id t, ss_chunk_id = None,
         ss_table_id = Some (table_id t), ss_span_index = span_index, ss_span_text = span_text,
         ss_heading = heading, ss_page_from = table_page_from t,
         ss_page_to = table_page_to t,
         ss_content_sha256 =
           span_content_sha256 sha ''table'' (table_id t) span_index span_text snapshot,
         ss_source_snapshot_sha256 = snapshot,
         ss_metadata = [
           (''schema_name'', JStr ''retrieval_evidence_span_v1''),
           (''source_table_index'', JInt (table_table_index t)),
           (''logical_table_key'', json_opt_str (table_logical_table_key t)),
           (''word_start'', JInt (int word_start)),
           (''word_count'', JInt (int (length (str_split span_text))))]\<rparr>)
       (List.enumerate 0 (window_text (table_search_text t))))"

definition build_span_multivector_specs ::
  "(json \<Rightarrow> string) \<Rightarrow> retrieval_evidence_span \<Rightarrow> span_multivector_spec list" where
  "build_span_multivector_specs sha sp =
     map (\<lambda>(vector_index, (token_start, token_end, vector_text)).
        \<lparr>sv_retrieval_evidence_span_id = rs_id sp, sv_document_id = rs_document_id sp,
         sv_run_id = rs_run_id sp, sv_source_type = rs_source_type sp,
         sv_source_id = rs_source_id sp, sv_vector_index = vector_index,
         sv_token_start = token_start, sv_token_end = token_end, sv_vector_text = vector_text,
         sv_content_sha256 =
           span_multivector_content_sha256 sha (rs_id sp) vector_index token_start token_end
             vector_text (rs_content_sha256 sp) (rs_source_snapshot_sha256 sp),
         sv_metadata = [
           (''schema_name'', JStr ''retrieval_evidence_span_multivector_v1''),
           (''source_span_content_sha256'', JStr (rs_content_sha256 sp)),
           (''source_snapshot_sha256'', JStr (rs_source_snapshot_sha256 sp)),
           (''word_window'', JInt (int MULTIVECTOR_WORD_WINDOW)),
           (''word_overlap'', JInt (int MULTIVECTOR_WORD_OVERLAP)),
           (''token_count'', JInt (int token_end - int token_start))]\<rparr>)
       (List.enumerate 0
         (window_word_ranges MULTIVECTOR_WORD_WINDOW MULTIVECTOR_WORD_OVERLAP
           MULTIVECTOR_MIN_TRAILING_WORDS (rs_span_text sp)))"

section \<open>Properties of the spans\<close>

text \<open>
  The span windows and the multivector windows are plain sliding windows of 80 words every 60
  and of 16 words every 8, the last one cut at the end of the text. In particular the branch of
  \<open>_window_word_ranges\<close> that merges a short trailing window is never taken with the
  configured overlaps.
\<close>

theorem span_windows_sliding:
  "window_word_ranges SPAN_WORD_WINDOW SPAN_WORD_OVERLAP SPAN_MIN_TRAILING_WORDS value =
    (if str_split value = [] then [] else sliding 80 60 (str_split value) 0) \<and>
   window_word_ranges MULTIVECTOR_WORD_WINDOW MULTIVECTOR_WORD_OVERLAP
     MULTIVECTOR_MIN_TRAILING_WORDS value =
    (if str_split value = [] then [] else sliding 16 8 (str_split value) 0)"
  by (simp add: window_word_ranges_sliding window_constants)

lemma window_text_sliding:
  "window_text value =
    (if str_split value = [] then []
     else map (\<lambda>(s, _, t). (s, t)) (sliding 80 60 (str_split value) 0))"
  by (simp add: window_text_def window_word_ranges_sliding window_constants)

text \<open>A window of the text of a chunk, as the span builder sees it.\<close>

lemma window_text_window:
  assumes "(start, t) \<in> set (window_text value)"
  obtains e where "start < e" "e \<le> length (str_split value)" "e - start \<le> 80"
    "t = str_join '' '' (slice start e (str_split value))"
    "str_split t = slice start e (str_split value)"
proof -
  from assms obtain e where mem: "(start, e, t) \<in> set (sliding 80 60 (str_split value) 0)"
    and ne: "str_split value \<noteq> []"
    by (auto simp: window_text_sliding split: if_splits)
  have "start < e \<and> e \<le> length (str_split value) \<and> e - start \<le> 80
      \<and> t = str_join '' '' (slice start e (str_split value))"
    using sliding_window_ok [OF _ _ _ mem] ne by simp
  then show ?thesis
    using that split_window [of "str_split value" start e] str_split_words by auto
qed

lemma set_enumerate_snd: "snd ` set (List.enumerate n xs) = set xs"
  by (metis list.set_map map_snd_enumerate)

lemma chunk_span_spec_fields [simp]:
  "ss_span_index (chunk_span_spec sha c k s t) = k"
  "ss_span_text (chunk_span_spec sha c k s t) = t"
  "dict_get (ss_metadata (chunk_span_spec sha c k s t)) ''word_start'' = Some (JInt (int s))"
  "dict_get (ss_metadata (chunk_span_spec sha c k s t)) ''word_count'' =
     Some (JInt (int (length (str_split t))))"
  by (simp_all add: chunk_span_spec_def Let_def)

lemma chunk_spec_of_window:
  assumes "(start, t) \<in> set (window_text (chunk_text c))"
  obtains k where "chunk_span_spec sha c k start t \<in> set (build_chunk_span_specs sha c)"
proof -
  from assms obtain k where "(k, (start, t)) \<in> set (List.enumerate 0 (window_text (chunk_text c)))"
    using set_enumerate_snd [of 0 "window_text (chunk_text c)"] by (metis imageE prod.collapse)
  then have "chunk_span_spec sha c k start t \<in> set (build_chunk_span_specs sha c)"
    unfolding build_chunk_span_specs_def by (auto intro!: image_eqI [of _ _ "(k, start, t)"])
  then show ?thesis by (rule that)
qed

text \<open>
  C35: every word of a chunk lies in one of the spans built for it: some span starts at or before
  the word, at word \<open>start\<close> of its \<open>word_start\<close> metadata, and its text contains the word at the
  matching position.
\<close>

theorem chunk_spans_cover:
  assumes "i < length (str_split (chunk_text c))"
  shows "\<exists>sp start. sp \<in> set (build_chunk_span_specs sha c)
    \<and> dict_get (ss_metadata sp) ''word_start'' = Some (JInt (int start))
    \<and> start \<le> i \<and> i - start < length (str_split (ss_span_text sp))
    \<and> str_split (ss_span_text sp) ! (i - start) = str_split (chunk_text c) ! i"
proof -
  let ?ws = "str_split (chunk_text c)"
  from sliding_covers [of 80 60 0 i ?ws] assms obtain start e t
    where w: "(start, e, t) \<in> set (sliding 80 60 ?ws 0)" "start \<le> i" "i < e" by auto
  have "0 < length ?ws" using assms by linarith
  then have e: "e \<le> length ?ws" "t = str_join '' '' (slice start e ?ws)"
    using sliding_window_ok [OF _ _ _ w(1)] by simp_all
  have "?ws \<noteq> []" using assms by auto
  then have "(start, t) \<in> set (window_text (chunk_text c))"
    using w(1) unfolding window_text_sliding by (force simp: image_iff)
  then obtain k where sp: "chunk_span_spec sha c k start t \<in> set (build_chunk_span_specs sha c)"
    by (rule chunk_spec_of_window)
  have t: "str_split t = slice start e ?ws"
    using split_window [of ?ws start e] str_split_words e(2) by auto
  have "i - start < length (slice start e ?ws)" "slice start e ?ws ! (i - start) = ?ws ! i"
    using w e(1) by (auto simp: slice_def)
  with sp t w(2) show ?thesis
    by (intro exI [of _ "chunk_span_spec sha c k start t"] exI [of _ start]) simp
qed

theorem chunk_spans_cover_witness:
  "\<exists>sp start. sp \<in> set (build_chunk_span_specs (\<lambda>_. ''h'')
      \<lparr>chunk_id = 1, chunk_document_id = 2, chunk_run_id = 3, chunk_chunk_index = 0,
       chunk_text = ''pump  relay'', chunk_heading = None, chunk_page_from = Some 1,
       chunk_page_to = Some 1, chunk_metadata = [], chunk_embedding = None,
       chunk_created_at = 0\<rparr>)
    \<and> dict_get (ss_metadata sp) ''word_start'' = Some (JInt (int start))
    \<and> start \<le> 1 \<and> 1 - start < length (str_split (ss_span_text sp))
    \<and> str_split (ss_span_text sp) ! (1 - start) = ''relay''"
proof -
  let ?c = "\<lparr>chunk_id = 1, chunk_document_id = 2, chunk_run_id = 3, chunk_chunk_index = 0,
       chunk_text = ''pump  relay'', chunk_heading = None, chunk_page_from = Some 1,
       chunk_page_to = Some 1, chunk_metadata = [], chunk_embedding = None,
       chunk_created_at = 0\<rparr>"
  have split: "str_split (chunk_text ?c) = [''pump'', ''relay'']"
    by (simp add: str_split_def is_space_def)
  show ?thesis
    using chunk_spans_cover [of 1 ?c "\<lambda>_. ''h''"] unfolding split by simp
qed

text \<open>
  The spans of a chunk are numbered from 0 in order, each holds at least one and at most 80
  words of the chunk in normalised form, and its \<open>word_count\<close> metadata is the number of words.
\<close>

theorem chunk_spans_bounds:
  "map ss_span_index (build_chunk_span_specs sha c) =
     [0..<length (build_chunk_span_specs sha c)] \<and>
   list_all (\<lambda>sp. 0 < length (str_split (ss_span_text sp))
       \<and> length (str_split (ss_span_text sp)) \<le> SPAN_WORD_WINDOW
       \<and> ss_span_text sp = str_join '' '' (str_split (ss_span_text sp))
       \<and> dict_get (ss_metadata sp) ''word_count'' =
           Some (JInt (int (length (str_split (ss_span_text sp))))))
     (build_chunk_span_specs sha c)"
proof
  show "map ss_span_index (build_chunk_span_specs sha c) =
      [0..<length (build_chunk_span_specs sha c)]"
    by (simp add: build_chunk_span_specs_def case_prod_beta comp_def flip: fst_def)
next
  have ok: "0 < length (str_split t) \<and> length (str_split t) \<le> SPAN_WORD_WINDOW
      \<and> t = str_join '' '' (str_split t)" if "(s, t) \<in> set (window_text (chunk_text c))" for s t
    using that by (elim window_text_window) (simp add: length_slice window_constants)
  have mem: "(s, t) \<in> set (window_text (chunk_text c))"
    if "(k, s, t) \<in> set (List.enumerate 0 (window_text (chunk_text c)))" for k s t
    using that set_enumerate_snd [of 0 "window_text (chunk_text c)"] by force
  have all: "0 < length (str_split t) \<and> length (str_split t) \<le> SPAN_WORD_WINDOW
      \<and> t = str_join '' '' (str_split t)"
    if "(k, s, t) \<in> set (List.enumerate 0 (window_text (chunk_text c)))" for k s t
    using ok [OF mem [OF that]] .
  show "list_all (\<lambda>sp. 0 < length (str_split (ss_span_text sp))
       \<and> length (str_split (ss_span_text sp)) \<le> SPAN_WORD_WINDOW
       \<and> ss_span_text sp = str_join '' '' (str_split (ss_span_text sp))
       \<and> dict_get (ss_metadata sp) ''word_count'' =
           Some (JInt (int (length (str_split (ss_span_text sp))))))
     (build_chunk_span_specs sha c)"
    unfolding list_all_iff build_chunk_span_specs_def
    by (clarsimp simp del: length_greater_0_conv) (drule all, blast)
qed

end
