(* ===== verification/Parse_Items.thy ===== *)
theory Parse_Items
  imports Text_Norm
begin

text \<open>
  \<open>app/services/docling_parser_normalization.py\<close>: from the items of a converted document to
  chunks, raw table segments and figures. What docling hands over is data here: the items in
  reading order, the tables and pictures of the exported document. The digest of an exported
  table or picture is an argument.

  The lemmas show what becomes a chunk and under which heading, which raw table segments survive
  as meaningful ones, and that folding empty segments into a following one only widens its pages.
\<close>

section \<open>Items\<close>

record docling_item =
  di_self_ref :: "string option"
  di_label :: string
  di_text :: "string option"
  di_level :: "int option"
  di_page_numbers :: "int option list"

record item_snapshot =
  it_index :: nat
  it_self_ref :: "string option"
  it_label :: string
  it_text :: string
  it_level :: "int option"
  it_page_from :: "int option"
  it_page_to :: "int option"

definition collect_page_range :: "docling_item \<Rightarrow> int option \<times> int option" where
  "collect_page_range item =
     (min_present None (di_page_numbers item), max_present None (di_page_numbers item))"

text \<open>\<open>HEADING_PATTERN\<close>: \<open>^(Chapter\s+\d+|Part\s+[IVXLC]+|[0-9]+(?:\.[0-9]+)*\s)\<close>.\<close>

definition starts_with :: "string \<Rightarrow> string \<Rightarrow> bool" where
  "starts_with p s = (take (length p) s = p)"

definition word_then :: "string \<Rightarrow> (char \<Rightarrow> bool) \<Rightarrow> string \<Rightarrow> bool" where
  "word_then w ok s =
     (starts_with w s \<and>
      (let r = drop (length w) s; t = dropWhile is_space r in
       length t < length r \<and> t \<noteq> [] \<and> ok (hd t)))"

fun section_number :: "bool \<Rightarrow> string \<Rightarrow> bool" where
  "section_number seen [] = False"
| "section_number seen (c # cs) =
     (if is_digit_ascii c then section_number True cs
      else if seen \<and> c = CHR ''.'' then
        (case cs of [] \<Rightarrow> False | d # _ \<Rightarrow> is_digit_ascii d \<and> section_number False cs)
      else seen \<and> is_space c)"

definition heading_match :: "string \<Rightarrow> bool" where
  "heading_match s =
     (word_then ''Chapter'' is_digit_ascii s \<or> word_then ''Part'' (\<lambda>c. c \<in> set ''IVXLC'') s
      \<or> section_number False s)"

text \<open>\<open>TABLE_LABEL_PATTERN\<close>: \<open>^TABLE\s+[0-9A-Z().-]+\<close>, ignoring case.\<close>

definition table_label_match :: "string \<Rightarrow> bool" where
  "table_label_match s =
     word_then ''table'' (\<lambda>c. is_digit_ascii c \<or> is_letter_ascii c \<or> c \<in> set ''().-'')
       (str_lower s)"

definition is_structural_heading :: "item_snapshot \<Rightarrow> bool" where
  "is_structural_heading s =
     (it_label s = ''section_header'' \<and> it_text s \<noteq> [] \<and> heading_match (it_text s))"

definition snapshot_items :: "docling_item list \<Rightarrow> item_snapshot list" where
  "snapshot_items items =
     map (\<lambda>(index, item). \<lparr>it_index = index, it_self_ref = di_self_ref item,
            it_label = di_label item, it_text = normalize_text (di_text item),
            it_level = di_level item, it_page_from = fst (collect_page_range item),
            it_page_to = snd (collect_page_range item)\<rparr>)
       (List.enumerate 0 items)"

section \<open>Chunks\<close>

text \<open>One round of the loop of \<open>_normalize_chunks\<close>; the state is \<open>chunks\<close> and \<open>current_heading\<close>.\<close>

definition chunk_metadata_of :: "item_snapshot \<Rightarrow> dict" where
  "chunk_metadata_of s = [(''label'', JStr (it_label s))] @
     (case it_level s of None \<Rightarrow> [] | Some l \<Rightarrow> [(''level'', JInt l)])"

definition chunk_step ::
  "parsed_chunk list \<times> string option \<Rightarrow> item_snapshot \<Rightarrow> parsed_chunk list \<times> string option" where
  "chunk_step st s =
     (let (chunks, current_heading) = st in
      if it_text s = [] then st
      else if is_structural_heading s then (chunks, Some (it_text s))
      else if it_label s = ''table'' then st
      else (chunks @ [\<lparr>pc_chunk_index = int (length chunks), pc_text = it_text s,
                pc_heading = current_heading, pc_page_from = it_page_from s,
                pc_page_to = it_page_to s, pc_metadata = chunk_metadata_of s,
                pc_embedding = None\<rparr>], current_heading))"

definition normalize_chunks :: "item_snapshot list \<Rightarrow> parsed_chunk list" where
  "normalize_chunks snapshots = fst (foldl chunk_step ([], None) snapshots)"

definition heading_step ::
  "string option \<times> (nat \<times> string option) list \<Rightarrow> item_snapshot \<Rightarrow>
   string option \<times> (nat \<times> string option) list" where
  "heading_step st s =
     (let current_heading = (if is_structural_heading s then Some (it_text s) else fst st)
      in (current_heading, dict_set (it_index s) current_heading (snd st)))"

definition heading_lookup_by_item_index :: "item_snapshot list \<Rightarrow> (nat \<times> string option) list" where
  "heading_lookup_by_item_index snapshots = snd (foldl heading_step (None, []) snapshots)"

text \<open>\<open>headings_by_index.get(index)\<close>.\<close>

definition heading_at :: "(nat \<times> string option) list \<Rightarrow> nat \<Rightarrow> string option" where
  "heading_at headings i = (case dict_get headings i of None \<Rightarrow> None | Some h \<Rightarrow> h)"

section \<open>Captions and titles near an item\<close>

definition page_distance :: "item_snapshot \<Rightarrow> item_snapshot \<Rightarrow> int" where
  "page_distance reference candidate =
     (let page = (\<lambda>s. case int_or (it_page_from s) (it_page_to s) of None \<Rightarrow> 0 | Some p \<Rightarrow> p)
      in \<bar>page reference - page candidate\<bar>)"

definition index_distance :: "item_snapshot \<Rightarrow> item_snapshot \<Rightarrow> int" where
  "index_distance a b = \<bar>int (it_index a) - int (it_index b)\<bar>"

definition caption_step ::
  "item_snapshot \<Rightarrow> (int \<times> string) option \<Rightarrow> item_snapshot \<Rightarrow> (int \<times> string) option" where
  "caption_step table_snapshot best candidate =
     (if \<not> table_label_match (it_text candidate) then best
      else
        (let score = index_distance candidate table_snapshot
                       + page_distance table_snapshot candidate * 2 in
         case best of
           None \<Rightarrow> Some (score, it_text candidate)
         | Some (s, _) \<Rightarrow> if score < s then Some (score, it_text candidate) else best))"

definition find_nearby_caption :: "item_snapshot list \<Rightarrow> item_snapshot \<Rightarrow> string option" where
  "find_nearby_caption snapshots table_snapshot =
     map_option snd (foldl (caption_step table_snapshot) None
       (slice (it_index table_snapshot - 3)
          (min (length snapshots) (it_index table_snapshot + 4)) snapshots))"

text \<open>\<open>str.isupper\<close> on code points below 256: a cased character, and no lower-case one.\<close>

definition is_upper_char :: "char \<Rightarrow> bool" where
  "is_upper_char c = (let n = (of_char c :: nat) in
     (65 \<le> n \<and> n \<le> 90) \<or> (192 \<le> n \<and> n \<le> 222 \<and> n \<noteq> 215))"

definition is_lower_char :: "char \<Rightarrow> bool" where
  "is_lower_char c = (let n = (of_char c :: nat) in
     (97 \<le> n \<and> n \<le> 122) \<or> n = 170 \<or> n = 181 \<or> n = 186 \<or> (223 \<le> n \<and> n \<le> 255 \<and> n \<noteq> 247))"

definition str_isupper :: "string \<Rightarrow> bool" where
  "str_isupper s = (list_ex is_upper_char s \<and> \<not> list_ex is_lower_char s)"

definition looks_like_table_title_hint :: "item_snapshot \<Rightarrow> bool" where
  "looks_like_table_title_hint s =
     (if it_text s = [] \<or>
         it_label s \<in> {''table'', ''caption'', ''footnote'', ''list_item''} then False
      else if is_structural_heading s then False
      else if table_label_match (it_text s) then False
      else if length (str_split (it_text s)) < 2 \<and> length (it_text s) < 8 then False
      else str_isupper (it_text s) \<or> it_label s = ''section_header'')"

definition find_table_title_hint :: "item_snapshot list \<Rightarrow> item_snapshot \<Rightarrow> string option" where
  "find_table_title_hint snapshots table_snapshot =
     (let candidates = filter looks_like_table_title_hint
            (slice (it_index table_snapshot - 2)
               (min (length snapshots) (it_index table_snapshot + 3)) snapshots)
      in map_option it_text
           (first_by (\<lambda>c. (index_distance c table_snapshot, page_distance table_snapshot c))
              candidates))"

definition combine_table_title :: "string option \<Rightarrow> string option \<Rightarrow> string option" where
  "combine_table_title caption title_hint =
     (case (caption, title_hint) of
        (Some c, Some t) \<Rightarrow>
          if c \<noteq> [] \<and> t \<noteq> [] \<and> \<not> str_contains (str_lower t) (str_lower c)
          then Some (str_strip (c @ '' '' @ t))
          else str_or caption title_hint
      | _ \<Rightarrow> str_or caption title_hint)"

definition is_figure_group_label :: "string \<Rightarrow> bool" where
  "is_figure_group_label text =
     (str_contains ''diagram'' (str_lower text) \<or> str_contains ''figure'' (str_lower text))"

definition looks_like_figure_caption_candidate :: "item_snapshot \<Rightarrow> bool" where
  "looks_like_figure_caption_candidate s =
     (if it_text s = [] then False
      else if it_label s \<in> {''table'', ''picture'', ''footnote'', ''list_item''} then False
      else if is_structural_heading s then False
      else if table_label_match (it_text s) then False
      else if str_lower (it_text s) = ''diagram'' then False
      else if length (str_split (it_text s)) > 20 then False
      else True)"

definition find_nearby_figure_caption ::
  "item_snapshot list \<Rightarrow> item_snapshot \<Rightarrow>
   string option \<times> string \<times> rat option \<times> string list" where
  "find_nearby_figure_caption snapshots picture =
     (let start = it_index picture - 2;
          e = min (length snapshots) (it_index picture + 5);
          candidates = filter (\<lambda>c. looks_like_figure_caption_candidate c
                                 \<and> it_index c \<noteq> it_index picture)
                         (slice start e snapshots);
          ranked = sort_key (\<lambda>c. (if it_index c \<ge> it_index picture then 0 else 1 :: nat,
                                   index_distance c picture, page_distance picture c)) candidates;
          candidate_texts = map it_text ranked in
      case ranked of
        [] \<Rightarrow> (None, ''none'', None, [])
      | primary # rest \<Rightarrow>
          if it_label primary = ''caption''
          then (Some (it_text primary), ''nearby_caption'', Some 0.85, candidate_texts)
          else if it_text primary \<noteq> [] \<and> is_figure_group_label (it_text primary)
                  \<and> rest \<noteq> [] \<and> it_text (hd rest) \<noteq> []
          then (Some (str_strip (it_text primary @ '' '' @ it_text (hd rest))),
                ''nearby_group_label'', Some 0.7, candidate_texts)
          else (Some (it_text primary), ''nearby_text'', Some 0.6, candidate_texts))"

section \<open>Raw table segments\<close>

text \<open>
  What the parser reads of one table of the exported document: its reference, the texts of the
  cells of its grid, and the exported object itself, which is only digested.
\<close>

record exported_table =
  et_self_ref :: "string option"
  et_grid :: "string option list list"
  et_json :: json

definition normalize_grid_rows :: "exported_table \<Rightarrow> string list list" where
  "normalize_grid_rows t =
     filter (\<lambda>row. list_ex (\<lambda>cell. cell \<noteq> []) row) (map (map normalize_text) (et_grid t))"

definition title_source_of :: "string option \<Rightarrow> string option \<Rightarrow> string" where
  "title_source_of caption title_hint =
     (if str_truthy caption \<and> str_truthy title_hint then ''caption+title_hint''
      else if str_truthy title_hint then ''title_hint''
      else if \<not> str_truthy caption then ''inferred''
      else ''caption'')"

definition raw_table_segment ::
  "(json \<Rightarrow> string) \<Rightarrow> item_snapshot list \<Rightarrow> (nat \<times> string option) list \<Rightarrow> nat \<Rightarrow>
   item_snapshot \<Rightarrow> exported_table \<Rightarrow> parsed_table_segment" where
  "raw_table_segment sha snapshots headings segment_index table_snapshot exported =
     (let rows = normalize_grid_rows exported;
          caption = find_nearby_caption snapshots table_snapshot;
          title_hint = find_table_title_hint snapshots table_snapshot in
      \<lparr>ps_segment_index = int segment_index,
       ps_segment_order = int (it_index table_snapshot),
       ps_source_table_ref = et_self_ref exported,
       ps_title = combine_table_title caption title_hint,
       ps_heading = heading_at headings (it_index table_snapshot),
       ps_page_from = it_page_from table_snapshot,
       ps_page_to = it_page_to table_snapshot,
       ps_row_count = int (length rows),
       ps_col_count = int (list_max 0 (map length rows)),
       ps_rows = rows,
       ps_metadata = [
         (''caption'', json_opt_str caption),
         (''title_hint'', json_opt_str title_hint),
         (''segment_label'', JStr (it_label table_snapshot)),
         (''title_source'', JStr (title_source_of caption title_hint)),
         (''header_rows_retained'', JInt (int (min (length rows) 3))),
         (''header_rows_removed'', JInt 0),
         (''source_artifact_sha256'', JStr (sha (et_json exported)))]\<rparr>)"

definition build_raw_table_segments ::
  "(json \<Rightarrow> string) \<Rightarrow> exported_table list \<Rightarrow> item_snapshot list \<Rightarrow>
   (nat \<times> string option) list \<Rightarrow> parsed_table_segment list" where
  "build_raw_table_segments sha tables snapshots headings =
     map (\<lambda>(i, s, t). raw_table_segment sha snapshots headings i s t)
       (List.enumerate 0 (zip (filter (\<lambda>s. it_label s = ''table'') snapshots) tables))"

section \<open>Meaningful segments\<close>

definition pages_adjacent :: "parsed_table_segment \<Rightarrow> parsed_table_segment \<Rightarrow> bool" where
  "pages_adjacent left right =
     (case (int_or (ps_page_to left) (ps_page_from left),
            int_or (ps_page_from right) (ps_page_to right)) of
        (Some left_page, Some right_page) \<Rightarrow> right_page - left_page \<le> 1
      | _ \<Rightarrow> False)"

definition widen_from :: "int option \<Rightarrow> int option \<Rightarrow> int option" where
  "widen_from own carried =
     (case carried of None \<Rightarrow> own
      | Some c \<Rightarrow> (case own of None \<Rightarrow> Some c | Some p \<Rightarrow> Some (min p c)))"

definition widen_to :: "int option \<Rightarrow> int option \<Rightarrow> int option" where
  "widen_to own carried =
     (case carried of None \<Rightarrow> own
      | Some c \<Rightarrow> (case own of None \<Rightarrow> Some c | Some p \<Rightarrow> Some (max p c)))"

definition collapse_into ::
  "parsed_table_segment list \<Rightarrow> parsed_table_segment \<Rightarrow> parsed_table_segment" where
  "collapse_into pending segment =
     (let collapsible = filter (\<lambda>e. ps_heading e = ps_heading segment
                                  \<and> pages_adjacent e segment) pending in
      if collapsible = [] then segment
      else segment\<lparr>
        ps_page_from := widen_from (ps_page_from segment)
          (min_present (ps_page_from segment) (map ps_page_from collapsible)),
        ps_page_to := widen_to (ps_page_to segment)
          (max_present (ps_page_to segment) (map ps_page_to collapsible)),
        ps_metadata := dict_set ''collapsed_empty_segment_indices''
          (JArr (map (\<lambda>e. JInt (ps_segment_index e)) collapsible)) (ps_metadata segment)\<rparr>)"

text \<open>The loop: \<open>pending\<close> is the list of empty segments since the last one with rows.\<close>

fun meaningful_from ::
  "parsed_table_segment list \<Rightarrow> parsed_table_segment list \<Rightarrow> parsed_table_segment list" where
  "meaningful_from pending [] = []"
| "meaningful_from pending (s # ss) =
     (if ps_rows s = [] then meaningful_from (pending @ [s]) ss
      else collapse_into pending s # meaningful_from [] ss)"

definition meaningful_table_segments ::
  "parsed_table_segment list \<Rightarrow> parsed_table_segment list" where
  "meaningful_table_segments raw_segments = meaningful_from [] raw_segments"

section \<open>Figures\<close>

text \<open>\<open>d.get(k)\<close> and \<open>d.get(k) or []\<close> on an exported object.\<close>

definition json_field :: "dict \<Rightarrow> string \<Rightarrow> json" where
  "json_field d k = (case dict_get d k of None \<Rightarrow> JNull | Some v \<Rightarrow> v)"

definition json_field_or_empty :: "dict \<Rightarrow> string \<Rightarrow> json" where
  "json_field_or_empty d k = (if py_truthy (json_field d k) then json_field d k else JArr [])"

fun json_items :: "json \<Rightarrow> json list" where
  "json_items (JArr xs) = xs"
| "json_items _ = []"

fun json_object :: "json \<Rightarrow> dict" where
  "json_object (JObj d) = d"
| "json_object _ = []"

fun json_str :: "json \<Rightarrow> string option" where
  "json_str (JStr s) = Some s"
| "json_str _ = None"

definition confidence_key :: "string \<Rightarrow> bool" where
  "confidence_key k = (str_lower k \<in> {''confidence'', ''score'', ''probability''})"

text \<open>A boolean is an \<open>int\<close> for \<open>isinstance\<close>, so \<open>json_number\<close> is the right test.\<close>

fun annotation_confidence :: "json \<Rightarrow> rat option"
  and annotation_dict :: "(string \<times> json) list \<Rightarrow> rat option"
  and annotation_list :: "json list \<Rightarrow> rat option" where
  "annotation_confidence (JObj d) = annotation_dict d"
| "annotation_confidence (JArr xs) = annotation_list xs"
| "annotation_confidence _ = None"
| "annotation_dict [] = None"
| "annotation_dict ((k, v) # d) =
     (case (if confidence_key k then json_number v else None) of
        Some c \<Rightarrow> Some c
      | None \<Rightarrow> (case annotation_confidence v of Some c \<Rightarrow> Some c | None \<Rightarrow> annotation_dict d))"
| "annotation_list [] = None"
| "annotation_list (x # xs) =
     (case annotation_confidence x of Some c \<Rightarrow> Some c | None \<Rightarrow> annotation_list xs)"

definition normalize_provenance :: "json \<Rightarrow> json" where
  "normalize_provenance provenances =
     JArr (map (\<lambda>p.
       (let prov = json_object p; bbox = json_object (json_field prov ''bbox'') in
        JObj [(''page_no'', json_field prov ''page_no''),
              (''bbox'', JObj [
                 (''l'', json_field bbox ''l''), (''t'', json_field bbox ''t''),
                 (''r'', json_field bbox ''r''), (''b'', json_field bbox ''b''),
                 (''coord_origin'', json_field bbox ''coord_origin'')]),
              (''charspan'', json_field prov ''charspan'')]))
       (json_items provenances))"

text \<open>One text of the exported document: its reference, \<open>text\<close> and \<open>orig\<close>.\<close>

type_synonym exported_text = "string option \<times> string option \<times> string option"

definition build_exported_text_lookup :: "exported_text list \<Rightarrow> (string \<times> string) list" where
  "build_exported_text_lookup texts =
     foldl (\<lambda>lookup (ref, text, orig).
        (let t = normalize_text (str_or text orig) in
         case ref of None \<Rightarrow> lookup
         | Some r \<Rightarrow> if r \<noteq> [] \<and> t \<noteq> [] then dict_set r t lookup else lookup))
       [] texts"

definition build_figure ::
  "(json \<Rightarrow> string) \<Rightarrow> (string \<times> string) list \<Rightarrow> item_snapshot list \<Rightarrow>
   (nat \<times> string option) list \<Rightarrow> nat \<Rightarrow> item_snapshot \<Rightarrow> dict \<Rightarrow> parsed_figure" where
  "build_figure sha text_lookup snapshots headings figure_index picture exported =
     (let caption_refs = some_values (map json_str
            (json_items (json_field_or_empty exported ''captions'')));
          explicit_captions = some_values (map (dict_get text_lookup) caption_refs);
          explicit = str_strip (str_join '' '' (dict_fromkeys explicit_captions));
          (caption, caption_source, caption_confidence, caption_candidates) =
            (if explicit \<noteq> []
             then (Some explicit, ''explicit_ref'', Some 1, explicit_captions)
             else find_nearby_figure_caption snapshots picture);
          annotations = json_field_or_empty exported ''annotations'';
          source_confidence = annotation_confidence annotations;
          figure_confidence = or_else source_confidence caption_confidence in
      \<lparr>pf_figure_index = int figure_index,
       pf_source_figure_ref = json_str (json_field exported ''self_ref''),
       pf_caption = caption,
       pf_heading = heading_at headings (it_index picture),
       pf_page_from = it_page_from picture,
       pf_page_to = it_page_to picture,
       pf_confidence = figure_confidence,
       pf_metadata = [
         (''label'', json_field exported ''label''),
         (''caption_resolution_source'', JStr caption_source),
         (''caption_candidates'', JArr (map JStr caption_candidates)),
         (''caption_attachment_confidence'',
           case caption_confidence of None \<Rightarrow> JNull | Some r \<Rightarrow> JReal r),
         (''source_confidence'', case source_confidence of None \<Rightarrow> JNull | Some r \<Rightarrow> JReal r),
         (''captions'', JArr (map JStr caption_refs)),
         (''references'', json_field_or_empty exported ''references''),
         (''footnotes'', json_field_or_empty exported ''footnotes''),
         (''annotations'', annotations),
         (''provenance'', normalize_provenance (json_field exported ''prov'')),
         (''source_artifact_sha256'', JStr (sha (JObj exported)))]\<rparr>)"

definition build_figures ::
  "(json \<Rightarrow> string) \<Rightarrow> exported_text list \<Rightarrow> dict list \<Rightarrow> item_snapshot list \<Rightarrow>
   (nat \<times> string option) list \<Rightarrow> parsed_figure list" where
  "build_figures sha texts pictures snapshots headings =
     map (\<lambda>(i, s, p).
        build_figure sha (build_exported_text_lookup texts) snapshots headings i s p)
       (List.enumerate 0 (zip (filter (\<lambda>s. it_label s = ''picture'') snapshots) pictures))"

section \<open>Properties\<close>

text \<open>Items that become chunks, and the heading in force after a list of items.\<close>

definition is_body_item :: "item_snapshot \<Rightarrow> bool" where
  "is_body_item s = (it_text s \<noteq> [] \<and> \<not> is_structural_heading s \<and> it_label s \<noteq> ''table'')"

definition last_heading :: "item_snapshot list \<Rightarrow> string option" where
  "last_heading ss =
     (let hs = filter is_structural_heading ss in
      if hs = [] then None else Some (it_text (last hs)))"

lemma last_heading_Nil [simp]: "last_heading [] = None"
  by (simp add: last_heading_def)

lemma last_heading_snoc:
  "last_heading (ss @ [s]) = (if is_structural_heading s then Some (it_text s) else last_heading ss)"
  by (simp add: last_heading_def)

lemma structural_heading_text: "is_structural_heading s \<Longrightarrow> it_text s \<noteq> []"
  by (simp add: is_structural_heading_def)

lemma chunk_step_snd:
  "snd (chunk_step st s) = (if is_structural_heading s then Some (it_text s) else snd st)"
  using structural_heading_text [of s] by (auto simp: chunk_step_def split: prod.splits)

lemma chunk_fold_snd: "snd (foldl chunk_step ([], None) ss) = last_heading ss"
  by (induction ss rule: rev_induct) (simp_all add: chunk_step_snd last_heading_snoc)

lemma normalize_chunks_snoc:
  "normalize_chunks (ss @ [s]) = normalize_chunks ss @
     (if is_body_item s
      then [\<lparr>pc_chunk_index = int (length (normalize_chunks ss)), pc_text = it_text s,
             pc_heading = last_heading ss, pc_page_from = it_page_from s,
             pc_page_to = it_page_to s, pc_metadata = chunk_metadata_of s, pc_embedding = None\<rparr>]
      else [])"
proof -
  obtain cs h where st: "foldl chunk_step ([], None) ss = (cs, h)" by fastforce
  then have "h = last_heading ss" using chunk_fold_snd [of ss] by simp
  then show ?thesis
    by (simp add: st normalize_chunks_def chunk_step_def is_body_item_def)
qed

lemma normalize_chunks_Nil [simp]: "normalize_chunks [] = []"
  by (simp add: normalize_chunks_def)

definition body_positions :: "item_snapshot list \<Rightarrow> nat list" where
  "body_positions ss = filter (\<lambda>i. is_body_item (ss ! i)) [0..<length ss]"

lemma body_positions_snoc:
  "body_positions (ss @ [s]) = body_positions ss @ (if is_body_item s then [length ss] else [])"
  by (auto simp: body_positions_def nth_append intro: filter_cong)

lemma body_positions_less: "i \<in> set (body_positions ss) \<Longrightarrow> i < length ss"
  by (simp add: body_positions_def)

text \<open>
  The chunks of a document are, in reading order and numbered from 0, its items with text that
  are neither section headings nor tables; each has the text and the pages of its item and the last
  structural heading before it.
\<close>

theorem normalize_chunks_spec:
  "map pc_chunk_index (normalize_chunks ss) = map int [0..<length (normalize_chunks ss)] \<and>
   map (\<lambda>c. (pc_text c, pc_heading c, pc_page_from c, pc_page_to c)) (normalize_chunks ss) =
   map (\<lambda>i. (it_text (ss ! i), last_heading (take i ss), it_page_from (ss ! i),
              it_page_to (ss ! i))) (body_positions ss)"
proof (induction ss rule: rev_induct)
  case Nil
  then show ?case by (simp add: body_positions_def)
next
  case (snoc s ss)
  then show ?case
    by (auto simp: normalize_chunks_snoc body_positions_snoc nth_append
        dest: body_positions_less)
qed

lemma heading_fold_fst: "fst (foldl heading_step (None, []) ss) = last_heading ss"
  by (induction ss rule: rev_induct) (simp_all add: heading_step_def last_heading_snoc Let_def)

lemma heading_lookup_snoc:
  "heading_lookup_by_item_index (ss @ [s]) =
     dict_set (it_index s) (last_heading (ss @ [s])) (heading_lookup_by_item_index ss)"
  by (simp add: heading_lookup_by_item_index_def heading_step_def last_heading_snoc
      heading_fold_fst Let_def)

text \<open>
  The heading looked up for an item is the last structural heading at or before it, provided
  the items carry distinct indexes.
\<close>

theorem heading_lookup_spec:
  assumes "distinct (map it_index ss)" and "i < length ss"
  shows "heading_at (heading_lookup_by_item_index ss) (it_index (ss ! i)) =
    last_heading (take (Suc i) ss)"
  using assms
proof (induction ss arbitrary: i rule: rev_induct)
  case (snoc s ss)
  have upd: "heading_lookup_by_item_index (ss @ [s]) =
      dict_set (it_index s) (last_heading (ss @ [s])) (heading_lookup_by_item_index ss)"
    by (rule heading_lookup_snoc)
  show ?case
  proof (cases "i < length ss")
    case True
    then have "it_index (ss ! i) \<noteq> it_index s"
      using snoc.prems by (metis distinct_append distinct_map image_eqI list.set_intros(1)
          list.set_map map_append disjoint_iff nth_mem list.simps(9))
    then show ?thesis
      using snoc True by (simp add: upd heading_at_def nth_append update_conv')
  next
    case False
    then have "i = length ss" using snoc.prems by simp
    then show ?thesis by (simp add: upd heading_at_def nth_append update_conv')
  qed
qed simp

theorem heading_lookup_spec_witness:
  "let ss = snapshot_items [
       \<lparr>di_self_ref = None, di_label = ''section_header'', di_text = Some ''1.2 Pumps'',
        di_level = Some 1, di_page_numbers = [Some 1]\<rparr>,
       \<lparr>di_self_ref = None, di_label = ''text'', di_text = Some ''Close the valve'',
        di_level = None, di_page_numbers = [Some 2]\<rparr>]
   in heading_at (heading_lookup_by_item_index ss) 1 = last_heading ss"
proof -
  let ?ss = "snapshot_items [
       \<lparr>di_self_ref = None, di_label = ''section_header'', di_text = Some ''1.2 Pumps'',
        di_level = Some 1, di_page_numbers = [Some 1]\<rparr>,
       \<lparr>di_self_ref = None, di_label = ''text'', di_text = Some ''Close the valve'',
        di_level = None, di_page_numbers = [Some 2]\<rparr>]"
  have "distinct (map it_index ?ss)" "1 < length ?ss" "it_index (?ss ! 1) = 1"
    "take (Suc 1) ?ss = ?ss"
    by (simp_all add: snapshot_items_def)
  then show ?thesis using heading_lookup_spec [of ?ss 1] by (simp only: Let_def)
qed

text \<open>
  The caption taken for a table is the nearest of the table labels among the three items before
  and the three after it: the first one of least distance, two per page and one per item.
\<close>

theorem nearby_caption_nearest:
  "find_nearby_caption snapshots t =
    map_option it_text
      (first_by (\<lambda>c. index_distance c t + page_distance t c * 2)
        (filter (\<lambda>c. table_label_match (it_text c))
          (slice (it_index t - 3) (min (length snapshots) (it_index t + 4)) snapshots)))"
proof -
  let ?score = "\<lambda>c. index_distance c t + page_distance t c * 2"
  have "foldl (caption_step t) None xs =
      map_option (\<lambda>c. (?score c, it_text c))
        (first_by ?score (filter (\<lambda>c. table_label_match (it_text c)) xs))" for xs
    by (induction xs rule: rev_induct)
      (auto simp: caption_step_def first_by_snoc Let_def split: option.splits)
  then show ?thesis
    by (simp add: find_nearby_caption_def option.map_comp comp_def)
qed

text \<open>A page range that contains another one.\<close>

definition pages_contain :: "parsed_table_segment \<Rightarrow> parsed_table_segment \<Rightarrow> bool" where
  "pages_contain outer inner =
     ((case ps_page_from inner of None \<Rightarrow> True
       | Some p \<Rightarrow> (case ps_page_from outer of None \<Rightarrow> False | Some q \<Rightarrow> q \<le> p)) \<and>
      (case ps_page_to inner of None \<Rightarrow> True
       | Some p \<Rightarrow> (case ps_page_to outer of None \<Rightarrow> False | Some q \<Rightarrow> p \<le> q)))"

definition same_content :: "parsed_table_segment \<Rightarrow> parsed_table_segment \<Rightarrow> bool" where
  "same_content a b =
     (b\<lparr>ps_page_from := None, ps_page_to := None, ps_metadata := []\<rparr> =
      a\<lparr>ps_page_from := None, ps_page_to := None, ps_metadata := []\<rparr>)"

lemma collapse_into_content:
  "same_content (collapse_into pending s) s \<and> pages_contain (collapse_into pending s) s"
  by (cases s) (auto simp: collapse_into_def same_content_def pages_contain_def Let_def
      widen_from_def widen_to_def split: option.splits)

lemma meaningful_from_content:
  "list_all2 (\<lambda>m s. same_content m s \<and> pages_contain m s)
     (meaningful_from pending raw) (filter (\<lambda>s. ps_rows s \<noteq> []) raw)"
  by (induction pending raw rule: meaningful_from.induct) (simp_all add: collapse_into_content)

text \<open>
  The meaningful segments are exactly the raw segments with rows, in order; folding the empty
  ones before them into them changes neither rows, titles, headings nor numbering and only widens
  their page ranges.
\<close>

theorem meaningful_segments_spec:
  "list_all2 (\<lambda>m s. same_content m s \<and> pages_contain m s)
     (meaningful_table_segments raw) (filter (\<lambda>s. ps_rows s \<noteq> []) raw)"
  by (simp add: meaningful_table_segments_def meaningful_from_content)

end
