(* ===== verification/Table_Merge.thy ===== *)
theory Table_Merge
  imports Parse_Items
begin

text \<open>
  \<open>app/services/docling_parser_tables.py\<close>: table segments that continue each other over pages
  are grouped into logical tables, repeated header rows are dropped, ambiguous continuations are
  marked, and the result is checked. \<open>_merge_table_family\<close> and the overlays of supplement tables
  found on disk are not modelled.

  The lemmas show that grouping cuts the segment list exactly where two neighbours must not be
  merged, that no row is lost except repeated headers, and that the final check never raises on
  what the builder produced.
\<close>

section \<open>Which segments belong together\<close>

definition normalized_title_key :: "string option \<Rightarrow> string option" where
  "normalized_title_key title =
     (if \<not> str_truthy title then None
      else map_option (\<lambda>t. str_lower (str_strip (collapse_ws t))) title)"

definition segment_merge_reason ::
  "parsed_table_segment \<Rightarrow> parsed_table_segment \<Rightarrow> string option" where
  "segment_merge_reason previous current =
     (if \<not> pages_adjacent previous current then None
      else if str_truthy (ps_heading previous) \<and> str_truthy (ps_heading current)
              \<and> ps_heading previous \<noteq> ps_heading current then None
      else
        (let previous_title = normalized_title_key (ps_title previous);
             current_title = normalized_title_key (ps_title current);
             shapes_differ = (ps_col_count previous \<noteq> 0 \<and> ps_col_count current \<noteq> 0
                              \<and> ps_col_count previous \<noteq> ps_col_count current) in
         if str_truthy previous_title \<and> str_truthy current_title then
           (if previous_title \<noteq> current_title then None
            else if shapes_differ then Some ''adjacent_same_title_heading_continuation''
            else Some ''adjacent_matching_shape_and_title'')
         else if previous_title \<noteq> None \<and> current_title = None
         then Some ''adjacent_titled_then_untitled_continuation''
         else if previous_title = None \<and> current_title = None then
           (if shapes_differ then None else Some ''adjacent_matching_shape_and_title'')
         else None))"

definition should_merge_segments :: "parsed_table_segment \<Rightarrow> parsed_table_segment \<Rightarrow> bool" where
  "should_merge_segments previous current = (segment_merge_reason previous current \<noteq> None)"

section \<open>Rows and texts\<close>

definition row_key :: "string list \<Rightarrow> string" where
  "row_key row =
     str_strip (str_join '' | '' (map (\<lambda>cell. str_lower (normalize_text (Some cell))) row))"

definition row_looks_like_header :: "string list \<Rightarrow> bool" where
  "row_looks_like_header row =
     (let populated = filter (\<lambda>cell. cell \<noteq> []) (map (\<lambda>cell. normalize_text (Some cell)) row);
          alpha = filter (list_ex is_letter_ascii) populated in
      if populated = [] then False
      else if alpha = [] then False
      else length alpha \<ge> max 1 (length populated div 2))"

definition strip_repeated_header_rows ::
  "string list list \<Rightarrow> string list list \<Rightarrow> string list list \<times> nat" where
  "strip_repeated_header_rows existing_rows new_rows =
     (if existing_rows = [] \<or> new_rows = [] then (new_rows, 0)
      else
        (let max_header_rows = min 3 (min (length existing_rows) (length new_rows));
             removed =
               (case find (\<lambda>h. map row_key (take h existing_rows) = map row_key (take h new_rows))
                       (rev [1..<Suc max_header_rows]) of
                  None \<Rightarrow> 0 | Some h \<Rightarrow> h) in
         (drop removed new_rows, removed)))"

definition row_text :: "string list \<Rightarrow> string" where
  "row_text row = str_join '' | '' (filter (\<lambda>cell. cell \<noteq> []) row)"

abbreviation any_cell :: "string list \<Rightarrow> bool" where
  "any_cell row \<equiv> list_ex (\<lambda>cell. cell \<noteq> []) row"

text \<open>\<open>newline\<close> is the string \<open>"\n"\<close>.\<close>

definition newline :: string where
  "newline = [CHR 0x0A]"

definition build_search_text :: "string option \<Rightarrow> string option \<Rightarrow> string list list \<Rightarrow> string" where
  "build_search_text title heading rows =
     str_strip (str_join newline (filter (\<lambda>part. part \<noteq> [])
       (some_values [title, heading] @ map row_text (filter any_cell rows))))"

definition build_preview_text :: "string list list \<Rightarrow> string" where
  "build_preview_text rows =
     str_strip (str_join newline (map row_text (filter any_cell (take 4 rows))))"

section \<open>Logical tables\<close>

definition add_segment ::
  "parsed_table_segment list list \<Rightarrow> parsed_table_segment \<Rightarrow> parsed_table_segment list list" where
  "add_segment grouped segment =
     (if grouped \<noteq> [] \<and> should_merge_segments (last (last grouped)) segment
      then butlast grouped @ [last grouped @ [segment]]
      else grouped @ [[segment]])"

definition group_segments ::
  "parsed_table_segment list \<Rightarrow> parsed_table_segment list list" where
  "group_segments raw_segments = foldl add_segment [] raw_segments"

text \<open>
  One round of the loop over the segments of a group; the state is \<open>rows\<close>, the number of header
  rows removed so far, and the segments already seen with their metadata.
\<close>

definition merge_segment ::
  "string list list \<times> nat \<times> parsed_table_segment list \<Rightarrow> nat \<times> parsed_table_segment \<Rightarrow>
   string list list \<times> nat \<times> parsed_table_segment list" where
  "merge_segment st ps =
     (case (st, ps) of ((rows, removed_so_far, segs), (position, segment)) \<Rightarrow>
        if position > 0 then
          (let (segment_rows, removed) = strip_repeated_header_rows rows (ps_rows segment);
               metadata = dict_set ''header_rows_retained''
                 (JInt (max (int (length (take (min (length (ps_rows segment)) 3) (ps_rows segment)))
                             - int removed) 0))
                 (dict_set ''header_rows_removed'' (JInt (int removed)) (ps_metadata segment)) in
           (rows @ segment_rows, removed_so_far + removed, segs @ [segment\<lparr>ps_metadata := metadata\<rparr>]))
        else (rows @ ps_rows segment, removed_so_far, segs @ [segment]))"

definition merge_segments ::
  "parsed_table_segment list \<Rightarrow> string list list \<times> nat \<times> parsed_table_segment list" where
  "merge_segments segments = foldl merge_segment ([], 0, []) (List.enumerate 0 segments)"

definition neighbours :: "'a list \<Rightarrow> ('a \<times> 'a) list" where
  "neighbours xs = zip xs (tl xs)"

definition merge_reason_of :: "parsed_table_segment list \<Rightarrow> string" where
  "merge_reason_of segments =
     (if length segments > 1 then
        str_join ''|'' (dict_fromkeys
          (map (\<lambda>(l, r). case str_or (segment_merge_reason l r) (Some ''unknown'') of
                            None \<Rightarrow> [] | Some s \<Rightarrow> s) (neighbours segments)))
      else ''single_segment'')"

definition merge_confidence_of :: "parsed_table_segment list \<Rightarrow> rat" where
  "merge_confidence_of segments =
     (if length segments > 1 then
        (if list_ex (\<lambda>(l, r). ps_col_count l \<noteq> 0 \<and> ps_col_count r \<noteq> 0
                             \<and> ps_col_count l \<noteq> ps_col_count r) (neighbours segments)
         then 0.8 else 0.95)
      else 1)"

definition repeated_header_found :: "parsed_table_segment list \<Rightarrow> string list list \<Rightarrow> bool" where
  "repeated_header_found segments rows =
     (if length segments > 1 \<and> rows \<noteq> []
      then row_looks_like_header (rows ! 0)
           \<and> list_ex (\<lambda>row. row_key row = row_key (rows ! 0)) (slice 1 (min (length rows) 6) rows)
      else False)"

definition logical_table_metadata ::
  "parsed_table_segment list \<Rightarrow> string list list \<Rightarrow> nat \<Rightarrow> dict" where
  "logical_table_metadata segments rows removed = [
     (''is_merged'', JBool (length segments > 1)),
     (''source_segment_count'', JInt (int (length segments))),
     (''segment_count'', JInt (int (length segments))),
     (''merge_reason'', JStr (merge_reason_of segments)),
     (''merge_confidence'', JReal (merge_confidence_of segments)),
     (''continuation_candidate'', JBool (length segments > 1)),
     (''ambiguous_continuation_candidate'', JBool False),
     (''repeated_header_rows_removed'', JBool (removed > 0)),
     (''header_rows_removed_count'', JInt (int removed)),
     (''title_resolution_source'',
        case dict_get (ps_metadata (segments ! 0)) ''title_source'' of
          None \<Rightarrow> JNull | Some v \<Rightarrow> v),
     (''merge_sanity_passed'', JBool True),
     (''header_removal_passed'', JBool (\<not> repeated_header_found segments rows)),
     (''source_segment_indices'', JArr (map (JInt \<circ> ps_segment_index) segments)),
     (''source_titles'', JArr (map JStr (filter (\<lambda>t. t \<noteq> []) (some_values (map ps_title segments)))))]"

definition logical_table :: "nat \<Rightarrow> parsed_table_segment list \<Rightarrow> parsed_table" where
  "logical_table table_index grp =
     (let (rows, removed, segments) = merge_segments grp;
          title = first_truthy (map ps_title segments);
          heading = first_truthy (map ps_heading segments) in
      \<lparr>pt_table_index = int table_index,
       pt_title = title,
       pt_heading = heading,
       pt_page_from = min_present None (map ps_page_from segments),
       pt_page_to = max_present None (map ps_page_to segments),
       pt_row_count = int (length rows),
       pt_col_count = list_max (list_max 0 (map ps_col_count segments)) (map (int \<circ> length) rows),
       pt_rows = rows,
       pt_search_text = build_search_text title heading rows,
       pt_preview_text = build_preview_text rows,
       pt_metadata = logical_table_metadata segments rows removed,
       pt_segments = segments,
       pt_embedding = None\<rparr>)"

definition build_logical_tables :: "parsed_table_segment list \<Rightarrow> parsed_table list" where
  "build_logical_tables raw_segments =
     map (\<lambda>(i, g). logical_table i g) (List.enumerate 0 (group_segments raw_segments))"

section \<open>Ambiguous continuations and the final check\<close>

text \<open>
  The dictionaries \<open>segment_to_table\<close>: the position of the table (resp. its \<open>table_index\<close>)
  under the \<open>segment_index\<close> of each of its segments; later entries replace earlier ones.
\<close>

definition segment_entries :: "parsed_table list \<Rightarrow> (int \<times> nat) list" where
  "segment_entries tables =
     concat (map (\<lambda>(i, t). map (\<lambda>s. (ps_segment_index s, i)) (pt_segments t))
       (List.enumerate 0 tables))"

definition segment_to_table :: "parsed_table list \<Rightarrow> int \<Rightarrow> nat option" where
  "segment_to_table tables i = map_of (rev (segment_entries tables)) i"

definition mark_ambiguous :: "parsed_table \<Rightarrow> parsed_table" where
  "mark_ambiguous t =
     (let metadata = dict_set ''ambiguous_continuation_candidate'' (JBool True) (pt_metadata t) in
      t\<lparr>pt_metadata := dict_set ''merge_reason''
          (case dict_get metadata ''merge_reason'' of
             Some v \<Rightarrow> if py_truthy v then v else JStr ''split_due_to_ambiguity''
           | None \<Rightarrow> JStr ''split_due_to_ambiguity'') metadata\<rparr>)"

definition annotate_pair ::
  "parsed_table list \<Rightarrow> parsed_table_segment \<times> parsed_table_segment \<Rightarrow> parsed_table list" where
  "annotate_pair tables lr =
     (case lr of (left, right) \<Rightarrow>
        if \<not> pages_adjacent left right then tables
        else if ps_heading left \<noteq> ps_heading right then tables
        else
          (case (segment_to_table tables (ps_segment_index left),
                 segment_to_table tables (ps_segment_index right)) of
             (Some l, Some r) \<Rightarrow>
               if pt_table_index (tables ! l) = pt_table_index (tables ! r) then tables
               else (let tables' = tables[l := mark_ambiguous (tables ! l)] in
                     tables'[r := mark_ambiguous (tables' ! r)])
           | _ \<Rightarrow> tables))"

definition annotate_ambiguous_continuations ::
  "parsed_table_segment list \<Rightarrow> parsed_table list \<Rightarrow> parsed_table list" where
  "annotate_ambiguous_continuations raw_segments tables =
     foldl annotate_pair tables (neighbours raw_segments)"

definition segment_table_index :: "parsed_table list \<Rightarrow> int \<Rightarrow> int option" where
  "segment_table_index tables i =
     map_option (\<lambda>p. pt_table_index (tables ! p)) (segment_to_table tables i)"

definition validate_table_merge_assignments ::
  "parsed_table_segment list \<Rightarrow> parsed_table list \<Rightarrow> exn + unit" where
  "validate_table_merge_assignments raw_segments tables =
     (if list_ex (\<lambda>(l, r). should_merge_segments l r \<and>
           segment_table_index tables (ps_segment_index l)
             \<noteq> segment_table_index tables (ps_segment_index r)) (neighbours raw_segments)
      then Inl (value_error (''Detected a continued table segment that was not merged ''
                  @ ''into the same logical table.''))
      else Inr ())"

text \<open>The table part of \<open>DoclingParser.parse_pdf\<close>, up to the supplements.\<close>

definition parse_tables :: "parsed_table_segment list \<Rightarrow> exn + parsed_table list" where
  "parse_tables raw_segments =
     (let meaningful = meaningful_table_segments raw_segments;
          tables = annotate_ambiguous_continuations meaningful (build_logical_tables meaningful) in
      case validate_table_merge_assignments meaningful tables of
        Inl e \<Rightarrow> Inl e
      | Inr _ \<Rightarrow> Inr tables)"

section \<open>Grouping\<close>

lemma neighbours_simps [simp]:
  "neighbours [] = []" "neighbours [x] = []"
  "neighbours (x # y # zs) = (x, y) # neighbours (y # zs)"
  by (simp_all add: neighbours_def)

lemma neighbours_snoc:
  "neighbours (xs @ [x]) = (if xs = [] then [] else neighbours xs @ [(last xs, x)])"
  by (induction xs rule: induct_list012) simp_all

lemma neighbours_map: "neighbours (map f xs) = map (map_prod f f) (neighbours xs)"
  by (induction xs rule: induct_list012) simp_all

text \<open>A pair of neighbours of a concatenation is inside one part or joins two parts.\<close>

lemma neighbours_append:
  "xs \<noteq> [] \<Longrightarrow> ys \<noteq> [] \<Longrightarrow>
   neighbours (xs @ ys) = neighbours xs @ (last xs, hd ys) # neighbours ys"
proof (induction xs rule: induct_list012)
  case (2 x)
  then show ?case by (cases ys) simp_all
qed simp_all

lemma neighbours_concat:
  assumes "\<forall>g \<in> set gs. g \<noteq> []" and "(l, r) \<in> set (neighbours (concat gs))"
  shows "(\<exists>g \<in> set gs. (l, r) \<in> set (neighbours g)) \<or>
    (\<exists>(g, h) \<in> set (neighbours gs). l = last g \<and> r = hd h)"
  using assms
proof (induction gs rule: induct_list012)
  case (3 g h gs)
  then have ne: "g \<noteq> []" "h \<noteq> []" "concat (h # gs) \<noteq> []" by auto
  have hd: "hd (concat (h # gs)) = hd h" using ne by simp
  from 3(4) have "(l, r) \<in> set (neighbours g) \<or> (l = last g \<and> r = hd h)
      \<or> (l, r) \<in> set (neighbours (concat (h # gs)))"
    using ne hd neighbours_append [OF ne(1) ne(3)] by auto
  moreover have ?case if "(l, r) \<in> set (neighbours (concat (h # gs)))"
    using 3(2) [OF _ that] 3(3) by auto
  ultimately show ?case by auto
qed auto

lemma neighbours_member: "(l, r) \<in> set (neighbours g) \<Longrightarrow> l \<in> set g \<and> r \<in> set g"
  by (induction g rule: induct_list012) auto

definition core_segment :: "parsed_table_segment \<Rightarrow> parsed_table_segment" where
  "core_segment s = s\<lparr>ps_metadata := []\<rparr>"

lemma core_segment_simps [simp]:
  "should_merge_segments (core_segment a) (core_segment b) = should_merge_segments a b"
  "ps_segment_index (core_segment a) = ps_segment_index a"
  "ps_rows (core_segment a) = ps_rows a"
  "core_segment (a\<lparr>ps_metadata := m\<rparr>) = core_segment a"
  by (simp_all add: core_segment_def should_merge_segments_def segment_merge_reason_def
      pages_adjacent_def Let_def)

definition well_grouped :: "parsed_table_segment list list \<Rightarrow> bool" where
  "well_grouped gs =
     (list_all (\<lambda>g. g \<noteq> [] \<and> list_all (\<lambda>(l, r). should_merge_segments l r) (neighbours g)) gs \<and>
      list_all (\<lambda>(g, h). \<not> should_merge_segments (last g) (hd h)) (neighbours gs))"

lemma neighbours_last_change:
  assumes "xs \<noteq> []" and "(x, y) \<in> set (neighbours (butlast xs @ [z]))"
  shows "(x, y) \<in> set (neighbours xs) \<or> (y = z \<and> (x, last xs) \<in> set (neighbours xs))"
proof -
  have xs: "xs = butlast xs @ [last xs]" using assms(1) by simp
  show ?thesis
    using assms(2) neighbours_snoc [of "butlast xs" z] neighbours_snoc [of "butlast xs" "last xs"] xs
    by (auto split: if_splits)
qed

lemma add_segment_grouped:
  assumes "well_grouped gs"
  shows "well_grouped (add_segment gs s)" and "concat (add_segment gs s) = concat gs @ [s]"
proof -
  show "concat (add_segment gs s) = concat gs @ [s]"
  proof (cases "gs = []")
    case False
    then have "concat gs = concat (butlast gs) @ last gs"
      by (metis append_butlast_last_id concat.simps(1,2) concat_append append_Nil2)
    then show ?thesis by (simp add: add_segment_def)
  qed (simp add: add_segment_def)
  show "well_grouped (add_segment gs s)"
  proof (cases "gs \<noteq> [] \<and> should_merge_segments (last (last gs)) s")
    case True
    let ?g = "last gs @ [s]"
    from True assms have g: "last gs \<noteq> []" "list_all (\<lambda>(l, r). should_merge_segments l r) (neighbours (last gs))"
      by (auto simp: well_grouped_def list_all_iff)
    have "list_all (\<lambda>(l, r). should_merge_segments l r) (neighbours ?g)"
      using g True by (simp add: neighbours_snoc)
    moreover have "\<not> should_merge_segments (last x) (hd y)"
      if "(x, y) \<in> set (neighbours (butlast gs @ [?g]))" for x y
      using neighbours_last_change [OF _ that] True assms g(1)
      by (auto simp: well_grouped_def list_all_iff)
    ultimately show ?thesis
      using True assms by (auto simp: add_segment_def well_grouped_def list_all_iff dest: in_set_butlastD)
  next
    case False
    then show ?thesis
      using assms by (auto simp: add_segment_def well_grouped_def neighbours_snoc)
  qed
qed

lemma group_segments_grouped:
  "well_grouped (group_segments raw) \<and> concat (group_segments raw) = raw"
proof (induction raw rule: rev_induct)
  case Nil
  then show ?case by (simp add: group_segments_def well_grouped_def)
next
  case (snoc s raw)
  then show ?case using add_segment_grouped [of "group_segments raw" s]
    by (simp add: group_segments_def)
qed

section \<open>Merging the rows of a group\<close>

lemma find_rev_upt:
  "(case find P (rev [1..<Suc m]) of
      None \<Rightarrow> (\<forall>k. 0 < k \<and> k \<le> m \<longrightarrow> \<not> P k)
    | Some h \<Rightarrow> 0 < h \<and> h \<le> m \<and> P h \<and> (\<forall>k. h < k \<and> k \<le> m \<longrightarrow> \<not> P k))"
proof (induction m)
  case (Suc m)
  show ?case
  proof (cases "P (Suc m)")
    case False
    then have eq: "find P (rev [1..<Suc (Suc m)]) = find P (rev [1..<Suc m])" by simp
    show ?thesis
      using Suc.IH False unfolding eq by (auto simp: le_Suc_eq split: option.splits)
  next
    case True
    then have "find P (rev [1..<Suc (Suc m)]) = Some (Suc m)" by simp
    then show ?thesis using True by (simp only: option.case) auto
  qed
qed simp

definition keys_match :: "string list list \<Rightarrow> string list list \<Rightarrow> nat \<Rightarrow> bool" where
  "keys_match existing new h = (map row_key (take h existing) = map row_key (take h new))"

lemma strip_repeated_header_rows_cases:
  obtains d where "strip_repeated_header_rows existing new = (drop d new, d)"
    "d \<le> min 3 (min (length existing) (length new))" "keys_match existing new d"
    "\<forall>k. d < k \<and> k \<le> min 3 (min (length existing) (length new)) \<longrightarrow> \<not> keys_match existing new k"
proof (cases "existing = [] \<or> new = []")
  case True
  then have "min 3 (min (length existing) (length new)) = 0" by auto
  with True show ?thesis
    by (intro that [of 0]) (auto simp: strip_repeated_header_rows_def keys_match_def)
next
  case ne: False
  let ?m = "min 3 (min (length existing) (length new))"
  have s: "strip_repeated_header_rows existing new =
      (let d = (case find (keys_match existing new) (rev [1..<Suc ?m]) of None \<Rightarrow> 0 | Some h \<Rightarrow> h)
       in (drop d new, d))"
    using ne by (simp only: strip_repeated_header_rows_def Let_def keys_match_def [abs_def] if_False)
  note spec = find_rev_upt [where P = "keys_match existing new" and m = ?m]
  show ?thesis
  proof (cases "find (keys_match existing new) (rev [1..<Suc ?m])")
    case None
    show ?thesis
      using that [of 0] s spec by (simp only: None option.case Let_def)
        (simp add: keys_match_def)
  next
    case (Some h)
    show ?thesis
      using that s spec unfolding Some option.case Let_def by blast
  qed
qed

text \<open>
  Stripping repeated headers removes a prefix of at most three rows, namely the longest such
  prefix whose row keys are those of the first rows of the table so far.
\<close>

theorem strip_repeated_header_rows_spec:
  "case strip_repeated_header_rows existing new of (kept, removed) \<Rightarrow>
     removed \<le> 3 \<and> take removed new @ kept = new \<and>
     map row_key (take removed new) = map row_key (take removed existing) \<and>
     \<not> list_ex (\<lambda>h. removed < h \<and> map row_key (take h existing) = map row_key (take h new))
         [1..<Suc (min 3 (min (length existing) (length new)))]"
proof -
  obtain d where d: "strip_repeated_header_rows existing new = (drop d new, d)"
    "d \<le> min 3 (min (length existing) (length new))" "keys_match existing new d"
    "\<forall>k. d < k \<and> k \<le> min 3 (min (length existing) (length new)) \<longrightarrow> \<not> keys_match existing new k"
    by (rule strip_repeated_header_rows_cases)
  have "\<not> list_ex (\<lambda>h. d < h \<and> map row_key (take h existing) = map row_key (take h new))
      [1..<Suc (min 3 (min (length existing) (length new)))]"
    unfolding list_ex_iff using d(4) by (simp only: set_upt keys_match_def) fastforce
  moreover have "d \<le> 3" using d(2) by simp
  ultimately show ?thesis
    using d(3) by (simp only: d(1) prod.case append_take_drop_id keys_match_def simp_thms)
qed

text \<open>
  The segments that come out of a merge differ from those that went in only in their metadata,
  and the rows are the segments' rows less a prefix of at most three rows each.
\<close>

lemma enumerate_snoc: "List.enumerate n (xs @ [x]) = List.enumerate n xs @ [(n + length xs, x)]"
  by (induction xs arbitrary: n) simp_all

definition drop_prefixes :: "nat list \<Rightarrow> 'a list list \<Rightarrow> 'a list" where
  "drop_prefixes ds xss = concat (map (\<lambda>(d, xs). drop d xs) (zip ds xss))"

lemma drop_prefixes_snoc:
  "length ds = length xss \<Longrightarrow> drop_prefixes (ds @ [d]) (xss @ [xs]) = drop_prefixes ds xss @ drop d xs"
  by (simp add: drop_prefixes_def)

lemma length_drop_prefixes:
  "list_all2 (\<lambda>d xs. d \<le> length xs) ds xss \<Longrightarrow>
   length (drop_prefixes ds xss) + sum_list ds = sum_list (map length xss)"
  by (induction ds xss rule: list_all2_induct) (simp_all add: drop_prefixes_def)

definition header_counts :: "nat list \<Rightarrow> string list list list \<Rightarrow> bool" where
  "header_counts ds rowss =
     (list_all2 (\<lambda>d rows. d \<le> 3 \<and> d \<le> length rows) ds rowss \<and> (ds = [] \<or> hd ds = 0))"

lemma merge_segments_spec:
  obtains ds where "header_counts ds (map ps_rows segments)"
    "fst (merge_segments segments) = drop_prefixes ds (map ps_rows segments)"
    "fst (snd (merge_segments segments)) = sum_list ds"
    "map core_segment (snd (snd (merge_segments segments))) = map core_segment segments"
proof -
  have "\<exists>ds. header_counts ds (map ps_rows segments)
      \<and> fst (merge_segments segments) = drop_prefixes ds (map ps_rows segments)
      \<and> fst (snd (merge_segments segments)) = sum_list ds
      \<and> map core_segment (snd (snd (merge_segments segments))) = map core_segment segments"
  proof (induction segments rule: rev_induct)
    case Nil
    then show ?case
      by (intro exI [of _ "[]"]) (simp add: merge_segments_def header_counts_def drop_prefixes_def)
  next
    case (snoc s segments)
    then obtain ds where ds: "header_counts ds (map ps_rows segments)"
      "fst (merge_segments segments) = drop_prefixes ds (map ps_rows segments)"
      "fst (snd (merge_segments segments)) = sum_list ds"
      "map core_segment (snd (snd (merge_segments segments))) = map core_segment segments"
      by blast
    obtain rows removed segs where st: "merge_segments segments = (rows, removed, segs)"
      by (cases "merge_segments segments")
    have step: "merge_segments (segments @ [s]) =
        merge_segment (merge_segments segments) (length segments, s)"
      by (simp add: merge_segments_def enumerate_snoc)
    have len: "length ds = length segments"
      using ds(1) by (auto simp: header_counts_def dest: list_all2_lengthD)
    obtain d where d: "strip_repeated_header_rows rows (ps_rows s) = (drop d (ps_rows s), d)"
      "d \<le> min 3 (min (length rows) (length (ps_rows s)))"
      by (rule strip_repeated_header_rows_cases)
    let ?d = "if segments = [] then 0 else d"
    have "list_all2 (\<lambda>d rows. d \<le> 3 \<and> d \<le> length rows) (ds @ [?d])
        (map ps_rows segments @ [ps_rows s])"
      using ds(1) d(2) by (intro list_all2_appendI) (auto simp: header_counts_def)
    then have "header_counts (ds @ [?d]) (map ps_rows (segments @ [s]))"
      using ds(1) len by (auto simp: header_counts_def hd_append)
    then show ?case
      using ds d(1) len unfolding step st
      by (intro exI [of _ "ds @ [?d]"])
        (auto simp: merge_segment_def drop_prefixes_snoc)
  qed
  then show ?thesis using that by blast
qed

section \<open>Properties of the logical tables\<close>

lemma logical_table_fields:
  "pt_segments (logical_table i g) = snd (snd (merge_segments g))"
  "pt_rows (logical_table i g) = fst (merge_segments g)"
  "pt_table_index (logical_table i g) = int i"
  "pt_row_count (logical_table i g) = int (length (pt_rows (logical_table i g)))"
  "pt_metadata (logical_table i g) =
     logical_table_metadata (snd (snd (merge_segments g))) (fst (merge_segments g))
       (fst (snd (merge_segments g)))"
  by (simp_all add: logical_table_def case_prod_beta Let_def)

lemma logical_table_core:
  "map core_segment (pt_segments (logical_table i g)) = map core_segment g"
  by (rule merge_segments_spec [of g]) (simp add: logical_table_fields)

lemma build_segments_core:
  "map (map core_segment \<circ> pt_segments) (build_logical_tables raw) =
   map (map core_segment) (group_segments raw)"
proof -
  have "map (map core_segment \<circ> pt_segments) (build_logical_tables raw) =
      map (map core_segment \<circ> snd) (List.enumerate 0 (group_segments raw))"
    by (simp add: build_logical_tables_def case_prod_beta comp_def logical_table_core)
  then show ?thesis by (simp flip: map_map)
qed

text \<open>The segments of a list of tables, each less its metadata.\<close>

definition table_cores :: "parsed_table list \<Rightarrow> parsed_table_segment list list" where
  "table_cores tables = map (map core_segment \<circ> pt_segments) tables"

lemma well_grouped_core:
  "well_grouped (map (map core_segment) gs) \<longleftrightarrow> well_grouped gs"
proof -
  have inner: "list_all (\<lambda>g. g \<noteq> [] \<and> list_all (\<lambda>(l, r). should_merge_segments l r) (neighbours g))
        (map (map core_segment) gs) \<longleftrightarrow>
      list_all (\<lambda>g. g \<noteq> [] \<and> list_all (\<lambda>(l, r). should_merge_segments l r) (neighbours g)) gs"
    by (simp add: list_all_iff neighbours_map case_prod_beta)
  have mem: "g \<in> set gs \<and> h \<in> set gs" if "(g, h) \<in> set (neighbours gs)" for g h
    using that by (rule neighbours_member)
  have outer: "list_all (\<lambda>(g, h). \<not> should_merge_segments (last g) (hd h))
        (neighbours (map (map core_segment) gs)) \<longleftrightarrow>
      list_all (\<lambda>(g, h). \<not> should_merge_segments (last g) (hd h)) (neighbours gs)"
    if ne: "\<forall>g \<in> set gs. g \<noteq> []"
  proof -
    have "should_merge_segments (last (map core_segment (fst gh))) (hd (map core_segment (snd gh)))
        \<longleftrightarrow> should_merge_segments (last (fst gh)) (hd (snd gh))" if "gh \<in> set (neighbours gs)" for gh
      using mem [of "fst gh" "snd gh"] that ne by (simp add: last_map hd_map)
    then show ?thesis
      by (simp add: list_all_iff neighbours_map case_prod_beta)
  qed
  show ?thesis
    unfolding well_grouped_def inner using outer by (auto simp: list_all_iff)
qed

text \<open>
  C4: the logical tables cut the list of segments into non-empty consecutive parts, exactly where
  two neighbours must not be merged: nothing is lost, duplicated or reordered, neighbours inside a
  table continue each other, and the last segment of a table is not continued by the first of the
  next one.
\<close>

theorem logical_tables_partition:
  "concat (table_cores (build_logical_tables raw)) = map core_segment raw \<and>
   well_grouped (table_cores (build_logical_tables raw))"
proof -
  have "concat (map (map core_segment) (group_segments raw)) = map core_segment raw"
    using group_segments_grouped [of raw] by (metis map_concat)
  then show ?thesis
    using group_segments_grouped [of raw]
    by (simp add: table_cores_def build_segments_core well_grouped_core)
qed

text \<open>How the rows of a table come from its segments.\<close>

definition table_rows_accounted :: "parsed_table \<Rightarrow> bool" where
  "table_rows_accounted t =
     (pt_row_count t = int (length (pt_rows t)) \<and>
      (\<exists>ds. header_counts ds (map ps_rows (pt_segments t)) \<and>
        pt_rows t = drop_prefixes ds (map ps_rows (pt_segments t)) \<and>
        dict_get (pt_metadata t) ''header_rows_removed_count'' = Some (JInt (int (sum_list ds))) \<and>
        length (pt_rows t) + sum_list ds = sum_list (map (length \<circ> ps_rows) (pt_segments t))))"

text \<open>
  No row of a table disappears except repeated headers: the rows of a logical table and the
  header rows its metadata counts as removed add up to the rows of its segments, the first segment
  keeps all its rows and every other one loses at most its first three.
\<close>

theorem logical_tables_rows: "list_all table_rows_accounted (build_logical_tables raw)"
proof -
  have "table_rows_accounted (logical_table i g)" for i g
  proof -
    obtain ds where ds: "header_counts ds (map ps_rows g)"
      "fst (merge_segments g) = drop_prefixes ds (map ps_rows g)"
      "fst (snd (merge_segments g)) = sum_list ds"
      "map core_segment (snd (snd (merge_segments g))) = map core_segment g"
      by (rule merge_segments_spec)
    have rows: "map ps_rows (pt_segments (logical_table i g)) = map ps_rows g"
      using arg_cong [OF ds(4), of "map ps_rows"] by (simp add: logical_table_fields comp_def)
    have "list_all2 (\<lambda>d xs. d \<le> length xs) ds (map ps_rows g)"
      using ds(1) by (auto simp: header_counts_def elim: list_all2_mono)
    from length_drop_prefixes [OF this]
    have "length (pt_rows (logical_table i g)) + sum_list ds =
        sum_list (map length (map ps_rows (pt_segments (logical_table i g))))"
      using ds(2) rows by (simp add: logical_table_fields)
    then show ?thesis
      unfolding table_rows_accounted_def rows map_map [symmetric]
      using ds by (intro conjI exI [of _ ds])
        (simp_all add: logical_table_fields rows logical_table_metadata_def)
  qed
  then show ?thesis by (simp add: build_logical_tables_def list_all_iff case_prod_beta)
qed

text \<open>Marking ambiguous continuations touches only the metadata of tables.\<close>

lemma mark_ambiguous_fields [simp]:
  "pt_segments (mark_ambiguous t) = pt_segments t"
  "pt_table_index (mark_ambiguous t) = pt_table_index t"
  by (simp_all add: mark_ambiguous_def Let_def)

definition table_shape :: "parsed_table \<Rightarrow> parsed_table_segment list \<times> int" where
  "table_shape t = (pt_segments t, pt_table_index t)"

lemma table_shape_mark [simp]: "table_shape (mark_ambiguous t) = table_shape t"
  by (simp add: table_shape_def)

lemma update_shape:
  "map table_shape (ts[i := mark_ambiguous (ts ! i)]) = map table_shape ts"
proof (cases "i < length ts")
  case True
  then have "map table_shape (ts[i := mark_ambiguous (ts ! i)]) =
      (map table_shape ts)[i := map table_shape ts ! i]"
    by (simp add: map_update)
  then show ?thesis by (simp only: list_update_id)
qed (simp add: list_update_beyond)

lemma annotate_pair_shape: "map table_shape (annotate_pair tables lr) = map table_shape tables"
  by (simp add: annotate_pair_def Let_def update_shape split: prod.splits option.splits)

lemma annotate_shape:
  "map table_shape (annotate_ambiguous_continuations raw tables) = map table_shape tables"
proof -
  have "map table_shape (foldl annotate_pair tables ps) = map table_shape tables" for ps
    by (induction ps arbitrary: tables) (simp_all add: annotate_pair_shape)
  then show ?thesis by (simp add: annotate_ambiguous_continuations_def)
qed

lemma enumerate_map: "List.enumerate n (map f xs) = map (map_prod id f) (List.enumerate n xs)"
  by (induction xs arbitrary: n) simp_all

lemma segment_entries_shape:
  assumes "map table_shape ts = map table_shape us"
  shows "segment_entries ts = segment_entries us"
proof -
  have "segment_entries ts = concat (map (\<lambda>(i, ss, _). map (\<lambda>s. (ps_segment_index s, i)) ss)
      (List.enumerate 0 (map table_shape ts)))" for ts
    by (simp add: segment_entries_def enumerate_map split_def comp_def table_shape_def)
  then show ?thesis using assms by metis
qed

lemma segment_table_index_shape:
  assumes "map table_shape ts = map table_shape us"
  shows "segment_table_index ts i = segment_table_index us i"
proof -
  have len: "length ts = length us" using assms by (metis length_map)
  have eq: "segment_to_table ts i = segment_to_table us i"
    using segment_entries_shape [OF assms] by (simp add: segment_to_table_def)
  have bound: "p < length us" if "segment_to_table us i = Some p" for p
  proof -
    have "(i, p) \<in> set (segment_entries us)"
      using that map_of_SomeD by (fastforce simp: segment_to_table_def)
    then show ?thesis by (auto simp: segment_entries_def in_set_enumerate_eq)
  qed
  have "pt_table_index (ts ! p) = pt_table_index (us ! p)" if "p < length us" for p
    using arg_cong [OF assms, of "\<lambda>xs. snd (xs ! p)"] that len by (simp add: table_shape_def)
  with bound eq show ?thesis
    by (cases "segment_to_table us i") (simp_all add: segment_table_index_def)
qed

text \<open>Where the builder put a segment, when segment indexes are distinct.\<close>

lemma segment_entries_fst:
  "map fst (segment_entries tables) = map ps_segment_index (concat (map pt_segments tables))"
proof -
  have "map fst (segment_entries tables) =
      concat (map (map ps_segment_index \<circ> pt_segments \<circ> snd) (List.enumerate 0 tables))"
    by (simp add: segment_entries_def map_concat comp_def case_prod_beta)
  also have "\<dots> = concat (map (map ps_segment_index \<circ> pt_segments) tables)"
    by (simp flip: map_map)
  finally show ?thesis by (simp add: map_concat comp_def)
qed

lemma segment_table_index_member:
  assumes "distinct (map ps_segment_index (concat (map pt_segments tables)))"
    and "t \<in> set tables" and "ps_segment_index s \<in> ps_segment_index ` set (pt_segments t)"
  shows "segment_table_index tables (ps_segment_index s) = Some (pt_table_index t)"
proof -
  from assms(2) obtain k where k: "k < length tables" "t = tables ! k"
    by (metis in_set_conv_nth)
  then have "(k, t) \<in> set (List.enumerate 0 tables)" by (simp add: in_set_enumerate_eq)
  then have mem: "(ps_segment_index s, k) \<in> set (segment_entries tables)"
    using assms(3) by (fastforce simp: segment_entries_def)
  have "distinct (map fst (rev (segment_entries tables)))"
    using assms(1) segment_entries_fst [of tables] by (simp flip: rev_map)
  then have "segment_to_table tables (ps_segment_index s) = Some k"
    unfolding segment_to_table_def using mem by (intro map_of_is_SomeI) simp_all
  then show ?thesis using k by (simp add: segment_table_index_def)
qed

lemma build_index_core:
  "map ps_segment_index (concat (map pt_segments (build_logical_tables raw))) =
   map ps_segment_index raw"
proof -
  have "map ps_segment_index (concat (map pt_segments (build_logical_tables raw))) =
      map ps_segment_index (concat (map (map core_segment \<circ> pt_segments) (build_logical_tables raw)))"
    by (simp add: map_concat comp_def)
  also have "\<dots> = map ps_segment_index (concat (map (map core_segment) (group_segments raw)))"
    by (simp only: build_segments_core)
  also have "\<dots> = map ps_segment_index (map core_segment raw)"
    using group_segments_grouped [of raw] by (metis map_concat)
  finally show ?thesis by (simp add: comp_def)
qed

lemma build_merged_together:
  assumes d: "distinct (map ps_segment_index raw)"
    and lr: "(l, r) \<in> set (neighbours raw)" "should_merge_segments l r"
  shows "segment_table_index (build_logical_tables raw) (ps_segment_index l) =
    segment_table_index (build_logical_tables raw) (ps_segment_index r)"
proof -
  let ?gs = "group_segments raw"
  have wg: "well_grouped ?gs" and cc: "concat ?gs = raw" using group_segments_grouped by auto
  then have ne: "\<forall>g \<in> set ?gs. g \<noteq> []" by (auto simp: well_grouped_def list_all_iff)
  have "\<not> (\<exists>(g, h) \<in> set (neighbours ?gs). l = last g \<and> r = hd h)"
    using wg lr(2) by (auto simp: well_grouped_def list_all_iff)
  then obtain g where g: "g \<in> set ?gs" "(l, r) \<in> set (neighbours g)"
    using neighbours_concat [OF ne, of l r] lr(1) cc by auto
  have mem: "l \<in> set g" "r \<in> set g"
    using neighbours_member [OF g(2)] by simp_all
  from g(1) obtain k where k: "k < length ?gs" "g = ?gs ! k" by (metis in_set_conv_nth)
  define t where "t = logical_table k g"
  have "(k, g) \<in> set (List.enumerate 0 ?gs)" using k by (simp add: in_set_enumerate_eq)
  then have t: "t \<in> set (build_logical_tables raw)"
    unfolding build_logical_tables_def t_def by (auto intro!: image_eqI [of _ _ "(k, g)"])
  have "ps_segment_index ` set (pt_segments t) = ps_segment_index ` core_segment ` set (pt_segments t)"
    by (simp add: image_image)
  also have "core_segment ` set (pt_segments t) = core_segment ` set g"
    unfolding t_def by (metis logical_table_core list.set_map)
  finally have idx: "ps_segment_index ` set (pt_segments t) = ps_segment_index ` set g"
    by (simp add: image_image)
  have d': "distinct (map ps_segment_index (concat (map pt_segments (build_logical_tables raw))))"
    using d build_index_core by metis
  show ?thesis
    using segment_table_index_member [OF d' t, of l] segment_table_index_member [OF d' t, of r]
      idx mem by simp
qed

lemma meaningful_index:
  "distinct (map ps_segment_index raw) \<Longrightarrow>
   distinct (map ps_segment_index (meaningful_table_segments raw))"
proof -
  assume d: "distinct (map ps_segment_index raw)"
  have idx: "map ps_segment_index (meaningful_from pending raw) =
      map ps_segment_index (filter (\<lambda>s. ps_rows s \<noteq> []) raw)" for pending
    by (induction pending raw rule: meaningful_from.induct)
      (simp_all add: collapse_into_def Let_def)
  show ?thesis
    using d by (simp add: meaningful_table_segments_def idx distinct_map_filter)
qed

lemma raw_segments_index:
  "map ps_segment_index (build_raw_table_segments sha tables snapshots headings) =
   map int [0..<length (build_raw_table_segments sha tables snapshots headings)]"
proof -
  let ?zs = "zip (filter (\<lambda>s. it_label s = ''table'') snapshots) tables"
  have "map ps_segment_index (build_raw_table_segments sha tables snapshots headings) =
      map (int \<circ> fst) (List.enumerate 0 ?zs)"
    by (simp add: build_raw_table_segments_def raw_table_segment_def Let_def split_def comp_def)
  also have "\<dots> = map int (map fst (List.enumerate 0 ?zs))"
    by (simp only: map_map)
  also have "\<dots> = map int [0..<length ?zs]"
    by (simp only: map_fst_enumerate add_0)
  finally show ?thesis by (simp add: build_raw_table_segments_def)
qed

text \<open>
  The table part of \<open>parse_pdf\<close> never raises: on the raw segments the parser builds, the
  check of the merge assignments accepts the tables the builder made and annotated, whatever the
  document, and the result is those tables.
\<close>

theorem parse_tables_total:
  "parse_tables (build_raw_table_segments sha exported snapshots headings) =
    Inr (let ms = meaningful_table_segments
               (build_raw_table_segments sha exported snapshots headings) in
         annotate_ambiguous_continuations ms (build_logical_tables ms))"
proof -
  let ?ms = "meaningful_table_segments (build_raw_table_segments sha exported snapshots headings)"
  let ?ts = "annotate_ambiguous_continuations ?ms (build_logical_tables ?ms)"
  have "distinct (map ps_segment_index ?ms)"
    by (rule meaningful_index) (simp add: raw_segments_index distinct_map)
  then have "segment_table_index ?ts (ps_segment_index l) = segment_table_index ?ts (ps_segment_index r)"
    if "(l, r) \<in> set (neighbours ?ms)" "should_merge_segments l r" for l r
    using build_merged_together that segment_table_index_shape [OF annotate_shape] by metis
  then have "validate_table_merge_assignments ?ms ?ts = Inr ()"
    by (auto simp: validate_table_merge_assignments_def list_ex_iff)
  then show ?thesis by (simp add: parse_tables_def Let_def)
qed

end
