(* ===== verification/Storage.thy ===== *)
theory Storage
  imports Data_Model
begin

text \<open>
  \<open>app/services/storage.py\<close>: where the artifacts of runs and agent tasks live below the storage
  root, and how an incoming file is staged: read in blocks, checked against the size limit and
  the PDF header while it is copied, and removed again when a check fails. Directories are not
  modelled, so the \<open>get_\<close> and \<open>build_\<close> variants of a path coincide.

  The lemmas show that artifact paths of different runs, tables and figures never collide, and
  that staging depends only on the bytes of the file, not on how they arrive in blocks.
\<close>

section \<open>Paths\<close>

definition path_join :: "path \<Rightarrow> string \<Rightarrow> path" where
  "path_join p s = p @ ''/'' @ s"

definition build_run_dir :: "path \<Rightarrow> uuid \<Rightarrow> uuid \<Rightarrow> path" where
  "build_run_dir base document_id r =
     path_join (path_join (path_join base ''runs'') (show_nat document_id)) (show_nat r)"

definition build_table_dir :: "path \<Rightarrow> uuid \<Rightarrow> uuid \<Rightarrow> path" where
  "build_table_dir base d r = path_join (build_run_dir base d r) ''tables''"

definition build_figure_dir :: "path \<Rightarrow> uuid \<Rightarrow> uuid \<Rightarrow> path" where
  "build_figure_dir base d r = path_join (build_run_dir base d r) ''figures''"

definition build_agent_task_dir :: "path \<Rightarrow> uuid \<Rightarrow> path" where
  "build_agent_task_dir base t = path_join (path_join base ''agent_tasks'') (show_nat t)"

definition source_file_path :: "path \<Rightarrow> uuid \<Rightarrow> path" where
  "source_file_path base d = path_join (path_join base ''source'') (show_nat d @ ''.pdf'')"

definition build_docling_json_path :: "path \<Rightarrow> uuid \<Rightarrow> uuid \<Rightarrow> path" where
  "build_docling_json_path base d r = path_join (build_run_dir base d r) ''docling.json''"

definition build_yaml_path :: "path \<Rightarrow> uuid \<Rightarrow> uuid \<Rightarrow> path" where
  "build_yaml_path base d r = path_join (build_run_dir base d r) ''document.yaml''"

definition build_table_json_path :: "path \<Rightarrow> uuid \<Rightarrow> uuid \<Rightarrow> int \<Rightarrow> path" where
  "build_table_json_path base d r i = path_join (build_table_dir base d r) (show_int i @ ''.json'')"

definition build_table_yaml_path :: "path \<Rightarrow> uuid \<Rightarrow> uuid \<Rightarrow> int \<Rightarrow> path" where
  "build_table_yaml_path base d r i = path_join (build_table_dir base d r) (show_int i @ ''.yaml'')"

definition build_figure_json_path :: "path \<Rightarrow> uuid \<Rightarrow> uuid \<Rightarrow> int \<Rightarrow> path" where
  "build_figure_json_path base d r i = path_join (build_figure_dir base d r) (show_int i @ ''.json'')"

definition build_figure_yaml_path :: "path \<Rightarrow> uuid \<Rightarrow> uuid \<Rightarrow> int \<Rightarrow> path" where
  "build_figure_yaml_path base d r i = path_join (build_figure_dir base d r) (show_int i @ ''.yaml'')"

definition build_failure_artifact_path :: "path \<Rightarrow> uuid \<Rightarrow> uuid \<Rightarrow> path" where
  "build_failure_artifact_path base d r = path_join (build_run_dir base d r) ''failure.json''"

definition build_agent_task_failure_artifact_path :: "path \<Rightarrow> uuid \<Rightarrow> path" where
  "build_agent_task_failure_artifact_path base t = path_join (build_agent_task_dir base t) ''failure.json''"

definition staging_dir :: "path \<Rightarrow> path" where
  "staging_dir base = path_join base ''_staging''"

text \<open>Decimal notation is injective on integers, and paths inside a run differ.\<close>

lemma show_nat_digits: "c \<in> set (show_nat n) \<Longrightarrow> (of_char c :: nat) \<ge> 48"
proof (induction n rule: show_nat.induct)
  case (1 n)
  have d: "(of_char (digit_char m) :: nat) \<ge> 48" if "m < 10" for m
    using that by (simp add: digit_char_def)
  show ?case
    using 1 d by (cases "n < 10") (auto simp: show_nat.simps [of n])
qed

lemma show_nat_no_minus: "show_nat n \<noteq> CHR ''-'' # s"
proof
  assume "show_nat n = CHR ''-'' # s"
  then have "CHR ''-'' \<in> set (show_nat n)" by simp
  then show False using show_nat_digits [of "CHR ''-''" n] by simp
qed

lemma show_int_inject [simp]: "show_int i = show_int j \<longleftrightarrow> i = j"
  by (auto simp: show_int_def show_nat_no_minus show_nat_no_minus [symmetric] split: if_splits)

lemma artifact_paths_distinct [simp]:
  "build_table_json_path base d r i = build_table_json_path base d r j \<longleftrightarrow> i = j"
  "build_table_yaml_path base d r i = build_table_yaml_path base d r j \<longleftrightarrow> i = j"
  "build_figure_json_path base d r i = build_figure_json_path base d r j \<longleftrightarrow> i = j"
  "build_figure_yaml_path base d r i = build_figure_yaml_path base d r j \<longleftrightarrow> i = j"
  by (simp_all add: build_table_json_path_def build_table_yaml_path_def build_figure_json_path_def
      build_figure_yaml_path_def path_join_def)

lemma json_yaml_suffix: "a @ ''.json'' \<noteq> b @ ''.yaml''"
  by (simp add: append_eq_append_conv2)

lemma artifact_kinds_distinct [simp]:
  "build_table_json_path base d r i \<noteq> build_table_yaml_path base d r j"
  "build_table_yaml_path base d r i \<noteq> build_table_json_path base d r j"
  "build_figure_json_path base d r i \<noteq> build_figure_yaml_path base d r j"
  "build_figure_yaml_path base d r i \<noteq> build_figure_json_path base d r j"
  "build_table_json_path base d r i \<noteq> build_figure_json_path base d r j"
  "build_table_json_path base d r i \<noteq> build_figure_yaml_path base d r j"
  "build_table_yaml_path base d r i \<noteq> build_figure_json_path base d r j"
  "build_table_yaml_path base d r i \<noteq> build_figure_yaml_path base d r j"
  using json_yaml_suffix [of "show_int i" "show_int j"] json_yaml_suffix [of "show_int j" "show_int i"]
  by (auto simp: build_table_json_path_def build_table_yaml_path_def build_figure_json_path_def
      build_figure_yaml_path_def build_table_dir_def build_figure_dir_def path_join_def)

lemma document_paths_distinct [simp]:
  "build_docling_json_path base d r \<noteq> build_yaml_path base d r"
  "build_docling_json_path base d r \<noteq> build_table_json_path base d r i"
  "build_docling_json_path base d r \<noteq> build_table_yaml_path base d r i"
  "build_docling_json_path base d r \<noteq> build_figure_json_path base d r i"
  "build_docling_json_path base d r \<noteq> build_figure_yaml_path base d r i"
  "build_yaml_path base d r \<noteq> build_table_json_path base d r i"
  "build_yaml_path base d r \<noteq> build_table_yaml_path base d r i"
  "build_yaml_path base d r \<noteq> build_figure_json_path base d r i"
  "build_yaml_path base d r \<noteq> build_figure_yaml_path base d r i"
  by (simp_all add: build_docling_json_path_def build_yaml_path_def build_table_json_path_def build_table_yaml_path_def
      build_figure_json_path_def build_figure_yaml_path_def build_table_dir_def build_figure_dir_def path_join_def)

section \<open>Staging a file\<close>

text \<open>
  The loop of \<open>stage_upload\<close> (and of \<open>stage_local_file\<close> with \<open>validate_pdf_header\<close>) over the
  blocks \<open>read\<close> returns; the state is \<open>header_prefix\<close>, \<open>bytes_written\<close> and the content copied so
  far. A byte is a \<open>char\<close>.
\<close>

definition pdf_magic :: string where
  "pdf_magic = ''%PDF-''"

definition invalid_pdf :: exn where
  "invalid_pdf = Http_Error 400 ''invalid_pdf'' ''File is not a valid PDF.''"

definition size_limit_error :: "string \<Rightarrow> exn" where
  "size_limit_error detail = Http_Error 400 ''file_size_limit_exceeded'' detail"

fun stage_loop ::
  "bool \<Rightarrow> int option \<Rightarrow> string \<Rightarrow> string \<Rightarrow> int \<Rightarrow> string \<Rightarrow> string list \<Rightarrow>
   exn + (string \<times> int \<times> string)" where
  "stage_loop validate max_bytes detail header written content [] = Inr (header, written, content)"
| "stage_loop validate max_bytes detail header written content (chunk # chunks) =
     (let needs = validate \<and> length header < 5;
          header' = (if needs then header @ take (5 - length header) chunk else header) in
      if needs \<and> length header' = 5 \<and> header' \<noteq> pdf_magic then Inl invalid_pdf
      else
        (let written' = written + int (length chunk) in
         if (case max_bytes of None \<Rightarrow> False | Some m \<Rightarrow> written' > m)
         then Inl (size_limit_error detail)
         else stage_loop validate max_bytes detail header' written' (content @ chunk) chunks))"

text \<open>
  The content that is copied and whose digest is returned, or the exception; in the latter case
  the staged file is removed before the exception leaves the function.
\<close>

definition stage_file :: "bool \<Rightarrow> int option \<Rightarrow> string \<Rightarrow> string list \<Rightarrow> exn + string" where
  "stage_file validate max_bytes detail chunks =
     (case stage_loop validate max_bytes detail [] 0 [] chunks of
        Inl e \<Rightarrow> Inl e
      | Inr (header, written, content) \<Rightarrow>
          if validate \<and> (written < 5 \<or> header \<noteq> pdf_magic) then Inl invalid_pdf
          else Inr content)"

text \<open>The specification: a decision on the whole file.\<close>

definition stage_spec :: "int option \<Rightarrow> string \<Rightarrow> string \<Rightarrow> exn + string" where
  "stage_spec max_bytes detail content =
     (if length content < 5 then Inl invalid_pdf
      else if take 5 content \<noteq> pdf_magic then Inl invalid_pdf
      else if (case max_bytes of None \<Rightarrow> False | Some m \<Rightarrow> int (length content) > m)
      then Inl (size_limit_error detail)
      else Inr content)"

lemma pdf_magic_length [simp]: "length pdf_magic = 5"
  by (simp add: pdf_magic_def)

definition exceeds :: "int option \<Rightarrow> string \<Rightarrow> bool" where
  "exceeds max_bytes content =
     (case max_bytes of None \<Rightarrow> False | Some m \<Rightarrow> int (length content) > m)"

lemma stage_loop_result:
  assumes "case max_bytes of None \<Rightarrow> True | Some m \<Rightarrow> 5 \<le> m"
    and "5 \<le> length content \<longrightarrow> take 5 content = pdf_magic"
    and "\<not> exceeds max_bytes content"
  shows "stage_loop True max_bytes detail (take 5 content) (int (length content)) content chunks =
    (let whole = content @ concat chunks in
     if 5 \<le> length whole \<and> take 5 whole \<noteq> pdf_magic then Inl invalid_pdf
     else if exceeds max_bytes whole then Inl (size_limit_error detail)
     else Inr (take 5 whole, int (length whole), whole))"
  using assms(2,3)
proof (induction chunks arbitrary: content)
  case Nil
  then show ?case by (simp add: Let_def)
next
  case (Cons chunk chunks)
  define next_content where "next_content = content @ chunk"
  have header: "(if length (take 5 content) < 5
      then take 5 content @ take (5 - length (take 5 content)) chunk else take 5 content)
      = take 5 next_content"
    by (simp add: next_content_def min_def)
  have written: "int (length content) + int (length chunk) = int (length next_content)"
    by (simp add: next_content_def)
  let ?whole = "content @ concat (chunk # chunks)"
  have whole: "?whole = next_content @ concat chunks" by (simp add: next_content_def)
  show ?case
  proof (cases "length content < 5 \<and> 5 \<le> length next_content \<and> take 5 next_content \<noteq> pdf_magic")
    case bad: True
    then have "take 5 ?whole = take 5 next_content" "5 \<le> length ?whole" unfolding whole by simp_all
    moreover have "stage_loop True max_bytes detail (take 5 content) (int (length content)) content
        (chunk # chunks) = Inl invalid_pdf"
      using bad header by (simp add: Let_def)
    ultimately show ?thesis using bad by (simp only: Let_def if_True simp_thms)
  next
    case good: False
    then have magic: "5 \<le> length next_content \<longrightarrow> take 5 next_content = pdf_magic"
      using Cons.prems(1) by (cases "length content < 5") (auto simp: next_content_def)
    have nb: "\<not> ((True \<and> length (take 5 content) < 5) \<and> length (take 5 next_content) = 5
        \<and> take 5 next_content \<noteq> pdf_magic)"
      using magic by auto
    have header': "(if True \<and> length (take 5 content) < 5
        then take 5 content @ take (5 - length (take 5 content)) chunk else take 5 content)
        = take 5 next_content"
      using header by (simp only: simp_thms)
    have step: "stage_loop True max_bytes detail (take 5 content) (int (length content)) content
        (chunk # chunks) =
      (if exceeds max_bytes next_content then Inl (size_limit_error detail)
       else stage_loop True max_bytes detail (take 5 next_content) (int (length next_content))
         next_content chunks)"
      by (simp only: stage_loop.simps Let_def header' nb if_False written exceeds_def
          next_content_def [symmetric])
    show ?thesis
    proof (cases "exceeds max_bytes next_content")
      case True
      then have len: "5 \<le> length next_content"
        using assms(1) by (auto simp: exceeds_def split: option.splits)
      have "exceeds max_bytes ?whole"
        using True unfolding whole by (auto simp: exceeds_def split: option.splits)
      moreover have "take 5 ?whole = pdf_magic" using len magic unfolding whole by simp
      ultimately show ?thesis using step True by (simp only: Let_def if_True if_False simp_thms)
    next
      case False
      then show ?thesis
        using step Cons.IH [OF magic False] unfolding whole by (simp only: if_False)
    qed
  qed
qed

text \<open>
  Staging an upload accepts exactly the files of at least five bytes that start with the PDF
  magic and respect the size limit, copies them unchanged, and otherwise raises the error the whole
  file deserves, however the bytes are cut into blocks.
\<close>

theorem stage_file_spec:
  assumes "case max_bytes of None \<Rightarrow> True | Some m \<Rightarrow> 5 \<le> m"
  shows "stage_file True max_bytes detail chunks = stage_spec max_bytes detail (concat chunks)"
  using stage_loop_result [OF assms, of "[]" detail chunks] assms
  by (auto simp: stage_file_def stage_spec_def exceeds_def Let_def split: option.splits)

theorem stage_file_spec_witness:
  "stage_file True (Some 6) ''too big'' [''%P'', ''DF-1'', ''.7''] =
     Inl (size_limit_error ''too big'')"
  using stage_file_spec [of "Some 6" "''too big''" "[''%P'', ''DF-1'', ''.7'']"]
  by (simp add: stage_spec_def pdf_magic_def)

text \<open>What is accepted, whatever the limit is and however the bytes are cut.\<close>

lemma stage_loop_bound:
  "stage_loop v (Some m) detail h n c chunks = Inr (h', n', c') \<Longrightarrow> n' = n \<or> n' \<le> m"
proof (induction chunks arbitrary: h n c)
  case (Cons chunk chunks)
  then obtain h1 where "\<not> n + int (length chunk) > m"
    "stage_loop v (Some m) detail h1 (n + int (length chunk)) (c @ chunk) chunks = Inr (h', n', c')"
    by (auto simp: Let_def split: if_splits)
  from Cons.IH [OF this(2)] this(1) show ?case by auto
qed simp

lemma stage_file_accepts:
  "stage_file True (Some m) detail chunks = Inr content \<longleftrightarrow>
     content = concat chunks \<and> int (length content) \<le> m \<and> take 5 content = ''%PDF-''"
proof (cases "5 \<le> m")
  case True
  have "length content \<ge> 5" if "take 5 content = ''%PDF-''"
    using arg_cong [OF that, of length] by simp
  then show ?thesis
    using True stage_file_spec [of "Some m" detail chunks]
    by (auto simp: stage_spec_def pdf_magic_def)
next
  case False
  have "length content \<ge> 5" if "take 5 content = ''%PDF-''"
    using arg_cong [OF that, of length] by simp
  then show ?thesis
    using False stage_loop_bound [of True m detail "[]" 0 "[]" chunks]
    by (fastforce simp: stage_file_def split: sum.splits prod.splits if_splits)
qed

end
