(* ===== verification/Lease_Queue.thy ===== *)
theory Lease_Queue
  imports Prelude
begin

text \<open>
  The contract of a queue of work items claimed by workers under a lease. Document runs and agent
  tasks are two such queues; what the worker loops need from either is proved here once: claims
  never hand the same item to two workers, they empty the queue, and items of dead workers come
  back as long as attempts are left.
\<close>

text \<open>Workers claim one after the other; the result lists who got what.\<close>

fun claims ::
  "(string \<Rightarrow> 's \<Rightarrow> 's \<times> uuid option) \<Rightarrow> string list \<Rightarrow> 's \<Rightarrow> 's \<times> (string \<times> uuid) list" where
  "claims claim [] s = (s, [])"
| "claims claim (w # ws) s =
     (case claim w s of
        (s1, None) \<Rightarrow> claims claim ws s1
      | (s1, Some i) \<Rightarrow> (case claims claim ws s1 of (s2, got) \<Rightarrow> (s2, (w, i) # got)))"

text \<open>
  \<open>good\<close> is the invariant of the state, \<open>claimable\<close> says which items are eligible now, \<open>held\<close>
  gives the worker an item is locked by while it is processed, \<open>tries\<close> counts its attempts.
\<close>

locale lease_queue =
  fixes good :: "'s \<Rightarrow> bool"
    and claimable :: "'s \<Rightarrow> uuid \<Rightarrow> bool"
    and held :: "'s \<Rightarrow> uuid \<Rightarrow> string option"
    and tries :: "'s \<Rightarrow> uuid \<Rightarrow> int"
    and claim :: "string \<Rightarrow> 's \<Rightarrow> 's \<times> uuid option"
  assumes good_claim: "good s \<Longrightarrow> claim w s = (s', r) \<Longrightarrow> good s'"
    and claim_item: "good s \<Longrightarrow> claim w s = (s', Some i) \<Longrightarrow>
      claimable s i \<and> \<not> claimable s' i \<and> held s' i = Some w \<and> tries s' i = tries s i + 1"
    and claim_frame: "good s \<Longrightarrow> claim w s = (s', Some i) \<Longrightarrow> j \<noteq> i \<Longrightarrow>
      claimable s' j = claimable s j \<and> held s' j = held s j \<and> tries s' j = tries s j"
    and claim_nothing: "good s \<Longrightarrow> claim w s = (s', None) \<Longrightarrow> s' = s \<and> (\<forall>i. \<not> claimable s i)"
    and finitely_claimable: "finite {i. claimable s i}"
begin

lemma claims_spec:
  assumes "good s" and "claims claim ws s = (s', got)"
  shows "good s' \<and> distinct (map snd got)
    \<and> (\<forall>(w, i) \<in> set got. claimable s i \<and> held s' i = Some w \<and> tries s' i = tries s i + 1)
    \<and> {i. claimable s' i} = {i. claimable s i} - snd ` set got
    \<and> (\<forall>j. j \<notin> snd ` set got \<longrightarrow> held s' j = held s j \<and> tries s' j = tries s j)"
  using assms
proof (induction ws arbitrary: s got)
  case Nil
  then show ?case by auto
next
  case (Cons w ws)
  obtain s1 r where c: "claim w s = (s1, r)" by fastforce
  have g1: "good s1" using good_claim [OF Cons.prems(1) c] .
  show ?case
  proof (cases r)
    case None
    then show ?thesis
      using Cons.IH [OF Cons.prems(1), of got] Cons.prems(2) c
        claim_nothing [OF Cons.prems(1) c [unfolded None]] by simp
  next
    case (Some i)
    obtain got' where got: "claims claim ws s1 = (s', got')" "got = (w, i) # got'"
      using Cons.prems(2) c Some by (auto split: prod.splits)
    note item = claim_item [OF Cons.prems(1) c [unfolded Some]]
    note frame = claim_frame [OF Cons.prems(1) c [unfolded Some]]
    note IH = Cons.IH [OF g1 got(1)]
    have i: "i \<notin> snd ` set got'" using IH item by auto
    have "claimable s1 j \<longleftrightarrow> claimable s j \<and> j \<noteq> i" for j
      using item frame [of j] by (cases "j = i") simp_all
    then have set1: "{j. claimable s1 j} = {j. claimable s j} - {i}" by auto
    have mem: "claimable s j \<and> held s' j = Some v \<and> tries s' j = tries s j + 1"
      if "(v, j) \<in> set got" for v j
    proof (cases "j = i")
      case True
      then have "(v, j) = (w, i)" using that i got(2) by (auto simp: image_iff)
      then show ?thesis using IH i item by auto
    next
      case False
      then have "(v, j) \<in> set got'" using that got(2) by auto
      then show ?thesis using IH frame [OF False] by auto
    qed
    have "{j. claimable s' j} = {j. claimable s j} - snd ` set got"
      using IH set1 by (auto simp: got(2))
    moreover have "held s' j = held s j \<and> tries s' j = tries s j" if "j \<notin> snd ` set got" for j
      using that IH frame [of j] by (auto simp: got(2))
    moreover have "\<forall>(v, j) \<in> set got. claimable s j \<and> held s' j = Some v \<and> tries s' j = tries s j + 1"
      using mem by blast
    moreover have "good s' \<and> distinct (map snd got)" using IH i by (simp add: got(2))
    ultimately show ?thesis by (simp only: simp_thms) blast
  qed
qed

text \<open>No two of the workers hold the same item, and each holds what it was given.\<close>

lemma claims_exclusive:
  "good s \<Longrightarrow> distinct (map snd (snd (claims claim ws s))) \<and>
   (\<forall>(w, i) \<in> set (snd (claims claim ws s)). claimable s i \<and> held (fst (claims claim ws s)) i = Some w)"
  using claims_spec [of s ws "fst (claims claim ws s)" "snd (claims claim ws s)"] by auto

text \<open>As many workers as there are eligible items take them all.\<close>

lemma claims_drain:
  "good s \<Longrightarrow> card {i. claimable s i} \<le> length ws \<Longrightarrow>
   snd ` set (snd (claims claim ws s)) = {i. claimable s i} \<and> (\<forall>i. \<not> claimable (fst (claims claim ws s)) i)"
proof (induction ws arbitrary: s)
  case Nil
  then have "{i. claimable s i} = {}" using finitely_claimable by simp
  then show ?case by auto
next
  case (Cons w ws)
  obtain s1 r where c: "claim w s = (s1, r)" by fastforce
  have g1: "good s1" using good_claim [OF Cons.prems(1) c] .
  show ?case
  proof (cases r)
    case None
    then have "s1 = s" "\<forall>i. \<not> claimable s i"
      using claim_nothing [OF Cons.prems(1)] c by blast+
    then show ?thesis
      using Cons.IH [OF Cons.prems(1)] c None by simp
  next
    case (Some i)
    note item = claim_item [OF Cons.prems(1) c [unfolded Some]]
    note frame = claim_frame [OF Cons.prems(1) c [unfolded Some]]
    have "claimable s1 j \<longleftrightarrow> claimable s j \<and> j \<noteq> i" for j
      using item frame [of j] by (cases "j = i") simp_all
    then have set1: "{j. claimable s1 j} = {j. claimable s j} - {i}" by auto
    have "card {j. claimable s1 j} \<le> length ws"
      using Cons.prems(2) item finitely_claimable [of s] by (simp add: set1 card_Diff_singleton)
    from Cons.IH [OF g1 this] show ?thesis
      using set1 item c Some by (auto simp: case_prod_beta)
  qed
qed

end

text \<open>The recovery of items whose worker stopped renewing its lease.\<close>

locale lease_recovery = lease_queue good claimable held tries claim
  for good :: "'s \<Rightarrow> bool" and claimable and held and tries and claim +
  fixes stale :: "'s \<Rightarrow> uuid \<Rightarrow> bool"
    and limit :: int
    and requeue :: "'s \<Rightarrow> 's"
  assumes good_requeue: "good s \<Longrightarrow> good (requeue s)"
    and requeue_stale: "good s \<Longrightarrow> stale s i \<Longrightarrow>
      held (requeue s) i = None \<and> (claimable (requeue s) i \<longleftrightarrow> tries s i < limit)
      \<and> tries (requeue s) i = tries s i"
    and requeue_frame: "good s \<Longrightarrow> \<not> stale s i \<Longrightarrow>
      held (requeue s) i = held s i \<and> claimable (requeue s) i = claimable s i
      \<and> tries (requeue s) i = tries s i"
begin

text \<open>
  After a requeue and enough claims, a stale item with attempts left has a live worker again, with
  one more attempt on its account.
\<close>

lemma recovered:
  assumes "good s" and "stale s i" and "tries s i < limit"
    and "card {j. claimable (requeue s) j} \<le> length ws"
  shows "\<exists>w. w \<in> set ws \<and> held (fst (claims claim ws (requeue s))) i = Some w
    \<and> tries (fst (claims claim ws (requeue s))) i = tries s i + 1"
proof -
  have g: "good (requeue s)" using assms(1) by (rule good_requeue)
  have cl: "claimable (requeue s) i" "tries (requeue s) i = tries s i"
    using requeue_stale [OF assms(1,2)] assms(3) by auto
  with claims_drain [OF g assms(4)] have "i \<in> snd ` set (snd (claims claim ws (requeue s)))" by simp
  then obtain w where w: "(w, i) \<in> set (snd (claims claim ws (requeue s)))"
    by (metis imageE prod.collapse)
  have ws: "v \<in> set vs" if "(v, j) \<in> set (snd (claims claim vs t))" for v j vs t
    using that
  proof (induction vs arbitrary: t)
    case (Cons u us)
    obtain t1 r where c: "claim u t = (t1, r)" by fastforce
    show ?case
      using Cons.prems Cons.IH [of t1] c by (cases r) (auto simp: case_prod_beta)
  qed simp
  show ?thesis
    using claims_spec [OF g, of ws "fst (claims claim ws (requeue s))" "snd (claims claim ws (requeue s))"]
      w ws [OF w] cl(2) by auto
qed

end

end
