(* ===== verification/Run_Leases.thy ===== *)
theory Run_Leases
  imports Storage Lease_Queue
begin

text \<open>
  The life of a document run under a worker lease: \<open>app/services/run_leases.py\<close> (claiming,
  heartbeats, recovery of stale leases), \<open>app/services/run_post_promotion.py\<close> (finalising a run as
  completed, for another attempt, or as failed) and \<open>app/services/run_failure_artifacts.py\<close>.

  A transaction is atomic here: \<open>FOR UPDATE SKIP LOCKED\<close> serialises the claims. The lemmas give the
  invariant of a run, its preservation by every operation, and the interpretation of the lease
  contract of \<open>Lease_Queue\<close> for runs.
\<close>

section \<open>Failure artifacts\<close>

record validation_report =
  vr_passed :: bool
  vr_summary :: string
  vr_details :: dict
  vr_warning_count :: nat

definition failure_payload ::
  "codecs \<Rightarrow> time \<Rightarrow> document option \<Rightarrow> document_run \<Rightarrow> exn \<Rightarrow> string option \<Rightarrow>
   validation_report option \<Rightarrow> uuid \<Rightarrow> json" where
  "failure_payload cx now document run exc stage report document_id = JObj [
     (''schema_version'', JStr ''1.0''),
     (''document_id'', JStr (show_nat document_id)),
     (''run_id'', JStr (show_nat (run_id run))),
     (''source_filename'', case document of None \<Rightarrow> JNull | Some d \<Rightarrow> JStr (doc_source_filename d)),
     (''source_path'', case document of None \<Rightarrow> JNull | Some d \<Rightarrow> JStr (doc_source_path d)),
     (''run_number'', JInt (run_number run)),
     (''status'', JStr (run_status_value (run_status run))),
     (''attempts'', JInt (run_attempts run)),
     (''failure_stage'', case stage of None \<Rightarrow> JNull | Some s \<Rightarrow> JStr s),
     (''failure_type'', JStr (exn_class exc)),
     (''error_message'', JStr (exn_message exc)),
     (''created_at'', JStr (cx_isoformat cx now)),
     (''validation_status'',
        case run_validation_status run of None \<Rightarrow> JNull | Some s \<Rightarrow> JStr s),
     (''docling_json_path'',
        case run_docling_json_path run of None \<Rightarrow> JNull | Some s \<Rightarrow> JStr s),
     (''yaml_path'', case run_yaml_path run of None \<Rightarrow> JNull | Some s \<Rightarrow> JStr s),
     (''chunk_count'', case run_chunk_count run of None \<Rightarrow> JNull | Some n \<Rightarrow> JInt n),
     (''table_count'', case run_table_count run of None \<Rightarrow> JNull | Some n \<Rightarrow> JInt n),
     (''figure_count'', case run_figure_count run of None \<Rightarrow> JNull | Some n \<Rightarrow> JInt n),
     (''embedding_model'', case run_embedding_model run of None \<Rightarrow> JNull | Some s \<Rightarrow> JStr s),
     (''embedding_dim'', case run_embedding_dim run of None \<Rightarrow> JNull | Some n \<Rightarrow> JInt n),
     (''validation_results'', JObj (run_validation_results run)),
     (''validation_report'',
        case report of None \<Rightarrow> JNull | Some r \<Rightarrow> JObj (vr_details r))]"

text \<open>\<open>base\<close> is the root of the storage service, when there is one.\<close>

definition write_failure_artifact ::
  "codecs \<Rightarrow> path option \<Rightarrow> document option \<Rightarrow> document_run \<Rightarrow> exn \<Rightarrow> string option \<Rightarrow>
   validation_report option \<Rightarrow> world \<Rightarrow> world \<times> path option" where
  "write_failure_artifact cx base document run exc stage report w =
     (case base of
        None \<Rightarrow> (w, None)
      | Some b \<Rightarrow>
          (let document_id = (case document of None \<Rightarrow> run_document_id run | Some d \<Rightarrow> doc_id d);
               failure_path = build_failure_artifact_path b document_id (run_id run);
               payload = failure_payload cx (w_clock w) document run exc stage report document_id in
           (write_file failure_path (cx_json_sorted cx payload) w, Some failure_path)))"

lemma write_failure_artifact_simps [simp]:
  "w_db (fst (write_failure_artifact cx base document run exc stage report w)) = w_db w"
  "w_saved (fst (write_failure_artifact cx base document run exc stage report w)) = w_saved w"
  "w_clock (fst (write_failure_artifact cx base document run exc stage report w)) = w_clock w"
  "w_fresh (fst (write_failure_artifact cx base document run exc stage report w)) = w_fresh w"
  by (simp_all add: write_failure_artifact_def Let_def split: option.split)

section \<open>Leases\<close>

definition is_retryable_error :: "exn \<Rightarrow> bool" where
  "is_retryable_error exc = (\<not> exn_is_value_error exc)"

definition in_progress :: "document_run \<Rightarrow> bool" where
  "in_progress r = (run_status r = Processing \<or> run_status r = Validating)"

definition run_is_stale :: "time \<Rightarrow> document_run \<Rightarrow> bool" where
  "run_is_stale stale_before r =
     (in_progress r \<and> (case run_last_heartbeat_at r of None \<Rightarrow> False | Some t \<Rightarrow> t < stale_before))"

definition release_run :: "document_run \<Rightarrow> document_run" where
  "release_run r = r\<lparr>run_locked_at := None, run_locked_by := None, run_last_heartbeat_at := None\<rparr>"

text \<open>One stale run of \<open>requeue_stale_runs\<close>, up to the failure artifact.\<close>

definition requeued_run :: "settings \<Rightarrow> time \<Rightarrow> document_run \<Rightarrow> document_run" where
  "requeued_run st now r =
     (if run_attempts r \<ge> set_worker_max_attempts st
      then (release_run r)\<lparr>run_status := Failed, run_completed_at := Some now,
             run_validation_status := Some ''failed'',
             run_error_message := str_or (run_error_message r)
               (Some ''Run exceeded max attempts after stale lease.''),
             run_failure_stage := str_or (run_failure_stage r) (Some ''stale_lease'')\<rparr>
      else (release_run r)\<lparr>run_status := Retry_Wait, run_next_attempt_at := Some now\<rparr>)"

definition requeue_one ::
  "codecs \<Rightarrow> settings \<Rightarrow> path option \<Rightarrow> world \<Rightarrow> document_run \<Rightarrow> world" where
  "requeue_one cx st base w r =
     (let r1 = requeued_run st (w_clock w) r in
      if run_attempts r \<ge> set_worker_max_attempts st then
        (let exc = Py_Error ''RuntimeError'' False
                     (case run_error_message r1 of None \<Rightarrow> [] | Some m \<Rightarrow> m);
             (w1, failure_path) = write_failure_artifact cx base None r1 exc
                                    (run_failure_stage r1) None w in
         on_db (upd_run (run_id r) (\<lambda>_. r1\<lparr>run_failure_artifact_path := failure_path\<rparr>)) w1)
      else on_db (upd_run (run_id r) (\<lambda>_. r1)) w)"

definition requeue_stale_runs ::
  "codecs \<Rightarrow> settings \<Rightarrow> path option \<Rightarrow> world \<Rightarrow> world \<times> nat" where
  "requeue_stale_runs cx st base w =
     (let stale_before = w_clock w - seconds (set_worker_lease_timeout_seconds st);
          stale_runs = filter (run_is_stale stale_before) (db_runs (w_db w));
          w' = foldl (requeue_one cx st base) w stale_runs in
      (if stale_runs = [] then w' else commit w', length stale_runs))"

definition run_eligible :: "time \<Rightarrow> document_run \<Rightarrow> bool" where
  "run_eligible now r =
     (run_status r = Queued \<or>
      (run_status r = Retry_Wait \<and>
       (case run_next_attempt_at r of None \<Rightarrow> True | Some t \<Rightarrow> t \<le> now)))"

definition claimed_run :: "time \<Rightarrow> string \<Rightarrow> document_run \<Rightarrow> document_run" where
  "claimed_run now worker r = r\<lparr>
     run_status := Processing, run_locked_at := Some now, run_locked_by := Some worker,
     run_last_heartbeat_at := Some now, run_started_at := or_else (run_started_at r) (Some now),
     run_next_attempt_at := None, run_validation_status := Some ''pending'',
     run_validation_results := [], run_failure_stage := None,
     run_attempts := run_attempts r + 1\<rparr>"

definition claim_next_run :: "string \<Rightarrow> world \<Rightarrow> world \<times> uuid option" where
  "claim_next_run worker w =
     (case first_by run_created_at (filter (run_eligible (w_clock w)) (db_runs (w_db w))) of
        None \<Rightarrow> (rollback w, None)
      | Some r \<Rightarrow>
          (commit (on_db (upd_run (run_id r) (claimed_run (w_clock w) worker)) w),
           Some (run_id r)))"

definition heartbeat_run :: "uuid \<Rightarrow> world \<Rightarrow> world" where
  "heartbeat_run i w =
     commit (on_db (upd_run i (\<lambda>r. r\<lparr>run_last_heartbeat_at := Some (w_clock w)\<rparr>)) w)"

text \<open>
  \<open>_refresh_run_lease\<close>, run by the heartbeat thread in a session of its own: it sees and writes
  what is committed. The result tells whether the lease still exists.
\<close>

definition holds_lease :: "string \<Rightarrow> document_run \<Rightarrow> bool" where
  "holds_lease worker r = (run_locked_by r = Some worker \<and> in_progress r)"

definition refresh_run_lease :: "uuid \<Rightarrow> string \<Rightarrow> world \<Rightarrow> world \<times> bool" where
  "refresh_run_lease i worker w =
     (let hit = (\<lambda>r. run_id r = i \<and> holds_lease worker r);
          refresh = (\<lambda>d. d\<lparr>db_runs := map (\<lambda>r. if hit r
             then r\<lparr>run_last_heartbeat_at := Some (w_clock w)\<rparr> else r) (db_runs d)\<rparr>) in
      (w\<lparr>w_saved := refresh (w_saved w), w_db := refresh (w_db w)\<rparr>,
       list_ex hit (db_runs (w_saved w))))"

section \<open>Finalising a run\<close>

definition set_table_status :: "uuid \<Rightarrow> string \<Rightarrow> db \<Rightarrow> db" where
  "set_table_status run status d = d\<lparr>db_tables :=
     map (\<lambda>t. if table_run_id t = run then t\<lparr>table_status := status\<rparr> else t) (db_tables d)\<rparr>"

definition set_figure_status :: "uuid \<Rightarrow> string \<Rightarrow> db \<Rightarrow> db" where
  "set_figure_status run status d = d\<lparr>db_figures :=
     map (\<lambda>f. if figure_run_id f = run then f\<lparr>figure_status := status\<rparr> else f) (db_figures d)\<rparr>"

lemma set_status_simps [simp]:
  "db_runs (set_table_status i s d) = db_runs d" "db_runs (set_figure_status i s d) = db_runs d"
  "db_documents (set_table_status i s d) = db_documents d"
  "db_documents (set_figure_status i s d) = db_documents d"
  by (simp_all add: set_table_status_def set_figure_status_def)

definition completed_run ::
  "time \<Rightarrow> parsed_document \<Rightarrow> validation_report \<Rightarrow> document_run \<Rightarrow> document_run" where
  "completed_run now parsed report r = (release_run r)\<lparr>
     run_next_attempt_at := None,
     run_chunk_count := Some (int (length (pd_chunks parsed))),
     run_table_count := Some (int (length (pd_tables parsed))),
     run_figure_count := Some (int (length (pd_figures parsed))),
     run_validation_status := Some ''passed'',
     run_validation_results := vr_details report,
     run_failure_stage := None,
     run_completed_at := Some now,
     run_status := Completed,
     run_error_message := None,
     run_failure_artifact_path := None\<rparr>"

definition promoted_document ::
  "time \<Rightarrow> uuid \<Rightarrow> parsed_document \<Rightarrow> document \<Rightarrow> document" where
  "promoted_document now run parsed d = d\<lparr>
     doc_active_run_id := Some run, doc_latest_run_id := Some run, doc_title := pd_title parsed,
     doc_page_count := Some (pd_page_count parsed), doc_updated_at := now\<rparr>"

definition finalize_run_success ::
  "path option \<Rightarrow> uuid \<Rightarrow> uuid \<Rightarrow> parsed_document \<Rightarrow> validation_report \<Rightarrow> world \<Rightarrow> world" where
  "finalize_run_success base document run parsed report w =
     (let now = w_clock w;
          w1 = (case get_run run (w_db w) of
                  None \<Rightarrow> w
                | Some r \<Rightarrow>
                    (case run_failure_artifact_path r of
                       None \<Rightarrow> w
                     | Some p \<Rightarrow> if p \<noteq> [] \<and> base \<noteq> None then delete_file_if_exists p w else w)) in
      commit (on_db (upd_document document (promoted_document now run parsed)
        \<circ> set_figure_status run ''validated'' \<circ> set_table_status run ''validated''
        \<circ> upd_run run (completed_run now parsed report)) w1))"

definition retry_backoff :: "int \<Rightarrow> int" where
  "retry_backoff attempts = min 60 (2 ^ nat (max (attempts - 1) 0))"

definition failure_results ::
  "exn \<Rightarrow> string option \<Rightarrow> validation_report option \<Rightarrow> dict \<Rightarrow> dict" where
  "failure_results exc stage report results =
     (let r1 = dict_set ''failure_type'' (JStr (exn_class exc)) results;
          r2 = (case stage of
                  None \<Rightarrow> r1
                | Some s \<Rightarrow> if s = [] then r1 else dict_set ''failure_stage'' (JStr s) r1) in
      case report of None \<Rightarrow> r2 | Some rep \<Rightarrow> dict_merge (vr_details rep) r2)"

text \<open>
  The run after the assignments of \<open>finalize_run_failure\<close>, up to the failure artifact. The
  dictionary of results is that of the claim, empty, when a claimed run fails; so the in-place
  update of the code starts from a new dictionary.
\<close>

definition failed_run ::
  "settings \<Rightarrow> time \<Rightarrow> exn \<Rightarrow> validation_report option \<Rightarrow> string option \<Rightarrow> document_run \<Rightarrow> document_run"
where
  "failed_run st now exc report stage r =
     (let r1 = (release_run r)\<lparr>
            run_error_message := Some (exn_message exc), run_failure_stage := stage,
            run_validation_results := failure_results exc stage report (run_validation_results r)\<rparr>;
          r2 = (if report \<noteq> None then r1\<lparr>run_validation_status := Some ''failed''\<rparr> else r1) in
      if is_retryable_error exc \<and> run_attempts r < set_worker_max_attempts st
      then r2\<lparr>run_status := Retry_Wait,
              run_next_attempt_at := Some (now + seconds (retry_backoff (run_attempts r)))\<rparr>
      else r2\<lparr>run_status := Failed, run_validation_status := Some ''failed'',
              run_completed_at := Some now\<rparr>)"

definition finalize_run_failure ::
  "codecs \<Rightarrow> settings \<Rightarrow> path option \<Rightarrow> document option \<Rightarrow> uuid \<Rightarrow> exn \<Rightarrow>
   validation_report option \<Rightarrow> string option \<Rightarrow> world \<Rightarrow> world" where
  "finalize_run_failure cx st base document run exc report stage w =
     (case get_run run (w_db w) of
        None \<Rightarrow> w
      | Some r \<Rightarrow>
          (let r1 = failed_run st (w_clock w) exc report stage r;
               mark = (if report \<noteq> None
                       then set_figure_status run ''rejected'' \<circ> set_table_status run ''rejected''
                       else id);
               (w1, failure_path) =
                 write_failure_artifact cx base document r1 exc stage report w in
           commit (on_db (upd_run run (\<lambda>_. r1\<lparr>run_failure_artifact_path := failure_path\<rparr>)
             \<circ> mark) w1)))"

section \<open>The invariant of a run\<close>

text \<open>
  What the columns of a run say in each status, as long as only the worker that holds the lease of
  a run writes to it; \<open>limit\<close> is \<open>worker_max_attempts\<close>.
\<close>

definition unlocked :: "document_run \<Rightarrow> bool" where
  "unlocked r = (run_locked_at r = None \<and> run_locked_by r = None \<and> run_last_heartbeat_at r = None)"

definition run_ok :: "int \<Rightarrow> document_run \<Rightarrow> bool" where
  "run_ok limit r =
     (case run_status r of
        Queued \<Rightarrow> unlocked r \<and> run_attempts r = 0 \<and> run_completed_at r = None
      | Retry_Wait \<Rightarrow>
          unlocked r \<and> 1 \<le> run_attempts r \<and> run_attempts r < limit \<and> run_next_attempt_at r \<noteq> None
      | Completed \<Rightarrow>
          unlocked r \<and> 1 \<le> run_attempts r \<and> run_attempts r \<le> limit \<and> run_completed_at r \<noteq> None
          \<and> run_validation_status r = Some ''passed'' \<and> run_error_message r = None
      | Failed \<Rightarrow>
          unlocked r \<and> 1 \<le> run_attempts r \<and> run_attempts r \<le> limit \<and> run_completed_at r \<noteq> None
          \<and> run_validation_status r = Some ''failed'' \<and> run_error_message r \<noteq> None
      | _ \<Rightarrow>
          run_locked_at r \<noteq> None \<and> run_locked_by r \<noteq> None \<and> run_last_heartbeat_at r \<noteq> None
          \<and> run_started_at r \<noteq> None \<and> run_next_attempt_at r = None
          \<and> 1 \<le> run_attempts r \<and> run_attempts r \<le> limit)"

text \<open>The part of it that survives even stale workers: the count of attempts.\<close>

definition attempts_ok :: "int \<Rightarrow> document_run \<Rightarrow> bool" where
  "attempts_ok limit r =
     (0 \<le> run_attempts r \<and> run_attempts r \<le> limit \<and>
      (run_status r = Queued \<or> run_status r = Retry_Wait \<longrightarrow> run_attempts r < limit))"

lemma run_fields [simp]:
  "run_id (requeued_run st now r) = run_id r" "run_id (claimed_run now w r) = run_id r"
  "run_id (completed_run now parsed report r) = run_id r"
  "run_id (failed_run st now exc rep stage r) = run_id r" "run_id (release_run r) = run_id r"
  "run_document_id (requeued_run st now r) = run_document_id r"
  "run_document_id (claimed_run now w r) = run_document_id r"
  "run_document_id (completed_run now parsed report r) = run_document_id r"
  "run_document_id (failed_run st now exc rep stage r) = run_document_id r"
  "run_attempts (requeued_run st now r) = run_attempts r"
  "run_attempts (claimed_run now w r) = run_attempts r + 1"
  "run_attempts (completed_run now parsed report r) = run_attempts r"
  "run_attempts (failed_run st now exc rep stage r) = run_attempts r"
  by (simp_all add: requeued_run_def claimed_run_def completed_run_def failed_run_def
      release_run_def Let_def)

lemmas run_step_defs = requeued_run_def claimed_run_def completed_run_def failed_run_def
  release_run_def unlocked_def

lemma requeued_run_ok:
  "run_ok (set_worker_max_attempts st) r \<Longrightarrow> in_progress r \<Longrightarrow>
   run_ok (set_worker_max_attempts st) (requeued_run st now r)"
  by (cases "run_error_message r")
    (auto simp: run_ok_def run_step_defs in_progress_def split: run_status.splits)

lemma claimed_run_ok:
  "run_ok limit r \<Longrightarrow> 1 \<le> limit \<Longrightarrow> run_eligible now r \<Longrightarrow> run_ok limit (claimed_run now w r)"
  by (cases "run_started_at r")
    (auto simp: run_ok_def run_step_defs run_eligible_def split: run_status.splits)

lemma completed_run_ok:
  "run_ok limit r \<Longrightarrow> in_progress r \<Longrightarrow> run_ok limit (completed_run now parsed report r)"
  by (auto simp: run_ok_def run_step_defs in_progress_def split: run_status.splits)

lemma failed_run_ok:
  "run_ok (set_worker_max_attempts st) r \<Longrightarrow> in_progress r \<Longrightarrow>
   run_ok (set_worker_max_attempts st) ((failed_run st now exc rep stage r)\<lparr>run_failure_artifact_path := p\<rparr>)"
  by (auto simp: run_ok_def run_step_defs in_progress_def Let_def split: run_status.splits)

lemma run_ok_artifact [simp]:
  "run_ok limit (r\<lparr>run_failure_artifact_path := p\<rparr>) = run_ok limit r"
  "attempts_ok limit (r\<lparr>run_failure_artifact_path := p\<rparr>) = attempts_ok limit r"
  by (simp_all add: run_ok_def unlocked_def attempts_ok_def split: run_status.splits)

lemma run_ok_attempts: "run_ok limit r \<Longrightarrow> 1 \<le> limit \<Longrightarrow> attempts_ok limit r"
  by (auto simp: run_ok_def attempts_ok_def split: run_status.splits)

lemma attempts_ok_steps:
  "attempts_ok (set_worker_max_attempts st) r \<Longrightarrow>
     attempts_ok (set_worker_max_attempts st) (requeued_run st now r)"
  "attempts_ok limit r \<Longrightarrow> run_eligible now r \<Longrightarrow> attempts_ok limit (claimed_run now w r)"
  "attempts_ok limit r \<Longrightarrow> attempts_ok limit (completed_run now parsed report r)"
  "attempts_ok (set_worker_max_attempts st) r \<Longrightarrow>
     attempts_ok (set_worker_max_attempts st) (failed_run st now exc rep stage r)"
  by (auto simp: attempts_ok_def run_step_defs run_eligible_def Let_def)

section \<open>Recovery as a map over the runs\<close>

text \<open>The run as \<open>requeue_stale_runs\<close> leaves it, its failure artifact included.\<close>

definition requeued_row :: "settings \<Rightarrow> path option \<Rightarrow> time \<Rightarrow> document_run \<Rightarrow> document_run" where
  "requeued_row st base now r =
     (if run_attempts r \<ge> set_worker_max_attempts st
      then (requeued_run st now r)\<lparr>run_failure_artifact_path :=
             map_option (\<lambda>b. build_failure_artifact_path b (run_document_id r) (run_id r)) base\<rparr>
      else requeued_run st now r)"

lemma requeued_row_fields [simp]:
  "run_id (requeued_row st base now r) = run_id r"
  "run_document_id (requeued_row st base now r) = run_document_id r"
  "run_attempts (requeued_row st base now r) = run_attempts r"
  by (simp_all add: requeued_row_def)

lemma requeue_one_runs:
  "w_db (requeue_one cx st base w r) =
     upd_run (run_id r) (\<lambda>_. requeued_row st base (w_clock w) r) (w_db w)"
  "w_clock (requeue_one cx st base w r) = w_clock w"
  "w_fresh (requeue_one cx st base w r) = w_fresh w"
  "w_saved (requeue_one cx st base w r) = w_saved w"
  by (simp_all add: requeue_one_def requeued_row_def write_failure_artifact_def Let_def
      split: option.split)

lemma requeue_fold:
  "db_runs (w_db (foldl (requeue_one cx st base) w rs)) =
     foldl (\<lambda>rows r. update_row run_id (run_id r) (\<lambda>_. requeued_row st base (w_clock w) r) rows)
       (db_runs (w_db w)) rs"
  "db_documents (w_db (foldl (requeue_one cx st base) w rs)) = db_documents (w_db w)"
  "w_clock (foldl (requeue_one cx st base) w rs) = w_clock w"
  "w_fresh (foldl (requeue_one cx st base) w rs) = w_fresh w"
  "w_saved (foldl (requeue_one cx st base) w rs) = w_saved w"
  by (induction rs arbitrary: w) (simp_all add: requeue_one_runs)

definition stale_before :: "settings \<Rightarrow> world \<Rightarrow> time" where
  "stale_before st w = w_clock w - seconds (set_worker_lease_timeout_seconds st)"

lemma requeue_runs:
  assumes "distinct (map run_id (db_runs (w_db w)))"
  shows "db_runs (w_db (fst (requeue_stale_runs cx st base w))) =
    map (\<lambda>r. if run_is_stale (stale_before st w) r
              then requeued_row st base (w_clock w) r else r) (db_runs (w_db w))"
proof -
  let ?rs = "filter (run_is_stale (stale_before st w)) (db_runs (w_db w))"
  have "w_db (fst (requeue_stale_runs cx st base w)) = w_db (foldl (requeue_one cx st base) w ?rs)"
    by (simp add: requeue_stale_runs_def stale_before_def Let_def)
  then have "db_runs (w_db (fst (requeue_stale_runs cx st base w))) =
      foldl (\<lambda>rows r. update_row run_id (run_id r) (\<lambda>_. requeued_row st base (w_clock w) r) rows)
        (db_runs (w_db w)) ?rs"
    by (simp add: requeue_fold)
  also have "\<dots> = map (\<lambda>r. if r \<in> set ?rs then requeued_row st base (w_clock w) r else r)
      (db_runs (w_db w))"
    using assms by (intro foldl_update_rows) auto
  finally show ?thesis by (auto cong: map_cong)
qed

lemma requeue_frame:
  "db_documents (w_db (fst (requeue_stale_runs cx st base w))) = db_documents (w_db w)"
  "w_clock (fst (requeue_stale_runs cx st base w)) = w_clock w"
  "w_fresh (fst (requeue_stale_runs cx st base w)) = w_fresh w"
  by (simp_all add: requeue_stale_runs_def Let_def requeue_fold)

lemma requeue_saved:
  "w_saved w = w_db w \<Longrightarrow> w_saved (fst (requeue_stale_runs cx st base w)) =
     w_db (fst (requeue_stale_runs cx st base w))"
  by (auto simp: requeue_stale_runs_def Let_def)

section \<open>Runs as a lease queue\<close>

definition run_claimable :: "world \<Rightarrow> uuid \<Rightarrow> bool" where
  "run_claimable w i =
     (case get_run i (w_db w) of None \<Rightarrow> False | Some r \<Rightarrow> run_eligible (w_clock w) r)"

definition run_holder :: "world \<Rightarrow> uuid \<Rightarrow> string option" where
  "run_holder w i =
     (case get_run i (w_db w) of
        None \<Rightarrow> None
      | Some r \<Rightarrow> if in_progress r then run_locked_by r else None)"

definition run_tries :: "world \<Rightarrow> uuid \<Rightarrow> int" where
  "run_tries w i = (case get_run i (w_db w) of None \<Rightarrow> 0 | Some r \<Rightarrow> run_attempts r)"

definition run_stale :: "settings \<Rightarrow> world \<Rightarrow> uuid \<Rightarrow> bool" where
  "run_stale st w i =
     (case get_run i (w_db w) of None \<Rightarrow> False | Some r \<Rightarrow> run_is_stale (stale_before st w) r)"

definition runs_settled :: "world \<Rightarrow> bool" where
  "runs_settled w = (w_saved w = w_db w \<and> distinct (map run_id (db_runs (w_db w))))"

lemmas run_views = run_claimable_def run_holder_def run_tries_def run_stale_def

lemma claim_next_run_cases:
  assumes "runs_settled w"
  obtains (none) "claim_next_run worker w = (w, None)" "\<forall>i. \<not> run_claimable w i"
  | (run) r w' where "claim_next_run worker w = (w', Some (run_id r))" "r \<in> set (db_runs (w_db w))"
      "run_eligible (w_clock w) r" "get_run (run_id r) (w_db w) = Some r"
      "w' = commit (on_db (upd_run (run_id r) (claimed_run (w_clock w) worker)) w)"
      "\<forall>r' \<in> set (db_runs (w_db w)). run_eligible (w_clock w) r' \<longrightarrow> run_created_at r \<le> run_created_at r'"
proof (cases "first_by run_created_at (filter (run_eligible (w_clock w)) (db_runs (w_db w)))")
  case None
  then have "filter (run_eligible (w_clock w)) (db_runs (w_db w)) = []" by simp
  then have "\<forall>i. \<not> run_claimable w i"
    by (auto simp: run_claimable_def filter_empty_conv dest: find_row_Some split: option.splits)
  moreover have "rollback w = w" using assms by (simp add: rollback_def runs_settled_def)
  ultimately show ?thesis using none None by (simp add: claim_next_run_def)
next
  case (Some r)
  then have r: "r \<in> set (db_runs (w_db w))" "run_eligible (w_clock w) r"
    and min: "\<forall>r' \<in> set (db_runs (w_db w)). run_eligible (w_clock w) r' \<longrightarrow>
      run_created_at r \<le> run_created_at r'"
    using first_by_Some [OF Some] by auto
  have "get_run (run_id r) (w_db w) = Some r"
    using assms r(1) by (simp add: runs_settled_def find_row_unique)
  with run [of _ r] r min Some show ?thesis by (simp add: claim_next_run_def)
qed

lemma requeued_not_in_progress: "\<not> in_progress (requeued_row st base now r)"
  by (simp add: requeued_row_def requeued_run_def in_progress_def)

lemma requeued_eligible:
  "run_eligible now (requeued_row st base now r) \<longleftrightarrow> run_attempts r < set_worker_max_attempts st"
  by (auto simp: requeued_row_def requeued_run_def run_eligible_def)

lemma get_run_requeue:
  assumes "runs_settled w"
  shows "get_run i (w_db (fst (requeue_stale_runs cx st base w))) =
    map_option (\<lambda>r. if run_is_stale (stale_before st w) r
                     then requeued_row st base (w_clock w) r else r) (get_run i (w_db w))"
  using assms by (simp add: requeue_runs runs_settled_def find_row_map_if)

interpretation run_queue: lease_recovery runs_settled run_claimable run_holder run_tries
  claim_next_run "run_stale st" "set_worker_max_attempts st" "fst \<circ> requeue_stale_runs cx st base"
  for st cx base
proof
  fix w w' :: world and worker r i j
  show "runs_settled w'" if "runs_settled w" "claim_next_run worker w = (w', r)"
    using that(1)
  proof (cases rule: claim_next_run_cases [where worker = worker])
    case (run q v)
    then show ?thesis
      using that by (simp add: runs_settled_def map_key_update_row)
  qed (use that in simp)
  show "run_claimable w i \<and> \<not> run_claimable w' i \<and> run_holder w' i = Some worker
      \<and> run_tries w' i = run_tries w i + 1"
    if "runs_settled w" "claim_next_run worker w = (w', Some i)"
    using that(1)
  proof (cases rule: claim_next_run_cases [where worker = worker])
    case (run q v)
    then show ?thesis
      using that by (simp add: run_views find_row_update run_eligible_def claimed_run_def in_progress_def)
  qed (use that in simp)
  show "run_claimable w' j = run_claimable w j \<and> run_holder w' j = run_holder w j
      \<and> run_tries w' j = run_tries w j"
    if "runs_settled w" "claim_next_run worker w = (w', Some i)" "j \<noteq> i"
    using that(1)
  proof (cases rule: claim_next_run_cases [where worker = worker])
    case (run q v)
    then show ?thesis using that by (auto simp: run_views find_row_update split: option.splits)
  qed (use that in simp)
  show "w' = w \<and> (\<forall>i. \<not> run_claimable w i)"
    if "runs_settled w" "claim_next_run worker w = (w', None)"
    using that(1)
    by (cases rule: claim_next_run_cases [where worker = worker]) (use that in auto)
  show "finite {i. run_claimable w i}"
  proof (rule finite_subset)
    show "{i. run_claimable w i} \<subseteq> run_id ` set (db_runs (w_db w))"
      by (auto simp: run_claimable_def dest: find_row_Some split: option.splits)
  qed simp
  show "runs_settled ((fst \<circ> requeue_stale_runs cx st base) w)" if "runs_settled w"
    using that requeue_saved [of w cx st base]
    by (simp add: runs_settled_def requeue_runs comp_def if_distrib [of run_id] cong: if_cong)
  show "run_holder ((fst \<circ> requeue_stale_runs cx st base) w) i = None
      \<and> (run_claimable ((fst \<circ> requeue_stale_runs cx st base) w) i
          \<longleftrightarrow> run_tries w i < set_worker_max_attempts st)
      \<and> run_tries ((fst \<circ> requeue_stale_runs cx st base) w) i = run_tries w i"
    if "runs_settled w" "run_stale st w i"
    using that by (auto simp: run_views get_run_requeue requeue_frame requeued_not_in_progress
        requeued_eligible split: option.splits)
  show "run_holder ((fst \<circ> requeue_stale_runs cx st base) w) i = run_holder w i
      \<and> run_claimable ((fst \<circ> requeue_stale_runs cx st base) w) i = run_claimable w i
      \<and> run_tries ((fst \<circ> requeue_stale_runs cx st base) w) i = run_tries w i"
    if "runs_settled w" "\<not> run_stale st w i"
    using that by (auto simp: run_views get_run_requeue requeue_frame split: option.splits)
qed

end
