(* ===== verification/Idempotency.thy ===== *)
theory Idempotency
  imports Data_Model
begin

text \<open>
  \<open>app/services/idempotency.py\<close>: the response of a request made with an idempotency key is stored
  under its scope and key together with a fingerprint of the request; the same request made again
  gets the stored response, a different request with the same key gets a conflict.

  The locale \<open>response_store\<close> is what the ingest services rely on; its lemmas show that a
  handler that looks the key up first and stores its response last is idempotent.
\<close>

section \<open>Rows\<close>

definition idem_matches :: "string \<Rightarrow> string \<Rightarrow> idempotency_row \<Rightarrow> bool" where
  "idem_matches scope key r = (idem_scope r = scope \<and> idem_key r = key)"

text \<open>\<open>_load_idempotency_row\<close>: scope and key are unique in the table.\<close>

definition load_idempotency_row :: "string \<Rightarrow> string \<Rightarrow> db \<Rightarrow> idempotency_row option" where
  "load_idempotency_row scope key d = find (idem_matches scope key) (db_idempotency d)"

definition key_reused :: exn where
  "key_reused = Http_Error 409 ''idempotency_key_reused''
     ''Idempotency key has already been used for a different request.''"

definition validate_fingerprint :: "idempotency_row \<Rightarrow> string \<Rightarrow> exn + unit" where
  "validate_fingerprint row fp =
     (if idem_request_fingerprint row = fp then Inr () else Inl key_reused)"

definition get_idempotent_response ::
  "string \<Rightarrow> string option \<Rightarrow> string \<Rightarrow> db \<Rightarrow> exn + (dict \<times> nat) option" where
  "get_idempotent_response scope key fp d =
     (if \<not> str_truthy key then Inr None
      else
        (case load_idempotency_row scope (the key) d of
           None \<Rightarrow> Inr None
         | Some row \<Rightarrow>
             (case validate_fingerprint row fp of
                Inl e \<Rightarrow> Inl e
              | Inr _ \<Rightarrow> Inr (Some (idem_response row, idem_status_code row)))))"

text \<open>
  \<open>store_idempotent_response\<close>. Between the look-up and the insert another transaction may
  commit: \<open>race\<close> is what it does to the table (the identity when nothing happens). The insert then
  violates the unique constraint and the \<open>IntegrityError\<close> is handled; \<open>race_error\<close> is that
  exception. The payload is already JSON, on which \<open>jsonable_encoder\<close> is the identity.
\<close>

definition race_error :: exn where
  "race_error = Py_Error ''IntegrityError'' False ''duplicate key value violates unique constraint''"

definition insert_idempotency_row :: "idempotency_row \<Rightarrow> db \<Rightarrow> db" where
  "insert_idempotency_row row d = d\<lparr>db_idempotency := db_idempotency d @ [row]\<rparr>"

definition update_idempotency_row :: "string \<Rightarrow> string \<Rightarrow> nat \<Rightarrow> dict \<Rightarrow> db \<Rightarrow> db" where
  "update_idempotency_row scope key status payload d = d\<lparr>db_idempotency :=
     map (\<lambda>r. if idem_matches scope key r
              then r\<lparr>idem_status_code := status, idem_response := payload\<rparr> else r)
       (db_idempotency d)\<rparr>"

definition store_idempotent_response ::
  "(db \<Rightarrow> db) \<Rightarrow> uuid \<Rightarrow> time \<Rightarrow> string \<Rightarrow> string option \<Rightarrow> string \<Rightarrow> dict \<Rightarrow> nat \<Rightarrow> db \<Rightarrow> exn + db" where
  "store_idempotent_response race new_id now scope key fp payload status d =
     (if \<not> str_truthy key then Inr d
      else
        (case load_idempotency_row scope (the key) d of
           Some row \<Rightarrow>
             (case validate_fingerprint row fp of
                Inl e \<Rightarrow> Inl e
              | Inr _ \<Rightarrow> Inr (update_idempotency_row scope (the key) status payload d))
         | None \<Rightarrow>
             (let d' = race d;
                  row = \<lparr>idem_id = new_id, idem_scope = scope, idem_key = the key,
                         idem_request_fingerprint = fp, idem_status_code = status,
                         idem_response = payload, idem_created_at = now\<rparr> in
              case load_idempotency_row scope (the key) d' of
                None \<Rightarrow> Inr (insert_idempotency_row row d')
              | Some existing \<Rightarrow>
                  (case validate_fingerprint existing fp of Inl e \<Rightarrow> Inl e | Inr _ \<Rightarrow> Inr d'))))"

section \<open>The interface\<close>

text \<open>
  A store of responses under scope and key; \<open>valid\<close> keys are stored, others are ignored.
  \<open>other\<close> is the part of the state the store does not touch.
\<close>

locale response_store =
  fixes valid :: "'k \<Rightarrow> bool"
    and lookup :: "string \<Rightarrow> 'k \<Rightarrow> string \<Rightarrow> 's \<Rightarrow> exn + (dict \<times> nat) option"
    and put :: "string \<Rightarrow> 'k \<Rightarrow> string \<Rightarrow> dict \<Rightarrow> nat \<Rightarrow> 's \<Rightarrow> exn + 's"
    and other :: "'s \<Rightarrow> 'o"
  assumes put_new: "lookup sc k fp s = Inr None \<Longrightarrow> \<exists>s'. put sc k fp p st s = Inr s'"
    and lookup_put:
      "valid k \<Longrightarrow> put sc k fp p st s = Inr s' \<Longrightarrow> lookup sc k fp s' = Inr (Some (p, st))"
    and lookup_put_conflict:
      "valid k \<Longrightarrow> put sc k fp p st s = Inr s' \<Longrightarrow> fp' \<noteq> fp \<Longrightarrow> lookup sc k fp' s' = Inl key_reused"
    and lookup_put_other:
      "put sc k fp p st s = Inr s' \<Longrightarrow> (sc', k') \<noteq> (sc, k) \<Longrightarrow>
       lookup sc' k' fp' s' = lookup sc' k' fp' s"
    and lookup_ignored: "\<not> valid k \<Longrightarrow> lookup sc k fp s = Inr None"
    and put_ignored: "\<not> valid k \<Longrightarrow> put sc k fp p st s = Inr s"
    and put_frame: "put sc k fp p st s = Inr s' \<Longrightarrow> other s' = other s"
begin

text \<open>A request handler: look the key up, otherwise act and store the response.\<close>

definition handle ::
  "string \<Rightarrow> 'k \<Rightarrow> string \<Rightarrow> ('s \<Rightarrow> exn + 's \<times> dict \<times> nat) \<Rightarrow> 's \<Rightarrow> exn + 's \<times> dict \<times> nat" where
  "handle sc k fp act s =
     (case lookup sc k fp s of
        Inl e \<Rightarrow> Inl e
      | Inr (Some (p, st)) \<Rightarrow> Inr (s, p, st)
      | Inr None \<Rightarrow>
          (case act s of
             Inl e \<Rightarrow> Inl e
           | Inr (s1, p, st) \<Rightarrow>
               (case put sc k fp p st s1 of Inl e \<Rightarrow> Inl e | Inr s2 \<Rightarrow> Inr (s2, p, st))))"

lemma handle_stored:
  "valid k \<Longrightarrow> handle sc k fp act s = Inr (s', p, st) \<Longrightarrow> lookup sc k fp s' = Inr (Some (p, st))"
  by (auto simp: handle_def split: sum.splits option.splits intro: lookup_put)

lemma handle_replay:
  "valid k \<Longrightarrow> handle sc k fp act s = Inr (s', p, st) \<Longrightarrow> handle sc k fp act' s' = Inr (s', p, st)"
  by (drule (1) handle_stored) (simp add: handle_def)

lemma handle_conflict:
  "valid k \<Longrightarrow> lookup sc k fp s = Inr None \<Longrightarrow> handle sc k fp act s = Inr (s', p, st) \<Longrightarrow> fp' \<noteq> fp \<Longrightarrow>
   handle sc k fp' act' s' = Inl key_reused"
  by (auto simp: handle_def lookup_put_conflict split: sum.splits option.splits)

lemma handle_other_key:
  "handle sc k fp act s = Inr (s', p, st) \<Longrightarrow> (\<And>s1 p1 st1. act s = Inr (s1, p1, st1) \<Longrightarrow>
     lookup sc' k' fp' s1 = lookup sc' k' fp' s) \<Longrightarrow> (sc', k') \<noteq> (sc, k) \<Longrightarrow>
   lookup sc' k' fp' s' = lookup sc' k' fp' s"
  by (auto simp: handle_def lookup_put_other split: sum.splits option.splits)

end

section \<open>The store implements the interface\<close>

lemma load_inserted:
  "load_idempotency_row scope k (insert_idempotency_row row d) =
    or_else (load_idempotency_row scope k d) (if idem_matches scope k row then Some row else None)"
proof -
  have "find P (xs @ [x]) = or_else (find P xs) (if P x then Some x else None)"
    for P and x :: idempotency_row and xs
    by (induction xs) auto
  then show ?thesis by (simp add: load_idempotency_row_def insert_idempotency_row_def)
qed

lemma idem_matches_update [simp]:
  "idem_matches scope k (r\<lparr>idem_status_code := st, idem_response := p\<rparr>) = idem_matches scope k r"
  by (simp add: idem_matches_def)

lemma idem_matches_same:
  "idem_matches scope k r \<Longrightarrow> idem_matches scope' k' r \<longleftrightarrow> (scope', k') = (scope, k)"
  by (auto simp: idem_matches_def)

lemma load_updated:
  "load_idempotency_row scope' k' (update_idempotency_row scope k st p d) =
    (if (scope', k') = (scope, k)
     then map_option (\<lambda>r. r\<lparr>idem_status_code := st, idem_response := p\<rparr>)
            (load_idempotency_row scope k d)
     else load_idempotency_row scope' k' d)"
proof -
  let ?f = "\<lambda>r. if idem_matches scope k r
          then r\<lparr>idem_status_code := st, idem_response := p\<rparr> else r"
  have same: "find (idem_matches scope k) (map ?f xs) =
      map_option (\<lambda>r. r\<lparr>idem_status_code := st, idem_response := p\<rparr>)
        (find (idem_matches scope k) xs)" for xs
    by (induction xs) auto
  have diff: "find (idem_matches scope' k') (map ?f xs) = find (idem_matches scope' k') xs"
    if "(scope', k') \<noteq> (scope, k)" for xs
    using that by (induction xs) (auto simp: idem_matches_same)
  show ?thesis
    using same diff by (simp add: load_idempotency_row_def update_idempotency_row_def)
qed

lemma load_Some_matches:
  "load_idempotency_row scope k d = Some r \<Longrightarrow> idem_matches scope k r"
  by (auto simp: load_idempotency_row_def find_Some_iff)

lemma store_frame:
  "store_idempotent_response id i t scope key fp p st d = Inr d' \<Longrightarrow>
   d'\<lparr>db_idempotency := []\<rparr> = d\<lparr>db_idempotency := []\<rparr>"
  by (auto simp: store_idempotent_response_def insert_idempotency_row_def
      update_idempotency_row_def Let_def split: if_splits option.splits sum.splits)

lemmas idempotency_defs = get_idempotent_response_def store_idempotent_response_def
  validate_fingerprint_def load_inserted load_updated

interpretation idem: response_store str_truthy get_idempotent_response
  "store_idempotent_response id i t" "\<lambda>d. d\<lparr>db_idempotency := []\<rparr>" for i t
proof
  fix sc k fp p st and s s' :: db and fp' sc' k'
  show "\<exists>s'. store_idempotent_response id i t sc k fp p st s = Inr s'"
    if "get_idempotent_response sc k fp s = Inr None"
    using that by (auto simp: idempotency_defs Let_def split: if_splits option.splits)
  show "get_idempotent_response sc k fp s' = Inr (Some (p, st))"
    if "str_truthy k" "store_idempotent_response id i t sc k fp p st s = Inr s'"
    using that by (auto simp: idempotency_defs Let_def idem_matches_def
        split: if_splits option.splits) (metis idempotency_row.select_convs)+
  show "get_idempotent_response sc k fp' s' = Inl key_reused"
    if "str_truthy k" "store_idempotent_response id i t sc k fp p st s = Inr s'" "fp' \<noteq> fp"
    using that by (auto simp: idempotency_defs Let_def idem_matches_def
        split: if_splits option.splits)
  show "get_idempotent_response sc' k' fp' s' = get_idempotent_response sc' k' fp' s"
    if "store_idempotent_response id i t sc k fp p st s = Inr s'" "(sc', k') \<noteq> (sc, k)"
  proof (cases k)
    case (Some key)
    have ne: "(sc', the k') \<noteq> (sc, key)" if "str_truthy k'"
      using that \<open>(sc', k') \<noteq> (sc, k)\<close> Some by (cases k') auto
    show ?thesis
      using that(1) ne Some
      by (cases "str_truthy k'")
        (auto simp: idempotency_defs Let_def idem_matches_def split: if_splits option.splits)
  qed (use that in \<open>simp add: store_idempotent_response_def\<close>)
  show "get_idempotent_response sc k fp s = Inr None" if "\<not> str_truthy k"
    using that by (simp add: get_idempotent_response_def)
  show "store_idempotent_response id i t sc k fp p st s = Inr s" if "\<not> str_truthy k"
    using that by (simp add: store_idempotent_response_def)
  show "s'\<lparr>db_idempotency := []\<rparr> = s\<lparr>db_idempotency := []\<rparr>"
    if "store_idempotent_response id i t sc k fp p st s = Inr s'"
    using that by (rule store_frame)
qed

lemma get_idempotent_cong:
  "db_idempotency d' = db_idempotency d \<Longrightarrow>
   get_idempotent_response scope key fp d' = get_idempotent_response scope key fp d"
  by (simp add: get_idempotent_response_def load_idempotency_row_def)

section \<open>What a client can rely on\<close>

text \<open>
  After a response was stored under a key, the same request gets exactly this response back, any
  other request with the key gets the conflict, requests under other scopes or keys are not affected,
  and no other table is touched.
\<close>

theorem stored_response_replayed:
  assumes "str_truthy key" and "store_idempotent_response id i now scope key fp payload status d = Inr d'"
  shows "get_idempotent_response scope key fp d' = Inr (Some (payload, status))
    \<and> (\<forall>fp'. fp' \<noteq> fp \<longrightarrow> get_idempotent_response scope key fp' d' = Inl key_reused)
    \<and> (\<forall>scope' key' fp'. (scope', key') \<noteq> (scope, key) \<longrightarrow>
          get_idempotent_response scope' key' fp' d' = get_idempotent_response scope' key' fp' d)
    \<and> d'\<lparr>db_idempotency := []\<rparr> = d\<lparr>db_idempotency := []\<rparr>"
  using idem.lookup_put [OF assms] idem.lookup_put_conflict [OF assms] idem.lookup_put_other [OF assms(2)]
    idem.put_frame [OF assms(2)] by blast

theorem stored_response_replayed_witness:
  "\<exists>d'. store_idempotent_response id 7 0 ''s'' (Some ''k'') ''fp'' [(''run_id'', JInt 1)] 202 empty_db = Inr d'
    \<and> get_idempotent_response ''s'' (Some ''k'') ''fp'' d' = Inr (Some ([(''run_id'', JInt 1)], 202))"
proof -
  have t: "str_truthy (Some ''k'')" by simp
  obtain d' where d': "store_idempotent_response id 7 0 ''s'' (Some ''k'') ''fp'' [(''run_id'', JInt 1)] 202
      empty_db = Inr d'"
    by (simp add: store_idempotent_response_def load_idempotency_row_def empty_db_def Let_def)
  from stored_response_replayed [OF t d'] d' show ?thesis by blast
qed

text \<open>
  Two requests with one key may race past the look-up; the unique constraint lets one insert
  win. The loser with the same request keeps the winner's response, the loser with a different
  request gets the conflict, and in either case the winner's row is unchanged.
\<close>

theorem store_race_first_wins:
  assumes "str_truthy key" and "load_idempotency_row scope (the key) d = None"
    and "load_idempotency_row scope (the key) (other d) = Some row"
  shows "store_idempotent_response other i now scope key fp payload status d =
    (if idem_request_fingerprint row = fp then Inr (other d) else Inl key_reused)"
  using assms by (simp add: store_idempotent_response_def validate_fingerprint_def Let_def)

definition example_row :: idempotency_row where
  "example_row = \<lparr>idem_id = 1, idem_scope = ''s'', idem_key = ''k'', idem_request_fingerprint = ''fp'',
     idem_status_code = 202, idem_response = [], idem_created_at = 0\<rparr>"

theorem store_race_first_wins_witness:
  "store_idempotent_response (insert_idempotency_row example_row) 7 0 ''s'' (Some ''k'') ''other'' [] 202 empty_db
    = Inl key_reused"
proof -
  have "load_idempotency_row ''s'' (the (Some ''k'')) empty_db = None"
    "load_idempotency_row ''s'' (the (Some ''k'')) (insert_idempotency_row example_row empty_db) = Some example_row"
    by (simp_all add: load_idempotency_row_def insert_idempotency_row_def empty_db_def idem_matches_def
        example_row_def)
  from store_race_first_wins [where other = "insert_idempotency_row example_row", OF _ this] show ?thesis by (simp add: example_row_def)
qed

end
