(* ===== verification/Api_Access.thy ===== *)
theory Api_Access
  imports Data_Model
begin

text \<open>
  Who may call the API: mode and credentials from the settings (\<open>app/core/config.py\<close>), the
  registry of capabilities (\<open>app/api/capabilities.py\<close>), the request dependencies that check keys,
  capabilities and the search rate (\<open>app/api/deps.py\<close>) and the checks made when the server binds
  (\<open>app/api/main.py\<close>).

  The lemmas show which credential a request resolves to, that a remote request passes only with
  a credential that holds the capability, and that the rate limiter never admits more than its
  limit in a window.
\<close>

section \<open>Mode and credentials\<close>

definition DEFAULT_REMOTE_API_CAPABILITIES :: "string list" where
  "DEFAULT_REMOTE_API_CAPABILITIES =
     [''documents:upload'', ''search:query'', ''search:feedback'', ''chat:query'', ''chat:feedback'']"

record api_credential =
  cred_actor :: string
  cred_key :: string
  cred_capabilities :: "string set"

definition is_loopback_host :: "string \<Rightarrow> bool" where
  "is_loopback_host host =
     (str_lower (str_strip host) \<in> {''127.0.0.1'', ''localhost'', ''::1''})"

definition resolve_api_mode :: "settings \<Rightarrow> api_mode" where
  "resolve_api_mode st =
     (case set_api_mode st of
        Some m \<Rightarrow> m
      | None \<Rightarrow> if \<not> is_loopback_host (set_api_host st) then Remote_Mode else Local_Mode)"

definition comma_items :: "string \<Rightarrow> string set" where
  "comma_items s = set (filter (\<lambda>x. x \<noteq> []) (map str_strip (split_on (CHR '','') s)))"

definition resolve_remote_api_capabilities :: "settings \<Rightarrow> string set" where
  "resolve_remote_api_capabilities st =
     (case set_remote_api_capabilities st of
        None \<Rightarrow> set DEFAULT_REMOTE_API_CAPABILITIES
      | Some s \<Rightarrow> comma_items s)"

definition credential_capabilities :: "codecs \<Rightarrow> json option \<Rightarrow> exn + string set" where
  "credential_capabilities cx raw =
     (case raw of
        None \<Rightarrow> Inr (set DEFAULT_REMOTE_API_CAPABILITIES)
      | Some JNull \<Rightarrow> Inr (set DEFAULT_REMOTE_API_CAPABILITIES)
      | Some (JStr s) \<Rightarrow> Inr (comma_items s)
      | Some (JArr xs) \<Rightarrow>
          Inr (set (filter (\<lambda>x. x \<noteq> []) (map (\<lambda>j. str_strip (py_str cx j)) xs)))
      | Some _ \<Rightarrow>
          Inl (value_error ''API credential capabilities must be a comma-separated string or list.''))"

text \<open>\<open>str(d.get(k) or default).strip()\<close>.\<close>

definition stripped_field :: "codecs \<Rightarrow> dict \<Rightarrow> string \<Rightarrow> string \<Rightarrow> string" where
  "stripped_field cx d k fallback =
     str_strip (case dict_get d k of
       None \<Rightarrow> fallback
     | Some v \<Rightarrow> if py_truthy v then py_str cx v else fallback)"

definition parse_credential :: "codecs \<Rightarrow> nat \<Rightarrow> json \<Rightarrow> exn + api_credential" where
  "parse_credential cx index raw =
     (case raw of
        JObj d \<Rightarrow>
          (let key = stripped_field cx d ''key'' [] in
           if key = [] then Inl (value_error ''Each API credential must include a non-empty 'key'.'')
           else
             (let actor = stripped_field cx d ''actor'' (''credential_'' @ show_nat index) in
              case credential_capabilities cx (dict_get d ''capabilities'') of
                Inl e \<Rightarrow> Inl e
              | Inr caps \<Rightarrow>
                  Inr \<lparr>cred_actor = actor, cred_key = key, cred_capabilities = caps\<rparr>))
      | _ \<Rightarrow> Inl (value_error
            ''DOCLING_SYSTEM_API_CREDENTIALS_JSON entries must be objects.''))"

fun parse_credentials :: "codecs \<Rightarrow> nat \<Rightarrow> json list \<Rightarrow> exn + api_credential list" where
  "parse_credentials cx index [] = Inr []"
| "parse_credentials cx index (raw # raws) =
     (case parse_credential cx index raw of
        Inl e \<Rightarrow> Inl e
      | Inr c \<Rightarrow>
          (case parse_credentials cx (index + 1) raws of Inl e \<Rightarrow> Inl e | Inr cs \<Rightarrow> Inr (c # cs)))"

definition resolve_api_credentials :: "codecs \<Rightarrow> settings \<Rightarrow> exn + api_credential list" where
  "resolve_api_credentials cx st =
     (if str_truthy (set_api_credentials_json st) then
        (case cx_json_loads cx (the (set_api_credentials_json st)) of
           None \<Rightarrow> Inl (value_error ''DOCLING_SYSTEM_API_CREDENTIALS_JSON must be valid JSON.'')
         | Some (JArr payload) \<Rightarrow> parse_credentials cx 1 payload
         | Some _ \<Rightarrow>
             Inl (value_error ''DOCLING_SYSTEM_API_CREDENTIALS_JSON must decode to a list.''))
      else if \<not> str_truthy (set_api_key st) then Inr []
      else Inr [\<lparr>cred_actor = ''legacy_api_key'', cred_key = the (set_api_key st),
                 cred_capabilities = resolve_remote_api_capabilities st\<rparr>])"

section \<open>Capabilities\<close>

record api_capability_definition =
  cap_name :: string
  cap_family :: string
  cap_access :: string
  cap_description :: string

definition AGENT_TASKS_READ :: string where "AGENT_TASKS_READ = ''agent_tasks:read''"
definition AGENT_TASKS_WRITE :: string where "AGENT_TASKS_WRITE = ''agent_tasks:write''"
definition CHAT_FEEDBACK :: string where "CHAT_FEEDBACK = ''chat:feedback''"
definition CHAT_QUERY :: string where "CHAT_QUERY = ''chat:query''"
definition DOCUMENTS_INSPECT :: string where "DOCUMENTS_INSPECT = ''documents:inspect''"
definition DOCUMENTS_REPROCESS :: string where "DOCUMENTS_REPROCESS = ''documents:reprocess''"
definition DOCUMENTS_REVIEW :: string where "DOCUMENTS_REVIEW = ''documents:review''"
definition DOCUMENTS_UPLOAD :: string where "DOCUMENTS_UPLOAD = ''documents:upload''"
definition QUALITY_READ :: string where "QUALITY_READ = ''quality:read''"
definition SEARCH_EVALUATE :: string where "SEARCH_EVALUATE = ''search:evaluate''"
definition SEARCH_FEEDBACK :: string where "SEARCH_FEEDBACK = ''search:feedback''"
definition SEARCH_HISTORY_READ :: string where "SEARCH_HISTORY_READ = ''search:history:read''"
definition SEARCH_QUERY :: string where "SEARCH_QUERY = ''search:query''"
definition SEARCH_REPLAY :: string where "SEARCH_REPLAY = ''search:replay''"
definition SYSTEM_READ :: string where "SYSTEM_READ = ''system:read''"
definition API_CAPABILITY_WILDCARD :: string where "API_CAPABILITY_WILDCARD = ''*''"

definition API_CAPABILITY_DEFINITIONS :: "api_capability_definition list" where
  "API_CAPABILITY_DEFINITIONS = [
     \<lparr>cap_name = AGENT_TASKS_READ, cap_family = ''agent_tasks'', cap_access = ''read'',
      cap_description = ''Inspect agent task actions, work queues, context, artifacts, and analytics.''\<rparr>,
     \<lparr>cap_name = AGENT_TASKS_WRITE, cap_family = ''agent_tasks'', cap_access = ''write'',
      cap_description = ''Create agent tasks and mutate agent task outcomes or approvals.''\<rparr>,
     \<lparr>cap_name = CHAT_FEEDBACK, cap_family = ''chat'', cap_access = ''write'',
      cap_description = ''Record feedback for retrieval-grounded chat answers.''\<rparr>,
     \<lparr>cap_name = CHAT_QUERY, cap_family = ''chat'', cap_access = ''execute'',
      cap_description = ''Ask retrieval-grounded chat questions against the active corpus.''\<rparr>,
     \<lparr>cap_name = DOCUMENTS_INSPECT, cap_family = ''documents'', cap_access = ''read'',
      cap_description = ''Inspect documents, runs, active content, artifacts, and semantic artifacts.''\<rparr>,
     \<lparr>cap_name = DOCUMENTS_REPROCESS, cap_family = ''documents'', cap_access = ''write'',
      cap_description = ''Create a new processing run for an existing document.''\<rparr>,
     \<lparr>cap_name = DOCUMENTS_REVIEW, cap_family = ''documents'', cap_access = ''write'',
      cap_description = ''Run or update semantic review workflows for document-derived assertions.''\<rparr>,
     \<lparr>cap_name = DOCUMENTS_UPLOAD, cap_family = ''documents'', cap_access = ''write'',
      cap_description = ''Upload a new PDF document for ingestion.''\<rparr>,
     \<lparr>cap_name = QUALITY_READ, cap_family = ''quality'', cap_access = ''read'',
      cap_description = ''Read quality, evaluation, and latest document evaluation surfaces.''\<rparr>,
     \<lparr>cap_name = SEARCH_EVALUATE, cap_family = ''search'', cap_access = ''execute'',
      cap_description = ''Inspect and run search harness evaluations.''\<rparr>,
     \<lparr>cap_name = SEARCH_FEEDBACK, cap_family = ''search'', cap_access = ''write'',
      cap_description = ''Record feedback for logged search requests.''\<rparr>,
     \<lparr>cap_name = SEARCH_HISTORY_READ, cap_family = ''search'', cap_access = ''read'',
      cap_description = ''Inspect logged search requests and explanation records.''\<rparr>,
     \<lparr>cap_name = SEARCH_QUERY, cap_family = ''search'', cap_access = ''execute'',
      cap_description = ''Run mixed retrieval queries against the active corpus.''\<rparr>,
     \<lparr>cap_name = SEARCH_REPLAY, cap_family = ''search'', cap_access = ''execute'',
      cap_description = ''Replay logged searches and inspect replay comparison artifacts.''\<rparr>,
     \<lparr>cap_name = SYSTEM_READ, cap_family = ''system'', cap_access = ''read'',
      cap_description = ''Read runtime status and process telemetry.''\<rparr>]"

definition is_known_api_capability :: "string \<Rightarrow> bool" where
  "is_known_api_capability capability =
     (capability \<in> set (map cap_name API_CAPABILITY_DEFINITIONS))"

definition require_known_api_capability :: "string \<Rightarrow> exn + string" where
  "require_known_api_capability capability =
     (if \<not> is_known_api_capability capability
      then Inl (value_error (''Unknown API capability '' @ capability @ ''. Known capabilities: ''
             @ str_join '', '' (sort (map cap_name API_CAPABILITY_DEFINITIONS))))
      else Inr capability)"

section \<open>Checking a request\<close>

text \<open>
  What the dependencies read of a request: the two headers, the client address, and the credential
  an earlier dependency left in \<open>request.state\<close>.
\<close>

record api_request =
  rq_method :: string
  rq_path :: string
  rq_x_api_key :: "string option"
  rq_authorization :: "string option"
  rq_client_host :: "string option"
  rq_credential :: "api_credential option"

definition bearer_token_from_header :: "string option \<Rightarrow> string option" where
  "bearer_token_from_header authorization =
     (if \<not> str_truthy authorization then None
      else (let (scheme, token) = str_partition (CHR '' '') (the authorization) in
            if str_lower scheme = ''bearer'' \<and> token \<noteq> [] then Some token else None))"

text \<open>\<open>secrets.compare_digest\<close> on strings: only ASCII strings are supported.\<close>

definition is_ascii :: "string \<Rightarrow> bool" where
  "is_ascii s = list_all (\<lambda>c. (of_char c :: nat) < 128) s"

definition compare_digest :: "string \<Rightarrow> string \<Rightarrow> exn + bool" where
  "compare_digest a b =
     (if \<not> is_ascii a \<or> \<not> is_ascii b
      then Inl (Py_Error ''TypeError'' False
                  ''comparing strings with non-ASCII characters is not supported'')
      else Inr (a = b))"

fun any_matches :: "string list \<Rightarrow> string \<Rightarrow> exn + bool" where
  "any_matches [] key = Inr False"
| "any_matches (v # vs) key =
     (case compare_digest v key of
        Inl e \<Rightarrow> Inl e
      | Inr True \<Rightarrow> Inr True
      | Inr False \<Rightarrow> any_matches vs key)"

fun find_credential :: "string list \<Rightarrow> api_credential list \<Rightarrow> exn + api_credential option" where
  "find_credential values [] = Inr None"
| "find_credential values (c # cs) =
     (case any_matches values (cred_key c) of
        Inl e \<Rightarrow> Inl e
      | Inr True \<Rightarrow> Inr (Some c)
      | Inr False \<Rightarrow> find_credential values cs)"

definition provided_values :: "api_request \<Rightarrow> string list" where
  "provided_values rq =
     filter (\<lambda>v. v \<noteq> [])
       (some_values [rq_x_api_key rq, bearer_token_from_header (rq_authorization rq)])"

definition resolve_api_credential ::
  "codecs \<Rightarrow> settings \<Rightarrow> api_request \<Rightarrow> exn + api_credential option" where
  "resolve_api_credential cx st rq =
     (case resolve_api_credentials cx st of
        Inl e \<Rightarrow> Inl e
      | Inr credentials \<Rightarrow> find_credential (provided_values rq) credentials)"

definition api_auth_is_configured :: "codecs \<Rightarrow> settings \<Rightarrow> exn + bool" where
  "api_auth_is_configured cx st =
     (case resolve_api_credentials cx st of Inl e \<Rightarrow> Inl e | Inr cs \<Rightarrow> Inr (cs \<noteq> []))"

definition auth_required :: "string \<Rightarrow> exn" where
  "auth_required message = Http_Error 401 ''auth_required'' message"

text \<open>The dependencies return the request with the credential they put into its state.\<close>

definition require_api_key_for_mutations ::
  "codecs \<Rightarrow> settings \<Rightarrow> api_request \<Rightarrow> exn + api_request" where
  "require_api_key_for_mutations cx st rq =
     (let check =
        (case resolve_api_credential cx st rq of
           Inl e \<Rightarrow> Inl e
         | Inr (Some c) \<Rightarrow> Inr (rq\<lparr>rq_credential := Some c\<rparr>)
         | Inr None \<Rightarrow> Inl (auth_required ''Valid API key required for mutating API access.'')) in
      if resolve_api_mode st = Remote_Mode then check
      else (case api_auth_is_configured cx st of
              Inl e \<Rightarrow> Inl e
            | Inr False \<Rightarrow> Inr rq
            | Inr True \<Rightarrow> check))"

definition require_api_capability ::
  "codecs \<Rightarrow> settings \<Rightarrow> string \<Rightarrow> api_request \<Rightarrow> exn + api_request" where
  "require_api_capability cx st capability rq =
     (if resolve_api_mode st \<noteq> Remote_Mode then Inr rq
      else
        (case (case rq_credential rq of
                 Some c \<Rightarrow> Inr (Some c)
               | None \<Rightarrow> resolve_api_credential cx st rq) of
           Inl e \<Rightarrow> Inl e
         | Inr None \<Rightarrow> Inl (auth_required ''Valid API key required for remote API access.'')
         | Inr (Some c) \<Rightarrow>
             if API_CAPABILITY_WILDCARD \<in> cred_capabilities c \<or> capability \<in> cred_capabilities c
             then Inr (rq\<lparr>rq_credential := Some c\<rparr>)
             else Inl (Http_Error 403 ''capability_not_allowed''
                         (''Remote API capability '' @ capability @ '' is not enabled.''))))"

definition PUBLIC_REMOTE_PATHS :: "string list" where
  "PUBLIC_REMOTE_PATHS = [''/health'']"

text \<open>The middleware for reads; \<open>Inr\<close> is the request handed on to the route.\<close>

definition require_remote_api_key_for_reads ::
  "codecs \<Rightarrow> settings \<Rightarrow> api_request \<Rightarrow> exn + api_request" where
  "require_remote_api_key_for_reads cx st rq =
     (if resolve_api_mode st \<noteq> Remote_Mode then Inr rq
      else if rq_method rq \<notin> {''GET'', ''HEAD''} then Inr rq
      else if rq_path rq \<in> set PUBLIC_REMOTE_PATHS then Inr rq
      else (case resolve_api_credential cx st rq of
              Inl e \<Rightarrow> Inl e
            | Inr (Some c) \<Rightarrow> Inr (rq\<lparr>rq_credential := Some c\<rparr>)
            | Inr None \<Rightarrow> Inl (auth_required ''Valid API key required for remote API access.'')))"

text \<open>
  A guarded route: the middleware first, then the dependencies in the order the routes list them. A
  route that changes something lists the check of the key before that of the capability; a route
  that reads lists only the latter.
\<close>

definition guarded_route ::
  "codecs \<Rightarrow> settings \<Rightarrow> bool \<Rightarrow> string \<Rightarrow> api_request \<Rightarrow> exn + api_request" where
  "guarded_route cx st mutating capability rq =
     (case require_remote_api_key_for_reads cx st rq of
        Inl e \<Rightarrow> Inl e
      | Inr rq1 \<Rightarrow>
          (case (if mutating then require_api_key_for_mutations cx st rq1 else Inr rq1) of
             Inl e \<Rightarrow> Inl e
           | Inr rq2 \<Rightarrow> require_api_capability cx st capability rq2))"

definition validate_runtime_bind_settings :: "codecs \<Rightarrow> settings \<Rightarrow> exn + string" where
  "validate_runtime_bind_settings cx st =
     (case api_auth_is_configured cx st of
        Inl e \<Rightarrow> Inl e
      | Inr configured \<Rightarrow>
          if resolve_api_mode st = Local_Mode \<and> \<not> is_loopback_host (set_api_host st)
          then Inl (value_error (''DOCLING_SYSTEM_API_MODE=local requires ''
                 @ ''DOCLING_SYSTEM_API_HOST to remain loopback.''))
          else if set_api_mode st = None \<and> \<not> is_loopback_host (set_api_host st) \<and> \<not> configured
          then Inl (value_error (''DOCLING_SYSTEM_API_KEY or DOCLING_SYSTEM_API_CREDENTIALS_JSON ''
                 @ ''must be set when binding the API to a non-loopback host.''))
          else if resolve_api_mode st = Remote_Mode \<and> \<not> configured
          then Inl (value_error (''DOCLING_SYSTEM_API_MODE=remote requires ''
                 @ ''DOCLING_SYSTEM_API_KEY or DOCLING_SYSTEM_API_CREDENTIALS_JSON to be set.''))
          else Inr (set_api_host st))"

section \<open>The search rate limit\<close>

definition SEARCH_RATE_LIMIT :: nat where "SEARCH_RATE_LIMIT = 300"
definition SEARCH_RATE_WINDOW_SECONDS :: rat where "SEARCH_RATE_WINDOW_SECONDS = 60"

definition search_rate_limit_key :: "api_request \<Rightarrow> string" where
  "search_rate_limit_key rq =
     (case rq_credential rq of
        Some c \<Rightarrow> ''credential:'' @ cred_actor c
      | None \<Rightarrow> ''client:'' @ (case rq_client_host rq of None \<Rightarrow> ''unknown'' | Some h \<Rightarrow> h))"

text \<open>\<open>_search_request_times\<close> maps a key to the times of its admitted requests, oldest first.\<close>

type_synonym request_times = "string \<Rightarrow> rat list option"

definition enforce_search_rate_limit ::
  "string \<Rightarrow> rat \<Rightarrow> request_times \<Rightarrow> request_times \<times> (exn + unit)" where
  "enforce_search_rate_limit key now recent =
     (let window_start = now - SEARCH_RATE_WINDOW_SECONDS;
          request_times = dropWhile (\<lambda>t. t < window_start)
            (case recent key of None \<Rightarrow> [] | Some ts \<Rightarrow> ts) in
      if length request_times \<ge> SEARCH_RATE_LIMIT
      then (recent(key \<mapsto> request_times),
            Inl (Http_Error 429 ''rate_limited''
                   ''Search request rate limit exceeded. Try again shortly.''))
      else (recent(key \<mapsto> request_times @ [now]), Inr ()))"

text \<open>A sequence of requests, each a key and a time; the result collects those admitted.\<close>

definition serve_request ::
  "request_times \<times> (string \<times> rat) list \<Rightarrow> string \<times> rat \<Rightarrow> request_times \<times> (string \<times> rat) list" where
  "serve_request st r =
     (case enforce_search_rate_limit (fst r) (snd r) (fst st) of
        (recent, Inr _) \<Rightarrow> (recent, snd st @ [r])
      | (recent, Inl _) \<Rightarrow> (recent, snd st))"

definition serve_requests ::
  "(string \<times> rat) list \<Rightarrow> request_times \<times> (string \<times> rat) list" where
  "serve_requests rs = foldl serve_request (\<lambda>_. None, []) rs"

definition admitted_times :: "string \<Rightarrow> (string \<times> rat) list \<Rightarrow> rat list" where
  "admitted_times key rs = map snd (filter (\<lambda>r. fst r = key) rs)"

section \<open>Properties\<close>

lemma any_matches_true: "any_matches vs key = Inr True \<Longrightarrow> key \<in> set vs"
  by (induction vs) (auto simp: compare_digest_def split: sum.splits bool.splits if_splits)

lemma find_credential_sound:
  "find_credential vs cs = Inr (Some c) \<Longrightarrow> c \<in> set cs \<and> cred_key c \<in> set vs"
  by (induction cs) (auto split: sum.splits bool.splits dest: any_matches_true)

lemma resolve_api_credential_sound:
  "resolve_api_credential cx st rq = Inr (Some c) \<Longrightarrow>
   \<exists>cs. resolve_api_credentials cx st = Inr cs \<and> c \<in> set cs \<and> cred_key c \<in> set (provided_values rq)"
  by (auto simp: resolve_api_credential_def split: sum.splits dest: find_credential_sound)

text \<open>What a key resolves to does not depend on the credential in the state of the request.\<close>

lemma resolve_credential_state [simp]:
  "resolve_api_credential cx st (rq\<lparr>rq_credential := c\<rparr>) = resolve_api_credential cx st rq"
  by (simp add: resolve_api_credential_def provided_values_def cong: sum.case_cong)

text \<open>
  C38: in remote mode the guards of a route together, the middleware, the key check of mutating routes
  and the capability check, decide alone by the credential the presented keys resolve to, whatever
  the method and the path: no credential is 401, one without the capability (or the wildcard) is
  403, and one with it is admitted and recorded. So every admitted request has presented the key of
  a configured credential that holds the capability.
\<close>

theorem capability_check_sound:
  assumes "resolve_api_mode st = Remote_Mode" and "rq_credential rq = None"
  shows "(case resolve_api_credential cx st rq of
      Inl e \<Rightarrow> guarded_route cx st mutating capability rq = Inl e
    | Inr None \<Rightarrow> \<exists>message. guarded_route cx st mutating capability rq = Inl (Http_Error 401 ''auth_required'' message)
    | Inr (Some c) \<Rightarrow>
        if ''*'' \<in> cred_capabilities c \<or> capability \<in> cred_capabilities c
        then guarded_route cx st mutating capability rq = Inr (rq\<lparr>rq_credential := Some c\<rparr>)
        else \<exists>message. guarded_route cx st mutating capability rq
          = Inl (Http_Error 403 ''capability_not_allowed'' message))
    \<and> (\<forall>rq'. guarded_route cx st mutating capability rq = Inr rq' \<longrightarrow>
        (\<exists>cs c. resolve_api_credentials cx st = Inr cs \<and> c \<in> set cs
          \<and> (rq_x_api_key rq = Some (cred_key c) \<or>
             bearer_token_from_header (rq_authorization rq) = Some (cred_key c))
          \<and> rq_credential rq' = Some c \<and> (''*'' \<in> cred_capabilities c \<or> capability \<in> cred_capabilities c)))"
    (is "?decided \<and> ?sound")
proof (rule conjI)
  show dec: ?decided
    using assms
    by (auto simp: guarded_route_def require_remote_api_key_for_reads_def require_api_key_for_mutations_def
        require_api_capability_def auth_required_def API_CAPABILITY_WILDCARD_def Let_def
        split: sum.split option.split)
  show ?sound
  proof (intro allI impI)
    fix rq' assume "guarded_route cx st mutating capability rq = Inr rq'"
    with dec obtain c where c: "resolve_api_credential cx st rq = Inr (Some c)" "rq' = rq\<lparr>rq_credential := Some c\<rparr>"
      "''*'' \<in> cred_capabilities c \<or> capability \<in> cred_capabilities c"
      by (auto split: sum.splits option.splits if_splits)
    obtain cs where cs: "resolve_api_credentials cx st = Inr cs" "c \<in> set cs" "cred_key c \<in> set (provided_values rq)"
      using resolve_api_credential_sound [OF c(1)] by blast
    then have "rq_x_api_key rq = Some (cred_key c) \<or> bearer_token_from_header (rq_authorization rq) = Some (cred_key c)"
      unfolding provided_values_def set_filter mem_Collect_eq set_some_values by auto
    with cs c show "\<exists>cs c. resolve_api_credentials cx st = Inr cs \<and> c \<in> set cs
        \<and> (rq_x_api_key rq = Some (cred_key c) \<or>
           bearer_token_from_header (rq_authorization rq) = Some (cred_key c))
        \<and> rq_credential rq' = Some c \<and> (''*'' \<in> cred_capabilities c \<or> capability \<in> cred_capabilities c)"
      by (intro exI [of _ cs] exI [of _ c]) simp
  qed
qed

text \<open>A remote deployment with one legacy key, and a request that presents it.\<close>

definition example_request :: api_request where
  "example_request = \<lparr>rq_method = ''POST'', rq_path = ''/search'', rq_x_api_key = Some ''s3cret'',
     rq_authorization = None, rq_client_host = None, rq_credential = None\<rparr>"

definition example_remote :: settings where
  "example_remote = default_settings\<lparr>set_api_mode := Some Remote_Mode, set_api_host := ''0.0.0.0'',
     set_api_key := Some ''s3cret''\<rparr>"

lemma example_capability:
  "resolve_api_credential example_codecs example_remote example_request =
     Inr (Some \<lparr>cred_actor = ''legacy_api_key'', cred_key = ''s3cret'',
       cred_capabilities = set DEFAULT_REMOTE_API_CAPABILITIES\<rparr>)"
  by (simp add: example_remote_def example_request_def resolve_api_credential_def
      resolve_api_credentials_def default_settings_def provided_values_def bearer_token_from_header_def
      compare_digest_def is_ascii_def resolve_remote_api_capabilities_def)

theorem capability_check_sound_witness:
  "guarded_route example_codecs example_remote True ''search:query'' example_request =
     Inr (example_request\<lparr>rq_credential := Some \<lparr>cred_actor = ''legacy_api_key'',
       cred_key = ''s3cret'', cred_capabilities = set DEFAULT_REMOTE_API_CAPABILITIES\<rparr>\<rparr>)
   \<and> (\<exists>message. guarded_route example_codecs example_remote False ''system:read'' example_request =
       Inl (Http_Error 403 ''capability_not_allowed'' message))"
proof -
  have r: "resolve_api_mode example_remote = Remote_Mode" "rq_credential example_request = None"
    by (simp_all add: resolve_api_mode_def example_remote_def example_request_def)
  show ?thesis
    using capability_check_sound [OF r, of example_codecs True "''search:query''"]
      capability_check_sound [OF r, of example_codecs False "''system:read''"]
    by (simp add: example_capability DEFAULT_REMOTE_API_CAPABILITIES_def)
qed

text \<open>
  The server binds to a host that is not loopback only when credentials are configured, and
  only in remote mode.
\<close>

theorem bind_requires_credentials:
  assumes "validate_runtime_bind_settings cx st = Inr host" and "\<not> is_loopback_host host"
  shows "host = set_api_host st \<and> resolve_api_mode st = Remote_Mode
    \<and> (\<exists>c cs. resolve_api_credentials cx st = Inr (c # cs))"
proof -
  obtain configured where conf: "api_auth_is_configured cx st = Inr configured"
    using assms(1) by (auto simp: validate_runtime_bind_settings_def split: sum.splits)
  have host: "host = set_api_host st"
    using assms(1) conf by (auto simp: validate_runtime_bind_settings_def split: if_splits)
  have mode: "resolve_api_mode st = Remote_Mode"
    using assms conf host
    by (cases "resolve_api_mode st") (auto simp: validate_runtime_bind_settings_def split: if_splits)
  then have configured
    using assms(1) conf by (auto simp: validate_runtime_bind_settings_def split: if_splits)
  with host mode conf show ?thesis
    by (auto simp: api_auth_is_configured_def neq_Nil_conv split: sum.splits)
qed

theorem bind_requires_credentials_witness:
  "resolve_api_mode example_remote = Remote_Mode \<and>
   (\<exists>c cs. resolve_api_credentials example_codecs example_remote = Inr (c # cs))"
proof -
  have "validate_runtime_bind_settings example_codecs example_remote = Inr ''0.0.0.0''"
    by (simp add: validate_runtime_bind_settings_def api_auth_is_configured_def
        resolve_api_credentials_def example_remote_def default_settings_def resolve_api_mode_def)
  moreover have "\<not> is_loopback_host ''0.0.0.0''"
    by (simp add: is_loopback_host_def str_strip_def is_space_def str_lower_def char_lower_def)
  ultimately show ?thesis using bind_requires_credentials by blast
qed

text \<open>Admitted requests further than the limit apart in the list are further than a window in time.\<close>

definition rate_bounded :: "rat list \<Rightarrow> bool" where
  "rate_bounded h \<longleftrightarrow>
     (\<forall>i. i + SEARCH_RATE_LIMIT < length h \<longrightarrow> h ! i + SEARCH_RATE_WINDOW_SECONDS < h ! (i + SEARCH_RATE_LIMIT))"

definition remembered :: "string \<Rightarrow> request_times \<Rightarrow> rat list" where
  "remembered key m = (case m key of None \<Rightarrow> [] | Some ts \<Rightarrow> ts)"

lemma rate_bounded_snoc:
  assumes "rate_bounded (pre @ ts)" and "length ts < SEARCH_RATE_LIMIT"
    and "\<forall>t \<in> set pre. t < now - SEARCH_RATE_WINDOW_SECONDS"
  shows "rate_bounded (pre @ ts @ [now])"
  unfolding rate_bounded_def
proof (intro allI impI)
  fix i
  assume i: "i + SEARCH_RATE_LIMIT < length (pre @ ts @ [now])"
  let ?h = "pre @ ts"
  show "(pre @ ts @ [now]) ! i + SEARCH_RATE_WINDOW_SECONDS < (pre @ ts @ [now]) ! (i + SEARCH_RATE_LIMIT)"
  proof (cases "i + SEARCH_RATE_LIMIT < length ?h")
    case True
    then have "(?h @ [now]) ! i = ?h ! i" "(?h @ [now]) ! (i + SEARCH_RATE_LIMIT) = ?h ! (i + SEARCH_RATE_LIMIT)"
      by (simp_all only: nth_append if_True) simp
    then show ?thesis using assms(1) True unfolding rate_bounded_def by (metis append_assoc)
  next
    case False
    then have eq: "i + SEARCH_RATE_LIMIT = length ?h" using i by simp
    then have "i < length pre" using assms(2) by simp
    then have "(pre @ ts @ [now]) ! i = pre ! i" by (simp add: nth_append)
    moreover have "(pre @ ts @ [now]) ! (i + SEARCH_RATE_LIMIT) = now"
      unfolding eq by (metis append_assoc nth_append_length)
    moreover have "pre ! i < now - SEARCH_RATE_WINDOW_SECONDS"
      using assms(3) \<open>i < length pre\<close> by simp
    ultimately show ?thesis by simp
  qed
qed

lemma serve_requests_invariant:
  assumes "sorted (map snd rs)" and "\<forall>r \<in> set rs. snd r \<le> T"
  shows "\<exists>pre. admitted_times key (snd (serve_requests rs)) = pre @ remembered key (fst (serve_requests rs))
    \<and> (\<forall>t \<in> set pre. t < T - SEARCH_RATE_WINDOW_SECONDS)
    \<and> rate_bounded (admitted_times key (snd (serve_requests rs)))"
  using assms
proof (induction rs arbitrary: T key rule: rev_induct)
  case Nil
  then show ?case
    by (simp add: serve_requests_def admitted_times_def remembered_def rate_bounded_def)
next
  case (snoc r rs)
  obtain k now where r: "r = (k, now)" by fastforce
  have srt: "sorted (map snd rs)" "\<forall>q \<in> set rs. snd q \<le> now" "now \<le> T"
    using snoc.prems by (auto simp: sorted_append r)
  from snoc.IH [OF srt(1,2), of key] obtain pre where pre:
    "admitted_times key (snd (serve_requests rs)) = pre @ remembered key (fst (serve_requests rs))"
    "\<forall>t \<in> set pre. t < now - SEARCH_RATE_WINDOW_SECONDS"
    "rate_bounded (admitted_times key (snd (serve_requests rs)))" by blast
  obtain m acc where st: "serve_requests rs = (m, acc)" by fastforce
  let ?old = "\<lambda>t. t < now - SEARCH_RATE_WINDOW_SECONDS"
  let ?ts = "dropWhile ?old (remembered k m)"
  have step: "serve_requests (rs @ [r]) = serve_request (m, acc) (k, now)"
    using st by (simp add: serve_requests_def r)
  show ?case
  proof (cases "key = k")
    case False
    then have "admitted_times key (snd (serve_requests (rs @ [r]))) = admitted_times key acc"
      "remembered key (fst (serve_requests (rs @ [r]))) = remembered key m"
      unfolding step by (simp_all add: serve_request_def enforce_search_rate_limit_def Let_def
          admitted_times_def remembered_def)
    then show ?thesis using pre srt(3) st by (intro exI [of _ pre]) auto
  next
    case True
    define pre' where "pre' = pre @ takeWhile ?old (remembered k m)"
    have old: "\<forall>t \<in> set pre'. t < now - SEARCH_RATE_WINDOW_SECONDS"
      using pre(2) by (auto simp: pre'_def dest: set_takeWhileD)
    have hist: "admitted_times k acc = pre' @ ?ts"
      using pre(1) True st by (simp add: pre'_def)
    have rb: "rate_bounded (pre' @ ?ts)" using pre(3) hist True st by simp
    have res: "admitted_times k (snd (serve_requests (rs @ [r]))) =
        pre' @ remembered k (fst (serve_requests (rs @ [r]))) \<and>
        rate_bounded (admitted_times k (snd (serve_requests (rs @ [r]))))"
    proof (cases "length ?ts \<ge> SEARCH_RATE_LIMIT")
      case full: True
      then have "serve_requests (rs @ [r]) = (m(k \<mapsto> ?ts), acc)"
        unfolding step by (simp add: serve_request_def enforce_search_rate_limit_def Let_def
            flip: remembered_def)
      then show ?thesis using hist rb by (simp add: remembered_def)
    next
      case room: False
      then have "serve_requests (rs @ [r]) = (m(k \<mapsto> ?ts @ [now]), acc @ [(k, now)])"
        unfolding step by (simp add: serve_request_def enforce_search_rate_limit_def Let_def
            flip: remembered_def)
      then show ?thesis
        using hist rate_bounded_snoc [OF rb _ old] room by (simp add: remembered_def admitted_times_def)
    qed
    moreover have "\<forall>t \<in> set pre'. t < T - SEARCH_RATE_WINDOW_SECONDS"
      using old srt(3) by force
    ultimately show ?thesis using True by blast
  qed
qed

text \<open>
  As long as the clock does not run backwards, any two admitted requests of a client that are
  300 requests apart are more than 60 seconds apart: no client ever gets more than 300 searches
  in a window of 60 seconds.
\<close>

theorem search_rate_limit_bound:
  assumes "sorted (map snd rs)"
  shows "rate_bounded (admitted_times key (snd (serve_requests rs)))"
proof -
  have "\<forall>r \<in> set rs. snd r \<le> Max (insert 0 (snd ` set rs))" by simp
  from serve_requests_invariant [OF assms this, of key] show ?thesis by blast
qed

theorem search_rate_limit_bound_witness:
  "rate_bounded (admitted_times ''client:a''
     (snd (serve_requests [(''client:a'', 1), (''client:b'', 2), (''client:a'', 3)])))"
  by (rule search_rate_limit_bound) simp

text \<open>
  A header that is not ASCII makes the comparison raise \<open>TypeError\<close> as soon as one credential
  is configured, so the request fails with an internal error instead of being refused with 401.
\<close>

theorem non_ascii_key_crashes:
  assumes "rq_x_api_key rq = Some v" and "v \<noteq> []" and "\<not> is_ascii v"
    and "resolve_api_credentials cx st = Inr (c # cs)" and "resolve_api_mode st = Remote_Mode"
  shows "\<exists>m. require_api_key_for_mutations cx st rq = Inl (Py_Error ''TypeError'' False m)"
proof -
  have "\<exists>vs. provided_values rq = v # vs"
    using assms(1,2) by (cases "bearer_token_from_header (rq_authorization rq)")
      (simp_all add: provided_values_def)
  then show ?thesis
    using assms(3-5) by (auto simp: require_api_key_for_mutations_def resolve_api_credential_def
        compare_digest_def Let_def)
qed

theorem non_ascii_key_crashes_witness:
  "\<exists>m. require_api_key_for_mutations example_codecs example_remote
      (example_request\<lparr>rq_x_api_key := Some [CHR 0xE9]\<rparr>) = Inl (Py_Error ''TypeError'' False m)"
  by (rule non_ascii_key_crashes [where v = "[CHR 0xE9]"])
    (simp_all add: is_ascii_def resolve_api_credentials_def resolve_api_mode_def example_remote_def
      default_settings_def)

end
