(* ===== verification/Run_Queue.thy ===== *)
theory Run_Queue
  imports Run_Leases Idempotency Api_Access
begin

text \<open>
  \<open>app/services/document_run_queue.py\<close>: how documents get runs. A new document is inserted with
  its first run; a document that exists already is answered as a duplicate, joined to the run in
  flight, or given a recovery run; a document can be reprocessed. Responses are stored under the
  idempotency key of the request, and remote ingest is refused when too many runs are in flight.

  A request handler returns the state together with its result, so that what an exception leaves
  behind is part of the model.
\<close>

section \<open>Responses\<close>

record upload_response =
  up_document_id :: uuid
  up_run_id :: "uuid option"
  up_status :: string
  up_duplicate :: bool
  up_recovery_run :: bool
  up_active_run_id :: "uuid option"
  up_active_run_status :: "string option"

fun json_opt_uuid :: "uuid option \<Rightarrow> json" where
  "json_opt_uuid None = JNull"
| "json_opt_uuid (Some i) = JStr (show_nat i)"

text \<open>\<open>model_dump(mode="json")\<close> and \<open>model_validate\<close>.\<close>

definition upload_response_json :: "upload_response \<Rightarrow> dict" where
  "upload_response_json r = [
     (''document_id'', JStr (show_nat (up_document_id r))),
     (''run_id'', json_opt_uuid (up_run_id r)),
     (''status'', JStr (up_status r)),
     (''duplicate'', JBool (up_duplicate r)),
     (''recovery_run'', JBool (up_recovery_run r)),
     (''active_run_id'', json_opt_uuid (up_active_run_id r)),
     (''active_run_status'',
        case up_active_run_status r of None \<Rightarrow> JNull | Some s \<Rightarrow> JStr s)]"

definition parse_uuid :: "string \<Rightarrow> uuid option" where
  "parse_uuid s = (let n = foldl (\<lambda>n c. 10 * n + read_digit c) 0 s in
     if show_nat n = s then Some n else None)"

definition field_uuid :: "dict \<Rightarrow> string \<Rightarrow> uuid option option" where
  "field_uuid d k =
     (case dict_get d k of
        None \<Rightarrow> Some None
      | Some JNull \<Rightarrow> Some None
      | Some (JStr s) \<Rightarrow> map_option Some (parse_uuid s)
      | Some _ \<Rightarrow> None)"

definition field_bool :: "dict \<Rightarrow> string \<Rightarrow> bool option \<Rightarrow> bool option" where
  "field_bool d k fallback =
     (case dict_get d k of None \<Rightarrow> fallback | Some (JBool b) \<Rightarrow> Some b | Some _ \<Rightarrow> None)"

definition field_str :: "dict \<Rightarrow> string \<Rightarrow> string option option" where
  "field_str d k =
     (case dict_get d k of
        None \<Rightarrow> Some None
      | Some JNull \<Rightarrow> Some None
      | Some (JStr s) \<Rightarrow> Some (Some s)
      | Some _ \<Rightarrow> None)"

definition validation_error :: exn where
  "validation_error = Py_Error ''ValidationError'' True ''validation error for DocumentUploadResponse''"

definition upload_response_validate :: "dict \<Rightarrow> exn + upload_response" where
  "upload_response_validate d =
     (case (field_uuid d ''document_id'', field_uuid d ''run_id'', field_str d ''status'',
            field_bool d ''duplicate'' None, field_bool d ''recovery_run'' (Some False),
            field_uuid d ''active_run_id'', field_str d ''active_run_status'') of
        (Some (Some i), Some r, Some (Some s), Some dup, Some rec, Some a, Some ast) \<Rightarrow>
          Inr \<lparr>up_document_id = i, up_run_id = r, up_status = s, up_duplicate = dup,
               up_recovery_run = rec, up_active_run_id = a, up_active_run_status = ast\<rparr>
      | _ \<Rightarrow> Inl validation_error)"

lemma parse_show_uuid [simp]: "parse_uuid (show_nat i) = Some i"
  by (simp add: parse_uuid_def read_show_nat Let_def)

text \<open>A stored response reads back as it was.\<close>

lemma upload_response_roundtrip [simp]:
  "upload_response_validate (upload_response_json r) = Inr r"
proof -
  have u: "field_uuid (upload_response_json r) ''run_id'' = Some (up_run_id r)"
    "field_uuid (upload_response_json r) ''active_run_id'' = Some (up_active_run_id r)"
    by (cases "up_run_id r"; simp add: field_uuid_def upload_response_json_def)
      (cases "up_active_run_id r"; simp add: field_uuid_def upload_response_json_def)
  have s: "field_str (upload_response_json r) ''active_run_status'' = Some (up_active_run_status r)"
    by (cases "up_active_run_status r") (simp_all add: field_str_def upload_response_json_def)
  have m: "field_uuid (upload_response_json r) ''document_id'' = Some (Some (up_document_id r))"
    "field_str (upload_response_json r) ''status'' = Some (Some (up_status r))"
    "field_bool (upload_response_json r) ''duplicate'' None = Some (up_duplicate r)"
    "field_bool (upload_response_json r) ''recovery_run'' (Some False) = Some (up_recovery_run r)"
    by (simp_all add: field_uuid_def field_str_def field_bool_def upload_response_json_def)
  show ?thesis by (simp add: upload_response_validate_def u s m)
qed

section \<open>Runs of a document\<close>

definition CREATE_DOCUMENT_SCOPE :: string where
  "CREATE_DOCUMENT_SCOPE = ''documents.create''"

definition REPROCESS_DOCUMENT_SCOPE :: string where
  "REPROCESS_DOCUMENT_SCOPE = ''documents.reprocess''"

definition INFLIGHT_RUN_STATUSES :: "run_status list" where
  "INFLIGHT_RUN_STATUSES = [Queued, Processing, Validating, Retry_Wait]"

definition inflight :: "document_run \<Rightarrow> bool" where
  "inflight r = (run_status r \<in> set INFLIGHT_RUN_STATUSES)"

definition get_run_record :: "uuid option \<Rightarrow> db \<Rightarrow> document_run option" where
  "get_run_record i d = (case i of None \<Rightarrow> None | Some r \<Rightarrow> get_run r d)"

definition next_run_number :: "uuid \<Rightarrow> db \<Rightarrow> int" where
  "next_run_number document d =
     (case map run_number (filter (\<lambda>r. run_document_id r = document) (db_runs d)) of
        [] \<Rightarrow> 1
      | n # ns \<Rightarrow> list_max n (n # ns) + 1)"

text \<open>\<open>DocumentRun(...)\<close> with the column defaults.\<close>

definition new_run :: "uuid \<Rightarrow> uuid \<Rightarrow> int \<Rightarrow> time \<Rightarrow> document_run" where
  "new_run i document number now = \<lparr>
     run_id = i, run_document_id = document, run_number = number, run_status = Queued,
     run_attempts = 0, run_locked_at = None, run_locked_by = None,
     run_last_heartbeat_at = None, run_next_attempt_at = Some now, run_error_message = None,
     run_failure_stage = None, run_failure_artifact_path = None, run_docling_json_path = None,
     run_yaml_path = None, run_chunk_count = None, run_table_count = None,
     run_figure_count = None, run_embedding_model = None, run_embedding_dim = None,
     run_validation_status = Some ''pending'', run_validation_results = [],
     run_created_at = now, run_started_at = None, run_completed_at = None\<rparr>"

definition add_run :: "document_run \<Rightarrow> db \<Rightarrow> db" where
  "add_run r d = d\<lparr>db_runs := db_runs d @ [r]\<rparr>"

definition add_document :: "document \<Rightarrow> db \<Rightarrow> db" where
  "add_document x d = d\<lparr>db_documents := db_documents d @ [x]\<rparr>"

definition point_latest :: "uuid \<Rightarrow> time \<Rightarrow> document \<Rightarrow> document" where
  "point_latest r now x = x\<lparr>doc_latest_run_id := Some r, doc_updated_at := now\<rparr>"

definition create_run_for_locked_document :: "uuid \<Rightarrow> world \<Rightarrow> world \<times> uuid" where
  "create_run_for_locked_document document w =
     (let now = w_clock w;
          (i, w1) = take_id w;
          run = new_run i document (next_run_number document (w_db w)) now in
      (on_db (upd_document document (point_latest i now) \<circ> add_run run) w1, i))"

definition document_not_found :: exn where
  "document_not_found = Http_Error 404 ''document_not_found'' ''Document not found.''"

definition create_run_for_existing_document :: "uuid \<Rightarrow> world \<Rightarrow> world \<times> (exn + uuid)" where
  "create_run_for_existing_document document w =
     (case get_document document (w_db w) of
        None \<Rightarrow> (w, Inl document_not_found)
      | Some _ \<Rightarrow> (case create_run_for_locked_document document w of (w1, i) \<Rightarrow> (w1, Inr i)))"

definition document_run_inflight_count :: "db \<Rightarrow> nat" where
  "document_run_inflight_count d = count_rows inflight (db_runs d)"

definition rate_limited :: exn where
  "rate_limited = Http_Error 429 ''rate_limited''
     ''Remote ingest is at capacity. Try again after existing runs finish.''"

definition enforce_remote_document_run_backpressure :: "settings \<Rightarrow> db \<Rightarrow> exn + unit" where
  "enforce_remote_document_run_backpressure st d =
     (if resolve_api_mode st \<noteq> Remote_Mode then Inr ()
      else
        (case set_remote_ingest_max_inflight_runs st of
           None \<Rightarrow> Inr ()
         | Some limit \<Rightarrow>
             if limit \<le> 0 then Inr ()
             else if int (document_run_inflight_count d) < limit then Inr ()
             else Inl rate_limited))"

section \<open>Documents that exist already\<close>

definition build_duplicate_response :: "document \<Rightarrow> db \<Rightarrow> upload_response" where
  "build_duplicate_response document d =
     (let active = get_run_record (doc_active_run_id document) d;
          latest = get_run_record (doc_latest_run_id document) d;
          active_status = map_option (\<lambda>r. run_status_value (run_status r)) active;
          latest_status = (case latest of
             None \<Rightarrow> run_status_value Failed | Some r \<Rightarrow> run_status_value (run_status r)) in
      \<lparr>up_document_id = doc_id document, up_run_id = None,
       up_status = (case active_status of Some s \<Rightarrow> s | None \<Rightarrow> latest_status),
       up_duplicate = True, up_recovery_run = False,
       up_active_run_id = doc_active_run_id document, up_active_run_status = active_status\<rparr>)"

definition recovery_response :: "uuid \<Rightarrow> uuid \<Rightarrow> string \<Rightarrow> upload_response" where
  "recovery_response document run status =
     \<lparr>up_document_id = document, up_run_id = Some run, up_status = status, up_duplicate = True,
      up_recovery_run = True, up_active_run_id = None, up_active_run_status = None\<rparr>"

definition resolve_existing_document_upload ::
  "uuid \<Rightarrow> world \<Rightarrow> world \<times> (exn + upload_response \<times> nat)" where
  "resolve_existing_document_upload existing w =
     (case get_document existing (w_db w) of
        None \<Rightarrow> (w, Inl document_not_found)
      | Some document \<Rightarrow>
          if get_run_record (doc_active_run_id document) (w_db w) \<noteq> None
          then (w, Inr (build_duplicate_response document (w_db w), 200))
          else
            (case get_run_record (doc_latest_run_id document) (w_db w) of
               Some latest \<Rightarrow>
                 if inflight latest
                 then (w, Inr (recovery_response (doc_id document) (run_id latest)
                                 (run_status_value (run_status latest)), 202))
                 else
                   (case create_run_for_locked_document (doc_id document) w of
                      (w1, i) \<Rightarrow> (commit w1, Inr (recovery_response (doc_id document) i
                                                   (run_status_value Queued), 202)))
             | None \<Rightarrow>
                 (case create_run_for_locked_document (doc_id document) w of
                    (w1, i) \<Rightarrow> (commit w1, Inr (recovery_response (doc_id document) i
                                                 (run_status_value Queued), 202)))))"

section \<open>Idempotent responses\<close>

definition replay_document_upload_response ::
  "string \<Rightarrow> string option \<Rightarrow> string \<Rightarrow> world \<Rightarrow> exn + (upload_response \<times> nat) option" where
  "replay_document_upload_response scope key fp w =
     (case get_idempotent_response scope key fp (w_db w) of
        Inl e \<Rightarrow> Inl e
      | Inr None \<Rightarrow> Inr None
      | Inr (Some (payload, status)) \<Rightarrow>
          (case upload_response_validate payload of
             Inl e \<Rightarrow> Inl e
           | Inr r \<Rightarrow> Inr (Some (r, status))))"

text \<open>
  A request is not alone: between two of its statements other transactions may commit, and it sees
  their rows from then on. \<open>rv_digest\<close> is what they commit between the caller's look-up of a digest
  and the insert of the document, \<open>rv_response\<close> between the caller's look-up of the key and the one
  of \<open>store_idempotent_response\<close>, and \<open>rv_insert\<close> between the latter and the insert of the response.
\<close>

record rivals =
  rv_digest :: "db \<Rightarrow> db"
  rv_response :: "db \<Rightarrow> db"
  rv_insert :: "db \<Rightarrow> db"

definition no_rivals :: rivals where
  "no_rivals = \<lparr>rv_digest = id, rv_response = id, rv_insert = id\<rparr>"

lemma no_rivals_simps [simp]:
  "rv_digest no_rivals = id" "rv_response no_rivals = id" "rv_insert no_rivals = id"
  by (simp_all add: no_rivals_def)

definition others_commit :: "(db \<Rightarrow> db) \<Rightarrow> world \<Rightarrow> world" where
  "others_commit race w = w\<lparr>w_db := race (w_db w), w_saved := race (w_saved w)\<rparr>"

lemma others_commit_simps [simp]:
  "w_db (others_commit race w) = race (w_db w)" "w_saved (others_commit race w) = race (w_saved w)"
  "w_files (others_commit race w) = w_files w" "w_clock (others_commit race w) = w_clock w"
  "w_fresh (others_commit race w) = w_fresh w" "others_commit id w = w"
  by (simp_all add: others_commit_def)

text \<open>\<open>store_idempotent_response\<close> may raise; the state is returned then, too.\<close>

definition store_document_upload_response ::
  "rivals \<Rightarrow> string \<Rightarrow> string option \<Rightarrow> string \<Rightarrow> upload_response \<Rightarrow> nat \<Rightarrow> world \<Rightarrow> world \<times> (exn + unit)" where
  "store_document_upload_response race scope key fp response status w =
     (let (i, w1) = take_id (others_commit (rv_response race) w);
          w2 = (if str_truthy key \<and> load_idempotency_row scope (the key) (w_db w1) = None
                then others_commit (rv_insert race) w1 else w1) in
      case store_idempotent_response (rv_insert race) i (w_clock w) scope key fp
             (upload_response_json response) status (w_db w1) of
        Inl e \<Rightarrow> (w2, Inl e)
      | Inr d \<Rightarrow> (w2\<lparr>w_db := d\<rparr>, Inr ()))"

text \<open>Alone, a request stores its response or meets the conflict that was there already.\<close>

lemma store_alone:
  "store_document_upload_response no_rivals scope key fp response status w =
    (let w' = w\<lparr>w_fresh := w_fresh w + 1\<rparr> in
     case store_idempotent_response id (w_fresh w) (w_clock w) scope key fp
            (upload_response_json response) status (w_db w) of
       Inl e \<Rightarrow> (w', Inl e)
     | Inr d \<Rightarrow> (w'\<lparr>w_db := d\<rparr>, Inr ()))"
  by (simp add: store_document_upload_response_def take_id_def Let_def cong: sum.case_cong)

section \<open>New documents and reprocessing\<close>

definition new_document :: "uuid \<Rightarrow> string \<Rightarrow> string \<Rightarrow> string \<Rightarrow> time \<Rightarrow> document" where
  "new_document i filename sha mime now = \<lparr>
     doc_id = i, doc_source_filename = path_name filename, doc_source_path = [],
     doc_sha256 = sha, doc_mime_type = mime, doc_title = None, doc_page_count = None,
     doc_active_run_id = None, doc_latest_run_id = None, doc_created_at = now,
     doc_updated_at = now\<rparr>"

definition document_with_sha :: "string \<Rightarrow> db \<Rightarrow> document option" where
  "document_with_sha sha d = find (\<lambda>x. doc_sha256 x = sha) (db_documents d)"

definition move_file :: "path \<Rightarrow> path \<Rightarrow> world \<Rightarrow> world" where
  "move_file src dst w = w\<lparr>w_files := (w_files w)(src := None, dst := w_files w src)\<rparr>"

lemma move_file_simps [simp]:
  "w_db (move_file s t w) = w_db w" "w_saved (move_file s t w) = w_saved w"
  "w_clock (move_file s t w) = w_clock w" "w_fresh (move_file s t w) = w_fresh w"
  by (simp_all add: move_file_def)

text \<open>
  \<open>_queue_document_run\<close>. When another transaction has committed a document with the digest since
  the caller looked, the insert violates the unique constraint on it.
\<close>

definition queue_document_run ::
  "rivals \<Rightarrow> path \<Rightarrow> path \<Rightarrow> string \<Rightarrow> string \<Rightarrow> string \<Rightarrow> string option \<Rightarrow> string \<Rightarrow>
   string option \<Rightarrow> world \<Rightarrow> world \<times> (exn + upload_response \<times> nat)" where
  "queue_document_run race base staged sha filename mime key scope fp w =
     (let now = w_clock w;
          w0 = others_commit (rv_digest race) w in
      case document_with_sha sha (w_db w0) of
        Some existing \<Rightarrow>
          resolve_existing_document_upload (doc_id existing) (delete_file_if_exists staged w0)
      | None \<Rightarrow>
          (let (i, w1) = take_id w0;
               w2 = on_db (add_document (new_document i filename sha mime now)) w1;
               source = source_file_path base i;
               w3 = move_file staged source w2;
               (r, w4) = take_id w3;
               w5 = on_db (upd_document i (point_latest r now)
                      \<circ> add_run (new_run r i 1 now)
                      \<circ> upd_document i (\<lambda>x. x\<lparr>doc_source_path := source\<rparr>)) w4;
               response = \<lparr>up_document_id = i, up_run_id = Some r,
                 up_status = run_status_value Queued, up_duplicate = False,
                 up_recovery_run = False, up_active_run_id = None,
                 up_active_run_status = None\<rparr> in
           case (case fp of
                   None \<Rightarrow> (w5, Inr ())
                 | Some f \<Rightarrow> store_document_upload_response race scope key f response 202 w5) of
             (w6, Inl e) \<Rightarrow> (delete_file_if_exists source w6, Inl e)
           | (w6, Inr _) \<Rightarrow> (commit w6, Inr (response, 202))))"

definition inflight_run_exists :: exn where
  "inflight_run_exists = Http_Error 409 ''inflight_run_exists''
     ''Document already has an in-flight processing run.''"

definition reprocess_document ::
  "rivals \<Rightarrow> settings \<Rightarrow> uuid \<Rightarrow> string option \<Rightarrow> world \<Rightarrow> world \<times> (exn + upload_response)" where
  "reprocess_document race st document key w =
     (let fp = ''document:'' @ show_nat document in
      case replay_document_upload_response REPROCESS_DOCUMENT_SCOPE key fp w of
        Inl e \<Rightarrow> (w, Inl e)
      | Inr (Some (response, _)) \<Rightarrow> (w, Inr response)
      | Inr None \<Rightarrow>
          (case get_document document (w_db w) of
             None \<Rightarrow> (w, Inl document_not_found)
           | Some x \<Rightarrow>
               if (case get_run_record (doc_latest_run_id x) (w_db w) of
                     None \<Rightarrow> False | Some latest \<Rightarrow> inflight latest)
               then (w, Inl inflight_run_exists)
               else
                 (case enforce_remote_document_run_backpressure st (w_db w) of
                    Inl e \<Rightarrow> (w, Inl e)
                  | Inr _ \<Rightarrow>
                      (let (w1, i) = create_run_for_locked_document document w;
                           response = \<lparr>up_document_id = document, up_run_id = Some i,
                             up_status = run_status_value Queued, up_duplicate = False,
                             up_recovery_run = False, up_active_run_id = None,
                             up_active_run_status = None\<rparr> in
                       case store_document_upload_response race REPROCESS_DOCUMENT_SCOPE key fp
                              response 202 w1 of
                         (w2, Inl e) \<Rightarrow> (w2, Inl e)
                       | (w2, Inr _) \<Rightarrow> (commit w2, Inr response)))))"

section \<open>What clients can rely on\<close>

definition queued_response :: "uuid \<Rightarrow> uuid \<Rightarrow> upload_response" where
  "queued_response document run =
     \<lparr>up_document_id = document, up_run_id = Some run, up_status = ''queued'', up_duplicate = False,
      up_recovery_run = False, up_active_run_id = None, up_active_run_status = None\<rparr>"

text \<open>The end of \<open>queue_document_run\<close> for a new document, from the rows in place on.\<close>

definition finish_queueing ::
  "rivals \<Rightarrow> string option \<Rightarrow> string \<Rightarrow> string option \<Rightarrow> path \<Rightarrow> upload_response \<Rightarrow> world \<Rightarrow>
   world \<times> (exn + upload_response \<times> nat)" where
  "finish_queueing race key scope fp source response w5 =
     (case (case fp of
              None \<Rightarrow> (w5, Inr ())
            | Some f \<Rightarrow> store_document_upload_response race scope key f response 202 w5) of
        (w6, Inl e) \<Rightarrow> (delete_file_if_exists source w6, Inl e)
      | (w6, Inr _) \<Rightarrow> (commit w6, Inr (response, 202)))"

lemma queue_document_run_new:
  assumes "document_with_sha sha (w_db w) = None" and "w_saved w = w_db w"
    and "\<forall>x \<in> set (db_documents (w_db w)). doc_id x < w_fresh w"
  shows "\<exists>w5 x. queue_document_run no_rivals base staged sha filename mime key scope fp w =
      finish_queueing no_rivals key scope fp (source_file_path base (w_fresh w))
        (queued_response (w_fresh w) (w_fresh w + 1)) w5
    \<and> db_runs (w_db w5) = db_runs (w_db w) @ [new_run (w_fresh w + 1) (w_fresh w) 1 (w_clock w)]
    \<and> db_documents (w_db w5) = db_documents (w_db w) @ [x]
    \<and> db_idempotency (w_db w5) = db_idempotency (w_db w)
    \<and> doc_id x = w_fresh w \<and> doc_sha256 x = sha \<and> doc_active_run_id x = None
    \<and> doc_latest_run_id x = Some (w_fresh w + 1) \<and> doc_source_path x = source_file_path base (w_fresh w)
    \<and> w_saved w5 = w_db w \<and> w_clock w5 = w_clock w \<and> w_fresh w5 = w_fresh w + 2
    \<and> w_files w5 (source_file_path base (w_fresh w)) = w_files w staged"
proof -
  define i where "i = w_fresh w"
  define src where "src = source_file_path base i"
  define w3 where "w3 = move_file staged src
    (on_db (add_document (new_document i filename sha mime (w_clock w))) (w\<lparr>w_fresh := i + 1\<rparr>))"
  define w5 where "w5 = on_db (upd_document i (point_latest (i + 1) (w_clock w))
      \<circ> add_run (new_run (i + 1) i 1 (w_clock w))
      \<circ> upd_document i (\<lambda>x. x\<lparr>doc_source_path := src\<rparr>)) (w3\<lparr>w_fresh := i + 2\<rparr>)"
  let ?x = "(new_document i filename sha mime (w_clock w))\<lparr>doc_source_path := src,
      doc_latest_run_id := Some (i + 1), doc_updated_at := w_clock w\<rparr>"
  have q: "queue_document_run no_rivals base staged sha filename mime key scope fp w =
      finish_queueing no_rivals key scope fp src (queued_response i (i + 1)) w5"
    using assms(1)
    by (simp add: queue_document_run_def finish_queueing_def take_id_def Let_def queued_response_def
        w5_def w3_def src_def i_def cong: option.case_cong sum.case_cong prod.case_cong)
  have w3: "w_db w3 = add_document (new_document i filename sha mime (w_clock w)) (w_db w)"
    "w_saved w3 = w_db w" "w_clock w3 = w_clock w" "w_files w3 src = w_files w staged"
    using assms(2) by (simp_all add: w3_def move_file_def)
  have w5: "db_runs (w_db w5) = db_runs (w_db w) @ [new_run (i + 1) i 1 (w_clock w)]"
    "w_saved w5 = w_db w" "w_clock w5 = w_clock w" "w_fresh w5 = i + 2" "w_files w5 src = w_files w staged"
    "db_idempotency (w_db w5) = db_idempotency (w_db w)"
    using w3 by (simp_all add: w5_def add_run_def add_document_def)
  have "i \<notin> doc_id ` set (db_documents (w_db w))" using assms(3) by (auto simp: i_def)
  then have docs: "db_documents (w_db w5) = db_documents (w_db w) @ [?x]"
    using w3 by (simp add: w5_def add_run_def add_document_def update_row_append update_row_absent
        new_document_def point_latest_def)
  show ?thesis
    unfolding i_def [symmetric] src_def [symmetric]
    by (intro exI [of _ w5] exI [of _ ?x]) (simp add: q w5 docs new_document_def)
qed


lemma get_idempotent_conflict:
  "get_idempotent_response scope key fp d = Inr (Some r) \<Longrightarrow> fp' \<noteq> fp \<Longrightarrow>
   get_idempotent_response scope key fp' d = Inl key_reused"
  by (auto simp: get_idempotent_response_def validate_fingerprint_def split: if_splits option.splits)

text \<open>
  A stored response is found again, unless another transaction stores one under the key just between
  the look-up and the insert.
\<close>

lemma store_upload_response_replays:
  assumes "str_truthy key"
    and "store_document_upload_response race scope key fp response status w = (w', Inr ())"
    and "\<And>d. load_idempotency_row scope (the key) d = None \<Longrightarrow>
      load_idempotency_row scope (the key) (rv_insert race d) = None"
  shows "get_idempotent_response scope key fp (w_db w') = Inr (Some (upload_response_json response, status))"
proof -
  let ?d = "rv_response race (w_db w)"
  obtain d where d: "store_idempotent_response (rv_insert race) (w_fresh w) (w_clock w) scope key fp
      (upload_response_json response) status ?d = Inr d" "w_db w' = d"
    using assms(2) by (auto simp: store_document_upload_response_def take_id_def Let_def split: sum.splits)
  show ?thesis
  proof (cases "load_idempotency_row scope (the key) ?d")
    case None
    with d assms(1,3) show ?thesis
      by (auto simp: idempotency_defs idem_matches_def)
  next
    case (Some row)
    then have "store_idempotent_response id (w_fresh w) (w_clock w) scope key fp
        (upload_response_json response) status ?d = Inr d"
      using d(1) assms(1) by (simp add: store_idempotent_response_def)
    with d(2) show ?thesis using idem.lookup_put [OF assms(1)] by simp
  qed
qed

text \<open>
  Reprocessing with an idempotency key is idempotent: once a response was given, the same
  request gets the same response and changes nothing, whatever the settings are by then, and a
  request for another document with the key is refused as a conflict.
\<close>

theorem reprocess_idempotent:
  assumes "str_truthy key" and "reprocess_document no_rivals st document key w = (w', Inr response)"
  shows "reprocess_document no_rivals st' document key w' = (w', Inr response)
    \<and> (other \<noteq> document \<longrightarrow> reprocess_document no_rivals st' other key w' = (w', Inl key_reused))"
proof -
  let ?fp = "''document:'' @ show_nat document"
  obtain p status where stored: "get_idempotent_response REPROCESS_DOCUMENT_SCOPE key ?fp (w_db w') =
      Inr (Some (p, status))" "upload_response_validate p = Inr response"
  proof (cases "replay_document_upload_response REPROCESS_DOCUMENT_SCOPE key ?fp w")
    case (Inl e)
    then show ?thesis using assms(2) by (simp add: reprocess_document_def Let_def)
  next
    case (Inr r)
    show ?thesis
    proof (cases r)
      case None
      then obtain w1 w2 status where "store_document_upload_response no_rivals REPROCESS_DOCUMENT_SCOPE key ?fp
          response status w1 = (w2, Inr ())" "w' = commit w2"
        using assms(2) Inr
        by (auto simp: reprocess_document_def Let_def split: option.splits sum.splits if_splits prod.splits)
      then show ?thesis using that store_upload_response_replays [OF assms(1), of no_rivals] by simp
    next
      case (Some rs)
      then show ?thesis
        using that assms(2) Inr
        by (auto simp: reprocess_document_def replay_document_upload_response_def Let_def
            split: sum.splits option.splits prod.splits)
    qed
  qed
  then have "reprocess_document no_rivals st' document key w' = (w', Inr response)"
    by (simp add: reprocess_document_def replay_document_upload_response_def)
  moreover have "reprocess_document no_rivals st' other key w' = (w', Inl key_reused)" if "other \<noteq> document"
    using get_idempotent_conflict [OF stored(1), of "''document:'' @ show_nat other"] that
    by (simp add: reprocess_document_def replay_document_upload_response_def show_nat_inject)
  ultimately show ?thesis by blast
qed

definition failed_example :: world where
  "failed_example =
     (let x = (new_document 4 ''a.pdf'' ''sha'' ''application/pdf'' 0)\<lparr>doc_latest_run_id := Some 5\<rparr>;
          r = (new_run 5 4 1 0)\<lparr>run_status := Failed, run_attempts := 3\<rparr>;
          d = empty_db\<lparr>db_documents := [x], db_runs := [r]\<rparr> in
      \<lparr>w_db = d, w_saved = d, w_files = Map.empty, w_clock = 1000, w_fresh = 6\<rparr>)"

lemma failed_example_reprocessed:
  "snd (reprocess_document no_rivals default_settings 4 (Some ''k'') failed_example) = Inr (queued_response 4 6)"
  by code_simp

theorem reprocess_idempotent_witness:
  "snd (reprocess_document no_rivals default_settings 4 (Some ''k'')
      (fst (reprocess_document no_rivals default_settings 4 (Some ''k'') failed_example))) = Inr (queued_response 4 6)"
proof -
  have "reprocess_document no_rivals default_settings 4 (Some ''k'') failed_example =
      (fst (reprocess_document no_rivals default_settings 4 (Some ''k'') failed_example), Inr (queued_response 4 6))"
    using failed_example_reprocessed by (metis prod.collapse)
  from reprocess_idempotent [OF _ this, of default_settings] show ?thesis by simp
qed

definition at_capacity :: "settings \<Rightarrow> db \<Rightarrow> bool" where
  "at_capacity st d =
     (resolve_api_mode st = Remote_Mode \<and>
      (case set_remote_ingest_max_inflight_runs st of
         None \<Rightarrow> False
       | Some limit \<Rightarrow> 0 < limit \<and> limit \<le> int (count_rows inflight (db_runs d))))"

lemma backpressure_iff:
  "enforce_remote_document_run_backpressure st d = (if at_capacity st d then Inl rate_limited else Inr ())"
  by (auto simp: enforce_remote_document_run_backpressure_def at_capacity_def
      document_run_inflight_count_def split: option.split)

text \<open>The state after a new run of an existing document: the run is added and is the latest one.\<close>

definition run_added :: "uuid \<Rightarrow> uuid \<Rightarrow> world \<Rightarrow> world \<Rightarrow> bool" where
  "run_added document i w w' =
     (db_runs (w_db w') = db_runs (w_db w)
        @ [new_run i document (next_run_number document (w_db w)) (w_clock w)]
      \<and> db_documents (w_db w') =
          update_row doc_id document (point_latest i (w_clock w)) (db_documents (w_db w))
      \<and> w_saved w' = w_db w')"

definition latest_inflight :: "document \<Rightarrow> db \<Rightarrow> bool" where
  "latest_inflight x d =
     (case get_run_record (doc_latest_run_id x) d of None \<Rightarrow> False | Some r \<Rightarrow> inflight r)"

lemma create_run_added:
  assumes "create_run_for_locked_document document w = (w1, i)"
  shows "i = w_fresh w" "w_saved w1 = w_saved w"
    "db_runs (w_db w1) = db_runs (w_db w)
        @ [new_run i document (next_run_number document (w_db w)) (w_clock w)]"
    "db_documents (w_db w1) =
        update_row doc_id document (point_latest i (w_clock w)) (db_documents (w_db w))"
    "db_idempotency (w_db w1) = db_idempotency (w_db w)"
  using assms by (auto simp: create_run_for_locked_document_def take_id_def add_run_def Let_def)

lemma store_after_create:
  assumes "get_idempotent_response scope key fp (w_db w) = Inr None"
    and "db_idempotency (w_db w1) = db_idempotency (w_db w)"
  obtains w2 where "store_document_upload_response no_rivals scope key fp response status w1 = (w2, Inr ())"
    "db_runs (w_db w2) = db_runs (w_db w1)" "db_documents (w_db w2) = db_documents (w_db w1)"
proof -
  have "get_idempotent_response scope key fp (w_db w1) = Inr None"
    using assms(1) get_idempotent_cong [OF assms(2)] by simp
  then obtain d where d: "store_idempotent_response id (w_fresh w1) (w_clock w1) scope key fp
      (upload_response_json response) status (w_db w1) = Inr d"
    using idem.put_new by blast
  have "d\<lparr>db_idempotency := []\<rparr> = (w_db w1)\<lparr>db_idempotency := []\<rparr>" using d by (rule idem.put_frame)
  then have "db_runs d = db_runs (w_db w1)" "db_documents d = db_documents (w_db w1)"
    by (metis (no_types) db.ext_inject db.surjective db.update_convs(7))+
  with d show ?thesis
    by (intro that [of "w1\<lparr>w_fresh := w_fresh w1 + 1, w_db := d\<rparr>"])
      (simp_all add: store_alone)
qed

text \<open>
  A first request to reprocess a document answers 404 when the document does not exist, 409 when
  its latest run is in flight, 429 when remote ingest is at capacity, each without changing
  anything; otherwise a queued run with the next number of the document is committed as its latest
  run, and nothing else of the runs and documents changes.
\<close>

theorem reprocess_document_spec:
  assumes "get_idempotent_response REPROCESS_DOCUMENT_SCOPE key (''document:'' @ show_nat document) (w_db w)
      = Inr None"
  shows "case get_document document (w_db w) of
      None \<Rightarrow> reprocess_document no_rivals st document key w = (w, Inl document_not_found)
    | Some x \<Rightarrow>
        if latest_inflight x (w_db w) then reprocess_document no_rivals st document key w = (w, Inl inflight_run_exists)
        else if at_capacity st (w_db w) then reprocess_document no_rivals st document key w = (w, Inl rate_limited)
        else \<exists>w'. reprocess_document no_rivals st document key w = (w', Inr (queued_response document (w_fresh w)))
          \<and> run_added document (w_fresh w) w w'"
proof -
  obtain w1 i where c: "create_run_for_locked_document document w = (w1, i)" by fastforce
  note new = create_run_added [OF c]
  obtain w2 where w2: "store_document_upload_response no_rivals REPROCESS_DOCUMENT_SCOPE key
      (''document:'' @ show_nat document) (queued_response document i) 202 w1 = (w2, Inr ())"
    "db_runs (w_db w2) = db_runs (w_db w1)" "db_documents (w_db w2) = db_documents (w_db w1)"
    using store_after_create [OF assms new(5)] by blast
  have "run_added document i w (commit w2)" using new w2 by (simp add: run_added_def)
  then show ?thesis
    using assms c w2(1) new(1)
    by (auto simp: reprocess_document_def replay_document_upload_response_def backpressure_iff
        latest_inflight_def queued_response_def split: option.split)
qed

theorem reprocess_document_spec_witness:
  "\<exists>w'. reprocess_document no_rivals default_settings 4 None failed_example = (w', Inr (queued_response 4 6))
    \<and> run_added 4 6 failed_example w'"
proof -
  have "get_idempotent_response REPROCESS_DOCUMENT_SCOPE None (''document:'' @ show_nat 4) (w_db failed_example)
      = Inr None"
    by (simp add: get_idempotent_response_def)
  moreover obtain x where "get_document 4 (w_db failed_example) = Some x" "\<not> latest_inflight x (w_db failed_example)"
    by (simp add: failed_example_def Let_def new_document_def latest_inflight_def get_run_record_def
        new_run_def inflight_def INFLIGHT_RUN_STATUSES_def)
  moreover have "\<not> at_capacity default_settings (w_db failed_example)" "w_fresh failed_example = 6"
    by code_simp+
  ultimately show ?thesis using reprocess_document_spec [of None 4 failed_example default_settings] by simp
qed

text \<open>
  An upload of a known document: with an active run it is answered as a duplicate and nothing
  changes; without one, but with its latest run in flight, it joins that run; otherwise a recovery
  run is queued and committed. It never fails and is never refused for capacity.
\<close>

theorem existing_document_upload_spec:
  assumes "get_document document (w_db w) = Some x"
  shows "if get_run_record (doc_active_run_id x) (w_db w) \<noteq> None then
      resolve_existing_document_upload document w = (w, Inr (build_duplicate_response x (w_db w), 200))
    else if latest_inflight x (w_db w) then
      \<exists>r. get_run_record (doc_latest_run_id x) (w_db w) = Some r \<and> resolve_existing_document_upload document w =
        (w, Inr (recovery_response document (run_id r) (run_status_value (run_status r)), 202))
    else \<exists>w'. resolve_existing_document_upload document w =
        (w', Inr (recovery_response document (w_fresh w) ''queued'', 202))
      \<and> run_added document (w_fresh w) w w'"
proof -
  have x: "doc_id x = document" using assms by (auto dest: find_row_Some)
  obtain w1 i where c: "create_run_for_locked_document document w = (w1, i)" by fastforce
  note new = create_run_added [OF c]
  have "run_added document i w (commit w1)" using new by (simp add: run_added_def)
  then show ?thesis
    using assms c new(1) x
    by (auto simp: resolve_existing_document_upload_def latest_inflight_def split: option.split)
qed

theorem existing_document_upload_spec_witness:
  "\<exists>w'. resolve_existing_document_upload 4 failed_example =
      (w', Inr (recovery_response 4 6 ''queued'', 202)) \<and> run_added 4 6 failed_example w'"
proof -
  obtain x where "get_document 4 (w_db failed_example) = Some x" "doc_active_run_id x = None"
    "doc_latest_run_id x = Some 5"
    by (simp add: failed_example_def Let_def new_document_def)
  with existing_document_upload_spec [OF this(1)] show ?thesis
    by (auto simp: get_run_record_def latest_inflight_def failed_example_def Let_def inflight_def
        INFLIGHT_RUN_STATUSES_def new_run_def)
qed

end
