(* ===== verification/Run_Persistence.thy ===== *)
theory Run_Persistence
  imports Run_Queue Text_Norm
begin

text \<open>
  \<open>app/services/run_persistence.py\<close>: what a run writes before it is validated. The parsed document
  goes to artifact files and to the rows of chunks, tables, table segments and figures; tables get
  a place in the lineage of the tables of the previously active run. Rows of an earlier attempt of
  the run are replaced.

  The functions that write tables and figures also change the metadata of the parsed objects,
  which validation compares with the rows later; they return the changed objects.
\<close>

section \<open>Artifact payloads\<close>

definition TABLE_ARTIFACT_SCHEMA_VERSION :: string where
  "TABLE_ARTIFACT_SCHEMA_VERSION = ''1.0''"

definition FIGURE_ARTIFACT_SCHEMA_VERSION :: string where
  "FIGURE_ARTIFACT_SCHEMA_VERSION = ''1.0''"

definition json_opt_real :: "rat option \<Rightarrow> json" where
  "json_opt_real r = (case r of None \<Rightarrow> JNull | Some x \<Rightarrow> JReal x)"

definition segment_payload :: "parsed_table_segment \<Rightarrow> json" where
  "segment_payload s = JObj [
     (''segment_index'', JInt (ps_segment_index s)),
     (''segment_order'', JInt (ps_segment_order s)),
     (''source_table_ref'', json_opt_str (ps_source_table_ref s)),
     (''title'', json_opt_str (ps_title s)),
     (''heading'', json_opt_str (ps_heading s)),
     (''page_from'', json_opt_int (ps_page_from s)),
     (''page_to'', json_opt_int (ps_page_to s)),
     (''row_count'', JInt (ps_row_count s)),
     (''col_count'', JInt (ps_col_count s)),
     (''metadata'', JObj (ps_metadata s))]"

definition table_artifact_payload ::
  "parsed_table \<Rightarrow> uuid \<Rightarrow> uuid \<Rightarrow> uuid \<Rightarrow> string option \<Rightarrow> string \<Rightarrow> json" where
  "table_artifact_payload t document run table logical_key created_at = JObj [
     (''schema_version'', JStr TABLE_ARTIFACT_SCHEMA_VERSION),
     (''document_id'', JStr (show_nat document)),
     (''run_id'', JStr (show_nat run)),
     (''table_id'', JStr (show_nat table)),
     (''table_index'', JInt (pt_table_index t)),
     (''logical_table_key'', json_opt_str logical_key),
     (''title'', json_opt_str (pt_title t)),
     (''heading'', json_opt_str (pt_heading t)),
     (''page_from'', json_opt_int (pt_page_from t)),
     (''page_to'', json_opt_int (pt_page_to t)),
     (''row_count'', JInt (pt_row_count t)),
     (''col_count'', JInt (pt_col_count t)),
     (''created_at'', JStr created_at),
     (''search_text'', JStr (pt_search_text t)),
     (''preview_text'', JStr (pt_preview_text t)),
     (''metadata'', JObj (dict_pop ''audit'' (pt_metadata t))),
     (''rows'', JArr (map (\<lambda>row. JArr (map JStr row)) (pt_rows t))),
     (''segments'', JArr (map segment_payload (pt_segments t)))]"

definition figure_artifact_payload ::
  "parsed_figure \<Rightarrow> uuid \<Rightarrow> uuid \<Rightarrow> uuid \<Rightarrow> string \<Rightarrow> json" where
  "figure_artifact_payload f document run figure created_at = JObj [
     (''schema_version'', JStr FIGURE_ARTIFACT_SCHEMA_VERSION),
     (''document_id'', JStr (show_nat document)),
     (''run_id'', JStr (show_nat run)),
     (''figure_id'', JStr (show_nat figure)),
     (''figure_index'', JInt (pf_figure_index f)),
     (''page_from'', json_opt_int (pf_page_from f)),
     (''page_to'', json_opt_int (pf_page_to f)),
     (''created_at'', JStr created_at),
     (''source_figure_ref'', json_opt_str (pf_source_figure_ref f)),
     (''caption'', json_opt_str (pf_caption f)),
     (''heading'', json_opt_str (pf_heading f)),
     (''confidence'', json_opt_real (pf_confidence f)),
     (''metadata'', JObj (dict_pop ''audit'' (pf_metadata f)))]"

section \<open>Artifact files\<close>

definition persist_parsed_artifacts ::
  "path \<Rightarrow> uuid \<Rightarrow> uuid \<Rightarrow> parsed_document \<Rightarrow> world \<Rightarrow> world \<times> path \<times> path" where
  "persist_parsed_artifacts base document run parsed w =
     (let j = build_docling_json_path base document run; y = build_yaml_path base document run in
      (write_file y (pd_yaml_text parsed) (write_file j (pd_docling_json parsed) w), j, y))"

text \<open>The result is the two paths and the digests of what was written there.\<close>

definition persist_table_artifacts ::
  "codecs \<Rightarrow> path \<Rightarrow> uuid \<Rightarrow> uuid \<Rightarrow> parsed_table \<Rightarrow> uuid \<Rightarrow> string option \<Rightarrow> time \<Rightarrow> world \<Rightarrow>
   world \<times> path \<times> path \<times> string \<times> string" where
  "persist_table_artifacts cx base document run t table logical_key now w =
     (let payload = table_artifact_payload t document run table logical_key (cx_isoformat cx now);
          j = build_table_json_path base document run (pt_table_index t);
          y = build_table_yaml_path base document run (pt_table_index t);
          json_bytes = cx_json_dumps cx payload;
          yaml_bytes = cx_yaml_dumps cx payload in
      (write_file y yaml_bytes (write_file j json_bytes w), j, y,
       cx_sha256 cx json_bytes, cx_sha256 cx yaml_bytes))"

definition persist_figure_artifacts ::
  "codecs \<Rightarrow> path \<Rightarrow> uuid \<Rightarrow> uuid \<Rightarrow> parsed_figure \<Rightarrow> uuid \<Rightarrow> time \<Rightarrow> world \<Rightarrow>
   world \<times> path \<times> path \<times> string \<times> string" where
  "persist_figure_artifacts cx base document run f figure now w =
     (let payload = figure_artifact_payload f document run figure (cx_isoformat cx now);
          j = build_figure_json_path base document run (pf_figure_index f);
          y = build_figure_yaml_path base document run (pf_figure_index f);
          json_bytes = cx_json_dumps cx payload;
          yaml_bytes = cx_yaml_dumps cx payload in
      (write_file y yaml_bytes (write_file j json_bytes w), j, y,
       cx_sha256 cx json_bytes, cx_sha256 cx yaml_bytes))"

section \<open>Lineage of tables\<close>

definition stable_table_key_source :: "parsed_table \<Rightarrow> string option" where
  "stable_table_key_source t =
     (if \<not> str_truthy (pt_title t) then None
      else Some (str_lower (str_strip (the (pt_title t))) @ ''|''
             @ str_lower (str_strip (case pt_heading t of None \<Rightarrow> [] | Some h \<Rightarrow> h)) @ ''|''
             @ show_int (pt_col_count t)))"

record lineage =
  li_logical_table_key :: "string option"
  li_table_version :: "int option"
  li_supersedes_table_id :: "uuid option"
  li_lineage_group :: "string option"

definition no_lineage :: lineage where
  "no_lineage = \<lparr>li_logical_table_key = None, li_table_version = None,
     li_supersedes_table_id = None, li_lineage_group = None\<rparr>"

definition key_counts :: "parsed_table list \<Rightarrow> string \<Rightarrow> nat" where
  "key_counts tables source = count_rows (\<lambda>t. stable_table_key_source t = Some source) tables"

definition previous_by_key :: "db \<Rightarrow> document \<Rightarrow> (string \<times> document_table) list" where
  "previous_by_key d document =
     (case doc_active_run_id document of
        None \<Rightarrow> []
      | Some active \<Rightarrow>
          foldl (\<lambda>m t. case table_logical_table_key t of
                   Some k \<Rightarrow> if k \<noteq> [] then dict_set k t m else m | None \<Rightarrow> m)
            [] (filter (\<lambda>t. table_run_id t = active) (db_tables d)))"

definition table_lineage ::
  "codecs \<Rightarrow> (string \<times> document_table) list \<Rightarrow> parsed_table list \<Rightarrow> parsed_table \<Rightarrow> lineage" where
  "table_lineage cx previous tables t =
     (case stable_table_key_source t of
        None \<Rightarrow> no_lineage
      | Some source \<Rightarrow>
          if key_counts tables source \<noteq> 1 then no_lineage
          else
            (let key = take 16 (cx_sha256 cx source) in
             case dict_get previous key of
               None \<Rightarrow> \<lparr>li_logical_table_key = Some key, li_table_version = Some 1,
                 li_supersedes_table_id = None, li_lineage_group = Some key\<rparr>
             | Some p \<Rightarrow> \<lparr>li_logical_table_key = Some key,
                 li_table_version = Some ((case int_or (table_version p) (Some 1) of
                                             None \<Rightarrow> 1 | Some v \<Rightarrow> v) + 1),
                 li_supersedes_table_id = Some (table_id p),
                 li_lineage_group = str_or (table_lineage_group p) (Some key)\<rparr>))"

definition build_lineage_assignments ::
  "codecs \<Rightarrow> db \<Rightarrow> document \<Rightarrow> parsed_document \<Rightarrow> (int \<times> lineage) list" where
  "build_lineage_assignments cx d document parsed =
     foldl (\<lambda>m t. dict_set (pt_table_index t)
              (table_lineage cx (previous_by_key d document) (pd_tables parsed) t) m)
       [] (pd_tables parsed)"

section \<open>Chunks\<close>

definition chunk_row :: "uuid \<Rightarrow> uuid \<Rightarrow> time \<Rightarrow> uuid \<Rightarrow> parsed_chunk \<Rightarrow> document_chunk" where
  "chunk_row document run now i c = \<lparr>
     chunk_id = i, chunk_document_id = document, chunk_run_id = run,
     chunk_chunk_index = pc_chunk_index c, chunk_text = pc_text c, chunk_heading = pc_heading c,
     chunk_page_from = pc_page_from c, chunk_page_to = pc_page_to c,
     chunk_metadata = pc_metadata c, chunk_embedding = pc_embedding c, chunk_created_at = now\<rparr>"

definition add_chunk :: "uuid \<Rightarrow> uuid \<Rightarrow> world \<Rightarrow> parsed_chunk \<Rightarrow> world" where
  "add_chunk document run w c =
     (let (i, w1) = take_id w in
      on_db (\<lambda>d. d\<lparr>db_chunks := db_chunks d @ [chunk_row document run (w_clock w) i c]\<rparr>) w1)"

definition delete_run_chunks :: "uuid \<Rightarrow> db \<Rightarrow> db" where
  "delete_run_chunks run d = d\<lparr>db_chunks := filter (\<lambda>c. chunk_run_id c \<noteq> run) (db_chunks d)\<rparr>"

definition replace_run_chunks :: "uuid \<Rightarrow> uuid \<Rightarrow> parsed_document \<Rightarrow> world \<Rightarrow> world" where
  "replace_run_chunks document run parsed w =
     foldl (add_chunk document run) (on_db (delete_run_chunks run) w) (pd_chunks parsed)"

section \<open>Tables\<close>

definition table_audit ::
  "codecs \<Rightarrow> parsed_table \<Rightarrow> string \<Rightarrow> string \<Rightarrow> dict" where
  "table_audit cx t json_sha yaml_sha = [
     (''extractor_version'', JStr ''docling''),
     (''profile_name'', JStr ''standard_pdf''),
     (''fallback_used'', JBool False),
     (''source_segment_refs'', JArr (map (\<lambda>s. json_opt_str (ps_source_table_ref s)) (pt_segments t))),
     (''page_from'', json_opt_int (pt_page_from t)),
     (''page_to'', json_opt_int (pt_page_to t)),
     (''json_artifact_sha256'', JStr json_sha),
     (''yaml_artifact_sha256'', JStr yaml_sha),
     (''search_text_sha256'', JStr (cx_sha256 cx (pt_search_text t))),
     (''merge_metadata_sha256'',
        JStr (cx_sha256 cx (cx_json_sorted cx (JObj (dict_pop ''audit'' (pt_metadata t))))))]"

definition table_row ::
  "uuid \<Rightarrow> uuid \<Rightarrow> time \<Rightarrow> uuid \<Rightarrow> lineage \<Rightarrow> path \<Rightarrow> path \<Rightarrow> parsed_table \<Rightarrow> document_table" where
  "table_row document run now i li j y t = \<lparr>
     table_id = i, table_document_id = document, table_run_id = run,
     table_table_index = pt_table_index t, table_title = pt_title t,
     table_logical_table_key = li_logical_table_key li, table_version = li_table_version li,
     table_supersedes_table_id = li_supersedes_table_id li,
     table_lineage_group = li_lineage_group li, table_heading = pt_heading t,
     table_page_from = pt_page_from t, table_page_to = pt_page_to t,
     table_row_count = pt_row_count t, table_col_count = pt_col_count t,
     table_status = ''persisted'', table_search_text = pt_search_text t,
     table_preview_text = pt_preview_text t, table_metadata = pt_metadata t,
     table_embedding = pt_embedding t, table_json_path = Some j, table_yaml_path = Some y,
     table_created_at = now\<rparr>"

definition segment_row ::
  "uuid \<Rightarrow> uuid \<Rightarrow> time \<Rightarrow> uuid \<Rightarrow> parsed_table_segment \<Rightarrow> document_table_segment" where
  "segment_row table run now i s = \<lparr>
     segment_id = i, segment_table_id = table, segment_run_id = run,
     segment_segment_index = ps_segment_index s,
     segment_source_table_ref = ps_source_table_ref s, segment_page_from = ps_page_from s,
     segment_page_to = ps_page_to s, segment_segment_order = ps_segment_order s,
     segment_metadata = ps_metadata s, segment_created_at = now\<rparr>"

definition add_segment_row :: "uuid \<Rightarrow> uuid \<Rightarrow> world \<Rightarrow> parsed_table_segment \<Rightarrow> world" where
  "add_segment_row table run w s =
     (let (i, w1) = take_id w in
      on_db (\<lambda>d. d\<lparr>db_segments := db_segments d @ [segment_row table run (w_clock w) i s]\<rparr>) w1)"

definition persist_table ::
  "codecs \<Rightarrow> path \<Rightarrow> uuid \<Rightarrow> uuid \<Rightarrow> (int \<times> lineage) list \<Rightarrow> world \<times> parsed_table list \<Rightarrow> parsed_table \<Rightarrow>
   world \<times> parsed_table list" where
  "persist_table cx base document run assignments st t =
     (let (w, seen) = st;
          now = w_clock w;
          (i, w1) = take_id w;
          li = (case dict_get assignments (pt_table_index t) of None \<Rightarrow> no_lineage | Some l \<Rightarrow> l);
          t1 = t\<lparr>pt_metadata := dict_pop ''audit'' (pt_metadata t)\<rparr>;
          (w2, j, y, json_sha, yaml_sha) =
            persist_table_artifacts cx base document run t1 i (li_logical_table_key li) now w1;
          t2 = t1\<lparr>pt_metadata := dict_merge (pt_metadata t1)
                    [(''audit'', JObj (table_audit cx t1 json_sha yaml_sha))]\<rparr>;
          w3 = on_db (\<lambda>d. d\<lparr>db_tables := db_tables d @ [table_row document run now i li j y t2]\<rparr>) w2
      in (foldl (add_segment_row i run) w3 (pt_segments t2), seen @ [t2]))"

definition delete_run_tables :: "uuid \<Rightarrow> db \<Rightarrow> db" where
  "delete_run_tables run d = d\<lparr>
     db_segments := filter (\<lambda>s. segment_run_id s \<noteq> run) (db_segments d),
     db_tables := filter (\<lambda>t. table_run_id t \<noteq> run) (db_tables d)\<rparr>"

definition replace_run_tables ::
  "codecs \<Rightarrow> path \<Rightarrow> uuid \<Rightarrow> uuid \<Rightarrow> parsed_document \<Rightarrow> (int \<times> lineage) list \<Rightarrow> world \<Rightarrow>
   world \<times> parsed_document" where
  "replace_run_tables cx base document run parsed assignments w =
     (let (w1, tables) = foldl (persist_table cx base document run assignments)
            (on_db (delete_run_tables run) w, []) (pd_tables parsed) in
      (w1, parsed\<lparr>pd_tables := tables\<rparr>))"

section \<open>Figures\<close>

definition figure_audit :: "parsed_figure \<Rightarrow> string \<Rightarrow> string \<Rightarrow> dict" where
  "figure_audit f json_sha yaml_sha = [
     (''extractor_version'', JStr ''docling''),
     (''profile_name'', JStr ''standard_pdf''),
     (''fallback_used'', JBool (dict_get (pf_metadata f) ''caption_resolution_source''
                                 \<noteq> Some (JStr ''explicit_ref''))),
     (''page_from'', json_opt_int (pf_page_from f)),
     (''page_to'', json_opt_int (pf_page_to f)),
     (''json_artifact_sha256'', JStr json_sha),
     (''yaml_artifact_sha256'', JStr yaml_sha)]"

definition figure_row ::
  "uuid \<Rightarrow> uuid \<Rightarrow> time \<Rightarrow> uuid \<Rightarrow> path \<Rightarrow> path \<Rightarrow> parsed_figure \<Rightarrow> document_figure" where
  "figure_row document run now i j y f = \<lparr>
     figure_id = i, figure_document_id = document, figure_run_id = run,
     figure_figure_index = pf_figure_index f, figure_source_figure_ref = pf_source_figure_ref f,
     figure_caption = pf_caption f, figure_heading = pf_heading f,
     figure_page_from = pf_page_from f, figure_page_to = pf_page_to f,
     figure_confidence = pf_confidence f, figure_status = ''persisted'',
     figure_metadata = pf_metadata f, figure_json_path = Some j, figure_yaml_path = Some y,
     figure_created_at = now\<rparr>"

definition persist_figure ::
  "codecs \<Rightarrow> path \<Rightarrow> uuid \<Rightarrow> uuid \<Rightarrow> world \<times> parsed_figure list \<Rightarrow> parsed_figure \<Rightarrow>
   world \<times> parsed_figure list" where
  "persist_figure cx base document run st f =
     (let (w, seen) = st;
          now = w_clock w;
          (i, w1) = take_id w;
          f1 = f\<lparr>pf_metadata := dict_pop ''audit'' (pf_metadata f)\<rparr>;
          (w2, j, y, json_sha, yaml_sha) = persist_figure_artifacts cx base document run f1 i now w1;
          f2 = f1\<lparr>pf_metadata := dict_merge (pf_metadata f1)
                    [(''audit'', JObj (figure_audit f1 json_sha yaml_sha))]\<rparr> in
      (on_db (\<lambda>d. d\<lparr>db_figures := db_figures d @ [figure_row document run now i j y f2]\<rparr>) w2,
       seen @ [f2]))"

definition delete_run_figures :: "uuid \<Rightarrow> db \<Rightarrow> db" where
  "delete_run_figures run d = d\<lparr>db_figures := filter (\<lambda>f. figure_run_id f \<noteq> run) (db_figures d)\<rparr>"

definition replace_run_figures ::
  "codecs \<Rightarrow> path \<Rightarrow> uuid \<Rightarrow> uuid \<Rightarrow> parsed_document \<Rightarrow> world \<Rightarrow> world \<times> parsed_document" where
  "replace_run_figures cx base document run parsed w =
     (let (w1, figures) = foldl (persist_figure cx base document run)
            (on_db (delete_run_figures run) w, []) (pd_figures parsed) in
      (w1, parsed\<lparr>pd_figures := figures\<rparr>))"

section \<open>Embeddings\<close>

text \<open>
  An embedding provider is a function from texts to vectors that may raise. When it does, the run
  goes on without embeddings; when it returns the wrong number of vectors, \<open>zip(strict=True)\<close>
  raises.
\<close>

type_synonym embedding_provider = "string list \<Rightarrow> exn + embedding list"

definition set_run_embedding :: "uuid \<Rightarrow> string option \<Rightarrow> int option \<Rightarrow> world \<Rightarrow> world" where
  "set_run_embedding run m n w =
     on_db (upd_run run (\<lambda>r. r\<lparr>run_embedding_model := m, run_embedding_dim := n\<rparr>)) w"

definition strict_zip_error :: exn where
  "strict_zip_error = value_error ''zip() argument lengths differ''"

definition apply_embeddings ::
  "settings \<Rightarrow> embedding_provider option \<Rightarrow> uuid \<Rightarrow> parsed_document \<Rightarrow> world \<Rightarrow>
   world \<times> (exn + parsed_document)" where
  "apply_embeddings st provider run parsed w =
     (case provider of
        None \<Rightarrow> (set_run_embedding run None None w, Inr parsed)
      | Some embed_texts \<Rightarrow>
          (case (embed_texts (map pc_text (pd_chunks parsed)),
                 embed_texts (map pt_search_text (pd_tables parsed))) of
             (Inr chunk_embeddings, Inr table_embeddings) \<Rightarrow>
               if length chunk_embeddings \<noteq> length (pd_chunks parsed)
                  \<or> length table_embeddings \<noteq> length (pd_tables parsed)
               then (w, Inl strict_zip_error)
               else
                 (set_run_embedding run (Some (set_openai_embedding_model st))
                    (Some (set_embedding_dim st)) w,
                  Inr (parsed\<lparr>
                    pd_chunks := map (\<lambda>(c, e). c\<lparr>pc_embedding := Some e\<rparr>)
                      (zip (pd_chunks parsed) chunk_embeddings),
                    pd_tables := map (\<lambda>(t, e). t\<lparr>pt_embedding := Some e\<rparr>)
                      (zip (pd_tables parsed) table_embeddings)\<rparr>))
           | _ \<Rightarrow> (set_run_embedding run None None w, Inr parsed)))"

section \<open>Marking the run\<close>

definition persisted_run :: "parsed_document \<Rightarrow> path \<Rightarrow> path \<Rightarrow> document_run \<Rightarrow> document_run" where
  "persisted_run parsed j y r = r\<lparr>
     run_docling_json_path := Some j, run_yaml_path := Some y,
     run_chunk_count := Some (int (length (pd_chunks parsed))),
     run_table_count := Some (int (length (pd_tables parsed))),
     run_figure_count := Some (int (length (pd_figures parsed))),
     run_validation_status := Some ''pending''\<rparr>"

definition mark_run_persisted ::
  "uuid \<Rightarrow> uuid \<Rightarrow> parsed_document \<Rightarrow> path \<Rightarrow> path \<Rightarrow> world \<Rightarrow> world" where
  "mark_run_persisted document run parsed j y w =
     commit (on_db (upd_document document (point_latest run (w_clock w))
       \<circ> upd_run run (persisted_run parsed j y)) w)"

definition validating_run :: "time \<Rightarrow> document_run \<Rightarrow> document_run" where
  "validating_run now r = r\<lparr>run_status := Validating, run_last_heartbeat_at := Some now\<rparr>"

definition mark_run_validating :: "uuid \<Rightarrow> world \<Rightarrow> world" where
  "mark_run_validating run w = commit (on_db (upd_run run (validating_run (w_clock w))) w)"

end
