(* ===== verification/Run_Validation.thy ===== *)
theory Run_Validation
  imports Run_Persistence
begin

text \<open>
  \<open>app/services/validation.py\<close>: before a run is promoted, what was persisted is compared with what
  was parsed: the artifact files with their expected payloads and digests, the rows of chunks,
  tables, segments and figures with the parsed objects, and the structure of each table with a few
  sanity rules. The report says whether the run passed and lists every check.
\<close>

section \<open>Rules for tables\<close>

text \<open>\<open>float(metadata.get("merge_confidence") or 1.0)\<close>; a value that is not a number raises.\<close>

definition merge_confidence :: "dict \<Rightarrow> rat" where
  "merge_confidence d =
     (if dict_truthy d ''merge_confidence''
      then (case json_number (the (dict_get d ''merge_confidence'')) of None \<Rightarrow> 1 | Some r \<Rightarrow> r)
      else 1)"

definition table_has_ambiguous_structure :: "parsed_table \<Rightarrow> bool" where
  "table_has_ambiguous_structure t =
     (dict_truthy (pt_metadata t) ''ambiguous_continuation_candidate''
      \<or> merge_confidence (pt_metadata t) < 0.9)"

record table_detail =
  td_table_index :: int
  td_title :: "string option"
  td_json_artifact_exists :: bool
  td_yaml_artifact_exists :: bool
  td_db_fields_match :: bool
  td_segments_match :: bool
  td_search_text_present :: bool
  td_preview_text_present :: bool
  td_row_count_sane :: bool
  td_json_artifact_hash_matches :: bool
  td_yaml_artifact_hash_matches :: bool
  td_json_artifact_content_matches :: bool
  td_yaml_artifact_content_matches :: bool
  td_continued_table_merge_sane :: bool
  td_repeated_header_row_removal_sane :: bool

record finding =
  fi_table_index :: int
  fi_title :: "string option"
  fi_check :: string
  fi_severity :: string

definition finding_json :: "finding \<Rightarrow> json" where
  "finding_json f = JObj [
     (''scope'', JStr ''table''), (''table_index'', JInt (fi_table_index f)),
     (''title'', json_opt_str (fi_title f)), (''check'', JStr (fi_check f)),
     (''severity'', JStr (fi_severity f))]"

text \<open>The warnings and the blocking failures of a table.\<close>

definition table_validation_findings ::
  "parsed_table \<Rightarrow> table_detail \<Rightarrow> finding list \<times> finding list" where
  "table_validation_findings t detail =
     (let failed = map fst (filter (\<lambda>(_, ok). \<not> ok) [
            (''continued_table_merge_sane'', td_continued_table_merge_sane detail),
            (''repeated_header_row_removal_sane'', td_repeated_header_row_removal_sane detail)]);
          found = (\<lambda>severity. map (\<lambda>c. \<lparr>fi_table_index = pt_table_index t, fi_title = pt_title t,
                               fi_check = c, fi_severity = severity\<rparr>) failed) in
      if table_has_ambiguous_structure t then (found ''warning'', [])
      else ([], found ''error''))"

section \<open>Artifacts\<close>

definition embeddings_match :: "embedding option \<Rightarrow> embedding option \<Rightarrow> bool" where
  "embeddings_match persisted parsed = (persisted = parsed)"

definition normalize_artifact_payload :: "json \<Rightarrow> json" where
  "normalize_artifact_payload j =
     (case j of JObj d \<Rightarrow> JObj (dict_pop ''artifact_sha256'' d) | _ \<Rightarrow> j)"

definition load_artifact :: "(string \<Rightarrow> json option) \<Rightarrow> path \<Rightarrow> world \<Rightarrow> json option" where
  "load_artifact loads p w = (case w_files w p of None \<Rightarrow> None | Some s \<Rightarrow> loads s)"

text \<open>A file that is missing or does not decode is \<open>None\<close>, which equals no expected payload.\<close>

definition artifact_matches_expected ::
  "(string \<Rightarrow> json option) \<Rightarrow> path \<Rightarrow> json \<Rightarrow> world \<Rightarrow> bool" where
  "artifact_matches_expected loads p expected w =
     (case load_artifact loads p w of
        None \<Rightarrow> False
      | Some actual \<Rightarrow> json_eq (normalize_artifact_payload actual) expected)"

definition serialized_matches ::
  "(string \<Rightarrow> json option) \<Rightarrow> path \<Rightarrow> string \<Rightarrow> world \<Rightarrow> bool" where
  "serialized_matches loads p expected_text w =
     (case w_files w p of
        None \<Rightarrow> False
      | Some s \<Rightarrow>
          (case (loads s, loads expected_text) of
             (Some a, Some b) \<Rightarrow> json_eq a b
           | _ \<Rightarrow> s = expected_text))"

definition artifact_hash_matches :: "codecs \<Rightarrow> path \<Rightarrow> json option \<Rightarrow> world \<Rightarrow> bool" where
  "artifact_hash_matches cx p expected w =
     (case expected of
        Some (JStr sha) \<Rightarrow> sha \<noteq> [] \<and> map_option (cx_sha256 cx) (w_files w p) = Some sha
      | _ \<Rightarrow> False)"

text \<open>\<open>Path(row.json_path) if row.json_path else Path()\<close>: \<open>Path()\<close> is the directory \<open>.\<close>, no file.\<close>

definition stored_path :: "path option \<Rightarrow> path" where
  "stored_path p = (case p of None \<Rightarrow> ''.'' | Some s \<Rightarrow> if s = [] then ''.'' else s)"

definition path_is_file :: "path \<Rightarrow> world \<Rightarrow> bool" where
  "path_is_file p w = (w_files w p \<noteq> None)"

definition audit_of :: "dict \<Rightarrow> dict" where
  "audit_of metadata =
     (case dict_get metadata ''audit'' of
        Some (JObj a) \<Rightarrow> a | _ \<Rightarrow> [])"

section \<open>Tables\<close>

definition segment_json :: "int \<Rightarrow> string option \<Rightarrow> int option \<Rightarrow> int option \<Rightarrow> int \<Rightarrow> dict \<Rightarrow> json" where
  "segment_json index ref page_from page_to order metadata = JObj [
     (''segment_index'', JInt index), (''source_table_ref'', json_opt_str ref),
     (''page_from'', json_opt_int page_from), (''page_to'', json_opt_int page_to),
     (''segment_order'', JInt order), (''metadata'', JObj metadata)]"

definition table_segments_match ::
  "parsed_table \<Rightarrow> document_table_segment list \<Rightarrow> bool" where
  "table_segments_match t persisted =
     json_list_eq
       (map (\<lambda>s. segment_json (segment_segment_index s) (segment_source_table_ref s)
               (segment_page_from s) (segment_page_to s) (segment_segment_order s)
               (segment_metadata s)) persisted)
       (map (\<lambda>s. segment_json (ps_segment_index s) (ps_source_table_ref s)
               (ps_page_from s) (ps_page_to s) (ps_segment_order s) (ps_metadata s))
         (pt_segments t))"

definition expected_table_artifact_payload ::
  "codecs \<Rightarrow> parsed_table \<Rightarrow> document_table \<Rightarrow> json" where
  "expected_table_artifact_payload cx t row =
     table_artifact_payload t (table_document_id row) (table_run_id row) (table_id row)
       (table_logical_table_key row) (cx_isoformat cx (table_created_at row))"

definition table_db_fields_match :: "parsed_table \<Rightarrow> document_table \<Rightarrow> bool" where
  "table_db_fields_match t row =
     (table_table_index row = pt_table_index t \<and> table_title row = pt_title t
      \<and> table_heading row = pt_heading t \<and> table_page_from row = pt_page_from t
      \<and> table_page_to row = pt_page_to t \<and> table_row_count row = pt_row_count t
      \<and> table_col_count row = pt_col_count t \<and> table_search_text row = pt_search_text t
      \<and> table_preview_text row = pt_preview_text t
      \<and> dict_eq (table_metadata row) (pt_metadata t)
      \<and> embeddings_match (table_embedding row) (pt_embedding t))"

definition table_validation_result ::
  "codecs \<Rightarrow> world \<Rightarrow> parsed_table \<Rightarrow> document_table \<Rightarrow> document_table_segment list \<Rightarrow> table_detail" where
  "table_validation_result cx w t row segments =
     (let j = stored_path (table_json_path row);
          y = stored_path (table_yaml_path row);
          expected = expected_table_artifact_payload cx t row;
          audit = audit_of (table_metadata row) in
      \<lparr>td_table_index = pt_table_index t,
       td_title = pt_title t,
       td_json_artifact_exists = path_is_file j w,
       td_yaml_artifact_exists = path_is_file y w,
       td_db_fields_match = table_db_fields_match t row,
       td_segments_match = table_segments_match t segments,
       td_search_text_present = (str_strip (pt_search_text t) \<noteq> []),
       td_preview_text_present = (str_strip (pt_preview_text t) \<noteq> []),
       td_row_count_sane = (pt_row_count t > 0 \<and> pt_col_count t > 0),
       td_json_artifact_hash_matches =
         artifact_hash_matches cx j (dict_get audit ''json_artifact_sha256'') w,
       td_yaml_artifact_hash_matches =
         artifact_hash_matches cx y (dict_get audit ''yaml_artifact_sha256'') w,
       td_json_artifact_content_matches = artifact_matches_expected (cx_json_loads cx) j expected w,
       td_yaml_artifact_content_matches = artifact_matches_expected (cx_yaml_loads cx) y expected w,
       td_continued_table_merge_sane = dict_truthy (pt_metadata t) ''merge_sanity_passed'',
       td_repeated_header_row_removal_sane = dict_truthy (pt_metadata t) ''header_removal_passed''\<rparr>)"

definition table_checks_passed :: "parsed_table \<Rightarrow> table_detail \<Rightarrow> bool" where
  "table_checks_passed t d =
     (td_json_artifact_exists d \<and> td_yaml_artifact_exists d \<and> td_db_fields_match d
      \<and> td_segments_match d \<and> td_search_text_present d \<and> td_preview_text_present d
      \<and> td_row_count_sane d \<and> td_json_artifact_hash_matches d \<and> td_yaml_artifact_hash_matches d
      \<and> td_json_artifact_content_matches d \<and> td_yaml_artifact_content_matches d
      \<and> snd (table_validation_findings t d) = [])"

definition table_detail_json :: "parsed_table \<Rightarrow> table_detail \<Rightarrow> json" where
  "table_detail_json t d = JObj [
     (''table_index'', JInt (td_table_index d)),
     (''title'', json_opt_str (td_title d)),
     (''json_artifact_exists'', JBool (td_json_artifact_exists d)),
     (''yaml_artifact_exists'', JBool (td_yaml_artifact_exists d)),
     (''db_fields_match'', JBool (td_db_fields_match d)),
     (''segments_match'', JBool (td_segments_match d)),
     (''search_text_present'', JBool (td_search_text_present d)),
     (''preview_text_present'', JBool (td_preview_text_present d)),
     (''row_count_sane'', JBool (td_row_count_sane d)),
     (''json_artifact_hash_matches'', JBool (td_json_artifact_hash_matches d)),
     (''yaml_artifact_hash_matches'', JBool (td_yaml_artifact_hash_matches d)),
     (''json_artifact_content_matches'', JBool (td_json_artifact_content_matches d)),
     (''yaml_artifact_content_matches'', JBool (td_yaml_artifact_content_matches d)),
     (''continued_table_merge_sane'', JBool (td_continued_table_merge_sane d)),
     (''repeated_header_row_removal_sane'', JBool (td_repeated_header_row_removal_sane d)),
     (''warning_checks'', JArr (map (JStr \<circ> fi_check) (fst (table_validation_findings t d)))),
     (''blocking_failure_checks'',
        JArr (map (JStr \<circ> fi_check) (snd (table_validation_findings t d))))]"

section \<open>Figures\<close>

definition expected_figure_artifact_payload ::
  "codecs \<Rightarrow> parsed_figure \<Rightarrow> document_figure \<Rightarrow> json" where
  "expected_figure_artifact_payload cx f row =
     figure_artifact_payload f (figure_document_id row) (figure_run_id row) (figure_id row)
       (cx_isoformat cx (figure_created_at row))"

definition figure_db_fields_match :: "parsed_figure \<Rightarrow> document_figure \<Rightarrow> bool" where
  "figure_db_fields_match f row =
     (figure_figure_index row = pf_figure_index f
      \<and> figure_source_figure_ref row = pf_source_figure_ref f
      \<and> figure_caption row = pf_caption f \<and> figure_heading row = pf_heading f
      \<and> figure_page_from row = pf_page_from f \<and> figure_page_to row = pf_page_to f
      \<and> figure_confidence row = pf_confidence f
      \<and> dict_eq (figure_metadata row) (pf_metadata f))"

definition figure_validation_result ::
  "codecs \<Rightarrow> world \<Rightarrow> parsed_figure \<Rightarrow> document_figure \<Rightarrow> (string \<times> bool) list" where
  "figure_validation_result cx w f row =
     (let j = stored_path (figure_json_path row);
          y = stored_path (figure_yaml_path row);
          metadata = pf_metadata f;
          expected = expected_figure_artifact_payload cx f row;
          audit = audit_of (figure_metadata row) in
      [(''json_artifact_exists'', path_is_file j w),
       (''yaml_artifact_exists'', path_is_file y w),
       (''db_fields_match'', figure_db_fields_match f row),
       (''provenance_present'', dict_truthy metadata ''provenance''),
       (''caption_resolution_source_present'', dict_get metadata ''caption_resolution_source'' \<noteq> None),
       (''confidence_field_present'', dict_get metadata ''caption_attachment_confidence'' \<noteq> None
          \<and> dict_get metadata ''source_confidence'' \<noteq> None),
       (''json_artifact_hash_matches'',
          artifact_hash_matches cx j (dict_get audit ''json_artifact_sha256'') w),
       (''yaml_artifact_hash_matches'',
          artifact_hash_matches cx y (dict_get audit ''yaml_artifact_sha256'') w),
       (''json_artifact_content_matches'',
          artifact_matches_expected (cx_json_loads cx) j expected w),
       (''yaml_artifact_content_matches'',
          artifact_matches_expected (cx_yaml_loads cx) y expected w)])"

section \<open>The report\<close>

definition chunk_detail :: "parsed_chunk \<Rightarrow> document_chunk \<Rightarrow> (string \<times> bool) list" where
  "chunk_detail c row = [
     (''text_matches'', chunk_text row = pc_text c),
     (''heading_matches'', chunk_heading row = pc_heading c),
     (''page_from_matches'', chunk_page_from row = pc_page_from c),
     (''page_to_matches'', chunk_page_to row = pc_page_to c),
     (''metadata_matches'', dict_eq (chunk_metadata row) (pc_metadata c)),
     (''embedding_matches'', embeddings_match (chunk_embedding row) (pc_embedding c))]"

definition all_checks :: "(string \<times> bool) list \<Rightarrow> bool" where
  "all_checks checks = list_all snd checks"

definition checks_json :: "(string \<times> bool) list \<Rightarrow> dict" where
  "checks_json checks = map (\<lambda>(k, b). (k, JBool b)) checks"

definition document_checks ::
  "codecs \<Rightarrow> settings \<Rightarrow> world \<Rightarrow> document_run \<Rightarrow> parsed_document \<Rightarrow> (string \<times> bool) list" where
  "document_checks cx st w run parsed =
     (let j = stored_path (run_docling_json_path run); y = stored_path (run_yaml_path run) in
      [(''docling_json_exists'', str_truthy (run_docling_json_path run) \<and> path_is_file j w),
       (''yaml_exists'', str_truthy (run_yaml_path run) \<and> path_is_file y w),
       (''docling_json_matches'', serialized_matches (cx_json_loads cx) j (pd_docling_json parsed) w),
       (''yaml_matches'', serialized_matches (cx_yaml_loads cx) y (pd_yaml_text parsed) w),
       (''chunk_count_matches'',
          count_rows (\<lambda>c. chunk_run_id c = run_id run) (db_chunks (w_db w))
            = length (pd_chunks parsed)),
       (''title_present'', str_truthy (pd_title parsed)),
       (''page_count_sane'',
          0 < pd_page_count parsed \<and> pd_page_count parsed \<le> set_local_ingest_max_pages st)])"

definition run_chunks :: "uuid \<Rightarrow> db \<Rightarrow> document_chunk list" where
  "run_chunks run d = sort_key chunk_chunk_index (filter (\<lambda>c. chunk_run_id c = run) (db_chunks d))"

definition run_tables :: "uuid \<Rightarrow> db \<Rightarrow> document_table list" where
  "run_tables run d = sort_key table_table_index (filter (\<lambda>t. table_run_id t = run) (db_tables d))"

definition run_figures :: "uuid \<Rightarrow> db \<Rightarrow> document_figure list" where
  "run_figures run d =
     sort_key figure_figure_index (filter (\<lambda>f. figure_run_id f = run) (db_figures d))"

text \<open>The segments of a table among those of the run, which are ordered by table and index.\<close>

definition run_table_segments :: "uuid \<Rightarrow> uuid \<Rightarrow> db \<Rightarrow> document_table_segment list" where
  "run_table_segments run table d =
     filter (\<lambda>s. segment_table_id s = table)
       (sort_key (\<lambda>s. (segment_table_id s, segment_segment_index s))
         (filter (\<lambda>s. segment_run_id s = run) (db_segments d)))"

definition table_details ::
  "codecs \<Rightarrow> world \<Rightarrow> uuid \<Rightarrow> parsed_document \<Rightarrow> (parsed_table \<times> table_detail) list" where
  "table_details cx w run parsed =
     map (\<lambda>(t, row). (t, table_validation_result cx w t row
            (run_table_segments run (table_id row) (w_db w))))
       (zip (pd_tables parsed) (run_tables run (w_db w)))"

definition figure_details ::
  "codecs \<Rightarrow> world \<Rightarrow> uuid \<Rightarrow> parsed_document \<Rightarrow> (parsed_figure \<times> (string \<times> bool) list) list" where
  "figure_details cx w run parsed =
     map (\<lambda>(f, row). (f, figure_validation_result cx w f row))
       (zip (pd_figures parsed) (run_figures run (w_db w)))"

definition validate_persisted_run ::
  "codecs \<Rightarrow> settings \<Rightarrow> document \<Rightarrow> document_run \<Rightarrow> parsed_document \<Rightarrow> world \<Rightarrow> validation_report" where
  "validate_persisted_run cx st document run parsed w =
     (let i = run_id run;
          chunk_count = count_rows (\<lambda>c. chunk_run_id c = i) (db_chunks (w_db w));
          table_count = count_rows (\<lambda>t. table_run_id t = i) (db_tables (w_db w));
          figure_count = count_rows (\<lambda>f. figure_run_id f = i) (db_figures (w_db w));
          doc_checks = document_checks cx st w run parsed;
          chunks = map (\<lambda>(c, row). (c, chunk_detail c row))
                     (zip (pd_chunks parsed) (run_chunks i (w_db w)));
          tables = table_details cx w i parsed;
          figures = figure_details cx w i parsed;
          findings = map (\<lambda>(t, d). table_validation_findings t d) tables;
          warnings = concat (map fst findings);
          blocking = concat (map snd findings);
          chunks_ok = list_all (all_checks \<circ> snd) chunks;
          tables_ok = list_all (\<lambda>(t, d). table_checks_passed t d) tables;
          figures_ok = list_all (all_checks \<circ> snd) figures;
          passed = (all_checks doc_checks
                    \<and> chunk_count = length (pd_chunks parsed) \<and> chunks_ok
                    \<and> table_count = length (pd_tables parsed) \<and> tables_ok
                    \<and> figure_count = length (pd_figures parsed) \<and> figures_ok);
          summary = (if passed \<and> warnings \<noteq> [] then ''Validation passed with warnings.''
                     else if passed then ''Validation passed.'' else ''Validation failed.'') in
      \<lparr>vr_passed = passed,
       vr_summary = summary,
       vr_details = [
         (''summary'', JStr summary),
         (''document_checks'', JObj (checks_json doc_checks)),
         (''chunk_checks'', JObj [
            (''detected_count_matches_persisted'', JBool (chunk_count = length (pd_chunks parsed))),
            (''all_chunk_checks_passed'', JBool chunks_ok)]),
         (''chunk_details'', JArr (map (\<lambda>(c, d). JObj ((''chunk_index'', JInt (pc_chunk_index c))
                                          # checks_json d)) chunks)),
         (''table_checks'', JObj [
            (''detected_count_matches_persisted'', JBool (table_count = length (pd_tables parsed))),
            (''all_table_checks_passed'', JBool tables_ok),
            (''warning_count'', JInt (int (length warnings))),
            (''blocking_failure_count'', JInt (int (length blocking)))]),
         (''table_details'', JArr (map (\<lambda>(t, d). table_detail_json t d) tables)),
         (''figure_checks'', JObj [
            (''detected_count_matches_persisted'', JBool (figure_count = length (pd_figures parsed))),
            (''all_figure_checks_passed'', JBool figures_ok)]),
         (''figure_details'', JArr (map (\<lambda>(f, d). JObj (
            [(''figure_index'', JInt (pf_figure_index f)),
             (''source_figure_ref'', json_opt_str (pf_source_figure_ref f))]
            @ checks_json d)) figures)),
         (''warnings'', JArr (map finding_json warnings)),
         (''warning_count'', JInt (int (length warnings))),
         (''blocking_failures'', JArr (map finding_json blocking)),
         (''blocking_failure_count'', JInt (int (length blocking))),
         (''document_id'', JStr (show_nat (doc_id document))),
         (''run_id'', JStr (show_nat i))],
       vr_warning_count = length warnings\<rparr>)"

end
