(* ===== verification/Run_Processor.thy ===== *)
theory Run_Processor
  imports Run_Validation
begin

text \<open>
  \<open>app/services/runs.py\<close>: the stages a claimed run goes through, the \<open>RunProcessor\<close> that drives
  them, \<open>process_run\<close> and one round of the worker loop.

  Work that writes to no table modelled here, or is done by other code, enters as hooks: the
  parser, the embedding provider, and whether rebuilding the retrieval spans and the semantic pass
  raise; what the evaluation of a promoted run raises is swallowed.

  The lemmas show that a run handed to \<open>process_run\<close> always leaves the in-progress states, that it
  is promoted only after a passed validation, and that a failure keeps the document's active run.
\<close>

section \<open>Stages\<close>

datatype run_processing_stage =
    PARSE | EMBEDDING | ARTIFACT_WRITE | CHUNK_PERSIST | TABLE_PERSIST | FIGURE_PERSIST
  | RETRIEVAL_SPAN_PERSIST | RUN_PERSIST | VALIDATION | PROMOTION
  | POST_PROMOTION_EVALUATION | POST_PROMOTION_SEMANTICS

fun stage_value :: "run_processing_stage \<Rightarrow> string" where
  "stage_value PARSE = ''parse''"
| "stage_value EMBEDDING = ''embedding''"
| "stage_value ARTIFACT_WRITE = ''artifact_write''"
| "stage_value CHUNK_PERSIST = ''chunk_persist''"
| "stage_value TABLE_PERSIST = ''table_persist''"
| "stage_value FIGURE_PERSIST = ''figure_persist''"
| "stage_value RETRIEVAL_SPAN_PERSIST = ''retrieval_span_persist''"
| "stage_value RUN_PERSIST = ''run_persist''"
| "stage_value VALIDATION = ''validation''"
| "stage_value PROMOTION = ''promotion''"
| "stage_value POST_PROMOTION_EVALUATION = ''post_promotion_evaluation''"
| "stage_value POST_PROMOTION_SEMANTICS = ''post_promotion_semantics''"

definition run_stages :: "settings \<Rightarrow> run_processing_stage list" where
  "run_stages st =
     [PARSE, EMBEDDING, ARTIFACT_WRITE, CHUNK_PERSIST, TABLE_PERSIST, FIGURE_PERSIST,
      RETRIEVAL_SPAN_PERSIST, RUN_PERSIST, VALIDATION, PROMOTION, POST_PROMOTION_EVALUATION]
     @ (if set_semantics_enabled st then [POST_PROMOTION_SEMANTICS] else [])"

text \<open>The hooks; the last two say whether the code behind them raises in a state.\<close>

record hooks =
  hk_parse_pdf :: "path \<Rightarrow> string \<Rightarrow> exn + parsed_document"
  hk_embedding :: "embedding_provider option"
  hk_rebuild_spans :: "db \<Rightarrow> exn option"
  hk_semantic_pass :: "db \<Rightarrow> exn option"

text \<open>The fields of a \<open>RunProcessor\<close>; \<open>rp_run\<close> and \<open>rp_document\<close> are the identifiers.\<close>

record run_processor =
  rp_run :: uuid
  rp_document :: uuid
  rp_parsed :: "parsed_document option"
  rp_json_path :: "path option"
  rp_yaml_path :: "path option"
  rp_lineage :: "(int \<times> lineage) list"
  rp_report :: "validation_report option"

text \<open>An exception of a stage carries the report when it is a \<open>ValidationError\<close>.\<close>

type_synonym stage_result = "world \<times> ((exn \<times> validation_report option) + run_processor)"

definition assertion_error :: "exn \<times> validation_report option" where
  "assertion_error = (Py_Error ''AssertionError'' False [], None)"

definition validation_failed :: "validation_report \<Rightarrow> exn \<times> validation_report option" where
  "validation_failed report = (Py_Error ''ValidationError'' True (vr_summary report), Some report)"

definition parse_stage :: "hooks \<Rightarrow> run_processor \<Rightarrow> world \<Rightarrow> stage_result" where
  "parse_stage hk p w =
     (let w1 = heartbeat_run (rp_run p) w in
      case get_document (rp_document p) (w_db w1) of
        None \<Rightarrow> (w1, Inl assertion_error)
      | Some x \<Rightarrow>
          (case hk_parse_pdf hk (doc_source_path x) (doc_source_filename x) of
             Inl e \<Rightarrow> (w1, Inl (e, None))
           | Inr parsed \<Rightarrow>
               (heartbeat_run (rp_run p) w1, Inr (p\<lparr>rp_parsed := Some parsed\<rparr>))))"

definition embedding_stage ::
  "codecs \<Rightarrow> settings \<Rightarrow> hooks \<Rightarrow> run_processor \<Rightarrow> parsed_document \<Rightarrow> world \<Rightarrow> stage_result" where
  "embedding_stage cx st hk p parsed w =
     (case apply_embeddings st (hk_embedding hk) (rp_run p) parsed w of
        (w1, Inl e) \<Rightarrow> (w1, Inl (e, None))
      | (w1, Inr parsed1) \<Rightarrow>
          (case get_document (rp_document p) (w_db w1) of
             None \<Rightarrow> (w1, Inl assertion_error)
           | Some x \<Rightarrow>
               (w1, Inr (p\<lparr>rp_parsed := Some parsed1,
                          rp_lineage := build_lineage_assignments cx (w_db w1) x parsed1\<rparr>))))"

definition validation_stage ::
  "codecs \<Rightarrow> settings \<Rightarrow> run_processor \<Rightarrow> parsed_document \<Rightarrow> world \<Rightarrow> stage_result" where
  "validation_stage cx st p parsed w =
     (let w1 = heartbeat_run (rp_run p) (mark_run_validating (rp_run p) w) in
      case (get_document (rp_document p) (w_db w1), get_run (rp_run p) (w_db w1)) of
        (Some x, Some r) \<Rightarrow>
          (let report = validate_persisted_run cx st x r parsed w1 in
           if \<not> vr_passed report then (w1, Inl (validation_failed report))
           else (w1, Inr (p\<lparr>rp_report := Some report\<rparr>)))
      | _ \<Rightarrow> (w1, Inl assertion_error))"

fun run_stage ::
  "codecs \<Rightarrow> settings \<Rightarrow> path \<Rightarrow> hooks \<Rightarrow> run_processor \<Rightarrow> run_processing_stage \<Rightarrow> world \<Rightarrow> stage_result"
where
  "run_stage cx st base hk p PARSE w = parse_stage hk p w"
| "run_stage cx st base hk p EMBEDDING w =
     (case rp_parsed p of
        None \<Rightarrow> (w, Inl assertion_error)
      | Some parsed \<Rightarrow> embedding_stage cx st hk p parsed w)"
| "run_stage cx st base hk p ARTIFACT_WRITE w =
     (case rp_parsed p of
        None \<Rightarrow> (w, Inl assertion_error)
      | Some parsed \<Rightarrow>
          (case persist_parsed_artifacts base (rp_document p) (rp_run p) parsed w of
             (w1, j, y) \<Rightarrow> (w1, Inr (p\<lparr>rp_json_path := Some j, rp_yaml_path := Some y\<rparr>))))"
| "run_stage cx st base hk p CHUNK_PERSIST w =
     (case rp_parsed p of
        None \<Rightarrow> (w, Inl assertion_error)
      | Some parsed \<Rightarrow> (replace_run_chunks (rp_document p) (rp_run p) parsed w, Inr p))"
| "run_stage cx st base hk p TABLE_PERSIST w =
     (case rp_parsed p of
        None \<Rightarrow> (w, Inl assertion_error)
      | Some parsed \<Rightarrow>
          (case replace_run_tables cx base (rp_document p) (rp_run p) parsed (rp_lineage p) w of
             (w1, parsed1) \<Rightarrow> (w1, Inr (p\<lparr>rp_parsed := Some parsed1\<rparr>))))"
| "run_stage cx st base hk p FIGURE_PERSIST w =
     (case rp_parsed p of
        None \<Rightarrow> (w, Inl assertion_error)
      | Some parsed \<Rightarrow>
          (case replace_run_figures cx base (rp_document p) (rp_run p) parsed w of
             (w1, parsed1) \<Rightarrow> (w1, Inr (p\<lparr>rp_parsed := Some parsed1\<rparr>))))"
| "run_stage cx st base hk p RETRIEVAL_SPAN_PERSIST w =
     (case hk_rebuild_spans hk (w_db w) of
        Some e \<Rightarrow> (w, Inl (e, None)) | None \<Rightarrow> (w, Inr p))"
| "run_stage cx st base hk p RUN_PERSIST w =
     (case (rp_parsed p, rp_json_path p, rp_yaml_path p) of
        (Some parsed, Some j, Some y) \<Rightarrow>
          (mark_run_persisted (rp_document p) (rp_run p) parsed j y w, Inr p)
      | _ \<Rightarrow> (w, Inl assertion_error))"
| "run_stage cx st base hk p VALIDATION w =
     (case rp_parsed p of
        None \<Rightarrow> (w, Inl assertion_error)
      | Some parsed \<Rightarrow> validation_stage cx st p parsed w)"
| "run_stage cx st base hk p PROMOTION w =
     (case (rp_parsed p, rp_report p) of
        (Some parsed, Some report) \<Rightarrow>
          (finalize_run_success (Some base) (rp_document p) (rp_run p) parsed report w, Inr p)
      | _ \<Rightarrow> (w, Inl assertion_error))"
| "run_stage cx st base hk p POST_PROMOTION_EVALUATION w = (w, Inr p)"
| "run_stage cx st base hk p POST_PROMOTION_SEMANTICS w =
     (case hk_semantic_pass hk (w_db w) of Some e \<Rightarrow> (rollback w, Inr p) | None \<Rightarrow> (w, Inr p))"

text \<open>
  The loop over the stages: the state, the stage that was reached, and the exception or the
  processor.
\<close>

fun run_all_stages ::
  "codecs \<Rightarrow> settings \<Rightarrow> path \<Rightarrow> hooks \<Rightarrow> run_processing_stage list \<Rightarrow> run_processing_stage \<Rightarrow>
   run_processor \<Rightarrow> world \<Rightarrow>
   world \<times> run_processing_stage \<times> ((exn \<times> validation_report option) + run_processor)" where
  "run_all_stages cx st base hk [] reached p w = (w, reached, Inr p)"
| "run_all_stages cx st base hk (s # ss) reached p w =
     (case run_stage cx st base hk p s w of
        (w1, Inl e) \<Rightarrow> (w1, s, Inl e)
      | (w1, Inr p1) \<Rightarrow> run_all_stages cx st base hk ss s p1 w1)"

text \<open>\<open>RunProcessor.process\<close>; an exception leaves it only when the run has disappeared.\<close>

definition process ::
  "codecs \<Rightarrow> settings \<Rightarrow> path \<Rightarrow> hooks \<Rightarrow> run_processor \<Rightarrow> world \<Rightarrow> world \<times> (exn + unit)" where
  "process cx st base hk p w =
     (case run_all_stages cx st base hk (run_stages st) PARSE p w of
        (w1, _, Inr _) \<Rightarrow> (w1, Inr ())
      | (w1, stage, Inl (e, report)) \<Rightarrow>
          (let w2 = rollback w1 in
           case get_run (rp_run p) (w_db w2) of
             None \<Rightarrow> (w2, Inl e)
           | Some r \<Rightarrow>
               (finalize_run_failure cx st (Some base) (get_document (rp_document p) (w_db w2))
                  (rp_run p) e report (Some (stage_value stage)) w2, Inr ())))"

definition new_processor :: "uuid \<Rightarrow> uuid \<Rightarrow> run_processor" where
  "new_processor run document = \<lparr>rp_run = run, rp_document = document, rp_parsed = None,
     rp_json_path = None, rp_yaml_path = None, rp_lineage = [], rp_report = None\<rparr>"

definition process_run ::
  "codecs \<Rightarrow> settings \<Rightarrow> path \<Rightarrow> hooks \<Rightarrow> uuid \<Rightarrow> world \<Rightarrow> world \<times> (exn + unit)" where
  "process_run cx st base hk run w =
     (case get_run run (w_db w) of
        None \<Rightarrow> (w, Inl (value_error (''Run '' @ show_nat run @ '' does not exist.'')))
      | Some r \<Rightarrow>
          (case get_document (run_document_id r) (w_db w) of
             None \<Rightarrow> (w, Inl (value_error
               (''Document '' @ show_nat (run_document_id r) @ '' does not exist.'')))
           | Some x \<Rightarrow>
               if w_files w (doc_source_path x) = None
               then (w, Inl (value_error ''Source file missing before worker pickup.''))
               else process cx st base hk (new_processor run (doc_id x)) w))"

text \<open>
  One round of the worker loop. The result says whether a run was claimed; an exception of
  \<open>process_run\<close> ends the loop.
\<close>

definition worker_round ::
  "codecs \<Rightarrow> settings \<Rightarrow> path \<Rightarrow> hooks \<Rightarrow> string \<Rightarrow> world \<Rightarrow> world \<times> (exn + bool)" where
  "worker_round cx st base hk worker w =
     (let w1 = fst (requeue_stale_runs cx st (Some base) w) in
      case claim_next_run worker w1 of
        (w2, None) \<Rightarrow> (w2, Inr False)
      | (w2, Some i) \<Rightarrow>
          (case process_run cx st base hk i w2 of
             (w3, Inl e) \<Rightarrow> (w3, Inl e)
           | (w3, Inr _) \<Rightarrow> (w3, Inr True)))"

section \<open>What the stages leave alone\<close>

text \<open>Writing chunks, tables and figures touches neither runs nor documents and commits nothing.\<close>

definition artifact_frame :: "world \<Rightarrow> world \<Rightarrow> bool" where
  "artifact_frame w w' =
     (db_runs (w_db w') = db_runs (w_db w) \<and> db_documents (w_db w') = db_documents (w_db w)
      \<and> w_saved w' = w_saved w \<and> w_clock w' = w_clock w)"

lemma artifact_frame_refl [simp]: "artifact_frame w w"
  by (simp add: artifact_frame_def)

lemma artifact_frame_trans: "artifact_frame u v \<Longrightarrow> artifact_frame v w \<Longrightarrow> artifact_frame u w"
  by (simp add: artifact_frame_def)

lemma artifact_frame_foldl:
  "(\<And>w x. artifact_frame w (f w x)) \<Longrightarrow> artifact_frame w (foldl f w xs)"
  by (induction xs arbitrary: w) (auto intro: artifact_frame_trans)

lemma artifact_frame_foldl_fst:
  assumes "\<And>st x. artifact_frame (fst st) (fst (f st x))"
  shows "artifact_frame (fst st) (fst (foldl f st xs))"
proof (induction xs arbitrary: st)
  case (Cons x xs)
  show ?case
    using artifact_frame_trans [OF assms [of st x] Cons.IH [of "f st x"]] by simp
qed simp

lemma replace_run_chunks_frame: "artifact_frame w (replace_run_chunks document run parsed w)"
proof -
  have step: "artifact_frame v (add_chunk document run v c)" for v c
    by (simp add: add_chunk_def artifact_frame_def case_prod_beta)
  have "artifact_frame w (on_db (delete_run_chunks run) w)"
    by (simp add: artifact_frame_def delete_run_chunks_def)
  then show ?thesis
    unfolding replace_run_chunks_def
    by (rule artifact_frame_trans) (rule artifact_frame_foldl, rule step)
qed

lemma replace_run_tables_frame:
  "artifact_frame w (fst (replace_run_tables cx base document run parsed assignments w))"
proof -
  have seg: "artifact_frame v (add_segment_row i run v s)" for v i s
    by (simp add: add_segment_row_def artifact_frame_def case_prod_beta)
  have step: "artifact_frame (fst st) (fst (persist_table cx base document run assignments st t))"
    for st t
  proof -
    obtain v seen where st: "st = (v, seen)" by fastforce
    show ?thesis
      unfolding st persist_table_def Let_def persist_table_artifacts_def case_prod_beta fst_conv snd_conv
      by (rule artifact_frame_trans [OF _ artifact_frame_foldl [OF seg]])
        (simp add: artifact_frame_def)
  qed
  have del: "artifact_frame w (on_db (delete_run_tables run) w)"
    by (simp add: artifact_frame_def delete_run_tables_def)
  have "artifact_frame w (fst (foldl (persist_table cx base document run assignments)
      (on_db (delete_run_tables run) w, []) (pd_tables parsed)))"
    using artifact_frame_trans [OF del]
      artifact_frame_foldl_fst [where f = "persist_table cx base document run assignments", OF step]
    by (metis fst_conv)
  then show ?thesis by (simp add: replace_run_tables_def case_prod_beta Let_def)
qed

lemma replace_run_figures_frame:
  "artifact_frame w (fst (replace_run_figures cx base document run parsed w))"
proof -
  have step: "artifact_frame (fst st) (fst (persist_figure cx base document run st f))" for st f
  proof -
    obtain v seen where st: "st = (v, seen)" by fastforce
    show ?thesis
      unfolding st persist_figure_def Let_def persist_figure_artifacts_def case_prod_beta fst_conv snd_conv
      by (simp add: artifact_frame_def)
  qed
  have del: "artifact_frame w (on_db (delete_run_figures run) w)"
    by (simp add: artifact_frame_def delete_run_figures_def)
  have "artifact_frame w (fst (foldl (persist_figure cx base document run)
      (on_db (delete_run_figures run) w, []) (pd_figures parsed)))"
    using artifact_frame_trans [OF del]
      artifact_frame_foldl_fst [where f = "persist_figure cx base document run", OF step]
    by (metis fst_conv)
  then show ?thesis by (simp add: replace_run_figures_def case_prod_beta Let_def)
qed

text \<open>
  Until promotion a stage changes only its own run, which stays in progress, and of the documents
  nothing that concerns the active run.
\<close>

definition keeps_run :: "(document_run \<Rightarrow> document_run) \<Rightarrow> bool" where
  "keeps_run f \<longleftrightarrow>
     (\<forall>r. run_id (f r) = run_id r \<and> run_document_id (f r) = run_document_id r
        \<and> run_attempts (f r) = run_attempts r \<and> run_number (f r) = run_number r
        \<and> run_failure_artifact_path (f r) = run_failure_artifact_path r
        \<and> (in_progress r \<longrightarrow> in_progress (f r)))"

definition document_core :: "document \<Rightarrow> uuid \<times> uuid option \<times> path \<times> string" where
  "document_core x = (doc_id x, doc_active_run_id x, doc_source_path x, doc_sha256 x)"

definition working :: "uuid \<Rightarrow> db \<Rightarrow> db \<Rightarrow> bool" where
  "working i d0 d \<longleftrightarrow>
     (\<exists>f. keeps_run f \<and> db_runs d = update_row run_id i f (db_runs d0)) \<and>
     map document_core (db_documents d) = map document_core (db_documents d0)"

lemma update_row_id: "update_row key i (\<lambda>r. r) rows = rows"
  by (induction rows) simp_all

lemma update_row_update_row:
  "(\<And>r. key (f r) = key r) \<Longrightarrow>
   update_row key i g (update_row key i f rows) = update_row key i (g \<circ> f) rows"
  by (induction rows) simp_all

lemma working_refl: "working i d d"
  unfolding working_def by (intro conjI exI [of _ "\<lambda>r. r"]) (simp_all add: keeps_run_def update_row_id)

lemma working_step:
  assumes "working i d0 d" and "keeps_run f" and "db_runs d' = update_row run_id i f (db_runs d)"
    and "map document_core (db_documents d') = map document_core (db_documents d)"
  shows "working i d0 d'"
proof -
  from assms(1) obtain g where g: "keeps_run g" "db_runs d = update_row run_id i g (db_runs d0)"
    by (auto simp: working_def)
  have "keeps_run (f \<circ> g)" using assms(2) g(1) by (simp add: keeps_run_def)
  moreover have "db_runs d' = update_row run_id i (f \<circ> g) (db_runs d0)"
    using assms(3) g by (simp add: keeps_run_def update_row_update_row)
  ultimately show ?thesis using assms(1,4) unfolding working_def by metis
qed

lemma working_frame:
  "working i d0 d \<Longrightarrow> db_runs d' = db_runs d \<Longrightarrow> db_documents d' = db_documents d \<Longrightarrow> working i d0 d'"
  by (simp add: working_def)

lemma keeps_run_steps:
  "keeps_run (\<lambda>r. r\<lparr>run_last_heartbeat_at := t\<rparr>)"
  "keeps_run (\<lambda>r. r\<lparr>run_embedding_model := m, run_embedding_dim := n\<rparr>)"
  "keeps_run (persisted_run parsed j y)" "keeps_run (validating_run now)"
  by (simp_all add: keeps_run_def in_progress_def persisted_run_def validating_run_def)

lemma map_core_update:
  "(\<And>x. document_core (f x) = document_core x) \<Longrightarrow>
   map document_core (update_row doc_id i f xs) = map document_core xs"
  by (induction xs) simp_all

text \<open>Both what the session sees and what is committed stay related to the state at the start.\<close>

definition working_world :: "uuid \<Rightarrow> db \<Rightarrow> world \<Rightarrow> bool" where
  "working_world i d0 w = (working i d0 (w_db w) \<and> working i d0 (w_saved w))"

lemma working_heartbeat:
  "working_world i d0 w \<Longrightarrow> working_world i d0 (heartbeat_run i w)"
  unfolding working_world_def heartbeat_run_def
  by (auto intro: working_step [OF _ keeps_run_steps(1)])

lemma working_persisted:
  "working_world i d0 w \<Longrightarrow> working_world i d0 (mark_run_persisted document i parsed j y w)"
proof -
  assume w: "working_world i d0 w"
  have "working i d0 (w_db (mark_run_persisted document i parsed j y w))"
    by (rule working_step [of i d0 "w_db w", OF _ keeps_run_steps(3) [of parsed j y]])
      (use w in \<open>simp_all add: working_world_def mark_run_persisted_def map_core_update
        document_core_def point_latest_def\<close>)
  then show ?thesis by (simp add: working_world_def mark_run_persisted_def)
qed

lemma working_validating:
  "working_world i d0 w \<Longrightarrow> working_world i d0 (mark_run_validating i w)"
  unfolding working_world_def mark_run_validating_def
  by (auto intro: working_step [OF _ keeps_run_steps(4)])

lemma working_embedding:
  "working_world i d0 w \<Longrightarrow> working_world i d0 (set_run_embedding i m n w)"
  unfolding working_world_def set_run_embedding_def
  by (auto intro: working_step [OF _ keeps_run_steps(2)])

lemma working_artifacts: "working_world i d0 w \<Longrightarrow> artifact_frame w w' \<Longrightarrow> working_world i d0 w'"
  by (auto simp: working_world_def artifact_frame_def intro: working_frame)

lemma working_rollback: "working_world i d0 w \<Longrightarrow> working_world i d0 (rollback w)"
  by (simp add: working_world_def)

definition before_promotion :: "run_processing_stage \<Rightarrow> bool" where
  "before_promotion s =
     (s \<notin> {PROMOTION, POST_PROMOTION_EVALUATION, POST_PROMOTION_SEMANTICS})"

lemma apply_embeddings_working:
  "working_world i d0 w \<Longrightarrow> working_world i d0 (fst (apply_embeddings st prov i parsed w))"
  by (auto simp: apply_embeddings_def working_embedding split: option.split sum.split)

lemma stage_working:
  assumes "working_world i d0 w" and "before_promotion s" and "rp_run p = i"
  shows "working_world i d0 (fst (run_stage cx st base hk p s w))"
proof (cases s)
  case PARSE
  then show ?thesis
    using assms by (auto simp: parse_stage_def Let_def working_heartbeat split: option.split sum.split)
next
  case EMBEDDING
  show ?thesis
  proof (cases "rp_parsed p")
    case (Some parsed)
    obtain w1 r where ae: "apply_embeddings st (hk_embedding hk) i parsed w = (w1, r)" by fastforce
    then have "working_world i d0 w1"
      using apply_embeddings_working [OF assms(1), of st "hk_embedding hk" parsed] by simp
    then show ?thesis
      using assms(3) EMBEDDING Some ae
      by (simp add: embedding_stage_def split: option.split sum.split)
  qed (use assms EMBEDDING in simp)
next
  case ARTIFACT_WRITE
  have "artifact_frame w (fst (persist_parsed_artifacts base (rp_document p) (rp_run p) parsed w))"
    for parsed
    by (simp add: persist_parsed_artifacts_def artifact_frame_def Let_def)
  then show ?thesis
    using assms(1) ARTIFACT_WRITE working_artifacts
    by (cases "rp_parsed p") (simp_all add: case_prod_beta)
next
  case CHUNK_PERSIST
  then show ?thesis
    using assms working_artifacts [OF assms(1) replace_run_chunks_frame]
    by (auto split: option.split)
next
  case TABLE_PERSIST
  then show ?thesis
    using assms(1) working_artifacts [OF assms(1) replace_run_tables_frame]
    by (cases "rp_parsed p") (simp_all add: case_prod_beta)
next
  case FIGURE_PERSIST
  then show ?thesis
    using assms(1) working_artifacts [OF assms(1) replace_run_figures_frame]
    by (cases "rp_parsed p") (simp_all add: case_prod_beta)
next
  case VALIDATION
  then show ?thesis
    using assms working_heartbeat [OF working_validating [OF assms(1)]]
    by (auto simp: validation_stage_def Let_def split: option.split)
qed (use assms in \<open>auto simp: before_promotion_def working_persisted split: option.split\<close>)

text \<open>The processor keeps its run and document, and holds only reports of passed validations.\<close>

definition is_report :: "codecs \<Rightarrow> settings \<Rightarrow> validation_report \<Rightarrow> bool" where
  "is_report cx st rep \<longleftrightarrow> (\<exists>x r parsed v. rep = validate_persisted_run cx st x r parsed v)"

lemma is_report_validate [simp]: "is_report cx st (validate_persisted_run cx st x r parsed v)"
  by (auto simp: is_report_def)

definition report_ok :: "codecs \<Rightarrow> settings \<Rightarrow> run_processor \<Rightarrow> bool" where
  "report_ok cx st p \<longleftrightarrow>
     (\<forall>rep. rp_report p = Some rep \<longrightarrow> vr_passed rep \<and> is_report cx st rep)"

lemma stage_processor:
  "run_stage cx st base hk p s w = (w', Inr p') \<Longrightarrow> report_ok cx st p \<Longrightarrow>
   rp_run p' = rp_run p \<and> rp_document p' = rp_document p \<and> report_ok cx st p'"
  by (cases s)
    (auto simp: parse_stage_def embedding_stage_def validation_stage_def report_ok_def Let_def
      split: option.splits sum.splits prod.splits if_splits)

lemma stages_working:
  assumes "list_all before_promotion ss" and "working_world i d0 w" and "rp_run p = i"
    and "report_ok cx st p" and "run_all_stages cx st base hk ss reached p w = (w', s, r)"
  shows "working_world i d0 w' \<and>
    (\<forall>p'. r = Inr p' \<longrightarrow> rp_run p' = i \<and> rp_document p' = rp_document p \<and> report_ok cx st p')"
  using assms
proof (induction ss arbitrary: reached p w)
  case (Cons a ss)
  obtain w1 q where st1: "run_stage cx st base hk p a w = (w1, q)" by fastforce
  have ww: "working_world i d0 w1"
    using stage_working [of i d0 w a p cx st base hk] Cons.prems(1-3) st1 by simp
  show ?case
  proof (cases q)
    case (Inl e)
    then show ?thesis using Cons.prems(5) st1 ww by auto
  next
    case (Inr p1)
    note keep = stage_processor [OF st1 [unfolded Inr] Cons.prems(4)]
    have rest: "run_all_stages cx st base hk ss a p1 w1 = (w', s, r)"
      using Cons.prems(5) unfolding run_all_stages.simps st1 Inr by simp
    have "list_all before_promotion ss" "rp_run p1 = i" using Cons.prems(1,3) keep by simp_all
    from Cons.IH [OF this(1) ww this(2) _ rest] keep show ?thesis by simp
  qed
qed auto

lemma run_all_stages_append:
  "run_all_stages cx st base hk (xs @ ys) reached p w =
    (case run_all_stages cx st base hk xs reached p w of
       (w1, s, Inl e) \<Rightarrow> (w1, s, Inl e)
     | (w1, s, Inr p1) \<Rightarrow> run_all_stages cx st base hk ys s p1 w1)"
proof (induction xs arbitrary: reached p w)
  case (Cons x xs)
  obtain w1 q where st1: "run_stage cx st base hk p x w = (w1, q)" by (metis surj_pair)
  show ?case
    by (cases q) (simp_all only: append_Cons run_all_stages.simps st1 prod.case sum.case Cons.IH)
qed simp

lemma stage_clock:
  assumes "run_stage cx st base hk p s w = (w', r)"
  shows "w_clock w' = w_clock w"
proof -
  have f: "w_clock (replace_run_chunks d i ps w) = w_clock w"
    "w_clock (fst (replace_run_tables cx base d i ps as w)) = w_clock w"
    "w_clock (fst (replace_run_figures cx base d i ps w)) = w_clock w" for d i ps as
    using replace_run_chunks_frame replace_run_tables_frame replace_run_figures_frame
    by (simp_all add: artifact_frame_def)
  have e: "w_clock (fst (apply_embeddings st pr i ps w)) = w_clock w" for pr i ps
    by (simp add: apply_embeddings_def set_run_embedding_def split: option.split sum.split)
  have a: "w_clock (fst (run_stage cx st base hk p s w)) = w_clock w"
    by (cases s)
      (use f e in \<open>auto simp: parse_stage_def embedding_stage_def validation_stage_def Let_def
        heartbeat_run_def mark_run_persisted_def mark_run_validating_def
        persist_parsed_artifacts_def finalize_run_success_def case_prod_beta
        split: option.split sum.split\<close>)
  then show ?thesis using assms by simp
qed

lemma stages_clock:
  "run_all_stages cx st base hk ss reached p w = (w', s, r) \<Longrightarrow> w_clock w' = w_clock w"
proof (induction ss arbitrary: reached p w)
  case (Cons a ss)
  obtain w1 q where st1: "run_stage cx st base hk p a w = (w1, q)" by (metis surj_pair)
  show ?case
    using Cons stage_clock [OF st1] by (cases q) (auto simp: st1)
qed simp

definition stages_before_promotion :: "run_processing_stage list" where
  "stages_before_promotion =
     [PARSE, EMBEDDING, ARTIFACT_WRITE, CHUNK_PERSIST, TABLE_PERSIST, FIGURE_PERSIST,
      RETRIEVAL_SPAN_PERSIST, RUN_PERSIST, VALIDATION]"

lemma run_stages_split:
  "run_stages st = stages_before_promotion @ PROMOTION # POST_PROMOTION_EVALUATION #
     (if set_semantics_enabled st then [POST_PROMOTION_SEMANTICS] else [])"
  by (simp add: run_stages_def stages_before_promotion_def)

text \<open>
  The two ways processing ends: after a failure before promotion the run is finalised as failed in
  the committed state, otherwise it is finalised as completed and the later stages change nothing.
\<close>

lemma process_cases:
  assumes "working_world i d0 w" and "rp_run p = i" and "rp_report p = None"
  obtains (failed) w1 e report s where "working_world i d0 w1"
      "run_all_stages cx st base hk (run_stages st) PARSE p w = (w1, s, Inl (e, report))"
  | (promoted) w1 p1 parsed report where "working_world i d0 w1" "report_ok cx st p1"
      "w_clock w1 = w_clock w"
      "rp_report p1 = Some report"
      "process cx st base hk p w =
        (finalize_run_success (Some base) (rp_document p) i parsed report w1, Inr ())"
      "rp_parsed p1 = Some parsed"
      "\<exists>s. run_all_stages cx st base hk stages_before_promotion PARSE p w = (w1, s, Inr p1)"
proof -
  obtain w1 s r where pre:
    "run_all_stages cx st base hk stages_before_promotion PARSE p w = (w1, s, r)"
    by (metis prod_cases3)
  have "list_all before_promotion stages_before_promotion"
    by (simp add: stages_before_promotion_def before_promotion_def)
  from stages_working [OF this assms(1,2) _ pre] assms(3)
  have ww: "working_world i d0 w1" and keep: "\<And>p'. r = Inr p' \<Longrightarrow>
      rp_run p' = i \<and> rp_document p' = rp_document p \<and> report_ok cx st p'"
    by (auto simp: report_ok_def)
  show ?thesis
  proof (cases r)
    case (Inl er)
    obtain e rep where "er = (e, rep)" by fastforce
    with Inl pre have "run_all_stages cx st base hk (run_stages st) PARSE p w = (w1, s, Inl (e, rep))"
      by (simp add: run_stages_split run_all_stages_append)
    then show ?thesis by (rule failed [OF ww])
  next
    case (Inr p1)
    note k = keep [OF Inr]
    show ?thesis
    proof (cases "rp_parsed p1 = None \<or> rp_report p1 = None")
      case True
      then have "run_stage cx st base hk p1 PROMOTION w1 = (w1, Inl assertion_error)"
        by (auto split: option.splits)
      then have "run_all_stages cx st base hk (run_stages st) PARSE p w =
          (w1, PROMOTION, Inl assertion_error)"
        using pre Inr by (simp add: run_stages_split run_all_stages_append)
      then show ?thesis using failed [OF ww] by (simp add: assertion_error_def)
    next
      case False
      then obtain parsed report where pr: "rp_parsed p1 = Some parsed" "rp_report p1 = Some report"
        by auto
      let ?w2 = "finalize_run_success (Some base) (rp_document p) i parsed report w1"
      have "w_saved ?w2 = w_db ?w2" by (simp add: finalize_run_success_def Let_def)
      then have rb: "rollback ?w2 = ?w2" by (simp add: rollback_def)
      have "run_all_stages cx st base hk (run_stages st) PARSE p w =
          run_all_stages cx st base hk (PROMOTION # POST_PROMOTION_EVALUATION #
            (if set_semantics_enabled st then [POST_PROMOTION_SEMANTICS] else [])) s p1 w1"
        using pre Inr by (simp only: run_stages_split run_all_stages_append) simp
      then have "\<exists>s'. run_all_stages cx st base hk (run_stages st) PARSE p w = (?w2, s', Inr p1)"
        using pr k rb by (auto split: option.split)
      then have "process cx st base hk p w = (?w2, Inr ())"
        by (auto simp: process_def)
      then show ?thesis using promoted [OF ww _ stages_clock [OF pre] pr(2) _ pr(1)] k pre Inr by blast
    qed
  qed
qed

section \<open>How a run ends\<close>

text \<open>
  \<open>after_failure\<close> and \<open>after_success\<close> say what a run looks like when it leaves a worker; \<open>now\<close> is
  the time of the clock.
\<close>

definition after_failure :: "settings \<Rightarrow> time \<Rightarrow> document_run \<Rightarrow> document_run \<Rightarrow> bool" where
  "after_failure st now r r' =
     (run_attempts r' = run_attempts r \<and> unlocked r' \<and> run_error_message r' \<noteq> None
      \<and> run_failure_stage r' \<noteq> None
      \<and> (run_status r' = Retry_Wait \<and> run_attempts r < set_worker_max_attempts st
            \<and> run_next_attempt_at r' = Some (now + seconds (retry_backoff (run_attempts r)))
         \<or> run_status r' = Failed \<and> run_completed_at r' = Some now
            \<and> run_validation_status r' = Some ''failed''))"

definition after_success ::
  "codecs \<Rightarrow> settings \<Rightarrow> time \<Rightarrow> document_run \<Rightarrow> document_run \<Rightarrow> bool" where
  "after_success cx st now r r' =
     (run_attempts r' = run_attempts r \<and> unlocked r' \<and> run_status r' = Completed
      \<and> run_completed_at r' = Some now \<and> run_validation_status r' = Some ''passed''
      \<and> (\<exists>report. vr_passed report \<and> is_report cx st report
           \<and> run_validation_results r' = vr_details report))"

lemma working_get_run:
  assumes "working i d0 d" and "get_run i d0 = Some r" and "in_progress r"
  obtains q where "get_run i d = Some q" "run_attempts q = run_attempts r" "in_progress q"
    "run_document_id q = run_document_id r" "run_failure_artifact_path q = run_failure_artifact_path r"
proof -
  from assms(1) obtain f where f: "keeps_run f" "db_runs d = update_row run_id i f (db_runs d0)"
    by (auto simp: working_def)
  then have "get_run i d = Some (f r)"
    using assms(2) by (simp add: find_row_update keeps_run_def)
  then show ?thesis using that f(1) assms(3) by (simp add: keeps_run_def)
qed

lemma working_other_runs:
  "working i d0 d \<Longrightarrow> j \<noteq> i \<Longrightarrow> get_run j d = get_run j d0"
  by (auto simp: working_def find_row_update keeps_run_def)

lemma failed_run_after:
  "run_attempts q = run_attempts r \<Longrightarrow> stage \<noteq> None \<Longrightarrow>
   after_failure st now r
     ((failed_run st now e report stage q)\<lparr>run_failure_artifact_path := fp\<rparr>)"
  by (auto simp: after_failure_def failed_run_def release_run_def unlocked_def Let_def)

lemma finalize_run_failure_runs:
  assumes "get_run i (w_db w) = Some q"
  shows "\<exists>fp. db_runs (w_db (finalize_run_failure cx st base doc i e report stage w)) =
      update_row run_id i
        (\<lambda>_. (failed_run st (w_clock w) e report stage q)\<lparr>run_failure_artifact_path := fp\<rparr>)
        (db_runs (w_db w))
    \<and> db_documents (w_db (finalize_run_failure cx st base doc i e report stage w)) = db_documents (w_db w)
    \<and> w_saved (finalize_run_failure cx st base doc i e report stage w) =
        w_db (finalize_run_failure cx st base doc i e report stage w)"
proof -
  let ?q = "failed_run st (w_clock w) e report stage q"
  obtain w1 fp where wf: "write_failure_artifact cx base doc ?q e stage report w = (w1, fp)"
    by (metis surj_pair)
  then have "w_db w1 = w_db w"
    using write_failure_artifact_simps(1) [of cx base doc ?q e stage report w] by simp
  then show ?thesis
    using assms wf by (auto simp: finalize_run_failure_def Let_def)
qed

lemma finalize_run_success_runs:
  "db_runs (w_db (finalize_run_success base x i parsed report w)) =
     update_row run_id i (completed_run (w_clock w) parsed report) (db_runs (w_db w))"
  "db_documents (w_db (finalize_run_success base x i parsed report w)) =
     update_row doc_id x (promoted_document (w_clock w) i parsed) (db_documents (w_db w))"
  "w_saved (finalize_run_success base x i parsed report w) =
     w_db (finalize_run_success base x i parsed report w)"
  by (simp_all add: finalize_run_success_def Let_def split: option.split)

text \<open>Either way of finalising a run, from a state in which the stages have been working.\<close>

lemma failure_outcome:
  assumes "working i d0 (w_db w)" and "get_run i d0 = Some r" and "in_progress r"
    and "w' = finalize_run_failure cx st base doc i e report (Some s) w"
  shows "\<exists>r'. get_run i (w_db w') = Some r' \<and> w_saved w' = w_db w'
    \<and> (\<forall>j. j \<noteq> i \<longrightarrow> get_run j (w_db w') = get_run j d0)
    \<and> after_failure st (w_clock w) r r'
    \<and> map document_core (db_documents (w_db w')) = map document_core (db_documents d0)"
proof -
  obtain q where q: "get_run i (w_db w) = Some q" "run_attempts q = run_attempts r"
    using working_get_run [OF assms(1-3)] by blast
  obtain fp where fp: "db_runs (w_db w') = update_row run_id i
      (\<lambda>_. (failed_run st (w_clock w) e report (Some s) q)\<lparr>run_failure_artifact_path := fp\<rparr>)
      (db_runs (w_db w))"
    "db_documents (w_db w') = db_documents (w_db w)" "w_saved w' = w_db w'"
    using finalize_run_failure_runs [OF q(1)] assms(4) by blast
  let ?r' = "(failed_run st (w_clock w) e report (Some s) q)\<lparr>run_failure_artifact_path := fp\<rparr>"
  have id: "run_id ?r' = i" using q(1) by (auto dest: find_row_Some)
  have upd: "find_row run_id j (update_row run_id i (\<lambda>_. ?r') rows) =
      (if j = i then map_option (\<lambda>_. ?r') (find_row run_id i rows) else find_row run_id j rows)"
    for j rows
    using id by (induction rows) auto
  have "get_run i (w_db w') = Some ?r'" unfolding fp(1) upd using q(1) by simp
  moreover have "\<forall>j. j \<noteq> i \<longrightarrow> get_run j (w_db w') = get_run j d0"
    unfolding fp(1) upd using working_other_runs [OF assms(1)] by simp
  moreover have "after_failure st (w_clock w) r ?r'" using failed_run_after [OF q(2)] by simp
  moreover have "map document_core (db_documents (w_db w')) = map document_core (db_documents d0)"
    using assms(1) fp(2) by (simp add: working_def)
  ultimately show ?thesis using fp(3) by blast
qed

lemma working_documents:
  assumes "working i d0 d" and "get_document j d0 = Some x"
  shows "get_document j d \<noteq> None"
proof -
  have "map fst (map document_core (db_documents d)) = map fst (map document_core (db_documents d0))"
    using assms(1) by (simp only: working_def)
  then have ids: "doc_id ` set (db_documents d) = doc_id ` set (db_documents d0)"
    by (simp add: document_core_def comp_def) (metis list.set_map)
  have "j \<in> doc_id ` set (db_documents d0)" using assms(2) by (auto dest: find_row_Some)
  then show ?thesis unfolding find_row_None ids by simp
qed

lemma success_outcome:
  assumes "working i d0 (w_db w)" and "get_run i d0 = Some r" and "in_progress r"
    and "get_document (doc_id x) d0 = Some x" and "vr_passed report" and "is_report cx st report"
    and "w' = finalize_run_success base (doc_id x) i parsed report w"
  shows "\<exists>r'. get_run i (w_db w') = Some r' \<and> w_saved w' = w_db w'
    \<and> (\<forall>j. j \<noteq> i \<longrightarrow> get_run j (w_db w') = get_run j d0)
    \<and> after_success cx st (w_clock w) r r'
    \<and> map_option doc_active_run_id (get_document (doc_id x) (w_db w')) = Some (Some i)"
proof -
  obtain q where q: "get_run i (w_db w) = Some q" "run_attempts q = run_attempts r"
    using working_get_run [OF assms(1-3)] by blast
  let ?r' = "completed_run (w_clock w) parsed report q"
  have runs: "get_run i (w_db w') = Some ?r'" "\<forall>j. j \<noteq> i \<longrightarrow> get_run j (w_db w') = get_run j d0"
    using q(1) working_other_runs [OF assms(1)]
    by (simp_all add: assms(7) finalize_run_success_runs find_row_update)
  have "after_success cx st (w_clock w) r ?r'"
    using assms(5,6) q(2)
    by (auto simp: after_success_def completed_run_def release_run_def unlocked_def)
  moreover have "map_option doc_active_run_id (get_document (doc_id x) (w_db w')) = Some (Some i)"
    using working_documents [OF assms(1,4)]
    by (auto simp: assms(7) finalize_run_success_runs find_row_update promoted_document_def)
  ultimately show ?thesis
    using runs finalize_run_success_runs(3) assms(7) by blast
qed

lemma process_run_known:
  assumes "get_run i (w_db w) = Some r" and "get_document (run_document_id r) (w_db w) = Some x"
    and "w_files w (doc_source_path x) \<noteq> None"
  shows "process_run cx st base hk i w = process cx st base hk (new_processor i (doc_id x)) w"
proof -
  obtain content where "w_files w (doc_source_path x) = Some content" using assms(3) by auto
  then show ?thesis using assms(1,2) by (simp add: process_run_def)
qed

lemma process_run_finishes:
  assumes "runs_settled w" and "get_run i (w_db w) = Some r" and "in_progress r"
    and "get_document (run_document_id r) (w_db w) = Some x"
    and "w_files w (doc_source_path x) \<noteq> None"
  shows "\<exists>w' r'. process_run cx st base hk i w = (w', Inr ()) \<and> get_run i (w_db w') = Some r'
    \<and> w_saved w' = w_db w' \<and> (\<forall>j. j \<noteq> i \<longrightarrow> get_run j (w_db w') = get_run j (w_db w))
    \<and> (after_success cx st (w_clock w) r r' \<and>
          map_option doc_active_run_id (get_document (doc_id x) (w_db w')) = Some (Some i)
       \<or> after_failure st (w_clock w) r r' \<and>
          map document_core (db_documents (w_db w')) = map document_core (db_documents (w_db w)))"
proof -
  let ?p = "new_processor i (doc_id x)"
  have ww: "working_world i (w_db w) w"
    using assms(1) by (simp add: working_world_def working_refl runs_settled_def)
  have p: "rp_run ?p = i" "rp_report ?p = None" "rp_document ?p = doc_id x"
    by (simp_all add: new_processor_def)
  have x: "get_document (doc_id x) (w_db w) = Some x"
    using assms(4) by (metis find_row_Some)
  note known = process_run_known [OF assms(2,4,5), of cx st base hk]
  show ?thesis
    using ww p(1,2)
  proof (cases rule: process_cases [where cx = cx and st = st and base = base and hk = hk])
    case (failed w1 e report s)
    let ?w2 = "rollback w1"
    let ?w3 = "finalize_run_failure cx st (Some base) (get_document (doc_id x) (w_db ?w2)) i e report
        (Some (stage_value s)) ?w2"
    have wk: "working i (w_db w) (w_db ?w2)" using failed(1) by (simp add: working_world_def)
    obtain q where "get_run i (w_db ?w2) = Some q" using working_get_run [OF wk assms(2,3)] by blast
    then have res: "process_run cx st base hk i w = (?w3, Inr ())"
      using failed(2) p(1,3) by (simp add: known process_def Let_def)
    have "w_clock ?w2 = w_clock w" using stages_clock [OF failed(2)] by simp
    with failure_outcome [OF wk assms(2,3) refl, where cx = cx and st = st and base = "Some base"
        and doc = "get_document (doc_id x) (w_db ?w2)" and e = e and report = report
        and s = "stage_value s"]
    obtain r' where "get_run i (w_db ?w3) = Some r'" "w_saved ?w3 = w_db ?w3"
      "\<forall>j. j \<noteq> i \<longrightarrow> get_run j (w_db ?w3) = get_run j (w_db w)"
      "after_failure st (w_clock w) r r'"
      "map document_core (db_documents (w_db ?w3)) = map document_core (db_documents (w_db w))"
      by (auto simp del: world_simps)
    with res show ?thesis by blast
  next
    case (promoted w1 p1 parsed report)
    let ?w3 = "finalize_run_success (Some base) (doc_id x) i parsed report w1"
    have wk: "working i (w_db w) (w_db w1)" using promoted(1) by (simp add: working_world_def)
    have rep: "vr_passed report" "is_report cx st report"
      using promoted(2,4) by (simp_all add: report_ok_def)
    have "process_run cx st base hk i w = (?w3, Inr ())" using promoted(5) p(3) by (simp add: known)
    then show ?thesis
      using success_outcome [OF wk assms(2,3) x rep refl, of "Some base" parsed]
      unfolding promoted(3) by blast
  qed
qed


text \<open>An example: a document whose first run has just been claimed, and a parser that gives up.\<close>

definition example_document :: document where
  "example_document =
     (new_document 4 ''a.pdf'' ''sha'' ''application/pdf'' 0)\<lparr>doc_source_path := ''store/a.pdf'',
        doc_latest_run_id := Some 5\<rparr>"

definition example_world :: world where
  "example_world =
     (let d = empty_db\<lparr>db_documents := [example_document], db_runs := [new_run 5 4 1 0]\<rparr> in
      \<lparr>w_db = d, w_saved = d, w_files = [''store/a.pdf'' \<mapsto> ''%PDF-1.7''], w_clock = 1000,
       w_fresh = 6\<rparr>)"

definition example_claimed :: world where
  "example_claimed = fst (claim_next_run ''worker-1'' example_world)"

definition example_hooks :: hooks where
  "example_hooks = \<lparr>hk_parse_pdf = (\<lambda>_ _. Inl (Py_Error ''RuntimeError'' False ''boom'')),
     hk_embedding = None, hk_rebuild_spans = (\<lambda>_. None), hk_semantic_pass = (\<lambda>_. None)\<rparr>"

lemmas example_run_defs = example_document_def example_world_def example_claimed_def Let_def
  new_document_def new_run_def empty_db_def

lemma example_claimed_simps:
  "runs_settled example_claimed" "w_clock example_claimed = 1000"
  "get_run 5 (w_db example_claimed) = Some (claimed_run 1000 ''worker-1'' (new_run 5 4 1 0))"
  "get_document 4 (w_db example_claimed) = Some example_document"
  "w_files example_claimed ''store/a.pdf'' \<noteq> None"
  by (simp_all add: example_run_defs claim_next_run_def run_eligible_def claimed_run_def
      runs_settled_def)


section \<open>A source file that is gone\<close>

text \<open>
  When the source file of the claimed run is gone, the round of the worker loop ends with the
  \<open>ValueError\<close> of \<open>process_run\<close>, which nothing catches: the run stays claimed and committed as
  processing, with its attempt counted and no reason recorded, until its lease runs out.
\<close>

theorem missing_source_stops_worker:
  assumes "runs_settled w" and "requeue_stale_runs cx st (Some base) w = (w, 0)"
    and "claim_next_run worker w = (w1, Some i)"
    and "get_run i (w_db w) = Some r" and "get_document (run_document_id r) (w_db w) = Some x"
    and "w_files w (doc_source_path x) = None"
  shows "\<exists>e r'. worker_round cx st base hk worker w = (w1, Inl e) \<and> exn_is_value_error e
    \<and> get_run i (w_saved w1) = Some r' \<and> run_status r' = Processing \<and> run_locked_by r' = Some worker
    \<and> run_attempts r' = run_attempts r + 1 \<and> run_error_message r' = run_error_message r"
  using assms(1)
proof (cases rule: claim_next_run_cases [where worker = worker])
  case none
  then show ?thesis using assms(3) by simp
next
  case (run q v)
  then have i: "run_id q = i" "v = w1" and q: "q = r" using assms(3,4) by auto
  have w1: "get_run i (w_db w1) = Some (claimed_run (w_clock w) worker r)"
    "w_saved w1 = w_db w1" "db_documents (w_db w1) = db_documents (w_db w)" "w_files w1 = w_files w"
    using run(5) i q assms(4) by (simp_all add: find_row_update)
  have "process_run cx st base hk i w1 =
      (w1, Inl (value_error ''Source file missing before worker pickup.''))"
    using w1 assms(5,6) by (simp add: process_run_def)
  then have "worker_round cx st base hk worker w =
      (w1, Inl (value_error ''Source file missing before worker pickup.''))"
    using assms(2,3) by (simp add: worker_round_def)
  then show ?thesis using w1(1,2) by (simp add: claimed_run_def value_error_def)
qed

theorem missing_source_stops_worker_witness:
  "\<exists>e r'. worker_round example_codecs default_settings ''store'' example_hooks ''worker-1''
      (example_world\<lparr>w_files := Map.empty\<rparr>) =
        (fst (claim_next_run ''worker-1'' (example_world\<lparr>w_files := Map.empty\<rparr>)), Inl e)
    \<and> get_run 5 (w_saved (fst (claim_next_run ''worker-1'' (example_world\<lparr>w_files := Map.empty\<rparr>)))) = Some r'
    \<and> run_status r' = Processing"
proof -
  let ?w = "example_world\<lparr>w_files := Map.empty\<rparr>"
  have "runs_settled ?w" "requeue_stale_runs example_codecs default_settings (Some ''store'') ?w = (?w, 0)"
    "claim_next_run ''worker-1'' ?w = (fst (claim_next_run ''worker-1'' ?w), Some 5)"
    "get_run 5 (w_db ?w) = Some (new_run 5 4 1 0)"
    "get_document (run_document_id (new_run 5 4 1 0)) (w_db ?w) = Some example_document"
    "w_files ?w (doc_source_path example_document) = None"
    by (simp_all add: example_run_defs runs_settled_def requeue_stale_runs_def run_is_stale_def
        in_progress_def claim_next_run_def run_eligible_def)
  from missing_source_stops_worker [OF this, of example_hooks] show ?thesis by blast
qed

end
