(* ===== verification/Ingest_Admission.thy ===== *)
theory Ingest_Admission
  imports Run_Queue
begin

text \<open>
  \<open>app/services/document_ingest.py\<close>: an upload, or a file below an allowed local root, is staged,
  checked (size, PDF header, page count), refused when remote ingest is at capacity, and otherwise
  queued; a known digest is resolved to the existing document. Whatever fails, the staged file is
  removed and the transaction rolled back.

  The number of pages \<open>pypdfium2\<close> finds in a file is an argument of the model (\<open>None\<close> when it
  cannot open it); the facts about a local path that the file system decides are a record.
\<close>

definition PDF_MIME_TYPES :: "string list" where
  "PDF_MIME_TYPES = [''application/pdf'', ''application/x-pdf'']"

record upload_file =
  uf_filename :: "string option"
  uf_content_type :: "string option"
  uf_chunks :: "string list"

definition ends_with :: "string \<Rightarrow> string \<Rightarrow> bool" where
  "ends_with suffix s = (suffix = drop (length s - length suffix) s)"

definition is_pdf :: "upload_file \<Rightarrow> bool" where
  "is_pdf upload =
     ((case uf_content_type upload of None \<Rightarrow> False | Some t \<Rightarrow> t \<in> set PDF_MIME_TYPES) \<or>
      ends_with ''.pdf'' (str_lower (case uf_filename upload of None \<Rightarrow> [] | Some n \<Rightarrow> n)))"

definition page_limit_error :: "settings \<Rightarrow> string \<Rightarrow> exn" where
  "page_limit_error st prefix = Http_Error 400 ''page_limit_exceeded''
     (prefix @ '' ('' @ show_int (set_local_ingest_max_pages st) @ '').'')"

definition validate_pdf_artifact ::
  "(string \<Rightarrow> int option) \<Rightarrow> settings \<Rightarrow> bool \<Rightarrow> string \<Rightarrow> string \<Rightarrow> string \<Rightarrow> exn + unit" where
  "validate_pdf_artifact pages st enforce_page_limit size_detail page_prefix content =
     (if int (length content) > set_local_ingest_max_file_bytes st
      then Inl (size_limit_error size_detail)
      else if take 5 content \<noteq> pdf_magic then Inl invalid_pdf
      else if \<not> enforce_page_limit then Inr ()
      else
        (case pages content of
           None \<Rightarrow> Inl invalid_pdf
         | Some n \<Rightarrow>
             if n \<le> 0 \<or> n > set_local_ingest_max_pages st then Inl (page_limit_error st page_prefix)
             else Inr ()))"

text \<open>
  \<open>_admit_staged_document\<close> with \<open>check_existing\<close>, as both callers use it. A staged file that is
  missing would make \<open>stat\<close> raise.
\<close>

definition file_missing :: exn where
  "file_missing = Py_Error ''FileNotFoundError'' False ''No such file or directory''"

definition fail_and_clean :: "path \<Rightarrow> exn \<Rightarrow> world \<Rightarrow> world \<times> (exn + 'a)" where
  "fail_and_clean staged e w = (rollback (delete_file_if_exists staged w), Inl e)"

definition admit_staged_document ::
  "rivals \<Rightarrow> (string \<Rightarrow> int option) \<Rightarrow> settings \<Rightarrow> path \<Rightarrow> path \<Rightarrow> string \<Rightarrow> string \<Rightarrow> string \<Rightarrow>
   string \<Rightarrow> string \<Rightarrow> string option \<Rightarrow> string \<Rightarrow> string option \<Rightarrow> world \<Rightarrow>
   world \<times> (exn + upload_response \<times> nat)" where
  "admit_staged_document race pages st base staged sha filename mime size_detail page_prefix
     key scope fp w =
     (case document_with_sha sha (w_db w) of
        Some existing \<Rightarrow>
          (case resolve_existing_document_upload (doc_id existing)
                  (delete_file_if_exists staged w) of
             (w1, Inl e) \<Rightarrow> fail_and_clean staged e w1
           | (w1, Inr (response, status)) \<Rightarrow>
               (case fp of
                  None \<Rightarrow> (w1, Inr (response, status))
                | Some f \<Rightarrow>
                    (case store_document_upload_response race scope key f response status w1 of
                       (w2, Inl e) \<Rightarrow> fail_and_clean staged e w2
                     | (w2, Inr _) \<Rightarrow> (commit w2, Inr (response, status)))))
      | None \<Rightarrow>
          (case w_files w staged of
             None \<Rightarrow> fail_and_clean staged file_missing w
           | Some content \<Rightarrow>
               (case validate_pdf_artifact pages st True size_detail page_prefix content of
                  Inl e \<Rightarrow> fail_and_clean staged e w
                | Inr _ \<Rightarrow>
                    (case enforce_remote_document_run_backpressure st (w_db w) of
                       Inl e \<Rightarrow> fail_and_clean staged e w
                     | Inr _ \<Rightarrow>
                         (case queue_document_run race base staged sha filename mime key scope fp w of
                            (w1, Inl e) \<Rightarrow> fail_and_clean staged e w1
                          | (w1, Inr r) \<Rightarrow> (w1, Inr r))))))"

definition staged_path :: "path \<Rightarrow> nat \<Rightarrow> string \<Rightarrow> path" where
  "staged_path base n suffix = path_join (staging_dir base) (''tmp'' @ show_nat n @ suffix)"

definition default_suffix :: "string \<Rightarrow> string" where
  "default_suffix filename = (if path_suffix filename = [] then ''.pdf'' else path_suffix filename)"

text \<open>\<open>upload.filename or x\<close>.\<close>

definition str_default :: "string option \<Rightarrow> string \<Rightarrow> string" where
  "str_default s fallback = (case s of None \<Rightarrow> fallback | Some t \<Rightarrow> if t = [] then fallback else t)"

definition ingest_upload ::
  "rivals \<Rightarrow> (string \<Rightarrow> int option) \<Rightarrow> codecs \<Rightarrow> settings \<Rightarrow> path \<Rightarrow> upload_file \<Rightarrow> string option \<Rightarrow>
   world \<Rightarrow> world \<times> (exn + upload_response \<times> nat)" where
  "ingest_upload race pages cx st base upload key w =
     (if \<not> is_pdf upload
      then (w, Inl (Http_Error 400 ''invalid_pdf'' ''Only PDF uploads are supported.''))
      else
        (case stage_file True (Some (set_local_ingest_max_file_bytes st))
                ''File exceeds upload size limit.'' (uf_chunks upload) of
           Inl e \<Rightarrow> (w, Inl e)
         | Inr content \<Rightarrow>
             (let (n, w0) = take_id w;
                  staged = staged_path base n
                    (default_suffix (str_default (uf_filename upload) ''upload.pdf''));
                  sha = cx_sha256 cx content;
                  fp = ''sha256:'' @ sha;
                  w1 = write_file staged content w0 in
              case replay_document_upload_response CREATE_DOCUMENT_SCOPE key fp w1 of
                Inl e \<Rightarrow> fail_and_clean staged e w1
              | Inr (Some r) \<Rightarrow> (delete_file_if_exists staged w1, Inr r)
              | Inr None \<Rightarrow>
                  (case admit_staged_document race pages st base staged sha
                          (str_default (uf_filename upload) ''document.pdf'')
                          (str_default (uf_content_type upload) ''application/pdf'')
                          ''File exceeds upload size limit.''
                          ''PDF page count exceeds upload limit''
                          key CREATE_DOCUMENT_SCOPE (Some fp) w1 of
                     (w2, Inl e) \<Rightarrow> fail_and_clean staged e w2
                   | (w2, Inr r) \<Rightarrow> (w2, Inr r)))))"

section \<open>Local files\<close>

text \<open>
  What the file system says of a path: whether it is a symbolic link, the path it resolves to,
  whether that is a file, and whether it lies below one of the allowed roots.
\<close>

record local_path =
  lp_is_symlink :: bool
  lp_resolved :: path
  lp_is_file :: bool
  lp_below_root :: bool
  lp_content :: string

definition validate_local_ingest_path :: "settings \<Rightarrow> local_path \<Rightarrow> exn + path" where
  "validate_local_ingest_path st p =
     (if lp_is_symlink p
      then Inl (Http_Error 400 ''symlink_ingest_path_not_allowed''
                  ''Symlink ingest paths are not allowed.'')
      else if \<not> lp_is_file p
      then Inl (Http_Error 404 ''document_not_found'' (''File not found: '' @ lp_resolved p))
      else if str_lower (path_suffix (lp_resolved p)) \<noteq> ''.pdf''
      then Inl (Http_Error 400 ''invalid_pdf'' ''Only PDF files are supported.'')
      else if \<not> lp_below_root p
      then Inl (Http_Error 400 ''local_ingest_path_not_allowed''
                  ''Path is outside allowed local ingest roots.'')
      else
        (case validate_pdf_artifact (\<lambda>_. None) st False
                ''File exceeds local ingest size limit.''
                ''PDF page count exceeds local ingest limit'' (lp_content p) of
           Inl e \<Rightarrow> Inl e
         | Inr _ \<Rightarrow> Inr (lp_resolved p)))"

text \<open>A local file has no key: nothing is stored under one, and only its digest can be raced for.\<close>

definition digest_rival :: "(db \<Rightarrow> db) \<Rightarrow> rivals" where
  "digest_rival race = no_rivals\<lparr>rv_digest := race\<rparr>"

lemma digest_rival_simps [simp]:
  "rv_digest (digest_rival race) = race" "rv_response (digest_rival race) = id"
  "rv_insert (digest_rival race) = id" "digest_rival id = no_rivals"
  by (simp_all add: digest_rival_def no_rivals_def)

definition ingest_local_file ::
  "(db \<Rightarrow> db) \<Rightarrow> (string \<Rightarrow> int option) \<Rightarrow> codecs \<Rightarrow> settings \<Rightarrow> path \<Rightarrow> local_path \<Rightarrow> string list \<Rightarrow>
   world \<Rightarrow> world \<times> (exn + upload_response \<times> nat)" where
  "ingest_local_file race pages cx st base p chunks w =
     (case validate_local_ingest_path st p of
        Inl e \<Rightarrow> (w, Inl e)
      | Inr resolved \<Rightarrow>
          (case stage_file True (Some (set_local_ingest_max_file_bytes st))
                  ''File exceeds local ingest size limit.'' chunks of
             Inl e \<Rightarrow> (w, Inl e)
           | Inr content \<Rightarrow>
               (let (n, w0) = take_id w;
                    staged = staged_path base n (default_suffix resolved) in
                admit_staged_document (digest_rival race) pages st base staged (cx_sha256 cx content)
                  (path_name resolved) ''application/pdf''
                  ''File exceeds local ingest size limit.''
                  ''PDF page count exceeds local ingest limit''
                  None CREATE_DOCUMENT_SCOPE None (write_file staged content w0))))"

section \<open>What an upload that fails leaves behind\<close>

text \<open>
  A file there is afterwards was there before, with the same content; the second version leaves
  one path aside.
\<close>

definition no_new_files :: "world \<Rightarrow> world \<Rightarrow> bool" where
  "no_new_files w w' \<longleftrightarrow> (\<forall>p s. w_files w' p = Some s \<longrightarrow> w_files w p = Some s)"

definition no_new_files_but :: "path \<Rightarrow> world \<Rightarrow> world \<Rightarrow> bool" where
  "no_new_files_but q w w' \<longleftrightarrow> (\<forall>p s. p \<noteq> q \<longrightarrow> w_files w' p = Some s \<longrightarrow> w_files w p = Some s)"

lemma clean_no_new_files:
  "no_new_files_but p w w1 \<Longrightarrow> fail_and_clean p e w1 = (w', res) \<Longrightarrow>
   no_new_files w w' \<and> w_db w' = w_saved w1 \<and> w_saved w' = w_saved w1 \<and> res = Inl e"
  by (auto simp: fail_and_clean_def no_new_files_def no_new_files_but_def split: if_splits)

lemma no_new_files_but_weaken: "no_new_files w w' \<Longrightarrow> no_new_files_but p w w'"
  by (simp add: no_new_files_def no_new_files_but_def)

lemma resolve_known:
  assumes "document_with_sha sha (w_db w) = Some x"
  shows "\<exists>w' r. resolve_existing_document_upload (doc_id x) w = (w', Inr r)"
proof -
  have "x \<in> set (db_documents (w_db w))" using assms by (auto simp: document_with_sha_def find_Some_iff)
  then obtain y where "get_document (doc_id x) (w_db w) = Some y"
    by (cases "get_document (doc_id x) (w_db w)") (auto simp: find_row_None)
  then show ?thesis
    by (auto simp: resolve_existing_document_upload_def split: option.split prod.split)
qed

text \<open>The database with the work of some of the others committed, and nothing else.\<close>

definition others_only :: "rivals \<Rightarrow> db \<Rightarrow> db \<Rightarrow> bool" where
  "others_only race d d' \<longleftrightarrow>
     (\<exists>fs \<in> set (subseqs [rv_digest race, rv_response race, rv_insert race]). d' = fold (\<lambda>f. f) fs d)"

lemma others_only_simps:
  "others_only race d d"
  "others_only race d (rv_digest race d)"
  "others_only race d (rv_response race d)"
  "others_only race d (rv_insert race (rv_response race d))"
  "others_only race d (rv_response race (rv_digest race d))"
  "others_only race d (rv_insert race (rv_response race (rv_digest race d)))"
  by (simp_all add: others_only_def)

lemma no_rivals_only: "others_only no_rivals d d' \<longleftrightarrow> d' = d"
  by (auto simp: others_only_def)

lemma digest_rival_only: "others_only (digest_rival race) d d' \<Longrightarrow> d' = d \<or> d' = race d"
  by (auto simp: others_only_def)

text \<open>Another transaction gives the key to another request.\<close>

definition key_taken :: "rivals \<Rightarrow> string \<Rightarrow> string option \<Rightarrow> string \<Rightarrow> db \<Rightarrow> bool" where
  "key_taken race scope key fp d \<longleftrightarrow> (\<exists>k row. key = Some k \<and>
     (load_idempotency_row scope k (rv_response race d) = Some row
      \<or> load_idempotency_row scope k (rv_insert race (rv_response race d)) = Some row)
     \<and> idem_request_fingerprint row \<noteq> fp)"

lemma store_fails:
  assumes "store_document_upload_response race scope key fp response status w = (w', Inl e)"
  shows "e = key_reused \<and> key_taken race scope key fp (w_db w)"
  using assms
  by (cases key) (auto simp: store_document_upload_response_def store_idempotent_response_def take_id_def
      validate_fingerprint_def key_taken_def Let_def split: sum.splits option.splits if_splits)

lemma store_saved:
  assumes "store_document_upload_response race scope key fp response status w = (w', res)"
  shows "w_files w' = w_files w \<and> (w_saved w' = rv_response race (w_saved w)
    \<or> w_saved w' = rv_insert race (rv_response race (w_saved w)))"
  using assms
  by (auto simp: store_document_upload_response_def take_id_def Let_def split: sum.splits if_splits)

text \<open>A failing insert has moved the staged file away; the handler removes it.\<close>

lemma queue_run_fails:
  assumes "queue_document_run race base staged sha filename mime key scope fp w = (w', Inl e)"
    and "no_new_files_but staged v w"
  shows "others_only race (w_saved w) (w_saved w') \<and> no_new_files_but staged v w'"
proof (cases "document_with_sha sha (rv_digest race (w_db w))")
  case (Some x)
  let ?w0 = "delete_file_if_exists staged (others_commit (rv_digest race) w)"
  have "document_with_sha sha (w_db ?w0) = Some x" using Some by simp
  from resolve_known [OF this] show ?thesis
    using assms(1) Some by (auto simp: queue_document_run_def Let_def)
next
  case None
  then obtain w5 f r source w6 where
    "store_document_upload_response race scope key f r 202 w5 = (w6, Inl e)"
    "w' = delete_file_if_exists source w6" "w_saved w5 = rv_digest race (w_saved w)"
    "w_files w5 = (w_files w)(staged := None, source := w_files w staged)"
    using assms(1)
    by (auto simp: queue_document_run_def take_id_def Let_def move_file_def
        split: option.splits sum.splits prod.splits)
  then show ?thesis
    using assms(2) store_saved [of race scope key f r 202 w5] others_only_simps(5,6)
    by (fastforce simp: no_new_files_but_def split: if_splits)
qed

text \<open>
  A document without an active run and without one in flight gets a recovery run, which is committed
  at once.
\<close>

definition known_document :: "string \<Rightarrow> db \<Rightarrow> document option" where
  "known_document sha d =
     (case document_with_sha sha d of None \<Rightarrow> None | Some x \<Rightarrow> get_document (doc_id x) d)"

definition lacks_run :: "document \<Rightarrow> db \<Rightarrow> bool" where
  "lacks_run x d \<longleftrightarrow> get_run_record (doc_active_run_id x) d = None \<and>
     (case get_run_record (doc_latest_run_id x) d of None \<Rightarrow> True | Some r \<Rightarrow> \<not> inflight r)"

definition with_recovery_run :: "uuid \<Rightarrow> time \<Rightarrow> document \<Rightarrow> db \<Rightarrow> db" where
  "with_recovery_run i now x d = upd_document (doc_id x) (point_latest i now)
     (add_run (new_run i (doc_id x) (next_run_number (doc_id x) d) now) d)"

lemma resolve_known_cases:
  assumes "get_document i (w_db w) = Some x"
    and "resolve_existing_document_upload i w = (w', Inr r)"
  shows "w_files w' = w_files w \<and> (if lacks_run x (w_db w)
    then w_db w' = with_recovery_run (w_fresh w) (w_clock w) x (w_db w) \<and> w_saved w' = w_db w'
    else w' = w)"
  using assms
  by (auto simp: resolve_existing_document_upload_def create_run_for_locked_document_def take_id_def
      lacks_run_def with_recovery_run_def Let_def split: option.splits if_splits)

definition left_by_failure ::
  "rivals \<Rightarrow> string \<Rightarrow> string option \<Rightarrow> string option \<Rightarrow> string \<Rightarrow> exn \<Rightarrow> world \<Rightarrow> db \<Rightarrow> bool" where
  "left_by_failure race scope key fp sha e w d' \<longleftrightarrow> others_only race (w_db w) d' \<or>
     (\<exists>x f. known_document sha (w_db w) = Some x \<and> lacks_run x (w_db w) \<and> fp = Some f \<and> e = key_reused
        \<and> (let d1 = with_recovery_run (w_fresh w) (w_clock w) x (w_db w) in
           key_taken race scope key f d1 \<and> others_only race d1 d'))"

lemma admit_fails:
  assumes "admit_staged_document race pages st base staged sha filename mime size_detail page_prefix
      key scope fp w = (w', Inl e)"
    and "no_new_files_but staged v w" and "w_saved w = w_db w"
  shows "no_new_files v w' \<and> w_db w' = w_saved w' \<and> left_by_failure race scope key fp sha e w (w_db w')"
proof (cases "document_with_sha sha (w_db w)")
  case (Some x)
  let ?w0 = "delete_file_if_exists staged w"
  have sha: "document_with_sha sha (w_db ?w0) = Some x" using Some by simp
  obtain w1 r status where res: "resolve_existing_document_upload (doc_id x) ?w0 = (w1, Inr (r, status))"
    using resolve_known [OF sha] by fastforce
  have "x \<in> set (db_documents (w_db w))" using Some by (auto simp: document_with_sha_def find_Some_iff)
  then obtain y where y: "get_document (doc_id x) (w_db ?w0) = Some y"
    by (cases "get_document (doc_id x) (w_db w)") (auto simp: find_row_None)
  then have sy: "known_document sha (w_db w) = Some y" using Some by (simp add: known_document_def)
  note known = resolve_known_cases [OF y res]
  obtain f w2 where f: "fp = Some f"
    "store_document_upload_response race scope key f r status w1 = (w2, Inl e)"
    "fail_and_clean staged e w2 = (w', Inl e :: exn + upload_response \<times> nat)"
    using assms(1) Some res
    by (auto simp: admit_staged_document_def fail_and_clean_def split: option.splits sum.splits prod.splits)
  have files: "no_new_files_but staged v w2"
    using assms(2) known store_saved [OF f(2)] by (auto simp: no_new_files_but_def)
  have saved: "others_only race (w_db w1) (w_saved w2)"
    using known store_saved [OF f(2)] assms(3) others_only_simps(3,4) by (auto split: if_splits)
  show ?thesis
    using clean_no_new_files [OF files f(3)] saved known store_fails [OF f(2)] f(1) sy
    by (auto simp: left_by_failure_def Let_def split: if_splits)
next
  case None
  have here: "no_new_files v w' \<and> w_db w' = w_saved w' \<and> left_by_failure race scope key fp sha e w (w_db w')"
    if "fail_and_clean staged x w = (w', Inl e)" for x
    using clean_no_new_files [OF assms(2) that] assms(3) others_only_simps(1)
    by (simp add: left_by_failure_def)
  have after: "no_new_files v w' \<and> w_db w' = w_saved w' \<and> left_by_failure race scope key fp sha e w (w_db w')"
    if "queue_document_run race base staged sha filename mime key scope fp w = (w1, Inl x)"
      "fail_and_clean staged x w1 = (w', Inl e)" for w1 x
    using queue_run_fails [OF that(1) assms(2)] clean_no_new_files [OF _ that(2), of v] assms(3)
    by (simp add: left_by_failure_def)
  show ?thesis
    using assms(1) None
    by (auto simp: admit_staged_document_def split: option.splits sum.splits prod.splits
        dest: here after)
qed

text \<open>An upload that passed the first checks, from the staged file on.\<close>

definition upload_fp :: "codecs \<Rightarrow> string \<Rightarrow> string" where
  "upload_fp cx content = ''sha256:'' @ cx_sha256 cx content"

definition upload_staged :: "path \<Rightarrow> upload_file \<Rightarrow> world \<Rightarrow> path" where
  "upload_staged base upload w = staged_path base (w_fresh w)
     (default_suffix (str_default (uf_filename upload) ''upload.pdf''))"

definition staged_world :: "path \<Rightarrow> upload_file \<Rightarrow> string \<Rightarrow> world \<Rightarrow> world" where
  "staged_world base upload content w =
     write_file (upload_staged base upload w) content (w\<lparr>w_fresh := w_fresh w + 1\<rparr>)"

definition upload_admission ::
  "rivals \<Rightarrow> (string \<Rightarrow> int option) \<Rightarrow> codecs \<Rightarrow> settings \<Rightarrow> path \<Rightarrow> upload_file \<Rightarrow> string option \<Rightarrow>
   string \<Rightarrow> world \<Rightarrow> world \<times> (exn + upload_response \<times> nat)" where
  "upload_admission race pages cx st base upload key content w =
     admit_staged_document race pages st base (upload_staged base upload w) (cx_sha256 cx content)
       (str_default (uf_filename upload) ''document.pdf'')
       (str_default (uf_content_type upload) ''application/pdf'') ''File exceeds upload size limit.''
       ''PDF page count exceeds upload limit'' key CREATE_DOCUMENT_SCOPE (Some (upload_fp cx content))
       (staged_world base upload content w)"

definition staged_content :: "settings \<Rightarrow> upload_file \<Rightarrow> exn + string" where
  "staged_content st upload = stage_file True (Some (set_local_ingest_max_file_bytes st))
     ''File exceeds upload size limit.'' (uf_chunks upload)"

lemma ingest_upload_staged:
  assumes "is_pdf upload" and "staged_content st upload = Inr content"
  shows "ingest_upload race pages cx st base upload key w =
    (case replay_document_upload_response CREATE_DOCUMENT_SCOPE key (upload_fp cx content) w of
       Inl e \<Rightarrow> fail_and_clean (upload_staged base upload w) e (staged_world base upload content w)
     | Inr (Some r) \<Rightarrow>
         (delete_file_if_exists (upload_staged base upload w) (staged_world base upload content w), Inr r)
     | Inr None \<Rightarrow>
         (case upload_admission race pages cx st base upload key content w of
            (w2, Inl e) \<Rightarrow> fail_and_clean (upload_staged base upload w) e w2
          | (w2, Inr r) \<Rightarrow> (w2, Inr r)))"
proof -
  have "replay_document_upload_response CREATE_DOCUMENT_SCOPE key fp (staged_world base upload content w) =
      replay_document_upload_response CREATE_DOCUMENT_SCOPE key fp w" for fp
    by (simp add: replay_document_upload_response_def staged_world_def)
  then show ?thesis
    using assms
    by (simp add: ingest_upload_def take_id_def Let_def staged_content_def upload_admission_def
        staged_world_def upload_staged_def upload_fp_def
        cong: sum.case_cong option.case_cong prod.case_cong)
qed

lemma ingest_upload_refused:
  "\<not> is_pdf upload \<or> (\<nexists>c. staged_content st upload = Inr c) \<Longrightarrow>
   \<exists>e. ingest_upload race pages cx st base upload key w = (w, Inl e)"
  by (auto simp: ingest_upload_def staged_content_def split: sum.split)


definition pdf_upload :: upload_file where
  "pdf_upload = \<lparr>uf_filename = Some ''a.pdf'', uf_content_type = None, uf_chunks = [''%PDF-'', ''1.7'']\<rparr>"

definition empty_world :: world where
  "empty_world = failed_example\<lparr>w_db := empty_db, w_saved := empty_db\<rparr>"

text \<open>
  The exception happens: the content is that of a document whose only run failed, and another
  transaction inserts a response to a different request under the key. The upload is refused, and
  a recovery run is left.
\<close>

definition known_example :: world where
  "known_example =
     (let d = empty_db\<lparr>db_documents := map (\<lambda>x. x\<lparr>doc_sha256 := cx_sha256 example_codecs ''%PDF-1.7''\<rparr>)
                (db_documents (w_db failed_example)),
              db_runs := db_runs (w_db failed_example)\<rparr> in
      failed_example\<lparr>w_db := d, w_saved := d\<rparr>)"

definition taking_the_key :: rivals where
  "taking_the_key = no_rivals\<lparr>rv_insert := insert_idempotency_row
     (example_row\<lparr>idem_scope := CREATE_DOCUMENT_SCOPE, idem_request_fingerprint := ''another''\<rparr>)\<rparr>"

definition refused_upload :: "world \<times> (exn + upload_response \<times> nat)" where
  "refused_upload = ingest_upload taking_the_key (\<lambda>_. Some 1) example_codecs default_settings ''store''
     pdf_upload (Some ''k'') known_example"

lemma refused_upload_result:
  "snd refused_upload = Inl key_reused" "map run_status (db_runs (w_db (fst refused_upload))) = [Failed, Queued]"
  by code_simp+


section \<open>Uploads that are accepted\<close>

lemma replayed:
  "get_idempotent_response scope key fp (w_db w) = Inr (Some (upload_response_json r, status)) \<Longrightarrow>
   replay_document_upload_response scope key fp w = Inr (Some (r, status))"
  by (simp add: replay_document_upload_response_def)

text \<open>
  No other transaction stores the content, or anything under the key, in the moment between the
  look-up and the insert. (They may do so at any other time.)
\<close>

definition undisturbed :: "rivals \<Rightarrow> string \<Rightarrow> string option \<Rightarrow> string \<Rightarrow> bool" where
  "undisturbed race scope key sha \<longleftrightarrow>
     (\<forall>d. document_with_sha sha d = None \<longrightarrow> document_with_sha sha (rv_digest race d) = None) \<and>
     (\<forall>d. load_idempotency_row scope (the key) d = None \<longrightarrow>
        load_idempotency_row scope (the key) (rv_insert race d) = None)"

lemma admit_stores:
  assumes "str_truthy key" and "undisturbed race scope key sha"
    and "admit_staged_document race pages st base staged sha filename mime size_detail page_prefix
      key scope (Some f) w = (w', Inr (r, status))"
  shows "replay_document_upload_response scope key f w' = Inr (Some (r, status))"
proof -
  have sha: "document_with_sha sha (rv_digest race (w_db w)) = None" if "document_with_sha sha (w_db w) = None"
    using that assms(2) by (simp add: undisturbed_def)
  obtain w1 w2 where "store_document_upload_response race scope key f r status w1 = (w2, Inr ())"
    "w' = commit w2"
    using assms(3) sha
    by (cases "document_with_sha sha (w_db w)")
      (auto simp: admit_staged_document_def queue_document_run_def fail_and_clean_def Let_def
        split: option.splits sum.splits prod.splits)
  moreover have "load_idempotency_row scope (the key) (rv_insert race d) = None"
    if "load_idempotency_row scope (the key) d = None" for d
    using that assms(2) by (simp add: undisturbed_def)
  ultimately show ?thesis
    using store_upload_response_replays [OF assms(1)] by (intro replayed) auto
qed


definition pdf_uploaded :: "world \<times> (exn + upload_response \<times> nat)" where
  "pdf_uploaded = ingest_upload no_rivals (\<lambda>_. Some 1) example_codecs default_settings ''store'' pdf_upload
     (Some ''k'') empty_world"

lemma pdf_upload_staged:
  "is_pdf pdf_upload" "staged_content default_settings pdf_upload = Inr ''%PDF-1.7''"
  "snd pdf_uploaded = Inr (queued_response 7 8, 202)"
  by code_simp+


definition acceptable_pdf :: "(string \<Rightarrow> int option) \<Rightarrow> settings \<Rightarrow> string \<Rightarrow> bool" where
  "acceptable_pdf pages st content =
     (int (length content) \<le> set_local_ingest_max_file_bytes st \<and> take 5 content = pdf_magic \<and>
      (case pages content of None \<Rightarrow> False | Some n \<Rightarrow> 0 < n \<and> n \<le> set_local_ingest_max_pages st))"

lemma validate_iff: "validate_pdf_artifact pages st True d p content = Inr () \<longleftrightarrow> acceptable_pdf pages st content"
  by (auto simp: validate_pdf_artifact_def acceptable_pdf_def split: option.split)

text \<open>
  The world after an accepted upload of the document \<open>i\<close>: its row and the row of its first run are
  added, committed, and the content is its source file.
\<close>

definition upload_stored :: "path \<Rightarrow> string \<Rightarrow> string \<Rightarrow> uuid \<Rightarrow> world \<Rightarrow> world \<Rightarrow> bool" where
  "upload_stored base sha content i w w' \<longleftrightarrow>
     (\<exists>x r. db_runs (w_db w') = db_runs (w_db w) @ [r]
        \<and> run_id r = i + 1 \<and> run_document_id r = i \<and> run_number r = 1 \<and> run_status r = Queued
        \<and> run_attempts r = 0 \<and> run_locked_by r = None \<and> run_next_attempt_at r = Some (w_clock w)
        \<and> db_documents (w_db w') = db_documents (w_db w) @ [x]
        \<and> doc_id x = i \<and> doc_sha256 x = sha \<and> doc_latest_run_id x = Some (i + 1)
        \<and> doc_active_run_id x = None \<and> doc_source_path x = source_file_path base i
        \<and> w_files w' (source_file_path base i) = Some content \<and> w_saved w' = w_db w')"

text \<open>Remote ingest is full: as many runs in flight as the settings allow, of all documents.\<close>

definition ingest_full :: "settings \<Rightarrow> db \<Rightarrow> bool" where
  "ingest_full st d \<longleftrightarrow> resolve_api_mode st = Remote_Mode \<and>
     (\<exists>limit. set_remote_ingest_max_inflight_runs st = Some limit \<and> 0 < limit \<and>
        limit \<le> int (length (filter
          (\<lambda>r. run_status r \<in> {Queued, Processing, Validating, Retry_Wait}) (db_runs d))))"

lemma at_capacity_full: "at_capacity st d = ingest_full st d"
proof -
  have "inflight = (\<lambda>r. run_status r \<in> {Queued, Processing, Validating, Retry_Wait})"
    by (simp add: fun_eq_iff inflight_def INFLIGHT_RUN_STATUSES_def)
  then show ?thesis by (simp add: at_capacity_def ingest_full_def count_rows_def split: option.split)
qed

lemma queue_new_upload:
  assumes "document_with_sha sha (w_db w) = None" and "w_saved w = w_db w"
    and "\<forall>x \<in> set (db_documents (w_db w)). doc_id x < w_fresh w"
    and "get_idempotent_response scope key f (w_db w) = Inr None" and "w_files w staged = Some content"
  shows "\<exists>w'. queue_document_run no_rivals base staged sha filename mime key scope (Some f) w =
      (w', Inr (queued_response (w_fresh w) (w_fresh w + 1), 202))
    \<and> upload_stored base sha content (w_fresh w) w w'"
proof -
  let ?i = "w_fresh w"
  obtain w5 x where q: "queue_document_run no_rivals base staged sha filename mime key scope (Some f) w =
      finish_queueing no_rivals key scope (Some f) (source_file_path base ?i) (queued_response ?i (?i + 1)) w5"
    and w5: "db_runs (w_db w5) = db_runs (w_db w) @ [new_run (?i + 1) ?i 1 (w_clock w)]"
      "db_documents (w_db w5) = db_documents (w_db w) @ [x]"
      "db_idempotency (w_db w5) = db_idempotency (w_db w)"
      "w_files w5 (source_file_path base ?i) = Some content"
    and x: "doc_id x = ?i" "doc_sha256 x = sha" "doc_active_run_id x = None"
      "doc_latest_run_id x = Some (?i + 1)" "doc_source_path x = source_file_path base ?i"
    using queue_document_run_new [OF assms(1-3), of base staged filename mime key scope "Some f"] assms(5)
    by auto
  obtain w6 where w6: "store_document_upload_response no_rivals scope key f
        (queued_response ?i (?i + 1)) 202 w5 = (w6, Inr ())" "db_runs (w_db w6) = db_runs (w_db w5)" "db_documents (w_db w6) = db_documents (w_db w5)"
    using store_after_create [OF assms(4) w5(3)] by blast
  then have files: "w_files w6 = w_files w5" using store_saved by blast
  have "upload_stored base sha content ?i w (commit w6)"
    using w5 w6(2,3) x files by (simp add: upload_stored_def new_run_def)
  then show ?thesis using q w6(1) by (simp add: finish_queueing_def)
qed

text \<open>The spec from the staged file on.\<close>

lemma staged_upload_spec:
  assumes "is_pdf upload" and "staged_content st upload = Inr content" and "w_saved w = w_db w"
    and "document_with_sha (cx_sha256 cx content) (w_db w) = None"
    and "get_idempotent_response CREATE_DOCUMENT_SCOPE key (upload_fp cx content) (w_db w) = Inr None"
    and "\<forall>x \<in> set (db_documents (w_db w)). doc_id x < w_fresh w"
  shows "if acceptable_pdf pages st content \<and> \<not> at_capacity st (w_db w)
    then \<exists>w' i. ingest_upload no_rivals pages cx st base upload key w = (w', Inr (queued_response i (i + 1), 202))
      \<and> upload_stored base (cx_sha256 cx content) content i w w'
    else \<exists>w' e. ingest_upload no_rivals pages cx st base upload key w = (w', Inl e) \<and> w_db w' = w_db w"
proof -
  let ?w1 = "staged_world base upload content w" and ?staged = "upload_staged base upload w"
  have replay: "replay_document_upload_response CREATE_DOCUMENT_SCOPE key (upload_fp cx content) w = Inr None"
    using assms(5) by (simp add: replay_document_upload_response_def)
  have w1: "w_db ?w1 = w_db w" "w_files ?w1 ?staged = Some content" "w_saved ?w1 = w_db ?w1"
    "w_clock ?w1 = w_clock w" "\<forall>x \<in> set (db_documents (w_db ?w1)). doc_id x < w_fresh ?w1"
    using assms(3,6) by (auto simp: staged_world_def)
  show ?thesis
  proof (cases "acceptable_pdf pages st content \<and> \<not> at_capacity st (w_db w)")
    case False
    then show ?thesis
      using assms(4) replay w1 validate_iff [of pages st _ _ content]
      by (auto simp: ingest_upload_staged [OF assms(1,2)] upload_admission_def admit_staged_document_def
          backpressure_iff fail_and_clean_def split: sum.split)
  next
    case True
    have valid: "validate_pdf_artifact pages st True d p content = Inr ()" for d p
      using True validate_iff by blast
    obtain w' where q: "queue_document_run no_rivals base ?staged (cx_sha256 cx content)
        (str_default (uf_filename upload) ''document.pdf'')
        (str_default (uf_content_type upload) ''application/pdf'') key CREATE_DOCUMENT_SCOPE
        (Some (upload_fp cx content)) ?w1 =
          (w', Inr (queued_response (w_fresh ?w1) (w_fresh ?w1 + 1), 202))"
      "upload_stored base (cx_sha256 cx content) content (w_fresh ?w1) ?w1 w'"
      using queue_new_upload [OF _ w1(3,5) _ w1(2)] assms(4,5) w1(1) by metis
    have "upload_stored base (cx_sha256 cx content) content (w_fresh ?w1) w w'"
      using q(2) w1(1,4) by (simp add: upload_stored_def)
    then show ?thesis
      using True assms(4) w1(1,2) q(1) replay valid
      by (auto simp: ingest_upload_staged [OF assms(1,2)] upload_admission_def admit_staged_document_def
          backpressure_iff)
  qed
qed

text \<open>
  C12: a file that is not known yet, uploaded without a stored answer to replay, is accepted exactly
  when it is declared as a PDF, its bytes (however they are cut into blocks) respect the size limit
  and start with the PDF header, its pages can be counted and respect the page limit, and remote
  ingest is not full. Then a document and its first run are committed, the run queued and the
  latest of the document, and the content is stored as the source file of the document; otherwise
  the request raises and the database is as it was.
\<close>

theorem new_upload_spec:
  fixes upload
  defines "content \<equiv> concat (uf_chunks upload)"
  assumes "w_saved w = w_db w" and "document_with_sha (cx_sha256 cx content) (w_db w) = None"
    and "get_idempotent_response CREATE_DOCUMENT_SCOPE key (''sha256:'' @ cx_sha256 cx content) (w_db w)
      = Inr None"
    and "\<forall>x \<in> set (db_documents (w_db w)). doc_id x < w_fresh w"
  shows "if is_pdf upload \<and> int (length content) \<le> set_local_ingest_max_file_bytes st
      \<and> take 5 content = ''%PDF-''
      \<and> (\<exists>n. pages content = Some n \<and> 0 < n \<and> n \<le> set_local_ingest_max_pages st)
      \<and> \<not> ingest_full st (w_db w)
    then \<exists>w' i. ingest_upload no_rivals pages cx st base upload key w =
        (w', Inr (queued_response i (i + 1), 202))
      \<and> upload_stored base (cx_sha256 cx content) content i w w'
    else \<exists>w' e. ingest_upload no_rivals pages cx st base upload key w = (w', Inl e) \<and> w_db w' = w_db w"
proof (cases "is_pdf upload \<and> staged_content st upload = Inr content")
  case False
  then have "\<not> is_pdf upload \<or> (\<nexists>c. staged_content st upload = Inr c)"
    by (auto simp: staged_content_def stage_file_accepts content_def)
  from ingest_upload_refused [OF this, of no_rivals pages cx base key w] False show ?thesis
    by (auto simp: staged_content_def stage_file_accepts content_def)
next
  case True
  have key: "get_idempotent_response CREATE_DOCUMENT_SCOPE key (upload_fp cx content) (w_db w) = Inr None"
    using assms(4) by (simp add: upload_fp_def)
  have bytes: "int (length content) \<le> set_local_ingest_max_file_bytes st" "take 5 content = ''%PDF-''"
    using True unfolding staged_content_def stage_file_accepts by blast+
  then have acc: "acceptable_pdf pages st content \<longleftrightarrow>
      (\<exists>n. pages content = Some n \<and> 0 < n \<and> n \<le> set_local_ingest_max_pages st)"
    by (simp add: acceptable_pdf_def pdf_magic_def split: option.split)
  show ?thesis
    using staged_upload_spec [OF conjunct1 [OF True] conjunct2 [OF True] assms(2,3) key assms(5),
        of pages base] bytes True acc
    by (simp add: at_capacity_full)
qed

theorem new_upload_spec_witness:
  "\<exists>w'. ingest_upload no_rivals (\<lambda>_. Some 1) example_codecs default_settings ''store'' pdf_upload (Some ''k'') empty_world
      = (w', Inr (queued_response 7 8, 202)) \<and> w_files w' (source_file_path ''store'' 7) = Some ''%PDF-1.7''"
proof -
  have "w_saved empty_world = w_db empty_world" "db_documents (w_db empty_world) = []"
    "db_idempotency (w_db empty_world) = []" "w_fresh empty_world = 6"
    by (simp_all add: empty_world_def empty_db_def failed_example_def Let_def)
  moreover have "concat (uf_chunks pdf_upload) = ''%PDF-1.7''" "is_pdf pdf_upload"
    "int (length ''%PDF-1.7'') \<le> set_local_ingest_max_file_bytes default_settings"
    "1 \<le> set_local_ingest_max_pages default_settings"
    "\<not> ingest_full default_settings (w_db empty_world)"
    unfolding at_capacity_full [symmetric] by code_simp+
  ultimately show ?thesis
    using new_upload_spec [of empty_world example_codecs pdf_upload "Some ''k''" default_settings
        "\<lambda>_. Some 1" "''store''"] pdf_upload_staged(3)
    by (auto simp: document_with_sha_def get_idempotent_response_def load_idempotency_row_def
        pdf_uploaded_def queued_response_def upload_stored_def)
qed

end
