(* ===== verification/Run_System.thy ===== *)
theory Run_System
  imports Run_Processor Ingest_Admission
begin

text \<open>
  The ingest service as a whole: a step relation whose steps are the transactions of the other
  theories (uploads, local ingest, reprocessing, claims, recovery of leases, heartbeats, and the
  writes of a worker to its run), in any order and by any number of workers.

  A worker writes to its run without looking at the lease again, so a worker that was taken for
  dead can still write. The flag \<open>fenced\<close> restricts the steps to workers that hold the lease:
  the life cycle of runs and documents is invariant under fenced steps, the bound on attempts under
  all of them; the last section shows what a worker without the lease can do.
\<close>

section \<open>What a request handler does to runs and documents\<close>

text \<open>
  Nothing, or a further run for a document whose latest run is not in flight, or a new document
  with its first run. Everything is committed, and identifiers are fresh.
\<close>

definition further_run :: "world \<Rightarrow> world \<Rightarrow> uuid \<Rightarrow> document \<Rightarrow> bool" where
  "further_run w w' r x =
     (get_document (doc_id x) (w_db w) = Some x \<and> w_fresh w \<le> r \<and> r < w_fresh w'
      \<and> (case get_run_record (doc_latest_run_id x) (w_db w) of
            None \<Rightarrow> True | Some latest \<Rightarrow> \<not> inflight latest)
      \<and> db_runs (w_db w') = db_runs (w_db w)
          @ [new_run r (doc_id x) (next_run_number (doc_id x) (w_db w)) (w_clock w)]
      \<and> db_documents (w_db w') =
          update_row doc_id (doc_id x) (point_latest r (w_clock w)) (db_documents (w_db w)))"

definition first_run :: "world \<Rightarrow> world \<Rightarrow> uuid \<Rightarrow> document \<Rightarrow> bool" where
  "first_run w w' r x =
     (document_with_sha (doc_sha256 x) (w_db w) = None \<and> w_fresh w \<le> doc_id x \<and> doc_id x < r
      \<and> r < w_fresh w' \<and> doc_active_run_id x = None \<and> doc_latest_run_id x = Some r
      \<and> db_runs (w_db w') = db_runs (w_db w) @ [new_run r (doc_id x) 1 (w_clock w)]
      \<and> db_documents (w_db w') = db_documents (w_db w) @ [x])"

definition queue_effect :: "world \<Rightarrow> world \<Rightarrow> bool" where
  "queue_effect w w' =
     (w_saved w' = w_db w' \<and> w_clock w' = w_clock w \<and> w_fresh w \<le> w_fresh w' \<and>
      ((db_runs (w_db w') = db_runs (w_db w) \<and> db_documents (w_db w') = db_documents (w_db w))
       \<or> (\<exists>r x. further_run w w' r x) \<or> (\<exists>r x. first_run w w' r x)))"

lemma queue_effect_same:
  "w_saved w' = w_db w' \<Longrightarrow> w_clock w' = w_clock w \<Longrightarrow> w_fresh w \<le> w_fresh w' \<Longrightarrow>
   db_runs (w_db w') = db_runs (w_db w) \<Longrightarrow> db_documents (w_db w') = db_documents (w_db w) \<Longrightarrow>
   queue_effect w w'"
  by (simp add: queue_effect_def)

text \<open>Steps before and after that touch neither runs nor documents do not matter.\<close>

lemma further_run_frame:
  "further_run w1 w2 r x \<Longrightarrow> w_db w1 = w_db w \<Longrightarrow> w_clock w1 = w_clock w \<Longrightarrow> w_fresh w \<le> w_fresh w1 \<Longrightarrow>
   db_runs (w_db w') = db_runs (w_db w2) \<Longrightarrow> db_documents (w_db w') = db_documents (w_db w2) \<Longrightarrow>
   w_fresh w2 \<le> w_fresh w' \<Longrightarrow> further_run w w' r x"
  unfolding further_run_def by (elim conjE, intro conjI) simp_all

lemma first_run_frame:
  "first_run w1 w2 r x \<Longrightarrow> w_db w1 = w_db w \<Longrightarrow> w_clock w1 = w_clock w \<Longrightarrow> w_fresh w \<le> w_fresh w1 \<Longrightarrow>
   db_runs (w_db w') = db_runs (w_db w2) \<Longrightarrow> db_documents (w_db w') = db_documents (w_db w2) \<Longrightarrow>
   w_fresh w2 \<le> w_fresh w' \<Longrightarrow> first_run w w' r x"
  unfolding first_run_def by (elim conjE, intro conjI) simp_all

lemma queue_effect_frame:
  assumes "queue_effect w1 w2" and "w_db w1 = w_db w" and "w_clock w1 = w_clock w"
    and "w_fresh w \<le> w_fresh w1" and "db_runs (w_db w') = db_runs (w_db w2)"
    and "db_documents (w_db w') = db_documents (w_db w2)" and "w_saved w' = w_db w'"
    and "w_clock w' = w_clock w2" and "w_fresh w2 \<le> w_fresh w'"
  shows "queue_effect w w'"
proof -
  have base: "w_clock w' = w_clock w" "w_fresh w \<le> w_fresh w'"
    using assms unfolding queue_effect_def by simp_all
  from assms(1) consider
      "db_runs (w_db w2) = db_runs (w_db w1)" "db_documents (w_db w2) = db_documents (w_db w1)"
    | r x where "further_run w1 w2 r x" | r x where "first_run w1 w2 r x"
    unfolding queue_effect_def by blast
  then show ?thesis
  proof cases
    case 1
    then show ?thesis using base assms by (intro queue_effect_same) simp_all
  next
    case 2
    then show ?thesis
      using base assms(7) further_run_frame [OF 2 assms(2-6) assms(9)] unfolding queue_effect_def by blast
  next
    case 3
    then show ?thesis
      using base assms(7) first_run_frame [OF 3 assms(2-6) assms(9)] unfolding queue_effect_def by blast
  qed
qed

lemma queue_effect_settled: "queue_effect w w' \<Longrightarrow> w_saved w' = w_db w'"
  by (simp add: queue_effect_def)

lemmas queue_effect_after = queue_effect_frame [OF _ refl refl order.refl]

lemma queue_effect_before:
  "queue_effect w1 w' \<Longrightarrow> w_db w1 = w_db w \<Longrightarrow> w_clock w1 = w_clock w \<Longrightarrow> w_fresh w \<le> w_fresh w1 \<Longrightarrow>
   queue_effect w w'"
  by (rule queue_effect_frame) (auto dest: queue_effect_settled)

lemma create_run_further:
  assumes "get_document (doc_id x) (w_db w) = Some x"
    and "case get_run_record (doc_latest_run_id x) (w_db w) of
            None \<Rightarrow> True | Some latest \<Rightarrow> \<not> inflight latest"
    and "create_run_for_locked_document (doc_id x) w = (w1, i)"
  shows "queue_effect w (commit w1)"
proof -
  have "further_run w (commit w1) i x"
    using assms by (auto simp: further_run_def create_run_for_locked_document_def take_id_def
        add_run_def Let_def)
  moreover have "w_clock w1 = w_clock w" "w_fresh w \<le> w_fresh w1"
    using assms(3) by (auto simp: create_run_for_locked_document_def take_id_def Let_def)
  ultimately show ?thesis by (auto simp: queue_effect_def)
qed

lemma resolve_effect:
  assumes "w_saved w = w_db w" and "resolve_existing_document_upload i w = (w', res)"
  shows "queue_effect w w'"
proof (cases "get_document i (w_db w)")
  case None
  then show ?thesis
    using assms by (simp add: resolve_existing_document_upload_def queue_effect_same)
next
  case (Some x)
  then have x: "get_document (doc_id x) (w_db w) = Some x" by (metis find_row_Some)
  obtain w1 r where c: "create_run_for_locked_document (doc_id x) w = (w1, r)" by fastforce
  show ?thesis
    using assms Some c create_run_further [OF x _ c]
    by (auto simp: resolve_existing_document_upload_def queue_effect_same
        split: if_splits option.splits)
qed

lemma store_upload_frame:
  assumes "store_document_upload_response no_rivals scope key fp response status w = (w', Inr ())"
  shows "db_runs (w_db w') = db_runs (w_db w)" "db_documents (w_db w') = db_documents (w_db w)"
    "w_clock w' = w_clock w" "w_fresh w' = w_fresh w + 1" "w_saved w' = w_saved w"
proof -
  obtain d where d: "store_idempotent_response id (w_fresh w) (w_clock w) scope key fp
      (upload_response_json response) status (w_db w) = Inr d" "w' = w\<lparr>w_fresh := w_fresh w + 1, w_db := d\<rparr>"
    using assms by (auto simp: store_alone Let_def split: sum.splits)
  have "d\<lparr>db_idempotency := []\<rparr> = (w_db w)\<lparr>db_idempotency := []\<rparr>" using d(1) by (rule idem.put_frame)
  then have "db_runs d = db_runs (w_db w)" "db_documents d = db_documents (w_db w)"
    by (metis (no_types) db.ext_inject db.surjective db.update_convs(7))+
  with d(2) show "db_runs (w_db w') = db_runs (w_db w)"
    "db_documents (w_db w') = db_documents (w_db w)" "w_clock w' = w_clock w"
    "w_fresh w' = w_fresh w + 1" "w_saved w' = w_saved w"
    by simp_all
qed

lemma store_refused:
  assumes "store_document_upload_response no_rivals scope key fp response status w = (w', Inl e)"
  shows "w_db w' = w_db w" "w_clock w' = w_clock w" "w_fresh w' = w_fresh w + 1" "w_saved w' = w_saved w"
  using assms by (auto simp: store_alone Let_def split: sum.splits)

text \<open>Until the commit a handler may leave uncommitted rows behind, which the rollback undoes.\<close>

definition undone :: "world \<Rightarrow> world \<Rightarrow> bool" where
  "undone w w' = (w_saved w' = w_db w \<and> w_clock w' = w_clock w \<and> w_fresh w \<le> w_fresh w')"

lemma undone_rollback: "undone w w' \<Longrightarrow> queue_effect w (rollback (delete_file_if_exists p w'))"
  by (rule queue_effect_same) (simp_all add: undone_def)

lemma queue_run_effect:
  assumes "w_saved w = w_db w" and "\<forall>x \<in> set (db_documents (w_db w)). doc_id x < w_fresh w"
    and "queue_document_run no_rivals base staged sha filename mime key scope fp w = (w', res)"
  shows "queue_effect w w' \<or> undone w w' \<and> (\<exists>e. res = Inl e)"
proof (cases "document_with_sha sha (w_db w)")
  case (Some x)
  then have "resolve_existing_document_upload (doc_id x) (delete_file_if_exists staged w) = (w', res)"
    using assms(3) by (simp add: queue_document_run_def Let_def)
  then have "queue_effect (delete_file_if_exists staged w) w'"
    by (rule resolve_effect [rotated]) (simp add: assms(1))
  then have "queue_effect w w'" by (rule queue_effect_before) simp_all
  then show ?thesis by blast
next
  case None
  define i where "i = w_fresh w"
  obtain w5 x where q: "queue_document_run no_rivals base staged sha filename mime key scope fp w =
      finish_queueing no_rivals key scope fp (source_file_path base i) (queued_response i (i + 1)) w5"
    and w5: "db_runs (w_db w5) = db_runs (w_db w) @ [new_run (i + 1) i 1 (w_clock w)]"
      "w_saved w5 = w_db w" "w_clock w5 = w_clock w" "w_fresh w5 = i + 2"
    and docs: "db_documents (w_db w5) = db_documents (w_db w) @ [x]"
    and x: "doc_id x = i" "doc_sha256 x = sha" "doc_active_run_id x = None" "doc_latest_run_id x = Some (i + 1)"
    using queue_document_run_new [OF None assms(1,2), of base staged filename mime key scope fp] i_def by blast
  have stored: "queue_effect w (commit w6)"
    if "db_runs (w_db w6) = db_runs (w_db w5)" "db_documents (w_db w6) = db_documents (w_db w5)"
      "w_clock w6 = w_clock w" "i + 2 \<le> w_fresh w6" for w6
  proof -
    have "first_run w (commit w6) (i + 1) x"
      using that None w5 docs x by (simp add: first_run_def i_def)
    then show ?thesis using that by (auto simp: queue_effect_def i_def)
  qed
  show ?thesis
  proof (cases fp)
    case None
    then show ?thesis using assms(3) q w5 by (auto simp: finish_queueing_def intro: stored)
  next
    case (Some f)
    show ?thesis
    proof (cases "store_document_upload_response no_rivals scope key f (queued_response i (i + 1)) 202 w5")
      case (Pair w6 stored_result)
      show ?thesis
      proof (cases stored_result)
        case (Inl e)
        then show ?thesis
          using assms(3) q Some w5 Pair store_refused [OF Pair [unfolded Inl]]
          by (auto simp: finish_queueing_def undone_def i_def)
      next
        case (Inr u)
        have u: "u = ()" by simp
        note frame = store_upload_frame [OF Pair [unfolded Inr u]]
        show ?thesis using assms(3) q Some Inr Pair stored [OF frame(1,2)] frame(3,4) w5(3,4)
          by (auto simp: finish_queueing_def)
      qed
    qed
  qed
qed

lemma clean_undone:
  "fail_and_clean staged e w1 = (w', res) \<Longrightarrow> undone w w1 \<Longrightarrow> queue_effect w w'"
  by (auto simp: fail_and_clean_def intro: undone_rollback)

lemma clean_committed:
  "fail_and_clean staged e w1 = (w', res) \<Longrightarrow> queue_effect w w1 \<Longrightarrow> queue_effect w w'"
  using queue_effect_after [of w w1 "rollback (delete_file_if_exists staged w1)"]
  by (auto simp: fail_and_clean_def dest: queue_effect_settled)

lemma undone_refl: "w_saved w = w_db w \<Longrightarrow> undone w w"
  by (simp add: undone_def)

lemma admit_effect:
  assumes "w_saved w = w_db w" and "\<forall>x \<in> set (db_documents (w_db w)). doc_id x < w_fresh w"
    and "admit_staged_document no_rivals pages st base staged sha filename mime size_detail page_prefix
      key scope fp w = (w', res)"
  shows "queue_effect w w'"
proof (cases "document_with_sha sha (w_db w)")
  case (Some x)
  obtain w1 r where res: "resolve_existing_document_upload (doc_id x) (delete_file_if_exists staged w)
      = (w1, r)" by fastforce
  then have "queue_effect (delete_file_if_exists staged w) w1"
    by (rule resolve_effect [rotated]) (simp add: assms(1))
  then have eff: "queue_effect w w1" by (rule queue_effect_before) simp_all
  have stored: "queue_effect w (commit w2)"
    if "store_document_upload_response no_rivals scope key f response status w1 = (w2, Inr ())"
    for f response status w2
    by (rule queue_effect_after [OF eff]) (use store_upload_frame [OF that] in simp_all)
  have refused: "queue_effect w w2"
    if "store_document_upload_response no_rivals scope key f response status w1 = (w2, Inl e)"
    for f response status w2 e
    by (rule queue_effect_after [OF eff]) (use store_refused [OF that] queue_effect_settled [OF eff] in simp_all)
  show ?thesis
    using assms(3) Some res eff
    by (auto simp: admit_staged_document_def intro: stored refused clean_committed
        split: sum.splits option.splits prod.splits)
next
  case None
  show ?thesis
  proof (cases "w_files w staged")
    case None
    then show ?thesis
      using assms(3) \<open>document_with_sha sha (w_db w) = None\<close>
      by (auto simp: admit_staged_document_def intro: clean_undone undone_refl [OF assms(1)])
  next
    case (Some content)
    obtain w1 r where run: "queue_document_run no_rivals base staged sha filename mime key scope fp w = (w1, r)"
      by fastforce
    note eff = queue_run_effect [OF assms(1,2) run]
    show ?thesis
      using assms(3) None Some run eff
      by (auto simp: admit_staged_document_def
          intro: clean_undone clean_committed undone_refl [OF assms(1)] split: sum.splits)
  qed
qed

lemma upload_effect:
  assumes "w_saved w = w_db w" and "\<forall>x \<in> set (db_documents (w_db w)). doc_id x < w_fresh w"
    and "ingest_upload no_rivals pages cx st base upload key w = (w', res)"
  shows "queue_effect w w'"
proof (cases "is_pdf upload")
  case False
  then show ?thesis using assms by (auto simp: ingest_upload_def intro: queue_effect_same)
next
  case True
  show ?thesis
  proof (cases "stage_file True (Some (set_local_ingest_max_file_bytes st))
      ''File exceeds upload size limit.'' (uf_chunks upload)")
    case (Inl e)
    then show ?thesis using True assms by (auto simp: ingest_upload_def intro: queue_effect_same)
  next
    case (Inr content)
    define staged where "staged = staged_path base (w_fresh w)
      (default_suffix (str_default (uf_filename upload) ''upload.pdf''))"
    define w1 where "w1 = write_file staged content (w\<lparr>w_fresh := w_fresh w + 1\<rparr>)"
    have w1: "w_db w1 = w_db w" "w_saved w1 = w_db w1" "w_clock w1 = w_clock w"
      "w_fresh w1 = w_fresh w + 1" "undone w w1"
      using assms(1) by (simp_all add: w1_def undone_def)
    have ids: "\<forall>x \<in> set (db_documents (w_db w1)). doc_id x < w_fresh w1"
      using assms(2) w1 by auto
    have before: "queue_effect w v" if "queue_effect w1 v" for v
      by (rule queue_effect_before [OF that]) (simp_all add: w1)
    have drop: "queue_effect w (delete_file_if_exists staged w1)"
      by (rule queue_effect_same) (use w1 in simp_all)
    show ?thesis
      using assms(3) True Inr drop
      by (auto simp: ingest_upload_def take_id_def Let_def w1_def [symmetric, simplified] staged_def [symmetric]
          dest!: admit_effect [OF w1(2) ids, THEN before]
          intro: clean_undone [OF _ w1(5)] clean_committed split: sum.splits option.splits prod.splits)
  qed
qed

lemma local_ingest_effect:
  assumes "w_saved w = w_db w" and "\<forall>x \<in> set (db_documents (w_db w)). doc_id x < w_fresh w"
    and "ingest_local_file id pages cx st base p chunks w = (w', res)"
  shows "queue_effect w w'"
proof -
  have same: "queue_effect w w" using assms(1) by (intro queue_effect_same) simp_all
  have admit: "queue_effect w v"
    if "admit_staged_document no_rivals pages st base staged sha filename mime size_detail page_prefix
      key scope fp (write_file staged content (w\<lparr>w_fresh := w_fresh w + 1\<rparr>)) = (v, r)"
    for v r staged sha filename mime size_detail page_prefix key scope fp content
    by (rule queue_effect_before [OF admit_effect [OF _ _ that]]) (use assms(1,2) in auto)
  show ?thesis
    using assms(3) same
    by (auto simp: ingest_local_file_def take_id_def Let_def intro: admit split: sum.splits)
qed

lemma reprocess_effect:
  assumes "w_saved w = w_db w" and "reprocess_document no_rivals st document key w = (w', res)"
  shows "queue_effect w (rollback w')"
proof -
  have same: "queue_effect w (rollback w)" using assms(1) by (intro queue_effect_same) simp_all
  show ?thesis
  proof (cases "get_document document (w_db w)")
    case None
    then show ?thesis
      using assms(2) same by (auto simp: reprocess_document_def Let_def split: sum.splits option.splits)
  next
    case (Some x)
    then have x: "document = doc_id x" "get_document (doc_id x) (w_db w) = Some x"
      by (metis find_row_Some)+
    obtain w1 i where c: "create_run_for_locked_document document w = (w1, i)" by fastforce
    then have w1: "undone w w1"
      using assms(1) by (auto simp: create_run_for_locked_document_def take_id_def Let_def undone_def)
    have ok: "queue_effect w (rollback (commit w2))"
      if "store_document_upload_response no_rivals sc key fp response st' w1 = (w2, Inr ())"
        "case get_run_record (doc_latest_run_id x) (w_db w) of
            None \<Rightarrow> True | Some latest \<Rightarrow> \<not> inflight latest" for sc fp response st' w2
    proof (rule queue_effect_after [OF create_run_further [OF x(2) that(2) c [unfolded x(1)]]])
    qed (use store_upload_frame [OF that(1)] in simp_all)
    have bad: "queue_effect w (rollback w2)"
      if "store_document_upload_response no_rivals sc key fp response st' w1 = (w2, Inl e)"
      for sc fp response st' w2 e
      using w1 store_refused [OF that] by (intro queue_effect_same) (simp_all add: undone_def)
    show ?thesis
      using assms(2) same Some c
      by (auto simp: reprocess_document_def Let_def intro!: ok intro: bad
          split: sum.splits option.splits if_splits prod.splits)
  qed
qed

section \<open>The steps of the service\<close>

text \<open>
  \<open>fenced\<close> says whether a worker writes only while it holds the lease; the code does not look.
\<close>

definition may_write :: "bool \<Rightarrow> string \<Rightarrow> uuid \<Rightarrow> uuid \<Rightarrow> world \<Rightarrow> bool" where
  "may_write fenced worker i document w =
     (case get_run i (w_db w) of
        None \<Rightarrow> False
      | Some r \<Rightarrow> run_document_id r = document \<and> (fenced \<longrightarrow> holds_lease worker r))"

inductive run_step :: "codecs \<Rightarrow> settings \<Rightarrow> path \<Rightarrow> bool \<Rightarrow> world \<Rightarrow> world \<Rightarrow> bool"
  for cx st base fenced where
  tick: "0 \<le> t \<Longrightarrow> run_step cx st base fenced w (w\<lparr>w_clock := w_clock w + t\<rparr>)"
| upload: "run_step cx st base fenced w (fst (ingest_upload no_rivals pages cx st base u key w))"
| local_ingest: "run_step cx st base fenced w (fst (ingest_local_file id pages cx st base p chunks w))"
| reprocess: "run_step cx st base fenced w (rollback (fst (reprocess_document no_rivals st document key w)))"
| requeue: "run_step cx st base fenced w (fst (requeue_stale_runs cx st (Some base) w))"
| claim: "run_step cx st base fenced w (fst (claim_next_run worker w))"
| refresh: "run_step cx st base fenced w (fst (refresh_run_lease i worker w))"
| heartbeat: "may_write fenced worker i document w \<Longrightarrow>
    run_step cx st base fenced w (heartbeat_run i w)"
| persisted: "may_write fenced worker i document w \<Longrightarrow>
    run_step cx st base fenced w (mark_run_persisted document i parsed j y w)"
| validating: "may_write fenced worker i document w \<Longrightarrow>
    run_step cx st base fenced w (mark_run_validating i w)"
| succeeded: "may_write fenced worker i document w \<Longrightarrow> vr_passed report \<Longrightarrow>
    run_step cx st base fenced w (finalize_run_success (Some base) document i parsed report w)"
| failed: "may_write fenced worker i document w \<Longrightarrow>
    run_step cx st base fenced w
      (finalize_run_failure cx st (Some base) (get_document document (w_db w)) i e report stage w)"

text \<open>
  The invariant of the data: identifiers, digests and run numbers are unique; every run belongs to
  a document and has the columns of its status; the active run of a document is a completed run of
  it that passed validation; a run in flight is the latest run of its document.
\<close>

definition run_in_place :: "int \<Rightarrow> db \<Rightarrow> document_run \<Rightarrow> bool" where
  "run_in_place limit d r =
     (run_ok limit r \<and>
      (case get_document (run_document_id r) d of
         None \<Rightarrow> False
       | Some x \<Rightarrow> inflight r \<longrightarrow> doc_latest_run_id x = Some (run_id r)))"

definition active_run_ok :: "db \<Rightarrow> document \<Rightarrow> bool" where
  "active_run_ok d x =
     (case doc_active_run_id x of
        None \<Rightarrow> True
      | Some i \<Rightarrow>
          (case get_run i d of
             None \<Rightarrow> False
           | Some r \<Rightarrow> run_document_id r = doc_id x \<and> run_status r = Completed))"

definition numbered_key :: "document_run \<Rightarrow> uuid \<times> int" where
  "numbered_key r = (run_document_id r, run_number r)"

definition lifecycle :: "int \<Rightarrow> db \<Rightarrow> bool" where
  "lifecycle limit d =
     (distinct (map run_id (db_runs d)) \<and> distinct (map numbered_key (db_runs d))
      \<and> distinct (map doc_id (db_documents d)) \<and> distinct (map doc_sha256 (db_documents d))
      \<and> (\<forall>r \<in> set (db_runs d). run_in_place limit d r)
      \<and> (\<forall>x \<in> set (db_documents d). active_run_ok d x))"

definition ids_used :: "world \<Rightarrow> bool" where
  "ids_used w =
     ((\<forall>r \<in> set (db_runs (w_db w)). run_id r < w_fresh w)
      \<and> (\<forall>x \<in> set (db_documents (w_db w)). doc_id x < w_fresh w))"

definition service_ok :: "int \<Rightarrow> world \<Rightarrow> bool" where
  "service_ok limit w = (w_saved w = w_db w \<and> ids_used w \<and> lifecycle limit (w_db w))"

lemma lifecycle_cong:
  "db_runs d' = db_runs d \<Longrightarrow> db_documents d' = db_documents d \<Longrightarrow> lifecycle limit d' = lifecycle limit d"
  unfolding lifecycle_def run_in_place_def active_run_ok_def by (simp cong: option.case_cong)

text \<open>
  Most steps map the runs and the documents. Such a step keeps the invariant when it keeps the
  identities, changes only runs in flight, and promotes only what it completes.
\<close>

definition keeps_identity :: "(document_run \<Rightarrow> document_run) \<Rightarrow> (document \<Rightarrow> document) \<Rightarrow> bool" where
  "keeps_identity h g =
     ((\<forall>r. run_id (h r) = run_id r \<and> run_document_id (h r) = run_document_id r
          \<and> run_number (h r) = run_number r)
      \<and> (\<forall>x. doc_id (g x) = doc_id x \<and> doc_sha256 (g x) = doc_sha256 x))"

lemma lifecycle_map:
  assumes ok: "lifecycle limit d" and id: "keeps_identity h g"
    and runs: "\<And>r. r \<in> set (db_runs d) \<Longrightarrow> h r = r \<or> inflight r \<and> run_ok limit (h r)"
    and act: "\<And>x. x \<in> set (db_documents d) \<Longrightarrow> doc_active_run_id (g x) = doc_active_run_id x \<or>
      (\<exists>r. get_run (the (doc_active_run_id (g x))) d = Some r \<and> run_document_id r = doc_id x
        \<and> run_status (h r) = Completed)"
    and latest: "\<And>x r. x \<in> set (db_documents d) \<Longrightarrow> r \<in> set (db_runs d) \<Longrightarrow> inflight r \<Longrightarrow>
      run_document_id r = doc_id x \<Longrightarrow> doc_latest_run_id x = Some (run_id r) \<Longrightarrow>
      doc_latest_run_id (g x) = Some (run_id r)"
    and d': "db_runs d' = map h (db_runs d)" "db_documents d' = map g (db_documents d)"
  shows "lifecycle limit d'"
proof -
  have keys: "map run_id (map h rs) = map run_id rs" "map numbered_key (map h rs) = map numbered_key rs"
    "map doc_id (map g xs) = map doc_id xs" "map doc_sha256 (map g xs) = map doc_sha256 xs" for rs xs
    using id by (simp_all add: keeps_identity_def numbered_key_def)
  have gr: "get_run i d' = map_option h (get_run i d)" for i
    using id by (simp add: d' find_row_map keeps_identity_def)
  have gd: "get_document i d' = map_option g (get_document i d)" for i
    using id by (simp add: d' find_row_map keeps_identity_def)
  have place: "run_in_place limit d' (h r)" if r: "r \<in> set (db_runs d)" for r
  proof -
    have old: "run_in_place limit d r" using ok r by (simp add: lifecycle_def)
    then obtain x where x: "get_document (run_document_id r) d = Some x"
      "inflight r \<Longrightarrow> doc_latest_run_id x = Some (run_id r)"
      by (auto simp: run_in_place_def split: option.splits)
    then have xm: "x \<in> set (db_documents d)" "run_document_id r = doc_id x"
      by (auto dest: find_row_Some)
    have new: "run_ok limit (h r)" "inflight (h r) \<Longrightarrow> inflight r"
      using runs [OF r] old by (auto simp: run_in_place_def)
    show ?thesis
      using id new x(1) latest [OF xm(1) r _ xm(2) x(2)]
      by (simp add: run_in_place_def gd keeps_identity_def)
  qed
  have active: "active_run_ok d' (g x)" if x: "x \<in> set (db_documents d)" for x
  proof -
    have old: "active_run_ok d x" using ok x by (simp add: lifecycle_def)
    have comp: "h r = r" if "get_run i d = Some r" "run_status r = Completed" for i r
      using runs [of r] that by (auto simp: inflight_def INFLIGHT_RUN_STATUSES_def dest: find_row_Some)
    show ?thesis
      using act [OF x] old id comp
      by (cases "doc_active_run_id (g x)")
        (auto simp: active_run_ok_def gr keeps_identity_def split: option.splits)
  qed
  show ?thesis
    using ok place active unfolding lifecycle_def d' keys by simp
qed

text \<open>The two ways in which a request handler adds rows.\<close>

lemma next_run_number_new:
  assumes "r \<in> set (db_runs d)" and "run_document_id r = document"
  shows "run_number r < next_run_number document d"
proof -
  let ?ns = "map run_number (filter (\<lambda>r. run_document_id r = document) (db_runs d))"
  have "run_number r \<in> set ?ns" using assms by auto
  then have "?ns \<noteq> []" and "run_number r \<le> list_max (hd ?ns) ?ns"
    by (metis empty_iff empty_set, simp only: list_max_upper)
  then show ?thesis
    unfolding next_run_number_def by (cases ?ns) auto
qed

lemma new_run_ok: "run_ok limit (new_run i document n now)"
  by (simp add: run_ok_def new_run_def unlocked_def)

lemma new_run_fields [simp]:
  "run_id (new_run i document n now) = i" "run_document_id (new_run i document n now) = document"
  "run_number (new_run i document n now) = n" "run_status (new_run i document n now) = Queued"
  "run_attempts (new_run i document n now) = 0"
  by (simp_all add: new_run_def)

lemma lifecycle_first_run:
  assumes ok: "service_ok limit w" and f: "first_run w w' r x"
  shows "lifecycle limit (w_db w')"
proof -
  let ?d = "w_db w" and ?d' = "w_db w'"
  from f have runs: "db_runs ?d' = db_runs ?d @ [new_run r (doc_id x) 1 (w_clock w)]"
    and docs: "db_documents ?d' = db_documents ?d @ [x]" and lx: "doc_latest_run_id x = Some r"
    by (simp_all add: first_run_def)
  have lc: "lifecycle limit ?d" and used: "ids_used w" using ok by (simp_all add: service_ok_def)
  have new: "r \<notin> run_id ` set (db_runs ?d)" "doc_id x \<notin> doc_id ` set (db_documents ?d)"
    "doc_sha256 x \<notin> doc_sha256 ` set (db_documents ?d)"
    using f used by (auto simp: first_run_def ids_used_def document_with_sha_def find_None_iff)
  have known: "run_document_id q \<in> doc_id ` set (db_documents ?d)" if "q \<in> set (db_runs ?d)" for q
  proof -
    have "run_in_place limit ?d q" using lc that by (simp add: lifecycle_def)
    then obtain y where "get_document (run_document_id q) ?d = Some y"
      by (auto simp: run_in_place_def split: option.splits)
    from find_row_Some [OF this] show ?thesis by (metis imageI)
  qed
  then have nokey: "(doc_id x, 1) \<notin> numbered_key ` set (db_runs ?d)"
    using new(2) by (auto simp: numbered_key_def)
  have "get_document (doc_id x) ?d = None" using new(2) by (simp add: find_row_None)
  then have gd: "get_document i ?d' = (if i = doc_id x then Some x else get_document i ?d)" for i
    by (auto simp: docs find_row_append split: option.split)
  have place: "run_in_place limit ?d' q" if "q \<in> set (db_runs ?d)" for q
    using lc that known [OF that] new(2)
    by (auto simp: lifecycle_def run_in_place_def gd dest: bspec)
  have last: "run_in_place limit ?d' (new_run r (doc_id x) 1 (w_clock w))"
    using lx by (simp add: run_in_place_def gd new_run_ok)
  have act: "active_run_ok ?d' y" if "y \<in> set (db_documents ?d)" for y
    using lc that by (auto simp: lifecycle_def active_run_ok_def runs find_row_append
        split: option.splits dest!: bspec)
  have "active_run_ok ?d' x" using f by (simp add: active_run_ok_def first_run_def)
  then show ?thesis
    using lc place last act new nokey by (auto simp: lifecycle_def runs docs numbered_key_def)
qed

lemma lifecycle_further_run:
  assumes ok: "service_ok limit w" and f: "further_run w w' r x"
  shows "lifecycle limit (w_db w')"
proof -
  let ?d = "w_db w" and ?d' = "w_db w'"
  let ?q = "new_run r (doc_id x) (next_run_number (doc_id x) ?d) (w_clock w)"
  from f have runs: "db_runs ?d' = db_runs ?d @ [?q]"
    and docs: "db_documents ?d' = update_row doc_id (doc_id x) (point_latest r (w_clock w)) (db_documents ?d)"
    and x: "get_document (doc_id x) ?d = Some x"
    by (simp_all add: further_run_def)
  have lc: "lifecycle limit ?d" and used: "ids_used w" using ok by (simp_all add: service_ok_def)
  have new: "r \<notin> run_id ` set (db_runs ?d)"
    using f used by (auto simp: further_run_def ids_used_def)
  have nokey: "numbered_key ?q \<notin> numbered_key ` set (db_runs ?d)"
    by (auto simp: numbered_key_def dest: next_run_number_new)
  have gd: "get_document i ?d' =
      (if i = doc_id x then Some (point_latest r (w_clock w) x) else get_document i ?d)" for i
    using x by (simp add: docs find_row_update point_latest_def)
  have free: "\<not> inflight q" if q: "q \<in> set (db_runs ?d)" "run_document_id q = doc_id x" for q
  proof
    assume "inflight q"
    with lc q x have "doc_latest_run_id x = Some (run_id q)"
      by (auto simp: lifecycle_def run_in_place_def dest!: bspec)
    moreover have "get_run (run_id q) ?d = Some q"
      using lc q(1) by (simp add: lifecycle_def find_row_unique)
    ultimately show False using f \<open>inflight q\<close> by (simp add: further_run_def get_run_record_def)
  qed
  have place: "run_in_place limit ?d' q" if "q \<in> set (db_runs ?d)" for q
    using lc that free [OF that] x
    by (auto simp: lifecycle_def run_in_place_def gd dest: bspec)
  have last: "run_in_place limit ?d' ?q"
    by (simp add: run_in_place_def gd new_run_ok point_latest_def)
  have act: "active_run_ok ?d' (if doc_id y = doc_id x then point_latest r (w_clock w) y else y)"
    if "y \<in> set (db_documents ?d)" for y
    using lc that by (auto simp: lifecycle_def active_run_ok_def runs find_row_append point_latest_def
        split: option.splits dest!: bspec)
  have "\<forall>y \<in> set (db_documents ?d'). active_run_ok ?d' y"
    unfolding docs set_update_row by (intro ballI, elim imageE) (simp only: act)
  note act = this
  have keys: "map doc_id (db_documents ?d') = map doc_id (db_documents ?d)"
    "map doc_sha256 (db_documents ?d') = map doc_sha256 (db_documents ?d)"
    by (simp_all add: docs update_row_def point_latest_def)
  show ?thesis
    unfolding lifecycle_def keys
    using lc place last act new nokey by (simp add: lifecycle_def runs)
qed

lemma queue_effect_ids:
  assumes "queue_effect w w'" and "ids_used w"
  shows "ids_used w'"
proof -
  have ids_used_iff: "ids_used v \<longleftrightarrow> (\<forall>r \<in> set (db_runs (w_db v)). run_id r < w_fresh v)
      \<and> (\<forall>i \<in> doc_id ` set (db_documents (w_db v)). i < w_fresh v)" for v
    by (auto simp: ids_used_def)
  have fresh: "w_fresh w \<le> w_fresh w'" using assms(1) by (simp add: queue_effect_def)
  from assms(1) consider
      (same) "db_runs (w_db w') = db_runs (w_db w)" "db_documents (w_db w') = db_documents (w_db w)"
    | (further) r x where "further_run w w' r x" | (first) r x where "first_run w w' r x"
    unfolding queue_effect_def by blast
  then show ?thesis
  proof cases
    case same
    then show ?thesis using assms(2) fresh by (fastforce simp: ids_used_def)
  next
    case further
    have "map doc_id (db_documents (w_db w')) = map doc_id (db_documents (w_db w))"
      using further by (simp add: further_run_def map_key_update_row point_latest_def)
    then have "doc_id ` set (db_documents (w_db w')) = doc_id ` set (db_documents (w_db w))"
      by (metis list.set_map)
    with fresh assms(2) further show ?thesis by (fastforce simp: ids_used_iff further_run_def)
  next
    case first
    then show ?thesis using fresh assms(2) by (fastforce simp: ids_used_def first_run_def)
  qed
qed

text \<open>Any run afterwards was there before or is new and queued.\<close>

lemma queue_effect_runs:
  assumes "queue_effect w w'" and "ids_used w" and "distinct (map run_id (db_runs (w_db w)))"
  shows "distinct (map run_id (db_runs (w_db w')))
    \<and> (\<forall>r \<in> set (db_runs (w_db w')). r \<in> set (db_runs (w_db w)) \<or> (\<exists>i x n t. r = new_run i x n t))"
  using assms by (fastforce simp: queue_effect_def further_run_def first_run_def ids_used_def)

lemma queue_effect_ok:
  assumes "service_ok limit w" and "queue_effect w w'"
  shows "service_ok limit w'"
proof -
  from assms(2) have "lifecycle limit (w_db w')"
    using lifecycle_further_run [OF assms(1)] lifecycle_first_run [OF assms(1)] lifecycle_cong assms(1)
    unfolding queue_effect_def service_ok_def by blast
  then show ?thesis
    using assms queue_effect_ids [OF assms(2)] by (simp add: service_ok_def queue_effect_def)
qed

section \<open>The life cycle is invariant\<close>

lemma holds_lease_inflight: "holds_lease worker r \<Longrightarrow> inflight r"
  by (auto simp: holds_lease_def in_progress_def inflight_def INFLIGHT_RUN_STATUSES_def)

lemma may_write_fenced:
  assumes "may_write True worker i document w"
  obtains r where "get_run i (w_db w) = Some r" "run_document_id r = document" "in_progress r"
    "inflight r"
  using assms by (auto simp: may_write_def holds_lease_def in_progress_def inflight_def
      INFLIGHT_RUN_STATUSES_def split: option.splits)

lemma run_ok_heartbeat:
  "run_ok limit r \<Longrightarrow> in_progress r \<Longrightarrow> run_ok limit (r\<lparr>run_last_heartbeat_at := Some t\<rparr>)"
  by (auto simp: run_ok_def in_progress_def split: run_status.splits)

lemma run_ok_persisted: "run_ok limit r \<Longrightarrow> in_progress r \<Longrightarrow> run_ok limit (persisted_run parsed j y r)"
  by (auto simp: run_ok_def persisted_run_def in_progress_def split: run_status.splits)

lemma run_ok_validating: "run_ok limit r \<Longrightarrow> in_progress r \<Longrightarrow> run_ok limit (validating_run t r)"
  by (auto simp: run_ok_def validating_run_def in_progress_def split: run_status.splits)

lemma run_numbers [simp]:
  "run_number (requeued_row st base now r) = run_number r"
  "run_number (claimed_run now worker r) = run_number r"
  "run_number (completed_run now parsed report r) = run_number r"
  "run_number (failed_run st now exc rep stage r) = run_number r"
  "run_number (validating_run now r) = run_number r"
  "run_number (persisted_run parsed j y r) = run_number r"
  "run_id (validating_run now r) = run_id r" "run_id (persisted_run parsed j y r) = run_id r"
  "run_document_id (validating_run now r) = run_document_id r"
  "run_document_id (persisted_run parsed j y r) = run_document_id r"
  "run_attempts (validating_run now r) = run_attempts r"
  "run_attempts (persisted_run parsed j y r) = run_attempts r"
  by (simp_all add: requeued_row_def requeued_run_def claimed_run_def completed_run_def
      failed_run_def validating_run_def persisted_run_def release_run_def Let_def)

text \<open>A step that changes one run in flight, and no document.\<close>

lemma lifecycle_run:
  assumes "lifecycle limit d" and "get_run i d = Some q" and "inflight q" and "run_ok limit (f q)"
    and "\<And>r. run_id (f r) = run_id r \<and> run_document_id (f r) = run_document_id r \<and> run_number (f r) = run_number r"
    and "db_runs d' = update_row run_id i f (db_runs d)" and "db_documents d' = db_documents d"
  shows "lifecycle limit d'"
proof (rule lifecycle_map [where h = "\<lambda>r. if run_id r = i then f r else r" and g = "\<lambda>x. x"])
  fix r assume r: "r \<in> set (db_runs d)"
  then have "r = q" if "run_id r = i"
    using assms(1,2) that by (metis find_row_unique lifecycle_def option.inject)
  then show "(if run_id r = i then f r else r) = r \<or> inflight r \<and> run_ok limit (if run_id r = i then f r else r)"
    using assms(3,4) by auto
qed (use assms in \<open>auto simp: keeps_identity_def update_row_def\<close>)

lemma requeue_ok:
  assumes "lifecycle (set_worker_max_attempts st) (w_db w)"
  shows "lifecycle (set_worker_max_attempts st) (w_db (fst (requeue_stale_runs cx st base w)))"
proof (rule lifecycle_map [OF assms, where g = "\<lambda>x. x"])
  show "db_runs (w_db (fst (requeue_stale_runs cx st base w))) =
      map (\<lambda>r. if run_is_stale (stale_before st w) r then requeued_row st base (w_clock w) r else r)
        (db_runs (w_db w))"
    using assms by (intro requeue_runs) (simp add: lifecycle_def)
  fix r assume "r \<in> set (db_runs (w_db w))"
  then have "run_ok (set_worker_max_attempts st) r"
    using assms by (simp add: lifecycle_def run_in_place_def)
  moreover have "inflight r \<and> in_progress r" if "run_is_stale (stale_before st w) r"
    using that by (auto simp: run_is_stale_def in_progress_def inflight_def INFLIGHT_RUN_STATUSES_def)
  ultimately show "(if run_is_stale (stale_before st w) r then requeued_row st base (w_clock w) r else r) = r \<or>
      inflight r \<and> run_ok (set_worker_max_attempts st)
        (if run_is_stale (stale_before st w) r then requeued_row st base (w_clock w) r else r)"
    by (auto simp: requeued_row_def requeued_run_ok)
qed (simp_all add: keeps_identity_def requeue_frame)

lemma claim_ok:
  assumes "service_ok limit w" and "1 \<le> limit"
  shows "lifecycle limit (w_db (fst (claim_next_run worker w)))"
proof -
  have "runs_settled w" using assms(1) by (simp add: service_ok_def lifecycle_def runs_settled_def)
  then show ?thesis
  proof (cases rule: claim_next_run_cases [where worker = worker])
    case none
    then show ?thesis using assms(1) by (simp add: service_ok_def)
  next
    case (run r v)
    have lc: "lifecycle limit (w_db w)" using assms(1) by (simp add: service_ok_def)
    then have "run_ok limit r" using run(2) by (simp add: lifecycle_def run_in_place_def)
    then have "run_ok limit (claimed_run (w_clock w) worker r)"
      using assms(2) run(3) by (rule claimed_run_ok)
    moreover have "inflight r" using run(3) by (auto simp: run_eligible_def inflight_def INFLIGHT_RUN_STATUSES_def)
    ultimately have "lifecycle limit (w_db v)"
      by (intro lifecycle_run [OF lc run(4), where f = "claimed_run (w_clock w) worker"])
        (simp_all add: run(5))
    then show ?thesis using run(1) by simp
  qed
qed

lemma refresh_ok:
  assumes "service_ok limit w"
  shows "lifecycle limit (w_db (fst (refresh_run_lease i worker w)))"
proof (rule lifecycle_map [where g = "\<lambda>x. x"])
  let ?hit = "\<lambda>r. run_id r = i \<and> holds_lease worker r"
  show "db_runs (w_db (fst (refresh_run_lease i worker w))) =
      map (\<lambda>r. if ?hit r then r\<lparr>run_last_heartbeat_at := Some (w_clock w)\<rparr> else r) (db_runs (w_db w))"
    by (simp add: refresh_run_lease_def Let_def)
  fix r assume "r \<in> set (db_runs (w_db w))"
  then have "run_ok limit r" using assms by (simp add: service_ok_def lifecycle_def run_in_place_def)
  then show "(if ?hit r then r\<lparr>run_last_heartbeat_at := Some (w_clock w)\<rparr> else r) = r \<or>
      inflight r \<and> run_ok limit (if ?hit r then r\<lparr>run_last_heartbeat_at := Some (w_clock w)\<rparr> else r)"
    using holds_lease_inflight run_ok_heartbeat by (auto simp: holds_lease_def)
qed (use assms in \<open>simp_all add: service_ok_def keeps_identity_def refresh_run_lease_def Let_def\<close>)

lemma heartbeat_ok:
  assumes "lifecycle limit (w_db w)" and "may_write True worker i document w"
  shows "lifecycle limit (w_db (heartbeat_run i w))" "lifecycle limit (w_db (mark_run_validating i w))"
proof -
  obtain r where r: "get_run i (w_db w) = Some r" "in_progress r" "inflight r"
    using assms(2) by (rule may_write_fenced)
  then have ok: "run_ok limit r"
    using assms(1) by (auto simp: lifecycle_def run_in_place_def dest!: find_row_Some)
  show "lifecycle limit (w_db (heartbeat_run i w))"
    using r ok by (intro lifecycle_run [OF assms(1) r(1,3),
        where f = "\<lambda>r. r\<lparr>run_last_heartbeat_at := Some (w_clock w)\<rparr>"])
      (simp_all add: heartbeat_run_def run_ok_heartbeat)
  show "lifecycle limit (w_db (mark_run_validating i w))"
    using r ok by (intro lifecycle_run [OF assms(1) r(1,3), where f = "validating_run (w_clock w)"])
      (simp_all add: mark_run_validating_def run_ok_validating)
qed

lemma documents_update:
  "db_documents d' = update_row doc_id document g (db_documents d) \<Longrightarrow>
   db_documents d' = map (\<lambda>x. if doc_id x = document then g x else x) (db_documents d)"
  by (simp add: update_row_def)

lemma lifecycle_same_run:
  "lifecycle limit d \<Longrightarrow> r \<in> set (db_runs d) \<Longrightarrow> get_run i d = Some q \<Longrightarrow> run_id r = i \<Longrightarrow> r = q"
  by (metis find_row_unique lifecycle_def option.inject)

lemma persisted_ok:
  assumes lc: "lifecycle limit (w_db w)" and "may_write True worker i document w"
  shows "lifecycle limit (w_db (mark_run_persisted document i parsed j y w))"
proof -
  obtain q where q: "get_run i (w_db w) = Some q" "run_document_id q = document" "in_progress q" "inflight q"
    using assms(2) by (rule may_write_fenced)
  have qm: "q \<in> set (db_runs (w_db w))" "run_id q = i" using q(1) by (auto dest: find_row_Some)
  then have ok: "run_in_place limit (w_db w) q" using lc by (simp add: lifecycle_def)
  note same = lifecycle_same_run [OF lc _ q(1)]
  let ?h = "\<lambda>r. if run_id r = i then persisted_run parsed j y r else r"
  let ?g = "\<lambda>x. if doc_id x = document then point_latest i (w_clock w) x else x"
  show ?thesis
  proof (rule lifecycle_map [OF lc, where h = ?h and g = ?g])
    fix r assume "r \<in> set (db_runs (w_db w))"
    then show "?h r = r \<or> inflight r \<and> run_ok limit (?h r)"
      using same [of r] q ok by (auto simp: run_ok_persisted run_in_place_def)
  next
    fix x r assume x: "x \<in> set (db_documents (w_db w))" "r \<in> set (db_runs (w_db w))" "inflight r"
      "run_document_id r = doc_id x" "doc_latest_run_id x = Some (run_id r)"
    have "get_document (doc_id x) (w_db w) = Some x"
      using lc x(1) by (simp add: lifecycle_def find_row_unique)
    then have "run_id r = i" if "doc_id x = document"
      using ok q that x(5) qm(2) by (simp add: run_in_place_def)
    then show "doc_latest_run_id (?g x) = Some (run_id r)" using x(5) by (simp add: point_latest_def)
  qed (simp_all add: mark_run_persisted_def update_row_def keeps_identity_def point_latest_def)
qed

lemma success_ok:
  assumes lc: "lifecycle limit (w_db w)" and "may_write True worker i document w"
  shows "lifecycle limit (w_db (finalize_run_success base document i parsed report w))"
proof -
  obtain q where q: "get_run i (w_db w) = Some q" "run_document_id q = document" "in_progress q" "inflight q"
    using assms(2) by (rule may_write_fenced)
  have qm: "q \<in> set (db_runs (w_db w))" "run_id q = i" using q(1) by (auto dest: find_row_Some)
  then have ok: "run_in_place limit (w_db w) q" using lc by (simp add: lifecycle_def)
  note same = lifecycle_same_run [OF lc _ q(1)]
  let ?h = "\<lambda>r. if run_id r = i then completed_run (w_clock w) parsed report r else r"
  let ?g = "\<lambda>x. if doc_id x = document then promoted_document (w_clock w) i parsed x else x"
  show ?thesis
  proof (rule lifecycle_map [OF lc, where h = ?h and g = ?g])
    fix r assume "r \<in> set (db_runs (w_db w))"
    then show "?h r = r \<or> inflight r \<and> run_ok limit (?h r)"
      using same [of r] q ok by (auto simp: completed_run_ok run_in_place_def)
  next
    fix x assume "x \<in> set (db_documents (w_db w))"
    then show "doc_active_run_id (?g x) = doc_active_run_id x \<or>
        (\<exists>r. get_run (the (doc_active_run_id (?g x))) (w_db w) = Some r \<and>
          run_document_id r = doc_id x \<and> run_status (?h r) = Completed)"
      using q(1,2) qm(2) by (auto simp: promoted_document_def completed_run_def)
  next
    fix x r assume x: "x \<in> set (db_documents (w_db w))" "r \<in> set (db_runs (w_db w))" "inflight r"
      "run_document_id r = doc_id x" "doc_latest_run_id x = Some (run_id r)"
    have "get_document (doc_id x) (w_db w) = Some x"
      using lc x(1) by (simp add: lifecycle_def find_row_unique)
    then have "run_id r = i" if "doc_id x = document"
      using ok q that x(5) qm(2) by (simp add: run_in_place_def)
    then show "doc_latest_run_id (?g x) = Some (run_id r)" using x(5) by (simp add: promoted_document_def)
  qed (simp_all add: finalize_run_success_runs update_row_def keeps_identity_def promoted_document_def)
qed

lemma failure_ok:
  assumes lc: "lifecycle (set_worker_max_attempts st) (w_db w)" and "may_write True worker i document w"
  shows "lifecycle (set_worker_max_attempts st)
    (w_db (finalize_run_failure cx st base doc i e report stage w))"
proof -
  obtain q where q: "get_run i (w_db w) = Some q" "in_progress q" "inflight q"
    using assms(2) by (rule may_write_fenced)
  obtain fp where fp: "db_runs (w_db (finalize_run_failure cx st base doc i e report stage w)) =
      update_row run_id i
        (\<lambda>_. (failed_run st (w_clock w) e report stage q)\<lparr>run_failure_artifact_path := fp\<rparr>)
        (db_runs (w_db w))"
    "db_documents (w_db (finalize_run_failure cx st base doc i e report stage w)) = db_documents (w_db w)"
    using finalize_run_failure_runs [OF q(1)] by blast
  let ?f = "\<lambda>r. (failed_run st (w_clock w) e report stage r)\<lparr>run_failure_artifact_path := fp\<rparr>"
  note same = lifecycle_same_run [OF lc _ q(1)]
  have "run_ok (set_worker_max_attempts st) q"
    using lc q(1) by (auto simp: lifecycle_def run_in_place_def dest!: find_row_Some)
  then have ok: "run_ok (set_worker_max_attempts st) (?f q)" using q(2) by (rule failed_run_ok)
  have runs: "db_runs (w_db (finalize_run_failure cx st base doc i e report stage w)) =
      update_row run_id i ?f (db_runs (w_db w))"
    unfolding fp(1) using same by (auto simp: update_row_def)
  show ?thesis by (rule lifecycle_run [OF lc q(1,3) ok _ runs fp(2)]) simp
qed

text \<open>
  What any step does, fenced or not: it commits, and it either adds rows or maps the runs, keeping
  their identifiers and the bound on their attempts.
\<close>

definition mapped_runs :: "int \<Rightarrow> world \<Rightarrow> world \<Rightarrow> bool" where
  "mapped_runs limit w w' \<longleftrightarrow>
     (w_saved w' = w_db w' \<and> w_fresh w' = w_fresh w
      \<and> map doc_id (db_documents (w_db w')) = map doc_id (db_documents (w_db w))
      \<and> (\<exists>h. db_runs (w_db w') = map h (db_runs (w_db w)) \<and>
           (\<forall>r \<in> set (db_runs (w_db w)). run_id (h r) = run_id r \<and>
              (attempts_ok limit r \<longrightarrow> attempts_ok limit (h r)))))"

lemma mapped_runs_update:
  assumes "w_saved w' = w_db w'" and "w_fresh w' = w_fresh w"
    and "db_documents (w_db w') = update_row doc_id document g (db_documents (w_db w)) \<or>
      db_documents (w_db w') = db_documents (w_db w)"
    and "\<And>x. doc_id (g x) = doc_id x"
    and "db_runs (w_db w') = update_row run_id i f (db_runs (w_db w))"
    and "\<And>r. r \<in> set (db_runs (w_db w)) \<Longrightarrow> run_id r = i \<Longrightarrow> run_id (f r) = run_id r \<and>
      (attempts_ok limit r \<longrightarrow> attempts_ok limit (f r))"
  shows "mapped_runs limit w w'"
proof -
  have "map doc_id (db_documents (w_db w')) = map doc_id (db_documents (w_db w))"
    using assms(3,4) map_key_update_row [of doc_id g] by auto
  moreover have "db_runs (w_db w') = map (\<lambda>r. if run_id r = i then f r else r) (db_runs (w_db w))"
    by (simp add: assms(5) update_row_def)
  ultimately show ?thesis
    using assms(1,2,6) unfolding mapped_runs_def
    by (intro conjI exI [where x = "\<lambda>r. if run_id r = i then f r else r"]) auto
qed

lemma may_write_run:
  "may_write fenced worker i document w \<Longrightarrow> \<exists>r. get_run i (w_db w) = Some r"
  by (auto simp: may_write_def split: option.splits)

lemma attempts_ok_same:
  "run_attempts r' = run_attempts r \<Longrightarrow> run_status r' = run_status r \<Longrightarrow>
   attempts_ok limit r \<Longrightarrow> attempts_ok limit r'"
  by (simp add: attempts_ok_def)

lemma settled_same_run:
  "runs_settled w \<Longrightarrow> r \<in> set (db_runs (w_db w)) \<Longrightarrow> get_run i (w_db w) = Some q \<Longrightarrow> run_id r = i \<Longrightarrow> r = q"
  by (metis find_row_unique runs_settled_def option.inject)

lemma claim_mapped:
  assumes "runs_settled w"
  shows "mapped_runs limit w (fst (claim_next_run worker w))"
  using assms
proof (cases rule: claim_next_run_cases [where worker = worker])
  case none
  then show ?thesis
    using assms by (auto simp: mapped_runs_def runs_settled_def intro: exI [where x = "\<lambda>r. r"])
next
  case (run r v)
  have "attempts_ok limit (claimed_run (w_clock w) worker q)"
    if "q \<in> set (db_runs (w_db w))" "run_id q = run_id r" "attempts_ok limit q" for q
    using settled_same_run [OF assms that(1) run(4) that(2)] that(3) run(3)
    by (simp add: attempts_ok_steps(2))
  then have "mapped_runs limit w v"
    unfolding run(5)
    by (intro mapped_runs_update [where g = "\<lambda>x. x" and i = "run_id r" and
          f = "claimed_run (w_clock w) worker"]) simp_all
  then show ?thesis using run(1) by simp
qed

lemma requeue_mapped:
  assumes "runs_settled w"
  shows "mapped_runs (set_worker_max_attempts st) w (fst (requeue_stale_runs cx st base w))"
proof -
  have "db_runs (w_db (fst (requeue_stale_runs cx st base w))) =
      map (\<lambda>r. if run_is_stale (stale_before st w) r then requeued_row st base (w_clock w) r else r)
        (db_runs (w_db w))"
    using assms by (intro requeue_runs) (simp add: runs_settled_def)
  moreover have "w_saved (fst (requeue_stale_runs cx st base w)) =
      w_db (fst (requeue_stale_runs cx st base w))"
    using assms by (intro requeue_saved) (simp add: runs_settled_def)
  ultimately show ?thesis
    unfolding mapped_runs_def
    by (intro conjI exI [where x = "\<lambda>r. if run_is_stale (stale_before st w) r
          then requeued_row st base (w_clock w) r else r"])
      (auto simp: requeue_frame requeued_row_def attempts_ok_steps(1))
qed

lemma refresh_mapped:
  assumes "w_saved w = w_db w"
  shows "mapped_runs limit w (fst (refresh_run_lease i worker w))"
proof -
  let ?h = "\<lambda>r. if run_id r = i \<and> holds_lease worker r
      then r\<lparr>run_last_heartbeat_at := Some (w_clock w)\<rparr> else r"
  have "attempts_ok limit (?h r)" if "attempts_ok limit r" for r
    using that by (auto intro: attempts_ok_same)
  then show ?thesis
    using assms unfolding mapped_runs_def
    by (intro conjI exI [where x = ?h]) (auto simp: refresh_run_lease_def Let_def)
qed

lemma attempts_ok_marks:
  "attempts_ok limit r \<Longrightarrow> attempts_ok limit (r\<lparr>run_last_heartbeat_at := Some t\<rparr>)"
  "attempts_ok limit r \<Longrightarrow> attempts_ok limit (validating_run t r)"
  "attempts_ok limit r \<Longrightarrow> attempts_ok limit (persisted_run parsed j y r)"
  by (auto simp: attempts_ok_def validating_run_def persisted_run_def)

lemma run_step_effect:
  assumes "run_step cx st base fenced w w'" and "runs_settled w" and "ids_used w"
  shows "queue_effect w w' \<or> mapped_runs (set_worker_max_attempts st) w w'"
  using assms(1)
proof cases
  case (tick t)
  then have "mapped_runs (set_worker_max_attempts st) w w'"
    using assms(2) by (auto simp: mapped_runs_def runs_settled_def intro: exI [where x = "\<lambda>r. r"])
  then show ?thesis by blast
next
  case (upload pages u key)
  then show ?thesis
    using assms(2,3) upload_effect [of w pages cx st base u key w']
    by (metis ids_used_def prod.collapse runs_settled_def)
next
  case (local_ingest pages p chunks)
  then show ?thesis
    using assms(2,3) local_ingest_effect [of w pages cx st base p chunks w']
    by (metis ids_used_def prod.collapse runs_settled_def)
next
  case (reprocess document key)
  then show ?thesis
    using assms(2) reprocess_effect [of w st document key] by (metis prod.collapse runs_settled_def)
next
  case requeue
  then show ?thesis using requeue_mapped [OF assms(2)] by simp
next
  case (claim worker)
  then show ?thesis using claim_mapped [OF assms(2)] by simp
next
  case (refresh i worker)
  then show ?thesis using refresh_mapped assms(2) by (simp add: runs_settled_def)
next
  case (heartbeat worker i document)
  have "mapped_runs (set_worker_max_attempts st) w w'"
    unfolding heartbeat(1)
    by (rule mapped_runs_update [where g = "\<lambda>x. x" and i = i and
          f = "\<lambda>r. r\<lparr>run_last_heartbeat_at := Some (w_clock w)\<rparr>"])
      (auto simp: heartbeat_run_def attempts_ok_marks)
  then show ?thesis by blast
next
  case (persisted worker i document parsed j y)
  have "mapped_runs (set_worker_max_attempts st) w w'"
    unfolding persisted(1)
    by (rule mapped_runs_update [where g = "point_latest i (w_clock w)" and i = i and
          document = document and f = "persisted_run parsed j y"])
      (auto simp: mark_run_persisted_def attempts_ok_marks point_latest_def)
  then show ?thesis by blast
next
  case (validating worker i document)
  have "mapped_runs (set_worker_max_attempts st) w w'"
    unfolding validating(1)
    by (rule mapped_runs_update [where g = "\<lambda>x. x" and i = i and f = "validating_run (w_clock w)"])
      (auto simp: mark_run_validating_def attempts_ok_marks)
  then show ?thesis by blast
next
  case (succeeded worker i document report parsed)
  have "mapped_runs (set_worker_max_attempts st) w w'"
    unfolding succeeded(1)
    by (rule mapped_runs_update [where g = "promoted_document (w_clock w) i parsed" and i = i and
          document = document and f = "completed_run (w_clock w) parsed report"])
      (auto simp: finalize_run_success_runs promoted_document_def attempts_ok_steps
        simp del: world_simps, simp_all add: finalize_run_success_def Let_def split: option.split)
  then show ?thesis by blast
next
  case (failed worker i document e report stage)
  obtain q where q: "get_run i (w_db w) = Some q" using may_write_run [OF failed(2)] by blast
  let ?doc = "get_document document (w_db w)"
  obtain fp where fp: "db_runs (w_db w') = update_row run_id i
        (\<lambda>_. (failed_run st (w_clock w) e report stage q)\<lparr>run_failure_artifact_path := fp\<rparr>)
        (db_runs (w_db w))"
    "db_documents (w_db w') = db_documents (w_db w)" "w_saved w' = w_db w'"
    using finalize_run_failure_runs [OF q, of cx st "Some base" ?doc e report stage] failed(1) by blast
  have "w_fresh w' = w_fresh w"
    unfolding failed(1) finalize_run_failure_def Let_def case_prod_beta by (simp split: option.split)
  moreover have "r = q" if "r \<in> set (db_runs (w_db w))" "run_id r = i" for r
    using settled_same_run [OF assms(2) that(1) q that(2)] .
  ultimately have "mapped_runs (set_worker_max_attempts st) w w'"
    using fp by (intro mapped_runs_update [where g = "\<lambda>x. x" and i = i and
          f = "\<lambda>_. (failed_run st (w_clock w) e report stage q)\<lparr>run_failure_artifact_path := fp\<rparr>"])
      (auto dest: attempts_ok_steps(4))
  then show ?thesis by blast
qed

lemma service_settled: "service_ok limit w \<Longrightarrow> runs_settled w"
  by (simp add: service_ok_def lifecycle_def runs_settled_def)

lemma ids_used_mapped:
  assumes "mapped_runs limit w w'" and "ids_used w"
  shows "ids_used w'"
proof -
  have "doc_id ` set (db_documents (w_db w')) = doc_id ` set (db_documents (w_db w))"
    using assms(1) unfolding mapped_runs_def by (metis list.set_map)
  then have "\<forall>x \<in> set (db_documents (w_db w')). doc_id x < w_fresh w"
    using assms(2) unfolding ids_used_def by (metis (no_types, lifting) imageE imageI)
  then show ?thesis using assms by (auto simp: ids_used_def mapped_runs_def)
qed

lemma run_step_ok:
  assumes "run_step cx st base True w w'" and "service_ok (set_worker_max_attempts st) w"
    and "1 \<le> set_worker_max_attempts st"
  shows "service_ok (set_worker_max_attempts st) w'"
proof (cases "queue_effect w w'")
  case True
  then show ?thesis using queue_effect_ok assms(2) by blast
next
  case False
  have used: "ids_used w" using assms(2) by (simp add: service_ok_def)
  have lc: "lifecycle (set_worker_max_attempts st) (w_db w)" using assms(2) by (simp add: service_ok_def)
  have mapped: "mapped_runs (set_worker_max_attempts st) w w'"
    using run_step_effect [OF assms(1) service_settled [OF assms(2)] used] False by blast
  have "lifecycle (set_worker_max_attempts st) (w_db w')"
    using assms(1)
  proof cases
    case (upload pages u key)
    have "queue_effect w w'"
      using upload_effect [of w pages cx st base u key w'] assms(2) used upload
      by (metis ids_used_def prod.collapse service_ok_def)
    then show ?thesis using False by blast
  next
    case (local_ingest pages p chunks)
    have "queue_effect w w'"
      using local_ingest_effect [of w pages cx st base p chunks w'] assms(2) used local_ingest
      by (metis ids_used_def prod.collapse service_ok_def)
    then show ?thesis using False by blast
  next
    case (reprocess document key)
    have "queue_effect w w'"
      using reprocess_effect [of w st document key] assms(2) reprocess
      by (metis prod.collapse service_ok_def)
    then show ?thesis using False by blast
  qed (use lc assms(2,3) in \<open>auto intro: requeue_ok claim_ok refresh_ok heartbeat_ok persisted_ok
        success_ok failure_ok\<close>)
  then show ?thesis
    using mapped ids_used_mapped [OF mapped used] by (simp add: service_ok_def mapped_runs_def)
qed

lemma initial_ok: "service_ok limit initial_world"
  by (simp add: service_ok_def initial_world_def empty_db_def ids_used_def lifecycle_def)

lemma reachable_ok:
  assumes "(run_step cx st base True)\<^sup>*\<^sup>* initial_world w" and "1 \<le> set_worker_max_attempts st"
  shows "service_ok (set_worker_max_attempts st) w"
  using assms(1) by induction (auto intro: initial_ok run_step_ok assms(2))

text \<open>
  Starting from an empty database, and as long as only workers that hold the lease of a run
  write to it, every order of uploads, local ingests, reprocess requests, claims, recoveries, heartbeats and
  worker results by any number of workers keeps the life cycle: identifiers, digests and run
  numbers unique, every run with the columns of its status and at most the allowed attempts, every
  active run a completed run of its document, everything committed.
\<close>

theorem lifecycle_invariant:
  assumes "(run_step cx st base True)\<^sup>*\<^sup>* initial_world w" and "1 \<le> set_worker_max_attempts st"
  shows "service_ok (set_worker_max_attempts st) w"
  using reachable_ok [OF assms] .

definition example_upload :: upload_file where
  "example_upload = \<lparr>uf_filename = Some ''a.pdf'', uf_content_type = None,
     uf_chunks = [''%PDF-'', ''1.7'']\<rparr>"

text \<open>One upload, and a worker that takes it.\<close>

definition example_uploaded :: world where
  "example_uploaded = fst (ingest_upload no_rivals (\<lambda>_. Some 1) example_codecs default_settings ''store''
     example_upload (Some ''k1'') initial_world)"

definition example_trace :: world where
  "example_trace = fst (claim_next_run ''worker-1'' example_uploaded)"

lemma example_staged:
  "is_pdf example_upload"
  "stage_file True (Some (set_local_ingest_max_file_bytes default_settings))
     ''File exceeds upload size limit.'' (uf_chunks example_upload) = Inr ''%PDF-1.7''"
  by code_simp+

lemma example_upload_runs:
  "db_runs (w_db example_uploaded) = [new_run 2 1 1 0]"
  "map doc_id (db_documents (w_db example_uploaded)) = [1]"
  "w_clock example_uploaded = 0"
  by code_simp+

lemma example_trace_reachable:
  "(run_step example_codecs default_settings ''store'' fenced)\<^sup>*\<^sup>* initial_world example_trace"
proof -
  have "run_step example_codecs default_settings ''store'' fenced initial_world example_uploaded"
    unfolding example_uploaded_def by (rule run_step.upload)
  moreover have "run_step example_codecs default_settings ''store'' fenced example_uploaded example_trace"
    unfolding example_trace_def by (rule run_step.claim)
  ultimately show ?thesis by (meson r_into_rtranclp rtranclp.rtrancl_into_rtrancl)
qed

lemma example_trace_run:
  "get_run 2 (w_db example_trace) = Some (claimed_run 0 ''worker-1'' (new_run 2 1 1 0))"
  "db_runs (w_db example_trace) = [claimed_run 0 ''worker-1'' (new_run 2 1 1 0)]"
  "map doc_id (db_documents (w_db example_trace)) = [1]" "w_clock example_trace = 0"
  by (simp_all add: example_trace_def claim_next_run_def example_upload_runs run_eligible_def)

lemma example_max_attempts: "(1::int) \<le> set_worker_max_attempts default_settings"
  by (simp add: default_settings_def)

theorem lifecycle_invariant_witness:
  "service_ok (set_worker_max_attempts default_settings) example_trace"
  by (rule lifecycle_invariant [OF example_trace_reachable example_max_attempts])




definition empty_parse :: parsed_document where
  "empty_parse = \<lparr>pd_title = None, pd_page_count = 1, pd_yaml_text = [], pd_docling_json = [],
     pd_chunks = [], pd_tables = [], pd_raw_table_segments = [], pd_figures = []\<rparr>"

definition passed_report :: validation_report where
  "passed_report = \<lparr>vr_passed = True, vr_summary = ''ok'', vr_details = [], vr_warning_count = 0\<rparr>"

text \<open>The worker of the example completes its run.\<close>

definition example_done :: world where
  "example_done = finalize_run_success (Some ''store'') 1 2 empty_parse passed_report example_trace"

lemma example_done_reachable:
  "(run_step example_codecs default_settings ''store'' fenced)\<^sup>*\<^sup>* initial_world example_done"
proof (rule rtranclp.rtrancl_into_rtrancl [OF example_trace_reachable])
  have "may_write fenced ''worker-1'' 2 1 example_trace"
    by (simp add: may_write_def example_trace_run holds_lease_def in_progress_def claimed_run_def)
  then show "run_step example_codecs default_settings ''store'' fenced example_trace example_done"
    unfolding example_done_def by (rule run_step.succeeded) (simp add: passed_report_def)
qed


section \<open>Workers that lost their lease\<close>

lemma reachable_attempts:
  assumes "(run_step cx st base fenced)\<^sup>*\<^sup>* initial_world w" and "1 \<le> set_worker_max_attempts st"
  shows "runs_settled w \<and> ids_used w \<and> (\<forall>r \<in> set (db_runs (w_db w)). attempts_ok (set_worker_max_attempts st) r)"
  using assms(1)
proof induction
  case base
  show ?case by (simp add: runs_settled_def initial_world_def empty_db_def ids_used_def)
next
  case (step v w)
  from run_step_effect [OF step.hyps(2)] step.IH
  consider "queue_effect v w" | "mapped_runs (set_worker_max_attempts st) v w" by blast
  then show ?case
  proof cases
    case 1
    have "attempts_ok (set_worker_max_attempts st) (new_run i x n t)" for i x n t
      using assms(2) by (simp add: attempts_ok_def)
    moreover have "distinct (map run_id (db_runs (w_db v)))" using step.IH by (simp add: runs_settled_def)
    ultimately show ?thesis
      using step.IH queue_effect_runs [OF 1] queue_effect_ids [OF 1] queue_effect_settled [OF 1]
      by (auto simp: runs_settled_def)
  next
    case 2
    then have "map run_id (db_runs (w_db w)) = map run_id (db_runs (w_db v))"
      by (auto simp: mapped_runs_def)
    then show ?thesis
      using step.IH 2 ids_used_mapped [OF 2]
      by (auto simp: mapped_runs_def runs_settled_def simp del: map_map)
  qed
qed

text \<open>
  C13: whatever the workers do, those included that write after their lease was taken away, no run
  is ever attempted more often than allowed, and a run that waits to be claimed has an attempt left.
\<close>

theorem attempts_bounded:
  assumes "(run_step cx st base False)\<^sup>*\<^sup>* initial_world w" and "1 \<le> set_worker_max_attempts st"
    and "get_run i (w_db w) = Some r"
  shows "0 \<le> run_attempts r \<and> run_attempts r \<le> set_worker_max_attempts st
    \<and> (run_claimable w i \<longrightarrow> run_attempts r < set_worker_max_attempts st)"
proof -
  have "attempts_ok (set_worker_max_attempts st) r"
    using reachable_attempts [OF assms(1,2)] assms(3) by (auto dest: find_row_Some)
  then show ?thesis
    using assms(3) by (auto simp: attempts_ok_def run_claimable_def run_eligible_def)
qed

theorem attempts_bounded_witness:
  "run_attempts (claimed_run 0 ''worker-1'' (new_run 2 1 1 0)) \<le> set_worker_max_attempts default_settings"
  using attempts_bounded [OF example_trace_reachable example_max_attempts example_trace_run(1)] by blast

text \<open>
  An example: the first worker stalls, the second one gets the run and completes it, and then the
  first one reports that it failed.
\<close>

definition stalled :: world where
  "stalled = example_claimed\<lparr>w_clock := w_clock example_claimed + seconds 301\<rparr>"

definition taken_over :: world where
  "taken_over = fst (claim_next_run ''worker-2''
     (fst (requeue_stale_runs example_codecs default_settings (Some ''store'') stalled)))"

definition completed_by_second :: world where
  "completed_by_second = finalize_run_success (Some ''store'') 4 5 empty_parse passed_report taken_over"

definition failed_by_first :: world where
  "failed_by_first = finalize_run_failure example_codecs default_settings (Some ''store'')
     (get_document 4 (w_db completed_by_second)) 5 (Py_Error ''OperationalError'' False ''connection lost'')
     None (Some ''embedding'') completed_by_second"

lemma example_world_runs:
  "db_runs (w_db example_world) = [new_run 5 4 1 0]" "w_clock example_world = 1000"
  "db_documents (w_db example_world) = [example_document]"
  by (simp_all add: example_run_defs)

lemma example_claimed_runs:
  "db_runs (w_db example_claimed) = [claimed_run 1000 ''worker-1'' (new_run 5 4 1 0)]"
  "w_clock example_claimed = 1000" "db_documents (w_db example_claimed) = [example_document]"
  by (simp_all add: example_claimed_def claim_next_run_def example_world_runs run_eligible_def new_run_def
      claimed_run_def)

definition second_run :: document_run where
  "second_run = claimed_run 301001000 ''worker-2''
     (requeued_run default_settings 301001000 (claimed_run 1000 ''worker-1'' (new_run 5 4 1 0)))"

lemma taken_over_runs:
  "db_runs (w_db taken_over) = [second_run]" "w_clock taken_over = 301001000"
  "db_documents (w_db taken_over) = [example_document]"
proof -
  let ?v = "fst (requeue_stale_runs example_codecs default_settings (Some ''store'') stalled)"
  let ?q = "requeued_run default_settings 301001000 (claimed_run 1000 ''worker-1'' (new_run 5 4 1 0))"
  have "db_runs (w_db ?v) = map (\<lambda>r. if run_is_stale (stale_before default_settings stalled) r
      then requeued_row default_settings (Some ''store'') (w_clock stalled) r else r)
      (db_runs (w_db stalled))"
    by (rule requeue_runs) (simp add: stalled_def example_claimed_runs)
  then have v: "db_runs (w_db ?v) = [?q]" "w_clock ?v = 301001000"
    "db_documents (w_db ?v) = [example_document]"
    by (simp_all add: requeue_frame stalled_def example_claimed_runs stale_before_def seconds_def
        default_settings_def run_is_stale_def in_progress_def claimed_run_def new_run_def requeued_row_def
        requeued_run_def release_run_def)
  have "run_eligible 301001000 ?q" "run_id ?q = 5"
    by (simp_all add: run_eligible_def requeued_run_def default_settings_def claimed_run_def
        new_run_def release_run_def)
  then show "db_runs (w_db taken_over) = [second_run]" "w_clock taken_over = 301001000"
    "db_documents (w_db taken_over) = [example_document]"
    by (simp_all add: taken_over_def claim_next_run_def v second_run_def)
qed

lemma example_world_ok: "service_ok 3 example_world"
  by (simp add: service_ok_def ids_used_def lifecycle_def run_in_place_def active_run_ok_def
      example_world_runs new_run_ok inflight_def)
    (simp add: example_run_defs)

lemma example_path:
  "(run_step example_codecs default_settings ''store'' True)\<^sup>*\<^sup>* example_world completed_by_second"
proof -
  let ?s = "run_step example_codecs default_settings ''store'' True"
  let ?v = "fst (requeue_stale_runs example_codecs default_settings (Some ''store'') stalled)"
  have 1: "?s example_world example_claimed" unfolding example_claimed_def by (rule run_step.claim)
  have 2: "?s example_claimed stalled"
    unfolding stalled_def by (rule run_step.tick) (simp add: seconds_def)
  have 3: "?s stalled ?v" by (rule run_step.requeue)
  have 4: "?s ?v taken_over" unfolding taken_over_def by (rule run_step.claim)
  have "may_write True ''worker-2'' 5 4 taken_over"
    by (simp add: may_write_def taken_over_runs second_run_def holds_lease_def in_progress_def
        claimed_run_def requeued_run_def default_settings_def release_run_def new_run_def)
  then have 5: "?s taken_over completed_by_second"
    unfolding completed_by_second_def by (rule run_step.succeeded) (simp add: passed_report_def)
  from 1 2 3 4 5 show ?thesis by (meson r_into_rtranclp rtranclp.rtrancl_into_rtrancl)
qed

lemma completed_by_second_runs:
  "db_runs (w_db completed_by_second) = [completed_run 301001000 empty_parse passed_report second_run]"
  "db_documents (w_db completed_by_second) =
     [promoted_document 301001000 5 empty_parse example_document]"
  by (simp_all add: completed_by_second_def finalize_run_success_runs taken_over_runs second_run_def)
    (simp_all add: example_document_def new_document_def)

text \<open>
  C40: the result of a worker is written without a look at the lease. In the example the run is
  completed and active, reached by steps of workers that held the lease; then the report of the
  first worker, whose lease was taken away, puts the completed run back into the queue while it
  stays the active run of the document.
\<close>

theorem stale_worker_undoes_completion:
  "\<exists>w w'. (run_step example_codecs default_settings ''store'' True)\<^sup>*\<^sup>* example_world w
    \<and> run_step example_codecs default_settings ''store'' False w w'
    \<and> map_option run_status (get_run 5 (w_db w)) = Some Completed
    \<and> map_option doc_active_run_id (get_document 4 (w_db w)) = Some (Some 5)
    \<and> map_option run_status (get_run 5 (w_db w')) = Some Retry_Wait
    \<and> map_option doc_active_run_id (get_document 4 (w_db w')) = Some (Some 5)"
proof (intro exI conjI)
  show "(run_step example_codecs default_settings ''store'' True)\<^sup>*\<^sup>* example_world completed_by_second"
    by (rule example_path)
  have r: "get_run 5 (w_db completed_by_second) =
      Some (completed_run 301001000 empty_parse passed_report second_run)"
    by (simp add: completed_by_second_runs second_run_def)
  then show "map_option run_status (get_run 5 (w_db completed_by_second)) = Some Completed"
    by (simp add: completed_run_def)
  show act: "map_option doc_active_run_id (get_document 4 (w_db completed_by_second)) = Some (Some 5)"
    by (simp add: completed_by_second_runs promoted_document_def example_document_def new_document_def)
  have "may_write False ''worker-1'' 5 4 completed_by_second"
    by (simp add: may_write_def r second_run_def)
  then show "run_step example_codecs default_settings ''store'' False completed_by_second failed_by_first"
    unfolding failed_by_first_def by (rule run_step.failed)
  obtain fp where fp: "db_runs (w_db failed_by_first) = update_row run_id 5
        (\<lambda>_. (failed_run default_settings (w_clock completed_by_second)
          (Py_Error ''OperationalError'' False ''connection lost'') None (Some ''embedding'')
          (completed_run 301001000 empty_parse passed_report second_run))\<lparr>run_failure_artifact_path := fp\<rparr>)
        (db_runs (w_db completed_by_second))"
    "db_documents (w_db failed_by_first) = db_documents (w_db completed_by_second)"
    using finalize_run_failure_runs [OF r] unfolding failed_by_first_def by blast
  have "run_attempts (completed_run 301001000 empty_parse passed_report second_run) = 2"
    "run_id second_run = 5"
    by (simp_all add: second_run_def)
  then show "map_option run_status (get_run 5 (w_db failed_by_first)) = Some Retry_Wait"
    unfolding fp(1) completed_by_second_runs
    by (simp add: failed_run_def is_retryable_error_def default_settings_def Let_def)
  show "map_option doc_active_run_id (get_document 4 (w_db failed_by_first)) = Some (Some 5)"
    unfolding fp(2) by (rule act)
qed

section \<open>Workers side by side\<close>

text \<open>
  C5: however many workers ask for work, no run is handed to two of them: the runs they get are
  distinct, were eligible, and each is locked by the worker that got it, with one more attempt.
\<close>

theorem claims_never_shared:
  assumes "(run_step cx st base False)\<^sup>*\<^sup>* initial_world w" and "1 \<le> set_worker_max_attempts st"
    and "claims claim_next_run workers w = (w', got)"
  shows "distinct (map snd got) \<and> (\<forall>(worker, i) \<in> set got. run_claimable w i
    \<and> run_holder w' i = Some worker \<and> run_tries w' i = run_tries w i + 1)"
  using run_queue.claims_spec [OF _ assms(3)] reachable_attempts [OF assms(1,2)] by blast

theorem claims_never_shared_witness:
  "run_holder (fst (claims claim_next_run [''worker-1'', ''worker-2''] example_uploaded)) 2 = Some ''worker-1''"
proof -
  have "run_step example_codecs default_settings ''store'' False initial_world example_uploaded"
    unfolding example_uploaded_def by (rule run_step.upload)
  then have reach: "(run_step example_codecs default_settings ''store'' False)\<^sup>*\<^sup>* initial_world example_uploaded"
    by blast
  let ?c = "claims claim_next_run [''worker-1'', ''worker-2''] example_uploaded"
  have "snd ?c = [(''worker-1'', 2)]"
    by (simp add: claim_next_run_def example_upload_runs run_eligible_def claimed_run_def case_prod_beta)
  then have "?c = (fst ?c, [(''worker-1'', 2)])" by (metis prod.collapse)
  from claims_never_shared [OF reach example_max_attempts this] show ?thesis by simp
qed

text \<open>
  C29: a run whose worker died is not lost: after the recovery of stale leases and as many claims as
  there are eligible runs, a run with attempts left is held by one of the workers again, with
  exactly one more attempt counted.
\<close>

theorem stale_run_recovered:
  assumes "(run_step cx st base False)\<^sup>*\<^sup>* initial_world w" and "1 \<le> set_worker_max_attempts st"
    and "run_stale st w i" and "run_tries w i < set_worker_max_attempts st"
    and "w1 = fst (requeue_stale_runs cx st (Some base) w)"
    and "card {j. run_claimable w1 j} \<le> length workers"
  shows "\<exists>worker \<in> set workers. run_holder (fst (claims claim_next_run workers w1)) i = Some worker
    \<and> run_tries (fst (claims claim_next_run workers w1)) i = run_tries w i + 1"
proof -
  have "runs_settled w" using reachable_attempts [OF assms(1,2)] by blast
  from run_queue.recovered [OF this assms(3,4), of cx "Some base" workers] assms(6)
  show ?thesis unfolding assms(5) by auto
qed

definition example_late :: world where
  "example_late = example_trace\<lparr>w_clock := w_clock example_trace + seconds 301\<rparr>"

theorem stale_run_recovered_witness:
  "\<exists>worker \<in> {''worker-2''}. run_holder (fst (claims claim_next_run [''worker-2'']
      (fst (requeue_stale_runs example_codecs default_settings (Some ''store'') example_late)))) 2 = Some worker"
proof -
  let ?w1 = "fst (requeue_stale_runs example_codecs default_settings (Some ''store'') example_late)"
  have "run_step example_codecs default_settings ''store'' False example_trace example_late"
    unfolding example_late_def by (rule run_step.tick) (simp add: seconds_def)
  with example_trace_reachable
  have reach: "(run_step example_codecs default_settings ''store'' False)\<^sup>*\<^sup>* initial_world example_late"
    by (rule rtranclp.rtrancl_into_rtrancl)
  have runs: "get_run 2 (w_db example_late) = Some (claimed_run 0 ''worker-1'' (new_run 2 1 1 0))"
    "w_clock example_late = 301000000"
    by (simp_all add: example_late_def example_trace_run seconds_def)
  have stale: "run_stale default_settings example_late 2"
    "run_tries example_late 2 < set_worker_max_attempts default_settings"
    using runs by (simp_all add: run_stale_def run_is_stale_def stale_before_def runs default_settings_def
        seconds_def claimed_run_def in_progress_def run_tries_def)
  have "{j. run_claimable ?w1 j} \<subseteq> {2}"
  proof
    fix j assume "j \<in> {j. run_claimable ?w1 j}"
    then have "get_run j (w_db ?w1) \<noteq> None" by (auto simp: run_claimable_def split: option.splits)
    moreover have "runs_settled example_late"
      using reachable_attempts [OF reach example_max_attempts] by blast
    ultimately have "get_run j (w_db example_late) \<noteq> None" by (auto simp: get_run_requeue)
    then show "j \<in> {2}" by (auto simp: example_late_def example_trace_run split: if_splits)
  qed
  then have "card {j. run_claimable ?w1 j} \<le> length [''worker-2'']"
    using card_mono [of "{2}" "{j. run_claimable ?w1 j}"] by simp
  from stale_run_recovered [OF reach example_max_attempts stale refl this] show ?thesis by auto
qed

end
