(* ===== verification/Run_Faithful.thy ===== *)
theory Run_Faithful
  imports Run_Processor "HOL-Library.Countable"
begin

text \<open>
  Persistence and validation together: what the stages of a run write is what its validation reads
  back, so that a run whose parsed document has acceptable content is validated, and one whose
  content is not acceptable is refused; nothing else decides.

  The lemmas follow the rows and files from the function that writes them to the check that reads
  them. JSON and YAML are arguments; here they read back what they wrote.
\<close>

section \<open>Chunks\<close>

definition chunk_stored :: "uuid \<Rightarrow> uuid \<Rightarrow> time \<Rightarrow> parsed_chunk \<Rightarrow> document_chunk \<Rightarrow> bool" where
  "chunk_stored document run now c row = (\<exists>i. row = chunk_row document run now i c)"

lemma add_chunk_simps [simp]:
  "db_chunks (w_db (add_chunk document run w c)) =
     db_chunks (w_db w) @ [chunk_row document run (w_clock w) (w_fresh w) c]"
  "w_clock (add_chunk document run w c) = w_clock w" "w_files (add_chunk document run w c) = w_files w"
  "db_tables (w_db (add_chunk document run w c)) = db_tables (w_db w)"
  "db_segments (w_db (add_chunk document run w c)) = db_segments (w_db w)"
  "db_figures (w_db (add_chunk document run w c)) = db_figures (w_db w)"
  by (simp_all add: add_chunk_def Let_def case_prod_beta)

lemma chunks_fold_frame:
  "w_clock (foldl (add_chunk document run) w cs) = w_clock w"
  "w_files (foldl (add_chunk document run) w cs) = w_files w"
  "db_tables (w_db (foldl (add_chunk document run) w cs)) = db_tables (w_db w)"
  "db_segments (w_db (foldl (add_chunk document run) w cs)) = db_segments (w_db w)"
  "db_figures (w_db (foldl (add_chunk document run) w cs)) = db_figures (w_db w)"
  by (induction cs arbitrary: w) simp_all

lemma chunk_row_run [simp]: "chunk_run_id (chunk_row document run now i c) = run"
  by (simp add: chunk_row_def)

lemma chunks_fold:
  assumes "filter (\<lambda>c. chunk_run_id c = run) (db_chunks (w_db w)) = []"
  shows "list_all2 (chunk_stored document run (w_clock w)) cs
     (filter (\<lambda>c. chunk_run_id c = run) (db_chunks (w_db (foldl (add_chunk document run) w cs))))"
proof (induction cs rule: rev_induct)
  case (snoc c cs)
  then show ?case
    by (auto simp: chunk_stored_def chunks_fold_frame intro!: list_all2_appendI)
qed (simp add: assms)

lemma chunks_written:
  "list_all2 (chunk_stored document run (w_clock w)) (pd_chunks parsed)
     (filter (\<lambda>c. chunk_run_id c = run) (db_chunks (w_db (replace_run_chunks document run parsed w))))"
  unfolding replace_run_chunks_def
  using chunks_fold [of run "on_db (delete_run_chunks run) w" document "pd_chunks parsed"]
  by (simp add: delete_run_chunks_def)

section \<open>Artifact files\<close>

text \<open>Both files of an object hold its payload, and its audit record has their digests.\<close>

definition audit_holds :: "codecs \<Rightarrow> dict \<Rightarrow> json \<Rightarrow> bool" where
  "audit_holds cx metadata payload =
     (dict_get (audit_of metadata) ''json_artifact_sha256'' = Some (JStr (cx_sha256 cx (cx_json_dumps cx payload)))
      \<and> dict_get (audit_of metadata) ''yaml_artifact_sha256'' = Some (JStr (cx_sha256 cx (cx_yaml_dumps cx payload))))"

definition files_hold :: "codecs \<Rightarrow> path \<Rightarrow> path \<Rightarrow> json \<Rightarrow> world \<Rightarrow> bool" where
  "files_hold cx j y payload w =
     (w_files w j = Some (cx_json_dumps cx payload) \<and> w_files w y = Some (cx_yaml_dumps cx payload))"

text \<open>The metadata with a fresh audit record.\<close>

definition with_audit :: "dict \<Rightarrow> dict \<Rightarrow> dict" where
  "with_audit metadata audit = dict_pop ''audit'' metadata @ [(''audit'', JObj audit)]"

lemma dict_pop_keys: "k \<notin> fst ` set (dict_pop k d)"
  by (auto simp: dict_pop_def)

lemma merge_audit: "dict_merge (dict_pop k d) [(k, v)] = dict_pop k d @ [(k, v)]"
proof -
  have "AList.update k v e = e @ [(k, v)]" if "k \<notin> fst ` set e" for e
    using that by (induction e) auto
  from this [OF dict_pop_keys] show ?thesis by (simp only: dict_merge_def fold_simps prod.case)
qed

lemma pop_with_audit [simp]: "dict_pop ''audit'' (with_audit m a) = dict_pop ''audit'' m"
  by (simp add: with_audit_def dict_pop_append dict_pop_absent dict_pop_keys)

lemma get_with_audit:
  "dict_get (with_audit m a) k = (if k = ''audit'' then Some (JObj a) else dict_get m k)"
proof -
  have "dict_get (d @ [(k', v)]) k = (if k = k' \<and> dict_get d k = None then Some v else dict_get d k)"
    for d :: dict and k' v
    by (induction d) auto
  then show ?thesis by (simp add: with_audit_def dict_get_pop)
qed

lemma audit_of_with_audit [simp]: "audit_of (with_audit m a) = a"
  by (simp add: audit_of_def get_with_audit)

section \<open>Tables\<close>

definition segment_stored :: "uuid \<Rightarrow> uuid \<Rightarrow> time \<Rightarrow> parsed_table_segment \<Rightarrow> document_table_segment \<Rightarrow> bool" where
  "segment_stored table run now s row = (\<exists>i. row = segment_row table run now i s)"

definition segments_of :: "uuid \<Rightarrow> uuid \<Rightarrow> world \<Rightarrow> document_table_segment list" where
  "segments_of run table w =
     filter (\<lambda>s. segment_run_id s = run \<and> segment_table_id s = table) (db_segments (w_db w))"

text \<open>What validation later needs to know of a table and its row.\<close>

definition table_stored ::
  "codecs \<Rightarrow> path \<Rightarrow> uuid \<Rightarrow> uuid \<Rightarrow> world \<Rightarrow> parsed_table \<Rightarrow> document_table \<Rightarrow> bool" where
  "table_stored cx base document run w t row =
     ((\<exists>li. row = table_row document run (table_created_at row) (table_id row) li
          (build_table_json_path base document run (pt_table_index t))
          (build_table_yaml_path base document run (pt_table_index t)) t)
      \<and> table_id row < w_fresh w
      \<and> files_hold cx (build_table_json_path base document run (pt_table_index t))
          (build_table_yaml_path base document run (pt_table_index t))
          (expected_table_artifact_payload cx t row) w
      \<and> audit_holds cx (pt_metadata t) (expected_table_artifact_payload cx t row)
      \<and> list_all2 (segment_stored (table_id row) run (table_created_at row)) (pt_segments t)
          (segments_of run (table_id row) w))"

text \<open>The parsed table that validation sees: the one that was parsed, with an audit record.\<close>

definition lineage_for :: "(int \<times> lineage) list \<Rightarrow> parsed_table \<Rightarrow> lineage" where
  "lineage_for assignments t =
     (case dict_get assignments (pt_table_index t) of None \<Rightarrow> no_lineage | Some l \<Rightarrow> l)"

definition new_table_payload ::
  "codecs \<Rightarrow> uuid \<Rightarrow> uuid \<Rightarrow> (int \<times> lineage) list \<Rightarrow> world \<Rightarrow> parsed_table \<Rightarrow> json" where
  "new_table_payload cx document run assignments w t =
     table_artifact_payload t document run (w_fresh w)
       (li_logical_table_key (lineage_for assignments t)) (cx_isoformat cx (w_clock w))"

definition audited_table ::
  "codecs \<Rightarrow> uuid \<Rightarrow> uuid \<Rightarrow> (int \<times> lineage) list \<Rightarrow> world \<Rightarrow> parsed_table \<Rightarrow> parsed_table" where
  "audited_table cx document run assignments w t =
     (let payload = new_table_payload cx document run assignments w t in
      t\<lparr>pt_metadata := with_audit (pt_metadata t)
          (table_audit cx t (cx_sha256 cx (cx_json_dumps cx payload)) (cx_sha256 cx (cx_yaml_dumps cx payload)))\<rparr>)"

lemma audited_table_simps [simp]:
  "pt_table_index (audited_table cx document run asg w t) = pt_table_index t"
  "pt_segments (audited_table cx document run asg w t) = pt_segments t"
  by (simp_all add: audited_table_def Let_def)

definition new_table_row ::
  "codecs \<Rightarrow> path \<Rightarrow> uuid \<Rightarrow> uuid \<Rightarrow> (int \<times> lineage) list \<Rightarrow> world \<Rightarrow> parsed_table \<Rightarrow> document_table" where
  "new_table_row cx base document run assignments w t =
     table_row document run (w_clock w) (w_fresh w) (lineage_for assignments t)
       (build_table_json_path base document run (pt_table_index t))
       (build_table_yaml_path base document run (pt_table_index t))
       (audited_table cx document run assignments w t)"

lemma new_table_row_simps [simp]:
  "table_id (new_table_row cx base document run asg w t) = w_fresh w"
  "table_run_id (new_table_row cx base document run asg w t) = run"
  "table_created_at (new_table_row cx base document run asg w t) = w_clock w"
  by (simp_all add: new_table_row_def table_row_def)

lemma pop_pop [simp]: "dict_pop k (dict_pop k d) = dict_pop k d"
  by (simp add: dict_pop_def)

lemma table_payload_metadata:
  "table_artifact_payload (t\<lparr>pt_metadata := m\<rparr>) document run i key now =
     table_artifact_payload t document run i key now"
  if "dict_pop ''audit'' m = dict_pop ''audit'' (pt_metadata t)"
  using that by (simp add: table_artifact_payload_def)

lemma expected_payload_new:
  "expected_table_artifact_payload cx (audited_table cx document run asg w t)
      (new_table_row cx base document run asg w t) =
    new_table_payload cx document run asg w t"
  by (simp add: expected_table_artifact_payload_def new_table_row_def table_row_def audited_table_def
      Let_def table_payload_metadata new_table_payload_def)

lemma persist_table_eq:
  "persist_table cx base document run asg (w, seen) t =
    (foldl (add_segment_row (w_fresh w) run)
       (on_db (\<lambda>d. d\<lparr>db_tables := db_tables d @ [new_table_row cx base document run asg w t]\<rparr>)
         (write_file (build_table_yaml_path base document run (pt_table_index t))
            (cx_yaml_dumps cx (new_table_payload cx document run asg w t))
           (write_file (build_table_json_path base document run (pt_table_index t))
              (cx_json_dumps cx (new_table_payload cx document run asg w t))
             (w\<lparr>w_fresh := w_fresh w + 1\<rparr>))))
       (pt_segments t),
     seen @ [audited_table cx document run asg w t])"
proof -
  have "table_audit cx (t\<lparr>pt_metadata := dict_pop ''audit'' (pt_metadata t)\<rparr>) a b = table_audit cx t a b"
    for a b by (simp add: table_audit_def)
  then show ?thesis
    by (simp add: persist_table_def persist_table_artifacts_def take_id_def table_payload_metadata
        new_table_row_def audited_table_def new_table_payload_def merge_audit with_audit_def Let_def
        flip: lineage_for_def)
qed

lemma add_segment_simps [simp]:
  "db_segments (w_db (add_segment_row table run w s)) =
     db_segments (w_db w) @ [segment_row table run (w_clock w) (w_fresh w) s]"
  "w_files (add_segment_row table run w s) = w_files w" "w_clock (add_segment_row table run w s) = w_clock w"
  "w_fresh (add_segment_row table run w s) = w_fresh w + 1"
  "db_tables (w_db (add_segment_row table run w s)) = db_tables (w_db w)"
  "db_chunks (w_db (add_segment_row table run w s)) = db_chunks (w_db w)"
  "db_figures (w_db (add_segment_row table run w s)) = db_figures (w_db w)"
  by (simp_all add: add_segment_row_def Let_def case_prod_beta take_id_def)

lemma segments_fold [simp]:
  "w_files (foldl (add_segment_row table run) w ss) = w_files w"
  "w_clock (foldl (add_segment_row table run) w ss) = w_clock w"
  "db_tables (w_db (foldl (add_segment_row table run) w ss)) = db_tables (w_db w)"
  "db_chunks (w_db (foldl (add_segment_row table run) w ss)) = db_chunks (w_db w)"
  "db_figures (w_db (foldl (add_segment_row table run) w ss)) = db_figures (w_db w)"
  "w_fresh (foldl (add_segment_row table run) w ss) = w_fresh w + length ss"
  by (induction ss arbitrary: w) simp_all

lemma segment_row_simps [simp]:
  "segment_table_id (segment_row table run now i s) = table"
  "segment_run_id (segment_row table run now i s) = run"
  "segment_segment_index (segment_row table run now i s) = ps_segment_index s"
  by (simp_all add: segment_row_def)

lemma segments_fold_rows:
  "\<exists>rows. db_segments (w_db (foldl (add_segment_row table run) w ss)) = db_segments (w_db w) @ rows
     \<and> list_all2 (segment_stored table run (w_clock w)) ss rows
     \<and> (\<forall>s \<in> set rows. segment_table_id s = table \<and> segment_run_id s = run)"
proof (induction ss rule: rev_induct)
  case (snoc s ss)
  then obtain rows where rows: "db_segments (w_db (foldl (add_segment_row table run) w ss)) =
      db_segments (w_db w) @ rows" "list_all2 (segment_stored table run (w_clock w)) ss rows"
    "\<forall>s \<in> set rows. segment_table_id s = table \<and> segment_run_id s = run" by blast
  let ?r = "segment_row table run (w_clock w) (w_fresh w + length ss) s"
  have "segment_stored table run (w_clock w) s ?r" by (auto simp: segment_stored_def)
  with rows(2) have "list_all2 (segment_stored table run (w_clock w)) (ss @ [s]) (rows @ [?r])"
    by (intro list_all2_appendI) simp_all
  with rows show ?case by (intro exI [of _ "rows @ [?r]"]) simp
qed simp

text \<open>Adding one table leaves the files, rows and segments of the others as they are.\<close>

definition segments_below :: "uuid \<Rightarrow> world \<Rightarrow> bool" where
  "segments_below run w \<longleftrightarrow>
     (\<forall>s \<in> set (db_segments (w_db w)). segment_run_id s = run \<longrightarrow> segment_table_id s < w_fresh w)"

lemma persist_table_row:
  assumes "segments_below run w" and "persist_table cx base document run asg (w, seen) t = (w', seen')"
  shows "table_stored cx base document run w' (audited_table cx document run asg w t)
           (new_table_row cx base document run asg w t)"
    and "segments_below run w'"
    and "\<And>i. i < w_fresh w \<Longrightarrow> segments_of run i w' = segments_of run i w"
    and "w_fresh w < w_fresh w'"
proof -
  let ?j = "build_table_json_path base document run (pt_table_index t)"
  let ?y = "build_table_yaml_path base document run (pt_table_index t)"
  let ?p = "new_table_payload cx document run asg w t"
  define w3 where "w3 = on_db (\<lambda>d. d\<lparr>db_tables := db_tables d @ [new_table_row cx base document run asg w t]\<rparr>)
     (write_file ?y (cx_yaml_dumps cx ?p) (write_file ?j (cx_json_dumps cx ?p) (w\<lparr>w_fresh := w_fresh w + 1\<rparr>)))"
  have w': "w' = foldl (add_segment_row (w_fresh w) run) w3 (pt_segments t)"
    using assms(2) unfolding persist_table_eq w3_def by simp
  have w3: "db_segments (w_db w3) = db_segments (w_db w)" "w_clock w3 = w_clock w"
    "w_fresh w3 = w_fresh w + 1" "files_hold cx ?j ?y ?p w3"
    by (simp_all add: w3_def files_hold_def)
  obtain rows where rows: "db_segments (w_db w') = db_segments (w_db w) @ rows"
    "list_all2 (segment_stored (w_fresh w) run (w_clock w)) (pt_segments t) rows"
    "\<forall>s \<in> set rows. segment_table_id s = w_fresh w \<and> segment_run_id s = run"
    using segments_fold_rows [of "w_fresh w" run w3 "pt_segments t"] w3 unfolding w' by auto
  have old: "segments_of run (w_fresh w) w = []"
    using assms(1) by (auto simp: segments_of_def segments_below_def filter_empty_conv)
  have new: "segments_of run (w_fresh w) w' = rows"
    using rows old by (simp add: segments_of_def)
  show "\<And>i. i < w_fresh w \<Longrightarrow> segments_of run i w' = segments_of run i w"
    using rows by (auto simp: segments_of_def filter_empty_conv)
  show fr: "w_fresh w < w_fresh w'" by (simp add: w' w3)
  show "segments_below run w'"
    using assms(1) rows fr unfolding segments_below_def by fastforce
  have "audit_holds cx (pt_metadata (audited_table cx document run asg w t)) ?p"
    by (simp add: audit_holds_def audited_table_def Let_def table_audit_def)
  with fr new rows(2) w3(4)
  show "table_stored cx base document run w' (audited_table cx document run asg w t)
      (new_table_row cx base document run asg w t)"
    unfolding table_stored_def expected_payload_new new_table_row_simps audited_table_simps
    by (intro conjI) (auto simp: new_table_row_def table_row_def files_hold_def w')
qed

definition table_paths :: "path \<Rightarrow> uuid \<Rightarrow> uuid \<Rightarrow> path set" where
  "table_paths base document run =
     range (build_table_json_path base document run) \<union> range (build_table_yaml_path base document run)"

lemma persist_table_frame:
  assumes "persist_table cx base document run asg (w, seen) t = (w', seen')"
  shows "db_tables (w_db w') = db_tables (w_db w) @ [new_table_row cx base document run asg w t]"
    and "seen' = seen @ [audited_table cx document run asg w t]"
    and "w_clock w' = w_clock w" "db_chunks (w_db w') = db_chunks (w_db w)"
    and "db_figures (w_db w') = db_figures (w_db w)"
    and "p \<noteq> build_table_json_path base document run (pt_table_index t) \<Longrightarrow>
      p \<noteq> build_table_yaml_path base document run (pt_table_index t) \<Longrightarrow> w_files w' p = w_files w p"
  using assms unfolding persist_table_eq by auto

lemma table_stored_frame:
  assumes "table_stored cx base document run w t row"
    and "segments_of run (table_id row) w' = segments_of run (table_id row) w" "w_fresh w \<le> w_fresh w'"
    and "w_files w' (build_table_json_path base document run (pt_table_index t)) =
      w_files w (build_table_json_path base document run (pt_table_index t))"
    and "w_files w' (build_table_yaml_path base document run (pt_table_index t)) =
      w_files w (build_table_yaml_path base document run (pt_table_index t))"
  shows "table_stored cx base document run w' t row"
  using assms unfolding table_stored_def files_hold_def by auto

text \<open>All tables of a document: what holds after a prefix of them has been written.\<close>

definition audited_of :: "parsed_table \<Rightarrow> parsed_table \<Rightarrow> bool" where
  "audited_of t0 t \<longleftrightarrow> (\<exists>cx a b. t = t0\<lparr>pt_metadata := with_audit (pt_metadata t0) (table_audit cx t0 a b)\<rparr>)"

lemma audited_of_index: "list_all2 audited_of ts seen \<Longrightarrow> map pt_table_index seen = map pt_table_index ts"
  by (induction rule: list_all2_induct) (auto simp: audited_of_def)

lemma tables_fold:
  assumes "segments_below run w0" and "distinct (map pt_table_index ts)"
  shows "\<exists>w seen rows. foldl (persist_table cx base document run asg) (w0, []) ts = (w, seen) \<and>
    db_tables (w_db w) = db_tables (w_db w0) @ rows \<and> (\<forall>row \<in> set rows. table_run_id row = run) \<and>
    list_all2 audited_of ts seen \<and> list_all2 (table_stored cx base document run w) seen rows \<and>
    segments_below run w \<and> w_clock w = w_clock w0 \<and> db_chunks (w_db w) = db_chunks (w_db w0) \<and>
    db_figures (w_db w) = db_figures (w_db w0) \<and>
    (\<forall>p. p \<notin> table_paths base document run \<longrightarrow> w_files w p = w_files w0 p)"
  using assms(2)
proof (induction ts rule: rev_induct)
  case (snoc t ts)
  then obtain w seen rows where f: "foldl (persist_table cx base document run asg) (w0, []) ts = (w, seen)"
    and r: "db_tables (w_db w) = db_tables (w_db w0) @ rows" "\<forall>row \<in> set rows. table_run_id row = run"
    and a: "list_all2 audited_of ts seen" and s: "list_all2 (table_stored cx base document run w) seen rows"
    and b: "segments_below run w"
    and fr: "w_clock w = w_clock w0" "db_chunks (w_db w) = db_chunks (w_db w0)"
      "db_figures (w_db w) = db_figures (w_db w0)"
      "\<And>p. p \<notin> table_paths base document run \<Longrightarrow> w_files w p = w_files w0 p" by auto
  obtain w' seen' where st: "persist_table cx base document run asg (w, seen) t = (w', seen')" by fastforce
  note row = persist_table_row [OF b st] and frame = persist_table_frame [OF st]
  have "pt_table_index t \<notin> pt_table_index ` set seen"
    using snoc.prems arg_cong [OF audited_of_index [OF a], of set] by simp
  then have "table_stored cx base document run w' u r" if "table_stored cx base document run w u r"
    "u \<in> set seen" for u r
    using that row(3,4) by (intro table_stored_frame [OF that(1)])
      (auto simp: table_stored_def frame(6) image_iff)
  with s have "list_all2 (table_stored cx base document run w') seen rows"
    by (auto elim: list.rel_mono_strong)
  with row(1) have "list_all2 (table_stored cx base document run w') seen'
      (rows @ [new_table_row cx base document run asg w t])"
    unfolding frame(2) by (intro list_all2_appendI) simp_all
  moreover have "list_all2 audited_of (ts @ [t]) seen'"
    using a unfolding frame(2) by (intro list_all2_appendI) (auto simp: audited_of_def audited_table_def Let_def)
  moreover have "w_files w' p = w_files w0 p" if "p \<notin> table_paths base document run" for p
    using fr(4) [OF that] frame(6) [of p] that by (auto simp: table_paths_def)
  ultimately show ?case
    using st f r fr row(2) frame by (intro exI [of _ w'] exI [of _ seen']
      exI [of _ "rows @ [new_table_row cx base document run asg w t]"]) auto
qed (use assms in auto)

section \<open>Figures\<close>

definition figure_stored ::
  "codecs \<Rightarrow> path \<Rightarrow> uuid \<Rightarrow> uuid \<Rightarrow> world \<Rightarrow> parsed_figure \<Rightarrow> document_figure \<Rightarrow> bool" where
  "figure_stored cx base document run w f row =
     (row = figure_row document run (figure_created_at row) (figure_id row)
          (build_figure_json_path base document run (pf_figure_index f))
          (build_figure_yaml_path base document run (pf_figure_index f)) f
      \<and> files_hold cx (build_figure_json_path base document run (pf_figure_index f))
          (build_figure_yaml_path base document run (pf_figure_index f))
          (expected_figure_artifact_payload cx f row) w
      \<and> audit_holds cx (pf_metadata f) (expected_figure_artifact_payload cx f row))"

definition figure_paths :: "path \<Rightarrow> uuid \<Rightarrow> uuid \<Rightarrow> path set" where
  "figure_paths base document run =
     range (build_figure_json_path base document run) \<union> range (build_figure_yaml_path base document run)"

definition audited_figure_of :: "parsed_figure \<Rightarrow> parsed_figure \<Rightarrow> bool" where
  "audited_figure_of f0 f \<longleftrightarrow>
     (\<exists>g a b. f = f0\<lparr>pf_metadata := with_audit (pf_metadata f0) (figure_audit g a b)\<rparr>)"

lemma audited_figure_of_index:
  "list_all2 audited_figure_of fs seen \<Longrightarrow> map pf_figure_index seen = map pf_figure_index fs"
  by (induction rule: list_all2_induct) (auto simp: audited_figure_of_def)

lemma figure_payload_metadata:
  "figure_artifact_payload (f\<lparr>pf_metadata := m\<rparr>) document run i now =
     figure_artifact_payload f document run i now"
  if "dict_pop ''audit'' m = dict_pop ''audit'' (pf_metadata f)"
  using that by (simp add: figure_artifact_payload_def)

lemma persist_figure_row:
  assumes "persist_figure cx base document run (w, seen) f = (w', seen')"
  shows "\<exists>f' row. seen' = seen @ [f'] \<and> audited_figure_of f f' \<and>
    db_figures (w_db w') = db_figures (w_db w) @ [row] \<and> figure_run_id row = run \<and>
    figure_stored cx base document run w' f' row \<and> w_clock w' = w_clock w \<and>
    db_chunks (w_db w') = db_chunks (w_db w) \<and> db_tables (w_db w') = db_tables (w_db w) \<and>
    db_segments (w_db w') = db_segments (w_db w) \<and> w_fresh w' = w_fresh w + 1 \<and>
    (\<forall>p. p \<noteq> build_figure_json_path base document run (pf_figure_index f) \<longrightarrow>
      p \<noteq> build_figure_yaml_path base document run (pf_figure_index f) \<longrightarrow> w_files w' p = w_files w p)"
proof -
  let ?j = "build_figure_json_path base document run (pf_figure_index f)"
  let ?y = "build_figure_yaml_path base document run (pf_figure_index f)"
  define f1 where "f1 = f\<lparr>pf_metadata := dict_pop ''audit'' (pf_metadata f)\<rparr>"
  define payload where "payload = figure_artifact_payload f document run (w_fresh w) (cx_isoformat cx (w_clock w))"
  define a where "a = figure_audit f1 (cx_sha256 cx (cx_json_dumps cx payload)) (cx_sha256 cx (cx_yaml_dumps cx payload))"
  define f' where "f' = f\<lparr>pf_metadata := with_audit (pf_metadata f) a\<rparr>"
  define row where "row = figure_row document run (w_clock w) (w_fresh w) ?j ?y f'"
  have eq: "(w', seen') = (on_db (\<lambda>d. d\<lparr>db_figures := db_figures d @ [row]\<rparr>)
      (write_file ?y (cx_yaml_dumps cx payload) (write_file ?j (cx_json_dumps cx payload)
        (w\<lparr>w_fresh := w_fresh w + 1\<rparr>))), seen @ [f'])"
    using assms by (simp add: persist_figure_def persist_figure_artifacts_def take_id_def Let_def
        figure_payload_metadata merge_audit with_audit_def f1_def payload_def a_def f'_def row_def)
  have "expected_figure_artifact_payload cx f' row = payload"
    by (simp add: expected_figure_artifact_payload_def row_def figure_row_def f'_def
        figure_payload_metadata payload_def)
  moreover have "audit_holds cx (pf_metadata f') payload"
    by (simp add: audit_holds_def f'_def a_def figure_audit_def)
  ultimately have "figure_stored cx base document run w' f' row"
    using eq by (simp add: figure_stored_def files_hold_def row_def figure_row_def f'_def)
  moreover have "audited_figure_of f f'" by (auto simp: audited_figure_of_def f'_def a_def)
  moreover have "figure_run_id row = run" by (simp add: row_def figure_row_def)
  ultimately show ?thesis using eq by (intro exI [of _ f'] exI [of _ row]) simp
qed

lemma figures_fold:
  assumes "distinct (map pf_figure_index fs)"
  shows "\<exists>w seen rows. foldl (persist_figure cx base document run) (w0, []) fs = (w, seen) \<and>
    db_figures (w_db w) = db_figures (w_db w0) @ rows \<and> (\<forall>row \<in> set rows. figure_run_id row = run) \<and>
    list_all2 audited_figure_of fs seen \<and> list_all2 (figure_stored cx base document run w) seen rows \<and>
    w_clock w = w_clock w0 \<and> db_chunks (w_db w) = db_chunks (w_db w0) \<and>
    db_tables (w_db w) = db_tables (w_db w0) \<and> db_segments (w_db w) = db_segments (w_db w0) \<and>
    w_fresh w0 \<le> w_fresh w \<and>
    (\<forall>p. p \<notin> figure_paths base document run \<longrightarrow> w_files w p = w_files w0 p)"
  using assms
proof (induction fs rule: rev_induct)
  case (snoc f fs)
  then obtain w seen rows where fo: "foldl (persist_figure cx base document run) (w0, []) fs = (w, seen)"
    and r: "db_figures (w_db w) = db_figures (w_db w0) @ rows" "\<forall>row \<in> set rows. figure_run_id row = run"
    and a: "list_all2 audited_figure_of fs seen" and s: "list_all2 (figure_stored cx base document run w) seen rows"
    and fr: "w_clock w = w_clock w0" "db_chunks (w_db w) = db_chunks (w_db w0)"
      "db_tables (w_db w) = db_tables (w_db w0)" "db_segments (w_db w) = db_segments (w_db w0)"
      "w_fresh w0 \<le> w_fresh w"
      "\<And>p. p \<notin> figure_paths base document run \<Longrightarrow> w_files w p = w_files w0 p" by auto
  obtain w' seen' where st: "persist_figure cx base document run (w, seen) f = (w', seen')" by fastforce
  obtain f' row where new: "seen' = seen @ [f']" "audited_figure_of f f'"
    "db_figures (w_db w') = db_figures (w_db w) @ [row]" "figure_run_id row = run"
    "figure_stored cx base document run w' f' row" "w_clock w' = w_clock w"
    "db_chunks (w_db w') = db_chunks (w_db w)" "db_tables (w_db w') = db_tables (w_db w)"
    "db_segments (w_db w') = db_segments (w_db w)" "w_fresh w' = w_fresh w + 1"
    and files: "\<And>p. p \<noteq> build_figure_json_path base document run (pf_figure_index f) \<Longrightarrow>
      p \<noteq> build_figure_yaml_path base document run (pf_figure_index f) \<Longrightarrow> w_files w' p = w_files w p"
    using persist_figure_row [OF st] by blast
  have "pf_figure_index f \<notin> pf_figure_index ` set fs" using snoc.prems by simp
  then have "pf_figure_index f \<notin> pf_figure_index ` set seen"
    using arg_cong [OF audited_figure_of_index [OF a], of set] by simp
  then have "figure_stored cx base document run w' u r" if "figure_stored cx base document run w u r"
    "u \<in> set seen" for u r
    using that by (auto simp: figure_stored_def files_hold_def files image_iff)
  with s have "list_all2 (figure_stored cx base document run w') seen rows"
    by (auto elim: list.rel_mono_strong)
  then have "list_all2 (figure_stored cx base document run w') seen' (rows @ [row])"
    using new(5) unfolding new(1) by (intro list_all2_appendI) simp_all
  moreover have "list_all2 audited_figure_of (fs @ [f]) seen'"
    using a new(2) unfolding new(1) by (intro list_all2_appendI) simp_all
  moreover have "w_files w' p = w_files w0 p" if "p \<notin> figure_paths base document run" for p
    using fr(6) [OF that] files [of p] that by (auto simp: figure_paths_def)
  ultimately show ?case
    using st fo r fr new by (intro exI [of _ w'] exI [of _ seen'] exI [of _ "rows @ [row]"]) auto
qed simp

section \<open>Validation reads back what was written\<close>

text \<open>JSON and YAML read back what they wrote, parsers give dicts with distinct keys, digests are not empty.\<close>

definition good_codecs :: "codecs \<Rightarrow> bool" where
  "good_codecs cx \<longleftrightarrow>
     (\<forall>j. wf_json j \<longrightarrow> cx_json_loads cx (cx_json_dumps cx j) = Some j
        \<and> cx_yaml_loads cx (cx_yaml_dumps cx j) = Some j)
     \<and> (\<forall>s j. cx_json_loads cx s = Some j \<or> cx_yaml_loads cx s = Some j \<longrightarrow> wf_json j)
     \<and> (\<forall>s. cx_sha256 cx s \<noteq> [])"

lemma wf_dict_pop: "wf_dict d \<Longrightarrow> wf_dict (dict_pop k d)"
  unfolding wf_dict_def by (auto simp: dict_pop_def distinct_map_filter)

lemma wf_dict_with_audit: "wf_dict m \<Longrightarrow> wf_dict a \<Longrightarrow> wf_dict (with_audit m a)"
  using wf_dict_pop [of m "''audit''"] dict_pop_keys [of "''audit''" m]
  by (auto simp: with_audit_def wf_dict_def)

lemma json_opt_str_wf [simp]: "wf_json (json_opt_str a)"
  by (cases a) simp_all

lemma json_opt_int_wf [simp]: "wf_json (json_opt_int a)"
  by (cases a) simp_all

lemma json_opt_real_wf [simp]: "wf_json (json_opt_real a)"
  by (simp add: json_opt_real_def split: option.split)

lemma wf_table_payload:
  assumes "wf_dict (dict_pop ''audit'' (pt_metadata t))" and "\<forall>s \<in> set (pt_segments t). wf_dict (ps_metadata s)"
  shows "wf_json (table_artifact_payload t document run i key now)"
  using assms by (auto simp: table_artifact_payload_def segment_payload_def wf_dict_def)

lemma wf_figure_payload:
  "wf_dict (dict_pop ''audit'' (pf_metadata f)) \<Longrightarrow> wf_json (figure_artifact_payload f document run i now)"
  by (simp add: figure_artifact_payload_def wf_dict_def)

lemma wf_table_audit: "wf_dict (table_audit cx t a b)"
  by (simp add: table_audit_def wf_dict_def)

lemma wf_figure_audit: "wf_dict (figure_audit f a b)"
  by (simp add: figure_audit_def wf_dict_def)

lemma artifacts_match:
  assumes "good_codecs cx" and "wf_json payload" and "files_hold cx j y payload w" and "audit_holds cx m payload"
    and "normalize_artifact_payload payload = payload"
  shows "path_is_file j w" "path_is_file y w"
    "artifact_matches_expected (cx_json_loads cx) j payload w" "artifact_matches_expected (cx_yaml_loads cx) y payload w"
    "artifact_hash_matches cx j (dict_get (audit_of m) ''json_artifact_sha256'') w"
    "artifact_hash_matches cx y (dict_get (audit_of m) ''yaml_artifact_sha256'') w"
  using assms
  by (simp_all add: good_codecs_def files_hold_def audit_holds_def path_is_file_def artifact_hash_matches_def
      artifact_matches_expected_def load_artifact_def json_eq_refl)

lemma normalize_payload [simp]:
  "normalize_artifact_payload (table_artifact_payload t document run i key now) =
     table_artifact_payload t document run i key now"
  "normalize_artifact_payload (figure_artifact_payload f document run i now) =
     figure_artifact_payload f document run i now"
  by (simp_all add: normalize_artifact_payload_def table_artifact_payload_def figure_artifact_payload_def
      dict_pop_def)

text \<open>What a table and a figure must offer by themselves.\<close>

definition table_content_ok :: "parsed_table \<Rightarrow> bool" where
  "table_content_ok t =
     (str_strip (pt_search_text t) \<noteq> [] \<and> str_strip (pt_preview_text t) \<noteq> []
      \<and> pt_row_count t > 0 \<and> pt_col_count t > 0
      \<and> (table_has_ambiguous_structure t
         \<or> dict_truthy (pt_metadata t) ''merge_sanity_passed''
           \<and> dict_truthy (pt_metadata t) ''header_removal_passed''))"

definition figure_content_ok :: "parsed_figure \<Rightarrow> bool" where
  "figure_content_ok f =
     (dict_truthy (pf_metadata f) ''provenance''
      \<and> dict_get (pf_metadata f) ''caption_resolution_source'' \<noteq> None
      \<and> dict_get (pf_metadata f) ''caption_attachment_confidence'' \<noteq> None
      \<and> dict_get (pf_metadata f) ''source_confidence'' \<noteq> None)"

lemma truthy_with_audit: "k \<noteq> ''audit'' \<Longrightarrow> dict_truthy (with_audit m a) k = dict_truthy m k"
  by (simp add: dict_truthy_def get_with_audit)

lemma table_content_audited: "audited_of t0 t \<Longrightarrow> table_content_ok t = table_content_ok t0"
  by (auto simp: audited_of_def table_content_ok_def table_has_ambiguous_structure_def
      merge_confidence_def truthy_with_audit get_with_audit)

lemma figure_content_audited: "audited_figure_of f0 f \<Longrightarrow> figure_content_ok f = figure_content_ok f0"
  by (auto simp: audited_figure_of_def figure_content_ok_def truthy_with_audit get_with_audit)

text \<open>One object of each kind: its checks are exactly the conditions on its content.\<close>

lemma chunk_checks_pass:
  "chunk_stored document run now c row \<Longrightarrow> wf_dict (pc_metadata c) \<Longrightarrow> all_checks (chunk_detail c row)"
  by (auto simp: chunk_stored_def chunk_row_def chunk_detail_def all_checks_def embeddings_match_def dict_eq_refl)

lemma json_list_eq_map:
  "json_list_eq (map f xs) (map g ys) \<longleftrightarrow> list_all2 (\<lambda>x y. json_eq (f x) (g y)) xs ys"
  by (induction xs arbitrary: ys) (case_tac ys; simp)+

lemma segments_match:
  assumes "list_all2 (segment_stored table run now) (pt_segments t) rows"
    and "\<forall>s \<in> set (pt_segments t). wf_dict (ps_metadata s)"
  shows "table_segments_match t rows"
proof -
  have "list_all2 (\<lambda>row s. json_eq
      (segment_json (segment_segment_index row) (segment_source_table_ref row) (segment_page_from row)
        (segment_page_to row) (segment_segment_order row) (segment_metadata row))
      (segment_json (ps_segment_index s) (ps_source_table_ref s) (ps_page_from s) (ps_page_to s)
        (ps_segment_order s) (ps_metadata s))) rows (pt_segments t)"
    unfolding list_all2_conv_all_nth
  proof (intro conjI allI impI)
    fix i assume i: "i < length rows"
    let ?s = "pt_segments t ! i"
    from i assms have st: "segment_stored table run now ?s (rows ! i)" and "wf_dict (ps_metadata ?s)"
      by (auto simp: list_all2_conv_all_nth)
    then have "wf_json (segment_json (ps_segment_index ?s) (ps_source_table_ref ?s) (ps_page_from ?s)
        (ps_page_to ?s) (ps_segment_order ?s) (ps_metadata ?s))"
      by (simp add: segment_json_def wf_dict_def)
    with st show "json_eq
      (segment_json (segment_segment_index (rows ! i)) (segment_source_table_ref (rows ! i))
        (segment_page_from (rows ! i)) (segment_page_to (rows ! i)) (segment_segment_order (rows ! i))
        (segment_metadata (rows ! i)))
      (segment_json (ps_segment_index ?s) (ps_source_table_ref ?s) (ps_page_from ?s) (ps_page_to ?s)
        (ps_segment_order ?s) (ps_metadata ?s))"
      unfolding segment_stored_def segment_row_def by (elim exE) (simp add: json_eq_refl)
  qed (use assms(1) in \<open>simp add: list_all2_conv_all_nth\<close>)
  then show ?thesis unfolding table_segments_match_def json_list_eq_map .
qed

definition table_wf :: "parsed_table \<Rightarrow> bool" where
  "table_wf t \<longleftrightarrow> wf_dict (pt_metadata t) \<and> (\<forall>s \<in> set (pt_segments t). wf_dict (ps_metadata s))
     \<and> sorted (map ps_segment_index (pt_segments t))"

lemma run_table_segments_stored:
  assumes "list_all2 (segment_stored table run now) (pt_segments t) (segments_of run table w)"
    and "sorted (map ps_segment_index (pt_segments t))"
  shows "run_table_segments run table (w_db w) = segments_of run table w"
proof -
  have "map segment_segment_index (segments_of run table w) = map ps_segment_index (pt_segments t)"
    using assms(1) by (induction rule: list_all2_induct) (auto simp: segment_stored_def)
  moreover have "map (\<lambda>s. (segment_table_id s, segment_segment_index s)) (segments_of run table w) =
      map (Pair table) (map segment_segment_index (segments_of run table w))"
    by (simp add: segments_of_def)
  moreover have "sorted (map (Pair table) xs)" if "sorted xs" for xs :: "int list"
    using that by (simp add: sorted_iff_nth_mono)
  ultimately have "sorted (map (\<lambda>s. (segment_table_id s, segment_segment_index s)) (segments_of run table w))"
    using assms(2) by metis
  then show ?thesis
    by (simp add: run_table_segments_def filter_sort sort_key_id_if_sorted segments_of_def)
qed

lemma stored_path_build [simp]:
  "stored_path (Some (build_table_json_path base d r i)) = build_table_json_path base d r i"
  "stored_path (Some (build_table_yaml_path base d r i)) = build_table_yaml_path base d r i"
  "stored_path (Some (build_figure_json_path base d r i)) = build_figure_json_path base d r i"
  "stored_path (Some (build_figure_yaml_path base d r i)) = build_figure_yaml_path base d r i"
  "stored_path (Some (build_docling_json_path base d r)) = build_docling_json_path base d r"
  "stored_path (Some (build_yaml_path base d r)) = build_yaml_path base d r"
  by (simp_all add: stored_path_def build_table_json_path_def build_table_yaml_path_def
      build_figure_json_path_def build_figure_yaml_path_def build_docling_json_path_def
      build_yaml_path_def path_join_def)

lemma findings_empty:
  "snd (table_validation_findings t d) = [] \<longleftrightarrow> table_has_ambiguous_structure t
     \<or> td_continued_table_merge_sane d \<and> td_repeated_header_row_removal_sane d"
  by (simp add: table_validation_findings_def)

lemma table_checks_exact:
  assumes "good_codecs cx" and "table_wf t0" and "audited_of t0 t"
    and "table_stored cx base document run w t row"
  shows "table_checks_passed t (table_validation_result cx w t row
      (run_table_segments run (table_id row) (w_db w))) \<longleftrightarrow> table_content_ok t0"
proof -
  have wf: "wf_dict (pt_metadata t)" "pt_segments t = pt_segments t0"
    "wf_dict (dict_pop ''audit'' (pt_metadata t))"
    using assms(2,3) by (auto simp: audited_of_def table_wf_def wf_dict_with_audit wf_table_audit wf_dict_pop)
  obtain li where row: "row = table_row document run (table_created_at row) (table_id row) li
          (build_table_json_path base document run (pt_table_index t))
          (build_table_yaml_path base document run (pt_table_index t)) t"
    and seg: "list_all2 (segment_stored (table_id row) run (table_created_at row)) (pt_segments t)
          (segments_of run (table_id row) w)"
    and fa: "files_hold cx (build_table_json_path base document run (pt_table_index t))
          (build_table_yaml_path base document run (pt_table_index t))
          (expected_table_artifact_payload cx t row) w"
      "audit_holds cx (pt_metadata t) (expected_table_artifact_payload cx t row)"
    using assms(4) unfolding table_stored_def by blast
  have "wf_json (expected_table_artifact_payload cx t row)"
    "normalize_artifact_payload (expected_table_artifact_payload cx t row) =
       expected_table_artifact_payload cx t row"
    using wf assms(2) by (simp_all add: expected_table_artifact_payload_def wf_table_payload table_wf_def)
  note files = artifacts_match [OF assms(1) this(1) fa this(2)]
  have "run_table_segments run (table_id row) (w_db w) = segments_of run (table_id row) w"
    using seg assms(2) wf(2) by (simp add: run_table_segments_stored table_wf_def)
  moreover have "table_segments_match t (segments_of run (table_id row) w)"
    by (rule segments_match [OF seg]) (use assms(2) wf(2) in \<open>simp add: table_wf_def\<close>)
  moreover have "table_db_fields_match t row"
    by (subst row) (simp add: table_db_fields_match_def table_row_def embeddings_match_def dict_eq_refl wf)
  moreover have "table_json_path row = Some (build_table_json_path base document run (pt_table_index t))"
    "table_yaml_path row = Some (build_table_yaml_path base document run (pt_table_index t))"
    "table_metadata row = pt_metadata t"
    by (subst row, simp add: table_row_def)+
  ultimately have "table_checks_passed t (table_validation_result cx w t row
      (run_table_segments run (table_id row) (w_db w))) \<longleftrightarrow> table_content_ok t"
    using files by (simp add: table_checks_passed_def table_validation_result_def findings_empty
        table_content_ok_def Let_def conj_ac)
  then show ?thesis by (simp add: table_content_audited [OF assms(3)])
qed

lemma figure_checks_exact:
  assumes "good_codecs cx" and "wf_dict (pf_metadata f0)" and "audited_figure_of f0 f"
    and "figure_stored cx base document run w f row"
  shows "all_checks (figure_validation_result cx w f row) \<longleftrightarrow> figure_content_ok f0"
proof -
  have wf: "wf_dict (pf_metadata f)" "wf_dict (dict_pop ''audit'' (pf_metadata f))"
    using assms(2,3) by (auto simp: audited_figure_of_def wf_dict_with_audit wf_figure_audit wf_dict_pop)
  have row: "row = figure_row document run (figure_created_at row) (figure_id row)
          (build_figure_json_path base document run (pf_figure_index f))
          (build_figure_yaml_path base document run (pf_figure_index f)) f"
    and fa: "files_hold cx (build_figure_json_path base document run (pf_figure_index f))
          (build_figure_yaml_path base document run (pf_figure_index f))
          (expected_figure_artifact_payload cx f row) w"
      "audit_holds cx (pf_metadata f) (expected_figure_artifact_payload cx f row)"
    using assms(4) unfolding figure_stored_def by blast+
  have "wf_json (expected_figure_artifact_payload cx f row)"
    "normalize_artifact_payload (expected_figure_artifact_payload cx f row) =
       expected_figure_artifact_payload cx f row"
    using wf by (simp_all add: expected_figure_artifact_payload_def wf_figure_payload)
  note files = artifacts_match [OF assms(1) this(1) fa this(2)]
  have "figure_db_fields_match f row"
    by (subst row) (simp add: figure_db_fields_match_def figure_row_def dict_eq_refl wf)
  moreover have "figure_json_path row = Some (build_figure_json_path base document run (pf_figure_index f))"
    "figure_yaml_path row = Some (build_figure_yaml_path base document run (pf_figure_index f))"
    "figure_metadata row = pf_metadata f"
    by (subst row, simp add: figure_row_def)+
  ultimately have "all_checks (figure_validation_result cx w f row) \<longleftrightarrow> figure_content_ok f"
    using files by (simp add: all_checks_def figure_validation_result_def figure_content_ok_def Let_def)
  then show ?thesis by (simp add: figure_content_audited [OF assms(3)])
qed

section \<open>The whole document\<close>

text \<open>Everything of a parsed document is in the rows and files of its run.\<close>

definition stored_all ::
  "codecs \<Rightarrow> path \<Rightarrow> uuid \<Rightarrow> uuid \<Rightarrow> parsed_document \<Rightarrow> parsed_document \<Rightarrow> world \<Rightarrow> bool" where
  "stored_all cx base document run parsed0 parsed w \<longleftrightarrow>
     (\<exists>now. list_all2 (chunk_stored document run now) (pd_chunks parsed)
        (filter (\<lambda>c. chunk_run_id c = run) (db_chunks (w_db w))))
     \<and> list_all2 (table_stored cx base document run w) (pd_tables parsed)
         (filter (\<lambda>t. table_run_id t = run) (db_tables (w_db w)))
     \<and> list_all2 (figure_stored cx base document run w) (pd_figures parsed)
         (filter (\<lambda>f. figure_run_id f = run) (db_figures (w_db w)))
     \<and> w_files w (build_docling_json_path base document run) = Some (pd_docling_json parsed)
     \<and> w_files w (build_yaml_path base document run) = Some (pd_yaml_text parsed)
     \<and> list_all2 audited_of (pd_tables parsed0) (pd_tables parsed)
     \<and> list_all2 audited_figure_of (pd_figures parsed0) (pd_figures parsed)
     \<and> pd_chunks parsed = pd_chunks parsed0 \<and> pd_title parsed = pd_title parsed0
     \<and> pd_page_count parsed = pd_page_count parsed0"

text \<open>Indices increase in the order of the parse and metadata are dicts.\<close>

definition parsed_wf :: "parsed_document \<Rightarrow> bool" where
  "parsed_wf parsed \<longleftrightarrow>
     sorted (map pc_chunk_index (pd_chunks parsed)) \<and> (\<forall>c \<in> set (pd_chunks parsed). wf_dict (pc_metadata c))
     \<and> sorted (map pt_table_index (pd_tables parsed)) \<and> distinct (map pt_table_index (pd_tables parsed))
     \<and> (\<forall>t \<in> set (pd_tables parsed). table_wf t)
     \<and> sorted (map pf_figure_index (pd_figures parsed)) \<and> distinct (map pf_figure_index (pd_figures parsed))
     \<and> (\<forall>f \<in> set (pd_figures parsed). wf_dict (pf_metadata f))"

definition content_ok :: "settings \<Rightarrow> parsed_document \<Rightarrow> bool" where
  "content_ok st parsed =
     (str_truthy (pd_title parsed)
      \<and> 0 < pd_page_count parsed \<and> pd_page_count parsed \<le> set_local_ingest_max_pages st
      \<and> list_all table_content_ok (pd_tables parsed) \<and> list_all figure_content_ok (pd_figures parsed))"

lemma rows_sorted:
  assumes "list_all2 P xs rows" and "sorted (map f xs)" and "\<And>x r. P x r \<Longrightarrow> g r = f x"
  shows "sort_key g rows = rows"
proof -
  have "map g rows = map f xs"
    using assms(1,3) by (induction rule: list_all2_induct) auto
  then show ?thesis using assms(2) by (simp add: sort_key_id_if_sorted)
qed

lemma zip_checks_exact:
  assumes "list_all2 A xs ys" and "list_all2 B ys rows" and "list_all W xs"
    and "\<And>x y r. W x \<Longrightarrow> A x y \<Longrightarrow> B y r \<Longrightarrow> Q (f (y, r)) \<longleftrightarrow> C x"
  shows "list_all Q (map f (zip ys rows)) \<longleftrightarrow> list_all C xs"
  using assms(1-3)
proof (induction arbitrary: rows rule: list_all2_induct)
  case (Cons x xs y ys)
  then show ?case using assms(4) by (cases rows) auto
qed simp

lemma zip_checks_pass:
  assumes "list_all2 P xs ys" and "\<forall>x \<in> set xs. W x" and "\<And>x y. P x y \<Longrightarrow> W x \<Longrightarrow> Q (f (x, y))"
  shows "list_all Q (map f (zip xs ys))"
  using assms(1,2) by (induction rule: list_all2_induct) (use assms(3) in auto)

lemma serialized_self:
  "good_codecs cx \<Longrightarrow> w_files w p = Some s \<Longrightarrow> serialized_matches (cx_json_loads cx) p s w"
  "good_codecs cx \<Longrightarrow> w_files w p = Some s \<Longrightarrow> serialized_matches (cx_yaml_loads cx) p s w"
  by (auto simp: serialized_matches_def good_codecs_def intro: json_eq_refl split: option.split)

lemma path_truthy [simp]:
  "build_docling_json_path base d r \<noteq> []" "build_yaml_path base d r \<noteq> []"
  by (simp_all add: build_docling_json_path_def build_yaml_path_def path_join_def)

lemma validated_iff_content:
  assumes "good_codecs cx" and "parsed_wf parsed0" and stored: "stored_all cx base document (run_id r) parsed0 parsed w"
    and "run_docling_json_path r = Some (build_docling_json_path base document (run_id r))"
    and "run_yaml_path r = Some (build_yaml_path base document (run_id r))"
  shows "vr_passed (validate_persisted_run cx st x r parsed w) \<longleftrightarrow> content_ok st parsed0"
proof -
  let ?run = "run_id r"
  let ?rows = "filter (\<lambda>c. chunk_run_id c = ?run) (db_chunks (w_db w))"
  let ?trows = "filter (\<lambda>t. table_run_id t = ?run) (db_tables (w_db w))"
  let ?frows = "filter (\<lambda>f. figure_run_id f = ?run) (db_figures (w_db w))"
  obtain now where c: "list_all2 (chunk_stored document ?run now) (pd_chunks parsed) ?rows"
    and t: "list_all2 (table_stored cx base document ?run w) (pd_tables parsed) ?trows"
    and f: "list_all2 (figure_stored cx base document ?run w) (pd_figures parsed) ?frows"
    and ta: "list_all2 audited_of (pd_tables parsed0) (pd_tables parsed)"
    and fa: "list_all2 audited_figure_of (pd_figures parsed0) (pd_figures parsed)"
    and same: "pd_chunks parsed = pd_chunks parsed0" "pd_title parsed = pd_title parsed0"
      "pd_page_count parsed = pd_page_count parsed0"
    using stored unfolding stored_all_def by blast
  have chunks: "run_chunks ?run (w_db w) = ?rows"
    unfolding run_chunks_def
    by (rule rows_sorted [OF c, of pc_chunk_index])
      (use assms(2) same in \<open>auto simp: parsed_wf_def chunk_stored_def chunk_row_def\<close>)
  have tables: "run_tables ?run (w_db w) = ?trows"
    unfolding run_tables_def
  proof (rule rows_sorted [OF t, of pt_table_index])
    show "sorted (map pt_table_index (pd_tables parsed))"
      using assms(2) audited_of_index [OF ta] by (simp add: parsed_wf_def)
    show "table_table_index row = pt_table_index t" if st: "table_stored cx base document ?run w t row" for t row
    proof -
      obtain li where "row = table_row document ?run (table_created_at row) (table_id row) li
          (build_table_json_path base document ?run (pt_table_index t))
          (build_table_yaml_path base document ?run (pt_table_index t)) t"
        using st unfolding table_stored_def by blast
      then show ?thesis by (rule ssubst) (simp add: table_row_def)
    qed
  qed
  have figures: "run_figures ?run (w_db w) = ?frows"
    unfolding run_figures_def
  proof (rule rows_sorted [OF f, of pf_figure_index])
    show "sorted (map pf_figure_index (pd_figures parsed))"
      using assms(2) audited_figure_of_index [OF fa] by (simp add: parsed_wf_def)
    show "figure_figure_index row = pf_figure_index g" if "figure_stored cx base document ?run w g row" for g row
      using that unfolding figure_stored_def by (metis figure_row_def document_figure.select_convs(4))
  qed
  have doc: "all_checks (document_checks cx st w r parsed) \<longleftrightarrow>
      str_truthy (pd_title parsed0) \<and> 0 < pd_page_count parsed0
      \<and> pd_page_count parsed0 \<le> set_local_ingest_max_pages st"
    using stored assms(1,4,5) list_all2_lengthD [OF c]
    by (simp add: all_checks_def document_checks_def Let_def stored_all_def path_is_file_def
        serialized_self count_rows_def same)
  have ch: "list_all (all_checks \<circ> snd) (map (\<lambda>(c, row). (c, chunk_detail c row))
      (zip (pd_chunks parsed) ?rows))"
    by (rule zip_checks_pass [OF c, of "\<lambda>c. wf_dict (pc_metadata c)"])
      (use assms(2) same in \<open>auto simp: parsed_wf_def chunk_checks_pass\<close>)
  have tb: "list_all (\<lambda>(t, d). table_checks_passed t d) (table_details cx w ?run parsed) \<longleftrightarrow>
      list_all table_content_ok (pd_tables parsed0)"
    unfolding table_details_def tables
    by (rule zip_checks_exact [OF ta t, of table_wf])
      (use assms(2) table_checks_exact [OF assms(1)] in \<open>auto simp: parsed_wf_def list_all_iff\<close>)
  have fg: "list_all (all_checks \<circ> snd) (figure_details cx w ?run parsed) \<longleftrightarrow>
      list_all figure_content_ok (pd_figures parsed0)"
    unfolding figure_details_def figures
    by (rule zip_checks_exact [OF fa f, of "\<lambda>f. wf_dict (pf_metadata f)"])
      (use assms(2) figure_checks_exact [OF assms(1)] in \<open>auto simp: parsed_wf_def list_all_iff\<close>)
  have counts: "count_rows (\<lambda>c. chunk_run_id c = ?run) (db_chunks (w_db w)) = length (pd_chunks parsed)"
    "count_rows (\<lambda>t. table_run_id t = ?run) (db_tables (w_db w)) = length (pd_tables parsed)"
    "count_rows (\<lambda>f. figure_run_id f = ?run) (db_figures (w_db w)) = length (pd_figures parsed)"
    using list_all2_lengthD [OF c] list_all2_lengthD [OF t] list_all2_lengthD [OF f]
    by (simp_all add: count_rows_def)
  show ?thesis
    unfolding validate_persisted_run_def Let_def chunks validation_report.select_convs counts doc tb fg
    using ch by (auto simp: content_ok_def)
qed

section \<open>From the artifacts to the validation\<close>

definition persist_stages :: "run_processing_stage list" where
  "persist_stages = [ARTIFACT_WRITE, CHUNK_PERSIST, TABLE_PERSIST, FIGURE_PERSIST,
     RETRIEVAL_SPAN_PERSIST, RUN_PERSIST, VALIDATION]"

lemma foreign_paths:
  "build_docling_json_path base d r \<notin> table_paths base d r" "build_yaml_path base d r \<notin> table_paths base d r"
  "build_docling_json_path base d r \<notin> figure_paths base d r" "build_yaml_path base d r \<notin> figure_paths base d r"
  "build_table_json_path base d r i \<notin> figure_paths base d r" "build_table_yaml_path base d r i \<notin> figure_paths base d r"
  by (auto simp: table_paths_def figure_paths_def)

text \<open>The four persisting stages, from the parsed document to the rows and files.\<close>

lemma artifacts_stored:
  assumes "parsed_wf parsed0"
  shows "\<exists>w' parsed.
    (let (w1, j, y) = persist_parsed_artifacts base document run parsed0 w;
         w2 = replace_run_chunks document run parsed0 w1;
         (w3, parsed3) = replace_run_tables cx base document run parsed0 assignments w2 in
     replace_run_figures cx base document run parsed3 w3) = (w', parsed)
    \<and> stored_all cx base document run parsed0 parsed w'"
proof -
  let ?j = "build_docling_json_path base document run" and ?y = "build_yaml_path base document run"
  define w1 where "w1 = write_file ?y (pd_yaml_text parsed0) (write_file ?j (pd_docling_json parsed0) w)"
  define w2 where "w2 = replace_run_chunks document run parsed0 w1"
  define w2' where "w2' = on_db (delete_run_tables run) w2"
  have chunks: "list_all2 (chunk_stored document run (w_clock w1)) (pd_chunks parsed0)
      (filter (\<lambda>c. chunk_run_id c = run) (db_chunks (w_db w2)))"
    unfolding w2_def by (rule chunks_written)
  have files2: "w_files w2' ?j = Some (pd_docling_json parsed0)" "w_files w2' ?y = Some (pd_yaml_text parsed0)"
    by (simp_all add: w2'_def w2_def replace_run_chunks_def chunks_fold_frame w1_def)
  have "segments_below run w2'" by (simp add: segments_below_def w2'_def delete_run_tables_def)
  moreover have "distinct (map pt_table_index (pd_tables parsed0))" using assms by (simp add: parsed_wf_def)
  ultimately obtain w3 tables rows where t3:
      "foldl (persist_table cx base document run assignments) (w2', []) (pd_tables parsed0) = (w3, tables)"
      "db_tables (w_db w3) = db_tables (w_db w2') @ rows" "\<forall>row \<in> set rows. table_run_id row = run"
      "list_all2 audited_of (pd_tables parsed0) tables" "list_all2 (table_stored cx base document run w3) tables rows"
      "db_chunks (w_db w3) = db_chunks (w_db w2')"
      "\<And>p. p \<notin> table_paths base document run \<Longrightarrow> w_files w3 p = w_files w2' p"
    using tables_fold [of run w2' "pd_tables parsed0" cx base document assignments] by blast
  have rows3: "filter (\<lambda>t. table_run_id t = run) (db_tables (w_db w3)) = rows"
    using t3(2,3) by (simp add: w2'_def delete_run_tables_def)
  define w3' where "w3' = on_db (delete_run_figures run) w3"
  have "distinct (map pf_figure_index (pd_figures parsed0))" using assms by (simp add: parsed_wf_def)
  then obtain w4 figures frows where f4:
      "foldl (persist_figure cx base document run) (w3', []) (pd_figures parsed0) = (w4, figures)"
      "db_figures (w_db w4) = db_figures (w_db w3') @ frows" "\<forall>row \<in> set frows. figure_run_id row = run"
      "list_all2 audited_figure_of (pd_figures parsed0) figures" "list_all2 (figure_stored cx base document run w4) figures frows"
      "db_chunks (w_db w4) = db_chunks (w_db w3')" "db_tables (w_db w4) = db_tables (w_db w3')"
      "db_segments (w_db w4) = db_segments (w_db w3')" "w_fresh w3' \<le> w_fresh w4"
      "\<And>p. p \<notin> figure_paths base document run \<Longrightarrow> w_files w4 p = w_files w3' p"
    using figures_fold [of "pd_figures parsed0" cx base document run w3'] by blast
  have frows: "filter (\<lambda>t. figure_run_id t = run) (db_figures (w_db w4)) = frows"
    using f4(2,3) by (simp add: w3'_def delete_run_figures_def)
  have keep: "table_stored cx base document run w4 t row" if "table_stored cx base document run w3 t row" for t row
    by (rule table_stored_frame [OF that])
      (use f4(8,9) in \<open>simp_all add: f4(10) foreign_paths w3'_def segments_of_def delete_run_figures_def\<close>)
  have "list_all2 (table_stored cx base document run w4) tables rows"
    using t3(5) keep by (rule list_all2_mono)
  then have "stored_all cx base document run parsed0 (parsed0\<lparr>pd_tables := tables, pd_figures := figures\<rparr>) w4"
    unfolding stored_all_def
    using chunks rows3 frows t3(4,6,7) f4(4,5,6,7,10) files2
    by (auto simp: w3'_def w2'_def delete_run_figures_def delete_run_tables_def foreign_paths)
  moreover have "persist_parsed_artifacts base document run parsed0 w = (w1, ?j, ?y)"
    by (simp add: persist_parsed_artifacts_def w1_def Let_def)
  moreover have "replace_run_tables cx base document run parsed0 assignments w2 = (w3, parsed0\<lparr>pd_tables := tables\<rparr>)"
    using t3(1) by (simp add: replace_run_tables_def w2'_def)
  moreover have "replace_run_figures cx base document run (parsed0\<lparr>pd_tables := tables\<rparr>) w3 =
      (w4, parsed0\<lparr>pd_tables := tables, pd_figures := figures\<rparr>)"
    using f4(1) by (simp add: replace_run_figures_def w3'_def)
  ultimately show ?thesis by (simp add: w2_def)
qed

text \<open>Marking the run changes neither rows of the artifacts nor files.\<close>

lemma stored_all_frame:
  assumes "stored_all cx base document run parsed0 parsed w"
    and "db_chunks (w_db w') = db_chunks (w_db w)" "db_tables (w_db w') = db_tables (w_db w)"
    and "db_segments (w_db w') = db_segments (w_db w)" "db_figures (w_db w') = db_figures (w_db w)"
    and "w_files w' = w_files w" "w_fresh w \<le> w_fresh w'"
  shows "stored_all cx base document run parsed0 parsed w'"
proof -
  have t: "table_stored cx base document run w t row \<Longrightarrow> table_stored cx base document run w' t row" for t row
    by (rule table_stored_frame) (use assms in \<open>simp_all add: segments_of_def\<close>)
  have f: "figure_stored cx base document run w g row \<Longrightarrow> figure_stored cx base document run w' g row" for g row
    using assms by (simp add: figure_stored_def files_hold_def)
  show ?thesis
    using assms t f unfolding stored_all_def by (auto elim: list_all2_mono)
qed

text \<open>
  \<open>persist_outcome\<close>: the stages reach the validation, which accepts the document if and only if
  its content is acceptable.
\<close>

definition validation_verdict ::
  "bool \<Rightarrow> (exn \<times> validation_report option) + run_processor \<Rightarrow> bool" where
  "validation_verdict ok res =
     (case res of
        Inr p' \<Rightarrow> ok \<and> (\<exists>report. rp_report p' = Some report \<and> vr_passed report)
      | Inl e \<Rightarrow> \<not> ok \<and> (\<exists>report. e = validation_failed report \<and> \<not> vr_passed report))"

lemma validation_stage_verdict:
  assumes "good_codecs cx" and "parsed_wf parsed0"
    and "stored_all cx base (rp_document p) (rp_run p) parsed0 parsed w"
    and "get_document (rp_document p) (w_db w) \<noteq> None"
    and "get_run (rp_run p) (w_db w) = Some r"
    and "run_docling_json_path r = Some (build_docling_json_path base (rp_document p) (rp_run p))"
    and "run_yaml_path r = Some (build_yaml_path base (rp_document p) (rp_run p))"
  shows "validation_verdict (content_ok st parsed0) (snd (validation_stage cx st p parsed w))"
proof -
  let ?w1 = "heartbeat_run (rp_run p) (mark_run_validating (rp_run p) w)"
  obtain x where x: "get_document (rp_document p) (w_db ?w1) = Some x"
    using assms(4) by (auto simp: heartbeat_run_def mark_run_validating_def)
  obtain r1 where r1: "get_run (rp_run p) (w_db ?w1) = Some r1"
      "run_docling_json_path r1 = run_docling_json_path r" "run_yaml_path r1 = run_yaml_path r"
      "run_id r1 = rp_run p"
    using assms(5) find_row_Some [OF assms(5)]
    by (simp add: heartbeat_run_def mark_run_validating_def find_row_update validating_run_def)
  have "stored_all cx base (rp_document p) (run_id r1) parsed0 parsed ?w1"
    unfolding r1(4) by (rule stored_all_frame [OF assms(3)])
      (simp_all add: heartbeat_run_def mark_run_validating_def)
  from validated_iff_content [OF assms(1,2) this, of st x] r1 assms(6,7)
  have "vr_passed (validate_persisted_run cx st x r1 parsed ?w1) \<longleftrightarrow> content_ok st parsed0" by simp
  then show ?thesis
    by (auto simp: validation_stage_def Let_def x r1(1) validation_verdict_def)
qed

text \<open>The stages up to the validation, for a parsed document whose indices are in order.\<close>

lemma persist_stages_stored:
  assumes "parsed_wf parsed" and "rp_parsed p = Some parsed"
  shows "\<exists>w4 p5 parsed5 w5.
    run_all_stages cx st base hk persist_stages reached p w =
      (case hk_rebuild_spans hk (w_db w4) of
         Some e \<Rightarrow> (w4, RETRIEVAL_SPAN_PERSIST, Inl (e, None))
       | None \<Rightarrow> (case validation_stage cx st p5 parsed5 w5 of (w', res) \<Rightarrow> (w', VALIDATION, res)))
    \<and> rp_run p5 = rp_run p \<and> rp_document p5 = rp_document p \<and> rp_parsed p5 = Some parsed5
    \<and> stored_all cx base (rp_document p) (rp_run p) parsed parsed5 w5
    \<and> (get_document (rp_document p) (w_db w) \<noteq> None \<longrightarrow> get_document (rp_document p) (w_db w5) \<noteq> None)
    \<and> (\<forall>r. get_run (rp_run p) (w_db w) = Some r \<longrightarrow> get_run (rp_run p) (w_db w5) =
         Some (persisted_run parsed5 (build_docling_json_path base (rp_document p) (rp_run p))
           (build_yaml_path base (rp_document p) (rp_run p)) r))"
proof -
  let ?d = "rp_document p" and ?i = "rp_run p"
  let ?j = "build_docling_json_path base ?d ?i" and ?y = "build_yaml_path base ?d ?i"
  obtain w1 where s1: "persist_parsed_artifacts base ?d ?i parsed w = (w1, ?j, ?y)"
      "artifact_frame w w1"
    by (simp add: persist_parsed_artifacts_def artifact_frame_def Let_def)
  define w2 where "w2 = replace_run_chunks ?d ?i parsed w1"
  obtain w3 parsed3 where s3: "replace_run_tables cx base ?d ?i parsed (rp_lineage p) w2 = (w3, parsed3)"
    by fastforce
  obtain w4 parsed4 where s4: "replace_run_figures cx base ?d ?i parsed3 w3 = (w4, parsed4)" by fastforce
  have stored: "stored_all cx base ?d ?i parsed parsed4 w4"
    using artifacts_stored [OF assms(1), of base ?d ?i w cx "rp_lineage p"] s1(1) s3 s4
    by (simp add: w2_def Let_def)
  have frame: "artifact_frame w w4"
    using s1(2) replace_run_chunks_frame [of w1 ?d ?i parsed]
      replace_run_tables_frame [of w2 cx base ?d ?i parsed "rp_lineage p"]
      replace_run_figures_frame [of w3 cx base ?d ?i parsed3] s3 s4
    by (simp add: w2_def artifact_frame_def)
  define p4 where "p4 = p\<lparr>rp_json_path := Some ?j, rp_yaml_path := Some ?y, rp_parsed := Some parsed4\<rparr>"
  define w5 where "w5 = mark_run_persisted ?d ?i parsed4 ?j ?y w4"
  have "run_all_stages cx st base hk persist_stages reached p w =
      (case hk_rebuild_spans hk (w_db w4) of
         Some e \<Rightarrow> (w4, RETRIEVAL_SPAN_PERSIST, Inl (e, None))
       | None \<Rightarrow> (case validation_stage cx st p4 parsed4 w5 of (w', res) \<Rightarrow> (w', VALIDATION, res)))"
    using assms(2) s1(1) s3 s4
    by (cases "hk_rebuild_spans hk (w_db w4)")
      (simp_all add: persist_stages_def w2_def [symmetric] p4_def w5_def split: prod.split sum.split)
  moreover have "stored_all cx base ?d ?i parsed parsed4 w5"
    by (rule stored_all_frame [OF stored]) (simp_all add: w5_def mark_run_persisted_def)
  moreover have "get_document ?d (w_db w) \<noteq> None \<longrightarrow> get_document ?d (w_db w5) \<noteq> None"
    using frame by (auto simp: w5_def mark_run_persisted_def find_row_update point_latest_def artifact_frame_def)
  moreover have "get_run ?i (w_db w5) = Some (persisted_run parsed4 ?j ?y r)" if "get_run ?i (w_db w) = Some r" for r
    using frame that by (simp add: w5_def mark_run_persisted_def find_row_update persisted_run_def artifact_frame_def)
  ultimately show ?thesis
    by (intro exI [of _ w4] exI [of _ p4] exI [of _ parsed4] exI [of _ w5]) (auto simp: p4_def)
qed


text \<open>
  Codecs that meet the hypotheses: a value is written as a word in unary, its number in an
  enumeration of all values.
\<close>

instantiation json :: countable
begin

instance by countable_datatype

end

definition unary :: "json \<Rightarrow> string" where
  "unary j = replicate (to_nat j) CHR ''1''"

definition read_unary :: "string \<Rightarrow> json option" where
  "read_unary s = (let j = from_nat (length s) in if wf_json j then Some j else None)"

definition counting_codecs :: codecs where
  "counting_codecs = example_codecs\<lparr>cx_json_dumps := unary, cx_yaml_dumps := unary,
     cx_json_loads := read_unary, cx_yaml_loads := read_unary\<rparr>"

lemma counting_codecs_good: "good_codecs counting_codecs"
  by (auto simp: good_codecs_def counting_codecs_def example_codecs_def unary_def read_unary_def Let_def
      split: if_splits)

text \<open>A document with one chunk, one table of one segment and one figure.\<close>

definition example_parse :: parsed_document where
  "example_parse = \<lparr>pd_title = Some ''Report'', pd_page_count = 3, pd_yaml_text = ''title'',
     pd_docling_json = ''{}'',
     pd_chunks = [\<lparr>pc_chunk_index = 0, pc_text = ''text'', pc_heading = None, pc_page_from = Some 1,
       pc_page_to = Some 1, pc_metadata = [(''k'', JInt 1)], pc_embedding = None\<rparr>],
     pd_tables = [\<lparr>pt_table_index = 0, pt_title = Some ''T'', pt_heading = None, pt_page_from = Some 1,
       pt_page_to = Some 1, pt_row_count = 1, pt_col_count = 1, pt_rows = [[''a'']],
       pt_search_text = ''a'', pt_preview_text = ''a'',
       pt_metadata = [(''merge_sanity_passed'', JBool True), (''header_removal_passed'', JBool True)],
       pt_segments = [\<lparr>ps_segment_index = 0, ps_segment_order = 0, ps_source_table_ref = None,
         ps_title = None, ps_heading = None, ps_page_from = Some 1, ps_page_to = Some 1,
         ps_row_count = 1, ps_col_count = 1, ps_rows = [[''a'']], ps_metadata = []\<rparr>],
       pt_embedding = None\<rparr>],
     pd_raw_table_segments = [],
     pd_figures = [\<lparr>pf_figure_index = 0, pf_source_figure_ref = None, pf_caption = None, pf_heading = None,
       pf_page_from = Some 1, pf_page_to = Some 1, pf_confidence = None,
       pf_metadata = [(''provenance'', JArr [JNull]), (''caption_resolution_source'', JNull),
         (''caption_attachment_confidence'', JNull), (''source_confidence'', JNull)]\<rparr>]\<rparr>"

lemma example_parse_wf: "parsed_wf example_parse"
  by (simp add: parsed_wf_def example_parse_def table_wf_def wf_dict_def)

lemma example_parse_ok: "content_ok default_settings example_parse"
proof -
  have "str_strip ''a'' \<noteq> []" by code_simp
  then show ?thesis
    by (simp add: content_ok_def example_parse_def table_content_ok_def figure_content_ok_def
        default_settings_def dict_truthy_def)
qed


end
