(* ===== verification/Task_Graph.thy ===== *)
theory Task_Graph
  imports Data_Model
begin

text \<open>
  The dependency graph of agent tasks, \<open>app/services/agent_task_dependencies.py\<close>: the status a
  task starts with, the checks of the dependencies of a new task, and the search for a cycle, which
  loads the part of the table that is reachable from the dependencies batch by batch and then
  walks it depth first.

  The lemmas show that the batches load exactly the reachable part and that the search finds a
  cycle if and only if there is one.
\<close>

section \<open>Checks\<close>

definition initial_task_status :: "bool \<Rightarrow> bool \<Rightarrow> task_status" where
  "initial_task_status requires_approval has_incomplete_dependencies =
     (if has_incomplete_dependencies then T_Blocked
      else if requires_approval then T_Awaiting_Approval else T_Queued)"

definition dependency_not_found :: exn where
  "dependency_not_found = Http_Error 404 ''agent_task_dependency_not_found'' ''Dependency task not found.''"

definition dependency_cycle :: exn where
  "dependency_cycle = Http_Error 409 ''agent_task_dependency_cycle''
     ''Agent task dependency graph contains a cycle.''"

definition parent_not_found :: exn where
  "parent_not_found = Http_Error 404 ''parent_task_not_found'' ''Parent task not found.''"

definition validate_dependency_ids :: "uuid list \<Rightarrow> db \<Rightarrow> exn + unit" where
  "validate_dependency_ids ids d =
     (if ids = [] then Inr ()
      else
        (let existing = filter (\<lambda>i. i \<in> set ids) (map task_id (db_tasks d));
             missing = filter (\<lambda>i. i \<notin> set existing) ids in
         if missing \<noteq> [] then Inl dependency_not_found else Inr ()))"

definition validate_parent_task_id :: "uuid option \<Rightarrow> db \<Rightarrow> exn + unit" where
  "validate_parent_task_id parent d =
     (case parent of
        None \<Rightarrow> Inr ()
      | Some i \<Rightarrow> if get_task i d = None then Inl parent_not_found else Inr ())"

definition incomplete_dependency_count :: "uuid list \<Rightarrow> db \<Rightarrow> nat" where
  "incomplete_dependency_count ids d =
     (if ids = [] then 0
      else count_rows (\<lambda>t. task_id t \<in> set ids \<and> task_status t \<noteq> T_Completed) (db_tasks d))"

text \<open>The join of a task's dependency rows with the tasks they point to, those not completed.\<close>

definition incomplete_dependencies :: "uuid \<Rightarrow> db \<Rightarrow> agent_task_dependency list" where
  "incomplete_dependencies i d =
     filter (\<lambda>r. dep_task_id r = i \<and>
               list_ex (\<lambda>t. task_id t = dep_depends_on_task_id r \<and> task_status t \<noteq> T_Completed)
                 (db_tasks d)) (db_dependencies d)"

definition task_has_incomplete_dependencies :: "uuid \<Rightarrow> db \<Rightarrow> bool" where
  "task_has_incomplete_dependencies i d = (incomplete_dependencies i d \<noteq> [])"

text \<open>
  The dependencies of an action: those given, and the tasks its input links to, whose kind
  overrides the kind of a dependency given twice.
\<close>

record linked_tasks =
  lt_target :: "uuid option"
  lt_source :: "uuid option"
  lt_draft :: "uuid option"
  lt_verification :: "uuid option"

definition link_kind ::
  "(uuid \<times> dependency_kind) list \<Rightarrow> uuid option \<times> dependency_kind \<Rightarrow> (uuid \<times> dependency_kind) list" where
  "link_kind kinds spec =
     (case spec of
        (None, _) \<Rightarrow> kinds
      | (Some i, kind) \<Rightarrow> dict_set i kind kinds)"

definition augment_dependency_kinds_for_action ::
  "linked_tasks \<Rightarrow> uuid list \<Rightarrow> (uuid \<times> dependency_kind) list" where
  "augment_dependency_kinds_for_action links ids =
     foldl link_kind (foldl (\<lambda>kinds i. dict_set i Explicit kinds) [] ids)
       [(lt_target links, Target_Task), (lt_source links, Source_Task),
        (lt_draft links, Draft_Task), (lt_verification links, Verification_Task)]"

section \<open>Loading the graph\<close>

text \<open>The adjacency dictionary; a missing key has no children.\<close>

type_synonym adjacency = "(uuid \<times> uuid list) list"

definition children :: "adjacency \<Rightarrow> uuid \<Rightarrow> uuid list" where
  "children adj t = (case dict_get adj t of None \<Rightarrow> [] | Some cs \<Rightarrow> cs)"

definition dependency_rows :: "agent_task_dependency list \<Rightarrow> uuid list \<Rightarrow> agent_task_dependency list" where
  "dependency_rows deps batch = filter (\<lambda>r. dep_task_id r \<in> set batch) deps"

definition load_row ::
  "uuid set \<Rightarrow> adjacency \<times> uuid list \<Rightarrow> agent_task_dependency \<Rightarrow> adjacency \<times> uuid list" where
  "load_row visited state r =
     (case state of
        (adj, pending) \<Rightarrow>
          (dict_set (dep_task_id r) (children adj (dep_task_id r) @ [dep_depends_on_task_id r]) adj,
           if dep_depends_on_task_id r \<notin> visited then pending @ [dep_depends_on_task_id r] else pending))"

lemma load_rows_pending:
  "set (snd (foldl (load_row visited) (adj, pending) rows)) =
     set pending \<union> (dep_depends_on_task_id ` set rows - visited)"
  by (induction rows arbitrary: adj pending) (auto simp: load_row_def)

function load_graph ::
  "agent_task_dependency list \<Rightarrow> uuid list \<Rightarrow> uuid set \<Rightarrow> adjacency \<Rightarrow> adjacency" where
  "load_graph deps pending visited adj =
     (let batch = filter (\<lambda>i. i \<notin> visited) pending in
      if batch = [] then adj
      else
        (let visited1 = visited \<union> set batch;
             (adj1, pending1) = foldl (load_row visited1) (adj, []) (dependency_rows deps batch) in
         load_graph deps pending1 visited1 adj1))"
  by pat_completeness auto

termination
proof (relation "measure (\<lambda>(deps, pending, visited, adj).
    card ((set pending \<union> dep_depends_on_task_id ` set deps) - visited))", goal_cases)
  case (2 deps pending visited adj batch visited1 state adj1 pending1)
  let ?U = "\<lambda>p. set p \<union> dep_depends_on_task_id ` set deps"
  have "set pending1 \<subseteq> dep_depends_on_task_id ` set deps"
    using load_rows_pending [of visited1 adj "[]" "dependency_rows deps batch"] 2(4) [symmetric]
      2(5) [symmetric]
    by (auto simp: dependency_rows_def)
  then have sub: "?U pending1 - visited1 \<subseteq> (?U pending - visited) - set batch"
    using 2(3) by auto
  obtain b where b: "b \<in> set batch" using 2(2) by (cases batch) auto
  then have "b \<in> ?U pending - visited" using 2(1) by auto
  with b sub have "?U pending1 - visited1 \<subset> ?U pending - visited" by auto
  then show ?case by (simp add: psubset_card_mono)
qed simp

declare load_graph.simps [simp del]

section \<open>The search for a cycle\<close>

text \<open>
  \<open>visit\<close> and the loop over the children in it. \<open>visiting\<close> holds the tasks on the path, so the path
  alone is passed down; what is left of both sets after a call that finds no cycle is returned. The
  result is the cycle, or the visited tasks.
\<close>

definition nodes :: "adjacency \<Rightarrow> uuid set" where
  "nodes adj = fst ` set adj \<union> \<Union> (set ` snd ` set adj)"

lemma finite_nodes [simp]: "finite (nodes adj)"
  by (simp add: nodes_def)

lemma children_nodes: "children adj t \<noteq> [] \<Longrightarrow> t \<in> nodes adj"
  by (auto simp: children_def nodes_def split: option.splits dest!: map_of_SomeD intro: rev_image_eqI)

function (sequential) visit :: "adjacency \<Rightarrow> uuid list \<Rightarrow> uuid set \<Rightarrow> uuid \<Rightarrow> uuid list + uuid set"
  and visit_children :: "adjacency \<Rightarrow> uuid list \<Rightarrow> uuid set \<Rightarrow> uuid list \<Rightarrow> uuid list + uuid set"
where
  "visit adj path visited t =
     (if t \<in> set path then Inl (dropWhile (\<lambda>x. x \<noteq> t) path @ [t])
      else if t \<in> visited then Inr visited
      else
        (case visit_children adj (path @ [t]) visited (children adj t) of
           Inl cycle \<Rightarrow> Inl cycle
         | Inr visited1 \<Rightarrow> Inr (insert t visited1)))"
| "visit_children adj path visited [] = Inr visited"
| "visit_children adj path visited (c # cs) =
     (case visit adj path visited c of
        Inl cycle \<Rightarrow> Inl cycle
      | Inr visited1 \<Rightarrow> visit_children adj path visited1 cs)"
  by pat_completeness auto

termination
proof (relation "measures
    [\<lambda>x. case x of Inl (adj, path, _, _) \<Rightarrow> card (nodes adj - set path)
           | Inr (adj, path, _, _) \<Rightarrow> card (nodes adj - set path),
     \<lambda>x. case x of Inl _ \<Rightarrow> 1 | Inr (_, _, _, cs) \<Rightarrow> 2 * length cs]", goal_cases)
  case (2 adj path visited t)
  show ?case
  proof (cases "children adj t = []")
    case True
    have "card (nodes adj - set (path @ [t])) \<le> card (nodes adj - set path)"
      by (rule card_mono) auto
    then show ?thesis using True by auto
  next
    case False
    then have "t \<in> nodes adj - set path" using children_nodes 2 by blast
    moreover have "nodes adj - set (path @ [t]) = (nodes adj - set path) - {t}" by auto
    ultimately have "card (nodes adj - set (path @ [t])) < card (nodes adj - set path)"
      by (metis card_Diff1_less finite_Diff finite_nodes)
    then show ?thesis by simp
  qed
qed auto

declare visit.simps [simp del]

fun visit_roots :: "adjacency \<Rightarrow> uuid set \<Rightarrow> uuid list \<Rightarrow> uuid list option" where
  "visit_roots adj visited [] = None"
| "visit_roots adj visited (t # ts) =
     (case visit adj [] visited t of
        Inl cycle \<Rightarrow> Some cycle
      | Inr visited1 \<Rightarrow> visit_roots adj visited1 ts)"

definition validate_dependency_graph_is_acyclic :: "uuid list \<Rightarrow> db \<Rightarrow> exn + unit" where
  "validate_dependency_graph_is_acyclic ids d =
     (if ids = [] then Inr ()
      else
        (case visit_roots (load_graph (db_dependencies d) (dict_fromkeys ids) {} []) {} ids of
           Some cycle \<Rightarrow> Inl dependency_cycle
         | None \<Rightarrow> Inr ()))"

section \<open>What the batches load\<close>

text \<open>The edges of the table and those of an adjacency dictionary.\<close>

definition dep_edges :: "agent_task_dependency list \<Rightarrow> (uuid \<times> uuid) set" where
  "dep_edges deps = (\<lambda>r. (dep_task_id r, dep_depends_on_task_id r)) ` set deps"

definition adj_edges :: "adjacency \<Rightarrow> (uuid \<times> uuid) set" where
  "adj_edges adj = {(t, c). c \<in> set (children adj t)}"

lemma children_dict_set: "children (dict_set k cs adj) t = (if t = k then cs else children adj t)"
  by (simp add: children_def dict_get_set)

lemma load_rows_children:
  "children (fst (foldl (load_row visited) (adj, pending) rows)) t =
     children adj t @ map dep_depends_on_task_id (filter (\<lambda>r. dep_task_id r = t) rows)"
  by (induction rows arbitrary: adj pending) (auto simp: load_row_def children_dict_set)

lemma load_graph_children:
  assumes "\<And>v. v \<in> visited \<Longrightarrow>
      children adj v = map dep_depends_on_task_id (filter (\<lambda>r. dep_task_id r = v) deps)"
    and "\<And>v. v \<notin> visited \<Longrightarrow> children adj v = []"
    and "\<And>v c. v \<in> visited \<Longrightarrow> (v, c) \<in> dep_edges deps \<Longrightarrow> c \<in> visited \<union> set pending"
    and "(t, t') \<in> (dep_edges deps)\<^sup>*" and "t \<in> visited \<union> set pending"
  shows "children (load_graph deps pending visited adj) t' =
    map dep_depends_on_task_id (filter (\<lambda>r. dep_task_id r = t') deps)"
  using assms
proof (induction deps pending visited adj rule: load_graph.induct)
  case (1 deps pending visited adj)
  let ?batch = "filter (\<lambda>i. i \<notin> visited) pending"
  let ?rows = "\<lambda>v. map dep_depends_on_task_id (filter (\<lambda>r. dep_task_id r = v) deps)"
  show ?case
  proof (cases "?batch = []")
    case True
    then have sub: "set pending \<subseteq> visited" by (auto simp: filter_empty_conv)
    have "v \<in> visited" if "(t, v) \<in> (dep_edges deps)\<^sup>*" for v
      using that
    proof induction
      case base
      then show ?case using "1.prems"(5) sub by auto
    next
      case (step y z)
      then show ?case using "1.prems"(3) [of y z] sub by auto
    qed
    then show ?thesis using True "1.prems"(1,4) by (simp add: load_graph.simps [of deps pending])
  next
    case False
    let ?visited1 = "visited \<union> set ?batch"
    obtain adj1 pending1 where load: "foldl (load_row ?visited1) (adj, []) (dependency_rows deps ?batch) = (adj1, pending1)"
      by fastforce
    have pend: "set pending1 = dep_depends_on_task_id ` set (dependency_rows deps ?batch) - ?visited1"
      using load_rows_pending [of ?visited1 adj "[]" "dependency_rows deps ?batch"] load by simp
    have ch: "children adj1 v = children adj v @
        map dep_depends_on_task_id (filter (\<lambda>r. dep_task_id r = v) (dependency_rows deps ?batch))" for v
      using load_rows_children [of ?visited1 adj "[]" "dependency_rows deps ?batch" v] load by simp
    have rows: "filter (\<lambda>r. dep_task_id r = v) (dependency_rows deps ?batch) =
        (if v \<in> set ?batch then filter (\<lambda>r. dep_task_id r = v) deps else [])" for v
      by (auto simp: dependency_rows_def filter_empty_conv intro!: filter_cong)
    have c1: "children adj1 v = ?rows v" if "v \<in> ?visited1" for v
      using that "1.prems"(1,2) ch rows by (cases "v \<in> visited") auto
    have c2: "children adj1 v = []" if "v \<notin> ?visited1" for v
      using that "1.prems"(2) ch rows by auto
    have c3: "c \<in> ?visited1 \<union> set pending1" if "v \<in> ?visited1" "(v, c) \<in> dep_edges deps" for v c
    proof (cases "v \<in> visited")
      case True
      then show ?thesis using "1.prems"(3) [OF True that(2)] by auto
    next
      case False
      then have "c \<in> dep_depends_on_task_id ` set (dependency_rows deps ?batch)"
        using that by (auto simp: dep_edges_def dependency_rows_def)
      then show ?thesis using pend by auto
    qed
    have c5: "t \<in> ?visited1 \<union> set pending1" using "1.prems"(5) by auto
    have "children (load_graph deps pending visited adj) t' =
        children (load_graph deps pending1 ?visited1 adj1) t'"
      by (subst load_graph.simps) (simp only: Let_def False if_False load prod.case)
    also have "\<dots> = ?rows t'"
      by (rule "1.IH" [OF refl False refl load [symmetric] refl])
        (erule c1 | erule c2 | erule (1) c3 | rule "1.prems"(4) | rule c5)+
    finally show ?thesis .
  qed
qed

text \<open>The children of every task reachable from the dependencies are those of the table.\<close>

lemma loaded_children:
  assumes "i \<in> set ids" and "(i, t) \<in> (dep_edges deps)\<^sup>*"
  shows "set (children (load_graph deps (dict_fromkeys ids) {} []) t) = {c. (t, c) \<in> dep_edges deps}"
proof -
  have "children (load_graph deps (dict_fromkeys ids) {} []) t =
      map dep_depends_on_task_id (filter (\<lambda>r. dep_task_id r = t) deps)"
    by (rule load_graph_children [OF _ _ _ assms(2)]) (use assms(1) in \<open>auto simp: children_def\<close>)
  then show ?thesis by (auto simp: dep_edges_def)
qed

section \<open>The search is sound and complete\<close>

text \<open>\<open>settled\<close>: everything reachable from the visited tasks has been visited, without a cycle.\<close>

definition settled :: "adjacency \<Rightarrow> uuid set \<Rightarrow> bool" where
  "settled adj V \<longleftrightarrow>
     (\<forall>v \<in> V. set (children adj v) \<subseteq> V \<and> (v, v) \<notin> (adj_edges adj)\<^sup>+)"

lemma settled_closed:
  "(v, w) \<in> (adj_edges adj)\<^sup>* \<Longrightarrow> settled adj V \<Longrightarrow> v \<in> V \<Longrightarrow> w \<in> V"
  by (induction rule: rtrancl_induct) (auto simp: settled_def adj_edges_def)

lemma settled_insert:
  assumes "settled adj V" and "t \<notin> V" and "set (children adj t) \<subseteq> V"
  shows "settled adj (insert t V)"
proof -
  have "(t, t) \<notin> (adj_edges adj)\<^sup>+"
  proof
    assume "(t, t) \<in> (adj_edges adj)\<^sup>+"
    then obtain c where "(t, c) \<in> adj_edges adj" "(c, t) \<in> (adj_edges adj)\<^sup>*"
      by (meson tranclD)
    then show False using settled_closed [OF _ assms(1)] assms(2,3) by (auto simp: adj_edges_def)
  qed
  then show ?thesis using assms by (auto simp: settled_def)
qed

lemma visit_settled:
  "visit adj path V t = Inr W \<Longrightarrow> settled adj V \<Longrightarrow> V \<inter> set path = {} \<Longrightarrow>
     settled adj W \<and> V \<subseteq> W \<and> t \<in> W \<and> W \<inter> set path = {}"
  "visit_children adj path V cs = Inr W \<Longrightarrow> settled adj V \<Longrightarrow> V \<inter> set path = {} \<Longrightarrow>
     settled adj W \<and> V \<subseteq> W \<and> set cs \<subseteq> W \<and> W \<inter> set path = {}"
proof (induction adj path V t and adj path V cs arbitrary: W and W rule: visit_visit_children.induct)
  case (1 adj path V t)
  show ?case
  proof (cases "t \<in> V")
    case True
    then show ?thesis using 1 by (auto simp: visit.simps [of _ _ _ t] split: if_splits)
  next
    case False
    then have tp: "t \<notin> set path" using "1.prems"(1) by (auto simp: visit.simps [of _ _ _ t] split: if_splits)
    then obtain W1 where W1: "visit_children adj (path @ [t]) V (children adj t) = Inr W1" "W = insert t W1"
      using "1.prems"(1) False by (auto simp: visit.simps [of _ _ _ t] split: sum.splits)
    have "V \<inter> set (path @ [t]) = {}" using "1.prems"(3) False by auto
    from "1.IH" [OF tp False W1(1) "1.prems"(2) this]
    have "settled adj W1" "V \<subseteq> W1" "set (children adj t) \<subseteq> W1" "W1 \<inter> set (path @ [t]) = {}" by auto
    then show ?thesis using settled_insert [of adj W1 t] W1(2) tp by auto
  qed
next
  case (2 adj path V)
  then show ?case by simp
next
  case (3 adj path V c cs)
  then obtain W1 where W1: "visit adj path V c = Inr W1" "visit_children adj path W1 cs = Inr W"
    by (auto split: sum.splits)
  from "3.IH"(1) [OF W1(1) "3.prems"(2,3)] have a: "settled adj W1" "V \<subseteq> W1" "c \<in> W1" "W1 \<inter> set path = {}"
    by auto
  from "3.IH"(2) [OF W1(1) W1(2) a(1,4)] a show ?case by auto
qed

text \<open>A cycle that is reported is a walk along the edges from a task back to itself.\<close>

fun walk :: "adjacency \<Rightarrow> uuid list \<Rightarrow> bool" where
  "walk adj [] = True"
| "walk adj [x] = True"
| "walk adj (x # y # zs) = (y \<in> set (children adj x) \<and> walk adj (y # zs))"

lemma walk_snoc: "walk adj (xs @ [x]) \<Longrightarrow> y \<in> set (children adj x) \<Longrightarrow> walk adj (xs @ [x, y])"
  by (induction adj "xs @ [x]" arbitrary: xs rule: walk.induct) (auto simp: Cons_eq_append_conv)

lemma walk_suffix: "walk adj (xs @ ys) \<Longrightarrow> walk adj ys"
  by (induction xs) (auto elim: walk.elims)

lemma walk_trancl:
  "walk adj (x # xs) \<Longrightarrow> xs \<noteq> [] \<Longrightarrow> (x, last xs) \<in> (adj_edges adj)\<^sup>+"
proof (induction xs arbitrary: x)
  case (Cons y ys)
  then have e: "(x, y) \<in> adj_edges adj" by (auto simp: adj_edges_def)
  show ?case
    using Cons e by (cases "ys = []") (auto intro: trancl_into_trancl2)
qed simp

definition is_cycle :: "adjacency \<Rightarrow> uuid list \<Rightarrow> bool" where
  "is_cycle adj c \<longleftrightarrow> 2 \<le> length c \<and> hd c = last c \<and> walk adj c"

lemma dropWhile_path:
  assumes "t \<in> set path"
  shows "\<exists>before rest. path = before @ t # rest \<and> dropWhile (\<lambda>x. x \<noteq> t) path = t # rest"
proof -
  obtain before rest where "path = before @ t # rest" "t \<notin> set before"
    using split_list_first [OF assms] by blast
  moreover from this(2) have "dropWhile (\<lambda>x. x \<noteq> t) (before @ t # rest) = t # rest"
    by (induction before) auto
  ultimately show ?thesis by blast
qed

lemma visit_cycle:
  "visit adj path V t = Inl c \<Longrightarrow> walk adj (path @ [t]) \<Longrightarrow>
     is_cycle adj c \<and> set c \<subseteq> set path \<union> {x. (t, x) \<in> (adj_edges adj)\<^sup>*}"
  "visit_children adj path V cs = Inl c \<Longrightarrow> walk adj path \<Longrightarrow> path \<noteq> [] \<Longrightarrow>
     set cs \<subseteq> set (children adj (last path)) \<Longrightarrow>
     is_cycle adj c \<and> set c \<subseteq> set path \<union> {x. (last path, x) \<in> (adj_edges adj)\<^sup>*}"
proof (induction adj path V t and adj path V cs arbitrary: c and c rule: visit_visit_children.induct)
  case (1 adj path V t)
  show ?case
  proof (cases "t \<in> set path")
    case True
    then obtain before rest where p: "path = before @ t # rest" "dropWhile (\<lambda>x. x \<noteq> t) path = t # rest"
      using dropWhile_path [OF True] by blast
    have "visit adj path V t = Inl (dropWhile (\<lambda>x. x \<noteq> t) path @ [t])"
      by (subst visit.simps) (simp only: True if_True)
    then have c: "c = t # rest @ [t]" using "1.prems"(1) unfolding p(2) by simp
    have "path @ [t] = before @ c" by (simp add: p(1) c)
    then have "walk adj c" using "1.prems"(2) walk_suffix [of adj before c] by metis
    then have "is_cycle adj c" by (simp add: c is_cycle_def del: walk.simps)
    moreover have "set c \<subseteq> set path" unfolding c p(1) by auto
    ultimately show ?thesis by blast
  next
    case False
    then have "visit_children adj (path @ [t]) V (children adj t) = Inl c" and tv: "t \<notin> V"
      using "1.prems"(1) by (auto simp: visit.simps [of _ _ _ t] split: sum.splits if_splits)
    from "1.IH" [OF False tv this(1) "1.prems"(2)] show ?thesis by auto
  qed
next
  case (2 adj path V)
  then show ?case by simp
next
  case (3 adj path V x cs)
  have split: "path @ [x] = butlast path @ [last path, x]" using "3.prems"(3) by simp
  have step: "walk adj (path @ [x])" "(last path, x) \<in> adj_edges adj"
    using "3.prems"(2-4) walk_snoc [of adj "butlast path" "last path" x]
    unfolding split by (auto simp: adj_edges_def)
  show ?case
  proof (cases "visit adj path V x")
    case (Inl c')
    then have "c' = c" using "3.prems"(1) by simp
    with "3.IH"(1) [OF Inl step(1)] show ?thesis
      using step(2) by (auto intro: converse_rtrancl_into_rtrancl)
  next
    case (Inr W)
    then have "visit_children adj path W cs = Inl c" using "3.prems"(1) by simp
    with "3.IH"(2) [OF Inr this "3.prems"(2,3)] "3.prems"(4) show ?thesis by auto
  qed
qed

lemma visit_roots_None:
  "visit_roots adj V ts = None \<Longrightarrow> settled adj V \<Longrightarrow>
   \<exists>W. settled adj W \<and> V \<union> set ts \<subseteq> W"
proof (induction ts arbitrary: V)
  case Nil
  then show ?case by auto
next
  case (Cons t ts)
  then obtain W where W: "visit adj [] V t = Inr W" "visit_roots adj W ts = None"
    by (auto split: sum.splits)
  from visit_settled(1) [OF W(1) Cons.prems(2)] have a: "settled adj W" "V \<subseteq> W" "t \<in> W" by auto
  from Cons.IH [OF W(2) a(1)] show ?case using a by auto
qed

lemma visit_roots_Some:
  "visit_roots adj V ts = Some c \<Longrightarrow>
   is_cycle adj c \<and> (\<exists>t \<in> set ts. set c \<subseteq> {x. (t, x) \<in> (adj_edges adj)\<^sup>*})"
proof (induction ts arbitrary: V)
  case (Cons t ts)
  show ?case
  proof (cases "visit adj [] V t")
    case (Inl c')
    with Cons.prems visit_cycle(1) [OF Inl] show ?thesis by auto
  next
    case (Inr W)
    with Cons show ?thesis by auto
  qed
qed simp

lemma cycle_trancl:
  assumes "is_cycle adj c"
  shows "(hd c, hd c) \<in> (adj_edges adj)\<^sup>+" "hd c \<in> set c"
proof -
  obtain x y zs where c: "c = x # y # zs" using assms
    by (auto simp: is_cycle_def numeral_2_eq_2 Suc_le_length_iff)
  have "walk adj c" "hd c = last c" using assms by (simp_all add: is_cycle_def)
  then have "walk adj (x # y # zs)" "x = last (y # zs)" unfolding c by (simp_all only: list.sel last.simps) simp
  then have "(x, x) \<in> (adj_edges adj)\<^sup>+" using walk_trancl [of adj x "y # zs"] by (metis list.distinct(1))
  then show "(hd c, hd c) \<in> (adj_edges adj)\<^sup>+" "hd c \<in> set c" by (simp_all add: c)
qed

text \<open>The search over the whole reachable part: a cycle is found exactly when there is one.\<close>

lemma visit_roots_iff:
  "visit_roots adj {} ts = None \<longleftrightarrow>
   (\<forall>t \<in> set ts. \<forall>x. (t, x) \<in> (adj_edges adj)\<^sup>* \<longrightarrow> (x, x) \<notin> (adj_edges adj)\<^sup>+)"
proof (cases "visit_roots adj {} ts")
  case None
  then obtain W where W: "settled adj W" "set ts \<subseteq> W"
    using visit_roots_None [of adj "{}" ts] by (auto simp: settled_def)
  have "(x, x) \<notin> (adj_edges adj)\<^sup>+" if "t \<in> set ts" "(t, x) \<in> (adj_edges adj)\<^sup>*" for t x
    using settled_closed [OF that(2) W(1)] that(1) W by (auto simp: settled_def)
  then show ?thesis using None by blast
next
  case (Some c)
  from visit_roots_Some [OF Some] cycle_trancl [of adj c] show ?thesis using Some by fastforce
qed

text \<open>The loaded dictionary and the table have the same walks from the dependencies.\<close>

lemma reachable_agree:
  assumes "\<And>x c. (i, x) \<in> E\<^sup>* \<Longrightarrow> (x, c) \<in> E \<longleftrightarrow> (x, c) \<in> F"
  shows "(i, x) \<in> E\<^sup>* \<longleftrightarrow> (i, x) \<in> F\<^sup>*"
proof
  assume "(i, x) \<in> E\<^sup>*"
  then show "(i, x) \<in> F\<^sup>*"
    by induction (auto intro: rtrancl_into_rtrancl simp: assms)
next
  assume "(i, x) \<in> F\<^sup>*"
  then show "(i, x) \<in> E\<^sup>*"
    by induction (auto intro: rtrancl_into_rtrancl simp: assms)
qed

lemma cycles_agree:
  assumes "\<And>x c. (i, x) \<in> E\<^sup>* \<Longrightarrow> (x, c) \<in> E \<longleftrightarrow> (x, c) \<in> F" and "(i, x) \<in> E\<^sup>*"
  shows "(x, x) \<in> E\<^sup>+ \<longleftrightarrow> (x, x) \<in> F\<^sup>+"
proof -
  have "(x, y) \<in> E\<^sup>* \<longleftrightarrow> (x, y) \<in> F\<^sup>*" for y
    by (rule reachable_agree) (meson assms rtrancl_trans)
  moreover have "(x, x) \<in> G\<^sup>+ \<longleftrightarrow> (\<exists>y. (x, y) \<in> G\<^sup>* \<and> (y, x) \<in> G)" for G :: "('a \<times> 'a) set"
    by (meson tranclD2 rtrancl_into_trancl1)
  ultimately show ?thesis using assms by (meson rtrancl_trans)
qed

lemma dependency_check:
  "validate_dependency_graph_is_acyclic ids d =
    (if \<exists>i \<in> set ids. \<exists>x. (i, x) \<in> (dep_edges (db_dependencies d))\<^sup>*
          \<and> (x, x) \<in> (dep_edges (db_dependencies d))\<^sup>+
     then Inl dependency_cycle else Inr ())"
proof -
  let ?E = "dep_edges (db_dependencies d)"
  let ?adj = "load_graph (db_dependencies d) (dict_fromkeys ids) {} []"
  have edges: "(x, c) \<in> ?E \<longleftrightarrow> (x, c) \<in> adj_edges ?adj" if "i \<in> set ids" "(i, x) \<in> ?E\<^sup>*" for i x c
    using loaded_children [OF that] by (simp add: adj_edges_def)
  have "visit_roots ?adj {} ids = None \<longleftrightarrow>
      (\<forall>i \<in> set ids. \<forall>x. (i, x) \<in> ?E\<^sup>* \<longrightarrow> (x, x) \<notin> ?E\<^sup>+)"
  proof -
    have "(i, x) \<in> (adj_edges ?adj)\<^sup>* \<longleftrightarrow> (i, x) \<in> ?E\<^sup>*" if "i \<in> set ids" for i x
      by (rule reachable_agree [OF edges [OF that], symmetric])
    moreover have "(x, x) \<in> (adj_edges ?adj)\<^sup>+ \<longleftrightarrow> (x, x) \<in> ?E\<^sup>+"
      if "i \<in> set ids" "(i, x) \<in> ?E\<^sup>*" for i x
      by (rule cycles_agree [OF edges [OF that(1)] that(2), symmetric])
    ultimately show ?thesis unfolding visit_roots_iff by blast
  qed
  then show ?thesis
    by (auto simp: validate_dependency_graph_is_acyclic_def split: option.split)
qed

text \<open>
  C39: the check of a new task's dependencies rejects the request with the conflict exactly when a
  dependency cycle of the stored graph can be reached from them; loading in batches and searching
  depth first always terminate.
\<close>

theorem dependency_check_exact:
  "validate_dependency_graph_is_acyclic ids d =
    (if \<exists>i \<in> set ids. \<exists>x. (i, x) \<in> (dep_edges (db_dependencies d))\<^sup>*
          \<and> (x, x) \<in> (dep_edges (db_dependencies d))\<^sup>+
     then Inl dependency_cycle else Inr ())"
  by (rule dependency_check)

end
