(* ===== verification/Agent_Tasks.thy ===== *)
theory Agent_Tasks
  imports Task_Graph
begin

text \<open>
  Agent tasks before a worker takes them: creation (\<open>app/services/agent_tasks.py\<close>), approval,
  rejection and outcome labels (\<open>app/services/agent_task_lifecycle.py\<close>), and the release of tasks
  whose dependencies are completed (\<open>unblock_ready_agent_tasks\<close> in
  \<open>app/services/agent_task_worker_leases.py\<close>).

  The registry of actions is an argument: for a task type it gives the side-effect level, whether
  approval is required, and the validation of the input, which is a Pydantic model per type. The
  responses of the handlers show the row they changed; here a handler returns its identifier.
\<close>

section \<open>Creation\<close>

record task_action =
  ta_side_effect_level :: side_effect_level
  ta_requires_approval :: bool
  ta_validate :: "dict \<Rightarrow> (dict \<times> linked_tasks) option"

type_synonym action_registry = "(string \<times> task_action) list"

record create_request =
  cr_task_type :: string
  cr_priority :: int
  cr_side_effect_level :: "side_effect_level option"
  cr_requires_approval :: "bool option"
  cr_parent_task_id :: "uuid option"
  cr_dependency_task_ids :: "uuid list"
  cr_input :: dict
  cr_workflow_version :: string
  cr_tool_version :: "string option"
  cr_prompt_version :: "string option"
  cr_model :: "string option"
  cr_model_settings :: dict

definition invalid_task_request :: "string \<Rightarrow> exn" where
  "invalid_task_request m = Http_Error 400 ''invalid_agent_task_request'' m"

definition parent_dependency :: exn where
  "parent_dependency = invalid_task_request ''A task cannot depend on its parent task explicitly.''"

definition quoted :: "string \<Rightarrow> string" where
  "quoted s = [CHR 0x27] @ s @ [CHR 0x27]"

definition unknown_task_type :: "action_registry \<Rightarrow> string \<Rightarrow> exn" where
  "unknown_task_type registry t = value_error (''Unknown agent task type '' @ quoted t
     @ ''. Available: '' @ str_join '', '' (sort (map fst registry)))"

definition wrong_side_effect_level :: "string \<Rightarrow> side_effect_level \<Rightarrow> exn" where
  "wrong_side_effect_level t level = invalid_task_request (''Task type '' @ quoted t
     @ '' requires side_effect_level '' @ quoted (side_effect_level_value level) @ ''.'')"

definition wrong_approval :: "string \<Rightarrow> bool \<Rightarrow> exn" where
  "wrong_approval t approval = invalid_task_request (''Task type '' @ quoted t
     @ '' requires requires_approval='' @ (if approval then ''true'' else ''false'') @ ''.'')"

definition invalid_task_input :: exn where
  "invalid_task_input = Http_Error 422 ''invalid_agent_task_input''
     ''Agent task input did not match the task schema.''"

definition depends_on_parent :: "uuid option \<Rightarrow> uuid list \<Rightarrow> bool" where
  "depends_on_parent parent ids = (case parent of None \<Rightarrow> False | Some p \<Rightarrow> p \<in> set ids)"

definition new_task ::
  "uuid \<Rightarrow> create_request \<Rightarrow> task_status \<Rightarrow> side_effect_level \<Rightarrow> bool \<Rightarrow> dict \<Rightarrow> time \<Rightarrow> agent_task" where
  "new_task i req status level approval input now = \<lparr>
     task_id = i, task_type = cr_task_type req, task_status = status, task_priority = cr_priority req,
     task_side_effect_level = level, task_requires_approval = approval,
     task_parent_task_id = cr_parent_task_id req, task_input = input, task_result = [],
     task_error_message = None, task_failure_artifact_path = None, task_attempts = 0,
     task_locked_at = None, task_locked_by = None, task_last_heartbeat_at = None,
     task_next_attempt_at = None, task_workflow_version = cr_workflow_version req,
     task_tool_version = cr_tool_version req, task_prompt_version = cr_prompt_version req,
     task_model = cr_model req, task_model_settings = cr_model_settings req,
     task_approved_at = None, task_approved_by = None, task_approval_note = None,
     task_rejected_at = None, task_rejected_by = None, task_rejection_note = None,
     task_created_at = now, task_updated_at = now, task_started_at = None, task_completed_at = None\<rparr>"

definition add_task :: "agent_task \<Rightarrow> db \<Rightarrow> db" where
  "add_task t d = d\<lparr>db_tasks := db_tasks d @ [t]\<rparr>"

definition add_dependency :: "uuid \<Rightarrow> world \<Rightarrow> uuid \<times> dependency_kind \<Rightarrow> world" where
  "add_dependency i w spec =
     (let (r, w1) = take_id w;
          row = \<lparr>dep_id = r, dep_task_id = i, dep_depends_on_task_id = fst spec, dep_kind = snd spec,
                 dep_created_at = w_clock w\<rparr> in
      on_db (\<lambda>d. d\<lparr>db_dependencies := db_dependencies d @ [row]\<rparr>) w1)"

text \<open>The part of \<open>create_agent_task\<close> up to the row: what to insert, or the refusal.\<close>

record task_plan =
  tp_level :: side_effect_level
  tp_approval :: bool
  tp_input :: dict
  tp_dependencies :: "(uuid \<times> dependency_kind) list"
  tp_status :: task_status

definition plan_agent_task :: "action_registry \<Rightarrow> create_request \<Rightarrow> db \<Rightarrow> exn + task_plan" where
  "plan_agent_task registry req d =
     (let ids = dict_fromkeys (cr_dependency_task_ids req) in
      if depends_on_parent (cr_parent_task_id req) ids then Inl parent_dependency
      else
        (case dict_get registry (cr_task_type req) of
           None \<Rightarrow> Inl (unknown_task_type registry (cr_task_type req))
         | Some action \<Rightarrow>
             (case ta_validate action (cr_input req) of
                None \<Rightarrow> Inl invalid_task_input
              | Some (input, links) \<Rightarrow>
                  (let specs = augment_dependency_kinds_for_action links ids;
                       ids1 = map fst specs;
                       level = (case cr_side_effect_level req of
                                  None \<Rightarrow> ta_side_effect_level action | Some l \<Rightarrow> l);
                       approval = (case cr_requires_approval req of
                                     None \<Rightarrow> ta_requires_approval action | Some b \<Rightarrow> b) in
                   if depends_on_parent (cr_parent_task_id req) ids1 then Inl parent_dependency
                   else if level \<noteq> ta_side_effect_level action
                   then Inl (wrong_side_effect_level (cr_task_type req) (ta_side_effect_level action))
                   else if approval \<noteq> ta_requires_approval action
                   then Inl (wrong_approval (cr_task_type req) (ta_requires_approval action))
                   else
                     (case validate_parent_task_id (cr_parent_task_id req) d of
                        Inl e \<Rightarrow> Inl e
                      | Inr _ \<Rightarrow>
                          (case validate_dependency_ids ids1 d of
                             Inl e \<Rightarrow> Inl e
                           | Inr _ \<Rightarrow>
                               (case validate_dependency_graph_is_acyclic ids1 d of
                                  Inl e \<Rightarrow> Inl e
                                | Inr _ \<Rightarrow>
                                    Inr \<lparr>tp_level = level, tp_approval = approval, tp_input = input,
                                         tp_dependencies = specs,
                                         tp_status = initial_task_status approval
                                           (incomplete_dependency_count ids1 d > 0)\<rparr>)))))))"

definition create_agent_task ::
  "action_registry \<Rightarrow> bool \<Rightarrow> create_request \<Rightarrow> world \<Rightarrow> world \<times> (exn + uuid)" where
  "create_agent_task registry do_commit req w =
     (case plan_agent_task registry req (w_db w) of
        Inl e \<Rightarrow> (w, Inl e)
      | Inr plan \<Rightarrow>
          (let (i, w1) = take_id w;
               w2 = on_db (add_task (new_task i req (tp_status plan) (tp_level plan) (tp_approval plan)
                      (tp_input plan) (w_clock w))) w1;
               w3 = foldl (add_dependency i) w2 (tp_dependencies plan) in
           (if do_commit then commit w3 else w3, Inr i)))"

section \<open>Approval and rejection\<close>

definition task_not_found :: exn where
  "task_not_found = Http_Error 404 ''agent_task_not_found'' ''Agent task not found.''"

definition invalid_task_state :: "string \<Rightarrow> exn" where
  "invalid_task_state m = Http_Error 409 ''invalid_agent_task_state'' m"

definition approval_refusal :: "agent_task \<Rightarrow> exn option" where
  "approval_refusal t =
     (if \<not> task_requires_approval t
      then Some (invalid_task_state ''This task does not require approval.'')
      else if task_approved_at t \<noteq> None
      then Some (invalid_task_state ''This task has already been approved.'')
      else if task_rejected_at t \<noteq> None \<or> task_status t = T_Rejected
      then Some (invalid_task_state ''Rejected tasks cannot be approved.'')
      else if task_status t \<in> {T_Completed, T_Failed}
      then Some (invalid_task_state ''Completed or failed tasks cannot be approved.'')
      else None)"

definition approved_task ::
  "string \<Rightarrow> string option \<Rightarrow> time \<Rightarrow> bool \<Rightarrow> agent_task \<Rightarrow> agent_task" where
  "approved_task approver note now incomplete t = t\<lparr>
     task_approved_at := Some now, task_approved_by := Some approver, task_approval_note := note,
     task_updated_at := now, task_status := (if incomplete then T_Blocked else T_Queued)\<rparr>"

text \<open>
  Both handlers read the row with \<open>session.get\<close>, which takes no lock, and check it before they
  write. The argument \<open>seen\<close> is the row as it was read, which another transaction may have changed
  since. What is written is the columns whose new value differs from the value read
  (\<open>write_changes\<close>); the others keep what the row holds by then.
\<close>

definition changed :: "'a \<Rightarrow> 'a \<Rightarrow> 'a \<Rightarrow> 'a" where
  "changed old new now = (if new = old then now else new)"

definition write_changes :: "agent_task \<Rightarrow> agent_task \<Rightarrow> agent_task \<Rightarrow> agent_task" where
  "write_changes old new t = t\<lparr>
     task_status := changed (task_status old) (task_status new) (task_status t),
     task_approved_at := changed (task_approved_at old) (task_approved_at new) (task_approved_at t),
     task_approved_by := changed (task_approved_by old) (task_approved_by new) (task_approved_by t),
     task_approval_note := changed (task_approval_note old) (task_approval_note new) (task_approval_note t),
     task_rejected_at := changed (task_rejected_at old) (task_rejected_at new) (task_rejected_at t),
     task_rejected_by := changed (task_rejected_by old) (task_rejected_by new) (task_rejected_by t),
     task_rejection_note := changed (task_rejection_note old) (task_rejection_note new) (task_rejection_note t),
     task_updated_at := changed (task_updated_at old) (task_updated_at new) (task_updated_at t),
     task_completed_at := changed (task_completed_at old) (task_completed_at new) (task_completed_at t),
     task_next_attempt_at := changed (task_next_attempt_at old) (task_next_attempt_at new) (task_next_attempt_at t)\<rparr>"

definition approve_agent_task ::
  "agent_task option \<Rightarrow> uuid \<Rightarrow> string \<Rightarrow> string option \<Rightarrow> world \<Rightarrow> world \<times> (exn + uuid)" where
  "approve_agent_task seen i approver note w =
     (case seen of
        None \<Rightarrow> (w, Inl task_not_found)
      | Some t \<Rightarrow>
          (case approval_refusal t of
             Some e \<Rightarrow> (w, Inl e)
           | None \<Rightarrow>
               (commit (on_db (upd_task i (write_changes t (approved_task approver note (w_clock w)
                  (task_has_incomplete_dependencies i (w_db w)) t))) w), Inr i)))"

definition rejection_refusal :: "agent_task \<Rightarrow> exn option" where
  "rejection_refusal t =
     (if \<not> task_requires_approval t
      then Some (invalid_task_state ''This task does not require approval.'')
      else if task_approved_at t \<noteq> None
      then Some (invalid_task_state ''Approved tasks cannot be rejected.'')
      else if task_rejected_at t \<noteq> None \<or> task_status t = T_Rejected
      then Some (invalid_task_state ''This task has already been rejected.'')
      else if task_status t \<in> {T_Completed, T_Failed, T_Processing, T_Retry_Wait, T_Queued}
      then Some (invalid_task_state ''Only pending approval tasks can be rejected.'')
      else None)"

definition rejected_task :: "string \<Rightarrow> string option \<Rightarrow> time \<Rightarrow> agent_task \<Rightarrow> agent_task" where
  "rejected_task rejecter note now t = t\<lparr>
     task_status := T_Rejected, task_rejected_at := Some now, task_rejected_by := Some rejecter,
     task_rejection_note := note, task_updated_at := now, task_completed_at := Some now,
     task_next_attempt_at := None\<rparr>"

definition reject_agent_task ::
  "agent_task option \<Rightarrow> uuid \<Rightarrow> string \<Rightarrow> string option \<Rightarrow> world \<Rightarrow> world \<times> (exn + uuid)" where
  "reject_agent_task seen i rejecter note w =
     (case seen of
        None \<Rightarrow> (w, Inl task_not_found)
      | Some t \<Rightarrow>
          (case rejection_refusal t of
             Some e \<Rightarrow> (w, Inl e)
           | None \<Rightarrow>
               (commit (on_db (upd_task i (write_changes t (rejected_task rejecter note (w_clock w) t))) w),
                Inr i)))"

text \<open>When nothing changed the row in between, the new values are simply stored.\<close>

lemma changed_same [simp]: "changed old new old = new"
  by (simp add: changed_def)

lemma write_changes_unchanged:
  "write_changes t (approved_task approver note now incomplete t) t =
     approved_task approver note now incomplete t"
  "write_changes t (rejected_task rejecter note now t) t = rejected_task rejecter note now t"
  by (cases t, simp add: write_changes_def approved_task_def rejected_task_def)+

section \<open>Outcome labels\<close>

definition outcome_exists :: exn where
  "outcome_exists = Http_Error 409 ''agent_task_outcome_already_recorded''
     ''This outcome label has already been recorded by that actor for this task.''"

definition same_outcome :: "uuid \<Rightarrow> outcome_label \<Rightarrow> string \<Rightarrow> agent_task_outcome \<Rightarrow> bool" where
  "same_outcome i label actor r =
     (outcome_task_id r = i \<and> outcome_label r = label \<and> outcome_created_by r = actor)"

definition create_agent_task_outcome ::
  "uuid \<Rightarrow> outcome_label \<Rightarrow> string \<Rightarrow> string option \<Rightarrow> world \<Rightarrow> world \<times> (exn + uuid)" where
  "create_agent_task_outcome i label actor note w =
     (case get_task i (w_db w) of
        None \<Rightarrow> (w, Inl task_not_found)
      | Some t \<Rightarrow>
          if task_status t \<notin> {T_Completed, T_Failed, T_Rejected}
          then (w, Inl (invalid_task_state ''Only terminal tasks can receive outcome labels.''))
          else if list_ex (same_outcome i label actor) (db_outcomes (w_db w))
          then (w, Inl outcome_exists)
          else
            (let (r, w1) = take_id w;
                 row = \<lparr>outcome_id = r, outcome_task_id = i, outcome_label = label,
                        outcome_created_by = actor, outcome_note = note,
                        outcome_created_at = w_clock w\<rparr> in
             (commit (on_db (\<lambda>d. d\<lparr>db_outcomes := db_outcomes d @ [row]\<rparr>) w1), Inr r)))"

section \<open>Releasing blocked tasks\<close>

text \<open>The tasks are updated one after the other; the check of a task sees the updates before it.\<close>

definition unblocked_task :: "time \<Rightarrow> agent_task \<Rightarrow> agent_task" where
  "unblocked_task now t = t\<lparr>
     task_status := (if task_requires_approval t \<and> task_approved_at t = None
                     then T_Awaiting_Approval else T_Queued),
     task_updated_at := now\<rparr>"

definition unblock_one :: "world \<times> nat \<Rightarrow> agent_task \<Rightarrow> world \<times> nat" where
  "unblock_one state t =
     (case state of
        (w, updated) \<Rightarrow>
          if incomplete_dependencies (task_id t) (w_db w) \<noteq> [] then (w, updated)
          else (on_db (upd_task (task_id t) (unblocked_task (w_clock w))) w, updated + 1))"

definition unblock_ready_agent_tasks :: "world \<Rightarrow> world \<times> nat" where
  "unblock_ready_agent_tasks w =
     (let blocked = filter (\<lambda>t. task_status t = T_Blocked) (db_tasks (w_db w));
          (w1, updated) = foldl unblock_one (w, 0) blocked in
      (if updated > 0 then commit w1 else w1, updated))"

end
