(* ===== verification/Task_Leases.thy ===== *)
theory Task_Leases
  imports Agent_Tasks Lease_Queue Storage
begin

text \<open>
  Agent tasks under a worker lease: \<open>app/services/agent_task_worker_leases.py\<close> (claims,
  heartbeats, recovery), \<open>app/services/agent_task_worker_finalization.py\<close> (success, failure, the
  checkpoint of promotable side effects) and \<open>app/services/agent_task_worker_processing.py\<close> (one
  task, and one round of the worker loop).

  What a task does is other code: the executor of its action, the context it writes, the refresh of
  evidence manifests and of claim-support impacts, and the cost and performance figures of an
  attempt enter as hooks, which may change database and files, may commit, and may raise.

  The lemmas give the interpretation of the lease contract of \<open>Lease_Queue\<close> for tasks, and show that
  the executor of a promotable task is not run again once its result has been checkpointed.
\<close>

section \<open>Attempts and failure artifacts\<close>

definition is_current_attempt :: "agent_task \<Rightarrow> agent_task_attempt \<Rightarrow> bool" where
  "is_current_attempt t a = (attempt_task_id a = task_id t \<and> attempt_number a = task_attempts t)"

definition current_attempt :: "agent_task \<Rightarrow> db \<Rightarrow> agent_task_attempt option" where
  "current_attempt t d = find (is_current_attempt t) (db_attempts d)"

definition upd_attempt :: "uuid \<Rightarrow> (agent_task_attempt \<Rightarrow> agent_task_attempt) \<Rightarrow> db \<Rightarrow> db" where
  "upd_attempt i f d = d\<lparr>db_attempts := update_row attempt_id i f (db_attempts d)\<rparr>"

text \<open>An update of the current attempt, when there is one.\<close>

definition on_current_attempt ::
  "agent_task \<Rightarrow> (agent_task_attempt \<Rightarrow> agent_task_attempt) \<Rightarrow> db \<Rightarrow> db" where
  "on_current_attempt t f d =
     (case current_attempt t d of None \<Rightarrow> d | Some a \<Rightarrow> upd_attempt (attempt_id a) f d)"

definition json_opt :: "string option \<Rightarrow> json" where
  "json_opt s = (case s of None \<Rightarrow> JNull | Some x \<Rightarrow> JStr x)"

definition task_failure_payload ::
  "codecs \<Rightarrow> time \<Rightarrow> agent_task \<Rightarrow> exn \<Rightarrow> string option \<Rightarrow> json" where
  "task_failure_payload cx now t exc stage = JObj [
     (''schema_version'', JStr ''1.0''),
     (''task_id'', JStr (show_nat (task_id t))),
     (''task_type'', JStr (task_type t)),
     (''status'', JStr (task_status_value (task_status t))),
     (''priority'', JInt (task_priority t)),
     (''side_effect_level'', JStr (side_effect_level_value (task_side_effect_level t))),
     (''requires_approval'', JBool (task_requires_approval t)),
     (''parent_task_id'',
        case task_parent_task_id t of None \<Rightarrow> JNull | Some p \<Rightarrow> JStr (show_nat p)),
     (''attempts'', JInt (task_attempts t)),
     (''failure_type'', JStr (exn_class exc)),
     (''failure_stage'', json_opt stage),
     (''error_message'', JStr (exn_message exc)),
     (''workflow_version'', JStr (task_workflow_version t)),
     (''tool_version'', json_opt (task_tool_version t)),
     (''prompt_version'', json_opt (task_prompt_version t)),
     (''model'', json_opt (task_model t)),
     (''model_settings'', JObj (task_model_settings t)),
     (''input'', JObj (task_input t)),
     (''result'', JObj (task_result t)),
     (''created_at'', JStr (cx_isoformat cx now))]"

definition write_task_failure_artifact ::
  "codecs \<Rightarrow> path option \<Rightarrow> agent_task \<Rightarrow> exn \<Rightarrow> string option \<Rightarrow> world \<Rightarrow> world \<times> path option" where
  "write_task_failure_artifact cx base t exc stage w =
     (case base of
        None \<Rightarrow> (w, None)
      | Some b \<Rightarrow>
          (let p = build_agent_task_failure_artifact_path b (task_id t) in
           (write_file p (cx_json_sorted cx (task_failure_payload cx (w_clock w) t exc stage)) w,
            Some p)))"

section \<open>Leases\<close>

definition stale_message :: string where
  "stale_message = ''Task lease became stale.''"

definition task_is_stale :: "time \<Rightarrow> agent_task \<Rightarrow> bool" where
  "task_is_stale limit t =
     (task_status t = T_Processing \<and>
      (case task_last_heartbeat_at t of None \<Rightarrow> False | Some h \<Rightarrow> h < limit))"

definition abandoned_attempt :: "time \<Rightarrow> agent_task_attempt \<Rightarrow> agent_task_attempt" where
  "abandoned_attempt now a =
     (if attempt_status a = A_Processing
      then a\<lparr>attempt_status := A_Abandoned, attempt_completed_at := Some now,
             attempt_error_message := str_or (attempt_error_message a) (Some stale_message)\<rparr>
      else a)"

definition release_task :: "agent_task \<Rightarrow> agent_task" where
  "release_task t = t\<lparr>task_locked_at := None, task_locked_by := None, task_last_heartbeat_at := None\<rparr>"

definition with_failure :: "string \<Rightarrow> string option \<Rightarrow> dict \<Rightarrow> dict" where
  "with_failure failure_type stage result =
     dict_set ''failure_stage'' (json_opt stage) (dict_set ''failure_type'' (JStr failure_type) result)"

definition requeued_task :: "settings \<Rightarrow> time \<Rightarrow> agent_task \<Rightarrow> agent_task" where
  "requeued_task st now t =
     (let t1 = (release_task t)\<lparr>
            task_error_message := str_or (task_error_message t) (Some stale_message),
            task_result := with_failure ''RuntimeError'' (Some ''stale_lease'') (task_result t),
            task_updated_at := now\<rparr> in
      if task_attempts t \<ge> set_worker_max_attempts st
      then t1\<lparr>task_status := T_Failed, task_completed_at := Some now\<rparr>
      else t1\<lparr>task_status := T_Retry_Wait, task_next_attempt_at := Some now\<rparr>)"

definition requeue_task :: "codecs \<Rightarrow> settings \<Rightarrow> path option \<Rightarrow> world \<Rightarrow> agent_task \<Rightarrow> world" where
  "requeue_task cx st base w t =
     (let w1 = on_db (on_current_attempt t (abandoned_attempt (w_clock w))) w;
          t1 = requeued_task st (w_clock w) t in
      if task_attempts t \<ge> set_worker_max_attempts st then
        (let exc = Py_Error ''RuntimeError'' False
                     (case task_error_message t1 of None \<Rightarrow> [] | Some m \<Rightarrow> m);
             (w2, p) = write_task_failure_artifact cx base t1 exc (Some ''stale_lease'') w1 in
         on_db (upd_task (task_id t) (\<lambda>_. t1\<lparr>task_failure_artifact_path := p\<rparr>)) w2)
      else on_db (upd_task (task_id t) (\<lambda>_. t1)) w1)"

definition stale_limit :: "settings \<Rightarrow> world \<Rightarrow> time" where
  "stale_limit st w = w_clock w - seconds (set_worker_lease_timeout_seconds st)"

definition requeue_stale_agent_tasks ::
  "codecs \<Rightarrow> settings \<Rightarrow> path option \<Rightarrow> world \<Rightarrow> world \<times> nat" where
  "requeue_stale_agent_tasks cx st base w =
     (let stale_tasks = filter (task_is_stale (stale_limit st w)) (db_tasks (w_db w));
          w1 = foldl (requeue_task cx st base) w stale_tasks in
      (if stale_tasks = [] then w1 else commit w1, length stale_tasks))"

definition task_eligible :: "time \<Rightarrow> agent_task \<Rightarrow> bool" where
  "task_eligible now t =
     (task_status t = T_Queued \<or>
      (task_status t = T_Retry_Wait \<and>
       (case task_next_attempt_at t of None \<Rightarrow> True | Some a \<Rightarrow> a \<le> now)))"

definition claimed_task :: "time \<Rightarrow> string \<Rightarrow> agent_task \<Rightarrow> agent_task" where
  "claimed_task now worker t = t\<lparr>
     task_status := T_Processing, task_locked_at := Some now, task_locked_by := Some worker,
     task_last_heartbeat_at := Some now, task_started_at := or_else (task_started_at t) (Some now),
     task_next_attempt_at := None, task_updated_at := now, task_attempts := task_attempts t + 1\<rparr>"

definition new_attempt :: "uuid \<Rightarrow> agent_task \<Rightarrow> string \<Rightarrow> time \<Rightarrow> agent_task_attempt" where
  "new_attempt i t worker now = \<lparr>
     attempt_id = i, attempt_task_id = task_id t, attempt_number = task_attempts t,
     attempt_status = A_Processing, attempt_worker_id = Some worker, attempt_input = task_input t,
     attempt_result = [], attempt_cost = [], attempt_performance = [], attempt_error_message = None,
     attempt_created_at = now, attempt_started_at = Some now, attempt_completed_at = None\<rparr>"

definition add_attempt :: "agent_task_attempt \<Rightarrow> db \<Rightarrow> db" where
  "add_attempt a d = d\<lparr>db_attempts := db_attempts d @ [a]\<rparr>"

text \<open>By priority, then by age.\<close>

definition task_order :: "agent_task \<Rightarrow> int \<times> time" where
  "task_order t = (task_priority t, task_created_at t)"

definition claim_next_agent_task :: "string \<Rightarrow> world \<Rightarrow> world \<times> uuid option" where
  "claim_next_agent_task worker w =
     (case first_by task_order (filter (task_eligible (w_clock w)) (db_tasks (w_db w))) of
        None \<Rightarrow> (rollback w, None)
      | Some t \<Rightarrow>
          (let t1 = claimed_task (w_clock w) worker t;
               (a, w1) = take_id w in
           (commit (on_db (add_attempt (new_attempt a t1 worker (w_clock w))
              \<circ> upd_task (task_id t) (claimed_task (w_clock w) worker)) w1), Some (task_id t))))"

definition heartbeat_agent_task :: "uuid \<Rightarrow> world \<Rightarrow> world" where
  "heartbeat_agent_task i w =
     commit (on_db (upd_task i (\<lambda>t. t\<lparr>task_last_heartbeat_at := Some (w_clock w),
                                   task_updated_at := w_clock w\<rparr>)) w)"

definition holds_task_lease :: "string \<Rightarrow> agent_task \<Rightarrow> bool" where
  "holds_task_lease worker t = (task_locked_by t = Some worker \<and> task_status t = T_Processing)"

text \<open>\<open>_refresh_agent_task_lease\<close>, in a session of its own.\<close>

definition refresh_agent_task_lease :: "uuid \<Rightarrow> string \<Rightarrow> world \<Rightarrow> world \<times> bool" where
  "refresh_agent_task_lease i worker w =
     (let hit = (\<lambda>t. task_id t = i \<and> holds_task_lease worker t);
          refresh = (\<lambda>d. d\<lparr>db_tasks := map (\<lambda>t. if hit t
             then t\<lparr>task_last_heartbeat_at := Some (w_clock w), task_updated_at := w_clock w\<rparr>
             else t) (db_tasks d)\<rparr>) in
      (w\<lparr>w_saved := refresh (w_saved w), w_db := refresh (w_db w)\<rparr>,
       list_ex hit (db_tasks (w_saved w))))"

section \<open>The checkpoint of a promotable side effect\<close>

definition APPLIED_KEY :: string where "APPLIED_KEY = ''_side_effect_status''"
definition APPLIED_VALUE :: string where "APPLIED_VALUE = ''applied''"
definition CHECKPOINT_KEY :: string where "CHECKPOINT_KEY = ''_checkpointed_result''"

text \<open>The checkpointed result, when the marker and the result are there.\<close>

definition checkpoint_of :: "dict \<Rightarrow> dict option" where
  "checkpoint_of result =
     (case (dict_get result APPLIED_KEY, dict_get result CHECKPOINT_KEY) of
        (Some (JStr v), Some (JObj d)) \<Rightarrow> if v = APPLIED_VALUE then Some d else None
      | _ \<Rightarrow> None)"

definition result_has_applied_promotable_side_effect :: "dict \<Rightarrow> bool" where
  "result_has_applied_promotable_side_effect result = (checkpoint_of result \<noteq> None)"

definition strip_promotable_side_effect_marker :: "dict \<Rightarrow> dict" where
  "strip_promotable_side_effect_marker result =
     (case checkpoint_of result of
        Some d \<Rightarrow> d
      | None \<Rightarrow> dict_pop CHECKPOINT_KEY (dict_pop APPLIED_KEY result))"

definition checkpointed_task :: "time \<Rightarrow> dict \<Rightarrow> agent_task \<Rightarrow> agent_task" where
  "checkpointed_task now result t = t\<lparr>
     task_result := [(APPLIED_KEY, JStr APPLIED_VALUE), (CHECKPOINT_KEY, JObj result)],
     task_updated_at := now\<rparr>"

definition checkpoint_promotable_task_result :: "uuid \<Rightarrow> dict \<Rightarrow> world \<Rightarrow> world" where
  "checkpoint_promotable_task_result i result w =
     commit (on_db (upd_task i (checkpointed_task (w_clock w) result)) w)"

section \<open>Finalising a task\<close>

text \<open>
  The hooks: a change of the world together with an exception or a value. \<open>th_report\<close> is the
  refresh of evidence manifest and provenance export, which adds to the payload of the result.
\<close>

record task_hooks =
  th_execute :: "agent_task \<Rightarrow> world \<Rightarrow> world \<times> (exn + dict)"
  th_write_context :: "agent_task \<Rightarrow> dict \<Rightarrow> world \<Rightarrow> world \<times> exn option"
  th_report :: "uuid \<Rightarrow> dict \<Rightarrow> world \<Rightarrow> world \<times> (exn + dict)"
  th_refresh_impacts :: "uuid \<Rightarrow> world \<Rightarrow> world \<times> exn option"
  th_attempt_cost :: "agent_task \<Rightarrow> dict \<Rightarrow> dict"
  th_attempt_performance :: "agent_task \<Rightarrow> agent_task_attempt \<Rightarrow> time \<Rightarrow> dict"

definition is_retryable_agent_task_error :: "exn \<Rightarrow> bool" where
  "is_retryable_agent_task_error exc =
     (case exc of Http_Error _ _ _ \<Rightarrow> False | Py_Error _ v _ \<Rightarrow> \<not> v)"

definition technical_report_verification_passed :: "dict \<Rightarrow> bool" where
  "technical_report_verification_passed result =
     (dict_get result ''task_type'' = Some (JStr ''verify_technical_report'') \<and>
      (case dict_get result ''payload'' of
         Some (JObj payload) \<Rightarrow>
           (case dict_get payload ''verification'' of
              Some (JObj v) \<Rightarrow> dict_get v ''outcome'' = Some (JStr ''passed'')
            | _ \<Rightarrow> False)
       | _ \<Rightarrow> False))"

definition completed_task :: "time \<Rightarrow> dict \<Rightarrow> agent_task \<Rightarrow> agent_task" where
  "completed_task now result t = (release_task t)\<lparr>
     task_next_attempt_at := None, task_status := T_Completed, task_result := result,
     task_error_message := None, task_completed_at := Some now, task_updated_at := now,
     task_failure_artifact_path := None\<rparr>"

definition completed_attempt ::
  "task_hooks \<Rightarrow> time \<Rightarrow> agent_task \<Rightarrow> dict \<Rightarrow> agent_task_attempt \<Rightarrow> agent_task_attempt" where
  "completed_attempt hk now t result a = a\<lparr>
     attempt_status := A_Completed, attempt_result := result,
     attempt_cost := th_attempt_cost hk t result,
     attempt_performance := th_attempt_performance hk t
       (a\<lparr>attempt_status := A_Completed, attempt_result := result,
         attempt_cost := th_attempt_cost hk t result\<rparr>) now,
     attempt_error_message := None, attempt_completed_at := Some now\<rparr>"

text \<open>
  \<open>finalize_agent_task_success\<close>; when a hook raises, the changes so far are left uncommitted.
\<close>

definition finalize_agent_task_success ::
  "task_hooks \<Rightarrow> path option \<Rightarrow> uuid \<Rightarrow> dict \<Rightarrow> world \<Rightarrow> world \<times> exn option" where
  "finalize_agent_task_success hk base i result w =
     (case get_task i (w_db w) of
        None \<Rightarrow> (w, None)
      | Some t \<Rightarrow>
          (let now = w_clock w;
               sanitized = strip_promotable_side_effect_marker result;
               w1 = on_db (upd_task i (completed_task now sanitized)) w;
               w2 = (case task_failure_artifact_path t of
                       None \<Rightarrow> w1
                     | Some p \<Rightarrow> if p \<noteq> [] \<and> base \<noteq> None then delete_file_if_exists p w1 else w1);
               (w3, reported) = (if technical_report_verification_passed sanitized
                                 then th_report hk i sanitized w2 else (w2, Inr sanitized)) in
           case reported of
             Inl e \<Rightarrow> (w3, Some e)
           | Inr final \<Rightarrow>
               (case th_refresh_impacts hk i
                       (on_db (upd_task i (\<lambda>t. t\<lparr>task_result := final\<rparr>)) w3) of
                  (w5, Some e) \<Rightarrow> (w5, Some e)
                | (w5, None) \<Rightarrow>
                    (let t1 = completed_task now final t in
                     (commit (on_db (on_current_attempt t1 (completed_attempt hk now t1 final)) w5),
                      None)))))"

definition task_backoff :: "int \<Rightarrow> int" where
  "task_backoff attempts = min 60 (2 ^ nat (max (attempts - 1) 0))"

definition failed_task ::
  "settings \<Rightarrow> time \<Rightarrow> exn \<Rightarrow> string option \<Rightarrow> agent_task \<Rightarrow> agent_task" where
  "failed_task st now exc stage t =
     (let t1 = (release_task t)\<lparr>
            task_error_message := Some (exn_message exc),
            task_result := with_failure (exn_class exc) stage (task_result t),
            task_updated_at := now\<rparr> in
      if is_retryable_agent_task_error exc \<and> task_attempts t < set_worker_max_attempts st
      then t1\<lparr>task_status := T_Retry_Wait,
              task_next_attempt_at := Some (now + seconds (task_backoff (task_attempts t)))\<rparr>
      else t1\<lparr>task_status := T_Failed, task_completed_at := Some now\<rparr>)"

text \<open>The columns of the task that the cost and performance figures see, before its new status.\<close>

definition failing_task :: "time \<Rightarrow> exn \<Rightarrow> string option \<Rightarrow> agent_task \<Rightarrow> agent_task" where
  "failing_task now exc stage t = (release_task t)\<lparr>
     task_error_message := Some (exn_message exc),
     task_result := with_failure (exn_class exc) stage (task_result t), task_updated_at := now\<rparr>"

definition failed_attempt ::
  "task_hooks \<Rightarrow> time \<Rightarrow> exn \<Rightarrow> string option \<Rightarrow> agent_task \<Rightarrow> agent_task_attempt \<Rightarrow> agent_task_attempt" where
  "failed_attempt hk now exc stage t a =
     (let result = with_failure (exn_class exc) stage (attempt_result a);
          a1 = a\<lparr>attempt_status := A_Failed, attempt_error_message := Some (exn_message exc),
                 attempt_result := result, attempt_cost := th_attempt_cost hk t result\<rparr> in
      a1\<lparr>attempt_performance := th_attempt_performance hk t a1 now, attempt_completed_at := Some now\<rparr>)"

definition finalize_agent_task_failure ::
  "codecs \<Rightarrow> settings \<Rightarrow> task_hooks \<Rightarrow> path option \<Rightarrow> uuid \<Rightarrow> exn \<Rightarrow> string option \<Rightarrow> world \<Rightarrow>
   world \<times> exn option" where
  "finalize_agent_task_failure cx st hk base i exc stage w =
     (case get_task i (w_db w) of
        None \<Rightarrow> (w, None)
      | Some t \<Rightarrow>
          (let now = w_clock w;
               w1 = on_db (on_current_attempt t
                      (failed_attempt hk now exc stage (failing_task now exc stage t))) w;
               t1 = failed_task st now exc stage t;
               (w2, p) = write_task_failure_artifact cx base t1 exc stage w1;
               w3 = on_db (upd_task i (\<lambda>_. t1\<lparr>task_failure_artifact_path := p\<rparr>)) w2 in
           case th_refresh_impacts hk i w3 of
             (w4, Some e) \<Rightarrow> (w4, Some e)
           | (w4, None) \<Rightarrow> (commit w4, None)))"

section \<open>Processing a task\<close>

text \<open>
  The body of \<open>process_agent_task\<close> up to the end of the \<open>try\<close>: the state, the failure stage reached,
  and the exception, when one was raised.
\<close>

definition finish_task ::
  "task_hooks \<Rightarrow> path option \<Rightarrow> uuid \<Rightarrow> dict \<Rightarrow> world \<Rightarrow> world \<times> string \<times> exn option" where
  "finish_task hk base i result w =
     (let w1 = heartbeat_agent_task i w in
      case get_task i (w_db w1) of
        None \<Rightarrow> (w1, ''execute'', Some (Py_Error ''ObjectDeletedError'' False []))
      | Some t \<Rightarrow>
          (case th_write_context hk t result w1 of
             (w2, Some e) \<Rightarrow> (w2, ''execute'', Some e)
           | (w2, None) \<Rightarrow>
               (case finalize_agent_task_success hk base i result w2 of
                  (w3, r) \<Rightarrow> (w3, ''complete'', r))))"

definition execute_task ::
  "task_hooks \<Rightarrow> path option \<Rightarrow> uuid \<Rightarrow> agent_task \<Rightarrow> world \<Rightarrow> world \<times> string \<times> exn option" where
  "execute_task hk base i t w =
     (if result_has_applied_promotable_side_effect (task_result t)
      then finish_task hk base i (strip_promotable_side_effect_marker (task_result t)) w
      else
        (case th_execute hk t w of
           (w2, Inl e) \<Rightarrow> (w2, ''execute'', Some e)
         | (w2, Inr result) \<Rightarrow>
             finish_task hk base i result
               (if task_side_effect_level t = Promotable
                then checkpoint_promotable_task_result i result w2 else w2)))"

definition process_agent_task ::
  "codecs \<Rightarrow> settings \<Rightarrow> task_hooks \<Rightarrow> path option \<Rightarrow> uuid \<Rightarrow> world \<Rightarrow> world \<times> (exn + unit)" where
  "process_agent_task cx st hk base i w =
     (case get_task i (w_db w) of
        None \<Rightarrow> (w, Inl (value_error (''Agent task '' @ show_nat i @ '' does not exist.'')))
      | Some t0 \<Rightarrow>
          (let w1 = heartbeat_agent_task i w in
           case get_task i (w_db w1) of
             None \<Rightarrow> (w1, Inl (Py_Error ''ObjectDeletedError'' False []))
           | Some t \<Rightarrow>
               (case execute_task hk base i t w1 of
                  (w2, _, None) \<Rightarrow> (w2, Inr ())
                | (w2, stage, Some e) \<Rightarrow>
                    (let w3 = rollback w2 in
                     case get_task i (w_db w3) of
                       None \<Rightarrow> (w3, Inl e)
                     | Some _ \<Rightarrow>
                         (case finalize_agent_task_failure cx st hk base i e (Some stage) w3 of
                            (w4, None) \<Rightarrow> (w4, Inr ())
                          | (w4, Some e') \<Rightarrow> (w4, Inl e'))))))"

definition task_worker_round ::
  "codecs \<Rightarrow> settings \<Rightarrow> task_hooks \<Rightarrow> path \<Rightarrow> string \<Rightarrow> world \<Rightarrow> world \<times> (exn + bool)" where
  "task_worker_round cx st hk base worker w =
     (let w1 = fst (unblock_ready_agent_tasks w);
          w2 = fst (requeue_stale_agent_tasks cx st (Some base) w1) in
      case claim_next_agent_task worker w2 of
        (w3, None) \<Rightarrow> (w3, Inr False)
      | (w3, Some i) \<Rightarrow>
          (case process_agent_task cx st hk (Some base) i w3 of
             (w4, Inl e) \<Rightarrow> (w4, Inl e)
           | (w4, Inr _) \<Rightarrow> (w4, Inr True)))"

section \<open>Recovery as a map over the tasks\<close>

lemma upd_attempt_simps [simp]:
  "db_tasks (upd_attempt i f d) = db_tasks d" "db_dependencies (upd_attempt i f d) = db_dependencies d"
  "db_attempts (upd_attempt i f d) = update_row attempt_id i f (db_attempts d)"
  "db_tasks (add_attempt a d) = db_tasks d" "db_dependencies (add_attempt a d) = db_dependencies d"
  "db_attempts (add_attempt a d) = db_attempts d @ [a]"
  by (simp_all add: upd_attempt_def add_attempt_def)

lemma on_current_attempt_simps [simp]:
  "db_tasks (on_current_attempt t f d) = db_tasks d"
  "db_dependencies (on_current_attempt t f d) = db_dependencies d"
  by (simp_all add: on_current_attempt_def split: option.split)

lemma task_fields [simp]:
  "task_id (requeued_task st now t) = task_id t" "task_id (claimed_task now worker t) = task_id t"
  "task_id (completed_task now r t) = task_id t" "task_id (failed_task st now e stage t) = task_id t"
  "task_id (checkpointed_task now r t) = task_id t" "task_id (release_task t) = task_id t"
  "task_attempts (requeued_task st now t) = task_attempts t"
  "task_attempts (claimed_task now worker t) = task_attempts t + 1"
  "task_attempts (completed_task now r t) = task_attempts t"
  "task_attempts (failed_task st now e stage t) = task_attempts t"
  "task_attempts (checkpointed_task now r t) = task_attempts t"
  "task_attempts (release_task t) = task_attempts t"
  by (simp_all add: requeued_task_def claimed_task_def completed_task_def failed_task_def
      checkpointed_task_def release_task_def Let_def)

definition requeued_task_row :: "settings \<Rightarrow> path option \<Rightarrow> time \<Rightarrow> agent_task \<Rightarrow> agent_task" where
  "requeued_task_row st base now t =
     (if task_attempts t \<ge> set_worker_max_attempts st
      then (requeued_task st now t)\<lparr>task_failure_artifact_path :=
             map_option (\<lambda>b. build_agent_task_failure_artifact_path b (task_id t)) base\<rparr>
      else requeued_task st now t)"

lemma requeued_task_row_fields [simp]:
  "task_id (requeued_task_row st base now t) = task_id t"
  "task_attempts (requeued_task_row st base now t) = task_attempts t"
  by (simp_all add: requeued_task_row_def)

lemma requeue_task_simps:
  "db_tasks (w_db (requeue_task cx st base w t)) =
     update_row task_id (task_id t) (\<lambda>_. requeued_task_row st base (w_clock w) t) (db_tasks (w_db w))"
  "db_attempts (w_db (requeue_task cx st base w t)) =
     db_attempts (on_current_attempt t (abandoned_attempt (w_clock w)) (w_db w))"
  "db_dependencies (w_db (requeue_task cx st base w t)) = db_dependencies (w_db w)"
  "w_clock (requeue_task cx st base w t) = w_clock w" "w_fresh (requeue_task cx st base w t) = w_fresh w"
  "w_saved (requeue_task cx st base w t) = w_saved w"
  by (simp_all add: requeue_task_def requeued_task_row_def write_task_failure_artifact_def Let_def
      split: option.split)

lemma requeue_tasks_fold:
  "db_tasks (w_db (foldl (requeue_task cx st base) w ts)) =
     foldl (\<lambda>rows t. update_row task_id (task_id t) (\<lambda>_. requeued_task_row st base (w_clock w) t) rows)
       (db_tasks (w_db w)) ts"
  "db_dependencies (w_db (foldl (requeue_task cx st base) w ts)) = db_dependencies (w_db w)"
  "w_clock (foldl (requeue_task cx st base) w ts) = w_clock w"
  "w_fresh (foldl (requeue_task cx st base) w ts) = w_fresh w"
  "w_saved (foldl (requeue_task cx st base) w ts) = w_saved w"
  by (induction ts arbitrary: w) (simp_all add: requeue_task_simps)

lemma requeue_tasks:
  assumes "distinct (map task_id (db_tasks (w_db w)))"
  shows "db_tasks (w_db (fst (requeue_stale_agent_tasks cx st base w))) =
    map (\<lambda>t. if task_is_stale (stale_limit st w) t then requeued_task_row st base (w_clock w) t else t)
      (db_tasks (w_db w))"
proof -
  let ?ts = "filter (task_is_stale (stale_limit st w)) (db_tasks (w_db w))"
  have "db_tasks (w_db (fst (requeue_stale_agent_tasks cx st base w))) =
      foldl (\<lambda>rows t. update_row task_id (task_id t) (\<lambda>_. requeued_task_row st base (w_clock w) t) rows)
        (db_tasks (w_db w)) ?ts"
    by (simp add: requeue_stale_agent_tasks_def Let_def requeue_tasks_fold)
  also have "\<dots> = map (\<lambda>t. if t \<in> set ?ts then requeued_task_row st base (w_clock w) t else t)
      (db_tasks (w_db w))"
    using assms by (intro foldl_update_rows) auto
  finally show ?thesis by (auto cong: map_cong)
qed

lemma requeue_tasks_frame:
  "db_dependencies (w_db (fst (requeue_stale_agent_tasks cx st base w))) = db_dependencies (w_db w)"
  "w_clock (fst (requeue_stale_agent_tasks cx st base w)) = w_clock w"
  "w_fresh (fst (requeue_stale_agent_tasks cx st base w)) = w_fresh w"
  by (simp_all add: requeue_stale_agent_tasks_def Let_def requeue_tasks_fold)

lemma requeue_tasks_saved:
  "w_saved w = w_db w \<Longrightarrow> w_saved (fst (requeue_stale_agent_tasks cx st base w)) =
     w_db (fst (requeue_stale_agent_tasks cx st base w))"
  by (auto simp: requeue_stale_agent_tasks_def Let_def)

section \<open>Tasks as a lease queue\<close>

definition task_claimable :: "world \<Rightarrow> uuid \<Rightarrow> bool" where
  "task_claimable w i =
     (case get_task i (w_db w) of None \<Rightarrow> False | Some t \<Rightarrow> task_eligible (w_clock w) t)"

definition task_holder :: "world \<Rightarrow> uuid \<Rightarrow> string option" where
  "task_holder w i =
     (case get_task i (w_db w) of
        None \<Rightarrow> None
      | Some t \<Rightarrow> if task_status t = T_Processing then task_locked_by t else None)"

definition task_tries :: "world \<Rightarrow> uuid \<Rightarrow> int" where
  "task_tries w i = (case get_task i (w_db w) of None \<Rightarrow> 0 | Some t \<Rightarrow> task_attempts t)"

definition task_stale :: "settings \<Rightarrow> world \<Rightarrow> uuid \<Rightarrow> bool" where
  "task_stale st w i =
     (case get_task i (w_db w) of None \<Rightarrow> False | Some t \<Rightarrow> task_is_stale (stale_limit st w) t)"

definition tasks_settled :: "world \<Rightarrow> bool" where
  "tasks_settled w = (w_saved w = w_db w \<and> distinct (map task_id (db_tasks (w_db w))))"

lemmas task_views = task_claimable_def task_holder_def task_tries_def task_stale_def

lemma claim_next_agent_task_cases:
  assumes "tasks_settled w"
  obtains (none) "claim_next_agent_task worker w = (w, None)" "\<forall>i. \<not> task_claimable w i"
  | (task) t w' where "claim_next_agent_task worker w = (w', Some (task_id t))"
      "t \<in> set (db_tasks (w_db w))" "task_eligible (w_clock w) t" "get_task (task_id t) (w_db w) = Some t"
      "w' = commit (on_db (add_attempt (new_attempt (w_fresh w) (claimed_task (w_clock w) worker t)
              worker (w_clock w)) \<circ> upd_task (task_id t) (claimed_task (w_clock w) worker))
              (w\<lparr>w_fresh := w_fresh w + 1\<rparr>))"
      "\<forall>t' \<in> set (db_tasks (w_db w)). task_eligible (w_clock w) t' \<longrightarrow> task_order t \<le> task_order t'"
proof (cases "first_by task_order (filter (task_eligible (w_clock w)) (db_tasks (w_db w)))")
  case None
  then have "filter (task_eligible (w_clock w)) (db_tasks (w_db w)) = []" by simp
  then have "\<forall>i. \<not> task_claimable w i"
    by (auto simp: task_claimable_def filter_empty_conv dest: find_row_Some split: option.splits)
  moreover have "rollback w = w" using assms by (simp add: rollback_def tasks_settled_def)
  ultimately show ?thesis using none None by (simp add: claim_next_agent_task_def)
next
  case (Some t)
  then have t: "t \<in> set (db_tasks (w_db w))" "task_eligible (w_clock w) t"
    and min: "\<forall>t' \<in> set (db_tasks (w_db w)). task_eligible (w_clock w) t' \<longrightarrow> task_order t \<le> task_order t'"
    using first_by_Some [OF Some] by auto
  have "get_task (task_id t) (w_db w) = Some t"
    using assms t(1) by (simp add: tasks_settled_def find_row_unique)
  with task [of _ t] t min Some show ?thesis
    by (simp add: claim_next_agent_task_def take_id_def Let_def)
qed

lemma get_task_requeue:
  assumes "tasks_settled w"
  shows "get_task i (w_db (fst (requeue_stale_agent_tasks cx st base w))) =
    map_option (\<lambda>t. if task_is_stale (stale_limit st w) t
                     then requeued_task_row st base (w_clock w) t else t) (get_task i (w_db w))"
  using assms by (simp add: requeue_tasks tasks_settled_def find_row_map_if)

lemma requeued_task_status:
  "task_status (requeued_task_row st base now t) \<noteq> T_Processing"
  "task_eligible now (requeued_task_row st base now t) \<longleftrightarrow> task_attempts t < set_worker_max_attempts st"
  by (auto simp: requeued_task_row_def requeued_task_def task_eligible_def Let_def)

interpretation task_queue: lease_recovery tasks_settled task_claimable task_holder task_tries
  claim_next_agent_task "task_stale st" "set_worker_max_attempts st"
  "fst \<circ> requeue_stale_agent_tasks cx st base"
  for st cx base
proof
  fix w w' :: world and worker r i j
  show "tasks_settled w'" if "tasks_settled w" "claim_next_agent_task worker w = (w', r)"
    using that(1)
  proof (cases rule: claim_next_agent_task_cases [where worker = worker])
    case (task t v)
    then show ?thesis using that by (simp add: tasks_settled_def map_key_update_row)
  qed (use that in simp)
  show "task_claimable w i \<and> \<not> task_claimable w' i \<and> task_holder w' i = Some worker
      \<and> task_tries w' i = task_tries w i + 1"
    if "tasks_settled w" "claim_next_agent_task worker w = (w', Some i)"
    using that(1)
  proof (cases rule: claim_next_agent_task_cases [where worker = worker])
    case (task t v)
    then show ?thesis
      using that by (simp add: task_views find_row_update task_eligible_def claimed_task_def)
  qed (use that in simp)
  show "task_claimable w' j = task_claimable w j \<and> task_holder w' j = task_holder w j
      \<and> task_tries w' j = task_tries w j"
    if "tasks_settled w" "claim_next_agent_task worker w = (w', Some i)" "j \<noteq> i"
    using that(1)
  proof (cases rule: claim_next_agent_task_cases [where worker = worker])
    case (task t v)
    then show ?thesis using that by (auto simp: task_views find_row_update split: option.splits)
  qed (use that in simp)
  show "w' = w \<and> (\<forall>i. \<not> task_claimable w i)"
    if "tasks_settled w" "claim_next_agent_task worker w = (w', None)"
    using that(1)
    by (cases rule: claim_next_agent_task_cases [where worker = worker]) (use that in auto)
  show "finite {i. task_claimable w i}"
  proof (rule finite_subset)
    show "{i. task_claimable w i} \<subseteq> task_id ` set (db_tasks (w_db w))"
      by (auto simp: task_claimable_def dest: find_row_Some split: option.splits)
  qed simp
  show "tasks_settled ((fst \<circ> requeue_stale_agent_tasks cx st base) w)" if "tasks_settled w"
    using that requeue_tasks_saved [of w cx st base]
    by (simp add: tasks_settled_def requeue_tasks comp_def if_distrib [of task_id] cong: if_cong)
  show "task_holder ((fst \<circ> requeue_stale_agent_tasks cx st base) w) i = None
      \<and> (task_claimable ((fst \<circ> requeue_stale_agent_tasks cx st base) w) i
          \<longleftrightarrow> task_tries w i < set_worker_max_attempts st)
      \<and> task_tries ((fst \<circ> requeue_stale_agent_tasks cx st base) w) i = task_tries w i"
    if "tasks_settled w" "task_stale st w i"
    using that by (auto simp: task_views get_task_requeue requeue_tasks_frame requeued_task_status
        split: option.splits)
  show "task_holder ((fst \<circ> requeue_stale_agent_tasks cx st base) w) i = task_holder w i
      \<and> task_claimable ((fst \<circ> requeue_stale_agent_tasks cx st base) w) i = task_claimable w i
      \<and> task_tries ((fst \<circ> requeue_stale_agent_tasks cx st base) w) i = task_tries w i"
    if "tasks_settled w" "\<not> task_stale st w i"
    using that by (auto simp: task_views get_task_requeue requeue_tasks_frame split: option.splits)
qed

end
