(* ===== verification/Task_State.thy ===== *)
theory Task_State
  imports Task_Leases
begin

text \<open>
  The state of the agent-task service: its invariant, and the life of one task as a state machine.

  The invariant: approvals and rejections fit the status of a task, a task leaves \<open>blocked\<close> only
  when what it depends on is completed, dependencies point to older tasks, and the attempts of a
  task are numbered without gaps, with none but that of a task in process left open. The lemmas
  show that the moves of the state machine keep it, one task at a time or all over the table.
\<close>

section \<open>The invariant\<close>

definition gated :: "task_status \<Rightarrow> bool" where
  "gated s = (s \<in> {T_Blocked, T_Awaiting_Approval, T_Rejected})"

text \<open>Approval and rejection, the lease, and the number of attempts fit the status.\<close>

definition approval_ok :: "agent_task \<Rightarrow> bool" where
  "approval_ok t =
     ((\<not> gated (task_status t) \<and> task_requires_approval t \<longrightarrow> task_approved_at t \<noteq> None)
      \<and> (task_approved_at t \<noteq> None \<longrightarrow> task_requires_approval t)
      \<and> (task_rejected_at t \<noteq> None \<longleftrightarrow> task_status t = T_Rejected)
      \<and> (task_status t \<in> {T_Rejected, T_Awaiting_Approval} \<longrightarrow>
           task_requires_approval t \<and> task_approved_at t = None))"

definition lease_ok :: "agent_task \<Rightarrow> bool" where
  "lease_ok t =
     (if task_status t = T_Processing
      then task_locked_by t \<noteq> None \<and> task_last_heartbeat_at t \<noteq> None
      else task_locked_by t = None \<and> task_last_heartbeat_at t = None)"

definition tries_ok :: "int \<Rightarrow> agent_task \<Rightarrow> bool" where
  "tries_ok limit t =
     (if gated (task_status t) \<or> task_status t = T_Queued then task_attempts t = 0
      else if task_status t = T_Retry_Wait then 1 \<le> task_attempts t \<and> task_attempts t < limit
      else 1 \<le> task_attempts t \<and> task_attempts t \<le> limit)"

definition task_ok :: "int \<Rightarrow> agent_task \<Rightarrow> bool" where
  "task_ok limit t = (approval_ok t \<and> lease_ok t \<and> tries_ok limit t)"

text \<open>What a task depends on is completed, unless the task is blocked or was rejected.\<close>

definition released :: "db \<Rightarrow> agent_task \<Rightarrow> bool" where
  "released d t = (task_status t \<in> {T_Blocked, T_Rejected} \<or> incomplete_dependencies (task_id t) d = [])"

text \<open>A dependency points from a task to one that was created before it.\<close>

definition edge_ok :: "db \<Rightarrow> agent_task_dependency \<Rightarrow> bool" where
  "edge_ok d r =
     (dep_depends_on_task_id r < dep_task_id r
      \<and> dep_task_id r \<in> task_id ` set (db_tasks d)
      \<and> dep_depends_on_task_id r \<in> task_id ` set (db_tasks d))"

definition attempt_key :: "agent_task_attempt \<Rightarrow> uuid \<times> int" where
  "attempt_key a = (attempt_task_id a, attempt_number a)"

definition attempts_of :: "uuid \<Rightarrow> db \<Rightarrow> agent_task_attempt list" where
  "attempts_of i d = filter (\<lambda>a. attempt_task_id a = i) (db_attempts d)"

text \<open>An attempt is open exactly while its task is in process with that attempt.\<close>

definition open_ok :: "db \<Rightarrow> agent_task_attempt \<Rightarrow> bool" where
  "open_ok d a =
     (case get_task (attempt_task_id a) d of
        None \<Rightarrow> False
      | Some t \<Rightarrow> attempt_status a = A_Processing
                   \<longleftrightarrow> task_status t = T_Processing \<and> attempt_number a = task_attempts t)"

definition log_ok :: "db \<Rightarrow> bool" where
  "log_ok d =
     (distinct (map attempt_id (db_attempts d)) \<and> distinct (map attempt_key (db_attempts d))
      \<and> (\<forall>t \<in> set (db_tasks d). map attempt_number (attempts_of (task_id t) d) = [1..task_attempts t])
      \<and> (\<forall>a \<in> set (db_attempts d). open_ok d a))"

definition tasks_ok :: "int \<Rightarrow> db \<Rightarrow> bool" where
  "tasks_ok limit d =
     (distinct (map task_id (db_tasks d))
      \<and> (\<forall>t \<in> set (db_tasks d). task_ok limit t \<and> released d t)
      \<and> (\<forall>r \<in> set (db_dependencies d). edge_ok d r) \<and> log_ok d)"

definition task_ids_used :: "world \<Rightarrow> bool" where
  "task_ids_used w =
     ((\<forall>t \<in> set (db_tasks (w_db w)). task_id t < w_fresh w)
      \<and> (\<forall>a \<in> set (db_attempts (w_db w)). attempt_id a < w_fresh w))"

definition task_service_ok :: "int \<Rightarrow> world \<Rightarrow> bool" where
  "task_service_ok limit w = (w_saved w = w_db w \<and> task_ids_used w \<and> tasks_ok limit (w_db w))"

section \<open>Changes that map over tasks and attempts\<close>

text \<open>
  Most steps change the tasks by a function and the attempts by another. \<open>task_move\<close> says what the
  change of a task may be for the invariant to survive.
\<close>

definition task_move :: "int \<Rightarrow> db \<Rightarrow> agent_task \<Rightarrow> agent_task \<Rightarrow> bool" where
  "task_move limit d t t' =
     (task_id t' = task_id t \<and> task_attempts t' = task_attempts t \<and> task_ok limit t'
      \<and> (task_status t = T_Completed \<longrightarrow> task_status t' = T_Completed)
      \<and> (task_status t' = T_Processing \<longrightarrow> task_status t = T_Processing)
      \<and> (released d t \<longrightarrow>
           task_status t' \<in> {T_Blocked, T_Rejected} \<or> incomplete_dependencies (task_id t) d = []))"

definition attempt_move :: "agent_task \<Rightarrow> agent_task_attempt \<Rightarrow> agent_task_attempt \<Rightarrow> bool" where
  "attempt_move t' a a' =
     (attempt_id a' = attempt_id a \<and> attempt_task_id a' = attempt_task_id a
      \<and> attempt_number a' = attempt_number a
      \<and> (attempt_status a' = A_Processing \<longleftrightarrow>
           attempt_status a = A_Processing \<and> task_status t' = T_Processing))"

text \<open>
  The life of one task as a state machine: the moves an operation of the service may make with the
  row of a task. The steps of the whole service below refine it.
\<close>

inductive row_change :: "settings \<Rightarrow> db \<Rightarrow> agent_task \<Rightarrow> agent_task \<Rightarrow> bool" for st d where
  same: "row_change st d t t"
| approved: "approval_refusal t = None \<Longrightarrow>
    row_change st d t (approved_task who note now (task_has_incomplete_dependencies (task_id t) d) t)"
| rejected: "rejection_refusal t = None \<Longrightarrow> row_change st d t (rejected_task who note now t)"
| unblocked: "task_status t = T_Blocked \<Longrightarrow> incomplete_dependencies (task_id t) d = [] \<Longrightarrow>
    row_change st d t (unblocked_task now t)"
| claimed: "task_eligible now t \<Longrightarrow> row_change st d t (claimed_task now worker t)"
| renewed: "task_status t = T_Processing \<Longrightarrow>
    row_change st d t (t\<lparr>task_last_heartbeat_at := Some now, task_updated_at := now\<rparr>)"
| requeued: "task_status t = T_Processing \<Longrightarrow> row_change st d t (requeued_task_row st base now t)"
| checkpointed: "task_status t = T_Processing \<Longrightarrow>
    \<not> result_has_applied_promotable_side_effect (task_result t) \<Longrightarrow>
    row_change st d t (checkpointed_task now result t)"
| completed: "task_status t = T_Processing \<Longrightarrow>
    (\<And>c. checkpoint_of (task_result t) = Some c \<Longrightarrow>
       \<not> technical_report_verification_passed (strip_promotable_side_effect_marker c) \<Longrightarrow>
       result = strip_promotable_side_effect_marker c) \<Longrightarrow>
    row_change st d t (completed_task now result t)"
| failed: "task_status t = T_Processing \<Longrightarrow>
    row_change st d t ((failed_task st now e stage t)\<lparr>task_failure_artifact_path := p\<rparr>)"

lemmas ok_defs = task_ok_def approval_ok_def lease_ok_def tries_ok_def gated_def released_def

lemmas change_defs = approval_refusal_def approved_task_def rejection_refusal_def rejected_task_def
  unblocked_task_def claimed_task_def requeued_task_row_def requeued_task_def release_task_def
  checkpointed_task_def completed_task_def failed_task_def task_eligible_def Let_def
  task_has_incomplete_dependencies_def

text \<open>Every move of the state machine keeps the columns of a task in order.\<close>

lemma row_change_ok:
  assumes "row_change st d t t'" and "task_ok (set_worker_max_attempts st) t"
    and "1 \<le> set_worker_max_attempts st"
  shows "task_ok (set_worker_max_attempts st) t'"
  using assms
  by (cases rule: row_change.cases)
    (auto simp: ok_defs change_defs split: if_splits)

lemma row_change_frame:
  assumes "row_change st d t t'"
  shows "task_id t' = task_id t" "task_status t = T_Completed \<Longrightarrow> t' = t"
    "task_status t' = T_Processing \<Longrightarrow> task_attempts t' = task_attempts t \<Longrightarrow> task_status t = T_Processing"
  using assms by (cases rule: row_change.cases; auto simp: change_defs split: if_splits)+

lemma row_change_released:
  assumes "row_change st d t t'" and "released d t"
  shows "task_status t' \<in> {T_Blocked, T_Rejected} \<or> incomplete_dependencies (task_id t) d = []"
  using assms(2) unfolding released_def
proof
  assume "task_status t \<in> {T_Blocked, T_Rejected}"
  with assms(1) show ?thesis
    by (cases rule: row_change.cases) (auto simp: change_defs split: if_splits)
qed simp

lemma row_change_move:
  assumes "row_change st d t t'" and "task_ok (set_worker_max_attempts st) t"
    and "1 \<le> set_worker_max_attempts st" and "task_attempts t' = task_attempts t"
  shows "task_move (set_worker_max_attempts st) d t t'"
  unfolding task_move_def
proof (intro conjI)
  show "task_ok (set_worker_max_attempts st) t'" by (rule row_change_ok [OF assms(1-3)])
  show "task_attempts t' = task_attempts t" by (rule assms(4))
qed (use row_change_frame [OF assms(1)] row_change_released [OF assms(1)] assms(4) in auto)

lemma incomplete_antimono:
  assumes "db_dependencies d' = db_dependencies d" and "distinct (map task_id (db_tasks d))"
    and "\<And>t'. t' \<in> set (db_tasks d') \<Longrightarrow> \<exists>t \<in> set (db_tasks d). task_id t = task_id t'
        \<and> (task_status t = T_Completed \<longrightarrow> task_status t' = T_Completed)"
    and "incomplete_dependencies i d = []"
  shows "incomplete_dependencies i d' = []"
  using assms unfolding incomplete_dependencies_def
  by (fastforce simp: filter_empty_conv list_ex_iff)

definition moved :: "settings \<Rightarrow> db \<Rightarrow> db \<Rightarrow> bool" where
  "moved st d d' =
     (\<exists>f g. db_tasks d' = map f (db_tasks d) \<and> db_attempts d' = map g (db_attempts d)
        \<and> db_dependencies d' = db_dependencies d
        \<and> (\<forall>t \<in> set (db_tasks d). row_change st d t (f t) \<and> task_attempts (f t) = task_attempts t)
        \<and> (\<forall>a \<in> set (db_attempts d). \<forall>t \<in> set (db_tasks d).
             attempt_task_id a = task_id t \<longrightarrow> attempt_move (f t) a (g a)))"

lemma find_row_map_on:
  "(\<And>r. r \<in> set rows \<Longrightarrow> key (f r) = key r) \<Longrightarrow>
   find_row key i (map f rows) = map_option f (find_row key i rows)"
  by (induction rows) auto

lemma moved_log:
  assumes ok: "tasks_ok limit d" and f: "db_tasks d' = map f (db_tasks d)"
    and g: "db_attempts d' = map g (db_attempts d)"
    and ft: "\<And>t. t \<in> set (db_tasks d) \<Longrightarrow> task_move limit d t (f t)"
    and ga: "\<And>a t. a \<in> set (db_attempts d) \<Longrightarrow> t \<in> set (db_tasks d) \<Longrightarrow>
      attempt_task_id a = task_id t \<Longrightarrow> attempt_move (f t) a (g a)"
  shows "log_ok d'"
proof -
  have dist: "distinct (map task_id (db_tasks d))" and log: "log_ok d"
    using ok by (auto simp: tasks_ok_def)
  have task: "\<exists>t. t \<in> set (db_tasks d) \<and> attempt_task_id a = task_id t \<and> attempt_move (f t) a (g a)
      \<and> get_task (attempt_task_id a) d = Some t" if "a \<in> set (db_attempts d)" for a
  proof -
    have "open_ok d a" using log that by (simp add: log_ok_def)
    then obtain t where "get_task (attempt_task_id a) d = Some t"
      by (auto simp: open_ok_def split: option.splits)
    with ga [OF that] show ?thesis by (metis find_row_Some)
  qed
  have same: "attempt_id (g a) = attempt_id a" "attempt_task_id (g a) = attempt_task_id a"
    "attempt_number (g a) = attempt_number a" if "a \<in> set (db_attempts d)" for a
    using task [OF that] by (auto simp: attempt_move_def)
  have ids: "map attempt_id (db_attempts d') = map attempt_id (db_attempts d)"
    "map attempt_key (db_attempts d') = map attempt_key (db_attempts d)"
    unfolding g by (simp_all add: same attempt_key_def)
  have of: "attempts_of i d' = map g (attempts_of i d)" for i
    unfolding attempts_of_def g filter_map comp_def
    by (intro arg_cong [where f = "map g"] filter_cong) (simp_all add: same)
  have numbers: "map attempt_number (attempts_of i d') = map attempt_number (attempts_of i d)" for i
    unfolding of by (auto simp: attempts_of_def same)
  have "get_task i d' = map_option f (get_task i d)" for i
    unfolding f by (rule find_row_map_on) (use ft in \<open>simp add: task_move_def\<close>)
  note get = this
  have "open_ok d' (g a)" if a: "a \<in> set (db_attempts d)" for a
  proof -
    obtain t where t: "t \<in> set (db_tasks d)" "attempt_move (f t) a (g a)"
        "get_task (attempt_task_id a) d = Some t"
      using task [OF a] by blast
    have "open_ok d a" using log a by (simp add: log_ok_def)
    then have "attempt_status a = A_Processing \<longleftrightarrow>
        task_status t = T_Processing \<and> attempt_number a = task_attempts t"
      using t(3) by (simp add: open_ok_def)
    moreover have "get_task (attempt_task_id (g a)) d' = Some (f t)" using get t(3) same [OF a] by simp
    ultimately show ?thesis
      using t(2) ft [OF t(1)] by (auto simp: open_ok_def attempt_move_def task_move_def)
  qed
  moreover have "map attempt_number (attempts_of (task_id (f t)) d') = [1..task_attempts (f t)]"
    if "t \<in> set (db_tasks d)" for t
    using log ft [OF that] that by (simp add: numbers log_ok_def task_move_def)
  moreover have "distinct (map attempt_id (db_attempts d'))" "distinct (map attempt_key (db_attempts d'))"
    unfolding ids using log by (simp_all add: log_ok_def)
  ultimately show ?thesis
    unfolding log_ok_def by (intro conjI) (simp_all add: f g)
qed

lemma moved_ok:
  assumes "moved st d d'" and ok: "tasks_ok (set_worker_max_attempts st) d"
    and limit: "1 \<le> set_worker_max_attempts st"
  shows "tasks_ok (set_worker_max_attempts st) d'"
proof -
  let ?limit = "set_worker_max_attempts st"
  from assms(1) obtain f g where f: "db_tasks d' = map f (db_tasks d)"
    and g: "db_attempts d' = map g (db_attempts d)" and deps: "db_dependencies d' = db_dependencies d"
    and rc: "\<And>t. t \<in> set (db_tasks d) \<Longrightarrow>
      row_change st d t (f t) \<and> task_attempts (f t) = task_attempts t"
    and ga: "\<And>a t. a \<in> set (db_attempts d) \<Longrightarrow> t \<in> set (db_tasks d) \<Longrightarrow>
      attempt_task_id a = task_id t \<Longrightarrow> attempt_move (f t) a (g a)"
    unfolding moved_def by blast
  have ft: "task_move ?limit d t (f t)" if "t \<in> set (db_tasks d)" for t
    using rc [OF that] row_change_move [OF _ _ limit] ok that by (simp add: tasks_ok_def)
  have dist: "distinct (map task_id (db_tasks d))" using ok by (simp add: tasks_ok_def)
  have ids: "map task_id (db_tasks d') = map task_id (db_tasks d)"
    using ft unfolding f by (simp add: task_move_def)
  have rel: "released d' (f t)" if "t \<in> set (db_tasks d)" for t
  proof -
    have "incomplete_dependencies i d = [] \<Longrightarrow> incomplete_dependencies i d' = []" for i
      by (rule incomplete_antimono [OF deps dist]) (use ft in \<open>auto simp: f task_move_def\<close>)
    moreover have "released d t" using ok that by (simp add: tasks_ok_def)
    moreover have "task_id (f t) = task_id t" using ft [OF that] by (simp add: task_move_def)
    ultimately show ?thesis
      using ft [OF that] unfolding task_move_def released_def [of d' "f t"] by metis
  qed
  have "task_id ` set (db_tasks d') = task_id ` set (db_tasks d)"
    using arg_cong [OF ids, of set] by simp
  then have "edge_ok d' r" if "r \<in> set (db_dependencies d)" for r
    using ok that by (simp add: edge_ok_def tasks_ok_def)
  moreover have "log_ok d'" by (rule moved_log [OF ok f g ft ga])
  moreover have "task_ok ?limit (f t)" if "t \<in> set (db_tasks d)" for t
    using ft [OF that] by (simp add: task_move_def)
  moreover have "distinct (map task_id (db_tasks d'))" unfolding ids by (rule dist)
  ultimately show ?thesis
    unfolding tasks_ok_def using rel by (intro conjI) (simp_all add: f deps)
qed

text \<open>The three ways the steps give such a change: one task, settled tasks, or neither.\<close>

lemma moved_refl:
  assumes "tasks_ok limit d" and "db_tasks d' = db_tasks d" "db_attempts d' = db_attempts d"
    "db_dependencies d' = db_dependencies d"
  shows "moved st d d'"
  unfolding moved_def
proof (intro exI conjI ballI impI)
  show "db_tasks d' = map id (db_tasks d)" "db_attempts d' = map id (db_attempts d)" using assms by simp_all
  show "attempt_move (id t) a (id a)"
    if "a \<in> set (db_attempts d)" "t \<in> set (db_tasks d)" "attempt_task_id a = task_id t" for a t
  proof -
    have "open_ok d a" "get_task (task_id t) d = Some t"
      using assms(1) that by (auto simp: tasks_ok_def log_ok_def find_row_unique)
    then show ?thesis using that(3) by (auto simp: open_ok_def attempt_move_def)
  qed
qed (auto intro: row_change.same simp: assms)

lemma moved_tasks:
  assumes ok: "tasks_ok limit d" and "db_tasks d' = map f (db_tasks d)"
    and "db_attempts d' = db_attempts d" and "db_dependencies d' = db_dependencies d"
    and "\<And>t. t \<in> set (db_tasks d) \<Longrightarrow> row_change st d t (f t) \<and> task_attempts (f t) = task_attempts t
       \<and> (task_status t = T_Processing \<longrightarrow> task_status (f t) = T_Processing)"
  shows "moved st d d'"
  unfolding moved_def
proof (intro exI conjI ballI impI)
  show "db_tasks d' = map f (db_tasks d)" "db_attempts d' = map id (db_attempts d)" using assms by simp_all
  show "attempt_move (f t) a (id a)"
    if "a \<in> set (db_attempts d)" "t \<in> set (db_tasks d)" "attempt_task_id a = task_id t" for a t
  proof -
    have "open_ok d a" "get_task (task_id t) d = Some t"
      using ok that by (auto simp: tasks_ok_def log_ok_def find_row_unique)
    then show ?thesis using that(3) assms(5) [OF that(2)] by (auto simp: open_ok_def attempt_move_def)
  qed
qed (use assms(4,5) in auto)

lemma moved_settled:
  assumes ok: "tasks_ok limit d" and f: "db_tasks d' = map (\<lambda>t. if P t then h t else t) (db_tasks d)"
    and g: "db_attempts d' = map (\<lambda>a. if \<exists>t \<in> set (db_tasks d). P t \<and> is_current_attempt t a
              then k a else a) (db_attempts d)"
    and deps: "db_dependencies d' = db_dependencies d"
    and h: "\<And>t. t \<in> set (db_tasks d) \<Longrightarrow> P t \<Longrightarrow> task_status t = T_Processing \<and> row_change st d t (h t)
        \<and> task_attempts (h t) = task_attempts t \<and> task_status (h t) \<noteq> T_Processing"
    and k: "\<And>a. attempt_id (k a) = attempt_id a \<and> attempt_task_id (k a) = attempt_task_id a
        \<and> attempt_number (k a) = attempt_number a \<and> attempt_status (k a) \<noteq> A_Processing"
  shows "moved st d d'"
  unfolding moved_def
proof (intro exI conjI ballI impI)
  show "db_tasks d' = map (\<lambda>t. if P t then h t else t) (db_tasks d)" by (rule f)
  show "db_attempts d' = map (\<lambda>a. if \<exists>t \<in> set (db_tasks d). P t \<and> is_current_attempt t a
              then k a else a) (db_attempts d)" by (rule g)
  show "attempt_move (if P t then h t else t) a
      (if \<exists>t \<in> set (db_tasks d). P t \<and> is_current_attempt t a then k a else a)"
    if "a \<in> set (db_attempts d)" "t \<in> set (db_tasks d)" "attempt_task_id a = task_id t" for a t
  proof -
    have "open_ok d a" "get_task (task_id t) d = Some t"
      using ok that by (auto simp: tasks_ok_def log_ok_def find_row_unique)
    then have st: "attempt_status a = A_Processing \<longleftrightarrow>
        task_status t = T_Processing \<and> attempt_number a = task_attempts t"
      using that(3) by (simp add: open_ok_def)
    have only: "u = t" if "u \<in> set (db_tasks d)" "is_current_attempt u a" for u
      using ok that \<open>attempt_task_id a = task_id t\<close> \<open>t \<in> set (db_tasks d)\<close>
      by (auto simp: tasks_ok_def is_current_attempt_def distinct_map dest: inj_onD)
    have "(\<exists>u \<in> set (db_tasks d). P u \<and> is_current_attempt u a) \<longleftrightarrow> P t \<and> is_current_attempt t a"
      using only that(2) by blast
    then show ?thesis
      using st h [OF that(2)] k [of a] that(3) by (auto simp: attempt_move_def is_current_attempt_def)
  qed
qed (use deps h in \<open>auto intro: row_change.same\<close>)

lemma on_current_attempt_map:
  assumes "distinct (map attempt_id (db_attempts d))" and "distinct (map attempt_key (db_attempts d))"
  shows "db_attempts (on_current_attempt t k d) =
    map (\<lambda>a. if is_current_attempt t a then k a else a) (db_attempts d)"
proof (cases "current_attempt t d")
  case None
  then have "\<forall>a \<in> set (db_attempts d). \<not> is_current_attempt t a"
    by (simp add: current_attempt_def find_None_iff)
  then show ?thesis using None by (simp add: on_current_attempt_def map_idI)
next
  case (Some c)
  then have c: "c \<in> set (db_attempts d)" "is_current_attempt t c"
    by (auto simp: current_attempt_def find_Some_iff)
  have "attempt_id b = attempt_id c \<longleftrightarrow> is_current_attempt t b" if "b \<in> set (db_attempts d)" for b
  proof
    assume "attempt_id b = attempt_id c"
    then show "is_current_attempt t b"
      using assms(1) that c by (metis distinct_map inj_onD)
  next
    assume "is_current_attempt t b"
    then have "attempt_key b = attempt_key c" using c(2) by (simp add: attempt_key_def is_current_attempt_def)
    then show "attempt_id b = attempt_id c" using assms(2) that c(1) by (metis distinct_map inj_onD)
  qed
  then show ?thesis using Some by (simp add: on_current_attempt_def update_row_def)
qed

end
