(* ===== verification/Task_System.thy ===== *)
theory Task_System
  imports Task_State
begin

text \<open>
  The agent-task service as a whole: a step relation over creation, approval, rejection, outcome
  labels, the release of blocked tasks, claims, recovery, heartbeats, checkpoints and the final
  writes of workers, in any order and by any number of workers. As for runs, a worker does not look
  at its lease again before it writes; the steps here are those of workers that still hold it.
\<close>

section \<open>The steps\<close>

text \<open>
  What a hook of the final writes may do: change other tables and files, and take identifiers. The
  code calls them with \<open>commit=False\<close>.
\<close>

definition task_tables ::
  "db \<Rightarrow> agent_task list \<times> agent_task_dependency list \<times> agent_task_attempt list" where
  "task_tables d = (db_tasks d, db_dependencies d, db_attempts d)"

definition quiet_change :: "world \<Rightarrow> world \<Rightarrow> bool" where
  "quiet_change w w' =
     (task_tables (w_db w') = task_tables (w_db w) \<and> w_saved w' = w_saved w
      \<and> w_clock w' = w_clock w \<and> w_fresh w \<le> w_fresh w')"

definition quiet_hooks :: "task_hooks \<Rightarrow> bool" where
  "quiet_hooks hk =
     ((\<forall>i r w. quiet_change w (fst (th_report hk i r w)))
      \<and> (\<forall>i w. quiet_change w (fst (th_refresh_impacts hk i w))))"

lemma quiet_report: "quiet_hooks hk \<Longrightarrow> th_report hk i r w = (w', x) \<Longrightarrow> quiet_change w w'"
  unfolding quiet_hooks_def by (metis fst_conv)

lemma quiet_impacts: "quiet_hooks hk \<Longrightarrow> th_refresh_impacts hk i w = (w', x) \<Longrightarrow> quiet_change w w'"
  unfolding quiet_hooks_def by (metis fst_conv)

lemma quiet_refl: "quiet_change w w"
  by (simp add: quiet_change_def)

text \<open>An exception that leaves the session is followed by its rollback.\<close>

definition settle :: "world \<times> exn option \<Rightarrow> world" where
  "settle r = (case r of (w, None) \<Rightarrow> w | (w, Some _) \<Rightarrow> rollback w)"

text \<open>\<open>worker\<close> holds the lease of task \<open>i\<close>, whose row is \<open>t\<close>.\<close>

definition working :: "string \<Rightarrow> uuid \<Rightarrow> agent_task \<Rightarrow> world \<Rightarrow> bool" where
  "working worker i t w = (get_task i (w_db w) = Some t \<and> holds_task_lease worker t)"

text \<open>
  \<open>elsewhere\<close> is everything that leaves the task tables alone: time, other services, and what the
  executor of a task commits. The result a worker checkpoints or finishes with is arbitrary; as
  \<open>process_agent_task\<close> does, it takes that of the checkpoint when there is one.
\<close>

inductive task_step :: "codecs \<Rightarrow> settings \<Rightarrow> task_hooks \<Rightarrow> path option \<Rightarrow> world \<Rightarrow> world \<Rightarrow> bool"
  for cx st hk base where
  elsewhere: "task_tables (w_db w') = task_tables (w_db w) \<Longrightarrow> w_saved w' = w_db w' \<Longrightarrow>
    w_fresh w \<le> w_fresh w' \<Longrightarrow> task_step cx st hk base w w'"
| create: "task_step cx st hk base w (fst (create_agent_task registry True req w))"
| approve: "task_step cx st hk base w (fst (approve_agent_task (get_task i (w_db w)) i approver note w))"
| reject: "task_step cx st hk base w (fst (reject_agent_task (get_task i (w_db w)) i rejecter note w))"
| outcome: "task_step cx st hk base w (fst (create_agent_task_outcome i label actor note w))"
| unblock: "task_step cx st hk base w (fst (unblock_ready_agent_tasks w))"
| requeue: "task_step cx st hk base w (fst (requeue_stale_agent_tasks cx st base w))"
| claim: "task_step cx st hk base w (fst (claim_next_agent_task worker w))"
| refresh: "task_step cx st hk base w (fst (refresh_agent_task_lease i worker w))"
| heartbeat: "working worker i t w \<Longrightarrow> task_step cx st hk base w (heartbeat_agent_task i w)"
| checkpoint: "working worker i t w \<Longrightarrow>
    \<not> result_has_applied_promotable_side_effect (task_result t) \<Longrightarrow>
    task_step cx st hk base w (checkpoint_promotable_task_result i result w)"
| succeeded: "working worker i t w \<Longrightarrow>
    (result_has_applied_promotable_side_effect (task_result t) \<Longrightarrow>
       result = strip_promotable_side_effect_marker (task_result t)) \<Longrightarrow>
    task_step cx st hk base w (settle (finalize_agent_task_success hk base i result w))"
| failed: "working worker i t w \<Longrightarrow>
    task_step cx st hk base w (settle (finalize_agent_task_failure cx st hk base i e stage w))"

section \<open>What the operations do to the tables\<close>

text \<open>\<open>effect\<close>: committed, identifiers fresh, and the rows moved by the state machine.\<close>

definition effect :: "settings \<Rightarrow> world \<Rightarrow> world \<Rightarrow> bool" where
  "effect st w w' = (w_saved w' = w_db w' \<and> w_fresh w \<le> w_fresh w' \<and> moved st (w_db w) (w_db w'))"

lemma effect_ok:
  assumes "effect st w w'" and "task_service_ok (set_worker_max_attempts st) w"
    and "1 \<le> set_worker_max_attempts st"
  shows "task_service_ok (set_worker_max_attempts st) w'"
proof -
  let ?d = "w_db w" and ?d' = "w_db w'"
  have ok: "tasks_ok (set_worker_max_attempts st) ?d" using assms(2) by (simp add: task_service_ok_def)
  from assms(1) obtain f g where f: "db_tasks ?d' = map f (db_tasks ?d)"
    and g: "db_attempts ?d' = map g (db_attempts ?d)"
    and rc: "\<And>t. t \<in> set (db_tasks ?d) \<Longrightarrow> row_change st ?d t (f t)"
    and ga: "\<And>a t. a \<in> set (db_attempts ?d) \<Longrightarrow> t \<in> set (db_tasks ?d) \<Longrightarrow>
      attempt_task_id a = task_id t \<Longrightarrow> attempt_move (f t) a (g a)"
    unfolding effect_def moved_def by blast
  have "attempt_id (g a) = attempt_id a" if a: "a \<in> set (db_attempts ?d)" for a
  proof -
    have "open_ok ?d a" using ok a by (simp add: tasks_ok_def log_ok_def)
    then obtain t where "get_task (attempt_task_id a) ?d = Some t"
      by (auto simp: open_ok_def split: option.splits)
    then have "t \<in> set (db_tasks ?d)" "attempt_task_id a = task_id t" using find_row_Some by fastforce+
    from ga [OF a this] show ?thesis by (simp add: attempt_move_def)
  qed
  moreover have "task_id (f t) = task_id t" if "t \<in> set (db_tasks ?d)" for t
    using row_change_frame(1) [OF rc [OF that]] .
  ultimately have "task_ids_used w'"
    using assms(1,2) by (fastforce simp: task_ids_used_def task_service_ok_def effect_def f g)
  moreover have "tasks_ok (set_worker_max_attempts st) ?d'"
    using moved_ok [OF _ ok assms(3)] assms(1) by (simp add: effect_def)
  ultimately show ?thesis using assms(1) by (simp add: task_service_ok_def effect_def)
qed

lemma effect_tables:
  assumes "task_service_ok limit w" and "task_tables (w_db w') = task_tables (w_db w)"
    and "w_saved w' = w_db w'" and "w_fresh w \<le> w_fresh w'"
  shows "effect st w w'"
  using assms moved_refl [of limit "w_db w" "w_db w'" st]
  by (simp add: effect_def task_tables_def task_service_ok_def)

text \<open>One row changed, with the attempts left alone.\<close>

lemma effect_row:
  assumes ok: "task_service_ok limit w" and "get_task i (w_db w) = Some t"
    and "db_tasks (w_db w') = update_row task_id i h (db_tasks (w_db w))"
    and "db_attempts (w_db w') = db_attempts (w_db w)"
    and "db_dependencies (w_db w') = db_dependencies (w_db w)"
    and "w_saved w' = w_db w'" and "w_fresh w \<le> w_fresh w'"
    and "row_change st (w_db w) t (h t)" and "task_attempts (h t) = task_attempts t"
    and "task_status t = T_Processing \<longrightarrow> task_status (h t) = T_Processing"
  shows "effect st w w'"
proof -
  have "u = t" if "u \<in> set (db_tasks (w_db w))" "task_id u = i" for u
    using ok assms(2) find_row_unique [of task_id "db_tasks (w_db w)" u] that
    by (simp add: task_service_ok_def tasks_ok_def)
  then have "moved st (w_db w) (w_db w')"
    using assms by (intro moved_tasks [of limit, where f = "\<lambda>u. if task_id u = i then h u else u"])
      (auto simp: task_service_ok_def update_row_def intro: row_change.same)
  then show ?thesis using assms(6,7) by (simp add: effect_def)
qed

lemma service_task_ok: "task_service_ok limit w \<Longrightarrow> get_task i (w_db w) = Some t \<Longrightarrow> task_ok limit t"
  by (auto simp: task_service_ok_def tasks_ok_def dest: find_row_Some)

lemma approve_effect:
  assumes "task_service_ok limit w"
  shows "effect st w (fst (approve_agent_task (get_task i (w_db w)) i approver note w))"
proof (cases "get_task i (w_db w)")
  case None
  then show ?thesis
    using assms by (auto simp: approve_agent_task_def task_service_ok_def intro!: effect_tables)
next
  case (Some t)
  then have t: "task_id t = i" by (metis find_row_Some)
  show ?thesis
  proof (cases "approval_refusal t")
    case None
    have *: "row_change st (w_db w) t
        (approved_task approver note (w_clock w) (task_has_incomplete_dependencies i (w_db w)) t)"
      using row_change.approved [OF None, of st "w_db w"] t by simp
    have "task_status t \<noteq> T_Processing"
      using service_task_ok [OF assms Some] None by (auto simp: ok_defs approval_refusal_def)
    then show ?thesis
      by (intro effect_row [OF assms Some, where h = "write_changes t (approved_task approver note (w_clock w)
          (task_has_incomplete_dependencies i (w_db w)) t)"])
        (use Some None * in \<open>simp_all add: approve_agent_task_def write_changes_unchanged\<close>,
         simp_all add: approved_task_def write_changes_def)
  qed (use assms Some in \<open>auto simp: approve_agent_task_def task_service_ok_def intro!: effect_tables\<close>)
qed

lemma reject_effect:
  assumes "task_service_ok limit w"
  shows "effect st w (fst (reject_agent_task (get_task i (w_db w)) i rejecter note w))"
proof (cases "get_task i (w_db w)")
  case None
  then show ?thesis
    using assms by (auto simp: reject_agent_task_def task_service_ok_def intro!: effect_tables)
next
  case (Some t)
  show ?thesis
  proof (cases "rejection_refusal t")
    case None
    then have "task_status t \<noteq> T_Processing" by (auto simp: rejection_refusal_def split: if_splits)
    then show ?thesis
      by (intro effect_row [OF assms Some, where h = "write_changes t (rejected_task rejecter note (w_clock w) t)"])
        (use Some None in \<open>simp_all add: reject_agent_task_def write_changes_unchanged row_change.rejected\<close>,
         simp_all add: rejected_task_def write_changes_def)
  qed (use assms Some in \<open>auto simp: reject_agent_task_def task_service_ok_def intro!: effect_tables\<close>)
qed

lemma outcome_effect:
  "task_service_ok limit w \<Longrightarrow> effect st w (fst (create_agent_task_outcome i label actor note w))"
  by (rule effect_tables)
    (auto simp: create_agent_task_outcome_def task_tables_def task_service_ok_def take_id_def Let_def
      split: option.split)

lemma refresh_effect:
  assumes "task_service_ok limit w"
  shows "effect st w (fst (refresh_agent_task_lease i worker w))"
proof -
  let ?f = "\<lambda>t. if task_id t = i \<and> holds_task_lease worker t
    then t\<lparr>task_last_heartbeat_at := Some (w_clock w), task_updated_at := w_clock w\<rparr> else t"
  have "moved st (w_db w) (w_db (fst (refresh_agent_task_lease i worker w)))"
    using assms by (intro moved_tasks [of limit _ _ ?f])
      (auto simp: refresh_agent_task_lease_def task_service_ok_def holds_task_lease_def Let_def
        intro: row_change.same row_change.renewed)
  then show ?thesis
    using assms by (simp add: effect_def refresh_agent_task_lease_def task_service_ok_def Let_def)
qed

lemma heartbeat_effect:
  assumes "task_service_ok limit w" and "working worker i t w"
  shows "effect st w (heartbeat_agent_task i w)"
proof -
  have t: "get_task i (w_db w) = Some t" "task_status t = T_Processing"
    using assms(2) by (auto simp: working_def holds_task_lease_def)
  show ?thesis
    by (intro effect_row [OF assms(1) t(1), where h = "\<lambda>t. t\<lparr>task_last_heartbeat_at := Some (w_clock w),
          task_updated_at := w_clock w\<rparr>"] row_change.renewed t(2))
      (simp_all add: heartbeat_agent_task_def)
qed

lemma checkpoint_effect:
  assumes "task_service_ok limit w" and "working worker i t w"
    and "\<not> result_has_applied_promotable_side_effect (task_result t)"
  shows "effect st w (checkpoint_promotable_task_result i result w)"
proof -
  have t: "get_task i (w_db w) = Some t" "task_status t = T_Processing"
    using assms(2) by (auto simp: working_def holds_task_lease_def)
  show ?thesis
    by (intro effect_row [OF assms(1) t(1), where h = "checkpointed_task (w_clock w) result"]
        row_change.checkpointed t(2) assms(3))
      (simp_all add: checkpoint_promotable_task_result_def checkpointed_task_def)
qed

text \<open>The final writes: the attempt of the task is settled together with the task.\<close>

lemma effect_settled:
  assumes ok: "task_service_ok limit w" and t: "get_task i (w_db w) = Some t"
    and "task_status t = T_Processing" and "is_current_attempt t' = is_current_attempt t"
    and "db_tasks (w_db w') = update_row task_id i h (db_tasks (w_db w))"
    and "db_attempts (w_db w') = db_attempts (on_current_attempt t' k d)"
    and "db_attempts d = db_attempts (w_db w)"
    and "db_dependencies (w_db w') = db_dependencies (w_db w)"
    and "w_saved w' = w_db w'" and "w_fresh w \<le> w_fresh w'"
    and "row_change st (w_db w) t (h t)" and "task_attempts (h t) = task_attempts t"
    and "task_status (h t) \<noteq> T_Processing"
    and k: "\<And>a. attempt_id (k a) = attempt_id a \<and> attempt_task_id (k a) = attempt_task_id a
        \<and> attempt_number (k a) = attempt_number a \<and> attempt_status (k a) \<noteq> A_Processing"
  shows "effect st w w'"
proof -
  have only: "u = t" if "u \<in> set (db_tasks (w_db w))" "task_id u = i" for u
    using ok t find_row_unique [of task_id "db_tasks (w_db w)" u] that
    by (simp add: task_service_ok_def tasks_ok_def)
  have mem: "t \<in> set (db_tasks (w_db w))" "task_id t = i" using t find_row_Some by fastforce+
  then have cur: "(\<exists>u \<in> set (db_tasks (w_db w)). task_id u = i \<and> is_current_attempt u a)
      \<longleftrightarrow> is_current_attempt t a" for a
    using only by blast
  have "moved st (w_db w) (w_db w')"
  proof (rule moved_settled [of limit _ _ "\<lambda>u. task_id u = i" h k])
    show "tasks_ok limit (w_db w)" using ok by (simp add: task_service_ok_def)
    then have "db_attempts (on_current_attempt t' k d) =
        map (\<lambda>a. if is_current_attempt t a then k a else a) (db_attempts (w_db w))"
      using assms(4,7) on_current_attempt_map [of d t' k] by (simp add: tasks_ok_def log_ok_def)
    then show "db_attempts (w_db w') = map (\<lambda>a. if \<exists>u\<in>set (db_tasks (w_db w)). task_id u = i \<and>
        is_current_attempt u a then k a else a) (db_attempts (w_db w))"
      using assms(6) by (simp only: cur)
  qed (use assms only in \<open>auto simp: update_row_def\<close>)
  then show ?thesis using assms(9,10) by (simp add: effect_def)
qed

lemma effect_rollback:
  assumes "task_service_ok limit w" and "w_saved w' = w_saved w" and "w_fresh w \<le> w_fresh w'"
  shows "effect st w (rollback w')"
  using assms by (intro effect_tables) (auto simp: task_service_ok_def)

lemma is_current_completed [simp]:
  "is_current_attempt (completed_task now r t) = is_current_attempt t"
  by (simp add: is_current_attempt_def fun_eq_iff)

lemma completed_attempt_frame:
  "attempt_id (completed_attempt hk now t r a) = attempt_id a"
  "attempt_task_id (completed_attempt hk now t r a) = attempt_task_id a"
  "attempt_number (completed_attempt hk now t r a) = attempt_number a"
  "attempt_status (completed_attempt hk now t r a) = A_Completed"
  by (simp_all add: completed_attempt_def)

lemma failed_attempt_frame:
  "attempt_id (failed_attempt hk now e stage t a) = attempt_id a"
  "attempt_task_id (failed_attempt hk now e stage t a) = attempt_task_id a"
  "attempt_number (failed_attempt hk now e stage t a) = attempt_number a"
  "attempt_status (failed_attempt hk now e stage t a) = A_Failed"
  by (simp_all add: failed_attempt_def Let_def)

lemma completed_status [simp]: "task_status (completed_task now r t) = T_Completed"
  by (simp add: completed_task_def)

lemma failed_status: "task_status (failed_task st now e stage t) \<noteq> T_Processing"
  by (simp add: failed_task_def Let_def)

lemma completed_twice: "(completed_task now r t)\<lparr>task_result := r'\<rparr> = completed_task now r' t"
  by (simp add: completed_task_def release_task_def)

text \<open>With quiet hooks, the write of a success raises and saves nothing, or completes the task.\<close>

lemma finalize_success_cases:
  assumes t: "get_task i (w_db w) = Some t" and hk: "quiet_hooks hk"
  obtains (raised) w' e where "finalize_agent_task_success hk base i result w = (w', Some e)"
      "w_saved w' = w_saved w" "w_fresh w \<le> w_fresh w'"
  | (finished) final w' where "finalize_agent_task_success hk base i result w =
        (commit (on_db (on_current_attempt (completed_task (w_clock w) final t)
           (completed_attempt hk (w_clock w) (completed_task (w_clock w) final t) final)) w'), None)"
      "db_tasks (w_db w') = update_row task_id i (completed_task (w_clock w) final) (db_tasks (w_db w))"
      "db_attempts (w_db w') = db_attempts (w_db w)" "db_dependencies (w_db w') = db_dependencies (w_db w)"
      "w_fresh w \<le> w_fresh w'"
      "\<not> technical_report_verification_passed (strip_promotable_side_effect_marker result) \<Longrightarrow>
         final = strip_promotable_side_effect_marker result"
proof -
  let ?san = "strip_promotable_side_effect_marker result" and ?now = "w_clock w"
  let ?w1 = "on_db (upd_task i (completed_task ?now ?san)) w"
  define w2 where "w2 = (case task_failure_artifact_path t of None \<Rightarrow> ?w1
    | Some p \<Rightarrow> if p \<noteq> [] \<and> base \<noteq> None then delete_file_if_exists p ?w1 else ?w1)"
  have w2: "w_db w2 = upd_task i (completed_task ?now ?san) (w_db w)" "w_saved w2 = w_saved w"
    "w_fresh w2 = w_fresh w" by (simp_all add: w2_def split: option.split)
  obtain w3 rep where rep: "(if technical_report_verification_passed ?san then th_report hk i ?san w2
      else (w2, Inr ?san)) = (w3, rep)" by fastforce
  then have "quiet_change w2 w3"
    using hk by (auto intro: quiet_report quiet_refl split: if_splits)
  then have w3: "task_tables (w_db w3) = task_tables (w_db w2)" "w_saved w3 = w_saved w"
    "w_fresh w \<le> w_fresh w3" using w2 by (simp_all add: quiet_change_def)
  note eq = finalize_agent_task_success_def t Let_def option.case w2_def [symmetric] rep prod.case
  show thesis
  proof (cases rep)
    case (Inl e)
    then show thesis using raised [of w3 e] w3 by (simp only: eq sum.case)
  next
    case (Inr final)
    let ?w4 = "on_db (upd_task i (\<lambda>t. t\<lparr>task_result := final\<rparr>)) w3"
    obtain w5 x where x: "th_refresh_impacts hk i ?w4 = (w5, x)" by fastforce
    then have "quiet_change ?w4 w5" by (rule quiet_impacts [OF hk])
    then have w5: "task_tables (w_db w5) = task_tables (w_db ?w4)" "w_saved w5 = w_saved w"
      "w_fresh w \<le> w_fresh w5" using w3 by (simp_all add: quiet_change_def)
    have rows: "db_tasks (w_db w5) = update_row task_id i (completed_task ?now final) (db_tasks (w_db w))"
      "db_attempts (w_db w5) = db_attempts (w_db w)" "db_dependencies (w_db w5) = db_dependencies (w_db w)"
      using w5(1) w3(1) w2(1) by (auto simp: task_tables_def update_row_def completed_twice)
    have final: "final = ?san" if "\<not> technical_report_verification_passed ?san"
      using rep Inr that by simp
    show thesis
    proof (cases x)
      case None
      show thesis
        by (rule finished [OF _ rows w5(3)], simp only: eq Inr sum.case x None, erule final)
    next
      case (Some e)
      show thesis by (rule raised [OF _ w5(2,3)]) (simp only: eq Inr sum.case x Some)
    qed
  qed
qed

lemma success_effect:
  assumes ok: "task_service_ok limit w" and work: "working worker i t w" and hk: "quiet_hooks hk"
    and result: "result_has_applied_promotable_side_effect (task_result t) \<Longrightarrow>
      result = strip_promotable_side_effect_marker (task_result t)"
  shows "effect st w (settle (finalize_agent_task_success hk base i result w))"
proof -
  have t: "get_task i (w_db w) = Some t" "task_status t = T_Processing"
    using work by (auto simp: working_def holds_task_lease_def)
  from t(1) hk show ?thesis
  proof (cases rule: finalize_success_cases [where base = base and result = result])
    case (raised w' e)
    then show ?thesis using effect_rollback [OF ok] by (simp add: settle_def)
  next
    case (finished final w')
    have final: "final = strip_promotable_side_effect_marker c"
      if "checkpoint_of (task_result t) = Some c"
        "\<not> technical_report_verification_passed (strip_promotable_side_effect_marker c)" for c
      using result that finished(6)
      by (auto simp: result_has_applied_promotable_side_effect_def
          strip_promotable_side_effect_marker_def [of "task_result t"])
    let ?t' = "completed_task (w_clock w) final t"
    show ?thesis
      by (rule effect_settled [OF ok t, where h = "completed_task (w_clock w) final"
            and t' = ?t' and d = "w_db w'" and k = "completed_attempt hk (w_clock w) ?t' final"])
        (use finished final in \<open>auto simp: settle_def completed_attempt_frame
          intro!: row_change.completed t(2)\<close>)
  qed
qed

text \<open>The write of a failure: only the refresh of the impacts can raise.\<close>

lemma finalize_failure_cases:
  assumes t: "get_task i (w_db w) = Some t" and hk: "quiet_hooks hk"
  obtains w3 w4 x p where "th_refresh_impacts hk i w3 = (w4, x)"
    "finalize_agent_task_failure cx st hk base i e stage w =
       (case x of None \<Rightarrow> (commit w4, None) | Some e' \<Rightarrow> (w4, Some e'))"
    "db_tasks (w_db w4) = update_row task_id i
       (\<lambda>_. (failed_task st (w_clock w) e stage t)\<lparr>task_failure_artifact_path := p\<rparr>) (db_tasks (w_db w))"
    "db_attempts (w_db w4) = db_attempts (on_current_attempt t
       (failed_attempt hk (w_clock w) e stage (failing_task (w_clock w) e stage t)) (w_db w))"
    "db_dependencies (w_db w4) = db_dependencies (w_db w)"
    "w_saved w4 = w_saved w" "w_fresh w \<le> w_fresh w4"
proof -
  let ?now = "w_clock w"
  let ?k = "failed_attempt hk ?now e stage (failing_task ?now e stage t)"
  obtain w2 p where p: "write_task_failure_artifact cx base (failed_task st ?now e stage t) e stage
      (on_db (on_current_attempt t ?k) w) = (w2, p)" by fastforce
  then have w2: "w_db w2 = on_current_attempt t ?k (w_db w)" "w_saved w2 = w_saved w"
    "w_fresh w2 = w_fresh w"
    by (auto simp: write_task_failure_artifact_def Let_def split: option.splits)
  let ?h = "(failed_task st ?now e stage t)\<lparr>task_failure_artifact_path := p\<rparr>"
  let ?w3 = "on_db (upd_task i (\<lambda>_. ?h)) w2"
  obtain w4 x where x: "th_refresh_impacts hk i ?w3 = (w4, x)" by fastforce
  then have "quiet_change ?w3 w4" by (rule quiet_impacts [OF hk])
  then have w4: "task_tables (w_db w4) = task_tables (w_db ?w3)" "w_saved w4 = w_saved w"
    "w_fresh w \<le> w_fresh w4" using w2 by (simp_all add: quiet_change_def)
  have "finalize_agent_task_failure cx st hk base i e stage w =
      (case (w4, x) of (w, Some e) \<Rightarrow> (w, Some e) | (w, None) \<Rightarrow> (commit w, None))"
    by (simp only: finalize_agent_task_failure_def t Let_def option.case p prod.case x)
  then have eq: "finalize_agent_task_failure cx st hk base i e stage w =
      (case x of None \<Rightarrow> (commit w4, None) | Some e' \<Rightarrow> (w4, Some e'))"
    by (cases x) simp_all
  show thesis
    by (rule that [OF x eq]) (use w4 w2 in \<open>auto simp: task_tables_def\<close>)
qed

lemma failure_effect:
  assumes ok: "task_service_ok limit w" and work: "working worker i t w" and hk: "quiet_hooks hk"
  shows "effect st w (settle (finalize_agent_task_failure cx st hk base i e stage w))"
proof -
  have t: "get_task i (w_db w) = Some t" "task_status t = T_Processing"
    using work by (auto simp: working_def holds_task_lease_def)
  from t(1) hk obtain w3 w4 x p where final: "th_refresh_impacts hk i w3 = (w4, x)"
    "finalize_agent_task_failure cx st hk base i e stage w =
       (case x of None \<Rightarrow> (commit w4, None) | Some e' \<Rightarrow> (w4, Some e'))"
    "db_tasks (w_db w4) = update_row task_id i
       (\<lambda>_. (failed_task st (w_clock w) e stage t)\<lparr>task_failure_artifact_path := p\<rparr>) (db_tasks (w_db w))"
    "db_attempts (w_db w4) = db_attempts (on_current_attempt t
       (failed_attempt hk (w_clock w) e stage (failing_task (w_clock w) e stage t)) (w_db w))"
    "db_dependencies (w_db w4) = db_dependencies (w_db w)"
    "w_saved w4 = w_saved w" "w_fresh w \<le> w_fresh w4"
    by (rule finalize_failure_cases)
  show ?thesis
  proof (cases x)
    case None
    show ?thesis
      by (rule effect_settled [OF ok t refl, where d = "w_db w"
          and h = "\<lambda>_. (failed_task st (w_clock w) e stage t)\<lparr>task_failure_artifact_path := p\<rparr>"
          and k = "failed_attempt hk (w_clock w) e stage (failing_task (w_clock w) e stage t)"])
        (use final None in \<open>auto simp: settle_def failed_attempt_frame failed_status
          intro!: row_change.failed t(2)\<close>)
  next
    case (Some e')
    then show ?thesis using effect_rollback [OF ok final(6,7)] final(2) by (simp add: settle_def)
  qed
qed

section \<open>Release and recovery over the table\<close>

lemma foldl_update_each:
  assumes "\<And>r. key (g r) = key r" and "distinct (map key xs)"
  shows "foldl (\<lambda>rs r. update_row key (key r) g rs) rows xs =
    map (\<lambda>r. if key r \<in> key ` set xs then g r else r) rows"
  using assms(2)
proof (induction xs rule: rev_induct)
  case (snoc x xs)
  then show ?case by (auto simp: update_row_def assms(1))
qed simp

lemma incomplete_cong:
  assumes "db_dependencies d' = db_dependencies d" and "db_tasks d' = map f (db_tasks d)"
    and "\<And>t. task_id (f t) = task_id t"
    and "\<And>t. t \<in> set (db_tasks d) \<Longrightarrow> task_status (f t) = T_Completed \<longleftrightarrow> task_status t = T_Completed"
  shows "incomplete_dependencies i d' = incomplete_dependencies i d"
  unfolding incomplete_dependencies_def using assms by (auto simp: list_ex_iff intro!: filter_cong)

lemma unblocked_fields [simp]:
  "task_id (unblocked_task now t) = task_id t" "task_attempts (unblocked_task now t) = task_attempts t"
  "task_status (unblocked_task now t) \<noteq> T_Completed" "task_status (unblocked_task now t) \<noteq> T_Processing"
  by (simp_all add: unblocked_task_def)

text \<open>Releasing a task does not change what another task waits for, so the order is irrelevant.\<close>

definition ready :: "db \<Rightarrow> agent_task \<Rightarrow> bool" where
  "ready d t = (incomplete_dependencies (task_id t) d = [])"

definition release_tasks :: "(agent_task \<Rightarrow> bool) \<Rightarrow> time \<Rightarrow> db \<Rightarrow> db" where
  "release_tasks P now d = d\<lparr>db_tasks := map (\<lambda>t. if P t then unblocked_task now t else t) (db_tasks d)\<rparr>"

lemma release_tasks_simps [simp]:
  "db_tasks (release_tasks P now d) = map (\<lambda>t. if P t then unblocked_task now t else t) (db_tasks d)"
  "db_dependencies (release_tasks P now d) = db_dependencies d"
  "db_attempts (release_tasks P now d) = db_attempts d"
  by (simp_all add: release_tasks_def)

lemma on_db_twice: "on_db f (on_db g w) = w\<lparr>w_db := f (g (w_db w))\<rparr>"
  by (simp add: on_db_def)

lemma unblock_fold:
  assumes "distinct (map task_id (db_tasks (w_db w)))"
    and "\<And>t. t \<in> set xs \<Longrightarrow> t \<in> set (db_tasks (w_db w)) \<and> task_status t \<noteq> T_Completed"
    and "distinct (map task_id xs)"
  shows "foldl unblock_one (w, n) xs =
    (on_db (release_tasks (\<lambda>t. t \<in> set xs \<and> ready (w_db w) t) (w_clock w)) w,
     n + length (filter (ready (w_db w)) xs))"
  using assms(2,3)
proof (induction xs rule: rev_induct)
  case Nil
  then show ?case by (simp add: on_db_def release_tasks_def)
next
  case (snoc x xs)
  let ?w1 = "on_db (release_tasks (\<lambda>t. t \<in> set xs \<and> ready (w_db w) t) (w_clock w)) w"
  have IH: "foldl unblock_one (w, n) xs = (?w1, n + length (filter (ready (w_db w)) xs))"
    using snoc by simp
  have x: "x \<in> set (db_tasks (w_db w))" "x \<notin> set xs" using snoc.prems by auto
  let ?d1 = "release_tasks (\<lambda>t. t \<in> set xs \<and> ready (w_db w) t) (w_clock w) (w_db w)"
    and ?d2 = "release_tasks (\<lambda>t. t \<in> set (xs @ [x]) \<and> ready (w_db w) t) (w_clock w) (w_db w)"
  have wait: "incomplete_dependencies (task_id x) ?d1 = incomplete_dependencies (task_id x) (w_db w)"
    by (rule incomplete_cong [where f = "\<lambda>t. if t \<in> set xs \<and> ready (w_db w) t
          then unblocked_task (w_clock w) t else t"]) (use snoc.prems in auto)
  have step: "unblock_one (?w1, m) x = (if ready (w_db w) x
      then (on_db (upd_task (task_id x) (unblocked_task (w_clock w))) ?w1, m + 1) else (?w1, m))" for m
    using wait by (simp add: unblock_one_def ready_def)
  show ?case
  proof (cases "ready (w_db w) x")
    case True
    have "task_id t = task_id x \<longleftrightarrow> t = x" if "t \<in> set (db_tasks (w_db w))" for t
      using assms(1) that x(1) by (auto simp: distinct_map dest: inj_onD)
    then have "upd_task (task_id x) (unblocked_task (w_clock w)) ?d1 = ?d2"
      using True x(2) by (auto simp: upd_task_def release_tasks_def update_row_def)
    then have "on_db (upd_task (task_id x) (unblocked_task (w_clock w))) ?w1 =
        on_db (release_tasks (\<lambda>t. t \<in> set (xs @ [x]) \<and> ready (w_db w) t) (w_clock w)) w"
      unfolding on_db_twice by (simp only: on_db_def)
    then show ?thesis using True by (simp only: foldl_append foldl.simps IH step if_True) simp
  next
    case False
    then have "(\<lambda>t. t \<in> set (xs @ [x]) \<and> ready (w_db w) t) = (\<lambda>t. t \<in> set xs \<and> ready (w_db w) t)"
      by auto
    then show ?thesis using False by (simp only: foldl_append foldl.simps IH step if_False) simp
  qed
qed

lemma unblock_tasks:
  assumes "task_service_ok limit w"
  shows "w_saved (fst (unblock_ready_agent_tasks w)) = w_db (fst (unblock_ready_agent_tasks w))"
    and "w_db (fst (unblock_ready_agent_tasks w)) =
      release_tasks (\<lambda>t. task_status t = T_Blocked \<and> ready (w_db w) t) (w_clock w) (w_db w)"
    and "w_fresh (fst (unblock_ready_agent_tasks w)) = w_fresh w"
proof -
  let ?xs = "filter (\<lambda>t. task_status t = T_Blocked) (db_tasks (w_db w))"
  let ?P = "\<lambda>t. task_status t = T_Blocked \<and> ready (w_db w) t"
  have "release_tasks (\<lambda>t. t \<in> set ?xs \<and> ready (w_db w) t) (w_clock w) (w_db w) =
      release_tasks ?P (w_clock w) (w_db w)"
    by (auto simp: release_tasks_def)
  then have "on_db (release_tasks (\<lambda>t. t \<in> set ?xs \<and> ready (w_db w) t) (w_clock w)) w =
      on_db (release_tasks ?P (w_clock w)) w"
    by (simp only: on_db_def)
  then have fold: "foldl unblock_one (w, 0) ?xs =
      (on_db (release_tasks ?P (w_clock w)) w, length (filter (ready (w_db w)) ?xs))"
    using assms unblock_fold [of w ?xs 0]
    by (auto simp: task_service_ok_def tasks_ok_def distinct_map_filter)
  have none: "release_tasks (\<lambda>t. task_status t = T_Blocked \<and> ready (w_db w) t) (w_clock w) (w_db w) = w_db w"
    if "filter (ready (w_db w)) ?xs = []"
  proof -
    have "map (\<lambda>t. if task_status t = T_Blocked \<and> ready (w_db w) t then unblocked_task (w_clock w) t else t)
        (db_tasks (w_db w)) = db_tasks (w_db w)"
      by (rule map_idI) (use that in \<open>auto simp: filter_empty_conv\<close>)
    then show ?thesis by (simp add: release_tasks_def)
  qed
  show "w_db (fst (unblock_ready_agent_tasks w)) =
      release_tasks (\<lambda>t. task_status t = T_Blocked \<and> ready (w_db w) t) (w_clock w) (w_db w)"
    "w_fresh (fst (unblock_ready_agent_tasks w)) = w_fresh w"
    by (simp_all add: unblock_ready_agent_tasks_def fold Let_def)
  show "w_saved (fst (unblock_ready_agent_tasks w)) = w_db (fst (unblock_ready_agent_tasks w))"
    using assms none by (auto simp: unblock_ready_agent_tasks_def fold Let_def task_service_ok_def)
qed

lemma unblock_effect:
  assumes "task_service_ok limit w"
  shows "effect st w (fst (unblock_ready_agent_tasks w))"
proof -
  have "moved st (w_db w) (w_db (fst (unblock_ready_agent_tasks w)))"
    by (rule moved_tasks [of limit _ _ "\<lambda>t. if task_status t = T_Blocked \<and> ready (w_db w) t
          then unblocked_task (w_clock w) t else t"])
      (use assms in \<open>auto simp: unblock_tasks task_service_ok_def ready_def
        intro: row_change.same row_change.unblocked\<close>)
  then show ?thesis using unblock_tasks [OF assms] by (simp add: effect_def)
qed

text \<open>Recovery settles the attempts of the stale tasks.\<close>

lemma abandoned_frame:
  "attempt_id (abandoned_attempt now a) = attempt_id a"
  "attempt_task_id (abandoned_attempt now a) = attempt_task_id a"
  "attempt_number (abandoned_attempt now a) = attempt_number a"
  "attempt_status (abandoned_attempt now a) \<noteq> A_Processing"
  "abandoned_attempt now (abandoned_attempt now a) = abandoned_attempt now a"
  by (simp_all add: abandoned_attempt_def)

lemma requeue_attempts_fold:
  assumes "distinct (map attempt_id (db_attempts (w_db w)))" "distinct (map attempt_key (db_attempts (w_db w)))"
  shows "db_attempts (w_db (foldl (requeue_task cx st base) w ts)) =
    map (\<lambda>a. if \<exists>t \<in> set ts. is_current_attempt t a then abandoned_attempt (w_clock w) a else a)
      (db_attempts (w_db w))"
proof (induction ts rule: rev_induct)
  case (snoc t ts)
  let ?w1 = "foldl (requeue_task cx st base) w ts"
  let ?f = "\<lambda>a. if \<exists>t \<in> set ts. is_current_attempt t a then abandoned_attempt (w_clock w) a else a"
  have "map attempt_id (db_attempts (w_db ?w1)) = map attempt_id (db_attempts (w_db w))"
    "map attempt_key (db_attempts (w_db ?w1)) = map attempt_key (db_attempts (w_db w))"
    unfolding snoc by (simp_all add: abandoned_frame attempt_key_def)
  then have "db_attempts (w_db (foldl (requeue_task cx st base) w (ts @ [t]))) =
      map (\<lambda>a. if is_current_attempt t a then abandoned_attempt (w_clock w) a else a)
        (db_attempts (w_db ?w1))"
    using assms by (simp add: requeue_task_simps requeue_tasks_fold on_current_attempt_map)
  also have "\<dots> = map (\<lambda>a. if \<exists>t \<in> set (ts @ [t]). is_current_attempt t a
      then abandoned_attempt (w_clock w) a else a) (db_attempts (w_db w))"
    unfolding snoc by (auto simp: abandoned_frame is_current_attempt_def)
  finally show ?case .
qed simp

lemma requeue_effect:
  assumes ok: "task_service_ok limit w"
  shows "effect st w (fst (requeue_stale_agent_tasks cx st base w))"
proof -
  let ?w' = "fst (requeue_stale_agent_tasks cx st base w)"
  let ?stale = "task_is_stale (stale_limit st w)"
  have "db_attempts (w_db ?w') =
      db_attempts (w_db (foldl (requeue_task cx st base) w (filter ?stale (db_tasks (w_db w)))))"
    by (simp add: requeue_stale_agent_tasks_def Let_def)
  also have "\<dots> = map (\<lambda>a. if \<exists>t \<in> set (db_tasks (w_db w)). ?stale t \<and> is_current_attempt t a
      then abandoned_attempt (w_clock w) a else a) (db_attempts (w_db w))"
    using ok requeue_attempts_fold [of w cx st base "filter ?stale (db_tasks (w_db w))"]
    by (simp add: task_service_ok_def tasks_ok_def log_ok_def conj_assoc Bex_def)
  finally have attempts: "db_attempts (w_db ?w') = \<dots>" .
  have "moved st (w_db w) (w_db ?w')"
  proof (rule moved_settled [OF _ _ attempts])
    show "db_tasks (w_db ?w') = map (\<lambda>t. if ?stale t then requeued_task_row st base (w_clock w) t else t)
        (db_tasks (w_db w))"
      using ok requeue_tasks by (simp add: task_service_ok_def tasks_ok_def)
  qed (use ok in \<open>auto simp: task_service_ok_def requeue_tasks_frame abandoned_frame task_is_stale_def
      requeued_task_status intro: row_change.requeued\<close>)
  moreover have "w_saved ?w' = w_db ?w'"
    using ok requeue_tasks_saved by (simp add: task_service_ok_def)
  ultimately show ?thesis by (simp add: effect_def requeue_tasks_frame)
qed

section \<open>Claims\<close>

lemma new_attempt_fields [simp]:
  "attempt_id (new_attempt n t worker now) = n" "attempt_task_id (new_attempt n t worker now) = task_id t"
  "attempt_number (new_attempt n t worker now) = task_attempts t"
  "attempt_status (new_attempt n t worker now) = A_Processing"
  by (simp_all add: new_attempt_def)

lemma claimed_status [simp]: "task_status (claimed_task now worker t) = T_Processing"
  by (simp add: claimed_task_def)

lemma upto_snoc: "0 \<le> n \<Longrightarrow> [1..n + 1] = [1..n] @ [n + (1::int)]"
  by (simp add: upto_rec2)

text \<open>
  The log of attempts after a claim. The old attempts of the task are settled, and numbered below
  the new one.
\<close>

lemma claim_log:
  fixes worker :: string
  assumes ok: "tasks_ok limit d" and t: "get_task i d = Some t" and elig: "task_eligible now t"
    and n: "n \<notin> attempt_id ` set (db_attempts d)"
  defines "d' \<equiv> add_attempt (new_attempt n (claimed_task now worker t) worker now)
    (upd_task i (claimed_task now worker) d)"
  shows "log_ok d'"
proof -
  have i: "task_id t = i" "t \<in> set (db_tasks d)" using t find_row_Some by fastforce+
  have log: "log_ok d" using ok by (simp add: tasks_ok_def)
  have "task_ok limit t" using ok i(2) by (simp add: tasks_ok_def)
  then have nonneg: "0 \<le> task_attempts t" by (auto simp: task_ok_def tries_ok_def split: if_splits)
  have numbers: "map attempt_number (attempts_of (task_id u) d) = [1..task_attempts u]"
    if "u \<in> set (db_tasks d)" for u using log that by (simp add: log_ok_def)
  have old: "attempt_status a \<noteq> A_Processing \<and> attempt_number a \<le> task_attempts t"
    if "a \<in> set (db_attempts d)" "attempt_task_id a = i" for a
  proof -
    have "attempt_number a \<in> set (map attempt_number (attempts_of (task_id t) d))"
      using that i by (auto simp: attempts_of_def)
    moreover have "open_ok d a" using log that by (simp add: log_ok_def)
    ultimately show ?thesis
      using that(2) t elig numbers [OF i(2)] by (auto simp: open_ok_def task_eligible_def)
  qed
  have get: "get_task j d' = (if j = i then Some (claimed_task now worker t) else get_task j d)" for j
    using t by (simp add: d'_def find_row_update)
  have "open_ok d' a" if "a \<in> set (db_attempts d')" for a
  proof (cases "a \<in> set (db_attempts d)")
    case True
    then have "open_ok d a" using log by (simp add: log_ok_def)
    then show ?thesis using old [OF True] by (auto simp: open_ok_def get)
  next
    case False
    then have "a = new_attempt n (claimed_task now worker t) worker now" using that by (simp add: d'_def)
    then show ?thesis by (simp add: open_ok_def get i)
  qed
  moreover have "map attempt_number (attempts_of (task_id u) d') = [1..task_attempts u]"
    if "u \<in> set (db_tasks d')" for u
  proof (cases "task_id u = i")
    case True
    have "get_task i d' = Some u"
      using that True ok find_row_unique [of task_id "db_tasks d'" u]
      by (simp add: d'_def tasks_ok_def map_key_update_row)
    then have u: "u = claimed_task now worker t" by (simp add: get)
    have "attempts_of i d' = attempts_of i d @ [new_attempt n (claimed_task now worker t) worker now]"
      by (simp add: attempts_of_def d'_def i)
    then show ?thesis
      using numbers [OF i(2)] i u nonneg by (simp add: upto_snoc)
  next
    case False
    then have "u \<in> set (db_tasks d)" using that by (auto simp: d'_def set_update_row i)
    then show ?thesis using numbers False by (simp add: attempts_of_def d'_def i)
  qed
  moreover have "distinct (map attempt_key (db_attempts d'))"
  proof -
    have "attempt_key a \<noteq> (i, task_attempts t + 1)" if "a \<in> set (db_attempts d)" for a
      using old [OF that] by (auto simp: attempt_key_def)
    then have "(i, task_attempts t + 1) \<notin> attempt_key ` set (db_attempts d)" by (metis imageE)
    then show ?thesis
      using log by (simp add: d'_def log_ok_def attempt_key_def [of "new_attempt _ _ _ _"] i)
  qed
  ultimately show ?thesis
    using log n by (simp add: log_ok_def d'_def)
qed

lemma claim_tasks_ok:
  fixes st :: settings
  assumes ok: "tasks_ok (set_worker_max_attempts st) d" and t: "get_task i d = Some t"
    and elig: "task_eligible now t" and n: "n \<notin> attempt_id ` set (db_attempts d)"
    and limit: "1 \<le> set_worker_max_attempts st"
  shows "tasks_ok (set_worker_max_attempts st)
    (add_attempt (new_attempt n (claimed_task now worker t) worker now)
      (upd_task i (claimed_task now worker) d))" (is "tasks_ok ?limit ?d'")
proof -
  have i: "task_id t = i" "t \<in> set (db_tasks d)" using t find_row_Some by fastforce+
  have only: "u = t" if "u \<in> set (db_tasks d)" "task_id u = i" for u
    using ok t find_row_unique [of task_id "db_tasks d" u] that by (simp add: tasks_ok_def)
  have completed: "task_status u \<noteq> T_Completed" if "u \<in> set (db_tasks d)" "task_id u = i" for u
    using only [OF that] elig by (auto simp: task_eligible_def)
  have wait: "incomplete_dependencies j d = [] \<Longrightarrow> incomplete_dependencies j ?d' = []" for j
    by (rule incomplete_antimono [of _ d])
      (use ok completed in \<open>auto simp: tasks_ok_def set_update_row split: if_splits\<close>)
  have "task_ok ?limit u \<and> released ?d' u" if u: "u \<in> set (db_tasks ?d')" for u
  proof (cases "task_id u = i")
    case True
    then have "u = claimed_task now worker t" using u only by (auto simp: set_update_row split: if_splits)
    moreover have "released d t" "task_ok ?limit t" using ok i by (auto simp: tasks_ok_def)
    moreover have "task_ok ?limit (claimed_task now worker t)"
      by (rule row_change_ok [OF row_change.claimed [OF elig] \<open>task_ok ?limit t\<close> limit])
    ultimately show ?thesis using wait elig i by (auto simp: released_def task_eligible_def)
  next
    case False
    then have "u \<in> set (db_tasks d)" using u by (auto simp: set_update_row i)
    then show ?thesis using ok wait by (auto simp: tasks_ok_def released_def)
  qed
  moreover have "task_id ` set (db_tasks ?d') = task_id ` set (db_tasks d)"
    using arg_cong [OF map_key_update_row [of task_id "claimed_task now worker" i "db_tasks d"], of set]
    by simp
  then have "\<forall>r \<in> set (db_dependencies ?d'). edge_ok ?d' r"
    using ok by (simp add: tasks_ok_def edge_ok_def)
  ultimately show ?thesis
    using ok claim_log [OF ok t elig n] by (simp add: tasks_ok_def map_key_update_row)
qed

lemma task_claim_ok:
  fixes st :: settings
  assumes ok: "task_service_ok (set_worker_max_attempts st) w" and "1 \<le> set_worker_max_attempts st"
  shows "task_service_ok (set_worker_max_attempts st) (fst (claim_next_agent_task worker w))"
proof -
  have "tasks_settled w" using ok by (simp add: task_service_ok_def tasks_settled_def tasks_ok_def)
  then show ?thesis
  proof (cases rule: claim_next_agent_task_cases [where worker = worker])
    case (task t w')
    have n: "w_fresh w \<notin> attempt_id ` set (db_attempts (w_db w))"
      using ok by (auto simp: task_service_ok_def task_ids_used_def)
    show ?thesis
      using claim_tasks_ok [OF _ task(4,3) n assms(2), of worker] ok task
      by (auto simp: task_service_ok_def task_ids_used_def set_update_row split: if_splits)
  qed (use ok in simp)
qed

section \<open>Creation\<close>

lemma plan_dependencies:
  assumes "plan_agent_task registry req d = Inr plan"
  shows "fst ` set (tp_dependencies plan) \<subseteq> task_id ` set (db_tasks d)"
    and "tp_status plan = initial_task_status (tp_approval plan)
      (incomplete_dependency_count (map fst (tp_dependencies plan)) d > 0)"
proof -
  have "validate_dependency_ids (map fst (tp_dependencies plan)) d = Inr ()
      \<and> tp_status plan = initial_task_status (tp_approval plan)
          (incomplete_dependency_count (map fst (tp_dependencies plan)) d > 0)"
    using assms unfolding plan_agent_task_def Let_def by (auto split: if_splits option.splits sum.splits)
  then show "fst ` set (tp_dependencies plan) \<subseteq> task_id ` set (db_tasks d)"
    "tp_status plan = initial_task_status (tp_approval plan)
      (incomplete_dependency_count (map fst (tp_dependencies plan)) d > 0)"
    by (auto simp: validate_dependency_ids_def filter_empty_conv Let_def split: if_splits)
qed

lemma add_dependency_eq:
  "add_dependency i w s = w\<lparr>w_db := (w_db w)\<lparr>db_dependencies := db_dependencies (w_db w)
       @ [\<lparr>dep_id = w_fresh w, dep_task_id = i, dep_depends_on_task_id = fst s, dep_kind = snd s,
           dep_created_at = w_clock w\<rparr>]\<rparr>, w_fresh := w_fresh w + 1\<rparr>"
  by (simp add: add_dependency_def take_id_def on_db_def)

lemma add_dependencies:
  "\<exists>rows. foldl (add_dependency i) w specs =
     w\<lparr>w_db := (w_db w)\<lparr>db_dependencies := db_dependencies (w_db w) @ rows\<rparr>,
       w_fresh := w_fresh w + length specs\<rparr>
   \<and> map (\<lambda>r. (dep_task_id r, dep_depends_on_task_id r)) rows = map (\<lambda>s. (i, fst s)) specs"
proof (induction specs rule: rev_induct)
  case (snoc s specs)
  then obtain rows where "foldl (add_dependency i) w specs =
     w\<lparr>w_db := (w_db w)\<lparr>db_dependencies := db_dependencies (w_db w) @ rows\<rparr>,
       w_fresh := w_fresh w + length specs\<rparr>"
    "map (\<lambda>r. (dep_task_id r, dep_depends_on_task_id r)) rows = map (\<lambda>s. (i, fst s)) specs" by blast
  note IH = this
  show ?case
    by (intro exI [of _ "rows @ [\<lparr>dep_id = w_fresh w + length specs, dep_task_id = i,
        dep_depends_on_task_id = fst s, dep_kind = snd s, dep_created_at = w_clock w\<rparr>]"])
      (simp only: foldl_append foldl_Cons foldl_Nil IH(1), simp add: add_dependency_eq IH(2))
qed simp

lemma new_task_fields [simp]:
  "task_id (new_task i req status level approval input now) = i"
  "task_attempts (new_task i req status level approval input now) = 0"
  "task_status (new_task i req status level approval input now) = status"
  "task_requires_approval (new_task i req status level approval input now) = approval"
  by (simp_all add: new_task_def)

lemma new_task_ok:
  "task_ok limit (new_task i req (initial_task_status approval waiting) level approval input now)"
  by (auto simp: ok_defs new_task_def initial_task_status_def)

definition with_new_task :: "agent_task \<Rightarrow> agent_task_dependency list \<Rightarrow> db \<Rightarrow> db" where
  "with_new_task t rows d = (add_task t d)\<lparr>db_dependencies := db_dependencies d @ rows\<rparr>"

lemma with_new_task_simps [simp]:
  "db_tasks (with_new_task t rows d) = db_tasks d @ [t]"
  "db_dependencies (with_new_task t rows d) = db_dependencies d @ rows"
  "db_attempts (with_new_task t rows d) = db_attempts d"
  by (simp_all add: with_new_task_def add_task_def)

lemma create_cases:
  obtains (refused) e where "create_agent_task registry True req w = (w, Inl e)"
  | (created) t rows plan w' where "create_agent_task registry True req w = (w', Inr (w_fresh w))"
      "plan_agent_task registry req (w_db w) = Inr plan"
      "t = new_task (w_fresh w) req (tp_status plan) (tp_level plan) (tp_approval plan)
         (tp_input plan) (w_clock w)"
      "w_db w' = with_new_task t rows (w_db w)" "w_saved w' = w_db w'" "w_fresh w < w_fresh w'"
      "w_clock w' = w_clock w"
      "map (\<lambda>r. (dep_task_id r, dep_depends_on_task_id r)) rows =
         map (\<lambda>s. (w_fresh w, fst s)) (tp_dependencies plan)"
proof (cases "plan_agent_task registry req (w_db w)")
  case (Inl e)
  then show thesis using refused by (simp add: create_agent_task_def)
next
  case (Inr plan)
  define t where "t = new_task (w_fresh w) req (tp_status plan) (tp_level plan) (tp_approval plan)
         (tp_input plan) (w_clock w)"
  let ?w2 = "on_db (add_task t) (w\<lparr>w_fresh := w_fresh w + 1\<rparr>)"
  obtain rows where rows: "foldl (add_dependency (w_fresh w)) ?w2 (tp_dependencies plan) =
     ?w2\<lparr>w_db := (w_db ?w2)\<lparr>db_dependencies := db_dependencies (w_db ?w2) @ rows\<rparr>,
       w_fresh := w_fresh ?w2 + length (tp_dependencies plan)\<rparr>"
    "map (\<lambda>r. (dep_task_id r, dep_depends_on_task_id r)) rows =
       map (\<lambda>s. (w_fresh w, fst s)) (tp_dependencies plan)"
    using add_dependencies by blast
  let ?w' = "commit (foldl (add_dependency (w_fresh w)) ?w2 (tp_dependencies plan))"
  show thesis
  proof (rule created [OF _ Inr t_def _ _ _ _ rows(2)])
    show "create_agent_task registry True req w = (?w', Inr (w_fresh w))"
      using Inr by (simp add: create_agent_task_def take_id_def t_def Let_def)
  qed (unfold rows(1), simp_all add: with_new_task_def add_task_def)
qed

text \<open>Nothing depends on the new task, and its own dependencies are those it was created with.\<close>

lemma new_task_incomplete:
  assumes "\<forall>r \<in> set (db_dependencies d). edge_ok d r" and "i \<notin> task_id ` set (db_tasks d)"
    and "task_id t = i" and "map (\<lambda>r. (dep_task_id r, dep_depends_on_task_id r)) rows = map (\<lambda>j. (i, j)) ids"
    and "set ids \<subseteq> task_id ` set (db_tasks d)"
  shows "j \<noteq> i \<Longrightarrow> incomplete_dependencies j (with_new_task t rows d) = incomplete_dependencies j d"
    and "incomplete_dependencies i (with_new_task t rows d) = [] \<longleftrightarrow> incomplete_dependency_count ids d = 0"
proof -
  have rows: "dep_task_id r = i \<and> dep_depends_on_task_id r \<in> set ids" if "r \<in> set rows" for r
    using arg_cong [OF assms(4), of set] that by force
  have ids: "set ids = dep_depends_on_task_id ` set rows"
    using arg_cong [OF arg_cong [OF assms(4), of "map snd"], of set] by (simp add: comp_def)
  have old: "dep_task_id r \<noteq> i \<and> dep_depends_on_task_id r \<noteq> i" if "r \<in> set (db_dependencies d)" for r
    using assms(1,2) that by (auto simp: edge_ok_def)
  show "incomplete_dependencies j (with_new_task t rows d) = incomplete_dependencies j d" if "j \<noteq> i"
    using rows old assms(3) that
    by (fastforce simp: incomplete_dependencies_def filter_empty_conv intro!: filter_cong dest: old)
  have new: "list_ex (\<lambda>u. task_id u = k \<and> task_status u \<noteq> T_Completed) (db_tasks d @ [t]) \<longleftrightarrow>
      list_ex (\<lambda>u. task_id u = k \<and> task_status u \<noteq> T_Completed) (db_tasks d)" if "k \<in> set ids" for k
    using that assms(2,3,5) by auto
  have "incomplete_dependencies i (with_new_task t rows d) = [] \<longleftrightarrow>
      (\<forall>r \<in> set rows. \<not> list_ex (\<lambda>u. task_id u = dep_depends_on_task_id r \<and> task_status u \<noteq> T_Completed)
        (db_tasks d))"
    using rows old new by (auto simp: incomplete_dependencies_def filter_empty_conv)
  also have "\<dots> \<longleftrightarrow> incomplete_dependency_count ids d = 0"
    using assms(4) by (cases "ids = []") (auto simp: ids incomplete_dependency_count_def count_rows_zero list_ex_iff)
  finally show "incomplete_dependencies i (with_new_task t rows d) = [] \<longleftrightarrow>
      incomplete_dependency_count ids d = 0" .
qed

lemma create_tasks_ok:
  assumes ok: "tasks_ok limit d" and i: "\<forall>u \<in> set (db_tasks d). task_id u < i" and t: "task_id t = i"
    and "task_ok limit t" and "task_attempts t = 0"
    and rows: "map (\<lambda>r. (dep_task_id r, dep_depends_on_task_id r)) rows = map (\<lambda>j. (i, j)) ids"
    and ids: "set ids \<subseteq> task_id ` set (db_tasks d)"
    and wait: "task_status t = T_Blocked \<or> incomplete_dependency_count ids d = 0"
  shows "tasks_ok limit (with_new_task t rows d)" (is "tasks_ok limit ?d'")
proof -
  have fresh: "i \<notin> task_id ` set (db_tasks d)" using i by auto
  have edges: "\<forall>r \<in> set (db_dependencies d). edge_ok d r" using ok by (simp add: tasks_ok_def)
  note inc = new_task_incomplete [OF edges fresh t rows ids]
  have "released ?d' u" if u: "u \<in> set (db_tasks ?d')" for u
  proof (cases "u = t")
    case True
    then show ?thesis using wait inc(2) t by (auto simp: released_def)
  next
    case False
    then have "u \<in> set (db_tasks d)" using u by auto
    moreover from this have "task_id u \<noteq> i" using i by fastforce
    ultimately show ?thesis using ok inc(1) [of "task_id u"] by (auto simp: tasks_ok_def released_def)
  qed
  moreover have "edge_ok ?d' r" if "r \<in> set (db_dependencies ?d')" for r
  proof (cases "r \<in> set (db_dependencies d)")
    case True
    then show ?thesis using edges by (auto simp: edge_ok_def)
  next
    case False
    then have "(dep_task_id r, dep_depends_on_task_id r) \<in> Pair i ` set ids"
      using that arg_cong [OF rows, of set] by force
    then show ?thesis using ids i t by (auto simp: edge_ok_def)
  qed
  moreover have "log_ok ?d'"
  proof -
    have "\<forall>a \<in> set (db_attempts d). attempt_task_id a \<noteq> i"
      using ok fresh by (auto simp: tasks_ok_def log_ok_def open_ok_def find_row_None [symmetric] split: option.splits)
    then have "attempts_of i ?d' = []" by (simp add: attempts_of_def filter_empty_conv)
    moreover have "open_ok ?d' a" if "a \<in> set (db_attempts d)" for a
      using ok that by (auto simp: tasks_ok_def log_ok_def open_ok_def split: option.splits)
    ultimately show ?thesis
      using ok assms(5) t by (auto simp: tasks_ok_def log_ok_def attempts_of_def)
  qed
  ultimately show ?thesis using ok assms(4) fresh t by (auto simp: tasks_ok_def)
qed

lemma create_ok:
  assumes ok: "task_service_ok limit w"
  shows "task_service_ok limit (fst (create_agent_task registry True req w))"
proof (cases rule: create_cases [of registry req w])
  case (refused e)
  then show ?thesis using ok by simp
next
  case (created t rows plan w')
  have w: "tasks_ok limit (w_db w)" "\<forall>u \<in> set (db_tasks (w_db w)). task_id u < w_fresh w"
    using ok by (auto simp: task_service_ok_def task_ids_used_def)
  let ?ids = "map fst (tp_dependencies plan)"
  have status: "task_status t = initial_task_status (tp_approval plan)
      (incomplete_dependency_count ?ids (w_db w) > 0)"
    using plan_dependencies(2) [OF created(2)] created(3) by simp
  then have "task_ok limit t" using new_task_ok created(3) plan_dependencies(2) [OF created(2)] by simp
  moreover have "task_status t = T_Blocked \<or> incomplete_dependency_count ?ids (w_db w) = 0"
    using status by (simp add: initial_task_status_def)
  moreover have "set ?ids \<subseteq> task_id ` set (db_tasks (w_db w))" using plan_dependencies(1) [OF created(2)] by simp
  ultimately have "tasks_ok limit (with_new_task t rows (w_db w))"
    using created(3,8) by (intro create_tasks_ok [OF w, of t rows ?ids]) (simp_all add: comp_def)
  then show ?thesis
    using ok created by (auto simp: task_service_ok_def task_ids_used_def)
qed

section \<open>The invariant of the service\<close>

lemma task_step_cases:
  assumes "task_step cx st hk base w w'" and "task_service_ok (set_worker_max_attempts st) w"
    and "quiet_hooks hk"
  shows "effect st w w'
      \<or> (\<exists>registry req. w' = fst (create_agent_task registry True req w))
      \<or> (\<exists>worker. w' = fst (claim_next_agent_task worker w))"
  using assms(1)
  by cases (use assms(2,3) in \<open>auto intro: effect_tables approve_effect reject_effect outcome_effect
    unblock_effect requeue_effect refresh_effect heartbeat_effect checkpoint_effect success_effect
    failure_effect\<close>)

lemma task_step_ok:
  assumes "task_step cx st hk base w w'" and "task_service_ok (set_worker_max_attempts st) w"
    and "quiet_hooks hk" and "1 \<le> set_worker_max_attempts st"
  shows "task_service_ok (set_worker_max_attempts st) w'"
  using task_step_cases [OF assms(1-3)] effect_ok [OF _ assms(2,4)] create_ok [OF assms(2)]
    task_claim_ok [OF assms(2,4)] by blast

text \<open>Each step moves each row by one move of the state machine, or leaves it.\<close>

lemma task_step_row:
  assumes "task_step cx st hk base w w'" and ok: "task_service_ok (set_worker_max_attempts st) w"
    and "quiet_hooks hk" and t: "get_task i (w_db w) = Some t"
  shows "\<exists>t'. get_task i (w_db w') = Some t' \<and> row_change st (w_db w) t t'"
proof -
  have "?thesis" if eff: "effect st w w'"
  proof -
    obtain f where f: "db_tasks (w_db w') = map f (db_tasks (w_db w))"
      "\<And>t. t \<in> set (db_tasks (w_db w)) \<Longrightarrow> row_change st (w_db w) t (f t)"
      using eff unfolding effect_def moved_def by blast
    have "get_task i (w_db w') = map_option f (get_task i (w_db w))"
      unfolding f(1) by (rule find_row_map_on) (rule row_change_frame(1) [OF f(2)])
    then show ?thesis using t f(2) find_row_Some [OF t] by auto
  qed
  moreover have "?thesis" if "w' = fst (create_agent_task registry True req w)" for registry req
    using that t by (cases rule: create_cases [of registry req w]) (auto intro: row_change.same)
  moreover have "?thesis" if "w' = fst (claim_next_agent_task worker w)" for worker
  proof -
    have "tasks_settled w" using ok by (simp add: task_service_ok_def tasks_settled_def tasks_ok_def)
    then show ?thesis
    proof (cases rule: claim_next_agent_task_cases [where worker = worker])
      case (task u v)
      then show ?thesis
        using that t by (auto simp: find_row_update intro: row_change.same row_change.claimed)
    qed (use that t in \<open>auto intro: row_change.same\<close>)
  qed
  moreover have "effect st w w'
      \<or> (\<exists>registry req. w' = fst (create_agent_task registry True req w))
      \<or> (\<exists>worker. w' = fst (claim_next_agent_task worker w))"
    by (rule task_step_cases [OF assms(1) ok assms(3)])
  ultimately show ?thesis by blast
qed

end
