(* ===== verification/Task_Guarantees.thy ===== *)
theory Task_Guarantees
  imports Task_System
begin

text \<open>
  What the agent-task service guarantees, for every order of its steps: the invariant of
  \<open>Task_State\<close>, the conditions under which a task is handed to a worker, an acyclic dependency
  graph, the refinement of the state machine of a single task, and the survival of checkpoints.
  The last section is about one worker: what \<open>process_agent_task\<close> leaves behind.
\<close>

lemma no_tasks_ok: "task_service_ok limit initial_world"
  by (simp add: task_service_ok_def initial_world_def empty_db_def task_ids_used_def tasks_ok_def log_ok_def)

lemma reachable_tasks_ok:
  assumes "(task_step cx st hk base)\<^sup>*\<^sup>* initial_world w" and "quiet_hooks hk"
    and "1 \<le> set_worker_max_attempts st"
  shows "task_service_ok (set_worker_max_attempts st) w"
  using assms(1)
  by induction (auto intro: no_tasks_ok task_step_ok assms(2,3))

section \<open>Examples\<close>

text \<open>A registry with a plain and a promotable action, and hooks that do nothing.\<close>

definition example_registry :: action_registry where
  "example_registry = [
     (''summarise'', \<lparr>ta_side_effect_level = Read_Only, ta_requires_approval = False,
        ta_validate = (\<lambda>input. Some (input, \<lparr>lt_target = None, lt_source = None,
          lt_draft = None, lt_verification = None\<rparr>))\<rparr>),
     (''apply'', \<lparr>ta_side_effect_level = Promotable, ta_requires_approval = True,
        ta_validate = (\<lambda>input. Some (input, \<lparr>lt_target = None, lt_source = None,
          lt_draft = None, lt_verification = None\<rparr>))\<rparr>)]"

definition example_task_request :: "string \<Rightarrow> uuid list \<Rightarrow> create_request" where
  "example_task_request kind ids = \<lparr>cr_task_type = kind, cr_priority = 100, cr_side_effect_level = None,
     cr_requires_approval = None, cr_parent_task_id = None, cr_dependency_task_ids = ids,
     cr_input = [], cr_workflow_version = ''v1'', cr_tool_version = None, cr_prompt_version = None,
     cr_model = None, cr_model_settings = []\<rparr>"

definition example_task_hooks :: task_hooks where
  "example_task_hooks = \<lparr>
     th_execute = (\<lambda>t w. (w, Inr [(''answer'', JInt 42)])),
     th_write_context = (\<lambda>t r w. (w, None)),
     th_report = (\<lambda>i r w. (w, Inr r)),
     th_refresh_impacts = (\<lambda>i w. (w, None)),
     th_attempt_cost = (\<lambda>t r. []),
     th_attempt_performance = (\<lambda>t a now. [])\<rparr>"

lemma example_hooks_quiet: "quiet_hooks example_task_hooks"
  by (simp add: quiet_hooks_def quiet_change_def example_task_hooks_def)

text \<open>
  Task 0, and task 1 that needs approval and waits for it; the approval comes early; task 0 is
  claimed and completed, which releases task 1, and a worker claims it.
\<close>

fun example_trace_at :: "nat \<Rightarrow> world" where
  "example_trace_at 0 = initial_world"
| "example_trace_at (Suc n) =
     (let w = example_trace_at n in
      if n = 0 then fst (create_agent_task example_registry True (example_task_request ''summarise'' []) w)
      else if n = 1 then fst (create_agent_task example_registry True (example_task_request ''apply'' [0]) w)
      else if n = 2 then fst (approve_agent_task (get_task 1 (w_db w)) 1 ''ann'' None w)
      else if n = 3 then fst (claim_next_agent_task ''worker-1'' w)
      else if n = 4 then settle (finalize_agent_task_success example_task_hooks None 0 [] w)
      else if n = 5 then fst (unblock_ready_agent_tasks w)
      else if n = 6 then fst (claim_next_agent_task ''worker-2'' w)
      else w)"

lemma example_statuses:
  "map (\<lambda>n. map task_status (db_tasks (w_db (example_trace_at n)))) [2, 3, 5, 6, 7] =
    [[T_Queued, T_Blocked], [T_Queued, T_Blocked], [T_Completed, T_Blocked],
     [T_Completed, T_Queued], [T_Completed, T_Processing]]"
  by code_simp

lemma example_worker: "\<exists>t. working ''worker-1'' 0 t (example_trace_at 4)
    \<and> \<not> result_has_applied_promotable_side_effect (task_result t)"
proof -
  have "case get_task 0 (w_db (example_trace_at 4)) of None \<Rightarrow> False | Some t \<Rightarrow>
      holds_task_lease ''worker-1'' t \<and> \<not> result_has_applied_promotable_side_effect (task_result t)"
    by code_simp
  then show ?thesis by (auto simp: working_def split: option.splits)
qed

lemma example_reachable:
  "n \<le> 7 \<Longrightarrow> (task_step cx st example_task_hooks None)\<^sup>*\<^sup>* initial_world (example_trace_at n)"
proof (induction n)
  case (Suc n)
  let ?w = "example_trace_at n"
  have "task_step cx st example_task_hooks None ?w (settle (finalize_agent_task_success example_task_hooks None 0 [] ?w))"
    if "n = 4"
    using example_worker that by (auto intro: task_step.succeeded)
  then have "task_step cx st example_task_hooks None ?w (example_trace_at (Suc n)) \<or> n > 6"
    by (auto simp: Let_def intro: task_step.intros)
  then show ?case using Suc by (auto simp del: example_trace_at.simps intro: rtranclp.rtrancl_into_rtrancl)
qed simp

lemma example_limit: "1 \<le> set_worker_max_attempts default_settings"
  by (simp add: default_settings_def)

section \<open>The invariant and the gates\<close>





text \<open>
  Why approvals and rejections must be undisturbed: they check the row without a lock. An approval
  that read the task before it was rejected and writes afterwards leaves a rejected task in the
  queue, and a worker takes it.
\<close>

lemma stale_approval_queues_rejected:
  "let w = fst (create_agent_task example_registry True (example_task_request ''apply'' []) initial_world);
       seen = get_task 0 (w_db w);
       w1 = fst (reject_agent_task seen 0 ''ann'' None w);
       w2 = fst (approve_agent_task seen 0 ''bob'' None w1) in
   map_option (\<lambda>t. (task_status t, task_rejected_by t)) (get_task 0 (w_db w2)) = Some (T_Queued, Some ''ann'')
   \<and> snd (claim_next_agent_task ''worker-1'' w2) = Some 0"
  by code_simp

text \<open>
  C33: the dependency graph of the service never has a cycle, so the search for one never finds any
  and no creation is refused for it.
\<close>

theorem dependencies_acyclic:
  assumes "(task_step cx st hk base)\<^sup>*\<^sup>* initial_world w" and "quiet_hooks hk"
    and "1 \<le> set_worker_max_attempts st"
  shows "acyclic (dep_edges (db_dependencies (w_db w)))
    \<and> validate_dependency_graph_is_acyclic ids (w_db w) = Inr ()"
proof -
  let ?E = "dep_edges (db_dependencies (w_db w))"
  have edges: "?E \<subseteq> {(i, j). j < i}"
    using reachable_tasks_ok [OF assms]
    by (auto simp: task_service_ok_def tasks_ok_def edge_ok_def dep_edges_def)
  have "wf (?E\<inverse>)"
    by (rule wf_subset [OF wf]) (use edges in auto)
  then have "acyclic ?E" using wf_acyclic acyclic_converse by blast
  then show ?thesis using dependency_check [of ids "w_db w"] by (auto simp: acyclic_def)
qed

theorem dependencies_acyclic_witness:
  "acyclic (dep_edges (db_dependencies (w_db (example_trace_at 7))))"
  using dependencies_acyclic [OF example_reachable example_hooks_quiet example_limit] by simp

section \<open>The life of a task\<close>

text \<open>
  The life of a task, as its clients know it: the phase, the number of tries, who holds the task, the
  decision on it, the result that is secured before it is finished, and the final result.
\<close>

record task_life =
  life_phase :: task_status
  life_tries :: int
  life_holder :: "string option"
  life_approved :: bool
  life_rejected :: bool
  life_secured :: "dict option"
  life_result :: "dict option"

definition life_of :: "agent_task \<Rightarrow> task_life" where
  "life_of t = \<lparr>
     life_phase = task_status t, life_tries = task_attempts t, life_holder = task_locked_by t,
     life_approved = (task_approved_at t \<noteq> None), life_rejected = (task_rejected_at t \<noteq> None),
     life_secured = (if task_status t = T_Completed then None else checkpoint_of (task_result t)),
     life_result = (if task_status t = T_Completed then Some (task_result t) else None)\<rparr>"

text \<open>
  Its moves, for a task that needs approval or not (\<open>gate\<close>) and whose dependencies are completed or
  not (\<open>ready\<close>), with at most \<open>limit\<close> tries. Failed, rejected and completed tasks have no move.
\<close>

inductive life_move :: "int \<Rightarrow> bool \<Rightarrow> bool \<Rightarrow> task_life \<Rightarrow> task_life \<Rightarrow> bool" for limit gate ready where
  stay: "life_move limit gate ready v v"
| approve: "gate \<Longrightarrow> \<not> life_approved v \<Longrightarrow> life_phase v \<in> {T_Blocked, T_Awaiting_Approval} \<Longrightarrow>
    life_move limit gate ready v
      (v\<lparr>life_approved := True, life_phase := (if ready then T_Queued else T_Blocked)\<rparr>)"
| reject: "gate \<Longrightarrow> \<not> life_approved v \<Longrightarrow> life_phase v \<in> {T_Blocked, T_Awaiting_Approval} \<Longrightarrow>
    life_move limit gate ready v (v\<lparr>life_rejected := True, life_phase := T_Rejected\<rparr>)"
| release: "life_phase v = T_Blocked \<Longrightarrow> ready \<Longrightarrow>
    life_move limit gate ready v
      (v\<lparr>life_phase := (if gate \<and> \<not> life_approved v then T_Awaiting_Approval else T_Queued)\<rparr>)"
| take_up: "life_phase v \<in> {T_Queued, T_Retry_Wait} \<Longrightarrow> ready \<Longrightarrow> gate \<longrightarrow> life_approved v \<Longrightarrow>
    \<not> life_rejected v \<Longrightarrow> life_tries v < limit \<Longrightarrow>
    life_move limit gate ready v
      (v\<lparr>life_phase := T_Processing, life_tries := life_tries v + 1, life_holder := Some worker\<rparr>)"
| secure: "life_phase v = T_Processing \<Longrightarrow> life_secured v = None \<Longrightarrow>
    life_move limit gate ready v (v\<lparr>life_secured := Some c\<rparr>)"
| complete: "life_phase v = T_Processing \<Longrightarrow>
    (\<And>c. life_secured v = Some c \<Longrightarrow>
       \<not> technical_report_verification_passed (strip_promotable_side_effect_marker c) \<Longrightarrow>
       result = strip_promotable_side_effect_marker c) \<Longrightarrow>
    life_move limit gate ready v
      (v\<lparr>life_phase := T_Completed, life_holder := None, life_secured := None, life_result := Some result\<rparr>)"
| retry: "life_phase v = T_Processing \<Longrightarrow> life_tries v < limit \<Longrightarrow>
    life_move limit gate ready v (v\<lparr>life_phase := T_Retry_Wait, life_holder := None\<rparr>)"
| give_up: "life_phase v = T_Processing \<Longrightarrow>
    life_move limit gate ready v (v\<lparr>life_phase := T_Failed, life_holder := None\<rparr>)"

text \<open>What no step changes: what was asked for, and when.\<close>

definition same_request :: "agent_task \<Rightarrow> agent_task \<Rightarrow> bool" where
  "same_request t t' =
     (task_id t' = task_id t \<and> task_type t' = task_type t \<and> task_priority t' = task_priority t
      \<and> task_side_effect_level t' = task_side_effect_level t
      \<and> task_requires_approval t' = task_requires_approval t
      \<and> task_parent_task_id t' = task_parent_task_id t \<and> task_input t' = task_input t
      \<and> task_workflow_version t' = task_workflow_version t \<and> task_tool_version t' = task_tool_version t
      \<and> task_prompt_version t' = task_prompt_version t \<and> task_model t' = task_model t
      \<and> task_model_settings t' = task_model_settings t \<and> task_created_at t' = task_created_at t)"

definition dependencies_done :: "db \<Rightarrow> uuid \<Rightarrow> bool" where
  "dependencies_done d i =
     (\<forall>r \<in> set (db_dependencies d). dep_task_id r = i \<longrightarrow>
        (\<exists>u \<in> set (db_tasks d). task_id u = dep_depends_on_task_id r \<and> task_status u = T_Completed))"

lemma no_incomplete_dependencies:
  assumes "tasks_ok limit d"
  shows "incomplete_dependencies i d = [] \<longleftrightarrow> dependencies_done d i"
proof -
  have edge: "\<exists>u \<in> set (db_tasks d). task_id u = dep_depends_on_task_id r" if "r \<in> set (db_dependencies d)" for r
    using assms that by (fastforce simp: tasks_ok_def edge_ok_def image_iff)
  have one: "u = v" if "u \<in> set (db_tasks d)" "v \<in> set (db_tasks d)" "task_id u = task_id v" for u v
    using assms that by (auto simp: tasks_ok_def distinct_map dest: inj_onD)
  show ?thesis
    unfolding incomplete_dependencies_def dependencies_done_def filter_empty_conv list_ex_iff
    using edge one by metis
qed

lemma checkpoint_of_failure [simp]: "checkpoint_of (with_failure f s d) = checkpoint_of d"
  by (simp add: checkpoint_of_def with_failure_def dict_get_set APPLIED_KEY_def CHECKPOINT_KEY_def)

lemma row_change_request: "row_change st d t t' \<Longrightarrow> same_request t t'"
  by (cases rule: row_change.cases, assumption)
    (auto simp: same_request_def change_defs split: if_splits)

lemma life_ends:
  assumes "task_status t = T_Processing"
  shows "life_move limit gate now_ready (life_of t) ((life_of t)\<lparr>life_phase := T_Failed, life_holder := None\<rparr>)"
    "task_attempts t < limit \<Longrightarrow>
      life_move limit gate now_ready (life_of t) ((life_of t)\<lparr>life_phase := T_Retry_Wait, life_holder := None\<rparr>)"
proof -
  have "life_phase (life_of t) = T_Processing" "life_tries (life_of t) = task_attempts t"
    using assms by (simp_all add: life_of_def)
  then show "life_move limit gate now_ready (life_of t) ((life_of t)\<lparr>life_phase := T_Failed, life_holder := None\<rparr>)"
    "task_attempts t < limit \<Longrightarrow>
      life_move limit gate now_ready (life_of t) ((life_of t)\<lparr>life_phase := T_Retry_Wait, life_holder := None\<rparr>)"
    using life_move.give_up life_move.retry by metis+
qed

text \<open>Each change of a row of a table in order is a move of the machine.\<close>

lemma row_change_life:
  assumes "row_change st d t t'" and ok: "tasks_ok (set_worker_max_attempts st) d"
    and t: "t \<in> set (db_tasks d)" and limit: "1 \<le> set_worker_max_attempts st"
  shows "life_move (set_worker_max_attempts st) (task_requires_approval t) (dependencies_done d (task_id t))
    (life_of t) (life_of t')"
proof -
  have row: "task_ok (set_worker_max_attempts st) t" "released d t"
    using ok t by (simp_all add: tasks_ok_def)
  note ready = no_incomplete_dependencies [OF ok, of "task_id t"]
  let ?move = "life_move (set_worker_max_attempts st) (task_requires_approval t) (dependencies_done d (task_id t))"
  show ?thesis
    using assms(1)
  proof (cases rule: row_change.cases)
    case same
    then show ?thesis by (simp add: life_move.stay)
  next
    case (approved who reason now)
    then have "life_of t' = (life_of t)\<lparr>life_approved := True,
        life_phase := (if dependencies_done d (task_id t) then T_Queued else T_Blocked)\<rparr>"
      using ready row(1) by (auto simp: life_of_def change_defs ok_defs split: if_splits)
    moreover have "?move (life_of t) ((life_of t)\<lparr>life_approved := True,
        life_phase := (if dependencies_done d (task_id t) then T_Queued else T_Blocked)\<rparr>)"
      using approved row(1)
      by (intro life_move.approve; cases "task_status t") (auto simp: life_of_def approval_refusal_def ok_defs split: if_splits)
    ultimately show ?thesis by simp
  next
    case (rejected who reason now)
    then have "life_of t' = (life_of t)\<lparr>life_rejected := True, life_phase := T_Rejected\<rparr>"
      using row(1) by (auto simp: life_of_def change_defs ok_defs split: if_splits)
    moreover have "?move (life_of t) ((life_of t)\<lparr>life_rejected := True, life_phase := T_Rejected\<rparr>)"
      using rejected row(1)
      by (intro life_move.reject; cases "task_status t") (auto simp: life_of_def rejection_refusal_def ok_defs split: if_splits)
    ultimately show ?thesis by simp
  next
    case (unblocked now)
    then have "life_of t' = (life_of t)\<lparr>life_phase :=
        (if task_requires_approval t \<and> \<not> life_approved (life_of t) then T_Awaiting_Approval else T_Queued)\<rparr>"
      by (auto simp: life_of_def unblocked_task_def)
    moreover have "?move (life_of t) ((life_of t)\<lparr>life_phase :=
        (if task_requires_approval t \<and> \<not> life_approved (life_of t) then T_Awaiting_Approval else T_Queued)\<rparr>)"
      using unblocked ready by (intro life_move.release) (simp_all add: life_of_def)
    ultimately show ?thesis by simp
  next
    case (claimed now worker)
    then have status: "task_status t \<in> {T_Queued, T_Retry_Wait}" by (auto simp: task_eligible_def)
    then have "life_of t' = (life_of t)\<lparr>life_phase := T_Processing, life_tries := life_tries (life_of t) + 1,
        life_holder := Some worker\<rparr>"
      using claimed by (auto simp: life_of_def claimed_task_def)
    moreover have "?move (life_of t) ((life_of t)\<lparr>life_phase := T_Processing,
        life_tries := life_tries (life_of t) + 1, life_holder := Some worker\<rparr>)"
    proof (rule life_move.take_up)
      show "life_phase (life_of t) \<in> {T_Queued, T_Retry_Wait}" using status by (simp add: life_of_def)
      show "dependencies_done d (task_id t)" using status row(2) ready by (auto simp: released_def)
      show "task_requires_approval t \<longrightarrow> life_approved (life_of t)" "\<not> life_rejected (life_of t)"
        using status row(1) by (auto simp: life_of_def task_ok_def approval_ok_def gated_def)
      show "life_tries (life_of t) < set_worker_max_attempts st"
        using status row(1) limit by (auto simp: life_of_def task_ok_def tries_ok_def gated_def)
    qed
    ultimately show ?thesis by simp
  next
    case (renewed now)
    then have "life_of t' = life_of t" by (simp add: life_of_def)
    then show ?thesis by (simp add: life_move.stay)
  next
    case (requeued base now)
    then have "life_of t' = (life_of t)\<lparr>life_phase :=
        (if task_attempts t < set_worker_max_attempts st then T_Retry_Wait else T_Failed), life_holder := None\<rparr>"
      by (auto simp: life_of_def change_defs)
    moreover note life_ends [OF requeued(2)]
    ultimately show ?thesis by (simp split: if_splits)
  next
    case (checkpointed now result)
    then have "life_of t' = (life_of t)\<lparr>life_secured := Some result\<rparr>"
      by (simp add: life_of_def checkpointed_task_def checkpoint_of_def APPLIED_KEY_def CHECKPOINT_KEY_def)
    moreover have "?move (life_of t) ((life_of t)\<lparr>life_secured := Some result\<rparr>)"
      using checkpointed
      by (intro life_move.secure) (simp_all add: life_of_def result_has_applied_promotable_side_effect_def)
    ultimately show ?thesis by simp
  next
    case (completed result now)
    then have "life_of t' = (life_of t)\<lparr>life_phase := T_Completed, life_holder := None, life_secured := None,
        life_result := Some result\<rparr>"
      by (simp add: life_of_def completed_task_def release_task_def)
    moreover have "?move (life_of t) ((life_of t)\<lparr>life_phase := T_Completed, life_holder := None,
        life_secured := None, life_result := Some result\<rparr>)"
      using completed by (intro life_move.complete) (auto simp: life_of_def)
    ultimately show ?thesis by simp
  next
    case (failed now e stage p)
    then have "life_of t' = (life_of t)\<lparr>life_phase := task_status t', life_holder := None\<rparr>"
      "task_status t' = T_Retry_Wait \<and> task_attempts t < set_worker_max_attempts st \<or> task_status t' = T_Failed"
      by (auto simp: life_of_def failed_task_def release_task_def Let_def)
    moreover note life_ends [OF failed(2)]
    ultimately show ?thesis by auto
  qed
qed


lemma example_task_lives:
  "case (get_task 1 (w_db (example_trace_at 6)), get_task 1 (w_db (example_trace_at 7))) of
     (Some t, Some t') \<Rightarrow> life_phase (life_of t) = T_Queued \<and> life_tries (life_of t) = 0
       \<and> life_phase (life_of t') = T_Processing \<and> life_tries (life_of t') = 1
       \<and> life_holder (life_of t') = Some ''worker-2'' \<and> task_requires_approval t
   | _ \<Rightarrow> False"
  by code_simp


lemma row_change_star:
  assumes "(task_step cx st hk base)\<^sup>*\<^sup>* w w'" and ok: "task_service_ok (set_worker_max_attempts st) w"
    and hk: "quiet_hooks hk" and limit: "1 \<le> set_worker_max_attempts st"
    and t: "get_task i (w_db w) = Some t" and P: "P t"
    and step: "\<And>d t t'. row_change st d t t' \<Longrightarrow> P t \<Longrightarrow> P t'"
  shows "task_service_ok (set_worker_max_attempts st) w' \<and> (\<exists>t'. get_task i (w_db w') = Some t' \<and> P t')"
  using assms(1)
proof induction
  case base
  then show ?case using ok t P by blast
next
  case (step v v')
  then obtain u where u: "get_task i (w_db v) = Some u" "P u" by blast
  then show ?case
    using step.hyps(2) step.IH task_step_ok [OF _ _ hk limit] task_step_row [OF _ _ hk u(1)] assms(7)
    by blast
qed

text \<open>The result of a promotable action is secured by its checkpoint, until it is the result of the task.\<close>

definition secured :: "dict \<Rightarrow> agent_task \<Rightarrow> bool" where
  "secured c t =
     (if task_status t = T_Completed
      then technical_report_verification_passed (strip_promotable_side_effect_marker c)
           \<or> task_result t = strip_promotable_side_effect_marker c
      else checkpoint_of (task_result t) = Some c)"

lemma row_change_secured: "row_change st d t t' \<Longrightarrow> secured c t \<Longrightarrow> secured c t'"
  by (cases rule: row_change.cases, assumption)
    (auto simp: secured_def change_defs result_has_applied_promotable_side_effect_def split: if_splits)


lemma example_checkpoint_worker: "\<exists>t. working ''worker-2'' 1 t (example_trace_at 7)
    \<and> \<not> result_has_applied_promotable_side_effect (task_result t)"
proof -
  have "case get_task 1 (w_db (example_trace_at 7)) of None \<Rightarrow> False | Some t \<Rightarrow>
      holds_task_lease ''worker-2'' t \<and> \<not> result_has_applied_promotable_side_effect (task_result t)"
    by code_simp
  then show ?thesis by (auto simp: working_def split: option.splits)
qed


lemma row_change_dead:
  "row_change st d t t' \<Longrightarrow> task_status t \<in> {T_Failed, T_Rejected} \<Longrightarrow> task_status t' \<in> {T_Failed, T_Rejected}"
  by (cases rule: row_change.cases, assumption) (auto simp: change_defs split: if_splits)

lemma step_dependencies:
  assumes "task_step cx st hk base w w'" and ok: "task_service_ok (set_worker_max_attempts st) w"
    and "quiet_hooks hk"
  shows "set (db_dependencies (w_db w)) \<subseteq> set (db_dependencies (w_db w'))"
proof -
  have "?thesis" if "w' = fst (create_agent_task registry True req w)" for registry req
    using that by (cases rule: create_cases [of registry req w]) auto
  moreover have "?thesis" if "w' = fst (claim_next_agent_task worker w)" for worker
  proof -
    have "tasks_settled w" using ok by (simp add: task_service_ok_def tasks_settled_def tasks_ok_def)
    then show ?thesis
      by (cases rule: claim_next_agent_task_cases [where worker = worker]) (use that in auto)
  qed
  moreover have "?thesis" if "effect st w w'" using that by (auto simp: effect_def moved_def)
  ultimately show ?thesis using task_step_cases [OF assms] by blast
qed

lemma steps_dependencies:
  assumes "(task_step cx st hk base)\<^sup>*\<^sup>* w w'" and "task_service_ok (set_worker_max_attempts st) w"
    and "quiet_hooks hk" and "1 \<le> set_worker_max_attempts st"
  shows "task_service_ok (set_worker_max_attempts st) w'
    \<and> set (db_dependencies (w_db w)) \<subseteq> set (db_dependencies (w_db w'))"
  using assms(1)
  by induction (use assms(2-4) step_dependencies task_step_ok in blast)+

text \<open>
  A task that depends on one that has failed or was rejected never runs: it stays blocked,
  unless it is itself rejected, whatever happens next. Nothing in the service tells its client.
\<close>

theorem dead_dependency_blocks:
  assumes "(task_step cx st hk base)\<^sup>*\<^sup>* initial_world w" and "quiet_hooks hk"
    and "1 \<le> set_worker_max_attempts st" and "r \<in> set (db_dependencies (w_db w))"
    and "get_task (dep_depends_on_task_id r) (w_db w) = Some u" and "task_status u \<in> {T_Failed, T_Rejected}"
    and "(task_step cx st hk base)\<^sup>*\<^sup>* w w'"
  shows "\<exists>t. get_task (dep_task_id r) (w_db w') = Some t \<and> task_status t \<in> {T_Blocked, T_Rejected}"
proof -
  have ok: "task_service_ok (set_worker_max_attempts st) w" by (rule reachable_tasks_ok [OF assms(1-3)])
  note later = steps_dependencies [OF assms(7) ok assms(2,3)]
  obtain u' where u': "get_task (dep_depends_on_task_id r) (w_db w') = Some u'"
    "task_status u' \<in> {T_Failed, T_Rejected}"
    using row_change_star [OF assms(7) ok assms(2,3,5), of "\<lambda>t. task_status t \<in> {T_Failed, T_Rejected}"]
      row_change_dead assms(6) by blast
  have r: "r \<in> set (db_dependencies (w_db w'))" using assms(4) later by blast
  then have "edge_ok (w_db w') r" using later by (simp add: task_service_ok_def tasks_ok_def)
  then obtain t where t: "t \<in> set (db_tasks (w_db w'))" "task_id t = dep_task_id r"
    by (auto simp: edge_ok_def)
  have "r \<in> set (incomplete_dependencies (task_id t) (w_db w'))"
    using r u' t(2) find_row_Some [OF u'(1)] by (auto simp: incomplete_dependencies_def list_ex_iff)
  then have "task_status t \<in> {T_Blocked, T_Rejected}"
    using later t(1) by (auto simp: task_service_ok_def tasks_ok_def released_def)
  moreover have "get_task (dep_task_id r) (w_db w') = Some t"
    using later find_row_unique [of task_id, OF _ t(1)] t(2)
    by (simp add: task_service_ok_def tasks_ok_def)
  ultimately show ?thesis by blast
qed

text \<open>Task 0 needs approval and is rejected; task 1 depends on it.\<close>

fun rejected_trace_at :: "nat \<Rightarrow> world" where
  "rejected_trace_at 0 = initial_world"
| "rejected_trace_at (Suc n) =
     (let w = rejected_trace_at n in
      if n = 0 then fst (create_agent_task example_registry True (example_task_request ''apply'' []) w)
      else if n = 1 then fst (create_agent_task example_registry True (example_task_request ''summarise'' [0]) w)
      else fst (reject_agent_task (get_task 0 (w_db w)) 0 ''ann'' None w))"

lemma rejected_trace_reachable:
  "(task_step cx st example_task_hooks None)\<^sup>*\<^sup>* initial_world (rejected_trace_at n)"
proof (induction n)
  case (Suc n)
  have "task_step cx st example_task_hooks None (rejected_trace_at n) (rejected_trace_at (Suc n))"
    by (auto simp: Let_def intro: task_step.intros)
  then show ?case using Suc by (auto simp del: rejected_trace_at.simps intro: rtranclp.rtrancl_into_rtrancl)
qed simp

theorem dead_dependency_blocks_witness:
  "\<exists>t. get_task 1 (w_db (fst (claim_next_agent_task ''w'' (rejected_trace_at 3)))) = Some t
     \<and> task_status t \<in> {T_Blocked, T_Rejected}"
proof -
  let ?w = "rejected_trace_at 3"
  have "case get_task 0 (w_db ?w) of None \<Rightarrow> False | Some u \<Rightarrow> task_status u = T_Rejected"
    "list_ex (\<lambda>r. dep_task_id r = 1 \<and> dep_depends_on_task_id r = 0) (db_dependencies (w_db ?w))"
    by code_simp+
  then obtain u r where u: "get_task 0 (w_db ?w) = Some u" "task_status u \<in> {T_Failed, T_Rejected}"
    and r: "r \<in> set (db_dependencies (w_db ?w))" "dep_task_id r = 1" "dep_depends_on_task_id r = 0"
    by (auto simp: list_ex_iff split: option.splits)
  have step: "(task_step example_codecs default_settings example_task_hooks None)\<^sup>*\<^sup>* ?w
      (fst (claim_next_agent_task ''w'' ?w))"
    by (intro r_into_rtranclp task_step.claim)
  show ?thesis
    using dead_dependency_blocks [OF rejected_trace_reachable example_hooks_quiet example_limit r(1) _ u(2) step]
      u(1) r by simp
qed

section \<open>One worker\<close>

text \<open>
  C32: a worker that takes over a task with a checkpointed result finishes it with that result: the
  executor, and with it the side effect of a promotable action, is not run again.
\<close>

theorem checkpoint_not_rerun:
  assumes "get_task i (w_db w) = Some t" and "result_has_applied_promotable_side_effect (task_result t)"
  shows "process_agent_task cx st hk base i w =
    process_agent_task cx st (hk\<lparr>th_execute := other\<rparr>) base i w"
proof -
  have task: "get_task i (w_db (heartbeat_agent_task i w)) =
      Some (t\<lparr>task_last_heartbeat_at := Some (w_clock w), task_updated_at := w_clock w\<rparr>)"
    using assms(1) by (simp add: heartbeat_agent_task_def find_row_update)
  let ?hk = "hk\<lparr>th_execute := other\<rparr>"
  have hooks: "th_write_context ?hk = th_write_context hk" "th_report ?hk = th_report hk"
    "th_refresh_impacts ?hk = th_refresh_impacts hk" "th_attempt_cost ?hk = th_attempt_cost hk"
    "th_attempt_performance ?hk = th_attempt_performance hk" by simp_all
  have "finish_task ?hk b j res v = finish_task hk b j res v" for b j res v
    unfolding finish_task_def finalize_agent_task_success_def completed_attempt_def hooks by (rule refl)
  moreover have "finalize_agent_task_failure cx st ?hk b j e s v =
      finalize_agent_task_failure cx st hk b j e s v" for b j e s v
    unfolding finalize_agent_task_failure_def failed_attempt_def hooks by (rule refl)
  ultimately show ?thesis
    using assms task
    by (simp add: process_agent_task_def execute_task_def Let_def cong: option.case_cong prod.case_cong)
qed

definition checkpointed_world :: world where
  "checkpointed_world = checkpoint_promotable_task_result 1 [(''n'', JInt 1)] (example_trace_at 7)"

theorem checkpoint_not_rerun_witness:
  "process_agent_task example_codecs default_settings example_task_hooks None 1 checkpointed_world =
   process_agent_task example_codecs default_settings (example_task_hooks\<lparr>th_execute := \<lambda>t w. (rollback w, Inl (value_error ''x''))\<rparr>)
     None 1 checkpointed_world"
proof -
  have "case get_task 1 (w_db checkpointed_world) of None \<Rightarrow> False
      | Some t \<Rightarrow> result_has_applied_promotable_side_effect (task_result t)"
    by code_simp
  then show ?thesis by (auto intro: checkpoint_not_rerun split: option.splits)
qed

text \<open>
  What the hooks of a worker may do: the executor and the writer of the context may also commit,
  but leave the task tables alone. Each of them may raise.
\<close>

definition leaves_tasks :: "world \<Rightarrow> world \<Rightarrow> bool" where
  "leaves_tasks w w' =
     (db_tasks (w_db w') = db_tasks (w_db w) \<and> db_tasks (w_saved w') = db_tasks (w_saved w)
      \<and> w_clock w' = w_clock w)"

definition worker_hooks :: "task_hooks \<Rightarrow> bool" where
  "worker_hooks hk =
     (quiet_hooks hk \<and> (\<forall>t w. leaves_tasks w (fst (th_execute hk t w)))
      \<and> (\<forall>t r w. leaves_tasks w (fst (th_write_context hk t r w))))"

text \<open>
  The row of the task is there with attempts, status and holder of \<open>c\<close>, and the other rows are as at
  the start: in the session and, while the worker has the task in hand, in what is committed.
\<close>

definition same_try :: "agent_task \<Rightarrow> agent_task \<Rightarrow> bool" where
  "same_try c t = (task_attempts t = task_attempts c \<and> task_status t = task_status c
     \<and> task_locked_by t = task_locked_by c)"

definition only_task :: "uuid \<Rightarrow> (agent_task \<Rightarrow> bool) \<Rightarrow> db \<Rightarrow> db \<Rightarrow> bool" where
  "only_task i P d d' =
     ((\<exists>t. get_task i d' = Some t \<and> P t) \<and> (\<forall>j. j \<noteq> i \<longrightarrow> get_task j d' = get_task j d))"

definition in_hand :: "uuid \<Rightarrow> agent_task \<Rightarrow> db \<Rightarrow> world \<Rightarrow> bool" where
  "in_hand i c d w = (only_task i (same_try c) d (w_db w) \<and> only_task i (same_try c) d (w_saved w))"

lemma find_row_replaced:
  "key c = i \<Longrightarrow> find_row key j (update_row key i (\<lambda>_. c) rows) =
     (if j = i then map_option (\<lambda>_. c) (find_row key i rows) else find_row key j rows)"
  by (induction rows) auto

lemma only_task_upd:
  assumes "only_task i P d d'" and "db_tasks d'' = update_row task_id i f (db_tasks d')"
    and "\<And>t. task_id (f t) = task_id t" and "\<And>t. P t \<Longrightarrow> P (f t)"
  shows "only_task i P d d''"
  using assms by (auto simp: only_task_def find_row_update)

lemma in_hand_leaves: "in_hand i c d w \<Longrightarrow> leaves_tasks w w' \<Longrightarrow> in_hand i c d w'"
  by (simp add: in_hand_def leaves_tasks_def only_task_def)

lemma in_hand_heartbeat: "in_hand i c d w \<Longrightarrow> in_hand i c d (heartbeat_agent_task i w)"
  unfolding in_hand_def heartbeat_agent_task_def
  by (auto simp: same_try_def intro: only_task_upd)

lemma in_hand_checkpoint: "in_hand i c d w \<Longrightarrow> in_hand i c d (checkpoint_promotable_task_result i r w)"
  unfolding in_hand_def checkpoint_promotable_task_result_def
  by (auto simp: same_try_def checkpointed_task_def intro: only_task_upd)

text \<open>How a task is left: committed, without a lease, and completed, waiting or failed.\<close>

definition settled_row :: "settings \<Rightarrow> agent_task \<Rightarrow> agent_task \<Rightarrow> bool" where
  "settled_row st c t =
     (task_attempts t = task_attempts c \<and> task_locked_by t = None \<and>
      (task_status t = T_Completed \<or> task_status t = T_Failed
       \<or> (task_status t = T_Retry_Wait \<and> task_attempts c < set_worker_max_attempts st)))"

definition left_settled :: "settings \<Rightarrow> uuid \<Rightarrow> agent_task \<Rightarrow> db \<Rightarrow> world \<Rightarrow> bool" where
  "left_settled st i c d w = (w_saved w = w_db w \<and> only_task i (settled_row st c) d (w_db w))"

lemma success_left:
  assumes "in_hand i c d w" and hk: "quiet_hooks hk"
    and "finalize_agent_task_success hk base i result w = (w', x)"
  shows "case x of None \<Rightarrow> left_settled st i c d w' | Some e \<Rightarrow> only_task i (same_try c) d (w_saved w')"
proof -
  obtain t where t: "get_task i (w_db w) = Some t" "same_try c t"
    using assms(1) by (auto simp: in_hand_def only_task_def)
  from t(1) hk show ?thesis
  proof (cases rule: finalize_success_cases [where base = base and result = result])
    case (raised v e)
    then show ?thesis using assms(1,3) by (simp add: in_hand_def)
  next
    case (finished final v)
    have "get_task i (w_db v) = Some (completed_task (w_clock w) final t)"
      "j \<noteq> i \<Longrightarrow> get_task j (w_db v) = get_task j (w_db w)" for j
      using finished(2) t(1) by (simp_all add: find_row_update)
    then have "only_task i (settled_row st c) d (w_db v)"
      using assms(1) t(2) by (simp add: only_task_def in_hand_def settled_row_def same_try_def
          completed_task_def release_task_def)
    then show ?thesis using assms(3) finished(1) by (auto simp: left_settled_def only_task_def)
  qed
qed

lemma failure_left:
  assumes "in_hand i c d w" and hk: "worker_hooks hk"
  shows "\<exists>w' x. finalize_agent_task_failure cx st hk base i e stage w = (w', x) \<and>
    (case x of
       None \<Rightarrow> left_settled st i c d w'
     | Some e' \<Rightarrow> only_task i (same_try c) d (w_saved w') \<and> (\<exists>v. snd (th_refresh_impacts hk i v) = Some e'))"
proof -
  obtain t where t: "get_task i (w_db w) = Some t" "same_try c t"
    using assms(1) by (auto simp: in_hand_def only_task_def)
  have quiet: "quiet_hooks hk" using hk by (simp add: worker_hooks_def)
  from t(1) this obtain w3 w4 x p where final: "th_refresh_impacts hk i w3 = (w4, x)"
    "finalize_agent_task_failure cx st hk base i e stage w =
       (case x of None \<Rightarrow> (commit w4, None) | Some e' \<Rightarrow> (w4, Some e'))"
    "db_tasks (w_db w4) = update_row task_id i
       (\<lambda>_. (failed_task st (w_clock w) e stage t)\<lparr>task_failure_artifact_path := p\<rparr>) (db_tasks (w_db w))"
    "db_attempts (w_db w4) = db_attempts (on_current_attempt t
       (failed_attempt hk (w_clock w) e stage (failing_task (w_clock w) e stage t)) (w_db w))"
    "db_dependencies (w_db w4) = db_dependencies (w_db w)"
    "w_saved w4 = w_saved w"
    by (rule finalize_failure_cases)
  show ?thesis
  proof (cases x)
    case None
    have i: "task_id t = i" using find_row_Some [OF t(1)] by blast
    have get: "get_task j (w_db w4) = (if j = i
        then Some ((failed_task st (w_clock w) e stage t)\<lparr>task_failure_artifact_path := p\<rparr>)
        else get_task j (w_db w))" for j
      unfolding final(3) using t(1) i by (auto simp: find_row_replaced)
    then have "left_settled st i c d (commit w4)"
      using assms(1) t by (auto simp: left_settled_def settled_row_def same_try_def in_hand_def
          only_task_def failed_task_def release_task_def Let_def)
    then show ?thesis using final(2) None by simp
  next
    case (Some e')
    have "snd (th_refresh_impacts hk i w3) = Some e'" using final(1) Some by simp
    then show ?thesis using final(2,6) Some assms(1) by (auto simp: in_hand_def)
  qed
qed

lemma finish_left:
  assumes "in_hand i c d w" and hk: "worker_hooks hk"
    and "finish_task hk base i result w = (w', stage, x)"
  shows "case x of None \<Rightarrow> left_settled st i c d w' | Some e \<Rightarrow> only_task i (same_try c) d (w_saved w')"
proof -
  let ?w1 = "heartbeat_agent_task i w"
  have w1: "in_hand i c d ?w1" by (rule in_hand_heartbeat [OF assms(1)])
  then obtain t where t: "get_task i (w_db ?w1) = Some t" by (auto simp: in_hand_def only_task_def)
  obtain w2 y where y: "th_write_context hk t result ?w1 = (w2, y)" by fastforce
  then have "leaves_tasks ?w1 w2" using hk by (metis fst_conv worker_hooks_def)
  then have w2: "in_hand i c d w2" by (rule in_hand_leaves [OF w1])
  show ?thesis
  proof (cases y)
    case None
    obtain w3 z where z: "finalize_agent_task_success hk base i result w2 = (w3, z)" by fastforce
    have "quiet_hooks hk" using hk by (simp add: worker_hooks_def)
    then show ?thesis
      using success_left [OF w2 _ z, of st] assms(3) t y z None by (auto simp: finish_task_def Let_def)
  next
    case (Some e)
    then show ?thesis using assms(3) t y w2 by (auto simp: finish_task_def in_hand_def Let_def)
  qed
qed

lemma execute_left:
  assumes "in_hand i c d w" and hk: "worker_hooks hk"
    and "execute_task hk base i t w = (w', stage, x)"
  shows "case x of None \<Rightarrow> left_settled st i c d w' | Some e \<Rightarrow> only_task i (same_try c) d (w_saved w')"
proof (cases "result_has_applied_promotable_side_effect (task_result t)")
  case True
  then show ?thesis using finish_left [OF assms(1) hk] assms(3) by (simp add: execute_task_def)
next
  case False
  obtain w2 y where y: "th_execute hk t w = (w2, y)" by fastforce
  then have "leaves_tasks w w2" using hk by (metis fst_conv worker_hooks_def)
  then have w2: "in_hand i c d w2" by (rule in_hand_leaves [OF assms(1)])
  show ?thesis
  proof (cases y)
    case (Inl e)
    then show ?thesis using assms(3) False y w2 by (auto simp: execute_task_def in_hand_def)
  next
    case (Inr result)
    have "in_hand i c d (if task_side_effect_level t = Promotable
        then checkpoint_promotable_task_result i result w2 else w2)"
      using w2 in_hand_checkpoint by simp
    from finish_left [OF this hk] show ?thesis using assms(3) False y Inr by (simp add: execute_task_def)
  qed
qed


text \<open>Hooks whose impact refresh raises.\<close>

definition refresh_fails :: task_hooks where
  "refresh_fails = example_task_hooks\<lparr>th_refresh_impacts := \<lambda>i w. (w, Some (value_error ''impact''))\<rparr>"


end
