(* ===== verification/Search_Features.thy ===== *)
theory Search_Features
  imports Text_Norm
begin

text \<open>
  \<open>app/services/search_query_features.py\<close>: how a search query is read. The text is normalised into
  words of letters and words of digits; from them come the tokens, phrases and rare tokens that the
  reranker compares with documents, and the query is classified as tabular, a lookup or broad.

  The lemmas show that normalisation yields words of one kind separated by single blanks and is
  idempotent, and that coverage is a proportion.
\<close>

section \<open>Character classes\<close>

text \<open>\<open>isalpha\<close>, \<open>isdigit\<close> and the class \<open>\w\<close> of \<open>re\<close> on code points below 256.\<close>

definition is_alpha :: "char \<Rightarrow> bool" where
  "is_alpha c = (let n = (of_char c :: nat) in
     is_letter_ascii c \<or> n \<in> {170, 181, 186} \<or> 192 \<le> n \<and> n \<noteq> 215 \<and> n \<noteq> 247)"

definition is_digit :: "char \<Rightarrow> bool" where
  "is_digit c = (is_digit_ascii c \<or> (of_char c :: nat) \<in> {178, 179, 185})"

definition is_word_char :: "char \<Rightarrow> bool" where
  "is_word_char c = (is_alpha c \<or> is_digit c \<or> c = CHR ''_'' \<or> (of_char c :: nat) \<in> {188, 189, 190})"

section \<open>Normalisation\<close>

text \<open>
  \<open>re.sub\<close> of a zero-width match by a blank: the condition sees the character before the position
  and what follows it.
\<close>

fun insert_blanks :: "(char \<Rightarrow> string \<Rightarrow> bool) \<Rightarrow> string \<Rightarrow> string" where
  "insert_blanks here [] = []"
| "insert_blanks here [c] = [c]"
| "insert_blanks here (c # d # cs) =
     (if here c (d # cs) then c # CHR '' '' # insert_blanks here (d # cs)
      else c # insert_blanks here (d # cs))"

fun acronym_end :: "char \<Rightarrow> string \<Rightarrow> bool" where
  "acronym_end c (d # e # cs) = (is_upper_ascii c \<and> is_upper_ascii d \<and> is_lower_ascii e)"
| "acronym_end c cs = False"

fun camel_hump :: "char \<Rightarrow> string \<Rightarrow> bool" where
  "camel_hump c (d # cs) = ((is_lower_ascii c \<or> is_digit_ascii c) \<and> is_upper_ascii d)"
| "camel_hump c [] = False"

fun letter_digit :: "char \<Rightarrow> string \<Rightarrow> bool" where
  "letter_digit c (d # cs) =
     (is_letter_ascii c \<and> is_digit_ascii d \<or> is_digit_ascii c \<and> is_letter_ascii d)"
| "letter_digit c [] = False"

definition is_key_char :: "char \<Rightarrow> bool" where
  "is_key_char c = (is_lower_ascii c \<or> is_digit_ascii c)"

text \<open>\<open>re.sub(r"[^a-z0-9]+", " ", s)\<close>.\<close>

function blank_others :: "string \<Rightarrow> string" where
  "blank_others [] = []"
| "blank_others (c # cs) =
     (if is_key_char c then c # blank_others cs
      else CHR '' '' # blank_others (dropWhile (\<lambda>d. \<not> is_key_char d) cs))"
  by pat_completeness auto
termination
  by (relation "measure length") (auto simp: le_imp_less_Suc length_dropWhile_le)

definition normalize_search_text :: "string option \<Rightarrow> string" where
  "normalize_search_text value =
     (case value of
        None \<Rightarrow> []
      | Some s \<Rightarrow>
          (let expanded = insert_blanks letter_digit
                 (insert_blanks camel_hump (insert_blanks acronym_end s)) in
           str_strip (collapse_ws (blank_others (str_lower expanded)))))"

text \<open>
  A normal form: letters and digits of one case with single blanks between words, and words of
  letters only or of digits only.
\<close>

definition mixed :: "char \<Rightarrow> char \<Rightarrow> bool" where
  "mixed c d = (is_letter_ascii c \<and> is_digit_ascii d \<or> is_digit_ascii c \<and> is_letter_ascii d)"

definition tidy_pair :: "char \<Rightarrow> char \<Rightarrow> bool" where
  "tidy_pair c d \<longleftrightarrow> \<not> mixed c d \<and> \<not> (c = CHR '' '' \<and> d = CHR '' '')"

definition tidy :: "string \<Rightarrow> bool" where
  "tidy s \<longleftrightarrow> (\<forall>c \<in> set s. is_key_char c \<or> c = CHR '' '') \<and> successively tidy_pair s"

lemma letter_digit_mixed: "letter_digit c (d # cs) = mixed c d"
  by (simp add: mixed_def)

lemma key_char_classes:
  "is_key_char c \<Longrightarrow> \<not> is_space c" "is_key_char c \<Longrightarrow> \<not> is_upper_ascii c"
  "is_key_char c \<Longrightarrow> char_lower c = c" "is_key_char c \<Longrightarrow> c \<noteq> CHR '' ''"
  by (auto simp: is_key_char_def is_lower_ascii_def is_digit_ascii_def is_space_def is_upper_ascii_def
      char_lower_def Let_def)

lemma blank_classes [simp]:
  "\<not> is_key_char CHR '' ''" "\<not> is_upper_ascii CHR '' ''" "char_lower CHR '' '' = CHR '' ''"
  "\<not> mixed c CHR '' ''" "\<not> mixed CHR '' '' c"
  by (simp_all add: is_key_char_def is_lower_ascii_def is_digit_ascii_def is_upper_ascii_def
      char_lower_def mixed_def is_letter_ascii_def Let_def)

lemma insert_blanks_head: "\<exists>r. insert_blanks f (c # cs) = c # r"
  by (cases cs) auto

lemma insert_blanks_separates:
  "successively (\<lambda>c d. \<not> mixed c d) (insert_blanks letter_digit s)"
proof (induction "letter_digit" s rule: insert_blanks.induct)
  case (3 c d cs)
  obtain r where "insert_blanks letter_digit (d # cs) = d # r" using insert_blanks_head by metis
  with 3 show ?case by (simp del: letter_digit.simps add: letter_digit_mixed)
qed simp_all

lemma insert_blanks_id:
  "successively (\<lambda>c d. \<forall>r. \<not> f c (d # r)) s \<Longrightarrow> insert_blanks f s = s"
  by (induction f s rule: insert_blanks.induct) auto

lemma mixed_lower [simp]: "mixed (char_lower c) (char_lower d) = mixed c d"
proof -
  have "of_char (char_lower c) = (let n = (of_char c :: nat) in
     if (65 \<le> n \<and> n \<le> 90) \<or> (192 \<le> n \<and> n \<le> 222 \<and> n \<noteq> 215) then n + 32 else n)" for c
    by (simp add: char_lower_def Let_def)
  then have "is_letter_ascii (char_lower c) = is_letter_ascii c" "is_digit_ascii (char_lower c) = is_digit_ascii c"
    for c
    by (auto simp: is_letter_ascii_def is_upper_ascii_def is_lower_ascii_def is_digit_ascii_def Let_def)
  then show ?thesis by (simp add: mixed_def)
qed

lemma successively_dropWhile: "successively P xs \<Longrightarrow> successively P (dropWhile Q xs)"
  by (metis successively_append_iff takeWhile_dropWhile_id)

lemma blank_others_tidy:
  "successively (\<lambda>c d. \<not> mixed c d) s \<Longrightarrow>
   tidy (blank_others s) \<and> (s \<noteq> [] \<longrightarrow> blank_others s \<noteq> [] \<and> hd (blank_others s) = (if is_key_char (hd s) then hd s else CHR '' ''))"
proof (induction s rule: blank_others.induct)
  case (2 c cs)
  show ?case
  proof (cases "is_key_char c")
    case True
    have "successively (\<lambda>c d. \<not> mixed c d) cs" using 2(3) by (cases cs) auto
    with 2(1) [OF True] have IH: "tidy (blank_others cs)" "cs \<noteq> [] \<longrightarrow> blank_others cs \<noteq> []
        \<and> hd (blank_others cs) = (if is_key_char (hd cs) then hd cs else CHR '' '')" by auto
    have "blank_others cs = [] \<or> tidy_pair c (hd (blank_others cs))"
      using IH(2) 2(3) True by (cases cs) (auto simp: tidy_pair_def key_char_classes(4))
    with IH(1) True show ?thesis by (simp add: tidy_def successively_Cons)
  next
    case False
    let ?rest = "dropWhile (\<lambda>d. \<not> is_key_char d) cs"
    have "successively (\<lambda>c d. \<not> mixed c d) ?rest"
      using 2(3) by (intro successively_dropWhile) (cases cs; auto)
    with 2(2) [OF False] have IH: "tidy (blank_others ?rest)" "?rest \<noteq> [] \<longrightarrow> blank_others ?rest \<noteq> []
        \<and> hd (blank_others ?rest) = (if is_key_char (hd ?rest) then hd ?rest else CHR '' '')" by auto
    have "blank_others ?rest = [] \<or> tidy_pair CHR '' '' (hd (blank_others ?rest))"
    proof (cases ?rest)
      case Nil
      show ?thesis unfolding Nil by simp
    next
      case (Cons d ds)
      then have "is_key_char (hd ?rest)" by (metis hd_dropWhile list.distinct(1))
      with IH(2) Cons show ?thesis by (auto simp: tidy_pair_def)
    qed
    with IH(1) False show ?thesis by (simp add: tidy_def successively_Cons)
  qed
qed (simp add: tidy_def)

lemma tidy_collapse: "tidy s \<Longrightarrow> collapse_ws s = s"
proof (induction s)
  case (Cons c cs)
  then have IH: "collapse_ws cs = cs" by (auto simp: tidy_def successively_Cons)
  have "is_space c \<Longrightarrow> c = CHR '' '' \<and> dropWhile is_space cs = cs"
    using Cons.prems by (cases cs) (auto simp: tidy_def tidy_pair_def key_char_classes(1))
  with IH show ?case by auto
qed simp

lemma tidy_Nil [simp]: "tidy []"
  by (simp add: tidy_def)

lemma tidy_strip: "tidy s \<Longrightarrow> tidy (str_strip s)"
proof -
  assume s: "tidy s"
  have sub: "set (str_strip s) \<subseteq> set s"
    unfolding str_strip_def by (auto dest!: set_dropWhileD)
  have "successively tidy_pair (dropWhile is_space s)"
    using s by (simp add: tidy_def successively_dropWhile)
  then have "successively tidy_pair (str_strip s)"
    unfolding str_strip_def successively_rev by (intro successively_dropWhile) simp
  with s sub show ?thesis by (auto simp: tidy_def)
qed

lemma strip_fixed: "str_strip (str_strip s) = str_strip s"
proof -
  have "dropWhile is_space (str_strip s) = str_strip s"
  proof (cases "dropWhile is_space s")
    case (Cons c cs)
    then have "\<not> is_space c" by (metis hd_dropWhile list.distinct(1) list.sel(1))
    then have "str_strip s = c # rev (dropWhile is_space (rev cs))"
      unfolding str_strip_def Cons by (simp add: dropWhile_append3 dropWhile_append)
    then show ?thesis using \<open>\<not> is_space c\<close> by simp
  next
    case Nil
    then show ?thesis unfolding str_strip_def Nil by simp
  qed
  then show ?thesis by (simp add: str_strip_def [of "str_strip s"]) (simp add: str_strip_def)
qed

text \<open>A tidy text without blanks at its ends is what normalisation gives, and gives back.\<close>

lemma normalize_tidy:
  assumes "tidy s" and "str_strip s = s"
  shows "normalize_search_text (Some s) = s"
proof -
  have keys: "\<And>c. c \<in> set s \<Longrightarrow> is_key_char c \<or> c = CHR '' ''" and succ: "successively tidy_pair s"
    using assms(1) by (auto simp: tidy_def)
  have no_upper: "\<not> is_upper_ascii c" if "c \<in> set s" for c
    using keys [OF that] key_char_classes(2) by auto
  have low: "str_lower s = s"
    unfolding str_lower_def by (rule map_idI) (use keys key_char_classes(3) in fastforce)
  have "successively (\<lambda>c d. \<forall>r. \<not> letter_digit c (d # r)) s"
    using succ by (rule successively_mono) (simp del: letter_digit.simps add: letter_digit_mixed tidy_pair_def)
  moreover have "successively (\<lambda>c d. \<forall>r. \<not> camel_hump c (d # r)) s"
    using succ by (rule successively_mono) (simp add: no_upper)
  moreover have "successively (\<lambda>c d. \<forall>r. \<not> acronym_end c (d # r)) s"
  proof (rule successively_mono [OF succ], intro allI)
    show "\<not> acronym_end c (d # r)" if "c \<in> set s" for c d r
      using no_upper [OF that] by (cases r) auto
  qed
  ultimately have ins: "insert_blanks letter_digit (insert_blanks camel_hump (insert_blanks acronym_end s)) = s"
    by (simp add: insert_blanks_id)
  have "tidy t \<Longrightarrow> blank_others t = t" for t
  proof (induction t)
    case (Cons c cs)
    then have IH: "blank_others cs = cs" by (auto simp: tidy_def successively_Cons)
    have "\<not> is_key_char c \<Longrightarrow> c = CHR '' '' \<and> dropWhile (\<lambda>d. \<not> is_key_char d) cs = cs"
      using Cons.prems by (cases cs) (auto simp: tidy_def tidy_pair_def)
    with IH show ?case by auto
  qed simp
  with assms show ?thesis
    by (simp add: normalize_search_text_def ins low tidy_collapse)
qed

lemma normalize_result:
  "tidy (normalize_search_text v)" "str_strip (normalize_search_text v) = normalize_search_text v"
proof -
  have "tidy (blank_others (str_lower (insert_blanks letter_digit s)))" for s
    using blank_others_tidy [of "str_lower (insert_blanks letter_digit s)"] insert_blanks_separates [of s]
    by (simp add: str_lower_def successively_map)
  then show "tidy (normalize_search_text v)"
    by (simp add: normalize_search_text_def Let_def tidy_collapse tidy_strip split: option.split)
  show "str_strip (normalize_search_text v) = normalize_search_text v"
    by (simp add: normalize_search_text_def Let_def strip_fixed split: option.split)
      (simp add: str_strip_def)
qed

section \<open>Tokens and phrases\<close>

definition QUERY_STOPWORDS :: "string list" where
  "QUERY_STOPWORDS =
     [''a'', ''an'', ''and'', ''are'', ''as'', ''at'', ''be'', ''by'', ''for'', ''from'', ''how'',
      ''in'', ''is'', ''it'', ''of'', ''on'', ''or'', ''that'', ''the'', ''this'', ''to'', ''what'',
      ''when'', ''where'', ''which'', ''who'', ''why'', ''with'']"

definition salient_tokens_from_normalized :: "string \<Rightarrow> string set" where
  "salient_tokens_from_normalized normalized =
     set (filter (\<lambda>t. length t \<ge> 3 \<and> t \<notin> set QUERY_STOPWORDS) (str_split normalized))"

definition salient_tokens :: "string option \<Rightarrow> string set" where
  "salient_tokens value = salient_tokens_from_normalized (normalize_search_text value)"

definition phrase_tokens_from_normalized :: "string \<Rightarrow> string list" where
  "phrase_tokens_from_normalized normalized =
     filter (\<lambda>t. t \<notin> set QUERY_STOPWORDS) (str_split normalized)"

definition query_phrases_from_normalized :: "string \<Rightarrow> nat \<Rightarrow> string set" where
  "query_phrases_from_normalized normalized phrase_size =
     (let tokens = phrase_tokens_from_normalized normalized in
      if length tokens < phrase_size then {}
      else set (map (\<lambda>i. str_join '' '' (slice i (i + phrase_size) tokens))
             [0..<length tokens - phrase_size + 1]))"

record query_feature_set =
  qf_normalized_query :: string
  qf_normalized_tokens :: "string set"
  qf_salient_tokens :: "string set"
  qf_rare_tokens :: "string set"
  qf_phrases :: "string set"

definition build_query_feature_set :: "string option \<Rightarrow> query_feature_set" where
  "build_query_feature_set query =
     (let normalized_query = normalize_search_text query;
          salient = salient_tokens_from_normalized normalized_query in
      \<lparr>qf_normalized_query = normalized_query,
       qf_normalized_tokens = set (str_split normalized_query),
       qf_salient_tokens = salient,
       qf_rare_tokens = Set.filter (\<lambda>t. length t \<ge> 7) salient,
       qf_phrases = query_phrases_from_normalized normalized_query 2\<rparr>)"

text \<open>The argument \<open>QueryFeatureSet | str | None\<close> of the comparison functions.\<close>

datatype query_arg = Features query_feature_set | Query_Text "string option"

fun coerce_query_feature_set :: "query_arg \<Rightarrow> query_feature_set" where
  "coerce_query_feature_set (Features f) = f"
| "coerce_query_feature_set (Query_Text q) = build_query_feature_set q"

section \<open>Comparing a query with a text\<close>

text \<open>\<open>len(a & b) / len(a)\<close>, with exact quotients in place of floats.\<close>

definition share :: "'a set \<Rightarrow> 'a set \<Rightarrow> rat" where
  "share a b = of_nat (card (a \<inter> b)) / of_nat (card a)"

definition token_coverage :: "query_arg \<Rightarrow> string option \<Rightarrow> rat" where
  "token_coverage query value =
     (let query_tokens = qf_salient_tokens (coerce_query_feature_set query);
          value_tokens = salient_tokens value in
      if query_tokens = {} \<or> value_tokens = {} then 0 else share query_tokens value_tokens)"

definition strong_document_phrase_match :: "query_arg \<Rightarrow> string option \<Rightarrow> rat" where
  "strong_document_phrase_match query value =
     (let normalized_query = qf_normalized_query (coerce_query_feature_set query);
          normalized_value = normalize_search_text value in
      if normalized_query = [] \<or> normalized_value = [] then 0
      else if length (str_split normalized_value) < 2 \<and> length normalized_value < 8 then 0
      else if str_contains normalized_query normalized_value then 1
      else if str_contains normalized_value normalized_query then 1
      else 0)"

definition metadata_query_tokens :: "string option \<Rightarrow> string list" where
  "metadata_query_tokens value =
     sort (remdups (phrase_tokens_from_normalized (normalize_search_text value)))"

section \<open>The intent of a query\<close>

text \<open>
  The pattern \<open>\b\d+(?:\.\d+)+(?:\s*\(\s*\d+\s*\))?\b\<close>. A position is the reversed text before it
  and the text after it; a matcher gives the positions where a match from here can end.
\<close>

type_synonym position = "string \<times> string"
type_synonym matcher = "position \<Rightarrow> position list"

fun one :: "(char \<Rightarrow> bool) \<Rightarrow> matcher" where
  "one p (left, c # cs) = (if p c then [(c # left, cs)] else [])"
| "one p (left, []) = []"

fun many :: "(char \<Rightarrow> bool) \<Rightarrow> string \<Rightarrow> string \<Rightarrow> position list" where
  "many p left [] = [(left, [])]"
| "many p left (c # cs) =
     (if p c then many p (c # left) cs else []) @ [(left, c # cs)]"

definition zero_or_more :: "(char \<Rightarrow> bool) \<Rightarrow> matcher" where
  "zero_or_more p pos = many p (fst pos) (snd pos)"

definition and_then :: "matcher \<Rightarrow> matcher \<Rightarrow> matcher" where
  "and_then m n pos = concat (map n (m pos))"

definition one_or_more :: "(char \<Rightarrow> bool) \<Rightarrow> matcher" where
  "one_or_more p = and_then (one p) (zero_or_more p)"

definition optionally :: "matcher \<Rightarrow> matcher" where
  "optionally m pos = m pos @ [pos]"

text \<open>At least one round of a matcher; rounds that consume nothing are cut off.\<close>

function repeatedly :: "matcher \<Rightarrow> matcher" where
  "repeatedly m pos =
     concat (map (\<lambda>q. repeatedly m q @ [q])
       (filter (\<lambda>q. length (snd q) < length (snd pos)) (m pos)))"
  by pat_completeness auto
termination
  by (relation "measure (\<lambda>(m, pos). length (snd pos))") auto

declare repeatedly.simps [simp del]

definition at_word_boundary :: "position \<Rightarrow> bool" where
  "at_word_boundary pos =
     ((case fst pos of [] \<Rightarrow> False | c # _ \<Rightarrow> is_word_char c)
        \<noteq> (case snd pos of [] \<Rightarrow> False | c # _ \<Rightarrow> is_word_char c))"

definition word_boundary :: matcher where
  "word_boundary pos = (if at_word_boundary pos then [pos] else [])"

definition tabular_reference :: matcher where
  "tabular_reference =
     and_then word_boundary (and_then (one_or_more is_digit_ascii)
       (and_then (repeatedly (and_then (one (\<lambda>c. c = CHR ''.'')) (one_or_more is_digit_ascii)))
         (and_then (optionally
             (and_then (zero_or_more is_space) (and_then (one (\<lambda>c. c = CHR ''(''))
               (and_then (zero_or_more is_space) (and_then (one_or_more is_digit_ascii)
                 (and_then (zero_or_more is_space) (one (\<lambda>c. c = CHR '')''))))))))
           word_boundary)))"

fun search_from :: "matcher \<Rightarrow> string \<Rightarrow> string \<Rightarrow> bool" where
  "search_from m left [] = (m (left, []) \<noteq> [])"
| "search_from m left (c # cs) = (m (left, c # cs) \<noteq> [] \<or> search_from m (c # left) cs)"

definition is_tabular_query :: "string \<Rightarrow> bool" where
  "is_tabular_query query =
     (let normalized = str_lower query in
      list_ex (\<lambda>t. str_contains t normalized) [''table'', ''row'', ''column'']
      \<or> list_ex (\<lambda>t. str_contains t normalized) [''>'', ''<'', ''>='', ''<='', ''greater than'', ''less than'']
      \<or> search_from tabular_reference [] normalized)"

datatype query_intent = Tabular | Prose_Lookup | Prose_Broad

fun query_intent_value :: "query_intent \<Rightarrow> string" where
  "query_intent_value Tabular = ''tabular''"
| "query_intent_value Prose_Lookup = ''prose_lookup''"
| "query_intent_value Prose_Broad = ''prose_broad''"

definition starts_with :: "string \<Rightarrow> string \<Rightarrow> bool" where
  "starts_with p s = (take (length p) s = p)"

definition QUESTION_STARTS :: "string list" where
  "QUESTION_STARTS =
     [''what '', ''what is '', ''what does '', ''which '', ''who '', ''when '', ''where '', ''how many '',
      ''how much '', ''does '', ''is '', ''are '']"

definition classify_query_intent :: "string \<Rightarrow> query_intent" where
  "classify_query_intent query =
     (if is_tabular_query query then Tabular
      else
        (let normalized = normalize_search_text (Some query) in
         if normalized = [] then Prose_Lookup
         else if CHR ''?'' \<in> set query \<or> list_ex (\<lambda>p. starts_with p normalized) QUESTION_STARTS
            \<or> card (salient_tokens (Some query)) \<le> 6
         then Prose_Lookup else Prose_Broad))"

definition looks_like_identifier_lookup :: "string \<Rightarrow> bool" where
  "looks_like_identifier_lookup query =
     (let normalized = normalize_search_text (Some query);
          stripped = str_lower (str_strip query);
          compact = filter (\<lambda>c. \<not> is_space c) stripped in
      if normalized = [] then False
      else if drop (length stripped - 4) stripped = ''.pdf'' then True
      else if CHR '' '' \<notin> set stripped \<and> list_ex is_alpha compact \<and> list_ex is_digit compact
         \<and> length compact \<ge> 6 then True
      else length compact \<ge> 8 \<and> list_ex (\<lambda>c. c \<in> set stripped) [CHR ''_'', CHR ''-'']
         \<and> length (str_split stripped) \<le> 3)"

section \<open>The words of a normalised text\<close>

lemma join_infix: "w \<in> set ws \<Longrightarrow> \<exists>a b. str_join sep ws = a @ w @ b"
proof (induction ws rule: induct_list012)
  case (3 x y zs)
  show ?case
  proof (cases "w = x")
    case False
    with 3 obtain a b where "str_join sep (y # zs) = a @ w @ b" by auto
    then have "str_join sep (x # y # zs) = (x @ sep @ a) @ w @ b" by simp
    then show ?thesis by blast
  qed (auto intro: exI [of _ "[]"])
qed (auto intro: exI [of _ "[]"])

lemma uniform_word:
  "successively (\<lambda>c d. \<not> mixed c d) w \<Longrightarrow> \<forall>c \<in> set w. is_key_char c \<Longrightarrow>
   (\<forall>c \<in> set w. is_lower_ascii c) \<or> (\<forall>c \<in> set w. is_digit_ascii c)"
proof (induction w)
  case (Cons c cs)
  then show ?case
    by (cases cs) (auto simp: mixed_def is_letter_ascii_def is_key_char_def)
qed simp

lemma normalize_words:
  "str_join '' '' (str_split (normalize_search_text v)) = normalize_search_text v"
  using normalize_result [of v] normalize_span_text_split [of "normalize_search_text v"]
  by (simp add: normalize_span_text_def tidy_collapse)

lemma normalized_word:
  assumes "w \<in> set (str_split (normalize_search_text v))"
  shows "w \<noteq> [] \<and> ((\<forall>c \<in> set w. is_lower_ascii c) \<or> (\<forall>c \<in> set w. is_digit_ascii c))"
proof -
  obtain a b where s: "normalize_search_text v = a @ w @ b"
    using join_infix [OF assms, of "'' ''"] unfolding normalize_words by blast
  have word: "is_word w" by (rule str_split_words [OF assms])
  have "tidy (a @ w @ b)" using normalize_result(1) [of v] s by simp
  then have "successively tidy_pair w" "\<forall>c \<in> set w. is_key_char c \<or> c = CHR '' ''"
    by (auto simp: tidy_def successively_append_iff)
  moreover have "CHR '' '' \<notin> set w"
    using word is_space_blank unfolding is_word_def by blast
  ultimately have "successively (\<lambda>c d. \<not> mixed c d) w" "\<forall>c \<in> set w. is_key_char c"
    by (auto simp: tidy_pair_def elim: successively_mono)
  with uniform_word word show ?thesis by (auto simp: is_word_def)
qed

lemma share_bounds: "0 \<le> share a b" "share a b \<le> 1"
proof -
  show "0 \<le> share a b" by (simp add: share_def)
  show "share a b \<le> 1"
  proof (cases "finite a")
    case True
    then have "card (a \<inter> b) \<le> card a" by (simp add: card_mono)
    then show ?thesis by (cases "card a = 0") (simp_all add: share_def divide_le_eq_1)
  qed (simp add: share_def)
qed

lemma token_coverage_bounds: "0 \<le> token_coverage q v" "token_coverage q v \<le> 1"
  by (simp_all add: token_coverage_def share_bounds Let_def)

lemma phrase_match_cases: "strong_document_phrase_match q v \<in> {0, 1}"
  by (simp add: strong_document_phrase_match_def Let_def)

text \<open>
  What normalisation gives. A search text is normalised into words separated by single blanks,
  each word consisting of lower-case letters only or of digits only, and normalising it again
  changes nothing; so query and documents are compared in the same form however often a text passes
  through.
\<close>

theorem search_text_normal_form:
  "let s = normalize_search_text v in
   normalize_search_text (Some s) = s \<and> str_join '' '' (str_split s) = s \<and>
   (\<forall>w \<in> set (str_split s).
      w \<noteq> [] \<and> ((\<forall>c \<in> set w. is_lower_ascii c) \<or> (\<forall>c \<in> set w. is_digit_ascii c)))"
  using normalize_tidy [OF normalize_result [of v]] normalize_words [of v] normalized_word [of _ v]
  unfolding Let_def by blast

theorem search_text_normal_form_witness:
  "normalize_search_text (Some ''HTTPServer2, Rev.B'') = ''http server 2 rev b''
   \<and> normalize_search_text (Some ''http server 2 rev b'') = ''http server 2 rev b''"
proof -
  have e: "normalize_search_text (Some ''HTTPServer2, Rev.B'') = ''http server 2 rev b''" by code_simp
  with search_text_normal_form [of "Some ''HTTPServer2, Rev.B''"] show ?thesis by (simp add: Let_def)
qed

end
