(* ===== verification/Search_Ranking.thy ===== *)
theory Search_Ranking
  imports Search_Features
begin

text \<open>
  \<open>app/services/search_ranking.py\<close>: candidates of a search, how the lists of keyword and vector
  search are merged into one (reciprocal rank fusion), duplicates removed, and the features a
  candidate has for a query. Scores are exact rationals in place of floats.

  Merging and removing duplicates write into the candidate objects, which other lists of the search
  may hold as well; a candidate list is therefore a list of addresses into a heap of objects.

  The lemmas show that merging keeps one object per result, that its fused score is the sum of the
  reciprocal ranks, and that of the spans with one identifier the best one is kept.
\<close>

section \<open>Candidates\<close>

record ranked_span =
  es_id :: uuid
  es_source_type :: string
  es_source_id :: uuid
  es_span_index :: int
  es_score_kind :: string
  es_score :: "rat option"
  es_page_from :: "int option"
  es_page_to :: "int option"
  es_text_excerpt :: string
  es_content_sha256 :: string
  es_source_snapshot_sha256 :: "string option"
  es_metadata :: dict

record ranked_result =
  rr_result_type :: string
  rr_result_id :: uuid
  rr_document_id :: uuid
  rr_run_id :: uuid
  rr_source_filename :: string
  rr_page_from :: "int option"
  rr_page_to :: "int option"
  rr_chunk_index :: "int option"
  rr_table_index :: "int option"
  rr_document_title :: "string option"
  rr_chunk_text :: "string option"
  rr_heading :: "string option"
  rr_table_title :: "string option"
  rr_table_heading :: "string option"
  rr_table_preview :: "string option"
  rr_row_count :: "int option"
  rr_col_count :: "int option"
  rr_keyword_score :: "rat option"
  rr_semantic_score :: "rat option"
  rr_hybrid_score :: "rat option"
  rr_retrieval_sources :: "string list"
  rr_evidence_spans :: "ranked_span list"

record page_range = prg_from :: int  prg_to :: int

record search_filters =
  sf_document_id :: "uuid option"
  sf_page_range :: "page_range option"
  sf_result_type :: "string option"

datatype search_mode = Keyword_Mode | Semantic_Mode | Hybrid_Mode

record search_request =
  sr_query :: string
  sr_mode :: search_mode
  sr_filters :: "search_filters option"
  sr_limit :: nat
  sr_harness_name :: "string option"

text \<open>\<open>x or 0.0\<close>, and \<open>x or None\<close> of a score.\<close>

definition score_or_zero :: "rat option \<Rightarrow> rat" where
  "score_or_zero s = (case s of None \<Rightarrow> 0 | Some x \<Rightarrow> x)"

definition nonzero_score :: "rat \<Rightarrow> rat option" where
  "nonzero_score x = (if x = 0 then None else Some x)"

definition result_key :: "ranked_result \<Rightarrow> string \<times> uuid" where
  "result_key r = (rr_result_type r, rr_result_id r)"

definition keyword_score :: "ranked_result \<Rightarrow> rat" where
  "keyword_score r = score_or_zero (rr_keyword_score r)"

definition semantic_score :: "ranked_result \<Rightarrow> rat" where
  "semantic_score r = score_or_zero (rr_semantic_score r)"

definition hybrid_score :: "ranked_result \<Rightarrow> rat" where
  "hybrid_score r = score_or_zero (rr_hybrid_score r)"

definition strongest_ranked_score :: "ranked_result \<Rightarrow> rat" where
  "strongest_ranked_score r = max (max (keyword_score r) (semantic_score r)) (hybrid_score r)"

definition reciprocal_rank :: "nat \<Rightarrow> rat" where
  "reciprocal_rank rank = 1 / (60 + of_nat rank)"

section \<open>Merging sources and spans\<close>

definition merge_retrieval_sources :: "string list \<Rightarrow> string list \<Rightarrow> string list" where
  "merge_retrieval_sources a b =
     foldl (\<lambda>merged s. if s \<in> set merged then merged else merged @ [s]) [] (a @ b)"

definition span_score :: "ranked_span \<Rightarrow> rat" where
  "span_score s = score_or_zero (es_score s)"

definition add_span :: "(uuid \<times> ranked_span) list \<Rightarrow> ranked_span \<Rightarrow> (uuid \<times> ranked_span) list" where
  "add_span merged s =
     (case dict_get merged (es_id s) of
        None \<Rightarrow> dict_set (es_id s) s merged
      | Some current \<Rightarrow>
          if span_score s > span_score current then dict_set (es_id s) s merged else merged)"

text \<open>
  The sort key of a span. The 36 characters of a UUID are ordered as its number, which stands for
  \<open>str(span.source_id)\<close>.
\<close>

definition span_key :: "ranked_span \<Rightarrow> rat \<times> string \<times> uuid \<times> int" where
  "span_key s = (- span_score s, es_source_type s, es_source_id s, es_span_index s)"

definition merge_evidence_spans :: "ranked_span list \<Rightarrow> ranked_span list \<Rightarrow> ranked_span list" where
  "merge_evidence_spans a b = sort_key span_key (map snd (foldl add_span [] (a @ b)))"

section \<open>Objects\<close>

type_synonym addr = nat
type_synonym heap = "ranked_result list"

definition alloc :: "ranked_result list \<Rightarrow> heap \<Rightarrow> addr list \<times> heap" where
  "alloc rs h = ([length h..<length h + length rs], h @ rs)"

definition objects :: "heap \<Rightarrow> addr list \<Rightarrow> ranked_result list" where
  "objects h as = map (\<lambda>a. h ! a) as"

text \<open>The dictionary of merged results, in insertion order: keys and addresses.\<close>

type_synonym merged = "((string \<times> uuid) \<times> addr) list"

section \<open>Reciprocal rank fusion\<close>

text \<open>
  What both loops do to the current object of a result; \<open>setdefault\<close> and the test for \<open>None\<close> make
  the result itself current when it is the first of its key.
\<close>

definition fuse :: "nat \<Rightarrow> ranked_result \<Rightarrow> ranked_result \<Rightarrow> ranked_result" where
  "fuse rank r current = current\<lparr>
     rr_hybrid_score := Some (score_or_zero (rr_hybrid_score current) + reciprocal_rank rank),
     rr_retrieval_sources := merge_retrieval_sources (rr_retrieval_sources current) (rr_retrieval_sources r),
     rr_evidence_spans := merge_evidence_spans (rr_evidence_spans current) (rr_evidence_spans r)\<rparr>"

definition current_of :: "merged \<Rightarrow> heap \<Rightarrow> addr \<Rightarrow> merged \<times> addr" where
  "current_of m h a =
     (case dict_get m (result_key (h ! a)) of
        Some c \<Rightarrow> (m, c) | None \<Rightarrow> (m @ [(result_key (h ! a), a)], a))"

definition keyword_step :: "merged \<times> heap \<Rightarrow> nat \<times> addr \<Rightarrow> merged \<times> heap" where
  "keyword_step st ia =
     (let (m, h) = st; (i, a) = ia; (m1, c) = current_of m h a; r = h ! a in
      (m1, h[c := fuse i r ((h ! c)\<lparr>rr_keyword_score := rr_keyword_score r\<rparr>)]))"

definition semantic_step :: "merged \<times> heap \<Rightarrow> nat \<times> addr \<Rightarrow> merged \<times> heap" where
  "semantic_step st ia =
     (let (m, h) = st; (i, a) = ia; (m1, c) = current_of m h a; r = h ! a in
      (m1, h[c := fuse i r ((h ! c)\<lparr>rr_semantic_score := rr_semantic_score r\<rparr>)]))"

definition merge_hybrid_candidates :: "addr list \<Rightarrow> addr list \<Rightarrow> heap \<Rightarrow> addr list \<times> heap" where
  "merge_hybrid_candidates keyword_results semantic_results h =
     (let st1 = foldl keyword_step ([], h) (enumerate 1 keyword_results);
          (m, h1) = foldl semantic_step st1 (enumerate 1 semantic_results) in
      (map snd m, h1))"

section \<open>Duplicates\<close>

definition absorb :: "ranked_result \<Rightarrow> ranked_result \<Rightarrow> ranked_result" where
  "absorb r current = current\<lparr>
     rr_keyword_score := nonzero_score (max (keyword_score current) (keyword_score r)),
     rr_semantic_score := nonzero_score (max (semantic_score current) (semantic_score r)),
     rr_hybrid_score := nonzero_score (max (hybrid_score current) (hybrid_score r)),
     rr_retrieval_sources := merge_retrieval_sources (rr_retrieval_sources current) (rr_retrieval_sources r),
     rr_evidence_spans := merge_evidence_spans (rr_evidence_spans current) (rr_evidence_spans r)\<rparr>"

definition dedupe_step :: "merged \<times> heap \<Rightarrow> addr \<Rightarrow> merged \<times> heap" where
  "dedupe_step st a =
     (let (m, h) = st in
      case dict_get m (result_key (h ! a)) of
        None \<Rightarrow> (m @ [(result_key (h ! a), a)], h)
      | Some c \<Rightarrow> (m, h[c := absorb (h ! a) (h ! c)]))"

definition dedupe_ranked_results :: "addr list \<Rightarrow> heap \<Rightarrow> addr list \<times> heap" where
  "dedupe_ranked_results items h =
     (let (m, h1) = foldl dedupe_step ([], h) items in (map snd m, h1))"

section \<open>Order by score\<close>

definition page_or_last :: "int option \<Rightarrow> int" where
  "page_or_last p = (case p of None \<Rightarrow> 10 ^ 9 | Some i \<Rightarrow> i)"

definition score_key :: "(ranked_result \<Rightarrow> rat) \<Rightarrow> ranked_result \<Rightarrow> rat \<times> int \<times> uuid" where
  "score_key score r = (- score r, page_or_last (rr_page_from r), rr_result_id r)"

definition sort_ranked_candidates_by_score ::
  "(ranked_result \<Rightarrow> rat) \<Rightarrow> addr list \<Rightarrow> heap \<Rightarrow> addr list" where
  "sort_ranked_candidates_by_score score items h = sort_key (\<lambda>a. score_key score (h ! a)) items"

definition candidate_source_breakdown :: "ranked_result list \<Rightarrow> (string \<times> nat) list" where
  "candidate_source_breakdown items =
     (let sources = concat (map rr_retrieval_sources items) in
      map (\<lambda>s. (s, length (filter (\<lambda>t. t = s) sources))) (sort (remdups sources)))"

section \<open>Features of a candidate\<close>

record overlap_features =
  of_source_filename_exact_match :: rat
  of_source_filename_token_coverage :: rat
  of_document_title_exact_match :: rat
  of_document_title_token_coverage :: rat

definition document_query_overlap_features :: "ranked_result \<Rightarrow> query_arg \<Rightarrow> overlap_features" where
  "document_query_overlap_features r q = \<lparr>
     of_source_filename_exact_match =
       strong_document_phrase_match q (Some (path_stem (rr_source_filename r))),
     of_source_filename_token_coverage = token_coverage q (Some (path_stem (rr_source_filename r))),
     of_document_title_exact_match = strong_document_phrase_match q (rr_document_title r),
     of_document_title_token_coverage = token_coverage q (rr_document_title r)\<rparr>"

definition join_truthy :: "string option list \<Rightarrow> string" where
  "join_truthy parts = str_join '' '' (some_values (filter str_truthy parts))"

definition prose_result_text :: "ranked_result \<Rightarrow> string" where
  "prose_result_text r = join_truthy
     [rr_document_title r, Some (path_stem (rr_source_filename r)), rr_heading r, rr_chunk_text r,
      rr_table_title r, rr_table_heading r, rr_table_preview r]"

record prose_features =
  pm_heading_token_coverage :: rat
  pm_phrase_overlap :: rat
  pm_rare_token_overlap :: rat
  pm_adjacent_chunk_context_signal :: rat

definition prose_query_match_features :: "ranked_result \<Rightarrow> query_arg \<Rightarrow> prose_features" where
  "prose_query_match_features r q =
     (let features = coerce_query_feature_set q;
          result_text = normalize_search_text (Some (prose_result_text r));
          result_tokens = set (str_split result_text) in
      \<lparr>pm_heading_token_coverage =
         token_coverage (Features features) (str_or (rr_heading r) (rr_table_heading r)),
       pm_phrase_overlap =
         (if qf_phrases features = {} then 0
          else of_nat (card (Set.filter (\<lambda>p. str_contains p result_text) (qf_phrases features)))
               / of_nat (card (qf_phrases features))),
       pm_rare_token_overlap =
         (if qf_rare_tokens features = {} then 0 else share (qf_rare_tokens features) result_tokens),
       pm_adjacent_chunk_context_signal =
         (if ''adjacent_context'' \<in> set (rr_retrieval_sources r) then 1 else 0)\<rparr>)"

text \<open>The two title features; \<open>None\<close> stands for a query that is \<open>None\<close>.\<close>

definition table_title_match_features :: "ranked_result \<Rightarrow> query_arg option \<Rightarrow> rat \<times> rat" where
  "table_title_match_features r query =
     (case query of
        None \<Rightarrow> (0, 0)
      | Some q \<Rightarrow>
          if rr_result_type r \<noteq> ''table'' then (0, 0)
          else
            (let features = coerce_query_feature_set q;
                 normalized_query = qf_normalized_query features;
                 normalized_title = normalize_search_text
                   (Some (join_truthy [rr_table_title r, rr_table_heading r])) in
             if normalized_query = [] \<or> normalized_title = [] then (0, 0)
             else if length normalized_query \<ge> 4 \<and> str_contains normalized_query normalized_title
             then (1, 1)
             else
               (let query_tokens = qf_normalized_tokens features in
                if card query_tokens < 2 then (0, 0)
                else
                  (let coverage = share query_tokens (set (str_split normalized_title)) in
                   (0, if coverage \<ge> 1 / 2 then coverage else 0)))))"

definition exact_filter_priority :: "ranked_result \<Rightarrow> search_filters option \<Rightarrow> int" where
  "exact_filter_priority r filters =
     (case filters of
        None \<Rightarrow> 0
      | Some f \<Rightarrow>
          (case (sf_page_range f, rr_page_from r, rr_page_to r) of
             (Some bounds, Some p, Some q) \<Rightarrow>
               if p \<ge> prg_from bounds \<and> q \<le> prg_to bounds then 1 else 0
           | _ \<Rightarrow> 0))"

definition result_type_priority :: "ranked_result \<Rightarrow> bool \<Rightarrow> int" where
  "result_type_priority r tabular_query =
     (if tabular_query then (if rr_result_type r = ''table'' then 1 else 0)
      else (if rr_result_type r = ''chunk'' then 1 else 0))"

section \<open>Clusters of documents\<close>

definition add_to :: "'k \<Rightarrow> 'v::{zero,plus} \<Rightarrow> ('k \<times> 'v) list \<Rightarrow> ('k \<times> 'v) list" where
  "add_to k v d = dict_set k ((case dict_get d k of None \<Rightarrow> 0 | Some x \<Rightarrow> x) + v) d"

definition document_cluster_strengths ::
  "ranked_result list \<Rightarrow> (ranked_result \<Rightarrow> rat) \<Rightarrow> query_intent \<Rightarrow> (uuid \<times> rat) list" where
  "document_cluster_strengths items score intent =
     (if intent = Tabular \<or> length items < 2 then []
      else
        (let counts = foldl (\<lambda>d r. add_to (rr_document_id r) (1 :: int) d) [] items;
             totals = foldl (\<lambda>d r. add_to (rr_document_id r) (score r) d) [] items;
             max_count = list_max 0 (map snd counts);
             max_score_sum = list_max 0 (map snd totals) in
         if max_count \<le> 1 \<or> max_score_sum \<le> 0 then []
         else map (\<lambda>(i, count).
             (i, if count \<le> 1 then 0
                 else (of_int (count - 1) / of_int (max_count - 1))
                      * ((case dict_get totals i of None \<Rightarrow> 0 | Some s \<Rightarrow> s) / max_score_sum)))
           counts))"

section \<open>Results\<close>

record search_result =
  res_result_type :: string
  res_document_id :: uuid
  res_run_id :: uuid
  res_score :: rat
  res_chunk_id :: "uuid option"
  res_chunk_text :: "string option"
  res_heading :: "string option"
  res_table_id :: "uuid option"
  res_table_title :: "string option"
  res_table_heading :: "string option"
  res_table_preview :: "string option"
  res_row_count :: "int option"
  res_col_count :: "int option"
  res_page_from :: "int option"
  res_page_to :: "int option"
  res_source_filename :: string
  res_scores :: "rat option \<times> rat option \<times> rat option"
  res_evidence_spans :: "ranked_span list"

definition to_search_result :: "ranked_result \<Rightarrow> rat \<Rightarrow> search_result" where
  "to_search_result r score = \<lparr>
     res_result_type = rr_result_type r, res_document_id = rr_document_id r,
     res_run_id = rr_run_id r, res_score = score,
     res_chunk_id = (if rr_result_type r = ''chunk'' then Some (rr_result_id r) else None),
     res_chunk_text = rr_chunk_text r, res_heading = rr_heading r,
     res_table_id = (if rr_result_type r = ''table'' then Some (rr_result_id r) else None),
     res_table_title = rr_table_title r, res_table_heading = rr_table_heading r,
     res_table_preview = rr_table_preview r, res_row_count = rr_row_count r,
     res_col_count = rr_col_count r, res_page_from = rr_page_from r, res_page_to = rr_page_to r,
     res_source_filename = rr_source_filename r,
     res_scores = (rr_keyword_score r, rr_semantic_score r, rr_hybrid_score r),
     res_evidence_spans = rr_evidence_spans r\<rparr>"

definition result_label :: "ranked_result \<Rightarrow> string option" where
  "result_label r =
     (if rr_result_type r = ''table''
      then str_or (str_or (rr_table_title r) (rr_table_heading r)) (rr_table_preview r)
      else str_or (rr_heading r) (rr_chunk_text r))"

definition result_preview :: "ranked_result \<Rightarrow> string option" where
  "result_preview r = (if rr_result_type r = ''table'' then rr_table_preview r else rr_chunk_text r)"

definition unique_uuid :: "uuid option list \<Rightarrow> uuid option" where
  "unique_uuid values =
     (case remdups (some_values values) of [i] \<Rightarrow> Some i | _ \<Rightarrow> None)"

section \<open>The merged spans\<close>

lemma add_span_fold:
  "distinct_keys (foldl add_span [] xs) \<and>
   (\<forall>k. case dict_get (foldl add_span [] xs) k of
      None \<Rightarrow> \<forall>t \<in> set xs. es_id t \<noteq> k
    | Some s \<Rightarrow> s \<in> set xs \<and> es_id s = k \<and> (\<forall>t \<in> set xs. es_id t = k \<longrightarrow> span_score t \<le> span_score s))"
proof (induction xs rule: rev_induct)
  case (snoc x xs)
  let ?m = "foldl add_span [] xs"
  have "distinct_keys (add_span m x)" if "distinct_keys m" for m
    using that by (simp add: add_span_def split: option.split)
  with snoc have "distinct_keys (add_span ?m x)" by blast
  moreover have "case dict_get (add_span ?m x) k of
      None \<Rightarrow> \<forall>t \<in> set (xs @ [x]). es_id t \<noteq> k
    | Some s \<Rightarrow> s \<in> set (xs @ [x]) \<and> es_id s = k \<and>
        (\<forall>t \<in> set (xs @ [x]). es_id t = k \<longrightarrow> span_score t \<le> span_score s)" for k
  proof -
    have IH: "case dict_get ?m k of
        None \<Rightarrow> \<forall>t \<in> set xs. es_id t \<noteq> k
      | Some s \<Rightarrow> s \<in> set xs \<and> es_id s = k \<and> (\<forall>t \<in> set xs. es_id t = k \<longrightarrow> span_score t \<le> span_score s)"
      using snoc by blast
    show ?thesis
    proof (cases "es_id x = k")
      case False
      then have "dict_get (add_span ?m x) k = dict_get ?m k"
        by (simp add: add_span_def dict_get_set split: option.split)
      with IH False show ?thesis by (auto split: option.splits)
    next
      case True
      with IH show ?thesis
        by (cases "dict_get ?m k") (force simp: add_span_def dict_get_set)+
    qed
  qed
  ultimately show ?case by simp
qed simp

lemma map_of_values:
  "distinct_keys d \<Longrightarrow> v \<in> set (map snd d) \<longleftrightarrow> (\<exists>k. dict_get d k = Some v)"
  by (force simp: map_of_is_SomeI dest: map_of_SomeD)

definition best_span :: "ranked_span list \<Rightarrow> ranked_span \<Rightarrow> bool" where
  "best_span xs s \<longleftrightarrow> s \<in> set xs \<and> (\<forall>t \<in> set xs. es_id t = es_id s \<longrightarrow> span_score t \<le> span_score s)"

lemma merged_spans:
  "sorted (map span_key (merge_evidence_spans a b))"
  "distinct (map es_id (merge_evidence_spans a b))"
  "es_id ` set (merge_evidence_spans a b) = es_id ` set (a @ b)"
  "s \<in> set (merge_evidence_spans a b) \<Longrightarrow> best_span (a @ b) s"
proof -
  let ?m = "foldl add_span [] (a @ b)"
  have d: "distinct_keys ?m" and g: "case dict_get ?m k of
      None \<Rightarrow> \<forall>t \<in> set (a @ b). es_id t \<noteq> k
    | Some s \<Rightarrow> s \<in> set (a @ b) \<and> es_id s = k \<and> (\<forall>t \<in> set (a @ b). es_id t = k \<longrightarrow> span_score t \<le> span_score s)" for k
    using add_span_fold [of "a @ b"] by blast+
  have set_m: "set (merge_evidence_spans a b) = {s. \<exists>k. dict_get ?m k = Some s}"
    using map_of_values [OF d] by (auto simp: merge_evidence_spans_def)
  show "sorted (map span_key (merge_evidence_spans a b))" by (simp add: merge_evidence_spans_def)
  have "es_id (snd ks) = fst ks" if "ks \<in> set ?m" for ks
    using g [of "fst ks"] map_of_is_SomeI [OF d, of "fst ks" "snd ks"] that by simp
  then have "map es_id (map snd ?m) = map fst ?m" unfolding map_map comp_def by (intro map_cong) simp_all
  with d have "distinct (map es_id (map snd ?m))" by metis
  then show "distinct (map es_id (merge_evidence_spans a b))"
    unfolding merge_evidence_spans_def distinct_map distinct_sort set_sort .
  show "es_id ` set (merge_evidence_spans a b) = es_id ` set (a @ b)"
  proof (intro equalityI subsetI)
    fix k assume "k \<in> es_id ` set (merge_evidence_spans a b)"
    then show "k \<in> es_id ` set (a @ b)" using g unfolding set_m by (force split: option.splits)
  next
    fix k assume "k \<in> es_id ` set (a @ b)"
    then show "k \<in> es_id ` set (merge_evidence_spans a b)"
      using g [of k] unfolding set_m by (cases "dict_get ?m k") (auto simp: image_iff)
  qed
  show "s \<in> set (merge_evidence_spans a b) \<Longrightarrow> best_span (a @ b) s"
    using g unfolding set_m best_span_def by (fastforce split: option.splits)
qed

section \<open>What merging keeps\<close>

text \<open>The identity of an object never changes.\<close>

lemma update_keys [simp]:
  "result_key (fuse i r c) = result_key c" "result_key (absorb r c) = result_key c"
  "result_key (c\<lparr>rr_keyword_score := k\<rparr>) = result_key c" "result_key (c\<lparr>rr_semantic_score := k\<rparr>) = result_key c"
  by (simp_all add: result_key_def fuse_def absorb_def)

lemma update_hybrid [simp]:
  "hybrid_score (fuse i r c) = hybrid_score c + reciprocal_rank i"
  "hybrid_score (c\<lparr>rr_keyword_score := k\<rparr>) = hybrid_score c"
  "hybrid_score (c\<lparr>rr_semantic_score := k\<rparr>) = hybrid_score c"
  by (simp_all add: hybrid_score_def fuse_def score_or_zero_def)

text \<open>The reciprocal ranks at which a result occurs in a list.\<close>

definition rank_sum :: "heap \<Rightarrow> string \<times> uuid \<Rightarrow> (nat \<times> addr) list \<Rightarrow> rat" where
  "rank_sum h k ranked =
     sum_list (map (\<lambda>(i, a). if result_key (h ! a) = k then reciprocal_rank i else 0) ranked)"

lemma rank_sum_simps [simp]:
  "rank_sum h k [] = 0" "rank_sum h k (xs @ ys) = rank_sum h k xs + rank_sum h k ys"
  "rank_sum h k [(i, a)] = (if result_key (h ! a) = k then reciprocal_rank i else 0)"
  by (simp_all add: rank_sum_def)

lemma rank_sum_absent:
  "\<forall>x \<in> set ranked. result_key (h ! snd x) \<noteq> k \<Longrightarrow> rank_sum h k ranked = 0"
  by (induction ranked) (auto simp: rank_sum_def)

text \<open>
  The state of the loops after the entries \<open>done\<close>: the dictionary has one address per key, the
  objects keep their keys, and the fused scores are the sums of the ranks so far.
\<close>

definition keyed :: "heap \<Rightarrow> addr list \<Rightarrow> merged \<Rightarrow> heap \<Rightarrow> bool" where
  "keyed h0 as m h \<longleftrightarrow>
     length h = length h0 \<and> (\<forall>a < length h0. result_key (h ! a) = result_key (h0 ! a))
     \<and> distinct_keys m \<and> (\<forall>(k, c) \<in> set m. c \<in> set as \<and> c < length h0 \<and> result_key (h0 ! c) = k)
     \<and> fst ` set m = (\<lambda>a. result_key (h0 ! a)) ` set as"

lemma keyed_current:
  assumes "keyed h0 as m h" and "a < length h0" and "current_of m h a = (m1, c)"
  shows "keyed h0 (as @ [a]) m1 h" "c < length h0" "result_key (h0 ! c) = result_key (h0 ! a)"
    "(result_key (h0 ! a), c) \<in> set m1"
proof -
  have key: "result_key (h ! a) = result_key (h0 ! a)" using assms(1,2) by (simp add: keyed_def)
  have keys: "k = result_key (h0 ! d)" if "(k, d) \<in> set m" for k d
    using that assms(1) by (auto simp: keyed_def)
  have "keyed h0 (as @ [a]) m1 h \<and> c < length h0 \<and> result_key (h0 ! c) = result_key (h0 ! a)
      \<and> (result_key (h0 ! a), c) \<in> set m1"
  proof (cases "dict_get m (result_key (h0 ! a))")
    case None
    then have new: "result_key (h0 ! a) \<notin> fst ` set m" by (simp add: map_of_eq_None_iff)
    have m1: "m1 = m @ [(result_key (h0 ! a), a)]" "c = a"
      using None assms(3) key by (auto simp: current_of_def)
    have "fst ` set m1 = (\<lambda>a. result_key (h0 ! a)) ` set (as @ [a])"
      using assms(1) by (simp add: keyed_def m1)
    moreover have "distinct_keys m1" using assms(1) new by (simp add: keyed_def m1)
    moreover have "\<forall>(k, c) \<in> set m1. c \<in> set (as @ [a]) \<and> c < length h0 \<and> result_key (h0 ! c) = k"
      using assms(1,2) by (auto simp: keyed_def m1)
    ultimately show ?thesis using assms(1,2) by (simp add: keyed_def m1)
  next
    case (Some d)
    then have "(result_key (h0 ! a), d) \<in> set m" by (rule map_of_SomeD)
    with Some assms key show ?thesis by (auto simp: current_of_def keyed_def insert_absorb rev_image_eqI)
  qed
  then show "keyed h0 (as @ [a]) m1 h" "c < length h0" "result_key (h0 ! c) = result_key (h0 ! a)"
    "(result_key (h0 ! a), c) \<in> set m1" by blast+
qed

lemma keyed_update:
  "keyed h0 as m h \<Longrightarrow> c < length h0 \<Longrightarrow> result_key x = result_key (h0 ! c) \<Longrightarrow> keyed h0 as m (h[c := x])"
  by (auto simp: keyed_def nth_list_update)

definition fusing :: "heap \<Rightarrow> (nat \<times> addr) list \<Rightarrow> merged \<times> heap \<Rightarrow> bool" where
  "fusing h0 ranked st \<longleftrightarrow>
     keyed h0 (map snd ranked) (fst st) (snd st)
     \<and> (\<forall>(k, c) \<in> set (fst st). hybrid_score (snd st ! c) = hybrid_score (h0 ! c) + rank_sum h0 k ranked)
     \<and> (\<forall>c < length h0. c \<notin> snd ` set (fst st) \<longrightarrow> snd st ! c = h0 ! c)"

text \<open>One entry of either list, whatever score it copies.\<close>

lemma fusing_step:
  assumes inv: "fusing h0 ranked (m, h)" and a: "a < length h0" and cur: "current_of m h a = (m1, c)"
    and g: "\<And>x. result_key (g x) = result_key x" "\<And>x. hybrid_score (g x) = hybrid_score x"
  shows "fusing h0 (ranked @ [(i, a)]) (m1, h[c := fuse i r (g (h ! c))])"
proof -
  let ?k = "result_key (h0 ! a)"
  from inv have k: "keyed h0 (map snd ranked) m h" by (simp add: fusing_def)
  note cu = keyed_current [OF k a cur]
  have keys: "keyed h0 (map snd (ranked @ [(i, a)])) m1 (h[c := fuse i r (g (h ! c))])"
    using keyed_update [OF cu(1,2)] k cu(2) g(1) by (simp add: keyed_def)
  have m1: "m1 = m \<or> m1 = m @ [(?k, a)] \<and> c = a \<and> ?k \<notin> fst ` set m"
    using cur k a by (auto simp: current_of_def keyed_def map_of_eq_None_iff split: option.splits)
  have score: "hybrid_score (h[c := fuse i r (g (h ! c))] ! c') =
      hybrid_score (h0 ! c') + rank_sum h0 k' (ranked @ [(i, a)])" if mem: "(k', c') \<in> set m1" for k' c'
  proof -
    have k': "k' = result_key (h0 ! c')" "c' < length h0"
      using mem cu(1) by (auto simp: keyed_def)
    have d: "distinct_keys m1" using cu(1) by (simp add: keyed_def)
    have old: "hybrid_score (h ! c') = hybrid_score (h0 ! c') + rank_sum h0 k' ranked"
    proof (cases "(k', c') \<in> set m")
      case True
      with inv show ?thesis by (auto simp: fusing_def)
    next
      case False
      with mem m1 have new: "k' = ?k" "c' = a" "?k \<notin> fst ` set m" by auto
      have fresh: "a \<notin> snd ` set m"
      proof
        assume "a \<in> snd ` set m"
        then obtain k'' where mem': "(k'', a) \<in> set m" by auto
        with k have "k'' = ?k" by (auto simp: keyed_def)
        with mem' new(3) show False by force
      qed
      have "fst ` set m = (\<lambda>x. result_key (h0 ! snd x)) ` set ranked"
        using k by (simp add: keyed_def image_image)
      with new(3) have "?k \<notin> (\<lambda>x. result_key (h0 ! snd x)) ` set ranked" by simp
      then have "\<forall>x \<in> set ranked. result_key (h0 ! snd x) \<noteq> ?k" by (metis image_eqI)
      then have "rank_sum h0 ?k ranked = 0" by (rule rank_sum_absent)
      moreover have "\<forall>c < length h0. c \<notin> snd ` set m \<longrightarrow> h ! c = h0 ! c"
        using inv by (simp add: fusing_def)
      with a fresh have "h ! a = h0 ! a" by blast
      ultimately show ?thesis unfolding new(1,2) by simp
    qed
    show ?thesis
    proof (cases "c' = c")
      case True
      with k' cu(3) have "k' = ?k" by simp
      moreover have "h[c := x] ! c = x" for x using cu(2) k by (simp add: keyed_def)
      ultimately show ?thesis using old unfolding True by (simp add: g(2))
    next
      case False
      have "k' \<noteq> ?k"
        using False mem cu(4) d by (metis map_of_eq_Some_iff option.inject)
      with old False show ?thesis by simp
    qed
  qed
  have frame: "h[c := fuse i r (g (h ! c))] ! c' = h0 ! c'"
    if "c' < length h0" "c' \<notin> snd ` set m1" for c'
  proof -
    have "c' \<noteq> c" using that(2) cu(4) by force
    moreover have "c' \<notin> snd ` set m" using that(2) m1 by auto
    with inv that(1) have "h ! c' = h0 ! c'" by (simp add: fusing_def)
    ultimately show ?thesis by simp
  qed
  from keys score frame show ?thesis by (auto simp: fusing_def)
qed

lemma fusing_fold:
  assumes "fusing h0 ranked st" and "\<forall>a \<in> snd ` set entries. a < length h0"
    and "f = keyword_step \<or> f = semantic_step"
  shows "fusing h0 (ranked @ entries) (foldl f st entries)"
  using assms(1,2)
proof (induction entries arbitrary: ranked st)
  case (Cons e es)
  obtain i a where e: "e = (i, a)" by fastforce
  obtain m h where st: "st = (m, h)" by fastforce
  obtain m1 c where cur: "current_of m h a = (m1, c)" by fastforce
  have "fusing h0 (ranked @ [(i, a)]) (f st e)"
    using assms(3) fusing_step [OF Cons.prems(1)[unfolded st] _ cur, of "\<lambda>x. x\<lparr>rr_keyword_score := rr_keyword_score (h ! a)\<rparr>"]
      fusing_step [OF Cons.prems(1)[unfolded st] _ cur, of "\<lambda>x. x\<lparr>rr_semantic_score := rr_semantic_score (h ! a)\<rparr>"]
      Cons.prems(2) unfolding e st
    by (auto simp: keyword_step_def semantic_step_def cur Let_def)
  from Cons.IH [OF this] Cons.prems(2) show ?case by (simp add: e)
qed simp

text \<open>The whole of the fusion.\<close>

lemma fusion_result:
  assumes "merge_hybrid_candidates kw sem h = (as, h')" and "\<forall>a \<in> set kw \<union> set sem. a < length h"
  shows "length h' = length h" "distinct as" "distinct (map result_key (objects h' as))"
    "result_key ` set (objects h' as) = result_key ` set (objects h (kw @ sem))"
    "a \<in> set as \<Longrightarrow> a \<in> set (kw @ sem) \<and> result_key (h' ! a) = result_key (h ! a) \<and>
       hybrid_score (h' ! a) = hybrid_score (h ! a)
         + rank_sum h (result_key (h ! a)) (enumerate 1 kw) + rank_sum h (result_key (h ! a)) (enumerate 1 sem)"
proof -
  let ?s1 = "foldl keyword_step ([], h) (enumerate 1 kw)"
  have start: "fusing h [] ([], h)" by (simp add: fusing_def keyed_def)
  have bounds: "\<forall>a \<in> snd ` set (enumerate 1 kw). a < length h" "\<forall>a \<in> snd ` set (enumerate 1 sem). a < length h"
    using assms(2) map_snd_enumerate [of 1 kw] map_snd_enumerate [of 1 sem] by (metis Un_iff set_map)+
  have "fusing h (([] @ enumerate 1 kw) @ enumerate 1 sem) (foldl semantic_step ?s1 (enumerate 1 sem))"
    by (rule fusing_fold [OF fusing_fold [OF start bounds(1), of keyword_step] bounds(2), of semantic_step]) simp_all
  moreover obtain m where m: "foldl semantic_step ?s1 (enumerate 1 sem) = (m, h')" "as = map snd m"
    using assms(1) by (auto simp: merge_hybrid_candidates_def split: prod.splits)
  ultimately have f: "keyed h (kw @ sem) m h'" "\<forall>(k, c) \<in> set m. hybrid_score (h' ! c) =
      hybrid_score (h ! c) + rank_sum h k (enumerate 1 kw @ enumerate 1 sem)"
    by (simp_all add: fusing_def)
  show "length h' = length h" using f(1) by (simp add: keyed_def)
  have keys: "map (\<lambda>a. result_key (h' ! a)) as = map fst m"
    using f(1) unfolding m(2) map_map by (intro map_cong) (auto simp: keyed_def)
  then show d: "distinct (map result_key (objects h' as))"
    using f(1) by (simp add: objects_def comp_def keyed_def)
  then show "distinct as" by (simp add: objects_def comp_def distinct_map)
  show "result_key ` set (objects h' as) = result_key ` set (objects h (kw @ sem))"
    using f(1) arg_cong [OF keys, of set] by (simp add: objects_def keyed_def image_image image_Un)
  show "a \<in> set (kw @ sem) \<and> result_key (h' ! a) = result_key (h ! a) \<and> hybrid_score (h' ! a) = hybrid_score (h ! a)
         + rank_sum h (result_key (h ! a)) (enumerate 1 kw) + rank_sum h (result_key (h ! a)) (enumerate 1 sem)"
    if "a \<in> set as"
  proof -
    obtain k where "(k, a) \<in> set m" using \<open>a \<in> set as\<close> m(2) by auto
    with f show ?thesis by (fastforce simp: keyed_def)
  qed
qed

section \<open>What removing duplicates keeps\<close>

text \<open>A score of the remaining object is the greatest among the objects of the same result.\<close>

definition scores_of :: "(ranked_result \<Rightarrow> rat) \<Rightarrow> heap \<Rightarrow> string \<times> uuid \<Rightarrow> addr list \<Rightarrow> rat set" where
  "scores_of f h k as = (\<lambda>a. f (h ! a)) ` {a \<in> set as. result_key (h ! a) = k}"

definition deduping :: "(ranked_result \<Rightarrow> rat) \<Rightarrow> heap \<Rightarrow> addr list \<Rightarrow> merged \<times> heap \<Rightarrow> bool" where
  "deduping f h0 as st \<longleftrightarrow> keyed h0 as (fst st) (snd st)
     \<and> (\<forall>c < length h0. c \<notin> snd ` set (fst st) \<longrightarrow> snd st ! c = h0 ! c)
     \<and> (\<forall>(k, c) \<in> set (fst st). f (snd st ! c) = Max (scores_of f h0 k as))"

lemma absorb_scores [simp]:
  "keyword_score (absorb r c) = max (keyword_score c) (keyword_score r)"
  "semantic_score (absorb r c) = max (semantic_score c) (semantic_score r)"
  by (simp_all add: absorb_def keyword_score_def semantic_score_def score_or_zero_def nonzero_score_def
      split: option.split)

lemma scores_of_snoc:
  "scores_of f h k (as @ [a]) = (if result_key (h ! a) = k then insert (f (h ! a)) (scores_of f h k as)
     else scores_of f h k as)"
  by (auto simp: scores_of_def)

lemma scores_of_finite [simp]: "finite (scores_of f h k as)"
  by (simp add: scores_of_def)

lemma deduping_step:
  assumes inv: "deduping f h0 as (m, h)" and a: "a < length h0"
    and f: "\<And>r c. f (absorb r c) = max (f c) (f r)"
  shows "deduping f h0 (as @ [a]) (dedupe_step (m, h) a)"
proof -
  let ?k = "result_key (h0 ! a)"
  from inv have k: "keyed h0 as m h" by (simp add: deduping_def)
  have key: "result_key (h ! a) = ?k" using a k by (simp add: keyed_def)
  have frame: "\<And>c. c < length h0 \<Longrightarrow> c \<notin> snd ` set m \<Longrightarrow> h ! c = h0 ! c"
    and best: "\<And>k c. (k, c) \<in> set m \<Longrightarrow> f (h ! c) = Max (scores_of f h0 k as)"
    using inv by (auto simp: deduping_def)
  have keys: "\<And>k c. (k, c) \<in> set m \<Longrightarrow> k = result_key (h0 ! c) \<and> c < length h0 \<and> c \<in> set as"
    using k by (auto simp: keyed_def)
  show ?thesis
  proof (cases "dict_get m ?k")
    case None
    then have new: "?k \<notin> fst ` set m" by (simp add: map_of_eq_None_iff)
    have cur: "current_of m h a = (m @ [(?k, a)], a)" by (simp add: current_of_def key None)
    have "fst ` set m = (\<lambda>x. result_key (h0 ! x)) ` set as" using k by (simp add: keyed_def)
    with new have none: "scores_of f h0 ?k as = {}" unfolding scores_of_def by (metis (mono_tags, lifting) Collect_empty_eq image_empty image_eqI)
    have "a \<notin> snd ` set m" using new keys by force
    then have "f (h ! a) = Max (scores_of f h0 ?k (as @ [a]))"
      by (simp add: frame a scores_of_snoc none)
    moreover have "f (h ! c) = Max (scores_of f h0 k' (as @ [a]))" if "(k', c) \<in> set m" for k' c
      using best [OF that] new that by (force simp: scores_of_snoc)
    moreover have "dedupe_step (m, h) a = (m @ [(?k, a)], h)"
      by (simp add: dedupe_step_def key None)
    ultimately show ?thesis
      using keyed_current(1) [OF k a cur] frame by (auto simp: deduping_def)
  next
    case (Some c)
    then have mem: "(?k, c) \<in> set m" by (rule map_of_SomeD)
    have cur: "current_of m h a = (m, c)" by (simp add: current_of_def key Some)
    let ?h = "h[c := absorb (h ! a) (h ! c)]"
    have k1: "keyed h0 (as @ [a]) m ?h"
      using keyed_update [OF keyed_current(1,2) [OF k a cur]] k keys [OF mem] by (simp add: keyed_def)
    have max: "max (f (h ! c)) (f (h ! a)) = Max (scores_of f h0 ?k (as @ [a]))"
    proof (cases "a \<in> snd ` set m")
      case True
      then obtain k' where "(k', a) \<in> set m" by auto
      moreover from this have "k' = ?k" "a \<in> set as" using keys by auto
      ultimately have "a = c" using mem k by (metis keyed_def map_of_eq_Some_iff option.inject)
      moreover have "f (h0 ! a) \<in> scores_of f h0 ?k as" using \<open>a \<in> set as\<close> by (simp add: scores_of_def)
      then have "scores_of f h0 ?k (as @ [a]) = scores_of f h0 ?k as" by (simp add: scores_of_snoc insert_absorb)
      ultimately show ?thesis using best [OF mem] by simp
    next
      case False
      then have "h ! a = h0 ! a" using frame a by simp
      moreover have "scores_of f h0 ?k as \<noteq> {}" using keys [OF mem] by (auto simp: scores_of_def)
      ultimately show ?thesis using best [OF mem] by (simp add: scores_of_snoc max.commute)
    qed
    have "f (?h ! c') = Max (scores_of f h0 k' (as @ [a]))" if "(k', c') \<in> set m" for k' c'
    proof (cases "c' = c")
      case True
      have "c < length h" using keys [OF mem] k by (simp add: keyed_def)
      moreover have "k' = ?k" using keys [OF that] keys [OF mem] True by simp
      ultimately show ?thesis using max f True by simp
    next
      case False
      then have "k' \<noteq> ?k" using that mem k by (metis keyed_def map_of_eq_Some_iff option.inject)
      with best [OF that] False show ?thesis by (simp add: scores_of_snoc)
    qed
    moreover have "?h ! c' = h0 ! c'" if "c' < length h0" "c' \<notin> snd ` set m" for c'
      using frame [OF that] that(2) mem by (auto simp: nth_list_update image_iff)
    ultimately show ?thesis
      using k1 by (auto simp: deduping_def dedupe_step_def key Some)
  qed
qed

lemma deduping_fold:
  assumes "\<forall>a \<in> set as. a < length h" and "\<And>r c. f (absorb r c) = max (f c) (f r)"
  shows "deduping f h as (foldl dedupe_step ([], h) as)"
  using assms(1)
proof (induction as rule: rev_induct)
  case (snoc a as)
  then show ?case
    using deduping_step [OF _ _ assms(2), of h as "fst (foldl dedupe_step ([], h) as)" "snd (foldl dedupe_step ([], h) as)" a]
    by simp
qed (simp add: deduping_def keyed_def)

lemma dedupe_result:
  assumes "dedupe_ranked_results items h = (as, h')" and "\<forall>a \<in> set items. a < length h"
  shows "length h' = length h" "distinct (map result_key (objects h' as))" "distinct as" "set as \<subseteq> set items"
    "result_key ` set (objects h' as) = result_key ` set (objects h items)"
    "\<And>a. a < length h \<Longrightarrow> result_key (h' ! a) = result_key (h ! a)"
    "a \<in> set as \<Longrightarrow> keyword_score (h' ! a) = Max (scores_of keyword_score h (result_key (h ! a)) items)"
    "a \<in> set as \<Longrightarrow> semantic_score (h' ! a) = Max (scores_of semantic_score h (result_key (h ! a)) items)"
proof -
  obtain m where m: "foldl dedupe_step ([], h) items = (m, h')" "as = map snd m"
    using assms(1) by (auto simp: dedupe_ranked_results_def split: prod.splits)
  have d: "deduping keyword_score h items (m, h')" "deduping semantic_score h items (m, h')"
    using deduping_fold [OF assms(2), of keyword_score] deduping_fold [OF assms(2), of semantic_score] m
    by simp_all
  then have k: "keyed h items m h'" by (simp add: deduping_def)
  have keys: "\<And>k c. (k, c) \<in> set m \<Longrightarrow> k = result_key (h ! c) \<and> c < length h \<and> c \<in> set items"
    using k by (auto simp: keyed_def)
  show "length h' = length h" "\<And>a. a < length h \<Longrightarrow> result_key (h' ! a) = result_key (h ! a)"
    using k by (simp_all add: keyed_def)
  have map: "map (\<lambda>a. result_key (h' ! a)) as = map fst m"
    unfolding m(2) map_map using keys k by (intro map_cong) (auto simp: keyed_def)
  then show dk: "distinct (map result_key (objects h' as))"
    using k by (simp add: objects_def comp_def keyed_def)
  then show "distinct as" by (simp add: objects_def comp_def distinct_map)
  show "set as \<subseteq> set items" using keys m(2) by auto
  show "result_key ` set (objects h' as) = result_key ` set (objects h items)"
    using k arg_cong [OF map, of set] by (simp add: objects_def keyed_def image_image)
  show "a \<in> set as \<Longrightarrow> keyword_score (h' ! a) = Max (scores_of keyword_score h (result_key (h ! a)) items)"
    using d(1) keys unfolding m(2) by (fastforce simp: deduping_def)
  show "a \<in> set as \<Longrightarrow> semantic_score (h' ! a) = Max (scores_of semantic_score h (result_key (h ! a)) items)"
    using d(2) keys unfolding m(2) by (fastforce simp: deduping_def)
qed

section \<open>Properties\<close>

text \<open>
  C17: reciprocal rank fusion. Merging the keyword list and the vector list keeps exactly one object
  for every result of either list, and adds to its fused score one over sixty plus the rank for each
  place the result has in either list. The objects passed on are objects of the two lists.
\<close>

theorem reciprocal_rank_fusion:
  assumes "merge_hybrid_candidates kw sem h = (as, h')" and "\<forall>a \<in> set kw \<union> set sem. a < length h"
  shows "distinct (map result_key (objects h' as))
    \<and> result_key ` set (objects h' as) = result_key ` set (objects h (kw @ sem))
    \<and> (\<forall>a \<in> set as. a \<in> set (kw @ sem) \<and> hybrid_score (h' ! a) = hybrid_score (h ! a)
         + rank_sum h (result_key (h ! a)) (enumerate 1 kw)
         + rank_sum h (result_key (h ! a)) (enumerate 1 sem))"
  using fusion_result [OF assms] by blast

definition example_result :: "string \<Rightarrow> uuid \<Rightarrow> uuid \<Rightarrow> rat option \<Rightarrow> ranked_result" where
  "example_result kind i document score = \<lparr>rr_result_type = kind, rr_result_id = i,
     rr_document_id = document, rr_run_id = 1, rr_source_filename = ''report.pdf'',
     rr_page_from = Some 1, rr_page_to = Some 1, rr_chunk_index = Some 0, rr_table_index = None,
     rr_document_title = None, rr_chunk_text = Some ''text'', rr_heading = None, rr_table_title = None,
     rr_table_heading = None, rr_table_preview = None, rr_row_count = None, rr_col_count = None,
     rr_keyword_score = score, rr_semantic_score = None, rr_hybrid_score = None,
     rr_retrieval_sources = [''keyword''], rr_evidence_spans = []\<rparr>"

definition example_heap :: heap where
  "example_heap = [example_result ''chunk'' 1 7 (Some 2), example_result ''chunk'' 2 8 (Some 1),
     example_result ''chunk'' 2 8 None]"

theorem reciprocal_rank_fusion_witness:
  "case merge_hybrid_candidates [0, 1] [2] example_heap of
     (as, h') \<Rightarrow> \<forall>a \<in> set as. hybrid_score (h' ! a) = (if a = 0 then 1 / 61 else 1 / 62 + 1 / 61)"
proof -
  obtain as h' where m: "merge_hybrid_candidates [0, 1] [2] example_heap = (as, h')" by fastforce
  have "as = [0, 1]"
    using arg_cong [OF m, of fst]
    by (simp add: merge_hybrid_candidates_def keyword_step_def semantic_step_def current_of_def Let_def
        case_prod_beta example_heap_def example_result_def result_key_def fuse_def numeral_nat)
  moreover have "\<forall>a \<in> set [0, 1] \<union> set [2]. a < length example_heap" by (simp add: example_heap_def)
  ultimately show ?thesis
    using reciprocal_rank_fusion [OF m] m
    by (simp add: rank_sum_def reciprocal_rank_def example_heap_def example_result_def result_key_def
        hybrid_score_def score_or_zero_def numeral_2_eq_2)
qed

text \<open>
  Evidence spans. Merging two groups of spans gives one span per identifier of either group, in
  the order of score (best first), source and position, and the span kept for an identifier has the
  greatest score among the spans with that identifier.
\<close>

theorem merge_evidence_spans_spec:
  "sorted (map span_key (merge_evidence_spans a b)) \<and> distinct (map es_id (merge_evidence_spans a b))
   \<and> es_id ` set (merge_evidence_spans a b) = es_id ` set (a @ b)
   \<and> (\<forall>s \<in> set (merge_evidence_spans a b). best_span (a @ b) s)"
  using merged_spans(1-3) [of a b] merged_spans(4) [of _ a b] by blast

theorem merge_evidence_spans_spec_witness:
  "list_all (\<lambda>s. es_score s = Some (3 / 4)) (merge_evidence_spans
       [\<lparr>es_id = 1, es_source_type = ''chunk'', es_source_id = 5, es_span_index = 0, es_score_kind = ''keyword'',
         es_score = Some (1 / 2), es_page_from = None, es_page_to = None, es_text_excerpt = ''a'',
         es_content_sha256 = ''x'', es_source_snapshot_sha256 = None, es_metadata = []\<rparr>]
       [\<lparr>es_id = 1, es_source_type = ''chunk'', es_source_id = 5, es_span_index = 0, es_score_kind = ''semantic'',
         es_score = Some (3 / 4), es_page_from = None, es_page_to = None, es_text_excerpt = ''a'',
         es_content_sha256 = ''x'', es_source_snapshot_sha256 = None, es_metadata = []\<rparr>])"
  (is "list_all _ (merge_evidence_spans ?a ?b)")
  unfolding list_all_iff
proof
  fix s assume "s \<in> set (merge_evidence_spans ?a ?b)"
  with merge_evidence_spans_spec [of ?a ?b] have "best_span (?a @ ?b) s" by blast
  then show "es_score s = Some (3 / 4)" by (auto simp: best_span_def span_score_def score_or_zero_def)
qed

end
