(* ===== verification/Search_Loaders.thy ===== *)
theory Search_Loaders
  imports Search_Ranking Span_Windows
begin

text \<open>
  Where the candidates of a search come from: \<open>app/services/search_retrieval_primitives.py\<close>,
  \<open>search_span_retrieval.py\<close>, \<open>search_hydration.py\<close>, \<open>search_metadata_supplement.py\<close> and
  \<open>search_metadata_supplement_support.py\<close>. A query is a filter over the rows of the tables, joined
  with their documents, ordered by score and cut at a limit.

  Text search and vector distance belong to PostgreSQL: the rank of a row for a text query
  (\<open>None\<close> when it does not match) and the similarity of two vectors are arguments, as is the error of
  a query. Spans and vectors are tables of their own, next to the database of the ingest.
\<close>

section \<open>What the database computes\<close>

text \<open>\<open>plainto_tsquery('english', q)\<close>, or words joined by \<open>|\<close> under a configuration.\<close>

datatype tsquery = Plain_Query string | Any_Of string "string list"

record text_engine =
  te_chunk :: "tsquery \<Rightarrow> document_chunk \<Rightarrow> rat option"
  te_table :: "tsquery \<Rightarrow> document_table \<Rightarrow> rat option"
  te_span :: "tsquery \<Rightarrow> retrieval_evidence_span \<Rightarrow> rat option"
  te_document :: "tsquery \<Rightarrow> document \<Rightarrow> rat option"
  te_similarity :: "embedding \<Rightarrow> embedding \<Rightarrow> rat"

record span_vector =
  vr_id :: uuid
  vr_span_id :: uuid
  vr_document_id :: uuid
  vr_run_id :: uuid
  vr_vector_index :: int
  vr_token_start :: int
  vr_token_end :: int
  vr_vector_text :: string
  vr_content_sha256 :: string
  vr_embedding_model :: string
  vr_embedding_sha256 :: string
  vr_embedding :: embedding

record search_source =
  so_engine :: text_engine
  so_db :: db
  so_spans :: "retrieval_evidence_span list"
  so_vectors :: "span_vector list"

text \<open>\<open>.limit(n)\<close>: PostgreSQL refuses a negative one.\<close>

definition negative_limit :: exn where
  "negative_limit = Py_Error ''DataError'' False ''LIMIT must not be negative''"

definition sql_limit :: "int \<Rightarrow> 'a list \<Rightarrow> exn + 'a list" where
  "sql_limit n rows = (if n < 0 then Inl negative_limit else Inr (take (nat n) rows))"

text \<open>Rows with a score, best first, ties by a key.\<close>

definition scored :: "('a \<Rightarrow> rat option) \<Rightarrow> 'a list \<Rightarrow> ('a \<times> rat) list" where
  "scored score rows = List.map_filter (\<lambda>r. map_option (Pair r) (score r)) rows"

definition best_first :: "('a \<Rightarrow> 'k::linorder) \<Rightarrow> ('a \<times> rat) list \<Rightarrow> ('a \<times> rat) list" where
  "best_first key rows = sort_key (\<lambda>(r, s). (- s, key r)) rows"

section \<open>Queries and filters\<close>

definition in_scope :: "uuid option \<Rightarrow> uuid \<Rightarrow> document \<Rightarrow> bool" where
  "in_scope run row_run x =
     (case run of None \<Rightarrow> doc_active_run_id x = Some row_run | Some r \<Rightarrow> row_run = r)"

definition chunk_query :: "uuid option \<Rightarrow> db \<Rightarrow> (document_chunk \<times> document) list" where
  "chunk_query run d = [(c, x). c \<leftarrow> db_chunks d, x \<leftarrow> db_documents d,
     doc_id x = chunk_document_id c \<and> in_scope run (chunk_run_id c) x]"

definition table_query :: "uuid option \<Rightarrow> db \<Rightarrow> (document_table \<times> document) list" where
  "table_query run d = [(t, x). t \<leftarrow> db_tables d, x \<leftarrow> db_documents d,
     doc_id x = table_document_id t \<and> in_scope run (table_run_id t) x]"

definition span_chunk_query ::
  "uuid option \<Rightarrow> search_source \<Rightarrow> (retrieval_evidence_span \<times> document_chunk \<times> document) list" where
  "span_chunk_query run so = [(sp, c, x). sp \<leftarrow> so_spans so, c \<leftarrow> db_chunks (so_db so), x \<leftarrow> db_documents (so_db so),
     rs_chunk_id sp = Some (chunk_id c) \<and> doc_id x = rs_document_id sp \<and> in_scope run (rs_run_id sp) x
     \<and> rs_source_type sp = ''chunk'']"

definition span_table_query ::
  "uuid option \<Rightarrow> search_source \<Rightarrow> (retrieval_evidence_span \<times> document_table \<times> document) list" where
  "span_table_query run so = [(sp, t, x). sp \<leftarrow> so_spans so, t \<leftarrow> db_tables (so_db so), x \<leftarrow> db_documents (so_db so),
     rs_table_id sp = Some (table_id t) \<and> doc_id x = rs_document_id sp \<and> in_scope run (rs_run_id sp) x
     \<and> rs_source_type sp = ''table'']"

text \<open>
  \<open>coalesce(from, to) <= upper and coalesce(to, from) >= lower\<close>; a comparison with \<open>NULL\<close> selects
  nothing.
\<close>

definition pages_overlap :: "page_range \<Rightarrow> int option \<Rightarrow> int option \<Rightarrow> bool" where
  "pages_overlap r page_from page_to =
     ((case or_else page_from page_to of None \<Rightarrow> False | Some p \<Rightarrow> p \<le> prg_to r)
      \<and> (case or_else page_to page_from of None \<Rightarrow> False | Some p \<Rightarrow> prg_from r \<le> p))"

definition passes_filters ::
  "string \<Rightarrow> search_filters option \<Rightarrow> uuid \<Rightarrow> int option \<Rightarrow> int option \<Rightarrow> bool" where
  "passes_filters other_type filters document page_from page_to =
     (case filters of None \<Rightarrow> True
      | Some f \<Rightarrow> sf_result_type f \<noteq> Some other_type
          \<and> (case sf_document_id f of None \<Rightarrow> True | Some i \<Rightarrow> document = i)
          \<and> (case sf_page_range f of None \<Rightarrow> True | Some r \<Rightarrow> pages_overlap r page_from page_to))"

definition apply_chunk_filters :: "search_filters option \<Rightarrow> document_chunk \<Rightarrow> bool" where
  "apply_chunk_filters filters c =
     passes_filters ''table'' filters (chunk_document_id c) (chunk_page_from c) (chunk_page_to c)"

definition apply_table_filters :: "search_filters option \<Rightarrow> document_table \<Rightarrow> bool" where
  "apply_table_filters filters t =
     passes_filters ''chunk'' filters (table_document_id t) (table_page_from t) (table_page_to t)"

definition apply_document_filters :: "search_filters option \<Rightarrow> document \<Rightarrow> bool" where
  "apply_document_filters filters x =
     (case filters of None \<Rightarrow> True
      | Some f \<Rightarrow> sf_result_type f \<noteq> Some ''table''
          \<and> (case sf_document_id f of None \<Rightarrow> True | Some i \<Rightarrow> doc_id x = i))"

definition apply_span_filters :: "search_filters option \<Rightarrow> retrieval_evidence_span \<Rightarrow> bool" where
  "apply_span_filters filters sp =
     (case filters of None \<Rightarrow> True
      | Some f \<Rightarrow> (case sf_result_type f of None \<Rightarrow> True | Some t \<Rightarrow> rs_source_type sp = t)
          \<and> (case sf_document_id f of None \<Rightarrow> True | Some i \<Rightarrow> rs_document_id sp = i)
          \<and> (case sf_page_range f of None \<Rightarrow> True | Some r \<Rightarrow> pages_overlap r (rs_page_from sp) (rs_page_to sp)))"

section \<open>Rows to candidates\<close>

definition bare_result :: "string \<Rightarrow> uuid \<Rightarrow> uuid \<Rightarrow> uuid \<Rightarrow> document \<Rightarrow> int option \<Rightarrow> int option \<Rightarrow> ranked_result" where
  "bare_result kind i document run x page_from page_to = \<lparr>rr_result_type = kind, rr_result_id = i,
     rr_document_id = document, rr_run_id = run, rr_source_filename = doc_source_filename x,
     rr_page_from = page_from, rr_page_to = page_to, rr_chunk_index = None, rr_table_index = None,
     rr_document_title = doc_title x, rr_chunk_text = None, rr_heading = None, rr_table_title = None,
     rr_table_heading = None, rr_table_preview = None, rr_row_count = None, rr_col_count = None,
     rr_keyword_score = None, rr_semantic_score = None, rr_hybrid_score = None,
     rr_retrieval_sources = [], rr_evidence_spans = []\<rparr>"

definition chunk_result :: "document_chunk \<Rightarrow> document \<Rightarrow> ranked_result" where
  "chunk_result c x =
     (bare_result ''chunk'' (chunk_id c) (chunk_document_id c) (chunk_run_id c) x (chunk_page_from c) (chunk_page_to c))
       \<lparr>rr_chunk_index := Some (chunk_chunk_index c), rr_chunk_text := Some (chunk_text c),
        rr_heading := chunk_heading c\<rparr>"

definition table_result :: "document_table \<Rightarrow> document \<Rightarrow> ranked_result" where
  "table_result t x =
     (bare_result ''table'' (table_id t) (table_document_id t) (table_run_id t) x (table_page_from t) (table_page_to t))
       \<lparr>rr_table_index := Some (table_table_index t), rr_table_title := table_title t,
        rr_table_heading := table_heading t, rr_table_preview := Some (table_preview_text t),
        rr_row_count := Some (table_row_count t), rr_col_count := Some (table_col_count t)\<rparr>"

definition with_score :: "string \<Rightarrow> rat \<Rightarrow> string \<Rightarrow> ranked_result \<Rightarrow> ranked_result" where
  "with_score score_kind score source r =
     (if score_kind = ''keyword'' then r\<lparr>rr_keyword_score := Some score, rr_retrieval_sources := [source]\<rparr>
      else r\<lparr>rr_semantic_score := Some score, rr_retrieval_sources := [source]\<rparr>)"

definition span_evidence_payload ::
  "retrieval_evidence_span \<Rightarrow> string \<Rightarrow> rat option \<Rightarrow> dict \<Rightarrow> ranked_span" where
  "span_evidence_payload sp score_kind score metadata = \<lparr>es_id = rs_id sp,
     es_source_type = rs_source_type sp, es_source_id = rs_source_id sp, es_span_index = rs_span_index sp,
     es_score_kind = score_kind, es_score = score, es_page_from = rs_page_from sp, es_page_to = rs_page_to sp,
     es_text_excerpt = rs_span_text sp, es_content_sha256 = rs_content_sha256 sp,
     es_source_snapshot_sha256 = Some (rs_source_snapshot_sha256 sp), es_metadata = metadata\<rparr>"

definition hydrate_ranked_chunks ::
  "((document_chunk \<times> document) \<times> rat) list \<Rightarrow> string \<Rightarrow> string \<Rightarrow> ranked_result list" where
  "hydrate_ranked_chunks rows score_kind source =
     map (\<lambda>((c, x), s). with_score score_kind s source (chunk_result c x)) rows"

definition hydrate_ranked_tables ::
  "((document_table \<times> document) \<times> rat) list \<Rightarrow> string \<Rightarrow> string \<Rightarrow> ranked_result list" where
  "hydrate_ranked_tables rows score_kind source =
     map (\<lambda>((t, x), s). with_score score_kind s source (table_result t x)) rows"

definition hydrate_ranked_span_chunks ::
  "((retrieval_evidence_span \<times> document_chunk \<times> document) \<times> rat) list \<Rightarrow> string \<Rightarrow> string \<Rightarrow> ranked_result list" where
  "hydrate_ranked_span_chunks rows score_kind source =
     map (\<lambda>((sp, c, x), s). (with_score score_kind s source (chunk_result c x))
       \<lparr>rr_evidence_spans := [span_evidence_payload sp score_kind (Some s) []]\<rparr>) rows"

definition hydrate_ranked_span_tables ::
  "((retrieval_evidence_span \<times> document_table \<times> document) \<times> rat) list \<Rightarrow> string \<Rightarrow> string \<Rightarrow> ranked_result list" where
  "hydrate_ranked_span_tables rows score_kind source =
     map (\<lambda>((sp, t, x), s). (with_score score_kind s source (table_result t x))
       \<lparr>rr_evidence_spans := [span_evidence_payload sp score_kind (Some s) []]\<rparr>) rows"

section \<open>Keyword search\<close>

text \<open>\<open>re.findall("[A-Za-z0-9]+", query.lower())\<close>, without repetitions and single characters.\<close>

definition keyword_terms :: "string \<Rightarrow> string list" where
  "keyword_terms query =
     foldl (\<lambda>terms t. if length t \<le> 1 \<or> t \<in> set terms then terms else terms @ [t]) []
       (str_split (map (\<lambda>c. if is_letter_ascii c \<or> is_digit_ascii c then c else CHR '' '') (str_lower query)))"

definition build_relaxed_tsquery :: "string \<Rightarrow> tsquery option" where
  "build_relaxed_tsquery query =
     (let terms = keyword_terms query in if length terms < 2 then None else Some (Any_Of ''english'' terms))"

text \<open>\<open>candidate_limit or request.limit\<close>.\<close>

definition limit_or :: "int \<Rightarrow> search_request \<Rightarrow> int" where
  "limit_or limit request = (if limit = 0 then int (sr_limit request) else limit)"

definition keyword_tsquery :: "bool \<Rightarrow> search_request \<Rightarrow> tsquery option" where
  "keyword_tsquery relaxed request =
     (if relaxed then build_relaxed_tsquery (sr_query request) else Some (Plain_Query (sr_query request)))"

definition search_chunks ::
  "search_source \<Rightarrow> search_request \<Rightarrow> uuid option \<Rightarrow> int \<Rightarrow> (document_chunk \<Rightarrow> rat option) \<Rightarrow>
   exn + ((document_chunk \<times> document) \<times> rat) list" where
  "search_chunks so request run limit score =
     sql_limit (limit_or limit request) (best_first (\<lambda>(c, x). chunk_chunk_index c)
       (scored (\<lambda>(c, x). score c)
         (filter (\<lambda>(c, x). apply_chunk_filters (sr_filters request) c) (chunk_query run (so_db so)))))"

definition search_tables ::
  "search_source \<Rightarrow> search_request \<Rightarrow> uuid option \<Rightarrow> int \<Rightarrow> (document_table \<Rightarrow> rat option) \<Rightarrow>
   exn + ((document_table \<times> document) \<times> rat) list" where
  "search_tables so request run limit score =
     sql_limit (limit_or limit request) (best_first (\<lambda>(t, x). table_table_index t)
       (scored (\<lambda>(t, x). score t)
         (filter (\<lambda>(t, x). apply_table_filters (sr_filters request) t) (table_query run (so_db so)))))"

definition search_span_chunks ::
  "search_source \<Rightarrow> search_request \<Rightarrow> uuid option \<Rightarrow> int \<Rightarrow> (retrieval_evidence_span \<Rightarrow> rat option) \<Rightarrow>
   exn + ((retrieval_evidence_span \<times> document_chunk \<times> document) \<times> rat) list" where
  "search_span_chunks so request run limit score =
     sql_limit (limit_or limit request) (best_first (\<lambda>(sp, c, x). (chunk_chunk_index c, rs_span_index sp))
       (scored (\<lambda>(sp, c, x). score sp)
         (filter (\<lambda>(sp, c, x). apply_span_filters (sr_filters request) sp) (span_chunk_query run so))))"

definition search_span_tables ::
  "search_source \<Rightarrow> search_request \<Rightarrow> uuid option \<Rightarrow> int \<Rightarrow> (retrieval_evidence_span \<Rightarrow> rat option) \<Rightarrow>
   exn + ((retrieval_evidence_span \<times> document_table \<times> document) \<times> rat) list" where
  "search_span_tables so request run limit score =
     sql_limit (limit_or limit request) (best_first (\<lambda>(sp, t, x). (table_table_index t, rs_span_index sp))
       (scored (\<lambda>(sp, t, x). score sp)
         (filter (\<lambda>(sp, t, x). apply_span_filters (sr_filters request) sp) (span_table_query run so))))"

text \<open>\<open>run_keyword_*_search\<close> and \<open>run_relaxed_keyword_*_search\<close>, which differ in the query and the label.\<close>

definition run_keyword_chunk_search ::
  "bool \<Rightarrow> search_source \<Rightarrow> search_request \<Rightarrow> uuid option \<Rightarrow> int \<Rightarrow> exn + ranked_result list" where
  "run_keyword_chunk_search relaxed so request run limit =
     (case keyword_tsquery relaxed request of
        None \<Rightarrow> Inr []
      | Some q \<Rightarrow> map_sum id (\<lambda>rows. hydrate_ranked_chunks rows ''keyword''
            (if relaxed then ''keyword_relaxed'' else ''keyword_primary''))
          (search_chunks so request run limit (te_chunk (so_engine so) q)))"

definition run_keyword_table_search ::
  "bool \<Rightarrow> search_source \<Rightarrow> search_request \<Rightarrow> uuid option \<Rightarrow> int \<Rightarrow> exn + ranked_result list" where
  "run_keyword_table_search relaxed so request run limit =
     (case keyword_tsquery relaxed request of
        None \<Rightarrow> Inr []
      | Some q \<Rightarrow> map_sum id (\<lambda>rows. hydrate_ranked_tables rows ''keyword''
            (if relaxed then ''keyword_relaxed'' else ''keyword_primary''))
          (search_tables so request run limit (te_table (so_engine so) q)))"

definition run_keyword_span_chunk_search ::
  "bool \<Rightarrow> search_source \<Rightarrow> search_request \<Rightarrow> uuid option \<Rightarrow> int \<Rightarrow> exn + ranked_result list" where
  "run_keyword_span_chunk_search relaxed so request run limit =
     (case keyword_tsquery relaxed request of
        None \<Rightarrow> Inr []
      | Some q \<Rightarrow> map_sum id (\<lambda>rows. hydrate_ranked_span_chunks rows ''keyword''
            (if relaxed then ''span_keyword_relaxed'' else ''span_keyword''))
          (search_span_chunks so request run limit (te_span (so_engine so) q)))"

definition run_keyword_span_table_search ::
  "bool \<Rightarrow> search_source \<Rightarrow> search_request \<Rightarrow> uuid option \<Rightarrow> int \<Rightarrow> exn + ranked_result list" where
  "run_keyword_span_table_search relaxed so request run limit =
     (case keyword_tsquery relaxed request of
        None \<Rightarrow> Inr []
      | Some q \<Rightarrow> map_sum id (\<lambda>rows. hydrate_ranked_span_tables rows ''keyword''
            (if relaxed then ''span_keyword_relaxed'' else ''span_keyword''))
          (search_span_tables so request run limit (te_span (so_engine so) q)))"

section \<open>Vector search\<close>

text \<open>\<open>1 - distance\<close> of a row with an embedding; nearest first is most similar first.\<close>

definition similarity_to :: "search_source \<Rightarrow> embedding \<Rightarrow> embedding option \<Rightarrow> rat option" where
  "similarity_to so q e = map_option (te_similarity (so_engine so) q) e"

definition run_semantic_chunk_search ::
  "search_source \<Rightarrow> search_request \<Rightarrow> uuid option \<Rightarrow> embedding \<Rightarrow> int \<Rightarrow> exn + ranked_result list" where
  "run_semantic_chunk_search so request run q limit =
     map_sum id (\<lambda>rows. hydrate_ranked_chunks rows ''semantic'' ''semantic_primary'')
       (search_chunks so request run limit (\<lambda>c. similarity_to so q (chunk_embedding c)))"

definition run_semantic_table_search ::
  "search_source \<Rightarrow> search_request \<Rightarrow> uuid option \<Rightarrow> embedding \<Rightarrow> int \<Rightarrow> exn + ranked_result list" where
  "run_semantic_table_search so request run q limit =
     map_sum id (\<lambda>rows. hydrate_ranked_tables rows ''semantic'' ''semantic_primary'')
       (search_tables so request run limit (\<lambda>t. similarity_to so q (table_embedding t)))"

definition run_semantic_span_chunk_search ::
  "search_source \<Rightarrow> search_request \<Rightarrow> uuid option \<Rightarrow> embedding \<Rightarrow> int \<Rightarrow> exn + ranked_result list" where
  "run_semantic_span_chunk_search so request run q limit =
     map_sum id (\<lambda>rows. hydrate_ranked_span_chunks rows ''semantic'' ''span_semantic'')
       (search_span_chunks so request run limit (\<lambda>sp. similarity_to so q (rs_embedding sp)))"

definition run_semantic_span_table_search ::
  "search_source \<Rightarrow> search_request \<Rightarrow> uuid option \<Rightarrow> embedding \<Rightarrow> int \<Rightarrow> exn + ranked_result list" where
  "run_semantic_span_table_search so request run q limit =
     map_sum id (\<lambda>rows. hydrate_ranked_span_tables rows ''semantic'' ''span_semantic'')
       (search_span_tables so request run limit (\<lambda>sp. similarity_to so q (rs_embedding sp)))"

end
