(* ===== verification/Search_Supplements.thy ===== *)
theory Search_Supplements
  imports Search_Loaders
begin

text \<open>
  The further stages of a search: late interaction over the vectors of spans
  (\<open>app/services/search_span_retrieval.py\<close>), chunks found by the metadata of their document and
  the chunks next to a hit (\<open>search_metadata_supplement.py\<close>), and the spans shown as evidence of a
  result (\<open>search_hydration.py\<close>).
\<close>

section \<open>Late interaction\<close>

definition LATE_INTERACTION_QUERY_WORD_WINDOW :: nat where "LATE_INTERACTION_QUERY_WORD_WINDOW = 6"
definition LATE_INTERACTION_QUERY_WORD_OVERLAP :: nat where "LATE_INTERACTION_QUERY_WORD_OVERLAP = 3"
definition LATE_INTERACTION_FETCH_MULTIPLIER :: int where "LATE_INTERACTION_FETCH_MULTIPLIER = 4"

record query_window =
  qw_index :: nat
  qw_token_start :: nat
  qw_token_end :: nat
  qw_text :: string
  qw_text_sha256 :: string

text \<open>
  \<open>query_multivector_windows\<close>: the loop is that of \<open>_window_word_ranges\<close> without the merge of a
  short last window; \<open>sha\<close> is \<open>payload_sha256\<close>.
\<close>

definition query_multivector_windows :: "(json \<Rightarrow> string) \<Rightarrow> string \<Rightarrow> query_window list" where
  "query_multivector_windows sha query =
     (let normalized = str_strip (collapse_ws query); words = str_split normalized in
      if normalized = [] then []
      else if length words \<le> LATE_INTERACTION_QUERY_WORD_WINDOW
      then [\<lparr>qw_index = 0, qw_token_start = 0, qw_token_end = length words, qw_text = normalized,
              qw_text_sha256 = sha (JObj [(''query_vector_text'', JStr normalized)])\<rparr>]
      else map (\<lambda>(i, (a, e, t)). \<lparr>qw_index = i, qw_token_start = a, qw_token_end = e, qw_text = t,
              qw_text_sha256 = sha (JObj [(''query_vector_index'', JInt (int i)), (''query_vector_text'', JStr t)])\<rparr>)
             (List.enumerate 0 (window_loop LATE_INTERACTION_QUERY_WORD_WINDOW
               LATE_INTERACTION_QUERY_WORD_OVERLAP 0 words 0 [])))"

record late_match =
  lm_query_index :: nat
  lm_score :: rat
  lm_vector :: span_vector

type_synonym late_state = "retrieval_evidence_span \<times> (nat \<times> late_match) list"

definition multivector_span_query ::
  "uuid option \<Rightarrow> search_source \<Rightarrow> (span_vector \<times> retrieval_evidence_span) list" where
  "multivector_span_query run so = [(v, sp). v \<leftarrow> so_vectors so, sp \<leftarrow> so_spans so, x \<leftarrow> db_documents (so_db so),
     vr_span_id v = rs_id sp \<and> doc_id x = vr_document_id v \<and> in_scope run (vr_run_id v) x]"

definition late_rows ::
  "search_source \<Rightarrow> search_request \<Rightarrow> uuid option \<Rightarrow> int \<Rightarrow> embedding \<Rightarrow>
   exn + ((span_vector \<times> retrieval_evidence_span) \<times> rat) list" where
  "late_rows so request run limit q =
     sql_limit limit (best_first (\<lambda>(v, sp). (vr_vector_index v, rs_id sp))
       (scored (\<lambda>(v, sp). similarity_to so q (Some (vr_embedding v)))
         (filter (\<lambda>(v, sp). apply_span_filters (sr_filters request) sp) (multivector_span_query run so))))"

definition late_match_row ::
  "nat \<Rightarrow> (uuid \<times> late_state) list \<Rightarrow> (span_vector \<times> retrieval_evidence_span) \<times> rat \<Rightarrow> (uuid \<times> late_state) list" where
  "late_match_row i states row =
     (let ((v, sp), score) = row;
          (span, matches) = (case dict_get states (rs_id sp) of None \<Rightarrow> (sp, []) | Some st \<Rightarrow> st) in
      case dict_get matches i of
        Some current \<Rightarrow>
          if score \<le> lm_score current then dict_set (rs_id sp) (span, matches) states
          else dict_set (rs_id sp) (span, dict_set i \<lparr>lm_query_index = i, lm_score = score, lm_vector = v\<rparr> matches) states
      | None \<Rightarrow>
          dict_set (rs_id sp) (span, dict_set i \<lparr>lm_query_index = i, lm_score = score, lm_vector = v\<rparr> matches) states)"

fun late_matches ::
  "search_source \<Rightarrow> search_request \<Rightarrow> uuid option \<Rightarrow> int \<Rightarrow> (nat \<times> embedding) list \<Rightarrow> (uuid \<times> late_state) list \<Rightarrow>
   exn + (uuid \<times> late_state) list" where
  "late_matches so request run limit [] states = Inr states"
| "late_matches so request run limit ((i, q) # qs) states =
     (case late_rows so request run limit q of
        Inl e \<Rightarrow> Inl e
      | Inr rows \<Rightarrow> late_matches so request run limit qs (foldl (late_match_row i) states rows))"

definition late_score :: "nat \<Rightarrow> (nat \<times> late_match) list \<Rightarrow> rat" where
  "late_score n matches =
     sum_list (map (\<lambda>i. case dict_get matches i of None \<Rightarrow> 0 | Some m \<Rightarrow> lm_score m) [0..<n]) / of_nat n"

definition late_interaction_match_trace :: "query_window list \<Rightarrow> (nat \<times> late_match) list \<Rightarrow> rat \<Rightarrow> json" where
  "late_interaction_match_trace windows matches score = JObj [
     (''schema_name'', JStr ''late_interaction_maxsim_trace''),
     (''schema_version'', JStr ''1.0''),
     (''score_policy'', JStr ''average_query_window_max_similarity''),
     (''score'', JReal score),
     (''query_vector_count'', JInt (int (length windows))),
     (''matched_query_vector_count'', JInt (int (length matches))),
     (''query_vectors'', JArr (map (\<lambda>w. JObj [
        (''query_vector_index'', JInt (int (qw_index w))), (''token_start'', JInt (int (qw_token_start w))),
        (''token_end'', JInt (int (qw_token_end w))), (''text'', JStr (qw_text w)),
        (''text_sha256'', JStr (qw_text_sha256 w))]) windows)),
     (''maxsim_matches'', JArr (map (\<lambda>(i, m). JObj [
        (''query_vector_index'', JInt (int (lm_query_index m))), (''score'', JReal (lm_score m)),
        (''span_vector_id'', JStr (show_nat (vr_id (lm_vector m)))),
        (''span_vector_index'', JInt (vr_vector_index (lm_vector m))),
        (''token_start'', JInt (vr_token_start (lm_vector m))), (''token_end'', JInt (vr_token_end (lm_vector m))),
        (''vector_text'', JStr (vr_vector_text (lm_vector m))),
        (''vector_content_sha256'', JStr (vr_content_sha256 (lm_vector m))),
        (''embedding_model'', JStr (vr_embedding_model (lm_vector m))),
        (''embedding_sha256'', JStr (vr_embedding_sha256 (lm_vector m)))]) (sort_key fst matches)))]"

text \<open>\<open>xs[:n]\<close>, which counts from the end when \<open>n\<close> is negative.\<close>

definition py_take :: "int \<Rightarrow> 'a list \<Rightarrow> 'a list" where
  "py_take n xs = (if n < 0 then take (nat (int (length xs) + n)) xs else take (nat n) xs)"

definition late_result :: "(uuid \<times> rat \<times> json) list \<Rightarrow> retrieval_evidence_span \<Rightarrow> ranked_result \<Rightarrow> ranked_result" where
  "late_result scores sp r =
     (case dict_get scores (rs_id sp) of
        None \<Rightarrow> r
      | Some (score, trace) \<Rightarrow>
          (with_score ''semantic'' score ''multivector_late_interaction'' r)\<lparr>rr_evidence_spans :=
             [span_evidence_payload sp ''late_interaction_maxsim'' (Some score) [(''late_interaction'', trace)]]\<rparr>)"

definition hydrate_late_interaction_results ::
  "search_source \<Rightarrow> (uuid \<times> rat \<times> json) list \<Rightarrow> int \<Rightarrow> uuid option \<Rightarrow> ranked_result list" where
  "hydrate_late_interaction_results so scores limit run =
     (let ordered = py_take limit (map fst (sort_key (\<lambda>(i, score, trace). (- score, i)) scores));
          chunks = filter (\<lambda>(sp, c, x). rs_id sp \<in> set ordered) (span_chunk_query run so);
          tables = filter (\<lambda>(sp, t, x). rs_id sp \<in> set ordered) (span_table_query run so);
          by_chunk = foldl (\<lambda>d (sp, c, x). dict_set (rs_id sp) (late_result scores sp (chunk_result c x)) d) [] chunks;
          hydrated = foldl (\<lambda>d (sp, t, x). dict_set (rs_id sp) (late_result scores sp (table_result t x)) d) by_chunk tables in
      List.map_filter (dict_get hydrated) ordered)"

definition run_late_interaction_search ::
  "search_source \<Rightarrow> search_request \<Rightarrow> query_window list \<Rightarrow> embedding list \<Rightarrow> int \<Rightarrow> uuid option \<Rightarrow>
   exn + ranked_result list \<times> dict" where
  "run_late_interaction_search so request windows vectors limit run =
     (let n = length vectors in
      if vectors = []
      then Inr ([], [(''status'', JStr ''skipped''), (''query_vector_count'', JInt 0), (''match_count'', JInt 0),
                     (''candidate_count'', JInt 0)])
      else
        (case late_matches so request run (max (limit * LATE_INTERACTION_FETCH_MULTIPLIER) (limit + int n))
                (List.enumerate 0 vectors) [] of
           Inl e \<Rightarrow> Inl e
         | Inr states \<Rightarrow>
             (let scores = map (\<lambda>(i, span, matches). let score = late_score n matches in
                    (i, score, late_interaction_match_trace windows matches score)) states;
                  results = hydrate_late_interaction_results so scores limit run in
              Inr (results,
                [(''status'', JStr (if results \<noteq> [] then ''completed'' else ''no_candidates'')),
                 (''query_vector_count'', JInt (int n)),
                 (''match_count'', JInt (sum_list (map (\<lambda>(i, span, matches). int (length matches)) states))),
                 (''candidate_count'', JInt (int (length results))),
                 (''candidate_limit'', JInt limit),
                 (''score_policy'', JStr ''average_query_window_max_similarity'')]))))"

section \<open>Chunks found by metadata\<close>

definition PROSE_SUPPLEMENTARY_CANDIDATE_LIMIT :: int where "PROSE_SUPPLEMENTARY_CANDIDATE_LIMIT = 12"
definition PROSE_ADJACENT_EXPANSION_LIMIT :: nat where "PROSE_ADJACENT_EXPANSION_LIMIT = 12"
definition PROSE_ADJACENT_SEED_LIMIT :: nat where "PROSE_ADJACENT_SEED_LIMIT = 6"
definition METADATA_SUPPLEMENT_DIRECT_CHUNK_MULTIPLIER :: int where "METADATA_SUPPLEMENT_DIRECT_CHUNK_MULTIPLIER = 4"
definition METADATA_SUPPLEMENT_DOCUMENT_LIMIT :: int where "METADATA_SUPPLEMENT_DOCUMENT_LIMIT = 8"
definition METADATA_SUPPLEMENT_DOCUMENT_CHUNK_MULTIPLIER :: int where "METADATA_SUPPLEMENT_DOCUMENT_CHUNK_MULTIPLIER = 6"
definition METADATA_SUPPLEMENT_SCORE_SCALE :: rat where "METADATA_SUPPLEMENT_SCORE_SCALE = 4"

definition ranked_metadata_overlap_score ::
  "string \<Rightarrow> string option \<Rightarrow> string option \<Rightarrow> string option \<Rightarrow> string \<Rightarrow> bool \<Rightarrow> rat" where
  "ranked_metadata_overlap_score query title heading body filename include_document_context =
     (let q = Query_Text (Some query);
          title_overlap = (if include_document_context then token_coverage q title else 0);
          heading_overlap = token_coverage q heading;
          chunk_overlap = token_coverage q body;
          filename_overlap = (if include_document_context then token_coverage q (Some (path_stem filename)) else 0) in
      max (max title_overlap heading_overlap) (max chunk_overlap filename_overlap)
        + (1/5 * title_overlap + 3/20 * heading_overlap + 1/4 * chunk_overlap + 3/20 * filename_overlap))"

definition metadata_tsquery :: "string \<Rightarrow> string list \<Rightarrow> tsquery option" where
  "metadata_tsquery config tokens = (if tokens = [] then None else Some (Any_Of config tokens))"

definition document_run_scope_condition :: "uuid option \<Rightarrow> db \<Rightarrow> document \<Rightarrow> bool" where
  "document_run_scope_condition run d x =
     (case run of None \<Rightarrow> doc_active_run_id x \<noteq> None
      | Some r \<Rightarrow> \<exists>c \<in> set (db_chunks d). chunk_document_id c = doc_id x \<and> chunk_run_id c = r)"

text \<open>\<open>ts_rank_cd\<close> of a row that does not match is 0; the greatest of two ranks.\<close>

definition rank_or_zero :: "rat option \<Rightarrow> rat" where
  "rank_or_zero r = (case r of None \<Rightarrow> 0 | Some s \<Rightarrow> s)"

definition document_rank :: "text_engine \<Rightarrow> tsquery list \<Rightarrow> document \<Rightarrow> rat option" where
  "document_rank te qs x =
     (if \<exists>q \<in> set qs. te_document te q x \<noteq> None
      then Some (foldl max (rank_or_zero (te_document te (hd qs) x)) (map (\<lambda>q. rank_or_zero (te_document te q x)) (tl qs)))
      else None)"

definition document_metadata_candidates ::
  "search_source \<Rightarrow> search_request \<Rightarrow> uuid option \<Rightarrow> tsquery list \<Rightarrow> int \<Rightarrow> exn + document list" where
  "document_metadata_candidates so request run qs limit =
     map_sum id (map fst) (sql_limit (max (limit * 2) METADATA_SUPPLEMENT_DOCUMENT_LIMIT)
       (best_first doc_id (scored (document_rank (so_engine so) qs)
         (filter (\<lambda>x. document_run_scope_condition run (so_db so) x \<and> apply_document_filters (sr_filters request) x)
           (db_documents (so_db so))))))"

definition metadata_chunk_rows ::
  "search_source \<Rightarrow> search_request \<Rightarrow> uuid option \<Rightarrow> int \<Rightarrow> tsquery option \<Rightarrow> tsquery option \<Rightarrow>
   exn + (document_chunk \<times> document) list" where
  "metadata_chunk_rows so request run limit document_q content_q =
     (let rows = filter (\<lambda>(c, x). apply_chunk_filters (sr_filters request) c) (chunk_query run (so_db so)) in
      case (case content_q of
              None \<Rightarrow> Inr []
            | Some q \<Rightarrow> map_sum id (map fst) (sql_limit (max (limit * METADATA_SUPPLEMENT_DIRECT_CHUNK_MULTIPLIER) limit)
                (best_first (\<lambda>(c, x). chunk_chunk_index c) (scored (\<lambda>(c, x). te_chunk (so_engine so) q c) rows)))) of
        Inl e \<Rightarrow> Inl e
      | Inr direct \<Rightarrow>
          (case document_metadata_candidates so request run
                  (List.map_filter id [document_q, content_q]) limit of
             Inl e \<Rightarrow> Inl e
           | Inr documents \<Rightarrow>
               if documents = [] then Inr direct
               else map_sum id (\<lambda>hydrated. direct @ map fst hydrated)
                 (sql_limit (max (limit * max (int (length documents)) 2)
                     (limit * METADATA_SUPPLEMENT_DOCUMENT_CHUNK_MULTIPLIER))
                   (best_first (\<lambda>(c, x). chunk_chunk_index c)
                     (scored (\<lambda>(c, x). Some (case content_q of None \<Rightarrow> 0 | Some q \<Rightarrow> rank_or_zero (te_chunk (so_engine so) q c)))
                       (filter (\<lambda>(c, x). chunk_document_id c \<in> doc_id ` set documents) rows))))))"

definition metadata_candidate :: "search_request \<Rightarrow> document_chunk \<times> document \<Rightarrow> ranked_result option" where
  "metadata_candidate request row =
     (let (c, x) = row;
          include_document_context = (case sr_filters request of None \<Rightarrow> True | Some f \<Rightarrow> sf_document_id f = None);
          score = ranked_metadata_overlap_score (sr_query request) (doc_title x) (chunk_heading c)
            (Some (chunk_text c)) (doc_source_filename x) include_document_context in
      if score \<le> 0 then None
      else Some (with_score ''keyword'' (score * METADATA_SUPPLEMENT_SCORE_SCALE) ''metadata_supplement'' (chunk_result c x)))"

text \<open>The candidates are new objects; the returned ones are the first of their keys.\<close>

definition run_prose_metadata_chunk_search ::
  "search_source \<Rightarrow> search_request \<Rightarrow> uuid option \<Rightarrow> int \<Rightarrow> heap \<Rightarrow> exn + addr list \<times> heap" where
  "run_prose_metadata_chunk_search so request run limit h =
     (let document_q = metadata_tsquery ''simple'' (metadata_query_tokens (Some (sr_query request)));
          content_q = metadata_tsquery ''english'' (sorted_list_of_set (salient_tokens (Some (sr_query request)))) in
      if document_q = None \<and> content_q = None then Inr ([], h)
      else
        (case metadata_chunk_rows so request run limit document_q content_q of
           Inl e \<Rightarrow> Inl e
         | Inr rows \<Rightarrow>
             (let candidates = sort_key (score_key strongest_ranked_score)
                    (List.map_filter (metadata_candidate request) rows);
                  (as, h1) = alloc candidates h;
                  (bs, h2) = dedupe_ranked_results as h1 in
              Inr (py_take limit bs, h2))))"

definition should_run_metadata_supplement ::
  "string \<Rightarrow> query_intent \<Rightarrow> nat \<Rightarrow> nat \<Rightarrow> nat \<Rightarrow> string \<Rightarrow> bool" where
  "should_run_metadata_supplement query intent strict_keyword_count keyword_chunk_count keyword_table_count harness_name =
     (if intent \<notin> {Prose_Lookup, Prose_Broad} then False
      else if harness_name = ''prose_v3'' then True
      else if keyword_table_count > 0 \<and> keyword_chunk_count = 0 then True
      else strict_keyword_count = 0 \<and> looks_like_identifier_lookup query)"

section \<open>Neighbours of a hit\<close>

definition adjacent_rows ::
  "search_source \<Rightarrow> search_request \<Rightarrow> uuid option \<Rightarrow> ranked_result \<Rightarrow> int \<Rightarrow> (document_chunk \<times> document) list" where
  "adjacent_rows so request run seed i =
     filter (\<lambda>(c, x). apply_chunk_filters (sr_filters request) c \<and> chunk_document_id c = rr_document_id seed
         \<and> chunk_run_id c = rr_run_id seed \<and> chunk_chunk_index c \<in> {max (i - 1) (- 1), i + 1})
       (chunk_query run (so_db so))"

definition expand_row ::
  "ranked_result \<Rightarrow> ranked_result list \<Rightarrow> document_chunk \<times> document \<Rightarrow> ranked_result list" where
  "expand_row seed expanded row =
     (let (c, x) = row in
      if length expanded \<ge> PROSE_ADJACENT_EXPANSION_LIMIT \<or> chunk_id c \<in> rr_result_id ` set expanded
         \<or> chunk_id c = rr_result_id seed
      then expanded
      else expanded @ [with_score ''keyword'' (strongest_ranked_score seed * (17/20)) ''adjacent_context'' (chunk_result c x)])"

definition expand_seed ::
  "search_source \<Rightarrow> search_request \<Rightarrow> uuid option \<Rightarrow> ranked_result list \<Rightarrow> ranked_result \<Rightarrow> ranked_result list" where
  "expand_seed so request run expanded seed =
     (case rr_chunk_index seed of
        None \<Rightarrow> expanded
      | Some i \<Rightarrow> foldl (expand_row seed) expanded (adjacent_rows so request run seed i))"

definition expand_adjacent_chunk_context ::
  "search_source \<Rightarrow> search_request \<Rightarrow> uuid option \<Rightarrow> ranked_result list \<Rightarrow> ranked_result list" where
  "expand_adjacent_chunk_context so request run seeds =
     (let chunk_seeds = sort_key (score_key strongest_ranked_score) (filter (\<lambda>r. rr_result_type r = ''chunk'') seeds) in
      foldl (expand_seed so request run) [] (take PROSE_ADJACENT_SEED_LIMIT chunk_seeds))"

section \<open>Evidence of the returned results\<close>

definition SEARCH_RESULT_SPAN_LIMIT :: nat where "SEARCH_RESULT_SPAN_LIMIT = 5"

definition load_source_evidence_spans :: "search_source \<Rightarrow> search_request \<Rightarrow> ranked_result \<Rightarrow> ranked_span list" where
  "load_source_evidence_spans so request r =
     (let spans = filter (\<lambda>sp. rs_source_type sp = rr_result_type r \<and> rs_source_id sp = rr_result_id r) (so_spans so);
          hits = take SEARCH_RESULT_SPAN_LIMIT (best_first rs_span_index
            (scored (te_span (so_engine so) (Plain_Query (sr_query request))) spans)) in
      if hits \<noteq> []
      then merge_evidence_spans (rr_evidence_spans r)
        (map (\<lambda>(sp, s). span_evidence_payload sp ''selected_result_keyword_span'' (Some s) []) hits)
      else merge_evidence_spans (rr_evidence_spans r)
        (map (\<lambda>sp. span_evidence_payload sp ''selected_result_source_span'' None [])
          (take SEARCH_RESULT_SPAN_LIMIT (sort_key rs_span_index spans))))"

definition ensure_evidence :: "search_source \<Rightarrow> search_request \<Rightarrow> ranked_result \<Rightarrow> ranked_result" where
  "ensure_evidence so request r = r\<lparr>rr_evidence_spans := load_source_evidence_spans so request r\<rparr>"

end
