(* ===== verification/Search_Rerank.thy ===== *)
theory Search_Rerank
  imports Search_Ranking "HOL-Library.Multiset"
begin

text \<open>
  \<open>app/services/search_harness_reranking.py\<close> with the configuration of
  \<open>search_harness_reranker_config.py\<close>: the candidates of a search are ordered by their base score,
  get a final score from a linear combination of features, are ordered by it and cut to the limit.

  The lemmas show that the result is the best part of a permutation of the candidates, and how far
  the features can move a score.
\<close>

section \<open>Configuration\<close>

record reranker_config =
  rc_harness_name :: string
  rc_reranker_name :: string
  rc_reranker_version :: string
  rc_retrieval_profile_name :: string
  rc_tabular_table_bonus :: rat
  rc_title_exact_match_bonus :: rat
  rc_title_token_coverage_bonus :: rat
  rc_source_filename_exact_match_bonus :: rat
  rc_source_filename_token_coverage_bonus :: rat
  rc_document_title_exact_match_bonus :: rat
  rc_document_title_token_coverage_bonus :: rat
  rc_prose_document_cluster_bonus :: rat
  rc_heading_token_coverage_bonus :: rat
  rc_phrase_overlap_bonus :: rat
  rc_rare_token_overlap_bonus :: rat
  rc_adjacent_chunk_context_bonus :: rat
  rc_prose_table_penalty :: rat
  rc_exact_filter_bonus :: rat
  rc_result_type_priority_bonus :: rat

section \<open>Reranking\<close>

text \<open>The dictionary of features of a result, which always has the same keys.\<close>

record rerank_features =
  ft_base_score :: rat
  ft_harness_name :: string
  ft_reranker_name :: string
  ft_reranker_version :: string
  ft_retrieval_profile_name :: string
  ft_tabular_table_signal :: int
  ft_tabular_boost :: rat
  ft_title_exact_match :: rat
  ft_title_token_coverage :: rat
  ft_title_match_boost :: rat
  ft_source_filename_exact_match :: rat
  ft_source_filename_exact_match_boost :: rat
  ft_source_filename_token_coverage :: rat
  ft_source_filename_boost :: rat
  ft_document_title_exact_match :: rat
  ft_document_title_exact_match_boost :: rat
  ft_document_title_token_coverage :: rat
  ft_document_title_boost :: rat
  ft_document_cluster_strength :: rat
  ft_prose_document_cluster_boost :: rat
  ft_heading_token_coverage :: rat
  ft_heading_boost :: rat
  ft_phrase_overlap :: rat
  ft_phrase_overlap_boost :: rat
  ft_rare_token_overlap :: rat
  ft_rare_token_overlap_boost :: rat
  ft_adjacent_chunk_context_signal :: rat
  ft_adjacent_chunk_context_boost :: rat
  ft_late_interaction_signal :: rat
  ft_prose_table_penalty :: rat
  ft_exact_filter_priority :: int
  ft_exact_filter_boost :: rat
  ft_result_type_priority :: int
  ft_result_type_priority_boost :: rat
  ft_query_intent :: query_intent
  ft_retrieval_sources :: "string list"
  ft_final_score :: rat

record reranked_result =
  re_item :: ranked_result
  re_rank :: nat
  re_base_rank :: "nat option"
  re_score :: rat
  re_features :: rerank_features

definition candidate_features ::
  "reranker_config \<Rightarrow> search_request \<Rightarrow> (ranked_result \<Rightarrow> rat) \<Rightarrow> bool \<Rightarrow> query_intent \<Rightarrow> query_feature_set \<Rightarrow>
   (uuid \<times> rat) list \<Rightarrow> ranked_result \<Rightarrow> rerank_features" where
  "candidate_features cf request score tabular intent features clusters r =
     (let base_score = score r;
          tabular_signal = (if tabular \<and> rr_result_type r = ''table'' then 1 else 0);
          (title_exact, title_coverage) = table_title_match_features r (Some (Features features));
          overlap = document_query_overlap_features r (Features features);
          prose = prose_query_match_features r (Features features);
          exact_priority = exact_filter_priority r (sr_filters request);
          type_priority = result_type_priority r tabular;
          cluster_strength = (case dict_get clusters (rr_document_id r) of None \<Rightarrow> 0 | Some s \<Rightarrow> s);
          title_match_boost = title_exact * rc_title_exact_match_bonus cf
            + title_coverage * rc_title_token_coverage_bonus cf;
          filename_exact_boost = of_source_filename_exact_match overlap * rc_source_filename_exact_match_bonus cf;
          filename_boost = of_source_filename_token_coverage overlap * rc_source_filename_token_coverage_bonus cf;
          document_exact_boost = of_document_title_exact_match overlap * rc_document_title_exact_match_bonus cf;
          document_boost = of_document_title_token_coverage overlap * rc_document_title_token_coverage_bonus cf;
          cluster_boost = cluster_strength * rc_prose_document_cluster_bonus cf;
          heading_boost = pm_heading_token_coverage prose * rc_heading_token_coverage_bonus cf;
          phrase_boost = pm_phrase_overlap prose * rc_phrase_overlap_bonus cf;
          rare_boost = pm_rare_token_overlap prose * rc_rare_token_overlap_bonus cf;
          adjacent_boost = pm_adjacent_chunk_context_signal prose * rc_adjacent_chunk_context_bonus cf;
          late_signal = (if ''multivector_late_interaction'' \<in> set (rr_retrieval_sources r) then 1 else 0);
          tabular_boost = of_int tabular_signal * rc_tabular_table_bonus cf;
          penalty = (if intent \<noteq> Tabular \<and> rr_result_type r = ''table'' then rc_prose_table_penalty cf else 0);
          exact_boost = of_int exact_priority * rc_exact_filter_bonus cf;
          type_boost = of_int type_priority * rc_result_type_priority_bonus cf;
          final_score = base_score + tabular_boost + title_match_boost + filename_exact_boost + filename_boost
            + document_exact_boost + document_boost + cluster_boost + heading_boost + phrase_boost
            + rare_boost + adjacent_boost - penalty + exact_boost + type_boost in
      \<lparr>ft_base_score = base_score, ft_harness_name = rc_harness_name cf,
       ft_reranker_name = rc_reranker_name cf, ft_reranker_version = rc_reranker_version cf,
       ft_retrieval_profile_name = rc_retrieval_profile_name cf,
       ft_tabular_table_signal = tabular_signal, ft_tabular_boost = tabular_boost,
       ft_title_exact_match = title_exact, ft_title_token_coverage = title_coverage,
       ft_title_match_boost = title_match_boost,
       ft_source_filename_exact_match = of_source_filename_exact_match overlap,
       ft_source_filename_exact_match_boost = filename_exact_boost,
       ft_source_filename_token_coverage = of_source_filename_token_coverage overlap,
       ft_source_filename_boost = filename_boost,
       ft_document_title_exact_match = of_document_title_exact_match overlap,
       ft_document_title_exact_match_boost = document_exact_boost,
       ft_document_title_token_coverage = of_document_title_token_coverage overlap,
       ft_document_title_boost = document_boost, ft_document_cluster_strength = cluster_strength,
       ft_prose_document_cluster_boost = cluster_boost,
       ft_heading_token_coverage = pm_heading_token_coverage prose, ft_heading_boost = heading_boost,
       ft_phrase_overlap = pm_phrase_overlap prose, ft_phrase_overlap_boost = phrase_boost,
       ft_rare_token_overlap = pm_rare_token_overlap prose, ft_rare_token_overlap_boost = rare_boost,
       ft_adjacent_chunk_context_signal = pm_adjacent_chunk_context_signal prose,
       ft_adjacent_chunk_context_boost = adjacent_boost, ft_late_interaction_signal = late_signal,
       ft_prose_table_penalty = penalty, ft_exact_filter_priority = exact_priority,
       ft_exact_filter_boost = exact_boost, ft_result_type_priority = type_priority,
       ft_result_type_priority_boost = type_boost, ft_query_intent = intent,
       ft_retrieval_sources = rr_retrieval_sources r, ft_final_score = final_score\<rparr>)"

definition annotate ::
  "(ranked_result \<Rightarrow> rerank_features) \<Rightarrow> nat \<times> ranked_result \<Rightarrow> reranked_result" where
  "annotate features ranked =
     (let (base_rank, r) = ranked; f = features r in
      \<lparr>re_item = r, re_rank = 0, re_base_rank = Some base_rank, re_score = ft_final_score f, re_features = f\<rparr>)"

definition rerank_key :: "reranked_result \<Rightarrow> rat \<times> int \<times> int \<times> int \<times> uuid" where
  "rerank_key c = (- re_score c, - ft_exact_filter_priority (re_features c),
     - ft_result_type_priority (re_features c), page_or_last (rr_page_from (re_item c)),
     rr_result_id (re_item c))"

definition with_rank :: "nat \<times> reranked_result \<Rightarrow> reranked_result" where
  "with_rank ranked = (snd ranked)\<lparr>re_rank := fst ranked\<rparr>"

definition rerank ::
  "reranker_config \<Rightarrow> ranked_result list \<Rightarrow> search_request \<Rightarrow> (ranked_result \<Rightarrow> rat) \<Rightarrow> bool \<Rightarrow>
   query_intent \<Rightarrow> query_feature_set option \<Rightarrow> reranked_result list" where
  "rerank cf items request score tabular intent query_features =
     (let features = (case query_features of
            Some f \<Rightarrow> f | None \<Rightarrow> build_query_feature_set (Some (sr_query request)));
          base_ranked = sort_key (score_key score) items;
          clusters = document_cluster_strengths base_ranked score intent;
          annotated = map (annotate (candidate_features cf request score tabular intent features clusters))
            (enumerate 1 base_ranked);
          ranked = take (sr_limit request) (sort_key rerank_key annotated) in
      map with_rank (enumerate 1 ranked))"

definition rerank_results ::
  "ranked_result list \<Rightarrow> search_request \<Rightarrow> (ranked_result \<Rightarrow> rat) \<Rightarrow> bool \<Rightarrow> query_intent \<Rightarrow> reranker_config \<Rightarrow>
   reranked_result list" where
  "rerank_results items request score tabular intent cf =
     rerank cf items request score tabular intent (Some (build_query_feature_set (Some (sr_query request))))"

text \<open>\<open>merge_hybrid_results\<close>: fusion, reranking and conversion in one call.\<close>

definition merge_hybrid_results ::
  "addr list \<Rightarrow> addr list \<Rightarrow> nat \<Rightarrow> search_filters option \<Rightarrow> bool \<Rightarrow> reranker_config \<Rightarrow> query_intent \<Rightarrow>
   string option \<Rightarrow> heap \<Rightarrow> search_result list \<times> heap" where
  "merge_hybrid_results keyword_results semantic_results limit filters tabular cf intent query h =
     (let (merged, h1) = merge_hybrid_candidates keyword_results semantic_results h;
          request = \<lparr>sr_query = (case str_or query (Some ''hybrid results'') of Some q \<Rightarrow> q | None \<Rightarrow> []),
            sr_mode = Hybrid_Mode, sr_filters = filters, sr_limit = limit, sr_harness_name = None\<rparr> in
      (map (\<lambda>c. to_search_result (re_item c) (re_score c))
         (rerank_results (objects h1 merged) request hybrid_score tabular intent cf), h1))"

section \<open>The result is the best part of a permutation\<close>

text \<open>The features a candidate gets in a call of \<open>rerank\<close>.\<close>

definition features_in ::
  "reranker_config \<Rightarrow> ranked_result list \<Rightarrow> search_request \<Rightarrow> (ranked_result \<Rightarrow> rat) \<Rightarrow> bool \<Rightarrow> query_intent \<Rightarrow>
   query_feature_set option \<Rightarrow> ranked_result \<Rightarrow> rerank_features" where
  "features_in cf items request score tabular intent query_features =
     candidate_features cf request score tabular intent
       (case query_features of Some f \<Rightarrow> f | None \<Rightarrow> build_query_feature_set (Some (sr_query request)))
       (document_cluster_strengths (sort_key (score_key score) items) score intent)"

lemma annotate_simps [simp]:
  "re_item (annotate F ir) = snd ir" "re_features (annotate F ir) = F (snd ir)"
  "re_score (annotate F ir) = ft_final_score (F (snd ir))" "re_base_rank (annotate F ir) = Some (fst ir)"
  by (simp_all add: annotate_def Let_def case_prod_beta)

lemma with_rank_simps [simp]:
  "re_item (with_rank ir) = re_item (snd ir)" "re_features (with_rank ir) = re_features (snd ir)"
  "re_score (with_rank ir) = re_score (snd ir)" "re_base_rank (with_rank ir) = re_base_rank (snd ir)"
  "re_rank (with_rank ir) = fst ir" "rerank_key (with_rank ir) = rerank_key (snd ir)"
  by (simp_all add: with_rank_def rerank_key_def)

lemma map_with_rank:
  assumes "\<And>ir. f (with_rank ir) = f (snd ir)"
  shows "map f (map with_rank (enumerate n xs)) = map f xs"
proof -
  have "map f (map with_rank (enumerate n xs)) = map f (map snd (enumerate n xs))"
    unfolding map_map using assms by (simp add: comp_def)
  then show ?thesis by simp
qed

lemma take_sorted_below:
  "sorted (map k xs) \<Longrightarrow> c \<in> set (take n xs) \<Longrightarrow> d \<in> set (drop n xs) \<Longrightarrow> k c \<le> k d"
  using sorted_append [of "map k (take n xs)" "map k (drop n xs)"]
  by (simp flip: map_append)

lemma rerank_split:
  fixes cf items request score tabular intent query_features
  defines "F \<equiv> features_in cf items request score tabular intent query_features"
    and "rs \<equiv> rerank cf items request score tabular intent query_features"
  obtains dropped where
    "length rs = min (sr_limit request) (length items)" "map re_rank rs = [1..<Suc (length rs)]"
    "sorted (map rerank_key rs)" "mset (map re_item (rs @ dropped)) = mset items"
    "\<And>c d. c \<in> set rs \<Longrightarrow> d \<in> set dropped \<Longrightarrow> rerank_key c \<le> rerank_key d"
    "\<And>c. c \<in> set (rs @ dropped) \<Longrightarrow> re_features c = F (re_item c) \<and> re_score c = ft_final_score (F (re_item c))"
    "mset (map re_base_rank (rs @ dropped)) = mset (map Some [1..<Suc (length items)])"
    "\<And>c. c \<in> set (rs @ dropped) \<Longrightarrow> \<exists>j < length items. re_base_rank c = Some (j + 1)
      \<and> re_item c = sort_key (score_key score) items ! j"
proof
  let ?base = "sort_key (score_key score) items"
  let ?ann = "map (annotate F) (enumerate 1 ?base)"
  let ?sorted = "sort_key rerank_key ?ann"
  let ?top = "take (sr_limit request) ?sorted" and ?rest = "drop (sr_limit request) ?sorted"
  have rs: "rs = map with_rank (enumerate 1 ?top)"
    by (simp add: rs_def rerank_def F_def features_in_def Let_def)
  have maps: "map f rs = map f ?top" if "\<And>ir. f (with_rank ir) = f (snd ir)" for f :: "reranked_result \<Rightarrow> 'b"
    unfolding rs by (rule map_with_rank [OF that])
  show "length rs = min (sr_limit request) (length items)" by (simp add: rs)
  show "map re_rank rs = [1..<Suc (length rs)]" by (simp add: rs comp_def)
  show "sorted (map rerank_key rs)"
    unfolding maps [of rerank_key, simplified] by (simp add: take_map [symmetric] sorted_wrt_take)
  have all: "mset (map g (rs @ ?rest)) = mset (map g ?ann)" if "\<And>ir. g (with_rank ir) = g (snd ir)"
    for g :: "reranked_result \<Rightarrow> 'b"
  proof -
    have "map g (rs @ ?rest) = map g ?sorted"
      unfolding map_append maps [OF that] by (simp flip: map_append)
    then show ?thesis by (simp only: mset_map mset_sort)
  qed
  show "mset (map re_item (rs @ ?rest)) = mset items"
  proof -
    have "mset (map re_item (rs @ ?rest)) = mset (map re_item ?ann)" by (rule all) simp
    also have "map re_item ?ann = ?base" by (simp add: comp_def)
    finally show ?thesis by simp
  qed
  show "mset (map re_base_rank (rs @ ?rest)) = mset (map Some [1..<Suc (length items)])"
  proof -
    have "mset (map re_base_rank (rs @ ?rest)) = mset (map re_base_rank ?ann)" by (rule all) simp
    also have "map re_base_rank ?ann = map Some (map fst (enumerate 1 ?base))"
      unfolding map_map by (rule map_cong) simp_all
    also have "\<dots> = map Some [1..<Suc (length items)]" unfolding map_fst_enumerate by simp
    finally show ?thesis .
  qed
  show "rerank_key c \<le> rerank_key d" if "c \<in> set rs" "d \<in> set ?rest" for c d
  proof -
    have "rerank_key c \<in> rerank_key ` set ?top"
      using that(1) arg_cong [OF maps [of rerank_key], of set] by (metis image_eqI list.set_map with_rank_simps(6))
    then obtain c' where "c' \<in> set ?top" "rerank_key c = rerank_key c'" by blast
    then show ?thesis using take_sorted_below [of rerank_key ?sorted c' _ d] that(2) by simp
  qed
  show "\<exists>j < length items. re_base_rank c = Some (j + 1) \<and> re_item c = ?base ! j"
    if "c \<in> set (rs @ ?rest)" for c
  proof -
    let ?g = "\<lambda>c. (re_base_rank c, re_item c)"
    have "set (map ?g (rs @ ?rest)) = set (map ?g ?ann)" by (rule mset_eq_setD, rule all) simp
    then have "?g c \<in> set (map ?g ?ann)" using that by (metis (no_types, lifting) image_eqI list.set_map)
    then obtain a where "Suc 0 \<le> a" "a < Suc (length items)" "re_base_rank c = Some a"
      "re_item c = ?base ! (a - Suc 0)"
      by (auto simp: in_set_enumerate_eq)
    then show ?thesis by (intro exI [of _ "a - 1"]) auto
  qed
  show "re_features c = F (re_item c) \<and> re_score c = ft_final_score (F (re_item c))"
    if "c \<in> set (rs @ ?rest)" for c
  proof -
    let ?g = "\<lambda>c. (re_item c, re_features c, re_score c)"
    have "set (map ?g (rs @ ?rest)) = set (map ?g ?ann)" by (rule mset_eq_setD, rule all) simp
    then have "?g c \<in> set (map ?g ?ann)" using that by (metis (no_types, lifting) image_eqI list.set_map)
    then show ?thesis by auto
  qed
qed

section \<open>How far features move a score\<close>

text \<open>A strength is a proportion when the scores are not negative.\<close>

lemma foldl_add_to:
  fixes f :: "'a \<Rightarrow> 'v::monoid_add"
  shows "dict_get (foldl (\<lambda>d r. add_to (key r) (f r) d) [] xs) k =
    (if k \<in> key ` set xs then Some (sum_list (map f (filter (\<lambda>r. key r = k) xs))) else None)"
proof (induction xs rule: rev_induct)
  case (snoc x xs)
  have "key x \<notin> key ` set xs \<Longrightarrow> filter (\<lambda>r. key r = key x) xs = []"
    by (metis (mono_tags, lifting) filter_empty_conv image_eqI)
  with snoc show ?case by (auto simp: add_to_def dict_get_set)
qed simp

lemma add_to_keys:
  "distinct_keys (foldl (\<lambda>d r. add_to (key r) (f r) d) [] xs)"
  by (induction xs rule: rev_induct) (simp_all add: add_to_def)

lemma cluster_strength_bounds:
  assumes "\<forall>r \<in> set items. 0 \<le> score r"
    and "dict_get (document_cluster_strengths items score intent) i = Some s"
  shows "0 \<le> s \<and> s \<le> 1"
proof -
  let ?counts = "foldl (\<lambda>d r. add_to (rr_document_id r) (1 :: int) d) [] items"
  let ?totals = "foldl (\<lambda>d r. add_to (rr_document_id r) (score r) d) [] items"
  let ?mc = "list_max 0 (map snd ?counts)" and ?ms = "list_max 0 (map snd ?totals)"
  have mem: "(i, s) \<in> set (document_cluster_strengths items score intent)"
    using assms(2) by (rule map_of_SomeD)
  then have big: "1 < ?mc" "0 < ?ms"
    by (auto simp: document_cluster_strengths_def Let_def split: if_splits)
  from mem obtain count where c: "(i, count) \<in> set ?counts" and s: "s = (if count \<le> 1 then 0
      else (of_int (count - 1) / of_int (?mc - 1)) * ((case dict_get ?totals i of None \<Rightarrow> 0 | Some s \<Rightarrow> s) / ?ms))"
    by (auto simp: document_cluster_strengths_def Let_def split: if_splits)
  have le: "count \<le> ?mc" using c by (intro list_max_upper) force
  have tot: "0 \<le> (case dict_get ?totals i of None \<Rightarrow> 0 | Some s \<Rightarrow> s)
      \<and> (case dict_get ?totals i of None \<Rightarrow> 0 | Some s \<Rightarrow> s) \<le> ?ms"
  proof (cases "dict_get ?totals i")
    case (Some t)
    then have "t \<in> set (map snd ?totals)" by (force dest: map_of_SomeD)
    then have "t \<le> ?ms" by (rule list_max_upper)
    moreover have "0 \<le> t"
      using Some assms(1) unfolding foldl_add_to by (auto split: if_splits intro!: sum_list_nonneg)
    ultimately show ?thesis using Some by simp
  qed (use big in simp)
  show ?thesis
  proof (cases "count \<le> 1")
    case False
    have "0 \<le> (of_int (count - 1) / of_int (?mc - 1) :: rat)" "(of_int (count - 1) / of_int (?mc - 1) :: rat) \<le> 1"
      using False le big(1) by simp_all
    moreover have "0 \<le> (case dict_get ?totals i of None \<Rightarrow> 0 | Some s \<Rightarrow> s) / ?ms"
      "(case dict_get ?totals i of None \<Rightarrow> 0 | Some s \<Rightarrow> s) / ?ms \<le> 1"
      using tot big(2) by simp_all
    moreover have "0 \<le> a * b \<and> a * b \<le> 1" if "0 \<le> a" "a \<le> 1" "0 \<le> b" "b \<le> 1" for a b :: rat
      using that by (simp add: mult_le_one)
    ultimately show ?thesis using False unfolding s by presburger
  qed (simp add: s)
qed

text \<open>All bonuses of a configuration together, and a configuration without negative weights.\<close>

definition total_bonus :: "reranker_config \<Rightarrow> rat" where
  "total_bonus cf = rc_tabular_table_bonus cf + rc_title_exact_match_bonus cf + rc_title_token_coverage_bonus cf
     + rc_source_filename_exact_match_bonus cf + rc_source_filename_token_coverage_bonus cf
     + rc_document_title_exact_match_bonus cf + rc_document_title_token_coverage_bonus cf
     + rc_prose_document_cluster_bonus cf + rc_heading_token_coverage_bonus cf + rc_phrase_overlap_bonus cf
     + rc_rare_token_overlap_bonus cf + rc_adjacent_chunk_context_bonus cf + rc_exact_filter_bonus cf
     + rc_result_type_priority_bonus cf"

definition weights_nonneg :: "reranker_config \<Rightarrow> bool" where
  "weights_nonneg cf = list_all (\<lambda>w. 0 \<le> w)
     [rc_tabular_table_bonus cf, rc_title_exact_match_bonus cf, rc_title_token_coverage_bonus cf,
      rc_source_filename_exact_match_bonus cf, rc_source_filename_token_coverage_bonus cf,
      rc_document_title_exact_match_bonus cf, rc_document_title_token_coverage_bonus cf,
      rc_prose_document_cluster_bonus cf, rc_heading_token_coverage_bonus cf, rc_phrase_overlap_bonus cf,
      rc_rare_token_overlap_bonus cf, rc_adjacent_chunk_context_bonus cf, rc_prose_table_penalty cf,
      rc_exact_filter_bonus cf, rc_result_type_priority_bonus cf]"

definition unit :: "rat \<Rightarrow> bool" where
  "unit x \<longleftrightarrow> 0 \<le> x \<and> x \<le> 1"

lemma boost_bounds: "unit x \<Longrightarrow> 0 \<le> b \<Longrightarrow> 0 \<le> x * b \<and> x * b \<le> b"
  by (simp add: unit_def mult_left_le_one_le)

lemma feature_units:
  "unit (fst (table_title_match_features r q))" "unit (snd (table_title_match_features r q))"
  "unit (strong_document_phrase_match qa v)" "unit (token_coverage qa v)"
  "unit (of_int (exact_filter_priority r fs))" "unit (of_int (result_type_priority r tab))"
  "unit (pm_heading_token_coverage (prose_query_match_features r qa))"
  "unit (pm_rare_token_overlap (prose_query_match_features r qa))"
  "unit (pm_adjacent_chunk_context_signal (prose_query_match_features r qa))"
  using share_bounds token_coverage_bounds phrase_match_cases [of qa v]
  by (auto simp: unit_def table_title_match_features_def exact_filter_priority_def result_type_priority_def
      prose_query_match_features_def Let_def split: option.split)

lemma phrase_unit: "unit (pm_phrase_overlap (prose_query_match_features r q))"
proof -
  have "unit (of_nat (card (Set.filter P A)) / of_nat (card A))" for P and A :: "string set"
  proof (cases "finite A")
    case True
    then have "card (Set.filter P A) \<le> card A" by (intro card_mono) auto
    then show ?thesis by (cases "card A = 0") (simp_all add: unit_def)
  qed (simp add: unit_def)
  then show ?thesis by (simp add: prose_query_match_features_def Let_def) (simp add: unit_def)
qed

lemma overlap_units:
  "unit (of_source_filename_exact_match (document_query_overlap_features r q))"
  "unit (of_source_filename_token_coverage (document_query_overlap_features r q))"
  "unit (of_document_title_exact_match (document_query_overlap_features r q))"
  "unit (of_document_title_token_coverage (document_query_overlap_features r q))"
  by (simp_all add: document_query_overlap_features_def feature_units)

lemma final_score_bounds:
  assumes w: "weights_nonneg cf"
    and cl: "\<And>i s. dict_get clusters i = Some s \<Longrightarrow> 0 \<le> s \<and> s \<le> 1"
  shows "score r - rc_prose_table_penalty cf
      \<le> ft_final_score (candidate_features cf request score tabular intent features clusters r)"
    "ft_final_score (candidate_features cf request score tabular intent features clusters r)
      \<le> score r + total_bonus cf"
proof -
  have c: "unit (case dict_get clusters i of None \<Rightarrow> 0 | Some s \<Rightarrow> s)" for i
    using cl [of i] by (auto simp: unit_def split: option.split)
  have sig: "unit (of_int (if tabular \<and> rr_result_type r = ''table'' then 1 else 0))" by (simp add: unit_def)
  have t: "unit (fst (table_title_match_features r (Some (Features features))))"
    "unit (snd (table_title_match_features r (Some (Features features))))"
    using feature_units by blast+
  obtain te tc where tm: "table_title_match_features r (Some (Features features)) = (te, tc)" by fastforce
  note b = boost_bounds
  note bs = b [OF sig, of "rc_tabular_table_bonus cf"]
    b [OF t(1), of "rc_title_exact_match_bonus cf"] b [OF t(2), of "rc_title_token_coverage_bonus cf"]
    b [OF overlap_units(1) [of r "Features features"], of "rc_source_filename_exact_match_bonus cf"]
    b [OF overlap_units(2) [of r "Features features"], of "rc_source_filename_token_coverage_bonus cf"]
    b [OF overlap_units(3) [of r "Features features"], of "rc_document_title_exact_match_bonus cf"]
    b [OF overlap_units(4) [of r "Features features"], of "rc_document_title_token_coverage_bonus cf"]
    b [OF c [of "rr_document_id r"], of "rc_prose_document_cluster_bonus cf"]
    b [OF feature_units(7) [of r "Features features"], of "rc_heading_token_coverage_bonus cf"]
    b [OF phrase_unit [of r "Features features"], of "rc_phrase_overlap_bonus cf"]
    b [OF feature_units(8) [of r "Features features"], of "rc_rare_token_overlap_bonus cf"]
    b [OF feature_units(9) [of r "Features features"], of "rc_adjacent_chunk_context_bonus cf"]
    b [OF feature_units(5) [of r "sr_filters request"], of "rc_exact_filter_bonus cf"]
    b [OF feature_units(6) [of r tabular], of "rc_result_type_priority_bonus cf"]
  have pen: "0 \<le> (if intent \<noteq> Tabular \<and> rr_result_type r = ''table'' then rc_prose_table_penalty cf else 0)"
    "(if intent \<noteq> Tabular \<and> rr_result_type r = ''table'' then rc_prose_table_penalty cf else 0)
      \<le> rc_prose_table_penalty cf"
    using w by (simp_all add: weights_nonneg_def)
  show "score r - rc_prose_table_penalty cf
      \<le> ft_final_score (candidate_features cf request score tabular intent features clusters r)"
    "ft_final_score (candidate_features cf request score tabular intent features clusters r)
      \<le> score r + total_bonus cf"
    using bs pen w unfolding candidate_features_def tm Let_def prod.case fst_conv snd_conv
      rerank_features.select_convs total_bonus_def weights_nonneg_def list.pred_inject
    by linarith+
qed

section \<open>Properties\<close>

text \<open>
  The two orders, written out: greater scores first; then exact matches of the filters and preferred
  types of results first (these only for the final order); then earlier pages, results without a page
  counting as page one billion; then smaller identifiers.
\<close>

definition page_number :: "ranked_result \<Rightarrow> int" where
  "page_number r = (case rr_page_from r of None \<Rightarrow> 1000000000 | Some p \<Rightarrow> p)"

definition not_after_by_score :: "(ranked_result \<Rightarrow> rat) \<Rightarrow> ranked_result \<Rightarrow> ranked_result \<Rightarrow> bool" where
  "not_after_by_score score r q \<longleftrightarrow> score r > score q \<or> score r = score q \<and>
     (page_number r < page_number q \<or> page_number r = page_number q \<and> rr_result_id r \<le> rr_result_id q)"

definition not_ranked_after :: "reranked_result \<Rightarrow> reranked_result \<Rightarrow> bool" where
  "not_ranked_after c d \<longleftrightarrow> re_score c > re_score d \<or> re_score c = re_score d \<and>
     (let p = (\<lambda>c. ft_exact_filter_priority (re_features c)); t = (\<lambda>c. ft_result_type_priority (re_features c)) in
      p c > p d \<or> p c = p d \<and> (t c > t d \<or> t c = t d \<and>
        (page_number (re_item c) < page_number (re_item d) \<or> page_number (re_item c) = page_number (re_item d) \<and>
           rr_result_id (re_item c) \<le> rr_result_id (re_item d))))"

lemma page_number: "page_or_last (rr_page_from r) = page_number r"
  by (simp add: page_or_last_def page_number_def split: option.split)

lemma score_key_order: "score_key score r \<le> score_key score q \<longleftrightarrow> not_after_by_score score r q"
  by (auto simp: score_key_def page_number not_after_by_score_def less_eq_prod_def less_prod_def)

lemma rerank_key_order: "rerank_key c \<le> rerank_key d \<longleftrightarrow> not_ranked_after c d"
  by (auto simp: rerank_key_def page_number not_ranked_after_def less_eq_prod_def less_prod_def Let_def)

text \<open>
  C18: what reranking returns. The result has as many entries as the limit allows, numbered from one,
  in the order of the final score, greatest first, with the documented tie breaks, and no dropped
  candidate would come before a returned one. Together with the candidates that were dropped it is a
  permutation of the input; every entry has the features and the score that its item has in this
  call, and as base rank its place in the order by base score, greatest first.
\<close>

theorem rerank_best_of_permutation:
  "\<exists>dropped. let rs = rerank cf items request score tabular intent query_features;
      F = features_in cf items request score tabular intent query_features in
    length rs = min (sr_limit request) (length items) \<and> map re_rank rs = [1..<Suc (length rs)]
    \<and> sorted_wrt not_ranked_after rs \<and> (\<forall>c \<in> set rs. \<forall>d \<in> set dropped. not_ranked_after c d)
    \<and> mset (map re_item (rs @ dropped)) = mset items
    \<and> (\<forall>c \<in> set (rs @ dropped). re_features c = F (re_item c) \<and> re_score c = ft_final_score (F (re_item c)))
    \<and> mset (map re_base_rank (rs @ dropped)) = mset (map Some [1..<Suc (length items)])
    \<and> (\<forall>c \<in> set (rs @ dropped). \<forall>d \<in> set (rs @ dropped). \<forall>m n.
        re_base_rank c = Some m \<longrightarrow> re_base_rank d = Some n \<longrightarrow> m < n \<longrightarrow>
        not_after_by_score score (re_item c) (re_item d))"
proof (rule rerank_split [of cf items request score tabular intent query_features])
  fix dropped
  let ?rs = "rerank cf items request score tabular intent query_features"
    and ?F = "features_in cf items request score tabular intent query_features"
    and ?base = "sort_key (score_key score) items"
  assume rs: "length ?rs = min (sr_limit request) (length items)" "map re_rank ?rs = [1..<Suc (length ?rs)]"
      "sorted (map rerank_key ?rs)" "mset (map re_item (?rs @ dropped)) = mset items"
      "mset (map re_base_rank (?rs @ dropped)) = mset (map Some [1..<Suc (length items)])"
    and below: "\<And>c d. c \<in> set ?rs \<Longrightarrow> d \<in> set dropped \<Longrightarrow> rerank_key c \<le> rerank_key d"
    and features: "\<And>c. c \<in> set (?rs @ dropped) \<Longrightarrow>
      re_features c = ?F (re_item c) \<and> re_score c = ft_final_score (?F (re_item c))"
    and base: "\<And>c. c \<in> set (?rs @ dropped) \<Longrightarrow>
      \<exists>j < length items. re_base_rank c = Some (j + 1) \<and> re_item c = ?base ! j"
  have "sorted_wrt not_ranked_after ?rs"
    using rs(3) by (simp add: sorted_wrt_map rerank_key_order)
  moreover have "not_after_by_score score (re_item c) (re_item d)"
    if c: "c \<in> set (?rs @ dropped)" and d: "d \<in> set (?rs @ dropped)"
      and m: "re_base_rank c = Some m" and n: "re_base_rank d = Some n" and "m < n" for c d m n
  proof -
    obtain j k where "j < length items" "k < length items" "m = j + 1" "n = k + 1"
      "re_item c = ?base ! j" "re_item d = ?base ! k"
      using base [OF c] base [OF d] m n by auto
    then have "score_key score (re_item c) \<le> score_key score (re_item d)"
      using sorted_nth_mono [of "map (score_key score) ?base" j k] \<open>m < n\<close> by simp
    then show ?thesis by (simp add: score_key_order)
  qed
  ultimately show ?thesis
    using rs below features unfolding Let_def rerank_key_order by (intro exI [of _ dropped]) blast
qed

text \<open>A configuration of the registry: \<open>default_v1\<close>.\<close>

definition default_v1_reranker :: reranker_config where
  "default_v1_reranker = \<lparr>rc_harness_name = ''default_v1'', rc_reranker_name = ''linear_feature_reranker'',
     rc_reranker_version = ''v1'', rc_retrieval_profile_name = ''default_v1'',
     rc_tabular_table_bonus = 0.05, rc_title_exact_match_bonus = 0.04, rc_title_token_coverage_bonus = 0.02,
     rc_source_filename_exact_match_bonus = 4, rc_source_filename_token_coverage_bonus = 0.035,
     rc_document_title_exact_match_bonus = 2, rc_document_title_token_coverage_bonus = 0.03,
     rc_prose_document_cluster_bonus = 0.025, rc_heading_token_coverage_bonus = 0.03,
     rc_phrase_overlap_bonus = 0.03, rc_rare_token_overlap_bonus = 0.04,
     rc_adjacent_chunk_context_bonus = 0, rc_prose_table_penalty = 0.03, rc_exact_filter_bonus = 0.01,
     rc_result_type_priority_bonus = 0.005\<rparr>"

definition example_search :: search_request where
  "example_search = \<lparr>sr_query = ''revenue'', sr_mode = Keyword_Mode, sr_filters = None, sr_limit = 2,
     sr_harness_name = None\<rparr>"

theorem rerank_best_of_permutation_witness:
  "\<exists>c d. rerank default_v1_reranker example_heap example_search keyword_score False Prose_Lookup None = [c, d]
    \<and> re_rank c = 1 \<and> re_rank d = 2 \<and> re_score d \<le> re_score c"
proof -
  let ?rs = "rerank default_v1_reranker example_heap example_search keyword_score False Prose_Lookup None"
  have "length ?rs = 2 \<and> map re_rank ?rs = [1..<Suc (length ?rs)] \<and> sorted_wrt not_ranked_after ?rs"
    using rerank_best_of_permutation [of default_v1_reranker example_heap example_search keyword_score False
        Prose_Lookup None]
    by (auto simp: Let_def example_search_def example_heap_def)
  then show ?thesis
    by (auto simp: numeral_2_eq_2 length_Suc_conv not_ranked_after_def Let_def)
qed

text \<open>
  Features cannot run away. With weights and base scores that are not negative, the final score
  of a candidate lies between its base score less the penalty for tables and its base score plus the
  sum of all bonuses, whatever the query and the documents.
\<close>

theorem rerank_score_bounds:
  assumes "weights_nonneg cf" and "\<forall>r \<in> set items. 0 \<le> score r"
    and "c \<in> set (rerank cf items request score tabular intent query_features)"
  shows "score (re_item c) - rc_prose_table_penalty cf \<le> re_score c
    \<and> re_score c \<le> score (re_item c) + total_bonus cf"
proof -
  have cl: "0 \<le> s \<and> s \<le> 1" if "dict_get (document_cluster_strengths (sort_key (score_key score) items)
      score intent) i = Some s" for i s
    using cluster_strength_bounds [OF _ that] assms(2) by simp
  have "re_score c = ft_final_score (features_in cf items request score tabular intent query_features (re_item c))"
    by (rule rerank_split [of cf items request score tabular intent query_features]) (use assms(3) in auto)
  then show ?thesis
    using final_score_bounds [OF assms(1) cl] unfolding features_in_def by simp
qed

theorem rerank_score_bounds_witness:
  "list_all (\<lambda>c. re_score c \<le> keyword_score (re_item c) + 6.345)
     (rerank default_v1_reranker example_heap example_search keyword_score False Prose_Lookup None)"
  unfolding list_all_iff
proof
  fix c assume c: "c \<in> set (rerank default_v1_reranker example_heap example_search keyword_score False Prose_Lookup None)"
  have "weights_nonneg default_v1_reranker" by (simp add: weights_nonneg_def default_v1_reranker_def)
  moreover have "\<forall>r \<in> set example_heap. 0 \<le> keyword_score r"
    by (simp add: example_heap_def example_result_def keyword_score_def score_or_zero_def)
  ultimately have "re_score c \<le> keyword_score (re_item c) + total_bonus default_v1_reranker"
    using rerank_score_bounds [OF _ _ c] by blast
  then show "re_score c \<le> keyword_score (re_item c) + 6.345"
    by (simp add: total_bonus_def default_v1_reranker_def)
qed

end
