(* ===== verification/Search_Harness.thy ===== *)
theory Search_Harness
  imports Search_Rerank
begin

text \<open>
  \<open>app/services/search_harness_contracts.py\<close>, \<open>search_harness_registry.py\<close> and
  \<open>search_harness_overrides.py\<close>: named search harnesses, made of a retrieval profile and the weights
  of a reranker, and harnesses derived from them by overrides from a file or from a request.

  The dataclasses are not checked when they are replaced field by field, so the numeric fields of a
  profile and of a configuration are dictionaries of JSON values. The lemmas show that a registry
  built from well-typed overrides is well typed.
\<close>

section \<open>Harnesses\<close>

record retrieval_profile =
  rp_name :: string
  rp_fields :: dict

record linear_config =
  lc_harness_name :: string
  lc_reranker_name :: string
  lc_reranker_version :: string
  lc_retrieval_profile_name :: string
  lc_weights :: dict

record search_harness =
  sh_name :: string
  sh_retrieval_profile :: retrieval_profile
  sh_reranker_config :: linear_config
  sh_base_harness_name :: "string option"
  sh_metadata :: dict

definition profile_snapshot :: "retrieval_profile \<Rightarrow> json" where
  "profile_snapshot p = JObj ((''name'', JStr (rp_name p)) # rp_fields p)"

definition config_snapshot :: "linear_config \<Rightarrow> json" where
  "config_snapshot c = JObj (
     [(''harness_name'', JStr (lc_harness_name c)), (''reranker_name'', JStr (lc_reranker_name c)),
      (''reranker_version'', JStr (lc_reranker_version c)),
      (''retrieval_profile_name'', JStr (lc_retrieval_profile_name c))] @ lc_weights c)"

definition harness_snapshot :: "search_harness \<Rightarrow> json" where
  "harness_snapshot h = JObj (
     [(''harness_name'', JStr (sh_name h)),
      (''retrieval_profile'', profile_snapshot (sh_retrieval_profile h)),
      (''reranker'', config_snapshot (sh_reranker_config h))]
     @ (case sh_base_harness_name h of None \<Rightarrow> [] | Some b \<Rightarrow> [(''base_harness_name'', JStr b)])
     @ (if sh_metadata h \<noteq> [] then [(''metadata'', JObj (sh_metadata h))] else []))"

section \<open>The built-in harnesses\<close>

definition DEFAULT_SEARCH_HARNESS_NAME :: string where
  "DEFAULT_SEARCH_HARNESS_NAME = ''default_v1''"

definition make_profile ::
  "string \<Rightarrow> int \<Rightarrow> int \<Rightarrow> int \<Rightarrow> bool \<Rightarrow> int \<Rightarrow> int \<Rightarrow> retrieval_profile" where
  "make_profile name keyword_multiplier semantic_multiplier min_limit late late_multiplier late_min =
     \<lparr>rp_name = name, rp_fields = [
        (''keyword_candidate_multiplier'', JInt keyword_multiplier),
        (''semantic_candidate_multiplier'', JInt semantic_multiplier),
        (''min_candidate_limit'', JInt min_limit),
        (''late_interaction_enabled'', JBool late),
        (''late_interaction_candidate_multiplier'', JInt late_multiplier),
        (''late_interaction_min_candidate_limit'', JInt late_min)]\<rparr>"

definition DEFAULT_RETRIEVAL_PROFILE :: retrieval_profile where
  "DEFAULT_RETRIEVAL_PROFILE = make_profile ''default_v1'' 5 5 20 False 6 24"

definition WIDE_RETRIEVAL_PROFILE :: retrieval_profile where
  "WIDE_RETRIEVAL_PROFILE = make_profile ''wide_v2'' 7 7 28 False 6 24"

definition PROSE_RETRIEVAL_PROFILE :: retrieval_profile where
  "PROSE_RETRIEVAL_PROFILE = make_profile ''prose_v3'' 10 10 40 False 6 24"

definition MULTIVECTOR_RETRIEVAL_PROFILE :: retrieval_profile where
  "MULTIVECTOR_RETRIEVAL_PROFILE = make_profile ''multivector_v1'' 7 7 28 True 8 32"

definition SEARCH_HARNESS_RETRIEVAL_OVERRIDE_FIELDS :: "string list" where
  "SEARCH_HARNESS_RETRIEVAL_OVERRIDE_FIELDS =
     [''keyword_candidate_multiplier'', ''semantic_candidate_multiplier'', ''min_candidate_limit'',
      ''late_interaction_enabled'', ''late_interaction_candidate_multiplier'',
      ''late_interaction_min_candidate_limit'']"

definition SEARCH_HARNESS_RERANKER_OVERRIDE_FIELDS :: "string list" where
  "SEARCH_HARNESS_RERANKER_OVERRIDE_FIELDS =
     [''tabular_table_bonus'', ''title_exact_match_bonus'', ''title_token_coverage_bonus'',
      ''source_filename_exact_match_bonus'', ''source_filename_token_coverage_bonus'',
      ''document_title_exact_match_bonus'', ''document_title_token_coverage_bonus'',
      ''prose_document_cluster_bonus'', ''heading_token_coverage_bonus'', ''phrase_overlap_bonus'',
      ''rare_token_overlap_bonus'', ''adjacent_chunk_context_bonus'', ''prose_table_penalty'',
      ''exact_filter_bonus'', ''result_type_priority_bonus'']"

text \<open>A built-in harness; the weights are in the order of the fields.\<close>

definition built_in :: "retrieval_profile \<Rightarrow> string \<Rightarrow> rat list \<Rightarrow> dict \<Rightarrow> string \<times> search_harness" where
  "built_in profile version weights metadata = (rp_name profile,
     \<lparr>sh_name = rp_name profile, sh_retrieval_profile = profile,
      sh_reranker_config = \<lparr>lc_harness_name = rp_name profile,
        lc_reranker_name = ''linear_feature_reranker'', lc_reranker_version = version,
        lc_retrieval_profile_name = rp_name profile,
        lc_weights = zip SEARCH_HARNESS_RERANKER_OVERRIDE_FIELDS (map JReal weights)\<rparr>,
      sh_base_harness_name = None, sh_metadata = metadata\<rparr>)"

definition HARNESS_REGISTRY :: "(string \<times> search_harness) list" where
  "HARNESS_REGISTRY = [
     built_in DEFAULT_RETRIEVAL_PROFILE ''v1''
       [0.05, 0.04, 0.02, 4, 0.035, 2, 0.03, 0.025, 0.03, 0.03, 0.04, 0, 0.03, 0.01, 0.005] [],
     built_in WIDE_RETRIEVAL_PROFILE ''v2''
       [0.08, 0.05, 0.03, 4, 0.045, 2.25, 0.04, 0.035, 0.03, 0.03, 0.04, 0, 0, 0.02, 0.008] [],
     built_in PROSE_RETRIEVAL_PROFILE ''v3''
       [0.08, 0.05, 0.03, 3.5, 0.05, 2.25, 0.045, 0.07, 0.03, 0.04, 0.045, 0.025, 0.02, 0.02, 0.008] [],
     built_in MULTIVECTOR_RETRIEVAL_PROFILE ''v4''
       [0.08, 0.05, 0.03, 4, 0.045, 2.25, 0.04, 0.04, 0.03, 0.03, 0.04, 0, 0, 0.02, 0.008]
       [(''retrieval_family'', JStr ''multivector_late_interaction''),
        (''audit_note'', JStr (''Uses retrieval evidence span multivectors and records query-to-span ''
           @ ''max-sim traces when embeddings are available.''))]]"

section \<open>Derived harnesses\<close>

text \<open>
  \<open>dict(x)\<close> of a JSON value: a list must consist of pairs whose first part is a string (a text of two
  characters is such a pair); \<open>dict(x or {})\<close> of an optional one.
\<close>

fun pair_entry :: "json \<Rightarrow> (string \<times> json) option" where
  "pair_entry (JArr [JStr k, v]) = Some (k, v)"
| "pair_entry (JStr [a, b]) = Some ([a], JStr [b])"
| "pair_entry j = None"

definition not_a_dict :: exn where
  "not_a_dict = Py_Error ''TypeError'' False ''cannot convert to a dict''"

fun py_dict :: "json \<Rightarrow> exn + dict" where
  "py_dict (JObj d) = Inr d"
| "py_dict (JArr xs) =
     (if list_all (\<lambda>x. pair_entry x \<noteq> None) xs
      then Inr (foldl (\<lambda>d x. dict_set (fst (the (pair_entry x))) (snd (the (pair_entry x))) d) [] xs)
      else Inl not_a_dict)"
| "py_dict (JStr []) = Inr []"
| "py_dict j = Inl not_a_dict"

definition dict_or_empty :: "json option \<Rightarrow> exn + dict" where
  "dict_or_empty value =
     (case value of None \<Rightarrow> Inr [] | Some j \<Rightarrow> if py_truthy j then py_dict j else Inr [])"

definition invalid_keys :: "dict \<Rightarrow> string list \<Rightarrow> string list" where
  "invalid_keys overrides names = sort (filter (\<lambda>k. k \<notin> set names) (remdups (map fst overrides)))"

definition OVERRIDE_METADATA_KEYS :: "string list" where
  "OVERRIDE_METADATA_KEYS =
     [''draft_task_id'', ''source_task_id'', ''verification_task_id'', ''applied_by'', ''applied_at'', ''rationale'']"

definition truthy_or :: "dict \<Rightarrow> string \<Rightarrow> string \<Rightarrow> json" where
  "truthy_or spec key fallback = (if dict_truthy spec key then the (dict_get spec key) else JStr fallback)"

definition override_metadata :: "dict \<Rightarrow> dict" where
  "override_metadata spec =
     [(''override_type'', truthy_or spec ''override_type'' ''derived_harness''),
      (''override_source'', truthy_or spec ''override_source'' ''unknown'')]
     @ concat (map (\<lambda>k. case dict_get spec k of
           None \<Rightarrow> [] | Some v \<Rightarrow> if v = JNull then [] else [(k, v)]) OVERRIDE_METADATA_KEYS)"

definition build_derived_search_harness ::
  "codecs \<Rightarrow> string \<Rightarrow> dict \<Rightarrow> (string \<times> search_harness) list \<Rightarrow> exn + search_harness" where
  "build_derived_search_harness cx name spec registry =
     (let base_name = py_str cx (truthy_or spec ''base_harness_name'' DEFAULT_SEARCH_HARNESS_NAME) in
      case dict_get registry base_name of
        None \<Rightarrow> Inl (value_error (''Unknown base search harness '' @ base_name))
      | Some base \<Rightarrow>
          (case (dict_or_empty (dict_get spec ''retrieval_profile_overrides''),
                 dict_or_empty (dict_get spec ''reranker_overrides'')) of
             (Inl e, _) \<Rightarrow> Inl e
           | (Inr _, Inl e) \<Rightarrow> Inl e
           | (Inr retrieval, Inr reranker) \<Rightarrow>
               if invalid_keys retrieval SEARCH_HARNESS_RETRIEVAL_OVERRIDE_FIELDS \<noteq> []
               then Inl (value_error (''Invalid retrieval override field(s) for '' @ name))
               else if invalid_keys reranker SEARCH_HARNESS_RERANKER_OVERRIDE_FIELDS \<noteq> []
               then Inl (value_error (''Invalid reranker override field(s) for '' @ name))
               else Inr \<lparr>sh_name = name,
                 sh_retrieval_profile = \<lparr>rp_name = name,
                   rp_fields = dict_merge (rp_fields (sh_retrieval_profile base)) retrieval\<rparr>,
                 sh_reranker_config = (sh_reranker_config base)\<lparr>
                   lc_harness_name := name, lc_retrieval_profile_name := name,
                   lc_reranker_version := lc_reranker_version (sh_reranker_config base) @ ''+override'',
                   lc_weights := dict_merge (lc_weights (sh_reranker_config base)) reranker\<rparr>,
                 sh_base_harness_name = Some (sh_name base),
                 sh_metadata = override_metadata spec\<rparr>))"

text \<open>\<open>override_spec.setdefault("override_source", source)\<close>.\<close>

definition with_source :: "string \<Rightarrow> dict \<Rightarrow> dict" where
  "with_source source spec =
     (if dict_get spec ''override_source'' = None then spec @ [(''override_source'', JStr source)] else spec)"

fun add_overrides ::
  "codecs \<Rightarrow> string \<Rightarrow> dict \<Rightarrow> (string \<times> search_harness) list \<Rightarrow> exn + (string \<times> search_harness) list" where
  "add_overrides cx source [] registry = Inr registry"
| "add_overrides cx source ((name, spec) # rest) registry =
     (case py_dict spec of
        Inl e \<Rightarrow> Inl e
      | Inr d \<Rightarrow>
          (case build_derived_search_harness cx name (with_source source d) registry of
             Inl e \<Rightarrow> Inl e
           | Inr h \<Rightarrow> add_overrides cx source rest (dict_set name h registry)))"

section \<open>The override file\<close>

definition override_file_path :: path where
  "override_file_path = ''config/search_harness_overrides.json''"

definition not_a_mapping :: exn where
  "not_a_mapping = Py_Error ''AttributeError'' False ''object has no attribute get''"

definition load_applied_search_harness_overrides :: "codecs \<Rightarrow> world \<Rightarrow> exn + dict" where
  "load_applied_search_harness_overrides cx w =
     (case w_files w override_file_path of
        None \<Rightarrow> Inr []
      | Some text \<Rightarrow>
          (case cx_json_loads cx (if text = [] then ''{}'' else text) of
             None \<Rightarrow> Inl (value_error ''invalid JSON'')
           | Some (JObj payload) \<Rightarrow>
               (if \<not> dict_truthy payload ''harnesses'' then Inr []
                else (case dict_get payload ''harnesses'' of
                   Some (JObj harnesses) \<Rightarrow> Inr harnesses
                 | _ \<Rightarrow> Inl (value_error
                     ''Search harness override file must contain a top-level 'harnesses' object.'')))
           | Some _ \<Rightarrow> Inl not_a_mapping))"

definition write_applied_search_harness_overrides :: "codecs \<Rightarrow> dict \<Rightarrow> world \<Rightarrow> world" where
  "write_applied_search_harness_overrides cx overrides w =
     write_file override_file_path
       (cx_json_sorted cx (JObj [(''version'', JInt 1), (''harnesses'', JObj overrides)])) w"

definition upsert_applied_search_harness_override ::
  "codecs \<Rightarrow> string \<Rightarrow> dict \<Rightarrow> world \<Rightarrow> world \<times> (exn + path)" where
  "upsert_applied_search_harness_override cx name spec w =
     (case load_applied_search_harness_overrides cx w of
        Inl e \<Rightarrow> (w, Inl e)
      | Inr overrides \<Rightarrow>
          (write_applied_search_harness_overrides cx (dict_set name (JObj spec) overrides) w,
           Inr override_file_path))"

section \<open>The registry\<close>

definition build_search_harness_registry ::
  "codecs \<Rightarrow> dict \<Rightarrow> world \<Rightarrow> exn + (string \<times> search_harness) list" where
  "build_search_harness_registry cx transient w =
     (case load_applied_search_harness_overrides cx w of
        Inl e \<Rightarrow> Inl e
      | Inr applied \<Rightarrow>
          (case add_overrides cx ''applied'' applied HARNESS_REGISTRY of
             Inl e \<Rightarrow> Inl e
           | Inr registry \<Rightarrow> add_overrides cx ''transient'' transient registry))"

definition list_search_harnesses :: "codecs \<Rightarrow> dict \<Rightarrow> world \<Rightarrow> exn + search_harness list" where
  "list_search_harnesses cx transient w =
     (case build_search_harness_registry cx transient w of
        Inl e \<Rightarrow> Inl e | Inr registry \<Rightarrow> Inr (sort_key sh_name (map snd registry)))"

definition get_search_harness ::
  "codecs \<Rightarrow> string option \<Rightarrow> dict \<Rightarrow> world \<Rightarrow> exn + search_harness" where
  "get_search_harness cx name transient w =
     (let harness_name = (case str_or name (Some DEFAULT_SEARCH_HARNESS_NAME) of Some n \<Rightarrow> n | None \<Rightarrow> []) in
      case build_search_harness_registry cx transient w of
        Inl e \<Rightarrow> Inl e
      | Inr registry \<Rightarrow>
          (case dict_get registry harness_name of
             None \<Rightarrow> Inl (value_error (''Unknown search harness '' @ harness_name))
           | Some h \<Rightarrow> Inr h))"

section \<open>Well-typed registries\<close>

definition profile_value_ok :: "string \<Rightarrow> json \<Rightarrow> bool" where
  "profile_value_ok k v =
     (if k = ''late_interaction_enabled'' then (case v of JBool b \<Rightarrow> True | _ \<Rightarrow> False)
      else (case v of JInt i \<Rightarrow> True | _ \<Rightarrow> False))"

definition weight_value_ok :: "json \<Rightarrow> bool" where
  "weight_value_ok v = (case v of JInt i \<Rightarrow> True | JReal r \<Rightarrow> True | _ \<Rightarrow> False)"

text \<open>A harness under its name: all names agree, and every field is there with a value of its type.\<close>

definition harness_typed :: "string \<Rightarrow> search_harness \<Rightarrow> bool" where
  "harness_typed name h \<longleftrightarrow>
     sh_name h = name \<and> rp_name (sh_retrieval_profile h) = name
     \<and> lc_harness_name (sh_reranker_config h) = name \<and> lc_retrieval_profile_name (sh_reranker_config h) = name
     \<and> map fst (rp_fields (sh_retrieval_profile h)) = SEARCH_HARNESS_RETRIEVAL_OVERRIDE_FIELDS
     \<and> (\<forall>(k, v) \<in> set (rp_fields (sh_retrieval_profile h)). profile_value_ok k v)
     \<and> map fst (lc_weights (sh_reranker_config h)) = SEARCH_HARNESS_RERANKER_OVERRIDE_FIELDS
     \<and> (\<forall>(k, v) \<in> set (lc_weights (sh_reranker_config h)). weight_value_ok v)"

definition registry_typed :: "(string \<times> search_harness) list \<Rightarrow> bool" where
  "registry_typed registry \<longleftrightarrow> distinct_keys registry
     \<and> fst ` set HARNESS_REGISTRY \<subseteq> fst ` set registry
     \<and> (\<forall>(name, h) \<in> set registry. harness_typed name h
          \<and> (\<forall>base. sh_base_harness_name h = Some base \<longrightarrow> base \<in> fst ` set registry))"

text \<open>An override whose values have the types of the fields they replace.\<close>

definition spec_typed :: "json \<Rightarrow> bool" where
  "spec_typed spec \<longleftrightarrow> (\<forall>d. py_dict spec = Inr d \<longrightarrow>
     (\<forall>o'. dict_or_empty (dict_get d ''retrieval_profile_overrides'') = Inr o' \<longrightarrow>
        (\<forall>(k, v) \<in> set o'. profile_value_ok k v))
     \<and> (\<forall>o'. dict_or_empty (dict_get d ''reranker_overrides'') = Inr o' \<longrightarrow>
        (\<forall>(k, v) \<in> set o'. weight_value_ok v)))"

lemma update_known_key: "k \<in> fst ` set d \<Longrightarrow> map fst (AList.update k v d) = map fst d"
  by (induction d) auto

lemma set_update_subset: "set (AList.update k v d) \<subseteq> insert (k, v) (set d)"
  by (induction d) auto

lemma merge_typed:
  assumes "fst ` set b \<subseteq> set names" and "map fst a = names"
    and "\<forall>(k, v) \<in> set a. P k v" and "\<forall>(k, v) \<in> set b. P k v"
  shows "map fst (dict_merge a b) = names \<and> (\<forall>(k, v) \<in> set (dict_merge a b). P k v)"
  using assms
proof (induction b arbitrary: a)
  case (Cons x b)
  obtain k v where x: "x = (k, v)" by fastforce
  let ?a = "AList.update k v a"
  have "k \<in> fst ` set a" using Cons.prems(1,2) x by (metis image_set insert_subset list.simps(15) image_insert fst_conv)
  then have keys: "map fst ?a = names" using Cons.prems(2) by (simp add: update_known_key)
  have "\<forall>(k, v) \<in> set ?a. P k v"
    using Cons.prems(3,4) x set_update_subset [of k v a] by auto
  with Cons.IH [of ?a] Cons.prems(1,4) keys x show ?case by (simp add: dict_merge_def)
qed (simp add: dict_merge_def)

lemma no_invalid_keys: "invalid_keys d names = [] \<Longrightarrow> fst ` set d \<subseteq> set names"
proof -
  assume "invalid_keys d names = []"
  then have "set (invalid_keys d names) = {}" by simp
  then show ?thesis by (auto simp: invalid_keys_def)
qed

lemma no_invalid_keys_iff: "invalid_keys d names = [] \<longleftrightarrow> fst ` set d \<subseteq> set names"
proof
  assume "fst ` set d \<subseteq> set names"
  then have "filter (\<lambda>k. k \<notin> set names) (remdups (map fst d)) = []" by (auto simp: filter_empty_conv)
  then show "invalid_keys d names = []" by (simp add: invalid_keys_def)
qed (rule no_invalid_keys)

lemma derived_typed:
  assumes "registry_typed registry" and "build_derived_search_harness cx name spec registry = Inr h"
    and "\<And>o'. dict_or_empty (dict_get spec ''retrieval_profile_overrides'') = Inr o' \<Longrightarrow>
      \<forall>(k, v) \<in> set o'. profile_value_ok k v"
    and "\<And>o'. dict_or_empty (dict_get spec ''reranker_overrides'') = Inr o' \<Longrightarrow>
      \<forall>(k, v) \<in> set o'. weight_value_ok v"
  shows "harness_typed name h \<and> (\<exists>base. sh_base_harness_name h = Some base \<and> base \<in> fst ` set registry)"
proof -
  let ?base = "py_str cx (truthy_or spec ''base_harness_name'' DEFAULT_SEARCH_HARNESS_NAME)"
  obtain base ro rr where b: "dict_get registry ?base = Some base"
    "dict_or_empty (dict_get spec ''retrieval_profile_overrides'') = Inr ro"
    "dict_or_empty (dict_get spec ''reranker_overrides'') = Inr rr"
    "invalid_keys ro SEARCH_HARNESS_RETRIEVAL_OVERRIDE_FIELDS = []"
    "invalid_keys rr SEARCH_HARNESS_RERANKER_OVERRIDE_FIELDS = []"
    and h: "h = \<lparr>sh_name = name,
                 sh_retrieval_profile = \<lparr>rp_name = name,
                   rp_fields = dict_merge (rp_fields (sh_retrieval_profile base)) ro\<rparr>,
                 sh_reranker_config = (sh_reranker_config base)\<lparr>
                   lc_harness_name := name, lc_retrieval_profile_name := name,
                   lc_reranker_version := lc_reranker_version (sh_reranker_config base) @ ''+override'',
                   lc_weights := dict_merge (lc_weights (sh_reranker_config base)) rr\<rparr>,
                 sh_base_harness_name = Some (sh_name base),
                 sh_metadata = override_metadata spec\<rparr>"
    using assms(2) by (auto simp: build_derived_search_harness_def Let_def
        split: option.splits sum.splits if_splits)
  have mem: "(?base, base) \<in> set registry" using b(1) by (rule map_of_SomeD)
  with assms(1) have typed: "harness_typed ?base base" by (auto simp: registry_typed_def)
  have p: "map fst (dict_merge (rp_fields (sh_retrieval_profile base)) ro) = SEARCH_HARNESS_RETRIEVAL_OVERRIDE_FIELDS
      \<and> (\<forall>(k, v) \<in> set (dict_merge (rp_fields (sh_retrieval_profile base)) ro). profile_value_ok k v)"
    by (rule merge_typed [OF no_invalid_keys [OF b(4)]])
      (use typed assms(3) [OF b(2)] in \<open>unfold harness_typed_def, blast+\<close>)
  have w: "map fst (dict_merge (lc_weights (sh_reranker_config base)) rr) = SEARCH_HARNESS_RERANKER_OVERRIDE_FIELDS
      \<and> (\<forall>(k, v) \<in> set (dict_merge (lc_weights (sh_reranker_config base)) rr). weight_value_ok v)"
    by (rule merge_typed [OF no_invalid_keys [OF b(5)], where P = "\<lambda>_. weight_value_ok"])
      (use typed assms(4) [OF b(3)] in \<open>unfold harness_typed_def, blast+\<close>)
  have "sh_name base = ?base" using typed by (simp add: harness_typed_def)
  then have "sh_name base \<in> fst ` set registry" using mem by force
  with p w show ?thesis by (simp add: h harness_typed_def)
qed

lemma with_source_get: "k \<noteq> ''override_source'' \<Longrightarrow> dict_get (with_source s d) k = dict_get d k"
  by (auto simp: with_source_def map_add_def split: option.splits)

lemma dict_set_typed:
  assumes r: "registry_typed registry" and h: "harness_typed name h"
    and base: "\<exists>base. sh_base_harness_name h = Some base \<and> base \<in> fst ` set registry"
  shows "registry_typed (dict_set name h registry)"
proof -
  let ?r = "dict_set name h registry"
  have keys: "fst ` set ?r = insert name (fst ` set registry)" by (simp add: dom_update)
  have "distinct_keys ?r" using r by (simp add: registry_typed_def)
  moreover have "harness_typed k x \<and> (\<forall>b. sh_base_harness_name x = Some b \<longrightarrow> b \<in> fst ` set ?r)"
    if "(k, x) \<in> set ?r" for k x
  proof -
    have "(k, x) = (name, h) \<or> (k, x) \<in> set registry"
      using set_update_subset [of name h registry] that by blast
    then show ?thesis
    proof
      assume "(k, x) = (name, h)"
      then have kx: "k = name" "x = h" by simp_all
      from base obtain b where "sh_base_harness_name h = Some b" "b \<in> fst ` set registry" by blast
      then show ?thesis using h keys unfolding kx by simp
    next
      assume "(k, x) \<in> set registry"
      with r have "harness_typed k x" "\<And>b. sh_base_harness_name x = Some b \<Longrightarrow> b \<in> fst ` set registry"
        by (auto simp: registry_typed_def)
      then show ?thesis unfolding keys by simp
    qed
  qed
  moreover have "fst ` set HARNESS_REGISTRY \<subseteq> fst ` set ?r"
    using r unfolding keys registry_typed_def by auto
  ultimately show ?thesis unfolding registry_typed_def by auto
qed

lemma add_overrides_typed:
  "registry_typed registry \<Longrightarrow> \<forall>spec \<in> snd ` set specs. spec_typed spec \<Longrightarrow>
   add_overrides cx source specs registry = Inr registry' \<Longrightarrow> registry_typed registry'"
proof (induction cx source specs registry rule: add_overrides.induct)
  case (2 cx source name spec rest registry)
  obtain d h where d: "py_dict spec = Inr d"
    and h: "build_derived_search_harness cx name (with_source source d) registry = Inr h"
    and rest: "add_overrides cx source rest (dict_set name h registry) = Inr registry'"
    using 2(4) by (auto split: sum.splits)
  have "spec_typed spec" using 2(3) by simp
  then have t: "harness_typed name h" "\<exists>base. sh_base_harness_name h = Some base \<and> base \<in> fst ` set registry"
    using derived_typed [OF 2(2) h] d unfolding spec_typed_def by (simp_all add: with_source_get)
  have "registry_typed (dict_set name h registry)" using dict_set_typed [OF 2(2) t] .
  with 2(1) [OF d h] rest 2(3) show ?case by simp
qed simp

lemma built_in_typed: "registry_typed HARNESS_REGISTRY"
  by (simp add: registry_typed_def HARNESS_REGISTRY_def built_in_def harness_typed_def
      DEFAULT_RETRIEVAL_PROFILE_def WIDE_RETRIEVAL_PROFILE_def PROSE_RETRIEVAL_PROFILE_def
      MULTIVECTOR_RETRIEVAL_PROFILE_def make_profile_def profile_value_ok_def weight_value_ok_def
      SEARCH_HARNESS_RETRIEVAL_OVERRIDE_FIELDS_def SEARCH_HARNESS_RERANKER_OVERRIDE_FIELDS_def)

text \<open>C25: A registry built from overrides whose values have the types of the fields they replace is
  well typed. Every harness that a caller gets from it is complete: it carries the name that was asked for
  throughout, has each field of the retrieval profile and each weight of the reranker exactly once and
  with a value of its type, and its base is registered. The default harness is always found.\<close>

theorem search_registry_typed:
  assumes "build_search_harness_registry cx transient w = Inr registry"
    and "load_applied_search_harness_overrides cx w = Inr applied"
    and "\<forall>spec \<in> snd ` set (applied @ transient). spec_typed spec"
  shows "registry_typed registry
    \<and> (\<forall>name h. get_search_harness cx (Some name) transient w = Inr h \<and> name \<noteq> [] \<longrightarrow> harness_typed name h)
    \<and> (\<exists>h. get_search_harness cx None transient w = Inr h \<and> harness_typed DEFAULT_SEARCH_HARNESS_NAME h)"
proof -
  obtain middle where m: "add_overrides cx ''applied'' applied HARNESS_REGISTRY = Inr middle"
    "add_overrides cx ''transient'' transient middle = Inr registry"
    using assms(1,2) by (auto simp: build_search_harness_registry_def split: sum.splits)
  have "registry_typed middle"
    by (rule add_overrides_typed [OF built_in_typed _ m(1)]) (use assms(3) in auto)
  then have typed: "registry_typed registry"
    by (rule add_overrides_typed [OF _ _ m(2)]) (use assms(3) in auto)
  have found: "harness_typed name h" if "dict_get registry name = Some h" for name h
    using map_of_SomeD [OF that] typed by (auto simp: registry_typed_def)
  have "DEFAULT_SEARCH_HARNESS_NAME \<in> fst ` set registry"
    using typed by (simp add: registry_typed_def HARNESS_REGISTRY_def built_in_def
        DEFAULT_RETRIEVAL_PROFILE_def make_profile_def DEFAULT_SEARCH_HARNESS_NAME_def)
  then obtain h where "dict_get registry DEFAULT_SEARCH_HARNESS_NAME = Some h"
    by (metis dom_map_of_conv_image_fst domD)
  then show ?thesis using typed found assms(1)
    by (auto simp: get_search_harness_def DEFAULT_SEARCH_HARNESS_NAME_def split: option.splits)
qed

text \<open>An override of the wide harness sent with a request.\<close>

definition faster_override :: "(string \<times> json) list" where
  "faster_override = [(''fast'', JObj [(''base_harness_name'', JStr ''wide_v2''),
     (''retrieval_profile_overrides'', JObj [(''min_candidate_limit'', JInt 8)]),
     (''reranker_overrides'', JObj [(''exact_filter_bonus'', JReal (1/2))])])]"

definition bare_world :: world where
  "bare_world = \<lparr>w_db = empty_db, w_saved = empty_db, w_files = Map.empty, w_clock = 0, w_fresh = 1\<rparr>"

lemma search_registry_typed_witness:
  "registry_typed (case build_search_harness_registry example_codecs faster_override bare_world of
     Inr r \<Rightarrow> r | Inl _ \<Rightarrow> [])"
proof -
  have load: "load_applied_search_harness_overrides example_codecs bare_world = Inr []"
    by (simp add: load_applied_search_harness_overrides_def bare_world_def override_file_path_def)
  have "map fst HARNESS_REGISTRY = [''default_v1'', ''wide_v2'', ''prose_v3'', ''multivector_v1'']"
    by (simp add: HARNESS_REGISTRY_def built_in_def DEFAULT_RETRIEVAL_PROFILE_def WIDE_RETRIEVAL_PROFILE_def
        PROSE_RETRIEVAL_PROFILE_def MULTIVECTOR_RETRIEVAL_PROFILE_def make_profile_def)
  then have "''wide_v2'' \<in> set (map fst HARNESS_REGISTRY)" by simp
  then obtain base where base: "dict_get HARNESS_REGISTRY ''wide_v2'' = Some base"
    by (cases "dict_get HARNESS_REGISTRY ''wide_v2''") (simp_all only: map_of_eq_None_iff set_map not_False_eq_True, simp)
  have keys: "invalid_keys [(''min_candidate_limit'', JInt 8)] SEARCH_HARNESS_RETRIEVAL_OVERRIDE_FIELDS = []"
    "invalid_keys [(''exact_filter_bonus'', JReal (1/2))] SEARCH_HARNESS_RERANKER_OVERRIDE_FIELDS = []"
    by (simp_all add: no_invalid_keys_iff SEARCH_HARNESS_RETRIEVAL_OVERRIDE_FIELDS_def
        SEARCH_HARNESS_RERANKER_OVERRIDE_FIELDS_def)
  let ?d = "[(''base_harness_name'', JStr ''wide_v2''),
     (''retrieval_profile_overrides'', JObj [(''min_candidate_limit'', JInt 8)]),
     (''reranker_overrides'', JObj [(''exact_filter_bonus'', JReal (1/2))])]"
  have "dict_or_empty (dict_get ?d ''retrieval_profile_overrides'') = Inr [(''min_candidate_limit'', JInt 8)]"
    "dict_or_empty (dict_get ?d ''reranker_overrides'') = Inr [(''exact_filter_bonus'', JReal (1/2))]"
    "py_str example_codecs (truthy_or (with_source s ?d) ''base_harness_name'' b) = ''wide_v2''" for s b
    by (simp_all add: dict_or_empty_def truthy_or_def with_source_def dict_truthy_def)
  then obtain h where h: "build_derived_search_harness example_codecs ''fast'' (with_source ''transient'' ?d)
      HARNESS_REGISTRY = Inr h"
    using base keys by (simp add: build_derived_search_harness_def with_source_get)
  obtain r where r: "build_search_harness_registry example_codecs faster_override bare_world = Inr r"
    using h by (simp add: build_search_harness_registry_def load faster_override_def)
  have "\<forall>spec \<in> snd ` set ([] @ faster_override). spec_typed spec"
    by (simp add: faster_override_def spec_typed_def dict_or_empty_def profile_value_ok_def weight_value_ok_def)
  from search_registry_typed [OF r load this] show ?thesis by (simp add: r)
qed

end
