(* ===== verification/Search_Execution.thy ===== *)
theory Search_Execution
  imports Search_Supplements Search_Harness
begin

text \<open>
  \<open>app/services/search_plan.py\<close> and \<open>search_execution_orchestration.py\<close>: a search runs the stages of
  a plan over a growing state, chooses the candidates for the mode that could be served, reranks them
  and attaches evidence. What fails in the vector stages is recorded and the search goes on without
  them.

  The embedding provider, the rebuild of missing spans and the log of executed searches are arguments
  (\<open>search_services\<close>). Timing and telemetry are left out. A harness of the registry is used through
  its fields, which a well-typed registry holds with the right types.
\<close>

section \<open>Plans\<close>

datatype search_stage = Strict_Keyword | Relaxed_Keyword | Metadata_Supplement | Semantic | Adjacent_Context

datatype candidate_strategy = By_Keyword | By_Semantic | Semantic_With_Keyword_Context | By_Both

record execution_plan =
  xp_stages :: "search_stage list"
  xp_strategy :: candidate_strategy
  xp_prose_query :: bool

definition build_search_execution_plan :: "search_mode \<Rightarrow> string \<Rightarrow> query_intent \<Rightarrow> execution_plan" where
  "build_search_execution_plan mode harness_name intent =
     (let prose = intent \<in> {Prose_Lookup, Prose_Broad} in
      \<lparr>xp_stages = [Strict_Keyword, Relaxed_Keyword]
         @ (if prose then [Metadata_Supplement] else [])
         @ (if mode \<noteq> Keyword_Mode then [Semantic] else [])
         @ (if harness_name = ''prose_v3'' \<and> prose then [Adjacent_Context] else []),
       xp_strategy = (case mode of
           Semantic_Mode \<Rightarrow>
             if harness_name = ''prose_v3'' \<and> prose then Semantic_With_Keyword_Context else By_Semantic
         | Hybrid_Mode \<Rightarrow> By_Both
         | Keyword_Mode \<Rightarrow> By_Keyword),
       xp_prose_query = prose\<rparr>)"

section \<open>Harness fields\<close>

definition profile_int :: "retrieval_profile \<Rightarrow> string \<Rightarrow> int" where
  "profile_int p k = (case dict_get (rp_fields p) k of Some (JInt i) \<Rightarrow> i | _ \<Rightarrow> 0)"

definition profile_flag :: "retrieval_profile \<Rightarrow> string \<Rightarrow> bool" where
  "profile_flag p k = dict_truthy (rp_fields p) k"

definition config_weight :: "linear_config \<Rightarrow> string \<Rightarrow> rat" where
  "config_weight c k = (case dict_get (lc_weights c) k of Some (JInt i) \<Rightarrow> of_int i | Some (JReal r) \<Rightarrow> r | _ \<Rightarrow> 0)"

definition build_reranker :: "search_harness \<Rightarrow> reranker_config" where
  "build_reranker h = (let c = sh_reranker_config h; w = config_weight c in
     \<lparr>rc_harness_name = lc_harness_name c, rc_reranker_name = lc_reranker_name c,
      rc_reranker_version = lc_reranker_version c, rc_retrieval_profile_name = lc_retrieval_profile_name c,
      rc_tabular_table_bonus = w ''tabular_table_bonus'',
      rc_title_exact_match_bonus = w ''title_exact_match_bonus'',
      rc_title_token_coverage_bonus = w ''title_token_coverage_bonus'',
      rc_source_filename_exact_match_bonus = w ''source_filename_exact_match_bonus'',
      rc_source_filename_token_coverage_bonus = w ''source_filename_token_coverage_bonus'',
      rc_document_title_exact_match_bonus = w ''document_title_exact_match_bonus'',
      rc_document_title_token_coverage_bonus = w ''document_title_token_coverage_bonus'',
      rc_prose_document_cluster_bonus = w ''prose_document_cluster_bonus'',
      rc_heading_token_coverage_bonus = w ''heading_token_coverage_bonus'',
      rc_phrase_overlap_bonus = w ''phrase_overlap_bonus'',
      rc_rare_token_overlap_bonus = w ''rare_token_overlap_bonus'',
      rc_adjacent_chunk_context_bonus = w ''adjacent_chunk_context_bonus'',
      rc_prose_table_penalty = w ''prose_table_penalty'', rc_exact_filter_bonus = w ''exact_filter_bonus'',
      rc_result_type_priority_bonus = w ''result_type_priority_bonus''\<rparr>)"

definition candidate_limit :: "search_request \<Rightarrow> search_harness \<Rightarrow> string \<Rightarrow> string \<Rightarrow> int" where
  "candidate_limit request h multiplier minimum =
     max (int (sr_limit request) * profile_int (sh_retrieval_profile h) multiplier)
       (profile_int (sh_retrieval_profile h) minimum)"

section \<open>The state of a search\<close>

record search_state =
  sq_heap :: heap
  sq_keyword_chunks :: "addr list"
  sq_keyword_tables :: "addr list"
  sq_keyword :: "addr list"
  sq_strategy :: string
  sq_strict_count :: nat
  sq_metadata :: "addr list"
  sq_embedding_status :: string
  sq_embedding_error :: "string option"
  sq_fallback_reason :: "string option"
  sq_semantic :: "addr list"
  sq_late :: "dict option"

definition initial_search :: search_state where
  "initial_search = \<lparr>sq_heap = [], sq_keyword_chunks = [], sq_keyword_tables = [], sq_keyword = [],
     sq_strategy = ''strict'', sq_strict_count = 0, sq_metadata = [], sq_embedding_status = ''skipped'',
     sq_embedding_error = None, sq_fallback_reason = None, sq_semantic = [], sq_late = None\<rparr>"

type_synonym embedder = "string list \<Rightarrow> exn + embedding list"

text \<open>What the stages of one search share.\<close>

record search_context =
  sc_source :: search_source
  sc_request :: search_request
  sc_run :: "uuid option"
  sc_harness :: search_harness
  sc_intent :: query_intent
  sc_provider :: "exn + embedder"
  sc_sha :: "json \<Rightarrow> string"

section \<open>The keyword stages\<close>

definition load_keyword_candidates ::
  "search_context \<Rightarrow> bool \<Rightarrow> int \<Rightarrow> heap \<Rightarrow> exn + addr list \<times> addr list \<times> heap" where
  "load_keyword_candidates cx relaxed limit h =
     (let so = sc_source cx; rq = sc_request cx; run = sc_run cx in
      case run_keyword_chunk_search relaxed so rq run limit of
        Inl e \<Rightarrow> Inl e
      | Inr chunks \<Rightarrow>
      (case run_keyword_table_search relaxed so rq run limit of
        Inl e \<Rightarrow> Inl e
      | Inr tables \<Rightarrow>
      (case run_keyword_span_chunk_search relaxed so rq run limit of
        Inl e \<Rightarrow> Inl e
      | Inr span_chunks \<Rightarrow>
      (case run_keyword_span_table_search relaxed so rq run limit of
        Inl e \<Rightarrow> Inl e
      | Inr span_tables \<Rightarrow>
          (let (cs, h1) = alloc (chunks @ span_chunks) h;
               (ts, h2) = alloc (tables @ span_tables) h1;
               (cs1, h3) = dedupe_ranked_results cs h2;
               (ts1, h4) = dedupe_ranked_results ts h3 in
           Inr (cs1, ts1, h4))))))"

definition strict_keyword_stage :: "search_context \<Rightarrow> search_state \<Rightarrow> exn + search_state" where
  "strict_keyword_stage cx st =
     (case load_keyword_candidates cx False (candidate_limit (sc_request cx) (sc_harness cx)
             ''keyword_candidate_multiplier'' ''min_candidate_limit'') (sq_heap st) of
        Inl e \<Rightarrow> Inl e
      | Inr (cs, ts, h) \<Rightarrow>
          Inr (st\<lparr>sq_heap := h, sq_keyword_chunks := cs, sq_keyword_tables := ts,
            sq_keyword := sort_ranked_candidates_by_score keyword_score (cs @ ts) h,
            sq_strict_count := length (cs @ ts)\<rparr>))"

definition relaxed_keyword_stage :: "search_context \<Rightarrow> search_state \<Rightarrow> exn + search_state" where
  "relaxed_keyword_stage cx st =
     (if sq_strict_count st \<noteq> 0 then Inr st
      else
        (case load_keyword_candidates cx True (candidate_limit (sc_request cx) (sc_harness cx)
                ''keyword_candidate_multiplier'' ''min_candidate_limit'') (sq_heap st) of
           Inl e \<Rightarrow> Inl e
         | Inr (cs, ts, h) \<Rightarrow>
             (let st1 = st\<lparr>sq_heap := h, sq_keyword_chunks := cs, sq_keyword_tables := ts, sq_keyword := cs @ ts\<rparr> in
              if cs @ ts = [] then Inr st1
              else Inr (st1\<lparr>sq_keyword := sort_ranked_candidates_by_score keyword_score (cs @ ts) h,
                sq_strategy := ''relaxed_or''\<rparr>))))"

section \<open>The metadata stage\<close>

definition next_keyword_strategy :: "bool \<Rightarrow> string \<Rightarrow> string" where
  "next_keyword_strategy none_yet strategy =
     (if none_yet then ''metadata_supplement''
      else if strategy = ''strict'' then ''strict_plus_metadata''
      else if strategy = ''relaxed_or'' then ''relaxed_or_plus_metadata'' else strategy)"

definition metadata_stage :: "search_context \<Rightarrow> search_state \<Rightarrow> exn + search_state" where
  "metadata_stage cx st =
     (let rq = sc_request cx; keyword = sq_keyword st;
          chunk_count = length (filter (\<lambda>a. rr_result_type (sq_heap st ! a) = ''chunk'') keyword) in
      if \<not> should_run_metadata_supplement (sr_query rq) (sc_intent cx) (sq_strict_count st) chunk_count
             (length keyword - chunk_count) (sh_name (sc_harness cx))
      then Inr (st\<lparr>sq_metadata := []\<rparr>)
      else
        (case run_prose_metadata_chunk_search (sc_source cx) rq (sc_run cx) PROSE_SUPPLEMENTARY_CANDIDATE_LIMIT (sq_heap st) of
           Inl e \<Rightarrow> Inl e
         | Inr (found, h1) \<Rightarrow>
             if found = [] then Inr (st\<lparr>sq_heap := h1, sq_metadata := []\<rparr>)
             else
               (let (merged, h2) = dedupe_ranked_results (keyword @ found) h1 in
                Inr (st\<lparr>sq_heap := h2, sq_metadata := found,
                  sq_keyword := sort_ranked_candidates_by_score keyword_score merged h2,
                  sq_strategy := next_keyword_strategy (keyword = []) (sq_strategy st)\<rparr>))))"

section \<open>The vector stage\<close>

text \<open>The loaders of \<open>_load_semantic_candidates\<close>, one after the other.\<close>

definition load_semantic_rows ::
  "search_context \<Rightarrow> embedding \<Rightarrow> int \<Rightarrow> exn + ranked_result list" where
  "load_semantic_rows cx q limit =
     (let so = sc_source cx; rq = sc_request cx; run = sc_run cx in
      case run_semantic_chunk_search so rq run q limit of
        Inl e \<Rightarrow> Inl e
      | Inr chunks \<Rightarrow>
      (case run_semantic_table_search so rq run q limit of
        Inl e \<Rightarrow> Inl e
      | Inr tables \<Rightarrow>
      (case run_semantic_span_chunk_search so rq run q limit of
        Inl e \<Rightarrow> Inl e
      | Inr span_chunks \<Rightarrow>
          map_sum id (\<lambda>span_tables. chunks @ tables @ span_chunks @ span_tables)
            (run_semantic_span_table_search so rq run q limit))))"

definition load_semantic_candidates ::
  "search_context \<Rightarrow> embedding \<Rightarrow> int \<Rightarrow> heap \<Rightarrow> exn + addr list \<times> heap" where
  "load_semantic_candidates cx q limit h =
     (case load_semantic_rows cx q limit of
        Inl e \<Rightarrow> Inl e
      | Inr rows \<Rightarrow>
          (let (as, h1) = alloc rows h; (bs, h2) = dedupe_ranked_results as h1 in
           Inr (sort_ranked_candidates_by_score semantic_score bs h2, h2)))"

definition late_interaction :: "search_context \<Rightarrow> embedder \<Rightarrow> exn + ranked_result list \<times> dict" where
  "late_interaction cx embedder =
     (let rq = sc_request cx; windows = query_multivector_windows (sc_sha cx) (sr_query rq) in
      case embedder (map qw_text windows) of
        Inl e \<Rightarrow> Inl e
      | Inr vectors \<Rightarrow>
          run_late_interaction_search (sc_source cx) rq windows vectors
            (candidate_limit rq (sc_harness cx) ''late_interaction_candidate_multiplier''
              ''late_interaction_min_candidate_limit'') (sc_run cx))"

definition late_stage :: "search_context \<Rightarrow> embedder \<Rightarrow> search_state \<Rightarrow> search_state" where
  "late_stage cx embedder st =
     (if \<not> profile_flag (sh_retrieval_profile (sc_harness cx)) ''late_interaction_enabled'' then st
      else
        (case late_interaction cx embedder of
           Inl e \<Rightarrow> st\<lparr>sq_late := Some [(''status'', JStr ''failed''), (''error'', JStr (exn_message e)),
               (''candidate_count'', JInt 0)]\<rparr>
         | Inr (found, details) \<Rightarrow>
             (let (as, h1) = alloc found (sq_heap st);
                  (bs, h2) = dedupe_ranked_results (sq_semantic st @ as) h1 in
              st\<lparr>sq_heap := h2, sq_late := Some details,
                 sq_semantic := sort_ranked_candidates_by_score semantic_score bs h2\<rparr>)))"

definition embedding_failed :: "exn \<Rightarrow> search_state \<Rightarrow> search_state" where
  "embedding_failed e st = st\<lparr>sq_embedding_status := ''embedding_failed'',
     sq_embedding_error := Some (exn_message e), sq_fallback_reason := Some ''embedding_failed''\<rparr>"

definition no_embedding :: exn where
  "no_embedding = Py_Error ''IndexError'' False ''list index out of range''"

definition semantic_stage :: "search_context \<Rightarrow> search_state \<Rightarrow> search_state" where
  "semantic_stage cx st =
     (case sc_provider cx of
        Inl e \<Rightarrow> st\<lparr>sq_embedding_status := ''provider_unavailable'',
          sq_embedding_error := Some (exn_message e), sq_fallback_reason := Some ''embedding_provider_unavailable''\<rparr>
      | Inr embedder \<Rightarrow>
          (case embedder [sr_query (sc_request cx)] of
             Inl e \<Rightarrow> embedding_failed e st
           | Inr [] \<Rightarrow> embedding_failed no_embedding st
           | Inr (q # _) \<Rightarrow>
               (case load_semantic_candidates cx q (candidate_limit (sc_request cx) (sc_harness cx)
                       ''semantic_candidate_multiplier'' ''min_candidate_limit'') (sq_heap st) of
                  Inl e \<Rightarrow> embedding_failed e st
                | Inr (semantic, h) \<Rightarrow>
                    late_stage cx embedder (st\<lparr>sq_embedding_status := ''completed'', sq_heap := h, sq_semantic := semantic\<rparr>))))"

section \<open>The context stage\<close>

definition adjacent_stage :: "search_context \<Rightarrow> search_state \<Rightarrow> search_state" where
  "adjacent_stage cx st =
     (let (seeds, h1) = dedupe_ranked_results (sq_keyword st @ sq_semantic st @ sq_metadata st) (sq_heap st);
          found = expand_adjacent_chunk_context (sc_source cx) (sc_request cx) (sc_run cx) (objects h1 seeds) in
      if found = [] then st\<lparr>sq_heap := h1\<rparr>
      else
        (let (as, h2) = alloc found h1;
             (bs, h3) = dedupe_ranked_results (sq_keyword st @ as) h2 in
         st\<lparr>sq_heap := h3, sq_keyword := sort_ranked_candidates_by_score keyword_score bs h3\<rparr>))"

fun run_stage :: "search_context \<Rightarrow> search_stage \<Rightarrow> search_state \<Rightarrow> exn + search_state" where
  "run_stage cx Strict_Keyword st = strict_keyword_stage cx st"
| "run_stage cx Relaxed_Keyword st = relaxed_keyword_stage cx st"
| "run_stage cx Metadata_Supplement st = metadata_stage cx st"
| "run_stage cx Semantic st = Inr (semantic_stage cx st)"
| "run_stage cx Adjacent_Context st = Inr (adjacent_stage cx st)"

fun run_stages :: "search_context \<Rightarrow> search_stage list \<Rightarrow> search_state \<Rightarrow> exn + search_state" where
  "run_stages cx [] st = Inr st"
| "run_stages cx (s # ss) st =
     (case run_stage cx s st of Inl e \<Rightarrow> Inl e | Inr st' \<Rightarrow> run_stages cx ss st')"

section \<open>The candidates of the served mode\<close>

record resolved_candidates =
  rv_items :: "addr list"
  rv_score :: "ranked_result \<Rightarrow> rat"
  rv_served_mode :: search_mode
  rv_with_context :: bool

definition resolve_candidate_items ::
  "candidate_strategy \<Rightarrow> search_mode \<Rightarrow> search_state \<Rightarrow> resolved_candidates \<times> heap" where
  "resolve_candidate_items strategy mode st =
     (let (fused, h1) = merge_hybrid_candidates (sq_keyword st) (sq_semantic st) (sq_heap st);
          (plain, h2) = dedupe_ranked_results (sq_keyword st) (sq_heap st);
          completed = (sq_embedding_status st = ''completed'') in
      if mode = Semantic_Mode \<and> completed \<and> strategy = Semantic_With_Keyword_Context
      then (\<lparr>rv_items = fused, rv_score = hybrid_score, rv_served_mode = Semantic_Mode, rv_with_context = True\<rparr>, h1)
      else if mode = Semantic_Mode \<and> completed
      then (\<lparr>rv_items = sq_semantic st, rv_score = semantic_score, rv_served_mode = Semantic_Mode,
             rv_with_context = False\<rparr>, sq_heap st)
      else if mode = Hybrid_Mode \<and> completed
      then (\<lparr>rv_items = fused, rv_score = hybrid_score, rv_served_mode = Hybrid_Mode, rv_with_context = False\<rparr>, h1)
      else (\<lparr>rv_items = plain, rv_score = keyword_score, rv_served_mode = Keyword_Mode, rv_with_context = False\<rparr>, h2))"

fun search_mode_value :: "search_mode \<Rightarrow> string" where
  "search_mode_value Keyword_Mode = ''keyword''"
| "search_mode_value Semantic_Mode = ''semantic''"
| "search_mode_value Hybrid_Mode = ''hybrid''"

definition json_count :: "nat \<Rightarrow> json" where
  "json_count n = JInt (int n)"

definition late_candidate_count :: "dict option \<Rightarrow> int" where
  "late_candidate_count late = (case late of None \<Rightarrow> 0 | Some d \<Rightarrow>
     (case dict_get d ''candidate_count'' of Some (JInt i) \<Rightarrow> i | _ \<Rightarrow> 0))"

definition from_source :: "string \<Rightarrow> ranked_result list \<Rightarrow> nat" where
  "from_source source items = length (filter (\<lambda>r. source \<in> set (rr_retrieval_sources r)) items)"

definition build_search_execution_details ::
  "search_context \<Rightarrow> search_state \<Rightarrow> resolved_candidates \<Rightarrow> ranked_result list \<Rightarrow> dict" where
  "build_search_execution_details cx st rv items =
     [(''keyword_candidate_count'', json_count (length (sq_keyword st))),
      (''keyword_strict_candidate_count'', json_count (sq_strict_count st)),
      (''keyword_strategy'', JStr (sq_strategy st)),
      (''semantic_candidate_count'', json_count (length (sq_semantic st))),
      (''query_intent'', JStr (query_intent_value (sc_intent cx))),
      (''candidate_source_breakdown'', JObj (map (\<lambda>(s, n). (s, json_count n)) (candidate_source_breakdown items))),
      (''metadata_candidate_count'', json_count (from_source ''metadata_supplement'' items)),
      (''span_candidate_count'', json_count (length (filter (\<lambda>r. rr_evidence_spans r \<noteq> []) items))),
      (''context_expansion_count'', json_count (from_source ''adjacent_context'' items)),
      (''late_interaction_candidate_count'', JInt (late_candidate_count (sq_late st))),
      (''requested_mode'', JStr (search_mode_value (sr_mode (sc_request cx)))),
      (''served_mode'', JStr (search_mode_value (rv_served_mode rv))),
      (''harness_name'', JStr (sh_name (sc_harness cx))),
      (''reranker_name'', JStr (lc_reranker_name (sh_reranker_config (sc_harness cx)))),
      (''reranker_version'', JStr (lc_reranker_version (sh_reranker_config (sc_harness cx)))),
      (''retrieval_profile_name'', JStr (rp_name (sh_retrieval_profile (sc_harness cx))))]
     @ (if rv_with_context rv then [(''semantic_augmented_with_keyword_context'', JBool True)] else [])
     @ (case sq_late st of None \<Rightarrow> [] | Some d \<Rightarrow> [(''late_interaction'', JObj d)])
     @ (case sq_fallback_reason st of None \<Rightarrow> [] | Some r \<Rightarrow> [(''fallback_reason'', JStr r)])"

section \<open>The search\<close>

text \<open>What is written to the log of searches, and what the caller gets.\<close>

record search_log =
  sl_request :: search_request
  sl_run :: "uuid option"
  sl_tabular_query :: bool
  sl_harness_name :: string
  sl_reranker_name :: string
  sl_reranker_version :: string
  sl_retrieval_profile_name :: string
  sl_harness_config :: json
  sl_embedding_status :: string
  sl_embedding_error :: "string option"
  sl_details :: dict
  sl_candidates :: "ranked_result list"
  sl_reranked :: "reranked_result list"

record search_execution =
  se_results :: "search_result list"
  se_request_id :: "uuid option"
  se_table_hit_count :: nat
  se_log :: search_log
  se_operator_run_ids :: "uuid list"

record search_services =
  sv_provider :: "exn + embedder"
  sv_backfill :: "search_source \<Rightarrow> exn + search_source \<times> dict"
  sv_sha :: "json \<Rightarrow> string"
  sv_persist :: "search_log \<Rightarrow> exn + uuid option \<times> uuid list"

definition table_evidence_query :: "search_request \<Rightarrow> search_state \<Rightarrow> bool" where
  "table_evidence_query request st =
     ((case sr_filters request of None \<Rightarrow> False | Some f \<Rightarrow> sf_document_id f \<noteq> None)
      \<and> sq_keyword_tables st \<noteq> [] \<and> sq_keyword_chunks st = [])"

text \<open>
  Evidence is attached to the objects of the reranked results, which the log sees among the
  candidates as well.
\<close>

definition with_evidence :: "search_source \<Rightarrow> search_request \<Rightarrow> reranked_result \<Rightarrow> reranked_result" where
  "with_evidence so request c = c\<lparr>re_item := ensure_evidence so request (re_item c)\<rparr>"

definition candidate_with_evidence ::
  "search_source \<Rightarrow> search_request \<Rightarrow> reranked_result list \<Rightarrow> ranked_result \<Rightarrow> ranked_result" where
  "candidate_with_evidence so request reranked r =
     (if result_key r \<in> set (map (\<lambda>c. result_key (re_item c)) reranked) then ensure_evidence so request r else r)"

text \<open>The results, and what the log gets to see of the search.\<close>

definition prepare_results ::
  "search_context \<Rightarrow> reranker_config \<Rightarrow> candidate_strategy \<Rightarrow> dict \<Rightarrow> search_state \<Rightarrow> search_result list \<times> search_log" where
  "prepare_results cx cf strategy backfill st =
     (let rq = sc_request cx; so = sc_source cx; harness = sc_harness cx;
          tabular = is_tabular_query (sr_query rq);
          (rv, h) = resolve_candidate_items strategy (sr_mode rq) st;
          items = objects h (rv_items rv);
          details = build_search_execution_details cx st rv items
            @ (if dict_truthy backfill ''rebuilt_run_count'' then [(''retrieval_span_backfill'', JObj backfill)] else []);
          reranked = map (with_evidence so rq) (rerank_results items rq (rv_score rv)
            (tabular \<or> table_evidence_query rq st) (sc_intent cx) cf);
          all_details = details @ [(''selected_result_span_count'',
            json_count (length (filter (\<lambda>c. rr_evidence_spans (re_item c) \<noteq> []) reranked)))] in
      (map (\<lambda>c. to_search_result (re_item c) (re_score c)) reranked,
       \<lparr>sl_request = rq, sl_run = sc_run cx, sl_tabular_query = tabular, sl_harness_name = sh_name harness,
        sl_reranker_name = rc_reranker_name cf, sl_reranker_version = lc_reranker_version (sh_reranker_config harness),
        sl_retrieval_profile_name = rp_name (sh_retrieval_profile harness), sl_harness_config = harness_snapshot harness,
        sl_embedding_status = sq_embedding_status st, sl_embedding_error = sq_embedding_error st,
        sl_details = all_details, sl_candidates = map (candidate_with_evidence so rq reranked) items,
        sl_reranked = reranked\<rparr>))"

definition finish_search ::
  "search_services \<Rightarrow> search_context \<Rightarrow> reranker_config \<Rightarrow> candidate_strategy \<Rightarrow> dict \<Rightarrow> search_state \<Rightarrow> exn + search_execution" where
  "finish_search sv cx cf strategy backfill st =
     (let (results, log) = prepare_results cx cf strategy backfill st in
      case sv_persist sv log of
        Inl e \<Rightarrow> Inl e
      | Inr (request_id, operators) \<Rightarrow>
          Inr \<lparr>se_results = results, se_request_id = request_id,
            se_table_hit_count = length (filter (\<lambda>r. res_result_type r = ''table'') results),
            se_log = log, se_operator_run_ids = operators\<rparr>)"

definition execute_search ::
  "search_services \<Rightarrow> codecs \<Rightarrow> world \<Rightarrow> search_source \<Rightarrow> embedder option \<Rightarrow> uuid option \<Rightarrow> reranker_config option \<Rightarrow>
   dict \<Rightarrow> search_request \<Rightarrow> exn + search_execution" where
  "execute_search sv cx w so provider run reranker overrides request =
     (case get_search_harness cx (sr_harness_name request) overrides w of
        Inl e \<Rightarrow> Inl e
      | Inr harness \<Rightarrow>
          (let cf = (case reranker of Some c \<Rightarrow> c | None \<Rightarrow> build_reranker harness);
               intent = classify_query_intent (sr_query request);
               plan = build_search_execution_plan (sr_mode request) (sh_name harness) intent in
           case sv_backfill sv so of
             Inl e \<Rightarrow> Inl e
           | Inr (so1, backfill) \<Rightarrow>
               (let sc = \<lparr>sc_source = so1, sc_request = request, sc_run = run, sc_harness = harness,
                      sc_intent = intent,
                      sc_provider = (case provider of Some p \<Rightarrow> Inr p | None \<Rightarrow> sv_provider sv),
                      sc_sha = sv_sha sv\<rparr> in
                case run_stages sc (xp_stages plan) initial_search of
                  Inl e \<Rightarrow> Inl e
                | Inr st \<Rightarrow> finish_search sv sc cf (xp_strategy plan) backfill st)))"

definition search_documents ::
  "search_services \<Rightarrow> codecs \<Rightarrow> world \<Rightarrow> search_source \<Rightarrow> embedder option \<Rightarrow> uuid option \<Rightarrow> reranker_config option \<Rightarrow>
   search_request \<Rightarrow> exn + search_result list" where
  "search_documents sv cx w so provider run reranker request =
     map_sum id se_results (execute_search sv cx w so provider run reranker [] request)"

end
