(* ===== verification/Search_Eligible.thy ===== *)
theory Search_Eligible
  imports Search_Execution
begin

text \<open>
  The rows a search may return (\<open>eligible\<close>): of the searched runs, passing the filters. Every loader
  of candidates yields such rows only, and sharing, merging and removing duplicates keep what a
  candidate is.
\<close>

section \<open>The identity of a candidate\<close>

text \<open>
  The stages only change scores, sources and spans of the shared objects; the rest is what the
  candidate is.
\<close>

definition ident :: "ranked_result \<Rightarrow> ranked_result" where
  "ident r = r\<lparr>rr_keyword_score := None, rr_semantic_score := None, rr_hybrid_score := None,
     rr_retrieval_sources := [], rr_evidence_spans := []\<rparr>"

lemma ident_simps [simp]:
  "ident (with_score k s source r) = ident r" "ident (absorb x r) = ident r" "ident (fuse i x r) = ident r"
  "ident (r\<lparr>rr_keyword_score := a\<rparr>) = ident r" "ident (r\<lparr>rr_semantic_score := a\<rparr>) = ident r"
  "ident (r\<lparr>rr_evidence_spans := b\<rparr>) = ident r" "ident (ensure_evidence so rq r) = ident r"
  "ident (late_result scores sp r) = ident r" "ident (ident r) = ident r"
  by (simp_all add: ident_def with_score_def absorb_def fuse_def ensure_evidence_def late_result_def
      split: option.split prod.split)

lemma ident_key: "result_key r = result_key (ident r)"
  by (simp add: ident_def result_key_def)

section \<open>Heaps\<close>

definition extends :: "heap \<Rightarrow> heap \<Rightarrow> bool" where
  "extends h h' \<longleftrightarrow> length h \<le> length h' \<and> (\<forall>a < length h. ident (h' ! a) = ident (h ! a))"

definition all_hold :: "(ranked_result \<Rightarrow> bool) \<Rightarrow> heap \<Rightarrow> addr list \<Rightarrow> bool" where
  "all_hold P h as \<longleftrightarrow> (\<forall>a \<in> set as. a < length h \<and> P (ident (h ! a)))"

definition keys_distinct :: "heap \<Rightarrow> addr list \<Rightarrow> bool" where
  "keys_distinct h as \<longleftrightarrow> distinct (map (\<lambda>a. result_key (h ! a)) as)"

lemma extends_refl [simp]: "extends h h"
  by (simp add: extends_def)

lemma extends_trans: "extends h h1 \<Longrightarrow> extends h1 h2 \<Longrightarrow> extends h h2"
  by (simp add: extends_def)

lemma extends_update: "ident x = ident (h ! c) \<Longrightarrow> extends h (h[c := x])"
  by (cases "c < length h") (simp_all add: extends_def nth_list_update list_update_beyond)

lemma extends_all_hold: "extends h h' \<Longrightarrow> all_hold P h as \<Longrightarrow> all_hold P h' as"
  by (force simp: extends_def all_hold_def)

lemma extends_keys: "extends h h' \<Longrightarrow> all_hold P h as \<Longrightarrow> keys_distinct h' as = keys_distinct h as"
  unfolding keys_distinct_def extends_def all_hold_def
  by (rule arg_cong [of _ _ distinct]) (auto simp: ident_key [of "h' ! _"] ident_key [of "h ! _"])

lemma all_hold_append [simp]: "all_hold P h (as @ bs) \<longleftrightarrow> all_hold P h as \<and> all_hold P h bs"
  by (auto simp: all_hold_def)

lemma all_hold_subset: "set as \<subseteq> set bs \<Longrightarrow> all_hold P h bs \<Longrightarrow> all_hold P h as"
  by (auto simp: all_hold_def)

lemma all_hold_Nil [simp]: "all_hold P h []"
  by (simp add: all_hold_def)

lemma sort_hold [simp]:
  "all_hold P h (sort_ranked_candidates_by_score f as h') = all_hold P h as"
  "keys_distinct h (sort_ranked_candidates_by_score f as h') = keys_distinct h as"
proof -
  have "mset (map (\<lambda>a. result_key (h ! a)) (sort_key k as)) = mset (map (\<lambda>a. result_key (h ! a)) as)"
    for k :: "addr \<Rightarrow> rat \<times> int \<times> uuid" by simp
  then show "keys_distinct h (sort_ranked_candidates_by_score f as h') = keys_distinct h as"
    unfolding keys_distinct_def sort_ranked_candidates_by_score_def by (rule mset_eq_imp_distinct_iff)
qed (simp add: all_hold_def sort_ranked_candidates_by_score_def)

lemma alloc_holds:
  assumes "alloc rs h = (as, h')" and "\<forall>r \<in> set rs. P (ident r)"
  shows "extends h h' \<and> all_hold P h' as"
  using assms by (auto simp: alloc_def extends_def all_hold_def nth_append)

lemma dedupe_fold_extends: "extends (snd st) (snd (foldl dedupe_step st items))"
proof (induction items arbitrary: st)
  case (Cons a items)
  have "extends (snd st) (snd (dedupe_step st a))"
    by (auto simp: dedupe_step_def split: prod.split option.split intro!: extends_update)
  with Cons [of "dedupe_step st a"] extends_trans show ?case by fastforce
qed simp

lemma dedupe_holds:
  assumes "dedupe_ranked_results items h = (as, h')" and "all_hold P h items"
  shows "extends h h' \<and> all_hold P h' as \<and> keys_distinct h' as"
proof -
  have e: "extends h h'"
    using assms(1) dedupe_fold_extends [of "([], h)" items]
    by (auto simp: dedupe_ranked_results_def split: prod.splits)
  have "\<forall>a \<in> set items. a < length h" using assms(2) by (simp add: all_hold_def)
  from dedupe_result(2,4) [OF assms(1) this] extends_all_hold [OF e assms(2)] e show ?thesis
    using all_hold_subset by (auto simp: keys_distinct_def objects_def comp_def)
qed

lemma merge_fold_extends:
  assumes "step = keyword_step \<or> step = semantic_step"
  shows "extends (snd st) (snd (foldl step st items))"
proof (induction items arbitrary: st)
  case (Cons a items)
  have "extends (snd st) (snd (step st a))"
    using assms by (auto simp: keyword_step_def semantic_step_def Let_def split: prod.split intro!: extends_update)
  with Cons [of "step st a"] extends_trans show ?case by fastforce
qed simp

lemma merge_holds:
  assumes "merge_hybrid_candidates kw sem h = (as, h')" and "all_hold P h (kw @ sem)"
  shows "extends h h' \<and> all_hold P h' as \<and> keys_distinct h' as"
proof -
  have e: "extends h h'"
    using assms(1) extends_trans [OF merge_fold_extends [of keyword_step "([], h)" "enumerate 1 kw"]
      merge_fold_extends [of semantic_step "foldl keyword_step ([], h) (enumerate 1 kw)" "enumerate 1 sem"]]
    by (auto simp: merge_hybrid_candidates_def split: prod.splits)
  have "\<forall>a \<in> set kw \<union> set sem. a < length h" using assms(2) by (auto simp: all_hold_def)
  from fusion_result(3,5) [OF assms(1) this] have "set as \<subseteq> set (kw @ sem)" "keys_distinct h' as"
    by (auto simp: keys_distinct_def objects_def comp_def)
  with extends_all_hold [OF e assms(2)] e show ?thesis using all_hold_subset by blast
qed

section \<open>Rows that a search may return\<close>

definition chunk_found :: "search_source \<Rightarrow> uuid option \<Rightarrow> search_filters option \<Rightarrow> document_chunk \<Rightarrow> document \<Rightarrow> bool" where
  "chunk_found so run filters c x \<longleftrightarrow> c \<in> set (db_chunks (so_db so)) \<and> x \<in> set (db_documents (so_db so))
     \<and> doc_id x = chunk_document_id c \<and> in_scope run (chunk_run_id c) x \<and> apply_chunk_filters filters c"

definition table_found :: "search_source \<Rightarrow> uuid option \<Rightarrow> search_filters option \<Rightarrow> document_table \<Rightarrow> document \<Rightarrow> bool" where
  "table_found so run filters t x \<longleftrightarrow> t \<in> set (db_tables (so_db so)) \<and> x \<in> set (db_documents (so_db so))
     \<and> doc_id x = table_document_id t \<and> in_scope run (table_run_id t) x \<and> apply_table_filters filters t"

definition eligible :: "search_source \<Rightarrow> uuid option \<Rightarrow> search_filters option \<Rightarrow> ranked_result \<Rightarrow> bool" where
  "eligible so run filters r \<longleftrightarrow> (\<exists>c x. chunk_found so run filters c x \<and> r = ident (chunk_result c x))
     \<or> (\<exists>t x. table_found so run filters t x \<and> r = ident (table_result t x))"

text \<open>
  The spans agree with their chunks and tables, as \<open>retrieval_span_specs.py\<close> builds them, and have
  distinct identifiers.
\<close>

definition span_agrees :: "search_source \<Rightarrow> retrieval_evidence_span \<Rightarrow> bool" where
  "span_agrees so sp \<longleftrightarrow>
     (\<forall>c \<in> set (db_chunks (so_db so)). rs_chunk_id sp = Some (chunk_id c) \<longrightarrow> rs_document_id sp = chunk_document_id c
        \<and> rs_run_id sp = chunk_run_id c \<and> rs_page_from sp = chunk_page_from c \<and> rs_page_to sp = chunk_page_to c)
     \<and> (\<forall>t \<in> set (db_tables (so_db so)). rs_table_id sp = Some (table_id t) \<longrightarrow> rs_document_id sp = table_document_id t
        \<and> rs_run_id sp = table_run_id t \<and> rs_page_from sp = table_page_from t \<and> rs_page_to sp = table_page_to t)"

definition index_consistent :: "search_source \<Rightarrow> bool" where
  "index_consistent so \<longleftrightarrow> distinct (map rs_id (so_spans so)) \<and> (\<forall>sp \<in> set (so_spans so). span_agrees so sp)"

lemma chunk_row: "(c, x) \<in> set (chunk_query run (so_db so)) \<Longrightarrow> apply_chunk_filters filters c \<Longrightarrow>
    eligible so run filters (ident (chunk_result c x))"
  by (auto simp: eligible_def chunk_found_def chunk_query_def)

lemma table_row: "(t, x) \<in> set (table_query run (so_db so)) \<Longrightarrow> apply_table_filters filters t \<Longrightarrow>
    eligible so run filters (ident (table_result t x))"
  by (auto simp: eligible_def table_found_def table_query_def)

lemma span_chunk_row:
  assumes "(sp, c, x) \<in> set (span_chunk_query run so)" and "apply_span_filters filters sp" and "index_consistent so"
  shows "eligible so run filters (ident (chunk_result c x))"
proof -
  have r: "sp \<in> set (so_spans so)" "c \<in> set (db_chunks (so_db so))" "x \<in> set (db_documents (so_db so))"
    "rs_chunk_id sp = Some (chunk_id c)" "doc_id x = rs_document_id sp" "in_scope run (rs_run_id sp) x"
    "rs_source_type sp = ''chunk''"
    using assms(1) by (auto simp: span_chunk_query_def)
  have "rs_document_id sp = chunk_document_id c" "rs_run_id sp = chunk_run_id c"
    "rs_page_from sp = chunk_page_from c" "rs_page_to sp = chunk_page_to c"
    using assms(3) r by (auto simp: index_consistent_def span_agrees_def)
  with r assms(2) have "chunk_found so run filters c x"
    by (auto simp: chunk_found_def apply_chunk_filters_def passes_filters_def apply_span_filters_def split: option.splits)
  then show ?thesis by (auto simp: eligible_def)
qed

lemma span_table_row:
  assumes "(sp, t, x) \<in> set (span_table_query run so)" and "apply_span_filters filters sp" and "index_consistent so"
  shows "eligible so run filters (ident (table_result t x))"
proof -
  have r: "sp \<in> set (so_spans so)" "t \<in> set (db_tables (so_db so))" "x \<in> set (db_documents (so_db so))"
    "rs_table_id sp = Some (table_id t)" "doc_id x = rs_document_id sp" "in_scope run (rs_run_id sp) x"
    "rs_source_type sp = ''table''"
    using assms(1) by (auto simp: span_table_query_def)
  have "rs_document_id sp = table_document_id t" "rs_run_id sp = table_run_id t"
    "rs_page_from sp = table_page_from t" "rs_page_to sp = table_page_to t"
    using assms(3) r by (auto simp: index_consistent_def span_agrees_def)
  with r assms(2) have "table_found so run filters t x"
    by (auto simp: table_found_def apply_table_filters_def passes_filters_def apply_span_filters_def split: option.splits)
  then show ?thesis by (auto simp: eligible_def)
qed

section \<open>What the loaders return\<close>

definition all_eligible :: "search_context \<Rightarrow> ranked_result list \<Rightarrow> bool" where
  "all_eligible cx rs \<longleftrightarrow>
     (\<forall>r \<in> set rs. eligible (sc_source cx) (sc_run cx) (sr_filters (sc_request cx)) (ident r))"

lemma best_first_rows: "set (map fst (best_first key (scored score rows))) \<subseteq> set rows"
  by (auto simp: best_first_def scored_def map_filter_def split: if_splits)

lemma limited_rows: "sql_limit n xs = Inr ys \<Longrightarrow> set ys \<subseteq> set xs"
  by (auto simp: sql_limit_def split: if_splits dest: in_set_takeD)

lemma ranked_rows:
  "sql_limit n (best_first key (scored score rows)) = Inr ys \<Longrightarrow> (r, s) \<in> set ys \<Longrightarrow> r \<in> set rows"
  using limited_rows [of n "best_first key (scored score rows)" ys] best_first_rows [of key score rows] by force

lemma hydrated_chunks:
  "search_chunks so rq run n score = Inr rows \<Longrightarrow> r \<in> set (hydrate_ranked_chunks rows k s) \<Longrightarrow>
   eligible so run (sr_filters rq) (ident r)"
  unfolding search_chunks_def hydrate_ranked_chunks_def
  by (auto dest!: ranked_rows intro!: chunk_row)

lemma hydrated_tables:
  "search_tables so rq run n score = Inr rows \<Longrightarrow> r \<in> set (hydrate_ranked_tables rows k s) \<Longrightarrow>
   eligible so run (sr_filters rq) (ident r)"
  unfolding search_tables_def hydrate_ranked_tables_def
  by (auto dest!: ranked_rows intro!: table_row)

lemma hydrated_span_chunks:
  "index_consistent so \<Longrightarrow> search_span_chunks so rq run n score = Inr rows \<Longrightarrow>
   r \<in> set (hydrate_ranked_span_chunks rows k s) \<Longrightarrow> eligible so run (sr_filters rq) (ident r)"
  unfolding search_span_chunks_def hydrate_ranked_span_chunks_def
  by (auto dest!: ranked_rows intro!: span_chunk_row)

lemma hydrated_span_tables:
  "index_consistent so \<Longrightarrow> search_span_tables so rq run n score = Inr rows \<Longrightarrow>
   r \<in> set (hydrate_ranked_span_tables rows k s) \<Longrightarrow> eligible so run (sr_filters rq) (ident r)"
  unfolding search_span_tables_def hydrate_ranked_span_tables_def
  by (auto dest!: ranked_rows intro!: span_table_row)

lemmas loader_defs =
  run_keyword_chunk_search_def run_keyword_table_search_def run_keyword_span_chunk_search_def
  run_keyword_span_table_search_def run_semantic_chunk_search_def run_semantic_table_search_def
  run_semantic_span_chunk_search_def run_semantic_span_table_search_def

lemma map_sum_Inr: "map_sum id f x = Inr y \<longleftrightarrow> (\<exists>z. x = Inr z \<and> y = f z)"
  by (cases x) auto

lemma keyword_rows:
  assumes "index_consistent so"
  shows "run_keyword_chunk_search relaxed so rq run n = Inr rs \<Longrightarrow> r \<in> set rs \<Longrightarrow> eligible so run (sr_filters rq) (ident r)"
    and "run_keyword_table_search relaxed so rq run n = Inr rs \<Longrightarrow> r \<in> set rs \<Longrightarrow> eligible so run (sr_filters rq) (ident r)"
    and "run_keyword_span_chunk_search relaxed so rq run n = Inr rs \<Longrightarrow> r \<in> set rs \<Longrightarrow> eligible so run (sr_filters rq) (ident r)"
    and "run_keyword_span_table_search relaxed so rq run n = Inr rs \<Longrightarrow> r \<in> set rs \<Longrightarrow> eligible so run (sr_filters rq) (ident r)"
  using assms
  by (auto simp: loader_defs map_sum_Inr split: option.splits
      dest: hydrated_chunks hydrated_tables hydrated_span_chunks hydrated_span_tables)

lemma semantic_rows:
  assumes "index_consistent (sc_source cx)" and "load_semantic_rows cx q n = Inr rs"
  shows "all_eligible cx rs"
  using assms
  by (auto simp: load_semantic_rows_def all_eligible_def loader_defs map_sum_Inr Let_def split: sum.splits
      dest: hydrated_chunks hydrated_tables hydrated_span_chunks hydrated_span_tables)

section \<open>What the supplements return\<close>

definition passing_span :: "search_source \<Rightarrow> search_filters option \<Rightarrow> uuid \<Rightarrow> bool" where
  "passing_span so filters i \<longleftrightarrow> (\<exists>sp \<in> set (so_spans so). rs_id sp = i \<and> apply_span_filters filters sp)"

lemma late_row_span:
  "late_rows so rq run n q = Inr rows \<Longrightarrow> ((v, sp), s) \<in> set rows \<Longrightarrow> passing_span so (sr_filters rq) (rs_id sp)"
  unfolding late_rows_def by (auto dest!: ranked_rows simp: multivector_span_query_def passing_span_def)

lemma late_match_keys: "fst ` set (late_match_row i states ((v, sp), s)) \<subseteq> insert (rs_id sp) (fst ` set states)"
  by (auto simp: late_match_row_def Let_def dom_update split: option.splits prod.splits)

lemma late_match_fold:
  "\<forall>row \<in> set rows. P (rs_id (snd (fst row))) \<Longrightarrow> \<forall>i \<in> fst ` set states. P i \<Longrightarrow>
   \<forall>i \<in> fst ` set (foldl (late_match_row j) states rows). P i"
proof (induction rows arbitrary: states)
  case (Cons row rows)
  obtain v sp s where row: "row = ((v, sp), s)" by (metis prod.exhaust)
  have "\<forall>i \<in> insert (rs_id sp) (fst ` set states). P i" using Cons.prems by (simp add: row)
  with late_match_keys [of j states v sp s] have "\<forall>i \<in> fst ` set (late_match_row j states row). P i"
    unfolding row by blast
  with Cons.IH [of "late_match_row j states row"] Cons.prems show ?case by simp
qed simp

lemma late_matches_keys:
  "late_matches so rq run n qs states = Inr states' \<Longrightarrow> \<forall>i \<in> fst ` set states. passing_span so (sr_filters rq) i \<Longrightarrow>
   \<forall>i \<in> fst ` set states'. passing_span so (sr_filters rq) i"
proof (induction so rq run n qs states rule: late_matches.induct)
  case (2 so rq run n i q qs states)
  then obtain rows where rows: "late_rows so rq run n q = Inr rows"
    "late_matches so rq run n qs (foldl (late_match_row i) states rows) = Inr states'"
    by (auto split: sum.splits)
  have "\<forall>row \<in> set rows. passing_span so (sr_filters rq) (rs_id (snd (fst row)))"
    using late_row_span [OF rows(1)] by force
  from late_match_fold [OF this 2(3)] 2(1) [OF rows] show ?case by blast
qed simp

lemma hydrated_rows:
  "(k, v) \<in> set (foldl (\<lambda>d (sp, c, x). dict_set (rs_id sp) (f sp c x) d) d xs) \<Longrightarrow>
   (k, v) \<in> set d \<or> (\<exists>sp c x. (sp, c, x) \<in> set xs \<and> v = f sp c x)"
proof (induction xs arbitrary: d)
  case (Cons y xs)
  obtain sp c x where y: "y = (sp, c, x)" by (metis prod.exhaust)
  from Cons.IH [of "dict_set (rs_id sp) (f sp c x) d"] Cons.prems
  have "(k, v) \<in> set (dict_set (rs_id sp) (f sp c x) d) \<or> (\<exists>sp c x. (sp, c, x) \<in> set xs \<and> v = f sp c x)"
    by (simp add: y)
  with set_update_subset [of "rs_id sp" "f sp c x" d] show ?case unfolding y by auto
qed simp

lemma py_take_subset: "set (py_take n xs) \<subseteq> set xs"
  by (auto simp: py_take_def dest: in_set_takeD)

lemma late_hydrated:
  assumes "index_consistent so" and "\<forall>i \<in> fst ` set scores. passing_span so filters i"
    and "r \<in> set (hydrate_late_interaction_results so scores n run)"
  shows "eligible so run filters (ident r)"
proof -
  define ordered where "ordered = py_take n (map fst (sort_key (\<lambda>(i, score, trace :: json). (- score, i)) scores))"
  have "set ordered \<subseteq> fst ` set scores"
    unfolding ordered_def by (rule order_trans [OF py_take_subset]) simp
  note ordered = subsetD [OF this]
  have pass: "apply_span_filters filters sp" if in_ordered: "rs_id sp \<in> set ordered" and in_spans: "sp \<in> set (so_spans so)" for sp
  proof -
    obtain sp' where sp': "sp' \<in> set (so_spans so)" "rs_id sp' = rs_id sp" "apply_span_filters filters sp'"
      using assms(2) ordered [OF in_ordered] by (auto simp: passing_span_def)
    have "inj_on rs_id (set (so_spans so))" using assms(1) by (simp add: index_consistent_def distinct_map)
    then have "sp' = sp" using sp'(1,2) in_spans by (auto dest: inj_onD)
    with sp'(3) show ?thesis by simp
  qed
  let ?chunks = "filter (\<lambda>(sp, c, x). rs_id sp \<in> set ordered) (span_chunk_query run so)"
  let ?tables = "filter (\<lambda>(sp, t, x). rs_id sp \<in> set ordered) (span_table_query run so)"
  let ?hydrated = "foldl (\<lambda>d (sp, t, x). dict_set (rs_id sp) (late_result scores sp (table_result t x)) d)
      (foldl (\<lambda>d (sp, c, x). dict_set (rs_id sp) (late_result scores sp (chunk_result c x)) d) [] ?chunks) ?tables"
  have "r \<in> set (List.map_filter (dict_get ?hydrated) ordered)"
    using assms(3) by (simp add: hydrate_late_interaction_results_def Let_def ordered_def)
  then obtain i where "dict_get ?hydrated i = Some r" by (auto simp: map_filter_def)
  then have "(i, r) \<in> set ?hydrated" by (rule map_of_SomeD)
  from hydrated_rows [OF this] consider
      sp t x where "(sp, t, x) \<in> set ?tables" "r = late_result scores sp (table_result t x)"
    | sp c x where "(sp, c, x) \<in> set ?chunks" "r = late_result scores sp (chunk_result c x)"
    using hydrated_rows [of i r "\<lambda>sp c x. late_result scores sp (chunk_result c x)" "[]" ?chunks] by auto
  then show ?thesis
  proof cases
    case (1 sp t x)
    then have "sp \<in> set (so_spans so)" by (auto simp: span_table_query_def)
    with 1 pass [of sp] span_table_row [of sp t x run so filters] assms(1) show ?thesis by simp
  next
    case (2 sp c x)
    then have "sp \<in> set (so_spans so)" by (auto simp: span_chunk_query_def)
    with 2 pass [of sp] span_chunk_row [of sp c x run so filters] assms(1) show ?thesis by simp
  qed
qed

lemma late_eligible:
  assumes "index_consistent (sc_source cx)" and "late_interaction cx embedder = Inr (rs, details)"
  shows "all_eligible cx rs"
proof -
  let ?so = "sc_source cx" and ?rq = "sc_request cx"
  obtain vectors n where r: "run_late_interaction_search ?so ?rq
      (query_multivector_windows (sc_sha cx) (sr_query ?rq)) vectors n (sc_run cx) = Inr (rs, details)"
    using assms(2) by (auto simp: late_interaction_def Let_def split: sum.splits)
  show ?thesis
  proof (cases "vectors = []")
    case True
    with r show ?thesis by (auto simp: run_late_interaction_search_def all_eligible_def)
  next
    case False
    then obtain states scores where s: "late_matches ?so ?rq (sc_run cx) (max (n * LATE_INTERACTION_FETCH_MULTIPLIER)
        (n + int (length vectors))) (List.enumerate 0 vectors) [] = Inr states"
      "rs = hydrate_late_interaction_results ?so scores n (sc_run cx)" "fst ` set scores = fst ` set states"
      using r by (auto simp: run_late_interaction_search_def Let_def image_image case_prod_unfold split: sum.splits)
    have "\<forall>i \<in> fst ` set scores. passing_span ?so (sr_filters ?rq) i"
      using late_matches_keys [OF s(1)] s(3) by simp
    with late_hydrated [OF assms(1)] s(2) show ?thesis by (auto simp: all_eligible_def)
  qed
qed

lemma limited_subset:
  "sql_limit n (best_first key (scored score (filter P rows))) = Inr ys \<Longrightarrow> fst ` set ys \<subseteq> {r \<in> set rows. P r}"
  using ranked_rows [of n key score "filter P rows" ys] by auto

lemma metadata_rows:
  assumes "metadata_chunk_rows so rq run n dq cq = Inr rows" and "(c, x) \<in> set rows"
  shows "(c, x) \<in> set (chunk_query run (so_db so)) \<and> apply_chunk_filters (sr_filters rq) c"
proof -
  let ?ok = "{(c, x) \<in> set (chunk_query run (so_db so)). apply_chunk_filters (sr_filters rq) c}"
  let ?all = "filter (\<lambda>(c, x). apply_chunk_filters (sr_filters rq) c) (chunk_query run (so_db so))"
  let ?first = "case cq of None \<Rightarrow> Inr [] | Some q \<Rightarrow> map_sum id (map fst)
      (sql_limit (max (n * METADATA_SUPPLEMENT_DIRECT_CHUNK_MULTIPLIER) n)
        (best_first (\<lambda>(c, x). chunk_chunk_index c) (scored (\<lambda>(c, x). te_chunk (so_engine so) q c) ?all)))"
  obtain direct where first: "?first = Inr direct"
    using assms(1) by (cases ?first) (auto simp: metadata_chunk_rows_def Let_def)
  have direct: "set direct \<subseteq> ?ok"
    using first limited_subset by (fastforce simp: map_sum_Inr split: option.splits)
  obtain documents where docs: "document_metadata_candidates so rq run (List.map_filter id [dq, cq]) n = Inr documents"
    using assms(1) first by (auto simp: metadata_chunk_rows_def Let_def split: sum.splits)
  have "set rows \<subseteq> ?ok"
  proof (cases "documents = []")
    case True
    then show ?thesis using assms(1) first docs direct by (simp add: metadata_chunk_rows_def Let_def)
  next
    case False
    let ?limit = "max (n * max (int (length documents)) 2) (n * METADATA_SUPPLEMENT_DOCUMENT_CHUNK_MULTIPLIER)"
    let ?score = "\<lambda>(c, x). Some (case cq of None \<Rightarrow> 0 | Some q \<Rightarrow> rank_or_zero (te_chunk (so_engine so) q c))"
    obtain hydrated where h: "sql_limit ?limit (best_first (\<lambda>(c, x). chunk_chunk_index c)
        (scored ?score (filter (\<lambda>(c, x). chunk_document_id c \<in> doc_id ` set documents) ?all))) = Inr hydrated"
      "rows = direct @ map fst hydrated"
      using assms(1) first docs False by (auto simp: metadata_chunk_rows_def Let_def map_sum_Inr simp del: filter_filter)
    show ?thesis using limited_subset [OF h(1)] direct h(2) by auto
  qed
  with assms(2) show ?thesis by auto
qed

lemma metadata_candidate_eligible:
  "metadata_chunk_rows so rq run n dq cq = Inr rows \<Longrightarrow> r \<in> set (List.map_filter (metadata_candidate rq) rows) \<Longrightarrow>
   eligible so run (sr_filters rq) (ident r)"
  by (auto simp: map_filter_def metadata_candidate_def Let_def split: if_splits
      dest!: metadata_rows intro!: chunk_row)

lemma metadata_eligible:
  assumes "run_prose_metadata_chunk_search so rq run n h = Inr (as, h')"
  shows "extends h h' \<and> all_hold (eligible so run (sr_filters rq)) h' as"
proof (cases "as = [] \<and> h' = h")
  case False
  let ?dq = "metadata_tsquery ''simple'' (metadata_query_tokens (Some (sr_query rq)))"
  let ?cq = "metadata_tsquery ''english'' (sorted_list_of_set (salient_tokens (Some (sr_query rq))))"
  have some: "\<not> (?dq = None \<and> ?cq = None)"
    using assms False by (cases "?dq = None \<and> ?cq = None") (simp_all add: run_prose_metadata_chunk_search_def Let_def)
  then obtain rows where rows: "metadata_chunk_rows so rq run n ?dq ?cq = Inr rows"
    using assms by (cases "metadata_chunk_rows so rq run n ?dq ?cq")
      (auto simp: run_prose_metadata_chunk_search_def Let_def)
  let ?cs = "sort_key (score_key strongest_ranked_score) (List.map_filter (metadata_candidate rq) rows)"
  obtain cs h1 where a: "alloc ?cs h = (cs, h1)" by fastforce
  obtain bs h2 where b: "dedupe_ranked_results cs h1 = (bs, h2)" by fastforce
  have b: "dedupe_ranked_results cs h1 = (bs, h')" "as = py_take n bs"
    using assms some rows a b by (auto simp: run_prose_metadata_chunk_search_def Let_def)
  have "\<forall>r \<in> set ?cs. eligible so run (sr_filters rq) (ident r)"
    using metadata_candidate_eligible [OF rows] by simp
  from alloc_holds [OF a this] have 1: "extends h h1" "all_hold (eligible so run (sr_filters rq)) h1 cs" by blast+
  from dedupe_holds [OF b(1) 1(2)] 1(1) b(2) show ?thesis
    using all_hold_subset [OF py_take_subset] extends_trans by blast
qed auto

lemma expand_row_eligible:
  "P (ident (chunk_result (fst row) (snd row))) \<Longrightarrow> \<forall>r \<in> set expanded. P (ident r) \<Longrightarrow>
   \<forall>r \<in> set (expand_row seed expanded row). P (ident r)"
  by (auto simp: expand_row_def Let_def case_prod_unfold)

lemma expand_rows_eligible:
  "\<forall>row \<in> set rows. P (ident (chunk_result (fst row) (snd row))) \<Longrightarrow> \<forall>r \<in> set expanded. P (ident r) \<Longrightarrow>
   \<forall>r \<in> set (foldl (expand_row seed) expanded rows). P (ident r)"
proof (induction rows arbitrary: expanded)
  case (Cons row rows)
  have "\<forall>r \<in> set (expand_row seed expanded row). P (ident r)"
    by (rule expand_row_eligible) (use Cons.prems in simp_all)
  with Cons show ?case by simp
qed simp

lemma adjacent_eligible:
  "\<forall>r \<in> set (expand_adjacent_chunk_context so rq run seeds). eligible so run (sr_filters rq) (ident r)"
proof -
  let ?P = "eligible so run (sr_filters rq)"
  have "\<forall>r \<in> set (foldl (expand_seed so rq run) expanded ss). ?P (ident r)"
    if "\<forall>r \<in> set expanded. ?P (ident r)" for expanded ss
    using that
  proof (induction ss arbitrary: expanded)
    case (Cons s ss)
    have rows: "\<forall>row \<in> set (adjacent_rows so rq run s i). ?P (ident (chunk_result (fst row) (snd row)))" for i
      by (auto simp: adjacent_rows_def intro!: chunk_row)
    have "\<forall>r \<in> set (expand_seed so rq run expanded s). ?P (ident r)"
      using expand_rows_eligible [OF rows Cons.prems] Cons.prems
      by (simp add: expand_seed_def split: option.split)
    from Cons.IH [OF this] show ?case by simp
  qed simp
  from this [of "[]"] show ?thesis by (simp add: expand_adjacent_chunk_context_def Let_def)
qed

section \<open>States whose candidates are eligible\<close>

definition good_state :: "search_context \<Rightarrow> search_state \<Rightarrow> bool" where
  "good_state cx st \<longleftrightarrow> (let P = eligible (sc_source cx) (sc_run cx) (sr_filters (sc_request cx)); h = sq_heap st in
     all_hold P h (sq_keyword st) \<and> all_hold P h (sq_semantic st) \<and> all_hold P h (sq_metadata st)
     \<and> keys_distinct h (sq_semantic st))"

lemma good_extends:
  assumes "good_state cx st" and "extends (sq_heap st) h"
  shows "good_state cx (st\<lparr>sq_heap := h\<rparr>)"
proof -
  let ?P = "eligible (sc_source cx) (sc_run cx) (sr_filters (sc_request cx))"
  have sem: "all_hold ?P (sq_heap st) (sq_semantic st)" using assms(1) by (simp add: good_state_def Let_def)
  show ?thesis
    using assms(1) extends_all_hold [OF assms(2)] extends_keys [OF assms(2) sem] by (simp add: good_state_def Let_def)
qed

lemma keyword_candidates_good:
  assumes "index_consistent (sc_source cx)" and "load_keyword_candidates cx relaxed n h = Inr (cs, ts, h')"
  shows "extends h h' \<and> all_hold (eligible (sc_source cx) (sc_run cx) (sr_filters (sc_request cx))) h' (cs @ ts)"
proof -
  let ?P = "eligible (sc_source cx) (sc_run cx) (sr_filters (sc_request cx))"
  obtain chunks tables span_chunks span_tables where rows:
    "run_keyword_chunk_search relaxed (sc_source cx) (sc_request cx) (sc_run cx) n = Inr chunks"
    "run_keyword_table_search relaxed (sc_source cx) (sc_request cx) (sc_run cx) n = Inr tables"
    "run_keyword_span_chunk_search relaxed (sc_source cx) (sc_request cx) (sc_run cx) n = Inr span_chunks"
    "run_keyword_span_table_search relaxed (sc_source cx) (sc_request cx) (sc_run cx) n = Inr span_tables"
    using assms(2) by (auto simp: load_keyword_candidates_def Let_def split: sum.splits)
  obtain as h1 where a: "alloc (chunks @ span_chunks) h = (as, h1)" by fastforce
  obtain bs h2 where b: "alloc (tables @ span_tables) h1 = (bs, h2)" by fastforce
  obtain h3 where c: "dedupe_ranked_results as h2 = (cs, h3)" and d: "dedupe_ranked_results bs h3 = (ts, h')"
    using assms(2) rows a b by (auto simp: load_keyword_candidates_def Let_def split: prod.splits)
  have "\<forall>r \<in> set (chunks @ span_chunks). ?P (ident r)" "\<forall>r \<in> set (tables @ span_tables). ?P (ident r)"
    using keyword_rows(1) [OF assms(1) rows(1)] keyword_rows(2) [OF assms(1) rows(2)]
      keyword_rows(3) [OF assms(1) rows(3)] keyword_rows(4) [OF assms(1) rows(4)] by auto
  with alloc_holds [OF a] alloc_holds [OF b]
  have 1: "extends h h1" "all_hold ?P h1 as" "extends h1 h2" "all_hold ?P h2 bs" by blast+
  have 2: "extends h2 h3" "all_hold ?P h3 cs"
    using dedupe_holds [OF c extends_all_hold [OF 1(3,2)]] by blast+
  have 3: "extends h3 h'" "all_hold ?P h' ts"
    using dedupe_holds [OF d extends_all_hold [OF 2(1) 1(4)]] by blast+
  show ?thesis
    using extends_trans [OF 1(1) extends_trans [OF 1(3) extends_trans [OF 2(1) 3(1)]]]
      extends_all_hold [OF 3(1) 2(2)] 3(2) by simp
qed

lemma semantic_candidates_good:
  assumes "index_consistent (sc_source cx)" and "load_semantic_candidates cx q n h = Inr (as, h')"
  shows "extends h h' \<and> all_hold (eligible (sc_source cx) (sc_run cx) (sr_filters (sc_request cx))) h' as
    \<and> keys_distinct h' as"
proof -
  obtain rows where rows: "load_semantic_rows cx q n = Inr rows"
    using assms(2) by (auto simp: load_semantic_candidates_def split: sum.splits)
  obtain bs h1 where a: "alloc rows h = (bs, h1)" by fastforce
  obtain cs where c: "dedupe_ranked_results bs h1 = (cs, h')" "as = sort_ranked_candidates_by_score semantic_score cs h'"
    using assms(2) rows a by (auto simp: load_semantic_candidates_def Let_def split: prod.splits)
  from alloc_holds [OF a semantic_rows [OF assms(1) rows, unfolded all_eligible_def]]
  have 1: "extends h h1" "all_hold (eligible (sc_source cx) (sc_run cx) (sr_filters (sc_request cx))) h1 bs" by blast+
  from dedupe_holds [OF c(1) 1(2)] extends_trans [OF 1(1)] c(2) show ?thesis by simp
qed

end
