(* ===== verification/Search_Guarantees.thy ===== *)
theory Search_Guarantees
  imports Search_Eligible
begin

text \<open>
  What a search guarantees, whatever its mode, harness and stages: its results are rows of the
  searched runs that pass the filters, each at most once and at most as many as asked for; and when
  the vector stage fails, the search answers as a keyword search would.
\<close>

section \<open>What the stages keep\<close>

abbreviation ok :: "search_context \<Rightarrow> ranked_result \<Rightarrow> bool" where
  "ok cx \<equiv> eligible (sc_source cx) (sc_run cx) (sr_filters (sc_request cx))"

lemma good_keyword:
  assumes "good_state cx st" and "extends (sq_heap st) h" and "all_hold (ok cx) h kw"
  shows "good_state cx (st\<lparr>sq_heap := h, sq_keyword := kw\<rparr>)"
  using good_extends [OF assms(1,2)] assms(3) by (simp add: good_state_def Let_def)

lemma good_irrelevant [simp]:
  "good_state cx (st\<lparr>sq_keyword_chunks := a\<rparr>) = good_state cx st"
  "good_state cx (st\<lparr>sq_keyword_tables := b\<rparr>) = good_state cx st"
  "good_state cx (st\<lparr>sq_strategy := c\<rparr>) = good_state cx st"
  "good_state cx (st\<lparr>sq_strict_count := n\<rparr>) = good_state cx st"
  "good_state cx (st\<lparr>sq_embedding_status := s\<rparr>) = good_state cx st"
  "good_state cx (st\<lparr>sq_embedding_error := e\<rparr>) = good_state cx st"
  "good_state cx (st\<lparr>sq_fallback_reason := e\<rparr>) = good_state cx st"
  "good_state cx (st\<lparr>sq_late := l\<rparr>) = good_state cx st"
  by (simp_all add: good_state_def)

lemma strict_keyword_good:
  assumes "index_consistent (sc_source cx)" and "good_state cx st" and "strict_keyword_stage cx st = Inr st'"
  shows "good_state cx st'"
proof -
  obtain n cs ts h where l: "load_keyword_candidates cx False n (sq_heap st) = Inr (cs, ts, h)"
    and st': "st' = st\<lparr>sq_heap := h, sq_keyword_chunks := cs, sq_keyword_tables := ts,
      sq_keyword := sort_ranked_candidates_by_score keyword_score (cs @ ts) h, sq_strict_count := length (cs @ ts)\<rparr>"
    using assms(3) by (auto simp: strict_keyword_stage_def split: sum.splits)
  let ?kw = "sort_ranked_candidates_by_score keyword_score (cs @ ts) h"
  have "good_state cx (st\<lparr>sq_heap := h, sq_keyword := ?kw\<rparr>)"
    using keyword_candidates_good [OF assms(1) l] good_keyword [OF assms(2)] by simp
  then show ?thesis unfolding st' by (simp add: good_state_def)
qed

lemma relaxed_keyword_good:
  assumes "index_consistent (sc_source cx)" and "good_state cx st" and "relaxed_keyword_stage cx st = Inr st'"
  shows "good_state cx st'"
proof (cases "st' = st")
  case False
  obtain n cs ts h where l: "load_keyword_candidates cx True n (sq_heap st) = Inr (cs, ts, h)"
    and st': "sq_heap st' = h" "set (sq_keyword st') = set (cs @ ts)" "sq_semantic st' = sq_semantic st"
      "sq_metadata st' = sq_metadata st"
    using assms(3) False
    by (auto simp: relaxed_keyword_stage_def Let_def sort_ranked_candidates_by_score_def split: sum.splits if_splits)
  have "all_hold (ok cx) h (sq_keyword st')" and e: "extends (sq_heap st) h"
    using keyword_candidates_good [OF assms(1) l] all_hold_subset st'(2) by blast+
  with good_extends [OF assms(2) e] st' show ?thesis by (simp add: good_state_def Let_def)
qed (use assms(2) in simp)

lemma metadata_good:
  assumes "good_state cx st" and "metadata_stage cx st = Inr st'"
  shows "good_state cx st'"
proof (cases "st' = st\<lparr>sq_metadata := []\<rparr>")
  case False
  obtain found h1 where run: "run_prose_metadata_chunk_search (sc_source cx) (sc_request cx) (sc_run cx)
      PROSE_SUPPLEMENTARY_CANDIDATE_LIMIT (sq_heap st) = Inr (found, h1)"
    using assms(2) False by (auto simp: metadata_stage_def Let_def split: sum.splits if_splits)
  have 1: "extends (sq_heap st) h1" "all_hold (ok cx) h1 found" using metadata_eligible [OF run] by auto
  obtain merged h2 where d: "dedupe_ranked_results (sq_keyword st @ found) h1 = (merged, h2)" by fastforce
  have kw: "all_hold (ok cx) h1 (sq_keyword st)"
    using extends_all_hold [OF 1(1)] assms(1) by (simp add: good_state_def Let_def)
  have 2: "extends h1 h2" "all_hold (ok cx) h2 merged" using dedupe_holds [OF d] kw 1(2) by auto
  consider "st' = st\<lparr>sq_heap := h1, sq_metadata := []\<rparr>"
    | s where "st' = st\<lparr>sq_heap := h2, sq_metadata := found,
        sq_keyword := sort_ranked_candidates_by_score keyword_score merged h2, sq_strategy := s\<rparr>"
    using assms(2) False d run by (auto simp: metadata_stage_def Let_def split: if_splits)
  then show ?thesis
  proof cases
    case 1
    then show ?thesis using good_extends [OF assms(1) \<open>extends (sq_heap st) h1\<close>] by (simp add: good_state_def Let_def)
  next
    case 2
    have "good_state cx (st\<lparr>sq_heap := h2\<rparr>)"
      by (rule good_extends [OF assms(1) extends_trans [OF 1(1) \<open>extends h1 h2\<close>]])
    moreover have "all_hold (ok cx) h2 found" by (rule extends_all_hold [OF \<open>extends h1 h2\<close> \<open>all_hold (ok cx) h1 found\<close>])
    ultimately show ?thesis unfolding 2 using \<open>all_hold (ok cx) h2 merged\<close> by (simp add: good_state_def Let_def)
  qed
qed (use assms(1) in \<open>simp add: good_state_def Let_def\<close>)

lemma good_semantic:
  assumes "good_state cx st" and "extends (sq_heap st) h" and "all_hold (ok cx) h sem \<and> keys_distinct h sem"
  shows "good_state cx (st\<lparr>sq_heap := h, sq_semantic := sem\<rparr>)"
  using good_extends [OF assms(1,2)] assms(3) by (simp add: good_state_def Let_def)

lemma late_good:
  assumes "index_consistent (sc_source cx)" and "good_state cx st"
  shows "good_state cx (late_stage cx embedder st)"
proof (cases "profile_flag (sh_retrieval_profile (sc_harness cx)) ''late_interaction_enabled''
    \<and> (\<exists>r. late_interaction cx embedder = Inr r)")
  case True
  then obtain found details where l: "late_interaction cx embedder = Inr (found, details)" by auto
  obtain as h1 where a: "alloc found (sq_heap st) = (as, h1)" by fastforce
  obtain bs h2 where d: "dedupe_ranked_results (sq_semantic st @ as) h1 = (bs, h2)" by fastforce
  have 1: "extends (sq_heap st) h1" "all_hold (ok cx) h1 as"
    using alloc_holds [OF a late_eligible [OF assms(1) l, unfolded all_eligible_def]] by auto
  have "all_hold (ok cx) h1 (sq_semantic st)"
    using extends_all_hold [OF 1(1)] assms(2) by (simp add: good_state_def Let_def)
  with dedupe_holds [OF d] 1(2) have 2: "extends h1 h2" "all_hold (ok cx) h2 bs" "keys_distinct h2 bs" by auto
  have "good_state cx (st\<lparr>sq_heap := h2, sq_semantic := sort_ranked_candidates_by_score semantic_score bs h2\<rparr>)"
    using good_semantic [OF assms(2) extends_trans [OF 1(1) 2(1)]] 2 by simp
  with True l a d show ?thesis by (simp add: late_stage_def good_state_def)
next
  case False
  with assms(2) show ?thesis by (auto simp: late_stage_def split: sum.split)
qed

lemma semantic_good:
  assumes "index_consistent (sc_source cx)" and "good_state cx st"
  shows "good_state cx (semantic_stage cx st)"
proof -
  have "good_state cx (late_stage cx embedder (st\<lparr>sq_embedding_status := s, sq_heap := h, sq_semantic := as\<rparr>))"
    if a: "load_semantic_candidates cx q n (sq_heap st) = Inr (as, h)" for embedder q n as h s
  proof -
    have "good_state cx (st\<lparr>sq_heap := h, sq_semantic := as\<rparr>)"
      using semantic_candidates_good [OF assms(1) a] good_semantic [OF assms(2)] by simp
    then have "good_state cx (st\<lparr>sq_embedding_status := s, sq_heap := h, sq_semantic := as\<rparr>)"
      by (simp add: good_state_def)
    then show ?thesis by (rule late_good [OF assms(1)])
  qed
  then show ?thesis
    using assms(2) by (auto simp: semantic_stage_def embedding_failed_def split: sum.split list.split)
qed

lemma adjacent_good:
  assumes "good_state cx st"
  shows "good_state cx (adjacent_stage cx st)"
proof -
  obtain seeds h1 where s: "dedupe_ranked_results (sq_keyword st @ sq_semantic st @ sq_metadata st) (sq_heap st) = (seeds, h1)"
    by fastforce
  let ?found = "expand_adjacent_chunk_context (sc_source cx) (sc_request cx) (sc_run cx) (objects h1 seeds)"
  obtain as h2 where a: "alloc ?found h1 = (as, h2)" by fastforce
  obtain bs h3 where d: "dedupe_ranked_results (sq_keyword st @ as) h2 = (bs, h3)" by fastforce
  have good: "all_hold (ok cx) (sq_heap st) (sq_keyword st @ sq_semantic st @ sq_metadata st)"
    using assms by (simp add: good_state_def Let_def)
  have 1: "extends (sq_heap st) h1" using dedupe_holds [OF s good] by simp
  have 2: "extends h1 h2" "all_hold (ok cx) h2 as" using alloc_holds [OF a adjacent_eligible] by auto
  have "all_hold (ok cx) h2 (sq_keyword st)"
    using good extends_all_hold [OF 2(1) extends_all_hold [OF 1]] by simp
  with dedupe_holds [OF d] 2(2) have 3: "extends h2 h3" "all_hold (ok cx) h3 bs" by auto
  have "good_state cx (st\<lparr>sq_heap := h3, sq_keyword := sort_ranked_candidates_by_score keyword_score bs h3\<rparr>)"
    using good_keyword [OF assms extends_trans [OF 1 extends_trans [OF 2(1) 3(1)]]] 3(2) by simp
  then show ?thesis
    using good_extends [OF assms 1] s a d by (simp add: adjacent_stage_def Let_def)
qed

lemma run_stages_good:
  "index_consistent (sc_source cx) \<Longrightarrow> good_state cx st \<Longrightarrow> run_stages cx ss st = Inr st' \<Longrightarrow> good_state cx st'"
proof (induction ss arbitrary: st)
  case (Cons s ss)
  from Cons.prems(3) obtain st1 where s: "run_stage cx s st = Inr st1" "run_stages cx ss st1 = Inr st'"
    by (auto split: sum.splits)
  have "good_state cx st1"
    using s(1) Cons.prems(1,2)
    by (cases s) (auto intro: strict_keyword_good relaxed_keyword_good metadata_good semantic_good adjacent_good)
  with Cons s(2) show ?case by blast
qed simp

lemma initial_good: "good_state cx initial_search"
  by (simp add: good_state_def initial_search_def keys_distinct_def)

lemma resolved_good:
  assumes "good_state cx st" and "resolve_candidate_items strategy mode st = (rv, h)"
  shows "all_hold (ok cx) h (rv_items rv) \<and> keys_distinct h (rv_items rv)"
proof -
  obtain fused h1 where f: "merge_hybrid_candidates (sq_keyword st) (sq_semantic st) (sq_heap st) = (fused, h1)" by fastforce
  obtain plain h2 where p: "dedupe_ranked_results (sq_keyword st) (sq_heap st) = (plain, h2)" by fastforce
  have g: "all_hold (ok cx) (sq_heap st) (sq_keyword st @ sq_semantic st)" "all_hold (ok cx) (sq_heap st) (sq_keyword st)"
    "all_hold (ok cx) (sq_heap st) (sq_semantic st)" "keys_distinct (sq_heap st) (sq_semantic st)"
    using assms(1) by (simp_all add: good_state_def Let_def)
  from assms(2) merge_holds [OF f g(1)] dedupe_holds [OF p g(2)] g(3,4) show ?thesis
    unfolding resolve_candidate_items_def f p Let_def prod.case by (auto split: if_splits)
qed

section \<open>From candidates to results\<close>

text \<open>What a result says of the row it was made from.\<close>

definition shows_chunk :: "search_result \<Rightarrow> document_chunk \<Rightarrow> document \<Rightarrow> bool" where
  "shows_chunk r c x \<longleftrightarrow> res_result_type r = ''chunk'' \<and> res_chunk_id r = Some (chunk_id c) \<and> res_table_id r = None
     \<and> res_document_id r = chunk_document_id c \<and> res_run_id r = chunk_run_id c
     \<and> res_chunk_text r = Some (chunk_text c) \<and> res_heading r = chunk_heading c
     \<and> res_page_from r = chunk_page_from c \<and> res_page_to r = chunk_page_to c
     \<and> res_source_filename r = doc_source_filename x"

definition shows_table :: "search_result \<Rightarrow> document_table \<Rightarrow> document \<Rightarrow> bool" where
  "shows_table r t x \<longleftrightarrow> res_result_type r = ''table'' \<and> res_table_id r = Some (table_id t) \<and> res_chunk_id r = None
     \<and> res_document_id r = table_document_id t \<and> res_run_id r = table_run_id t
     \<and> res_table_title r = table_title t \<and> res_table_heading r = table_heading t
     \<and> res_table_preview r = Some (table_preview_text t) \<and> res_row_count r = Some (table_row_count t)
     \<and> res_col_count r = Some (table_col_count t) \<and> res_page_from r = table_page_from t
     \<and> res_page_to r = table_page_to t \<and> res_source_filename r = doc_source_filename x"

definition result_found :: "search_source \<Rightarrow> uuid option \<Rightarrow> search_filters option \<Rightarrow> search_result \<Rightarrow> bool" where
  "result_found so run filters r \<longleftrightarrow> (\<exists>c x. chunk_found so run filters c x \<and> shows_chunk r c x)
     \<or> (\<exists>t x. table_found so run filters t x \<and> shows_table r t x)"

definition shown_key :: "search_result \<Rightarrow> string \<times> uuid option \<times> uuid option" where
  "shown_key r = (res_result_type r, res_chunk_id r, res_table_id r)"

lemma shown_ident:
  assumes "ident r = ident r'"
  shows "shows_chunk (to_search_result r s) c x = shows_chunk (to_search_result r' s) c x"
    "shows_table (to_search_result r s) t x = shows_table (to_search_result r' s) t x"
    "shown_key (to_search_result r s) = shown_key (to_search_result r' s)"
  using assms
  by (cases r; cases r'; simp add: ident_def shows_chunk_def shows_table_def shown_key_def to_search_result_def)+

lemma eligible_shown:
  assumes "eligible so run filters (ident r)"
  shows "result_found so run filters (to_search_result r s)"
    and "shown_key (to_search_result r s) = (rr_result_type r,
      if rr_result_type r = ''chunk'' then (Some (rr_result_id r), None) else (None, Some (rr_result_id r)))"
proof -
  have c: "shows_chunk (to_search_result (chunk_result c x) s) c x" for c x
    by (simp add: shows_chunk_def to_search_result_def chunk_result_def bare_result_def)
  have t: "shows_table (to_search_result (table_result t x) s) t x" for t x
    by (simp add: shows_table_def to_search_result_def table_result_def bare_result_def)
  show "result_found so run filters (to_search_result r s)"
    using assms c t shown_ident(1,2) [of r] unfolding eligible_def result_found_def by blast
  have "rr_result_type r \<in> {''chunk'', ''table''}"
    using assms by (cases r) (auto simp: eligible_def ident_def chunk_result_def table_result_def bare_result_def)
  then show "shown_key (to_search_result r s) = (rr_result_type r,
      if rr_result_type r = ''chunk'' then (Some (rr_result_id r), None) else (None, Some (rr_result_id r)))"
    by (auto simp: shown_key_def to_search_result_def)
qed

lemma finished_results:
  assumes "index_consistent (sc_source cx)" and "good_state cx st"
    and "finish_search sv cx cf strategy bf st = Inr ex"
  shows "length (se_results ex) \<le> sr_limit (sc_request cx) \<and> distinct (map shown_key (se_results ex))
    \<and> (\<forall>r \<in> set (se_results ex). result_found (sc_source cx) (sc_run cx) (sr_filters (sc_request cx)) r)"
proof -
  obtain rv h where rv: "resolve_candidate_items strategy (sr_mode (sc_request cx)) st = (rv, h)" by fastforce
  define items where "items = objects h (rv_items rv)"
  have g: "\<forall>r \<in> set items. ok cx (ident r)" "distinct (map result_key items)"
    using resolved_good [OF assms(2) rv] by (auto simp: items_def objects_def all_hold_def keys_distinct_def comp_def)
  obtain tabular where ex: "se_results ex = map (\<lambda>c. to_search_result (re_item c) (re_score c))
      (map (with_evidence (sc_source cx) (sc_request cx))
        (rerank_results items (sc_request cx) (rv_score rv) tabular (sc_intent cx) cf))"
    using assms(3) rv by (auto simp: finish_search_def prepare_results_def Let_def items_def split: sum.splits)
  define rs where "rs = rerank_results items (sc_request cx) (rv_score rv) tabular (sc_intent cx) cf"
  obtain dropped where d: "length rs = min (sr_limit (sc_request cx)) (length items)"
      "mset (map re_item (rs @ dropped)) = mset items"
    unfolding rs_def rerank_results_def by (rule rerank_split)
  have sub: "set (map re_item rs) \<subseteq> set items" using mset_eq_setD [OF d(2)] by auto
  have "mset (map result_key (map re_item (rs @ dropped))) = mset (map result_key items)"
    using d(2) by (metis mset_map)
  then have dist: "distinct (map (result_key \<circ> re_item) rs)"
    using mset_eq_imp_distinct_iff g(2) by fastforce
  have key: "shown_key (to_search_result (re_item (with_evidence so rq c)) s) = (rr_result_type (re_item c),
      if rr_result_type (re_item c) = ''chunk'' then (Some (rr_result_id (re_item c)), None)
      else (None, Some (rr_result_id (re_item c))))" if "c \<in> set rs" for so rq c s
  proof -
    have "ok cx (ident (re_item c))" using that g(1) sub by auto
    from eligible_shown(2) [OF this, of s] shown_ident(3) [of "ensure_evidence so rq (re_item c)" "re_item c"]
    show ?thesis by (simp add: with_evidence_def)
  qed
  have "inj_on (\<lambda>c. shown_key (to_search_result (re_item (with_evidence (sc_source cx) (sc_request cx) c)) (re_score c))) (set rs)
      \<and> distinct rs"
    using dist key by (auto simp: distinct_map inj_on_def result_key_def split: if_splits)
  then have "distinct (map shown_key (se_results ex))"
    unfolding ex rs_def [symmetric] by (simp add: comp_def distinct_map with_evidence_def)
  moreover have "result_found (sc_source cx) (sc_run cx) (sr_filters (sc_request cx)) r" if r: "r \<in> set (se_results ex)" for r
    using r g(1) sub unfolding ex rs_def [symmetric]
    by (auto simp: with_evidence_def intro!: eligible_shown(1))
  ultimately show ?thesis using d(1) by (simp add: ex rs_def)
qed

section \<open>A failed vector stage\<close>

definition in_keyword_mode :: "search_context \<Rightarrow> search_context" where
  "in_keyword_mode cx = cx\<lparr>sc_request := (sc_request cx)\<lparr>sr_mode := Keyword_Mode\<rparr>\<rparr>"

text \<open>What the failure leaves in the state.\<close>

definition fallen_back :: "string \<Rightarrow> string option \<Rightarrow> string option \<Rightarrow> search_state \<Rightarrow> search_state" where
  "fallen_back status error reason st =
     st\<lparr>sq_embedding_status := status, sq_embedding_error := error, sq_fallback_reason := reason\<rparr>"

definition vectors_fail :: "search_context \<Rightarrow> bool" where
  "vectors_fail cx \<longleftrightarrow> (case sc_provider cx of Inl e \<Rightarrow> True
     | Inr embedder \<Rightarrow> (\<exists>e. embedder [sr_query (sc_request cx)] = Inl e))"

lemma mode_select:
  "sr_query (rq\<lparr>sr_mode := m, sr_harness_name := n\<rparr>) = sr_query rq" "sr_filters (rq\<lparr>sr_mode := m, sr_harness_name := n\<rparr>) = sr_filters rq"
  "sr_limit (rq\<lparr>sr_mode := m, sr_harness_name := n\<rparr>) = sr_limit rq"
  by simp_all

lemma mode_unread_rows:
  "search_chunks so (rq\<lparr>sr_mode := m, sr_harness_name := n\<rparr>) = search_chunks so rq"
  "search_tables so (rq\<lparr>sr_mode := m, sr_harness_name := n\<rparr>) = search_tables so rq"
  "search_span_chunks so (rq\<lparr>sr_mode := m, sr_harness_name := n\<rparr>) = search_span_chunks so rq"
  "search_span_tables so (rq\<lparr>sr_mode := m, sr_harness_name := n\<rparr>) = search_span_tables so rq"
  "keyword_tsquery relaxed (rq\<lparr>sr_mode := m, sr_harness_name := n\<rparr>) = keyword_tsquery relaxed rq"
  "candidate_limit (rq\<lparr>sr_mode := m, sr_harness_name := n\<rparr>) h = candidate_limit rq h"
  "document_metadata_candidates so (rq\<lparr>sr_mode := m, sr_harness_name := n\<rparr>) = document_metadata_candidates so rq"
  "metadata_candidate (rq\<lparr>sr_mode := m, sr_harness_name := n\<rparr>) = metadata_candidate rq"
  "adjacent_rows so (rq\<lparr>sr_mode := m, sr_harness_name := n\<rparr>) = adjacent_rows so rq"
  "candidate_features cf (rq\<lparr>sr_mode := m, sr_harness_name := n\<rparr>) = candidate_features cf rq"
  "ensure_evidence so (rq\<lparr>sr_mode := m, sr_harness_name := n\<rparr>) = ensure_evidence so rq"
  "table_evidence_query (rq\<lparr>sr_mode := m, sr_harness_name := n\<rparr>) = table_evidence_query rq"
  by (unfold fun_eq_iff search_chunks_def limit_or_def search_tables_def limit_or_def search_span_chunks_def
    limit_or_def search_span_tables_def limit_or_def keyword_tsquery_def candidate_limit_def
    document_metadata_candidates_def metadata_candidate_def adjacent_rows_def
    candidate_features_def ensure_evidence_def load_source_evidence_spans_def
    table_evidence_query_def mode_select, (rule allI refl)+)

lemma mode_unread_parts:
  "metadata_chunk_rows so (rq\<lparr>sr_mode := m, sr_harness_name := n\<rparr>) = metadata_chunk_rows so rq"
  "expand_seed so (rq\<lparr>sr_mode := m, sr_harness_name := n\<rparr>) = expand_seed so rq"
  "with_evidence so (rq\<lparr>sr_mode := m, sr_harness_name := n\<rparr>) = with_evidence so rq"
  "rerank cf items (rq\<lparr>sr_mode := m, sr_harness_name := n\<rparr>) = rerank cf items rq"
  by (unfold fun_eq_iff metadata_chunk_rows_def expand_seed_def with_evidence_def rerank_def mode_unread_rows
    mode_select, (rule allI refl)+)

lemma mode_unread:
  "run_keyword_chunk_search relaxed so (rq\<lparr>sr_mode := m, sr_harness_name := n\<rparr>) = run_keyword_chunk_search relaxed so rq"
  "run_keyword_table_search relaxed so (rq\<lparr>sr_mode := m, sr_harness_name := n\<rparr>) = run_keyword_table_search relaxed so rq"
  "run_keyword_span_chunk_search relaxed so (rq\<lparr>sr_mode := m, sr_harness_name := n\<rparr>) = run_keyword_span_chunk_search relaxed so rq"
  "run_keyword_span_table_search relaxed so (rq\<lparr>sr_mode := m, sr_harness_name := n\<rparr>) = run_keyword_span_table_search relaxed so rq"
  "run_prose_metadata_chunk_search so (rq\<lparr>sr_mode := m, sr_harness_name := n\<rparr>) = run_prose_metadata_chunk_search so rq"
  "expand_adjacent_chunk_context so (rq\<lparr>sr_mode := m, sr_harness_name := n\<rparr>) = expand_adjacent_chunk_context so rq"
  "rerank_results items (rq\<lparr>sr_mode := m, sr_harness_name := n\<rparr>) = rerank_results items rq"
  by (unfold fun_eq_iff run_keyword_chunk_search_def run_keyword_table_search_def run_keyword_span_chunk_search_def
    run_keyword_span_table_search_def run_prose_metadata_chunk_search_def
    expand_adjacent_chunk_context_def rerank_results_def mode_unread_rows mode_unread_parts
    mode_select, (rule allI refl)+)

lemma keyword_mode_simps [simp]:
  "sc_source (in_keyword_mode cx) = sc_source cx" "sc_run (in_keyword_mode cx) = sc_run cx"
  "sc_harness (in_keyword_mode cx) = sc_harness cx" "sc_intent (in_keyword_mode cx) = sc_intent cx"
  "sc_request (in_keyword_mode cx) = (sc_request cx)\<lparr>sr_mode := Keyword_Mode,
     sr_harness_name := sr_harness_name (sc_request cx)\<rparr>"
  by (simp_all add: in_keyword_mode_def)

lemma keyword_mode_candidates [simp]:
  "load_keyword_candidates (in_keyword_mode cx) = load_keyword_candidates cx"
  by (unfold fun_eq_iff load_keyword_candidates_def keyword_mode_simps Let_def mode_unread, (rule allI refl)+)

lemma keyword_mode_stage:
  assumes "s \<noteq> Semantic"
  shows "run_stage (in_keyword_mode cx) s st = run_stage cx s st"
proof (cases s)
  case Metadata_Supplement
  show ?thesis
    unfolding Metadata_Supplement run_stage.simps metadata_stage_def keyword_mode_simps mode_unread mode_select Let_def
    by (rule refl)
next
  case Adjacent_Context
  show ?thesis
    unfolding Adjacent_Context run_stage.simps adjacent_stage_def keyword_mode_simps mode_unread by (rule refl)
qed (use assms in \<open>simp_all add: strict_keyword_stage_def relaxed_keyword_stage_def candidate_limit_def\<close>)

lemma fallen_back_simps [simp]:
  "sq_heap (fallen_back s e r st) = sq_heap st" "sq_keyword (fallen_back s e r st) = sq_keyword st"
  "sq_semantic (fallen_back s e r st) = sq_semantic st" "sq_metadata (fallen_back s e r st) = sq_metadata st"
  "sq_keyword_chunks (fallen_back s e r st) = sq_keyword_chunks st"
  "sq_keyword_tables (fallen_back s e r st) = sq_keyword_tables st"
  "sq_embedding_status (fallen_back s e r st) = s" "sq_embedding_error (fallen_back s e r st) = e"
  "sq_fallback_reason (fallen_back s e r st) = r"
  by (simp_all add: fallen_back_def)

lemma adjacent_fallen_back:
  "adjacent_stage cx (fallen_back s e r st) = fallen_back s e r (adjacent_stage cx st)"
  by (simp add: adjacent_stage_def Let_def split: prod.split) (simp add: fallen_back_def)

lemma semantic_fallen_back:
  assumes "vectors_fail cx"
  obtains s e r where "s \<noteq> ''completed''" "\<And>st. semantic_stage cx st = fallen_back s (Some e) (Some r) st"
proof (cases "sc_provider cx")
  case (Inl e)
  then have eq: "semantic_stage cx st = fallen_back ''provider_unavailable'' (Some (exn_message e))
      (Some ''embedding_provider_unavailable'') st" for st
    by (simp add: semantic_stage_def fallen_back_def)
  show ?thesis by (rule that [OF _ eq]) simp
next
  case (Inr embedder)
  with assms obtain e where "embedder [sr_query (sc_request cx)] = Inl e" by (auto simp: vectors_fail_def)
  with Inr have eq: "semantic_stage cx st = fallen_back ''embedding_failed'' (Some (exn_message e))
      (Some ''embedding_failed'') st" for st
    by (simp add: semantic_stage_def embedding_failed_def fallen_back_def)
  show ?thesis by (rule that [OF _ eq]) simp
qed

lemma keyword_mode_stages:
  "Semantic \<notin> set ss \<Longrightarrow> run_stages (in_keyword_mode cx) ss st = run_stages cx ss st"
  by (induction ss arbitrary: st) (auto simp: keyword_mode_stage split: sum.split)

lemma run_stages_append:
  "run_stages cx (ss @ ts) st = (case run_stages cx ss st of Inl e \<Rightarrow> Inl e | Inr st' \<Rightarrow> run_stages cx ts st')"
  by (induction ss arbitrary: st) (simp_all split: sum.split)

lemma fallen_back_stages:
  assumes "set ss \<subseteq> {Adjacent_Context}"
  shows "run_stages cx ss (fallen_back s e r st) = map_sum id (fallen_back s e r) (run_stages cx ss st)"
  using assms by (induction ss arbitrary: st) (auto simp: adjacent_fallen_back)

text \<open>
  The plan of the request and the plan of the same request in keyword mode lead to the same state up
  to what is recorded of the failure.
\<close>

lemma plans_agree:
  assumes "vectors_fail cx" and "sr_mode (sc_request cx) \<noteq> Keyword_Mode"
  obtains s e r where "s \<noteq> ''completed''"
    "run_stages cx (xp_stages (build_search_execution_plan (sr_mode (sc_request cx)) name intent)) initial_search
      = map_sum id (fallen_back s (Some e) (Some r))
          (run_stages (in_keyword_mode cx) (xp_stages (build_search_execution_plan Keyword_Mode name intent)) initial_search)"
proof -
  obtain s e r where f: "s \<noteq> ''completed''" "\<And>st. semantic_stage cx st = fallen_back s (Some e) (Some r) st"
    using semantic_fallen_back [OF assms(1)] by metis
  let ?prose = "intent \<in> {Prose_Lookup, Prose_Broad}"
  define before_semantic where "before_semantic = [Strict_Keyword, Relaxed_Keyword] @ (if ?prose then [Metadata_Supplement] else [])"
  define after_semantic where "after_semantic = (if name = ''prose_v3'' \<and> ?prose then [Adjacent_Context] else [])"
  have a: "set after_semantic \<subseteq> {Adjacent_Context}" "Semantic \<notin> set (before_semantic @ after_semantic)"
    by (auto simp: after_semantic_def before_semantic_def)
  have plans: "xp_stages (build_search_execution_plan (sr_mode (sc_request cx)) name intent)
      = before_semantic @ Semantic # after_semantic"
    "xp_stages (build_search_execution_plan Keyword_Mode name intent) = before_semantic @ after_semantic"
    using assms(2) by (simp_all add: build_search_execution_plan_def before_semantic_def after_semantic_def Let_def)
  have "run_stages cx (before_semantic @ Semantic # after_semantic) initial_search
      = map_sum id (fallen_back s (Some e) (Some r)) (run_stages cx (before_semantic @ after_semantic) initial_search)"
    using f(2) fallen_back_stages [OF a(1)] by (simp add: run_stages_append split: sum.split)
  then show ?thesis
    using that f(1) keyword_mode_stages [OF a(2)] unfolding plans by metis
qed

lemma resolved_without_vectors:
  assumes "sq_embedding_status st \<noteq> ''completed''" and "resolve_candidate_items strategy mode st = (rv, h)"
  shows "dedupe_ranked_results (sq_keyword st) (sq_heap st) = (rv_items rv, h) \<and> rv_score rv = keyword_score
    \<and> rv_served_mode rv = Keyword_Mode"
  using assms by (auto simp: resolve_candidate_items_def Let_def split: prod.splits)

lemma initial_uncompleted:
  assumes "Semantic \<notin> set ss" and "run_stages cx ss st = Inr st'"
  shows "sq_embedding_status st' = sq_embedding_status st"
  using assms
proof (induction ss arbitrary: st)
  case (Cons s ss)
  then obtain st1 where "run_stage cx s st = Inr st1" "run_stages cx ss st1 = Inr st'" by (auto split: sum.splits)
  with Cons show ?case
    by (cases s) (auto simp: strict_keyword_stage_def relaxed_keyword_stage_def metadata_stage_def adjacent_stage_def
        Let_def split: sum.splits if_splits prod.splits)
qed simp

lemma prepared_in_keyword_mode:
  assumes "s \<noteq> ''completed''" and "sq_embedding_status st \<noteq> ''completed''"
    and p: "prepare_results cx cf strategy bf (fallen_back s e (Some r) st) = (results, written)"
  shows "results = fst (prepare_results (in_keyword_mode cx) cf strategy' bf st)
    \<and> sl_embedding_status written = s \<and> sl_embedding_error written = e
    \<and> (''served_mode'', JStr ''keyword'') \<in> set (sl_details written)
    \<and> (''fallback_reason'', JStr r) \<in> set (sl_details written)"
proof -
  obtain rv h where rv: "resolve_candidate_items strategy (sr_mode (sc_request cx)) (fallen_back s e (Some r) st) = (rv, h)"
    by fastforce
  obtain rv' h' where rv': "resolve_candidate_items strategy' Keyword_Mode st = (rv', h')" by fastforce
  have 1: "rv_items rv' = rv_items rv" "h' = h" "rv_score rv' = rv_score rv" "rv_served_mode rv = Keyword_Mode"
    using resolved_without_vectors [OF _ rv] resolved_without_vectors [OF assms(2) rv'] assms(1) by auto
  have ev: "table_evidence_query rq (fallen_back s e (Some r) st) = table_evidence_query rq st" for rq
    by (simp add: table_evidence_query_def)
  have mode: "sr_mode ((sc_request cx)\<lparr>sr_mode := Keyword_Mode, sr_harness_name := sr_harness_name (sc_request cx)\<rparr>) = Keyword_Mode" by simp
  have "fst (prepare_results cx cf strategy bf (fallen_back s e (Some r) st))
      = fst (prepare_results (in_keyword_mode cx) cf strategy' bf st)"
    unfolding prepare_results_def keyword_mode_simps mode Let_def rv rv' prod.case fst_conv ev 1 mode_unread
      mode_unread_rows mode_unread_parts mode_select by (rule refl)
  moreover have "sl_embedding_status written = s \<and> sl_embedding_error written = e
    \<and> (''served_mode'', JStr ''keyword'') \<in> set (sl_details written)
    \<and> (''fallback_reason'', JStr r) \<in> set (sl_details written)"
    using p 1(4) by (auto simp: prepare_results_def rv Let_def build_search_execution_details_def)
  ultimately show ?thesis using p by simp
qed

lemma finished_by_log:
  assumes "prepare_results cx cf strategy bf st = (results, written)" and "\<forall>entry. \<exists>r. sv_persist sv entry = Inr r"
  obtains ex where "finish_search sv cx cf strategy bf st = Inr ex" "se_results ex = results" "se_log ex = written"
proof -
  obtain i operators where "sv_persist sv written = Inr (i, operators)" using assms(2) by fastforce
  then have "\<exists>ex. finish_search sv cx cf strategy bf st = Inr ex \<and> se_results ex = results \<and> se_log ex = written"
    by (simp add: finish_search_def assms(1))
  then show ?thesis using that by blast
qed

text \<open>The context and the plan of a request, and the search in their terms.\<close>

definition vectors_of :: "search_services \<Rightarrow> embedder option \<Rightarrow> exn + embedder" where
  "vectors_of sv provider = (case provider of Some p \<Rightarrow> Inr p | None \<Rightarrow> sv_provider sv)"

definition context_of ::
  "search_services \<Rightarrow> search_source \<Rightarrow> embedder option \<Rightarrow> uuid option \<Rightarrow> search_harness \<Rightarrow> search_request \<Rightarrow> search_context" where
  "context_of sv so provider run harness request = \<lparr>sc_source = so, sc_request = request, sc_run = run,
     sc_harness = harness, sc_intent = classify_query_intent (sr_query request),
     sc_provider = vectors_of sv provider, sc_sha = sv_sha sv\<rparr>"

definition plan_of :: "search_harness \<Rightarrow> search_request \<Rightarrow> execution_plan" where
  "plan_of harness request =
     build_search_execution_plan (sr_mode request) (sh_name harness) (classify_query_intent (sr_query request))"

lemma executes:
  assumes "get_search_harness cx (sr_harness_name request) overrides w = Inr harness"
    and "sv_backfill sv so = Inr (so1, bf)"
  shows "execute_search sv cx w so provider run reranker overrides request =
    (case run_stages (context_of sv so1 provider run harness request) (xp_stages (plan_of harness request)) initial_search of
       Inl e \<Rightarrow> Inl e
     | Inr st \<Rightarrow> finish_search sv (context_of sv so1 provider run harness request)
         (case reranker of Some c \<Rightarrow> c | None \<Rightarrow> build_reranker harness) (xp_strategy (plan_of harness request)) bf st)"
  using assms by (simp add: execute_search_def Let_def context_of_def plan_of_def vectors_of_def cong: sum.case_cong)

lemma executed_in_keyword_mode:
  assumes "case vectors_of sv provider of Inl e \<Rightarrow> True | Inr embedder \<Rightarrow> (\<exists>e. embedder [sr_query request] = Inl e)"
    and "sr_mode request \<noteq> Keyword_Mode" and "\<forall>entry. \<exists>r. sv_persist sv entry = Inr r"
  shows "map_sum id se_results (execute_search sv cx w so provider run reranker overrides request)
      = map_sum id se_results (execute_search sv cx w so provider run reranker overrides (request\<lparr>sr_mode := Keyword_Mode\<rparr>))
    \<and> (\<forall>ex. execute_search sv cx w so provider run reranker overrides request = Inr ex \<longrightarrow>
        sl_embedding_error (se_log ex) \<noteq> None
        \<and> (''served_mode'', JStr ''keyword'') \<in> set (sl_details (se_log ex))
        \<and> (\<exists>reason. (''fallback_reason'', JStr reason) \<in> set (sl_details (se_log ex))))"
proof (cases "(\<exists>harness. get_search_harness cx (sr_harness_name request) overrides w = Inr harness)
    \<and> (\<exists>r. sv_backfill sv so = Inr r)")
  case True
  let ?exec = "execute_search sv cx w so provider run reranker overrides" and ?kw = "request\<lparr>sr_mode := Keyword_Mode\<rparr>"
  from True obtain harness so1 bf where h: "get_search_harness cx (sr_harness_name request) overrides w = Inr harness"
    and b: "sv_backfill sv so = Inr (so1, bf)" by auto
  let ?sc = "context_of sv so1 provider run harness request" and ?cf = "case reranker of Some c \<Rightarrow> c | None \<Rightarrow> build_reranker harness"
  have kw: "context_of sv so1 provider run harness ?kw = in_keyword_mode ?sc" by (simp add: context_of_def in_keyword_mode_def)
  have e: "?exec request = (case run_stages ?sc (xp_stages (plan_of harness request)) initial_search of Inl e \<Rightarrow> Inl e
      | Inr st \<Rightarrow> finish_search sv ?sc ?cf (xp_strategy (plan_of harness request)) bf st)"
    "?exec ?kw = (case run_stages (in_keyword_mode ?sc) (xp_stages (plan_of harness ?kw)) initial_search of Inl e \<Rightarrow> Inl e
      | Inr st \<Rightarrow> finish_search sv (in_keyword_mode ?sc) ?cf (xp_strategy (plan_of harness ?kw)) bf st)"
    using executes [OF h b] executes [of cx ?kw, OF _ b] h unfolding kw [symmetric] by simp_all
  have "vectors_fail ?sc" "sr_mode (sc_request ?sc) \<noteq> Keyword_Mode"
    using assms(1,2) by (simp_all add: vectors_fail_def context_of_def cong: sum.case_cong)
  from plans_agree [OF this, of "sh_name harness" "classify_query_intent (sr_query request)"] obtain s e1 r
    where f: "s \<noteq> ''completed''" "run_stages ?sc (xp_stages (plan_of harness request)) initial_search
      = map_sum id (fallen_back s (Some e1) (Some r)) (run_stages (in_keyword_mode ?sc) (xp_stages (plan_of harness ?kw)) initial_search)"
    by (auto simp: plan_of_def context_of_def)
  show ?thesis
  proof (cases "run_stages (in_keyword_mode ?sc) (xp_stages (plan_of harness ?kw)) initial_search")
    case (Inr st)
    have "Semantic \<notin> set (xp_stages (plan_of harness ?kw))"
      by (simp add: plan_of_def build_search_execution_plan_def Let_def)
    from initial_uncompleted [OF this Inr] have st: "sq_embedding_status st \<noteq> ''completed''"
      by (simp add: initial_search_def)
    obtain results written results' written' where p: "prepare_results ?sc ?cf (xp_strategy (plan_of harness request)) bf
        (fallen_back s (Some e1) (Some r) st) = (results, written)"
      "prepare_results (in_keyword_mode ?sc) ?cf (xp_strategy (plan_of harness ?kw)) bf st = (results', written')"
      by fastforce
    obtain ex where ex: "?exec request = Inr ex" "se_results ex = results" "se_log ex = written"
      using finished_by_log [OF p(1) assms(3)] unfolding e(1) f(2) Inr by auto
    obtain ex' where ex': "?exec ?kw = Inr ex'" "se_results ex' = results'"
      using finished_by_log [OF p(2) assms(3)] unfolding e(2) Inr by auto
    show ?thesis
      unfolding ex(1) ex'(1)
      using prepared_in_keyword_mode [OF f(1) st p(1), of "xp_strategy (plan_of harness ?kw)"] ex(2,3) ex'(2) p(2) by auto
  qed (simp add: e f(2))
qed (auto simp: execute_search_def Let_def split: sum.splits)

section \<open>An example\<close>

text \<open>A small index: a document with its active run, a chunk of that run with its span, and a chunk of an older run.\<close>

definition example_chunk :: "uuid \<Rightarrow> uuid \<Rightarrow> string \<Rightarrow> document_chunk" where
  "example_chunk i run body = \<lparr>chunk_id = i, chunk_document_id = 1, chunk_run_id = run, chunk_chunk_index = 0,
     chunk_text = body, chunk_heading = None, chunk_page_from = Some 2, chunk_page_to = Some 2, chunk_metadata = [],
     chunk_embedding = Some [1], chunk_created_at = 0\<rparr>"

definition example_source :: search_source where
  "example_source = \<lparr>so_engine = \<lparr>te_chunk = (\<lambda>q c. Some 1), te_table = (\<lambda>q t. None), te_span = (\<lambda>q sp. Some (1/2)),
       te_document = (\<lambda>q x. None), te_similarity = (\<lambda>a b. 1)\<rparr>,
     so_db = empty_db\<lparr>db_documents := [\<lparr>doc_id = 1, doc_source_filename = ''a.pdf'', doc_source_path = [],
         doc_sha256 = ''s'', doc_mime_type = ''application/pdf'', doc_title = None, doc_page_count = None,
         doc_active_run_id = Some 3, doc_latest_run_id = Some 3, doc_created_at = 0, doc_updated_at = 0\<rparr>],
       db_chunks := [example_chunk 7 3 ''rent'', example_chunk 6 2 ''rent'']\<rparr>,
     so_spans = [\<lparr>rs_id = 9, rs_document_id = 1, rs_run_id = 3, rs_source_type = ''chunk'', rs_source_id = 7,
         rs_span_text = ''rent'', rs_content_sha256 = ''c'', rs_source_snapshot_sha256 = ''s'', rs_chunk_id = Some 7,
         rs_table_id = None, rs_span_index = 0, rs_page_from = Some 2, rs_page_to = Some 2, rs_embedding = None\<rparr>],
     so_vectors = []\<rparr>"

definition example_services :: search_services where
  "example_services = \<lparr>sv_provider = Inl (Py_Error ''RuntimeError'' False ''no key''),
     sv_backfill = (\<lambda>so. Inr (so, [])), sv_sha = (\<lambda>_. ''sha''), sv_persist = (\<lambda>_. Inr (None, []))\<rparr>"

definition example_request :: "search_mode \<Rightarrow> search_request" where
  "example_request mode = \<lparr>sr_query = ''rent'', sr_mode = mode, sr_filters = None, sr_limit = 5, sr_harness_name = None\<rparr>"

definition example_vectors :: embedder where
  "example_vectors texts = Inr (map (\<lambda>_. [1]) texts)"

lemma example_results:
  "map_sum (\<lambda>e. ()) (map res_chunk_id \<circ> se_results) (execute_search example_services example_codecs bare_world
     example_source (Some example_vectors) None None [] (example_request Hybrid_Mode)) = Inr [Some 7]"
  by code_simp

section \<open>Properties\<close>

text \<open>
  What a search returns. Whatever the mode, the harness and the stages that ran, and whether the
  vector stage worked or not, a search that answers returns at most as many results as asked for, no
  chunk or table twice, and every result is a stored chunk or table of the searched runs (the active
  ones, or the run given) that passes the filters of the request and is shown with its own document,
  run, pages and text. The spans of the index belong to their chunks and tables
  (\<open>index_consistent\<close>), as the builder of spans makes them.
\<close>

theorem search_results_eligible:
  assumes "sv_backfill sv so = Inr (so1, bf)" and "index_consistent so1"
    and "execute_search sv cx w so provider run reranker overrides request = Inr ex"
  shows "length (se_results ex) \<le> sr_limit request \<and> distinct (map shown_key (se_results ex))
    \<and> (\<forall>r \<in> set (se_results ex). result_found so1 run (sr_filters request) r)"
proof -
  obtain harness where h: "get_search_harness cx (sr_harness_name request) overrides w = Inr harness"
    using assms(3) by (auto simp: execute_search_def split: sum.splits)
  let ?sc = "context_of sv so1 provider run harness request"
  obtain ss st cf strategy where r: "run_stages ?sc ss initial_search = Inr st"
      "finish_search sv ?sc cf strategy bf st = Inr ex"
    using assms(3) unfolding executes [OF h assms(1)] by (auto split: sum.splits)
  show ?thesis
    using finished_results [OF _ run_stages_good [OF _ initial_good r(1)] r(2)] assms(2) by (simp add: context_of_def)
qed

theorem search_results_eligible_witness:
  "\<exists>ex. execute_search example_services example_codecs bare_world example_source (Some example_vectors) None None []
      (example_request Hybrid_Mode) = Inr ex \<and> map res_chunk_id (se_results ex) = [Some 7]
    \<and> length (se_results ex) \<le> 5 \<and> list_all (result_found example_source None None) (se_results ex)"
proof -
  obtain ex where ex: "execute_search example_services example_codecs bare_world example_source (Some example_vectors)
      None None [] (example_request Hybrid_Mode) = Inr ex" "map res_chunk_id (se_results ex) = [Some 7]"
    using example_results
    by (cases "execute_search example_services example_codecs bare_world example_source (Some example_vectors)
      None None [] (example_request Hybrid_Mode)") auto
  have backfill: "sv_backfill example_services example_source = Inr (example_source, [])"
    by (simp add: example_services_def)
  have "index_consistent example_source"
    by (simp add: index_consistent_def span_agrees_def example_source_def empty_db_def example_chunk_def)
  from search_results_eligible [OF backfill this ex(1)] ex show ?thesis
    by (auto simp: example_request_def list_all_iff)
qed

text \<open>
  C24: vectors are optional. When no embedding provider can be had, or the provider fails on the query,
  a vector or hybrid search returns exactly the results of the same request in keyword mode (and fails
  only where that one fails), and the log says so: it has the error, the mode that was served and the
  reason of the fallback. The log of searches is taken to accept every entry.
\<close>

theorem failed_embedding_searches_keywords:
  assumes "case vectors_of sv provider of Inl e \<Rightarrow> True | Inr embedder \<Rightarrow> (\<exists>e. embedder [sr_query request] = Inl e)"
    and "sr_mode request \<noteq> Keyword_Mode" and "\<forall>entry. \<exists>r. sv_persist sv entry = Inr r"
  shows "search_documents sv cx w so provider run reranker request
      = search_documents sv cx w so provider run reranker (request\<lparr>sr_mode := Keyword_Mode\<rparr>)
    \<and> (\<forall>ex. execute_search sv cx w so provider run reranker overrides request = Inr ex \<longrightarrow>
        sl_embedding_error (se_log ex) \<noteq> None
        \<and> (''served_mode'', JStr ''keyword'') \<in> set (sl_details (se_log ex))
        \<and> (\<exists>reason. (''fallback_reason'', JStr reason) \<in> set (sl_details (se_log ex))))"
  using executed_in_keyword_mode [OF assms] executed_in_keyword_mode [OF assms, where overrides = "[]"]
  by (auto simp: search_documents_def)

theorem failed_embedding_searches_keywords_witness:
  "search_documents example_services example_codecs bare_world example_source None None None (example_request Semantic_Mode)
    = search_documents example_services example_codecs bare_world example_source None None None (example_request Keyword_Mode)"
  using failed_embedding_searches_keywords [where sv = example_services and provider = None
      and request = "example_request Semantic_Mode"]
  by (simp add: vectors_of_def example_services_def example_request_def)

end
