(* ===== verification/Span_Index.thy ===== *)
theory Span_Index
  imports Search_Guarantees
begin

text \<open>
  \<open>app/services/retrieval_spans.py\<close>: the rows of the span index. The spans of a run are rebuilt from its
  chunks and tables, their vectors from the spans; before a search, runs without spans get them. The
  specifications of spans and vectors are those of \<open>Span_Windows\<close>.

  The lemmas show that the index stays consistent with the chunks and tables, which is what a search
  relies on, and that after the backfill no searched run with content is without its spans. The audit
  rows of operator runs are left out but for their identifier; the hash is an argument.
\<close>

section \<open>The index\<close>

text \<open>\<open>xi_fresh\<close> is the next identifier of a new row.\<close>

record span_index =
  xi_source :: search_source
  xi_fresh :: uuid

record vector_provider =
  vp_embed :: embedder
  vp_model :: string

record index_hooks =
  ih_sha :: "json \<Rightarrow> string"
  ih_operator_run :: "uuid option"

definition VECTOR_DIMENSION :: nat where "VECTOR_DIMENSION = 1536"

definition embedding_sha256 :: "index_hooks \<Rightarrow> embedding \<Rightarrow> string" where
  "embedding_sha256 hk e = ih_sha hk (JObj [
     (''schema_name'', JStr ''retrieval_evidence_span_multivector_embedding''),
     (''schema_version'', JStr ''1.0''), (''embedding'', JArr (map JReal e))])"

definition run_span_specs :: "index_hooks \<Rightarrow> uuid \<Rightarrow> db \<Rightarrow> source_span_spec list" where
  "run_span_specs hk run d =
     concat (map (build_chunk_span_specs (ih_sha hk))
       (sort_key chunk_chunk_index (filter (\<lambda>c. chunk_run_id c = run) (db_chunks d))))
     @ concat (map (build_table_span_specs (ih_sha hk))
       (sort_key table_table_index (filter (\<lambda>t. table_run_id t = run) (db_tables d))))"

definition json_opt_uuid :: "uuid option \<Rightarrow> json" where
  "json_opt_uuid i = (case i of None \<Rightarrow> JNull | Some i \<Rightarrow> json_uuid i)"

section \<open>Vectors of spans\<close>

definition multivector_summary :: "document_run \<Rightarrow> nat \<Rightarrow> nat \<Rightarrow> string \<Rightarrow> string option \<Rightarrow> dict" where
  "multivector_summary run vectors spans status error =
     [(''schema_name'', JStr ''retrieval_evidence_span_multivector_rebuild_summary''),
      (''schema_version'', JStr ''1.0''), (''run_id'', json_uuid (run_id run)),
      (''document_id'', json_uuid (run_document_id run)),
      (''multivector_count'', json_count vectors), (''source_span_count'', json_count spans),
      (''embedding_status'', JStr status), (''embedding_error'', json_opt_str error)]"

text \<open>The check of what the provider returned; the messages are shortened.\<close>

definition checked_vectors :: "embedder \<Rightarrow> string list \<Rightarrow> exn + embedding list" where
  "checked_vectors embedder texts =
     (case embedder texts of
        Inl e \<Rightarrow> Inl e
      | Inr es \<Rightarrow>
          if length es \<noteq> length texts then Inl (Py_Error ''ValueError'' True ''wrong number of vectors'')
          else if \<exists>e \<in> set es. length e \<noteq> VECTOR_DIMENSION
          then Inl (Py_Error ''ValueError'' True ''invalid multivector dimensions'')
          else Inr es)"

definition vector_row :: "index_hooks \<Rightarrow> string \<Rightarrow> uuid \<Rightarrow> span_multivector_spec \<Rightarrow> embedding \<Rightarrow> span_vector" where
  "vector_row hk model i sp e = \<lparr>vr_id = i, vr_span_id = sv_retrieval_evidence_span_id sp,
     vr_document_id = sv_document_id sp, vr_run_id = sv_run_id sp, vr_vector_index = int (sv_vector_index sp),
     vr_token_start = int (sv_token_start sp), vr_token_end = int (sv_token_end sp),
     vr_vector_text = sv_vector_text sp, vr_content_sha256 = sv_content_sha256 sp,
     vr_embedding_model = model, vr_embedding_sha256 = embedding_sha256 hk e, vr_embedding = e\<rparr>"

definition run_spans :: "uuid \<Rightarrow> search_source \<Rightarrow> retrieval_evidence_span list" where
  "run_spans run so = sort_key (\<lambda>sp. (rs_source_type sp, rs_source_id sp, rs_span_index sp))
     (filter (\<lambda>sp. rs_run_id sp = run) (so_spans so))"

definition vector_rows ::
  "index_hooks \<Rightarrow> string \<Rightarrow> uuid \<Rightarrow> span_multivector_spec list \<Rightarrow> embedding list \<Rightarrow> span_vector list" where
  "vector_rows hk model fresh specs es =
     map (\<lambda>(i, sp, e). vector_row hk model i sp e) (enumerate fresh (zip specs es))"

definition delete_vectors :: "uuid \<Rightarrow> search_source \<Rightarrow> search_source" where
  "delete_vectors run so = so\<lparr>so_vectors := filter (\<lambda>v. vr_run_id v \<noteq> run) (so_vectors so)\<rparr>"

definition rebuild_multivectors ::
  "index_hooks \<Rightarrow> vector_provider option \<Rightarrow> document_run \<Rightarrow> span_index \<Rightarrow> dict \<times> span_index" where
  "rebuild_multivectors hk provider run xi =
     (case provider of
        None \<Rightarrow> (multivector_summary run 0 0 ''skipped_no_embedding_provider'' None, xi)
      | Some p \<Rightarrow>
          (let so = xi_source xi;
               spans = run_spans (run_id run) so;
               specs = concat (map (build_span_multivector_specs (ih_sha hk)) spans);
               n = length spans in
           if specs = [] then
             (multivector_summary run 0 n ''skipped_no_spans'' None, xi\<lparr>xi_source := delete_vectors (run_id run) so\<rparr>)
           else
             (case checked_vectors (vp_embed p) (map sv_vector_text specs) of
                Inl e \<Rightarrow>
                  (multivector_summary run 0 n ''embedding_failed'' (Some (exn_message e))
                     @ [(''generation_operator_run_id'', json_opt_uuid (ih_operator_run hk))], xi)
              | Inr es \<Rightarrow>
                  (let rows = vector_rows hk (vp_model p) (xi_fresh xi) specs es;
                       so1 = delete_vectors (run_id run) so in
                   (multivector_summary run (length specs) n ''completed'' None
                      @ [(''embedding_model'', JStr (vp_model p)),
                         (''generation_operator_run_id'', json_opt_uuid (ih_operator_run hk))],
                    \<lparr>xi_source = so1\<lparr>so_vectors := so_vectors so1 @ rows\<rparr>,
                     xi_fresh = xi_fresh xi + length rows\<rparr>)))))"

section \<open>Spans of a run\<close>

text \<open>Deleting spans deletes their vectors (\<open>ON DELETE CASCADE\<close>).\<close>

definition delete_spans :: "uuid \<Rightarrow> search_source \<Rightarrow> search_source" where
  "delete_spans run so =
     (let gone = rs_id ` set (filter (\<lambda>sp. rs_run_id sp = run) (so_spans so)) in
      so\<lparr>so_spans := filter (\<lambda>sp. rs_run_id sp \<noteq> run) (so_spans so),
         so_vectors := filter (\<lambda>v. vr_span_id v \<notin> gone) (so_vectors so)\<rparr>)"

definition span_row :: "document_run \<Rightarrow> uuid \<Rightarrow> source_span_spec \<Rightarrow> embedding option \<Rightarrow> retrieval_evidence_span" where
  "span_row run i sp e = \<lparr>rs_id = i, rs_document_id = run_document_id run, rs_run_id = run_id run,
     rs_source_type = ss_source_type sp, rs_source_id = ss_source_id sp, rs_span_text = ss_span_text sp,
     rs_content_sha256 = ss_content_sha256 sp, rs_source_snapshot_sha256 = ss_source_snapshot_sha256 sp,
     rs_chunk_id = ss_chunk_id sp, rs_table_id = ss_table_id sp, rs_span_index = int (ss_span_index sp),
     rs_page_from = ss_page_from sp, rs_page_to = ss_page_to sp, rs_embedding = e\<rparr>"

definition span_rows ::
  "document_run \<Rightarrow> uuid \<Rightarrow> source_span_spec list \<Rightarrow> embedding option list \<Rightarrow> retrieval_evidence_span list" where
  "span_rows run fresh specs es = map (\<lambda>(i, sp, e). span_row run i sp e) (enumerate fresh (zip specs es))"

text \<open>\<open>zip\<close> with \<open>strict=True\<close>, and a column of vectors of one dimension.\<close>

definition zip_mismatch :: exn where
  "zip_mismatch = Py_Error ''ValueError'' True ''zip() arguments differ in length''"

definition bad_dimension :: exn where
  "bad_dimension = Py_Error ''DataError'' False ''expected 1536 dimensions''"

definition span_embeddings ::
  "vector_provider option \<Rightarrow> source_span_spec list \<Rightarrow> embedding option list \<times> string \<times> string option" where
  "span_embeddings provider specs =
     (let none = replicate (length specs) None in
      case provider of
        None \<Rightarrow> (none, ''skipped'', None)
      | Some p \<Rightarrow>
          if specs = [] then (none, ''skipped'', None)
          else (case vp_embed p (map ss_span_text specs) of
                  Inl e \<Rightarrow> (none, ''embedding_failed'', Some (exn_message e))
                | Inr es \<Rightarrow> (map Some es, ''completed'', None)))"

definition span_summary :: "document_run \<Rightarrow> source_span_spec list \<Rightarrow> string \<Rightarrow> string option \<Rightarrow> dict \<Rightarrow> dict" where
  "span_summary run specs status error vectors =
     [(''schema_name'', JStr ''retrieval_evidence_span_rebuild_summary''), (''schema_version'', JStr ''1.0''),
      (''run_id'', json_uuid (run_id run)), (''document_id'', json_uuid (run_document_id run)),
      (''span_count'', json_count (length specs)),
      (''chunk_span_count'', json_count (length (filter (\<lambda>sp. ss_source_type sp = ''chunk'') specs))),
      (''table_span_count'', json_count (length (filter (\<lambda>sp. ss_source_type sp = ''table'') specs))),
      (''embedding_status'', JStr status), (''embedding_error'', json_opt_str error),
      (''multivector_summary'', JObj vectors)]"

definition rebuild_spans ::
  "index_hooks \<Rightarrow> vector_provider option \<Rightarrow> document_run \<Rightarrow> span_index \<Rightarrow> exn + dict \<times> span_index" where
  "rebuild_spans hk provider run xi =
     (let so = xi_source xi;
          specs = run_span_specs hk (run_id run) (so_db so);
          so1 = delete_spans (run_id run) so;
          (es, status, error) = span_embeddings provider specs in
      if length es \<noteq> length specs then Inl zip_mismatch
      else if \<exists>e \<in> set es. e \<noteq> None \<and> length (the e) \<noteq> VECTOR_DIMENSION then Inl bad_dimension
      else
        (let rows = span_rows run (xi_fresh xi) specs es;
             (vectors, xi') = rebuild_multivectors hk (if status = ''completed'' then provider else None) run
               \<lparr>xi_source = so1\<lparr>so_spans := so_spans so1 @ rows\<rparr>, xi_fresh = xi_fresh xi + length rows\<rparr> in
         Inr (span_summary run specs status error vectors, xi')))"

section \<open>Before a search\<close>

definition backfill_runs :: "uuid option \<Rightarrow> uuid option \<Rightarrow> db \<Rightarrow> document_run list" where
  "backfill_runs run document d =
     (case run of
        Some r \<Rightarrow> List.map_filter id [find_row run_id r (db_runs d)]
      | None \<Rightarrow>
          (case document of
             Some i \<Rightarrow>
               (case find_row doc_id i (db_documents d) of
                  None \<Rightarrow> []
                | Some x \<Rightarrow>
                    (case doc_active_run_id x of
                       None \<Rightarrow> []
                     | Some r \<Rightarrow> List.map_filter id [find_row run_id r (db_runs d)]))
           | None \<Rightarrow> sort_key (\<lambda>r. (run_created_at r, run_id r))
               [r. r \<leftarrow> db_runs d, x \<leftarrow> db_documents d, doc_active_run_id x = Some (run_id r)]))"

definition count_or_zero :: "int option \<Rightarrow> int" where
  "count_or_zero n = (case n of None \<Rightarrow> 0 | Some i \<Rightarrow> i)"

definition needs_spans :: "search_source \<Rightarrow> document_run \<Rightarrow> bool" where
  "needs_spans so run \<longleftrightarrow> count_or_zero (run_chunk_count run) + count_or_zero (run_table_count run) > 0
     \<and> \<not> (\<exists>sp \<in> set (so_spans so). rs_run_id sp = run_id run)"

fun backfill_each ::
  "index_hooks \<Rightarrow> document_run list \<Rightarrow> dict list \<Rightarrow> span_index \<Rightarrow> exn + dict list \<times> span_index" where
  "backfill_each hk [] rebuilt xi = Inr (rebuilt, xi)"
| "backfill_each hk (run # runs) rebuilt xi =
     (if \<not> needs_spans (xi_source xi) run then backfill_each hk runs rebuilt xi
      else
        (case rebuild_spans hk None run xi of
           Inl e \<Rightarrow> Inl e
         | Inr (summary, xi') \<Rightarrow> backfill_each hk runs (rebuilt @ [summary]) xi'))"

definition ensure_spans_for_search ::
  "index_hooks \<Rightarrow> uuid option \<Rightarrow> uuid option \<Rightarrow> span_index \<Rightarrow> exn + dict \<times> span_index" where
  "ensure_spans_for_search hk run document xi =
     (let runs = backfill_runs run document (so_db (xi_source xi)) in
      case backfill_each hk runs [] xi of
        Inl e \<Rightarrow> Inl e
      | Inr (rebuilt, xi') \<Rightarrow>
          Inr ([(''schema_name'', JStr ''retrieval_evidence_span_backfill_summary''), (''schema_version'', JStr ''1.0''),
                (''checked_run_count'', json_count (length runs)),
                (''rebuilt_run_count'', json_count (length rebuilt)),
                (''rebuilt_runs'', JArr (map JObj rebuilt))], xi'))"

section \<open>Consistency of the index\<close>

text \<open>Rows have identifiers of their own; chunks and tables belong to the document of their run.\<close>

definition content_consistent :: "db \<Rightarrow> bool" where
  "content_consistent d \<longleftrightarrow> distinct (map run_id (db_runs d)) \<and> distinct (map chunk_id (db_chunks d)) \<and> distinct (map table_id (db_tables d))
     \<and> (\<forall>r \<in> set (db_runs d). (\<forall>c \<in> set (db_chunks d). chunk_run_id c = run_id r \<longrightarrow> chunk_document_id c = run_document_id r)
          \<and> (\<forall>t \<in> set (db_tables d). table_run_id t = run_id r \<longrightarrow> table_document_id t = run_document_id r))"

definition vectors_consistent :: "search_source \<Rightarrow> bool" where
  "vectors_consistent so \<longleftrightarrow> (\<forall>v \<in> set (so_vectors so). \<exists>sp \<in> set (so_spans so). rs_id sp = vr_span_id v
     \<and> rs_document_id sp = vr_document_id v \<and> rs_run_id sp = vr_run_id v)"

definition index_wf :: "span_index \<Rightarrow> bool" where
  "index_wf xi \<longleftrightarrow> index_consistent (xi_source xi) \<and> vectors_consistent (xi_source xi)
     \<and> (\<forall>sp \<in> set (so_spans (xi_source xi)). rs_id sp < xi_fresh xi)"

lemma map_enumerate_fst: "map (\<lambda>(i, x). f i) (enumerate n xs) = map f [n..<n + length xs]"
  by (induction xs arbitrary: n) (simp_all add: upt_conv_Cons del: upt_Suc)

lemma spec_of_run:
  assumes "sp \<in> set (run_span_specs hk run d)"
  shows "(\<exists>c \<in> set (db_chunks d). chunk_run_id c = run \<and> sp \<in> set (build_chunk_span_specs (ih_sha hk) c))
    \<or> (\<exists>t \<in> set (db_tables d). table_run_id t = run \<and> sp \<in> set (build_table_span_specs (ih_sha hk) t))"
  using assms by (auto simp: run_span_specs_def)

lemma chunk_spec:
  "sp \<in> set (build_chunk_span_specs sha c) \<Longrightarrow> ss_chunk_id sp = Some (chunk_id c) \<and> ss_table_id sp = None
    \<and> ss_page_from sp = chunk_page_from c \<and> ss_page_to sp = chunk_page_to c \<and> ss_source_type sp = ''chunk''
    \<and> ss_source_id sp = chunk_id c"
  by (auto simp: build_chunk_span_specs_def chunk_span_spec_def Let_def)

lemma table_spec:
  "sp \<in> set (build_table_span_specs sha t) \<Longrightarrow> ss_table_id sp = Some (table_id t) \<and> ss_chunk_id sp = None
    \<and> ss_page_from sp = table_page_from t \<and> ss_page_to sp = table_page_to t \<and> ss_source_type sp = ''table''
    \<and> ss_source_id sp = table_id t"
  by (auto simp: build_table_span_specs_def Let_def)

lemma span_row_agrees:
  assumes "content_consistent (so_db so)" and "run \<in> set (db_runs (so_db so))"
    and "sp \<in> set (run_span_specs hk (run_id run) (so_db so))"
  shows "span_agrees so (span_row run i sp e)"
  using spec_of_run [OF assms(3)]
proof (elim disjE bexE conjE)
  fix c assume c: "c \<in> set (db_chunks (so_db so))" "chunk_run_id c = run_id run"
    "sp \<in> set (build_chunk_span_specs (ih_sha hk) c)"
  have "c' = c" if "c' \<in> set (db_chunks (so_db so))" "chunk_id c' = chunk_id c" for c'
    using that c(1) assms(1) by (auto simp: content_consistent_def distinct_map dest: inj_onD)
  moreover have "chunk_document_id c = run_document_id run"
    using assms(1,2) c(1,2) by (simp add: content_consistent_def)
  ultimately show ?thesis
    using chunk_spec [OF c(3)] c(2) by (force simp: span_agrees_def span_row_def)
next
  fix t assume t: "t \<in> set (db_tables (so_db so))" "table_run_id t = run_id run"
    "sp \<in> set (build_table_span_specs (ih_sha hk) t)"
  have "t' = t" if "t' \<in> set (db_tables (so_db so))" "table_id t' = table_id t" for t'
    using that t(1) assms(1) by (auto simp: content_consistent_def distinct_map dest: inj_onD)
  moreover have "table_document_id t = run_document_id run"
    using assms(1,2) t(1,2) by (simp add: content_consistent_def)
  ultimately show ?thesis
    using table_spec [OF t(3)] t(2) by (force simp: span_agrees_def span_row_def)
qed

lemma rebuild_multivectors_frame:
  "rebuild_multivectors hk p run xi = (summary, xi') \<Longrightarrow>
   so_spans (xi_source xi') = so_spans (xi_source xi) \<and> so_db (xi_source xi') = so_db (xi_source xi)
     \<and> so_engine (xi_source xi') = so_engine (xi_source xi) \<and> xi_fresh xi \<le> xi_fresh xi'"
  by (auto simp: rebuild_multivectors_def Let_def delete_vectors_def split: option.splits if_splits sum.splits)

lemma vector_spec:
  "v \<in> set (build_span_multivector_specs sha sp) \<Longrightarrow> sv_retrieval_evidence_span_id v = rs_id sp
    \<and> sv_document_id v = rs_document_id sp \<and> sv_run_id v = rs_run_id sp"
  by (auto simp: build_span_multivector_specs_def)

lemma enumerated: "(j, x) \<in> set (enumerate n xs) \<Longrightarrow> x \<in> set xs"
  using set_enumerate_snd [of n xs] by force

lemma vector_row_agrees:
  assumes "v \<in> set (vector_rows hk m i (concat (map (build_span_multivector_specs sha) (run_spans run so))) es)"
  shows "\<exists>sp \<in> set (so_spans so). rs_id sp = vr_span_id v \<and> rs_document_id sp = vr_document_id v \<and> rs_run_id sp = vr_run_id v"
proof -
  from assms obtain j spec e where "(spec, e) \<in> set (zip (concat (map (build_span_multivector_specs sha) (run_spans run so))) es)"
      "v = vector_row hk m j spec e"
    unfolding vector_rows_def by (auto dest!: enumerated)
  then obtain sp where "sp \<in> set (so_spans so)" "spec \<in> set (build_span_multivector_specs sha sp)"
    by (auto simp: run_spans_def dest!: set_zip_leftD)
  with vector_spec [OF this(2)] \<open>v = _\<close> show ?thesis by (intro bexI [of _ sp]) (simp_all add: vector_row_def)
qed

lemma vectors_consistent_del: "vectors_consistent so \<Longrightarrow> vectors_consistent (delete_vectors r so)"
  by (auto simp: vectors_consistent_def delete_vectors_def)

lemma vectors_consistent_add:
  assumes "vectors_consistent so"
    and "\<forall>v \<in> set vs. \<exists>sp \<in> set (so_spans so). rs_id sp = vr_span_id v \<and> rs_document_id sp = vr_document_id v
        \<and> rs_run_id sp = vr_run_id v"
  shows "vectors_consistent (so\<lparr>so_vectors := so_vectors so @ vs\<rparr>)"
  using assms by (auto simp: vectors_consistent_def)

lemma rebuild_multivectors_consistent:
  assumes "rebuild_multivectors hk p run xi = (summary, xi')" and "vectors_consistent (xi_source xi)"
  shows "vectors_consistent (xi_source xi')"
proof -
  note del = vectors_consistent_del [OF assms(2), of "run_id run"]
  have "vectors_consistent (delete_vectors (run_id run) (xi_source xi)\<lparr>so_vectors :=
      so_vectors (delete_vectors (run_id run) (xi_source xi)) @
      vector_rows hk m i (concat (map (build_span_multivector_specs (ih_sha hk)) (run_spans (run_id run) (xi_source xi)))) es\<rparr>)"
    for m i es
    by (rule vectors_consistent_add [OF del]) (use vector_row_agrees in \<open>simp add: delete_vectors_def\<close>)
  then show ?thesis
    using assms del by (auto simp: rebuild_multivectors_def Let_def split: option.splits if_splits sum.splits)
qed

lemma length_span_rows [simp]: "length (span_rows run n specs es) = min (length specs) (length es)"
  by (simp add: span_rows_def)

lemma rebuild_spans_result:
  assumes "rebuild_spans hk provider run xi = Inr (summary, xi')"
  obtains es where "length es = length (run_span_specs hk (run_id run) (so_db (xi_source xi)))"
    "so_spans (xi_source xi') = filter (\<lambda>sp. rs_run_id sp \<noteq> run_id run) (so_spans (xi_source xi))
      @ span_rows run (xi_fresh xi) (run_span_specs hk (run_id run) (so_db (xi_source xi))) es"
    "so_db (xi_source xi') = so_db (xi_source xi)" "so_engine (xi_source xi') = so_engine (xi_source xi)"
    "xi_fresh xi + length es \<le> xi_fresh xi'"
  using assms
  by (auto simp: rebuild_spans_def Let_def delete_spans_def split: prod.splits if_splits
      dest!: rebuild_multivectors_frame)

lemma span_row_ids:
  "length es = length specs \<Longrightarrow> map rs_id (span_rows run n specs es) = [n..<n + length specs]"
  using map_fst_enumerate [of n "zip specs es"] by (simp add: span_rows_def comp_def case_prod_unfold span_row_def)

lemma span_row_of:
  "sp \<in> set (span_rows run n specs es) \<Longrightarrow> \<exists>i spec e. spec \<in> set specs \<and> sp = span_row run i spec e"
  by (auto simp: span_rows_def dest!: enumerated set_zip_leftD)

lemma fresh_ids:
  assumes "\<forall>sp \<in> set old. rs_id sp < n" and "distinct (map rs_id old)" and "length es = length specs"
  shows "distinct (map rs_id (filter P old @ span_rows run n specs es))"
    and "\<forall>sp \<in> set (filter P old @ span_rows run n specs es). rs_id sp < n + length specs"
proof -
  have new: "rs_id ` set (span_rows run n specs es) = {n..<n + length specs}"
    using span_row_ids [OF assms(3)] by (metis list.set_map set_upt)
  then show "\<forall>sp \<in> set (filter P old @ span_rows run n specs es). rs_id sp < n + length specs"
    using assms(1) by (auto dest: set_mp [OF equalityD1 [OF new], OF imageI])
  have "distinct (map rs_id (filter P old))" using assms(2) by (auto simp: distinct_map intro: inj_on_subset)
  moreover have "rs_id ` set (filter P old) \<inter> {n..<n + length specs} = {}" using assms(1) by fastforce
  ultimately show "distinct (map rs_id (filter P old @ span_rows run n specs es))"
    using span_row_ids [OF assms(3), of run n] new by simp
qed

lemma delete_spans_vectors:
  assumes "vectors_consistent so"
  shows "vectors_consistent (delete_spans run so)"
  unfolding vectors_consistent_def
proof
  fix v assume v: "v \<in> set (so_vectors (delete_spans run so))"
  then obtain sp where sp: "sp \<in> set (so_spans so)" "rs_id sp = vr_span_id v" "rs_document_id sp = vr_document_id v"
      "rs_run_id sp = vr_run_id v"
    using assms by (auto simp: delete_spans_def vectors_consistent_def Let_def)
  moreover have "rs_id sp \<notin> rs_id ` {s \<in> set (so_spans so). rs_run_id s = run}"
    using v sp(2) by (simp add: delete_spans_def Let_def)
  then have "rs_run_id sp \<noteq> run" using sp(1) by blast
  ultimately show "\<exists>sp \<in> set (so_spans (delete_spans run so)). rs_id sp = vr_span_id v
      \<and> rs_document_id sp = vr_document_id v \<and> rs_run_id sp = vr_run_id v"
    by (intro bexI [of _ sp]) (simp_all add: delete_spans_def Let_def)
qed

lemma vectors_consistent_more:
  "vectors_consistent so \<Longrightarrow> vectors_consistent (so\<lparr>so_spans := so_spans so @ rows\<rparr>)"
  by (fastforce simp: vectors_consistent_def)

lemma rebuild_spans_vectors:
  assumes "rebuild_spans hk provider run xi = Inr (summary, xi')" and "vectors_consistent (xi_source xi)"
  shows "vectors_consistent (xi_source xi')"
proof -
  obtain p so n d where r: "rebuild_multivectors hk p run \<lparr>xi_source = delete_spans (run_id run) (xi_source xi)
      \<lparr>so_spans := so_spans (delete_spans (run_id run) (xi_source xi)) @ so\<rparr>, xi_fresh = n\<rparr> = (d, xi')"
    using assms(1) by (auto simp: rebuild_spans_def Let_def split: prod.splits if_splits)
  show ?thesis
    by (rule rebuild_multivectors_consistent [OF r])
      (simp add: vectors_consistent_more [OF delete_spans_vectors [OF assms(2)]])
qed

lemma rebuild_spans_wf:
  assumes "index_wf xi" and "content_consistent (so_db (xi_source xi))" and "run \<in> set (db_runs (so_db (xi_source xi)))"
    and "rebuild_spans hk provider run xi = Inr (summary, xi')"
  shows "index_wf xi'"
proof -
  let ?so = "xi_source xi" and ?so' = "xi_source xi'"
  let ?specs = "run_span_specs hk (run_id run) (so_db ?so)"
  obtain es where r: "length es = length ?specs" "so_spans ?so' = filter (\<lambda>sp. rs_run_id sp \<noteq> run_id run) (so_spans ?so)
      @ span_rows run (xi_fresh xi) ?specs es" "so_db ?so' = so_db ?so" "xi_fresh xi + length es \<le> xi_fresh xi'"
    by (rule rebuild_spans_result [OF assms(4)])
  have old: "\<forall>sp \<in> set (so_spans ?so). rs_id sp < xi_fresh xi \<and> span_agrees ?so sp" "distinct (map rs_id (so_spans ?so))"
    using assms(1) by (auto simp: index_wf_def index_consistent_def)
  have agrees: "span_agrees ?so' sp = span_agrees ?so sp" for sp by (simp add: span_agrees_def r(3))
  have "span_agrees ?so sp" if "sp \<in> set (so_spans ?so')" for sp
    using that old(1) span_row_agrees [OF assms(2,3)] unfolding r(2) by (auto dest!: span_row_of)
  moreover have "distinct (map rs_id (so_spans ?so'))" "\<forall>sp \<in> set (so_spans ?so'). rs_id sp < xi_fresh xi'"
    using fresh_ids [of "so_spans ?so" "xi_fresh xi" es ?specs "\<lambda>sp. rs_run_id sp \<noteq> run_id run" run] old r(1,4)
    unfolding r(2) by fastforce+
  ultimately show ?thesis
    using rebuild_spans_vectors [OF assms(4)] assms(1) agrees by (simp add: index_wf_def index_consistent_def)
qed

section \<open>The backfill\<close>

lemma rebuild_without_provider: "\<exists>summary xi'. rebuild_spans hk None run xi = Inr (summary, xi')"
proof -
  have "span_embeddings None specs = (replicate (length specs) None, ''skipped'', None)" for specs
    by (simp add: span_embeddings_def)
  then show ?thesis by (auto simp: rebuild_spans_def Let_def split: prod.split)
qed

text \<open>The spans of a run are exactly those of its chunks and tables.\<close>

definition spans_complete :: "index_hooks \<Rightarrow> document_run \<Rightarrow> search_source \<Rightarrow> bool" where
  "spans_complete hk run so \<longleftrightarrow> (\<exists>n es. length es = length (run_span_specs hk (run_id run) (so_db so))
     \<and> filter (\<lambda>sp. rs_run_id sp = run_id run) (so_spans so)
         = span_rows run n (run_span_specs hk (run_id run) (so_db so)) es)"

text \<open>What a rebuild leaves as it is: the rows of the database and the spans of other runs.\<close>

definition index_grows :: "uuid set \<Rightarrow> span_index \<Rightarrow> span_index \<Rightarrow> bool" where
  "index_grows runs xi xi' \<longleftrightarrow> so_db (xi_source xi') = so_db (xi_source xi)
     \<and> so_engine (xi_source xi') = so_engine (xi_source xi) \<and> xi_fresh xi \<le> xi_fresh xi'
     \<and> (\<forall>r. r \<notin> runs \<longrightarrow> filter (\<lambda>sp. rs_run_id sp = r) (so_spans (xi_source xi'))
          = filter (\<lambda>sp. rs_run_id sp = r) (so_spans (xi_source xi)))"

lemma span_rows_run [simp]:
  "filter (\<lambda>sp. rs_run_id sp = r) (span_rows run n specs es) = (if r = run_id run then span_rows run n specs es else [])"
  unfolding span_rows_def by (auto simp: filter_empty_conv filter_id_conv span_row_def)

lemma filter_other_run:
  "filter (\<lambda>sp. rs_run_id sp \<noteq> r \<and> rs_run_id sp = q) sps = (if q = r then [] else filter (\<lambda>sp. rs_run_id sp = q) sps)"
  by (induction sps) auto

lemma rebuild_spans_grows:
  assumes "rebuild_spans hk provider run xi = Inr (summary, xi')"
  shows "index_grows {run_id run} xi xi' \<and> spans_complete hk run (xi_source xi')"
proof -
  obtain es where r: "length es = length (run_span_specs hk (run_id run) (so_db (xi_source xi)))"
    "so_spans (xi_source xi') = filter (\<lambda>sp. rs_run_id sp \<noteq> run_id run) (so_spans (xi_source xi))
      @ span_rows run (xi_fresh xi) (run_span_specs hk (run_id run) (so_db (xi_source xi))) es"
    "so_db (xi_source xi') = so_db (xi_source xi)" "so_engine (xi_source xi') = so_engine (xi_source xi)"
    "xi_fresh xi + length es \<le> xi_fresh xi'"
    by (rule rebuild_spans_result [OF assms])
  show ?thesis using r by (auto simp: index_grows_def spans_complete_def filter_other_run)
qed

lemma index_grows_trans:
  "index_grows A xi xi1 \<Longrightarrow> index_grows B xi1 xi2 \<Longrightarrow> index_grows (A \<union> B) xi xi2"
  by (auto simp: index_grows_def)

lemma needs_spans_grows:
  "index_grows A xi xi' \<Longrightarrow> run_id run \<notin> A \<Longrightarrow> needs_spans (xi_source xi') run = needs_spans (xi_source xi) run"
  by (auto simp: index_grows_def needs_spans_def filter_empty_conv [symmetric])

lemma backfill_total: "\<exists>rebuilt' xi'. backfill_each hk runs rebuilt xi = Inr (rebuilt', xi')"
proof (induction runs arbitrary: rebuilt xi)
  case (Cons run runs)
  obtain summary xi1 where "rebuild_spans hk None run xi = Inr (summary, xi1)" using rebuild_without_provider by blast
  then show ?case using Cons by (simp split: if_splits)
qed simp

lemma index_grows_mono: "index_grows A xi xi' \<Longrightarrow> A \<subseteq> B \<Longrightarrow> index_grows B xi xi'"
  by (auto simp: index_grows_def)

lemma spans_complete_grows:
  "index_grows A xi xi' \<Longrightarrow> run_id run \<notin> A \<Longrightarrow> spans_complete hk run (xi_source xi) \<Longrightarrow> spans_complete hk run (xi_source xi')"
  by (simp add: index_grows_def spans_complete_def)

lemma backfill_result:
  assumes "backfill_each hk runs rebuilt xi = Inr (rebuilt', xi')" and "index_wf xi"
    and "content_consistent (so_db (xi_source xi))" and "set runs \<subseteq> set (db_runs (so_db (xi_source xi)))"
  shows "index_wf xi' \<and> index_grows (run_id ` {r \<in> set runs. needs_spans (xi_source xi) r}) xi xi'
    \<and> (\<forall>r \<in> set runs. needs_spans (xi_source xi) r \<longrightarrow> spans_complete hk r (xi_source xi'))"
  using assms
proof (induction runs arbitrary: rebuilt xi)
  case Nil
  then show ?case by (simp add: index_grows_def)
next
  case (Cons run runs)
  have inj: "r = run" if "r \<in> set runs" "run_id r = run_id run" for r
    using that Cons.prems(3,4) by (auto simp: content_consistent_def distinct_map dest: inj_onD)
  show ?case
  proof (cases "needs_spans (xi_source xi) run")
    case False
    have "{r \<in> set (run # runs). needs_spans (xi_source xi) r} = {r \<in> set runs. needs_spans (xi_source xi) r}"
      using False by auto
    with Cons False show ?thesis by auto
  next
    case True
    then obtain summary xi1 where r: "rebuild_spans hk None run xi = Inr (summary, xi1)"
      "backfill_each hk runs (rebuilt @ [summary]) xi1 = Inr (rebuilt', xi')"
      using Cons.prems(1) by (auto split: sum.splits)
    have run: "run \<in> set (db_runs (so_db (xi_source xi)))" using Cons.prems(4) by simp
    have g: "index_grows {run_id run} xi xi1" "spans_complete hk run (xi_source xi1)"
      using rebuild_spans_grows [OF r(1)] by blast+
    have db: "so_db (xi_source xi1) = so_db (xi_source xi)" using g(1) by (simp add: index_grows_def)
    let ?later = "run_id ` {r \<in> set runs. needs_spans (xi_source xi1) r}"
    have ih: "index_wf xi'" "index_grows ?later xi1 xi'"
      "\<And>r. r \<in> set runs \<Longrightarrow> needs_spans (xi_source xi1) r \<Longrightarrow> spans_complete hk r (xi_source xi')"
      using Cons.IH [OF r(2) rebuild_spans_wf [OF Cons.prems(2,3) run r(1)]] Cons.prems(3,4) db by simp_all
    have same: "needs_spans (xi_source xi1) r = needs_spans (xi_source xi) r" if "r \<in> set runs" "r \<noteq> run" for r
      using needs_spans_grows [OF g(1)] that inj by auto
    have "insert (run_id run) ?later \<subseteq> run_id ` {r \<in> set (run # runs). needs_spans (xi_source xi) r}"
      using True same by auto
    then have grows: "index_grows (run_id ` {r \<in> set (run # runs). needs_spans (xi_source xi) r}) xi xi'"
      using index_grows_mono [OF index_grows_trans [OF g(1) ih(2)]] by simp
    have "spans_complete hk run (xi_source xi')"
    proof (cases "run_id run \<in> ?later")
      case True
      then show ?thesis using inj ih(3) by auto
    next
      case False
      then show ?thesis using spans_complete_grows [OF ih(2)] g(2) by blast
    qed
    then show ?thesis using ih(1,3) grows same by auto
  qed
qed

lemma backfill_runs_in: "set (backfill_runs run document d) \<subseteq> set (db_runs d)"
  by (auto simp: backfill_runs_def map_filter_def dest: find_row_Some split: option.splits if_splits)

text \<open>The backfill as a service of the search, whose scope it shares.\<close>

definition backfill_service ::
  "index_hooks \<Rightarrow> uuid \<Rightarrow> uuid option \<Rightarrow> uuid option \<Rightarrow> search_source \<Rightarrow> exn + search_source \<times> dict" where
  "backfill_service hk fresh run document so =
     map_sum id (\<lambda>(summary, xi). (xi_source xi, summary))
       (ensure_spans_for_search hk run document \<lparr>xi_source = so, xi_fresh = fresh\<rparr>)"

definition filtered_document :: "search_request \<Rightarrow> uuid option" where
  "filtered_document request = (case sr_filters request of None \<Rightarrow> None | Some f \<Rightarrow> sf_document_id f)"

text \<open>
  The runs a search is about: the given run; or else the active run of the document it filters by; or
  else the active runs of all documents. A run wants spans when it has chunks or tables (as counted
  in its row) and no span refers to it.
\<close>

definition in_scope :: "uuid option \<Rightarrow> uuid option \<Rightarrow> db \<Rightarrow> document_run \<Rightarrow> bool" where
  "in_scope run document d r \<longleftrightarrow> r \<in> set (db_runs d) \<and>
     (case run of
        Some i \<Rightarrow> run_id r = i
      | None \<Rightarrow> \<exists>x \<in> set (db_documents d). doc_active_run_id x = Some (run_id r) \<and>
          (case document of None \<Rightarrow> True | Some k \<Rightarrow> doc_id x = k))"

definition wants_spans :: "search_source \<Rightarrow> document_run \<Rightarrow> bool" where
  "wants_spans so r \<longleftrightarrow> (\<forall>sp \<in> set (so_spans so). rs_run_id sp \<noteq> run_id r) \<and>
     (case run_chunk_count r of None \<Rightarrow> 0 | Some n \<Rightarrow> n) + (case run_table_count r of None \<Rightarrow> 0 | Some n \<Rightarrow> n) > 0"

lemma wants_needs: "needs_spans so r = wants_spans so r"
  by (auto simp: needs_spans_def wants_spans_def count_or_zero_def)

lemma scope_runs:
  assumes "distinct (map run_id (db_runs d))" and "distinct (map doc_id (db_documents d))"
  shows "r \<in> set (backfill_runs run document d) \<longleftrightarrow> in_scope run document d r"
proof -
  have run: "find_row run_id i (db_runs d) = Some q \<longleftrightarrow> q \<in> set (db_runs d) \<and> run_id q = i" for i q
    using find_row_unique [OF assms(1)] by (auto dest: find_row_Some)
  have listed: "set (List.map_filter id [find_row run_id i (db_runs d)]) = {q \<in> set (db_runs d). run_id q = i}"
    for i
  proof (cases "find_row run_id i (db_runs d)")
    case None
    then have "{q \<in> set (db_runs d). run_id q = i} = {}" by (auto simp: find_row_None)
    then show ?thesis unfolding None by (simp add: map_filter_def)
  next
    case (Some q)
    have "x \<in> set (db_runs d) \<and> run_id x = i \<longleftrightarrow> x = q" for x
      unfolding run [symmetric] Some by auto
    then have "{q \<in> set (db_runs d). run_id q = i} = {q}" by blast
    then show ?thesis unfolding Some by (simp add: map_filter_def)
  qed
  have doc: "find_row doc_id k (db_documents d) = Some x \<longleftrightarrow> x \<in> set (db_documents d) \<and> doc_id x = k" for k x
    using find_row_unique [OF assms(2)] by (auto dest: find_row_Some)
  consider i where "run = Some i" | k where "run = None" "document = Some k" | "run = None" "document = None"
    by (metis option.exhaust)
  then show ?thesis
  proof cases
    case (1 i)
    show ?thesis unfolding backfill_runs_def in_scope_def 1 option.case listed by simp
  next
    case (2 k)
    show ?thesis
    proof (cases "find_row doc_id k (db_documents d)")
      case None
      then have "in_scope run document d r = False" using 2 by (auto simp: in_scope_def find_row_None)
      then show ?thesis unfolding backfill_runs_def 2 option.case None by simp
    next
      case (Some x)
      then have only: "y \<in> set (db_documents d) \<and> doc_id y = k \<longleftrightarrow> y = x" for y
        unfolding doc [symmetric] Some by auto
      have "in_scope run document d r \<longleftrightarrow> r \<in> set (db_runs d) \<and> doc_active_run_id x = Some (run_id r)"
        unfolding in_scope_def 2 option.case by (metis only)
      moreover have "r \<in> set (case doc_active_run_id x of None \<Rightarrow> []
            | Some i \<Rightarrow> List.map_filter id [find_row run_id i (db_runs d)])
          \<longleftrightarrow> r \<in> set (db_runs d) \<and> doc_active_run_id x = Some (run_id r)"
        by (cases "doc_active_run_id x") (auto simp only: option.case listed list.set mem_Collect_eq empty_iff
            option.inject option.distinct simp_thms)
      ultimately show ?thesis unfolding backfill_runs_def 2 option.case Some by (simp only:)
    qed
  next
    case 3
    then show ?thesis by (auto simp: backfill_runs_def in_scope_def)
  qed
qed

lemma ensured:
  assumes "ensure_spans_for_search hk run document xi = Inr (summary, xi')" and "index_wf xi"
    and "content_consistent (so_db (xi_source xi))"
    and "distinct (map doc_id (db_documents (so_db (xi_source xi))))"
  defines "lacking \<equiv> \<lambda>r. in_scope run document (so_db (xi_source xi)) r \<and> wants_spans (xi_source xi) r"
  shows "index_wf xi' \<and> so_db (xi_source xi') = so_db (xi_source xi)
    \<and> (\<forall>r. lacking r \<longrightarrow> spans_complete hk r (xi_source xi'))
    \<and> (\<forall>i. (\<nexists>r. lacking r \<and> run_id r = i) \<longrightarrow> filter (\<lambda>sp. rs_run_id sp = i) (so_spans (xi_source xi'))
        = filter (\<lambda>sp. rs_run_id sp = i) (so_spans (xi_source xi)))"
proof -
  let ?runs = "backfill_runs run document (so_db (xi_source xi))"
  obtain rebuilt where b: "backfill_each hk ?runs [] xi = Inr (rebuilt, xi')"
    using assms(1) by (auto simp: ensure_spans_for_search_def Let_def split: sum.splits)
  have lack: "r \<in> set ?runs \<and> needs_spans (xi_source xi) r \<longleftrightarrow> lacking r" for r
    using assms(3,4) by (simp add: lacking_def scope_runs wants_needs content_consistent_def)
  then have same: "{r \<in> set ?runs. needs_spans (xi_source xi) r} = {r. lacking r}" by blast
  from backfill_result [OF b assms(2,3) backfill_runs_in]
  have r: "index_wf xi'" "index_grows (run_id ` {r. lacking r}) xi xi'"
    "\<forall>r \<in> set ?runs. needs_spans (xi_source xi) r \<longrightarrow> spans_complete hk r (xi_source xi')"
    unfolding same by simp_all
  have "\<forall>r. lacking r \<longrightarrow> spans_complete hk r (xi_source xi')" using r(3) lack by metis
  moreover have "filter (\<lambda>sp. rs_run_id sp = i) (so_spans (xi_source xi'))
      = filter (\<lambda>sp. rs_run_id sp = i) (so_spans (xi_source xi))" if "\<nexists>r. lacking r \<and> run_id r = i" for i
  proof -
    have "i \<notin> run_id ` {r. lacking r}" using that by blast
    with r(2) show ?thesis unfolding index_grows_def by blast
  qed
  ultimately show ?thesis using r(1,2) by (simp add: index_grows_def)
qed

lemma found_in_db:
  "so_db so1 = so_db so \<Longrightarrow> result_found so1 = result_found so"
  by (simp add: fun_eq_iff result_found_def chunk_found_def table_found_def)

section \<open>Properties\<close>

text \<open>
  C20: rebuilding the spans of a run keeps the index in step with the content. Whatever the embedding
  provider does, a rebuild that returns leaves an index in which every span has the document, run and
  pages of its chunk or table, every vector belongs to a span, and identifiers are new; the run has
  exactly the spans of its chunks and tables, in order, and the spans of all other runs are untouched.
\<close>

theorem rebuilt_index_consistent:
  assumes "index_wf xi" and "content_consistent (so_db (xi_source xi))" and "run \<in> set (db_runs (so_db (xi_source xi)))"
    and "rebuild_spans hk provider run xi = Inr (summary, xi')"
  shows "index_wf xi' \<and> spans_complete hk run (xi_source xi') \<and> index_grows {run_id run} xi xi'"
  using rebuild_spans_wf [OF assms] rebuild_spans_grows [OF assms(4)] by blast

text \<open>The small index of \<open>Search_Guarantees\<close> before its spans were built.\<close>

definition unindexed_run :: document_run where
  "unindexed_run = \<lparr>run_id = 3, run_document_id = 1, run_number = 1, run_status = Completed, run_attempts = 1,
     run_locked_at = None, run_locked_by = None, run_last_heartbeat_at = None, run_next_attempt_at = None,
     run_error_message = None, run_failure_stage = None, run_failure_artifact_path = None,
     run_docling_json_path = None, run_yaml_path = None, run_chunk_count = Some 1, run_table_count = Some 0,
     run_figure_count = Some 0, run_embedding_model = None, run_embedding_dim = None,
     run_validation_status = Some ''passed'', run_validation_results = [], run_created_at = 0,
     run_started_at = None, run_completed_at = None\<rparr>"

definition unindexed_source :: search_source where
  "unindexed_source = example_source\<lparr>so_spans := [], so_db := (so_db example_source)\<lparr>db_runs := [unindexed_run]\<rparr>\<rparr>"

definition example_hooks :: index_hooks where
  "example_hooks = \<lparr>ih_sha = (\<lambda>_. ''sha''), ih_operator_run = None\<rparr>"

lemma unindexed_ok:
  "index_wf \<lparr>xi_source = unindexed_source, xi_fresh = 20\<rparr>" "content_consistent (so_db unindexed_source)"
  by (simp_all add: index_wf_def index_consistent_def vectors_consistent_def content_consistent_def unindexed_source_def
      example_source_def empty_db_def example_chunk_def unindexed_run_def)

definition example_model :: vector_provider where
  "example_model = \<lparr>vp_embed = (\<lambda>texts. Inl (Py_Error ''RuntimeError'' False ''offline'')), vp_model = ''m''\<rparr>"

theorem rebuilt_index_consistent_witness:
  "\<exists>summary xi'. rebuild_spans example_hooks (Some example_model) unindexed_run
      \<lparr>xi_source = unindexed_source, xi_fresh = 20\<rparr> = Inr (summary, xi') \<and> index_wf xi'
    \<and> map rs_span_text (so_spans (xi_source xi')) = [''rent'']"
proof -
  let ?xi = "\<lparr>xi_source = unindexed_source, xi_fresh = 20\<rparr>"
  have "map_sum (\<lambda>_. ()) (\<lambda>(_, xi'). map rs_span_text (so_spans (xi_source xi')))
      (rebuild_spans example_hooks (Some example_model) unindexed_run ?xi) = Inr [''rent'']"
    by code_simp
  then obtain summary xi' where r: "rebuild_spans example_hooks (Some example_model) unindexed_run ?xi = Inr (summary, xi')"
    and spans: "map rs_span_text (so_spans (xi_source xi')) = [''rent'']"
    by (cases "rebuild_spans example_hooks (Some example_model) unindexed_run ?xi") auto
  have "unindexed_run \<in> set (db_runs (so_db (xi_source ?xi)))" by (simp add: unindexed_source_def)
  from rebuilt_index_consistent [OF unindexed_ok(1) _ this r] unindexed_ok(2) r spans show ?thesis by auto
qed

text \<open>
  C19: a search prepares its own index. Provided the rows have distinct identifiers, chunks and tables
  belong to the document of their run, and the spans and vectors stored so far agree with them, the
  backfill never fails; afterwards the index is consistent again, every run in the scope of the
  search (the given run, or the active run of the document filtered by, or all active runs) that
  has counted chunks or tables and had no spans has all of them, and the spans of all other runs are
  as they were. The search itself returns only results that are stored chunks and tables of the
  searched runs passing the filters, none twice, and no more than asked for.
\<close>

theorem backfilled_search_sound:
  assumes "index_wf \<lparr>xi_source = so, xi_fresh = fresh\<rparr>" and "content_consistent (so_db so)"
    and "distinct (map doc_id (db_documents (so_db so)))"
    and "services = sv\<lparr>sv_backfill := backfill_service hk fresh run (filtered_document request)\<rparr>"
  shows "(\<exists>so1 summary. sv_backfill services so = Inr (so1, summary) \<and> so_db so1 = so_db so \<and> index_consistent so1
      \<and> (\<forall>r. in_scope run (filtered_document request) (so_db so) r \<and> wants_spans so r \<longrightarrow> spans_complete hk r so1)
      \<and> (\<forall>i. (\<nexists>r. in_scope run (filtered_document request) (so_db so) r \<and> wants_spans so r \<and> run_id r = i) \<longrightarrow>
          filter (\<lambda>sp. rs_run_id sp = i) (so_spans so1) = filter (\<lambda>sp. rs_run_id sp = i) (so_spans so)))
    \<and> (\<forall>ex. execute_search services cx w so provider run reranker overrides request = Inr ex \<longrightarrow>
         length (se_results ex) \<le> sr_limit request \<and> distinct (map shown_key (se_results ex))
         \<and> (\<forall>r \<in> set (se_results ex). result_found so run (sr_filters request) r))"
proof -
  let ?doc = "filtered_document request" and ?xi = "\<lparr>xi_source = so, xi_fresh = fresh\<rparr>"
  obtain summary xi' where e: "ensure_spans_for_search hk run ?doc ?xi = Inr (summary, xi')"
    using backfill_total [of hk "backfill_runs run ?doc (so_db so)" "[]" ?xi]
    by (auto simp: ensure_spans_for_search_def Let_def)
  have b: "sv_backfill services so = Inr (xi_source xi', summary)"
    using e by (simp add: assms(4) backfill_service_def)
  note x = ensured [OF e assms(1), unfolded span_index.select_convs, OF assms(2,3)]
  from x have con: "index_consistent (xi_source xi')" and db: "so_db (xi_source xi') = so_db so"
    by (simp_all add: index_wf_def)
  show ?thesis
  proof (rule conjI)
    show "\<exists>so1 summary. sv_backfill services so = Inr (so1, summary) \<and> so_db so1 = so_db so \<and> index_consistent so1
      \<and> (\<forall>r. in_scope run ?doc (so_db so) r \<and> wants_spans so r \<longrightarrow> spans_complete hk r so1)
      \<and> (\<forall>i. (\<nexists>r. in_scope run ?doc (so_db so) r \<and> wants_spans so r \<and> run_id r = i) \<longrightarrow>
          filter (\<lambda>sp. rs_run_id sp = i) (so_spans so1) = filter (\<lambda>sp. rs_run_id sp = i) (so_spans so))"
      using b x con by (intro exI [of _ "xi_source xi'"] exI [of _ summary]) (simp add: conj_assoc)
  qed (use search_results_eligible [OF b con] found_in_db [OF db] in auto)
qed

text \<open>
  The example: the active run of the only document has a chunk and no spans, an older run of it has
  none either. The search gives the chunk, with a span of its own; the older run stays as it is.
\<close>

definition older_run :: document_run where
  "older_run = unindexed_run\<lparr>run_id := 2, run_created_at := -1\<rparr>"

definition older_source :: search_source where
  "older_source = unindexed_source\<lparr>so_db := (so_db unindexed_source)\<lparr>db_runs := [older_run, unindexed_run]\<rparr>\<rparr>"

lemma older_ok:
  "index_wf \<lparr>xi_source = older_source, xi_fresh = 20\<rparr>" "content_consistent (so_db older_source)"
  "distinct (map doc_id (db_documents (so_db older_source)))"
  by (simp_all add: index_wf_def index_consistent_def vectors_consistent_def content_consistent_def
      older_source_def older_run_def unindexed_source_def example_source_def empty_db_def example_chunk_def
      unindexed_run_def)

lemma older_scope:
  "in_scope None None (so_db older_source) r \<and> wants_spans older_source r \<longleftrightarrow> r = unindexed_run"
  by (auto simp: in_scope_def wants_spans_def older_source_def older_run_def unindexed_source_def
      example_source_def unindexed_run_def)

definition backfilling_services :: search_services where
  "backfilling_services = example_services\<lparr>sv_backfill := backfill_service example_hooks 20 None None\<rparr>"

lemma backfilled_example:
  "map_sum (\<lambda>e. ()) (map (\<lambda>r. (res_chunk_id r, map es_text_excerpt (res_evidence_spans r))) \<circ> se_results)
     (execute_search backfilling_services example_codecs bare_world older_source None None None []
       (example_request Keyword_Mode)) = Inr [(Some 7, [''rent''])]"
  by code_simp

theorem backfilled_search_sound_witness:
  "\<exists>ex so1 summary. execute_search backfilling_services example_codecs bare_world older_source None None None []
      (example_request Keyword_Mode) = Inr ex
    \<and> map (\<lambda>r. (res_chunk_id r, map es_text_excerpt (res_evidence_spans r))) (se_results ex) = [(Some 7, [''rent''])]
    \<and> list_all (result_found older_source None None) (se_results ex)
    \<and> sv_backfill backfilling_services older_source = Inr (so1, summary)
    \<and> spans_complete example_hooks unindexed_run so1 \<and> (\<forall>sp \<in> set (so_spans so1). rs_run_id sp \<noteq> 2)"
proof -
  obtain ex where ex: "execute_search backfilling_services example_codecs bare_world older_source None None None []
      (example_request Keyword_Mode) = Inr ex"
      "map (\<lambda>r. (res_chunk_id r, map es_text_excerpt (res_evidence_spans r))) (se_results ex) = [(Some 7, [''rent''])]"
    using backfilled_example
    by (cases "execute_search backfilling_services example_codecs bare_world older_source None None None []
      (example_request Keyword_Mode)") auto
  have doc: "filtered_document (example_request Keyword_Mode) = None"
    by (simp add: filtered_document_def example_request_def)
  have "backfilling_services = example_services\<lparr>sv_backfill :=
      backfill_service example_hooks 20 None (filtered_document (example_request Keyword_Mode))\<rparr>"
    by (simp add: backfilling_services_def doc)
  note sound = backfilled_search_sound [OF older_ok this, unfolded doc older_scope]
  from sound obtain so1 summary where so1: "sv_backfill backfilling_services older_source = Inr (so1, summary)"
    "\<forall>r. r = unindexed_run \<longrightarrow> spans_complete example_hooks r so1"
    "\<forall>i. (\<nexists>r. in_scope None None (so_db older_source) r \<and> wants_spans older_source r \<and> run_id r = i) \<longrightarrow>
      filter (\<lambda>sp. rs_run_id sp = i) (so_spans so1) = filter (\<lambda>sp. rs_run_id sp = i) (so_spans older_source)"
    by blast
  have "\<nexists>r. in_scope None None (so_db older_source) r \<and> wants_spans older_source r \<and> run_id r = 2"
    using older_scope by (metis unindexed_run_def document_run.select_convs(1) numeral_eq_iff num.distinct(6))
  moreover have "so_spans older_source = []" by (simp add: older_source_def unindexed_source_def)
  ultimately have "\<forall>sp \<in> set (so_spans so1). rs_run_id sp \<noteq> 2" using so1(3) by (simp add: filter_empty_conv)
  then show ?thesis using sound ex so1(1,2) by (auto simp: example_request_def list_all_iff)
qed

end
