(* ===== verification/Directory_Scan.thy ===== *)
theory Directory_Scan
  imports Ingest_Admission "HOL-Library.Multiset"
begin

text \<open>
  \<open>app/services/ingest_batches.py\<close>, the scan of a directory for PDF files: \<open>_file_sha256\<close>,
  \<open>_validate_local_ingest_directory\<close>, \<open>_iter_directory_children\<close> and \<open>_iter_local_pdf_files\<close>.

  A directory is a tree; its entries are in the order in which the file system lists them, and they
  are missing when it cannot be listed. The lemmas compare the loop over pending directories with the
  plain recursion over the tree.
\<close>

section \<open>Directories\<close>

datatype link_target = Dangling | Link_To_File string | Link_To_Directory int

datatype fs_node =
    Regular string
  | Directory "(string \<times> fs_node) list option"
  | Link link_target
  | Special

type_synonym fs_entries = "(string \<times> fs_node) list option"

text \<open>What \<open>_file_sha256\<close> and \<open>stat\<close> see at a path: they follow a link.\<close>

fun node_content :: "fs_node \<Rightarrow> string option" where
  "node_content (Regular content) = Some content"
| "node_content (Link (Link_To_File content)) = Some content"
| "node_content _ = None"

fun node_size :: "fs_node \<Rightarrow> int option" where
  "node_size (Regular content) = Some (int (length content))"
| "node_size (Link (Link_To_File content)) = Some (int (length content))"
| "node_size (Link (Link_To_Directory n)) = Some n"
| "node_size (Link Dangling) = None"
| "node_size _ = Some 0"

text \<open>The path a request names, as the file system describes it.\<close>

record ingest_directory =
  dir_is_symlink :: bool
  dir_path :: path
  dir_is_directory :: bool
  dir_below_root :: bool
  dir_entries :: fs_entries

definition invalid_directory :: "string \<Rightarrow> exn" where
  "invalid_directory message = Http_Error 400 ''invalid_ingest_directory'' message"

definition validate_local_ingest_directory :: "ingest_directory \<Rightarrow> exn + path" where
  "validate_local_ingest_directory d =
     (if dir_is_symlink d then Inl (invalid_directory ''Symlink ingest directories are not allowed.'')
      else if \<not> dir_is_directory d
      then Inl (Http_Error 404 ''ingest_directory_not_found'' ''Directory not found.'')
      else if \<not> dir_below_root d
      then Inl (invalid_directory ''Directory is outside allowed local ingest roots.'')
      else Inr (dir_path d))"

section \<open>The scan\<close>

definition path_order :: "path \<times> 'a \<Rightarrow> string" where
  "path_order e = str_lower (fst e)"

definition iter_directory_children :: "path \<Rightarrow> (string \<times> fs_node) list \<Rightarrow> (path \<times> fs_node) list" where
  "iter_directory_children p es = sort_key path_order (map (\<lambda>(name, x). (path_join p name, x)) es)"

definition pdf_name :: "path \<Rightarrow> bool" where
  "pdf_name p = (str_lower (path_suffix p) = ''.pdf'')"

fun is_pdf_entry :: "path \<times> fs_node \<Rightarrow> bool" where
  "is_pdf_entry (p, Regular content) = pdf_name p"
| "is_pdf_entry (p, Link target) = (pdf_name p \<and> target \<noteq> Dangling)"
| "is_pdf_entry (p, Directory es) = False"
| "is_pdf_entry (p, Special) = False"

fun subdirectory :: "path \<times> fs_node \<Rightarrow> (path \<times> fs_entries) option" where
  "subdirectory (p, Directory es) = Some (p, es)"
| "subdirectory (p, x) = None"

definition cannot_list :: exn where
  "cannot_list = Py_Error ''PermissionError'' False ''Permission denied''"

text \<open>Entries below a directory, which bound the work that is left.\<close>

fun node_weight :: "fs_node \<Rightarrow> nat" and entries_weight :: "(string \<times> fs_node) list \<Rightarrow> nat" where
  "node_weight (Directory (Some es)) = Suc (entries_weight es)"
| "node_weight x = 1"
| "entries_weight [] = 0"
| "entries_weight ((name, x) # es) = node_weight x + entries_weight es"

definition pending_weight :: "(path \<times> fs_entries) list \<Rightarrow> nat" where
  "pending_weight pending =
     sum_list (map (\<lambda>(p, es). Suc (case es of None \<Rightarrow> 0 | Some xs \<Rightarrow> entries_weight xs)) pending)"

text \<open>The pending directories with the one that is popped next in front.\<close>

definition pushed :: "bool \<Rightarrow> (path \<times> fs_node) list \<Rightarrow> (path \<times> fs_entries) list" where
  "pushed recursive children = (if recursive then rev (List.map_filter subdirectory children) else [])"

lemma weight_entries: "entries_weight es = sum_list (map (\<lambda>(name, x). node_weight x) es)"
  by (induction es) auto

lemma pushed_weight: "pending_weight (pushed recursive children) \<le> sum_list (map (\<lambda>(p, x). node_weight x) children)"
proof -
  have "pending_weight (List.map_filter subdirectory children) \<le> sum_list (map (\<lambda>(p, x). node_weight x) children)"
  proof (induction children)
    case (Cons c children)
    obtain p x where c: "c = (p, x)" by fastforce
    show ?case
    proof (cases x)
      case (Directory es)
      with Cons c show ?thesis by (cases es) (simp_all add: map_filter_simps pending_weight_def)
    qed (use Cons c in \<open>simp_all add: map_filter_simps pending_weight_def\<close>)
  qed (simp add: map_filter_simps pending_weight_def)
  then show ?thesis by (simp add: pushed_def pending_weight_def rev_map [symmetric] sum_list_rev)
qed

lemma children_weight:
  "sum_list (map (\<lambda>(p, x). node_weight x) (iter_directory_children p es)) = entries_weight es"
proof -
  have "mset (map (\<lambda>(p, x). node_weight x) (iter_directory_children p es)) =
      mset (map (\<lambda>(name, x). node_weight x) es)"
    by (simp add: iter_directory_children_def image_mset.compositionality comp_def case_prod_unfold)
  then show ?thesis unfolding weight_entries by (metis sum_mset_sum_list)
qed

function scan_directories ::
  "bool \<Rightarrow> (path \<times> fs_entries) list \<Rightarrow> (path \<times> fs_node) list \<Rightarrow> exn + (path \<times> fs_node) list" where
  "scan_directories recursive [] found = Inr found"
| "scan_directories recursive ((p, None) # pending) found = Inl cannot_list"
| "scan_directories recursive ((p, Some es) # pending) found =
     (let children = iter_directory_children p es in
      scan_directories recursive (pushed recursive children @ pending) (found @ filter is_pdf_entry children))"
  by pat_completeness auto
termination
proof (relation "measure (\<lambda>(recursive, pending, found). pending_weight pending)")
  fix recursive p es pending found and children :: "(path \<times> fs_node) list"
  assume "children = iter_directory_children p es"
  then have "pending_weight (pushed recursive children) \<le> entries_weight es"
    using pushed_weight [of recursive children] children_weight [of p es] by simp
  then show "((recursive, pushed recursive children @ pending, found @ filter is_pdf_entry children),
      recursive, (p, Some es) # pending, found) \<in> measure (\<lambda>(recursive, pending, found). pending_weight pending)"
    by (simp add: pending_weight_def)
qed simp

definition iter_local_pdf_files :: "bool \<Rightarrow> path \<Rightarrow> fs_entries \<Rightarrow> exn + (path \<times> fs_node) list" where
  "iter_local_pdf_files recursive p es =
     (case scan_directories recursive [(p, es)] [] of
        Inl e \<Rightarrow> Inl e | Inr found \<Rightarrow> Inr (sort_key path_order found))"

section \<open>The specification\<close>

text \<open>The PDF files of a tree, by recursion, and the trees that can be listed.\<close>

fun pdf_files :: "bool \<Rightarrow> path \<Rightarrow> fs_node \<Rightarrow> (path \<times> fs_node) list"
  and pdf_files_in :: "bool \<Rightarrow> path \<Rightarrow> (string \<times> fs_node) list \<Rightarrow> (path \<times> fs_node) list" where
  "pdf_files recursive p (Directory (Some es)) = (if recursive then pdf_files_in recursive p es else [])"
| "pdf_files recursive p x = (if is_pdf_entry (p, x) then [(p, x)] else [])"
| "pdf_files_in recursive p [] = []"
| "pdf_files_in recursive p ((name, x) # es) = pdf_files recursive (path_join p name) x @ pdf_files_in recursive p es"

fun listable :: "bool \<Rightarrow> fs_node \<Rightarrow> bool" and listable_in :: "bool \<Rightarrow> (string \<times> fs_node) list \<Rightarrow> bool" where
  "listable recursive (Directory None) = (\<not> recursive)"
| "listable recursive (Directory (Some es)) = (recursive \<longrightarrow> listable_in recursive es)"
| "listable recursive x = True"
| "listable_in recursive [] = True"
| "listable_in recursive ((name, x) # es) = (listable recursive x \<and> listable_in recursive es)"

definition pending_files :: "bool \<Rightarrow> (path \<times> fs_entries) list \<Rightarrow> (path \<times> fs_node) multiset" where
  "pending_files recursive pending =
     (\<Sum>(p, es) \<in># mset pending. case es of None \<Rightarrow> {#} | Some xs \<Rightarrow> mset (pdf_files_in recursive p xs))"

definition pending_listable :: "bool \<Rightarrow> (path \<times> fs_entries) list \<Rightarrow> bool" where
  "pending_listable recursive pending =
     (\<forall>(p, es) \<in> set pending. case es of None \<Rightarrow> False | Some xs \<Rightarrow> listable_in recursive xs)"

lemma files_in: "mset (pdf_files_in recursive p es) =
    (\<Sum>(q, x) \<in># mset (map (\<lambda>(name, x). (path_join p name, x)) es). mset (pdf_files recursive q x))"
  by (induction es) auto

lemma listable_in: "listable_in recursive es = (\<forall>(name, x) \<in> set es. listable recursive x)"
  by (induction es) auto

text \<open>One entry: a PDF file is found, a directory is pushed.\<close>

lemma files_of_entry:
  "mset (pdf_files recursive p x) = mset (filter is_pdf_entry [(p, x)])
     + pending_files recursive (pushed recursive [(p, x)])"
  by (cases "(recursive, p, x)" rule: pdf_files.cases)
    (auto simp: pushed_def pending_files_def map_filter_simps)

lemma listable_entry: "listable recursive x = pending_listable recursive (pushed recursive [(p, x)])"
  by (cases "(recursive, x)" rule: listable.cases) (auto simp: pushed_def pending_listable_def map_filter_simps)

lemma pushed_Cons: "mset (pushed recursive (c # cs)) = mset (pushed recursive [c]) + mset (pushed recursive cs)"
  by (cases "subdirectory c") (simp_all add: pushed_def map_filter_simps)

lemma pending_append [simp]:
  "pending_files recursive (a @ b) = pending_files recursive a + pending_files recursive b"
  "pending_listable recursive (a @ b) = (pending_listable recursive a \<and> pending_listable recursive b)"
  by (auto simp: pending_files_def pending_listable_def)

lemma pending_Cons:
  "pending_files recursive ((p, Some es) # pending) = mset (pdf_files_in recursive p es) + pending_files recursive pending"
  "pending_listable recursive ((p, Some es) # pending) = (listable_in recursive es \<and> pending_listable recursive pending)"
  by (simp_all add: pending_files_def pending_listable_def)

lemma files_of_children:
  "(\<Sum>(q, x) \<in># mset children. mset (pdf_files recursive q x)) =
     mset (filter is_pdf_entry children) + pending_files recursive (pushed recursive children)"
proof (induction children)
  case (Cons c cs)
  have "pending_files recursive (pushed recursive (c # cs)) =
      pending_files recursive (pushed recursive [c]) + pending_files recursive (pushed recursive cs)"
    by (simp add: pending_files_def pushed_Cons [of recursive c cs])
  with Cons files_of_entry [of recursive "fst c" "snd c"] show ?case
    by (simp add: case_prod_unfold)
qed (simp add: pending_files_def pushed_def map_filter_simps)

lemma listable_children:
  "(\<forall>(q, x) \<in> set children. listable recursive x) = pending_listable recursive (pushed recursive children)"
proof (induction children)
  case (Cons c cs)
  have "set (pushed recursive (c # cs)) = set (pushed recursive [c]) \<union> set (pushed recursive cs)"
    using pushed_Cons [of recursive c cs] by (metis set_mset_mset set_mset_union)
  with Cons listable_entry [of recursive "snd c" "fst c"] show ?case
    by (auto simp: pending_listable_def case_prod_unfold)
qed (simp add: pending_listable_def pushed_def map_filter_simps)

lemma scan_result:
  "(case scan_directories recursive pending found of
      Inl e \<Rightarrow> \<not> pending_listable recursive pending
    | Inr all \<Rightarrow> pending_listable recursive pending
        \<and> mset all = mset found + pending_files recursive pending)"
proof (induction recursive pending found rule: scan_directories.induct)
  case (3 recursive p es pending found)
  let ?children = "iter_directory_children p es"
  have m: "mset ?children = mset (map (\<lambda>(name, x). (path_join p name, x)) es)"
    by (simp add: iter_directory_children_def)
  have "mset (pdf_files_in recursive p es) =
      mset (filter is_pdf_entry ?children) + pending_files recursive (pushed recursive ?children)"
    unfolding files_in m [symmetric] by (rule files_of_children)
  moreover have "listable_in recursive es = pending_listable recursive (pushed recursive ?children)"
    unfolding listable_children [symmetric] listable_in using arg_cong [OF m, of set_mset] by auto
  ultimately show ?case
    using 3 by (simp add: Let_def pending_Cons ac_simps split: sum.splits)
qed (simp_all add: pending_listable_def pending_files_def)

lemma scan_fails: "scan_directories recursive pending found = Inl e \<Longrightarrow> e = cannot_list"
  by (induction recursive pending found rule: scan_directories.induct) (simp_all add: Let_def)

text \<open>
  C36: the scan of a directory finds every PDF file exactly once. It fails if and only if a directory
  that it has to list cannot be listed; otherwise it returns the regular files and the links that are
  not dangling and have the suffix \<open>.pdf\<close>, those of the subdirectories if and only if asked for
  them, in the order of their paths without regard to case, however deep the tree is and in whatever
  order the loop visits it.
\<close>

theorem directory_scan_exact:
  "(case iter_local_pdf_files recursive p (Some es) of
      Inl e \<Rightarrow> e = cannot_list \<and> \<not> listable_in recursive es
    | Inr files \<Rightarrow> listable_in recursive es \<and> mset files = mset (pdf_files_in recursive p es)
        \<and> sorted (map path_order files))"
  using scan_result [of recursive "[(p, Some es)]" "[]"] scan_fails [of recursive "[(p, Some es)]" "[]"]
  by (simp add: iter_local_pdf_files_def pending_Cons pending_listable_def pending_files_def split: sum.splits)

end
