(* ===== verification/Ingest_Batches.thy ===== *)
theory Ingest_Batches
  imports Directory_Scan
begin

text \<open>
  \<open>app/services/ingest_batches.py\<close>, the ingest of a directory: \<open>queue_local_ingest_directory\<close> gives
  each PDF file of a directory to \<open>ingest_local_file\<close> and records what became of it as an item of a
  batch. The batch is committed before the first file and after every file.

  The directory does not change during the ingest. What other transactions do between the look-up of
  a digest and the insert is an argument for each path, as for a single file.
\<close>

section \<open>Rows\<close>

definition new_batch :: "uuid \<Rightarrow> path \<Rightarrow> bool \<Rightarrow> time \<Rightarrow> ingest_batch" where
  "new_batch i folder recursive now = \<lparr>batch_id = i, batch_source_type = ''local_directory'',
     batch_status = ''running'', batch_root_path = Some folder, batch_recursive = recursive,
     batch_file_count = 0, batch_queued_count = 0, batch_recovery_queued_count = 0,
     batch_duplicate_count = 0, batch_failed_count = 0, batch_error_message = None,
     batch_created_at = now, batch_completed_at = None\<rparr>"

definition add_batch :: "ingest_batch \<Rightarrow> db \<Rightarrow> db" where
  "add_batch b d = d\<lparr>db_batches := db_batches d @ [b]\<rparr>"

definition upd_batch :: "uuid \<Rightarrow> (ingest_batch \<Rightarrow> ingest_batch) \<Rightarrow> db \<Rightarrow> db" where
  "upd_batch i f d = d\<lparr>db_batches := update_row batch_id i f (db_batches d)\<rparr>"

definition add_batch_item :: "ingest_batch_item \<Rightarrow> db \<Rightarrow> db" where
  "add_batch_item x d = d\<lparr>db_batch_items := db_batch_items d @ [x]\<rparr>"

abbreviation get_batch :: "uuid \<Rightarrow> db \<Rightarrow> ingest_batch option" where
  "get_batch i d \<equiv> find_row batch_id i (db_batches d)"

section \<open>One file\<close>

text \<open>
  What the file system says of a path below a directory that was resolved: the path itself, unless it
  is a link.
\<close>

definition local_path_of :: "path \<times> fs_node \<Rightarrow> local_path" where
  "local_path_of f = \<lparr>lp_is_symlink = (case snd f of Link t \<Rightarrow> True | _ \<Rightarrow> False), lp_resolved = fst f,
     lp_is_file = (node_content (snd f) \<noteq> None), lp_below_root = True,
     lp_content = (case node_content (snd f) of Some c \<Rightarrow> c | None \<Rightarrow> [])\<rparr>"

text \<open>\<open>handle.read(1024 * 1024)\<close> until it returns nothing.\<close>

function file_chunks :: "nat \<Rightarrow> string \<Rightarrow> string list" where
  "file_chunks n s = (if s = [] \<or> n = 0 then [] else take n s # file_chunks n (drop n s))"
  by pat_completeness auto
termination by (relation "measure (\<lambda>(n, s). length s)") auto

declare file_chunks.simps [simp del]

definition relative_to :: "path \<Rightarrow> path \<Rightarrow> path" where
  "relative_to folder p = drop (Suc (length folder)) p"

definition success_status :: "upload_response \<Rightarrow> string" where
  "success_status payload =
     (if up_recovery_run payload \<and> up_run_id payload \<noteq> None then ''queued_recovery''
      else if up_duplicate payload \<and> up_run_id payload = None then ''duplicate'' else ''queued'')"

definition success_item ::
  "uuid \<Rightarrow> uuid \<Rightarrow> path \<Rightarrow> path \<times> fs_node \<Rightarrow> upload_response \<Rightarrow> nat \<Rightarrow> db \<Rightarrow> time \<Rightarrow> ingest_batch_item" where
  "success_item i batch folder f payload status d now = \<lparr>item_id = i, item_batch_id = batch,
     item_relative_path = relative_to folder (fst f), item_source_filename = path_name (fst f),
     item_source_path = fst f, item_file_size_bytes = node_size (snd f),
     item_sha256 = map_option doc_sha256 (get_document (up_document_id payload) d),
     item_status = success_status payload, item_status_code = Some status,
     item_document_id = Some (up_document_id payload), item_run_id = up_run_id payload,
     item_duplicate = up_duplicate payload, item_recovery_run = up_recovery_run payload,
     item_error_message = None, item_created_at = now\<rparr>"

definition count_success :: "upload_response \<Rightarrow> ingest_batch \<Rightarrow> ingest_batch" where
  "count_success payload b =
     (let b = b\<lparr>batch_file_count := batch_file_count b + 1\<rparr> in
      if up_recovery_run payload \<and> up_run_id payload \<noteq> None
      then b\<lparr>batch_recovery_queued_count := batch_recovery_queued_count b + 1\<rparr>
      else if up_duplicate payload \<and> up_run_id payload = None
      then b\<lparr>batch_duplicate_count := batch_duplicate_count b + 1\<rparr>
      else b\<lparr>batch_queued_count := batch_queued_count b + 1\<rparr>)"

definition record_batch_item_success ::
  "uuid \<Rightarrow> path \<times> fs_node \<Rightarrow> path \<Rightarrow> upload_response \<Rightarrow> nat \<Rightarrow> world \<Rightarrow> world" where
  "record_batch_item_success batch f folder payload status w =
     (let (i, w1) = take_id w;
          x = success_item i batch folder f payload status (w_db w) (w_clock w) in
      commit (on_db (upd_batch batch (count_success payload) \<circ> add_batch_item x) w1))"

definition failure_item ::
  "codecs \<Rightarrow> uuid \<Rightarrow> uuid \<Rightarrow> path \<Rightarrow> path \<times> fs_node \<Rightarrow> nat \<Rightarrow> string \<Rightarrow> time \<Rightarrow> ingest_batch_item" where
  "failure_item cx i batch folder f status message now = \<lparr>item_id = i, item_batch_id = batch,
     item_relative_path = relative_to folder (fst f), item_source_filename = path_name (fst f),
     item_source_path = fst f, item_file_size_bytes = node_size (snd f),
     item_sha256 = map_option (cx_sha256 cx) (node_content (snd f)), item_status = ''failed'',
     item_status_code = Some status, item_document_id = None, item_run_id = None,
     item_duplicate = False, item_recovery_run = False, item_error_message = Some message,
     item_created_at = now\<rparr>"

definition count_failure :: "ingest_batch \<Rightarrow> ingest_batch" where
  "count_failure b = b\<lparr>batch_file_count := batch_file_count b + 1, batch_failed_count := batch_failed_count b + 1\<rparr>"

definition record_batch_item_failure ::
  "codecs \<Rightarrow> uuid \<Rightarrow> path \<times> fs_node \<Rightarrow> path \<Rightarrow> nat \<Rightarrow> string \<Rightarrow> world \<Rightarrow> world" where
  "record_batch_item_failure cx batch f folder status message w =
     (let (i, w1) = take_id w;
          x = failure_item cx i batch folder f status message (w_clock w) in
      commit (on_db (upd_batch batch count_failure \<circ> add_batch_item x) w1))"

text \<open>\<open>str(exc.detail)\<close> of an error of the API; none of this path carries a context.\<close>

definition error_detail :: "codecs \<Rightarrow> string \<Rightarrow> string \<Rightarrow> string" where
  "error_detail cx code message = py_str cx (JObj [(''code'', JStr code), (''message'', JStr message)])"

definition ingest_batch_file ::
  "(path \<Rightarrow> db \<Rightarrow> db) \<Rightarrow> (string \<Rightarrow> int option) \<Rightarrow> codecs \<Rightarrow> settings \<Rightarrow> path \<Rightarrow> uuid \<Rightarrow> path \<Rightarrow>
   path \<times> fs_node \<Rightarrow> world \<Rightarrow> world" where
  "ingest_batch_file race pages cx st base batch folder f w =
     (case ingest_local_file (race (fst f)) pages cx st base (local_path_of f)
             (file_chunks (1024 * 1024) (lp_content (local_path_of f))) w of
        (w1, Inr (payload, status)) \<Rightarrow> record_batch_item_success batch f folder payload status w1
      | (w1, Inl (Http_Error status code message)) \<Rightarrow>
          record_batch_item_failure cx batch f folder status (error_detail cx code message) w1
      | (w1, Inl (Py_Error class value message)) \<Rightarrow>
          record_batch_item_failure cx batch f folder 500 message (rollback w1))"

fun ingest_batch_files ::
  "(path \<Rightarrow> db \<Rightarrow> db) \<Rightarrow> (string \<Rightarrow> int option) \<Rightarrow> codecs \<Rightarrow> settings \<Rightarrow> path \<Rightarrow> uuid \<Rightarrow> path \<Rightarrow>
   (path \<times> fs_node) list \<Rightarrow> world \<Rightarrow> world" where
  "ingest_batch_files race pages cx st base batch folder [] w = w"
| "ingest_batch_files race pages cx st base batch folder (f # fs) w =
     ingest_batch_files race pages cx st base batch folder fs
       (ingest_batch_file race pages cx st base batch folder f w)"

section \<open>The batch\<close>

definition fail_batch :: "string \<Rightarrow> time \<Rightarrow> ingest_batch \<Rightarrow> ingest_batch" where
  "fail_batch message now b =
     b\<lparr>batch_status := ''failed'', batch_error_message := Some message, batch_completed_at := Some now\<rparr>"

definition finish_batch :: "time \<Rightarrow> ingest_batch \<Rightarrow> ingest_batch" where
  "finish_batch now b =
     b\<lparr>batch_status := (if batch_failed_count b \<noteq> 0 then ''completed_with_errors'' else ''completed''),
       batch_completed_at := Some now\<rparr>"

text \<open>
  The state after the call, with the identifier of the batch whose detail is returned, or the error
  for the directory.
\<close>

definition queue_local_ingest_directory ::
  "(path \<Rightarrow> db \<Rightarrow> db) \<Rightarrow> (string \<Rightarrow> int option) \<Rightarrow> codecs \<Rightarrow> settings \<Rightarrow> path \<Rightarrow> ingest_directory \<Rightarrow> bool \<Rightarrow>
   world \<Rightarrow> world \<times> (exn + uuid)" where
  "queue_local_ingest_directory race pages cx st base directory recursive w =
     (case validate_local_ingest_directory directory of
        Inl e \<Rightarrow> (w, Inl e)
      | Inr folder \<Rightarrow>
          (let (batch, w0) = take_id w;
               w1 = commit (on_db (add_batch (new_batch batch folder recursive (w_clock w))) w0) in
           case iter_local_pdf_files recursive folder (dir_entries directory) of
             Inl e \<Rightarrow>
               (commit (on_db (upd_batch batch (fail_batch (''Directory scan failed: '' @ exn_message e) (w_clock w)))
                  (rollback w1)), Inr batch)
           | Inr [] \<Rightarrow>
               (commit (on_db (upd_batch batch (fail_batch ''No PDF files found in the directory.'' (w_clock w))) w1),
                Inr batch)
           | Inr files \<Rightarrow>
               (commit (on_db (upd_batch batch (finish_batch (w_clock w)))
                  (ingest_batch_files race pages cx st base batch folder files w1)), Inr batch)))"

section \<open>What one file does to the batch tables\<close>

definition batches_kept :: "(path \<Rightarrow> db \<Rightarrow> db) \<Rightarrow> bool" where
  "batches_kept race \<longleftrightarrow>
     (\<forall>p d. db_batches (race p d) = db_batches d \<and> db_batch_items (race p d) = db_batch_items d)"

text \<open>Nothing is pending, and the tables of the batches are as before.\<close>

definition settled :: "world \<Rightarrow> world \<Rightarrow> bool" where
  "settled w w' \<longleftrightarrow> w_saved w' = w_db w' \<and> w_clock w' = w_clock w
     \<and> db_batches (w_db w') = db_batches (w_db w) \<and> db_batch_items (w_db w') = db_batch_items (w_db w)"

lemma batch_tables [simp]:
  "db_batches (upd_run i f d) = db_batches d" "db_batches (upd_document i g d) = db_batches d"
  "db_batches (add_run r d) = db_batches d" "db_batches (add_document x d) = db_batches d"
  "db_batch_items (upd_run i f d) = db_batch_items d" "db_batch_items (upd_document i g d) = db_batch_items d"
  "db_batch_items (add_run r d) = db_batch_items d" "db_batch_items (add_document x d) = db_batch_items d"
  by (simp_all add: upd_run_def upd_document_def add_run_def add_document_def)

lemma resolve_settled:
  assumes "resolve_existing_document_upload i w = (w', res)" and "w_saved w = w_db w"
  shows "settled w w'"
    and "res = Inr (payload, status) \<Longrightarrow> up_run_id payload = None \<Longrightarrow> up_duplicate payload \<and> \<not> up_recovery_run payload"
  using assms
  by (auto simp: resolve_existing_document_upload_def create_run_for_locked_document_def take_id_def
      settled_def Let_def recovery_response_def build_duplicate_response_def split: option.splits if_splits)

lemma queue_settled:
  assumes "queue_document_run race base staged sha filename mime key scope None w = (w', Inr (payload, status))"
    and "w_saved w = w_db w" and "db_batches (rv_digest race (w_db w)) = db_batches (w_db w)"
    and "db_batch_items (rv_digest race (w_db w)) = db_batch_items (w_db w)"
  shows "settled w w' \<and> (up_run_id payload = None \<longrightarrow> up_duplicate payload \<and> \<not> up_recovery_run payload)"
proof (cases "document_with_sha sha (rv_digest race (w_db w))")
  case (Some x)
  let ?w0 = "delete_file_if_exists staged (others_commit (rv_digest race) w)"
  have "resolve_existing_document_upload (doc_id x) ?w0 = (w', Inr (payload, status))"
    using assms(1) Some by (simp add: queue_document_run_def Let_def)
  from resolve_settled [OF this] assms(2-4) show ?thesis by (simp add: settled_def)
next
  case None
  then show ?thesis
    using assms by (auto simp: queue_document_run_def take_id_def Let_def settled_def move_file_def)
qed

lemma resolve_clock: "resolve_existing_document_upload i w = (w', res) \<Longrightarrow> w_clock w' = w_clock w"
  by (auto simp: resolve_existing_document_upload_def create_run_for_locked_document_def take_id_def
      Let_def split: option.splits if_splits)

lemma queue_clock:
  "queue_document_run race base staged sha filename mime key scope None w = (w', res) \<Longrightarrow> w_clock w' = w_clock w"
  by (auto simp: queue_document_run_def take_id_def Let_def dest!: resolve_clock split: option.splits)

lemma admit_clock:
  "admit_staged_document race pages st base staged sha filename mime size_detail page_prefix key scope None w
     = (w', res) \<Longrightarrow> w_clock w' = w_clock w"
  by (auto simp: admit_staged_document_def fail_and_clean_def dest!: resolve_clock queue_clock
      split: option.splits sum.splits prod.splits)

lemma admit_settled:
  assumes adm: "admit_staged_document (digest_rival race) pages st base staged sha filename mime size_detail page_prefix
      key scope None w = (w', res)"
    and w: "w_saved w = w_db w"
    and kept: "\<And>d. db_batches (race d) = db_batches d" "\<And>d. db_batch_items (race d) = db_batch_items d"
  shows "settled w w' \<and> (\<forall>payload status. res = Inr (payload, status) \<longrightarrow> up_run_id payload = None \<longrightarrow>
      up_duplicate payload \<and> \<not> up_recovery_run payload)"
proof (cases res)
  case (Inl e)
  have "no_new_files_but staged (w\<lparr>w_files := (w_files w)(staged := None)\<rparr>) w"
    by (simp add: no_new_files_but_def)
  from admit_fails [OF adm [unfolded Inl] this w]
  have "w_db w' = w_saved w'" "w_db w' = w_db w \<or> w_db w' = race (w_db w)"
    by (auto simp: left_by_failure_def dest: digest_rival_only)
  with kept [of "w_db w"] admit_clock [OF adm] Inl show ?thesis by (metis settled_def sum.distinct(1))
next
  case (Inr r)
  show ?thesis
  proof (cases "document_with_sha sha (w_db w)")
    case (Some x)
    then obtain w1 where r: "resolve_existing_document_upload (doc_id x) (delete_file_if_exists staged w) = (w1, res)"
      "w' = w1"
      using adm Inr by (cases "resolve_existing_document_upload (doc_id x) (delete_file_if_exists staged w)")
        (auto simp: admit_staged_document_def fail_and_clean_def split: sum.splits)
    from resolve_settled [OF r(1)] w r(2) show ?thesis by (simp add: settled_def)
  next
    case None
    then have "queue_document_run (digest_rival race) base staged sha filename mime key scope None w = (w', Inr r)"
      using adm Inr by (auto simp: admit_staged_document_def fail_and_clean_def
          split: option.splits sum.splits prod.splits)
    from queue_settled [of "digest_rival race" base staged sha filename mime key scope w w' "fst r" "snd r"] this Inr w kept
    show ?thesis by (cases r) simp
  qed
qed

lemma local_file_settled:
  assumes "ingest_local_file race pages cx st base p chunks w = (w', res)" and "w_saved w = w_db w"
    and kept: "\<And>d. db_batches (race d) = db_batches d" "\<And>d. db_batch_items (race d) = db_batch_items d"
  shows "settled w w'"
    and "res = Inr (payload, status) \<Longrightarrow> up_run_id payload = None \<Longrightarrow> up_duplicate payload \<and> \<not> up_recovery_run payload"
proof -
  have "settled w w' \<and> (\<forall>payload status. res = Inr (payload, status) \<longrightarrow> up_run_id payload = None \<longrightarrow>
      up_duplicate payload \<and> \<not> up_recovery_run payload)"
  proof (cases "validate_local_ingest_path st p")
    case (Inl e)
    then show ?thesis using assms(1,2) by (auto simp: ingest_local_file_def settled_def)
  next
    case (Inr resolved)
    show ?thesis
    proof (cases "stage_file True (Some (set_local_ingest_max_file_bytes st))
        ''File exceeds local ingest size limit.'' chunks")
      case (Inl e)
      then show ?thesis using assms(1,2) Inr by (auto simp: ingest_local_file_def settled_def)
    next
      case staged: (Inr content)
      let ?p = "staged_path base (w_fresh w) (default_suffix resolved)"
      define v where "v = write_file ?p content (w\<lparr>w_fresh := w_fresh w + 1\<rparr>)"
      have v: "w_saved v = w_db v" "w_db v = w_db w" "w_clock v = w_clock w"
        using assms(2) by (simp_all add: v_def)
      have adm: "admit_staged_document (digest_rival race) pages st base ?p (cx_sha256 cx content) (path_name resolved)
          ''application/pdf'' ''File exceeds local ingest size limit.''
          ''PDF page count exceeds local ingest limit'' None CREATE_DOCUMENT_SCOPE None v = (w', res)"
        using assms(1) Inr staged by (simp add: ingest_local_file_def take_id_def v_def Let_def)
      from admit_settled [OF adm v(1) kept] v show ?thesis by (simp add: settled_def)
    qed
  qed
  then show "settled w w'"
    and "res = Inr (payload, status) \<Longrightarrow> up_run_id payload = None \<Longrightarrow> up_duplicate payload \<and> \<not> up_recovery_run payload"
    by blast+
qed

section \<open>The batch and its items\<close>

definition with_status :: "string \<Rightarrow> ingest_batch_item list \<Rightarrow> int" where
  "with_status s xs = int (length (filter (\<lambda>x. item_status x = s) xs))"

text \<open>The counters of a batch, advanced by some items.\<close>

definition tally :: "ingest_batch_item list \<Rightarrow> ingest_batch \<Rightarrow> ingest_batch" where
  "tally xs b = b\<lparr>
     batch_file_count := batch_file_count b + int (length xs),
     batch_queued_count := batch_queued_count b + with_status ''queued'' xs,
     batch_recovery_queued_count := batch_recovery_queued_count b + with_status ''queued_recovery'' xs,
     batch_duplicate_count := batch_duplicate_count b + with_status ''duplicate'' xs,
     batch_failed_count := batch_failed_count b + with_status ''failed'' xs\<rparr>"

text \<open>An item that records what became of a file.\<close>

definition item_for :: "uuid \<Rightarrow> path \<Rightarrow> time \<Rightarrow> path \<times> fs_node \<Rightarrow> ingest_batch_item \<Rightarrow> bool" where
  "item_for batch folder now f x \<longleftrightarrow> item_batch_id x = batch \<and> item_source_path x = fst f
     \<and> item_relative_path x = relative_to folder (fst f) \<and> item_file_size_bytes x = node_size (snd f)
     \<and> item_created_at x = now
     \<and> item_status x \<in> {''queued'', ''queued_recovery'', ''duplicate'', ''failed''}
     \<and> (item_status x = ''failed'' \<longleftrightarrow> item_document_id x = None)
     \<and> (item_status x = ''failed'' \<longleftrightarrow> item_error_message x \<noteq> None)
     \<and> (item_status x \<in> {''queued'', ''queued_recovery''} \<longleftrightarrow> item_run_id x \<noteq> None)
     \<and> (item_status x = ''duplicate'' \<longrightarrow> item_duplicate x)"

definition recorded :: "uuid \<Rightarrow> ingest_batch_item list \<Rightarrow> world \<Rightarrow> world \<Rightarrow> bool" where
  "recorded batch xs w w' \<longleftrightarrow> w_saved w' = w_db w' \<and> w_clock w' = w_clock w
     \<and> db_batches (w_db w') = update_row batch_id batch (tally xs) (db_batches (w_db w))
     \<and> db_batch_items (w_db w') = db_batch_items (w_db w) @ xs"

lemma tally_Nil [simp]: "tally [] b = b"
  by (simp add: tally_def with_status_def)

lemma tally_append: "tally (xs @ ys) b = tally ys (tally xs b)"
  by (simp add: tally_def with_status_def)

lemma tally_id [simp]: "batch_id (tally xs b) = batch_id b"
  by (simp add: tally_def)

lemma count_success_tally:
  "item_status x = success_status payload \<Longrightarrow> count_success payload = tally [x]"
  by (rule ext) (auto simp: count_success_def tally_def with_status_def success_status_def Let_def)

lemma count_failure_tally: "item_status x = ''failed'' \<Longrightarrow> count_failure = tally [x]"
  by (rule ext) (simp add: count_failure_def tally_def with_status_def)

lemma success_recorded:
  assumes "settled w w1" and "up_run_id payload = None \<Longrightarrow> up_duplicate payload \<and> \<not> up_recovery_run payload"
  shows "\<exists>x. item_for batch folder (w_clock w) f x
    \<and> recorded batch [x] w (record_batch_item_success batch f folder payload status w1)"
proof -
  let ?x = "success_item (w_fresh w1) batch folder f payload status (w_db w1) (w_clock w1)"
  have "item_for batch folder (w_clock w) f ?x"
    using assms by (auto simp: item_for_def success_item_def success_status_def settled_def)
  moreover have "count_success payload = tally [?x]"
    by (rule count_success_tally) (simp add: success_item_def)
  ultimately show ?thesis
    using assms(1) by (intro exI [of _ ?x]) (simp add: recorded_def settled_def record_batch_item_success_def
        take_id_def upd_batch_def add_batch_item_def)
qed

lemma failure_recorded:
  assumes "settled w w1"
  shows "\<exists>x. item_for batch folder (w_clock w) f x
    \<and> recorded batch [x] w (record_batch_item_failure cx batch f folder status message w1)"
proof -
  let ?x = "failure_item cx (w_fresh w1) batch folder f status message (w_clock w1)"
  have "item_for batch folder (w_clock w) f ?x"
    using assms by (simp add: item_for_def failure_item_def settled_def)
  moreover have "count_failure = tally [?x]" by (rule count_failure_tally) (simp add: failure_item_def)
  ultimately show ?thesis
    using assms by (intro exI [of _ ?x]) (simp add: recorded_def settled_def record_batch_item_failure_def
        take_id_def upd_batch_def add_batch_item_def)
qed

lemma file_recorded:
  assumes "w_saved w = w_db w" and "batches_kept race"
  shows "\<exists>x. item_for batch folder (w_clock w) f x
    \<and> recorded batch [x] w (ingest_batch_file race pages cx st base batch folder f w)"
proof -
  obtain w1 res where r: "ingest_local_file (race (fst f)) pages cx st base (local_path_of f)
      (file_chunks (1024 * 1024) (lp_content (local_path_of f))) w = (w1, res)" by fastforce
  have kept: "db_batches (race (fst f) d) = db_batches d"
    "db_batch_items (race (fst f) d) = db_batch_items d" for d
    using assms(2) by (simp_all add: batches_kept_def)
  note settled = local_file_settled [OF r assms(1) kept]
  have rolled: "settled w (rollback w1)" using settled(1) by (simp add: settled_def)
  show ?thesis
  proof (cases res)
    case (Inl e)
    then show ?thesis
      using r failure_recorded [OF settled(1)] failure_recorded [OF rolled]
      by (cases e) (simp_all add: ingest_batch_file_def)
  next
    case (Inr p)
    obtain payload status where p: "p = (payload, status)" by fastforce
    have "\<exists>x. item_for batch folder (w_clock w) f x
        \<and> recorded batch [x] w (record_batch_item_success batch f folder payload status w1)"
      by (rule success_recorded [OF settled(1)]) (use settled(2) Inr p in blast)+
    then show ?thesis using r Inr p by (simp add: ingest_batch_file_def)
  qed
qed

lemma tally_twice:
  "update_row batch_id b (tally ys) (update_row batch_id b (tally xs) rows) = update_row batch_id b (tally (xs @ ys)) rows"
  by (simp add: update_row_def tally_append)

lemma recorded_trans:
  "recorded batch xs w w1 \<Longrightarrow> recorded batch ys w1 w2 \<Longrightarrow> recorded batch (xs @ ys) w w2"
  by (auto simp: recorded_def tally_twice)

lemma files_recorded:
  "w_saved w = w_db w \<Longrightarrow> batches_kept race \<Longrightarrow>
   \<exists>xs. list_all2 (item_for batch folder (w_clock w)) fs xs
     \<and> recorded batch xs w (ingest_batch_files race pages cx st base batch folder fs w)"
proof (induction fs arbitrary: w)
  case Nil
  have "update_row batch_id batch (tally []) rows = rows" for rows
    by (simp add: update_row_def comp_def map_idI)
  then show ?case using Nil by (simp add: recorded_def)
next
  case (Cons f fs)
  let ?w = "ingest_batch_file race pages cx st base batch folder f w"
  obtain x where x: "item_for batch folder (w_clock w) f x" "recorded batch [x] w ?w"
    using file_recorded [OF Cons.prems] by blast
  obtain xs where xs: "list_all2 (item_for batch folder (w_clock w)) fs xs"
    "recorded batch xs ?w (ingest_batch_files race pages cx st base batch folder fs ?w)"
    using Cons.IH [of ?w] Cons.prems x(2) by (auto simp: recorded_def)
  show ?case using x xs recorded_trans [OF x(2) xs(2)] by (intro exI [of _ "x # xs"]) simp
qed

lemma status_partition:
  "list_all2 (item_for batch folder now) fs xs \<Longrightarrow> int (length xs) =
     with_status ''queued'' xs + with_status ''queued_recovery'' xs + with_status ''duplicate'' xs
     + with_status ''failed'' xs"
  by (induction rule: list_all2_induct) (auto simp: with_status_def item_for_def)

text \<open>The row of a batch: the counters are those of its items.\<close>

definition accounts_for :: "ingest_batch \<Rightarrow> ingest_batch_item list \<Rightarrow> bool" where
  "accounts_for b xs \<longleftrightarrow> batch_file_count b = int (length xs)
     \<and> batch_queued_count b = with_status ''queued'' xs
     \<and> batch_recovery_queued_count b = with_status ''queued_recovery'' xs
     \<and> batch_duplicate_count b = with_status ''duplicate'' xs
     \<and> batch_failed_count b = with_status ''failed'' xs
     \<and> batch_file_count b = batch_queued_count b + batch_recovery_queued_count b
          + batch_duplicate_count b + batch_failed_count b"

lemma tally_accounts:
  assumes "list_all2 (item_for batch folder now) fs xs"
  shows "accounts_for (tally xs (new_batch i p recursive t)) xs"
  using status_partition [OF assms] by (simp add: accounts_for_def tally_def new_batch_def)

lemma finish_accounts: "accounts_for (finish_batch t b) xs = accounts_for b xs"
  by (simp add: accounts_for_def finish_batch_def)

lemma batch_updated:
  "find_row batch_id i rows = None \<Longrightarrow> batch_id b = i \<Longrightarrow>
   (\<And>b. batch_id (f b) = batch_id b) \<Longrightarrow> find_row batch_id i (update_row batch_id i f (rows @ [b])) = Some (f b)"
  by (simp add: find_row_def update_row_def find_None_iff find_Some_iff nth_append)
     (force simp: less_Suc_eq nth_append)

text \<open>
  C15: the books of a batch balance. When a directory that passes the checks is ingested, whatever
  happens to each file and whatever documents other transactions add meanwhile, the call ends with
  everything committed and one new batch. Its new items are one for each PDF file the scan found, in
  that order, and each names the file, a status, and a run if and only if one was queued for it; the
  counters of the batch are the numbers of its items of each status and add up to the number of
  files. The batch has failed if the scan failed or found nothing, and otherwise ends with errors if
  and only if an item has failed.
\<close>

theorem directory_batch_accounted:
  assumes "queue_local_ingest_directory race pages cx st base directory recursive w = (w', Inr batch)"
    and "w_saved w = w_db w" and "batches_kept race" and "get_batch (w_fresh w) (w_db w) = None"
  shows "\<exists>b xs. get_batch batch (w_db w') = Some b \<and> w_saved w' = w_db w'
    \<and> db_batch_items (w_db w') = db_batch_items (w_db w) @ xs
    \<and> accounts_for b xs \<and> batch_completed_at b = Some (w_clock w)
    \<and> (case iter_local_pdf_files recursive (dir_path directory) (dir_entries directory) of
         Inl e \<Rightarrow> xs = [] \<and> batch_status b = ''failed''
       | Inr files \<Rightarrow> list_all2 (item_for batch (dir_path directory) (w_clock w)) files xs
           \<and> batch_status b = (if files = [] then ''failed''
               else if with_status ''failed'' xs \<noteq> 0 then ''completed_with_errors'' else ''completed''))"
proof -
  let ?p = "dir_path directory" and ?i = "w_fresh w"
  let ?scan = "iter_local_pdf_files recursive ?p (dir_entries directory)"
  let ?b = "new_batch ?i ?p recursive (w_clock w)"
  define w1 where "w1 = commit (on_db (add_batch ?b) (w\<lparr>w_fresh := ?i + 1\<rparr>))"
  have valid: "validate_local_ingest_directory directory = Inr ?p"
    using assms(1) by (auto simp: queue_local_ingest_directory_def validate_local_ingest_directory_def split: if_splits)
  have w1: "w_saved w1 = w_db w1" "w_clock w1 = w_clock w" "db_batches (w_db w1) = db_batches (w_db w) @ [?b]"
    "db_batch_items (w_db w1) = db_batch_items (w_db w)"
    by (simp_all add: w1_def add_batch_def)
  have row: "find_row batch_id ?i (update_row batch_id ?i f (db_batches (w_db w) @ [?b])) = Some (f ?b)"
    if "\<And>b. batch_id (f b) = batch_id b" for f
    using batch_updated [OF assms(4), of ?b f] that by (simp add: new_batch_def)
  have failed: "get_batch ?i (upd_batch ?i (fail_batch m t) (w_db w1)) = Some (fail_batch m t ?b)"
    and failed_items: "db_batch_items (upd_batch ?i (fail_batch m t) (w_db w1)) = db_batch_items (w_db w)" for m t
    using row [of "fail_batch m t"] w1 by (simp_all add: upd_batch_def fail_batch_def)
  have empty: "accounts_for (fail_batch m t ?b) []" for m t
    by (simp add: accounts_for_def fail_batch_def new_batch_def with_status_def)
  show ?thesis
  proof (cases ?scan)
    case (Inl e)
    then have "w' = commit (on_db (upd_batch ?i (fail_batch (''Directory scan failed: '' @ exn_message e) (w_clock w)))
        (rollback w1)) \<and> batch = ?i"
      using assms(1) valid by (auto simp: queue_local_ingest_directory_def take_id_def Let_def w1_def)
    with Inl failed failed_items empty w1 show ?thesis by (simp add: fail_batch_def)
  next
    case (Inr files)
    show ?thesis
    proof (cases "files = []")
      case True
      then have "w' = commit (on_db (upd_batch ?i (fail_batch ''No PDF files found in the directory.'' (w_clock w))) w1)
          \<and> batch = ?i"
        using assms(1) valid Inr by (auto simp: queue_local_ingest_directory_def take_id_def Let_def w1_def)
      with True Inr failed failed_items empty w1 show ?thesis by (simp add: fail_batch_def)
    next
      case False
      obtain xs where xs: "list_all2 (item_for ?i ?p (w_clock w)) files xs"
        "recorded ?i xs w1 (ingest_batch_files race pages cx st base ?i ?p files w1)"
        using files_recorded [OF w1(1) assms(3)] w1(2) by metis
      let ?w2 = "ingest_batch_files race pages cx st base ?i ?p files w1"
      have w': "w' = commit (on_db (upd_batch ?i (finish_batch (w_clock w))) ?w2)" "batch = ?i"
        using assms(1) valid Inr False
        by (auto simp: queue_local_ingest_directory_def take_id_def Let_def w1_def split: list.splits)
      have "update_row batch_id ?i (finish_batch t) (update_row batch_id ?i (tally xs) rows)
          = update_row batch_id ?i (finish_batch t \<circ> tally xs) rows" for t rows
        by (simp add: update_row_def)
      then have "get_batch ?i (w_db w') = Some (finish_batch (w_clock w) (tally xs ?b))"
        using row [of "finish_batch (w_clock w) \<circ> tally xs"] xs(2) w1(3)
        by (simp add: w' upd_batch_def recorded_def finish_batch_def)
      moreover have "accounts_for (finish_batch (w_clock w) (tally xs ?b)) xs"
        using tally_accounts [OF xs(1)] by (simp add: finish_accounts)
      ultimately show ?thesis
        using xs False w1 Inr w'
        by (auto simp: recorded_def upd_batch_def finish_batch_def tally_def new_batch_def)
    qed
  qed
qed

text \<open>A directory with a text that is named like a PDF file.\<close>

definition example_directory :: ingest_directory where
  "example_directory = \<lparr>dir_is_symlink = False, dir_path = ''/d'', dir_is_directory = True, dir_below_root = True,
     dir_entries = Some [(''b.txt'', Regular ''x''), (''a.PDF'', Regular ''hello''), (''c'', Directory None)]\<rparr>"

lemma example_scan:
  "iter_local_pdf_files False ''/d'' (dir_entries example_directory) = Inr [(''/d/a.PDF'', Regular ''hello'')]"
  by code_simp

theorem directory_batch_accounted_witness:
  "\<exists>b. get_batch 6 (w_db (fst (queue_local_ingest_directory (\<lambda>_. id) (\<lambda>_. Some 1) example_codecs default_settings
      ''store'' example_directory False empty_world))) = Some b \<and> batch_file_count b = 1"
proof -
  let ?r = "queue_local_ingest_directory (\<lambda>_. id) (\<lambda>_. Some 1) example_codecs default_settings
      ''store'' example_directory False empty_world"
  have e: "dir_path example_directory = ''/d''" "w_fresh empty_world = 6" "w_db empty_world = empty_db"
    "w_saved empty_world = empty_db" "db_batches empty_db = []"
    by (simp_all add: example_directory_def empty_world_def failed_example_def empty_db_def Let_def)
  have "validate_local_ingest_directory example_directory = Inr ''/d''"
    by (simp add: validate_local_ingest_directory_def example_directory_def)
  then have "?r = (fst ?r, Inr 6)"
    by (simp add: queue_local_ingest_directory_def e example_scan take_id_def)
  from directory_batch_accounted [OF this] show ?thesis
    by (auto simp: e example_scan batches_kept_def find_row_def accounts_for_def list_all2_Cons1)
qed

end
