(* ===== verification/Batch_Reports.thy ===== *)
theory Batch_Reports
  imports Ingest_Batches
begin

text \<open>
  \<open>app/services/ingest_batches.py\<close>, the reports on batches: what became of each item by now
  (\<open>_resolve_batch_item\<close>), the derived status of a batch, \<open>get_ingest_batch_detail\<close> and
  \<open>list_ingest_batches\<close>.

  The lemmas say what a reported status means in terms of the runs in the database. The last section
  shows a gap in it: a batch that is still being ingested is reported as completed.
\<close>

section \<open>What a report reads\<close>

record item_resolution =
  ir_status :: string
  ir_reason :: "string option"
  ir_document_id :: "uuid option"
  ir_run_id :: "uuid option"
  ir_at :: "time option"

type_synonym batch_row = "ingest_batch_item \<times> document_run option"

definition load_batch_rows :: "uuid \<Rightarrow> db \<Rightarrow> batch_row list" where
  "load_batch_rows batch d =
     map (\<lambda>x. (x, get_run_record (item_run_id x) d))
       (sort_key (\<lambda>x. (item_created_at x, item_relative_path x))
         (filter (\<lambda>x. item_batch_id x = batch) (db_batch_items d)))"

text \<open>\<open>dict(sorted(Counter(...).items()))\<close>.\<close>

definition sorted_counts :: "string list \<Rightarrow> (string \<times> nat) list" where
  "sorted_counts xs = map (\<lambda>x. (x, length (filter ((=) x) xs))) (sort (remdups xs))"

definition count_of :: "string \<Rightarrow> (string \<times> nat) list \<Rightarrow> nat" where
  "count_of k counts = (case dict_get counts k of None \<Rightarrow> 0 | Some n \<Rightarrow> n)"

definition run_status_label :: "batch_row \<Rightarrow> string list" where
  "run_status_label row = (case row of
       (x, Some r) \<Rightarrow> [run_status_value (run_status r)]
     | (x, None) \<Rightarrow>
         if item_status x = ''duplicate'' then [''duplicate_existing'']
         else if item_status x = ''failed'' then [''batch_failed''] else [])"

definition batch_run_status_counts :: "batch_row list \<Rightarrow> (string \<times> nat) list" where
  "batch_run_status_counts rows = sorted_counts (concat (map run_status_label rows))"

definition batch_resolution_counts :: "item_resolution list \<Rightarrow> (string \<times> nat) list" where
  "batch_resolution_counts rs = sorted_counts (map ir_status rs)"

text \<open>Dictionaries of rows by identifier are the lists of these rows.\<close>

definition load_referenced_documents :: "batch_row list \<Rightarrow> db \<Rightarrow> document list" where
  "load_referenced_documents rows d =
     filter (\<lambda>x. Some (doc_id x) \<in> item_document_id ` fst ` set rows) (db_documents d)"

text \<open>
  \<open>_load_matched_failed_item_documents\<close>: the stored digest of a rejected file, or the digest of the
  file as it is on disk now, identifies a document. \<open>disk\<close> is the content of the regular files that
  can be read.
\<close>

definition candidate_hash :: "codecs \<Rightarrow> (path \<Rightarrow> string option) \<Rightarrow> ingest_batch_item \<Rightarrow> string option" where
  "candidate_hash cx disk x =
     (case item_sha256 x of
        Some h \<Rightarrow> Some h
      | None \<Rightarrow> if item_source_path x = [] then None else map_option (cx_sha256 cx) (disk (item_source_path x)))"

definition rejected :: "ingest_batch_item \<Rightarrow> bool" where
  "rejected x = (item_status x = ''failed'' \<and> item_document_id x = None \<and> item_run_id x = None)"

definition load_matched_failed_item_documents ::
  "codecs \<Rightarrow> (path \<Rightarrow> string option) \<Rightarrow> batch_row list \<Rightarrow> db \<Rightarrow> (uuid \<times> document) list" where
  "load_matched_failed_item_documents cx disk rows d =
     concat (map (\<lambda>x.
         if \<not> rejected x \<or> \<not> str_truthy (candidate_hash cx disk x) then []
         else (case document_with_sha (the (candidate_hash cx disk x)) d of
             None \<Rightarrow> [] | Some y \<Rightarrow> [(item_id x, y)])) (map fst rows))"

definition load_referenced_runs :: "document list \<Rightarrow> db \<Rightarrow> document_run list" where
  "load_referenced_runs documents d =
     filter (\<lambda>r. Some (run_id r) \<in> doc_active_run_id ` set documents \<union> doc_latest_run_id ` set documents)
       (db_runs d)"

definition referenced_run :: "document_run list \<Rightarrow> uuid option \<Rightarrow> document_run option" where
  "referenced_run runs i = (case i of None \<Rightarrow> None | Some r \<Rightarrow> find_row run_id r runs)"

definition batch_item_resolution_context ::
  "document list \<Rightarrow> (uuid \<times> document) list \<Rightarrow> document_run list \<Rightarrow> ingest_batch_item \<Rightarrow>
   document option \<times> document_run option \<times> document_run option" where
  "batch_item_resolution_context documents matched runs x =
     (let document = (case item_document_id x of
            Some i \<Rightarrow> find_row doc_id i documents | None \<Rightarrow> dict_get matched (item_id x)) in
      case document of
        None \<Rightarrow> (None, None, None)
      | Some y \<Rightarrow> (document, referenced_run runs (doc_active_run_id y), referenced_run runs (doc_latest_run_id y)))"

section \<open>The resolution of an item\<close>

definition is_in_flight :: "document_run option \<Rightarrow> bool" where
  "is_in_flight r = (case r of None \<Rightarrow> False | Some x \<Rightarrow> inflight x)"

definition has_status :: "run_status \<Rightarrow> document_run option \<Rightarrow> bool" where
  "has_status s r = (case r of None \<Rightarrow> False | Some x \<Rightarrow> run_status x = s)"

definition completed_at_of :: "document_run option \<Rightarrow> time option" where
  "completed_at_of r = (case r of None \<Rightarrow> None | Some x \<Rightarrow> run_completed_at x)"

definition resolution ::
  "string \<Rightarrow> string \<Rightarrow> uuid option \<Rightarrow> document_run option \<Rightarrow> time option \<Rightarrow> item_resolution" where
  "resolution status reason document run t =
     \<lparr>ir_status = status, ir_reason = Some reason, ir_document_id = document,
      ir_run_id = map_option run_id run, ir_at = t\<rparr>"

definition resolve_failed_item ::
  "document option \<Rightarrow> document_run option \<Rightarrow> document_run option \<Rightarrow> item_resolution" where
  "resolve_failed_item document active latest =
     (case document of
        None \<Rightarrow> resolution ''failed'' ''ingest_rejected'' None None None
      | Some y \<Rightarrow>
          (let i = Some (doc_id y); run = or_else active latest in
           if is_in_flight run then resolution ''running'' ''matched_document_reprocessing'' i run None
           else if has_status Completed active
           then resolution ''recovered'' ''matched_successful_document_by_checksum'' i active (completed_at_of active)
           else if has_status Completed latest
           then resolution ''recovered'' ''matched_successful_document_by_checksum'' i latest (completed_at_of latest)
           else resolution ''failed'' ''matched_failed_document_by_checksum'' i latest (completed_at_of latest)))"

text \<open>The run that replaced a failed one: a different active run, or else a different latest run.\<close>

definition winning_run ::
  "document_run \<Rightarrow> document_run option \<Rightarrow> document_run option \<Rightarrow> document_run option" where
  "winning_run current active latest =
     (if active \<noteq> None \<and> map_option run_id active \<noteq> Some (run_id current) then active
      else if latest \<noteq> None \<and> map_option run_id latest \<noteq> Some (run_id current) then latest
      else None)"

definition resolve_batch_item ::
  "ingest_batch_item \<Rightarrow> document_run option \<Rightarrow> document option \<Rightarrow> document_run option \<Rightarrow> document_run option \<Rightarrow>
   item_resolution" where
  "resolve_batch_item x current document active latest =
     (let owner = (case document of Some y \<Rightarrow> Some (doc_id y) | None \<Rightarrow> item_document_id x);
          done = (if item_recovery_run x then ''recovered'' else ''completed'') in
      if item_status x = ''failed'' then resolve_failed_item document active latest
      else if item_duplicate x \<and> item_run_id x = None
      then (let run = or_else active latest in
        resolution ''duplicate'' ''existing_document_reused'' (item_document_id x) run (completed_at_of run))
      else if is_in_flight current
      then resolution ''running'' ''run_in_progress'' (item_document_id x) current None
      else if has_status Completed current
      then resolution done ''run_completed'' (item_document_id x) current (completed_at_of current)
      else if is_in_flight latest
      then resolution ''running'' ''followup_run_in_progress'' owner latest None
      else if has_status Failed current \<and> has_status Completed (winning_run (the current) active latest)
      then (let run = winning_run (the current) active latest in
        resolution ''recovered'' ''superseded_by_later_successful_run'' owner run (completed_at_of run))
      else if has_status Completed active
      then resolution done ''active_run_available'' owner active (completed_at_of active)
      else resolution ''failed'' ''run_failed_without_successor'' (item_document_id x) current (completed_at_of current))"

section \<open>The report\<close>

definition IN_FLIGHT_RUN_STATUSES :: "string list" where
  "IN_FLIGHT_RUN_STATUSES = map run_status_value [Queued, Processing, Validating, Retry_Wait]"

definition derive_batch_status ::
  "ingest_batch \<Rightarrow> (string \<times> nat) list \<Rightarrow> (string \<times> nat) list option \<Rightarrow> string" where
  "derive_batch_status b run_counts resolution_counts =
     (if batch_status b = ''failed'' then ''failed''
      else (case resolution_counts of
          Some counts \<Rightarrow>
            if count_of ''running'' counts > 0 then ''running''
            else if count_of ''failed'' counts > 0 then ''completed_with_errors'' else ''completed''
        | None \<Rightarrow>
            if \<exists>s \<in> set IN_FLIGHT_RUN_STATUSES. count_of s run_counts > 0 then ''running''
            else if batch_failed_count b > 0 \<or> count_of (run_status_value Failed) run_counts > 0
            then ''completed_with_errors'' else ''completed''))"

definition latest_time :: "time option \<Rightarrow> time list \<Rightarrow> time option" where
  "latest_time t ts = (case (case t of None \<Rightarrow> ts | Some x \<Rightarrow> x # ts) of
     [] \<Rightarrow> None | x # xs \<Rightarrow> Some (list_max x (x # xs)))"

definition derive_batch_completed_at ::
  "ingest_batch \<Rightarrow> batch_row list \<Rightarrow> item_resolution list \<Rightarrow> string \<Rightarrow> time option" where
  "derive_batch_completed_at b rows rs status =
     (let runs = List.map_filter (\<lambda>(x, r). completed_at_of r) rows;
          resolved = List.map_filter ir_at rs in
      if status = ''running'' then None
      else if runs \<noteq> [] then latest_time (batch_completed_at b) (runs @ resolved)
      else if resolved \<noteq> [] then latest_time (batch_completed_at b) resolved
      else batch_completed_at b)"

record batch_item_report =
  rep_item :: ingest_batch_item
  rep_run_status :: "string option"
  rep_resolution :: item_resolution

record batch_report =
  rep_batch :: ingest_batch
  rep_status :: string
  rep_run_status_counts :: "(string \<times> nat) list"
  rep_resolution_counts :: "(string \<times> nat) list"
  rep_completed_at :: "time option"

text \<open>The resolutions of the rows, computed once for the summary and once more for the items.\<close>

definition resolve_rows ::
  "codecs \<Rightarrow> (path \<Rightarrow> string option) \<Rightarrow> batch_row list \<Rightarrow> db \<Rightarrow> item_resolution list" where
  "resolve_rows cx disk rows d =
     (let documents = load_referenced_documents rows d;
          matched = load_matched_failed_item_documents cx disk rows d;
          runs = load_referenced_runs (documents @ map snd matched) d in
      map (\<lambda>(x, run). case batch_item_resolution_context documents matched runs x of
          (document, active, latest) \<Rightarrow> resolve_batch_item x run document active latest) rows)"

definition to_batch_summary ::
  "codecs \<Rightarrow> (path \<Rightarrow> string option) \<Rightarrow> ingest_batch \<Rightarrow> batch_row list \<Rightarrow> db \<Rightarrow> batch_report" where
  "to_batch_summary cx disk b rows d =
     (let run_counts = batch_run_status_counts rows;
          rs = resolve_rows cx disk rows d;
          counts = batch_resolution_counts rs;
          status = derive_batch_status b run_counts (Some counts) in
      \<lparr>rep_batch = b, rep_status = status, rep_run_status_counts = run_counts,
       rep_resolution_counts = counts, rep_completed_at = derive_batch_completed_at b rows rs status\<rparr>)"

definition batch_not_found :: exn where
  "batch_not_found = Http_Error 404 ''ingest_batch_not_found'' ''Ingest batch not found.''"

definition get_ingest_batch_detail ::
  "codecs \<Rightarrow> (path \<Rightarrow> string option) \<Rightarrow> uuid \<Rightarrow> db \<Rightarrow> exn + batch_report \<times> batch_item_report list" where
  "get_ingest_batch_detail cx disk batch d =
     (case get_batch batch d of
        None \<Rightarrow> Inl batch_not_found
      | Some b \<Rightarrow>
          (let rows = load_batch_rows batch d in
           Inr (to_batch_summary cx disk b rows d,
             map (\<lambda>((x, run), r). \<lparr>rep_item = x,
                 rep_run_status = map_option (\<lambda>r. run_status_value (run_status r)) run, rep_resolution = r\<rparr>)
               (zip rows (resolve_rows cx disk rows d)))))"

definition list_ingest_batches ::
  "codecs \<Rightarrow> (path \<Rightarrow> string option) \<Rightarrow> nat \<Rightarrow> db \<Rightarrow> batch_report list" where
  "list_ingest_batches cx disk limit d =
     map (\<lambda>b. to_batch_summary cx disk b (load_batch_rows (batch_id b) d) d)
       (take limit (sort_key (\<lambda>b. - batch_created_at b) (db_batches d)))"

text \<open>What the ingest of a directory answers: the report on the new batch.\<close>

definition queue_local_ingest_directory_report ::
  "(path \<Rightarrow> db \<Rightarrow> db) \<Rightarrow> (string \<Rightarrow> int option) \<Rightarrow> codecs \<Rightarrow> settings \<Rightarrow> path \<Rightarrow> (path \<Rightarrow> string option) \<Rightarrow>
   ingest_directory \<Rightarrow> bool \<Rightarrow> world \<Rightarrow> world \<times> (exn + batch_report \<times> batch_item_report list)" where
  "queue_local_ingest_directory_report race pages cx st base disk directory recursive w =
     (case queue_local_ingest_directory race pages cx st base directory recursive w of
        (w', Inl e) \<Rightarrow> (w', Inl e)
      | (w', Inr batch) \<Rightarrow> (w', get_ingest_batch_detail cx disk batch (w_db w')))"

section \<open>What a resolution means\<close>

text \<open>The runs in the database that have the identifier of a resolution and a given property.\<close>

definition backed_by :: "db \<Rightarrow> (document_run \<Rightarrow> bool) \<Rightarrow> item_resolution \<Rightarrow> bool" where
  "backed_by d P r \<longleftrightarrow> (\<exists>run \<in> set (db_runs d). ir_run_id r = Some (run_id run) \<and> P run)"

definition resolution_sound :: "db \<Rightarrow> ingest_batch_item \<Rightarrow> item_resolution \<Rightarrow> bool" where
  "resolution_sound d x r \<longleftrightarrow>
     (ir_status r = ''running'' \<and> backed_by d inflight r \<and> ir_at r = None)
     \<or> (ir_status r \<in> {''completed'', ''recovered''} \<and> backed_by d (\<lambda>run. run_status run = Completed) r)
     \<or> (ir_status r = ''duplicate'' \<and> item_duplicate x \<and> item_run_id x = None)
     \<or> ir_status r = ''failed''"

lemma is_in_flight_backed:
  "is_in_flight run \<Longrightarrow> (\<And>r. run = Some r \<Longrightarrow> r \<in> set (db_runs d)) \<Longrightarrow>
   resolution_sound d x (resolution ''running'' reason i run None)"
  by (auto simp: is_in_flight_def resolution_def resolution_sound_def backed_by_def split: option.splits)

lemma completed_backed:
  "has_status Completed run \<Longrightarrow> (\<And>r. run = Some r \<Longrightarrow> r \<in> set (db_runs d)) \<Longrightarrow>
   status \<in> {''completed'', ''recovered''} \<Longrightarrow> resolution_sound d x (resolution status reason i run t)"
  by (cases run) (simp_all add: has_status_def resolution_def resolution_sound_def backed_by_def bexI)

lemma failed_sound: "resolution_sound d x (resolution ''failed'' reason i run t)"
  by (simp add: resolution_def resolution_sound_def)

lemma resolve_sound:
  assumes "\<And>r. current = Some r \<Longrightarrow> r \<in> set (db_runs d)" and "\<And>r. active = Some r \<Longrightarrow> r \<in> set (db_runs d)"
    and "\<And>r. latest = Some r \<Longrightarrow> r \<in> set (db_runs d)"
  shows "resolution_sound d x (resolve_batch_item x current document active latest)"
proof -
  have either: "or_else active latest = Some r \<Longrightarrow> r \<in> set (db_runs d)" for r
    using assms(2,3) by (cases active) auto
  have winner: "winning_run c active latest = Some r \<Longrightarrow> r \<in> set (db_runs d)" for c r
    using assms(2,3) by (auto simp: winning_run_def split: if_splits)
  note in_flight = is_in_flight_backed [of _ d x] and finished = completed_backed [of _ d]
  have failed: "resolution_sound d x (resolve_failed_item document active latest)"
    using in_flight [OF _ either] finished [OF _ assms(2)] finished [OF _ assms(3)]
    by (simp add: resolve_failed_item_def Let_def failed_sound split: option.split)
  have duplicate: "item_duplicate x \<Longrightarrow> item_run_id x = None \<Longrightarrow>
      resolution_sound d x (resolution ''duplicate'' reason i run t)" for reason i run t
    by (simp add: resolution_def resolution_sound_def)
  show ?thesis
    unfolding resolve_batch_item_def Let_def
    using in_flight [OF _ assms(1)] in_flight [OF _ assms(3)] finished [OF _ assms(1)] finished [OF _ assms(2)]
      finished [OF _ winner] failed duplicate
    by (simp add: failed_sound)
qed

lemma referenced_in: "referenced_run (load_referenced_runs documents d) i = Some r \<Longrightarrow> r \<in> set (db_runs d)"
  by (auto simp: referenced_run_def load_referenced_runs_def dest: find_row_Some split: option.splits)

lemma context_in:
  assumes "batch_item_resolution_context documents matched (load_referenced_runs ds d) x = (document, active, latest)"
  shows "active = Some r \<Longrightarrow> r \<in> set (db_runs d)" and "latest = Some r \<Longrightarrow> r \<in> set (db_runs d)"
  using assms referenced_in
  by (auto simp: batch_item_resolution_context_def Let_def split: option.splits)

lemma rows_in: "(x, Some r) \<in> set (load_batch_rows batch d) \<Longrightarrow> r \<in> set (db_runs d)"
  by (auto simp: load_batch_rows_def get_run_record_def dest: find_row_Some find_row_Some [OF sym] split: option.splits)

lemma rows_resolved:
  assumes "rows = load_batch_rows batch d"
  shows "list_all2 (\<lambda>(x, run) r. resolution_sound d x r) rows (resolve_rows cx disk rows d)"
proof -
  have "resolution_sound d x (case batch_item_resolution_context documents matched (load_referenced_runs ds d) x of
      (document, active, latest) \<Rightarrow> resolve_batch_item x run document active latest)"
    if "(x, run) \<in> set rows" for x run documents matched ds
    using that assms rows_in context_in
    by (auto split: prod.split intro!: resolve_sound)
  then show ?thesis
    by (auto simp: resolve_rows_def Let_def list_all2_map2 list.rel_map intro!: list.rel_refl_strong)
qed

lemma count_of_sorted: "count_of k (sorted_counts xs) = length (filter ((=) k) xs)"
proof -
  have "map_of (map (\<lambda>x. (x, f x)) ys) k = (if k \<in> set ys then Some (f k) else None)" for f :: "string \<Rightarrow> nat" and ys
    by (induction ys) auto
  moreover have "filter ((=) k) xs = []" if "k \<notin> set xs" using that by (auto simp: filter_empty_conv)
  ultimately show ?thesis by (simp add: count_of_def sorted_counts_def)
qed

lemma sum_sorted: "sum_list (map snd (sorted_counts xs)) = length xs"
proof -
  have "sum_list (map (\<lambda>x. length (filter ((=) x) xs)) (sort (remdups xs)))
      = (\<Sum>x \<in> set xs. count_list xs x)"
    by (simp add: sum_list_distinct_conv_sum_set count_list_eq_length_filter)
  also have "\<dots> = length xs" by (rule sum_count_set) simp_all
  finally show ?thesis by (simp add: sorted_counts_def comp_def)
qed

text \<open>
  C16: a report on a batch tells the truth about the runs. Every item is resolved to one of five
  statuses: running only if its run is in flight in the database, completed or recovered only if the
  run it names is completed, duplicate only if the file was already known when it was ingested. The
  counts add up to the number of items. Unless the batch as a whole has failed, it is reported as
  running if and only if an item is, without a completion time, and as completed if and only if every
  item is completed, recovered or a duplicate.
\<close>

theorem batch_report_sound:
  assumes "get_ingest_batch_detail cx disk batch d = Inr (rep, items)"
  shows "map rep_item items = map fst (load_batch_rows batch d)
    \<and> (\<forall>i \<in> set items. resolution_sound d (rep_item i) (rep_resolution i))
    \<and> sum_list (map snd (rep_resolution_counts rep)) = length items
    \<and> (batch_status (rep_batch rep) \<noteq> ''failed'' \<longrightarrow>
        (rep_status rep = ''running'' \<longleftrightarrow> (\<exists>i \<in> set items. ir_status (rep_resolution i) = ''running''))
        \<and> (rep_status rep = ''completed'' \<longleftrightarrow>
             (\<forall>i \<in> set items. ir_status (rep_resolution i) \<in> {''completed'', ''recovered'', ''duplicate''}))
        \<and> (rep_status rep = ''running'' \<longrightarrow> rep_completed_at rep = None))"
proof -
  let ?rows = "load_batch_rows batch d"
  define rs where "rs = resolve_rows cx disk ?rows d"
  have sound: "list_all2 (\<lambda>(x, run) r. resolution_sound d x r) ?rows rs"
    unfolding rs_def by (rule rows_resolved) simp
  then have len: "length ?rows = length rs" by (rule list_all2_lengthD)
  obtain b where rep: "rep = to_batch_summary cx disk b ?rows d" "get_batch batch d = Some b"
    and items: "items = map (\<lambda>((x, run), r). \<lparr>rep_item = x,
        rep_run_status = map_option (\<lambda>r. run_status_value (run_status r)) run, rep_resolution = r\<rparr>) (zip ?rows rs)"
    using assms by (auto simp: get_ingest_batch_detail_def Let_def rs_def split: option.splits)
  have names: "map rep_item items = map fst ?rows" and resolved: "map rep_resolution items = rs"
    using len by (auto simp: items intro!: nth_equalityI split: prod.split)
  have each: "\<forall>i \<in> set items. resolution_sound d (rep_item i) (rep_resolution i)"
    using sound by (auto simp: items list_all2_iff split: prod.splits)
  have counts: "rep_resolution_counts rep = sorted_counts (map ir_status rs)"
    by (simp add: rep to_batch_summary_def batch_resolution_counts_def rs_def Let_def)
  have some: "count_of k (sorted_counts (map ir_status rs)) > 0 \<longleftrightarrow> (\<exists>i \<in> set items. ir_status (rep_resolution i) = k)" for k
    unfolding count_of_sorted resolved [symmetric] by (auto simp: filter_empty_conv)
  have status: "rep_status rep = derive_batch_status (rep_batch rep) (batch_run_status_counts ?rows)
      (Some (sorted_counts (map ir_status rs)))"
    by (simp add: rep to_batch_summary_def batch_resolution_counts_def rs_def Let_def)
  have time: "rep_status rep = ''running'' \<longrightarrow> rep_completed_at rep = None"
    by (simp add: rep to_batch_summary_def derive_batch_completed_at_def Let_def)
  have five: "\<forall>i \<in> set items. ir_status (rep_resolution i)
      \<in> {''running'', ''completed'', ''recovered'', ''duplicate'', ''failed''}"
    using each by (auto simp: resolution_sound_def)
  have main: "(rep_status rep = ''running'' \<longleftrightarrow> (\<exists>i \<in> set items. ir_status (rep_resolution i) = ''running''))
      \<and> (rep_status rep = ''completed'' \<longleftrightarrow>
           \<not> (\<exists>i \<in> set items. ir_status (rep_resolution i) \<in> {''running'', ''failed''}))"
    if "batch_status (rep_batch rep) \<noteq> ''failed''"
    using that unfolding status derive_batch_status_def some [symmetric] by (auto simp: some)
  have "(\<not> (\<exists>i \<in> set items. ir_status (rep_resolution i) \<in> {''running'', ''failed''})) \<longleftrightarrow>
      (\<forall>i \<in> set items. ir_status (rep_resolution i) \<in> {''completed'', ''recovered'', ''duplicate''})"
    using five by fastforce
  moreover have "sum_list (map snd (rep_resolution_counts rep)) = length items"
    using resolved by (simp add: counts sum_sorted flip: resolved)
  ultimately show ?thesis using names each time main by simp
qed

text \<open>A batch of one file whose run is completed.\<close>

definition reported_example :: db where
  "reported_example =
     (let y = (new_document 1 ''a.pdf'' ''sha'' ''application/pdf'' 0)
            \<lparr>doc_active_run_id := Some 2, doc_latest_run_id := Some 2\<rparr>;
          r = (new_run 2 1 1 0)\<lparr>run_status := Completed, run_completed_at := Some 9\<rparr>;
          payload = \<lparr>up_document_id = 1, up_run_id = Some 2, up_status = ''queued'', up_duplicate = False,
            up_recovery_run = False, up_active_run_id = None, up_active_run_status = None\<rparr>;
          d = empty_db\<lparr>db_documents := [y], db_runs := [r]\<rparr>;
          x = success_item 4 3 ''/d'' (''/d/a.pdf'', Regular ''x'') payload 202 d 0 in
      d\<lparr>db_batches := [finish_batch 5 (count_success payload (new_batch 3 ''/d'' False 0))], db_batch_items := [x]\<rparr>)"

theorem batch_report_sound_witness:
  "\<exists>rep i. get_ingest_batch_detail example_codecs (\<lambda>_. None) 3 reported_example = Inr (rep, [i])
    \<and> rep_status rep = ''completed'' \<and> resolution_sound reported_example (rep_item i) (rep_resolution i)"
proof -
  have "map_sum id (\<lambda>(rep, items). (rep_status rep, length items))
      (get_ingest_batch_detail example_codecs (\<lambda>_. None) 3 reported_example) = Inr (''completed'', 1)"
    by code_simp
  then obtain rep items where r: "get_ingest_batch_detail example_codecs (\<lambda>_. None) 3 reported_example = Inr (rep, items)"
    "rep_status rep = ''completed''" "length items = 1"
    by (cases "get_ingest_batch_detail example_codecs (\<lambda>_. None) 3 reported_example") auto
  then obtain i where "items = [i]" by (auto simp: length_Suc_conv)
  with batch_report_sound [OF r(1)] r show ?thesis by auto
qed

text \<open>
  A gap in the derived status. Between the two commits of \<open>queue_local_ingest_directory\<close> the row of
  a batch says \<open>running\<close>, but a report does not look at it: before the first file is recorded, the
  report says \<open>completed\<close>, and after a worker died in the middle it says so for ever.
\<close>

theorem unfinished_batch_reported_completed:
  assumes "get_batch i d = None" and "\<forall>x \<in> set (db_batch_items d). item_batch_id x \<noteq> i"
  shows "\<exists>rep. get_ingest_batch_detail cx disk i (add_batch (new_batch i p recursive now) d) = Inr (rep, [])
    \<and> batch_status (rep_batch rep) = ''running'' \<and> rep_status rep = ''completed'' \<and> rep_completed_at rep = None"
proof -
  let ?d = "add_batch (new_batch i p recursive now) d"
  have "get_batch i ?d = Some (new_batch i p recursive now)"
    using batch_updated [OF assms(1), of "new_batch i p recursive now" "\<lambda>b. b"]
    by (simp add: add_batch_def new_batch_def update_row_def)
  moreover have "load_batch_rows i ?d = []"
    using assms(2) by (simp add: load_batch_rows_def add_batch_def filter_empty_conv)
  ultimately show ?thesis
    by (simp add: get_ingest_batch_detail_def to_batch_summary_def resolve_rows_def Let_def
        derive_batch_status_def batch_resolution_counts_def sorted_counts_def count_of_def
        derive_batch_completed_at_def map_filter_simps new_batch_def)
qed

end
