(* ===== verification/Integrity_Audit.thy ===== *)
theory Integrity_Audit
  imports Run_System Run_Faithful
begin

text \<open>
  \<open>app/services/audit.py\<close>: the integrity audit an operator runs over the documents, runs, tables,
  figures and files of the service. Evaluations are written by code that is not modelled, so the
  rows of \<open>document_run_evaluations\<close> are an argument. A path exists when there is a file under it.

  The lemmas relate the audit to the services it watches: no state the fenced service reaches has
  a violation about active runs, and what a worker leaves behind is accepted, but for the gaps
  in the audit's own tables that the last section pins down.
\<close>

section \<open>Tables of the audit\<close>

definition KNOWN_FAILURE_STAGES :: "string list" where
  "KNOWN_FAILURE_STAGES =
     [''artifact_write'', ''chunk_persist'', ''embedding'', ''figure_persist'', ''parse'', ''promotion'',
      ''run_persist'', ''stale_lease'', ''table_persist'', ''validation'']"

definition REQUIRED_FAILURE_ARTIFACT_FIELDS :: "string list" where
  "REQUIRED_FAILURE_ARTIFACT_FIELDS =
     [''attempts'', ''created_at'', ''document_id'', ''error_message'', ''failure_stage'', ''failure_type'',
      ''run_id'', ''schema_version'', ''status'', ''validation_results'']"

record audit_violation =
  av_code :: string
  av_message :: string
  av_document_id :: "uuid option"
  av_run_id :: "uuid option"

definition violation :: "string \<Rightarrow> string \<Rightarrow> uuid \<Rightarrow> uuid \<Rightarrow> audit_violation" where
  "violation code message document run = \<lparr>av_code = code, av_message = message,
     av_document_id = Some document, av_run_id = Some run\<rparr>"

definition violation_to_dict :: "audit_violation \<Rightarrow> dict" where
  "violation_to_dict v = [
     (''code'', JStr (av_code v)),
     (''message'', JStr (av_message v)),
     (''document_id'', case av_document_id v of None \<Rightarrow> JNull | Some i \<Rightarrow> JStr (show_nat i)),
     (''run_id'', case av_run_id v of None \<Rightarrow> JNull | Some i \<Rightarrow> JStr (show_nat i))]"

section \<open>What is audited\<close>

text \<open>A row of a table or figure, reduced to what the audit selects.\<close>

record artifact_row =
  ar_document_id :: uuid
  ar_run_id :: uuid
  ar_json_path :: "path option"
  ar_yaml_path :: "path option"

record audit_context =
  ac_documents :: "document list"
  ac_runs :: "document_run list"
  ac_chunks :: "uuid list"
  ac_tables :: "artifact_row list"
  ac_figures :: "artifact_row list"
  ac_evaluations :: "(uuid \<times> time) list"

definition audited_table_row :: "document_table \<Rightarrow> artifact_row" where
  "audited_table_row t = \<lparr>ar_document_id = table_document_id t, ar_run_id = table_run_id t,
     ar_json_path = table_json_path t, ar_yaml_path = table_yaml_path t\<rparr>"

definition audited_figure_row :: "document_figure \<Rightarrow> artifact_row" where
  "audited_figure_row f = \<lparr>ar_document_id = figure_document_id f, ar_run_id = figure_run_id f,
     ar_json_path = figure_json_path f, ar_yaml_path = figure_yaml_path f\<rparr>"

definition load_audit_context :: "(uuid \<times> time) list \<Rightarrow> db \<Rightarrow> audit_context" where
  "load_audit_context evaluations d = \<lparr>ac_documents = db_documents d, ac_runs = db_runs d,
     ac_chunks = map chunk_run_id (db_chunks d), ac_tables = map audited_table_row (db_tables d),
     ac_figures = map audited_figure_row (db_figures d), ac_evaluations = evaluations\<rparr>"

section \<open>Failure artifacts\<close>

definition missing_field :: "dict \<Rightarrow> string \<Rightarrow> bool" where
  "missing_field payload field =
     (case dict_get payload field of
        None \<Rightarrow> True
      | Some JNull \<Rightarrow> True
      | Some (JStr s) \<Rightarrow> str_strip s = []
      | _ \<Rightarrow> False)"

definition missing_failure_artifact_fields :: "dict \<Rightarrow> string list" where
  "missing_failure_artifact_fields payload =
     filter (missing_field payload) (sort REQUIRED_FAILURE_ARTIFACT_FIELDS)"

definition load_failure_artifact ::
  "codecs \<Rightarrow> (path \<Rightarrow> string option) \<Rightarrow> path \<Rightarrow> string + dict" where
  "load_failure_artifact cx files p =
     (case files p of
        None \<Rightarrow> Inl ''missing''
      | Some text \<Rightarrow>
          (case cx_json_loads cx text of
             None \<Rightarrow> Inl ''invalid_json''
           | Some (JObj payload) \<Rightarrow> Inr payload
           | Some _ \<Rightarrow> Inl ''invalid_shape''))"

definition latest_evaluations_by_run :: "(uuid \<times> time) list \<Rightarrow> (uuid \<rightharpoonup> time)" where
  "latest_evaluations_by_run evaluations =
     foldl (\<lambda>latest (run, created).
       case latest run of
         None \<Rightarrow> latest(run \<mapsto> created)
       | Some current \<Rightarrow> if created > current then latest(run \<mapsto> created) else latest)
       Map.empty evaluations"

definition path_exists :: "(path \<Rightarrow> string option) \<Rightarrow> path option \<Rightarrow> bool" where
  "path_exists files p = (case p of None \<Rightarrow> False | Some s \<Rightarrow> s \<noteq> [] \<and> files s \<noteq> None)"

section \<open>Violations of a document\<close>

definition runs_by_id :: "document_run list \<Rightarrow> (uuid \<rightharpoonup> document_run)" where
  "runs_by_id runs = map_of (rev (map (\<lambda>r. (run_id r, r)) runs))"

definition active_run_violations :: "(uuid \<rightharpoonup> document_run) \<Rightarrow> document \<Rightarrow> audit_violation list" where
  "active_run_violations run_by_id x =
     (case doc_active_run_id x of
        None \<Rightarrow> []
      | Some i \<Rightarrow>
          (case run_by_id i of
             None \<Rightarrow> [violation ''missing_active_run'' ''Document references a missing active run.''
                        (doc_id x) i]
           | Some r \<Rightarrow>
               (if run_document_id r \<noteq> doc_id x
                then [violation ''active_run_wrong_document'' ''Active run does not belong to the document.''
                        (doc_id x) (run_id r)] else []) @
               (if run_status r \<noteq> Completed
                then [violation ''active_run_not_completed'' ''Active run is not completed.''
                        (doc_id x) (run_id r)] else []) @
               (if run_validation_status r \<noteq> Some ''passed''
                then [violation ''active_run_not_validated'' ''Active run does not have passed validation.''
                        (doc_id x) (run_id r)] else [])))"

definition latest_run_violations ::
  "(uuid \<rightharpoonup> document_run) \<Rightarrow> (uuid \<rightharpoonup> time) \<Rightarrow> document \<Rightarrow> audit_violation list" where
  "latest_run_violations run_by_id latest x =
     (case doc_latest_run_id x of
        None \<Rightarrow> []
      | Some i \<Rightarrow>
          (case run_by_id i of
             None \<Rightarrow> []
           | Some r \<Rightarrow>
               if run_status r = Completed \<and> latest (run_id r) = None
               then [violation ''completed_latest_run_missing_evaluation''
                       ''Completed latest run is missing a persisted evaluation row.'' (doc_id x) (run_id r)]
               else []))"

definition document_violations ::
  "(uuid \<rightharpoonup> document_run) \<Rightarrow> (uuid \<rightharpoonup> time) \<Rightarrow> document \<Rightarrow> audit_violation list" where
  "document_violations run_by_id latest x =
     active_run_violations run_by_id x @ latest_run_violations run_by_id latest x"

section \<open>Violations of a run\<close>

definition run_violation :: "document_run \<Rightarrow> string \<Rightarrow> string \<Rightarrow> audit_violation" where
  "run_violation r code message = violation code message (run_document_id r) (run_id r)"

definition completed_run_violations ::
  "(path \<Rightarrow> string option) \<Rightarrow> document_run \<Rightarrow> audit_violation list" where
  "completed_run_violations files r =
     (if run_status r = Completed then
        (if path_exists files (run_docling_json_path r) then []
         else [run_violation r ''completed_run_missing_json_artifact''
                 ''Completed run is missing docling JSON artifact.'']) @
        (if path_exists files (run_yaml_path r) then []
         else [run_violation r ''completed_run_missing_yaml_artifact''
                 ''Completed run is missing YAML artifact.''])
      else [])"

definition count_violations ::
  "string \<Rightarrow> document_run \<Rightarrow> int option \<Rightarrow> nat \<Rightarrow> audit_violation list" where
  "count_violations kind r recorded actual =
     (if (run_status r = Completed \<or> recorded \<noteq> None \<or> actual > 0) \<and> recorded \<noteq> Some (int actual)
      then [run_violation r (''run_'' @ kind @ ''_count_mismatch'')
              (''Run '' @ kind @ ''_count ('' @
               (case recorded of None \<Rightarrow> ''None'' | Some n \<Rightarrow> show_int n) @
               '') does not match persisted '' @ kind @ ''s ('' @ show_nat actual @ '').'')]
      else [])"

definition in_quotes :: "string \<Rightarrow> string" where
  "in_quotes s = CHR 0x27 # s @ [CHR 0x27]"

definition failure_stage_violations :: "document_run \<Rightarrow> audit_violation list" where
  "failure_stage_violations r =
     (if \<not> str_truthy (run_failure_stage r)
      then [run_violation r ''failed_run_missing_failure_stage''
              ''Failed run is missing failure stage metadata.'']
      else if the (run_failure_stage r) \<notin> set KNOWN_FAILURE_STAGES
      then [run_violation r ''failed_run_unknown_failure_stage''
              (''Failed run uses unknown failure stage '' @ in_quotes (the (run_failure_stage r)) @ ''.'')]
      else [])"

definition failure_artifact_violations ::
  "codecs \<Rightarrow> (path \<Rightarrow> string option) \<Rightarrow> document_run \<Rightarrow> audit_violation list" where
  "failure_artifact_violations cx files r =
     (if \<not> path_exists files (run_failure_artifact_path r)
      then [run_violation r ''failed_run_missing_failure_artifact''
              ''Failed run is missing replayable failure artifact.'']
      else
        (case load_failure_artifact cx files (the (run_failure_artifact_path r)) of
           Inl e \<Rightarrow>
             [run_violation r (''failed_run_failure_artifact_'' @ e)
                (if e = ''missing'' then ''Failed run replay artifact is unreadable.''
                 else ''Failed run replay artifact has invalid JSON.'')]
         | Inr payload \<Rightarrow>
             (let missing = missing_failure_artifact_fields payload in
              if missing = [] then []
              else [run_violation r ''failed_run_failure_artifact_missing_fields''
                      (''Failed run replay artifact is missing required fields: '' @
                       str_join '', '' missing)])))"

definition failed_run_violations ::
  "codecs \<Rightarrow> (path \<Rightarrow> string option) \<Rightarrow> document_run \<Rightarrow> audit_violation list" where
  "failed_run_violations cx files r =
     (if run_status r = Failed
      then failure_stage_violations r @ failure_artifact_violations cx files r
      else if str_truthy (run_failure_stage r)
           \<and> the (run_failure_stage r) \<notin> set KNOWN_FAILURE_STAGES
      then [run_violation r ''run_unknown_failure_stage''
              (''Run uses unknown failure stage '' @ in_quotes (the (run_failure_stage r)) @ ''.'')]
      else [])"

definition run_violations ::
  "codecs \<Rightarrow> (path \<Rightarrow> string option) \<Rightarrow> audit_context \<Rightarrow> document_run \<Rightarrow> audit_violation list" where
  "run_violations cx files c r =
     completed_run_violations files r
     @ count_violations ''chunk'' r (run_chunk_count r) (count_list (ac_chunks c) (run_id r))
     @ count_violations ''table'' r (run_table_count r) (count_list (map ar_run_id (ac_tables c)) (run_id r))
     @ count_violations ''figure'' r (run_figure_count r) (count_list (map ar_run_id (ac_figures c)) (run_id r))
     @ failed_run_violations cx files r"

section \<open>Violations of tables and figures\<close>

definition claimed_path_missing :: "(path \<Rightarrow> string option) \<Rightarrow> path option \<Rightarrow> bool" where
  "claimed_path_missing files p = (str_truthy p \<and> \<not> path_exists files p)"

definition table_violations :: "(path \<Rightarrow> string option) \<Rightarrow> artifact_row \<Rightarrow> audit_violation list" where
  "table_violations files t =
     (if claimed_path_missing files (ar_json_path t)
      then [violation ''table_missing_json_artifact''
              ''Table row claims a JSON artifact path that does not exist.''
              (ar_document_id t) (ar_run_id t)] else []) @
     (if claimed_path_missing files (ar_yaml_path t)
      then [violation ''table_missing_yaml_artifact''
              ''Table row claims a YAML artifact path that does not exist.''
              (ar_document_id t) (ar_run_id t)] else [])"

definition figure_violations :: "(path \<Rightarrow> string option) \<Rightarrow> artifact_row \<Rightarrow> audit_violation list" where
  "figure_violations files f =
     (if claimed_path_missing files (ar_json_path f)
      then [violation ''figure_missing_json_artifact''
              ''Figure row claims a JSON artifact path that does not exist.''
              (ar_document_id f) (ar_run_id f)] else []) @
     (if claimed_path_missing files (ar_yaml_path f)
      then [violation ''figure_missing_yaml_artifact''
              ''Figure row claims a YAML artifact path that does not exist.''
              (ar_document_id f) (ar_run_id f)] else [])"

section \<open>The audit\<close>

record audit_report =
  au_checked_documents :: nat
  au_checked_runs :: nat
  au_checked_evaluations :: nat
  au_checked_tables :: nat
  au_checked_figures :: nat
  au_violation_count :: nat
  au_violation_counts_by_code :: "(string \<times> nat) list"
  au_violations :: "dict list"

definition all_violations ::
  "codecs \<Rightarrow> (path \<Rightarrow> string option) \<Rightarrow> audit_context \<Rightarrow> audit_violation list" where
  "all_violations cx files c =
     (let run_by_id = runs_by_id (ac_runs c);
          latest = latest_evaluations_by_run (ac_evaluations c) in
      concat (map (document_violations run_by_id latest) (ac_documents c))
      @ concat (map (run_violations cx files c) (ac_runs c))
      @ concat (map (table_violations files) (ac_tables c))
      @ concat (map (figure_violations files) (ac_figures c)))"

definition counts_by_code :: "string list \<Rightarrow> (string \<times> nat) list" where
  "counts_by_code codes = map (\<lambda>code. (code, count_list codes code)) (sort (remdups codes))"

definition build_integrity_audit ::
  "codecs \<Rightarrow> (path \<Rightarrow> string option) \<Rightarrow> audit_context \<Rightarrow> audit_report" where
  "build_integrity_audit cx files c =
     (let violations = all_violations cx files c in
      \<lparr>au_checked_documents = length (ac_documents c), au_checked_runs = length (ac_runs c),
       au_checked_evaluations = length (ac_evaluations c), au_checked_tables = length (ac_tables c),
       au_checked_figures = length (ac_figures c), au_violation_count = length violations,
       au_violation_counts_by_code = counts_by_code (map av_code violations),
       au_violations = map violation_to_dict violations\<rparr>)"

definition run_integrity_audit :: "codecs \<Rightarrow> (uuid \<times> time) list \<Rightarrow> world \<Rightarrow> audit_report" where
  "run_integrity_audit cx evaluations w =
     build_integrity_audit cx (w_files w) (load_audit_context evaluations (w_db w))"

section \<open>Active runs\<close>

definition active_run_codes :: "string list" where
  "active_run_codes = [''missing_active_run'', ''active_run_wrong_document'', ''active_run_not_completed'',
     ''active_run_not_validated'']"

lemma audited_codes:
  "fst ` set (au_violation_counts_by_code (run_integrity_audit cx evs w)) =
     av_code ` set (all_violations cx (w_files w) (load_audit_context evs (w_db w)))"
  by (auto simp: run_integrity_audit_def build_integrity_audit_def counts_by_code_def Let_def image_image)

text \<open>No code of a run starts like a code of an active run.\<close>

definition foreign_code :: "audit_violation \<Rightarrow> bool" where
  "foreign_code v = (av_code v \<notin> set active_run_codes)"

lemma foreign_run_violation:
  "foreign_code (run_violation r (CHR ''r'' # s) m)" "foreign_code (run_violation r (CHR ''c'' # s) m)"
  "foreign_code (run_violation r (CHR ''f'' # s) m)"
  by (simp_all add: foreign_code_def run_violation_def violation_def active_run_codes_def)

lemma run_violation_codes: "list_all foreign_code (run_violations cx files c r)"
proof -
  have "list_all foreign_code (completed_run_violations files r)"
    by (simp add: completed_run_violations_def foreign_run_violation)
  moreover have "list_all foreign_code (count_violations kind r n k)" for kind n k
    by (simp add: count_violations_def foreign_run_violation)
  moreover have "list_all foreign_code (failure_stage_violations r)"
    by (simp add: failure_stage_violations_def foreign_run_violation)
  moreover have "list_all foreign_code (failure_artifact_violations cx files r)"
    by (simp add: failure_artifact_violations_def foreign_run_violation Let_def split: sum.split)
  ultimately show ?thesis
    by (simp add: run_violations_def failed_run_violations_def foreign_run_violation)
qed

lemma artifact_violation_codes:
  "list_all foreign_code (table_violations files t)" "list_all foreign_code (figure_violations files t)"
  by (simp_all add: table_violations_def figure_violations_def violation_def foreign_code_def
      active_run_codes_def)

lemma foreign_latest: "list_all foreign_code (latest_run_violations run_by_id latest x)"
  by (simp add: latest_run_violations_def violation_def foreign_code_def active_run_codes_def
      split: option.split)

lemma runs_map_of: "map_of (map (\<lambda>r. (run_id r, r)) runs) i = find_row run_id i runs"
  by (induction runs) simp_all

lemma runs_by_id_find:
  assumes "distinct (map run_id runs)"
  shows "runs_by_id runs i = find_row run_id i runs"
proof -
  have "map_of (rev (map (\<lambda>r. (run_id r, r)) runs)) = map_of (map (\<lambda>r. (run_id r, r)) runs)"
    using assms by (subst map_of_inject_set) (simp_all add: comp_def rev_map distinct_rev [symmetric, of "map run_id runs"] del: distinct_rev)
  then show ?thesis by (simp add: runs_by_id_def runs_map_of)
qed

lemma lifecycle_active_run:
  assumes "lifecycle limit d" and "x \<in> set (db_documents d)" and "doc_active_run_id x = Some i"
  shows "\<exists>r. get_run i d = Some r \<and> run_document_id r = doc_id x \<and> run_status r = Completed
    \<and> run_validation_status r = Some ''passed''"
proof -
  obtain r where r: "get_run i d = Some r" "run_document_id r = doc_id x" "run_status r = Completed"
    using assms by (auto simp: lifecycle_def active_run_ok_def split: option.splits dest!: bspec)
  then have "run_ok limit r"
    using assms(1) by (auto simp: lifecycle_def run_in_place_def dest!: find_row_Some)
  then show ?thesis using r by (simp add: run_ok_def)
qed

text \<open>In a state of the service the audit finds nothing wrong with active runs.\<close>

lemma audit_of_service:
  assumes "service_ok limit w"
  shows "set active_run_codes \<inter>
    fst ` set (au_violation_counts_by_code (run_integrity_audit cx evaluations w)) = {}"
proof -
  let ?d = "w_db w"
  have lc: "lifecycle limit ?d" using assms by (simp add: service_ok_def)
  then have ids: "runs_by_id (db_runs ?d) i = get_run i ?d" for i
    by (simp add: lifecycle_def runs_by_id_find)
  have active: "active_run_violations (runs_by_id (db_runs ?d)) x = []" if x: "x \<in> set (db_documents ?d)" for x
    using lifecycle_active_run [OF lc x] by (auto simp: active_run_violations_def ids split: option.split)
  have "list_all foreign_code (all_violations cx (w_files w) (load_audit_context evaluations ?d))"
    using active run_violation_codes artifact_violation_codes foreign_latest
    by (auto simp: all_violations_def Let_def load_audit_context_def document_violations_def list_all_iff)
  then show ?thesis unfolding audited_codes by (auto simp: list_all_iff foreign_code_def)
qed

section \<open>Failed runs\<close>

text \<open>
  What the audit relies on when it reads a failure artifact back: an object keeps its keys, a
  scalar its value, a container stays a container of its kind; and a formatted time is not blank.
\<close>

fun same_outline :: "json \<Rightarrow> json \<Rightarrow> bool" where
  "same_outline (JArr _) (JArr _) = True"
| "same_outline (JObj _) (JObj _) = True"
| "same_outline a b = (a = b)"

definition artifact_codecs :: "codecs \<Rightarrow> bool" where
  "artifact_codecs cx \<longleftrightarrow>
     (\<forall>d. distinct_keys d \<longrightarrow>
        (\<exists>d'. cx_json_loads cx (cx_json_sorted cx (JObj d)) = Some (JObj d')
            \<and> (\<forall>k. rel_option same_outline (dict_get d k) (dict_get d' k))))
     \<and> (\<forall>t. str_strip (cx_isoformat cx t) \<noteq> [])"

lemma same_outline_missing:
  assumes "rel_option same_outline (dict_get d k) (dict_get d' k)"
  shows "missing_field d' k = missing_field d k"
proof (cases "dict_get d k")
  case None
  then show ?thesis using assms by (simp add: missing_field_def)
next
  case (Some v)
  then obtain v' where v': "dict_get d' k = Some v'" "same_outline v v'"
    using assms by (auto simp: option_rel_Some1)
  have "missing_field d k = (case v of JNull \<Rightarrow> True | JStr s \<Rightarrow> str_strip s = [] | _ \<Rightarrow> False)"
    using Some by (simp add: missing_field_def split: json.split)
  moreover have "missing_field d' k = (case v' of JNull \<Rightarrow> True | JStr s \<Rightarrow> str_strip s = [] | _ \<Rightarrow> False)"
    using v'(1) by (simp add: missing_field_def split: json.split)
  ultimately show ?thesis using v'(2) by (cases v; cases v') simp_all
qed

lemma loaded_artifact:
  assumes "artifact_codecs cx" and "distinct_keys d" and "files p = Some (cx_json_sorted cx (JObj d))"
  shows "\<exists>d'. load_failure_artifact cx files p = Inr d'
    \<and> missing_failure_artifact_fields d' = missing_failure_artifact_fields d"
proof -
  obtain d' where d': "cx_json_loads cx (cx_json_sorted cx (JObj d)) = Some (JObj d')"
      "\<forall>k. rel_option same_outline (dict_get d k) (dict_get d' k)"
    using assms(1,2) unfolding artifact_codecs_def by blast
  then have "missing_field d' = missing_field d" using same_outline_missing by blast
  then show ?thesis
    using assms(3) d' by (simp add: load_failure_artifact_def missing_failure_artifact_fields_def)
qed

text \<open>Decimal numbers and status names are not blank.\<close>

lemma strip_blank_iff: "str_strip s = [] \<longleftrightarrow> (\<forall>c \<in> set s. is_space c)"
proof -
  let ?t = "dropWhile is_space s"
  have "(\<forall>c \<in> set ?t. is_space c) \<longleftrightarrow> ?t = []"
    using hd_dropWhile [of is_space s] by (metis list.set_sel(1) empty_iff empty_set)
  then show ?thesis by (simp add: str_strip_def dropWhile_eq_Nil_conv)
qed

lemma show_nat_digit: "c \<in> set (show_nat n) \<Longrightarrow> \<exists>d < 10. c = digit_char d"
proof (induction n rule: show_nat.induct)
  case (1 n)
  then show ?case
    by (cases "n < 10") (auto simp: show_nat.simps [of n] intro: exI [of _ "n mod 10"])
qed

lemma show_nat_visible: "str_strip (show_nat n) \<noteq> []"
proof -
  have "show_nat n \<noteq> []" by (simp add: show_nat.simps [of n])
  then obtain c where c: "c \<in> set (show_nat n)" by (cases "show_nat n") auto
  then obtain d where "d < 10" "c = digit_char d" using show_nat_digit by blast
  then have "\<not> is_space c" by (simp add: digit_char_def is_space_def Let_def)
  with c show ?thesis unfolding strip_blank_iff by blast
qed

lemma status_visible: "str_strip (run_status_value s) \<noteq> []"
  by (cases s) (simp_all add: strip_blank_iff is_space_def Let_def)

lemma stage_visible: "str_strip (stage_value s) \<noteq> []"
  by (cases s) (simp_all add: strip_blank_iff is_space_def Let_def)

definition payload_fields ::
  "codecs \<Rightarrow> time \<Rightarrow> document option \<Rightarrow> document_run \<Rightarrow> exn \<Rightarrow> string option \<Rightarrow>
   validation_report option \<Rightarrow> uuid \<Rightarrow> dict" where
  "payload_fields cx now document run exc stage report document_id =
     (case failure_payload cx now document run exc stage report document_id of JObj d \<Rightarrow> d | _ \<Rightarrow> [])"

lemma failure_payload_fields:
  "failure_payload cx now document run exc stage report document_id =
     JObj (payload_fields cx now document run exc stage report document_id)"
  by (simp add: payload_fields_def failure_payload_def)

lemma payload_keys: "distinct_keys (payload_fields cx now document run exc stage report document_id)"
  by (simp add: payload_fields_def failure_payload_def)

lemma sorted_required: "sort REQUIRED_FAILURE_ARTIFACT_FIELDS = REQUIRED_FAILURE_ARTIFACT_FIELDS"
  by code_simp

lemma payload_missing:
  assumes "str_strip (cx_isoformat cx now) \<noteq> []" and "str_strip (exn_class exc) \<noteq> []"
    and "str_strip stage \<noteq> []"
  shows "missing_failure_artifact_fields
      (payload_fields cx now document run exc (Some stage) report document_id) =
    (if str_strip (exn_message exc) = [] then [''error_message''] else [])"
proof -
  have "str_strip ''1.0'' \<noteq> []" by code_simp
  then show ?thesis
    using assms show_nat_visible status_visible
    by (simp add: missing_failure_artifact_fields_def sorted_required REQUIRED_FAILURE_ARTIFACT_FIELDS_def
        missing_field_def payload_fields_def failure_payload_def)
qed

text \<open>
  What the audit is expected to say of a run that a worker has finalised after a failure: nothing,
  except that the stage \<open>retrieval_span_persist\<close> is unknown to it and that an exception without
  a message counts as a missing field.
\<close>

definition failure_codes :: "document_run \<Rightarrow> string list" where
  "failure_codes r =
     (let unknown = (run_failure_stage r = Some ''retrieval_span_persist'') in
      if run_status r = Failed
      then (if unknown then [''failed_run_unknown_failure_stage''] else [])
           @ (if str_strip (the (run_error_message r)) = []
              then [''failed_run_failure_artifact_missing_fields''] else [])
      else if unknown then [''run_unknown_failure_stage''] else [])"

lemma known_stages:
  "before_promotion s \<or> s = PROMOTION \<Longrightarrow>
   stage_value s \<in> set KNOWN_FAILURE_STAGES \<longleftrightarrow> stage_value s \<noteq> ''retrieval_span_persist''"
  by (cases s) (simp_all add: KNOWN_FAILURE_STAGES_def before_promotion_def)

lemma stage_value_nonempty [simp]: "stage_value s \<noteq> []"
  by (cases s) simp_all

lemma find_row_put:
  "key x = i \<Longrightarrow> find_row key i rows \<noteq> None \<Longrightarrow> find_row key i (update_row key i (\<lambda>_. x) rows) = Some x"
  by (induction rows) auto

lemma finalized_failure:
  assumes "get_run i (w_db w) = Some r"
    and "w' = finalize_run_failure cx st (Some base) doc i e report (Some stage) w"
  obtains r' d where "get_run i (w_db w') = Some r'" "run_failure_stage r' = Some stage"
    "run_error_message r' = Some (exn_message e)" "run_status r' = Failed \<or> run_status r' = Retry_Wait"
    "run_failure_artifact_path r' = Some (build_failure_artifact_path base d i)"
    "w_files w' (build_failure_artifact_path base d i) = Some (cx_json_sorted cx
       (failure_payload cx (w_clock w) doc (failed_run st (w_clock w) e report (Some stage) r) e
          (Some stage) report d))"
proof -
  let ?r1 = "failed_run st (w_clock w) e report (Some stage) r"
  define d where "d = (case doc of None \<Rightarrow> run_document_id r | Some x \<Rightarrow> doc_id x)"
  let ?p = "build_failure_artifact_path base d i"
  have i: "run_id r = i" using assms(1) by (auto dest: find_row_Some)
  have doc: "run_document_id ?r1 = run_document_id r"
    by (simp add: failed_run_def release_run_def Let_def)
  have art: "write_failure_artifact cx (Some base) doc ?r1 e (Some stage) report w =
      (write_file ?p (cx_json_sorted cx (failure_payload cx (w_clock w) doc ?r1 e (Some stage) report d)) w,
       Some ?p)"
    by (simp add: write_failure_artifact_def d_def i doc Let_def cong: option.case_cong)
  have runs: "db_runs (w_db w') = update_row run_id i
      (\<lambda>_. ?r1\<lparr>run_failure_artifact_path := Some ?p\<rparr>) (db_runs (w_db w))"
    "w_files w' = w_files (write_file ?p (cx_json_sorted cx
       (failure_payload cx (w_clock w) doc ?r1 e (Some stage) report d)) w)"
    using assms by (simp_all add: finalize_run_failure_def art Let_def)
  have "get_run i (w_db w') = Some (?r1\<lparr>run_failure_artifact_path := Some ?p\<rparr>)"
    unfolding runs(1) using assms(1) i by (intro find_row_put) (simp_all add: failed_run_def release_run_def Let_def)
  then show ?thesis
    by (rule that [of _ d]) (use runs(2) in \<open>simp_all add: failed_run_def release_run_def Let_def\<close>)
qed

lemma finalized_failure_audited:
  assumes "artifact_codecs cx" and "str_strip (exn_class e) \<noteq> []" and "before_promotion s \<or> s = PROMOTION"
    and "get_run i (w_db w) = Some r"
    and "w' = finalize_run_failure cx st (Some base) doc i e report (Some (stage_value s)) w"
  shows "\<exists>r'. get_run i (w_db w') = Some r' \<and> run_status r' \<noteq> Completed
    \<and> map av_code (failed_run_violations cx (w_files w') r') = failure_codes r'"
proof -
  let ?stage = "stage_value s"
  obtain r' d where r': "get_run i (w_db w') = Some r'" "run_failure_stage r' = Some ?stage"
      "run_error_message r' = Some (exn_message e)" "run_status r' = Failed \<or> run_status r' = Retry_Wait"
      "run_failure_artifact_path r' = Some (build_failure_artifact_path base d i)"
    and stored: "w_files w' (build_failure_artifact_path base d i) = Some (cx_json_sorted cx
       (failure_payload cx (w_clock w) doc (failed_run st (w_clock w) e report (Some ?stage) r) e
          (Some ?stage) report d))"
    using finalized_failure [OF assms(4,5)] by blast
  obtain d' where d': "load_failure_artifact cx (w_files w') (build_failure_artifact_path base d i) = Inr d'"
      "missing_failure_artifact_fields d' = (if str_strip (exn_message e) = [] then [''error_message''] else [])"
    using loaded_artifact [where files = "w_files w'", OF assms(1) payload_keys
        stored [unfolded failure_payload_fields]]
      payload_missing [OF _ assms(2) stage_visible, of cx "w_clock w"] assms(1)
    by (auto simp: artifact_codecs_def)
  have "build_failure_artifact_path base d i \<noteq> []" by (simp add: build_failure_artifact_path_def path_join_def)
  then have "map av_code (failure_artifact_violations cx (w_files w') r') =
      (if str_strip (exn_message e) = [] then [''failed_run_failure_artifact_missing_fields''] else [])"
    using d' by (simp add: failure_artifact_violations_def path_exists_def stored r'(5) run_violation_def violation_def)
  then show ?thesis
    using r' known_stages [OF assms(3)]
    by (auto simp: failed_run_violations_def failure_codes_def failure_stage_violations_def Let_def
        run_violation_def violation_def)
qed

section \<open>Exceptions of the stages\<close>

text \<open>The class of an exception has a name; the hooks stand for code that raises such exceptions.\<close>

definition named_exn :: "exn \<Rightarrow> bool" where
  "named_exn e = (str_strip (exn_class e) \<noteq> [])"

definition hooks_ok :: "hooks \<Rightarrow> bool" where
  "hooks_ok hk \<longleftrightarrow>
     (\<forall>p n e. hk_parse_pdf hk p n = Inl e \<longrightarrow> named_exn e)
     \<and> (\<forall>p n parsed. hk_parse_pdf hk p n = Inr parsed \<longrightarrow> parsed_wf parsed)
     \<and> (\<forall>d e. hk_rebuild_spans hk d = Some e \<longrightarrow> named_exn e)"

lemma named_builtin:
  "named_exn (value_error m)" "named_exn (fst assertion_error)" "named_exn (fst (validation_failed report))"
  "named_exn strict_zip_error"
  by (simp_all add: named_exn_def value_error_def assertion_error_def validation_failed_def
      strict_zip_error_def strip_blank_iff is_space_def Let_def)

lemma stage_exception:
  assumes "hooks_ok hk" and "run_stage cx st base hk p s w = (w1, Inl (e, report))"
  shows "named_exn e \<and> s \<noteq> POST_PROMOTION_EVALUATION \<and> s \<noteq> POST_PROMOTION_SEMANTICS"
proof -
  have simps: "assertion_error = (e, report) \<Longrightarrow> named_exn e" "validation_failed rep = (e, report) \<Longrightarrow> named_exn e"
    for rep
    using named_builtin(2,3) by (metis fst_conv)+
  show ?thesis
    using assms
    by (cases s)
      (auto simp: hooks_ok_def parse_stage_def embedding_stage_def validation_stage_def
        apply_embeddings_def named_builtin Let_def dest: simps
        split: option.splits sum.splits prod.splits if_splits)
qed

lemma stages_exception:
  assumes "hooks_ok hk" and "run_all_stages cx st base hk ss reached p w = (w1, s, Inl (e, report))"
  shows "named_exn e \<and> (before_promotion s \<or> s = PROMOTION)"
  using assms(2)
proof (induction ss arbitrary: reached p w)
  case (Cons a ss)
  then show ?case
    using stage_exception [OF assms(1), of cx st base p a w w1 e report]
    by (auto simp: before_promotion_def split: prod.splits sum.splits)
qed simp

section \<open>Completed runs\<close>

lemma embedded_wf:
  assumes "parsed_wf parsed" and "apply_embeddings st provider run parsed w = (w1, Inr parsed1)"
  shows "parsed_wf parsed1"
proof -
  have "parsed_wf (parsed\<lparr>
      pd_chunks := map (\<lambda>(c, e). c\<lparr>pc_embedding := Some e\<rparr>) (zip (pd_chunks parsed) cs),
      pd_tables := map (\<lambda>(t, e). t\<lparr>pt_embedding := Some e\<rparr>) (zip (pd_tables parsed) ts)\<rparr>)"
    if len: "length cs = length (pd_chunks parsed)" "length ts = length (pd_tables parsed)" for cs ts
  proof -
    have "map pc_chunk_index (map (\<lambda>(c, e). c\<lparr>pc_embedding := Some e\<rparr>) (zip (pd_chunks parsed) cs)) =
        map pc_chunk_index (pd_chunks parsed)"
      by (rule nth_equalityI) (use len in simp_all)
    moreover have "map pt_table_index (map (\<lambda>(t, e). t\<lparr>pt_embedding := Some e\<rparr>) (zip (pd_tables parsed) ts)) =
        map pt_table_index (pd_tables parsed)"
      by (rule nth_equalityI) (use len in simp_all)
    ultimately show ?thesis
      using assms(1)
      by (auto simp: parsed_wf_def table_wf_def simp del: map_map dest!: set_zip_leftD split: prod.splits)
  qed
  then show ?thesis
    using assms by (auto simp: apply_embeddings_def split: option.splits sum.splits if_splits)
qed

lemma parse_result:
  assumes "hooks_ok hk" and "parse_stage hk p w = (w1, Inr p1)"
  shows "\<exists>parsed. rp_parsed p1 = Some parsed \<and> parsed_wf parsed \<and> rp_run p1 = rp_run p
    \<and> rp_document p1 = rp_document p
    \<and> (get_run (rp_run p) (w_db w1) = None) = (get_run (rp_run p) (w_db w) = None)"
  using assms
  by (auto simp: parse_stage_def hooks_ok_def heartbeat_run_def find_row_update Let_def
      split: option.splits sum.splits)

lemma embedding_result:
  assumes "parsed_wf parsed" and "embedding_stage cx st hk p parsed w = (w1, Inr p1)"
  shows "\<exists>parsed1. rp_parsed p1 = Some parsed1 \<and> parsed_wf parsed1 \<and> rp_run p1 = rp_run p
    \<and> rp_document p1 = rp_document p
    \<and> (get_run (rp_run p) (w_db w1) = None) = (get_run (rp_run p) (w_db w) = None)"
proof -
  obtain v parsed1 where a: "apply_embeddings st (hk_embedding hk) (rp_run p) parsed w = (v, Inr parsed1)"
      "w1 = v" "rp_parsed p1 = Some parsed1" "rp_run p1 = rp_run p" "rp_document p1 = rp_document p"
    using assms(2) by (auto simp: embedding_stage_def split: prod.splits sum.splits option.splits)
  then have "(get_run (rp_run p) (w_db w1) = None) = (get_run (rp_run p) (w_db w) = None)"
    by (auto simp: apply_embeddings_def set_run_embedding_def find_row_update
        split: option.splits sum.splits if_splits)
  then show ?thesis using a embedded_wf [OF assms(1) a(1)] by simp
qed

text \<open>When the stages before promotion succeed, everything of the document is in rows and files.\<close>

lemma promoted_stored:
  assumes "hooks_ok hk" and "run_all_stages cx st base hk stages_before_promotion PARSE p w = (w1, s, Inr p1)"
    and "rp_parsed p1 = Some parsed" and "get_run (rp_run p) (w_db w) \<noteq> None"
  shows "\<exists>parsed0 q. stored_all cx base (rp_document p) (rp_run p) parsed0 parsed w1
    \<and> get_run (rp_run p) (w_db w1) = Some q
    \<and> run_docling_json_path q = Some (build_docling_json_path base (rp_document p) (rp_run p))
    \<and> run_yaml_path q = Some (build_yaml_path base (rp_document p) (rp_run p))"
proof -
  let ?i = "rp_run p" and ?d = "rp_document p"
  have split: "stages_before_promotion = PARSE # EMBEDDING # persist_stages"
    by (simp add: stages_before_promotion_def persist_stages_def)
  obtain wa pa where pa: "parse_stage hk p w = (wa, Inr pa)"
    and rest: "run_all_stages cx st base hk (EMBEDDING # persist_stages) PARSE pa wa = (w1, s, Inr p1)"
    using assms(2) unfolding split by (auto split: prod.splits sum.splits)
  obtain parsedA where A: "rp_parsed pa = Some parsedA" "parsed_wf parsedA" "rp_run pa = ?i"
      "rp_document pa = ?d" "get_run ?i (w_db wa) \<noteq> None"
    using parse_result [OF assms(1) pa] assms(4) by blast
  obtain wb pb where pb: "embedding_stage cx st hk pa parsedA wa = (wb, Inr pb)"
    and rest: "run_all_stages cx st base hk persist_stages EMBEDDING pb wb = (w1, s, Inr p1)"
    using rest A(1) by (auto split: prod.splits sum.splits)
  obtain parsedB where B: "rp_parsed pb = Some parsedB" "parsed_wf parsedB" "rp_run pb = ?i"
      "rp_document pb = ?d" "get_run ?i (w_db wb) \<noteq> None"
    using embedding_result [OF A(2) pb] A(3-5) by auto
  obtain r where r: "get_run ?i (w_db wb) = Some r" using B(5) by blast
  obtain w4 p5 parsed5 w5 where stages:
      "run_all_stages cx st base hk persist_stages EMBEDDING pb wb =
        (case hk_rebuild_spans hk (w_db w4) of
           Some e \<Rightarrow> (w4, RETRIEVAL_SPAN_PERSIST, Inl (e, None))
         | None \<Rightarrow> (case validation_stage cx st p5 parsed5 w5 of (w', res) \<Rightarrow> (w', VALIDATION, res)))"
    and p5: "rp_run p5 = ?i" "rp_document p5 = ?d" "rp_parsed p5 = Some parsed5"
    and w5: "stored_all cx base ?d ?i parsedB parsed5 w5"
      "get_run ?i (w_db w5) = Some (persisted_run parsed5 (build_docling_json_path base ?d ?i)
           (build_yaml_path base ?d ?i) r)"
    using persist_stages_stored [OF B(2,1), of cx st base hk EMBEDDING wb] r unfolding B(3,4) by blast
  have "validation_stage cx st p5 parsed5 w5 = (w1, Inr p1)"
    using stages rest by (auto split: option.splits prod.splits)
  then have w1: "w1 = heartbeat_run ?i (mark_run_validating ?i w5)" "rp_parsed p1 = Some parsed5"
    using p5 by (auto simp: validation_stage_def Let_def split: option.splits if_splits)
  have "stored_all cx base ?d ?i parsedB parsed5 w1"
    by (rule stored_all_frame [OF w5(1)]) (simp_all add: w1 heartbeat_run_def mark_run_validating_def)
  then show ?thesis
    using assms(3) w1 w5(2)
    by (auto simp: heartbeat_run_def mark_run_validating_def find_row_update validating_run_def persisted_run_def)
qed

text \<open>
  The audit accepts a run: it reports nothing about the run, and nothing about the tables and
  figures of the run.
\<close>

definition run_accepted ::
  "codecs \<Rightarrow> (path \<Rightarrow> string option) \<Rightarrow> audit_context \<Rightarrow> document_run \<Rightarrow> bool" where
  "run_accepted cx files c r =
     (run_violations cx files c r = []
      \<and> list_all (\<lambda>t. table_violations files t = []) (filter (\<lambda>t. ar_run_id t = run_id r) (ac_tables c))
      \<and> list_all (\<lambda>f. figure_violations files f = []) (filter (\<lambda>f. ar_run_id f = run_id r) (ac_figures c)))"

lemma failure_path_distinct:
  "build_docling_json_path base d r \<noteq> build_failure_artifact_path base d r"
  "build_yaml_path base d r \<noteq> build_failure_artifact_path base d r"
  "build_table_json_path base d r i \<noteq> build_failure_artifact_path base d r"
  "build_table_yaml_path base d r i \<noteq> build_failure_artifact_path base d r"
  "build_figure_json_path base d r i \<noteq> build_failure_artifact_path base d r"
  "build_figure_yaml_path base d r i \<noteq> build_failure_artifact_path base d r"
  by (simp_all add: build_docling_json_path_def build_yaml_path_def build_table_json_path_def
      build_table_yaml_path_def build_figure_json_path_def build_figure_yaml_path_def build_table_dir_def
      build_figure_dir_def build_failure_artifact_path_def path_join_def)

lemma stored_table_paths:
  assumes "table_stored cx base d i w t row" and "p = table_json_path row \<or> p = table_yaml_path row"
  shows "\<exists>q. p = Some q \<and> w_files w q \<noteq> None \<and> q \<noteq> build_failure_artifact_path base d i"
proof -
  let ?j = "build_table_json_path base d i (pt_table_index t)"
  let ?y = "build_table_yaml_path base d i (pt_table_index t)"
  obtain li where "row = table_row d i (table_created_at row) (table_id row) li ?j ?y t"
    using assms(1) unfolding table_stored_def by blast
  then have "table_json_path row = Some ?j \<and> table_yaml_path row = Some ?y"
    by (rule ssubst) (simp add: table_row_def)
  then show ?thesis
    using assms by (auto simp: table_stored_def files_hold_def failure_path_distinct)
qed

lemma stored_figure_paths:
  assumes "figure_stored cx base d i w f row" and "p = figure_json_path row \<or> p = figure_yaml_path row"
  shows "\<exists>q. p = Some q \<and> w_files w q \<noteq> None \<and> q \<noteq> build_failure_artifact_path base d i"
proof -
  let ?j = "build_figure_json_path base d i (pf_figure_index f)"
  let ?y = "build_figure_yaml_path base d i (pf_figure_index f)"
  have "row = figure_row d i (figure_created_at row) (figure_id row) ?j ?y f"
    using assms(1) unfolding figure_stored_def by blast
  then have "figure_json_path row = Some ?j \<and> figure_yaml_path row = Some ?y"
    by (rule ssubst) (simp add: figure_row_def)
  then show ?thesis
    using assms by (auto simp: figure_stored_def files_hold_def failure_path_distinct)
qed

lemma list_all2_right: "list_all2 P xs ys \<Longrightarrow> y \<in> set ys \<Longrightarrow> \<exists>x. P x y"
  by (induction rule: list_all2_induct) auto

lemma count_list_map_filter: "count_list (map f xs) i = length (filter (\<lambda>x. f x = i) xs)"
  by (induction xs) auto

lemma audited_row_status [simp]:
  "audited_table_row (t\<lparr>table_status := s\<rparr>) = audited_table_row t"
  "audited_figure_row (f\<lparr>figure_status := s\<rparr>) = audited_figure_row f"
  "ar_run_id (audited_table_row t) = table_run_id t" "ar_run_id (audited_figure_row f) = figure_run_id f"
  by (simp_all add: audited_table_row_def audited_figure_row_def)

lemma completed_audited:
  assumes stored: "stored_all cx base d i parsed0 parsed w1" and "get_run i (w_db w1) = Some q"
    and "run_docling_json_path q = Some (build_docling_json_path base d i)"
    and "run_yaml_path q = Some (build_yaml_path base d i)"
    and "run_failure_artifact_path q \<in> {None, Some (build_failure_artifact_path base d i)}"
    and "w' = finalize_run_success (Some base) d i parsed report w1"
  shows "\<exists>r'. get_run i (w_db w') = Some r' \<and> run_status r' = Completed
    \<and> run_accepted cx (w_files w') (load_audit_context evaluations (w_db w')) r'"
proof -
  let ?r' = "completed_run (w_clock w1) parsed report q"
  let ?c = "load_audit_context evaluations (w_db w')"
  have i: "run_id q = i" using assms(2) by (auto dest: find_row_Some)
  have run: "get_run i (w_db w') = Some ?r'"
    using assms(2) by (simp add: assms(6) finalize_run_success_runs find_row_update)
  have files: "w_files w' p = w_files w1 p" if "p \<noteq> build_failure_artifact_path base d i" for p
    using assms(2,5) that by (auto simp: assms(6) finalize_run_success_def Let_def)
  have chunks: "db_chunks (w_db w') = db_chunks (w_db w1)"
    by (simp add: assms(6) finalize_run_success_def Let_def upd_document_def set_figure_status_def
        set_table_status_def split: option.split)
  have tables: "ac_tables ?c = map audited_table_row (db_tables (w_db w1))"
    by (simp add: load_audit_context_def assms(6) finalize_run_success_def Let_def upd_document_def
        set_figure_status_def set_table_status_def split: option.split)
  have figures: "ac_figures ?c = map audited_figure_row (db_figures (w_db w1))"
    by (simp add: load_audit_context_def assms(6) finalize_run_success_def Let_def upd_document_def
        set_figure_status_def set_table_status_def split: option.split)
  have claimed: "\<not> claimed_path_missing (w_files w') p"
    if "\<exists>q. p = Some q \<and> w_files w1 q \<noteq> None \<and> q \<noteq> build_failure_artifact_path base d i" for p
    using that files by (auto simp: claimed_path_missing_def path_exists_def)
  obtain now where rows: "list_all2 (chunk_stored d i now) (pd_chunks parsed)
        (filter (\<lambda>c. chunk_run_id c = i) (db_chunks (w_db w1)))"
    "list_all2 (table_stored cx base d i w1) (pd_tables parsed)
        (filter (\<lambda>t. table_run_id t = i) (db_tables (w_db w1)))"
    "list_all2 (figure_stored cx base d i w1) (pd_figures parsed)
        (filter (\<lambda>f. figure_run_id f = i) (db_figures (w_db w1)))"
    "w_files w1 (build_docling_json_path base d i) \<noteq> None" "w_files w1 (build_yaml_path base d i) \<noteq> None"
    using stored unfolding stored_all_def by auto
  have "completed_run_violations (w_files w') ?r' = []"
    using rows(4,5) assms(3,4)
    by (simp add: completed_run_violations_def path_exists_def completed_run_def release_run_def
        files failure_path_distinct)
  moreover have "failed_run_violations cx (w_files w') ?r' = []"
    by (simp add: failed_run_violations_def completed_run_def release_run_def)
  moreover have "count_list (ac_chunks ?c) i = length (pd_chunks parsed)"
    using list_all2_lengthD [OF rows(1)] by (simp add: load_audit_context_def chunks count_list_map_filter)
  moreover have "count_list (map ar_run_id (ac_tables ?c)) i = length (pd_tables parsed)"
    using list_all2_lengthD [OF rows(2)]
    by (simp add: tables comp_def count_list_map_filter)
  moreover have "count_list (map ar_run_id (ac_figures ?c)) i = length (pd_figures parsed)"
    using list_all2_lengthD [OF rows(3)]
    by (simp add: figures comp_def count_list_map_filter)
  ultimately have "run_violations cx (w_files w') ?c ?r' = []"
    by (simp add: run_violations_def i count_violations_def completed_run_def release_run_def)
  moreover have "table_violations (w_files w') (audited_table_row t) = []"
    if t: "t \<in> set (db_tables (w_db w1))" "table_run_id t = i" for t
  proof -
    obtain pt where "table_stored cx base d i w1 pt t" using list_all2_right [OF rows(2)] t by fastforce
    note paths = claimed [OF stored_table_paths [OF this disjI1 [OF refl]]]
      claimed [OF stored_table_paths [OF this disjI2 [OF refl]]]
    then show ?thesis by (simp add: table_violations_def audited_table_row_def)
  qed
  moreover have "figure_violations (w_files w') (audited_figure_row f) = []"
    if f: "f \<in> set (db_figures (w_db w1))" "figure_run_id f = i" for f
  proof -
    obtain pf where "figure_stored cx base d i w1 pf f" using list_all2_right [OF rows(3)] f by fastforce
    note paths = claimed [OF stored_figure_paths [OF this disjI1 [OF refl]]]
      claimed [OF stored_figure_paths [OF this disjI2 [OF refl]]]
    then show ?thesis by (simp add: figure_violations_def audited_figure_row_def)
  qed
  ultimately have "run_accepted cx (w_files w') ?c ?r'"
    unfolding run_accepted_def
    by (auto simp: i tables figures list_all_iff)
  then show ?thesis using run by (auto simp: completed_run_def)
qed

section \<open>The audit after a run\<close>

lemma no_evaluation:
  "latest_evaluations_by_run evaluations i = None \<longleftrightarrow> i \<notin> fst ` set evaluations"
proof -
  have "foldl (\<lambda>latest (run, created).
       case latest run of
         None \<Rightarrow> latest(run \<mapsto> created)
       | Some current \<Rightarrow> if created > current then latest(run \<mapsto> created) else latest) m es i = None
    \<longleftrightarrow> m i = None \<and> i \<notin> fst ` set es" for m :: "uuid \<rightharpoonup> time" and es
    by (induction es arbitrary: m) (auto split: option.splits if_splits)
  then show ?thesis by (simp add: latest_evaluations_by_run_def)
qed

lemma working_run_ids: "working i d0 d \<Longrightarrow> map run_id (db_runs d) = map run_id (db_runs d0)"
proof -
  assume "working i d0 d"
  then obtain f where f: "keeps_run f" "db_runs d = update_row run_id i f (db_runs d0)"
    by (auto simp: working_def)
  have "map run_id (update_row run_id i f rows) = map run_id rows" for rows
    using f(1) by (induction rows) (simp_all add: keeps_run_def)
  then show ?thesis by (simp add: f(2))
qed

lemma replaced_run_ids:
  "run_id r = i \<Longrightarrow> map run_id (update_row run_id i (\<lambda>_. r) rows) = map run_id rows"
  by (induction rows) simp_all

text \<open>What the audit says of the document of a run that has just been completed.\<close>

lemma promoted_document_audited:
  assumes "distinct (map run_id (db_runs d))" and "get_run i d = Some r" and "run_document_id r = doc_id x"
    and "run_status r = Completed" and "run_validation_status r = Some ''passed''"
    and "doc_active_run_id x = Some i" and "doc_latest_run_id x = Some i"
  shows "map av_code (document_violations (runs_by_id (db_runs d)) (latest_evaluations_by_run evaluations) x) =
    (if i \<in> fst ` set evaluations then [] else [''completed_latest_run_missing_evaluation''])"
proof -
  have "run_id r = i" using assms(2) by (auto dest: find_row_Some)
  then show ?thesis
    using assms
    by (simp add: document_violations_def active_run_violations_def latest_run_violations_def
        runs_by_id_find no_evaluation violation_def)
qed

lemma promoted_row:
  assumes "get_document k (w_db w) \<noteq> None" and "w' = finalize_run_success base k i parsed report w"
  shows "\<exists>x'. get_document k (w_db w') = Some x' \<and> doc_id x' = k
    \<and> doc_active_run_id x' = Some i \<and> doc_latest_run_id x' = Some i"
proof -
  obtain y where "get_document k (w_db w) = Some y" using assms(1) by blast
  moreover from this have "doc_id y = k" by (auto dest: find_row_Some)
  ultimately show ?thesis
    by (simp add: assms(2) finalize_run_success_runs find_row_update promoted_document_def)
qed

lemma same_core:
  "map document_core ys = map document_core xs \<Longrightarrow> find_row doc_id k xs = Some x \<Longrightarrow>
   \<exists>y. find_row doc_id k ys = Some y \<and> document_core y = document_core x"
  by (induction xs arbitrary: ys) (auto simp: document_core_def split: if_splits)

lemma failure_keeps_active:
  assumes "working i d0 (w_db w)" and "get_run i d0 = Some r" and "in_progress r"
    and "distinct (map run_id (db_runs d0))"
    and "w' = finalize_run_failure cx st base doc i e report (Some s) w"
    and "doc_active_run_id x \<noteq> Some i" and "document_core x' = document_core x"
  shows "active_run_violations (runs_by_id (db_runs (w_db w'))) x' =
    active_run_violations (runs_by_id (db_runs d0)) x"
proof -
  obtain q where q: "get_run i (w_db w) = Some q" using working_get_run [OF assms(1-3)] by blast
  then have qi: "run_id q = i" by (auto dest: find_row_Some)
  obtain fp where "db_runs (w_db w') = update_row run_id i
      (\<lambda>_. (failed_run st (w_clock w) e report (Some s) q)\<lparr>run_failure_artifact_path := fp\<rparr>)
      (db_runs (w_db w))"
    using finalize_run_failure_runs [OF q] assms(5) by blast
  then have "map run_id (db_runs (w_db w')) = map run_id (db_runs d0)"
    using qi working_run_ids [OF assms(1)]
    by (simp add: replaced_run_ids failed_run_def release_run_def Let_def)
  then have "distinct (map run_id (db_runs (w_db w')))" using assms(4) by simp
  moreover have "get_run j (w_db w') = get_run j d0" if "j \<noteq> i" for j
    using failure_outcome [OF assms(1-3,5)] that by blast
  ultimately show ?thesis
    using assms(4,6,7)
    by (auto simp: active_run_violations_def runs_by_id_find document_core_def split: option.split)
qed

lemma completed_run_ids:
  "map run_id (update_row run_id i (completed_run now parsed report) rows) = map run_id rows"
  by (induction rows) (simp_all add: completed_run_def release_run_def)


text \<open>Codecs that meet the hypothesis: the sorted form keeps only the outline of a value.\<close>

fun emptied :: "json \<Rightarrow> json" where
  "emptied (JArr _) = JArr []"
| "emptied (JObj _) = JObj []"
| "emptied j = j"

fun outline :: "json \<Rightarrow> json" where
  "outline (JObj d) = JObj (map (\<lambda>(k, v). (k, emptied v)) d)"
| "outline j = emptied j"

definition outline_codecs :: codecs where
  "outline_codecs = counting_codecs\<lparr>cx_json_sorted := unary \<circ> outline\<rparr>"

lemma emptied_outline: "same_outline j (emptied j)" "wf_json (emptied j)"
  by (cases j; simp)+

lemma outline_codecs_ok: "artifact_codecs outline_codecs"
proof -
  have fst_emptied: "fst \<circ> (\<lambda>(k, v). (k, emptied v)) = fst" by auto
  have "distinct (map fst (map (\<lambda>(k, v). (k, emptied v)) d)) \<and> (\<forall>kv \<in> set (map (\<lambda>(k, v). (k, emptied v)) d). wf_json (snd kv))"
    if "distinct_keys d" for d
    using that emptied_outline(2) by (auto simp: fst_emptied)
  moreover have "rel_option same_outline (dict_get d k) (dict_get (map (\<lambda>(k, v). (k, emptied v)) d) k)" for d k
    by (induction d) (auto simp: emptied_outline)
  moreover have "str_strip ''1970-01-01T00:00:00+00:00'' \<noteq> []" by code_simp
  ultimately show ?thesis
    by (auto simp: fst_emptied emptied_outline(2) artifact_codecs_def outline_codecs_def counting_codecs_def example_codecs_def
        read_unary_def unary_def Let_def)
qed


end
