(* ===== verification/Run_Cleanup.thy ===== *)
theory Run_Cleanup
  imports Integrity_Audit
begin

text \<open>
  \<open>app/services/cleanup.py\<close>, which \<open>app/maintenance.py\<close> and the command line run beside the
  service: removal of forgotten uploads, of runs that a newer one has replaced, of the artifacts of
  old failures, and the backfill of columns that older versions did not write.

  Deleting a row takes the rows that refer to it along or clears the reference, as the foreign keys
  say (\<open>app/db/model_domains\<close>). A directory is the set of the files below it; whether one exists
  is an argument, since empty directories are not modelled.

  The lemmas show which rows the removal of superseded runs takes away, and that the invariant of
  the service survives every interleaving of its steps with maintenance.
\<close>

section \<open>Deleting rows and files\<close>

definition forget_run :: "uuid \<Rightarrow> document \<Rightarrow> document" where
  "forget_run i x = x\<lparr>
     doc_active_run_id := (if doc_active_run_id x = Some i then None else doc_active_run_id x),
     doc_latest_run_id := (if doc_latest_run_id x = Some i then None else doc_latest_run_id x)\<rparr>"

definition forget_item_run :: "uuid \<Rightarrow> ingest_batch_item \<Rightarrow> ingest_batch_item" where
  "forget_item_run i item = item\<lparr>item_run_id := (if item_run_id item = Some i then None else item_run_id item)\<rparr>"

definition forget_item_document :: "uuid \<Rightarrow> ingest_batch_item \<Rightarrow> ingest_batch_item" where
  "forget_item_document k item =
     item\<lparr>item_document_id := (if item_document_id item = Some k then None else item_document_id item)\<rparr>"

definition delete_run_row :: "uuid \<Rightarrow> db \<Rightarrow> db" where
  "delete_run_row i d = delete_run_chunks i (delete_run_figures i (delete_run_tables i (d\<lparr>
     db_runs := filter (\<lambda>r. run_id r \<noteq> i) (db_runs d),
     db_documents := map (forget_run i) (db_documents d),
     db_batch_items := map (forget_item_run i) (db_batch_items d)\<rparr>)))"

definition delete_document_row :: "uuid \<Rightarrow> db \<Rightarrow> db" where
  "delete_document_row k d =
     (let runs = map run_id (filter (\<lambda>r. run_document_id r = k) (db_runs d));
          d1 = fold delete_run_row runs d in
      d1\<lparr>db_documents := filter (\<lambda>x. doc_id x \<noteq> k) (db_documents d1),
         db_batch_items := map (forget_item_document k) (db_batch_items d1)\<rparr>)"

definition below :: "path \<Rightarrow> path \<Rightarrow> bool" where
  "below directory p = (take (length directory + 1) p = directory @ ''/'')"

definition delete_tree :: "path \<Rightarrow> world \<Rightarrow> world" where
  "delete_tree directory w = w\<lparr>w_files := (\<lambda>p. if below directory p then None else w_files w p)\<rparr>"

definition unlink_path :: "path option \<Rightarrow> world \<Rightarrow> world" where
  "unlink_path p w =
     (case p of None \<Rightarrow> w | Some s \<Rightarrow> if s = [] then w else delete_file_if_exists s w)"

section \<open>Staged files\<close>

text \<open>\<open>listing\<close> has the entries of the staging directory with the times of their last change.\<close>

definition cleanup_staging_files :: "(path \<times> time) list \<Rightarrow> int \<Rightarrow> world \<Rightarrow> world \<times> nat" where
  "cleanup_staging_files listing older_than_seconds w =
     (let cutoff = w_clock w - seconds older_than_seconds in
      foldl (\<lambda>(w, deleted) (p, modified_at).
        if modified_at < cutoff then (delete_file_if_exists p w, deleted + 1) else (w, deleted))
        (w, 0) listing)"

section \<open>Superseded runs\<close>

fun keep_newest :: "uuid option \<Rightarrow> int \<Rightarrow> document_run list \<Rightarrow> uuid list" where
  "keep_newest active keep [] = []"
| "keep_newest active keep (r # rs) =
     (if Some (run_id r) = active then keep_newest active keep rs
      else if keep - 1 \<le> 0 then [run_id r]
      else run_id r # keep_newest active (keep - 1) rs)"

definition determine_superseded_run_ids ::
  "document_run list \<Rightarrow> uuid option \<Rightarrow> int \<Rightarrow> uuid list" where
  "determine_superseded_run_ids successful active keep =
     (let keep_ids = (case active of None \<Rightarrow> [] | Some i \<Rightarrow> [i]) @ keep_newest active keep successful in
      filter (\<lambda>i. i \<notin> set keep_ids) (map run_id successful))"

text \<open>\<open>completed_at DESC NULLS LAST, created_at DESC\<close>.\<close>

definition newest_first :: "document_run \<Rightarrow> int \<times> time \<times> time" where
  "newest_first r =
     (case run_completed_at r of
        None \<Rightarrow> (1, 0, - run_created_at r)
      | Some t \<Rightarrow> (0, - t, - run_created_at r))"

definition successful_runs :: "document \<Rightarrow> db \<Rightarrow> document_run list" where
  "successful_runs x d = sort_key newest_first
     (filter (\<lambda>r. run_document_id r = doc_id x \<and> run_status r = Completed) (db_runs d))"

definition remove_superseded_run :: "path \<Rightarrow> uuid \<Rightarrow> world \<times> nat \<Rightarrow> uuid \<Rightarrow> world \<times> nat" where
  "remove_superseded_run base document st i =
     (let (w, deleted) = st in
      case get_run i (w_db w) of
        None \<Rightarrow> (w, deleted)
      | Some r \<Rightarrow>
          (let w1 = unlink_path (run_yaml_path r) (unlink_path (run_docling_json_path r)
                      (unlink_path (run_failure_artifact_path r) w));
               w2 = delete_tree (build_run_dir base document (run_id r)) w1 in
           (on_db (delete_run_row i) w2, deleted + 1)))"

definition remove_superseded_runs :: "path \<Rightarrow> world \<times> nat \<Rightarrow> document \<Rightarrow> world \<times> nat" where
  "remove_superseded_runs base st x =
     foldl (remove_superseded_run base (doc_id x)) st
       (determine_superseded_run_ids (successful_runs x (w_db (fst st))) (doc_active_run_id x) 1)"

definition cleanup_superseded_runs :: "path \<Rightarrow> world \<Rightarrow> world \<times> nat" where
  "cleanup_superseded_runs base w =
     (let (w1, deleted) = foldl (remove_superseded_runs base) (w, 0) (db_documents (w_db w)) in
      (if deleted > 0 then commit w1 else w1, deleted))"

section \<open>Old failures\<close>

definition expired_failure :: "time \<Rightarrow> document_run \<Rightarrow> bool" where
  "expired_failure cutoff r =
     (run_status r = Failed \<and> (case run_completed_at r of None \<Rightarrow> False | Some t \<Rightarrow> t < cutoff))"

definition document_runs_are_expired_failures :: "time \<Rightarrow> document_run list \<Rightarrow> bool" where
  "document_runs_are_expired_failures cutoff runs = (runs \<noteq> [] \<and> list_all (expired_failure cutoff) runs)"

definition delete_never_active_failed_document :: "uuid \<Rightarrow> time \<Rightarrow> world \<Rightarrow> world \<times> bool" where
  "delete_never_active_failed_document k cutoff w =
     (case get_document k (w_db w) of
        None \<Rightarrow> (w, False)
      | Some x \<Rightarrow>
          if doc_active_run_id x \<noteq> None then (w, False)
          else if \<not> document_runs_are_expired_failures cutoff
                     (filter (\<lambda>r. run_document_id r = k) (db_runs (w_db w)))
          then (w, False)
          else (on_db (delete_document_row k) (delete_file_if_exists (doc_source_path x) w), True))"

definition cleared_run :: "document_run \<Rightarrow> document_run" where
  "cleared_run r = r\<lparr>
     run_failure_artifact_path :=
       (if str_truthy (run_failure_artifact_path r) then None else run_failure_artifact_path r),
     run_docling_json_path := (if str_truthy (run_docling_json_path r) then None else run_docling_json_path r),
     run_yaml_path := (if str_truthy (run_yaml_path r) then None else run_yaml_path r)\<rparr>"

definition clean_failed_run ::
  "path \<Rightarrow> (path \<Rightarrow> bool) \<Rightarrow> world \<times> nat \<times> bool \<Rightarrow> document_run \<Rightarrow> world \<times> nat \<times> bool" where
  "clean_failed_run base has_dir st r =
     (let (w, cleaned, updated) = st;
          run_dir = build_run_dir base (run_document_id r) (run_id r);
          w1 = (if has_dir run_dir then delete_tree run_dir w else w) in
      (on_db (upd_run (run_id r) cleared_run) w1,
       cleaned + (if has_dir run_dir then 1 else 0),
       updated \<or> str_truthy (run_failure_artifact_path r) \<or> str_truthy (run_docling_json_path r)
         \<or> str_truthy (run_yaml_path r)))"

definition cleanup_expired_failed_run_artifacts ::
  "path \<Rightarrow> (path \<Rightarrow> bool) \<Rightarrow> int \<Rightarrow> world \<Rightarrow> world \<times> nat" where
  "cleanup_expired_failed_run_artifacts base has_dir older_than_days w =
     (let cutoff = w_clock w - seconds (86400 * older_than_days);
          failed_runs = filter (expired_failure cutoff) (db_runs (w_db w));
          (w1, cleaned, updated) = foldl (clean_failed_run base has_dir) (w, 0, False) failed_runs;
          touched = remdups (map run_document_id failed_runs);
          (w2, deleted) = foldl (\<lambda>(w, deleted) k.
             let (w', gone) = delete_never_active_failed_document k cutoff w in
             (w', deleted \<or> gone)) (w1, False) touched in
      (if cleaned > 0 \<or> updated \<or> deleted then commit w2 else w2, cleaned))"

text \<open>\<open>app/maintenance.py\<close>; the session is closed at the end.\<close>

definition run_cleanup ::
  "path \<Rightarrow> (path \<Rightarrow> bool) \<Rightarrow> (path \<times> time) list \<Rightarrow> world \<Rightarrow> world \<times> nat \<times> nat \<times> nat" where
  "run_cleanup base has_dir listing w =
     (let (w1, staged_deleted) = cleanup_staging_files listing 3600 w;
          (w2, failed_cleaned) = cleanup_expired_failed_run_artifacts base has_dir 7 w1;
          (w3, superseded_deleted) = cleanup_superseded_runs base w2 in
      (rollback w3, staged_deleted, failed_cleaned, superseded_deleted))"

section \<open>Backfill\<close>

text \<open>\<open>candidate in KNOWN_FAILURE_STAGES\<close> hashes the candidate, which fails for lists and dicts.\<close>

definition unhashable :: exn where
  "unhashable = Py_Error ''TypeError'' False ''unhashable type''"

definition normalized_failure_stage :: "document_run \<Rightarrow> exn + string option" where
  "normalized_failure_stage r =
     (let legacy = (if run_failure_stage r = Some ''legacy_failure''
             \<and> dict_get (run_validation_results r) ''failure_type'' = Some (JStr ''ValidationError'')
           then Some ''validation'' else None) in
      if (case run_failure_stage r of None \<Rightarrow> False | Some s \<Rightarrow> s \<in> set KNOWN_FAILURE_STAGES)
      then Inr (run_failure_stage r)
      else
        (case dict_get (run_validation_results r) ''failure_stage'' of
           Some (JArr _) \<Rightarrow> Inl unhashable
         | Some (JObj _) \<Rightarrow> Inl unhashable
         | Some (JStr s) \<Rightarrow> if s \<in> set KNOWN_FAILURE_STAGES then Inr (Some s) else Inr legacy
         | _ \<Rightarrow> Inr legacy))"

definition restaged_payload :: "string \<Rightarrow> dict \<Rightarrow> dict" where
  "restaged_payload stage payload =
     (let p1 = dict_set ''failure_stage'' (JStr stage) payload in
      case dict_get p1 ''validation_results'' of
        Some (JObj results) \<Rightarrow>
          dict_set ''validation_results'' (JObj (dict_set ''failure_stage'' (JStr stage) results)) p1
      | _ \<Rightarrow> p1)"

definition rewrite_failure_artifact_stage ::
  "codecs \<Rightarrow> path option \<Rightarrow> string \<Rightarrow> world \<Rightarrow> world \<times> bool" where
  "rewrite_failure_artifact_stage cx p stage w =
     (if \<not> path_exists (w_files w) p then (w, False)
      else
        (case load_failure_artifact cx (w_files w) (the p) of
           Inl _ \<Rightarrow> (w, False)
         | Inr payload \<Rightarrow>
             (write_file (the p) (cx_json_sorted cx (JObj (restaged_payload stage payload))) w, True)))"

record backfill_summary =
  bs_runs_scanned :: nat
  bs_chunk_count_backfilled :: nat
  bs_table_count_backfilled :: nat
  bs_figure_count_backfilled :: nat
  bs_failure_stage_backfilled :: nat
  bs_failure_artifacts_updated :: nat

definition backfilled_counts :: "db \<Rightarrow> document_run \<Rightarrow> document_run" where
  "backfilled_counts d r = r\<lparr>
     run_chunk_count := or_else (run_chunk_count r)
       (Some (int (count_list (map chunk_run_id (db_chunks d)) (run_id r)))),
     run_table_count := or_else (run_table_count r)
       (Some (int (count_list (map table_run_id (db_tables d)) (run_id r)))),
     run_figure_count := or_else (run_figure_count r)
       (Some (int (count_list (map figure_run_id (db_figures d)) (run_id r))))\<rparr>"

text \<open>
  The dictionary of results is changed in place and assigned to its own column again, which the
  object-relational mapper takes for no change; so the entry reaches the database only when the
  column was empty and a new dictionary replaces it.
\<close>

definition restaged_run :: "string \<Rightarrow> document_run \<Rightarrow> document_run" where
  "restaged_run stage r = r\<lparr>
     run_failure_stage := Some stage,
     run_validation_results :=
       (if run_validation_results r = [] then [(''failure_stage'', JStr stage)]
        else run_validation_results r)\<rparr>"

definition counted :: "'a option \<Rightarrow> nat" where
  "counted v = (if v = None then 1 else 0)"

definition backfill_run ::
  "codecs \<Rightarrow> document_run \<Rightarrow> world \<times> backfill_summary \<Rightarrow> exn + (world \<times> backfill_summary)" where
  "backfill_run cx r st =
     (let (w, s) = st;
          s1 = s\<lparr>
            bs_chunk_count_backfilled := bs_chunk_count_backfilled s + counted (run_chunk_count r),
            bs_table_count_backfilled := bs_table_count_backfilled s + counted (run_table_count r),
            bs_figure_count_backfilled := bs_figure_count_backfilled s + counted (run_figure_count r)\<rparr>;
          w1 = on_db (upd_run (run_id r) (backfilled_counts (w_db w))) w in
      case normalized_failure_stage r of
        Inl e \<Rightarrow> Inl e
      | Inr None \<Rightarrow> Inr (w1, s1)
      | Inr (Some stage) \<Rightarrow>
          if run_failure_stage r = Some stage then Inr (w1, s1)
          else
            (let (w2, rewritten) = rewrite_failure_artifact_stage cx (run_failure_artifact_path r) stage
                   (on_db (upd_run (run_id r) (restaged_run stage)) w1) in
             Inr (w2, s1\<lparr>
               bs_failure_stage_backfilled := bs_failure_stage_backfilled s1 + 1,
               bs_failure_artifacts_updated :=
                 bs_failure_artifacts_updated s1 + (if rewritten then 1 else 0)\<rparr>)))"

fun backfill_runs_from ::
  "codecs \<Rightarrow> document_run list \<Rightarrow> world \<times> backfill_summary \<Rightarrow> world \<times> (exn + backfill_summary)" where
  "backfill_runs_from cx [] st = (commit (fst st), Inr (snd st))"
| "backfill_runs_from cx (r # rs) st =
     (case backfill_run cx r st of
        Inl e \<Rightarrow> (rollback (fst st), Inl e)
      | Inr st' \<Rightarrow> backfill_runs_from cx rs st')"

definition backfill_legacy_run_audit_fields :: "codecs \<Rightarrow> world \<Rightarrow> world \<times> (exn + backfill_summary)" where
  "backfill_legacy_run_audit_fields cx w =
     backfill_runs_from cx (db_runs (w_db w))
       (w, \<lparr>bs_runs_scanned = length (db_runs (w_db w)), bs_chunk_count_backfilled = 0,
            bs_table_count_backfilled = 0, bs_figure_count_backfilled = 0,
            bs_failure_stage_backfilled = 0, bs_failure_artifacts_updated = 0\<rparr>)"

section \<open>Maintenance keeps the life cycle\<close>

lemma delete_run_row_simps [simp]:
  "db_runs (delete_run_row i d) = filter (\<lambda>r. run_id r \<noteq> i) (db_runs d)"
  "db_documents (delete_run_row i d) = map (forget_run i) (db_documents d)"
  "db_chunks (delete_run_row i d) = filter (\<lambda>c. chunk_run_id c \<noteq> i) (db_chunks d)"
  "db_tables (delete_run_row i d) = filter (\<lambda>t. table_run_id t \<noteq> i) (db_tables d)"
  "db_segments (delete_run_row i d) = filter (\<lambda>s. segment_run_id s \<noteq> i) (db_segments d)"
  "db_figures (delete_run_row i d) = filter (\<lambda>f. figure_run_id f \<noteq> i) (db_figures d)"
  by (simp_all add: delete_run_row_def delete_run_chunks_def delete_run_tables_def delete_run_figures_def)

lemma forget_run_simps [simp]:
  "doc_id (forget_run i x) = doc_id x" "doc_sha256 (forget_run i x) = doc_sha256 x"
  "doc_source_path (forget_run i x) = doc_source_path x"
  "doc_active_run_id (forget_run i x) = (if doc_active_run_id x = Some i then None else doc_active_run_id x)"
  "doc_latest_run_id (forget_run i x) = (if doc_latest_run_id x = Some i then None else doc_latest_run_id x)"
  by (simp_all add: forget_run_def)

lemma find_row_filter_id:
  "find_row key j (filter (\<lambda>r. key r \<noteq> i) rows) = (if j = i then None else find_row key j rows)"
  by (induction rows) auto

lemma distinct_map_filter_rows: "distinct (map f rows) \<Longrightarrow> distinct (map f (filter P rows))"
  by (induction rows) auto

lemma lifecycle_delete_run:
  assumes lc: "lifecycle limit d" and "\<And>r. r \<in> set (db_runs d) \<Longrightarrow> run_id r = i \<Longrightarrow> \<not> inflight r"
  shows "lifecycle limit (delete_run_row i d)"
proof -
  have gr: "get_run j (delete_run_row i d) = (if j = i then None else get_run j d)" for j
    by (simp add: find_row_filter_id)
  have gd: "get_document k (delete_run_row i d) = map_option (forget_run i) (get_document k d)" for k
    by (simp add: find_row_map)
  have "run_in_place limit (delete_run_row i d) r" if "r \<in> set (db_runs d)" "run_id r \<noteq> i" for r
    using lc that unfolding lifecycle_def run_in_place_def gd by (auto split: option.splits)
  moreover have "active_run_ok (delete_run_row i d) (forget_run i x)" if x: "x \<in> set (db_documents d)" for x
    using lifecycle_active_run [OF lc x] unfolding active_run_ok_def gr
    by (cases "doc_active_run_id x") auto
  ultimately show ?thesis
    using lc by (auto simp: lifecycle_def comp_def distinct_map_filter_rows)
qed

lemma lifecycle_delete_document:
  assumes lc: "lifecycle limit d" and none: "\<And>r. r \<in> set (db_runs d) \<Longrightarrow> run_document_id r \<noteq> k"
    and d': "db_runs d' = db_runs d" "db_documents d' = filter (\<lambda>x. doc_id x \<noteq> k) (db_documents d)"
  shows "lifecycle limit d'"
proof -
  have gd: "get_document j d' = (if j = k then None else get_document j d)" for j
    by (simp add: d' find_row_filter_id)
  have "run_in_place limit d' r" if "r \<in> set (db_runs d)" for r
    using lc that none [OF that] unfolding lifecycle_def run_in_place_def gd by (auto split: option.splits)
  moreover have "active_run_ok d' x" if "x \<in> set (db_documents d)" for x
    using lc that unfolding lifecycle_def active_run_ok_def d' by auto
  ultimately show ?thesis
    using lc by (auto simp: lifecycle_def d' distinct_map_filter_rows)
qed

text \<open>Changes of columns that the invariant does not mention.\<close>

definition relabels :: "(document_run \<Rightarrow> document_run) \<Rightarrow> bool" where
  "relabels h \<longleftrightarrow> (\<forall>r. run_id (h r) = run_id r \<and> run_document_id (h r) = run_document_id r
     \<and> run_number (h r) = run_number r \<and> run_status (h r) = run_status r
     \<and> (\<forall>limit. run_ok limit (h r) = run_ok limit r))"

lemma lifecycle_relabel:
  assumes lc: "lifecycle limit d" and h: "relabels h"
  shows "lifecycle limit (upd_run i h d)"
proof -
  let ?g = "\<lambda>r. if run_id r = i then h r else r"
  have g: "run_id (?g r) = run_id r" "run_document_id (?g r) = run_document_id r" "run_number (?g r) = run_number r"
    "run_status (?g r) = run_status r" "run_ok limit (?g r) = run_ok limit r" "inflight (?g r) = inflight r" for r
    using h by (simp_all add: relabels_def inflight_def)
  have runs: "db_runs (upd_run i h d) = map ?g (db_runs d)" by (simp add: update_row_def)
  have keys: "map run_id (map ?g rs) = map run_id rs" "map numbered_key (map ?g rs) = map numbered_key rs" for rs
    using g by (simp_all add: numbered_key_def del: if_split)
  have gr: "get_run j (upd_run i h d) = map_option ?g (get_run j d)" for j
    unfolding runs by (rule find_row_map) (rule g(1))
  have "run_in_place limit (upd_run i h d) (?g r)" if "r \<in> set (db_runs d)" for r
    using lc that unfolding lifecycle_def run_in_place_def g upd_document_simps upd_run_simps by blast
  then have "\<forall>r \<in> set (map ?g (db_runs d)). run_in_place limit (upd_run i h d) r"
    unfolding set_map by blast
  moreover have "active_run_ok (upd_run i h d) x" if x: "x \<in> set (db_documents d)" for x
  proof (cases "doc_active_run_id x")
    case (Some j)
    then obtain r where "get_run j d = Some r" "run_document_id r = doc_id x" "run_status r = Completed"
      using lifecycle_active_run [OF lc x] by blast
    then show ?thesis unfolding active_run_ok_def Some gr by (simp add: g del: if_split)
  qed (simp add: active_run_ok_def)
  ultimately show ?thesis
    using lc unfolding lifecycle_def runs keys by (simp only: upd_run_simps(2)) blast
qed

lemma relabels_steps:
  "relabels cleared_run" "relabels (backfilled_counts d)" "relabels (restaged_run stage)"
  by (simp_all add: relabels_def cleared_run_def backfilled_counts_def restaged_run_def run_ok_def unlocked_def
      cong: run_status.case_cong)

text \<open>\<open>upkeep\<close>: both what the session sees and what is committed have the life cycle.\<close>

definition db_ok :: "int \<Rightarrow> uuid \<Rightarrow> db \<Rightarrow> bool" where
  "db_ok limit n d =
     (lifecycle limit d \<and> (\<forall>r \<in> set (db_runs d). run_id r < n) \<and> (\<forall>x \<in> set (db_documents d). doc_id x < n))"

definition upkeep :: "int \<Rightarrow> world \<Rightarrow> bool" where
  "upkeep limit w = (db_ok limit (w_fresh w) (w_db w) \<and> db_ok limit (w_fresh w) (w_saved w))"

lemma upkeep_simps [simp]:
  "upkeep limit (commit w) = db_ok limit (w_fresh w) (w_db w)"
  "upkeep limit (delete_file_if_exists p w) = upkeep limit w"
  "upkeep limit (write_file p t w) = upkeep limit w"
  "upkeep limit (delete_tree dir w) = upkeep limit w"
  "upkeep limit (unlink_path q w) = upkeep limit w"
  by (simp_all add: upkeep_def delete_tree_def unlink_path_def split: option.split)

lemma upkeep_db: "upkeep limit w \<Longrightarrow> db_ok limit (w_fresh w) (w_db w)"
  by (simp add: upkeep_def)

lemma upkeep_rollback: "upkeep limit w \<Longrightarrow> service_ok limit (rollback w)"
  by (simp add: upkeep_def service_ok_def db_ok_def ids_used_def)

lemma upkeep_service: "service_ok limit w \<Longrightarrow> upkeep limit w"
  by (simp add: upkeep_def service_ok_def db_ok_def ids_used_def)

lemma upkeep_on_db:
  "upkeep limit w \<Longrightarrow> (\<And>n. db_ok limit n (w_db w) \<Longrightarrow> db_ok limit n (f (w_db w))) \<Longrightarrow> upkeep limit (on_db f w)"
  by (simp add: upkeep_def)

lemma db_ok_delete_run:
  "db_ok limit n d \<Longrightarrow> (\<And>r. r \<in> set (db_runs d) \<Longrightarrow> run_id r = i \<Longrightarrow> \<not> inflight r) \<Longrightarrow>
   db_ok limit n (delete_run_row i d)"
  by (auto simp: db_ok_def intro: lifecycle_delete_run)

lemma db_ok_relabel: "db_ok limit n d \<Longrightarrow> relabels h \<Longrightarrow> db_ok limit n (upd_run i h d)"
  by (auto simp: db_ok_def set_update_row relabels_def intro: lifecycle_relabel)

lemma fold_delete_runs [simp]:
  "db_runs (fold delete_run_row is d) = filter (\<lambda>r. run_id r \<notin> set is) (db_runs d)"
  "db_chunks (fold delete_run_row is d) = filter (\<lambda>c. chunk_run_id c \<notin> set is) (db_chunks d)"
  "db_tables (fold delete_run_row is d) = filter (\<lambda>t. table_run_id t \<notin> set is) (db_tables d)"
  "db_segments (fold delete_run_row is d) = filter (\<lambda>s. segment_run_id s \<notin> set is) (db_segments d)"
  "db_figures (fold delete_run_row is d) = filter (\<lambda>f. figure_run_id f \<notin> set is) (db_figures d)"
  by (induction "is" arbitrary: d) (auto intro!: filter_cong)

lemma db_ok_delete_runs:
  assumes "db_ok limit n d" and "\<And>r. r \<in> set (db_runs d) \<Longrightarrow> run_id r \<in> set is \<Longrightarrow> \<not> inflight r"
  shows "db_ok limit n (fold delete_run_row is d)"
  using assms
proof (induction "is" arbitrary: d)
  case (Cons i "is")
  have "db_ok limit n (delete_run_row i d)" by (rule db_ok_delete_run) (use Cons.prems in auto)
  then show ?case using Cons.IH [of "delete_run_row i d"] Cons.prems(2) by auto
qed simp

lemma db_ok_delete_document:
  assumes "db_ok limit n d" and "\<And>r. r \<in> set (db_runs d) \<Longrightarrow> run_document_id r = k \<Longrightarrow> \<not> inflight r"
  shows "db_ok limit n (delete_document_row k d)"
proof -
  let ?is = "map run_id (filter (\<lambda>r. run_document_id r = k) (db_runs d))"
  let ?d1 = "fold delete_run_row ?is d"
  have dist: "distinct (map run_id (db_runs d))" using assms(1) by (simp add: db_ok_def lifecycle_def)
  have mem: "run_document_id r = k" if "r \<in> set (db_runs d)" "run_id r \<in> set ?is" for r
    using that dist by (auto simp: distinct_map inj_on_def)
  have ok: "db_ok limit n ?d1" by (rule db_ok_delete_runs [OF assms(1)]) (use assms(2) mem in blast)
  have none: "run_document_id r \<noteq> k" if "r \<in> set (db_runs ?d1)" for r
    using that by auto
  have "lifecycle limit (delete_document_row k d)"
    by (rule lifecycle_delete_document [OF _ none])
      (use ok in \<open>simp_all add: db_ok_def delete_document_row_def Let_def\<close>)
  then show ?thesis using ok by (simp add: db_ok_def delete_document_row_def Let_def)
qed

lemma foldl_keeps: "(\<And>s x. P s \<Longrightarrow> P (f s x)) \<Longrightarrow> P s \<Longrightarrow> P (foldl f s xs)"
  by (induction xs arbitrary: s) auto

lemma staging_upkeep: "upkeep limit w \<Longrightarrow> upkeep limit (fst (cleanup_staging_files listing n w))"
  unfolding cleanup_staging_files_def Let_def
  by (rule foldl_keeps [where P = "\<lambda>st. upkeep limit (fst st)"]) (auto split: prod.split)

lemma expired_not_inflight: "expired_failure cutoff r \<Longrightarrow> \<not> inflight r"
  by (auto simp: expired_failure_def inflight_def INFLIGHT_RUN_STATUSES_def)

lemma delete_document_upkeep:
  assumes "upkeep limit w"
  shows "upkeep limit (fst (delete_never_active_failed_document k cutoff w))"
proof -
  have "upkeep limit (on_db (delete_document_row k) (delete_file_if_exists p w))"
    if "document_runs_are_expired_failures cutoff (filter (\<lambda>r. run_document_id r = k) (db_runs (w_db w)))" for p
    using assms that expired_not_inflight
    by (intro upkeep_on_db db_ok_delete_document)
      (auto simp: document_runs_are_expired_failures_def list_all_iff)
  then show ?thesis
    using assms by (auto simp: delete_never_active_failed_document_def split: option.split)
qed

lemma expired_upkeep:
  assumes "upkeep limit w"
  shows "upkeep limit (fst (cleanup_expired_failed_run_artifacts base has_dir days w))"
proof -
  let ?cut = "w_clock w - seconds (86400 * days)"
  let ?runs = "filter (expired_failure ?cut) (db_runs (w_db w))"
  obtain w1 n u where 1: "foldl (clean_failed_run base has_dir) (w, 0, False) ?runs = (w1, n, u)"
    by (metis prod_cases3)
  have "upkeep limit (fst (foldl (clean_failed_run base has_dir) (w, 0, False) ?runs))"
    by (rule foldl_keeps [where P = "\<lambda>st. upkeep limit (fst st)"])
      (use assms in \<open>auto simp: clean_failed_run_def Let_def split: prod.split
        intro!: upkeep_on_db db_ok_relabel relabels_steps\<close>)
  then have w1: "upkeep limit w1" by (simp add: 1)
  let ?step = "\<lambda>(w, deleted) k. let (w', gone) = delete_never_active_failed_document k ?cut w in
    (w', deleted \<or> gone)"
  obtain w2 b where 2: "foldl ?step (w1, False) (remdups (map run_document_id ?runs)) = (w2, b)"
    by fastforce
  have "upkeep limit (fst (foldl ?step (w1, False) (remdups (map run_document_id ?runs))))"
    by (rule foldl_keeps [where P = "\<lambda>st. upkeep limit (fst st)"])
      (use w1 in \<open>auto simp: case_prod_beta Let_def intro: delete_document_upkeep\<close>)
  then have "upkeep limit w2" unfolding 2 by simp
  then show ?thesis
    using 2 [unfolded Let_def] by (simp add: cleanup_expired_failed_run_artifacts_def Let_def 1 upkeep_db)
qed

section \<open>Which runs are superseded\<close>

text \<open>
  The runs the removal takes away: completed, not active, and not the newest of the completed runs
  of their document that are not active.
\<close>

definition retired :: "document \<Rightarrow> document_run \<Rightarrow> bool" where
  "retired x r = (run_document_id r = doc_id x \<and> run_status r = Completed
     \<and> doc_active_run_id x \<noteq> Some (run_id r))"

definition superseded_of :: "document \<Rightarrow> db \<Rightarrow> document_run \<Rightarrow> bool" where
  "superseded_of x d r = (retired x r \<and> first_by newest_first (filter (retired x) (db_runs d)) \<noteq> Some r)"

definition superseded :: "db \<Rightarrow> document_run \<Rightarrow> bool" where
  "superseded d r =
     (case get_document (run_document_id r) d of None \<Rightarrow> False | Some x \<Rightarrow> superseded_of x d r)"

lemma keep_newest_one:
  "keep_newest active 1 rs =
     (case filter (\<lambda>r. Some (run_id r) \<noteq> active) rs of [] \<Rightarrow> [] | q # _ \<Rightarrow> [run_id q])"
  by (induction rs) simp_all

definition superseded_ids :: "document \<Rightarrow> db \<Rightarrow> uuid list" where
  "superseded_ids x d = determine_superseded_run_ids (successful_runs x d) (doc_active_run_id x) 1"

lemma filter_successful:
  "filter (\<lambda>r. Some (run_id r) \<noteq> doc_active_run_id x) (successful_runs x d) =
     sort_key newest_first (filter (retired x) (db_runs d))"
proof -
  have "retired x = (\<lambda>r. (run_document_id r = doc_id x \<and> run_status r = Completed)
      \<and> Some (run_id r) \<noteq> doc_active_run_id x)"
    unfolding retired_def by metis
  then show ?thesis by (simp add: successful_runs_def filter_sort)
qed

lemma superseded_ids:
  assumes "distinct (map run_id (db_runs d))"
  shows "distinct (superseded_ids x d)"
    and "i \<in> set (superseded_ids x d) \<longleftrightarrow> (\<exists>r \<in> set (db_runs d). run_id r = i \<and> superseded_of x d r)"
proof -
  have "distinct (map run_id (successful_runs x d))"
    using assms by (simp add: successful_runs_def distinct_map distinct_map_filter_rows inj_on_def)
  then show "distinct (superseded_ids x d)"
    by (simp add: superseded_ids_def determine_superseded_run_ids_def Let_def)
  have inj: "r = q" if "r \<in> set (db_runs d)" "q \<in> set (db_runs d)" "run_id r = run_id q" for r q
    using assms that by (auto simp: distinct_map inj_on_def)
  have kept: "run_id r \<in> set (keep_newest (doc_active_run_id x) 1 (successful_runs x d)) \<longleftrightarrow>
      first_by newest_first (filter (retired x) (db_runs d)) = Some r" if r: "r \<in> set (db_runs d)" for r
  proof (cases "sort_key newest_first (filter (retired x) (db_runs d))")
    case Nil
    then show ?thesis unfolding keep_newest_one filter_successful first_by_def by simp
  next
    case (Cons q qs)
    have "q \<in> set (db_runs d)" using arg_cong [OF Cons, of set] by auto
    then have "run_id r = run_id q \<longleftrightarrow> q = r" using inj [OF r] by blast
    then show ?thesis unfolding keep_newest_one filter_successful first_by_def Cons by simp
  qed
  have ids: "i \<in> set (superseded_ids x d) \<longleftrightarrow> (\<exists>r \<in> set (successful_runs x d). run_id r = i \<and>
      doc_active_run_id x \<noteq> Some i \<and> i \<notin> set (keep_newest (doc_active_run_id x) 1 (successful_runs x d)))"
    unfolding superseded_ids_def determine_superseded_run_ids_def Let_def by (auto split: option.split)
  have mem: "r \<in> set (successful_runs x d) \<longleftrightarrow>
      r \<in> set (db_runs d) \<and> run_document_id r = doc_id x \<and> run_status r = Completed" for r
    by (auto simp: successful_runs_def)
  show "i \<in> set (superseded_ids x d) \<longleftrightarrow> (\<exists>r \<in> set (db_runs d). run_id r = i \<and> superseded_of x d r)"
    unfolding ids Bex_def mem superseded_of_def by (auto simp: retired_def [of x] kept)
qed

definition superseded_id :: "db \<Rightarrow> uuid \<Rightarrow> bool" where
  "superseded_id d i = (case get_run i d of None \<Rightarrow> False | Some r \<Rightarrow> superseded d r)"

lemma superseded_ids_all:
  assumes "distinct (map run_id (db_runs d))" and "distinct (map doc_id (db_documents d))"
  shows "i \<in> set (concat (map (\<lambda>x. superseded_ids x d) (db_documents d))) \<longleftrightarrow> superseded_id d i"
proof -
  have get: "get_document (doc_id x) d = Some x" if "x \<in> set (db_documents d)" for x
    using assms(2) that by (rule find_row_unique)
  have "(\<exists>x \<in> set (db_documents d). superseded_of x d r) \<longleftrightarrow> superseded d r" for r
    using get by (auto simp: superseded_def superseded_of_def retired_def split: option.splits dest: find_row_Some)
  then have "i \<in> set (concat (map (\<lambda>x. superseded_ids x d) (db_documents d))) \<longleftrightarrow>
      (\<exists>r \<in> set (db_runs d). run_id r = i \<and> superseded d r)"
    unfolding set_concat set_map UN_iff image_iff bex_simps using superseded_ids(2) [OF assms(1)] by blast
  also have "\<dots> \<longleftrightarrow> superseded_id d i"
    using find_row_unique [OF assms(1)]
    by (auto simp: superseded_id_def split: option.splits dest: find_row_Some)
  finally show ?thesis .
qed

text \<open>The files of a run: those below its directory, and those its columns name, wherever they are.\<close>

definition owns_file :: "path \<Rightarrow> uuid \<Rightarrow> document_run \<Rightarrow> path \<Rightarrow> bool" where
  "owns_file base k r p \<longleftrightarrow> below (build_run_dir base k (run_id r)) p \<or>
     p \<noteq> [] \<and> Some p \<in> {run_yaml_path r, run_docling_json_path r, run_failure_artifact_path r}"

definition file_of_runs :: "path \<Rightarrow> uuid \<Rightarrow> uuid list \<Rightarrow> db \<Rightarrow> path \<Rightarrow> bool" where
  "file_of_runs base k is d p \<longleftrightarrow> (\<exists>i \<in> set is. \<exists>r. get_run i d = Some r \<and> owns_file base k r p)"

text \<open>What the removal does to the world: rows and files of the given runs go, nothing else.\<close>

definition removed :: "path \<Rightarrow> uuid \<Rightarrow> uuid list \<Rightarrow> world \<Rightarrow> world \<Rightarrow> bool" where
  "removed base k is w w' \<longleftrightarrow>
     w_db w' = fold delete_run_row is (w_db w) \<and> w_saved w' = w_saved w \<and> w_fresh w' = w_fresh w
     \<and> w_clock w' = w_clock w
     \<and> (\<forall>p. w_files w' p = (if file_of_runs base k is (w_db w) p then None else w_files w p))"

text \<open>The rows, all at once.\<close>

definition forget_runs :: "(uuid \<Rightarrow> bool) \<Rightarrow> document \<Rightarrow> document" where
  "forget_runs gone x = x\<lparr>
     doc_active_run_id := (case doc_active_run_id x of None \<Rightarrow> None | Some i \<Rightarrow> if gone i then None else Some i),
     doc_latest_run_id := (case doc_latest_run_id x of None \<Rightarrow> None | Some i \<Rightarrow> if gone i then None else Some i)\<rparr>"

definition forget_item_runs :: "(uuid \<Rightarrow> bool) \<Rightarrow> ingest_batch_item \<Rightarrow> ingest_batch_item" where
  "forget_item_runs gone item = item\<lparr>
     item_run_id := (case item_run_id item of None \<Rightarrow> None | Some i \<Rightarrow> if gone i then None else Some i)\<rparr>"

definition without_runs :: "(uuid \<Rightarrow> bool) \<Rightarrow> db \<Rightarrow> db" where
  "without_runs gone d = d\<lparr>
     db_runs := filter (\<lambda>r. \<not> gone (run_id r)) (db_runs d),
     db_chunks := filter (\<lambda>c. \<not> gone (chunk_run_id c)) (db_chunks d),
     db_tables := filter (\<lambda>t. \<not> gone (table_run_id t)) (db_tables d),
     db_segments := filter (\<lambda>s. \<not> gone (segment_run_id s)) (db_segments d),
     db_figures := filter (\<lambda>f. \<not> gone (figure_run_id f)) (db_figures d),
     db_documents := map (forget_runs gone) (db_documents d),
     db_batch_items := map (forget_item_runs gone) (db_batch_items d)\<rparr>"

lemma without_no_runs: "without_runs (\<lambda>_. False) d = d"
proof -
  have "forget_runs (\<lambda>_. False) = id" "forget_item_runs (\<lambda>_. False) = id"
    by (simp_all add: fun_eq_iff forget_runs_def forget_item_runs_def split: option.split)
  then show ?thesis by (simp add: without_runs_def)
qed

lemma delete_then_without:
  "without_runs (\<lambda>j. j \<in> I) (delete_run_row i d) = without_runs (\<lambda>j. j = i \<or> j \<in> I) d"
proof -
  have "forget_runs (\<lambda>j. j \<in> I) (forget_run i x) = forget_runs (\<lambda>j. j = i \<or> j \<in> I) x" for x
    by (auto simp: forget_runs_def forget_run_def split: option.split)
  moreover have "forget_item_runs (\<lambda>j. j \<in> I) (forget_item_run i x)
      = forget_item_runs (\<lambda>j. j = i \<or> j \<in> I) x" for x
    by (auto simp: forget_item_runs_def forget_item_run_def split: option.split)
  ultimately show ?thesis
    by (auto simp: without_runs_def delete_run_row_def delete_run_chunks_def delete_run_tables_def
        delete_run_figures_def conj_commute intro: filter_cong)
qed

lemma delete_runs_without: "fold delete_run_row is d = without_runs (\<lambda>i. i \<in> set is) d"
  by (induction "is" arbitrary: d) (simp_all add: without_no_runs delete_then_without)

lemma get_run_deleted:
  "find_row run_id j (filter (\<lambda>r. run_id r \<notin> set is) rows) =
     (if j \<in> set is then None else find_row run_id j rows)"
  by (induction rows) auto

lemma unlink_path_simps [simp]:
  "w_db (unlink_path q w) = w_db w" "w_saved (unlink_path q w) = w_saved w"
  "w_fresh (unlink_path q w) = w_fresh w" "w_clock (unlink_path q w) = w_clock w"
  "w_files (unlink_path q w) p = (if q = Some p \<and> p \<noteq> [] then None else w_files w p)"
  by (auto simp: unlink_path_def split: option.split)

lemma delete_tree_simps [simp]:
  "w_db (delete_tree dir w) = w_db w" "w_saved (delete_tree dir w) = w_saved w"
  "w_fresh (delete_tree dir w) = w_fresh w" "w_clock (delete_tree dir w) = w_clock w"
  "w_files (delete_tree dir w) p = (if below dir p then None else w_files w p)"
  by (simp_all add: delete_tree_def)

lemma removed_trans:
  assumes "removed base k is w w1" and "removed base k js w1 w'" and "set is \<inter> set js = {}"
  shows "removed base k (is @ js) w w'"
proof -
  have "get_run j (w_db w1) = get_run j (w_db w)" if "j \<in> set js" for j
    using assms(1,3) that by (auto simp: removed_def get_run_deleted)
  then have "file_of_runs base k js (w_db w1) p \<longleftrightarrow> file_of_runs base k js (w_db w) p" for p
    by (simp add: file_of_runs_def)
  moreover have "file_of_runs base k (is @ js) d p \<longleftrightarrow> file_of_runs base k is d p \<or> file_of_runs base k js d p"
    for d p
    by (auto simp: file_of_runs_def)
  ultimately show ?thesis using assms(1,2) by (simp add: removed_def)
qed

lemma remove_one:
  assumes "get_run i (w_db w) \<noteq> None"
  shows "\<exists>w'. remove_superseded_run base k (w, n) i = (w', n + 1) \<and> removed base k [i] w w'"
proof -
  obtain r where r: "get_run i (w_db w) = Some r" "run_id r = i"
    using assms by (auto dest: find_row_Some)
  then show ?thesis
    by (auto simp: remove_superseded_run_def Let_def removed_def file_of_runs_def owns_file_def)
qed

lemma remove_all:
  assumes "distinct is" and "\<forall>i \<in> set is. get_run i (w_db w) \<noteq> None"
  shows "\<exists>w'. foldl (remove_superseded_run base k) (w, n) is = (w', n + length is) \<and> removed base k is w w'"
  using assms
proof (induction "is" arbitrary: w n)
  case Nil
  then show ?case by (simp add: removed_def file_of_runs_def)
next
  case (Cons i "is")
  obtain w1 where w1: "remove_superseded_run base k (w, n) i = (w1, n + 1)" "removed base k [i] w w1"
    using remove_one [of i w base k n] Cons.prems(2) by (metis list.set_intros(1))
  have "\<forall>j \<in> set is. get_run j (w_db w1) \<noteq> None"
    using Cons.prems w1(2) by (auto simp: removed_def find_row_filter_id)
  then obtain w' where w': "foldl (remove_superseded_run base k) (w1, n + 1) is = (w', n + 1 + length is)"
      "removed base k is w1 w'"
    using Cons.IH Cons.prems(1) by (metis distinct.simps(2))
  have "removed base k (i # is) w w'"
    using removed_trans [OF w1(2) w'(2)] Cons.prems(1) by simp
  then show ?case using w1(1) w'(1) by (intro exI [of _ w']) simp
qed

lemma successful_runs_same:
  assumes "db_runs d = filter (\<lambda>r. run_id r \<notin> set pre) (db_runs d0)"
    and "\<forall>r \<in> set (db_runs d0). run_id r \<in> set pre \<longrightarrow> run_document_id r \<noteq> doc_id x"
  shows "successful_runs x d = successful_runs x d0"
  unfolding successful_runs_def assms(1) filter_filter
  using assms(2) by (intro arg_cong [where f = "sort_key newest_first"] filter_cong) auto

lemma remove_documents:
  assumes "distinct (map run_id (db_runs d0))" and "distinct (map doc_id xs)"
    and "w_db w = fold delete_run_row pre d0"
    and "\<forall>r \<in> set (db_runs d0). run_id r \<in> set pre \<longrightarrow> run_document_id r \<notin> doc_id ` set xs"
  shows "\<exists>w'. foldl (remove_superseded_runs base) (w, n) xs =
      (w', n + length (concat (map (\<lambda>x. superseded_ids x d0) xs)))
    \<and> w_db w' = fold delete_run_row (pre @ concat (map (\<lambda>x. superseded_ids x d0) xs)) d0
    \<and> w_saved w' = w_saved w \<and> w_fresh w' = w_fresh w \<and> w_clock w' = w_clock w
    \<and> (\<forall>p. w_files w' p = (if \<exists>x \<in> set xs. file_of_runs base (doc_id x) (superseded_ids x d0) d0 p
          then None else w_files w p))"
  using assms(2-4)
proof (induction xs arbitrary: w n pre)
  case (Cons x xs)
  let ?is = "superseded_ids x d0"
  have "successful_runs x (w_db w) = successful_runs x d0"
    by (rule successful_runs_same [of _ pre]) (use Cons.prems(2,3) in auto)
  then have ids: "determine_superseded_run_ids (successful_runs x (w_db w)) (doc_active_run_id x) 1 = ?is"
    by (simp add: superseded_ids_def)
  have own: "run_document_id r = doc_id x" if "r \<in> set (db_runs d0)" "run_id r \<in> set ?is" for r
    using that superseded_ids(2) [OF assms(1)] assms(1)
    by (auto simp: superseded_of_def retired_def distinct_map inj_on_def)
  have here: "get_run i (w_db w) = get_run i d0 \<and> get_run i d0 \<noteq> None" if i: "i \<in> set ?is" for i
  proof -
    obtain r where r: "r \<in> set (db_runs d0)" "run_id r = i" using i superseded_ids(2) [OF assms(1)] by blast
    then have "i \<notin> set pre" using Cons.prems(3) own i by auto
    with r show ?thesis by (auto simp: find_row_None Cons.prems(2) get_run_deleted)
  qed
  then have "\<forall>i \<in> set ?is. get_run i (w_db w) \<noteq> None" by simp
  then obtain w1 where w1: "remove_superseded_runs base (w, n) x = (w1, n + length ?is)"
      "removed base (doc_id x) ?is w w1"
    using remove_all [OF superseded_ids(1) [OF assms(1)], of x w base "doc_id x" n] ids
    by (auto simp: remove_superseded_runs_def)
  have pre: "w_db w1 = fold delete_run_row (pre @ ?is) d0" using w1(2) Cons.prems(2) by (simp add: removed_def)
  have "\<forall>r \<in> set (db_runs d0). run_id r \<in> set (pre @ ?is) \<longrightarrow> run_document_id r \<notin> doc_id ` set xs"
    using Cons.prems(1,3) own by auto
  with Cons.IH [OF _ pre this, of "n + length ?is"] Cons.prems(1)
  obtain w' where w': "foldl (remove_superseded_runs base) (w1, n + length ?is) xs =
      (w', n + length ?is + length (concat (map (\<lambda>x. superseded_ids x d0) xs)))"
    "w_db w' = fold delete_run_row ((pre @ ?is) @ concat (map (\<lambda>x. superseded_ids x d0) xs)) d0"
    "w_saved w' = w_saved w1" "w_fresh w' = w_fresh w1" "w_clock w' = w_clock w1"
    "\<forall>p. w_files w' p = (if \<exists>x \<in> set xs. file_of_runs base (doc_id x) (superseded_ids x d0) d0 p
      then None else w_files w1 p)"
    by auto
  have "file_of_runs base (doc_id x) ?is (w_db w) p \<longleftrightarrow> file_of_runs base (doc_id x) ?is d0 p" for p
    using here by (simp add: file_of_runs_def)
  then have files: "\<forall>p. w_files w' p = (if \<exists>y \<in> set (x # xs). file_of_runs base (doc_id y) (superseded_ids y d0) d0 p
      then None else w_files w p)"
    using w'(6) w1(2) by (auto simp: removed_def)
  show ?case
    using w1 w' files by (intro exI [of _ w']) (simp add: removed_def add.assoc)
qed simp

lemma forgotten_documents:
  assumes "\<And>x i. x \<in> set (db_documents d) \<Longrightarrow> i \<in> set is \<Longrightarrow> doc_active_run_id x \<noteq> Some i"
  shows "map doc_active_run_id (db_documents (fold delete_run_row is d)) = map doc_active_run_id (db_documents d)
    \<and> map doc_id (db_documents (fold delete_run_row is d)) = map doc_id (db_documents d)"
  using assms
proof (induction "is" arbitrary: d)
  case (Cons i "is")
  have "map doc_active_run_id (map (forget_run i) (db_documents d)) = map doc_active_run_id (db_documents d)"
    "map doc_id (map (forget_run i) (db_documents d)) = map doc_id (db_documents d)"
    using Cons.prems by simp_all
  moreover have "doc_active_run_id x \<noteq> Some j" if "x \<in> set (db_documents (delete_run_row i d))" "j \<in> set is" for x j
    using that Cons.prems by auto
  ultimately show ?case
    using Cons.IH [of "delete_run_row i d"] unfolding delete_run_row_simps(2) fold_simps by metis
qed simp

lemma distinct_superseded:
  assumes "distinct (map run_id (db_runs d))"
  shows "distinct (map doc_id xs) \<Longrightarrow> distinct (concat (map (\<lambda>x. superseded_ids x d) xs))"
proof (induction xs)
  case (Cons x xs)
  have "set (superseded_ids x d) \<inter> set (superseded_ids y d) = {}" if "y \<in> set xs" for y
  proof -
    have "doc_id x \<noteq> doc_id y" using Cons.prems that by auto
    moreover have "r = q" if "r \<in> set (db_runs d)" "q \<in> set (db_runs d)" "run_id r = run_id q" for r q
      using assms that by (auto simp: distinct_map inj_on_def)
    ultimately show ?thesis
      using superseded_ids(2) [OF assms] by (auto simp: superseded_of_def retired_def) metis
  qed
  then show ?case using Cons superseded_ids(1) [OF assms] by auto
qed simp

lemma superseded_id_iff:
  assumes "distinct (map run_id (db_runs d))"
  shows "superseded_id d i \<longleftrightarrow> i \<in> set (map run_id (filter (superseded d) (db_runs d)))"
  using find_row_unique [OF assms]
  by (auto simp: superseded_id_def split: option.splits dest: find_row_Some)

lemma superseded_files:
  assumes "distinct (map run_id (db_runs d))" and "distinct (map doc_id (db_documents d))"
  shows "(\<exists>x \<in> set (db_documents d). file_of_runs base (doc_id x) (superseded_ids x d) d p) \<longleftrightarrow>
    (\<exists>r \<in> set (db_runs d). superseded d r \<and> owns_file base (run_document_id r) r p)" (is "?L \<longleftrightarrow> ?R")
proof
  assume ?L
  then obtain x i r where x: "x \<in> set (db_documents d)" "i \<in> set (superseded_ids x d)"
    and r: "get_run i d = Some r" "owns_file base (doc_id x) r p"
    by (auto simp: file_of_runs_def)
  then obtain q where q: "q \<in> set (db_runs d)" "run_id q = i" "superseded_of x d q"
    using superseded_ids(2) [OF assms(1)] by blast
  then have "q = r" using r(1) find_row_unique [OF assms(1)] by force
  moreover have "get_document (doc_id x) d = Some x" using x(1) assms(2) by (simp add: find_row_unique)
  moreover have "run_document_id q = doc_id x" using q(3) by (simp add: superseded_of_def retired_def)
  ultimately show ?R using q r(2) by (auto simp: superseded_def intro!: bexI [of _ q])
next
  assume ?R
  then obtain r where r: "r \<in> set (db_runs d)" "superseded d r" "owns_file base (run_document_id r) r p"
    by blast
  then obtain x where x: "get_document (run_document_id r) d = Some x" "superseded_of x d r"
    by (auto simp: superseded_def split: option.splits)
  then have "x \<in> set (db_documents d)" "doc_id x = run_document_id r" by (auto dest: find_row_Some)
  moreover have "run_id r \<in> set (superseded_ids x d)"
    using superseded_ids(2) [OF assms(1)] x(2) r(1) by blast
  moreover have "get_run (run_id r) d = Some r" using r(1) assms(1) by (simp add: find_row_unique)
  ultimately show ?L unfolding file_of_runs_def using r(3) by metis
qed

lemma cleanup_superseded_result:
  assumes "distinct (map run_id (db_runs (w_db w)))" and "distinct (map doc_id (db_documents (w_db w)))"
  obtains w' ids where "cleanup_superseded_runs base w = (w', length ids)" "distinct ids"
    "w_db w' = fold delete_run_row ids (w_db w)" "w_saved w' = (if ids = [] then w_saved w else w_db w')"
    "w_fresh w' = w_fresh w" "\<And>i. i \<in> set ids \<longleftrightarrow> superseded_id (w_db w) i"
    "\<And>p. w_files w' p = (if \<exists>r \<in> set (db_runs (w_db w)). superseded (w_db w) r
        \<and> owns_file base (run_document_id r) r p then None else w_files w p)"
proof -
  let ?d = "w_db w"
  let ?ids = "concat (map (\<lambda>x. superseded_ids x ?d) (db_documents ?d))"
  obtain w1 where w1: "foldl (remove_superseded_runs base) (w, 0) (db_documents ?d) = (w1, length ?ids)"
      "w_db w1 = fold delete_run_row ?ids ?d" "w_saved w1 = w_saved w" "w_fresh w1 = w_fresh w"
    and files: "\<And>p. w_files w1 p = (if \<exists>x \<in> set (db_documents ?d).
      file_of_runs base (doc_id x) (superseded_ids x ?d) ?d p then None else w_files w p)"
    using remove_documents [OF assms(1,2), of w "[]" base 0] by auto
  have saved: "w_saved (if 0 < length xs then commit w1 else w1) =
      (if xs = [] then w_saved w else w_db (if 0 < length xs then commit w1 else w1))" for xs :: "uuid list"
    using w1(3) by simp
  define w' where "w' = (if 0 < length ?ids then commit w1 else w1)"
  show ?thesis
  proof (rule that [of w' ?ids])
    show "cleanup_superseded_runs base w = (w', length ?ids)"
      by (simp only: cleanup_superseded_runs_def w1(1) Let_def prod.case w'_def)
    show "w_saved w' = (if ?ids = [] then w_saved w else w_db w')"
      unfolding w'_def by (rule saved)
    show "w_files w' p = (if \<exists>r \<in> set (db_runs ?d). superseded ?d r
        \<and> owns_file base (run_document_id r) r p then None else w_files w p)" for p
    proof -
      have "w_files w' = w_files w1" by (simp add: w'_def)
      then show ?thesis using files [of p] unfolding superseded_files [OF assms] by (simp only:)
    qed
  qed (use w1 distinct_superseded [OF assms] superseded_ids_all [OF assms] in \<open>simp_all add: w'_def\<close>)
qed

lemma superseded_not_active:
  assumes lc: "lifecycle limit d" and x: "x \<in> set (db_documents d)" and "superseded_id d i"
  shows "doc_active_run_id x \<noteq> Some i"
proof
  assume active: "doc_active_run_id x = Some i"
  then obtain r where r: "get_run i d = Some r" "run_document_id r = doc_id x"
    using lifecycle_active_run [OF lc x] by blast
  have "get_document (doc_id x) d = Some x" using lc x by (simp add: lifecycle_def find_row_unique)
  then have "retired x r" using assms(3) r by (simp add: superseded_id_def superseded_def superseded_of_def)
  moreover have "run_id r = i" using r(1) by (auto dest: find_row_Some)
  ultimately show False using active by (simp add: retired_def)
qed

lemma superseded_not_inflight: "superseded d r \<Longrightarrow> \<not> inflight r"
  by (auto simp: superseded_def superseded_of_def retired_def inflight_def INFLIGHT_RUN_STATUSES_def
      split: option.splits)

lemma superseded_upkeep:
  assumes "upkeep limit w"
  shows "upkeep limit (fst (cleanup_superseded_runs base w))"
proof -
  have ok: "db_ok limit (w_fresh w) (w_db w)" using assms by (rule upkeep_db)
  then have dist: "distinct (map run_id (db_runs (w_db w)))" "distinct (map doc_id (db_documents (w_db w)))"
    by (simp_all add: db_ok_def lifecycle_def)
  obtain w' ids where w': "cleanup_superseded_runs base w = (w', length ids)"
    "w_db w' = fold delete_run_row ids (w_db w)" "w_saved w' = (if ids = [] then w_saved w else w_db w')"
    "w_fresh w' = w_fresh w" "\<And>i. i \<in> set ids \<longleftrightarrow> superseded_id (w_db w) i"
    by (rule cleanup_superseded_result [OF dist, of base]) blast
  have "\<not> inflight r" if "r \<in> set (db_runs (w_db w))" "run_id r \<in> set ids" for r
    using that find_row_unique [OF dist(1)] superseded_not_inflight by (auto simp: w'(5) superseded_id_def)
  then have "db_ok limit (w_fresh w) (w_db w')"
    unfolding w'(2) by (rule db_ok_delete_runs [OF ok])
  then show ?thesis using assms w' by (simp add: upkeep_def)
qed

lemma backfill_run_upkeep:
  "upkeep limit (fst st) \<Longrightarrow> backfill_run cx r st = Inr st' \<Longrightarrow> upkeep limit (fst st')"
  by (cases st)
    (auto simp: backfill_run_def rewrite_failure_artifact_stage_def Let_def
      intro!: upkeep_on_db db_ok_relabel relabels_steps split: sum.splits option.splits if_splits)

lemma backfill_upkeep: "upkeep limit (fst st) \<Longrightarrow> upkeep limit (fst (backfill_runs_from cx rs st))"
proof (induction rs arbitrary: st)
  case (Cons r rs)
  then show ?case
    using backfill_run_upkeep [OF Cons.prems, of cx r]
    by (auto simp: upkeep_def split: sum.split)
qed (simp add: upkeep_db)

section \<open>The service and its maintenance\<close>

text \<open>
  The steps of the service, the clean-up with any listing of the staging directory, and the
  backfill, in any order.
\<close>

inductive maintained_step :: "codecs \<Rightarrow> settings \<Rightarrow> path \<Rightarrow> world \<Rightarrow> world \<Rightarrow> bool"
  for cx st base where
  serve: "run_step cx st base True w w' \<Longrightarrow> maintained_step cx st base w w'"
| cleanup: "maintained_step cx st base w (fst (run_cleanup base has_dir listing w))"
| backfill: "maintained_step cx st base w (fst (backfill_legacy_run_audit_fields cx w))"

lemma run_cleanup_ok:
  assumes "service_ok limit w"
  shows "service_ok limit (fst (run_cleanup base has_dir listing w))"
proof -
  have "upkeep limit (fst (cleanup_superseded_runs base (fst (cleanup_expired_failed_run_artifacts base
      has_dir 7 (fst (cleanup_staging_files listing 3600 w))))))"
    by (intro superseded_upkeep expired_upkeep staging_upkeep upkeep_service assms)
  then show ?thesis by (auto simp: run_cleanup_def case_prod_beta intro: upkeep_rollback)
qed

lemma settled_upkeep: "upkeep limit w \<Longrightarrow> w_saved w = w_db w \<Longrightarrow> service_ok limit w"
  by (simp add: upkeep_def service_ok_def db_ok_def ids_used_def)

lemma backfill_settled: "w_saved (fst (backfill_runs_from cx rs st)) = w_db (fst (backfill_runs_from cx rs st))"
  by (induction rs arbitrary: st) (simp_all split: sum.split)

lemma maintained_step_ok:
  assumes "maintained_step cx st base w w'" and "service_ok (set_worker_max_attempts st) w"
    and "1 \<le> set_worker_max_attempts st"
  shows "service_ok (set_worker_max_attempts st) w'"
  using assms(1)
proof cases
  case serve
  then show ?thesis using run_step_ok assms(2,3) by blast
next
  case (cleanup has_dir listing)
  then show ?thesis using run_cleanup_ok assms(2) by simp
next
  case backfill
  have "upkeep (set_worker_max_attempts st) w'"
    unfolding backfill backfill_legacy_run_audit_fields_def
    by (rule backfill_upkeep) (use upkeep_service [OF assms(2)] in simp)
  then show ?thesis
    unfolding backfill backfill_legacy_run_audit_fields_def
    by (rule settled_upkeep) (rule backfill_settled)
qed

lemma maintained_ok:
  assumes "(maintained_step cx st base)\<^sup>*\<^sup>* initial_world w" and "1 \<le> set_worker_max_attempts st"
  shows "service_ok (set_worker_max_attempts st) w"
  using assms(1) by induction (auto intro: initial_ok maintained_step_ok assms(2))

text \<open>
  C1: starting from an empty database, and as long as only workers that hold the lease of a run
  write to it, every order of uploads, local ingests, reprocess requests, claims, recoveries,
  heartbeats, worker results, clean-ups and backfills keeps the life cycle: identifiers, digests
  and run numbers unique, every run with the columns of its status and at most the allowed
  attempts, every active run a completed run of its document, everything committed.
\<close>

theorem maintained_lifecycle:
  assumes "(maintained_step cx st base)\<^sup>*\<^sup>* initial_world w" and "1 \<le> set_worker_max_attempts st"
  shows "service_ok (set_worker_max_attempts st) w"
  by (rule maintained_ok [OF assms])

definition example_maintained :: world where
  "example_maintained =
     fst (run_cleanup ''store'' (\<lambda>_. True) [(''store/_staging/x'', 0)] example_done)"

lemma serve_reachable:
  "(run_step cx st base True)\<^sup>*\<^sup>* v w \<Longrightarrow> (maintained_step cx st base)\<^sup>*\<^sup>* v w"
  by (induction rule: rtranclp_induct) (auto intro: rtranclp.rtrancl_into_rtrancl maintained_step.serve)

lemma example_maintained_reachable:
  "(maintained_step example_codecs default_settings ''store'')\<^sup>*\<^sup>* initial_world example_maintained"
  unfolding example_maintained_def
  by (rule rtranclp.rtrancl_into_rtrancl [OF serve_reachable [OF example_done_reachable] maintained_step.cleanup])

theorem maintained_lifecycle_witness:
  "service_ok (set_worker_max_attempts default_settings) example_maintained"
  by (rule maintained_lifecycle [OF example_maintained_reachable example_max_attempts])

text \<open>
  Whatever the uploads, workers, clean-ups and operators of the service do, as long as a worker
  writes only under its lease, the integrity audit never finds a document whose active run is
  missing, belongs to another document, is not completed or did not pass validation.
\<close>

theorem audit_accepts_active_runs:
  assumes "(maintained_step cx st base)\<^sup>*\<^sup>* initial_world w" and "1 \<le> set_worker_max_attempts st"
  shows "set active_run_codes \<inter>
    fst ` set (au_violation_counts_by_code (run_integrity_audit cx evaluations w)) = {}"
  by (rule audit_of_service [OF maintained_ok [OF assms]])

theorem audit_accepts_active_runs_witness:
  "set active_run_codes \<inter> fst ` set (au_violation_counts_by_code
     (run_integrity_audit example_codecs [(2, 0)] example_maintained)) = {}"
  by (rule audit_accepts_active_runs [OF example_maintained_reachable example_max_attempts])

text \<open>
  C14: the clean-up of superseded runs removes exactly the completed runs that are neither active nor
  the newest of the other completed runs of their document. It returns their number and commits; the
  rows of their chunks, tables, segments and figures go, what refers to them (the latest run of a
  document, the item of a batch) is cleared, every file below their directories or named in their
  columns goes, and nothing else changes in the database or among the files. No document loses its
  active run.
\<close>

theorem superseded_cleanup_exact:
  assumes "service_ok limit w" and "cleanup_superseded_runs base w = (w', n)"
  shows "w_db w' = without_runs (superseded_id (w_db w)) (w_db w) \<and> w_saved w' = w_db w'
    \<and> n = length (filter (superseded (w_db w)) (db_runs (w_db w)))
    \<and> map doc_active_run_id (db_documents (w_db w')) = map doc_active_run_id (db_documents (w_db w))
    \<and> (\<forall>p. w_files w' p =
        (if \<exists>r \<in> set (db_runs (w_db w)). superseded (w_db w) r \<and> owns_file base (run_document_id r) r p
         then None else w_files w p))"
proof -
  have lc: "lifecycle limit (w_db w)" using assms(1) by (simp add: service_ok_def)
  then have dist: "distinct (map run_id (db_runs (w_db w)))" "distinct (map doc_id (db_documents (w_db w)))"
    by (simp_all add: lifecycle_def)
  obtain ids where w': "w_db w' = fold delete_run_row ids (w_db w)" "n = length ids" "distinct ids"
    "w_saved w' = (if ids = [] then w_saved w else w_db w')"
    "\<And>i. i \<in> set ids \<longleftrightarrow> superseded_id (w_db w) i"
    and files: "\<And>p. w_files w' p = (if \<exists>r \<in> set (db_runs (w_db w)). superseded (w_db w) r
        \<and> owns_file base (run_document_id r) r p then None else w_files w p)"
    by (rule cleanup_superseded_result [OF dist, of base]) (use assms(2) in auto)
  have "doc_active_run_id x \<noteq> Some i" if x: "x \<in> set (db_documents (w_db w))" and i: "i \<in> set ids" for x i
    using superseded_not_active [OF lc x] i w'(5) by blast
  then have active: "map doc_active_run_id (db_documents (w_db w')) = map doc_active_run_id (db_documents (w_db w))"
    unfolding w'(1) by (rule forgotten_documents [THEN conjunct1])
  have rows: "w_db w' = without_runs (superseded_id (w_db w)) (w_db w)"
    by (simp add: w'(1,5) delete_runs_without)
  have "set ids = set (map run_id (filter (superseded (w_db w)) (db_runs (w_db w))))"
    using w'(5) superseded_id_iff [OF dist(1)] by blast
  then have "n = length (filter (superseded (w_db w)) (db_runs (w_db w)))"
    using w'(2) distinct_card [OF w'(3)] distinct_card [OF distinct_map_filter_rows [OF dist(1)]]
    by (metis length_map)
  moreover have "w_saved w' = w_db w'" using w'(1,4) assms(1) by (cases ids) (simp_all add: service_ok_def)
  ultimately show ?thesis using rows active files by blast
qed

text \<open>A document with its active run and three older completed ones.\<close>

definition old_run :: "uuid \<Rightarrow> int \<Rightarrow> time \<Rightarrow> document_run" where
  "old_run i n finished = (new_run i 1 n 0)\<lparr>run_status := Completed, run_attempts := 1,
     run_validation_status := Some ''passed'', run_completed_at := Some finished\<rparr>"

definition example_old :: world where
  "example_old =
     (let d = empty_db\<lparr>
        db_documents := [(new_document 1 ''a.pdf'' ''sha'' ''application/pdf'' 0)\<lparr>
          doc_active_run_id := Some 5, doc_latest_run_id := Some 5\<rparr>],
        db_runs := [old_run 2 1 10, old_run 3 2 30, old_run 4 3 20, old_run 5 4 40]\<rparr> in
      \<lparr>w_db = d, w_saved = d,
       w_files = [build_run_dir ''store'' 1 2 @ ''/a'' \<mapsto> ''x'', build_run_dir ''store'' 1 3 @ ''/a'' \<mapsto> ''y''],
       w_clock = 1000, w_fresh = 6\<rparr>)"

lemma example_old_ok: "service_ok 3 example_old"
  by (simp add: service_ok_def example_old_def ids_used_def lifecycle_def run_in_place_def active_run_ok_def
      run_ok_def unlocked_def old_run_def new_run_def new_document_def empty_db_def numbered_key_def
      inflight_def INFLIGHT_RUN_STATUSES_def Let_def)

theorem superseded_cleanup_exact_witness:
  "\<exists>w'. cleanup_superseded_runs ''store'' example_old = (w', 2) \<and> map run_id (db_runs (w_db w')) = [3, 5]
    \<and> w_files w' (build_run_dir ''store'' 1 2 @ ''/a'') = None
    \<and> w_files w' (build_run_dir ''store'' 1 3 @ ''/a'') = Some ''y''"
proof -
  have "map run_id (db_runs (without_runs (superseded_id (w_db example_old)) (w_db example_old))) = [3, 5]"
    "length (filter (superseded (w_db example_old)) (db_runs (w_db example_old))) = 2"
    "\<exists>r \<in> set (db_runs (w_db example_old)). superseded (w_db example_old) r
        \<and> owns_file ''store'' (run_document_id r) r (build_run_dir ''store'' 1 2 @ ''/a'')"
    "\<not> (\<exists>r \<in> set (db_runs (w_db example_old)). superseded (w_db example_old) r
        \<and> owns_file ''store'' (run_document_id r) r (build_run_dir ''store'' 1 3 @ ''/a''))"
    "w_files example_old (build_run_dir ''store'' 1 3 @ ''/a'') = Some ''y''"
    by code_simp+
  moreover obtain w' n where w': "cleanup_superseded_runs ''store'' example_old = (w', n)" by fastforce
  ultimately show ?thesis
    using superseded_cleanup_exact [OF example_old_ok w'] by (intro exI [of _ w']) (simp del: map_eq_Cons_conv)
qed

end
