(* ===== verification/Search_Log.thy ===== *)
theory Search_Log
  imports Search_Guarantees
begin

text \<open>
  The log of searches: \<open>_persist_search_execution\<close> and \<open>_persist_search_result_spans\<close>
  (\<open>app/services/search_execution_persistence.py\<close>), and \<open>app/services/search_history.py\<close>, which reads
  a logged search back, records feedback on it and replays it.

  The operator runs that \<open>_persist_search_operator_runs\<close> writes beside the log are what
  \<open>sv_persist\<close> of the search services returns. Durations of searches are left out. Validation by
  pydantic of the filters column is an argument.
\<close>

section \<open>Rows\<close>

text \<open>A row of \<open>search_requests\<close>.\<close>

record logged_request =
  lr_id :: uuid
  lr_parent_request_id :: "uuid option"
  lr_evaluation_id :: "uuid option"
  lr_run_id :: "uuid option"
  lr_origin :: string
  lr_query_text :: string
  lr_mode :: string
  lr_filters :: dict
  lr_details :: dict
  lr_limit :: nat
  lr_tabular_query :: bool
  lr_harness_name :: string
  lr_reranker_name :: string
  lr_reranker_version :: string
  lr_retrieval_profile_name :: string
  lr_harness_config :: json
  lr_embedding_status :: string
  lr_embedding_error :: "string option"
  lr_candidate_count :: nat
  lr_result_count :: nat
  lr_table_hit_count :: nat
  lr_created_at :: time

text \<open>A row of \<open>search_request_results\<close>.\<close>

record logged_result =
  lx_id :: uuid
  lx_search_request_id :: uuid
  lx_rank :: nat
  lx_base_rank :: "nat option"
  lx_result_type :: string
  lx_document_id :: uuid
  lx_run_id :: uuid
  lx_chunk_id :: "uuid option"
  lx_table_id :: "uuid option"
  lx_score :: rat
  lx_keyword_score :: "rat option"
  lx_semantic_score :: "rat option"
  lx_hybrid_score :: "rat option"
  lx_rerank_features :: rerank_features
  lx_page_from :: "int option"
  lx_page_to :: "int option"
  lx_source_filename :: string
  lx_label :: "string option"
  lx_preview_text :: "string option"
  lx_created_at :: time

text \<open>A row of \<open>search_request_result_spans\<close>; \<open>ly_span\<close> holds the columns it copies from the span.\<close>

record logged_span =
  ly_id :: uuid
  ly_search_request_id :: uuid
  ly_search_request_result_id :: uuid
  ly_span_rank :: nat
  ly_span :: ranked_span
  ly_created_at :: time

text \<open>A row of \<open>search_feedback\<close>.\<close>

record search_feedback =
  fb_id :: uuid
  fb_search_request_id :: uuid
  fb_search_request_result_id :: "uuid option"
  fb_result_rank :: "nat option"
  fb_feedback_type :: string
  fb_note :: "string option"
  fb_created_at :: time

text \<open>The log, the tables that are searched, the next identifier and the time.\<close>

record search_db =
  lg_requests :: "logged_request list"
  lg_results :: "logged_result list"
  lg_spans :: "logged_span list"
  lg_feedback :: "search_feedback list"
  lg_source :: search_source
  lg_fresh :: uuid
  lg_clock :: time

text \<open>What searches run with: the services, the codecs and the world with the settings and the override file.\<close>

record search_site =
  ste_services :: search_services
  ste_codecs :: codecs
  ste_world :: world
  ste_validate :: "dict \<Rightarrow> exn + search_filters"

section \<open>Writing the log\<close>

definition PERSISTED_RESULT_SPAN_LIMIT :: nat where
  "PERSISTED_RESULT_SPAN_LIMIT = 5"

text \<open>\<open>model_dump(mode="json", exclude_none=True)\<close>.\<close>

definition dump_filters :: "search_filters \<Rightarrow> dict" where
  "dump_filters f =
     (case sf_document_id f of None \<Rightarrow> [] | Some i \<Rightarrow> [(''document_id'', JStr (show_nat i))])
     @ (case sf_page_range f of None \<Rightarrow> []
        | Some p \<Rightarrow> [(''page_range'', JObj [(''page_from'', JInt (prg_from p)), (''page_to'', JInt (prg_to p))])])
     @ (case sf_result_type f of None \<Rightarrow> [] | Some t \<Rightarrow> [(''result_type'', JStr t)])"

definition filters_payload :: "search_request \<Rightarrow> dict" where
  "filters_payload request = (case sr_filters request of None \<Rightarrow> [] | Some f \<Rightarrow> dump_filters f)"

definition request_row ::
  "string \<Rightarrow> uuid option \<Rightarrow> uuid option \<Rightarrow> search_log \<Rightarrow> time \<Rightarrow> uuid \<Rightarrow> logged_request" where
  "request_row origin evaluation parent entry now i = \<lparr>
     lr_id = i, lr_parent_request_id = parent, lr_evaluation_id = evaluation, lr_run_id = sl_run entry,
     lr_origin = origin, lr_query_text = sr_query (sl_request entry),
     lr_mode = search_mode_value (sr_mode (sl_request entry)), lr_filters = filters_payload (sl_request entry),
     lr_details = sl_details entry, lr_limit = sr_limit (sl_request entry),
     lr_tabular_query = sl_tabular_query entry, lr_harness_name = sl_harness_name entry,
     lr_reranker_name = sl_reranker_name entry, lr_reranker_version = sl_reranker_version entry,
     lr_retrieval_profile_name = sl_retrieval_profile_name entry, lr_harness_config = sl_harness_config entry,
     lr_embedding_status = sl_embedding_status entry, lr_embedding_error = sl_embedding_error entry,
     lr_candidate_count = length (sl_candidates entry), lr_result_count = length (sl_reranked entry),
     lr_table_hit_count = length (filter (\<lambda>c. rr_result_type (re_item c) = ''table'') (sl_reranked entry)),
     lr_created_at = now\<rparr>"

definition result_row :: "uuid \<Rightarrow> time \<Rightarrow> uuid \<times> reranked_result \<Rightarrow> logged_result" where
  "result_row request now = (\<lambda>(i, c). let r = re_item c in \<lparr>
     lx_id = i, lx_search_request_id = request, lx_rank = re_rank c, lx_base_rank = re_base_rank c,
     lx_result_type = rr_result_type r, lx_document_id = rr_document_id r, lx_run_id = rr_run_id r,
     lx_chunk_id = (if rr_result_type r = ''chunk'' then Some (rr_result_id r) else None),
     lx_table_id = (if rr_result_type r = ''table'' then Some (rr_result_id r) else None),
     lx_score = re_score c, lx_keyword_score = rr_keyword_score r, lx_semantic_score = rr_semantic_score r,
     lx_hybrid_score = rr_hybrid_score r, lx_rerank_features = re_features c,
     lx_page_from = rr_page_from r, lx_page_to = rr_page_to r, lx_source_filename = rr_source_filename r,
     lx_label = result_label r, lx_preview_text = result_preview r, lx_created_at = now\<rparr>)"

text \<open>The spans of one result, and those of all of them; \<open>i\<close> is the first identifier.\<close>

definition span_metadata :: "ranked_result \<Rightarrow> ranked_span \<Rightarrow> dict" where
  "span_metadata r s = dict_merge [
     (''retrieval_source_count'', JInt (int (length (rr_retrieval_sources r)))),
     (''retrieval_sources'', JArr (map JStr (rr_retrieval_sources r)))] (es_metadata s)"

definition result_spans :: "uuid \<Rightarrow> uuid \<Rightarrow> time \<Rightarrow> reranked_result \<Rightarrow> uuid \<Rightarrow> logged_span list" where
  "result_spans request row now c i =
     map (\<lambda>(k, s). \<lparr>ly_id = i + k, ly_search_request_id = request, ly_search_request_result_id = row,
         ly_span_rank = k + 1, ly_span = s\<lparr>es_metadata := span_metadata (re_item c) s\<rparr>, ly_created_at = now\<rparr>)
       (enumerate 0 (take PERSISTED_RESULT_SPAN_LIMIT (rr_evidence_spans (re_item c))))"

fun all_result_spans ::
  "uuid \<Rightarrow> time \<Rightarrow> (uuid \<times> reranked_result) list \<Rightarrow> uuid \<Rightarrow> logged_span list" where
  "all_result_spans request now [] i = []"
| "all_result_spans request now ((row, c) # rest) i =
     (let spans = result_spans request row now c i in
      spans @ all_result_spans request now rest (i + length spans))"

definition persist_search_execution ::
  "string \<Rightarrow> uuid option \<Rightarrow> uuid option \<Rightarrow> search_log \<Rightarrow> search_db \<Rightarrow> search_db" where
  "persist_search_execution origin evaluation parent entry d =
     (let i = lg_fresh d; now = lg_clock d; rows = enumerate (Suc i) (sl_reranked entry);
          spans = all_result_spans i now rows (Suc i + length rows) in
      d\<lparr>lg_requests := lg_requests d @ [request_row origin evaluation parent entry now i],
        lg_results := lg_results d @ map (result_row i now) rows,
        lg_spans := lg_spans d @ spans,
        lg_fresh := Suc i + length rows + length spans\<rparr>)"

text \<open>
  A search with its log. The services get the identifier the request row will have; the rows of the
  index that the backfill added stay.
\<close>

definition log_services :: "search_services \<Rightarrow> uuid \<Rightarrow> search_services" where
  "log_services sv i = sv\<lparr>sv_persist := (\<lambda>entry. map_sum id (\<lambda>(_, operators). (Some i, operators)) (sv_persist sv entry))\<rparr>"

definition backfilled_source :: "search_services \<Rightarrow> search_source \<Rightarrow> search_source" where
  "backfilled_source sv so = (case sv_backfill sv so of Inl _ \<Rightarrow> so | Inr (so1, _) \<Rightarrow> so1)"

definition logged_search ::
  "search_site \<Rightarrow> string \<Rightarrow> uuid option \<Rightarrow> uuid option \<Rightarrow> uuid option \<Rightarrow> dict \<Rightarrow> search_request \<Rightarrow> search_db \<Rightarrow>
   search_db \<times> (exn + search_execution)" where
  "logged_search st origin run evaluation parent overrides request d =
     (let sv = log_services (ste_services st) (lg_fresh d) in
      case get_search_harness (ste_codecs st) (sr_harness_name request) overrides (ste_world st) of
        Inl e \<Rightarrow> (d, Inl e)
      | Inr _ \<Rightarrow>
          (let d1 = d\<lparr>lg_source := backfilled_source sv (lg_source d)\<rparr> in
           case execute_search sv (ste_codecs st) (ste_world st) (lg_source d) None run None overrides request of
             Inl e \<Rightarrow> (d1, Inl e)
           | Inr ex \<Rightarrow> (persist_search_execution origin evaluation parent (se_log ex) d1, Inr ex)))"

section \<open>Reading the log\<close>

text \<open>\<open>SearchLoggedResultResponse\<close>.\<close>

record logged_view =
  lv_rank :: nat
  lv_base_rank :: "nat option"
  lv_rerank_features :: rerank_features
  lv_result :: search_result

record request_detail =
  rd_request :: logged_request
  rd_feedback :: "search_feedback list"
  rd_results :: "logged_view list"

definition request_not_found :: "uuid \<Rightarrow> exn" where
  "request_not_found i = Http_Error 404 ''search_request_not_found'' (''Search request not found: '' @ show_nat i)"

definition load_request_row :: "uuid \<Rightarrow> search_db \<Rightarrow> exn + logged_request" where
  "load_request_row i d =
     (case find_row lr_id i (lg_requests d) of None \<Rightarrow> Inl (request_not_found i) | Some r \<Rightarrow> Inr r)"

definition to_logged_result :: "logged_result \<Rightarrow> logged_span list \<Rightarrow> logged_view" where
  "to_logged_result row spans = \<lparr>lv_rank = lx_rank row, lv_base_rank = lx_base_rank row,
     lv_rerank_features = lx_rerank_features row,
     lv_result = \<lparr>res_result_type = lx_result_type row, res_document_id = lx_document_id row,
       res_run_id = lx_run_id row, res_score = lx_score row, res_chunk_id = lx_chunk_id row,
       res_chunk_text = (if lx_result_type row = ''chunk'' then lx_preview_text row else None),
       res_heading = (if lx_result_type row = ''chunk'' then lx_label row else None),
       res_table_id = lx_table_id row,
       res_table_title = (if lx_result_type row = ''table'' then lx_label row else None),
       res_table_heading = None,
       res_table_preview = (if lx_result_type row = ''table'' then lx_preview_text row else None),
       res_row_count = None, res_col_count = None,
       res_page_from = lx_page_from row, res_page_to = lx_page_to row,
       res_source_filename = lx_source_filename row,
       res_scores = (lx_keyword_score row, lx_semantic_score row, lx_hybrid_score row),
       res_evidence_spans = map ly_span spans\<rparr>\<rparr>"

definition spans_of_result :: "search_db \<Rightarrow> uuid \<Rightarrow> logged_span list" where
  "spans_of_result d row =
     sort_key ly_span_rank (filter (\<lambda>s. ly_search_request_result_id s = row) (lg_spans d))"

definition build_request_detail :: "logged_request \<Rightarrow> search_db \<Rightarrow> request_detail" where
  "build_request_detail r d = \<lparr>rd_request = r,
     rd_feedback = sort_key (\<lambda>f. - fb_created_at f)
       (filter (\<lambda>f. fb_search_request_id f = lr_id r) (lg_feedback d)),
     rd_results = map (\<lambda>row. to_logged_result row (spans_of_result d (lx_id row)))
       (sort_key lx_rank (filter (\<lambda>row. lx_search_request_id row = lr_id r) (lg_results d)))\<rparr>"

definition get_search_request_detail :: "uuid \<Rightarrow> search_db \<Rightarrow> exn + request_detail" where
  "get_search_request_detail i d = map_sum id (\<lambda>r. build_request_detail r d) (load_request_row i d)"

section \<open>The difference of two searches\<close>

type_synonym result_ref = "string \<times> uuid option"

definition search_result_key :: "search_result \<Rightarrow> result_ref" where
  "search_result_key r =
     (if res_result_type r = ''table'' then (res_result_type r, res_table_id r)
      else (res_result_type r, res_chunk_id r))"

record replay_diff =
  df_overlap_count :: nat
  df_added_count :: nat
  df_removed_count :: nat
  df_top_result_changed :: bool
  df_max_rank_shift :: int

definition ranks_of :: "request_detail \<Rightarrow> (result_ref \<times> int) list" where
  "ranks_of x = dict_merge [] (map (\<lambda>v. (search_result_key (lv_result v), int (lv_rank v))) (rd_results x))"

definition top_key :: "request_detail \<Rightarrow> result_ref option" where
  "top_key x = (case rd_results x of [] \<Rightarrow> None | v # _ \<Rightarrow> Some (search_result_key (lv_result v)))"

definition keys_missing :: "('k \<times> 'v) list \<Rightarrow> ('k \<times> 'w) list \<Rightarrow> 'k list" where
  "keys_missing a b = filter (\<lambda>k. k \<notin> set (map fst b)) (map fst a)"

definition build_search_replay_diff :: "request_detail \<Rightarrow> request_detail \<Rightarrow> replay_diff" where
  "build_search_replay_diff original replay =
     (let original_ranks = ranks_of original; replay_ranks = ranks_of replay;
          overlap = filter (\<lambda>k. k \<in> set (map fst replay_ranks)) (map fst original_ranks) in
      \<lparr>df_overlap_count = length overlap,
       df_added_count = length (keys_missing replay_ranks original_ranks),
       df_removed_count = length (keys_missing original_ranks replay_ranks),
       df_top_result_changed = (top_key original \<noteq> top_key replay),
       df_max_rank_shift = list_max 0
         (map (\<lambda>k. abs (the (dict_get original_ranks k) - the (dict_get replay_ranks k))) overlap)\<rparr>)"

section \<open>Feedback\<close>

record feedback_payload =
  fp_feedback_type :: string
  fp_result_rank :: "nat option"
  fp_note :: "string option"

definition add_feedback :: "uuid \<Rightarrow> uuid option \<Rightarrow> feedback_payload \<Rightarrow> search_db \<Rightarrow> search_db \<times> search_feedback" where
  "add_feedback request row payload d =
     (let f = \<lparr>fb_id = lg_fresh d, fb_search_request_id = request, fb_search_request_result_id = row,
            fb_result_rank = fp_result_rank payload, fb_feedback_type = fp_feedback_type payload,
            fb_note = fp_note payload, fb_created_at = lg_clock d\<rparr> in
      (d\<lparr>lg_feedback := lg_feedback d @ [f], lg_fresh := Suc (lg_fresh d)\<rparr>, f))"

text \<open>\<open>scalar_one_or_none\<close> raises when the rank occurs twice.\<close>

definition result_at_rank :: "uuid \<Rightarrow> nat \<Rightarrow> search_db \<Rightarrow> exn + logged_result" where
  "result_at_rank request rank d =
     (case filter (\<lambda>r. lx_search_request_id r = request \<and> lx_rank r = rank) (lg_results d) of
        [] \<Rightarrow> Inl (Http_Error 404 ''search_result_rank_not_found'' (''Search result rank not found: '' @ show_nat rank))
      | [r] \<Rightarrow> Inr r
      | _ \<Rightarrow> Inl (Py_Error ''MultipleResultsFound'' False ''Multiple rows were found when one or none was required''))"

definition record_search_feedback ::
  "uuid \<Rightarrow> feedback_payload \<Rightarrow> search_db \<Rightarrow> search_db \<times> (exn + search_feedback)" where
  "record_search_feedback i payload d =
     (case load_request_row i d of
        Inl e \<Rightarrow> (d, Inl e)
      | Inr _ \<Rightarrow>
          if fp_feedback_type payload \<in> {''relevant'', ''irrelevant''} then
            (case fp_result_rank payload of
               None \<Rightarrow> (d, Inl (Http_Error 400 ''result_rank_required''
                 ''Result-specific feedback requires result_rank.''))
             | Some rank \<Rightarrow>
                 (case result_at_rank i rank d of
                    Inl e \<Rightarrow> (d, Inl e)
                  | Inr row \<Rightarrow> apsnd Inr (add_feedback i (Some (lx_id row)) payload d)))
          else
            (case fp_result_rank payload of
               Some _ \<Rightarrow> (d, Inl (Http_Error 400 ''unexpected_result_rank''
                 ''Request-level feedback must not include result_rank.''))
             | None \<Rightarrow> apsnd Inr (add_feedback i None payload d)))"

section \<open>Replaying a search\<close>

record search_replay =
  srp_original :: request_detail
  srp_replay :: request_detail
  srp_diff :: replay_diff

definition read_mode :: "string \<Rightarrow> search_mode option" where
  "read_mode s =
     (if s = ''keyword'' then Some Keyword_Mode else if s = ''semantic'' then Some Semantic_Mode
      else if s = ''hybrid'' then Some Hybrid_Mode else None)"

definition invalid_request :: "string \<Rightarrow> exn" where
  "invalid_request field = Py_Error ''ValidationError'' True (''Invalid search request field '' @ field)"

text \<open>The construction of a \<open>SearchRequest\<close>, with the bounds its fields declare.\<close>

definition validated_request ::
  "string \<Rightarrow> string \<Rightarrow> (exn + search_filters) option \<Rightarrow> int \<Rightarrow> string option \<Rightarrow> exn + search_request" where
  "validated_request query mode filters limit harness =
     (if query = [] then Inl (invalid_request ''query'')
      else
        (case read_mode mode of
           None \<Rightarrow> Inl (invalid_request ''mode'')
         | Some m \<Rightarrow>
             if \<not> (1 \<le> limit \<and> limit \<le> 50) then Inl (invalid_request ''limit'')
             else
               (case filters of
                  None \<Rightarrow> Inr \<lparr>sr_query = query, sr_mode = m, sr_filters = None, sr_limit = nat limit,
                    sr_harness_name = harness\<rparr>
                | Some (Inl e) \<Rightarrow> Inl e
                | Some (Inr f) \<Rightarrow> Inr \<lparr>sr_query = query, sr_mode = m, sr_filters = Some f,
                    sr_limit = nat limit, sr_harness_name = harness\<rparr>)))"

definition replayed_request :: "search_site \<Rightarrow> logged_request \<Rightarrow> exn + search_request" where
  "replayed_request st r =
     (let request = (\<lambda>filters. validated_request (lr_query_text r) (lr_mode r) filters (int (lr_limit r))
            (Some (lr_harness_name r))) in
      if lr_filters r = [] then request None
      else
        (case ste_validate st (lr_filters r) of
           Inl e \<Rightarrow> Inl e | Inr f \<Rightarrow> request (Some (Inr f))))"

definition not_persisted :: exn where
  "not_persisted = Http_Error 500 ''search_replay_not_persisted'' ''Replay search request was not persisted.''"

definition replay_search_request ::
  "search_site \<Rightarrow> uuid \<Rightarrow> search_db \<Rightarrow> search_db \<times> (exn + search_replay)" where
  "replay_search_request st i d =
     (case load_request_row i d of
        Inl e \<Rightarrow> (d, Inl e)
      | Inr row \<Rightarrow>
          (case replayed_request st row of
             Inl e \<Rightarrow> (d, Inl e)
           | Inr request \<Rightarrow>
               (case logged_search st ''replay'' (lr_run_id row) None (Some (lr_id row)) [] request d of
                  (d1, Inl e) \<Rightarrow> (d1, Inl e)
                | (d1, Inr ex) \<Rightarrow>
                    (case se_request_id ex of
                       None \<Rightarrow> (d1, Inl not_persisted)
                     | Some j \<Rightarrow>
                         (let original = build_request_detail row d1 in
                          (d1, map_sum id (\<lambda>replay. \<lparr>srp_original = original, srp_replay = replay,
                               srp_diff = build_search_replay_diff original replay\<rparr>)
                             (get_search_request_detail j d1)))))))"

section \<open>What a search hands to the log\<close>

lemma with_evidence_simps [simp]:
  "re_rank (with_evidence so rq c) = re_rank c" "re_score (with_evidence so rq c) = re_score c"
  by (simp_all add: with_evidence_def)

definition numbered :: "reranked_result list \<Rightarrow> bool" where
  "numbered cs \<longleftrightarrow> map re_rank cs = [1..<Suc (length cs)]"

lemma numbered_rerank [simp]: "numbered (rerank_results items rq score tabular intent cf)"
  unfolding rerank_results_def numbered_def by (rule rerank_split) blast

lemma numbered_evidence [simp]: "numbered (map (with_evidence so rq) cs) = numbered cs"
  by (simp add: numbered_def comp_def)

definition shown :: "search_log \<Rightarrow> search_result list" where
  "shown entry = map (\<lambda>c. to_search_result (re_item c) (re_score c)) (sl_reranked entry)"

lemma finished_log:
  assumes "finish_search sv cx cf strategy bf st = Inr ex"
  shows "se_results ex = shown (se_log ex)"
    and "numbered (sl_reranked (se_log ex))"
    and "sl_request (se_log ex) = sc_request cx" "sl_run (se_log ex) = sc_run cx"
    and "sl_harness_name (se_log ex) = sh_name (sc_harness cx)"
proof -
  obtain results written where p: "prepare_results cx cf strategy bf st = (results, written)" by fastforce
  have ex: "se_results ex = results" "se_log ex = written"
    using assms by (auto simp: finish_search_def p split: sum.splits)
  obtain rv h where rv: "resolve_candidate_items strategy (sr_mode (sc_request cx)) st = (rv, h)" by fastforce
  show "se_results ex = shown (se_log ex)" "sl_request (se_log ex) = sc_request cx" "sl_run (se_log ex) = sc_run cx"
    "sl_harness_name (se_log ex) = sh_name (sc_harness cx)"
    "numbered (sl_reranked (se_log ex))"
    unfolding ex using p by (auto simp: prepare_results_def rv Let_def shown_def comp_def)
qed

lemma executed_log:
  assumes "execute_search sv cx w so provider run reranker overrides request = Inr ex"
  shows "se_results ex = shown (se_log ex)"
    and "numbered (sl_reranked (se_log ex))"
    and "sl_request (se_log ex) = request" "sl_run (se_log ex) = run"
    and "\<exists>harness. get_search_harness cx (sr_harness_name request) overrides w = Inr harness
      \<and> sl_harness_name (se_log ex) = sh_name harness"
proof -
  obtain harness where h: "get_search_harness cx (sr_harness_name request) overrides w = Inr harness"
    using assms by (auto simp: execute_search_def split: sum.splits)
  obtain so1 bf where b: "sv_backfill sv so = Inr (so1, bf)"
    using assms by (auto simp: execute_search_def h Let_def split: sum.splits)
  obtain cf strategy st where f: "finish_search sv (context_of sv so1 provider run harness request) cf strategy bf st = Inr ex"
    using assms unfolding executes [OF h b] by (auto split: sum.splits)
  note r = finished_log [OF f]
  show "se_results ex = shown (se_log ex)" "sl_request (se_log ex) = request" "sl_run (se_log ex) = run"
    "numbered (sl_reranked (se_log ex))"
    "\<exists>harness. get_search_harness cx (sr_harness_name request) overrides w = Inr harness
      \<and> sl_harness_name (se_log ex) = sh_name harness"
    using r h by (simp_all add: context_of_def)
qed

section \<open>The log only grows\<close>

definition adds_from :: "('a \<Rightarrow> nat) \<Rightarrow> nat \<Rightarrow> 'a list \<Rightarrow> 'a list \<Rightarrow> bool" where
  "adds_from key n xs ys \<longleftrightarrow> (\<exists>zs. ys = xs @ zs \<and> (\<forall>z \<in> set zs. n \<le> key z))"

lemma adds_nothing [simp]: "adds_from key n xs xs"
  by (simp add: adds_from_def)

lemma adds_append: "adds_from key n xs (xs @ zs) = (\<forall>z \<in> set zs. n \<le> key z)"
  by (simp add: adds_from_def)

lemma adds_trans:
  assumes "adds_from key n xs ys" "adds_from key m ys zs" "n \<le> m"
  shows "adds_from key n xs zs"
proof -
  obtain us vs where "ys = xs @ us" "zs = ys @ vs" "\<forall>z \<in> set us. n \<le> key z" "\<forall>z \<in> set vs. m \<le> key z"
    using assms(1,2) unfolding adds_from_def by blast
  moreover from this(4) assms(3) have "\<forall>z \<in> set vs. n \<le> key z" by fastforce
  ultimately have "zs = xs @ us @ vs" "\<forall>z \<in> set (us @ vs). n \<le> key z" by auto
  then show ?thesis unfolding adds_from_def by blast
qed

lemma adds_filter:
  assumes "adds_from key n xs ys" "i < n"
  shows "filter (\<lambda>x. key x = i) ys = filter (\<lambda>x. key x = i) xs"
  using assms unfolding adds_from_def by (fastforce simp: filter_empty_conv)

definition log_grows :: "search_db \<Rightarrow> search_db \<Rightarrow> bool" where
  "log_grows d d' \<longleftrightarrow> lg_fresh d \<le> lg_fresh d'
    \<and> adds_from lr_id (lg_fresh d) (lg_requests d) (lg_requests d')
    \<and> adds_from lx_search_request_id (lg_fresh d) (lg_results d) (lg_results d')
    \<and> adds_from ly_search_request_result_id (lg_fresh d) (lg_spans d) (lg_spans d')
    \<and> adds_from fb_id (lg_fresh d) (lg_feedback d) (lg_feedback d')"

lemma log_grows_refl [simp]: "log_grows d d"
  by (simp add: log_grows_def)

lemma log_grows_trans: "log_grows d d' \<Longrightarrow> log_grows d' d'' \<Longrightarrow> log_grows d d''"
  unfolding log_grows_def by (blast intro: adds_trans order_trans)

lemma log_grows_fields [simp]:
  "log_grows d (d'\<lparr>lg_source := so\<rparr>) = log_grows d d'" "log_grows d (d'\<lparr>lg_clock := t\<rparr>) = log_grows d d'"
  "log_grows (d\<lparr>lg_source := so\<rparr>) d' = log_grows d d'"
  by (simp_all add: log_grows_def)

lemma result_spans_row [simp]: "s \<in> set (result_spans request row now c i) \<Longrightarrow> ly_search_request_result_id s = row"
  by (auto simp: result_spans_def)

lemma all_result_spans_rows:
  "s \<in> set (all_result_spans request now rows i) \<Longrightarrow> ly_search_request_result_id s \<in> fst ` set rows"
  by (induction rows arbitrary: i) (auto simp: Let_def, blast)

lemma persisted_grows: "log_grows d (persist_search_execution origin evaluation parent entry d)"
  by (auto simp: log_grows_def adds_append persist_search_execution_def Let_def request_row_def result_row_def
      in_set_enumerate_eq dest!: all_result_spans_rows)

lemma logged_search_grows: "log_grows d (fst (logged_search st origin run evaluation parent overrides request d))"
  using persisted_grows [of "d\<lparr>lg_source := so\<rparr>" for so]
  by (simp add: logged_search_def Let_def split: sum.split)

lemma feedback_grows: "log_grows d (fst (record_search_feedback i payload d))"
  by (simp add: record_search_feedback_def add_feedback_def log_grows_def adds_append Let_def split: sum.split option.split)

lemma replay_grows: "log_grows d (fst (replay_search_request st i d))"
proof -
  have "log_grows d d1" if "logged_search st origin run None parent [] request d = (d1, res)" for origin run parent request d1 res
    using logged_search_grows [of d st origin run None parent "[]" request] that by simp
  then show ?thesis
    by (auto simp: replay_search_request_def Let_def split: sum.split prod.split option.split)
qed

section \<open>Rows of the log belong together\<close>

definition request_ids :: "search_db \<Rightarrow> uuid set" where
  "request_ids d = lr_id ` set (lg_requests d)"

definition result_rows :: "search_db \<Rightarrow> uuid \<Rightarrow> logged_result list" where
  "result_rows d i = filter (\<lambda>x. lx_search_request_id x = i) (lg_results d)"

definition feedback_ok :: "search_db \<Rightarrow> search_feedback \<Rightarrow> bool" where
  "feedback_ok d f \<longleftrightarrow> fb_search_request_id f \<in> request_ids d
    \<and> (if fb_feedback_type f \<in> {''relevant'', ''irrelevant''}
       then \<exists>x \<in> set (result_rows d (fb_search_request_id f)).
         fb_search_request_result_id f = Some (lx_id x) \<and> fb_result_rank f = Some (lx_rank x)
       else fb_search_request_result_id f = None \<and> fb_result_rank f = None)"

definition search_log_ok :: "search_db \<Rightarrow> bool" where
  "search_log_ok d \<longleftrightarrow> distinct (map lr_id (lg_requests d)) \<and> distinct (map lx_id (lg_results d))
    \<and> (\<forall>r \<in> set (lg_requests d). lr_id r < lg_fresh d
        \<and> map lx_rank (result_rows d (lr_id r)) = [1..<Suc (lr_result_count r)])
    \<and> (\<forall>x \<in> set (lg_results d). lx_id x < lg_fresh d \<and> lx_search_request_id x \<in> request_ids d)
    \<and> (\<forall>s \<in> set (lg_spans d). ly_search_request_result_id s < lg_fresh d)
    \<and> (\<forall>f \<in> set (lg_feedback d). feedback_ok d f)"

lemma result_rows_grow:
  assumes "log_grows d d'" "i < lg_fresh d"
  shows "result_rows d' i = result_rows d i"
  using assms adds_filter unfolding log_grows_def result_rows_def by blast

lemma spans_of_result_grow:
  assumes "log_grows d d'" "row < lg_fresh d"
  shows "spans_of_result d' row = spans_of_result d row"
  using assms adds_filter unfolding log_grows_def spans_of_result_def by metis

lemma detail_results: "rd_results (build_request_detail r d)
    = map (\<lambda>row. to_logged_result row (spans_of_result d (lx_id row))) (sort_key lx_rank (result_rows d (lr_id r)))"
  by (simp add: build_request_detail_def result_rows_def)

lemma detail_kept:
  assumes "search_log_ok d" "log_grows d d'" "load_request_row i d = Inr r"
  shows "load_request_row i d' = Inr r" "rd_results (build_request_detail r d') = rd_results (build_request_detail r d)"
proof -
  obtain rs where "lg_requests d' = lg_requests d @ rs" using assms(2) unfolding log_grows_def adds_from_def by blast
  with assms(3) show "load_request_row i d' = Inr r"
    by (auto simp: load_request_row_def find_row_append split: option.splits)
  have r: "r \<in> set (lg_requests d)"
    using assms(3) by (auto simp: load_request_row_def split: option.splits dest: find_row_Some)
  then have less: "lr_id r < lg_fresh d" using assms(1) by (simp add: search_log_ok_def)
  have "lx_id x < lg_fresh d" if "x \<in> set (result_rows d (lr_id r))" for x
    using assms(1) that by (auto simp: search_log_ok_def result_rows_def)
  then show "rd_results (build_request_detail r d') = rd_results (build_request_detail r d)"
    using spans_of_result_grow [OF assms(2)] by (simp add: detail_results result_rows_grow [OF assms(2) less])
qed

section \<open>The invariant of the log\<close>

lemma feedback_ok_grow:
  assumes "search_log_ok d" "log_grows d d'" "feedback_ok d f"
  shows "feedback_ok d' f"
proof -
  have "request_ids d \<subseteq> request_ids d'"
    using assms(2) by (auto simp: log_grows_def adds_from_def request_ids_def)
  moreover have "fb_search_request_id f < lg_fresh d"
    using assms(1,3) by (auto simp: search_log_ok_def feedback_ok_def request_ids_def)
  ultimately show ?thesis
    using assms(3) result_rows_grow [OF assms(2)] unfolding feedback_ok_def by auto
qed

lemma map_enumerate_snd [simp]: "map (\<lambda>x. f (snd x)) (enumerate n cs) = map f cs"
  by (induction cs arbitrary: n) simp_all

lemma persisted_rows: "map lx_rank (map (result_row i now) (enumerate n cs)) = map re_rank cs"
  by (simp add: comp_def result_row_def case_prod_beta Let_def)

lemma result_row_simps [simp]:
  "lx_search_request_id (result_row q now ic) = q" "lx_id (result_row q now ic) = fst ic"
  "lx_rank (result_row q now ic) = re_rank (snd ic)"
  by (simp_all add: result_row_def case_prod_beta Let_def)

lemma request_row_simps [simp]:
  "lr_id (request_row origin evaluation parent entry now i) = i"
  "lr_result_count (request_row origin evaluation parent entry now i) = length (sl_reranked entry)"
  by (simp_all add: request_row_def)

lemma persisted_result_rows:
  assumes "search_log_ok d"
  shows "result_rows (persist_search_execution origin evaluation parent entry d) (lg_fresh d)
    = map (result_row (lg_fresh d) (lg_clock d)) (enumerate (Suc (lg_fresh d)) (sl_reranked entry))"
proof -
  have "filter (\<lambda>x. lx_search_request_id x = lg_fresh d) (lg_results d) = []"
    using assms by (fastforce simp: search_log_ok_def request_ids_def filter_empty_conv)
  then show ?thesis by (simp add: result_rows_def persist_search_execution_def Let_def filter_map comp_def)
qed

lemma persisted_log_ok:
  assumes "search_log_ok d" "numbered (sl_reranked entry)"
  shows "search_log_ok (persist_search_execution origin evaluation parent entry d)"
proof -
  let ?d = "persist_search_execution origin evaluation parent entry d" and ?i = "lg_fresh d"
  note grows = persisted_grows [of d origin evaluation parent entry]
  have fresh: "?i < lg_fresh ?d" "Suc ?i + length (sl_reranked entry) \<le> lg_fresh ?d"
    by (simp_all add: persist_search_execution_def Let_def)
  have rows: "lg_requests ?d = lg_requests d @ [request_row origin evaluation parent entry (lg_clock d) ?i]"
    "lg_results ?d = lg_results d @ map (result_row ?i (lg_clock d)) (enumerate (Suc ?i) (sl_reranked entry))"
    "lg_feedback ?d = lg_feedback d"
    by (simp_all add: persist_search_execution_def Let_def)
  have "lr_id ` set (lg_requests d) \<inter> {?i} = {}" "lx_id ` set (lg_results d) \<inter> {Suc ?i..} = {}"
    using assms(1) by (fastforce simp: search_log_ok_def)+
  then have "distinct (map lr_id (lg_requests ?d))" "distinct (map lx_id (lg_results ?d))"
    using assms(1) by (auto simp: rows search_log_ok_def comp_def)
  moreover have "lr_id r < lg_fresh ?d \<and> map lx_rank (result_rows ?d (lr_id r)) = [1..<Suc (lr_result_count r)]"
    if "r \<in> set (lg_requests ?d)" for r
  proof (cases "r \<in> set (lg_requests d)")
    case True
    then have "lr_id r < ?i" "map lx_rank (result_rows d (lr_id r)) = [1..<Suc (lr_result_count r)]"
      using assms(1) by (auto simp: search_log_ok_def)
    then show ?thesis using result_rows_grow [OF grows] fresh by simp
  next
    case False
    with that have "r = request_row origin evaluation parent entry (lg_clock d) ?i" by (simp add: rows)
    then show ?thesis
      using assms(2) fresh persisted_rows [of ?i "lg_clock d" "Suc ?i" "sl_reranked entry"]
      by (simp add: persisted_result_rows [OF assms(1)] numbered_def)
  qed
  moreover have "lx_id x < lg_fresh ?d \<and> lx_search_request_id x \<in> request_ids ?d"
    if "x \<in> set (lg_results ?d)" for x
    using assms(1) that fresh by (fastforce simp: rows search_log_ok_def request_ids_def in_set_enumerate_eq)
  moreover have "ly_search_request_result_id s < lg_fresh ?d" if "s \<in> set (lg_spans ?d)" for s
  proof (cases "s \<in> set (lg_spans d)")
    case True
    with assms(1) fresh show ?thesis by (fastforce simp: search_log_ok_def)
  next
    case False
    then have "s \<in> set (all_result_spans ?i (lg_clock d) (enumerate (Suc ?i) (sl_reranked entry)) (Suc ?i + length (sl_reranked entry)))"
      using that by (simp add: persist_search_execution_def Let_def)
    from all_result_spans_rows [OF this] fresh show ?thesis by (auto simp: in_set_enumerate_eq)
  qed
  moreover have "feedback_ok ?d f" if "f \<in> set (lg_feedback ?d)" for f
    using feedback_ok_grow [OF assms(1) grows] that assms(1) by (simp add: rows search_log_ok_def)
  ultimately show ?thesis unfolding search_log_ok_def by blast
qed

lemma log_ok_fields [simp]:
  "search_log_ok (d\<lparr>lg_source := so\<rparr>) = search_log_ok d" "search_log_ok (d\<lparr>lg_clock := t\<rparr>) = search_log_ok d"
  by (simp_all add: search_log_ok_def request_ids_def result_rows_def feedback_ok_def)

lemma logged_search_ok:
  assumes "search_log_ok d"
  shows "search_log_ok (fst (logged_search st origin run evaluation parent overrides request d))"
  using assms by (auto simp: logged_search_def Let_def intro!: persisted_log_ok dest: executed_log(2) split: sum.split)

lemma loaded_request: "load_request_row i d = Inr r \<Longrightarrow> r \<in> set (lg_requests d) \<and> lr_id r = i"
  by (auto simp: load_request_row_def split: option.splits dest: find_row_Some)

lemma result_at_rank_row:
  assumes "result_at_rank i rank d = Inr row"
  shows "row \<in> set (result_rows d i)" "lx_rank row = rank"
proof -
  have "filter (\<lambda>r. lx_search_request_id r = i \<and> lx_rank r = rank) (lg_results d) = [row]"
    using assms by (auto simp: result_at_rank_def split: list.splits)
  then have "row \<in> set (filter (\<lambda>r. lx_search_request_id r = i \<and> lx_rank r = rank) (lg_results d))" by simp
  then show "row \<in> set (result_rows d i)" "lx_rank row = rank" by (auto simp: result_rows_def)
qed

lemma add_feedback_ok:
  assumes "search_log_ok d" "i \<in> request_ids d"
    and "if fp_feedback_type payload \<in> {''relevant'', ''irrelevant''}
      then \<exists>x \<in> set (result_rows d i). row = Some (lx_id x) \<and> fp_result_rank payload = Some (lx_rank x)
      else row = None \<and> fp_result_rank payload = None"
  shows "search_log_ok (fst (add_feedback i row payload d))"
proof -
  let ?d = "fst (add_feedback i row payload d)"
  have grows: "log_grows d ?d" by (simp add: add_feedback_def Let_def log_grows_def adds_append)
  have same: "result_rows ?d = result_rows d" "request_ids ?d = request_ids d" "lg_requests ?d = lg_requests d"
    "lg_results ?d = lg_results d" "lg_spans ?d = lg_spans d" "lg_fresh ?d = Suc (lg_fresh d)"
    by (simp_all add: fun_eq_iff add_feedback_def Let_def result_rows_def request_ids_def)
  have "feedback_ok ?d f" if "f \<in> set (lg_feedback ?d)" for f
  proof (cases "f \<in> set (lg_feedback d)")
    case True
    then show ?thesis using feedback_ok_grow [OF assms(1) grows] assms(1) by (simp add: search_log_ok_def)
  next
    case False
    with that have "f = snd (add_feedback i row payload d)" by (simp add: add_feedback_def Let_def)
    then have "fb_search_request_id f = i" "fb_search_request_result_id f = row"
      "fb_result_rank f = fp_result_rank payload" "fb_feedback_type f = fp_feedback_type payload"
      by (simp_all add: add_feedback_def Let_def)
    then show ?thesis using assms(2,3) by (simp add: feedback_ok_def same)
  qed
  then show ?thesis using assms(1) by (auto simp: search_log_ok_def same less_Suc_eq)
qed

lemma feedback_step_ok:
  assumes "search_log_ok d"
  shows "search_log_ok (fst (record_search_feedback i payload d))"
proof (cases "load_request_row i d")
  case (Inr r)
  then have i: "i \<in> request_ids d" using loaded_request by (auto simp: request_ids_def)
  have row: "\<exists>x \<in> set (result_rows d i). lx_id row = lx_id x \<and> rank = lx_rank x"
    if "result_at_rank i rank d = Inr row" for row rank
    using result_at_rank_row [OF that] by blast
  show ?thesis
    using assms Inr row i by (auto simp: record_search_feedback_def split: option.split sum.split intro!: add_feedback_ok)
qed (use assms in \<open>simp add: record_search_feedback_def\<close>)

lemma replay_ok:
  assumes "search_log_ok d"
  shows "search_log_ok (fst (replay_search_request st i d))"
proof -
  have "search_log_ok d1" if "logged_search st origin run None parent [] request d = (d1, res)" for origin run parent request d1 res
    using logged_search_ok [OF assms, of st origin run None parent "[]" request] that by simp
  then show ?thesis
    using assms by (auto simp: replay_search_request_def Let_def split: sum.split prod.split option.split)
qed

section \<open>Histories\<close>

text \<open>
  What happens to the log: searches of the API, of a chat, of an evaluation or of a replay suite,
  feedback and replays; meanwhile time passes and the tables that are searched change.
\<close>

inductive log_step :: "search_site \<Rightarrow> search_db \<Rightarrow> search_db \<Rightarrow> bool" for st where
  search: "log_step st d (fst (logged_search st origin run evaluation parent overrides request d))"
| feedback: "log_step st d (fst (record_search_feedback i payload d))"
| replay: "log_step st d (fst (replay_search_request st i d))"
| pass: "0 \<le> t \<Longrightarrow> log_step st d (d\<lparr>lg_clock := lg_clock d + t\<rparr>)"
| index: "log_step st d (d\<lparr>lg_source := so\<rparr>)"

abbreviation log_history :: "search_site \<Rightarrow> search_db \<Rightarrow> search_db \<Rightarrow> bool" where
  "log_history st \<equiv> (log_step st)\<^sup>*\<^sup>*"

definition empty_log :: "search_source \<Rightarrow> time \<Rightarrow> search_db" where
  "empty_log so t = \<lparr>lg_requests = [], lg_results = [], lg_spans = [], lg_feedback = [], lg_source = so,
     lg_fresh = 1, lg_clock = t\<rparr>"

definition logged :: "search_site \<Rightarrow> search_db \<Rightarrow> bool" where
  "logged st d \<longleftrightarrow> (\<exists>so t. log_history st (empty_log so t) d)"

lemma log_step_grows: "log_step st d d' \<Longrightarrow> log_grows d d'"
  by (induction rule: log_step.induct) (simp_all add: logged_search_grows feedback_grows replay_grows)

lemma log_history_grows: "log_history st d d' \<Longrightarrow> log_grows d d'"
  by (induction rule: rtranclp_induct) (auto intro: log_grows_trans log_step_grows)

lemma log_step_ok: "log_step st d d' \<Longrightarrow> search_log_ok d \<Longrightarrow> search_log_ok d'"
  by (induction rule: log_step.induct) (simp_all add: logged_search_ok feedback_step_ok replay_ok)

lemma log_history_ok: "log_history st d d' \<Longrightarrow> search_log_ok d \<Longrightarrow> search_log_ok d'"
  by (induction rule: rtranclp_induct) (auto intro: log_step_ok)

lemma empty_log_ok: "search_log_ok (empty_log so t)"
  by (simp add: empty_log_def search_log_ok_def)

lemma logged_ok: "logged st d \<Longrightarrow> search_log_ok d"
  unfolding logged_def by (metis log_history_ok empty_log_ok)

section \<open>A logged search reads as it was shown\<close>

text \<open>The part of a shown result that the log keeps; the metadata of spans is extended on the way.\<close>

definition without_metadata :: "search_result \<Rightarrow> search_result" where
  "without_metadata r = r\<lparr>res_evidence_spans := map (\<lambda>s. s\<lparr>es_metadata := []\<rparr>) (res_evidence_spans r)\<rparr>"

definition as_logged :: "search_result \<Rightarrow> search_result" where
  "as_logged r = (let chunk = (res_result_type r = ''chunk''); table = (res_result_type r = ''table'') in
     r\<lparr>res_chunk_text := (if chunk then res_chunk_text r else None),
       res_heading := (if chunk then str_or (res_heading r) (res_chunk_text r) else None),
       res_table_title := (if table
         then str_or (str_or (res_table_title r) (res_table_heading r)) (res_table_preview r) else None),
       res_table_heading := None,
       res_table_preview := (if table then res_table_preview r else None),
       res_row_count := None, res_col_count := None,
       res_evidence_spans := map (\<lambda>s. s\<lparr>es_metadata := []\<rparr>)
         (take PERSISTED_RESULT_SPAN_LIMIT (res_evidence_spans r))\<rparr>)"

lemma search_result_key_logged [simp]: "search_result_key (as_logged r) = search_result_key r"
  "search_result_key (without_metadata r) = search_result_key r"
  by (simp_all add: search_result_key_def as_logged_def without_metadata_def Let_def)

lemma sorted_result_spans: "sort_key ly_span_rank (result_spans q row now c i) = result_spans q row now c i"
  by (rule sort_key_id_if_sorted) (simp add: result_spans_def sorted_iff_nth_mono nth_enumerate_eq)

lemma result_spans_spans: "map ly_span (result_spans q row now c i)
    = map (\<lambda>s. s\<lparr>es_metadata := span_metadata (re_item c) s\<rparr>) (take PERSISTED_RESULT_SPAN_LIMIT (rr_evidence_spans (re_item c)))"
  using map_enumerate_snd [of "\<lambda>s. s\<lparr>es_metadata := span_metadata (re_item c) s\<rparr>"]
  by (simp add: result_spans_def comp_def case_prod_beta)

lemma spans_of_row:
  assumes "distinct (map fst rows)" "(row, c) \<in> set rows"
  shows "\<exists>j. filter (\<lambda>s. ly_search_request_result_id s = row) (all_result_spans q now rows i) = result_spans q row now c j"
  using assms
proof (induction rows arbitrary: i)
  case (Cons rc rows)
  obtain r1 c1 where rc: "rc = (r1, c1)" by fastforce
  show ?case
  proof (cases "r1 = row")
    case True
    then have "c1 = c" using Cons.prems rc by (force simp: image_iff)
    moreover have "filter (\<lambda>s. ly_search_request_result_id s = row) (all_result_spans q now rows j) = []" for j
      using Cons.prems rc True by (auto simp: filter_empty_conv dest: all_result_spans_rows)
    moreover have "filter (\<lambda>s. ly_search_request_result_id s = row) (result_spans q row now c i) = result_spans q row now c i"
      by simp
    ultimately show ?thesis using rc True by (auto simp: Let_def)
  next
    case False
    then have "filter (\<lambda>s. ly_search_request_result_id s = row) (result_spans q r1 now c1 i) = []"
      by (auto simp: filter_empty_conv)
    then show ?thesis using Cons rc False by (simp add: Let_def)
  qed
qed simp

lemma persisted_spans:
  assumes "search_log_ok d" "(row, c) \<in> set (enumerate (Suc (lg_fresh d)) (sl_reranked entry))"
  shows "map ly_span (spans_of_result (persist_search_execution origin evaluation parent entry d) row)
    = map (\<lambda>s. s\<lparr>es_metadata := span_metadata (re_item c) s\<rparr>) (take PERSISTED_RESULT_SPAN_LIMIT (rr_evidence_spans (re_item c)))"
proof -
  have "lg_fresh d < row" using assms(2) by (auto simp: in_set_enumerate_eq)
  then have "filter (\<lambda>s. ly_search_request_result_id s = row) (lg_spans d) = []"
    using assms(1) by (fastforce simp: search_log_ok_def filter_empty_conv)
  moreover obtain j where "filter (\<lambda>s. ly_search_request_result_id s = row) (all_result_spans (lg_fresh d) (lg_clock d)
      (enumerate (Suc (lg_fresh d)) (sl_reranked entry)) (Suc (lg_fresh d) + length (sl_reranked entry)))
    = result_spans (lg_fresh d) row (lg_clock d) c j"
    using spans_of_row [OF _ assms(2)] by fastforce
  ultimately show ?thesis
    by (simp add: spans_of_result_def persist_search_execution_def Let_def sorted_result_spans result_spans_spans)
qed

lemma logged_result_shown:
  assumes "map ly_span spans
    = map (\<lambda>s. s\<lparr>es_metadata := span_metadata (re_item c) s\<rparr>) (take PERSISTED_RESULT_SPAN_LIMIT (rr_evidence_spans (re_item c)))"
  shows "without_metadata (lv_result (to_logged_result (result_row q now (i, c)) spans))
      = as_logged (to_search_result (re_item c) (re_score c))"
    and "lv_rank (to_logged_result (result_row q now (i, c)) spans) = re_rank c"
  using assms
  by (auto simp: to_logged_result_def result_row_def Let_def without_metadata_def as_logged_def to_search_result_def
      result_label_def result_preview_def comp_def)

lemma persisted_detail:
  fixes origin evaluation parent
  assumes "search_log_ok d" "numbered (sl_reranked entry)"
  defines "d' \<equiv> persist_search_execution origin evaluation parent entry d"
    and "r \<equiv> request_row origin evaluation parent entry (lg_clock d) (lg_fresh d)"
  shows "load_request_row (lg_fresh d) d' = Inr r"
    and "map (without_metadata \<circ> lv_result) (rd_results (build_request_detail r d')) = map as_logged (shown entry)"
    and "map lv_rank (rd_results (build_request_detail r d')) = [1..<Suc (length (shown entry))]"
proof -
  have "find_row lr_id (lg_fresh d) (lg_requests d) = None"
    using assms(1) by (fastforce simp: find_row_None search_log_ok_def)
  then show "load_request_row (lg_fresh d) d' = Inr r"
    by (simp add: load_request_row_def d'_def r_def persist_search_execution_def Let_def)
  let ?rows = "enumerate (Suc (lg_fresh d)) (sl_reranked entry)"
  have ranks: "map lx_rank (map (result_row (lg_fresh d) (lg_clock d)) ?rows) = [1..<Suc (length (sl_reranked entry))]"
    using assms(2) by (simp only: persisted_rows numbered_def)
  have "sort_key lx_rank (result_rows d' (lg_fresh d)) = map (result_row (lg_fresh d) (lg_clock d)) ?rows"
    unfolding d'_def persisted_result_rows [OF assms(1)] by (rule sort_key_id_if_sorted) (unfold ranks, simp del: upt_Suc)
  then have v: "rd_results (build_request_detail r d') = map (\<lambda>ic. to_logged_result
      (result_row (lg_fresh d) (lg_clock d) ic) (spans_of_result d' (fst ic))) ?rows"
    by (simp add: detail_results r_def comp_def)
  note spans = persisted_spans [OF assms(1), of _ _ entry origin evaluation parent, folded d'_def]
  have "map (without_metadata \<circ> lv_result) (rd_results (build_request_detail r d'))
      = map (\<lambda>ic. as_logged (to_search_result (re_item (snd ic)) (re_score (snd ic)))) ?rows"
    unfolding v map_map by (rule map_cong [OF refl]) (auto simp: logged_result_shown(1) [OF spans])
  then show "map (without_metadata \<circ> lv_result) (rd_results (build_request_detail r d')) = map as_logged (shown entry)"
    by (simp add: shown_def comp_def map_enumerate_snd [of "\<lambda>c. as_logged (to_search_result (re_item c) (re_score c))"])
  have "map lv_rank (rd_results (build_request_detail r d')) = map (\<lambda>ic. re_rank (snd ic)) ?rows"
    unfolding v map_map by (rule map_cong [OF refl]) (auto simp: logged_result_shown(2) [OF spans])
  then show "map lv_rank (rd_results (build_request_detail r d')) = [1..<Suc (length (shown entry))]"
    using assms(2) by (simp add: shown_def numbered_def del: upt_Suc)
qed

section \<open>The name of the harness only selects it\<close>

definition renamed :: "string option \<Rightarrow> search_context \<Rightarrow> search_context" where
  "renamed n cx = cx\<lparr>sc_request := (sc_request cx)\<lparr>sr_mode := sr_mode (sc_request cx), sr_harness_name := n\<rparr>\<rparr>"

lemma renamed_simps:
  "sc_source (renamed n cx) = sc_source cx" "sc_run (renamed n cx) = sc_run cx"
  "sc_harness (renamed n cx) = sc_harness cx" "sc_intent (renamed n cx) = sc_intent cx"
  "sc_provider (renamed n cx) = sc_provider cx" "sc_sha (renamed n cx) = sc_sha cx"
  "sc_request (renamed n cx) = (sc_request cx)\<lparr>sr_mode := sr_mode (sc_request cx), sr_harness_name := n\<rparr>"
  by (simp_all add: renamed_def)

lemma name_unread_vectors:
  "run_semantic_chunk_search so (rq\<lparr>sr_mode := m, sr_harness_name := n\<rparr>) = run_semantic_chunk_search so rq"
  "run_semantic_table_search so (rq\<lparr>sr_mode := m, sr_harness_name := n\<rparr>) = run_semantic_table_search so rq"
  "run_semantic_span_chunk_search so (rq\<lparr>sr_mode := m, sr_harness_name := n\<rparr>) = run_semantic_span_chunk_search so rq"
  "run_semantic_span_table_search so (rq\<lparr>sr_mode := m, sr_harness_name := n\<rparr>) = run_semantic_span_table_search so rq"
  "late_rows so (rq\<lparr>sr_mode := m, sr_harness_name := n\<rparr>) = late_rows so rq"
  by (unfold fun_eq_iff run_semantic_chunk_search_def run_semantic_table_search_def run_semantic_span_chunk_search_def
    run_semantic_span_table_search_def late_rows_def mode_unread_rows mode_select, (rule allI refl)+)

lemma name_unread_matches:
  "late_matches so (rq\<lparr>sr_mode := m, sr_harness_name := n\<rparr>) run limit qs states = late_matches so rq run limit qs states"
  by (induction so rq run limit qs states rule: late_matches.induct)
    (simp_all only: late_matches.simps name_unread_vectors split: sum.split, simp)

lemma name_unread_late:
  "run_late_interaction_search so (rq\<lparr>sr_mode := m, sr_harness_name := n\<rparr>) = run_late_interaction_search so rq"
  by (unfold fun_eq_iff run_late_interaction_search_def name_unread_matches, (rule allI refl)+)

lemma renamed_stage: "run_stage (renamed n cx) s st = run_stage cx s st"
proof (cases s)
  case Metadata_Supplement
  show ?thesis
    unfolding Metadata_Supplement run_stage.simps metadata_stage_def renamed_simps mode_unread mode_select Let_def
    by (rule refl)
next
  case Adjacent_Context
  show ?thesis
    unfolding Adjacent_Context run_stage.simps adjacent_stage_def renamed_simps mode_unread by (rule refl)
next
  case Semantic
  have "load_semantic_rows (renamed n cx) q l = load_semantic_rows cx q l" for q l
    unfolding load_semantic_rows_def Let_def renamed_simps name_unread_vectors by (rule refl)
  then have "load_semantic_candidates (renamed n cx) q l = load_semantic_candidates cx q l" for q l
    by (simp add: load_semantic_candidates_def fun_eq_iff)
  moreover have "late_stage (renamed n cx) e x = late_stage cx e x" for e x
    unfolding late_stage_def late_interaction_def Let_def renamed_simps name_unread_late mode_unread_rows mode_select by (rule refl)
  ultimately show ?thesis
    unfolding Semantic run_stage.simps semantic_stage_def by (simp only: renamed_simps mode_unread_rows mode_select)
next
  case Strict_Keyword
  have "load_keyword_candidates (renamed n cx) = load_keyword_candidates cx"
    by (unfold fun_eq_iff load_keyword_candidates_def renamed_simps Let_def mode_unread, (rule allI refl)+)
  then show ?thesis
    unfolding Strict_Keyword run_stage.simps strict_keyword_stage_def by (simp only: renamed_simps mode_unread_rows)
next
  case Relaxed_Keyword
  have "load_keyword_candidates (renamed n cx) = load_keyword_candidates cx"
    by (unfold fun_eq_iff load_keyword_candidates_def renamed_simps Let_def mode_unread, (rule allI refl)+)
  then show ?thesis
    unfolding Relaxed_Keyword run_stage.simps relaxed_keyword_stage_def by (simp only: renamed_simps mode_unread_rows)
qed

lemma renamed_stages: "run_stages (renamed n cx) ss st = run_stages cx ss st"
  by (induction ss arbitrary: st) (simp_all add: renamed_stage split: sum.split)

lemma renamed_prepared:
  "fst (prepare_results (renamed n cx) cf strategy bf st) = fst (prepare_results cx cf strategy bf' st)"
  unfolding prepare_results_def renamed_simps mode_unread mode_unread_rows mode_unread_parts mode_select Let_def
  by (simp add: case_prod_beta)

definition named_registry :: "(string \<times> search_harness) list \<Rightarrow> bool" where
  "named_registry registry \<longleftrightarrow> (\<forall>(name, h) \<in> set registry. sh_name h = name)"

lemma named_overrides:
  "add_overrides cx source specs registry = Inr registry' \<Longrightarrow> named_registry registry \<Longrightarrow> named_registry registry'"
proof (induction cx source specs registry rule: add_overrides.induct)
  case (2 cx source name spec rest registry)
  then obtain d h where d: "py_dict spec = Inr d"
    and h: "build_derived_search_harness cx name (with_source source d) registry = Inr h"
    and rest: "add_overrides cx source rest (dict_set name h registry) = Inr registry'"
    by (auto split: sum.splits)
  have "sh_name h = name"
    using h by (auto simp: build_derived_search_harness_def Let_def split: option.splits sum.splits if_splits)
  then have "named_registry (dict_set name h registry)"
    using 2(3) set_update_subset [of name h registry] by (auto simp: named_registry_def)
  with 2(1) [OF d h rest] show ?case .
qed simp

lemma harness_by_its_name:
  assumes "get_search_harness cx name overrides w = Inr h"
  shows "get_search_harness cx (Some (sh_name h)) overrides w = Inr h"
proof -
  have "\<exists>k. str_or name (Some DEFAULT_SEARCH_HARNESS_NAME) = Some k \<and> k \<noteq> []"
    by (cases name) (simp_all add: DEFAULT_SEARCH_HARNESS_NAME_def)
  then obtain k where k: "str_or name (Some DEFAULT_SEARCH_HARNESS_NAME) = Some k" "k \<noteq> []" by blast
  obtain registry where r: "build_search_harness_registry cx overrides w = Inr registry" "dict_get registry k = Some h"
    using assms by (auto simp: get_search_harness_def k split: sum.splits option.splits)
  have "named_registry HARNESS_REGISTRY"
    using built_in_typed by (auto simp: named_registry_def registry_typed_def harness_typed_def)
  then have "named_registry registry"
    using r(1) named_overrides by (auto simp: build_search_harness_registry_def split: sum.splits)
  then have "sh_name h = k" using map_of_SomeD [OF r(2)] by (auto simp: named_registry_def)
  then show ?thesis using r k(2) by (cases k) (simp_all add: get_search_harness_def)
qed

lemma backfill_log_services [simp]:
  "sv_backfill (log_services sv i) = sv_backfill sv" "sv_provider (log_services sv i) = sv_provider sv"
  "sv_sha (log_services sv i) = sv_sha sv"
  by (simp_all add: log_services_def)

text \<open>A search that found its results finds them again under the full name of its harness.\<close>

lemma search_repeated:
  assumes ex: "execute_search (log_services sv i) cx w so None run None overrides request = Inr ex"
    and h: "get_search_harness cx (sr_harness_name request) overrides w = Inr harness"
    and b: "sv_backfill sv so = Inr (so1, bf)" "sv_backfill sv so1 = Inr (so1, bf')"
    and persist: "\<forall>entry. \<exists>r. sv_persist sv entry = Inr r"
  obtains ex' where "execute_search (log_services sv j) cx w so1 None run None overrides
      (request\<lparr>sr_harness_name := Some (sh_name harness)\<rparr>) = Inr ex'"
    "se_results ex' = se_results ex" "se_request_id ex' = Some j"
proof -
  let ?rq = "request\<lparr>sr_harness_name := Some (sh_name harness)\<rparr>"
  let ?c = "context_of (log_services sv i) so1 None run harness request"
  let ?c' = "context_of (log_services sv j) so1 None run harness ?rq"
  have c': "?c' = renamed (Some (sh_name harness)) ?c"
    by (simp add: context_of_def vectors_of_def renamed_def)
  have plan: "plan_of harness ?rq = plan_of harness request" by (simp add: plan_of_def)
  have h': "get_search_harness cx (sr_harness_name ?rq) overrides w = Inr harness"
    using harness_by_its_name [OF h] by simp
  obtain st where st: "run_stages ?c (xp_stages (plan_of harness request)) initial_search = Inr st"
    "finish_search (log_services sv i) ?c (build_reranker harness) (xp_strategy (plan_of harness request)) bf st = Inr ex"
    using ex b(1) unfolding executes [OF h, of "log_services sv i" so so1 bf, simplified, OF b(1)] by (auto split: sum.splits)
  obtain results written where p: "prepare_results ?c' (build_reranker harness) (xp_strategy (plan_of harness request)) bf' st
      = (results, written)" by fastforce
  have same: "se_results ex = results"
    using st(2) p renamed_prepared [of "Some (sh_name harness)" ?c "build_reranker harness"
        "xp_strategy (plan_of harness request)" bf' st bf] unfolding c'
    by (auto simp: finish_search_def split: sum.splits prod.splits)
  obtain k operators where "sv_persist sv written = Inr (k, operators)" using persist by fastforce
  then have f: "\<exists>ex'. finish_search (log_services sv j) ?c' (build_reranker harness)
      (xp_strategy (plan_of harness request)) bf' st = Inr ex' \<and> se_results ex' = results \<and> se_request_id ex' = Some j"
    unfolding finish_search_def p prod.case by (simp add: log_services_def)
  have "run_stages ?c' (xp_stages (plan_of harness ?rq)) initial_search = Inr st"
    unfolding c' plan renamed_stages by (rule st(1))
  with f show thesis
    using that unfolding same executes [OF h', of "log_services sv j" so1 so1 bf', simplified, OF b(2)] plan by auto
qed

section \<open>Logged searches and replays\<close>

lemma persisted_id: "map_sum id (\<lambda>(_, operators). (Some i, operators)) res = Inr (k, ops) \<Longrightarrow> k = Some i"
  by (cases res) auto

lemma logged_search_cases:
  assumes "logged_search st origin run evaluation parent overrides request d = (d1, Inr ex)"
  obtains harness where
    "get_search_harness (ste_codecs st) (sr_harness_name request) overrides (ste_world st) = Inr harness"
    "execute_search (log_services (ste_services st) (lg_fresh d)) (ste_codecs st) (ste_world st) (lg_source d) None run
      None overrides request = Inr ex"
    "d1 = persist_search_execution origin evaluation parent (se_log ex)
      (d\<lparr>lg_source := backfilled_source (ste_services st) (lg_source d)\<rparr>)"
    "sl_harness_name (se_log ex) = sh_name harness" "se_request_id ex = Some (lg_fresh d)"
proof -
  obtain harness where h: "get_search_harness (ste_codecs st) (sr_harness_name request) overrides (ste_world st) = Inr harness"
    using assms by (auto simp: logged_search_def Let_def split: sum.splits)
  have e: "execute_search (log_services (ste_services st) (lg_fresh d)) (ste_codecs st) (ste_world st) (lg_source d) None run
      None overrides request = Inr ex"
    using assms by (auto simp: logged_search_def Let_def split: sum.splits)
  have "se_request_id ex = Some (lg_fresh d)"
    using e by (auto simp: execute_search_def Let_def finish_search_def log_services_def split: sum.splits prod.splits
        dest: persisted_id)
  moreover have "d1 = persist_search_execution origin evaluation parent (se_log ex)
      (d\<lparr>lg_source := backfilled_source (ste_services st) (lg_source d)\<rparr>)"
    using assms by (auto simp: logged_search_def Let_def backfilled_source_def split: sum.splits)
  ultimately show thesis using that [OF h e] executed_log(5) [OF e] h by auto
qed

definition detail_of :: "logged_request \<Rightarrow> search_request \<Rightarrow> search_execution \<Rightarrow> request_detail \<Rightarrow> bool" where
  "detail_of r request ex detail \<longleftrightarrow> rd_request detail = r \<and> lr_query_text r = sr_query request
    \<and> lr_mode r = search_mode_value (sr_mode request) \<and> lr_filters r = filters_payload request
    \<and> lr_limit r = sr_limit request \<and> lr_result_count r = length (se_results ex)
    \<and> map (without_metadata \<circ> lv_result) (rd_results detail) = map as_logged (se_results ex)
    \<and> map lv_rank (rd_results detail) = [1..<Suc (length (se_results ex))]"

lemma logged_detail:
  assumes "search_log_ok d" "logged_search st origin run evaluation parent overrides request d = (d1, Inr ex)"
    and "log_grows d1 d2"
  defines "r \<equiv> request_row origin evaluation parent (se_log ex) (lg_clock d) (lg_fresh d)"
  shows "load_request_row (lg_fresh d) d2 = Inr r" "detail_of r request ex (build_request_detail r d2)"
proof -
  obtain harness where e: "execute_search (log_services (ste_services st) (lg_fresh d)) (ste_codecs st) (ste_world st)
      (lg_source d) None run None overrides request = Inr ex"
    and d1: "d1 = persist_search_execution origin evaluation parent (se_log ex)
      (d\<lparr>lg_source := backfilled_source (ste_services st) (lg_source d)\<rparr>)"
    using logged_search_cases [OF assms(2)] by metis
  note entry = executed_log [OF e]
  let ?d = "d\<lparr>lg_source := backfilled_source (ste_services st) (lg_source d)\<rparr>"
  note kept = persisted_detail [of ?d, simplified, OF assms(1) entry(2), where origin = origin
      and evaluation = evaluation and parent = parent, folded d1 r_def]
  have "search_log_ok d1" using persisted_log_ok [of ?d] assms(1) entry(2) by (simp add: d1)
  from detail_kept [OF this assms(3) kept(1)]
  show "load_request_row (lg_fresh d) d2 = Inr r" "detail_of r request ex (build_request_detail r d2)"
    using kept entry(1,3) by (simp_all add: detail_of_def r_def request_row_def shown_def build_request_detail_def)
qed

lemma list_max_zero: "\<forall>x \<in> set xs. x = (0 :: int) \<Longrightarrow> list_max 0 xs = 0"
proof (cases xs)
  case (Cons a ys)
  assume zero: "\<forall>x \<in> set xs. x = (0 :: int)"
  have "\<forall>x \<in> set ys. x = 0 \<Longrightarrow> fold max ys (0 :: int) = 0" by (induction ys) auto
  with zero Cons show ?thesis by simp
qed simp

lemma keys_dict_merge: "fst ` set (dict_merge a b) = fst ` set a \<union> fst ` set b"
proof (induction b arbitrary: a)
  case (Cons kv b)
  have "dict_merge a (kv # b) = dict_merge (dict_set (fst kv) (snd kv) a) b"
    by (simp add: dict_merge_def case_prod_beta)
  then show ?case by (simp only: Cons dom_update list.set image_insert) auto
qed (simp add: dict_merge_def)

lemma ranks_of_keys:
  "length (ranks_of x) = card (set (map (search_result_key \<circ> lv_result) (rd_results x)))"
proof -
  have "distinct_keys (ranks_of x)" unfolding ranks_of_def by (rule distinct_keys_merge) simp
  then have "length (ranks_of x) = card (fst ` set (ranks_of x))"
    by (metis distinct_card length_map set_map)
  also have "fst ` set (ranks_of x) = (search_result_key \<circ> lv_result) ` set (rd_results x)"
    by (simp add: ranks_of_def keys_dict_merge image_image comp_def)
  finally show ?thesis by simp
qed

definition no_difference :: "nat \<Rightarrow> replay_diff" where
  "no_difference n = \<lparr>df_overlap_count = n, df_added_count = 0, df_removed_count = 0,
     df_top_result_changed = False, df_max_rank_shift = 0\<rparr>"

lemma diff_of_equal:
  assumes "map (search_result_key \<circ> lv_result) (rd_results a) = map (search_result_key \<circ> lv_result) (rd_results b)"
    and "map lv_rank (rd_results a) = map lv_rank (rd_results b)"
  shows "build_search_replay_diff a b = no_difference (card (set (map (search_result_key \<circ> lv_result) (rd_results a))))"
proof -
  have zips: "map (\<lambda>v. (search_result_key (lv_result v), int (lv_rank v))) (rd_results x)
      = zip (map (search_result_key \<circ> lv_result) (rd_results x)) (map int (map lv_rank (rd_results x)))" for x
    by (simp add: zip_map_map comp_def zip_same_conv_map)
  have "ranks_of a = ranks_of b" unfolding ranks_of_def zips assms ..
  moreover have "top_key a = top_key b"
    using assms(1) by (auto simp: top_key_def split: list.splits)
  moreover have "filter (\<lambda>k. k \<in> set ks) ks = ks" for ks :: "result_ref list" by simp
  ultimately show ?thesis
    using ranks_of_keys [of a]
    by (simp add: build_search_replay_diff_def no_difference_def keys_missing_def list_max_zero Let_def)
qed

lemma read_mode_value [simp]: "read_mode (search_mode_value m) = Some m"
  by (cases m) (simp_all add: read_mode_def)

lemma shown_keys:
  assumes "detail_of q rq y x"
  shows "map (search_result_key \<circ> lv_result) (rd_results x) = map search_result_key (se_results y)"
proof -
  have "map search_result_key (map (without_metadata \<circ> lv_result) (rd_results x))
      = map search_result_key (map as_logged (se_results y))" using assms by (simp add: detail_of_def)
  then show ?thesis by (simp add: comp_def)
qed

lemma replay_found:
  assumes "load_request_row i d = Inr r" "lr_id r = i" "replayed_request st r = Inr rq"
    and "logged_search st ''replay'' (lr_run_id r) None (Some i) [] rq d = (d3, Inr ex)"
    and "se_request_id ex = Some j" "load_request_row j d3 = Inr r'"
  shows "replay_search_request st i d = (d3, Inr \<lparr>srp_original = build_request_detail r d3,
    srp_replay = build_request_detail r' d3,
    srp_diff = build_search_replay_diff (build_request_detail r d3) (build_request_detail r' d3)\<rparr>)"
  using assms by (simp add: replay_search_request_def get_search_request_detail_def Let_def)

text \<open>A request inside the bounds of its fields, whose filters validation reads back from the log.\<close>

definition request_valid :: "search_site \<Rightarrow> search_request \<Rightarrow> bool" where
  "request_valid st request \<longleftrightarrow> sr_query request \<noteq> [] \<and> 1 \<le> sr_limit request \<and> sr_limit request \<le> 50
     \<and> (case sr_filters request of None \<Rightarrow> True
        | Some f \<Rightarrow> dump_filters f \<noteq> [] \<and> ste_validate st (dump_filters f) = Inr f)"

lemma replayed_request_valid:
  assumes "request_valid st request" "lr_query_text r = sr_query request"
    "lr_mode r = search_mode_value (sr_mode request)" "lr_filters r = filters_payload request"
    "lr_limit r = sr_limit request"
  shows "replayed_request st r = Inr (request\<lparr>sr_harness_name := Some (lr_harness_name r)\<rparr>)"
  using assms by (cases request)
    (auto simp: replayed_request_def request_valid_def validated_request_def filters_payload_def split: option.splits)

text \<open>A search of the small index of the search model, logged first.\<close>

definition example_site :: search_site where
  "example_site = \<lparr>ste_services = example_services, ste_codecs = example_codecs, ste_world = bare_world,
     ste_validate = (\<lambda>d. Inl (value_error ''filters''))\<rparr>"

definition example_logged :: "search_db \<times> (exn + search_execution)" where
  "example_logged = logged_search example_site ''api'' None None None [] (example_request Keyword_Mode)
     (empty_log example_source 0)"

lemma example_logged_results:
  obtains ex where "logged_search example_site ''api'' None None None [] (example_request Keyword_Mode)
      (empty_log example_source 0) = (fst example_logged, Inr ex)"
    "map res_chunk_id (se_results ex) = [Some 7]" "map search_result_key (se_results ex) = [(''chunk'', Some 7)]"
proof -
  have "map_sum (\<lambda>e. ()) (\<lambda>ex. (map res_chunk_id (se_results ex), map search_result_key (se_results ex)))
    (snd example_logged) = Inr ([Some 7], [(''chunk'', Some 7)])" by code_simp
  then show ?thesis using that by (cases "snd example_logged") (auto simp: example_logged_def prod_eq_iff)
qed

lemma empty_logged: "logged st (empty_log so t)"
  unfolding logged_def by blast





end
