(* ===== verification/Replay_Suite.thy ===== *)
theory Replay_Suite
  imports Search_Log
begin

text \<open>
  Replay suites: \<open>app/services/search_replay_runner.py\<close>, \<open>search_replay_rank_metrics.py\<close>, the cases that
  \<open>search_replay_cases.py\<close> takes from the log of searches and its feedback, and the parts of
  \<open>search_replay_common.py\<close> they use. A suite runs its cases against a harness through the search model
  and its log, judges each, and records the counts and rank metrics of the whole run.

  The cases that come from evaluations and from claim feedback are arguments. Floats are exact rationals.
  The columns of a run that \<open>summary_json\<close> repeats are stored once.
\<close>

section \<open>Cases\<close>

record replay_case =
  rpc_query_text :: string
  rpc_mode :: string
  rpc_filters :: dict
  rpc_limit :: int
  rpc_expected_result_type :: "string option"
  rpc_expected_top_n :: "int option"
  rpc_source_search_request_id :: "uuid option"
  rpc_feedback_id :: "uuid option"
  rpc_evaluation_query_id :: "uuid option"
  rpc_feedback_type :: "string option"
  rpc_target_result_type :: "string option"
  rpc_target_result_id :: "uuid option"
  rpc_expected_source_filename :: "string option"
  rpc_expected_top_result_source_filename :: "string option"
  rpc_minimum_top_n_hits :: "int option"
  rpc_maximum_foreign_results :: "int option"
  rpc_source_reason :: "string option"
  rpc_source_metadata :: "dict option"

definition TECHNICAL_REPORT_CLAIM_FEEDBACK :: string where
  "TECHNICAL_REPORT_CLAIM_FEEDBACK = ''technical_report_claim_feedback''"

definition case_metadata :: "replay_case \<Rightarrow> dict" where
  "case_metadata c = (case rpc_source_metadata c of None \<Rightarrow> [] | Some d \<Rightarrow> d)"

section \<open>Ranks\<close>

definition normalized_source_filename :: "string option \<Rightarrow> string option" where
  "normalized_source_filename v =
     (case v of None \<Rightarrow> None | Some s \<Rightarrow> if s = [] then None else Some (str_lower (path_name s)))"

definition source_filename_matches :: "string option \<Rightarrow> string option \<Rightarrow> bool" where
  "source_filename_matches actual expected =
     (case normalized_source_filename expected of
        None \<Rightarrow> True
      | Some e \<Rightarrow> normalized_source_filename actual = Some e)"

definition execution_result_source_id :: "search_result \<Rightarrow> uuid option" where
  "execution_result_source_id r =
     (if res_result_type r = ''table'' then res_table_id r
      else if res_result_type r = ''chunk'' then res_chunk_id r
      else or_else (res_table_id r) (res_chunk_id r))"

definition string_result_key :: "string option \<Rightarrow> uuid option \<Rightarrow> string option \<times> string option" where
  "string_result_key t i = (t, map_option show_nat i)"

text \<open>The loops over \<open>enumerate(results, start=1)\<close> that return the first rank with a property.\<close>

fun rank_from :: "('a \<Rightarrow> bool) \<Rightarrow> int \<Rightarrow> 'a list \<Rightarrow> int option" where
  "rank_from P n [] = None"
| "rank_from P n (x # xs) = (if P x then Some n else rank_from P (n + 1) xs)"

definition target_rank :: "search_result list \<Rightarrow> string option \<Rightarrow> uuid option \<Rightarrow> int option" where
  "target_rank results t i =
     (if t = None \<or> i = None then None
      else rank_from (\<lambda>r. string_result_key (Some (res_result_type r)) (execution_result_source_id r)
             = string_result_key t i) 1 results)"

definition expected_hit :: "string \<Rightarrow> string option \<Rightarrow> search_result \<Rightarrow> bool" where
  "expected_hit t source r =
     (res_result_type r = t \<and> source_filename_matches (Some (res_source_filename r)) source)"

definition matching_rank :: "search_result list \<Rightarrow> string option \<Rightarrow> string option \<Rightarrow> int option" where
  "matching_rank results expected_type source =
     (case expected_type of None \<Rightarrow> None | Some t \<Rightarrow> rank_from (expected_hit t source) 1 results)"

text \<open>\<open>xs[:n]\<close>, for a negative \<open>n\<close> too.\<close>

definition slice_to :: "int \<Rightarrow> 'a list \<Rightarrow> 'a list" where
  "slice_to n xs = (if 0 \<le> n then take (nat n) xs else take (length xs - nat (- n)) xs)"

definition top_n_source_hit_count ::
  "search_result list \<Rightarrow> string option \<Rightarrow> int option \<Rightarrow> int option" where
  "top_n_source_hit_count results source top_n =
     (if source = None then None
      else map_option (\<lambda>n. int (length (filter
        (\<lambda>r. source_filename_matches (Some (res_source_filename r)) source) (slice_to n results)))) top_n)"

definition foreign_results_before_first_expected_hit ::
  "search_result list \<Rightarrow> string option \<Rightarrow> string option \<Rightarrow> int option" where
  "foreign_results_before_first_expected_hit results expected_type source =
     (if source = None then None
      else map_option (\<lambda>rank. int (length (filter
        (\<lambda>r. \<not> source_filename_matches (Some (res_source_filename r)) source) (slice_to (rank - 1) results))))
        (matching_rank results expected_type source))"

section \<open>Judging a case\<close>

definition int_or_zero :: "int option \<Rightarrow> int" where
  "int_or_zero n = (case n of None \<Rightarrow> 0 | Some k \<Rightarrow> k)"

definition claim_feedback_traceability_issues :: "replay_case \<Rightarrow> dict \<Rightarrow> string list" where
  "claim_feedback_traceability_issues c metadata =
     (let label = dict_get metadata ''learning_label'' in
      (if \<not> dict_truthy metadata ''claim_feedback_id'' then [''claim_feedback_id_missing''] else [])
      @ (if \<not> dict_truthy metadata ''feedback_payload_sha256'' then [''feedback_payload_hash_missing''] else [])
      @ (if \<not> dict_truthy metadata ''source_payload_sha256'' then [''source_payload_hash_missing''] else [])
      @ (if rpc_source_search_request_id c = None \<and> \<not> dict_truthy metadata ''source_search_request_ids''
         then [''source_search_request_missing''] else [])
      @ (if (label = Some (JStr ''positive'') \<or> label = Some (JStr ''negative''))
            \<and> (rpc_target_result_type c = None \<or> rpc_target_result_id c = None)
         then [''target_result_missing''] else []))"

text \<open>A query of an evaluation.\<close>

definition evaluation_case_passed :: "replay_case \<Rightarrow> search_result list \<Rightarrow> bool" where
  "evaluation_case_passed c results =
     (let rank = matching_rank results (rpc_expected_result_type c) (rpc_expected_source_filename c);
          top = (case results of [] \<Rightarrow> None | r # _ \<Rightarrow> Some (res_source_filename r));
          hits = top_n_source_hit_count results (rpc_expected_source_filename c) (rpc_expected_top_n c);
          foreign = foreign_results_before_first_expected_hit results (rpc_expected_result_type c)
            (rpc_expected_source_filename c) in
      (case rank of None \<Rightarrow> False | Some k \<Rightarrow> k \<le> int_or_zero (rpc_expected_top_n c))
      \<and> (rpc_expected_top_result_source_filename c \<noteq> None \<longrightarrow>
           source_filename_matches top (rpc_expected_top_result_source_filename c))
      \<and> (case rpc_minimum_top_n_hits c of None \<Rightarrow> True | Some m \<Rightarrow> int_or_zero hits \<ge> m)
      \<and> (case rpc_maximum_foreign_results c of None \<Rightarrow> True
         | Some m \<Rightarrow> (case foreign of None \<Rightarrow> False | Some f \<Rightarrow> f \<le> m)))"

definition top_source :: "search_result list \<Rightarrow> string option" where
  "top_source results = (case results of [] \<Rightarrow> None | r # _ \<Rightarrow> Some (res_source_filename r))"

definition evaluation_case_details :: "replay_case \<Rightarrow> search_result list \<Rightarrow> dict" where
  "evaluation_case_details c results = [
     (''matching_rank'', json_opt_int
        (matching_rank results (rpc_expected_result_type c) (rpc_expected_source_filename c))),
     (''expected_source_filename'', json_opt_str (rpc_expected_source_filename c)),
     (''expected_top_result_source_filename'', json_opt_str (rpc_expected_top_result_source_filename c)),
     (''minimum_top_n_hits_from_expected_document'', json_opt_int (rpc_minimum_top_n_hits c)),
     (''maximum_foreign_results_before_first_expected_hit'', json_opt_int (rpc_maximum_foreign_results c)),
     (''top_result_source_filename'', json_opt_str (top_source results)),
     (''expected_source_hit_count'', json_opt_int
        (top_n_source_hit_count results (rpc_expected_source_filename c) (rpc_expected_top_n c))),
     (''foreign_results_before_first_expected_hit'', json_opt_int
        (foreign_results_before_first_expected_hit results (rpc_expected_result_type c)
           (rpc_expected_source_filename c)))]"

text \<open>Feedback on a claim of a technical report: whether it passed, and the verdict.\<close>

definition claim_feedback_verdict :: "replay_case \<Rightarrow> search_result list \<Rightarrow> bool \<times> string" where
  "claim_feedback_verdict c results =
     (let metadata = case_metadata c;
          rank = target_rank results (rpc_target_result_type c) (rpc_target_result_id c);
          top_n = int_or_zero (rpc_expected_top_n c);
          has_target = (rpc_target_result_type c \<noteq> None \<and> rpc_target_result_id c \<noteq> None);
          label = dict_get metadata ''learning_label'';
          (passed, verdict) =
            (if label = Some (JStr ''positive'') then
               (let ok = (case rank of None \<Rightarrow> False | Some k \<Rightarrow> k \<le> top_n) in
                (ok, if ok then ''positive_target_within_expected_top_n'' else ''positive_target_missed''))
             else if label = Some (JStr ''negative'') then
               (let ok = (has_target \<and> (case rank of None \<Rightarrow> True | Some k \<Rightarrow> k > top_n)) in
                (ok, if ok then ''negative_target_excluded''
                     else if has_target then ''negative_target_still_prominent''
                     else ''negative_target_missing_from_feedback''))
             else if label = Some (JStr ''missing'') then
               (results \<noteq> [], if results \<noteq> [] then ''missing_evidence_query_recovered''
                              else ''missing_evidence_still_empty'')
             else (False, ''unsupported_claim_feedback_label'')) in
      if claim_feedback_traceability_issues c metadata \<noteq> []
      then (False, ''claim_feedback_traceability_incomplete'') else (passed, verdict))"

definition claim_feedback_details :: "replay_case \<Rightarrow> search_execution \<Rightarrow> dict" where
  "claim_feedback_details c ex =
     (let results = se_results ex;
          rank = target_rank results (rpc_target_result_type c) (rpc_target_result_id c);
          issues = claim_feedback_traceability_issues c (case_metadata c) in
      [(''target_key'', JArr [json_opt_str (rpc_target_result_type c),
          json_opt_str (map_option show_nat (rpc_target_result_id c))]),
       (''target_rank'', json_opt_int rank),
       (''matching_rank'', if dict_get (case_metadata c) ''learning_label'' = Some (JStr ''positive'')
          then json_opt_int rank else JNull),
       (''expected_top_n'', json_opt_int (rpc_expected_top_n c)),
       (''claim_feedback_replay_verdict'', JStr (snd (claim_feedback_verdict c results))),
       (''claim_feedback_traceability_complete'', JBool (issues = [])),
       (''claim_feedback_traceability_issues'', JArr (map JStr issues)),
       (''result_count'', JInt (int (length results))),
       (''table_hit_count'', JInt (int (se_table_hit_count ex)))])"

definition none_str :: "string option \<Rightarrow> string" where
  "none_str s = (case s of None \<Rightarrow> ''None'' | Some t \<Rightarrow> t)"

text \<open>Feedback of a user on a logged search; \<open>None\<close> when the type is not one of these.\<close>

definition feedback_case_passed :: "replay_case \<Rightarrow> search_execution \<Rightarrow> (bool \<times> dict) option" where
  "feedback_case_passed c ex =
     (let results = se_results ex;
          keys = map (\<lambda>r. (Some (res_result_type r),
            if res_result_type r = ''table'' then res_table_id r else res_chunk_id r)) results;
          target = (rpc_target_result_type c, rpc_target_result_id c);
          details = [(''target_key'', JArr [JStr (none_str (rpc_target_result_type c)),
            JStr (none_str (map_option show_nat (rpc_target_result_id c)))])];
          chunk_hits = length (filter (\<lambda>r. res_result_type r = ''chunk'') results) in
      if rpc_feedback_type c = Some ''relevant'' then Some (target \<in> set keys, details)
      else if rpc_feedback_type c = Some ''irrelevant'' then Some (target \<notin> set keys, details)
      else if rpc_feedback_type c = Some ''missing_table''
      then Some (se_table_hit_count ex > 0, [(''table_hit_count'', JInt (int (se_table_hit_count ex)))])
      else if rpc_feedback_type c = Some ''missing_chunk''
      then Some (chunk_hits > 0, [(''chunk_hit_count'', JInt (int chunk_hits))])
      else if rpc_feedback_type c = Some ''no_answer''
      then Some (results = [], [(''result_count'', JInt (int (length results)))])
      else None)"

definition gap_case_passed :: "replay_case \<Rightarrow> search_execution \<Rightarrow> bool \<times> dict" where
  "gap_case_passed c ex =
     (if rpc_source_reason c = Some ''zero_result_gap''
      then (se_results ex \<noteq> [], [(''result_count'', JInt (int (length (se_results ex))))])
      else if rpc_source_reason c = Some ''missing_table_gap''
      then (se_table_hit_count ex > 0, [(''table_hit_count'', JInt (int (se_table_hit_count ex)))])
      else (False, []))"

definition evaluate_case_passed :: "replay_case \<Rightarrow> search_execution \<Rightarrow> bool \<times> dict" where
  "evaluate_case_passed c ex =
     (if rpc_evaluation_query_id c \<noteq> None
      then (evaluation_case_passed c (se_results ex), evaluation_case_details c (se_results ex))
      else if rpc_source_reason c = Some TECHNICAL_REPORT_CLAIM_FEEDBACK
      then (fst (claim_feedback_verdict c (se_results ex)), claim_feedback_details c ex)
      else
        (case (if rpc_feedback_type c = None then None else feedback_case_passed c ex) of
           Some res \<Rightarrow> res
         | None \<Rightarrow> gap_case_passed c ex))"

definition is_rank_metric_case :: "replay_case \<Rightarrow> bool" where
  "is_rank_metric_case c =
     (rpc_evaluation_query_id c \<noteq> None
      \<or> rpc_source_reason c = Some TECHNICAL_REPORT_CLAIM_FEEDBACK
        \<and> dict_get (case_metadata c) ''learning_label'' = Some (JStr ''positive''))"

section \<open>Rows\<close>

record rank_summary =
  rk_query_count :: nat
  rk_mrr :: rat
  rk_foreign_top_result_count :: nat
  rk_source_constrained_query_count :: nat

record replay_run =
  rn_id :: uuid
  rn_source_type :: string
  rn_status :: string
  rn_harness_name :: string
  rn_reranker_name :: string
  rn_reranker_version :: string
  rn_retrieval_profile_name :: string
  rn_harness_config :: json
  rn_query_count :: nat
  rn_passed_count :: nat
  rn_failed_count :: nat
  rn_zero_result_count :: nat
  rn_table_hit_count :: nat
  rn_top_result_changes :: nat
  rn_max_rank_shift :: int
  rn_rank_metrics :: "rank_summary option"
  rn_error_message :: "string option"
  rn_created_at :: time
  rn_completed_at :: "time option"

record replay_query =
  pq_id :: uuid
  pq_replay_run_id :: uuid
  pq_source_search_request_id :: "uuid option"
  pq_replay_search_request_id :: "uuid option"
  pq_feedback_id :: "uuid option"
  pq_evaluation_query_id :: "uuid option"
  pq_query_text :: string
  pq_mode :: string
  pq_filters :: dict
  pq_expected_result_type :: "string option"
  pq_expected_top_n :: "int option"
  pq_passed :: bool
  pq_result_count :: nat
  pq_table_hit_count :: nat
  pq_overlap_count :: nat
  pq_added_count :: nat
  pq_removed_count :: nat
  pq_top_result_changed :: bool
  pq_max_rank_shift :: int
  pq_details :: dict
  pq_created_at :: time

text \<open>The tables of this part beside the log, which has the next identifier and the time.\<close>

record replay_db =
  qd_log :: search_db
  qd_runs :: "replay_run list"
  qd_queries :: "replay_query list"

section \<open>Cases from the log\<close>

definition is_smoke_test_note :: "string option \<Rightarrow> bool" where
  "is_smoke_test_note note =
     (let text = (case note of None \<Rightarrow> [] | Some n \<Rightarrow> n) in
      take 10 (str_join '' '' (str_split (str_lower (str_strip text)))) = ''smoke test'')"

text \<open>Why a logged search of a user counts as a gap.\<close>

definition gap_reason :: "logged_request \<Rightarrow> string option" where
  "gap_reason r =
     (if lr_result_count r = 0 then Some ''zero_result_gap''
      else if lr_tabular_query r \<and> dict_get (lr_filters r) ''result_type'' \<noteq> Some (JStr ''chunk'')
              \<and> lr_table_hit_count r = 0
      then Some ''missing_table_gap'' else None)"

definition is_low_signal_zero_result_gap :: "logged_request \<Rightarrow> bool" where
  "is_low_signal_zero_result_gap r =
     (lr_filters r = [] \<and> \<not> lr_tabular_query r \<and> length (str_split (lr_query_text r)) \<le> 1)"

definition smoke_tested :: "search_db \<Rightarrow> uuid \<Rightarrow> bool" where
  "smoke_tested d i \<longleftrightarrow>
     (\<exists>f \<in> set (lg_feedback d). fb_search_request_id f = i \<and> is_smoke_test_note (fb_note f))"

definition is_gap :: "search_db \<Rightarrow> logged_request \<Rightarrow> bool" where
  "is_gap d r \<longleftrightarrow>
     lr_origin r \<in> {''api'', ''chat''} \<and> gap_reason r \<noteq> None \<and> \<not> smoke_tested d (lr_id r)
     \<and> \<not> (lr_result_count r = 0 \<and> is_low_signal_zero_result_gap r)"

text \<open>One row for each query, mode and filters, the first of the list.\<close>

definition same_query :: "logged_request \<Rightarrow> logged_request \<Rightarrow> bool" where
  "same_query a b \<longleftrightarrow> lr_query_text a = lr_query_text b \<and> lr_mode a = lr_mode b
     \<and> dict_eq (lr_filters a) (lr_filters b)"

fun first_of_each :: "logged_request list \<Rightarrow> logged_request list" where
  "first_of_each [] = []"
| "first_of_each (r # rs) = r # first_of_each (filter (\<lambda>x. \<not> same_query r x) rs)"

definition plain_case :: "string \<Rightarrow> string \<Rightarrow> dict \<Rightarrow> int \<Rightarrow> replay_case" where
  "plain_case query mode filters limit = \<lparr>rpc_query_text = query, rpc_mode = mode, rpc_filters = filters,
     rpc_limit = limit, rpc_expected_result_type = None, rpc_expected_top_n = None,
     rpc_source_search_request_id = None, rpc_feedback_id = None, rpc_evaluation_query_id = None,
     rpc_feedback_type = None, rpc_target_result_type = None, rpc_target_result_id = None,
     rpc_expected_source_filename = None, rpc_expected_top_result_source_filename = None,
     rpc_minimum_top_n_hits = None, rpc_maximum_foreign_results = None, rpc_source_reason = None,
     rpc_source_metadata = None\<rparr>"

definition gap_case :: "logged_request \<Rightarrow> replay_case" where
  "gap_case r = (plain_case (lr_query_text r) (lr_mode r) (lr_filters r) (int (lr_limit r)))\<lparr>
     rpc_source_search_request_id := Some (lr_id r), rpc_source_reason := gap_reason r\<rparr>"

definition live_search_gap_cases :: "nat \<Rightarrow> search_db \<Rightarrow> replay_case list" where
  "live_search_gap_cases limit d =
     map gap_case (take limit (first_of_each
       (sort_key (\<lambda>r. (- lr_created_at r, - int (lr_id r))) (filter (is_gap d) (lg_requests d)))))"

text \<open>Feedback joins its request; its result, when it has one, gives the target.\<close>

definition feedback_case :: "search_db \<Rightarrow> search_feedback \<Rightarrow> replay_case option" where
  "feedback_case d f =
     (case find_row lr_id (fb_search_request_id f) (lg_requests d) of
        None \<Rightarrow> None
      | Some r \<Rightarrow>
          (let row = (case fb_search_request_result_id f of None \<Rightarrow> None
             | Some i \<Rightarrow> find_row lx_id i (lg_results d)) in
           Some ((plain_case (lr_query_text r) (lr_mode r) (lr_filters r) (int (lr_limit r)))\<lparr>
             rpc_source_search_request_id := Some (lr_id r), rpc_feedback_id := Some (fb_id f),
             rpc_feedback_type := Some (fb_feedback_type f),
             rpc_target_result_type := map_option lx_result_type row,
             rpc_target_result_id := (case row of None \<Rightarrow> None | Some x \<Rightarrow> or_else (lx_table_id x) (lx_chunk_id x)),
             rpc_source_reason := Some ''feedback_label''\<rparr>)))"

definition feedback_cases :: "nat \<Rightarrow> search_db \<Rightarrow> replay_case list" where
  "feedback_cases limit d =
     take limit (some_values (map (feedback_case d) (sort_key (\<lambda>f. - fb_created_at f)
       (filter (\<lambda>f. \<not> is_smoke_test_note (fb_note f)) (lg_feedback d)))))"

text \<open>
  What a suite runs with: the site of the searches, and the cases of evaluations and of claim feedback.
\<close>

record suite_services =
  su_site :: search_site
  su_evaluation_cases :: "string \<Rightarrow> nat \<Rightarrow> exn + replay_case list"

definition build_replay_cases ::
  "suite_services \<Rightarrow> string \<Rightarrow> nat \<Rightarrow> search_db \<Rightarrow> exn + replay_case list" where
  "build_replay_cases sv source limit d =
     (if source \<in> {''evaluation_queries'', ''cross_document_prose_regressions''}
      then su_evaluation_cases sv source limit
      else if source = ''live_search_gaps'' then Inr (live_search_gap_cases limit d)
      else if source = TECHNICAL_REPORT_CLAIM_FEEDBACK then su_evaluation_cases sv source limit
      else Inr (feedback_cases limit d))"

section \<open>Running a suite\<close>

record suite_totals =
  tt_query_count :: nat
  tt_passed_count :: nat
  tt_failed_count :: nat
  tt_zero_result_count :: nat
  tt_table_hit_count :: nat
  tt_top_result_changes :: nat
  tt_max_rank_shift :: int
  tt_rank_query_count :: nat
  tt_reciprocal_rank_sum :: rat
  tt_foreign_top_result_count :: nat
  tt_source_constrained_query_count :: nat

definition no_totals :: suite_totals where
  "no_totals = \<lparr>tt_query_count = 0, tt_passed_count = 0, tt_failed_count = 0, tt_zero_result_count = 0,
     tt_table_hit_count = 0, tt_top_result_changes = 0, tt_max_rank_shift = 0, tt_rank_query_count = 0,
     tt_reciprocal_rank_sum = 0, tt_foreign_top_result_count = 0, tt_source_constrained_query_count = 0\<rparr>"

definition one_if :: "bool \<Rightarrow> nat" where
  "one_if b = (if b then 1 else 0)"

definition diff_of ::
  "replay_case \<Rightarrow> search_execution \<Rightarrow> search_db \<Rightarrow> exn + replay_diff option" where
  "diff_of c ex d =
     (case se_request_id ex of
        None \<Rightarrow> Inr None
      | Some i \<Rightarrow>
          (case get_search_request_detail i d of
             Inl e \<Rightarrow> Inl e
           | Inr replay \<Rightarrow>
               (case rpc_source_search_request_id c of
                  None \<Rightarrow> Inr None
                | Some j \<Rightarrow> map_sum id (\<lambda>original. Some (build_search_replay_diff original replay))
                    (get_search_request_detail j d))))"

definition case_request :: "search_site \<Rightarrow> string option \<Rightarrow> replay_case \<Rightarrow> exn + search_request" where
  "case_request st harness c =
     validated_request (rpc_query_text c) (rpc_mode c) (Some (ste_validate st (rpc_filters c))) (rpc_limit c) harness"

definition source_constrained :: "replay_case \<Rightarrow> bool" where
  "source_constrained c =
     (str_truthy (rpc_expected_source_filename c) \<or> str_truthy (rpc_expected_top_result_source_filename c)
      \<or> int_or_zero (rpc_minimum_top_n_hits c) \<noteq> 0 \<or> int_or_zero (rpc_maximum_foreign_results c) \<noteq> 0)"

definition details_rank :: "dict \<Rightarrow> int" where
  "details_rank details =
     (case dict_get details ''matching_rank'' of Some (JInt k) \<Rightarrow> k | _ \<Rightarrow> 0)"

definition details_top_source :: "dict \<Rightarrow> string option" where
  "details_top_source details =
     (case dict_get details ''top_result_source_filename'' of Some (JStr s) \<Rightarrow> Some s | _ \<Rightarrow> None)"

definition add_case ::
  "replay_case \<Rightarrow> search_execution \<Rightarrow> replay_diff option \<Rightarrow> bool \<Rightarrow> dict \<Rightarrow> suite_totals \<Rightarrow> suite_totals" where
  "add_case c ex diff passed details t =
     (let ranked = is_rank_metric_case c; rank = details_rank details in
      \<lparr>tt_query_count = tt_query_count t + 1,
       tt_passed_count = tt_passed_count t + one_if passed,
       tt_failed_count = tt_failed_count t + one_if (\<not> passed),
       tt_zero_result_count = tt_zero_result_count t + one_if (se_results ex = []),
       tt_table_hit_count = tt_table_hit_count t + one_if (se_table_hit_count ex > 0),
       tt_top_result_changes = tt_top_result_changes t
         + one_if (case diff of None \<Rightarrow> False | Some d \<Rightarrow> df_top_result_changed d),
       tt_max_rank_shift = max (tt_max_rank_shift t)
         (case diff of None \<Rightarrow> 0 | Some d \<Rightarrow> df_max_rank_shift d),
       tt_rank_query_count = tt_rank_query_count t + one_if ranked,
       tt_reciprocal_rank_sum = tt_reciprocal_rank_sum t
         + (if ranked \<and> rank \<noteq> 0 then 1 / of_int rank else 0),
       tt_foreign_top_result_count = tt_foreign_top_result_count t
         + one_if (ranked \<and> rpc_expected_top_result_source_filename c \<noteq> None
             \<and> \<not> source_filename_matches (details_top_source details)
                   (rpc_expected_top_result_source_filename c)),
       tt_source_constrained_query_count = tt_source_constrained_query_count t
         + one_if (ranked \<and> source_constrained c)\<rparr>)"

definition query_row ::
  "uuid \<Rightarrow> time \<Rightarrow> replay_case \<Rightarrow> search_execution \<Rightarrow> replay_diff option \<Rightarrow> bool \<Rightarrow> dict \<Rightarrow> uuid \<Rightarrow> replay_query" where
  "query_row run created c ex diff passed details i = \<lparr>
     pq_id = i, pq_replay_run_id = run,
     pq_source_search_request_id = rpc_source_search_request_id c,
     pq_replay_search_request_id = se_request_id ex, pq_feedback_id = rpc_feedback_id c,
     pq_evaluation_query_id = rpc_evaluation_query_id c, pq_query_text = rpc_query_text c,
     pq_mode = rpc_mode c, pq_filters = rpc_filters c,
     pq_expected_result_type = rpc_expected_result_type c, pq_expected_top_n = rpc_expected_top_n c,
     pq_passed = passed, pq_result_count = length (se_results ex),
     pq_table_hit_count = se_table_hit_count ex,
     pq_overlap_count = (case diff of None \<Rightarrow> 0 | Some d \<Rightarrow> df_overlap_count d),
     pq_added_count = (case diff of None \<Rightarrow> 0 | Some d \<Rightarrow> df_added_count d),
     pq_removed_count = (case diff of None \<Rightarrow> 0 | Some d \<Rightarrow> df_removed_count d),
     pq_top_result_changed = (case diff of None \<Rightarrow> False | Some d \<Rightarrow> df_top_result_changed d),
     pq_max_rank_shift = (case diff of None \<Rightarrow> 0 | Some d \<Rightarrow> df_max_rank_shift d),
     pq_details = dict_merge (dict_merge [
         (''source_reason'', json_opt_str (rpc_source_reason c)),
         (''feedback_type'', json_opt_str (rpc_feedback_type c)),
         (''embedding_status'', JStr (sl_embedding_status (se_log ex))),
         (''harness_name'', JStr (sl_harness_name (se_log ex))),
         (''reranker_name'', JStr (sl_reranker_name (se_log ex))),
         (''reranker_version'', JStr (sl_reranker_version (se_log ex))),
         (''retrieval_profile_name'', JStr (sl_retrieval_profile_name (se_log ex)))]
       (case_metadata c)) details,
     pq_created_at = created\<rparr>"

text \<open>The loop over the cases; \<open>last_execution\<close> is the last search that returned.\<close>

fun run_cases ::
  "search_site \<Rightarrow> string option \<Rightarrow> dict \<Rightarrow> uuid \<Rightarrow> time \<Rightarrow> replay_case list \<Rightarrow> suite_totals \<Rightarrow>
   search_execution option \<Rightarrow> replay_db \<Rightarrow> replay_db \<times> (exn + suite_totals \<times> search_execution option)" where
  "run_cases st harness overrides run created [] t last_execution d = (d, Inr (t, last_execution))"
| "run_cases st harness overrides run created (c # cs) t last_execution d =
     (case case_request st harness c of
        Inl e \<Rightarrow> (d, Inl e)
      | Inr request \<Rightarrow>
          (case logged_search st ''replay_suite'' None None (rpc_source_search_request_id c) overrides request (qd_log d) of
             (log1, Inl e) \<Rightarrow> (d\<lparr>qd_log := log1\<rparr>, Inl e)
           | (log1, Inr ex) \<Rightarrow>
               (case diff_of c ex log1 of
                  Inl e \<Rightarrow> (d\<lparr>qd_log := log1\<rparr>, Inl e)
                | Inr diff \<Rightarrow>
                    (let (passed, details) = evaluate_case_passed c ex;
                         row = query_row run created c ex diff passed details (lg_fresh log1) in
                     run_cases st harness overrides run created cs (add_case c ex diff passed details t) (Some ex)
                       (d\<lparr>qd_log := log1\<lparr>lg_fresh := Suc (lg_fresh log1)\<rparr>, qd_queries := qd_queries d @ [row]\<rparr>)))))"

definition finalize_replay_rank_metrics :: "suite_totals \<Rightarrow> rank_summary" where
  "finalize_replay_rank_metrics t = \<lparr>
     rk_query_count = tt_rank_query_count t,
     rk_mrr = (if tt_rank_query_count t = 0 then 0
               else tt_reciprocal_rank_sum t / of_nat (tt_rank_query_count t)),
     rk_foreign_top_result_count = tt_foreign_top_result_count t,
     rk_source_constrained_query_count = tt_source_constrained_query_count t\<rparr>"

text \<open>The row as it is created, with the defaults of its columns.\<close>

definition new_replay_run :: "uuid \<Rightarrow> string \<Rightarrow> string \<Rightarrow> time \<Rightarrow> replay_run" where
  "new_replay_run i source harness now = \<lparr>
     rn_id = i, rn_source_type = source, rn_status = ''failed'', rn_harness_name = harness,
     rn_reranker_name = ''linear_feature_reranker'', rn_reranker_version = ''v1'',
     rn_retrieval_profile_name = ''default_v1'', rn_harness_config = JObj [], rn_query_count = 0,
     rn_passed_count = 0, rn_failed_count = 0, rn_zero_result_count = 0, rn_table_hit_count = 0,
     rn_top_result_changes = 0, rn_max_rank_shift = 0, rn_rank_metrics = None, rn_error_message = None,
     rn_created_at = now, rn_completed_at = None\<rparr>"

definition completed_replay ::
  "search_harness \<Rightarrow> search_execution option \<Rightarrow> suite_totals \<Rightarrow> time \<Rightarrow> replay_run \<Rightarrow> replay_run" where
  "completed_replay harness last_execution t now r =
     (let r1 = (case last_execution of
            Some ex \<Rightarrow> r\<lparr>rn_reranker_name := sl_reranker_name (se_log ex),
              rn_reranker_version := sl_reranker_version (se_log ex),
              rn_retrieval_profile_name := sl_retrieval_profile_name (se_log ex),
              rn_harness_config := sl_harness_config (se_log ex)\<rparr>
          | None \<Rightarrow> r\<lparr>rn_reranker_name := lc_reranker_name (sh_reranker_config harness),
              rn_reranker_version := lc_reranker_version (sh_reranker_config harness),
              rn_retrieval_profile_name := rp_name (sh_retrieval_profile harness),
              rn_harness_config := harness_snapshot harness\<rparr>) in
      r1\<lparr>rn_status := ''completed'', rn_harness_name := sh_name harness,
         rn_query_count := tt_query_count t, rn_passed_count := tt_passed_count t,
         rn_failed_count := tt_failed_count t, rn_zero_result_count := tt_zero_result_count t,
         rn_table_hit_count := tt_table_hit_count t, rn_top_result_changes := tt_top_result_changes t,
         rn_max_rank_shift := tt_max_rank_shift t,
         rn_rank_metrics := Some (finalize_replay_rank_metrics t), rn_completed_at := Some now\<rparr>)"

definition failed_replay :: "exn \<Rightarrow> time \<Rightarrow> replay_run \<Rightarrow> replay_run" where
  "failed_replay e now r = r\<lparr>rn_status := ''failed'', rn_error_message := Some (exn_message e),
     rn_completed_at := Some now\<rparr>"

definition run_search_replay_suite ::
  "suite_services \<Rightarrow> string \<Rightarrow> nat \<Rightarrow> string option \<Rightarrow> dict \<Rightarrow> replay_db \<Rightarrow> replay_db \<times> (exn + replay_run)" where
  "run_search_replay_suite sv source limit harness_name overrides d =
     (let st = su_site sv; now = lg_clock (qd_log d) in
      case get_search_harness (ste_codecs st) harness_name overrides (ste_world st) of
        Inl e \<Rightarrow> (d, Inl e)
      | Inr harness \<Rightarrow>
          (let i = lg_fresh (qd_log d);
               run = new_replay_run i source (sh_name harness) now;
               d1 = d\<lparr>qd_runs := qd_runs d @ [run], qd_log := (qd_log d)\<lparr>lg_fresh := Suc i\<rparr>\<rparr>;
               (d2, res) = (case build_replay_cases sv source limit (qd_log d1) of
                  Inl e \<Rightarrow> (d1, Inl e)
                | Inr cs \<Rightarrow> run_cases st harness_name overrides i now cs no_totals None d1);
               run' = (case res of
                  Inl e \<Rightarrow> failed_replay e now run
                | Inr (t, ex) \<Rightarrow> completed_replay harness ex t now run) in
           (d2\<lparr>qd_runs := update_row rn_id i (\<lambda>_. run') (qd_runs d2)\<rparr>, Inr run')))"

section \<open>Ranks and counts\<close>

lemma rank_from_ge: "rank_from P n xs = Some k \<Longrightarrow> n \<le> k"
  by (induction P n xs rule: rank_from.induct) (auto split: if_splits)

lemma matching_rank_pos: "matching_rank results t source = Some k \<Longrightarrow> 1 \<le> k"
  by (auto simp: matching_rank_def split: option.splits dest: rank_from_ge)

lemma target_rank_pos: "target_rank results t i = Some k \<Longrightarrow> 1 \<le> k"
  by (auto simp: target_rank_def split: if_splits dest: rank_from_ge)

lemma json_rank_nonneg:
  assumes "\<And>k. r = Some k \<Longrightarrow> 1 \<le> k"
  shows "(case json_opt_int r of JInt k \<Rightarrow> k | _ \<Rightarrow> 0) \<ge> 0"
  using assms by (cases r) (auto intro: order_trans [of 0 1])

lemma details_rank_nonneg: "0 \<le> details_rank (snd (evaluate_case_passed c ex))"
proof -
  have "0 \<le> details_rank (evaluation_case_details c results)" for results
    using json_rank_nonneg [OF matching_rank_pos] by (simp add: details_rank_def evaluation_case_details_def)
  moreover have "0 \<le> details_rank (claim_feedback_details c ex)"
    using json_rank_nonneg [OF target_rank_pos]
    by (simp add: details_rank_def claim_feedback_details_def Let_def)
  moreover have "0 \<le> details_rank (snd (gap_case_passed c ex))"
    by (simp add: gap_case_passed_def details_rank_def)
  moreover have "0 \<le> details_rank (snd r)" if "feedback_case_passed c ex = Some r" for r
    using that by (auto simp: feedback_case_passed_def Let_def details_rank_def split: if_splits)
  ultimately show ?thesis by (auto simp: evaluate_case_passed_def split: option.split)
qed

text \<open>Totals and the rows they count.\<close>

definition tallied :: "suite_totals \<Rightarrow> replay_query list \<Rightarrow> suite_totals \<Rightarrow> bool" where
  "tallied t rows t' \<longleftrightarrow>
     tt_query_count t' = tt_query_count t + length rows
     \<and> tt_passed_count t' = tt_passed_count t + length (filter pq_passed rows)
     \<and> tt_failed_count t' = tt_failed_count t + length (filter (\<lambda>q. \<not> pq_passed q) rows)
     \<and> tt_zero_result_count t' = tt_zero_result_count t + length (filter (\<lambda>q. pq_result_count q = 0) rows)
     \<and> tt_table_hit_count t' = tt_table_hit_count t + length (filter (\<lambda>q. pq_table_hit_count q > 0) rows)
     \<and> tt_top_result_changes t' = tt_top_result_changes t + length (filter pq_top_result_changed rows)
     \<and> tt_max_rank_shift t' = fold max (map pq_max_rank_shift rows) (tt_max_rank_shift t)"

lemma tallied_Nil [simp]: "tallied t [] t"
  by (simp add: tallied_def)

lemma tallied_Cons:
  assumes "tallied (add_case c ex diff passed details t) rows t'"
  shows "tallied t (query_row run created c ex diff passed details i # rows) t'"
  using assms by (cases diff) (simp_all add: tallied_def add_case_def query_row_def one_if_def Let_def max.commute)

definition ranks_ok :: "suite_totals \<Rightarrow> bool" where
  "ranks_ok t \<longleftrightarrow> 0 \<le> tt_reciprocal_rank_sum t \<and> tt_reciprocal_rank_sum t \<le> of_nat (tt_rank_query_count t)
     \<and> tt_foreign_top_result_count t \<le> tt_rank_query_count t
     \<and> tt_source_constrained_query_count t \<le> tt_rank_query_count t \<and> tt_rank_query_count t \<le> tt_query_count t"

lemma reciprocal_unit: "0 \<le> k \<Longrightarrow> k \<noteq> 0 \<Longrightarrow> 0 \<le> 1 / (of_int k :: rat) \<and> 1 / (of_int k :: rat) \<le> 1"
  by (simp add: divide_le_eq)

lemma add_case_ranks_ok:
  assumes "ranks_ok t" "0 \<le> details_rank details"
  shows "ranks_ok (add_case c ex diff passed details t)"
  using assms reciprocal_unit [OF assms(2)]
  by (auto simp: ranks_ok_def add_case_def one_if_def Let_def intro: add_mono order_trans [of _ "of_nat (tt_rank_query_count t)"])

definition metrics_ok :: "nat \<Rightarrow> rank_summary \<Rightarrow> bool" where
  "metrics_ok n m \<longleftrightarrow> rk_query_count m \<le> n \<and> 0 \<le> rk_mrr m \<and> rk_mrr m \<le> 1
     \<and> rk_foreign_top_result_count m \<le> rk_query_count m \<and> rk_source_constrained_query_count m \<le> rk_query_count m"

lemma finalized_metrics_ok: "ranks_ok t \<Longrightarrow> metrics_ok (tt_query_count t) (finalize_replay_rank_metrics t)"
  by (auto simp: metrics_ok_def finalize_replay_rank_metrics_def ranks_ok_def divide_le_eq)

section \<open>A run of the cases\<close>

lemma log_grows_fresh [simp]: "log_grows d d' \<Longrightarrow> log_grows d (d'\<lparr>lg_fresh := Suc (lg_fresh d')\<rparr>)"
  by (simp add: log_grows_def)

lemma log_ok_fresh [simp]: "search_log_ok d \<Longrightarrow> search_log_ok (d\<lparr>lg_fresh := Suc (lg_fresh d)\<rparr>)"
  by (auto simp: search_log_ok_def request_ids_def result_rows_def feedback_ok_def less_Suc_eq)

definition rows_of :: "uuid \<Rightarrow> replay_db \<Rightarrow> replay_query list" where
  "rows_of run d = filter (\<lambda>q. pq_replay_run_id q = run) (qd_queries d)"

text \<open>What a run of the cases does to the tables, whether it finishes or not.\<close>

lemma run_cases_grows:
  assumes "run_cases st harness overrides run created cs t le d = (d', res)"
  shows "log_grows (qd_log d) (qd_log d') \<and> (search_log_ok (qd_log d) \<longrightarrow> search_log_ok (qd_log d')) \<and> qd_runs d' = qd_runs d
    \<and> (\<exists>rows. qd_queries d' = qd_queries d @ rows \<and> (\<forall>q \<in> set rows. pq_replay_run_id q = run)
        \<and> (\<forall>t' le'. res = Inr (t', le') \<longrightarrow> map pq_query_text rows = map rpc_query_text cs
            \<and> tallied t rows t' \<and> (ranks_ok t \<longrightarrow> ranks_ok t')))"
  using assms
proof (induction cs arbitrary: t le d)
  case Nil
  then show ?case by (auto simp: tallied_Nil)
next
  case (Cons c cs)
  show ?case
  proof (cases "case_request st harness c")
    case (Inl e)
    with Cons.prems show ?thesis by auto
  next
    case (Inr request)
    obtain log1 ans where s: "logged_search st ''replay_suite'' None None (rpc_source_search_request_id c) overrides request (qd_log d)
      = (log1, ans)" by fastforce
    have log1: "log_grows (qd_log d) log1" "search_log_ok (qd_log d) \<Longrightarrow> search_log_ok log1"
      using logged_search_grows [of "qd_log d" st] logged_search_ok [of "qd_log d" st] s by (metis fst_conv)+
    show ?thesis
    proof (cases ans)
      case (Inl e)
      then show ?thesis using Cons.prems \<open>case_request st harness c = Inr request\<close> s log1 by auto
    next
      case ex: (Inr ex)
      show ?thesis
      proof (cases "diff_of c ex log1")
        case (Inl e)
        then show ?thesis using Cons.prems \<open>case_request st harness c = Inr request\<close> s ex log1 by auto
      next
        case diff: (Inr diff)
        obtain passed details where v: "evaluate_case_passed c ex = (passed, details)" by fastforce
        let ?row = "query_row run created c ex diff passed details (lg_fresh log1)"
        let ?t = "add_case c ex diff passed details t"
        let ?d = "d\<lparr>qd_log := log1\<lparr>lg_fresh := Suc (lg_fresh log1)\<rparr>, qd_queries := qd_queries d @ [?row]\<rparr>"
        have "run_cases st harness overrides run created cs ?t (Some ex) ?d = (d', res)"
          using Cons.prems Inr s ex diff v by simp
        note ih = Cons.IH [OF this]
        obtain rows where rows: "qd_queries d' = qd_queries d @ ?row # rows" "\<forall>q \<in> set rows. pq_replay_run_id q = run"
          "\<And>t' le'. res = Inr (t', le') \<Longrightarrow> map pq_query_text rows = map rpc_query_text cs
            \<and> tallied ?t rows t' \<and> (ranks_ok ?t \<longrightarrow> ranks_ok t')"
          using ih by auto
        have "0 \<le> details_rank details" using details_rank_nonneg [of c ex] v by simp
        then have "map pq_query_text (?row # rows) = map rpc_query_text (c # cs) \<and> tallied t (?row # rows) t'
            \<and> (ranks_ok t \<longrightarrow> ranks_ok t')" if "res = Inr (t', le')" for t' le'
          using rows(3) [OF that] tallied_Cons add_case_ranks_ok by (auto simp: query_row_def)
        moreover have "\<forall>q \<in> set (?row # rows). pq_replay_run_id q = run" using rows(2) by (simp add: query_row_def)
        moreover have "log_grows (qd_log d) (qd_log d')" "search_log_ok (qd_log d) \<longrightarrow> search_log_ok (qd_log d')" "qd_runs d' = qd_runs d"
          using ih log_grows_trans [OF log_grows_fresh [OF log1(1)]] log1(2) by auto
        ultimately show ?thesis using rows(1) by blast
      qed
    qed
  qed
qed

section \<open>Runs and their query rows\<close>

definition run_counts_ok :: "replay_query list \<Rightarrow> replay_run \<Rightarrow> bool" where
  "run_counts_ok rows r \<longleftrightarrow> rn_query_count r = length rows
     \<and> rn_passed_count r = length (filter pq_passed rows) \<and> rn_passed_count r + rn_failed_count r = rn_query_count r
     \<and> rn_zero_result_count r = length (filter (\<lambda>q. pq_result_count q = 0) rows)
     \<and> rn_table_hit_count r = length (filter (\<lambda>q. pq_table_hit_count q > 0) rows)
     \<and> rn_top_result_changes r = length (filter pq_top_result_changed rows)
     \<and> rn_max_rank_shift r = fold max (map pq_max_rank_shift rows) 0
     \<and> (\<exists>m. rn_rank_metrics r = Some m \<and> metrics_ok (length rows) m)"

definition run_summary_ok :: "replay_query list \<Rightarrow> replay_run \<Rightarrow> bool" where
  "run_summary_ok rows r \<longleftrightarrow>
     (if rn_status r = ''completed'' then run_counts_ok rows r
      else rn_status r = ''failed'' \<and> rn_error_message r \<noteq> None \<and> rn_query_count r = 0 \<and> rn_rank_metrics r = None)"

definition replays_ok :: "replay_db \<Rightarrow> bool" where
  "replays_ok d \<longleftrightarrow> search_log_ok (qd_log d) \<and> distinct (map rn_id (qd_runs d))
     \<and> (\<forall>r \<in> set (qd_runs d). rn_id r < lg_fresh (qd_log d) \<and> run_summary_ok (rows_of (rn_id r) d) r)
     \<and> (\<forall>q \<in> set (qd_queries d). pq_replay_run_id q < lg_fresh (qd_log d))"

lemma no_totals_ok [simp]: "ranks_ok no_totals"
  by (simp add: ranks_ok_def no_totals_def)

lemma completed_counts:
  assumes "tallied no_totals rows t" "ranks_ok t"
  shows "run_counts_ok rows (completed_replay harness ex t now r)"
proof -
  have "length (filter pq_passed rows) + length (filter (\<lambda>q. \<not> pq_passed q) rows) = length rows"
    by (rule sum_length_filter_compl)
  then show ?thesis
    using assms(1) finalized_metrics_ok [OF assms(2)]
    by (cases ex) (auto simp: run_counts_ok_def tallied_def no_totals_def completed_replay_def Let_def)
qed

lemma completed_replay_simps [simp]:
  "rn_status (completed_replay harness ex t now r) = ''completed''" "rn_id (completed_replay harness ex t now r) = rn_id r"
  by (cases ex; simp add: completed_replay_def Let_def)+

lemma new_replay_run_id [simp]: "rn_id (new_replay_run i source harness now) = i"
  by (simp add: new_replay_run_def)

text \<open>A suite in the terms of its parts.\<close>

lemma suite_cases:
  assumes "run_search_replay_suite sv source limit name overrides d = (d', Inr run)"
  obtains harness d1 d2 res where
    "get_search_harness (ste_codecs (su_site sv)) name overrides (ste_world (su_site sv)) = Inr harness"
    "d1 = d\<lparr>qd_runs := qd_runs d @ [new_replay_run (lg_fresh (qd_log d)) source (sh_name harness) (lg_clock (qd_log d))],
       qd_log := (qd_log d)\<lparr>lg_fresh := Suc (lg_fresh (qd_log d))\<rparr>\<rparr>"
    "(case build_replay_cases sv source limit (qd_log d1) of
        Inl e \<Rightarrow> (d1, Inl e)
      | Inr cs \<Rightarrow> run_cases (su_site sv) name overrides (lg_fresh (qd_log d)) (lg_clock (qd_log d)) cs no_totals None d1)
      = (d2, res)"
    "run = (case res of
        Inl e \<Rightarrow> failed_replay e (lg_clock (qd_log d))
          (new_replay_run (lg_fresh (qd_log d)) source (sh_name harness) (lg_clock (qd_log d)))
      | Inr (t, ex) \<Rightarrow> completed_replay harness ex t (lg_clock (qd_log d))
          (new_replay_run (lg_fresh (qd_log d)) source (sh_name harness) (lg_clock (qd_log d))))"
    "d' = d2\<lparr>qd_runs := update_row rn_id (lg_fresh (qd_log d)) (\<lambda>_. run) (qd_runs d2)\<rparr>"
  using assms unfolding run_search_replay_suite_def Let_def
  by (auto split: sum.splits prod.splits)

lemma update_last_row:
  assumes "key r = i" "i \<notin> key ` set rows"
  shows "update_row key i (\<lambda>_. r') (rows @ [r]) = rows @ [r']"
  using assms by (simp add: update_row_append update_row_absent)

text \<open>What a suite leaves behind.\<close>

lemma suite_effect:
  assumes "run_search_replay_suite sv source limit name overrides d = (d', Inr run)" and "replays_ok d"
  obtains rows where "log_grows (qd_log d) (qd_log d')" "search_log_ok (qd_log d')" "rn_id run = lg_fresh (qd_log d)"
    "lg_fresh (qd_log d) < lg_fresh (qd_log d')" "qd_runs d' = qd_runs d @ [run]"
    "qd_queries d' = qd_queries d @ rows" "\<forall>q \<in> set rows. pq_replay_run_id q = rn_id run" "run_summary_ok rows run"
proof -
  let ?i = "lg_fresh (qd_log d)" and ?now = "lg_clock (qd_log d)"
  obtain harness d1 d2 res where d1: "d1 = d\<lparr>qd_runs := qd_runs d @ [new_replay_run ?i source (sh_name harness) ?now],
       qd_log := (qd_log d)\<lparr>lg_fresh := Suc ?i\<rparr>\<rparr>"
    and go: "(case build_replay_cases sv source limit (qd_log d1) of Inl e \<Rightarrow> (d1, Inl e)
      | Inr cs \<Rightarrow> run_cases (su_site sv) name overrides ?i ?now cs no_totals None d1) = (d2, res)"
    and run: "run = (case res of Inl e \<Rightarrow> failed_replay e ?now (new_replay_run ?i source (sh_name harness) ?now)
      | Inr (t, ex) \<Rightarrow> completed_replay harness ex t ?now (new_replay_run ?i source (sh_name harness) ?now))"
    and d': "d' = d2\<lparr>qd_runs := update_row rn_id ?i (\<lambda>_. run) (qd_runs d2)\<rparr>"
    by (rule suite_cases [OF assms(1)])
  have log1: "log_grows (qd_log d) (qd_log d1)" "search_log_ok (qd_log d1)" "lg_fresh (qd_log d1) = Suc ?i"
    using assms(2) by (simp_all add: d1 replays_ok_def)
  have "\<exists>rows. log_grows (qd_log d1) (qd_log d2) \<and> search_log_ok (qd_log d2) \<and> qd_runs d2 = qd_runs d1
      \<and> qd_queries d2 = qd_queries d1 @ rows \<and> (\<forall>q \<in> set rows. pq_replay_run_id q = ?i)
      \<and> (\<forall>t le. res = Inr (t, le) \<longrightarrow> tallied no_totals rows t \<and> ranks_ok t)"
  proof (cases "build_replay_cases sv source limit (qd_log d1)")
    case (Inr cs)
    then have "run_cases (su_site sv) name overrides ?i ?now cs no_totals None d1 = (d2, res)" using go by simp
    from run_cases_grows [OF this] log1(2) show ?thesis by auto
  qed (use go log1 in auto)
  then obtain rows where rows: "log_grows (qd_log d1) (qd_log d2)" "search_log_ok (qd_log d2)" "qd_runs d2 = qd_runs d1"
    "qd_queries d2 = qd_queries d1 @ rows" "\<forall>q \<in> set rows. pq_replay_run_id q = ?i"
    "\<And>t le. res = Inr (t, le) \<Longrightarrow> tallied no_totals rows t \<and> ranks_ok t" by blast
  have id: "rn_id run = ?i" by (auto simp: run failed_replay_def split: sum.split)
  have "?i \<notin> rn_id ` set (qd_runs d)" using assms(2) by (auto simp: replays_ok_def)
  then have runs: "qd_runs d' = qd_runs d @ [run]"
    by (simp add: d' rows(3) d1 update_last_row)
  have "run_summary_ok rows run"
    using rows(6) by (auto simp: run run_summary_ok_def completed_counts failed_replay_def new_replay_run_def split: sum.split)
  moreover have "lg_fresh (qd_log d1) \<le> lg_fresh (qd_log d2)" using rows(1) by (simp add: log_grows_def)
  ultimately show thesis
    using that [of rows] log_grows_trans [OF log1(1) rows(1)] rows(2,4,5) id runs log1(3)
    by (simp add: d' d1)
qed

lemma replays_ok_suite:
  assumes "replays_ok d"
  shows "replays_ok (fst (run_search_replay_suite sv source limit name overrides d))"
proof (cases "snd (run_search_replay_suite sv source limit name overrides d)")
  case (Inl e)
  then show ?thesis using assms by (auto simp: run_search_replay_suite_def Let_def split: sum.splits prod.splits)
next
  case (Inr run)
  then obtain d' where d': "run_search_replay_suite sv source limit name overrides d = (d', Inr run)" by (metis prod.collapse)
  obtain rows where r: "search_log_ok (qd_log d')" "rn_id run = lg_fresh (qd_log d)"
    "lg_fresh (qd_log d) < lg_fresh (qd_log d')" "qd_runs d' = qd_runs d @ [run]"
    "qd_queries d' = qd_queries d @ rows" "\<forall>q \<in> set rows. pq_replay_run_id q = rn_id run" "run_summary_ok rows run"
    using suite_effect [OF d' assms] by metis
  have old: "rows_of i d' = rows_of i d" if "i < lg_fresh (qd_log d)" for i
    using r(2,6) that by (auto simp: rows_of_def r(5) filter_empty_conv)
  have "rows_of (rn_id run) d = []" using assms r(2) by (auto simp: replays_ok_def rows_of_def filter_empty_conv)
  then have new: "rows_of (rn_id run) d' = rows"
    using r(6) by (simp add: rows_of_def r(5))
  show ?thesis
    using assms r(1,2,3,6,7) old new by (fastforce simp: replays_ok_def d' r(4) r(5))
qed

text \<open>Suites run between the other uses of the log.\<close>

inductive replay_step :: "suite_services \<Rightarrow> replay_db \<Rightarrow> replay_db \<Rightarrow> bool" for sv where
  use: "log_step (su_site sv) (qd_log d) l \<Longrightarrow> replay_step sv d (d\<lparr>qd_log := l\<rparr>)"
| suite: "replay_step sv d (fst (run_search_replay_suite sv source limit name overrides d))"

definition empty_replays :: "search_source \<Rightarrow> time \<Rightarrow> replay_db" where
  "empty_replays so t = \<lparr>qd_log = empty_log so t, qd_runs = [], qd_queries = []\<rparr>"

definition suites_reached :: "suite_services \<Rightarrow> replay_db \<Rightarrow> bool" where
  "suites_reached sv d \<longleftrightarrow> (\<exists>so t. (replay_step sv)\<^sup>*\<^sup>* (empty_replays so t) d)"

lemma replay_step_ok: "replay_step sv d d' \<Longrightarrow> replays_ok d \<Longrightarrow> replays_ok d'"
proof (induction rule: replay_step.induct)
  case (use d l)
  have "lg_fresh (qd_log d) \<le> lg_fresh l" using log_step_grows [OF use(1)] by (simp add: log_grows_def)
  then show ?case
    using use(2) log_step_ok [OF use(1)] by (fastforce simp: replays_ok_def rows_of_def)
qed (simp add: replays_ok_suite)

lemma replayed_ok:
  assumes "suites_reached sv d"
  shows "replays_ok d"
proof -
  obtain so t where "(replay_step sv)\<^sup>*\<^sup>* (empty_replays so t) d" using assms by (auto simp: suites_reached_def)
  moreover have "replays_ok (empty_replays so t)" by (simp add: empty_replays_def replays_ok_def empty_log_ok)
  ultimately show ?thesis by (induction rule: rtranclp_induct) (auto intro: replay_step_ok)
qed

section \<open>Replays do not feed on themselves\<close>

text \<open>A growth of the log that no user asked for and that has no feedback.\<close>

definition unasked :: "search_db \<Rightarrow> search_db \<Rightarrow> bool" where
  "unasked d d' \<longleftrightarrow> lg_feedback d' = lg_feedback d \<and> log_grows d d'
     \<and> (\<exists>rs. lg_requests d' = lg_requests d @ rs \<and> (\<forall>r \<in> set rs. lr_origin r \<notin> {''api'', ''chat''}))"

lemma unasked_refl [simp]: "unasked d d"
  by (simp add: unasked_def)

lemma unasked_trans: "unasked d d' \<Longrightarrow> unasked d' d'' \<Longrightarrow> unasked d d''"
  unfolding unasked_def by (auto intro: log_grows_trans)

lemma unasked_fresh [simp]: "unasked d d' \<Longrightarrow> unasked d (d'\<lparr>lg_fresh := Suc (lg_fresh d')\<rparr>)"
  by (simp add: unasked_def)

lemma unasked_step: "unasked d l \<Longrightarrow> unasked (l\<lparr>lg_fresh := Suc (lg_fresh l)\<rparr>) d' \<Longrightarrow> unasked d d'"
  by (rule unasked_trans [OF unasked_fresh])

lemma unasked_search:
  assumes "origin \<notin> {''api'', ''chat''}"
  shows "unasked d (fst (logged_search st origin run evaluation parent overrides request d))"
  using assms logged_search_grows [of d st origin run evaluation parent overrides request]
  by (auto simp: unasked_def logged_search_def persist_search_execution_def request_row_def Let_def split: sum.splits)

lemma unasked_cases:
  "run_cases st harness overrides run created cs t le d = (d', res) \<Longrightarrow> unasked (qd_log d) (qd_log d')"
proof (induction cs arbitrary: t le d)
  case (Cons c cs)
  have searched: "unasked (qd_log d) log1"
    if "logged_search st ''replay_suite'' None None parent overrides request (qd_log d) = (log1, ans)" for parent request log1 ans
  proof -
    have "unasked (qd_log d) (fst (logged_search st ''replay_suite'' None None parent overrides request (qd_log d)))"
      by (rule unasked_search) simp
    then show ?thesis by (simp add: that)
  qed
  show ?case
    using Cons.prems
    by (auto simp: Let_def split: sum.splits prod.splits dest!: Cons.IH dest: searched intro: unasked_step)
qed simp

lemma unasked_suite: "unasked (qd_log d) (qd_log (fst (run_search_replay_suite sv source limit name overrides d)))"
proof (cases "snd (run_search_replay_suite sv source limit name overrides d)")
  case (Inl e)
  then show ?thesis by (auto simp: run_search_replay_suite_def Let_def split: sum.splits prod.splits)
next
  case (Inr run)
  then obtain d' where d': "run_search_replay_suite sv source limit name overrides d = (d', Inr run)" by (metis prod.collapse)
  show ?thesis
    by (rule suite_cases [OF d']) (use unasked_cases unasked_step [OF unasked_refl] in
      \<open>fastforce simp: d' split: sum.splits\<close>)
qed

lemma unasked_gaps:
  assumes "unasked d d'"
  shows "live_search_gap_cases limit d' = live_search_gap_cases limit d"
proof -
  obtain rs where rs: "lg_requests d' = lg_requests d @ rs" "\<forall>r \<in> set rs. lr_origin r \<notin> {''api'', ''chat''}"
    using assms unfolding unasked_def by blast
  have "is_gap d' = is_gap d"
    using assms by (simp add: fun_eq_iff is_gap_def smoke_tested_def unasked_def)
  moreover have "filter (is_gap d) rs = []" using rs(2) by (auto simp: filter_empty_conv is_gap_def)
  ultimately show ?thesis by (simp add: live_search_gap_cases_def rs(1))
qed

lemma unasked_feedback:
  assumes "unasked d d'" "search_log_ok d"
  shows "feedback_cases limit d' = feedback_cases limit d"
proof -
  obtain rs xs where rs: "lg_requests d' = lg_requests d @ rs" and xs: "lg_results d' = lg_results d @ xs"
    and same: "lg_feedback d' = lg_feedback d"
    using assms(1) unfolding unasked_def log_grows_def adds_from_def by blast
  have "feedback_case d' f = feedback_case d f" if f: "f \<in> set (lg_feedback d)" for f
  proof -
    have ok: "feedback_ok d f" using assms(2) f by (simp add: search_log_ok_def)
    then obtain r where r: "find_row lr_id (fb_search_request_id f) (lg_requests d) = Some r"
      by (cases "find_row lr_id (fb_search_request_id f) (lg_requests d)")
        (auto simp: feedback_ok_def request_ids_def find_row_None)
    have "find_row lx_id i (lg_results d') = find_row lx_id i (lg_results d)"
      if i: "fb_search_request_result_id f = Some i" for i
    proof -
      have "i \<in> lx_id ` set (lg_results d)" using ok i by (auto simp: feedback_ok_def result_rows_def split: if_splits)
      then show ?thesis by (cases "find_row lx_id i (lg_results d)") (auto simp: xs find_row_None)
    qed
    then show ?thesis by (simp add: feedback_case_def rs r split: option.split)
  qed
  then have m: "map (feedback_case d') (sort_key k (filter P (lg_feedback d))) = map (feedback_case d) (sort_key k (filter P (lg_feedback d)))"
    for k :: "search_feedback \<Rightarrow> int" and P by (intro map_cong) simp_all
  show ?thesis unfolding feedback_cases_def same m ..
qed

lemma unasked_build:
  assumes "unasked d d'" "search_log_ok d"
  shows "build_replay_cases sv source limit d' = build_replay_cases sv source limit d"
  using unasked_gaps [OF assms(1)] unasked_feedback [OF assms] by (simp add: build_replay_cases_def)

section \<open>Properties\<close>

text \<open>
  A suite of one evaluation query over the small index of the search model, and a log with a search for
  tables that found none.
\<close>

definition no_filters :: search_filters where
  "no_filters = \<lparr>sf_document_id = None, sf_page_range = None, sf_result_type = None\<rparr>"

definition example_suite :: suite_services where
  "example_suite = \<lparr>su_site = example_site\<lparr>ste_validate := (\<lambda>d. Inr no_filters)\<rparr>,
     su_evaluation_cases = (\<lambda>source limit. Inr [(plain_case ''rent'' ''keyword'' [] 10)\<lparr>
       rpc_evaluation_query_id := Some 5, rpc_expected_result_type := Some ''chunk'',
       rpc_expected_top_n := Some 1, rpc_source_reason := Some ''evaluation_query''\<rparr>])\<rparr>"

definition example_suite_run :: "replay_db \<times> (exn + replay_run)" where
  "example_suite_run = run_search_replay_suite example_suite ''evaluation_queries'' 25 None [] (empty_replays example_source 0)"

definition example_gap_log :: search_db where
  "example_gap_log = fst (logged_search (su_site example_suite) ''api'' None None None []
     ((example_request Keyword_Mode)\<lparr>sr_filters := Some (no_filters\<lparr>sf_result_type := Some ''table''\<rparr>)\<rparr>)
     (empty_log example_source 0))"

lemma example_suite_counts:
  "map_sum (\<lambda>e. ()) (\<lambda>r. (rn_status r, rn_query_count r, rn_passed_count r)) (snd example_suite_run)
    = Inr (''completed'', 1, 1)"
  by code_simp

lemma example_gap_cases: "map rpc_query_text (live_search_gap_cases 25 example_gap_log) = [''rent'']"
  by code_simp

text \<open>
  C27: the counts of a replay run are those of its query rows. Whatever searches, feedback, replays and
  suites there were, a completed run counts exactly the rows that are stored for it: how many there are,
  how many passed, found nothing, found a table, changed their first result, and the largest shift of a
  rank. What did not pass is counted as failed. Its rank metrics are within their bounds: a mean
  reciprocal rank between zero and one, over at most all the queries.
\<close>

theorem replay_runs_add_up:
  assumes "suites_reached sv d" "r \<in> set (qd_runs d)" "rn_status r = ''completed''"
  defines "rows \<equiv> filter (\<lambda>q. pq_replay_run_id q = rn_id r) (qd_queries d)"
  shows "rn_query_count r = length rows \<and> rn_passed_count r = length (filter pq_passed rows)
    \<and> rn_passed_count r + rn_failed_count r = rn_query_count r
    \<and> rn_zero_result_count r = length (filter (\<lambda>q. pq_result_count q = 0) rows)
    \<and> rn_table_hit_count r = length (filter (\<lambda>q. pq_table_hit_count q > 0) rows)
    \<and> rn_top_result_changes r = length (filter pq_top_result_changed rows)
    \<and> rn_max_rank_shift r = fold max (map pq_max_rank_shift rows) 0
    \<and> (\<exists>m. rn_rank_metrics r = Some m \<and> 0 \<le> rk_mrr m \<and> rk_mrr m \<le> 1 \<and> rk_query_count m \<le> length rows
        \<and> rk_foreign_top_result_count m \<le> rk_query_count m \<and> rk_source_constrained_query_count m \<le> rk_query_count m)"
proof -
  have "run_summary_ok rows r" using replayed_ok [OF assms(1)] assms(2) by (simp add: replays_ok_def rows_of_def rows_def)
  then show ?thesis using assms(3) by (simp add: run_summary_ok_def run_counts_ok_def metrics_ok_def) blast
qed

lemma empty_replayed: "suites_reached sv (empty_replays so t)"
  unfolding suites_reached_def by blast

theorem replay_runs_add_up_witness:
  "\<exists>r. snd example_suite_run = Inr r \<and> rn_query_count r = 1
    \<and> length (filter (\<lambda>q. pq_replay_run_id q = rn_id r) (qd_queries (fst example_suite_run))) = 1"
proof -
  obtain r where r: "snd example_suite_run = Inr r" "rn_status r = ''completed''" "rn_query_count r = 1"
    using example_suite_counts by (cases "snd example_suite_run") auto
  have "replay_step example_suite (empty_replays example_source 0) (fst example_suite_run)"
    unfolding example_suite_run_def by (rule replay_step.suite)
  then have reached: "suites_reached example_suite (fst example_suite_run)"
    unfolding suites_reached_def by blast
  have suite: "run_search_replay_suite example_suite ''evaluation_queries'' 25 None [] (empty_replays example_source 0)
      = (fst example_suite_run, Inr r)" using r(1) unfolding example_suite_run_def by (metis prod.collapse)
  have "r \<in> set (qd_runs (fst example_suite_run))"
    by (rule suite_effect [OF suite replayed_ok [OF empty_replayed]]) simp
  from replay_runs_add_up [OF reached this r(2)] r show ?thesis by auto
qed

text \<open>
  C28: suites do not feed on their own searches. The cases that a suite takes from the log of searches and
  its feedback, for any source and limit, are the same before and after any suite has run, although the
  suite logs a search for each of its cases; so a second harness is replayed against the cases of the
  first.
\<close>

theorem suites_leave_cases:
  assumes "suites_reached sv d"
  shows "build_replay_cases sv source limit (qd_log (fst (run_search_replay_suite sv source' limit' name overrides d)))
    = build_replay_cases sv source limit (qd_log d)"
  using unasked_build [OF unasked_suite] replayed_ok [OF assms] by (simp add: replays_ok_def)

theorem suites_leave_cases_witness:
  "map_sum (\<lambda>e. ()) (map rpc_query_text) (build_replay_cases example_suite ''live_search_gaps'' 25 (qd_log (fst
    (run_search_replay_suite example_suite ''live_search_gaps'' 25 None []
      ((empty_replays example_source 0)\<lparr>qd_log := example_gap_log\<rparr>))))) = Inr [''rent'']"
proof -
  have "log_step (su_site example_suite) (qd_log (empty_replays example_source 0)) example_gap_log"
    unfolding example_gap_log_def empty_replays_def replay_db.simps by (rule log_step.search)
  then have "replay_step example_suite (empty_replays example_source 0) ((empty_replays example_source 0)\<lparr>qd_log := example_gap_log\<rparr>)"
    by (rule replay_step.use)
  then have "suites_reached example_suite ((empty_replays example_source 0)\<lparr>qd_log := example_gap_log\<rparr>)"
    unfolding suites_reached_def by blast
  from suites_leave_cases [OF this, where source = "''live_search_gaps''" and limit = 25] show ?thesis
    by (simp add: build_replay_cases_def example_gap_cases)
qed

end
