(* ===== verification/Harness_Evaluation.thy ===== *)
theory Harness_Evaluation
  imports Replay_Suite
begin

text \<open>
  Evaluation of a search harness against a baseline: \<open>app/services/search_replay_comparisons.py\<close>, the
  reading of replay runs in \<open>search_replay_common.py\<close>, and \<open>search_harness_evaluations.py\<close>. Both harnesses
  are replayed on every source of cases, the two runs are compared query by query, and each source gets
  its acceptance checks.
\<close>

section \<open>Comparing two replay runs\<close>

text \<open>A key is the tuple the code builds; tuples of strings compare like lists of strings.\<close>

type_synonym comparison_key = "string list"

definition filters_key :: "codecs \<Rightarrow> dict \<Rightarrow> string" where
  "filters_key cx filters = cx_json_sorted cx (JObj filters)"

definition replay_query_comparison_key :: "codecs \<Rightarrow> replay_query \<Rightarrow> comparison_key" where
  "replay_query_comparison_key cx q =
     (let details = pq_details q; feedback_id = dict_get details ''claim_feedback_id'' in
      if dict_get details ''source_reason'' = Some (JStr TECHNICAL_REPORT_CLAIM_FEEDBACK)
         \<and> dict_truthy details ''claim_feedback_id''
      then [TECHNICAL_REPORT_CLAIM_FEEDBACK, py_str cx (the feedback_id)]
      else [pq_query_text q, pq_mode q, filters_key cx (pq_filters q)])"

definition replay_run_not_found :: "uuid \<Rightarrow> exn" where
  "replay_run_not_found i =
     Http_Error 404 ''search_replay_run_not_found'' (''Search replay run not found: '' @ show_nat i)"

definition load_replay_run :: "uuid \<Rightarrow> replay_db \<Rightarrow> exn + replay_run" where
  "load_replay_run i d =
     (case find_row rn_id i (qd_runs d) of None \<Rightarrow> Inl (replay_run_not_found i) | Some r \<Rightarrow> Inr r)"

definition query_results :: "uuid \<Rightarrow> replay_db \<Rightarrow> replay_query list" where
  "query_results i d = sort_key (\<lambda>q. (pq_created_at q, pq_query_text q)) (rows_of i d)"

definition get_search_replay_run_detail :: "uuid \<Rightarrow> replay_db \<Rightarrow> exn + replay_run \<times> replay_query list" where
  "get_search_replay_run_detail i d = map_sum id (\<lambda>r. (r, query_results (rn_id r) d)) (load_replay_run i d)"

record changed_query =
  cq_query_text :: string
  cq_mode :: string
  cq_filters :: dict
  cq_baseline_passed :: bool
  cq_candidate_passed :: bool
  cq_baseline_result_count :: nat
  cq_candidate_result_count :: nat
  cq_baseline_top_result_changed :: bool
  cq_candidate_top_result_changed :: bool

record comparison =
  cmp_shared_query_count :: nat
  cmp_improved_count :: nat
  cmp_regressed_count :: nat
  cmp_unchanged_count :: nat
  cmp_baseline_zero_result_count :: nat
  cmp_candidate_zero_result_count :: nat
  cmp_changed_queries :: "changed_query list"

text \<open>\<open>{comparison_key(row): row for row in rows}\<close>: the last row of a key.\<close>

definition keyed_rows :: "codecs \<Rightarrow> replay_query list \<Rightarrow> (comparison_key \<times> replay_query) list" where
  "keyed_rows cx rows = dict_merge [] (map (\<lambda>q. (replay_query_comparison_key cx q, q)) rows)"

definition changed_row :: "replay_query \<times> replay_query \<Rightarrow> changed_query" where
  "changed_row = (\<lambda>(b, c). \<lparr>cq_query_text = pq_query_text b, cq_mode = pq_mode b, cq_filters = pq_filters b,
     cq_baseline_passed = pq_passed b, cq_candidate_passed = pq_passed c,
     cq_baseline_result_count = pq_result_count b, cq_candidate_result_count = pq_result_count c,
     cq_baseline_top_result_changed = pq_top_result_changed b,
     cq_candidate_top_result_changed = pq_top_result_changed c\<rparr>)"

definition is_changed :: "replay_query \<times> replay_query \<Rightarrow> bool" where
  "is_changed = (\<lambda>(b, c). pq_passed b \<noteq> pq_passed c \<or> pq_result_count b \<noteq> pq_result_count c
     \<or> pq_top_result_changed b \<noteq> pq_top_result_changed c)"

text \<open>The rows of the shared keys, in the order of the keys.\<close>

definition shared_rows ::
  "codecs \<Rightarrow> replay_query list \<Rightarrow> replay_query list \<Rightarrow> (replay_query \<times> replay_query) list" where
  "shared_rows cx baseline candidate =
     (let b = keyed_rows cx baseline; c = keyed_rows cx candidate in
      map (\<lambda>k. (the (dict_get b k), the (dict_get c k)))
        (sort (filter (\<lambda>k. k \<in> set (map fst c)) (map fst b))))"

definition compare_search_replay_runs :: "codecs \<Rightarrow> uuid \<Rightarrow> uuid \<Rightarrow> replay_db \<Rightarrow> exn + comparison" where
  "compare_search_replay_runs cx baseline_id candidate_id d =
     (case get_search_replay_run_detail baseline_id d of
        Inl e \<Rightarrow> Inl e
      | Inr (baseline, baseline_results) \<Rightarrow>
          (case get_search_replay_run_detail candidate_id d of
             Inl e \<Rightarrow> Inl e
           | Inr (candidate, candidate_results) \<Rightarrow>
               (let rows = shared_rows cx baseline_results candidate_results;
                    improved = length (filter (\<lambda>(b, c). \<not> pq_passed b \<and> pq_passed c) rows);
                    regressed = length (filter (\<lambda>(b, c). pq_passed b \<and> \<not> pq_passed c) rows) in
                Inr \<lparr>cmp_shared_query_count = length rows, cmp_improved_count = improved,
                  cmp_regressed_count = regressed,
                  cmp_unchanged_count = length (filter (\<lambda>(b, c). pq_passed b = pq_passed c) rows),
                  cmp_baseline_zero_result_count = rn_zero_result_count baseline,
                  cmp_candidate_zero_result_count = rn_zero_result_count candidate,
                  cmp_changed_queries = take 20 (map changed_row (filter is_changed rows))\<rparr>)))"

section \<open>Evaluations\<close>

record acceptance_checks =
  ac_no_regressions :: bool
  ac_mrr_not_lower :: bool
  ac_foreign_top_result_count_not_higher :: bool
  ac_zero_result_count_not_higher :: bool

record evaluation_source =
  hs_id :: uuid
  hs_evaluation_id :: uuid
  hs_source_index :: nat
  hs_source_type :: string
  hs_baseline_replay_run_id :: uuid
  hs_candidate_replay_run_id :: uuid
  hs_baseline_status :: string
  hs_candidate_status :: string
  hs_baseline_query_count :: nat
  hs_candidate_query_count :: nat
  hs_baseline_passed_count :: nat
  hs_candidate_passed_count :: nat
  hs_baseline_zero_result_count :: nat
  hs_candidate_zero_result_count :: nat
  hs_baseline_table_hit_count :: nat
  hs_candidate_table_hit_count :: nat
  hs_baseline_top_result_changes :: nat
  hs_candidate_top_result_changes :: nat
  hs_baseline_mrr :: rat
  hs_candidate_mrr :: rat
  hs_baseline_foreign_top_result_count :: nat
  hs_candidate_foreign_top_result_count :: nat
  hs_acceptance_checks :: acceptance_checks
  hs_shared_query_count :: nat
  hs_improved_count :: nat
  hs_regressed_count :: nat
  hs_unchanged_count :: nat
  hs_created_at :: time

record harness_evaluation =
  hv_id :: uuid
  hv_status :: string
  hv_baseline_harness_name :: string
  hv_candidate_harness_name :: string
  hv_limit :: nat
  hv_source_types :: "string list"
  hv_harness_overrides :: dict
  hv_total_shared_query_count :: nat
  hv_total_improved_count :: nat
  hv_total_regressed_count :: nat
  hv_total_unchanged_count :: nat
  hv_error_message :: "string option"
  hv_created_at :: time
  hv_completed_at :: "time option"

record evaluation_db =
  ed_replays :: replay_db
  ed_evaluations :: "harness_evaluation list"
  ed_sources :: "evaluation_source list"

record evaluation_request =
  eq_candidate_harness_name :: string
  eq_baseline_harness_name :: string
  eq_source_types :: "string list"
  eq_limit :: nat

definition VALID_SOURCE_TYPES :: "string list" where
  "VALID_SOURCE_TYPES = [''evaluation_queries'', ''feedback'', ''live_search_gaps'',
     ''cross_document_prose_regressions'', TECHNICAL_REPORT_CLAIM_FEEDBACK]"

fun normalize_source_types :: "string list \<Rightarrow> string list \<Rightarrow> exn + string list" where
  "normalize_source_types [] normalized = Inr normalized"
| "normalize_source_types (t # ts) normalized =
     (if t \<notin> set VALID_SOURCE_TYPES then Inl (value_error (''Unsupported replay source type: '' @ t))
      else normalize_source_types ts (if t \<in> set normalized then normalized else normalized @ [t]))"

definition run_mrr :: "replay_run \<Rightarrow> rat" where
  "run_mrr r = (case rn_rank_metrics r of None \<Rightarrow> 0 | Some m \<Rightarrow> rk_mrr m)"

definition run_foreign_top :: "replay_run \<Rightarrow> nat" where
  "run_foreign_top r = (case rn_rank_metrics r of None \<Rightarrow> 0 | Some m \<Rightarrow> rk_foreign_top_result_count m)"

definition acceptance :: "comparison \<Rightarrow> replay_run \<Rightarrow> replay_run \<Rightarrow> acceptance_checks" where
  "acceptance cmp baseline candidate = \<lparr>
     ac_no_regressions = (cmp_regressed_count cmp = 0),
     ac_mrr_not_lower = (run_mrr candidate \<ge> run_mrr baseline),
     ac_foreign_top_result_count_not_higher = (run_foreign_top candidate \<le> run_foreign_top baseline),
     ac_zero_result_count_not_higher = (rn_zero_result_count candidate \<le> rn_zero_result_count baseline)\<rparr>"

definition source_row ::
  "uuid \<Rightarrow> uuid \<Rightarrow> nat \<Rightarrow> string \<Rightarrow> comparison \<Rightarrow> replay_run \<Rightarrow> replay_run \<Rightarrow> time \<Rightarrow> evaluation_source" where
  "source_row i evaluation idx source cmp b c now = \<lparr>
     hs_id = i, hs_evaluation_id = evaluation, hs_source_index = idx, hs_source_type = source,
     hs_baseline_replay_run_id = rn_id b, hs_candidate_replay_run_id = rn_id c,
     hs_baseline_status = rn_status b, hs_candidate_status = rn_status c,
     hs_baseline_query_count = rn_query_count b, hs_candidate_query_count = rn_query_count c,
     hs_baseline_passed_count = rn_passed_count b, hs_candidate_passed_count = rn_passed_count c,
     hs_baseline_zero_result_count = rn_zero_result_count b,
     hs_candidate_zero_result_count = rn_zero_result_count c,
     hs_baseline_table_hit_count = rn_table_hit_count b, hs_candidate_table_hit_count = rn_table_hit_count c,
     hs_baseline_top_result_changes = rn_top_result_changes b,
     hs_candidate_top_result_changes = rn_top_result_changes c,
     hs_baseline_mrr = run_mrr b, hs_candidate_mrr = run_mrr c,
     hs_baseline_foreign_top_result_count = run_foreign_top b,
     hs_candidate_foreign_top_result_count = run_foreign_top c,
     hs_acceptance_checks = acceptance cmp b c,
     hs_shared_query_count = cmp_shared_query_count cmp, hs_improved_count = cmp_improved_count cmp,
     hs_regressed_count = cmp_regressed_count cmp, hs_unchanged_count = cmp_unchanged_count cmp,
     hs_created_at = now\<rparr>"

definition fresh_replays :: "replay_db \<Rightarrow> replay_db" where
  "fresh_replays d = d\<lparr>qd_log := (qd_log d)\<lparr>lg_fresh := Suc (lg_fresh (qd_log d))\<rparr>\<rparr>"

text \<open>One source: both suites, then the comparison.\<close>

definition evaluate_source ::
  "suite_services \<Rightarrow> evaluation_request \<Rightarrow> dict \<Rightarrow> uuid \<Rightarrow> nat \<times> string \<Rightarrow> evaluation_db \<Rightarrow>
   evaluation_db \<times> (exn + evaluation_source)" where
  "evaluate_source sv request overrides evaluation = (\<lambda>(idx, source) d.
     (case run_search_replay_suite sv source (eq_limit request) (Some (eq_baseline_harness_name request)) overrides
             (ed_replays d) of
        (r1, Inl e) \<Rightarrow> (d\<lparr>ed_replays := r1\<rparr>, Inl e)
      | (r1, Inr baseline) \<Rightarrow>
          (case run_search_replay_suite sv source (eq_limit request) (Some (eq_candidate_harness_name request)) overrides r1 of
             (r2, Inl e) \<Rightarrow> (d\<lparr>ed_replays := r2\<rparr>, Inl e)
           | (r2, Inr candidate) \<Rightarrow>
               (case compare_search_replay_runs (ste_codecs (su_site sv)) (rn_id baseline) (rn_id candidate) r2 of
                  Inl e \<Rightarrow> (d\<lparr>ed_replays := r2\<rparr>, Inl e)
                | Inr cmp \<Rightarrow>
                    (let row = source_row (lg_fresh (qd_log r2)) evaluation idx source cmp baseline candidate
                           (lg_clock (qd_log r2)) in
                     (d\<lparr>ed_replays := fresh_replays r2, ed_sources := ed_sources d @ [row]\<rparr>, Inr row))))))"

fun evaluate_sources ::
  "suite_services \<Rightarrow> evaluation_request \<Rightarrow> dict \<Rightarrow> uuid \<Rightarrow> (nat \<times> string) list \<Rightarrow> evaluation_db \<Rightarrow>
   evaluation_db \<times> (exn + evaluation_source list)" where
  "evaluate_sources sv request overrides evaluation [] d = (d, Inr [])"
| "evaluate_sources sv request overrides evaluation (s # ss) d =
     (case evaluate_source sv request overrides evaluation s d of
        (d1, Inl e) \<Rightarrow> (d1, Inl e)
      | (d1, Inr row) \<Rightarrow> apsnd (map_sum id (\<lambda>rows. row # rows)) (evaluate_sources sv request overrides evaluation ss d1))"

definition new_evaluation ::
  "uuid \<Rightarrow> evaluation_request \<Rightarrow> string list \<Rightarrow> dict \<Rightarrow> time \<Rightarrow> harness_evaluation" where
  "new_evaluation i request sources overrides now = \<lparr>
     hv_id = i, hv_status = ''failed'', hv_baseline_harness_name = eq_baseline_harness_name request,
     hv_candidate_harness_name = eq_candidate_harness_name request, hv_limit = eq_limit request,
     hv_source_types = sources, hv_harness_overrides = overrides, hv_total_shared_query_count = 0,
     hv_total_improved_count = 0, hv_total_regressed_count = 0, hv_total_unchanged_count = 0,
     hv_error_message = None, hv_created_at = now, hv_completed_at = None\<rparr>"

definition replay_failed :: "evaluation_source list \<Rightarrow> bool" where
  "replay_failed rows \<longleftrightarrow>
     (\<exists>s \<in> set rows. hs_baseline_status s \<noteq> ''completed'' \<or> hs_candidate_status s \<noteq> ''completed'')"

definition finished_evaluation ::
  "evaluation_source list \<Rightarrow> time \<Rightarrow> harness_evaluation \<Rightarrow> harness_evaluation" where
  "finished_evaluation rows now v = v\<lparr>
     hv_status := (if replay_failed rows then ''failed'' else ''completed''),
     hv_error_message := (if replay_failed rows then Some ''One or more source replay runs failed.'' else None),
     hv_total_shared_query_count := sum_list (map hs_shared_query_count rows),
     hv_total_improved_count := sum_list (map hs_improved_count rows),
     hv_total_regressed_count := sum_list (map hs_regressed_count rows),
     hv_total_unchanged_count := sum_list (map hs_unchanged_count rows),
     hv_completed_at := Some now\<rparr>"

text \<open>\<open>SearchHarnessEvaluationResponse\<close>: the row and its sources; the identifier is optional there.\<close>

record evaluation_response =
  er_evaluation_id :: "uuid option"
  er_evaluation :: harness_evaluation
  er_sources :: "evaluation_source list"

definition to_evaluation_response :: "harness_evaluation \<Rightarrow> evaluation_source list \<Rightarrow> evaluation_response" where
  "to_evaluation_response v sources =
     \<lparr>er_evaluation_id = Some (hv_id v), er_evaluation = v, er_sources = sources\<rparr>"

definition evaluate_search_harness ::
  "suite_services \<Rightarrow> evaluation_request \<Rightarrow> dict \<Rightarrow> evaluation_db \<Rightarrow> evaluation_db \<times> (exn + evaluation_response)" where
  "evaluate_search_harness sv request overrides d =
     (case normalize_source_types (eq_source_types request) [] of
        Inl e \<Rightarrow> (d, Inl e)
      | Inr sources \<Rightarrow>
          (let log = qd_log (ed_replays d); i = lg_fresh log; now = lg_clock log;
               v = new_evaluation i request sources overrides now;
               (d1, res) = evaluate_sources sv request overrides i (enumerate 0 sources)
                 (d\<lparr>ed_replays := fresh_replays (ed_replays d), ed_evaluations := ed_evaluations d @ [v]\<rparr>);
               finish = (\<lambda>v'. d1\<lparr>ed_evaluations := update_row hv_id i (\<lambda>_. v') (ed_evaluations d1)\<rparr>) in
           case res of
             Inl e \<Rightarrow> (finish (v\<lparr>hv_status := ''failed'', hv_error_message := Some (exn_message e),
               hv_completed_at := Some now\<rparr>), Inl e)
           | Inr rows \<Rightarrow>
               (let v' = finished_evaluation rows now v in
                (finish v', Inr (to_evaluation_response v' rows)))))"

definition evaluation_not_found :: exn where
  "evaluation_not_found =
     Http_Error 404 ''search_harness_evaluation_not_found'' ''Search harness evaluation not found.''"

definition get_search_harness_evaluation_detail :: "uuid \<Rightarrow> evaluation_db \<Rightarrow> exn + evaluation_response" where
  "get_search_harness_evaluation_detail i d =
     (case find_row hv_id i (ed_evaluations d) of
        None \<Rightarrow> Inl evaluation_not_found
      | Some v \<Rightarrow> Inr (to_evaluation_response v
          (sort_key hs_source_index (filter (\<lambda>s. hs_evaluation_id s = hv_id v) (ed_sources d)))))"

section \<open>Runs stay\<close>

definition runs_grow :: "replay_db \<Rightarrow> replay_db \<Rightarrow> bool" where
  "runs_grow d d' \<longleftrightarrow> (\<exists>rs. qd_runs d' = qd_runs d @ rs) \<and> lg_fresh (qd_log d) \<le> lg_fresh (qd_log d')"

lemma runs_grow_refl [simp]: "runs_grow d d"
  by (simp add: runs_grow_def)

lemma runs_grow_trans: "runs_grow d d' \<Longrightarrow> runs_grow d' d'' \<Longrightarrow> runs_grow d d''"
  by (auto simp: runs_grow_def)

lemma runs_grow_fresh [simp]: "runs_grow d (fresh_replays d)"
  by (simp add: runs_grow_def fresh_replays_def)

lemma run_stays: "runs_grow d d' \<Longrightarrow> find_row rn_id i (qd_runs d) = Some r \<Longrightarrow> find_row rn_id i (qd_runs d') = Some r"
  by (auto simp: runs_grow_def)

lemma replays_ok_fresh [simp]: "replays_ok d \<Longrightarrow> replays_ok (fresh_replays d)"
  by (auto simp: replays_ok_def fresh_replays_def rows_of_def less_Suc_eq)

lemma suite_runs:
  assumes "run_search_replay_suite sv source limit name overrides d = (d', res)" "replays_ok d"
  shows "replays_ok d'" "runs_grow d d'" "\<And>run. res = Inr run \<Longrightarrow> find_row rn_id (rn_id run) (qd_runs d') = Some run"
proof -
  show ok: "replays_ok d'" using replays_ok_suite [OF assms(2)] assms(1) by (metis fst_conv)
  have "runs_grow d d' \<and> (\<forall>run. res = Inr run \<longrightarrow> find_row rn_id (rn_id run) (qd_runs d') = Some run)"
  proof (cases res)
    case (Inl e)
    then show ?thesis using assms(1) by (auto simp: run_search_replay_suite_def Let_def split: sum.splits prod.splits)
  next
    case (Inr run)
    obtain rows where r: "lg_fresh (qd_log d) < lg_fresh (qd_log d')" "qd_runs d' = qd_runs d @ [run]"
      using suite_effect [OF assms(1) [unfolded Inr] assms(2)] by metis
    then have "find_row rn_id (rn_id run) (qd_runs d') = Some run"
      using ok by (intro find_row_unique) (simp_all add: replays_ok_def)
    with r Inr show ?thesis by (simp add: runs_grow_def)
  qed
  then show "runs_grow d d'" "\<And>run. res = Inr run \<Longrightarrow> find_row rn_id (rn_id run) (qd_runs d') = Some run" by blast+
qed

lemma replay_step_runs:
  assumes "replay_step sv d d'" "replays_ok d"
  shows "runs_grow d d'"
  using assms
proof (induction rule: replay_step.induct)
  case (use d l)
  then show ?case using log_step_grows [OF use(1)] by (simp add: runs_grow_def log_grows_def)
next
  case (suite d source limit name overrides)
  then show ?case using suite_runs(2) by (metis prod.collapse)
qed

section \<open>Sources agree with their runs\<close>

definition agrees :: "evaluation_source \<Rightarrow> replay_run \<Rightarrow> replay_run \<Rightarrow> bool" where
  "agrees s b c \<longleftrightarrow> hs_baseline_status s = rn_status b \<and> hs_candidate_status s = rn_status c
     \<and> hs_baseline_mrr s = run_mrr b \<and> hs_candidate_mrr s = run_mrr c
     \<and> hs_baseline_zero_result_count s = rn_zero_result_count b
     \<and> hs_candidate_zero_result_count s = rn_zero_result_count c
     \<and> hs_baseline_foreign_top_result_count s = run_foreign_top b
     \<and> hs_candidate_foreign_top_result_count s = run_foreign_top c"

definition checks_of :: "evaluation_source \<Rightarrow> acceptance_checks" where
  "checks_of s = \<lparr>ac_no_regressions = (hs_regressed_count s = 0),
     ac_mrr_not_lower = (hs_baseline_mrr s \<le> hs_candidate_mrr s),
     ac_foreign_top_result_count_not_higher =
       (hs_candidate_foreign_top_result_count s \<le> hs_baseline_foreign_top_result_count s),
     ac_zero_result_count_not_higher = (hs_candidate_zero_result_count s \<le> hs_baseline_zero_result_count s)\<rparr>"

definition source_ok :: "replay_db \<Rightarrow> evaluation_source \<Rightarrow> bool" where
  "source_ok d s \<longleftrightarrow> hs_acceptance_checks s = checks_of s
     \<and> (\<exists>b c. find_row rn_id (hs_baseline_replay_run_id s) (qd_runs d) = Some b
          \<and> find_row rn_id (hs_candidate_replay_run_id s) (qd_runs d) = Some c \<and> agrees s b c)"

lemma source_ok_grow: "runs_grow d d' \<Longrightarrow> source_ok d s \<Longrightarrow> source_ok d' s"
  unfolding source_ok_def by (metis run_stays)

lemma source_row_ok:
  assumes "find_row rn_id (rn_id b) (qd_runs d) = Some b" "find_row rn_id (rn_id c) (qd_runs d) = Some c"
  shows "source_ok d (source_row i evaluation idx source cmp b c now)"
  using assms by (simp add: source_ok_def source_row_def agrees_def checks_of_def acceptance_def)

definition sources_ok :: "evaluation_db \<Rightarrow> bool" where
  "sources_ok d \<longleftrightarrow> replays_ok (ed_replays d) \<and> (\<forall>s \<in> set (ed_sources d). source_ok (ed_replays d) s
     \<and> hs_evaluation_id s < lg_fresh (qd_log (ed_replays d)))"

lemma sources_ok_grow:
  assumes "sources_ok d" "runs_grow (ed_replays d) r" "replays_ok r"
  shows "sources_ok (d\<lparr>ed_replays := r\<rparr>)"
  using assms source_ok_grow by (fastforce simp: sources_ok_def runs_grow_def)

text \<open>Between \<open>d\<close> and \<open>d'\<close> an evaluation adds the rows of the sources it finished.\<close>

definition adds_sources :: "uuid \<Rightarrow> evaluation_db \<Rightarrow> evaluation_source list \<Rightarrow> evaluation_db \<Rightarrow> bool" where
  "adds_sources evaluation d rows d' \<longleftrightarrow> sources_ok d' \<and> runs_grow (ed_replays d) (ed_replays d')
     \<and> ed_evaluations d' = ed_evaluations d \<and> ed_sources d' = ed_sources d @ rows
     \<and> (\<forall>s \<in> set rows. hs_evaluation_id s = evaluation)"

lemma source_row_simps [simp]:
  "hs_evaluation_id (source_row i evaluation idx source cmp b c now) = evaluation"
  "hs_source_index (source_row i evaluation idx source cmp b c now) = idx"
  by (simp_all add: source_row_def)

lemma evaluate_source_adds:
  assumes "evaluate_source sv request overrides evaluation (idx, source) d = (d', res)" "sources_ok d"
    and "evaluation < lg_fresh (qd_log (ed_replays d))"
  shows "case res of Inl e \<Rightarrow> adds_sources evaluation d [] d'
    | Inr row \<Rightarrow> adds_sources evaluation d [row] d' \<and> hs_source_index row = idx"
proof -
  obtain r1 res1 where s1: "run_search_replay_suite sv source (eq_limit request) (Some (eq_baseline_harness_name request))
      overrides (ed_replays d) = (r1, res1)" by fastforce
  note b = suite_runs [OF s1] and ok = assms(2) [unfolded sources_ok_def]
  have r1: "replays_ok r1" "runs_grow (ed_replays d) r1" using b ok by blast+
  show ?thesis
  proof (cases res1)
    case (Inl e)
    then show ?thesis
      using assms(1) s1 sources_ok_grow [OF assms(2) r1(2,1)] r1(2) by (auto simp: evaluate_source_def adds_sources_def)
  next
    case baseline: (Inr baseline)
    obtain r2 res2 where s2: "run_search_replay_suite sv source (eq_limit request) (Some (eq_candidate_harness_name request))
        overrides r1 = (r2, res2)" by fastforce
    note c = suite_runs [OF s2 r1(1)]
    have r2: "runs_grow (ed_replays d) r2" using runs_grow_trans [OF r1(2) c(2)] .
    show ?thesis
    proof (cases res2)
      case (Inl e)
      then show ?thesis
        using assms(1) s1 s2 baseline sources_ok_grow [OF assms(2) r2 c(1)] r2 by (auto simp: evaluate_source_def adds_sources_def)
    next
      case candidate: (Inr candidate)
      have found: "find_row rn_id (rn_id baseline) (qd_runs r2) = Some baseline"
        "find_row rn_id (rn_id candidate) (qd_runs r2) = Some candidate"
        using run_stays [OF c(2) b(3)] ok baseline c(3) candidate by blast+
      show ?thesis
      proof (cases "compare_search_replay_runs (ste_codecs (su_site sv)) (rn_id baseline) (rn_id candidate) r2")
        case (Inl e)
        then show ?thesis
          using assms(1) s1 s2 baseline candidate sources_ok_grow [OF assms(2) r2 c(1)] r2
          by (auto simp: evaluate_source_def adds_sources_def)
      next
        case (Inr cmp)
        let ?row = "source_row (lg_fresh (qd_log r2)) evaluation idx source cmp baseline candidate (lg_clock (qd_log r2))"
        have d': "d' = d\<lparr>ed_replays := fresh_replays r2, ed_sources := ed_sources d @ [?row]\<rparr>" "res = Inr ?row"
          using assms(1) s1 s2 baseline candidate Inr by (simp_all add: evaluate_source_def Let_def)
        have grow: "runs_grow (ed_replays d) (fresh_replays r2)" using runs_grow_trans [OF r2] by simp
        have "sources_ok (d\<lparr>ed_replays := fresh_replays r2\<rparr>)"
          using sources_ok_grow [OF assms(2) grow] c(1) by simp
        moreover have "source_ok (fresh_replays r2) ?row"
          by (rule source_row_ok) (simp_all add: fresh_replays_def found)
        moreover have "evaluation < lg_fresh (qd_log (fresh_replays r2))"
          using assms(3) grow by (simp add: runs_grow_def)
        ultimately show ?thesis using grow by (simp add: d' adds_sources_def sources_ok_def)
      qed
    qed
  qed
qed

lemma evaluate_sources_adds:
  assumes "evaluate_sources sv request overrides evaluation ss d = (d', res)" "sources_ok d"
    and "evaluation < lg_fresh (qd_log (ed_replays d))"
  shows "\<exists>rows. adds_sources evaluation d rows d'
    \<and> (\<exists>rest. map fst ss = map hs_source_index rows @ rest)
    \<and> (\<forall>rows'. res = Inr rows' \<longrightarrow> rows' = rows \<and> map hs_source_index rows = map fst ss)"
  using assms
proof (induction ss arbitrary: d res)
  case Nil
  then show ?case by (auto simp: adds_sources_def)
next
  case (Cons s ss)
  obtain idx source where s: "s = (idx, source)" by fastforce
  obtain d1 res1 where e: "evaluate_source sv request overrides evaluation (idx, source) d = (d1, res1)" by fastforce
  note added = evaluate_source_adds [OF e Cons.prems(2,3)]
  show ?case
  proof (cases res1)
    case (Inl err)
    with added have "adds_sources evaluation d [] d1" by simp
    then show ?thesis using Cons.prems(1) e s Inl by (intro exI [of _ "[]"]) auto
  next
    case (Inr row)
    with added have a: "adds_sources evaluation d [row] d1" and idx: "hs_source_index row = idx" by simp_all
    obtain res2 where rest: "evaluate_sources sv request overrides evaluation ss d1 = (d', res2)"
      "res = map_sum id (\<lambda>rows. row # rows) res2"
      using Cons.prems(1) e s Inr by (cases "evaluate_sources sv request overrides evaluation ss d1") auto
    have d1: "sources_ok d1" "evaluation < lg_fresh (qd_log (ed_replays d1))"
      using a Cons.prems(3) by (auto simp: adds_sources_def runs_grow_def)
    obtain rows where rows: "adds_sources evaluation d1 rows d'" "\<exists>rest. map fst ss = map hs_source_index rows @ rest"
      "\<And>rows'. res2 = Inr rows' \<Longrightarrow> rows' = rows \<and> map hs_source_index rows = map fst ss"
      using Cons.IH [OF rest(1) d1] by blast
    have "adds_sources evaluation d (row # rows) d'"
      using a rows(1) by (auto simp: adds_sources_def intro: runs_grow_trans)
    then show ?thesis
      using rows(2,3) idx s rest(2) by (intro exI [of _ "row # rows"]) (cases res2; auto)
  qed
qed

section \<open>Evaluations agree with their sources\<close>

definition own_sources :: "uuid \<Rightarrow> evaluation_db \<Rightarrow> evaluation_source list" where
  "own_sources i d = filter (\<lambda>s. hs_evaluation_id s = i) (ed_sources d)"

definition totals_ok :: "evaluation_source list \<Rightarrow> harness_evaluation \<Rightarrow> bool" where
  "totals_ok rows v \<longleftrightarrow> \<not> replay_failed rows
     \<and> hv_total_shared_query_count v = sum_list (map hs_shared_query_count rows)
     \<and> hv_total_improved_count v = sum_list (map hs_improved_count rows)
     \<and> hv_total_regressed_count v = sum_list (map hs_regressed_count rows)
     \<and> hv_total_unchanged_count v = sum_list (map hs_unchanged_count rows)"

definition evaluation_ok :: "evaluation_source list \<Rightarrow> harness_evaluation \<Rightarrow> bool" where
  "evaluation_ok rows v \<longleftrightarrow> map hs_source_index rows = [0..<length rows]
     \<and> (hv_status v = ''completed'' \<longrightarrow> totals_ok rows v)"

definition evaluations_ok :: "evaluation_db \<Rightarrow> bool" where
  "evaluations_ok d \<longleftrightarrow> sources_ok d \<and> distinct (map hv_id (ed_evaluations d))
     \<and> (\<forall>v \<in> set (ed_evaluations d). hv_id v < lg_fresh (qd_log (ed_replays d)) \<and> evaluation_ok (own_sources (hv_id v) d) v)"

lemma evaluations_ok_grow:
  assumes "evaluations_ok d" "runs_grow (ed_replays d) r" "replays_ok r"
  shows "evaluations_ok (d\<lparr>ed_replays := r\<rparr>)"
  using assms sources_ok_grow [OF _ assms(2,3)] by (fastforce simp: evaluations_ok_def own_sources_def runs_grow_def)

lemma indices_prefix:
  assumes "[0..<n] = xs @ (ys :: nat list)"
  shows "xs = [0..<length xs]"
proof -
  have "xs = take (length xs) [0..<n]" using assms by simp
  moreover have "length xs \<le> n" using arg_cong [OF assms, of length] by simp
  ultimately show ?thesis by (simp add: take_upt)
qed

lemma evaluate_cases:
  assumes "evaluate_search_harness sv request overrides d = (d', res)" "evaluations_ok d"
    and src: "normalize_source_types (eq_source_types request) [] = Inr sources"
  obtains v rows d1 v' where "adds_sources (hv_id v) (d\<lparr>ed_replays := fresh_replays (ed_replays d), ed_evaluations := ed_evaluations d @ [v]\<rparr>) rows d1"
    "hv_id v = lg_fresh (qd_log (ed_replays d))" "map hs_source_index rows = [0..<length rows]"
    "d' = d1\<lparr>ed_evaluations := ed_evaluations d @ [v']\<rparr>" "hv_id v' = hv_id v" "evaluation_ok rows v'"
    "\<forall>er. res = Inr er \<longrightarrow> er = to_evaluation_response v' rows"
proof -
  let ?i = "lg_fresh (qd_log (ed_replays d))" and ?now = "lg_clock (qd_log (ed_replays d))"
  let ?v = "new_evaluation ?i request sources overrides ?now"
  let ?d = "d\<lparr>ed_replays := fresh_replays (ed_replays d), ed_evaluations := ed_evaluations d @ [?v]\<rparr>"
  obtain d1 out where e: "evaluate_sources sv request overrides ?i (enumerate 0 sources) ?d = (d1, out)" by fastforce
  have id: "hv_id ?v = ?i" "hv_status ?v = ''failed''" by (simp_all add: new_evaluation_def)
  have "sources_ok (d\<lparr>ed_replays := fresh_replays (ed_replays d)\<rparr>)"
    using assms(2) sources_ok_grow [of d] by (simp add: evaluations_ok_def sources_ok_def)
  then have ok: "sources_ok ?d" by (simp add: sources_ok_def)
  have less: "?i < lg_fresh (qd_log (ed_replays ?d))" by (simp add: fresh_replays_def)
  obtain rows where rows: "adds_sources ?i ?d rows d1" "\<exists>rest. map fst (enumerate 0 sources) = map hs_source_index rows @ rest"
    "\<And>rows'. out = Inr rows' \<Longrightarrow> rows' = rows"
    using evaluate_sources_adds [OF e ok less] by blast
  have idx: "map hs_source_index rows = [0..<length rows]"
    using rows(2) indices_prefix by (fastforce simp: map_fst_enumerate)
  have new: "?i \<notin> hv_id ` set (ed_evaluations d)" using assms(2) by (auto simp: evaluations_ok_def)
  let ?v' = "case out of Inl err \<Rightarrow> ?v\<lparr>hv_status := ''failed'', hv_error_message := Some (exn_message err),
      hv_completed_at := Some ?now\<rparr> | Inr rows' \<Rightarrow> finished_evaluation rows' ?now ?v"
  have "ed_evaluations d1 = ed_evaluations d @ [?v]" using rows(1) by (simp add: adds_sources_def)
  then have "update_row hv_id ?i (\<lambda>_. v') (ed_evaluations d1) = ed_evaluations d @ [v']" for v'
    using update_last_row [OF id(1) new] by simp
  then have "d' = d1\<lparr>ed_evaluations := ed_evaluations d @ [?v']\<rparr>"
    "\<And>er. res = Inr er \<Longrightarrow> er = to_evaluation_response ?v' rows"
    using assms(1) rows(3) by (auto simp: evaluate_search_harness_def src Let_def e split: sum.splits)
  moreover have "hv_id ?v' = ?i" by (simp add: id finished_evaluation_def split: sum.split)
  moreover have "evaluation_ok rows ?v'"
    using idx rows(3) by (auto simp: evaluation_ok_def totals_ok_def finished_evaluation_def split: sum.split)
  ultimately show thesis using that [of ?v rows d1 ?v'] rows(1) id(1) idx by simp
qed

lemma evaluate_ok:
  assumes "evaluate_search_harness sv request overrides d = (d', res)" "evaluations_ok d"
  shows "evaluations_ok d'"
    and "\<And>er. res = Inr er \<Longrightarrow> get_search_harness_evaluation_detail (the (er_evaluation_id er)) d' = Inr er"
proof -
  have "evaluations_ok d' \<and> (\<forall>er. res = Inr er \<longrightarrow>
      get_search_harness_evaluation_detail (the (er_evaluation_id er)) d' = Inr er)"
  proof (cases "normalize_source_types (eq_source_types request) []")
    case (Inl e)
    then show ?thesis using assms by (auto simp: evaluate_search_harness_def)
  next
    case (Inr sources)
    obtain v rows d1 v' where
      a: "adds_sources (hv_id v) (d\<lparr>ed_replays := fresh_replays (ed_replays d), ed_evaluations := ed_evaluations d @ [v]\<rparr>) rows d1"
      and i: "hv_id v = lg_fresh (qd_log (ed_replays d))" and idx: "map hs_source_index rows = [0..<length rows]"
      and d': "d' = d1\<lparr>ed_evaluations := ed_evaluations d @ [v']\<rparr>" and v': "hv_id v' = hv_id v" "evaluation_ok rows v'"
      and res: "\<forall>er. res = Inr er \<longrightarrow> er = to_evaluation_response v' rows"
      by (rule evaluate_cases [OF assms Inr])
    have sources: "ed_sources d' = ed_sources d @ rows" "\<forall>s \<in> set rows. hs_evaluation_id s = hv_id v"
      using a by (simp_all add: d' adds_sources_def)
    have "own_sources (hv_id v) d = []"
      using assms(2) i by (auto simp: own_sources_def filter_empty_conv evaluations_ok_def sources_ok_def)
    then have new: "own_sources (hv_id v') d' = rows"
      using sources v' by (simp add: own_sources_def)
    have old: "own_sources k d' = own_sources k d" if "k < hv_id v" for k
      using sources that by (auto simp: own_sources_def filter_empty_conv)
    have fresh: "hv_id v < lg_fresh (qd_log (ed_replays d'))"
      using a i by (simp add: d' adds_sources_def runs_grow_def fresh_replays_def)
    have "sources_ok d'" using a by (simp add: d' adds_sources_def sources_ok_def)
    moreover have "distinct (map hv_id (ed_evaluations d'))"
      using assms(2) i v'(1) by (auto simp: d' evaluations_ok_def)
    moreover have "hv_id u < lg_fresh (qd_log (ed_replays d')) \<and> evaluation_ok (own_sources (hv_id u) d') u"
      if u: "u \<in> set (ed_evaluations d')" for u
    proof (cases "u = v'")
      case False
      with u have "u \<in> set (ed_evaluations d)" by (simp add: d')
      then have "hv_id u < hv_id v" "evaluation_ok (own_sources (hv_id u) d) u"
        using assms(2) i by (auto simp: evaluations_ok_def)
      then show ?thesis using fresh old by simp
    qed (use new v' fresh in simp)
    ultimately have ok: "evaluations_ok d'" by (simp add: evaluations_ok_def)
    have "find_row hv_id (hv_id v') (ed_evaluations d') = Some v'"
      using ok by (intro find_row_unique) (simp_all add: evaluations_ok_def d')
    moreover have "sort_key hs_source_index rows = rows" by (rule sort_key_id_if_sorted) (simp add: idx)
    ultimately show ?thesis
      using ok res new
      by (auto simp: get_search_harness_evaluation_detail_def to_evaluation_response_def own_sources_def)
  qed
  then show "evaluations_ok d'"
    "\<And>er. res = Inr er \<Longrightarrow> get_search_harness_evaluation_detail (the (er_evaluation_id er)) d' = Inr er" by blast+
qed

text \<open>What an evaluation reads as.\<close>

lemma detail_of_evaluation:
  assumes "evaluations_ok d" "get_search_harness_evaluation_detail i d = Inr er"
  shows "er_evaluation_id er = Some i" "hv_id (er_evaluation er) = i" "er_evaluation er \<in> set (ed_evaluations d)"
    and "\<And>s. s \<in> set (er_sources er) \<Longrightarrow> source_ok (ed_replays d) s"
    and "hv_status (er_evaluation er) = ''completed'' \<Longrightarrow> totals_ok (er_sources er) (er_evaluation er)"
proof -
  obtain v where v: "find_row hv_id i (ed_evaluations d) = Some v"
    and er: "er = to_evaluation_response v (sort_key hs_source_index (own_sources (hv_id v) d))"
    using assms(2) by (auto simp: get_search_harness_evaluation_detail_def own_sources_def split: option.splits)
  have mem: "v \<in> set (ed_evaluations d)" "hv_id v = i" using find_row_Some [OF v] by blast+
  then have ok: "evaluation_ok (own_sources i d) v" using assms(1) by (auto simp: evaluations_ok_def)
  have "sort_key hs_source_index (own_sources i d) = own_sources i d"
    by (rule sort_key_id_if_sorted) (use ok in \<open>simp add: evaluation_ok_def\<close>)
  then have er: "er = to_evaluation_response v (own_sources i d)" using er mem by simp
  show "er_evaluation_id er = Some i" "hv_id (er_evaluation er) = i" "er_evaluation er \<in> set (ed_evaluations d)"
    "hv_status (er_evaluation er) = ''completed'' \<Longrightarrow> totals_ok (er_sources er) (er_evaluation er)"
    using mem ok by (simp_all add: er to_evaluation_response_def evaluation_ok_def)
  show "source_ok (ed_replays d) s" if "s \<in> set (er_sources er)" for s
    using assms(1) that by (auto simp: er to_evaluation_response_def own_sources_def evaluations_ok_def sources_ok_def)
qed

text \<open>Evaluations between the other uses of the log and of the suites.\<close>

inductive evaluation_step :: "suite_services \<Rightarrow> evaluation_db \<Rightarrow> evaluation_db \<Rightarrow> bool" for sv where
  replays: "replay_step sv (ed_replays d) r \<Longrightarrow> evaluation_step sv d (d\<lparr>ed_replays := r\<rparr>)"
| evaluate: "evaluation_step sv d (fst (evaluate_search_harness sv request overrides d))"

definition empty_evaluations :: "search_source \<Rightarrow> time \<Rightarrow> evaluation_db" where
  "empty_evaluations so t = \<lparr>ed_replays = empty_replays so t, ed_evaluations = [], ed_sources = []\<rparr>"

lemma evaluation_step_ok: "evaluation_step sv d d' \<Longrightarrow> evaluations_ok d \<Longrightarrow> evaluations_ok d'"
proof (induction rule: evaluation_step.induct)
  case (replays d r)
  then have "replays_ok (ed_replays d)" by (simp add: evaluations_ok_def sources_ok_def)
  then show ?case
    using evaluations_ok_grow [OF replays(2) replay_step_runs [OF replays(1)] replay_step_ok [OF replays(1)]] by simp
next
  case (evaluate d request overrides)
  then show ?case using evaluate_ok(1) by (metis prod.collapse)
qed

lemma empty_evaluations_ok: "evaluations_ok (empty_evaluations so t)"
  using replayed_ok [OF empty_replayed] by (simp add: empty_evaluations_def evaluations_ok_def sources_ok_def)

end
