(* ===== verification/Release_Gate.thy ===== *)
theory Release_Gate
  imports Harness_Evaluation
begin

text \<open>
  The release gate of a search harness: \<open>app/services/search_release_gate_core.py\<close>. An evaluation passes
  when it completed, when no source exceeds the thresholds, and when enough queries were compared; the
  outcome is recorded as a release.

  The hash of the release package is an argument. The governance event that is recorded with a release
  and the listings are left out.
\<close>

section \<open>Thresholds, reasons and outcomes\<close>

record thresholds =
  th_max_total_regressed_count :: nat
  th_max_mrr_drop :: rat
  th_max_zero_result_count_increase :: nat
  th_max_foreign_top_result_count_increase :: nat
  th_min_total_shared_query_count :: nat

text \<open>Six decimals, as \<open>:.6f\<close> prints a number that is not negative: ties go to the even digit.\<close>

definition round_half_even :: "rat \<Rightarrow> nat" where
  "round_half_even x =
     (let f = nat \<lfloor>x\<rfloor>; r = x - of_nat f in
      if r < 1 / 2 \<or> r = 1 / 2 \<and> even f then f else Suc f)"

definition show_fixed6 :: "rat \<Rightarrow> string" where
  "show_fixed6 x =
     (let n = round_half_even (x * 1000000); frac = show_nat (n mod 1000000) in
      show_nat (n div 1000000) @ ''.'' @ replicate (6 - length frac) (CHR ''0'') @ frac)"

datatype gate_reason =
  Evaluation_Is "uuid option" string
| Run_Missing string string
| Regressed string nat nat
| Mrr_Dropped string rat rat
| Zero_Results_Rose string nat nat
| Foreign_Tops_Rose string nat nat
| Too_Few_Shared nat nat
| Gate_Error string

fun reason_text :: "gate_reason \<Rightarrow> string" where
  "reason_text (Evaluation_Is i status) =
     ''search harness evaluation '' @ (case i of None \<Rightarrow> ''unknown'' | Some k \<Rightarrow> show_nat k) @ '' is '' @ status @ ''.''"
| "reason_text (Run_Missing source which) = source @ '': '' @ which @ '' replay run is missing.''"
| "reason_text (Regressed source n m) =
     source @ '': regressed_count '' @ show_nat n @ '' exceeds '' @ show_nat m @ ''.''"
| "reason_text (Mrr_Dropped source x m) =
     source @ '': mrr_drop '' @ show_fixed6 x @ '' exceeds '' @ show_fixed6 m @ ''.''"
| "reason_text (Zero_Results_Rose source n m) =
     source @ '': zero_result_count_increase '' @ show_nat n @ '' exceeds '' @ show_nat m @ ''.''"
| "reason_text (Foreign_Tops_Rose source n m) =
     source @ '': foreign_top_result_count_increase '' @ show_nat n @ '' exceeds '' @ show_nat m @ ''.''"
| "reason_text (Too_Few_Shared n m) =
     ''total_shared_query_count '' @ show_nat n @ '' is below '' @ show_nat m @ ''.''"
| "reason_text (Gate_Error m) = m"

record source_change =
  sg_source_type :: string
  sg_baseline_replay_run_id :: uuid
  sg_candidate_replay_run_id :: uuid
  sg_shared_query_count :: nat
  sg_regressed_count :: nat
  sg_baseline_mrr :: rat
  sg_candidate_mrr :: rat
  sg_mrr_drop :: rat
  sg_baseline_zero_result_count :: nat
  sg_candidate_zero_result_count :: nat
  sg_zero_result_count_increase :: nat
  sg_foreign_top_result_count_increase :: nat

record gate_metrics =
  gm_source_count :: nat
  gm_total_shared_query_count :: nat
  gm_total_improved_count :: nat
  gm_total_regressed_count :: nat
  gm_total_unchanged_count :: nat
  gm_max_observed_mrr_drop :: rat
  gm_max_observed_zero_result_count_increase :: nat
  gm_max_observed_foreign_top_result_count_increase :: nat

text \<open>\<open>_error_detail\<close>: the status code, the code and the message of an HTTP error.\<close>

type_synonym gate_error_detail = "nat \<times> string \<times> string"

record gate_outcome =
  go_outcome :: string
  go_metrics :: gate_metrics
  go_reasons :: "gate_reason list"
  go_per_source :: "(string \<times> source_change) list"
  go_thresholds :: thresholds
  go_error :: "gate_error_detail option"

section \<open>The gate\<close>

definition run_not_completed :: "uuid \<Rightarrow> string \<Rightarrow> exn" where
  "run_not_completed i label = Http_Error 409 ''search_replay_run_not_completed''
     (label @ '' replay run '' @ show_nat i @ '' is not completed.'')"

definition load_completed_replay_run :: "uuid \<Rightarrow> string \<Rightarrow> replay_db \<Rightarrow> exn + replay_run option" where
  "load_completed_replay_run i label d =
     (case find_row rn_id i (qd_runs d) of
        None \<Rightarrow> Inr None
      | Some r \<Rightarrow> if rn_status r \<noteq> ''completed'' then Inl (run_not_completed i label) else Inr (Some r))"

definition change_of :: "evaluation_source \<Rightarrow> replay_run \<Rightarrow> replay_run \<Rightarrow> source_change" where
  "change_of s b c = \<lparr>sg_source_type = hs_source_type s, sg_baseline_replay_run_id = rn_id b,
     sg_candidate_replay_run_id = rn_id c, sg_shared_query_count = hs_shared_query_count s,
     sg_regressed_count = hs_regressed_count s, sg_baseline_mrr = run_mrr b, sg_candidate_mrr = run_mrr c,
     sg_mrr_drop = max 0 (run_mrr b - run_mrr c),
     sg_baseline_zero_result_count = rn_zero_result_count b,
     sg_candidate_zero_result_count = rn_zero_result_count c,
     sg_zero_result_count_increase = rn_zero_result_count c - rn_zero_result_count b,
     sg_foreign_top_result_count_increase = run_foreign_top c - run_foreign_top b\<rparr>"

definition change_reasons :: "thresholds \<Rightarrow> source_change \<Rightarrow> gate_reason list" where
  "change_reasons th g =
     (if sg_regressed_count g > th_max_total_regressed_count th
      then [Regressed (sg_source_type g) (sg_regressed_count g) (th_max_total_regressed_count th)] else [])
     @ (if sg_mrr_drop g > th_max_mrr_drop th
        then [Mrr_Dropped (sg_source_type g) (sg_mrr_drop g) (th_max_mrr_drop th)] else [])
     @ (if sg_zero_result_count_increase g > th_max_zero_result_count_increase th
        then [Zero_Results_Rose (sg_source_type g) (sg_zero_result_count_increase g)
          (th_max_zero_result_count_increase th)] else [])
     @ (if sg_foreign_top_result_count_increase g > th_max_foreign_top_result_count_increase th
        then [Foreign_Tops_Rose (sg_source_type g) (sg_foreign_top_result_count_increase g)
          (th_max_foreign_top_result_count_increase th)] else [])"

text \<open>One source: the reasons it gives, and what changed when both runs are there.\<close>

definition gate_source ::
  "thresholds \<Rightarrow> replay_db \<Rightarrow> evaluation_source \<Rightarrow> exn + gate_reason list \<times> source_change option" where
  "gate_source th d s =
     (case load_completed_replay_run (hs_baseline_replay_run_id s) (hs_source_type s @ '' baseline'') d of
        Inl e \<Rightarrow> Inl e
      | Inr b \<Rightarrow>
          (case load_completed_replay_run (hs_candidate_replay_run_id s) (hs_source_type s @ '' candidate'') d of
             Inl e \<Rightarrow> Inl e
           | Inr c \<Rightarrow>
               (case (b, c) of
                  (None, _) \<Rightarrow> Inr ([Run_Missing (hs_source_type s) ''baseline''], None)
                | (Some _, None) \<Rightarrow> Inr ([Run_Missing (hs_source_type s) ''candidate''], None)
                | (Some b, Some c) \<Rightarrow>
                    (let g = change_of s b c in Inr (change_reasons th g, Some g)))))"

fun gate_sources ::
  "thresholds \<Rightarrow> replay_db \<Rightarrow> evaluation_source list \<Rightarrow> exn + gate_reason list \<times> source_change list" where
  "gate_sources th d [] = Inr ([], [])"
| "gate_sources th d (s # ss) =
     (case gate_source th d s of
        Inl e \<Rightarrow> Inl e
      | Inr (reasons, g) \<Rightarrow>
          (case gate_sources th d ss of
             Inl e \<Rightarrow> Inl e
           | Inr (more_reasons, gs) \<Rightarrow>
               Inr (reasons @ more_reasons, (case g of None \<Rightarrow> gs | Some x \<Rightarrow> x # gs))))"

definition metrics_of :: "evaluation_response \<Rightarrow> source_change list \<Rightarrow> gate_metrics" where
  "metrics_of er gs = (let v = er_evaluation er in \<lparr>gm_source_count = length (er_sources er),
     gm_total_shared_query_count = hv_total_shared_query_count v,
     gm_total_improved_count = hv_total_improved_count v,
     gm_total_regressed_count = hv_total_regressed_count v,
     gm_total_unchanged_count = hv_total_unchanged_count v,
     gm_max_observed_mrr_drop = fold max (map sg_mrr_drop gs) 0,
     gm_max_observed_zero_result_count_increase = fold max (map sg_zero_result_count_increase gs) 0,
     gm_max_observed_foreign_top_result_count_increase =
       fold max (map sg_foreign_top_result_count_increase gs) 0\<rparr>)"

definition evaluate_search_harness_release_gate ::
  "replay_db \<Rightarrow> evaluation_response \<Rightarrow> thresholds \<Rightarrow> exn + gate_outcome" where
  "evaluate_search_harness_release_gate d er th =
     (let v = er_evaluation er in
      case gate_sources th d (er_sources er) of
        Inl e \<Rightarrow> Inl e
      | Inr (source_reasons, gs) \<Rightarrow>
          (let reasons =
             (if hv_status v \<noteq> ''completed'' then [Evaluation_Is (er_evaluation_id er) (hv_status v)] else [])
             @ source_reasons
             @ (if hv_total_shared_query_count v < th_min_total_shared_query_count th
                then [Too_Few_Shared (hv_total_shared_query_count v) (th_min_total_shared_query_count th)] else []) in
           Inr \<lparr>go_outcome = (if reasons = [] then ''passed'' else ''failed''), go_metrics = metrics_of er gs,
             go_reasons = reasons, go_per_source = dict_merge [] (map (\<lambda>g. (sg_source_type g, g)) gs),
             go_thresholds = th, go_error = None\<rparr>))"

text \<open>An HTTP error becomes an outcome; its message is the reason.\<close>

definition error_release_gate_outcome :: "evaluation_response \<Rightarrow> thresholds \<Rightarrow> exn \<Rightarrow> gate_outcome" where
  "error_release_gate_outcome er th e =
     \<lparr>go_outcome = ''error'', go_metrics = metrics_of er [], go_reasons = [Gate_Error (exn_message e)],
      go_per_source = [], go_thresholds = th,
      go_error = Some (case e of Http_Error status code m \<Rightarrow> (status, code, m)
        | Py_Error c v m \<Rightarrow> (0, ''search_harness_release_error'', m))\<rparr>"

definition gate_outcome_of :: "replay_db \<Rightarrow> evaluation_response \<Rightarrow> thresholds \<Rightarrow> exn + gate_outcome" where
  "gate_outcome_of d er th =
     (case evaluate_search_harness_release_gate d er th of
        Inr g \<Rightarrow> Inr g
      | Inl (Http_Error status code m) \<Rightarrow> Inr (error_release_gate_outcome er th (Http_Error status code m))
      | Inl e \<Rightarrow> Inl e)"

section \<open>Releases\<close>

record harness_release =
  hr_id :: uuid
  hr_evaluation_id :: uuid
  hr_outcome :: string
  hr_baseline_harness_name :: string
  hr_candidate_harness_name :: string
  hr_limit :: nat
  hr_source_types :: "string list"
  hr_thresholds :: thresholds
  hr_metrics :: gate_metrics
  hr_reasons :: "string list"
  hr_per_source :: "(string \<times> source_change) list"
  hr_error :: "gate_error_detail option"
  hr_evaluation_snapshot :: evaluation_response
  hr_release_package_sha256 :: string
  hr_requested_by :: "string option"
  hr_review_note :: "string option"
  hr_created_at :: time

record release_db =
  ld_evaluations :: evaluation_db
  ld_releases :: "harness_release list"

definition evaluation_missing_id :: exn where
  "evaluation_missing_id = Http_Error 400 ''search_harness_evaluation_missing_id''
     ''Cannot create a release gate for an evaluation without a durable evaluation_id.''"

definition release_row ::
  "(evaluation_response \<Rightarrow> gate_outcome \<Rightarrow> string) \<Rightarrow> uuid \<Rightarrow> time \<Rightarrow> uuid \<Rightarrow> evaluation_response \<Rightarrow> gate_outcome \<Rightarrow>
   string option \<Rightarrow> string option \<Rightarrow> harness_release" where
  "release_row sha i now evaluation er g requested_by note = (let v = er_evaluation er in \<lparr>
     hr_id = i, hr_evaluation_id = evaluation, hr_outcome = go_outcome g,
     hr_baseline_harness_name = hv_baseline_harness_name v,
     hr_candidate_harness_name = hv_candidate_harness_name v, hr_limit = hv_limit v,
     hr_source_types = hv_source_types v, hr_thresholds = go_thresholds g, hr_metrics = go_metrics g,
     hr_reasons = map reason_text (go_reasons g), hr_per_source = go_per_source g, hr_error = go_error g,
     hr_evaluation_snapshot = er, hr_release_package_sha256 = sha er g, hr_requested_by = requested_by,
     hr_review_note = note, hr_created_at = now\<rparr>)"

definition record_search_harness_release_gate ::
  "(evaluation_response \<Rightarrow> gate_outcome \<Rightarrow> string) \<Rightarrow> evaluation_response \<Rightarrow> thresholds \<Rightarrow> string option \<Rightarrow>
   string option \<Rightarrow> release_db \<Rightarrow> release_db \<times> (exn + harness_release)" where
  "record_search_harness_release_gate sha er th requested_by note d =
     (case er_evaluation_id er of
        None \<Rightarrow> (d, Inl evaluation_missing_id)
      | Some evaluation \<Rightarrow>
          (let replays = ed_replays (ld_evaluations d) in
           case gate_outcome_of replays er th of
             Inl e \<Rightarrow> (d, Inl e)
           | Inr g \<Rightarrow>
               (let release = release_row sha (lg_fresh (qd_log replays)) (lg_clock (qd_log replays)) evaluation er g
                      requested_by note in
                (d\<lparr>ld_evaluations := (ld_evaluations d)\<lparr>ed_replays := fresh_replays replays\<rparr>,
                   ld_releases := ld_releases d @ [release]\<rparr>, Inr release))))"

definition create_search_harness_release_gate ::
  "(evaluation_response \<Rightarrow> gate_outcome \<Rightarrow> string) \<Rightarrow> uuid \<Rightarrow> thresholds \<Rightarrow> string option \<Rightarrow> string option \<Rightarrow>
   release_db \<Rightarrow> release_db \<times> (exn + harness_release)" where
  "create_search_harness_release_gate sha evaluation th requested_by note d =
     (case get_search_harness_evaluation_detail evaluation (ld_evaluations d) of
        Inl e \<Rightarrow> (d, Inl e)
      | Inr er \<Rightarrow> record_search_harness_release_gate sha er th requested_by note d)"

definition release_not_found :: exn where
  "release_not_found = Http_Error 404 ''search_harness_release_not_found'' ''Search harness release gate not found.''"

definition get_search_harness_release_detail :: "uuid \<Rightarrow> release_db \<Rightarrow> exn + harness_release" where
  "get_search_harness_release_detail i d =
     (case find_row hr_id i (ld_releases d) of None \<Rightarrow> Inl release_not_found | Some r \<Rightarrow> Inr r)"

section \<open>What the gate decides\<close>

text \<open>The thresholds in terms of an evaluation.\<close>

definition source_meets :: "thresholds \<Rightarrow> evaluation_source \<Rightarrow> bool" where
  "source_meets th s \<longleftrightarrow> hs_regressed_count s \<le> th_max_total_regressed_count th
     \<and> hs_baseline_mrr s \<le> hs_candidate_mrr s + th_max_mrr_drop th
     \<and> hs_candidate_zero_result_count s \<le> hs_baseline_zero_result_count s + th_max_zero_result_count_increase th
     \<and> hs_candidate_foreign_top_result_count s
         \<le> hs_baseline_foreign_top_result_count s + th_max_foreign_top_result_count_increase th"

definition meets :: "thresholds \<Rightarrow> evaluation_response \<Rightarrow> bool" where
  "meets th er \<longleftrightarrow> hv_status (er_evaluation er) = ''completed''
     \<and> th_min_total_shared_query_count th \<le> hv_total_shared_query_count (er_evaluation er)
     \<and> (\<forall>s \<in> set (er_sources er). source_meets th s)"

definition source_completed :: "evaluation_source \<Rightarrow> bool" where
  "source_completed s \<longleftrightarrow> hs_baseline_status s = ''completed'' \<and> hs_candidate_status s = ''completed''"

lemma change_reasons_meets:
  assumes "agrees s b c" "0 \<le> th_max_mrr_drop th"
  shows "change_reasons th (change_of s b c) = [] \<longleftrightarrow> source_meets th s"
  using assms by (auto simp: change_reasons_def change_of_def source_meets_def agrees_def)

lemma gate_source_decides:
  assumes "source_ok d s" "0 \<le> th_max_mrr_drop th"
  shows "if source_completed s then \<exists>reasons g. gate_source th d s = Inr (reasons, g) \<and> (reasons = [] \<longleftrightarrow> source_meets th s)
    else \<exists>i label. gate_source th d s = Inl (run_not_completed i label)"
proof -
  obtain b c where found: "find_row rn_id (hs_baseline_replay_run_id s) (qd_runs d) = Some b"
    "find_row rn_id (hs_candidate_replay_run_id s) (qd_runs d) = Some c" and a: "agrees s b c"
    using assms(1) unfolding source_ok_def by blast
  then show ?thesis
    using change_reasons_meets [OF a assms(2)]
    by (auto simp: gate_source_def load_completed_replay_run_def source_completed_def agrees_def Let_def)
qed

lemma gate_sources_decide:
  assumes "\<forall>s \<in> set ss. source_ok d s" "0 \<le> th_max_mrr_drop th"
  shows "if \<forall>s \<in> set ss. source_completed s
    then \<exists>reasons gs. gate_sources th d ss = Inr (reasons, gs) \<and> (reasons = [] \<longleftrightarrow> (\<forall>s \<in> set ss. source_meets th s))
    else \<exists>i label. gate_sources th d ss = Inl (run_not_completed i label)"
  using assms(1)
proof (induction ss)
  case (Cons s ss)
  have "source_ok d s" using Cons.prems by simp
  from gate_source_decides [OF this assms(2)] show ?case
    using Cons by (auto split: if_splits) blast+
qed simp

lemma gate_decides:
  assumes "evaluations_ok d" "get_search_harness_evaluation_detail i d = Inr er" "0 \<le> th_max_mrr_drop th"
  obtains g where "gate_outcome_of (ed_replays d) er th = Inr g" "go_outcome g = ''passed'' \<longleftrightarrow> meets th er"
    "go_thresholds g = th"
proof -
  have sources: "\<forall>s \<in> set (er_sources er). source_ok (ed_replays d) s"
    using detail_of_evaluation(4) [OF assms(1,2)] by blast
  have finished: "\<forall>s \<in> set (er_sources er). source_completed s" if "hv_status (er_evaluation er) = ''completed''"
    using detail_of_evaluation(5) [OF assms(1,2) that] by (auto simp: totals_ok_def replay_failed_def source_completed_def)
  show thesis
  proof (cases "\<forall>s \<in> set (er_sources er). source_completed s")
    case True
    then obtain reasons gs where "gate_sources th (ed_replays d) (er_sources er) = Inr (reasons, gs)"
      "reasons = [] \<longleftrightarrow> (\<forall>s \<in> set (er_sources er). source_meets th s)"
      using gate_sources_decide [OF sources assms(3)] by auto
    then have "\<exists>g. gate_outcome_of (ed_replays d) er th = Inr g \<and> (go_outcome g = ''passed'' \<longleftrightarrow> meets th er)
        \<and> go_thresholds g = th"
      by (simp add: gate_outcome_of_def evaluate_search_harness_release_gate_def Let_def meets_def not_less)
    then show thesis using that by blast
  next
    case False
    then obtain k label where "gate_sources th (ed_replays d) (er_sources er) = Inl (run_not_completed k label)"
      using gate_sources_decide [OF sources assms(3)] unfolding if_not_P [OF False] by blast
    then have "\<exists>g. gate_outcome_of (ed_replays d) er th = Inr g \<and> (go_outcome g = ''passed'' \<longleftrightarrow> meets th er)
        \<and> go_thresholds g = th"
      using False finished
      by (auto simp: gate_outcome_of_def evaluate_search_harness_release_gate_def Let_def meets_def
          run_not_completed_def error_release_gate_outcome_def)
    then show thesis using that by blast
  qed
qed

section \<open>Releases in use\<close>

text \<open>Gates are created for stored evaluations, with a drop of the mean reciprocal rank that is not negative.\<close>

inductive release_step :: "suite_services \<Rightarrow> (evaluation_response \<Rightarrow> gate_outcome \<Rightarrow> string) \<Rightarrow> release_db \<Rightarrow> release_db \<Rightarrow> bool"
  for sv sha where
  evaluations: "evaluation_step sv (ld_evaluations d) e \<Longrightarrow> release_step sv sha d (d\<lparr>ld_evaluations := e\<rparr>)"
| gate: "0 \<le> th_max_mrr_drop th \<Longrightarrow>
    release_step sv sha d (fst (create_search_harness_release_gate sha i th requested_by note d))"

definition empty_releases :: "search_source \<Rightarrow> time \<Rightarrow> release_db" where
  "empty_releases so t = \<lparr>ld_evaluations = empty_evaluations so t, ld_releases = []\<rparr>"

definition releases_reached :: "suite_services \<Rightarrow> (evaluation_response \<Rightarrow> gate_outcome \<Rightarrow> string) \<Rightarrow> release_db \<Rightarrow> bool" where
  "releases_reached sv sha d \<longleftrightarrow> (\<exists>so t. (release_step sv sha)\<^sup>*\<^sup>* (empty_releases so t) d)"

definition release_ok :: "harness_release \<Rightarrow> bool" where
  "release_ok r \<longleftrightarrow> (hr_outcome r = ''passed'' \<longleftrightarrow> meets (hr_thresholds r) (hr_evaluation_snapshot r))
     \<and> hv_id (er_evaluation (hr_evaluation_snapshot r)) = hr_evaluation_id r
     \<and> (\<forall>s \<in> set (er_sources (hr_evaluation_snapshot r)). hs_acceptance_checks s = checks_of s)"

definition releases_ok :: "release_db \<Rightarrow> bool" where
  "releases_ok d \<longleftrightarrow> evaluations_ok (ld_evaluations d) \<and> (\<forall>r \<in> set (ld_releases d). release_ok r)"

lemma evaluations_ok_fresh:
  assumes "evaluations_ok d"
  shows "evaluations_ok (d\<lparr>ed_replays := fresh_replays (ed_replays d)\<rparr>)"
  using evaluations_ok_grow [OF assms runs_grow_fresh] assms by (simp add: evaluations_ok_def sources_ok_def)

lemma gate_step_ok:
  assumes "releases_ok d" "0 \<le> th_max_mrr_drop th"
  shows "releases_ok (fst (create_search_harness_release_gate sha i th requested_by note d))"
proof (cases "get_search_harness_evaluation_detail i (ld_evaluations d)")
  case (Inr er)
  have ok: "evaluations_ok (ld_evaluations d)" using assms(1) by (simp add: releases_ok_def)
  note detail = detail_of_evaluation [OF ok Inr]
  obtain g where g: "gate_outcome_of (ed_replays (ld_evaluations d)) er th = Inr g"
    "go_outcome g = ''passed'' \<longleftrightarrow> meets th er" "go_thresholds g = th"
    by (rule gate_decides [OF ok Inr assms(2)])
  have "\<forall>s \<in> set (er_sources er). hs_acceptance_checks s = checks_of s"
    using detail(4) by (simp add: source_ok_def)
  then have "release_ok (release_row sha k now i er g requested_by note)" for k now
    using g(2,3) detail(2) by (simp add: release_ok_def release_row_def Let_def)
  then show ?thesis
    using assms(1) evaluations_ok_fresh [OF ok] detail(1) g(1)
    by (auto simp: create_search_harness_release_gate_def Inr record_search_harness_release_gate_def Let_def releases_ok_def)
qed (use assms(1) in \<open>simp add: create_search_harness_release_gate_def\<close>)

lemma released_ok:
  assumes "releases_reached sv sha d"
  shows "releases_ok d"
proof -
  obtain so t where "(release_step sv sha)\<^sup>*\<^sup>* (empty_releases so t) d" using assms by (auto simp: releases_reached_def)
  moreover have "releases_ok (empty_releases so t)"
    using empty_evaluations_ok by (simp add: empty_releases_def releases_ok_def)
  moreover have "releases_ok d'" if "release_step sv sha d d'" "releases_ok d" for d d'
    using that
  proof (induction rule: release_step.induct)
    case (evaluations d e)
    then show ?case using evaluation_step_ok by (auto simp: releases_ok_def)
  qed (rule gate_step_ok)
  ultimately show ?thesis by (induction rule: rtranclp_induct) auto
qed

section \<open>Properties\<close>

text \<open>The default harness is evaluated against itself on the small index, and the gate that allows nothing decides.\<close>

definition example_evaluation_request :: evaluation_request where
  "example_evaluation_request = \<lparr>eq_candidate_harness_name = DEFAULT_SEARCH_HARNESS_NAME, eq_baseline_harness_name = DEFAULT_SEARCH_HARNESS_NAME,
     eq_source_types = [''evaluation_queries''], eq_limit = 25\<rparr>"

definition strictest :: thresholds where
  "strictest = \<lparr>th_max_total_regressed_count = 0, th_max_mrr_drop = 0, th_max_zero_result_count_increase = 0,
     th_max_foreign_top_result_count_increase = 0, th_min_total_shared_query_count = 1\<rparr>"

definition example_evaluated :: release_db where
  "example_evaluated = (empty_releases example_source 0)\<lparr>ld_evaluations :=
     fst (evaluate_search_harness example_suite example_evaluation_request [] (empty_evaluations example_source 0))\<rparr>"

definition example_released :: release_db where
  "example_released = fst (create_search_harness_release_gate (\<lambda>er g. ''sha'') 1 strictest None None example_evaluated)"

lemma example_gate:
  "(case evaluate_search_harness example_suite example_evaluation_request [] (empty_evaluations example_source 0) of (d, res) \<Rightarrow>
      (map_sum (\<lambda>e. ()) (\<lambda>er. length (er_sources er)) res, map (\<lambda>r. (hr_outcome r, hr_thresholds r)) (ld_releases
        (fst (create_search_harness_release_gate (\<lambda>er g. ''sha'') 1 strictest None None
          ((empty_releases example_source 0)\<lparr>ld_evaluations := d\<rparr>))))))
    = (Inr 1, [(''passed'', strictest)])"
  by code_simp

lemma example_evaluates:
  obtains d er where "evaluate_search_harness example_suite example_evaluation_request [] (empty_evaluations example_source 0) = (d, Inr er)"
    "length (er_sources er) = 1"
  using example_gate
  by (cases "evaluate_search_harness example_suite example_evaluation_request [] (empty_evaluations example_source 0)";
      cases "snd (evaluate_search_harness example_suite example_evaluation_request [] (empty_evaluations example_source 0))") auto

lemma example_released_outcome: "map (\<lambda>r. (hr_outcome r, hr_thresholds r)) (ld_releases example_released) = [(''passed'', strictest)]"
  using example_gate
  by (cases "evaluate_search_harness example_suite example_evaluation_request [] (empty_evaluations example_source 0)")
    (simp add: example_released_def example_evaluated_def)

text \<open>
  C21: a release of a search harness passes exactly when its evaluation meets its thresholds. Whatever
  searches, suites, evaluations and gates there were, a stored release has the outcome \<open>passed\<close> if and
  only if the evaluation it was made from completed, compared enough queries, and on no source has more
  regressed queries, a larger drop of the mean reciprocal rank, or more new queries without results or
  with a foreign first result than the thresholds allow. Where the thresholds allow nothing, this says
  that every acceptance check that the evaluation recorded holds.
\<close>

theorem passed_releases_meet_thresholds:
  assumes "releases_reached sv sha d" "r \<in> set (ld_releases d)"
  defines "er \<equiv> hr_evaluation_snapshot r" and "th \<equiv> hr_thresholds r"
  shows "(hr_outcome r = ''passed'') = (hv_status (er_evaluation er) = ''completed''
      \<and> th_min_total_shared_query_count th \<le> hv_total_shared_query_count (er_evaluation er)
      \<and> (\<forall>s \<in> set (er_sources er). hs_regressed_count s \<le> th_max_total_regressed_count th
          \<and> hs_baseline_mrr s \<le> hs_candidate_mrr s + th_max_mrr_drop th
          \<and> hs_candidate_zero_result_count s
              \<le> hs_baseline_zero_result_count s + th_max_zero_result_count_increase th
          \<and> hs_candidate_foreign_top_result_count s
              \<le> hs_baseline_foreign_top_result_count s + th_max_foreign_top_result_count_increase th))
    \<and> (th = \<lparr>th_max_total_regressed_count = 0, th_max_mrr_drop = 0, th_max_zero_result_count_increase = 0,
          th_max_foreign_top_result_count_increase = 0, th_min_total_shared_query_count = 1\<rparr> \<longrightarrow>
        (hr_outcome r = ''passed'') = (hv_status (er_evaluation er) = ''completed''
          \<and> 1 \<le> hv_total_shared_query_count (er_evaluation er)
          \<and> (\<forall>s \<in> set (er_sources er). ac_no_regressions (hs_acceptance_checks s)
              \<and> ac_mrr_not_lower (hs_acceptance_checks s)
              \<and> ac_foreign_top_result_count_not_higher (hs_acceptance_checks s)
              \<and> ac_zero_result_count_not_higher (hs_acceptance_checks s))))"
proof -
  have "release_ok r" using released_ok [OF assms(1)] assms(2) by (simp add: releases_ok_def)
  then have outcome: "(hr_outcome r = ''passed'') = meets th er" and checks: "\<forall>s \<in> set (er_sources er). hs_acceptance_checks s = checks_of s"
    by (simp_all add: release_ok_def er_def th_def)
  have "(\<forall>s \<in> set (er_sources er). source_meets th s)
      = (\<forall>s \<in> set (er_sources er). ac_no_regressions (hs_acceptance_checks s) \<and> ac_mrr_not_lower (hs_acceptance_checks s)
        \<and> ac_foreign_top_result_count_not_higher (hs_acceptance_checks s) \<and> ac_zero_result_count_not_higher (hs_acceptance_checks s))"
    if "th = \<lparr>th_max_total_regressed_count = 0, th_max_mrr_drop = 0, th_max_zero_result_count_increase = 0,
      th_max_foreign_top_result_count_increase = 0, th_min_total_shared_query_count = 1\<rparr>"
    by (rule ball_cong [OF refl]) (auto simp: checks source_meets_def checks_of_def that)
  then show ?thesis
    unfolding outcome by (auto simp: meets_def source_meets_def)
qed

theorem passed_releases_meet_thresholds_witness:
  "\<exists>r. ld_releases example_released = [r] \<and> hr_outcome r = ''passed''
    \<and> hv_status (er_evaluation (hr_evaluation_snapshot r)) = ''completed''
    \<and> 1 \<le> hv_total_shared_query_count (er_evaluation (hr_evaluation_snapshot r))
    \<and> list_all (ac_no_regressions \<circ> hs_acceptance_checks) (er_sources (hr_evaluation_snapshot r))"
proof -
  have "release_step example_suite (\<lambda>er g. ''sha'') (empty_releases example_source 0) example_evaluated"
    unfolding example_evaluated_def
    by (rule release_step.evaluations) (simp add: empty_releases_def evaluation_step.evaluate)
  moreover have "release_step example_suite (\<lambda>er g. ''sha'') example_evaluated example_released"
    unfolding example_released_def by (rule release_step.gate) (simp add: strictest_def)
  ultimately have reached: "releases_reached example_suite (\<lambda>er g. ''sha'') example_released"
    unfolding releases_reached_def by (meson rtranclp.rtrancl_into_rtrancl rtranclp.rtrancl_refl)
  obtain r where r: "ld_releases example_released = [r]" "hr_outcome r = ''passed''" "hr_thresholds r = strictest"
    using example_released_outcome by auto
  from passed_releases_meet_thresholds [OF reached, of r] r show ?thesis by (auto simp: strictest_def list_all_iff)
qed

end
