(* ===== verification/Harness_Parity.thy ===== *)
theory Harness_Parity
  imports Release_Gate
begin

text \<open>
  Replays are repeatable: while the index stands still, the same suite gives the same verdicts, so a
  harness that is evaluated against itself never regresses.
\<close>

section \<open>The same search again\<close>

lemma execute_other_id:
  "execute_search (log_services sv i) cx w so provider run reranker overrides request
    = map_sum id (\<lambda>ex. ex\<lparr>se_request_id := Some i\<rparr>)
        (execute_search (log_services sv j) cx w so provider run reranker overrides request)"
proof -
  have calls: "finish_search (log_services sv i) cf rk strategy bf st
      = map_sum id (\<lambda>ex. ex\<lparr>se_request_id := Some i\<rparr>) (finish_search (log_services sv j) cf rk strategy bf st)"
    for cf rk strategy bf st
    by (cases "sv_persist sv (snd (prepare_results cf rk strategy bf st))")
      (auto simp: finish_search_def log_services_def case_prod_beta)
  have contexts: "context_of (log_services sv i) so1 provider run harness request
      = context_of (log_services sv j) so1 provider run harness request" for so1 harness
    by (simp add: context_of_def vectors_of_def split: option.split)
  show ?thesis
  proof (cases "get_search_harness cx (sr_harness_name request) overrides w")
    case (Inr harness)
    note h = this
    show ?thesis
    proof (cases "sv_backfill sv so")
      case (Inr b)
      obtain so1 bf where b: "sv_backfill sv so = Inr (so1, bf)" using Inr by (cases b) simp
      have run: "execute_search (log_services sv k) cx w so provider run reranker overrides request
        = (case run_stages (context_of (log_services sv k) so1 provider run harness request)
               (xp_stages (plan_of harness request)) initial_search of
             Inl e \<Rightarrow> Inl e
           | Inr st \<Rightarrow> finish_search (log_services sv k) (context_of (log_services sv k) so1 provider run harness request)
               (case reranker of Some c \<Rightarrow> c | None \<Rightarrow> build_reranker harness) (xp_strategy (plan_of harness request)) bf st)" for k
        by (rule executes [OF h]) (simp add: b)
      show ?thesis
        unfolding run [of i] run [of j] calls contexts [of so1 harness]
        by (cases "run_stages (context_of (log_services sv j) so1 provider run harness request)
          (xp_stages (plan_of harness request)) initial_search") simp_all
    qed (simp add: execute_search_def h)
  qed (simp add: execute_search_def)
qed

definition index_settled :: "search_site \<Rightarrow> search_source \<Rightarrow> bool" where
  "index_settled st so \<longleftrightarrow> (\<exists>bf. sv_backfill (ste_services st) so = Inr (so, bf))"

lemma settled_source: "index_settled st so \<Longrightarrow> backfilled_source (ste_services st) so = so"
  by (auto simp: index_settled_def backfilled_source_def)

text \<open>A search without the identifier it was logged under.\<close>

definition unnumbered :: "search_execution \<Rightarrow> search_execution" where
  "unnumbered ex = ex\<lparr>se_request_id := None\<rparr>"

lemma unnumbered_fields:
  assumes "unnumbered x = unnumbered y"
  shows "se_results x = se_results y" "se_table_hit_count x = se_table_hit_count y" "se_log x = se_log y"
  using assms by (cases x; cases y; simp add: unnumbered_def)+

lemma logged_search_again:
  assumes "lg_source d2 = lg_source d1" "index_settled st (lg_source d1)"
    and "logged_search st origin run evaluation parent overrides request d1 = (l1, a1)"
    and "logged_search st origin run evaluation parent overrides request d2 = (l2, a2)"
  shows "lg_source l1 = lg_source d1" "lg_source l2 = lg_source d1" "map_sum id unnumbered a1 = map_sum id unnumbered a2"
proof -
  let ?ex = "\<lambda>d. execute_search (log_services (ste_services st) (lg_fresh d)) (ste_codecs st) (ste_world st) (lg_source d)
    None run None overrides request"
  have same: "?ex d2 = map_sum id (\<lambda>ex. ex\<lparr>se_request_id := Some (lg_fresh d2)\<rparr>) (?ex d1)"
    unfolding assms(1) by (rule execute_other_id)
  have so: "backfilled_source (log_services (ste_services st) i) (lg_source d1) = lg_source d1" for i
    using settled_source [OF assms(2)] by (simp add: backfilled_source_def)
  show "lg_source l1 = lg_source d1" "lg_source l2 = lg_source d1"
    using assms(1,3,4) so unfolding logged_search_def Let_def
    by (auto simp: persist_search_execution_def Let_def split: sum.splits)
  show "map_sum id unnumbered a1 = map_sum id unnumbered a2"
  proof (cases "?ex d1")
    case (Inl e)
    show ?thesis using assms(3,4) unfolding logged_search_def Let_def same Inl by (auto split: sum.splits)
  next
    case (Inr x)
    show ?thesis using assms(3,4) unfolding logged_search_def Let_def same Inr by (auto simp: unnumbered_def split: sum.splits)
  qed
qed

lemma logged_search_state:
  assumes "logged_search st origin run evaluation parent overrides request d = (l, a)"
  shows "search_log_ok d \<Longrightarrow> search_log_ok l" "log_grows d l" "log_grows d0 d \<Longrightarrow> log_grows d0 l"
  using logged_search_ok [of d st origin run evaluation parent overrides request]
    logged_search_grows [of d st origin run evaluation parent overrides request] assms by (simp_all add: log_grows_trans)

section \<open>The same differences\<close>

definition keys_and_ranks :: "request_detail \<Rightarrow> (result_ref \<times> nat) list" where
  "keys_and_ranks x = map (\<lambda>v. (search_result_key (lv_result v), lv_rank v)) (rd_results x)"

lemma diff_cong:
  assumes "keys_and_ranks a = keys_and_ranks a'" "keys_and_ranks b = keys_and_ranks b'"
  shows "build_search_replay_diff a b = build_search_replay_diff a' b'"
proof -
  have ranks: "ranks_of x = dict_merge [] (map (apsnd int) (keys_and_ranks x))" for x
    by (simp add: ranks_of_def keys_and_ranks_def comp_def)
  have top: "top_key x = (case keys_and_ranks x of [] \<Rightarrow> None | kr # _ \<Rightarrow> Some (fst kr))" for x
    by (simp add: top_key_def keys_and_ranks_def split: list.split)
  show ?thesis by (simp add: build_search_replay_diff_def ranks top assms)
qed

lemma detail_keys:
  assumes "detail_of r request ex detail"
  shows "keys_and_ranks detail = zip (map search_result_key (se_results ex)) [1..<Suc (length (se_results ex))]"
proof -
  have "map search_result_key (map (without_metadata \<circ> lv_result) (rd_results detail))
      = map search_result_key (map as_logged (se_results ex))" using assms by (simp add: detail_of_def)
  then have "map (search_result_key \<circ> lv_result) (rd_results detail) = map search_result_key (se_results ex)"
    by (simp add: comp_def)
  moreover have "map lv_rank (rd_results detail) = [1..<Suc (length (se_results ex))]"
    using assms by (simp add: detail_of_def)
  moreover have "keys_and_ranks detail
      = zip (map (search_result_key \<circ> lv_result) (rd_results detail)) (map lv_rank (rd_results detail))"
    by (simp add: keys_and_ranks_def zip_map_map zip_same_conv_map comp_def)
  ultimately show ?thesis by simp
qed

lemma diff_of_again:
  assumes ok: "search_log_ok d" "search_log_ok d1" "search_log_ok d2" and grow: "log_grows d d1" "log_grows d d2"
    and s1: "logged_search st origin run evaluation parent overrides request d1 = (l1, Inr x1)"
    and s2: "logged_search st origin run evaluation parent overrides request d2 = (l2, Inr x2)"
    and same: "unnumbered x1 = unnumbered x2"
    and known: "\<And>j. rpc_source_search_request_id c = Some j \<Longrightarrow> j \<in> request_ids d"
  shows "diff_of c x1 l1 = diff_of c x2 l2" "\<exists>diff. diff_of c x1 l1 = Inr diff"
proof -
  have id: "se_request_id x1 = Some (lg_fresh d1)" "se_request_id x2 = Some (lg_fresh d2)"
    by (rule logged_search_cases [OF s1], simp) (rule logged_search_cases [OF s2], simp)
  have l: "log_grows d1 l1" "log_grows d2 l2"
    using logged_search_state(2) [OF s1] logged_search_state(2) [OF s2] .
  obtain r1 where r1: "load_request_row (lg_fresh d1) l1 = Inr r1" "detail_of r1 request x1 (build_request_detail r1 l1)"
    using logged_detail [OF ok(2) s1 log_grows_refl] by blast
  obtain r2 where r2: "load_request_row (lg_fresh d2) l2 = Inr r2" "detail_of r2 request x2 (build_request_detail r2 l2)"
    using logged_detail [OF ok(3) s2 log_grows_refl] by blast
  have replay: "keys_and_ranks (build_request_detail r1 l1) = keys_and_ranks (build_request_detail r2 l2)"
    using detail_keys [OF r1(2)] detail_keys [OF r2(2)] unnumbered_fields(1) [OF same] by simp
  have "diff_of c x1 l1 = diff_of c x2 l2 \<and> (\<exists>diff. diff_of c x1 l1 = Inr diff)"
  proof (cases "rpc_source_search_request_id c")
    case None
    then show ?thesis using id r1(1) r2(1) by (simp add: diff_of_def get_search_request_detail_def)
  next
    case (Some j)
    have "find_row lr_id j (lg_requests d) \<noteq> None"
      using known [OF Some] by (auto simp: find_row_None request_ids_def)
    then obtain r where r: "load_request_row j d = Inr r" by (auto simp: load_request_row_def)
    note kept1 = detail_kept [OF ok(1) log_grows_trans [OF grow(1) l(1)] r]
    note kept2 = detail_kept [OF ok(1) log_grows_trans [OF grow(2) l(2)] r]
    have "keys_and_ranks (build_request_detail r l1) = keys_and_ranks (build_request_detail r l2)"
      by (simp add: keys_and_ranks_def kept1(2) kept2(2))
    from diff_cong [OF this replay] show ?thesis
      using Some id r1(1) r2(1) kept1(1) kept2(1)
      by (simp add: diff_of_def get_search_request_detail_def)
  qed
  then show "diff_of c x1 l1 = diff_of c x2 l2" "\<exists>diff. diff_of c x1 l1 = Inr diff" by blast+
qed

section \<open>The same rows\<close>

text \<open>A query row without identifiers and time.\<close>

definition anonymous :: "replay_query \<Rightarrow> replay_query" where
  "anonymous q = q\<lparr>pq_id := 0, pq_replay_run_id := 0, pq_replay_search_request_id := None, pq_created_at := 0\<rparr>"

lemma query_row_again:
  assumes "unnumbered x1 = unnumbered x2"
  shows "anonymous (query_row run1 cr1 c x1 diff passed details i1) = anonymous (query_row run2 cr2 c x2 diff passed details i2)"
    and "add_case c x1 diff passed details t = add_case c x2 diff passed details t"
    and "evaluate_case_passed c x1 = evaluate_case_passed c x2"
  using unnumbered_fields [OF assms]
  by (simp_all add: anonymous_def query_row_def add_case_def Let_def evaluate_case_passed_def claim_feedback_details_def
      feedback_case_passed_def gap_case_passed_def)

definition same_end :: "exn + suite_totals \<times> search_execution option \<Rightarrow> exn + suite_totals \<times> search_execution option \<Rightarrow> bool" where
  "same_end a b \<longleftrightarrow> map_sum id (apsnd (map_option unnumbered)) a = map_sum id (apsnd (map_option unnumbered)) b"

lemma run_cases_again:
  assumes "run_cases st harness overrides run1 cr1 cs t le1 d1 = (d1', res1)"
    and "run_cases st harness overrides run2 cr2 cs t le2 d2 = (d2', res2)"
    and "search_log_ok d" "search_log_ok (qd_log d1)" "search_log_ok (qd_log d2)" "log_grows d (qd_log d1)" "log_grows d (qd_log d2)"
    and "lg_source (qd_log d2) = lg_source (qd_log d1)" "index_settled st (lg_source (qd_log d1))"
    and "\<forall>c \<in> set cs. \<forall>j. rpc_source_search_request_id c = Some j \<longrightarrow> j \<in> request_ids d"
    and "map_option unnumbered le1 = map_option unnumbered le2"
  shows "same_end res1 res2 \<and> lg_source (qd_log d1') = lg_source (qd_log d1) \<and> lg_source (qd_log d2') = lg_source (qd_log d1)
    \<and> (\<exists>rows1 rows2. qd_queries d1' = qd_queries d1 @ rows1 \<and> qd_queries d2' = qd_queries d2 @ rows2
      \<and> map anonymous rows1 = map anonymous rows2
      \<and> (\<forall>q \<in> set rows1. pq_replay_run_id q = run1 \<and> pq_created_at q = cr1)
      \<and> (\<forall>q \<in> set rows2. pq_replay_run_id q = run2 \<and> pq_created_at q = cr2))"
  using assms
proof (induction cs arbitrary: t le1 le2 d1 d2)
  case Nil
  then show ?case by (auto simp: same_end_def)
next
  case (Cons c cs)
  show ?case
  proof (cases "case_request st harness c")
    case (Inl e)
    with Cons.prems show ?thesis by (auto simp: same_end_def)
  next
    case request: (Inr request)
    obtain l1 a1 l2 a2 where s: "logged_search st ''replay_suite'' None None (rpc_source_search_request_id c) overrides request (qd_log d1) = (l1, a1)"
      "logged_search st ''replay_suite'' None None (rpc_source_search_request_id c) overrides request (qd_log d2) = (l2, a2)"
      by fastforce
    note again = logged_search_again [OF Cons.prems(8,9) s]
    show ?thesis
    proof (cases a1)
      case (Inl e)
      then have "a2 = Inl e" using again(3) by (cases a2) auto
      with Inl show ?thesis using Cons.prems(1,2,8) request s again(1,2) by (auto simp: same_end_def)
    next
      case x1: (Inr x1)
      then obtain x2 where x2: "a2 = Inr x2" and same: "unnumbered x1 = unnumbered x2" using again(3) by (cases a2) auto
      have known: "\<And>j. rpc_source_search_request_id c = Some j \<Longrightarrow> j \<in> request_ids d" using Cons.prems(10) by simp
      note diffs = diff_of_again [OF Cons.prems(3-7) s [unfolded x1 x2] same known]
      obtain diff where diff: "diff_of c x1 l1 = Inr diff" "diff_of c x2 l2 = Inr diff" using diffs by auto
      obtain passed details where v: "evaluate_case_passed c x1 = (passed, details)" by fastforce
      note row = query_row_again [OF same]
      let ?r1 = "query_row run1 cr1 c x1 diff passed details (lg_fresh l1)"
      let ?r2 = "query_row run2 cr2 c x2 diff passed details (lg_fresh l2)"
      let ?d1 = "d1\<lparr>qd_log := l1\<lparr>lg_fresh := Suc (lg_fresh l1)\<rparr>, qd_queries := qd_queries d1 @ [?r1]\<rparr>"
      let ?d2 = "d2\<lparr>qd_log := l2\<lparr>lg_fresh := Suc (lg_fresh l2)\<rparr>, qd_queries := qd_queries d2 @ [?r2]\<rparr>"
      have next1: "run_cases st harness overrides run1 cr1 cs (add_case c x1 diff passed details t) (Some x1) ?d1 = (d1', res1)"
        using Cons.prems(1) request s(1) x1 diff(1) v by simp
      have next2: "run_cases st harness overrides run2 cr2 cs (add_case c x1 diff passed details t) (Some x2) ?d2 = (d2', res2)"
        using Cons.prems(2) request s(2) x2 diff(2) v row(2,3) by simp
      have l: "search_log_ok l1" "search_log_ok l2" "log_grows d l1" "log_grows d l2"
        using logged_search_state [OF s(1)] logged_search_state [OF s(2)] Cons.prems(4-7) by simp_all
      have "same_end res1 res2 \<and> lg_source (qd_log d1') = lg_source (qd_log ?d1) \<and> lg_source (qd_log d2') = lg_source (qd_log ?d1)
        \<and> (\<exists>rows1 rows2. qd_queries d1' = qd_queries ?d1 @ rows1 \<and> qd_queries d2' = qd_queries ?d2 @ rows2
          \<and> map anonymous rows1 = map anonymous rows2
          \<and> (\<forall>q \<in> set rows1. pq_replay_run_id q = run1 \<and> pq_created_at q = cr1)
          \<and> (\<forall>q \<in> set rows2. pq_replay_run_id q = run2 \<and> pq_created_at q = cr2))"
        by (rule Cons.IH [OF next1 next2 Cons.prems(3)])
          (use l again Cons.prems(8-10) same in \<open>simp_all\<close>)
      then obtain rows1 rows2 where "same_end res1 res2" "lg_source (qd_log d1') = lg_source (qd_log d1)"
        "lg_source (qd_log d2') = lg_source (qd_log d1)"
        "qd_queries d1' = qd_queries d1 @ ?r1 # rows1" "qd_queries d2' = qd_queries d2 @ ?r2 # rows2"
        "map anonymous rows1 = map anonymous rows2"
        "\<forall>q \<in> set rows1. pq_replay_run_id q = run1 \<and> pq_created_at q = cr1"
        "\<forall>q \<in> set rows2. pq_replay_run_id q = run2 \<and> pq_created_at q = cr2"
        using again(1) by auto
      moreover have "pq_replay_run_id ?r1 = run1 \<and> pq_created_at ?r1 = cr1 \<and> pq_replay_run_id ?r2 = run2 \<and> pq_created_at ?r2 = cr2"
        by (simp add: query_row_def)
      ultimately show ?thesis
        using row(1) by (intro conjI exI [of _ "?r1 # rows1"] exI [of _ "?r2 # rows2"]) auto
    qed
  qed
qed

section \<open>The same suite again\<close>

text \<open>The cases that come from outside the log name only logged searches.\<close>

definition cases_logged :: "suite_services \<Rightarrow> search_db \<Rightarrow> bool" where
  "cases_logged sv d \<longleftrightarrow> (\<forall>source limit cs. su_evaluation_cases sv source limit = Inr cs \<longrightarrow>
     (\<forall>c \<in> set cs. \<forall>j. rpc_source_search_request_id c = Some j \<longrightarrow> j \<in> request_ids d))"

lemma cases_logged_grow: "cases_logged sv d \<Longrightarrow> log_grows d d' \<Longrightarrow> cases_logged sv d'"
  unfolding cases_logged_def log_grows_def adds_from_def request_ids_def by fastforce

lemma first_of_each_subset: "set (first_of_each rs) \<subseteq> set rs"
  by (induction rs rule: first_of_each.induct) auto

lemma cases_known:
  assumes "build_replay_cases sv source limit d = Inr cs" "cases_logged sv d"
  shows "\<forall>c \<in> set cs. \<forall>j. rpc_source_search_request_id c = Some j \<longrightarrow> j \<in> request_ids d"
proof -
  have "\<forall>j. rpc_source_search_request_id c = Some j \<longrightarrow> j \<in> request_ids d"
    if c: "c \<in> set (live_search_gap_cases limit d)" for c
  proof -
    obtain r where "r \<in> set (first_of_each (sort_key (\<lambda>r. (- lr_created_at r, - int (lr_id r))) (filter (is_gap d) (lg_requests d))))" "c = gap_case r"
      using c by (auto simp: live_search_gap_cases_def dest: in_set_takeD)
    then show ?thesis using subsetD [OF first_of_each_subset] by (fastforce simp: gap_case_def request_ids_def)
  qed
  moreover have "\<forall>j. rpc_source_search_request_id c = Some j \<longrightarrow> j \<in> request_ids d"
    if c: "c \<in> set (feedback_cases limit d)" for c
  proof -
    obtain f where "feedback_case d f = Some c"
      using c by (auto simp: feedback_cases_def set_some_values dest!: in_set_takeD)
    then show ?thesis by (auto simp: feedback_case_def Let_def request_ids_def split: option.splits dest: find_row_Some)
  qed
  ultimately show ?thesis
    using assms by (auto simp: build_replay_cases_def cases_logged_def split: if_splits)
qed

lemma map_sort_key:
  assumes "\<And>x. g (h x) = f x"
  shows "map h (sort_key f xs) = sort_key g (map h xs)"
proof -
  have "map h (insort_key f x ys) = insort_key g (h x) (map h ys)" for x ys
    by (induction ys) (simp_all add: assms)
  then show ?thesis by (induction xs) simp_all
qed

lemma sort_same_created:
  assumes "\<forall>q \<in> set xs. pq_created_at q = c"
  shows "sort_key (\<lambda>q. (pq_created_at q, pq_query_text q)) xs = sort_key pq_query_text xs"
proof -
  have insert: "insort_key (\<lambda>q. (pq_created_at q, pq_query_text q)) x ys = insort_key pq_query_text x ys"
    if "pq_created_at x = c" "\<forall>q \<in> set ys. pq_created_at q = c" for x ys
    using that by (induction ys) (simp_all add: less_eq_prod_def)
  show ?thesis using assms
  proof (induction xs)
    case (Cons x xs)
    then show ?case using insert [of x "sort_key pq_query_text xs"] by simp
  qed simp
qed

lemma anonymous_results:
  assumes "map anonymous rows1 = map anonymous rows2"
    and "\<forall>q \<in> set rows1. pq_created_at q = c1" "\<forall>q \<in> set rows2. pq_created_at q = c2"
  shows "map anonymous (sort_key (\<lambda>q. (pq_created_at q, pq_query_text q)) rows1)
    = map anonymous (sort_key (\<lambda>q. (pq_created_at q, pq_query_text q)) rows2)"
  unfolding sort_same_created [OF assms(2)] sort_same_created [OF assms(3)]
  using assms(1) map_sort_key [of pq_query_text anonymous pq_query_text] by (simp add: anonymous_def)

definition same_verdict :: "replay_run \<Rightarrow> replay_run \<Rightarrow> bool" where
  "same_verdict b c \<longleftrightarrow> rn_status b = rn_status c \<and> rn_rank_metrics b = rn_rank_metrics c
     \<and> rn_zero_result_count b = rn_zero_result_count c"

lemma same_end_verdict:
  assumes "same_end res1 res2"
  shows "same_verdict
    (case res1 of Inl e \<Rightarrow> failed_replay e n1 (new_replay_run i source name n1)
      | Inr (t, ex) \<Rightarrow> completed_replay harness ex t n1 (new_replay_run i source name n1))
    (case res2 of Inl e \<Rightarrow> failed_replay e n2 (new_replay_run j source name n2)
      | Inr (t, ex) \<Rightarrow> completed_replay harness ex t n2 (new_replay_run j source name n2))"
proof (cases res1)
  case (Inl e)
  then show ?thesis using assms by (cases res2) (auto simp: same_end_def same_verdict_def failed_replay_def new_replay_run_def)
next
  case (Inr r1)
  then obtain r2 where r2: "res2 = Inr r2" using assms by (cases res2) (auto simp: same_end_def)
  then have "fst r1 = fst r2" using assms Inr by (cases r1; cases r2) (simp add: same_end_def)
  then show ?thesis
    by (cases r1; cases r2; cases "snd r1"; cases "snd r2") (auto simp: Inr r2 same_verdict_def completed_replay_def Let_def)
qed

lemma suite_again:
  assumes "run_search_replay_suite sv source limit name overrides d = (d1, Inr b)"
    and "run_search_replay_suite sv source limit name overrides d1 = (d2, Inr c)"
    and "replays_ok d" "index_settled (su_site sv) (lg_source (qd_log d))" "cases_logged sv (qd_log d)"
  shows "same_verdict b c" "lg_source (qd_log d2) = lg_source (qd_log d)"
    and "map anonymous (query_results (rn_id b) d2) = map anonymous (query_results (rn_id c) d2)"
proof -
  let ?st = "su_site sv" and ?i = "lg_fresh (qd_log d)" and ?j = "lg_fresh (qd_log d1)"
  let ?n1 = "lg_clock (qd_log d)" and ?n2 = "lg_clock (qd_log d1)"
  obtain harness x1 y1 res1 where h: "get_search_harness (ste_codecs ?st) name overrides (ste_world ?st) = Inr harness"
    and x1: "x1 = d\<lparr>qd_runs := qd_runs d @ [new_replay_run ?i source (sh_name harness) ?n1],
       qd_log := (qd_log d)\<lparr>lg_fresh := Suc ?i\<rparr>\<rparr>"
    and go1: "(case build_replay_cases sv source limit (qd_log x1) of Inl e \<Rightarrow> (x1, Inl e)
      | Inr cs \<Rightarrow> run_cases ?st name overrides ?i ?n1 cs no_totals None x1) = (y1, res1)"
    and b: "b = (case res1 of Inl e \<Rightarrow> failed_replay e ?n1 (new_replay_run ?i source (sh_name harness) ?n1)
      | Inr (t, ex) \<Rightarrow> completed_replay harness ex t ?n1 (new_replay_run ?i source (sh_name harness) ?n1))"
    and d1: "d1 = y1\<lparr>qd_runs := update_row rn_id ?i (\<lambda>_. b) (qd_runs y1)\<rparr>"
    by (rule suite_cases [OF assms(1)])
  obtain harness' x2 y2 res2 where h': "get_search_harness (ste_codecs ?st) name overrides (ste_world ?st) = Inr harness'"
    and x2: "x2 = d1\<lparr>qd_runs := qd_runs d1 @ [new_replay_run ?j source (sh_name harness') ?n2],
       qd_log := (qd_log d1)\<lparr>lg_fresh := Suc ?j\<rparr>\<rparr>"
    and go2: "(case build_replay_cases sv source limit (qd_log x2) of Inl e \<Rightarrow> (x2, Inl e)
      | Inr cs \<Rightarrow> run_cases ?st name overrides ?j ?n2 cs no_totals None x2) = (y2, res2)"
    and c: "c = (case res2 of Inl e \<Rightarrow> failed_replay e ?n2 (new_replay_run ?j source (sh_name harness') ?n2)
      | Inr (t, ex) \<Rightarrow> completed_replay harness' ex t ?n2 (new_replay_run ?j source (sh_name harness') ?n2))"
    and d2: "d2 = y2\<lparr>qd_runs := update_row rn_id ?j (\<lambda>_. c) (qd_runs y2)\<rparr>"
    by (rule suite_cases [OF assms(2)])
  have harness: "harness' = harness" using h h' by simp
  have ok1: "replays_ok d1" "rn_id b = ?i" "?i < ?j"
    using suite_effect [OF assms(1,3)] replays_ok_suite [OF assms(3), of sv source limit name overrides] assms(1)
    by (metis fst_conv)+
  have id2: "rn_id c = ?j" using suite_effect [OF assms(2) ok1(1)] by metis
  have logs: "search_log_ok (qd_log d)" "search_log_ok (qd_log x1)" "search_log_ok (qd_log x2)" "log_grows (qd_log d) (qd_log x1)"
    using assms(3) ok1(1) by (simp_all add: x1 x2 replays_ok_def)
  have asked: "unasked (qd_log d) (qd_log x1)" "unasked (qd_log d) (qd_log x2)"
    using unasked_suite [of d sv source limit name overrides] assms(1) by (simp_all add: x1 x2)
  then have grow2: "log_grows (qd_log d) (qd_log x2)" by (simp add: unasked_def)
  have build: "build_replay_cases sv source limit (qd_log x1) = build_replay_cases sv source limit (qd_log d)"
    "build_replay_cases sv source limit (qd_log x2) = build_replay_cases sv source limit (qd_log d)"
    using unasked_build [OF _ logs(1)] asked by blast+
  have "\<exists>rows1 rows2. same_end res1 res2 \<and> lg_source (qd_log y2) = lg_source (qd_log d)
      \<and> qd_queries y1 = qd_queries d @ rows1 \<and> qd_queries y2 = qd_queries d1 @ rows2
      \<and> map anonymous rows1 = map anonymous rows2
      \<and> (\<forall>q \<in> set rows1. pq_replay_run_id q = ?i \<and> pq_created_at q = ?n1)
      \<and> (\<forall>q \<in> set rows2. pq_replay_run_id q = ?j \<and> pq_created_at q = ?n2)"
  proof (cases "build_replay_cases sv source limit (qd_log d)")
    case (Inl e)
    then have "y1 = x1" "res1 = Inl e" "y2 = x2" "res2 = Inl e" using go1 go2 build by simp_all
    then show ?thesis by (simp add: same_end_def x1 x2 d1)
  next
    case (Inr cs)
    have run1: "run_cases ?st name overrides ?i ?n1 cs no_totals None x1 = (y1, res1)"
      and run2: "run_cases ?st name overrides ?j ?n2 cs no_totals None x2 = (y2, res2)" using go1 go2 build Inr by simp_all
    note known = cases_known [OF Inr assms(5)]
    have src1: "lg_source (qd_log x1) = lg_source (qd_log d)" by (simp add: x1)
    have "lg_source (qd_log y1) = lg_source (qd_log x1)"
      using run_cases_again [OF run1 run1 logs(1,2,2,4,4) refl _ known refl] assms(4) src1 by simp
    then have src2: "lg_source (qd_log x2) = lg_source (qd_log x1)" by (simp add: x2 d1)
    show ?thesis
      using run_cases_again [OF run1 run2 logs(1-4) grow2 src2 _ known refl] assms(4) src1 by (simp add: x1 x2)
  qed
  then obtain rows1 rows2 where r: "same_end res1 res2" "lg_source (qd_log y2) = lg_source (qd_log d)"
    "qd_queries y1 = qd_queries d @ rows1" "qd_queries y2 = qd_queries d1 @ rows2" "map anonymous rows1 = map anonymous rows2"
    "\<forall>q \<in> set rows1. pq_replay_run_id q = ?i \<and> pq_created_at q = ?n1"
    "\<forall>q \<in> set rows2. pq_replay_run_id q = ?j \<and> pq_created_at q = ?n2" by blast
  show "same_verdict b c" unfolding b c harness by (rule same_end_verdict [OF r(1)])
  show "lg_source (qd_log d2) = lg_source (qd_log d)" by (simp add: d2 r(2))
  have old: "\<forall>q \<in> set (qd_queries d). pq_replay_run_id q < ?i" using assms(3) by (simp add: replays_ok_def)
  have queries: "qd_queries d2 = qd_queries d @ rows1 @ rows2" by (simp add: d2 r(4) d1 r(3))
  have "filter (\<lambda>q. pq_replay_run_id q = ?i) (qd_queries d) = []" "filter (\<lambda>q. pq_replay_run_id q = ?i) rows2 = []"
    "filter (\<lambda>q. pq_replay_run_id q = ?j) (qd_queries d) = []" "filter (\<lambda>q. pq_replay_run_id q = ?j) rows1 = []"
    "filter (\<lambda>q. pq_replay_run_id q = ?i) rows1 = rows1" "filter (\<lambda>q. pq_replay_run_id q = ?j) rows2 = rows2"
    using old r(6,7) ok1(3) by (fastforce simp: filter_empty_conv filter_id_conv)+
  then have "rows_of (rn_id b) d2 = rows1" "rows_of (rn_id c) d2 = rows2"
    by (simp_all add: rows_of_def queries ok1(2) id2)
  then show "map anonymous (query_results (rn_id b) d2) = map anonymous (query_results (rn_id c) d2)"
    using anonymous_results [OF r(5), of ?n1 ?n2] r(6,7) by (simp add: query_results_def)
qed

section \<open>Nothing to compare\<close>

lemma anonymous_fields [simp]:
  "pq_passed (anonymous q) = pq_passed q" "pq_result_count (anonymous q) = pq_result_count q"
  "pq_top_result_changed (anonymous q) = pq_top_result_changed q"
  "replay_query_comparison_key cx (anonymous q) = replay_query_comparison_key cx q"
  by (simp_all add: anonymous_def replay_query_comparison_key_def Let_def)

lemma map_dict_set: "map (apsnd f) (dict_set k v d) = dict_set k (f v) (map (apsnd f) d)"
  by (induction d) auto

lemma dict_merge_Cons: "dict_merge a ((k, v) # b) = dict_merge (dict_set k v a) b"
  by (simp add: dict_merge_def)

lemma map_dict_merge: "map (apsnd f) (dict_merge a b) = dict_merge (map (apsnd f) a) (map (apsnd f) b)"
proof (induction b arbitrary: a)
  case (Cons kv b)
  obtain k v where "kv = (k, v)" by fastforce
  then show ?case by (simp add: dict_merge_Cons Cons map_dict_set)
qed (simp add: dict_merge_def)

lemma keyed_anonymous: "map (apsnd anonymous) (keyed_rows cx rows) = keyed_rows cx (map anonymous rows)"
  by (simp add: keyed_rows_def map_dict_merge comp_def)

lemma dict_get_apsnd: "dict_get (map (apsnd f) d) k = map_option f (dict_get d k)"
  by (induction d) auto

lemma shared_same:
  assumes "map anonymous rows1 = map anonymous rows2" "(b, c) \<in> set (shared_rows cx rows1 rows2)"
  shows "anonymous b = anonymous c"
proof -
  let ?b = "keyed_rows cx rows1" and ?c = "keyed_rows cx rows2"
  obtain k where k: "k \<in> fst ` set ?b" "k \<in> fst ` set ?c" "b = the (dict_get ?b k)" "c = the (dict_get ?c k)"
    using assms(2) by (auto simp: shared_rows_def Let_def)
  then obtain x y where xy: "dict_get ?b k = Some x" "dict_get ?c k = Some y"
    by (metis dom_map_of_conv_image_fst domD)
  have "map_option anonymous (dict_get ?b k) = map_option anonymous (dict_get ?c k)"
    unfolding dict_get_apsnd [symmetric] keyed_anonymous assms(1) ..
  then show ?thesis using k xy by simp
qed

lemma nothing_changed:
  assumes "map anonymous rows1 = map anonymous rows2"
  shows "filter (\<lambda>(b, c). \<not> pq_passed b \<and> pq_passed c) (shared_rows cx rows1 rows2) = []"
    and "filter (\<lambda>(b, c). pq_passed b \<and> \<not> pq_passed c) (shared_rows cx rows1 rows2) = []"
    and "filter is_changed (shared_rows cx rows1 rows2) = []"
proof -
  have same: "pq_passed b = pq_passed c \<and> pq_result_count b = pq_result_count c
      \<and> pq_top_result_changed b = pq_top_result_changed c" if "(b, c) \<in> set (shared_rows cx rows1 rows2)" for b c
    using shared_same [OF assms that] by (metis anonymous_fields(1-3))
  show "filter (\<lambda>(b, c). \<not> pq_passed b \<and> pq_passed c) (shared_rows cx rows1 rows2) = []"
    "filter (\<lambda>(b, c). pq_passed b \<and> \<not> pq_passed c) (shared_rows cx rows1 rows2) = []"
    "filter is_changed (shared_rows cx rows1 rows2) = []"
    using same by (fastforce simp: filter_empty_conv is_changed_def)+
qed

definition at_par :: "evaluation_source \<Rightarrow> bool" where
  "at_par s \<longleftrightarrow> hs_improved_count s = 0 \<and> hs_regressed_count s = 0 \<and> hs_candidate_mrr s = hs_baseline_mrr s
     \<and> hs_candidate_status s = hs_baseline_status s
     \<and> hs_acceptance_checks s = \<lparr>ac_no_regressions = True, ac_mrr_not_lower = True,
          ac_foreign_top_result_count_not_higher = True, ac_zero_result_count_not_higher = True\<rparr>"

definition stands :: "suite_services \<Rightarrow> evaluation_db \<Rightarrow> bool" where
  "stands sv d \<longleftrightarrow> replays_ok (ed_replays d) \<and> index_settled (su_site sv) (lg_source (qd_log (ed_replays d)))
     \<and> cases_logged sv (qd_log (ed_replays d))"

lemma suite_log_grows:
  assumes "run_search_replay_suite sv source limit name overrides d = (d', res)"
  shows "log_grows (qd_log d) (qd_log d')"
  using unasked_suite [of d sv source limit name overrides] assms by (simp add: unasked_def)

lemma evaluate_source_at_par:
  assumes "evaluate_source sv request overrides evaluation s d = (d', Inr row)" "stands sv d"
    and "eq_baseline_harness_name request = eq_candidate_harness_name request"
  shows "at_par row \<and> stands sv d'"
proof -
  obtain idx source where s: "s = (idx, source)" by fastforce
  obtain r1 b r2 c cmp where
    r1: "run_search_replay_suite sv source (eq_limit request) (Some (eq_candidate_harness_name request)) overrides (ed_replays d) = (r1, Inr b)"
    and r2: "run_search_replay_suite sv source (eq_limit request) (Some (eq_candidate_harness_name request)) overrides r1 = (r2, Inr c)"
    and cmp: "compare_search_replay_runs (ste_codecs (su_site sv)) (rn_id b) (rn_id c) r2 = Inr cmp"
    and row: "row = source_row (lg_fresh (qd_log r2)) evaluation idx source cmp b c (lg_clock (qd_log r2))"
    and d': "ed_replays d' = fresh_replays r2"
    using assms(1,3) by (auto simp: evaluate_source_def s Let_def split: sum.splits prod.splits)
  have ok: "replays_ok (ed_replays d)" "index_settled (su_site sv) (lg_source (qd_log (ed_replays d)))"
    "cases_logged sv (qd_log (ed_replays d))" using assms(2) by (simp_all add: stands_def)
  note again = suite_again [OF r1 r2 ok]
  obtain b' c' where found: "load_replay_run (rn_id b) r2 = Inr b'" "load_replay_run (rn_id c) r2 = Inr c'"
    using cmp by (auto simp: compare_search_replay_runs_def get_search_replay_run_detail_def map_sum_Inr split: sum.splits)
  have ids: "rn_id b' = rn_id b" "rn_id c' = rn_id c"
    using found by (auto simp: load_replay_run_def split: option.splits dest: find_row_Some)
  have "cmp_regressed_count cmp = 0" "cmp_improved_count cmp = 0"
    using cmp found nothing_changed [OF again(3)]
    by (auto simp: compare_search_replay_runs_def get_search_replay_run_detail_def ids Let_def)
  moreover have "run_mrr b = run_mrr c" "run_foreign_top b = run_foreign_top c" "rn_status b = rn_status c"
    "rn_zero_result_count b = rn_zero_result_count c"
    using again(1) by (simp_all add: same_verdict_def run_mrr_def run_foreign_top_def)
  ultimately have "at_par row" by (simp add: at_par_def row source_row_def acceptance_def)
  moreover have "replays_ok r2" using suite_runs(1) [OF r2 suite_runs(1) [OF r1 ok(1)]] .
  moreover have "cases_logged sv (qd_log r2)"
    using cases_logged_grow [OF ok(3)] log_grows_trans [OF suite_log_grows [OF r1] suite_log_grows [OF r2]] by blast
  ultimately show ?thesis
    using ok(2) again(2) by (simp add: stands_def d' fresh_replays_def cases_logged_def request_ids_def
        replays_ok_fresh [unfolded fresh_replays_def])
qed

lemma evaluate_sources_at_par:
  assumes "evaluate_sources sv request overrides evaluation ss d = (d', Inr rows)" "stands sv d"
    and "eq_baseline_harness_name request = eq_candidate_harness_name request"
  shows "\<forall>s \<in> set rows. at_par s"
  using assms(1,2)
proof (induction ss arbitrary: d rows)
  case (Cons s ss)
  obtain d1 row where e: "evaluate_source sv request overrides evaluation s d = (d1, Inr row)"
    using Cons.prems(1) by (auto split: sum.splits prod.splits)
  obtain rows' where rest: "evaluate_sources sv request overrides evaluation ss d1 = (d', Inr rows')" "rows = row # rows'"
    using Cons.prems(1) e by (cases "evaluate_sources sv request overrides evaluation ss d1") (auto simp: map_sum_Inr)
  note par = evaluate_source_at_par [OF e Cons.prems(2) assms(3)]
  then show ?case using Cons.IH [OF rest(1)] rest(2) by simp
qed simp

section \<open>Property\<close>

definition evaluated :: "suite_services \<Rightarrow> evaluation_db \<Rightarrow> bool" where
  "evaluated sv d \<longleftrightarrow> (\<exists>so t. (evaluation_step sv)\<^sup>*\<^sup>* (empty_evaluations so t) d)"

lemma evaluated_ok:
  assumes "evaluated sv d"
  shows "evaluations_ok d"
proof -
  obtain so t where "(evaluation_step sv)\<^sup>*\<^sup>* (empty_evaluations so t) d" using assms by (auto simp: evaluated_def)
  then show ?thesis by (induction rule: rtranclp_induct) (auto intro: evaluation_step_ok empty_evaluations_ok)
qed

lemma evaluation_at_par:
  assumes "evaluations_ok d" "stands sv d"
    and "eq_baseline_harness_name request = eq_candidate_harness_name request"
    and "evaluate_search_harness sv request overrides d = (d', Inr er)"
  shows "\<forall>s \<in> set (er_sources er). at_par s"
proof -
  obtain sources where src: "normalize_source_types (eq_source_types request) [] = Inr sources"
    using assms(4) by (cases "normalize_source_types (eq_source_types request) []") (simp_all add: evaluate_search_harness_def)
  let ?v = "new_evaluation (lg_fresh (qd_log (ed_replays d))) request sources overrides (lg_clock (qd_log (ed_replays d)))"
  let ?d = "d\<lparr>ed_replays := fresh_replays (ed_replays d), ed_evaluations := ed_evaluations d @ [?v]\<rparr>"
  obtain d1 out where e: "evaluate_sources sv request overrides (lg_fresh (qd_log (ed_replays d))) (enumerate 0 sources) ?d = (d1, out)"
    by fastforce
  have "stands sv ?d"
    using assms(2) replays_ok_fresh [of "ed_replays d"]
    by (simp add: stands_def fresh_replays_def cases_logged_def request_ids_def)
  moreover obtain rows where "out = Inr rows" "er_sources er = rows"
    using assms(4) by (auto simp: evaluate_search_harness_def src Let_def e to_evaluation_response_def split: sum.splits)
  ultimately show ?thesis using evaluate_sources_at_par [of sv request overrides _ _ ?d d1 rows] e assms(3) by blast
qed



end
