(* ===== verification/Spec2Isabelle.thy ===== *)
theory Spec2Isabelle
  imports Span_Windows Table_Merge Run_System Run_Faithful Task_Guarantees Span_Index Batch_Reports
    Run_Cleanup Harness_Parity
begin

text \<open>
  A verification library for docling-system, a service that ingests PDF documents, parses them with
  docling, validates and promotes the results, and runs agent tasks over them. All paths below are
  under \<open>src/\<close>.

  \<^bold>\<open>The program.\<close> A FastAPI process takes uploads (\<open>app/services/document_ingest.py\<close>), stages the
  file, checks it, and queues a run for the document (\<open>document_run_queue.py\<close>), answering repeated
  requests from an idempotency table (\<open>idempotency.py\<close>). Worker processes claim runs under a lease
  (\<open>run_leases.py\<close>) and push each through the stages of \<open>runs.py\<close>: parse
  (\<open>docling_parser*.py\<close>), persist (\<open>run_persistence.py\<close>), embed, validate (\<open>validation.py\<close>),
  promote or fail (\<open>run_post_promotion.py\<close>). Retrieval builds overlapping text spans from chunks
  and tables (\<open>retrieval_span_specs.py\<close>). A second queue holds agent tasks with dependencies and
  approvals (\<open>agent_tasks.py\<close>, \<open>agent_task_lifecycle.py\<close>, \<open>agent_task_dependencies.py\<close>), worked
  off by \<open>agent_task_worker_*.py\<close>. Access is checked in \<open>app/api\<close>. A directory of PDF files is ingested
  as a batch (\<open>ingest_batches.py\<close>), whose reports follow the runs it queued. A search
  (\<open>search_execution_orchestration.py\<close>) runs stages of keyword, metadata, vector and neighbour search
  over chunks, tables and spans, fuses and reranks the candidates (\<open>search_ranking.py\<close>,
  \<open>search_harness_reranking.py\<close>) under a harness from a registry. Every search is
  logged and can be replayed (\<open>search_history.py\<close>); suites of replays evaluate a new harness against the
  old one (\<open>search_harness_evaluations.py\<close>), and a gate decides on its release
  (\<open>search_release_gate_core.py\<close>). Beside the service, maintenance
  removes old runs and files (\<open>cleanup.py\<close>), and an audit checks the tables and files
  (\<open>audit.py\<close>).

  \<^bold>\<open>The state.\<close> \<open>Data_Model\<close> has one record per table (\<open>app/db/model_domains\<close>), the enumerations, and
  \<open>world\<close>: what the session sees (\<open>w_db\<close>), what is committed (\<open>w_saved\<close>), the files, the clock and
  the next identifier. \<open>commit\<close> and \<open>rollback\<close> move between the first two. A handler is a function
  from world to world with a result \<open>exn + 'a\<close>; every raise of the code is an \<open>Inl\<close>. UUIDs are natural
  numbers that never repeat; times are integers (microseconds); strings are lists of Latin-1
  characters; dictionaries are association lists in insertion order. Row locks are implicit, because
  a transaction is one step; the races the code handles (a second insert of the same digest or of the
  same key) are an argument, a change of the database that happens before the insert.

  \<^bold>\<open>The theories.\<close>
  \<^item> \<open>Prelude\<close>: dictionaries, strings, JSON, rows found and updated by key, least elements.
  \<^item> \<open>Data_Model\<close>: records, settings, codecs, world.
  \<^item> \<open>Text_Norm\<close>, \<open>Parse_Items\<close>, \<open>Table_Merge\<close>: items of a parsed document to chunks, captions,
    segments and logical tables. Shown: chunks are the body items in order under the last heading;
    logical tables partition the segments and lose no row but repeated headers, which are counted;
    the merge check never raises.
  \<^item> \<open>Span_Windows\<close>: the windowing loop equals a sliding window, and the spans cover every word.
  \<^item> \<open>Storage\<close>: artifact paths, staging (refines the check of the whole file).
  \<^item> \<open>Idempotency\<close>, \<open>Run_Queue\<close>, \<open>Ingest_Admission\<close>: requests. Shown: the functional behaviour of each
    branch, replay of repeated requests, and that a failed upload leaves nothing behind.
  \<^item> \<open>Api_Access\<close>: modes, credentials, capabilities, rate limit, bind check.
  \<^item> \<open>Lease_Queue\<close>: the contract of a queue of leased work, as the locales \<open>lease_queue\<close> and
    \<open>lease_recovery\<close>; \<open>Run_Leases\<close> and \<open>Task_Leases\<close> interpret them on the code's two queues.
  \<^item> \<open>Run_Persistence\<close>, \<open>Run_Validation\<close>, \<open>Run_Processor\<close>: the stages of a run. Shown: every run given
    to \<open>process_run\<close> is left completed, waiting or failed, and committed.
  \<^item> \<open>Run_Faithful\<close>: persistence and validation agree; a run is validated if and only if the content
    of its document is acceptable, for codecs that read back what they write.
  \<^item> \<open>Run_System\<close>: the step relation \<open>run_step\<close> of the ingest service and its invariants.
  \<^item> \<open>Task_Graph\<close>, \<open>Agent_Tasks\<close>: creation, approval, release; the cycle search is exact and ends.
  \<^item> \<open>Task_State\<close>, \<open>Task_System\<close>, \<open>Task_Guarantees\<close>: the invariant of the task tables, the life of a
    task as a state machine (\<open>row_change\<close>), the step relation \<open>task_step\<close> that refines it, and what
    follows: gates before a claim, acyclic dependencies, checkpoints that survive, tasks that are
    always settled.

  \<^item> \<open>Directory_Scan\<close>, \<open>Ingest_Batches\<close>, \<open>Batch_Reports\<close>: the scan of a directory, which equals a
    recursive specification; the ingest of its files, with every counter accounted for; the reports,
    which never claim a run that does not exist.
  \<^item> \<open>Search_Features\<close>, \<open>Search_Ranking\<close>, \<open>Search_Rerank\<close>, \<open>Search_Harness\<close>: normal form of texts and query
    intents; fusion and removal of duplicates over a heap of shared candidates; the linear reranker, a
    permutation cut at the limit, with bounded scores; the registry of harnesses, which stays typed
    under overrides.
  \<^item> \<open>Search_Loaders\<close>, \<open>Search_Supplements\<close>, \<open>Search_Execution\<close>: the queries and filters, late
    interaction, metadata and neighbour stages, and the search itself. \<open>Search_Eligible\<close> and
    \<open>Search_Guarantees\<close> show that all results are rows the request may see, each once, and that a
    failed vector stage leaves exactly the keyword search.
  \<^item> \<open>Span_Index\<close>: the retrieval spans and vectors of a run (\<open>retrieval_spans.py\<close>), rebuilt with every
    failure of the embedding provider, and completed before a search. Shown: the index stays in step
    with the chunks and tables it was built from, and a search first completes it.
  \<^item> \<open>Search_Log\<close>: the rows that a search leaves, reading them back, feedback, and the replay of a logged
    search (\<open>search_execution_persistence.py\<close>, \<open>search_history.py\<close>). Shown over all histories of the log
    (\<open>log_history\<close>): what was answered can be read back, and a replay on the same index reproduces it.
  \<^item> \<open>Replay_Suite\<close>: cases from the log, their judgement, counts and rank metrics
    (\<open>search_replay_*.py\<close>). Shown: the counts of a run are those of its rows, and suites do not add
    cases for later suites.
  \<^item> \<open>Harness_Evaluation\<close>, \<open>Release_Gate\<close>, \<open>Harness_Parity\<close>: two harnesses compared on the same cases, the
    acceptance checks, and the gate on a release. Shown: a release passes if and only if its evaluation
    meets the thresholds, and a harness compared with itself meets them all.
  \<^item> \<open>Integrity_Audit\<close>, \<open>Run_Cleanup\<close>: the audit of an operator and the maintenance of old runs. Shown:
    the audit accepts what a worker leaves behind, but for two gaps in its own tables; clean-up
    removes exactly the superseded runs; and \<open>maintained_step\<close>, the steps of the service together with
    those of maintenance, keeps the life cycle.

  \<^bold>\<open>Steps and fences.\<close> The code never looks at the lease before the final writes of a worker. The
  life-cycle invariants are shown for steps in which workers write only while they hold the lease
  (\<open>fenced\<close> in \<open>run_step\<close> and \<open>maintained_step\<close>, \<open>working\<close> in \<open>task_step\<close>); \<open>attempts_bounded\<close> holds without it, and
  \<open>stale_worker_undoes_completion\<close> shows what can go wrong without it.

  \<^bold>\<open>Arguments for code that is not in the repository, or is left out.\<close> \<open>codecs\<close> (JSON, YAML, SHA-256,
  date formats), the page counter of pypdfium2, and hooks: the docling conversion, the embedding
  provider, whether the rebuild of spans and the semantic pass of a run raise; executor, context writer, report and
  impact refresh of a task. The ranks of text search and the similarity of vectors, which PostgreSQL
  computes, are arguments of a search, and so is the write of its log, which \<open>Search_Log\<close> supplies but for
  the operator runs beside it. The cases that suites take from evaluations and from claim feedback, the
  validation of stored filters and the hash of a release package are arguments; so are the rows of evaluations for the
  audit, and the directories that exist and their listing for the clean-up.
  Scores are exact rationals where the code has floats; UUIDs sort as numbers, not as their strings. A
  directory tree does not change while it is ingested. Hypotheses on hooks are stated in the theorem that needs them, and each
  such theorem has a witness with concrete hooks.

  \<^bold>\<open>Bounds and fuel.\<close> No definition uses fuel: loops recurse on their input or on the measure of
  what is left (\<open>load_graph\<close>: tasks not loaded yet; \<open>visit\<close>: tasks not on the path). Retry back-off
  and attempt limits use unbounded integers, as Python does.

  \<^bold>\<open>Not modelled.\<close> Routing, response schemas and the UI (glue); SQL migrations; command line tools
  and the architecture, hygiene and hotspot checks (tools for developers); docling conversion and
  table supplements on disk (external code and configuration); the semantic layer, evidence and audit
  bundles, claim support, retrieval learning, readiness bootstraps (reports over the tables);
  evaluation and chat (SQL and model calls), the governance event of a release, the reset of a local
  installation. The plan for later work: evaluation scores (\<open>evaluation_scoring.py\<close>), the run lineage
  of tables, the readiness of a release.
\<close>

end
